(* ===== verification/Prelude.thy ===== *)
theory Prelude
  imports Main "HOL-Library.Word" "HOL-Library.List_Lexorder" "HOL-Library.Char_ord"
    "HOL-Library.Multiset"
begin

text \<open>
  Shared vocabulary of the development: Rust's machine integers and their checked, saturating and
  wrapping operations, the crate-wide error type (\<open>src/src/error.rs\<close>) and the \<open>Result\<close> type with its
  \<open>?\<close> operator, the ordered maps (\<open>BTreeMap\<close>, the sled tree) with the interface law every client
  uses, and little/big endian encodings.
\<close>

section \<open>Machine integers\<close>

type_synonym u8 = "8 word"
type_synonym u16 = "16 word"
type_synonym u32 = "32 word"
type_synonym u64 = "64 word"
type_synonym bytes = "u8 list"

named_theorems codec \<open>how a reader consumes what the matching writer produced\<close>
named_theorems ledger \<open>balance and token effects of the delta operations\<close>

text \<open>Rust's \<open>saturating_add\<close>, \<open>saturating_sub\<close>, \<open>saturating_mul\<close> and \<open>checked_add\<close> on unsigned
  integers; the plain operators wrap around, as they do in the release profile.\<close>

definition saturating_add :: "'a::len word \<Rightarrow> 'a word \<Rightarrow> 'a word" where
  "saturating_add a b = (if uint a + uint b < 2 ^ LENGTH('a) then a + b else - 1)"

definition saturating_sub :: "'a::len word \<Rightarrow> 'a word \<Rightarrow> 'a word" where
  "saturating_sub a b = (if b \<le> a then a - b else 0)"

definition saturating_mul :: "'a::len word \<Rightarrow> 'a word \<Rightarrow> 'a word" where
  "saturating_mul a b = (if uint a * uint b < 2 ^ LENGTH('a) then a * b else - 1)"

definition checked_add :: "'a::len word \<Rightarrow> 'a word \<Rightarrow> 'a word option" where
  "checked_add a b = (if uint a + uint b < 2 ^ LENGTH('a) then Some (a + b) else None)"

definition u64_max :: u64 where "u64_max = - 1"

definition i64_min :: int where "i64_min = - (2 ^ 63)"
definition i64_max :: int where "i64_max = 2 ^ 63 - 1"

text \<open>\<open>i64::try_from(i128)\<close>.\<close>

definition i64_try_from :: "int \<Rightarrow> int option" where
  "i64_try_from v = (if i64_min \<le> v \<and> v \<le> i64_max then Some v else None)"

lemma uint_add_small:
  "uint (a :: 'a::len word) + uint b < 2 ^ LENGTH('a) \<Longrightarrow> uint (a + b) = uint a + uint b"
  by (simp add: uint_word_ariths)

lemma uint_mult_small:
  "uint (a :: 'a::len word) * uint b < 2 ^ LENGTH('a) \<Longrightarrow> uint (a * b) = uint a * uint b"
  by (simp add: uint_word_ariths)

lemma uint_minus_one: "uint (- 1 :: 'a::len word) = 2 ^ LENGTH('a) - 1"
  by (simp add: unsigned_minus_1_eq_mask mask_eq_exp_minus_1)

lemma uint_saturating_add:
  "uint (saturating_add a (b :: 'a::len word)) = min (uint a + uint b) (2 ^ LENGTH('a) - 1)"
  by (auto simp: saturating_add_def uint_add_small uint_minus_one)

lemma uint_saturating_mul:
  "uint (saturating_mul a (b :: 'a::len word)) = min (uint a * uint b) (2 ^ LENGTH('a) - 1)"
  by (auto simp: saturating_mul_def uint_mult_small uint_minus_one)

lemma uint_saturating_sub:
  "uint (saturating_sub a (b :: 'a::len word)) = max 0 (uint a - uint b)"
  by (auto simp: saturating_sub_def uint_minus_simple_alt [symmetric] word_le_def)

lemma checked_add_Some:
  "checked_add a b = Some c \<Longrightarrow> uint c = uint a + uint b"
  by (auto simp: checked_add_def uint_add_small split: if_splits)

section \<open>Errors and results\<close>

text \<open>\<open>error.rs\<close>: the constructors of \<open>Error\<close>. The payload is the stable part of the message (an
  error name), the interpolated values are left out. \<open>Panic\<close> is not a constructor of the source: it
  marks the points where the Rust code panics (an index out of range, a division by zero), where no
  value is returned at all.\<close>

datatype error =
    Hex
  | Address
  | PublicKey
  | Signature
  | Serialization string
  | StorageErr string
  | Json
  | BlockValidation string
  | NotFound
  | Overflow string
  | Http
  | Sync string
  | StaleTip
  | FutureBlock
  | Config string
  | Panic string

type_synonym 'a res = "error + 'a"

text \<open>The \<open>?\<close> operator.\<close>

definition rbind :: "'e + 'a \<Rightarrow> ('a \<Rightarrow> 'e + 'b) \<Rightarrow> 'e + 'b" where
  "rbind m f = (case m of Inl e \<Rightarrow> Inl e | Inr x \<Rightarrow> f x)"

definition ok_or :: "'e \<Rightarrow> 'a option \<Rightarrow> 'e + 'a" where
  "ok_or e m = (case m of None \<Rightarrow> Inl e | Some x \<Rightarrow> Inr x)"

definition ensure :: "bool \<Rightarrow> 'e \<Rightarrow> 'e + unit" where
  "ensure b e = (if b then Inr () else Inl e)"

definition is_ok :: "'e + 'a \<Rightarrow> bool" where
  "is_ok m = (case m of Inl _ \<Rightarrow> False | Inr _ \<Rightarrow> True)"

definition unwrap_or :: "'a \<Rightarrow> 'a option \<Rightarrow> 'a" where
  "unwrap_or d m = (case m of None \<Rightarrow> d | Some x \<Rightarrow> x)"

text \<open>\<open>for x in xs { step(x)? }\<close> with a state threaded through.\<close>

fun rfold :: "('a \<Rightarrow> 's \<Rightarrow> 'e + 's) \<Rightarrow> 'a list \<Rightarrow> 's \<Rightarrow> 'e + 's" where
  "rfold f [] s = Inr s"
| "rfold f (x # xs) s = rbind (f x s) (rfold f xs)"

lemma rbind_simps [simp]:
  "rbind (Inl e) f = Inl e"
  "rbind (Inr x) f = f x"
  by (simp_all add: rbind_def)

lemma rbind_eq_Inr: "rbind m f = Inr y \<longleftrightarrow> (\<exists>x. m = Inr x \<and> f x = Inr y)"
  by (cases m) auto

lemma rbind_eq_Inl: "rbind m f = Inl e \<longleftrightarrow> m = Inl e \<or> (\<exists>x. m = Inr x \<and> f x = Inl e)"
  by (cases m) auto

lemma rbind_assoc: "rbind (rbind m f) g = rbind m (\<lambda>x. rbind (f x) g)"
  by (cases m) auto

lemma rbind_cong: "m = m' \<Longrightarrow> (\<And>x. m' = Inr x \<Longrightarrow> f x = g x) \<Longrightarrow> rbind m f = rbind m' g"
  by (cases m') auto

lemma rbind_ret [simp]: "rbind m Inr = m"
  by (cases m) auto

lemma ok_or_simps [simp]: "ok_or e None = Inl e" "ok_or e (Some x) = Inr x"
  by (simp_all add: ok_or_def)

lemma ok_or_eq_Inr [simp]: "ok_or e m = Inr x \<longleftrightarrow> m = Some x"
  by (cases m) auto

lemma ensure_simps [simp]: "ensure True e = Inr ()" "ensure False e = Inl e"
  by (simp_all add: ensure_def)

lemma ensure_eq_Inr [simp]: "ensure b e = Inr u \<longleftrightarrow> b"
  by (simp add: ensure_def)

lemma unwrap_or_simps [simp]: "unwrap_or d None = d" "unwrap_or d (Some x) = x"
  by (simp_all add: unwrap_or_def)

lemma is_ok_simps [simp]: "is_ok (Inl e) = False" "is_ok (Inr x) = True"
  by (simp_all add: is_ok_def)

lemma rfold_append: "rfold f (xs @ ys) s = rbind (rfold f xs s) (rfold f ys)"
  by (induction xs arbitrary: s) (simp_all add: rbind_assoc cong: rbind_cong)

lemma rfold_invariant:
  assumes "\<And>x s s'. x \<in> set xs \<Longrightarrow> P s \<Longrightarrow> f x s = Inr s' \<Longrightarrow> P s'"
    and "P s" and "rfold f xs s = Inr s'"
  shows "P s'"
  using assms by (induction xs arbitrary: s) (auto simp: rbind_eq_Inr)

section \<open>Ordered maps\<close>

text \<open>The interface of a key-value map as its clients use it: what a lookup returns after an insert
  or a removal, and that two well-formed maps with the same lookups are the same map. The rollback
  of a block (\<open>storage.rs\<close>) rests on \<open>restore_all\<close>.\<close>

locale kv_map =
  fixes get :: "'m \<Rightarrow> 'k \<Rightarrow> 'v option"
    and put :: "'k \<Rightarrow> 'v \<Rightarrow> 'm \<Rightarrow> 'm"
    and del :: "'k \<Rightarrow> 'm \<Rightarrow> 'm"
    and wf :: "'m \<Rightarrow> bool"
  assumes get_put: "get (put k v m) k' = (if k' = k then Some v else get m k')"
    and get_del: "get (del k m) k' = (if k' = k then None else get m k')"
    and wf_put: "wf m \<Longrightarrow> wf (put k v m)"
    and wf_del: "wf m \<Longrightarrow> wf (del k m)"
    and ext: "wf m \<Longrightarrow> wf m' \<Longrightarrow> (\<And>k. get m k = get m' k) \<Longrightarrow> m = m'"
begin

definition write_back :: "'k \<times> 'v option \<Rightarrow> 'm \<Rightarrow> 'm" where
  "write_back u m = (case snd u of None \<Rightarrow> del (fst u) m | Some v \<Rightarrow> put (fst u) v m)"

lemma wf_write_back: "wf m \<Longrightarrow> wf (write_back u m)"
  by (simp add: write_back_def wf_put wf_del split: option.split)

lemma get_write_back:
  "get (write_back u m) k = (if k = fst u then snd u else get m k)"
  by (auto simp: write_back_def get_put get_del split: option.split)

lemma wf_fold_write_back: "wf m \<Longrightarrow> wf (fold write_back us m)"
  by (induction us arbitrary: m) (auto simp: wf_write_back)

lemma get_fold_write_back:
  assumes "\<And>k v. (k, v) \<in> set us \<Longrightarrow> v = old k"
  shows "get (fold write_back us m) k = (if k \<in> fst ` set us then old k else get m k)"
  using assms
proof (induction us arbitrary: m)
  case Nil
  then show ?case by simp
next
  case (Cons u us)
  have "get (fold write_back us (write_back u m)) k
      = (if k \<in> fst ` set us then old k else get (write_back u m) k)"
    using Cons by auto
  moreover have "snd u = old (fst u)"
    using Cons.prems [of "fst u" "snd u"] by simp
  ultimately show ?case
    by (auto simp: get_write_back)
qed

text \<open>Writing the recorded previous values back over every key that changed gives the old map.\<close>

lemma restore_all:
  assumes "wf m" and "wf m'"
    and rec: "\<And>k v. (k, v) \<in> set us \<Longrightarrow> v = get m k"
    and frame: "\<And>k. k \<notin> fst ` set us \<Longrightarrow> get m' k = get m k"
  shows "fold write_back us m' = m"
proof (rule ext)
  show "wf (fold write_back us m')" using \<open>wf m'\<close> by (rule wf_fold_write_back)
  show "wf m" by fact
  show "get (fold write_back us m') k = get m k" for k
    using get_fold_write_back [OF rec] frame by auto
qed

lemma put_commute:
  "k \<noteq> k' \<Longrightarrow> wf m \<Longrightarrow> put k v (put k' v' m) = put k' v' (put k v m)"
  by (rule ext) (auto simp: get_put wf_put)

lemma put_same: "wf m \<Longrightarrow> get m k = Some v \<Longrightarrow> put k v m = m"
  by (rule ext) (auto simp: get_put wf_put)

lemma del_same: "wf m \<Longrightarrow> get m k = None \<Longrightarrow> del k m = m"
  by (rule ext) (auto simp: get_del wf_del)

lemma del_put: "wf m \<Longrightarrow> get m k = None \<Longrightarrow> del k (put k v m) = m"
  by (rule ext) (auto simp: get_put get_del wf_put wf_del)

end

text \<open>\<open>BTreeMap\<close> and the sled tree: an association list in ascending key order.\<close>

type_synonym ('k, 'v) btmap = "('k \<times> 'v) list"

definition bt_get :: "('k, 'v) btmap \<Rightarrow> 'k \<Rightarrow> 'v option" where
  "bt_get m k = map_of m k"

fun bt_put :: "'k::linorder \<Rightarrow> 'v \<Rightarrow> ('k, 'v) btmap \<Rightarrow> ('k, 'v) btmap" where
  "bt_put k v [] = [(k, v)]"
| "bt_put k v ((k', v') # m) =
     (if k < k' then (k, v) # (k', v') # m
      else if k = k' then (k, v) # m
      else (k', v') # bt_put k v m)"

definition bt_del :: "'k \<Rightarrow> ('k, 'v) btmap \<Rightarrow> ('k, 'v) btmap" where
  "bt_del k m = filter (\<lambda>kv. fst kv \<noteq> k) m"

definition bt_wf :: "('k::linorder, 'v) btmap \<Rightarrow> bool" where
  "bt_wf m = sorted_wrt (<) (map fst m)"

text \<open>\<open>*map.entry(k).or_insert(d)\<close> followed by an in-place change \<open>f\<close>.\<close>

definition bt_entry :: "'k::linorder \<Rightarrow> 'v \<Rightarrow> ('v \<Rightarrow> 'v) \<Rightarrow> ('k, 'v) btmap \<Rightarrow> ('k, 'v) btmap" where
  "bt_entry k d f m = bt_put k (f (unwrap_or d (bt_get m k))) m"

lemma bt_get_Nil [simp]: "bt_get [] k = None"
  by (simp add: bt_get_def)

lemma bt_get_Cons [simp]:
  "bt_get ((k, v) # m) k' = (if k' = k then Some v else bt_get m k')"
  by (simp add: bt_get_def)

lemma bt_get_put [simp]: "bt_get (bt_put k v m) k' = (if k' = k then Some v else bt_get m k')"
  by (induction k v m rule: bt_put.induct) (auto simp: bt_get_def)

lemma bt_get_del [simp]: "bt_get (bt_del k m) k' = (if k' = k then None else bt_get m k')"
  by (induction m) (auto simp: bt_get_def bt_del_def)

lemma fst_set_bt_put: "fst ` set (bt_put k v m) = insert k (fst ` set m)"
  by (induction k v m rule: bt_put.induct) auto

lemma bt_wf_Nil [simp]: "bt_wf []"
  by (simp add: bt_wf_def)

lemma bt_wf_Cons: "bt_wf (kv # m) \<longleftrightarrow> (\<forall>k \<in> fst ` set m. fst kv < k) \<and> bt_wf m"
  by (auto simp: bt_wf_def)

lemma bt_wf_put [simp]: "bt_wf m \<Longrightarrow> bt_wf (bt_put k v m)"
  by (induction k v m rule: bt_put.induct) (auto simp: bt_wf_Cons fst_set_bt_put)

lemma bt_wf_del [simp]: "bt_wf m \<Longrightarrow> bt_wf (bt_del k m)"
  by (induction m) (auto simp: bt_wf_Cons bt_del_def)

lemma bt_get_None_iff: "bt_get m k = None \<longleftrightarrow> k \<notin> fst ` set m"
  by (simp add: bt_get_def map_of_eq_None_iff)

lemma bt_get_SomeI: "bt_wf m \<Longrightarrow> (k, v) \<in> set m \<Longrightarrow> bt_get m k = Some v"
  by (induction m) (auto simp: bt_wf_Cons)

lemma bt_get_SomeD: "bt_get m k = Some v \<Longrightarrow> (k, v) \<in> set m"
  by (simp add: bt_get_def map_of_SomeD)

lemma bt_wf_distinct: "bt_wf m \<Longrightarrow> distinct (map fst m)"
  by (simp add: bt_wf_def strict_sorted_iff)

lemma bt_ext:
  assumes "bt_wf m" and "bt_wf m'" and eq: "\<And>k. bt_get m k = bt_get m' k"
  shows "m = m'"
proof (rule map_sorted_distinct_set_unique [where f = fst])
  have mem: "(k, v) \<in> set m \<longleftrightarrow> (k, v) \<in> set m'" for k v
    using assms by (metis bt_get_SomeD bt_get_SomeI)
  then show same: "set m = set m'" by auto
  show "inj_on fst (set m \<union> set m')"
    unfolding same by (auto simp: inj_on_def) (metis bt_get_SomeI assms(2) option.inject)
qed (use assms in \<open>auto simp: bt_wf_def strict_sorted_iff\<close>)

interpretation bt: kv_map bt_get bt_put bt_del bt_wf
  by unfold_locales (auto intro: bt_ext)

lemma bt_get_entry [simp]:
  "bt_get (bt_entry k d f m) k' = (if k' = k then Some (f (unwrap_or d (bt_get m k))) else bt_get m k')"
  by (simp add: bt_entry_def)

lemma bt_wf_entry [simp]: "bt_wf m \<Longrightarrow> bt_wf (bt_entry k d f m)"
  by (simp add: bt_entry_def)

text \<open>The sum of a quantity over all entries of a map, and how an in-place change moves it.\<close>

definition bt_sum :: "('v \<Rightarrow> int) \<Rightarrow> ('k, 'v) btmap \<Rightarrow> int" where
  "bt_sum q m = (\<Sum>kv\<leftarrow>m. q (snd kv))"

lemma bt_sum_Nil [simp]: "bt_sum q [] = 0"
  by (simp add: bt_sum_def)

lemma bt_sum_Cons [simp]: "bt_sum q (kv # m) = q (snd kv) + bt_sum q m"
  by (simp add: bt_sum_def)

lemma bt_sum_put:
  "bt_wf m \<Longrightarrow> bt_sum q (bt_put k v m)
     = bt_sum q m + q v - (case bt_get m k of None \<Rightarrow> 0 | Some v' \<Rightarrow> q v')"
proof (induction k v m rule: bt_put.induct)
  case (2 k v k' v' m)
  have "k < k' \<Longrightarrow> bt_get m k = None"
    using 2(2) by (auto simp: bt_wf_Cons bt_get_None_iff)
  with 2 show ?case by (auto simp: bt_wf_Cons)
qed simp

lemma bt_sum_entry:
  assumes "bt_wf m" and "q d = 0" and "\<And>v. q (f v) = q v + c"
  shows "bt_sum q (bt_entry k d f m) = bt_sum q m + c"
  using assms by (cases "bt_get m k") (simp_all add: bt_entry_def bt_sum_put)

lemma bt_sum_del:
  "bt_wf m \<Longrightarrow> bt_sum q (bt_del k m) = bt_sum q m - (case bt_get m k of None \<Rightarrow> 0 | Some v \<Rightarrow> q v)"
proof (induction m)
  case (Cons kv m)
  have "bt_get m (fst kv) = None" using Cons.prems by (auto simp: bt_wf_Cons bt_get_None_iff)
  with Cons show ?case by (cases kv) (auto simp: bt_del_def bt_wf_Cons split: option.splits)
qed (simp add: bt_del_def)

section \<open>Byte orders\<close>

text \<open>\<open>to_le_bytes\<close> / \<open>from_le_bytes\<close> of an \<open>n\<close>-byte integer, and the big-endian variants that the
  storage keys use.\<close>

fun le_bytes :: "nat \<Rightarrow> nat \<Rightarrow> bytes" where
  "le_bytes 0 v = []"
| "le_bytes (Suc n) v = word_of_nat (v mod 256) # le_bytes n (v div 256)"

fun of_le :: "bytes \<Rightarrow> nat" where
  "of_le [] = 0"
| "of_le (b # bs) = unat b + 256 * of_le bs"

definition be_bytes :: "nat \<Rightarrow> nat \<Rightarrow> bytes" where
  "be_bytes n v = rev (le_bytes n v)"

definition of_be :: "bytes \<Rightarrow> nat" where
  "of_be bs = of_le (rev bs)"

lemma length_le_bytes [simp]: "length (le_bytes n v) = n"
  by (induction n arbitrary: v) auto

lemma length_be_bytes [simp]: "length (be_bytes n v) = n"
  by (simp add: be_bytes_def)

lemma of_le_le_bytes: "of_le (le_bytes n v) = v mod 256 ^ n"
proof (induction n arbitrary: v)
  case (Suc n)
  have "v mod (256 * 256 ^ n) = 256 * (v div 256 mod 256 ^ n) + v mod 256"
    by (rule mod_mult2_eq)
  with Suc show ?case by (simp add: unat_of_nat)
qed simp

lemma of_be_be_bytes: "of_be (be_bytes n v) = v mod 256 ^ n"
  by (simp add: of_be_def be_bytes_def of_le_le_bytes)

lemma of_le_bound: "of_le bs < 256 ^ length bs"
proof (induction bs)
  case (Cons b bs)
  have "unat b < 256" using unsigned_less [where 'a = nat and w = b] by simp
  with Cons show ?case by simp
qed simp

lemma le_bytes_of_le: "le_bytes (length bs) (of_le bs) = bs"
proof (induction bs)
  case (Cons b bs)
  have "unat b < 256" using unsigned_less [where 'a = nat and w = b] by simp
  with Cons show ?case by (simp add: mod_add_cong)
qed simp

definition u16_le :: "u16 \<Rightarrow> bytes" where "u16_le v = le_bytes 2 (unat v)"
definition u32_le :: "u32 \<Rightarrow> bytes" where "u32_le v = le_bytes 4 (unat v)"
definition u64_le :: "u64 \<Rightarrow> bytes" where "u64_le v = le_bytes 8 (unat v)"
definition u64_be :: "u64 \<Rightarrow> bytes" where "u64_be v = be_bytes 8 (unat v)"
definition u32_be :: "u32 \<Rightarrow> bytes" where "u32_be v = be_bytes 4 (unat v)"

lemma length_int_bytes [simp]:
  "length (u16_le a) = 2" "length (u32_le b) = 4" "length (u64_le c) = 8"
  "length (u64_be c) = 8" "length (u32_be b) = 4"
  by (simp_all add: u16_le_def u32_le_def u64_le_def u64_be_def u32_be_def)

lemma word_of_le_bytes:
  "LENGTH('a::len) = 8 * n \<Longrightarrow> word_of_nat (of_le (le_bytes n (unat (w :: 'a word)))) = w"
proof -
  assume n: "LENGTH('a) = 8 * n"
  have "unat w < 2 ^ (8 * n)" using unsigned_less [where 'a = nat and w = w] n by simp
  then have "unat w < 256 ^ n" by (simp add: power_mult)
  then show ?thesis by (simp add: of_le_le_bytes)
qed

lemma from_le_bytes [simp]:
  "word_of_nat (of_le (u16_le a)) = a"
  "word_of_nat (of_le (u32_le b)) = b"
  "word_of_nat (of_le (u64_le c)) = c"
  by (simp_all add: u16_le_def u32_le_def u64_le_def word_of_le_bytes)

lemma of_le_append: "of_le (xs @ ys) = of_le xs + 256 ^ length xs * of_le ys"
  by (induction xs) (auto simp: algebra_simps)

text \<open>Big-endian keys of one width compare like the numbers: a prefix scan visits heights in order.\<close>

lemma be_bytes_Suc: "be_bytes (Suc n) v = word_of_nat (v div 256 ^ n mod 256) # be_bytes n v"
proof -
  have "le_bytes (Suc n) v = le_bytes n v @ [word_of_nat (v div 256 ^ n mod 256)]"
  proof (induction n arbitrary: v)
    case (Suc n)
    have "le_bytes (Suc (Suc n)) v = word_of_nat (v mod 256) # le_bytes (Suc n) (v div 256)"
      by (simp only: le_bytes.simps)
    also have "\<dots> = word_of_nat (v mod 256) # le_bytes n (v div 256)
        @ [word_of_nat (v div 256 div 256 ^ n mod 256)]"
      by (simp only: Suc.IH)
    finally show ?case by (simp add: div_mult2_eq)
  qed simp
  then show ?thesis by (simp add: be_bytes_def)
qed

lemma be_bytes_mod: "be_bytes n v = be_bytes n (v mod 256 ^ n)"
proof -
  have "le_bytes n v = le_bytes n (v mod 256 ^ n)"
    using le_bytes_of_le [of "le_bytes n v"] by (simp add: of_le_le_bytes)
  then show ?thesis by (simp add: be_bytes_def)
qed

lemma be_bytes_less_iff:
  "v < 256 ^ n \<Longrightarrow> w < 256 ^ n \<Longrightarrow> be_bytes n v < be_bytes n w \<longleftrightarrow> v < w"
proof (induction n arbitrary: v w)
  case 0
  then show ?case by (simp add: be_bytes_def)
next
  case (Suc n)
  let ?B = "256 ^ n :: nat"
  define a b c d where abcd: "a = v div ?B" "b = w div ?B" "c = v mod ?B" "d = w mod ?B"
  have ab: "a < 256" "b < 256"
    using Suc.prems by (simp_all add: abcd less_mult_imp_div_less mult.commute)
  have cd: "c < ?B" "d < ?B" by (simp_all add: abcd)
  have vw: "v = a * ?B + c" "w = b * ?B + d" by (simp_all only: abcd div_mult_mod_eq)
  have word: "(word_of_nat a :: u8) < word_of_nat b \<longleftrightarrow> a < b"
    "(word_of_nat a :: u8) = word_of_nat b \<longleftrightarrow> a = b"
    using ab by (simp_all add: word_less_nat_alt word_unat_eq_iff unat_of_nat)
  have IH: "be_bytes n v < be_bytes n w \<longleftrightarrow> c < d"
    using Suc.IH [OF cd] be_bytes_mod [of n v] be_bytes_mod [of n w] by (simp add: abcd)
  have lex: "v < w \<longleftrightarrow> a < b \<or> a = b \<and> c < d"
  proof (cases "a < b")
    case True
    then have "a * ?B + ?B \<le> b * ?B" by (metis Suc_leI add.commute mult_Suc mult_le_mono1)
    with cd vw True show ?thesis by simp
  next
    case False
    then have "a = b \<or> b * ?B + ?B \<le> a * ?B"
      by (metis Suc_leI add.commute linorder_neqE_nat mult_Suc mult_le_mono1)
    with cd vw False show ?thesis by auto
  qed
  have ab': "v div ?B mod 256 = a" "w div ?B mod 256 = b"
    using ab by (simp_all add: abcd)
  show ?case
    by (simp add: be_bytes_Suc ab' word IH lex)
qed

end
