(* ===== verification/Models.thy ===== *)
theory Models
  imports Text
begin

text \<open>
  The data model (\<open>src/src/models/\<close>): transactions with their assets, blocks, the constants of the
  transaction types, and the accessors of \<open>Transaction\<close>. The verbatim JSON map \<open>asset.extra\<close> is held
  as the two values the code ever reads out of it: the parsed \<open>token\<close> entry and the parsed sObject
  asset (\<open>None\<close> when the key is missing or malformed). The third-party crates the code calls
  (hex, base58, base64, the hash functions and the curve arithmetic) are the fields of \<open>crypto\<close>,
  an argument of every definition that uses them.
\<close>

section \<open>Third-party primitives\<close>

record crypto =
  hex_encode :: "bytes \<Rightarrow> string"
  hex_decode :: "string \<Rightarrow> bytes option"
  bs58_encode :: "bytes \<Rightarrow> string"
  bs58_decode :: "string \<Rightarrow> bytes option"
  bs58check_encode :: "bytes \<Rightarrow> string"
  bs58check_decode :: "string \<Rightarrow> bytes option"
  base64_encode :: "bytes \<Rightarrow> string"
  base64_decode :: "string \<Rightarrow> bytes option"
  sha256 :: "bytes \<Rightarrow> bytes"
  ripemd160 :: "bytes \<Rightarrow> bytes"
  verify_schnorr_legacy :: "bytes \<Rightarrow> bytes \<Rightarrow> string \<Rightarrow> bool res"
  verify_ecdsa :: "bytes \<Rightarrow> bytes \<Rightarrow> string \<Rightarrow> bool res"
  ml_dsa_verify :: "bytes \<Rightarrow> bytes \<Rightarrow> bytes \<Rightarrow> bytes \<Rightarrow> bool res"
  multisig_point :: "u8 \<Rightarrow> string list \<Rightarrow> string res"

text \<open>Documented behaviour of the codec crates: decoding inverts encoding, a hex string has two
  characters per byte, and base58check strings are ASCII.\<close>

definition hex_laws :: "crypto \<Rightarrow> bool" where
  "hex_laws E \<longleftrightarrow>
     (\<forall>bs. hex_decode E (hex_encode E bs) = Some bs \<and> length (hex_encode E bs) = 2 * length bs)"

definition bs58check_laws :: "crypto \<Rightarrow> bool" where
  "bs58check_laws E \<longleftrightarrow> (\<forall>bs. bs58check_decode E (bs58check_encode E bs) = Some bs)"

definition bs58_laws :: "crypto \<Rightarrow> bool" where
  "bs58_laws E \<longleftrightarrow> (\<forall>bs. bs58_decode E (bs58_encode E bs) = Some bs)"

definition base64_laws :: "crypto \<Rightarrow> bool" where
  "base64_laws E \<longleftrightarrow> (\<forall>bs. base64_decode E (base64_encode E bs) = Some bs)"

lemma hex_decode_encode [simp]: "hex_laws E \<Longrightarrow> hex_decode E (hex_encode E bs) = Some bs"
  by (simp add: hex_laws_def)

lemma length_hex_encode [simp]: "hex_laws E \<Longrightarrow> length (hex_encode E bs) = 2 * length bs"
  by (simp add: hex_laws_def)

section \<open>Constants\<close>

definition TRANSFER :: u16 where "TRANSFER = 0"
definition SECOND_SIGNATURE :: u16 where "SECOND_SIGNATURE = 1"
definition DELEGATE_REGISTRATION :: u16 where "DELEGATE_REGISTRATION = 2"
definition VOTE :: u16 where "VOTE = 3"
definition MULTI_SIGNATURE :: u16 where "MULTI_SIGNATURE = 4"
definition IPFS :: u16 where "IPFS = 5"
definition MULTI_PAYMENT :: u16 where "MULTI_PAYMENT = 6"
definition DELEGATE_RESIGNATION :: u16 where "DELEGATE_RESIGNATION = 7"
definition HTLC_LOCK :: u16 where "HTLC_LOCK = 8"
definition HTLC_CLAIM :: u16 where "HTLC_CLAIM = 9"
definition HTLC_REFUND :: u16 where "HTLC_REFUND = 10"

lemmas core_types [simp] =
  TRANSFER_def SECOND_SIGNATURE_def DELEGATE_REGISTRATION_def VOTE_def MULTI_SIGNATURE_def
  IPFS_def MULTI_PAYMENT_def DELEGATE_RESIGNATION_def HTLC_LOCK_def HTLC_CLAIM_def HTLC_REFUND_def

definition TYPE_GROUP_CORE :: u32 where "TYPE_GROUP_CORE = 1"
definition TYPE_GROUP_SOBJ :: u32 where "TYPE_GROUP_SOBJ = 2"
definition TYPE_GROUP_TOKEN :: u32 where "TYPE_GROUP_TOKEN = 3"

lemmas type_groups [simp] = TYPE_GROUP_CORE_def TYPE_GROUP_SOBJ_def TYPE_GROUP_TOKEN_def

definition TOKEN_INIT :: u16 where "TOKEN_INIT = 0"
definition TOKEN_TRANSFER :: u16 where "TOKEN_TRANSFER = 1"
definition TOKEN_MINT :: u16 where "TOKEN_MINT = 2"
definition TOKEN_BURN :: u16 where "TOKEN_BURN = 3"
definition TOKEN_META :: u16 where "TOKEN_META = 4"
definition TOKEN_SELL :: u16 where "TOKEN_SELL = 5"
definition TOKEN_BUY :: u16 where "TOKEN_BUY = 6"
definition TOKEN_CANCEL :: u16 where "TOKEN_CANCEL = 7"
definition TOKEN_LAST :: u16 where "TOKEN_LAST = 7"

lemmas token_types [simp] =
  TOKEN_INIT_def TOKEN_TRANSFER_def TOKEN_MINT_def TOKEN_BURN_def TOKEN_META_def TOKEN_SELL_def
  TOKEN_BUY_def TOKEN_CANCEL_def TOKEN_LAST_def

definition FLAG_MINTABLE :: u8 where "FLAG_MINTABLE = 1"
definition FLAG_BURNABLE :: u8 where "FLAG_BURNABLE = 2"
definition FLAG_FROZEN_CAP :: u8 where "FLAG_FROZEN_CAP = 4"
definition TICKER_SOBJ_TYPE :: u8 where "TICKER_SOBJ_TYPE = 5"
definition MAX_DECIMALS :: u8 where "MAX_DECIMALS = 8"
definition MAX_MEMO :: nat where "MAX_MEMO = 64"
definition META_MAX_NAME :: nat where "META_MAX_NAME = 64"
definition META_MAX_DESCRIPTION :: nat where "META_MAX_DESCRIPTION = 512"
definition META_MAX_WEBSITE :: nat where "META_MAX_WEBSITE = 128"
definition META_MAX_LOGO :: nat where "META_MAX_LOGO = 8192"
definition LOGO_NONE :: u8 where "LOGO_NONE = 0"
definition LOGO_SVG :: u8 where "LOGO_SVG = 1"
definition LOGO_PNG :: u8 where "LOGO_PNG = 2"

lemmas token_consts [simp] =
  FLAG_MINTABLE_def FLAG_BURNABLE_def FLAG_FROZEN_CAP_def TICKER_SOBJ_TYPE_def MAX_DECIMALS_def
  MAX_MEMO_def META_MAX_NAME_def META_MAX_DESCRIPTION_def META_MAX_WEBSITE_def META_MAX_LOGO_def
  LOGO_NONE_def LOGO_SVG_def LOGO_PNG_def

definition SOBJ_TYPE :: u16 where "SOBJ_TYPE = 6"
definition ACTION_REGISTER :: u8 where "ACTION_REGISTER = 0"
definition ACTION_UPDATE :: u8 where "ACTION_UPDATE = 1"
definition ACTION_RESIGN :: u8 where "ACTION_RESIGN = 2"
definition ACTION_TRANSFER :: u8 where "ACTION_TRANSFER = 3"
definition ACTION_SELL :: u8 where "ACTION_SELL = 4"
definition ACTION_BUY :: u8 where "ACTION_BUY = 5"
definition TYPE_DELEGATE :: u8 where "TYPE_DELEGATE = 4"
definition TYPE_SERVICE_NODE :: u8 where "TYPE_SERVICE_NODE = 7"

lemmas sobj_consts [simp] =
  SOBJ_TYPE_def ACTION_REGISTER_def ACTION_UPDATE_def ACTION_RESIGN_def ACTION_TRANSFER_def
  ACTION_SELL_def ACTION_BUY_def TYPE_DELEGATE_def TYPE_SERVICE_NODE_def

definition FEE_REGISTER :: u64 where "FEE_REGISTER = 5000000000"
definition FEE_UPDATE :: u64 where "FEE_UPDATE = 500000000"
definition FEE_RESIGN :: u64 where "FEE_RESIGN = 500000000"
definition FEE_TRANSFER :: u64 where "FEE_TRANSFER = 500000000"
definition FEE_SELL :: u64 where "FEE_SELL = 100000000"
definition FEE_BUY :: u64 where "FEE_BUY = 100000000"

definition sobj_static_fee :: "u8 \<Rightarrow> u64 option" where
  "sobj_static_fee action =
     (if action = ACTION_REGISTER then Some FEE_REGISTER
      else if action = ACTION_UPDATE then Some FEE_UPDATE
      else if action = ACTION_RESIGN then Some FEE_RESIGN
      else if action = ACTION_TRANSFER then Some FEE_TRANSFER
      else if action = ACTION_SELL then Some FEE_SELL
      else if action = ACTION_BUY then Some FEE_BUY
      else None)"

definition VERSION_PQ :: u8 where "VERSION_PQ = 3"
definition BLOCK_VERSION_PQ :: u32 where "BLOCK_VERSION_PQ = 1"
definition ALG_ML_DSA_44 :: u8 where "ALG_ML_DSA_44 = 1"
definition PK_LEN :: nat where "PK_LEN = 1312"
definition SIG_LEN :: nat where "SIG_LEN = 2420"

section \<open>Assets\<close>

record token_transfer_item =
  ti_recipient :: string
  ti_amount :: u64

record token_meta =
  tm_name :: string
  tm_description :: "string option"
  tm_website :: "string option"
  tm_logo_type :: "string option"
  tm_logo :: "string option"

record token_asset =
  ta_id :: string
  ta_decimals :: "u8 option"
  ta_flags :: "u8 option"
  ta_initial_supply :: "u64 option"
  ta_supply_cap :: "u64 option"
  ta_transfers :: "token_transfer_item list option"
  ta_memo :: "string option"
  ta_amount :: "u64 option"
  ta_recipient :: "string option"
  ta_meta :: "token_meta option"
  ta_price :: "u64 option"
  ta_order_id :: "string option"

definition token_asset_default :: token_asset where
  "token_asset_default = \<lparr>ta_id = [], ta_decimals = None, ta_flags = None, ta_initial_supply = None,
     ta_supply_cap = None, ta_transfers = None, ta_memo = None, ta_amount = None,
     ta_recipient = None, ta_meta = None, ta_price = None, ta_order_id = None\<rparr>"

definition logo_type_byte :: "token_meta \<Rightarrow> u8" where
  "logo_type_byte m =
     (if tm_logo_type m = Some ''svg'' then LOGO_SVG
      else if tm_logo_type m = Some ''png'' then LOGO_PNG
      else LOGO_NONE)"

definition logo_type_name :: "u8 \<Rightarrow> string option" where
  "logo_type_name b =
     (if b = LOGO_SVG then Some ''svg'' else if b = LOGO_PNG then Some ''png'' else None)"

definition logo_bytes :: "crypto \<Rightarrow> token_meta \<Rightarrow> bytes option" where
  "logo_bytes E m = (case tm_logo m of None \<Rightarrow> None | Some l \<Rightarrow> base64_decode E l)"

record smart_object_data =
  sd_name :: "string option"
  sd_ntfry_data :: "string option"

record smart_object_asset =
  so_type :: u8
  so_sub_type :: u8
  so_action :: u8
  so_registration_id :: "string option"
  so_recipient :: "string option"
  so_price :: "u64 option"
  so_data :: smart_object_data

record second_signature_asset =
  ss_public_key :: string
  ss_algorithm :: "u8 option"

record multi_signature_asset =
  ms_min :: u8
  ms_public_keys :: "string list"

record payment =
  pay_amount :: u64
  pay_recipient :: string

record htlc_expiration =
  he_type :: u8
  he_value :: u32

record htlc_lock_asset =
  hl_secret_hash :: string
  hl_expiration :: htlc_expiration

record htlc_claim_asset =
  hc_lock_transaction_id :: string
  hc_unlock_secret :: string

record transaction_asset =
  as_votes :: "string list option"
  as_delegate :: "string option"
  as_signature :: "second_signature_asset option"
  as_multi_signature :: "multi_signature_asset option"
  as_payments :: "payment list option"
  as_ipfs :: "string option"
  as_lock :: "htlc_lock_asset option"
  as_claim :: "htlc_claim_asset option"
  as_refund :: "string option"
  as_token :: "token_asset option"
  as_sobj :: "smart_object_asset option"

definition asset_default :: transaction_asset where
  "asset_default = \<lparr>as_votes = None, as_delegate = None, as_signature = None,
     as_multi_signature = None, as_payments = None, as_ipfs = None, as_lock = None,
     as_claim = None, as_refund = None, as_token = None, as_sobj = None\<rparr>"

record pq_signature_block =
  pb_algorithm :: u8
  pb_signature :: string

section \<open>Transactions\<close>

record transaction =
  tx_version :: u8
  tx_network :: "u8 option"
  tx_type_group :: u32
  tx_type :: u16
  tx_nonce :: "u64 option"
  tx_sender_public_key :: string
  tx_fee :: u64
  tx_amount :: u64
  tx_vendor_field :: "string option"
  tx_expiration :: "u32 option"
  tx_recipient :: "string option"
  tx_asset :: "transaction_asset option"
  tx_signature :: "string option"
  tx_second_signature :: "string option"
  tx_sign_signature :: "string option"
  tx_signatures :: "string list option"
  tx_second_signatures :: "pq_signature_block list option"
  tx_timestamp :: "u32 option"
  tx_id :: "string option"
  tx_block_id :: "string option"
  tx_block_height :: "u64 option"
  tx_sequence :: "u32 option"

text \<open>\<open>tx.asset.as_ref().and_then(|a| f(a))\<close>\<close>

definition asset_field :: "(transaction_asset \<Rightarrow> 'a option) \<Rightarrow> transaction \<Rightarrow> 'a option" where
  "asset_field f tx = (case tx_asset tx of None \<Rightarrow> None | Some a \<Rightarrow> f a)"

definition has_vendor_field :: "transaction \<Rightarrow> bool" where
  "has_vendor_field tx \<longleftrightarrow> tx_type_group tx = TYPE_GROUP_CORE \<and>
     (tx_type tx = TRANSFER \<or> tx_type tx = MULTI_PAYMENT \<or> tx_type tx = HTLC_LOCK)"

definition second_signature_any :: "transaction \<Rightarrow> string option" where
  "second_signature_any tx =
     (case tx_second_signature tx of None \<Rightarrow> tx_sign_signature tx | Some s \<Rightarrow> Some s)"

definition is_pq :: "transaction \<Rightarrow> bool" where
  "is_pq tx \<longleftrightarrow> tx_version tx = VERSION_PQ"

definition pq_blocks :: "transaction \<Rightarrow> pq_signature_block list" where
  "pq_blocks tx = unwrap_or [] (tx_second_signatures tx)"

definition pq_surcharge :: "transaction \<Rightarrow> u64 \<Rightarrow> u64" where
  "pq_surcharge tx fee_per_byte =
     (if \<not> is_pq tx then 0
      else saturating_mul fee_per_byte
        (sum_list (map (\<lambda>b. 3 + word_of_nat (length (pb_signature b) div 2)) (pq_blocks tx))))"

definition is_sobj :: "transaction \<Rightarrow> bool" where
  "is_sobj tx \<longleftrightarrow> tx_type_group tx = TYPE_GROUP_SOBJ \<and> tx_type tx = SOBJ_TYPE"

definition is_token :: "transaction \<Rightarrow> bool" where
  "is_token tx \<longleftrightarrow> tx_type_group tx = TYPE_GROUP_TOKEN \<and> tx_type tx \<le> TOKEN_LAST"

definition token_asset_of :: "transaction \<Rightarrow> token_asset option" where
  "token_asset_of tx = (if is_token tx then asset_field as_token tx else None)"

definition sobj_asset_of :: "transaction \<Rightarrow> smart_object_asset option" where
  "sobj_asset_of tx = (if is_sobj tx then asset_field as_sobj tx else None)"

section \<open>Blocks\<close>

record block =
  b_id :: "string option"
  b_version :: u32
  b_timestamp :: u32
  b_previous_block :: string
  b_height :: u64
  b_number_of_transactions :: u32
  b_total_amount :: u64
  b_total_fee :: u64
  b_reward :: u64
  b_payload_length :: u32
  b_payload_hash :: string
  b_generator_public_key :: string
  b_block_signature :: "string option"
  b_pq_signature :: "pq_signature_block option"
  b_transactions :: "transaction list"

definition block_header :: "block \<Rightarrow> block" where
  "block_header b = b\<lparr>b_transactions := []\<rparr>"

section \<open>Service-node records (SHIP-42)\<close>

definition SERVICE_ROLES :: "string list" where
  "SERVICE_ROLES = [''relay'', ''seeder'', ''messenger'', ''microblog'', ''provider'']"

text \<open>The query loop of \<open>parse_service_node\<close>: the accumulated roles, api url and storage size.\<close>

fun service_query ::
  "string list \<Rightarrow> string list \<times> string option \<times> nat option \<Rightarrow>
   (string list \<times> string option \<times> nat option) option" where
  "service_query [] acc = Some acc"
| "service_query (kv # rest) (roles, api, storage) =
     (case split_once (CHR ''='') kv of
        None \<Rightarrow> None
      | Some (k, v) \<Rightarrow>
          if k = ''roles'' then
            service_query rest
              (map to_ascii_lowercase (filter (\<lambda>r. r \<noteq> []) (split_on (CHR '','') v)), api, storage)
          else if k = ''api'' then service_query rest (roles, Some v, storage)
          else if k = ''storage'' then
            (case parse_uint 32 v of
               None \<Rightarrow> None
             | Some n \<Rightarrow> service_query rest (roles, api, Some n))
          else None)"

definition parse_service_node ::
  "string \<Rightarrow> (string \<times> string list \<times> string option \<times> nat option) option" where
  "parse_service_node data =
     (case strip_prefix ''iroh://'' data of
        None \<Rightarrow> None
      | Some rest \<Rightarrow>
          (let (i, query) = (case split_once (CHR ''?'') rest of
                               Some (a, b) \<Rightarrow> (a, Some b) | None \<Rightarrow> (rest, None))
           in if length i \<noteq> 64 \<or> \<not> list_all is_ascii_hexdigit i then None
              else (case service_query
                      (filter (\<lambda>s. s \<noteq> []) (split_on (CHR ''&'') (unwrap_or [] query)))
                      ([], None, None) of
                      None \<Rightarrow> None
                    | Some (roles, api, storage) \<Rightarrow>
                        if roles = [] \<or> list_ex (\<lambda>r. r \<notin> set SERVICE_ROLES) roles then None
                        else Some (to_ascii_lowercase i, roles, api, storage))))"

text \<open>Whatever is accepted names a 64-digit endpoint and at least one known role.\<close>

lemma parse_service_node_sound:
  assumes "parse_service_node data = Some (i, roles, api, storage)"
  shows "length i = 64 \<and> roles \<noteq> [] \<and> set roles \<subseteq> set SERVICE_ROLES"
  using assms
  by (auto simp: parse_service_node_def to_ascii_lowercase_def list_ex_iff Let_def
      split: option.splits prod.splits if_splits)

end
