(* ===== verification/Bytes.thy ===== *)
theory Bytes
  imports Models
begin

text \<open>
  The little-endian cursor of \<open>src/src/crypto/bytes.rs\<close>. The writer is an append-only buffer, so a
  writer operation is the byte string it appends; the reader keeps the whole buffer and a position,
  as the source does, because the multihash branch of the deserializer slices the buffer again.
  The \<open>codec\<close> collection says how each read consumes what the matching write produced.
\<close>

section \<open>ByteWriter\<close>

text \<open>\<open>ByteWriter::hex\<close>: append the decoded bytes, or fail with the hex error.\<close>

definition w_hex :: "crypto \<Rightarrow> string \<Rightarrow> bytes res" where
  "w_hex E h = ok_or Hex (hex_decode E h)"

text \<open>A sequence of fallible writes; the first failure ends it.\<close>

fun w_seq :: "bytes res list \<Rightarrow> bytes res" where
  "w_seq [] = Inr []"
| "w_seq (m # ms) = rbind m (\<lambda>a. rbind (w_seq ms) (\<lambda>b. Inr (a @ b)))"

section \<open>ByteReader\<close>

record reader =
  rd_buf :: bytes
  rd_pos :: nat

definition reader_new :: "bytes \<Rightarrow> reader" where
  "reader_new b = \<lparr>rd_buf = b, rd_pos = 0\<rparr>"

definition remaining :: "reader \<Rightarrow> nat" where
  "remaining r = length (rd_buf r) - rd_pos r"

definition r_bytes :: "nat \<Rightarrow> reader \<Rightarrow> (bytes \<times> reader) res" where
  "r_bytes n r =
     (if remaining r < n then Inl (Serialization ''unexpected end of bytes'')
      else Inr (take n (drop (rd_pos r) (rd_buf r)), r\<lparr>rd_pos := rd_pos r + n\<rparr>))"

definition r_hex :: "crypto \<Rightarrow> nat \<Rightarrow> reader \<Rightarrow> (string \<times> reader) res" where
  "r_hex E n r = rbind (r_bytes n r) (\<lambda>(b, r). Inr (hex_encode E b, r))"

definition peek_u8 :: "nat \<Rightarrow> reader \<Rightarrow> u8 option" where
  "peek_u8 ahead r =
     (if rd_pos r + ahead < length (rd_buf r) then Some (rd_buf r ! (rd_pos r + ahead)) else None)"

definition r_u8 :: "reader \<Rightarrow> (u8 \<times> reader) res" where
  "r_u8 r = rbind (r_bytes 1 r) (\<lambda>(b, r). Inr (b ! 0, r))"

definition r_u16_le :: "reader \<Rightarrow> (u16 \<times> reader) res" where
  "r_u16_le r = rbind (r_bytes 2 r) (\<lambda>(b, r). Inr (word_of_nat (of_le b), r))"

definition r_u32_le :: "reader \<Rightarrow> (u32 \<times> reader) res" where
  "r_u32_le r = rbind (r_bytes 4 r) (\<lambda>(b, r). Inr (word_of_nat (of_le b), r))"

definition r_u64_le :: "reader \<Rightarrow> (u64 \<times> reader) res" where
  "r_u64_le r = rbind (r_bytes 8 r) (\<lambda>(b, r). Inr (word_of_nat (of_le b), r))"

definition r_rest :: "reader \<Rightarrow> bytes \<times> reader" where
  "r_rest r = (drop (rd_pos r) (rd_buf r), r\<lparr>rd_pos := length (rd_buf r)\<rparr>)"

definition r_slice :: "nat \<Rightarrow> nat \<Rightarrow> reader \<Rightarrow> bytes" where
  "r_slice start end r =
     (let e = min end (length (rd_buf r)); s = min start e in take (e - s) (drop s (rd_buf r)))"

text \<open>\<open>for _ in 0..n { xs.push(read(r)?) }\<close>\<close>

fun r_times :: "nat \<Rightarrow> (reader \<Rightarrow> ('a \<times> reader) res) \<Rightarrow> reader \<Rightarrow> ('a list \<times> reader) res" where
  "r_times 0 f r = Inr ([], r)"
| "r_times (Suc n) f r =
     rbind (f r) (\<lambda>(x, r). rbind (r_times n f r) (\<lambda>(xs, r). Inr (x # xs, r)))"

section \<open>A reader in the middle of its buffer\<close>

definition at :: "bytes \<Rightarrow> bytes \<Rightarrow> reader" where
  "at pre rest = \<lparr>rd_buf = pre @ rest, rd_pos = length pre\<rparr>"

lemma reader_new_at [codec]: "reader_new b = at [] b"
  by (simp add: reader_new_def at_def)

lemma remaining_at [codec, simp]: "remaining (at pre rest) = length rest"
  by (simp add: remaining_def at_def)

lemma r_bytes_at [codec]:
  "length b = n \<Longrightarrow> r_bytes n (at pre (b @ rest)) = Inr (b, at (pre @ b) rest)"
  by (simp add: r_bytes_def remaining_def at_def)

lemma r_hex_at [codec]:
  "length b = n \<Longrightarrow> r_hex E n (at pre (b @ rest)) = Inr (hex_encode E b, at (pre @ b) rest)"
  by (simp add: r_hex_def r_bytes_at)

lemma r_u8_at [codec]: "r_u8 (at pre (b # rest)) = Inr (b, at (pre @ [b]) rest)"
  using r_bytes_at [of "[b]" 1 pre rest] by (simp add: r_u8_def)

lemma r_int_at [codec]:
  "r_u16_le (at pre (u16_le a @ rest)) = Inr (a, at (pre @ u16_le a) rest)"
  "r_u32_le (at pre (u32_le b @ rest)) = Inr (b, at (pre @ u32_le b) rest)"
  "r_u64_le (at pre (u64_le c @ rest)) = Inr (c, at (pre @ u64_le c) rest)"
  by (simp_all add: r_u16_le_def r_u32_le_def r_u64_le_def r_bytes_at)

lemma peek_at [codec]:
  "peek_u8 0 (at pre (b # rest)) = Some b"
  "peek_u8 1 (at pre (b # c # rest)) = Some c"
  "peek_u8 (Suc 0) (at pre (b # c # rest)) = Some c"
  "peek_u8 n (at pre []) = None"
  by (simp_all add: peek_u8_def at_def nth_append)

lemma r_rest_at [codec]: "r_rest (at pre rest) = (rest, at (pre @ rest) [])"
  by (simp add: r_rest_def at_def)

lemma rd_pos_at [codec]: "rd_pos (at pre rest) = length pre"
  by (simp add: at_def)

lemma r_slice_at [codec]: "r_slice (length pre) (length pre + length b) (at (pre @ b) rest) = b"
  by (simp add: r_slice_def at_def Let_def)

lemma r_times_at:
  assumes "\<And>x pre rest. x \<in> set xs \<Longrightarrow> f (at pre (enc x @ rest)) = Inr (g x, at (pre @ enc x) rest)"
  shows "r_times (length xs) f (at pre (concat (map enc xs) @ rest))
           = Inr (map g xs, at (pre @ concat (map enc xs)) rest)"
  using assms
proof (induction xs arbitrary: pre)
  case Nil
  then show ?case by simp
next
  case (Cons x xs)
  have hd: "f (at pre (enc x @ concat (map enc xs) @ rest))
      = Inr (g x, at (pre @ enc x) (concat (map enc xs) @ rest))"
    using Cons.prems by simp
  have tl: "r_times (length xs) f (at (pre @ enc x) (concat (map enc xs) @ rest))
      = Inr (map g xs, at ((pre @ enc x) @ concat (map enc xs)) rest)"
    using Cons.prems by (intro Cons.IH) simp
  from hd tl show ?case by simp
qed

text \<open>A reader never runs past its buffer, whatever it is asked to read.\<close>

definition rd_ok :: "reader \<Rightarrow> bool" where
  "rd_ok r \<longleftrightarrow> rd_pos r \<le> length (rd_buf r)"

lemma r_bytes_ok:
  "r_bytes n r = Inr (b, r') \<Longrightarrow> rd_ok r \<Longrightarrow>
     rd_ok r' \<and> rd_buf r' = rd_buf r \<and> length b = n \<and> remaining r = n + remaining r'
     \<and> drop (rd_pos r) (rd_buf r) = b @ drop (rd_pos r') (rd_buf r')"
  by (auto simp: r_bytes_def rd_ok_def remaining_def split: if_splits)
     (metis add.commute append_take_drop_id drop_drop)

lemma w_seq_append: "w_seq (xs @ ys) = rbind (w_seq xs) (\<lambda>a. rbind (w_seq ys) (\<lambda>b. Inr (a @ b)))"
  by (induction xs) (auto simp: rbind_assoc intro!: rbind_cong)

lemma w_seq_map_Inr:
  "(\<And>x. x \<in> set xs \<Longrightarrow> f x = Inr (enc x)) \<Longrightarrow> w_seq (map f xs) = Inr (concat (map enc xs))"
  by (induction xs) auto

lemma w_seq_map_Inr_iff:
  "w_seq (map f xs) = Inr b \<longleftrightarrow> (\<exists>ys. map f xs = map Inr ys \<and> b = concat ys)"
proof (induction xs arbitrary: b)
  case (Cons x xs)
  then show ?case
    by (auto simp: rbind_eq_Inr Cons_eq_map_conv map_eq_Cons_conv)
qed auto

text \<open>A hex field of exactly \<open>n\<close> bytes in the spelling \<open>hex::encode\<close> gives it.\<close>

definition hex_field :: "crypto \<Rightarrow> nat \<Rightarrow> string \<Rightarrow> bool" where
  "hex_field E n s =
     (case hex_decode E s of None \<Rightarrow> False | Some b \<Rightarrow> length b = n \<and> hex_encode E b = s)"

definition unhex :: "crypto \<Rightarrow> string \<Rightarrow> bytes" where
  "unhex E s = unwrap_or [] (hex_decode E s)"

lemma hex_fieldD:
  assumes "hex_field E n s"
  shows "hex_decode E s = Some (unhex E s)" "length (unhex E s) = n" "hex_encode E (unhex E s) = s"
  using assms by (auto simp: hex_field_def unhex_def split: option.splits)

lemma w_hex_field: "hex_field E n s \<Longrightarrow> w_hex E s = Inr (unhex E s)"
  by (simp add: w_hex_def hex_fieldD)

lemma r_hex_field:
  "hex_field E n s \<Longrightarrow> r_hex E n (at pre (unhex E s @ rest)) = Inr (s, at (pre @ unhex E s) rest)"
  by (simp add: r_hex_at hex_fieldD)

end
