(* ===== verification/TxCodec.thy ===== *)
theory TxCodec
  imports Bytes
begin

text \<open>
  The transaction wire format: \<open>src/src/crypto/address.rs\<close>, \<open>tx_serializer.rs\<close> and
  \<open>tx_deserializer.rs\<close>. A serializer is the byte string it appends or the error that stops it; the
  deserializer threads the reader and the transaction under construction. \<open>canonical\<close> names the
  transactions the format represents without loss, and the round trip holds for each of them.
\<close>

section \<open>Addresses\<close>

definition address_from_public_key :: "crypto \<Rightarrow> string \<Rightarrow> u8 \<Rightarrow> string res" where
  "address_from_public_key E pk net =
     rbind (ok_or Hex (hex_decode E pk)) (\<lambda>raw.
     rbind (ensure (length raw = 33) PublicKey) (\<lambda>_.
     Inr (bs58check_encode E (net # ripemd160 E raw))))"

definition address_from_bytes :: "crypto \<Rightarrow> bytes \<Rightarrow> string" where
  "address_from_bytes E b = bs58check_encode E b"

definition address_to_bytes :: "crypto \<Rightarrow> string \<Rightarrow> bytes res" where
  "address_to_bytes E a =
     rbind (ok_or Address (bs58check_decode E a)) (\<lambda>raw.
     rbind (ensure (length raw = 21) Address) (\<lambda>_. Inr raw))"

definition validate_address :: "crypto \<Rightarrow> string \<Rightarrow> u8 \<Rightarrow> bool" where
  "validate_address E a net =
     (case address_to_bytes E a of Inl _ \<Rightarrow> False | Inr b \<Rightarrow> b ! 0 = net)"

definition address_from_multi_signature ::
  "crypto \<Rightarrow> multi_signature_asset \<Rightarrow> u8 \<Rightarrow> string res" where
  "address_from_multi_signature E a net =
     rbind (multisig_point E (ms_min a) (ms_public_keys a)) (\<lambda>pk. address_from_public_key E pk net)"

section \<open>Serializer\<close>

record serialize_options =
  exclude_signature :: bool
  exclude_second_signature :: bool
  exclude_multi_signature :: bool

definition opts_default :: serialize_options where
  "opts_default = \<lparr>exclude_signature = False, exclude_second_signature = False,
                   exclude_multi_signature = False\<rparr>"

definition for_signing :: serialize_options where
  "for_signing = \<lparr>exclude_signature = True, exclude_second_signature = True,
                  exclude_multi_signature = False\<rparr>"

definition ser_err :: "string \<Rightarrow> error" where "ser_err m = Serialization m"

definition asset :: "string \<Rightarrow> transaction \<Rightarrow> transaction_asset res" where
  "asset what tx = ok_or (ser_err (''missing asset for '' @ what)) (tx_asset tx)"

definition write_address :: "crypto \<Rightarrow> string \<Rightarrow> bytes res" where
  "write_address E a = address_to_bytes E a"

definition len8 :: "'a list \<Rightarrow> u8" where "len8 xs = word_of_nat (length xs)"
definition len16 :: "'a list \<Rightarrow> u16" where "len16 xs = word_of_nat (length xs)"

text \<open>\<open>w.u8(b.len() as u8).bytes(b)\<close> and the \<open>u16\<close> variant.\<close>

definition w_var8 :: "bytes \<Rightarrow> bytes" where "w_var8 b = len8 b # b"
definition w_var16 :: "bytes \<Rightarrow> bytes" where "w_var16 b = u16_le (len16 b) @ b"

text \<open>\<open>str::split_at_checked(1)\<close>: the split must fall on a character boundary.\<close>

definition split_first :: "string \<Rightarrow> (char \<times> string) option" where
  "split_first v =
     (case v of [] \<Rightarrow> None
      | c # cs \<Rightarrow> if cs \<noteq> [] \<and> is_cont (byte_of_char (hd cs)) then None else Some (c, cs))"

definition serialize_sobj :: "crypto \<Rightarrow> transaction \<Rightarrow> bytes res" where
  "serialize_sobj E tx =
     rbind (ok_or (ser_err ''missing sObject asset'') (sobj_asset_of tx)) (\<lambda>e.
     rbind (case so_registration_id e of None \<Rightarrow> Inr []
            | Some i \<Rightarrow> ok_or (ser_err ''bad registrationId'') (hex_decode E i)) (\<lambda>reg.
     let name = as_bytes (unwrap_or [] (sd_name (so_data e)));
         slot = (if so_action e = ACTION_TRANSFER then so_recipient e
                 else if so_action e = ACTION_SELL then map_option (\<lambda>p. show_nat (unat p)) (so_price e)
                 else sd_ntfry_data (so_data e));
         ipfs = as_bytes (unwrap_or [] slot)
     in if 255 < length reg \<or> 255 < length name \<or> 255 < length ipfs
        then Inl (ser_err ''sObject field longer than 255 bytes'')
        else Inr ([so_type e, so_sub_type e, so_action e] @ w_var8 reg @ w_var8 name @ w_var8 ipfs)))"

definition write_item :: "crypto \<Rightarrow> token_transfer_item \<Rightarrow> bytes res" where
  "write_item E it = rbind (write_address E (ti_recipient it)) (\<lambda>a. Inr (u64_le (ti_amount it) @ a))"

definition serialize_token_body :: "crypto \<Rightarrow> u16 \<Rightarrow> token_asset \<Rightarrow> bytes res" where
  "serialize_token_body E ty a =
     (if ty = TOKEN_INIT then
        Inr ([unwrap_or 0 (ta_decimals a), unwrap_or 0 (ta_flags a)]
             @ u64_le (unwrap_or 0 (ta_initial_supply a)) @ u64_le (unwrap_or 0 (ta_supply_cap a)))
      else if ty = TOKEN_TRANSFER then
        (let items = unwrap_or [] (ta_transfers a); memo = as_bytes (unwrap_or [] (ta_memo a))
         in if 65535 < length items \<or> 255 < length memo
            then Inl (ser_err ''token transfer too large'')
            else rbind (w_seq (map (write_item E) items)) (\<lambda>body.
                 Inr (u16_le (len16 items) @ body @ w_var8 memo)))
      else if ty = TOKEN_MINT then
        rbind (ok_or (ser_err ''missing recipientId'') (ta_recipient a)) (\<lambda>r.
        rbind (write_address E r) (\<lambda>b. Inr (u64_le (unwrap_or 0 (ta_amount a)) @ b)))
      else if ty = TOKEN_SELL then
        Inr (u64_le (unwrap_or 0 (ta_amount a)) @ u64_le (unwrap_or 0 (ta_price a)))
      else if ty = TOKEN_BUY \<or> ty = TOKEN_CANCEL then
        rbind (ok_or (ser_err ''bad orderId'') (hex_decode E (unwrap_or [] (ta_order_id a)))) (\<lambda>oid.
        rbind (ensure (length oid = 32) (ser_err ''orderId must be 32 bytes'')) (\<lambda>_.
        Inr (oid @ (if ty = TOKEN_BUY then u64_le (unwrap_or 0 (ta_amount a)) else []))))
      else if ty = TOKEN_META then
        rbind (ok_or (ser_err ''missing token meta'') (ta_meta a)) (\<lambda>m.
        let name = as_bytes (tm_name m);
            desc = as_bytes (unwrap_or [] (tm_description m));
            site = as_bytes (unwrap_or [] (tm_website m))
        in rbind (if tm_logo m \<noteq> None
                  then ok_or (ser_err ''logo is not base64'') (logo_bytes E m) else Inr []) (\<lambda>logo.
           if 255 < length name \<or> 65535 < length desc \<or> 255 < length site \<or> 65535 < length logo
           then Inl (ser_err ''token meta field too long'')
           else Inr (w_var8 name @ w_var16 desc @ w_var8 site @ [logo_type_byte m] @ w_var16 logo)))
      else Inr (u64_le (unwrap_or 0 (ta_amount a))))"

definition serialize_token :: "crypto \<Rightarrow> transaction \<Rightarrow> bytes res" where
  "serialize_token E tx =
     rbind (ok_or (ser_err ''missing token asset'') (token_asset_of tx)) (\<lambda>a.
     rbind (ok_or (ser_err ''bad token id'') (hex_decode E (ta_id a))) (\<lambda>i.
     rbind (ensure (length i = 32) (ser_err ''token id must be 32 bytes'')) (\<lambda>_.
     rbind (serialize_token_body E (tx_type tx) a) (\<lambda>body. Inr (i @ body)))))"

definition write_vote :: "crypto \<Rightarrow> string \<Rightarrow> bytes res" where
  "write_vote E v =
     rbind (ok_or (ser_err ''bad vote'') (split_first v)) (\<lambda>(sign, pk).
     rbind (w_hex E pk) (\<lambda>b. Inr ((if sign = CHR ''+'' then 1 else 0) # b)))"

definition write_payment :: "crypto \<Rightarrow> payment \<Rightarrow> bytes res" where
  "write_payment E p = rbind (write_address E (pay_recipient p)) (\<lambda>a. Inr (u64_le (pay_amount p) @ a))"

definition write_recipient :: "crypto \<Rightarrow> transaction \<Rightarrow> bytes res" where
  "write_recipient E tx = (case tx_recipient tx of None \<Rightarrow> Inr [] | Some r \<Rightarrow> write_address E r)"

definition serialize_core :: "crypto \<Rightarrow> transaction \<Rightarrow> bytes res" where
  "serialize_core E tx =
     (if tx_type tx = TRANSFER then
        rbind (write_recipient E tx) (\<lambda>r.
        Inr (u64_le (tx_amount tx) @ u32_le (unwrap_or 0 (tx_expiration tx)) @ r))
      else if tx_type tx = SECOND_SIGNATURE then
        rbind (asset ''secondSignature'' tx) (\<lambda>a.
        rbind (ok_or (ser_err ''missing asset.signature'') (as_signature a)) (\<lambda>sig.
        if is_pq tx then
          rbind (ok_or (ser_err ''bad PQ public key'') (hex_decode E (ss_public_key sig))) (\<lambda>pk.
          if 65535 < length pk then Inl (ser_err ''PQ public key too long'')
          else Inr (unwrap_or 0 (ss_algorithm sig) # w_var16 pk))
        else w_hex E (ss_public_key sig)))
      else if tx_type tx = DELEGATE_REGISTRATION then
        rbind (asset ''delegateRegistration'' tx) (\<lambda>a.
        rbind (ok_or (ser_err ''missing asset.delegate'') (as_delegate a)) (\<lambda>name.
        Inr (w_var8 (as_bytes name))))
      else if tx_type tx = VOTE then
        rbind (asset ''vote'' tx) (\<lambda>a.
        rbind (ok_or (ser_err ''missing asset.votes'') (as_votes a)) (\<lambda>votes.
        rbind (w_seq (map (write_vote E) votes)) (\<lambda>body. Inr (len8 votes # body))))
      else if tx_type tx = MULTI_SIGNATURE then
        rbind (asset ''multiSignature'' tx) (\<lambda>a.
        rbind (ok_or (ser_err ''missing asset.multiSignature'') (as_multi_signature a)) (\<lambda>ms.
        rbind (w_seq (map (w_hex E) (ms_public_keys ms))) (\<lambda>body.
        Inr (ms_min ms # len8 (ms_public_keys ms) # body))))
      else if tx_type tx = IPFS then
        rbind (asset ''ipfs'' tx) (\<lambda>a.
        rbind (ok_or (ser_err ''missing asset.ipfs'') (as_ipfs a)) (\<lambda>h.
        ok_or (ser_err ''bad ipfs hash'') (bs58_decode E h)))
      else if tx_type tx = MULTI_PAYMENT then
        rbind (asset ''multiPayment'' tx) (\<lambda>a.
        rbind (ok_or (ser_err ''missing asset.payments'') (as_payments a)) (\<lambda>ps.
        rbind (w_seq (map (write_payment E) ps)) (\<lambda>body. Inr (u16_le (len16 ps) @ body))))
      else if tx_type tx = DELEGATE_RESIGNATION then Inr []
      else if tx_type tx = HTLC_LOCK then
        rbind (case asset_field as_lock tx of None \<Rightarrow> Inr []
               | Some l \<Rightarrow> rbind (w_hex E (hl_secret_hash l)) (\<lambda>h.
                   Inr (h @ [he_type (hl_expiration l)] @ u32_le (he_value (hl_expiration l))))) (\<lambda>lock.
        rbind (write_recipient E tx) (\<lambda>r. Inr (u64_le (tx_amount tx) @ lock @ r)))
      else if tx_type tx = HTLC_CLAIM then
        (case asset_field as_claim tx of None \<Rightarrow> Inr []
         | Some c \<Rightarrow> w_seq [w_hex E (hc_lock_transaction_id c), w_hex E (hc_unlock_secret c)])
      else if tx_type tx = HTLC_REFUND then
        (case asset_field as_refund tx of None \<Rightarrow> Inr [] | Some i \<Rightarrow> w_hex E i)
      else Inl (ser_err ''unsupported transaction type''))"

definition serialize_type_payload :: "crypto \<Rightarrow> transaction \<Rightarrow> bytes res" where
  "serialize_type_payload E tx =
     (if is_sobj tx then serialize_sobj E tx
      else if is_token tx then serialize_token E tx
      else if tx_type_group tx \<noteq> TYPE_GROUP_CORE then Inl (ser_err ''unsupported typeGroup'')
      else serialize_core E tx)"

definition write_pq_block :: "crypto \<Rightarrow> pq_signature_block \<Rightarrow> bytes res" where
  "write_pq_block E b =
     rbind (ok_or (ser_err ''bad PQ signature'') (hex_decode E (pb_signature b))) (\<lambda>sig.
     if 65535 < length sig then Inl (ser_err ''PQ signature too long'')
     else Inr (pb_algorithm b # w_var16 sig))"

text \<open>The \<open>serializeSignatures\<close> part of \<open>serialize_transaction\<close>.\<close>

definition opt_hex :: "crypto \<Rightarrow> bool \<Rightarrow> string option \<Rightarrow> bytes res" where
  "opt_hex E skip s = (if skip then Inr [] else case s of None \<Rightarrow> Inr [] | Some h \<Rightarrow> w_hex E h)"

definition serialize_signatures ::
  "crypto \<Rightarrow> transaction \<Rightarrow> serialize_options \<Rightarrow> bytes res" where
  "serialize_signatures E tx opts =
     rbind (opt_hex E (exclude_signature opts) (tx_signature tx)) (\<lambda>s1.
     if is_pq tx then
       rbind (if exclude_second_signature opts then Inr []
              else w_seq (map (write_pq_block E) (pq_blocks tx))) (\<lambda>s2.
       rbind (if exclude_multi_signature opts then Inr []
              else case tx_signatures tx of None \<Rightarrow> Inr []
                   | Some sigs \<Rightarrow> if sigs = [] then Inr []
                       else rbind (w_seq (map (w_hex E) sigs)) (\<lambda>b. Inr (0xff # b))) (\<lambda>s3.
       Inr (s1 @ s2 @ s3)))
     else
       rbind (opt_hex E (exclude_second_signature opts) (second_signature_any tx)) (\<lambda>s2.
       rbind (if exclude_multi_signature opts then Inr []
              else w_seq (map (w_hex E) (unwrap_or [] (tx_signatures tx)))) (\<lambda>s3.
       Inr (s1 @ s2 @ s3))))"

definition serialize_vendor_field :: "transaction \<Rightarrow> bytes res" where
  "serialize_vendor_field tx =
     (case tx_vendor_field tx of
        Some vf \<Rightarrow>
          if has_vendor_field tx \<and> vf \<noteq> [] then
            (if 255 < length (as_bytes vf) then Inl (ser_err ''vendorField exceeds 255 bytes'')
             else Inr (w_var8 (as_bytes vf)))
          else Inr [0]
      | None \<Rightarrow> Inr [0])"

text \<open>\<open>net\<close> is \<open>network.pubkey_hash\<close>.\<close>

definition serialize_transaction ::
  "crypto \<Rightarrow> transaction \<Rightarrow> serialize_options \<Rightarrow> u8 \<Rightarrow> bytes res" where
  "serialize_transaction E tx opts net =
     (if tx_version tx = 1 then Inl (ser_err ''legacy v1 transactions are not supported on this chain'')
      else
        rbind (w_hex E (tx_sender_public_key tx)) (\<lambda>spk.
        rbind (serialize_vendor_field tx) (\<lambda>vf.
        rbind (serialize_type_payload E tx) (\<lambda>payload.
        rbind (serialize_signatures E tx opts) (\<lambda>sigs.
        Inr ([0xff, tx_version tx, unwrap_or net (tx_network tx)]
             @ u32_le (tx_type_group tx) @ u16_le (tx_type tx)
             @ (case tx_nonce tx of None \<Rightarrow> [] | Some n \<Rightarrow> u64_le n)
             @ spk @ u64_le (tx_fee tx) @ vf @ payload @ sigs))))))"

definition MAINNET_PUBKEY_HASH :: u8 where "MAINNET_PUBKEY_HASH = 63"

definition transaction_id :: "crypto \<Rightarrow> transaction \<Rightarrow> string res" where
  "transaction_id E tx =
     rbind (serialize_transaction E tx opts_default MAINNET_PUBKEY_HASH) (\<lambda>b.
     Inr (hex_encode E (sha256 E b)))"

definition transaction_signing_hash :: "crypto \<Rightarrow> transaction \<Rightarrow> bytes res" where
  "transaction_signing_hash E tx =
     rbind (serialize_transaction E tx for_signing MAINNET_PUBKEY_HASH) (\<lambda>b. Inr (sha256 E b))"

definition verify_signature :: "crypto \<Rightarrow> bytes \<Rightarrow> string \<Rightarrow> string \<Rightarrow> bool res" where
  "verify_signature E hash sig pk =
     rbind (ok_or Hex (hex_decode E sig)) (\<lambda>s.
     if length s = 64 then verify_schnorr_legacy E hash s pk else verify_ecdsa E hash s pk)"

definition verify_transaction_signature :: "crypto \<Rightarrow> transaction \<Rightarrow> bool res" where
  "verify_transaction_signature E tx =
     (case tx_signature tx of None \<Rightarrow> Inr False
      | Some sig \<Rightarrow> rbind (transaction_signing_hash E tx) (\<lambda>h.
          verify_signature E h sig (tx_sender_public_key tx)))"

definition transaction_pq_message :: "crypto \<Rightarrow> transaction \<Rightarrow> bytes res" where
  "transaction_pq_message E tx =
     rbind (serialize_transaction E tx
              \<lparr>exclude_signature = False, exclude_second_signature = True,
               exclude_multi_signature = True\<rparr> MAINNET_PUBKEY_HASH) (\<lambda>b. Inr (sha256 E b))"

definition verify_transaction_second_signature ::
  "crypto \<Rightarrow> transaction \<Rightarrow> string \<Rightarrow> bool res" where
  "verify_transaction_second_signature E tx pk =
     (case second_signature_any tx of None \<Rightarrow> Inr False
      | Some sig \<Rightarrow>
          rbind (serialize_transaction E tx
                   \<lparr>exclude_signature = False, exclude_second_signature = True,
                    exclude_multi_signature = False\<rparr> MAINNET_PUBKEY_HASH) (\<lambda>b.
          verify_signature E (sha256 E b) sig pk))"

section \<open>Deserializer\<close>

definition read_address :: "crypto \<Rightarrow> reader \<Rightarrow> (string \<times> reader) res" where
  "read_address E r = rbind (r_bytes 21 r) (\<lambda>(b, r). Inr (address_from_bytes E b, r))"

text \<open>\<open>asset_mut\<close>: the asset of the transaction, created empty when it is missing.\<close>

definition asset_mut :: "(transaction_asset \<Rightarrow> transaction_asset) \<Rightarrow> transaction \<Rightarrow> transaction" where
  "asset_mut f tx = tx\<lparr>tx_asset := Some (f (unwrap_or asset_default (tx_asset tx)))\<rparr>"

text \<open>A length-prefixed field that is absent when the length is zero.\<close>

definition r_opt :: "nat \<Rightarrow> (bytes \<Rightarrow> 'a) \<Rightarrow> reader \<Rightarrow> ('a option \<times> reader) res" where
  "r_opt n f r = (if 0 < n then rbind (r_bytes n r) (\<lambda>(b, r). Inr (Some (f b), r)) else Inr (None, r))"

definition deserialize_sobj :: "crypto \<Rightarrow> transaction \<Rightarrow> reader \<Rightarrow> (transaction \<times> reader) res" where
  "deserialize_sobj E tx r =
     rbind (r_u8 r) (\<lambda>(ty, r). rbind (r_u8 r) (\<lambda>(sub, r). rbind (r_u8 r) (\<lambda>(action, r).
     rbind (r_u8 r) (\<lambda>(reg_len, r). rbind (r_opt (unat reg_len) (hex_encode E) r) (\<lambda>(reg, r).
     rbind (r_u8 r) (\<lambda>(name_len, r). rbind (r_opt (unat name_len) from_utf8_lossy r) (\<lambda>(name, r).
     rbind (r_u8 r) (\<lambda>(ipfs_len, r). rbind (r_opt (unat ipfs_len) from_utf8_lossy r) (\<lambda>(slot, r).
     let transfer = (action = ACTION_TRANSFER); sell = (action = ACTION_SELL) in
     rbind (if sell then
              (case parse_uint 64 (unwrap_or ''0'' slot) of
                 None \<Rightarrow> Inl (ser_err ''sObject price is not a number'')
               | Some n \<Rightarrow> Inr (Some (word_of_nat n)))
            else Inr None) (\<lambda>price.
     let e = \<lparr>so_type = ty, so_sub_type = sub, so_action = action, so_registration_id = reg,
              so_recipient = (if transfer then slot else None), so_price = price,
              so_data = \<lparr>sd_name = name,
                         sd_ntfry_data = (if transfer \<or> sell then None else slot)\<rparr>\<rparr>
     in Inr (asset_mut (\<lambda>a. a\<lparr>as_sobj := Some e\<rparr>) tx, r)))))))))))"

definition read_item :: "crypto \<Rightarrow> reader \<Rightarrow> (token_transfer_item \<times> reader) res" where
  "read_item E r =
     rbind (r_u64_le r) (\<lambda>(n, r). rbind (read_address E r) (\<lambda>(a, r).
     Inr (\<lparr>ti_recipient = a, ti_amount = n\<rparr>, r)))"

text \<open>The closure \<open>text\<close> of the metadata branch.\<close>

definition read_text :: "nat \<Rightarrow> reader \<Rightarrow> (string option \<times> reader) res" where
  "read_text n r =
     rbind (r_bytes n r) (\<lambda>(b, r).
     let s = from_utf8_lossy b in Inr (if s = [] then None else Some s, r))"

definition deserialize_meta :: "crypto \<Rightarrow> reader \<Rightarrow> (token_meta \<times> reader) res" where
  "deserialize_meta E r =
     rbind (r_u8 r) (\<lambda>(nl, r). rbind (read_text (unat nl) r) (\<lambda>(name, r).
     rbind (r_u16_le r) (\<lambda>(dl, r). rbind (read_text (unat dl) r) (\<lambda>(desc, r).
     rbind (r_u8 r) (\<lambda>(sl, r). rbind (read_text (unat sl) r) (\<lambda>(site, r).
     rbind (r_u8 r) (\<lambda>(lt, r). rbind (r_u16_le r) (\<lambda>(ll, r).
     rbind (r_bytes (unat ll) r) (\<lambda>(raw, r).
     Inr (\<lparr>tm_name = unwrap_or [] name, tm_description = desc, tm_website = site,
           tm_logo_type = logo_type_name lt,
           tm_logo = (if 0 < unat ll then Some (base64_encode E raw) else None)\<rparr>, r))))))))))"

definition deserialize_token_body ::
  "crypto \<Rightarrow> u16 \<Rightarrow> token_asset \<Rightarrow> reader \<Rightarrow> (token_asset \<times> reader) res" where
  "deserialize_token_body E ty a r =
     (if ty = TOKEN_INIT then
        rbind (r_u8 r) (\<lambda>(d, r). rbind (r_u8 r) (\<lambda>(f, r).
        rbind (r_u64_le r) (\<lambda>(s, r). rbind (r_u64_le r) (\<lambda>(c, r).
        Inr (a\<lparr>ta_decimals := Some d, ta_flags := Some f, ta_initial_supply := Some s,
               ta_supply_cap := Some c\<rparr>, r)))))
      else if ty = TOKEN_TRANSFER then
        rbind (r_u16_le r) (\<lambda>(n, r). rbind (r_times (unat n) (read_item E) r) (\<lambda>(items, r).
        rbind (r_u8 r) (\<lambda>(ml, r). rbind (read_text (unat ml) r) (\<lambda>(memo, r).
        Inr (a\<lparr>ta_transfers := Some items, ta_memo := memo\<rparr>, r)))))
      else if ty = TOKEN_MINT then
        rbind (r_u64_le r) (\<lambda>(n, r). rbind (read_address E r) (\<lambda>(d, r).
        Inr (a\<lparr>ta_amount := Some n, ta_recipient := Some d\<rparr>, r)))
      else if ty = TOKEN_SELL then
        rbind (r_u64_le r) (\<lambda>(n, r). rbind (r_u64_le r) (\<lambda>(p, r).
        Inr (a\<lparr>ta_amount := Some n, ta_price := Some p\<rparr>, r)))
      else if ty = TOKEN_BUY \<or> ty = TOKEN_CANCEL then
        rbind (r_hex E 32 r) (\<lambda>(oid, r).
        if ty = TOKEN_BUY then
          rbind (r_u64_le r) (\<lambda>(n, r). Inr (a\<lparr>ta_order_id := Some oid, ta_amount := Some n\<rparr>, r))
        else Inr (a\<lparr>ta_order_id := Some oid\<rparr>, r))
      else if ty = TOKEN_META then
        rbind (deserialize_meta E r) (\<lambda>(m, r). Inr (a\<lparr>ta_meta := Some m\<rparr>, r))
      else rbind (r_u64_le r) (\<lambda>(n, r). Inr (a\<lparr>ta_amount := Some n\<rparr>, r)))"

definition deserialize_token :: "crypto \<Rightarrow> transaction \<Rightarrow> reader \<Rightarrow> (transaction \<times> reader) res" where
  "deserialize_token E tx r =
     rbind (r_hex E 32 r) (\<lambda>(i, r).
     rbind (deserialize_token_body E (tx_type tx) (token_asset_default\<lparr>ta_id := i\<rparr>) r) (\<lambda>(a, r).
     Inr (asset_mut (\<lambda>x. x\<lparr>as_token := Some a\<rparr>) tx, r)))"

definition read_vote :: "crypto \<Rightarrow> reader \<Rightarrow> (string \<times> reader) res" where
  "read_vote E r =
     rbind (r_u8 r) (\<lambda>(s, r). rbind (r_hex E 33 r) (\<lambda>(pk, r).
     Inr ((if s = 1 then CHR ''+'' else CHR ''-'') # pk, r)))"

definition read_payment :: "crypto \<Rightarrow> reader \<Rightarrow> (payment \<times> reader) res" where
  "read_payment E r =
     rbind (r_u64_le r) (\<lambda>(n, r). rbind (read_address E r) (\<lambda>(a, r).
     Inr (\<lparr>pay_amount = n, pay_recipient = a\<rparr>, r)))"

definition deserialize_core :: "crypto \<Rightarrow> transaction \<Rightarrow> reader \<Rightarrow> (transaction \<times> reader) res" where
  "deserialize_core E tx r =
     (if tx_type tx = TRANSFER then
        rbind (r_u64_le r) (\<lambda>(n, r). rbind (r_u32_le r) (\<lambda>(x, r).
        rbind (read_address E r) (\<lambda>(a, r).
        Inr (tx\<lparr>tx_amount := n, tx_expiration := Some x, tx_recipient := Some a\<rparr>, r))))
      else if tx_type tx = SECOND_SIGNATURE then
        (if is_pq tx then
           rbind (r_u8 r) (\<lambda>(alg, r). rbind (r_u16_le r) (\<lambda>(n, r).
           rbind (r_hex E (unat n) r) (\<lambda>(pk, r).
           Inr (asset_mut (\<lambda>a. a\<lparr>as_signature :=
                  Some \<lparr>ss_public_key = pk, ss_algorithm = Some alg\<rparr>\<rparr>) tx, r))))
         else
           rbind (r_hex E 33 r) (\<lambda>(pk, r).
           Inr (asset_mut (\<lambda>a. a\<lparr>as_signature :=
                  Some \<lparr>ss_public_key = pk, ss_algorithm = None\<rparr>\<rparr>) tx, r)))
      else if tx_type tx = DELEGATE_REGISTRATION then
        rbind (r_u8 r) (\<lambda>(n, r). rbind (r_bytes (unat n) r) (\<lambda>(b, r).
        rbind (ok_or (ser_err ''delegate username is not utf-8'') (from_utf8 b)) (\<lambda>name.
        Inr (asset_mut (\<lambda>a. a\<lparr>as_delegate := Some name\<rparr>) tx, r))))
      else if tx_type tx = VOTE then
        rbind (r_u8 r) (\<lambda>(n, r). rbind (r_times (unat n) (read_vote E) r) (\<lambda>(vs, r).
        Inr (asset_mut (\<lambda>a. a\<lparr>as_votes := Some vs\<rparr>) tx, r)))
      else if tx_type tx = MULTI_SIGNATURE then
        rbind (r_u8 r) (\<lambda>(mn, r). rbind (r_u8 r) (\<lambda>(n, r).
        rbind (r_times (unat n) (r_hex E 33) r) (\<lambda>(pks, r).
        Inr (asset_mut (\<lambda>a. a\<lparr>as_multi_signature :=
               Some \<lparr>ms_min = mn, ms_public_keys = pks\<rparr>\<rparr>) tx, r))))
      else if tx_type tx = IPFS then
        (let start = rd_pos r in
         rbind (r_u8 r) (\<lambda>(hash_fn, r). rbind (r_u8 r) (\<lambda>(n, r).
         rbind (r_bytes (unat n) r) (\<lambda>(digest, r).
         Inr (asset_mut (\<lambda>a. a\<lparr>as_ipfs :=
                Some (bs58_encode E (r_slice start (rd_pos r) r))\<rparr>) tx, r)))))
      else if tx_type tx = MULTI_PAYMENT then
        rbind (r_u16_le r) (\<lambda>(n, r). rbind (r_times (unat n) (read_payment E) r) (\<lambda>(ps, r).
        Inr (asset_mut (\<lambda>a. a\<lparr>as_payments := Some ps\<rparr>) (tx\<lparr>tx_amount := 0\<rparr>), r)))
      else if tx_type tx = DELEGATE_RESIGNATION then Inr (tx, r)
      else if tx_type tx = HTLC_LOCK then
        rbind (r_u64_le r) (\<lambda>(n, r). rbind (r_hex E 32 r) (\<lambda>(h, r).
        rbind (r_u8 r) (\<lambda>(ty, r). rbind (r_u32_le r) (\<lambda>(v, r).
        rbind (read_address E r) (\<lambda>(a, r).
        Inr (asset_mut (\<lambda>x. x\<lparr>as_lock := Some \<lparr>hl_secret_hash = h,
               hl_expiration = \<lparr>he_type = ty, he_value = v\<rparr>\<rparr>\<rparr>)
               (tx\<lparr>tx_amount := n, tx_recipient := Some a\<rparr>), r))))))
      else if tx_type tx = HTLC_CLAIM then
        rbind (r_hex E 32 r) (\<lambda>(i, r). rbind (r_hex E 32 r) (\<lambda>(s, r).
        Inr (asset_mut (\<lambda>a. a\<lparr>as_claim :=
               Some \<lparr>hc_lock_transaction_id = i, hc_unlock_secret = s\<rparr>\<rparr>) tx, r)))
      else if tx_type tx = HTLC_REFUND then
        rbind (r_hex E 32 r) (\<lambda>(i, r). Inr (asset_mut (\<lambda>a. a\<lparr>as_refund := Some i\<rparr>) tx, r))
      else Inl (ser_err ''unsupported transaction type''))"

definition deserialize_type_payload ::
  "crypto \<Rightarrow> transaction \<Rightarrow> reader \<Rightarrow> (transaction \<times> reader) res" where
  "deserialize_type_payload E tx r =
     (if is_sobj tx then deserialize_sobj E tx r
      else if is_token tx then deserialize_token E tx r
      else if tx_type_group tx \<noteq> TYPE_GROUP_CORE then Inl (ser_err ''unsupported typeGroup'')
      else deserialize_core E tx r)"

definition detect_schnorr :: "nat \<Rightarrow> bool" where
  "detect_schnorr n \<longleftrightarrow>
     n = 64 \<or> n = 128 \<or> n mod 65 = 0 \<or> (64 \<le> n \<and> (n - 64) mod 65 = 0)
     \<or> (128 \<le> n \<and> (n - 128) mod 65 = 0)"

text \<open>The two loops of \<open>deserialize_signatures_v3\<close>. A block takes at least three bytes and a part 65,
  so the number of bytes left bounds the rounds and is the fuel; \<open>r_parts\<close> is the second loop.\<close>

fun r_pq_blocks ::
  "nat \<Rightarrow> crypto \<Rightarrow> reader \<Rightarrow> (pq_signature_block list \<times> reader) res option" where
  "r_pq_blocks fuel E r =
     (if remaining r > 0 \<and> peek_u8 0 r \<noteq> Some 0xff then
        (case fuel of 0 \<Rightarrow> None
         | Suc k \<Rightarrow>
             (case rbind (r_u8 r) (\<lambda>(alg, r). rbind (r_u16_le r) (\<lambda>(n, r).
                   rbind (r_hex E (unat n) r) (\<lambda>(sig, r).
                   Inr (\<lparr>pb_algorithm = alg, pb_signature = sig\<rparr>, r)))) of
                Inl e \<Rightarrow> Some (Inl e)
              | Inr (b, r) \<Rightarrow>
                  map_option (\<lambda>m. rbind m (\<lambda>(bs, r). Inr (b # bs, r))) (r_pq_blocks k E r)))
      else Some (Inr ([], r)))"

fun r_parts :: "nat \<Rightarrow> crypto \<Rightarrow> reader \<Rightarrow> (string list \<times> reader) res option" where
  "r_parts fuel E r =
     (if remaining r > 0 then
        (case fuel of 0 \<Rightarrow> None
         | Suc k \<Rightarrow>
             (case r_hex E 65 r of
                Inl e \<Rightarrow> Some (Inl e)
              | Inr (s, r) \<Rightarrow>
                  map_option (\<lambda>m. rbind m (\<lambda>(ss, r). Inr (s # ss, r))) (r_parts k E r)))
      else Some (Inr ([], r)))"

text \<open>The value of a loop with its fuel; \<open>r_pq_blocks_total\<close> and \<open>r_parts_total\<close> show that the
  default is never taken.\<close>

definition run_loop :: "'a res option \<Rightarrow> 'a res" where
  "run_loop m = (case m of None \<Rightarrow> Inl (ser_err ''loop'') | Some x \<Rightarrow> x)"

definition deserialize_signatures_v3 ::
  "crypto \<Rightarrow> transaction \<Rightarrow> reader \<Rightarrow> (transaction \<times> reader) res" where
  "deserialize_signatures_v3 E tx r =
     (if remaining r = 0 then Inr (tx, r)
      else
        rbind (r_hex E 64 r) (\<lambda>(s, r).
        rbind (run_loop (r_pq_blocks (remaining r) E r)) (\<lambda>(blocks, r).
        let tx = tx\<lparr>tx_signature := Some s,
                    tx_second_signatures :=
                      (if blocks = [] then tx_second_signatures tx else Some blocks)\<rparr>
        in if remaining r > 0 then
             rbind (r_u8 r) (\<lambda>(marker, r).
             if remaining r mod 65 \<noteq> 0
             then Inl (ser_err ''v3 multisignature buffer not exhausted'')
             else rbind (run_loop (r_parts (remaining r) E r)) (\<lambda>(sigs, r).
                  Inr (tx\<lparr>tx_signatures := Some sigs\<rparr>, r)))
           else Inr (tx, r))))"

definition can_read_single :: "reader \<Rightarrow> bool" where
  "can_read_single r \<longleftrightarrow> remaining r > 0 \<and> (remaining r mod 64 = 0 \<or> remaining r mod 65 \<noteq> 0)"

text \<open>The participant loop of the schnorr branch: the first two hex digits are the participant.\<close>

fun r_participants ::
  "nat \<Rightarrow> crypto \<Rightarrow> string list \<Rightarrow> reader \<Rightarrow> (string list \<times> reader) res" where
  "r_participants 0 E seen r = Inr ([], r)"
| "r_participants (Suc n) E seen r =
     rbind (r_hex E 65 r) (\<lambda>(part, r).
     if take 2 part \<in> set seen then Inl (ser_err ''duplicate participant in multi signature'')
     else rbind (r_participants n E (take 2 part # seen) r) (\<lambda>(ps, r). Inr (part # ps, r)))"

definition schnorr_multi :: "crypto \<Rightarrow> transaction \<Rightarrow> reader \<Rightarrow> (transaction \<times> reader) res" where
  "schnorr_multi E tx r =
     (if remaining r > 0 then
        (if remaining r mod 65 \<noteq> 0 then Inl (ser_err ''signature buffer not exhausted'')
         else rbind (r_participants (remaining r div 65) E [] r) (\<lambda>(sigs, r).
              Inr (tx\<lparr>tx_signatures := Some sigs\<rparr>, r)))
      else Inr (tx, r))"

definition der_len :: "reader \<Rightarrow> nat res" where
  "der_len r = ok_or (ser_err ''truncated DER signature'')
                 (map_option (\<lambda>l. unat l + 2) (peek_u8 1 r))"

definition deserialize_signatures ::
  "crypto \<Rightarrow> transaction \<Rightarrow> reader \<Rightarrow> (transaction \<times> reader) res" where
  "deserialize_signatures E tx r =
     (if is_pq tx then deserialize_signatures_v3 E tx r
      else if detect_schnorr (remaining r) then
        rbind (if can_read_single r
               then rbind (r_hex E 64 r) (\<lambda>(s, r). Inr (tx\<lparr>tx_signature := Some s\<rparr>, r))
               else Inr (tx, r)) (\<lambda>(tx, r).
        rbind (if can_read_single r
               then rbind (r_hex E 64 r) (\<lambda>(s, r). Inr (tx\<lparr>tx_second_signature := Some s\<rparr>, r))
               else Inr (tx, r)) (\<lambda>(tx, r).
        schnorr_multi E tx r))
      else
        rbind (if remaining r > 0
               then rbind (der_len r) (\<lambda>n. rbind (r_hex E n r) (\<lambda>(s, r).
                      Inr (tx\<lparr>tx_signature := Some s\<rparr>, r)))
               else Inr (tx, r)) (\<lambda>(tx, r).
        rbind (if remaining r > 0 \<and> peek_u8 0 r \<noteq> Some 0xff
               then rbind (der_len r) (\<lambda>n. rbind (r_hex E n r) (\<lambda>(s, r).
                      Inr (tx\<lparr>tx_second_signature := Some s\<rparr>, r)))
               else Inr (tx, r)) (\<lambda>(tx, r).
        rbind (if remaining r > 0 \<and> peek_u8 0 r = Some 0xff
               then rbind (r_u8 r) (\<lambda>(marker, r).
                      let (b, r) = r_rest r
                      in Inr (tx\<lparr>tx_signatures := Some [hex_encode E b]\<rparr>, r))
               else Inr (tx, r)) (\<lambda>(tx, r).
        if remaining r > 0 then Inl (ser_err ''signature buffer not exhausted'') else Inr (tx, r)))))"

definition deserialize_transaction :: "crypto \<Rightarrow> bytes \<Rightarrow> transaction res" where
  "deserialize_transaction E bs =
     rbind (r_u8 (reader_new bs)) (\<lambda>(marker, r).
     if marker \<noteq> 0xff then Inl (ser_err ''missing 0xff transaction marker'')
     else
       rbind (r_u8 r) (\<lambda>(version, r). rbind (r_u8 r) (\<lambda>(network, r).
       if version = 1 then Inl (ser_err ''legacy v1 transactions are not supported on this chain'')
       else
         rbind (r_u32_le r) (\<lambda>(group, r). rbind (r_u16_le r) (\<lambda>(ty, r).
         rbind (r_u64_le r) (\<lambda>(nonce, r). rbind (r_hex E 33 r) (\<lambda>(spk, r).
         rbind (r_u64_le r) (\<lambda>(fee, r).
         let tx = \<lparr>tx_version = version, tx_network = Some network, tx_type_group = group,
                   tx_type = ty, tx_nonce = Some nonce, tx_sender_public_key = spk, tx_fee = fee,
                   tx_amount = 0, tx_vendor_field = None, tx_expiration = None,
                   tx_recipient = None, tx_asset = None, tx_signature = None,
                   tx_second_signature = None, tx_sign_signature = None, tx_signatures = None,
                   tx_second_signatures = None, tx_timestamp = None, tx_id = None,
                   tx_block_id = None, tx_block_height = None, tx_sequence = None\<rparr>
         in rbind (r_u8 r) (\<lambda>(vf_len, r).
            rbind (if unat vf_len > 0
                   then rbind (r_bytes (unat vf_len) r) (\<lambda>(raw, r).
                          Inr (if has_vendor_field tx
                               then tx\<lparr>tx_vendor_field := Some (from_utf8_lossy raw)\<rparr> else tx, r))
                   else Inr (tx, r)) (\<lambda>(tx, r).
            rbind (deserialize_type_payload E tx r) (\<lambda>(tx, r).
            rbind (deserialize_signatures E tx r) (\<lambda>(tx, r).
            Inr (tx\<lparr>tx_id := Some (hex_encode E (sha256 E bs))\<rparr>))))))))))))) "

end
