(* ===== verification/Milestones.thy ===== *)
theory Milestones
  imports Models
begin

text \<open>
  The network configuration (\<open>src/src/config.rs\<close>): milestone parameters, the deep merge of the
  milestone patches, the milestone in force at a height, the supply calculator, the block versions
  a height accepts, the fee tables and the chain clock. The files themselves (JSON text, gzip, the
  directory) are I/O; the clock reading is the argument \<open>now\<close>.
\<close>

section \<open>Parameters\<close>

record finality_params =
  fp_active :: bool
  fp_quorum :: u32
  fp_slashing :: bool
  fp_slashing_rounds :: u32

record pq_params =
  pq_active :: bool
  pq_fee_per_byte :: u64
  pq_commitment_grace :: u64
  pq_blocks_on :: bool
  pq_blocks_grace :: u64

record token_fees =
  tf_init :: u64
  tf_transfer :: u64
  tf_transfer_per_recipient :: u64
  tf_mint :: u64
  tf_burn :: u64
  tf_meta :: u64
  tf_init_burn_percent :: u8
  tf_sell :: u64
  tf_buy :: u64
  tf_cancel :: u64

record masternode_params =
  mn_enabled :: bool
  mn_collateral_amount :: u64

record token_market_params =
  mk_enabled :: bool
  mk_max_open_orders :: u32

record block_params =
  bp_version :: u32
  bp_id_full_sha256 :: bool
  bp_max_transactions :: u32
  bp_max_payload :: u64

record milestone =
  ms_height :: u64
  ms_reward :: u64
  ms_active_delegates :: u32
  ms_blocktime :: u32
  ms_block :: block_params
  ms_epoch :: string
  ms_static_fees :: "(string, u64) btmap"
  ms_vendor_field_length :: u16
  ms_multi_payment_limit :: u32
  ms_htlc_enabled :: bool
  ms_block_burn_address :: bool
  ms_tx_v2 :: bool
  ms_sobj_active :: bool
  ms_schnorr_blocks :: bool
  ms_tokens :: bool
  ms_token_fees :: token_fees
  ms_token_transfer_max_recipients :: u16
  ms_token_market :: token_market_params
  ms_masternodes :: masternode_params
  ms_sobj_v2 :: bool
  ms_strict_balance :: bool
  ms_min_core_version :: string
  ms_pq :: pq_params
  ms_finality :: finality_params

definition finality_params_default :: finality_params where
  "finality_params_default = \<lparr>fp_active = False, fp_quorum = 0, fp_slashing = False, fp_slashing_rounds = 0\<rparr>"

definition pq_params_default :: pq_params where
  "pq_params_default = \<lparr>pq_active = False, pq_fee_per_byte = 10000, pq_commitment_grace = 86400,
     pq_blocks_on = False, pq_blocks_grace = 43200\<rparr>"

definition token_fees_default :: token_fees where
  "token_fees_default = \<lparr>tf_init = 50000000000, tf_transfer = 10000000,
     tf_transfer_per_recipient = 1000000, tf_mint = 100000000, tf_burn = 10000000,
     tf_meta = 100000000, tf_init_burn_percent = 50, tf_sell = 100000000, tf_buy = 10000000,
     tf_cancel = 10000000\<rparr>"

definition masternode_params_default :: masternode_params where
  "masternode_params_default = \<lparr>mn_enabled = False, mn_collateral_amount = 1000000000000\<rparr>"

definition block_params_default :: block_params where
  "block_params_default = \<lparr>bp_version = 0, bp_id_full_sha256 = True, bp_max_transactions = 500,
     bp_max_payload = 84000000\<rparr>"

definition milestone_default :: milestone where
  "milestone_default = \<lparr>ms_height = 1, ms_reward = 0, ms_active_delegates = 21, ms_blocktime = 8,
     ms_block = block_params_default, ms_epoch = ''2023-08-29T00:00:00.000Z'', ms_static_fees = [],
     ms_vendor_field_length = 255, ms_multi_payment_limit = 256, ms_htlc_enabled = True,
     ms_block_burn_address = True, ms_tx_v2 = True, ms_sobj_active = False,
     ms_schnorr_blocks = False, ms_tokens = False, ms_token_fees = token_fees_default,
     ms_token_transfer_max_recipients = 64,
     ms_token_market = \<lparr>mk_enabled = False, mk_max_open_orders = 0\<rparr>,
     ms_masternodes = masternode_params_default, ms_sobj_v2 = False, ms_strict_balance = False,
     ms_min_core_version = [], ms_pq = pq_params_default, ms_finality = finality_params_default\<rparr>"

definition slashing_rounds :: "finality_params \<Rightarrow> u64" where
  "slashing_rounds f = (if fp_slashing_rounds f = 0 then 30 else ucast (fp_slashing_rounds f))"

definition finality_quorum :: "milestone \<Rightarrow> u32" where
  "finality_quorum m =
     (if fp_quorum (ms_finality m) > 0 then fp_quorum (ms_finality m)
      else ms_active_delegates m * 2 div 3 + 1)"

definition init_burn :: "token_fees \<Rightarrow> u64" where
  "init_burn f = tf_init f * ucast (min (tf_init_burn_percent f) 100) div 100"

definition block_version :: "milestone \<Rightarrow> u32" where
  "block_version m = bp_version (ms_block m)"

definition max_transactions :: "milestone \<Rightarrow> u32" where
  "max_transactions m = bp_max_transactions (ms_block m)"

definition max_payload :: "milestone \<Rightarrow> u64" where
  "max_payload m = bp_max_payload (ms_block m)"

definition FEE_NAMES :: "(string \<times> u16) list" where
  "FEE_NAMES = [(''transfer'', 0), (''secondSignature'', 1), (''delegateRegistration'', 2),
     (''vote'', 3), (''multiSignature'', 4), (''ipfs'', 5), (''multiPayment'', 6),
     (''delegateResignation'', 7), (''htlcLock'', 8), (''htlcClaim'', 9), (''htlcRefund'', 10)]"

definition static_fee :: "milestone \<Rightarrow> string \<Rightarrow> u64" where
  "static_fee m name = unwrap_or 0 (bt_get (ms_static_fees m) name)"

definition static_fee_for_type :: "milestone \<Rightarrow> u16 \<Rightarrow> u64" where
  "static_fee_for_type m ty =
     (case find (\<lambda>e. snd e = ty) FEE_NAMES of None \<Rightarrow> 0 | Some e \<Rightarrow> static_fee m (fst e))"

section \<open>Merging milestone patches\<close>

text \<open>\<open>serde_json::Value\<close>; an object is an ordered map.\<close>

datatype json = JNull | JBool bool | JNum int | JStr string | JArr "json list"
  | JObj "(string \<times> json) list"

definition is_object :: "json \<Rightarrow> bool" where
  "is_object v = (case v of JObj _ \<Rightarrow> True | _ \<Rightarrow> False)"

definition MILESTONE_KEY_ALIASES :: "(string \<times> string) list" where
  "MILESTONE_KEY_ALIASES = [(''aip11'', ''ship11''), (''txV2'', ''ship11''), (''aip36'', ''ship13''),
     (''sobj'', ''ship13''), (''aip37'', ''ship11Blocks''), (''schnorrBlocks'', ''ship11Blocks'')]"

definition canonical_key :: "string \<Rightarrow> string" where
  "canonical_key k =
     (case find (\<lambda>e. fst e = k) MILESTONE_KEY_ALIASES of None \<Rightarrow> k | Some e \<Rightarrow> snd e)"

definition canonical_milestone_keys :: "json \<Rightarrow> json" where
  "canonical_milestone_keys v =
     (case v of JObj o1 \<Rightarrow> JObj (fold (\<lambda>(k, x) m. bt_put (canonical_key k) x m) o1 []) | _ \<Rightarrow> v)"

function deep_merge :: "json \<Rightarrow> json \<Rightarrow> json"
  and merge_entries :: "(string \<times> json) list \<Rightarrow> (string \<times> json) list \<Rightarrow> (string \<times> json) list" where
  "deep_merge base patch =
     (case (base, patch) of
        (JObj b, JObj p) \<Rightarrow> JObj (merge_entries b p)
      | _ \<Rightarrow> patch)"
| "merge_entries b [] = b"
| "merge_entries b ((k, v) # p) =
     merge_entries
       (case bt_get b k of
          Some slot \<Rightarrow> bt_put k (if is_object slot \<and> is_object v then deep_merge slot v else v) b
        | None \<Rightarrow> bt_put k v b) p"
  by pat_completeness auto
termination
  by (relation "measure (case_sum (\<lambda>x. size (snd x)) (\<lambda>x. size_list (size_prod (\<lambda>_. 0) size) (snd x)))")
     auto

declare deep_merge.simps [simp del]

section \<open>Networks\<close>

record network =
  nw_pubkey_hash :: u8
  nw_nethash :: string
  nw_genesis_block_id :: string
  nw_genesis_total_amount :: u64
  nw_burn_address :: string
  nw_epoch_unix :: int
  nw_milestones :: "milestone list"

definition milestone_at :: "network \<Rightarrow> u64 \<Rightarrow> milestone" where
  "milestone_at n height =
     (case find (\<lambda>m. ms_height m \<le> max height 1) (rev (nw_milestones n)) of
        Some m \<Rightarrow> m | None \<Rightarrow> hd (nw_milestones n))"

definition pq_activation_height :: "network \<Rightarrow> u64 option" where
  "pq_activation_height n = map_option ms_height (find (\<lambda>m. pq_active (ms_pq m)) (nw_milestones n))"

definition pq_blocks_activation_height :: "network \<Rightarrow> u64 option" where
  "pq_blocks_activation_height n =
     map_option ms_height (find (\<lambda>m. pq_blocks_on (ms_pq m)) (nw_milestones n))"

definition block_versions_allowed :: "network \<Rightarrow> u64 \<Rightarrow> bool \<times> bool" where
  "block_versions_allowed n height =
     (let m = milestone_at n height in
      if \<not> pq_blocks_on (ms_pq m) then (False, True)
      else (let grace_end = saturating_add (unwrap_or height (pq_blocks_activation_height n))
                              (pq_blocks_grace (ms_pq m))
            in (True, height < grace_end)))"

text \<open>The loop of \<open>supply\<close>: one round per milestone, with the next one looked at.\<close>

fun supply_loop :: "milestone list \<Rightarrow> u64 \<Rightarrow> u64 \<Rightarrow> u64" where
  "supply_loop [] height acc = acc"
| "supply_loop (m # rest) height acc =
     supply_loop rest height
       (if ms_reward m = 0 then acc
        else (let start = max (ms_height m) 1;
                  e = min (case rest of [] \<Rightarrow> u64_max | n # _ \<Rightarrow> saturating_sub (ms_height n) 1) height
              in if e \<ge> start
                 then saturating_add acc (saturating_mul (ms_reward m) (e - start + 1))
                 else acc))"

definition supply_at :: "network \<Rightarrow> u64 \<Rightarrow> u64" where
  "supply_at n height = supply_loop (nw_milestones n) height (nw_genesis_total_amount n)"

definition epoch_to_unix :: "network \<Rightarrow> u32 \<Rightarrow> int" where
  "epoch_to_unix n e = nw_epoch_unix n + uint e"

definition unix_to_epoch :: "network \<Rightarrow> int \<Rightarrow> u32" where
  "unix_to_epoch n t = word_of_int (max (t - nw_epoch_unix n) 0)"

definition static_fees :: "network \<Rightarrow> u64 \<Rightarrow> (string \<times> u16 \<times> u64) list" where
  "static_fees n height =
     (let m = milestone_at n height in map (\<lambda>(name, t). (name, t, static_fee m name)) FEE_NAMES)"

section \<open>Configurations that load\<close>

text \<open>What \<open>from_json\<close> guarantees: at least one milestone, ascending heights, burn shares up to
  100 percent.\<close>

definition network_ok :: "network \<Rightarrow> bool" where
  "network_ok n \<longleftrightarrow> nw_milestones n \<noteq> [] \<and> sorted (map ms_height (nw_milestones n))
     \<and> list_all (\<lambda>m. tf_init_burn_percent (ms_token_fees m) \<le> 100) (nw_milestones n)"

definition build_milestones :: "milestone list \<Rightarrow> milestone list res" where
  "build_milestones parsed =
     (if parsed = [] then Inl (Config ''milestones.json must be a non-empty array'')
      else if list_ex (\<lambda>m. tf_init_burn_percent (ms_token_fees m) > 100) parsed
      then Inl (Config ''tokenFees.initBurnPercent must be 0..=100'')
      else Inr (sort_key ms_height parsed))"

lemma build_milestones_ok:
  "build_milestones parsed = Inr ms \<Longrightarrow> network_ok (n\<lparr>nw_milestones := ms\<rparr>)"
proof -
  assume "build_milestones parsed = Inr ms"
  then have ms: "ms = sort_key ms_height parsed" "parsed \<noteq> []"
    "\<not> list_ex (\<lambda>m. tf_init_burn_percent (ms_token_fees m) > 100) parsed"
    by (auto simp: build_milestones_def split: if_splits)
  then have "ms \<noteq> []" by (metis length_0_conv length_sort)
  with ms show ?thesis by (auto simp: network_ok_def list_all_iff list_ex_iff not_less)
qed

section \<open>Milestone lookup and supply\<close>

text \<open>The milestone in force, by recursion on the ascending list: step over a milestone when the next
  one has started.\<close>

fun in_force :: "milestone \<Rightarrow> milestone list \<Rightarrow> u64 \<Rightarrow> milestone" where
  "in_force m [] h = m"
| "in_force m (n # rest) h = (if ms_height n \<le> h then in_force n rest h else m)"

lemma find_rev_in_force:
  assumes "sorted (map ms_height (m # rest))" and "ms_height m \<le> h"
  shows "find (\<lambda>m. ms_height m \<le> h) (rev (m # rest)) = Some (in_force m rest h)"
  using assms
proof (induction rest arbitrary: m)
  case (Cons n rest)
  have app: "find P (xs @ ys) = (case find P xs of None \<Rightarrow> find P ys | Some x \<Rightarrow> Some x)"
    for P and xs ys :: "milestone list" by (induction xs) auto
  show ?case
  proof (cases "ms_height n \<le> h")
    case True
    then have "find (\<lambda>m. ms_height m \<le> h) (rev (n # rest)) = Some (in_force n rest h)"
      using Cons.prems(1) by (intro Cons.IH) auto
    with True show ?thesis by (simp add: app split: option.splits)
  next
    case False
    then have "\<forall>x \<in> set (n # rest). \<not> ms_height x \<le> h"
      using Cons.prems(1) by fastforce
    then have "find (\<lambda>m. ms_height m \<le> h) (rev (n # rest)) = None"
      by (auto simp: find_None_iff)
    with False Cons.prems(2) show ?thesis by (simp add: app split: option.splits)
  qed
qed simp

lemma milestone_at_in_force:
  assumes "nw_milestones n = m # rest" and "sorted (map ms_height (m # rest))" and "ms_height m \<le> 1"
  shows "milestone_at n h = in_force m rest (max h 1)"
proof -
  have "ms_height m \<le> max h 1" using assms(3) by (simp add: le_max_iff_disj)
  from find_rev_in_force [OF assms(2) this] assms(1) show ?thesis
    by (simp add: milestone_at_def)
qed

lemma in_force_before:
  "rest \<noteq> [] \<Longrightarrow> \<not> ms_height (hd rest) \<le> h \<Longrightarrow> in_force m rest h = m"
  by (cases rest) auto

text \<open>The rewards of the heights \<open>a..b\<close>, one by one.\<close>

definition reward_sum :: "milestone \<Rightarrow> milestone list \<Rightarrow> int \<Rightarrow> int \<Rightarrow> int" where
  "reward_sum m rest a b = (\<Sum>h \<in> {a..b}. uint (ms_reward (in_force m rest (word_of_int h))))"

lemma reward_sum_nonneg: "0 \<le> reward_sum m rest a b"
  by (simp add: reward_sum_def sum_nonneg)

lemma reward_sum_const:
  assumes "a \<le> b" and "\<And>h. a \<le> h \<Longrightarrow> h \<le> b \<Longrightarrow> in_force m rest (word_of_int h) = m"
  shows "reward_sum m rest a b = uint (ms_reward m) * (b - a + 1)"
proof -
  have "reward_sum m rest a b = (\<Sum>h \<in> {a..b}. uint (ms_reward m))"
    unfolding reward_sum_def by (rule sum.cong) (use assms in auto)
  with assms(1) show ?thesis by (simp add: mult.commute)
qed

text \<open>Saturating accumulation is the exact sum cut off at the top.\<close>

lemma saturating_accumulate:
  assumes "uint (acc :: u64) = min s (2 ^ 64 - 1)" and "0 \<le> s"
  shows "uint (saturating_add acc (saturating_mul r k)) = min (s + uint r * uint k) (2 ^ 64 - 1)"
proof -
  have "min (min s (2 ^ 64 - 1) + min p (2 ^ 64 - 1)) (2 ^ 64 - 1) = min (s + p) (2 ^ 64 - 1)"
    if "0 \<le> p" for p :: int
    using that assms(2) by (auto simp: min_def)
  from this [of "uint r * uint k"] assms(1) show ?thesis
    by (simp add: uint_saturating_add uint_saturating_mul)
qed

lemma uint_max: "uint (max a b) = max (uint a) (uint (b :: 'a::len word))"
  by (simp add: max_def word_le_def)

lemma uint_min: "uint (min a b) = min (uint a) (uint (b :: 'a::len word))"
  by (simp add: min_def word_le_def)

lemma uint_range_count:
  "start \<le> e \<Longrightarrow> 1 \<le> uint start \<Longrightarrow> uint (e - start + 1 :: u64) = uint e - uint start + 1"
proof -
  assume a: "start \<le> e" "1 \<le> uint start"
  have e: "uint e < 2 ^ 64" using unsigned_less [where 'a = int and w = e] by simp
  have d: "uint (e - start) = uint e - uint start"
    using a(1) by (simp add: uint_minus_simple_alt word_le_def)
  have "uint (e - start + 1) = uint (e - start) + uint (1 :: u64)"
    using d e a by (intro uint_add_small) simp
  with d show ?thesis by simp
qed

lemma supply_loop_sum:
  assumes "sorted (map ms_height (m # rest))" and "uint acc = min s (2 ^ 64 - 1)" and "0 \<le> s"
  shows "uint (supply_loop (m # rest) height acc)
           = min (s + reward_sum m rest (max (uint (ms_height m)) 1) (uint height)) (2 ^ 64 - 1)"
  using assms
proof (induction rest arbitrary: m acc s)
  case Nil
  define start where "start = max (ms_height m) 1"
  have st: "uint start = max (uint (ms_height m)) 1" by (simp add: start_def uint_max)
  have mx: "min u64_max height = height" by (simp add: u64_max_def min_absorb2)
  show ?case
  proof (cases "start \<le> height")
    case True
    then have "reward_sum m [] (uint start) (uint height) = uint (ms_reward m) * uint (height - start + 1)"
      using st by (subst reward_sum_const) (simp_all add: uint_range_count word_le_def)
    then show ?thesis
      using True Nil saturating_accumulate [OF Nil(2,3), of "ms_reward m" "height - start + 1"] st
      by (cases "ms_reward m = 0") (simp_all add: mx Let_def start_def [symmetric] uint_0_iff)
  next
    case False
    then have "reward_sum m [] (uint start) (uint height) = 0"
      by (simp add: reward_sum_def word_le_def)
    with False Nil st show ?thesis by (simp add: mx Let_def start_def [symmetric])
  qed
next
  case (Cons n rest)
  define start where "start = max (ms_height m) 1"
  define e where "e = min (saturating_sub (ms_height n) 1) height"
  define acc' where "acc' = (if ms_reward m = 0 then acc else if e \<ge> start
     then saturating_add acc (saturating_mul (ms_reward m) (e - start + 1)) else acc)"
  define s' where "s' = s + reward_sum m (n # rest) (uint start) (uint e)"
  have st: "uint start = max (uint (ms_height m)) 1" by (simp add: start_def uint_max)
  have ue: "uint e = min (max 0 (uint (ms_height n) - 1)) (uint height)"
    by (simp add: e_def uint_min uint_saturating_sub)
  have mn: "uint (ms_height m) \<le> uint (ms_height n)"
    using Cons.prems(1) by (simp add: word_le_def)
  have const: "reward_sum m (n # rest) (uint start) (uint e) = uint (ms_reward m) * uint (e - start + 1)"
    if "start \<le> e"
  proof -
    have "in_force m (n # rest) (word_of_int h) = m" if h: "uint start \<le> h" "h \<le> uint e" for h
    proof -
      have "0 \<le> h" "h < 2 ^ 64"
        using h st ue unsigned_less [where 'a = int and w = height] by auto
      then have "uint (word_of_int h :: u64) = h" by (simp add: uint_word_of_int)
      then have "\<not> ms_height n \<le> word_of_int h" using h ue st by (auto simp: word_le_def)
      then show ?thesis by simp
    qed
    then show ?thesis
      using that st by (subst reward_sum_const) (simp_all add: uint_range_count word_le_def)
  qed
  have acc': "uint acc' = min s' (2 ^ 64 - 1)"
  proof (cases "start \<le> e")
    case True
    then show ?thesis
      using const saturating_accumulate [OF Cons.prems(2,3), of "ms_reward m" "e - start + 1"] Cons.prems(2)
      by (auto simp: acc'_def s'_def uint_0_iff)
  next
    case False
    then have "reward_sum m (n # rest) (uint start) (uint e) = 0"
      by (simp add: reward_sum_def word_le_def)
    with False Cons.prems(2) show ?thesis by (simp add: acc'_def s'_def)
  qed
  have "supply_loop (m # n # rest) height acc = supply_loop (n # rest) height acc'"
    by (simp add: acc'_def e_def start_def Let_def)
  moreover have "uint (supply_loop (n # rest) height acc')
      = min (s' + reward_sum n rest (max (uint (ms_height n)) 1) (uint height)) (2 ^ 64 - 1)"
    using Cons.prems(1,3) acc' reward_sum_nonneg by (intro Cons.IH) (simp_all add: s'_def)
  moreover have "s' + reward_sum n rest (max (uint (ms_height n)) 1) (uint height)
      = s + reward_sum m (n # rest) (uint start) (uint height)"
  proof -
    define b where "b = max (uint (ms_height n)) 1"
    have late: "reward_sum n rest b (uint height) = reward_sum m (n # rest) b (uint height)"
      unfolding reward_sum_def
    proof (rule sum.cong)
      fix h assume h: "h \<in> {b..uint height}"
      then have "0 \<le> h" "h < 2 ^ 64"
        using unsigned_less [where 'a = int and w = height] by (auto simp: b_def)
      then have "uint (word_of_int h :: u64) = h" by (simp add: uint_word_of_int)
      then have "ms_height n \<le> word_of_int h" using h by (simp add: word_le_def b_def)
      then show "uint (ms_reward (in_force n rest (word_of_int h)))
          = uint (ms_reward (in_force m (n # rest) (word_of_int h)))" by simp
    qed simp
    have "{uint start..uint height} = {uint start..uint e} \<union> {b..uint height}"
      "{uint start..uint e} \<inter> {b..uint height} = {}"
      using st ue mn by (auto simp: b_def)
    then have "reward_sum m (n # rest) (uint start) (uint height)
        = reward_sum m (n # rest) (uint start) (uint e) + reward_sum m (n # rest) b (uint height)"
      unfolding reward_sum_def by (simp add: sum.union_disjoint)
    with late show ?thesis by (simp add: s'_def b_def)
  qed
  ultimately show ?case by (simp add: st)
qed

text \<open>The supply calculator sums the block rewards exactly: for a configuration whose first milestone
  starts at height 0 or 1, the supply at a height is the genesis amount plus, for every height from
  1 on, the reward of the milestone in force there, cut off at the largest \<open>u64\<close>.\<close>

theorem supply_is_sum_of_rewards:
  assumes "network_ok n" and "ms_height (hd (nw_milestones n)) \<le> 1"
  shows "uint (supply_at n height) = min (uint (nw_genesis_total_amount n)
     + (\<Sum>h \<in> {1..uint height}. uint (ms_reward (milestone_at n (word_of_int h))))) (2 ^ 64 - 1)"
proof -
  obtain m rest where ms: "nw_milestones n = m # rest" "sorted (map ms_height (m # rest))"
    using assms(1) by (cases "nw_milestones n") (auto simp: network_ok_def)
  have m1: "ms_height m \<le> 1" using assms(2) ms(1) by simp
  then have "max (uint (ms_height m)) 1 = 1" by (simp add: word_le_def)
  moreover have "uint (nw_genesis_total_amount n) = min (uint (nw_genesis_total_amount n)) (2 ^ 64 - 1)"
    using unsigned_less [where 'a = int and w = "nw_genesis_total_amount n"] by simp
  ultimately have "uint (supply_at n height) = min (uint (nw_genesis_total_amount n)
      + reward_sum m rest 1 (uint height)) (2 ^ 64 - 1)"
    using supply_loop_sum [OF ms(2)] by (simp add: supply_at_def ms(1))
  moreover have "reward_sum m rest 1 (uint height)
      = (\<Sum>h \<in> {1..uint height}. uint (ms_reward (milestone_at n (word_of_int h))))"
    unfolding reward_sum_def
  proof (rule sum.cong)
    fix h assume h: "h \<in> {1..uint height}"
    then have "uint (word_of_int h :: u64) = h"
      using unsigned_less [where 'a = int and w = height] by (simp add: uint_word_of_int)
    then have "(1 :: u64) \<le> word_of_int h" using h by (simp add: word_le_def)
    then have "max (word_of_int h :: u64) 1 = word_of_int h" by (rule max_absorb1)
    then show "uint (ms_reward (in_force m rest (word_of_int h)))
        = uint (ms_reward (milestone_at n (word_of_int h)))"
      by (simp add: milestone_at_in_force [OF ms m1])
  qed simp
  ultimately show ?thesis by simp
qed

definition ref_network :: network where
  "ref_network = \<lparr>nw_pubkey_hash = 63, nw_nethash = ''net'', nw_genesis_block_id = ''g'',
     nw_genesis_total_amount = 1000, nw_burn_address = ''burn'', nw_epoch_unix = 1693267200,
     nw_milestones = [milestone_default, milestone_default\<lparr>ms_height := 3, ms_reward := 7\<rparr>]\<rparr>"

theorem supply_is_sum_of_rewards_witness:
  "uint (supply_at ref_network 4) = 1014 \<and> min (uint (nw_genesis_total_amount ref_network)
     + (\<Sum>h \<in> {1..uint (4 :: u64)}. uint (ms_reward (milestone_at ref_network (word_of_int h)))))
     (2 ^ 64 - 1) = 1014"
proof -
  have ok: "network_ok ref_network" "ms_height (hd (nw_milestones ref_network)) \<le> 1"
    by (simp_all add: network_ok_def ref_network_def milestone_default_def token_fees_default_def)
  have "supply_at ref_network 4 = 1014" by code_simp
  then have "uint (supply_at ref_network 4) = 1014" by simp
  with supply_is_sum_of_rewards [OF ok, of 4] show ?thesis by simp
qed

section \<open>Block versions\<close>

text \<open>At every height at least one block version is accepted; the hybrid version 1 exactly while
  \<open>pq.blocks\<close> is on, and the old version 0 is refused only once the hybrid rule is on and the grace
  window after its first activation has passed.\<close>

lemma block_versions_allowed_spec:
  "fst (block_versions_allowed n h) = pq_blocks_on (ms_pq (milestone_at n h))
   \<and> (\<not> snd (block_versions_allowed n h) \<longleftrightarrow>
        pq_blocks_on (ms_pq (milestone_at n h)) \<and>
        min (uint (unwrap_or h (pq_blocks_activation_height n))
             + uint (pq_blocks_grace (ms_pq (milestone_at n h)))) (2 ^ 64 - 1) \<le> uint h)
   \<and> (fst (block_versions_allowed n h) \<or> snd (block_versions_allowed n h))"
  by (auto simp: block_versions_allowed_def Let_def word_less_def uint_saturating_add not_less)

section \<open>Quorum and burn\<close>

text \<open>The default quorum is more than two thirds of the active set and no more than all of it.\<close>

lemma default_quorum_bounds:
  assumes "fp_quorum (ms_finality m) = 0" and "0 < ms_active_delegates m"
    and "uint (ms_active_delegates m) < 2 ^ 31"
  shows "3 * uint (finality_quorum m) > 2 * uint (ms_active_delegates m)
    \<and> finality_quorum m \<le> ms_active_delegates m"
proof -
  let ?n = "ms_active_delegates m"
  have n: "0 < uint ?n" using assms(2) by (simp add: word_less_def)
  have two: "uint (?n * 2) = uint ?n * 2"
    using assms(3) by (subst uint_mult_small) simp_all
  have d: "uint (?n * 2 div 3) = uint ?n * 2 div 3" by (simp add: uint_div two)
  have "uint (?n * 2 div 3 + 1) = uint ?n * 2 div 3 + 1"
    using assms(3) n d by (subst uint_add_small) simp_all
  with assms(1) n show ?thesis by (auto simp: finality_quorum_def word_le_def)
qed

text \<open>A token init never burns more than its fee, unless the product leaves 64 bits.\<close>

lemma init_burn_le:
  assumes "uint (tf_init f) * 100 < 2 ^ 64"
  shows "init_burn f \<le> tf_init f"
proof -
  let ?p = "ucast (min (tf_init_burn_percent f) 100) :: u64"
  have p: "uint ?p \<le> 100"
    by (simp add: uint_min unsigned_ucast_eq take_bit_int_eq_self)
  then have le: "uint (tf_init f) * uint ?p \<le> uint (tf_init f) * 100"
    by (intro mult_left_mono) simp_all
  then have "uint (tf_init f * ?p) = uint (tf_init f) * uint ?p"
    using assms by (intro uint_mult_small) simp
  with le show ?thesis by (simp add: init_burn_def word_le_def uint_div)
qed

end
