(* ===== verification/Wallet.thy ===== *)
theory Wallet
  imports TxCodec Milestones
begin

text \<open>
  The wallet state and the per-block wallet delta of \<open>src/src/storage.rs\<close>, the record types stored
  with them (orders, token registries, smart objects, HTLC locks), the application of a delta and
  the vote weight. \<open>to_lowercase\<close> on names is modelled on ASCII, which is all \<open>name_ok\<close> admits.
\<close>

section \<open>Records\<close>

record pq_key =
  pk_algorithm :: u8
  pk_public_key :: string
  pk_since :: u64

record pq_commitment =
  pc_algorithm :: u8
  pc_commitment :: string
  pc_height :: u64

record token_order =
  od_id :: string
  od_token_id :: string
  od_seller :: string
  od_amount :: u64
  od_filled :: u64
  od_price :: u64
  od_height :: u64
  od_closed :: "u64 option"
  od_fills :: "string list"

definition order_remaining :: "token_order \<Rightarrow> u64" where
  "order_remaining o1 = od_amount o1 - od_filled o1"

definition order_is_open :: "token_order \<Rightarrow> bool" where
  "order_is_open o1 = (od_closed o1 = None)"

record token_trade =
  tr_tx_id :: string
  tr_order_id :: string
  tr_token_id :: string
  tr_buyer :: string
  tr_seller :: string
  tr_amount :: u64
  tr_price :: u64
  tr_total :: u64
  tr_height :: u64
  tr_seq :: u32
  tr_timestamp :: u32

record token_state =
  ts_symbol :: string
  ts_decimals :: u8
  ts_flags :: u8
  ts_supply :: u64
  ts_supply_cap :: u64
  ts_owner :: string
  ts_init_height :: u64
  ts_meta :: "token_meta option"

record smart_object =
  sm_type :: u8
  sm_sub_type :: u8
  sm_data :: smart_object_data
  sm_resigned :: bool
  sm_price :: "u64 option"

record lock_record =
  lk_lock_id :: string
  lk_sender_public_key :: string
  lk_recipient :: string
  lk_amount :: u64
  lk_secret_hash :: string
  lk_expiration :: htlc_expiration
  lk_timestamp :: u32
  lk_vendor_field :: "string option"

record last_block =
  lb_id :: string
  lb_height :: u64
  lb_timestamp :: u32

record wallet_state =
  w_address :: string
  w_public_key :: "string option"
  w_balance :: int
  w_nonce :: u64
  w_username :: "string option"
  w_vote :: "string option"
  w_second_public_key :: "string option"
  w_produced_blocks :: u64
  w_forged_fees :: u64
  w_forged_rewards :: u64
  w_last_block :: "last_block option"
  w_resigned :: bool
  w_locks :: "(string, lock_record) btmap"
  w_multi_signature :: "multi_signature_asset option"
  w_sobjects :: "(string, smart_object) btmap"
  w_pq_commitment :: "pq_commitment option"
  w_pq_key :: "pq_key option"
  w_tokens :: "(string, u64) btmap"
  w_tokens_issued :: "(string, token_state) btmap"

definition is_delegate :: "wallet_state \<Rightarrow> bool" where
  "is_delegate w = (w_username w \<noteq> None)"

definition locked_balance :: "wallet_state \<Rightarrow> u64" where
  "locked_balance w = (\<Sum>kv\<leftarrow>w_locks w. lk_amount (snd kv))"

definition wallet_new :: "string \<Rightarrow> wallet_state" where
  "wallet_new a = \<lparr>w_address = a, w_public_key = None, w_balance = 0, w_nonce = 0,
     w_username = None, w_vote = None, w_second_public_key = None, w_produced_blocks = 0,
     w_forged_fees = 0, w_forged_rewards = 0, w_last_block = None, w_resigned = False,
     w_locks = [], w_multi_signature = None, w_sobjects = [], w_pq_commitment = None,
     w_pq_key = None, w_tokens = [], w_tokens_issued = []\<rparr>"

text \<open>\<open>wd_vote\<close>: \<open>Some (Some pk)\<close> votes, \<open>Some None\<close> unvotes, \<open>None\<close> leaves the vote.\<close>

record wallet_delta =
  wd_balance :: int
  wd_nonce :: u64
  wd_public_key :: "string option"
  wd_username :: "string option"
  wd_vote :: "string option option"
  wd_second_public_key :: "string option"
  wd_produced_blocks :: u64
  wd_forged_fees :: u64
  wd_forged_rewards :: u64
  wd_last_block :: "last_block option"
  wd_resigned :: bool
  wd_locks_added :: "lock_record list"
  wd_locks_removed :: "string list"
  wd_multi_signature :: "multi_signature_asset option"
  wd_sobjects :: "(string \<times> smart_object) list"
  wd_sobjects_removed :: "string list"
  wd_tokens_removed :: "string list"
  wd_sobj_owner :: "(string \<times> string) list"
  wd_pq_commitment :: "pq_commitment option"
  wd_pq_key :: "pq_key option"
  wd_tokens :: "(string, int) btmap"
  wd_tokens_issued :: "(string \<times> token_state) list"
  wd_token_supply :: "(string, int) btmap"
  wd_token_meta :: "(string \<times> token_meta) list"
  wd_orders :: "(string, token_order) btmap"
  wd_trades :: "token_trade list"

definition delta_default :: wallet_delta where
  "delta_default = \<lparr>wd_balance = 0, wd_nonce = 0, wd_public_key = None, wd_username = None,
     wd_vote = None, wd_second_public_key = None, wd_produced_blocks = 0, wd_forged_fees = 0,
     wd_forged_rewards = 0, wd_last_block = None, wd_resigned = False, wd_locks_added = [],
     wd_locks_removed = [], wd_multi_signature = None, wd_sobjects = [], wd_sobjects_removed = [],
     wd_tokens_removed = [], wd_sobj_owner = [], wd_pq_commitment = None, wd_pq_key = None,
     wd_tokens = [], wd_tokens_issued = [], wd_token_supply = [], wd_token_meta = [],
     wd_orders = [], wd_trades = []\<rparr>"

section \<open>Applying a delta\<close>

text \<open>The loops of \<open>apply\<close> over the issued tokens, the metadata, the supplies and the balances.\<close>

definition or_keep :: "'a option \<Rightarrow> 'a option \<Rightarrow> 'a option" where
  "or_keep new old = (case new of None \<Rightarrow> old | Some x \<Rightarrow> Some x)"

definition apply_meta ::
  "string \<times> token_meta \<Rightarrow> (string, token_state) btmap \<Rightarrow> (string, token_state) btmap res" where
  "apply_meta im iss =
     (case bt_get iss (fst im) of
        None \<Rightarrow> Inl (Sync ''token not issued'')
      | Some st \<Rightarrow> Inr (bt_put (fst im) (st\<lparr>ts_meta := Some (snd im)\<rparr>) iss))"

definition u64_range :: "int \<Rightarrow> bool" where
  "u64_range v \<longleftrightarrow> 0 \<le> v \<and> v < 2 ^ 64"

definition apply_supply ::
  "string \<times> int \<Rightarrow> (string, token_state) btmap \<Rightarrow> (string, token_state) btmap res" where
  "apply_supply ic iss =
     (case bt_get iss (fst ic) of
        None \<Rightarrow> Inl (Sync ''token not issued'')
      | Some st \<Rightarrow>
          (let v = uint (ts_supply st) + snd ic in
           if u64_range v then Inr (bt_put (fst ic) (st\<lparr>ts_supply := word_of_int v\<rparr>) iss)
           else Inl (Sync ''token supply out of range'')))"

definition apply_token :: "string \<times> int \<Rightarrow> (string, u64) btmap \<Rightarrow> (string, u64) btmap res" where
  "apply_token ic toks =
     (let v = uint (unwrap_or 0 (bt_get toks (fst ic))) + snd ic in
      if \<not> u64_range v then Inl (Sync ''negative token balance'')
      else if v = 0 then Inr (bt_del (fst ic) toks)
      else Inr (bt_put (fst ic) (word_of_int v) toks))"

definition wallet_apply :: "wallet_delta \<Rightarrow> wallet_state \<Rightarrow> wallet_state res" where
  "wallet_apply d w =
     rbind (ok_or (Overflow ''balance'') (i64_try_from (w_balance w + wd_balance d))) (\<lambda>balance.
     rbind (ok_or (Overflow ''nonce'') (checked_add (w_nonce w) (wd_nonce d))) (\<lambda>nonce.
     let locks = fold bt_del (wd_locks_removed d) (w_locks w);
         locks = fold (\<lambda>l. bt_put (lk_lock_id l) l) (wd_locks_added d) locks;
         issued = fold (\<lambda>(i, st). bt_put i st) (wd_tokens_issued d) (w_tokens_issued w)
     in
     rbind (rfold apply_meta (wd_token_meta d) issued) (\<lambda>issued.
     rbind (rfold apply_supply (wd_token_supply d) issued) (\<lambda>issued.
     rbind (rfold apply_token (wd_tokens d) (w_tokens w)) (\<lambda>tokens.
     let sobjects = fold bt_del (wd_sobjects_removed d) (w_sobjects w);
         issued = fold bt_del (wd_tokens_removed d) issued;
         sobjects = fold (\<lambda>(i, r). bt_put i r) (wd_sobjects d) sobjects
     in
     Inr (w\<lparr>w_balance := balance, w_nonce := nonce,
            w_public_key := or_keep (w_public_key w) (wd_public_key d),
            w_username := or_keep (wd_username d) (w_username w),
            w_vote := (case wd_vote d of None \<Rightarrow> w_vote w | Some v \<Rightarrow> v),
            w_second_public_key :=
              (if wd_pq_key d \<noteq> None then None
               else or_keep (wd_second_public_key d) (w_second_public_key w)),
            w_produced_blocks := w_produced_blocks w + wd_produced_blocks d,
            w_forged_fees := saturating_add (w_forged_fees w) (wd_forged_fees d),
            w_forged_rewards := saturating_add (w_forged_rewards w) (wd_forged_rewards d),
            w_last_block := or_keep (wd_last_block d) (w_last_block w),
            w_resigned := (w_resigned w \<or> wd_resigned d),
            w_locks := locks,
            w_multi_signature := or_keep (wd_multi_signature d) (w_multi_signature w),
            w_pq_commitment := or_keep (wd_pq_commitment d) (w_pq_commitment w),
            w_pq_key := or_keep (wd_pq_key d) (w_pq_key w),
            w_tokens_issued := issued, w_tokens := tokens, w_sobjects := sobjects\<rparr>))))))"

definition vote_weight :: "wallet_state option \<Rightarrow> (string \<times> u64) option" where
  "vote_weight w =
     (case w of None \<Rightarrow> None
      | Some w \<Rightarrow> (case w_vote w of None \<Rightarrow> None
          | Some pk \<Rightarrow> Some (pk, word_of_int (max (w_balance w) 0) + locked_balance w)))"

definition sobj_name_key :: "string \<Rightarrow> u8 \<Rightarrow> string" where
  "sobj_name_key name ty = to_ascii_lowercase name @ ''-'' @ show_nat (unat ty)"

section \<open>Addresses a transaction touches\<close>

fun dedup :: "'a list \<Rightarrow> 'a list" where
  "dedup (x # y # xs) = (if x = y then dedup (y # xs) else x # dedup (y # xs))"
| "dedup xs = xs"

definition option_list :: "'a option \<Rightarrow> 'a list" where
  "option_list m = (case m of None \<Rightarrow> [] | Some x \<Rightarrow> [x])"

definition tx_addresses :: "crypto \<Rightarrow> transaction \<Rightarrow> u8 \<Rightarrow> string list res" where
  "tx_addresses E tx net =
     rbind (address_from_public_key E (tx_sender_public_key tx) net) (\<lambda>sender.
     Inr (dedup (sort
       (sender # option_list (tx_recipient tx)
        @ map pay_recipient (unwrap_or [] (asset_field as_payments tx))
        @ (case token_asset_of tx of None \<Rightarrow> []
           | Some a \<Rightarrow> map ti_recipient (unwrap_or [] (ta_transfers a)) @ option_list (ta_recipient a))
        @ (case sobj_asset_of tx of None \<Rightarrow> [] | Some e \<Rightarrow> option_list (so_recipient e))))))"

lemma set_dedup: "set (dedup xs) = set xs"
  by (induction xs rule: dedup.induct) auto

lemma dedup_sorted: "sorted xs \<Longrightarrow> sorted_wrt (<) (dedup (xs :: 'a::linorder list))"
proof (induction xs rule: dedup.induct)
  case (1 x y xs)
  show ?case
  proof (cases "x = y")
    case True
    with 1 show ?thesis by simp
  next
    case False
    with 1 have "\<forall>z \<in> set (dedup (y # xs)). x < z" by (auto simp: set_dedup)
    with False 1 show ?thesis by simp
  qed
qed auto

lemma tx_addresses_distinct:
  assumes "tx_addresses E tx net = Inr as"
  shows "distinct as \<and> sorted as"
proof -
  obtain xs where "as = dedup (sort xs)"
    using assms unfolding tx_addresses_def rbind_eq_Inr by blast
  then have "sorted_wrt (<) as" by (simp only: dedup_sorted sorted_sort)
  then show ?thesis by (simp add: strict_sorted_iff)
qed

section \<open>What applying a delta keeps\<close>

text \<open>The maps of a wallet stay ordered, its balance stays in the \<open>i64\<close> range and its token balances
  are never zero entries.\<close>

definition wallet_wf :: "wallet_state \<Rightarrow> bool" where
  "wallet_wf w \<longleftrightarrow> i64_min \<le> w_balance w \<and> w_balance w \<le> i64_max
     \<and> bt_wf (w_locks w) \<and> bt_wf (w_sobjects w) \<and> bt_wf (w_tokens w) \<and> bt_wf (w_tokens_issued w)
     \<and> (\<forall>kv \<in> set (w_tokens w). snd kv \<noteq> 0)"

lemma wallet_new_wf [simp]: "wallet_wf (wallet_new a)"
  by (simp add: wallet_wf_def wallet_new_def i64_min_def i64_max_def)

lemma fold_bt_del_wf: "bt_wf m \<Longrightarrow> bt_wf (fold bt_del ks m)"
  by (induction ks arbitrary: m) auto

lemma fold_bt_put_wf: "bt_wf m \<Longrightarrow> bt_wf (fold (\<lambda>x. bt_put (f x) (g x)) xs m)"
  by (induction xs arbitrary: m) auto

lemma fold_bt_put_pair_wf: "bt_wf m \<Longrightarrow> bt_wf (fold (\<lambda>(i, r). bt_put i r) xs m)"
  using fold_bt_put_wf [of m fst snd xs] by (simp add: case_prod_beta')

lemma set_bt_put_subset: "set (bt_put k v m) \<subseteq> insert (k, v) (set m)"
  by (induction k v m rule: bt_put.induct) auto

lemma apply_token_wf:
  assumes "apply_token ic t = Inr t'" and "bt_wf t \<and> (\<forall>kv \<in> set t. snd kv \<noteq> 0)"
  shows "bt_wf t' \<and> (\<forall>kv \<in> set t'. snd kv \<noteq> 0)"
proof (cases "uint (unwrap_or 0 (bt_get t (fst ic))) + snd ic = 0")
  case True
  then have "t' = bt_del (fst ic) t"
    using assms(1) by (simp add: apply_token_def Let_def u64_range_def)
  moreover have "set (bt_del (fst ic) t) \<subseteq> set t" by (auto simp: bt_del_def)
  ultimately show ?thesis using assms(2) by auto
next
  case False
  define v where "v = uint (unwrap_or 0 (bt_get t (fst ic))) + snd ic"
  have t': "t' = bt_put (fst ic) (word_of_int v) t" "u64_range v" "v \<noteq> 0"
    using assms(1) False by (auto simp: apply_token_def Let_def v_def split: if_splits)
  then have "uint (word_of_int v :: u64) = v" by (simp add: u64_range_def uint_word_of_int)
  with t' have "(word_of_int v :: u64) \<noteq> 0" by auto
  with assms(2) t' set_bt_put_subset [of "fst ic" "word_of_int v" t] show ?thesis by fastforce
qed

lemma wallet_apply_wf:
  assumes "wallet_apply d w = Inr w'" and "wallet_wf w"
  shows "wallet_wf w' \<and> w_address w' = w_address w \<and> w_balance w' = w_balance w + wd_balance d"
proof -
  obtain bal iss1 iss2 toks where
    bal: "i64_try_from (w_balance w + wd_balance d) = Some bal"
    and m: "rfold apply_meta (wd_token_meta d)
        (fold (\<lambda>(i, st). bt_put i st) (wd_tokens_issued d) (w_tokens_issued w)) = Inr iss1"
    and s: "rfold apply_supply (wd_token_supply d) iss1 = Inr iss2"
    and t: "rfold apply_token (wd_tokens d) (w_tokens w) = Inr toks"
    and w': "w_balance w' = bal" "w_address w' = w_address w"
      "w_locks w' = fold (\<lambda>l. bt_put (lk_lock_id l) l) (wd_locks_added d)
         (fold bt_del (wd_locks_removed d) (w_locks w))"
      "w_tokens_issued w' = fold bt_del (wd_tokens_removed d) iss2" "w_tokens w' = toks"
      "w_sobjects w' = fold (\<lambda>(i, r). bt_put i r) (wd_sobjects d)
         (fold bt_del (wd_sobjects_removed d) (w_sobjects w))"
    using assms(1) by (auto simp: wallet_apply_def rbind_eq_Inr Let_def)
  have "bt_wf iss1"
    using m by (rule rfold_invariant [rotated 2])
      (use assms(2) in \<open>auto simp: apply_meta_def wallet_wf_def fold_bt_put_pair_wf split: option.splits\<close>)
  then have "bt_wf iss2"
    by (rule rfold_invariant [rotated 1, OF _ s])
      (auto simp: apply_supply_def Let_def split: option.splits if_splits)
  moreover have "bt_wf toks \<and> (\<forall>kv \<in> set toks. snd kv \<noteq> 0)"
    using t by (rule rfold_invariant [rotated 2])
      (use assms(2) apply_token_wf in \<open>auto simp: wallet_wf_def\<close>)
  ultimately show ?thesis
    using assms(2) bal w'
    by (auto simp: wallet_wf_def i64_try_from_def fold_bt_del_wf fold_bt_put_wf fold_bt_put_pair_wf
        split: if_splits)
qed

end
