(* ===== verification/TxRoundTrip.thy ===== *)
theory TxRoundTrip
  imports TxCodec
begin

text \<open>
  The transaction format represents every canonical transaction without loss: deserializing the
  bytes of the serializer gives the transaction back, with its id filled in. The lemmas go through
  the format in its own order: addresses and strings, the type payloads, the signature section in
  its three layouts (schnorr, DER ECDSA, version 3), the whole transaction.
\<close>

declare r_pq_blocks.simps [simp del] r_parts.simps [simp del]

section \<open>Canonical fields\<close>

definition addr_field :: "crypto \<Rightarrow> string \<Rightarrow> bool" where
  "addr_field E s =
     (case bs58check_decode E s of None \<Rightarrow> False
      | Some b \<Rightarrow> length b = 21 \<and> bs58check_encode E b = s)"

definition unaddr :: "crypto \<Rightarrow> string \<Rightarrow> bytes" where
  "unaddr E s = unwrap_or [] (bs58check_decode E s)"

lemma addr_fieldD:
  assumes "addr_field E s"
  shows "bs58check_decode E s = Some (unaddr E s)" "length (unaddr E s) = 21"
    "bs58check_encode E (unaddr E s) = s"
  using assms by (auto simp: addr_field_def unaddr_def split: option.splits)

lemma write_addr_field: "addr_field E s \<Longrightarrow> write_address E s = Inr (unaddr E s)"
  by (simp add: write_address_def address_to_bytes_def addr_fieldD)

lemma read_addr_field:
  "addr_field E s \<Longrightarrow>
     read_address E (at pre (unaddr E s @ rest)) = Inr (s, at (pre @ unaddr E s) rest)"
  by (simp add: read_address_def address_from_bytes_def r_bytes_at addr_fieldD)

text \<open>An optional string that is never the empty string, valid UTF-8 and at most \<open>n\<close> bytes long.\<close>

definition text_field :: "nat \<Rightarrow> string option \<Rightarrow> bool" where
  "text_field n s = (case s of None \<Rightarrow> True | Some t \<Rightarrow> t \<noteq> [] \<and> rust_string t \<and> length t \<le> n)"

lemma unat_len8: "length xs \<le> 255 \<Longrightarrow> unat (len8 xs) = length xs"
  by (simp add: len8_def unat_of_nat)

lemma unat_len16: "length xs \<le> 65535 \<Longrightarrow> unat (len16 xs) = length xs"
  by (simp add: len16_def unat_of_nat)

lemma as_bytes_Nil [simp]: "as_bytes [] = []"
  by (simp add: as_bytes_def)

lemma rust_string_Nil [simp]: "rust_string []"
  by (simp add: rust_string_def utf8_valid.simps as_bytes_def)

lemma text_field_string: "text_field n s \<Longrightarrow> rust_string (unwrap_or [] s)"
  by (cases s) (auto simp: text_field_def)

lemma text_field_length: "text_field n s \<Longrightarrow> length (unwrap_or [] s) \<le> n"
  by (cases s) (auto simp: text_field_def)

lemma text_field_Some: "text_field n s \<Longrightarrow> (if unwrap_or [] s = [] then None else Some (unwrap_or [] s)) = s"
  by (cases s) (auto simp: text_field_def)

lemma read_text_at:
  assumes "text_field n s"
  shows "read_text (length (unwrap_or [] s)) (at pre (as_bytes (unwrap_or [] s) @ rest))
           = Inr (s, at (pre @ as_bytes (unwrap_or [] s)) rest)"
  using text_field_Some [OF assms]
  by (simp only: read_text_def r_bytes_at length_as_bytes text_field_string [OF assms] Let_def
      rbind_simps prod.case from_utf8_lossy_string)

lemma r_opt_text_at:
  assumes "text_field n s"
  shows "r_opt (length (unwrap_or [] s)) from_utf8_lossy (at pre (as_bytes (unwrap_or [] s) @ rest))
           = Inr (s, at (pre @ as_bytes (unwrap_or [] s)) rest)"
  using assms by (cases s) (auto simp: r_opt_def r_bytes_at text_field_def)

text \<open>An optional non-empty hex field of at most \<open>n\<close> bytes.\<close>

definition opt_hex_field :: "crypto \<Rightarrow> nat \<Rightarrow> string option \<Rightarrow> bool" where
  "opt_hex_field E n s =
     (case s of None \<Rightarrow> True
      | Some h \<Rightarrow> let k = length (unhex E h) in 0 < k \<and> k \<le> n \<and> hex_field E k h)"

definition opt_unhex :: "crypto \<Rightarrow> string option \<Rightarrow> bytes" where
  "opt_unhex E s = (case s of None \<Rightarrow> [] | Some h \<Rightarrow> unhex E h)"

lemma r_opt_hex_at:
  assumes "opt_hex_field E n s"
  shows "r_opt (length (opt_unhex E s)) (hex_encode E) (at pre (opt_unhex E s @ rest))
           = Inr (s, at (pre @ opt_unhex E s) rest)"
  using assms by (cases s) (auto simp: r_opt_def r_bytes_at opt_hex_field_def opt_unhex_def hex_fieldD(1,3) Let_def)

lemma opt_hex_field_length: "opt_hex_field E n s \<Longrightarrow> length (opt_unhex E s) \<le> n"
  by (auto simp: opt_hex_field_def opt_unhex_def Let_def split: option.splits)

section \<open>Payloads\<close>

text \<open>What the deserializer starts a payload from: the fields the payload carries are still empty.\<close>

definition hdr :: "transaction \<Rightarrow> transaction" where
  "hdr tx = tx\<lparr>tx_amount := 0, tx_expiration := None, tx_recipient := None, tx_asset := None\<rparr>"

lemma hdr_simps [simp]:
  "tx_type (hdr tx) = tx_type tx" "tx_type_group (hdr tx) = tx_type_group tx"
  "tx_version (hdr tx) = tx_version tx" "is_sobj (hdr tx) = is_sobj tx"
  "is_token (hdr tx) = is_token tx" "is_pq (hdr tx) = is_pq tx"
  by (simp_all add: hdr_def is_sobj_def is_token_def is_pq_def)

definition plain_body :: "transaction \<Rightarrow> bool" where
  "plain_body tx \<longleftrightarrow> tx_amount tx = 0 \<and> tx_expiration tx = None \<and> tx_recipient tx = None"

lemma asset_mut_hdr:
  "plain_body tx \<Longrightarrow> tx_asset tx = Some (f asset_default) \<Longrightarrow> asset_mut f (hdr tx) = tx"
  by (cases tx) (simp add: plain_body_def asset_mut_def hdr_def)

definition canonical_sobj :: "crypto \<Rightarrow> transaction \<Rightarrow> bool" where
  "canonical_sobj E tx =
     (plain_body tx \<and>
      (case sobj_asset_of tx of None \<Rightarrow> False
       | Some e \<Rightarrow>
           tx_asset tx = Some (asset_default\<lparr>as_sobj := Some e\<rparr>)
           \<and> opt_hex_field E 255 (so_registration_id e) \<and> text_field 255 (sd_name (so_data e))
           \<and> (if so_action e = ACTION_TRANSFER then
                text_field 255 (so_recipient e) \<and> so_price e = None \<and> sd_ntfry_data (so_data e) = None
              else if so_action e = ACTION_SELL then
                so_price e \<noteq> None \<and> so_recipient e = None \<and> sd_ntfry_data (so_data e) = None
              else text_field 255 (sd_ntfry_data (so_data e)) \<and> so_recipient e = None
                   \<and> so_price e = None)))"

text \<open>The text in the last slot of a smart-object payload, and that its reader recovers it.\<close>

definition sobj_slot :: "smart_object_asset \<Rightarrow> string option" where
  "sobj_slot e =
     (if so_action e = ACTION_TRANSFER then so_recipient e
      else if so_action e = ACTION_SELL then map_option (\<lambda>p. show_nat (unat p)) (so_price e)
      else sd_ntfry_data (so_data e))"

lemma show_u64_text: "text_field 255 (Some (show_nat (unat (p :: u64))))"
proof -
  have "unat p < 10 ^ 20" using unsigned_less [where 'a = nat and w = p] by simp
  from length_show_nat [OF this] show ?thesis
    by (simp add: text_field_def show_nat_rust_string)
qed

lemma sobj_slot_text: "canonical_sobj E tx \<Longrightarrow> sobj_asset_of tx = Some e \<Longrightarrow> text_field 255 (sobj_slot e)"
  using show_u64_text by (auto simp: canonical_sobj_def sobj_slot_def split: if_splits)

lemma parse_show_u64: "parse_uint 64 (show_nat (unat (p :: u64))) = Some (unat p)"
  using unsigned_less [where 'a = nat and w = p] by (intro parse_show_nat) simp

lemma sobj_round_trip:
  assumes "canonical_sobj E tx" and "serialize_sobj E tx = Inr b"
  shows "deserialize_sobj E (hdr tx) (at pre (b @ rest)) = Inr (tx, at (pre @ b) rest)"
proof -
  obtain e where e: "sobj_asset_of tx = Some e"
    using assms by (auto simp: canonical_sobj_def split: option.splits)
  note c = assms(1) [unfolded canonical_sobj_def e option.case]
  have reg: "(case so_registration_id e of None \<Rightarrow> Inr []
      | Some i \<Rightarrow> ok_or (ser_err ''bad registrationId'') (hex_decode E i)) = Inr (opt_unhex E (so_registration_id e))"
    using c by (auto simp: opt_hex_field_def opt_unhex_def hex_fieldD(1) Let_def split: option.splits)
  have b: "b = [so_type e, so_sub_type e, so_action e] @ w_var8 (opt_unhex E (so_registration_id e))
      @ w_var8 (as_bytes (unwrap_or [] (sd_name (so_data e)))) @ w_var8 (as_bytes (unwrap_or [] (sobj_slot e)))"
    using assms(2) reg by (auto simp: serialize_sobj_def e Let_def sobj_slot_def split: if_splits)
  have fields: "opt_hex_field E 255 (so_registration_id e)" "text_field 255 (sd_name (so_data e))"
    "text_field 255 (sobj_slot e)"
    using c sobj_slot_text [OF assms(1) e] by auto
  have lens: "unat (len8 (opt_unhex E (so_registration_id e))) = length (opt_unhex E (so_registration_id e))"
    "unat (len8 (as_bytes (unwrap_or [] (sd_name (so_data e))))) = length (unwrap_or [] (sd_name (so_data e)))"
    "unat (len8 (as_bytes (unwrap_or [] (sobj_slot e)))) = length (unwrap_or [] (sobj_slot e))"
    using opt_hex_field_length [OF fields(1)] text_field_length [OF fields(2)]
      text_field_length [OF fields(3)] by (simp_all add: unat_len8)
  have tx: "asset_mut (\<lambda>a. a\<lparr>as_sobj := Some e\<rparr>) (hdr tx) = tx"
    using c by (intro asset_mut_hdr) auto
  have price: "(if so_action e = ACTION_SELL
      then (case parse_uint 64 (unwrap_or ''0'' (sobj_slot e)) of
              None \<Rightarrow> Inl (ser_err ''sObject price is not a number'')
            | Some n \<Rightarrow> Inr (Some (word_of_nat n)))
      else Inr None) = Inr (so_price e)"
    using c by (auto simp: sobj_slot_def parse_show_u64 split: if_splits)
  have rebuild: "\<lparr>so_type = so_type e, so_sub_type = so_sub_type e, so_action = so_action e,
      so_registration_id = so_registration_id e,
      so_recipient = (if so_action e = ACTION_TRANSFER then sobj_slot e else None),
      so_price = so_price e,
      so_data = \<lparr>sd_name = sd_name (so_data e),
        sd_ntfry_data = (if so_action e = ACTION_TRANSFER \<or> so_action e = ACTION_SELL then None
                         else sobj_slot e)\<rparr>\<rparr> = e"
    using c by (cases e; cases "so_data e") (auto simp: sobj_slot_def split: if_splits)
  have bytes: "at pre (b @ rest) = at pre (so_type e # so_sub_type e # so_action e
      # len8 (opt_unhex E (so_registration_id e)) # opt_unhex E (so_registration_id e)
      @ len8 (as_bytes (unwrap_or [] (sd_name (so_data e)))) # as_bytes (unwrap_or [] (sd_name (so_data e)))
      @ len8 (as_bytes (unwrap_or [] (sobj_slot e))) # as_bytes (unwrap_or [] (sobj_slot e)) @ rest)"
    by (simp add: b w_var8_def)
  show ?thesis
    unfolding bytes deserialize_sobj_def Let_def
    by (simp only: r_u8_at rbind_simps prod.case lens r_opt_hex_at [OF fields(1)]
        r_opt_text_at [OF fields(2)] r_opt_text_at [OF fields(3)] price rebuild tx)
       (simp add: b w_var8_def)
qed

text \<open>Token payloads: the body after the token id, per operation.\<close>

definition item_field :: "crypto \<Rightarrow> token_transfer_item \<Rightarrow> bool" where
  "item_field E it = addr_field E (ti_recipient it)"

definition item_bytes :: "crypto \<Rightarrow> token_transfer_item \<Rightarrow> bytes" where
  "item_bytes E it = u64_le (ti_amount it) @ unaddr E (ti_recipient it)"

lemma item_codec:
  assumes "item_field E it"
  shows "write_item E it = Inr (item_bytes E it)"
    "read_item E (at pre (item_bytes E it @ rest)) = Inr (it, at (pre @ item_bytes E it) rest)"
  using assms
  by (simp_all add: item_field_def write_item_def read_item_def item_bytes_def write_addr_field
      read_addr_field codec)

definition canonical_meta :: "crypto \<Rightarrow> token_meta \<Rightarrow> bool" where
  "canonical_meta E m =
     (rust_string (tm_name m) \<and> length (tm_name m) \<le> 255 \<and> text_field 65535 (tm_description m)
      \<and> text_field 255 (tm_website m)
      \<and> (tm_logo_type m = None \<or> tm_logo_type m = Some ''svg'' \<or> tm_logo_type m = Some ''png'')
      \<and> (case tm_logo m of None \<Rightarrow> True
         | Some l \<Rightarrow> (case base64_decode E l of None \<Rightarrow> False
             | Some b \<Rightarrow> b \<noteq> [] \<and> length b \<le> 65535 \<and> base64_encode E b = l)))"

definition meta_bytes :: "crypto \<Rightarrow> token_meta \<Rightarrow> bytes" where
  "meta_bytes E m =
     w_var8 (as_bytes (tm_name m)) @ w_var16 (as_bytes (unwrap_or [] (tm_description m)))
     @ w_var8 (as_bytes (unwrap_or [] (tm_website m))) @ [logo_type_byte m]
     @ w_var16 (unwrap_or [] (logo_bytes E m))"

lemma logo_type_codec:
  "tm_logo_type m = None \<or> tm_logo_type m = Some ''svg'' \<or> tm_logo_type m = Some ''png'' \<Longrightarrow>
     logo_type_name (logo_type_byte m) = tm_logo_type m"
  by (auto simp: logo_type_name_def logo_type_byte_def)

lemma text_field_name: "rust_string s \<Longrightarrow> length s \<le> 255 \<Longrightarrow>
    text_field 255 (if s = [] then None else Some s) \<and> unwrap_or [] (if s = [] then None else Some s) = s"
  by (simp add: text_field_def)

lemma meta_read:
  assumes "canonical_meta E m"
  shows "deserialize_meta E (at pre (meta_bytes E m @ rest)) = Inr (m, at (pre @ meta_bytes E m) rest)"
proof -
  define nm where "nm = (if tm_name m = [] then None else Some (tm_name m))"
  define lb where "lb = unwrap_or [] (logo_bytes E m)"
  note c = assms [unfolded canonical_meta_def]
  have nm: "text_field 255 nm" "unwrap_or [] nm = tm_name m"
    using c text_field_name by (auto simp: nm_def)
  have lb: "length lb \<le> 65535" "(if 0 < length lb then Some (base64_encode E lb) else None) = tm_logo m"
    using c by (auto simp: lb_def logo_bytes_def split: option.splits)
  have lens: "unat (len8 (as_bytes (unwrap_or [] nm))) = length (unwrap_or [] nm)"
    "unat (len16 (as_bytes (unwrap_or [] (tm_description m)))) = length (unwrap_or [] (tm_description m))"
    "unat (len8 (as_bytes (unwrap_or [] (tm_website m)))) = length (unwrap_or [] (tm_website m))"
    "unat (len16 lb) = length lb"
    using nm lb c text_field_length by (simp_all add: unat_len8 unat_len16)
  have lt: "logo_type_name (logo_type_byte m) = tm_logo_type m"
    using c by (intro logo_type_codec) auto
  have fields: "text_field 65535 (tm_description m)" "text_field 255 (tm_website m)"
    using c by auto
  have bytes: "at pre (meta_bytes E m @ rest) = at pre (len8 (as_bytes (unwrap_or [] nm))
      # as_bytes (unwrap_or [] nm) @ u16_le (len16 (as_bytes (unwrap_or [] (tm_description m))))
      @ as_bytes (unwrap_or [] (tm_description m)) @ len8 (as_bytes (unwrap_or [] (tm_website m)))
      # as_bytes (unwrap_or [] (tm_website m)) @ logo_type_byte m # u16_le (len16 lb) @ lb @ rest)"
    by (simp add: meta_bytes_def w_var8_def w_var16_def nm(2) lb_def)
  show ?thesis
    unfolding bytes deserialize_meta_def
    by (simp only: r_u8_at r_int_at r_bytes_at [OF refl] rbind_simps prod.case lens lb(2) lt
        read_text_at [OF nm(1)] read_text_at [OF fields(1)] read_text_at [OF fields(2)])
       (simp add: meta_bytes_def w_var8_def w_var16_def nm(2) lb_def)
qed

lemma meta_write:
  "canonical_meta E m \<Longrightarrow> ta_meta a = Some m \<Longrightarrow>
     serialize_token_body E TOKEN_META a = Inr (meta_bytes E m)"
  using text_field_length
  by (fastforce simp: serialize_token_body_def canonical_meta_def meta_bytes_def logo_bytes_def
      Let_def split: option.splits)

definition canonical_token_body :: "crypto \<Rightarrow> u16 \<Rightarrow> token_asset \<Rightarrow> bool" where
  "canonical_token_body E ty a =
     (let d = token_asset_default\<lparr>ta_id := ta_id a\<rparr> in
      if ty = TOKEN_INIT then
        ta_decimals a \<noteq> None \<and> ta_flags a \<noteq> None \<and> ta_initial_supply a \<noteq> None \<and> ta_supply_cap a \<noteq> None
        \<and> a = d\<lparr>ta_decimals := ta_decimals a, ta_flags := ta_flags a,
                ta_initial_supply := ta_initial_supply a, ta_supply_cap := ta_supply_cap a\<rparr>
      else if ty = TOKEN_TRANSFER then
        ta_transfers a \<noteq> None \<and> list_all (item_field E) (unwrap_or [] (ta_transfers a))
        \<and> length (unwrap_or [] (ta_transfers a)) \<le> 65535 \<and> text_field 255 (ta_memo a)
        \<and> a = d\<lparr>ta_transfers := ta_transfers a, ta_memo := ta_memo a\<rparr>
      else if ty = TOKEN_MINT then
        ta_amount a \<noteq> None \<and> ta_recipient a \<noteq> None \<and> addr_field E (unwrap_or [] (ta_recipient a))
        \<and> a = d\<lparr>ta_amount := ta_amount a, ta_recipient := ta_recipient a\<rparr>
      else if ty = TOKEN_SELL then
        ta_amount a \<noteq> None \<and> ta_price a \<noteq> None \<and> a = d\<lparr>ta_amount := ta_amount a, ta_price := ta_price a\<rparr>
      else if ty = TOKEN_BUY then
        ta_order_id a \<noteq> None \<and> ta_amount a \<noteq> None \<and> hex_field E 32 (unwrap_or [] (ta_order_id a))
        \<and> a = d\<lparr>ta_order_id := ta_order_id a, ta_amount := ta_amount a\<rparr>
      else if ty = TOKEN_CANCEL then
        ta_order_id a \<noteq> None \<and> hex_field E 32 (unwrap_or [] (ta_order_id a))
        \<and> a = d\<lparr>ta_order_id := ta_order_id a\<rparr>
      else if ty = TOKEN_META then
        (case ta_meta a of None \<Rightarrow> False | Some m \<Rightarrow> canonical_meta E m) \<and> a = d\<lparr>ta_meta := ta_meta a\<rparr>
      else ta_amount a \<noteq> None \<and> a = d\<lparr>ta_amount := ta_amount a\<rparr>)"

lemma token_transfer_round_trip:
  assumes "canonical_token_body E TOKEN_TRANSFER a" and "serialize_token_body E TOKEN_TRANSFER a = Inr b"
  shows "deserialize_token_body E TOKEN_TRANSFER (token_asset_default\<lparr>ta_id := ta_id a\<rparr>) (at pre (b @ rest))
           = Inr (a, at (pre @ b) rest)"
proof -
  note c = assms(1) [unfolded canonical_token_body_def Let_def, simplified]
  obtain items where items: "ta_transfers a = Some items" using c by auto
  have ok: "\<And>it. it \<in> set items \<Longrightarrow> item_field E it" using c items by (auto simp: list_all_iff)
  have memo: "text_field 255 (ta_memo a)" using c by auto
  have len: "unat (len16 items) = length items" using c items by (intro unat_len16) auto
  have lm: "unat (len8 (as_bytes (unwrap_or [] (ta_memo a)))) = length (unwrap_or [] (ta_memo a))"
    using text_field_length [OF memo] by (simp add: unat_len8)
  have w: "w_seq (map (write_item E) items) = Inr (concat (map (item_bytes E) items))"
    using ok item_codec(1) by (intro w_seq_map_Inr) auto
  have b: "b = u16_le (len16 items) @ concat (map (item_bytes E) items)
      @ w_var8 (as_bytes (unwrap_or [] (ta_memo a)))"
    using assms(2) by (auto simp: serialize_token_body_def items w Let_def split: if_splits)
  have r: "r_times (length items) (read_item E) (at p (concat (map (item_bytes E) items) @ q))
      = Inr (items, at (p @ concat (map (item_bytes E) items)) q)" for p q
    using r_times_at [of items "read_item E" "item_bytes E" "\<lambda>x. x"] ok item_codec(2) by simp
  have a: "token_asset_default\<lparr>ta_id := ta_id a, ta_transfers := Some items, ta_memo := ta_memo a\<rparr> = a"
    using c items by simp
  show ?thesis
    using a by (simp add: b deserialize_token_body_def r_int_at len r w_var8_def r_u8_at lm
        read_text_at [OF memo])
qed

lemma token_body_round_trip:
  assumes "canonical_token_body E ty a" and "serialize_token_body E ty a = Inr b"
  shows "deserialize_token_body E ty (token_asset_default\<lparr>ta_id := ta_id a\<rparr>) (at pre (b @ rest))
           = Inr (a, at (pre @ b) rest)"
proof -
  consider "ty = TOKEN_TRANSFER" | "ty = TOKEN_META" | "ty \<noteq> TOKEN_TRANSFER" "ty \<noteq> TOKEN_META" by blast
  then show ?thesis
  proof cases
    case 1
    with assms token_transfer_round_trip show ?thesis by simp
  next
    case 2
    then obtain m where m: "ta_meta a = Some m" "canonical_meta E m"
      "a = token_asset_default\<lparr>ta_id := ta_id a, ta_meta := Some m\<rparr>"
      using assms(1) by (auto simp: canonical_token_body_def Let_def split: option.splits)
    then have "b = meta_bytes E m" using assms(2) 2 meta_write by simp
    with m 2 show ?thesis by (simp add: deserialize_token_body_def meta_read)
  next
    case 3
    with assms show ?thesis
      by (cases a) (auto simp: canonical_token_body_def serialize_token_body_def
          deserialize_token_body_def Let_def codec write_addr_field read_addr_field hex_fieldD
          r_hex_field token_asset_default_def rbind_eq_Inr split: if_splits)
  qed
qed

definition canonical_token :: "crypto \<Rightarrow> transaction \<Rightarrow> bool" where
  "canonical_token E tx =
     (plain_body tx \<and>
      (case token_asset_of tx of None \<Rightarrow> False
       | Some a \<Rightarrow> tx_asset tx = Some (asset_default\<lparr>as_token := Some a\<rparr>)
           \<and> hex_field E 32 (ta_id a) \<and> canonical_token_body E (tx_type tx) a))"

lemma token_round_trip:
  assumes "canonical_token E tx" and "serialize_token E tx = Inr b"
  shows "deserialize_token E (hdr tx) (at pre (b @ rest)) = Inr (tx, at (pre @ b) rest)"
proof -
  obtain a where a: "token_asset_of tx = Some a" "plain_body tx" "hex_field E 32 (ta_id a)"
    "tx_asset tx = Some (asset_default\<lparr>as_token := Some a\<rparr>)" "canonical_token_body E (tx_type tx) a"
    using assms(1) by (auto simp: canonical_token_def split: option.splits)
  then obtain body where body: "serialize_token_body E (tx_type tx) a = Inr body" "b = unhex E (ta_id a) @ body"
    using assms(2) by (auto simp: serialize_token_def hex_fieldD(1,2) rbind_eq_Inr)
  have "asset_mut (\<lambda>x. x\<lparr>as_token := Some a\<rparr>) (hdr tx) = tx"
    using a by (intro asset_mut_hdr) auto
  then show ?thesis
    by (simp add: body(2) deserialize_token_def r_hex_field [OF a(3)]
        token_body_round_trip [OF a(5) body(1)])
qed

text \<open>Core payloads.\<close>

definition vote_field :: "crypto \<Rightarrow> string \<Rightarrow> bool" where
  "vote_field E v =
     (case v of [] \<Rightarrow> False
      | c # pk \<Rightarrow> (c = CHR ''+'' \<or> c = CHR ''-'') \<and> hex_field E 33 pk \<and> split_first v = Some (c, pk))"

definition vote_bytes :: "crypto \<Rightarrow> string \<Rightarrow> bytes" where
  "vote_bytes E v = (if hd v = CHR ''+'' then 1 else 0) # unhex E (tl v)"

lemma vote_codec:
  assumes "vote_field E v"
  shows "write_vote E v = Inr (vote_bytes E v)"
    "read_vote E (at pre (vote_bytes E v @ rest)) = Inr (v, at (pre @ vote_bytes E v) rest)"
  using assms
  by (auto simp: vote_field_def write_vote_def read_vote_def vote_bytes_def w_hex_field codec
      r_hex_field split: list.splits)

definition payment_bytes :: "crypto \<Rightarrow> payment \<Rightarrow> bytes" where
  "payment_bytes E p = u64_le (pay_amount p) @ unaddr E (pay_recipient p)"

lemma payment_codec:
  assumes "addr_field E (pay_recipient p)"
  shows "write_payment E p = Inr (payment_bytes E p)"
    "read_payment E (at pre (payment_bytes E p @ rest)) = Inr (p, at (pre @ payment_bytes E p) rest)"
  using assms
  by (simp_all add: write_payment_def read_payment_def payment_bytes_def write_addr_field
      read_addr_field codec)

definition multihash :: "bytes \<Rightarrow> bool" where
  "multihash b = (2 \<le> length b \<and> unat (b ! 1) = length b - 2)"

definition canonical_core :: "crypto \<Rightarrow> transaction \<Rightarrow> bool" where
  "canonical_core E tx =
     (let ty = tx_type tx; d = asset_default in
      if ty = TRANSFER then
        tx_asset tx = None \<and> tx_expiration tx \<noteq> None \<and> tx_recipient tx \<noteq> None
        \<and> addr_field E (unwrap_or [] (tx_recipient tx))
      else if ty = HTLC_LOCK then
        tx_expiration tx = None \<and> tx_recipient tx \<noteq> None \<and> addr_field E (unwrap_or [] (tx_recipient tx))
        \<and> (case asset_field as_lock tx of None \<Rightarrow> False
           | Some l \<Rightarrow> tx_asset tx = Some (d\<lparr>as_lock := Some l\<rparr>) \<and> hex_field E 32 (hl_secret_hash l))
      else plain_body tx \<and>
       (if ty = SECOND_SIGNATURE then
          (case asset_field as_signature tx of None \<Rightarrow> False
           | Some s \<Rightarrow> tx_asset tx = Some (d\<lparr>as_signature := Some s\<rparr>)
               \<and> (if is_pq tx then ss_algorithm s \<noteq> None \<and> length (unhex E (ss_public_key s)) \<le> 65535
                    \<and> hex_field E (length (unhex E (ss_public_key s))) (ss_public_key s)
                  else ss_algorithm s = None \<and> hex_field E 33 (ss_public_key s)))
        else if ty = DELEGATE_REGISTRATION then
          (case asset_field as_delegate tx of None \<Rightarrow> False
           | Some n \<Rightarrow> tx_asset tx = Some (d\<lparr>as_delegate := Some n\<rparr>) \<and> rust_string n \<and> length n \<le> 255)
        else if ty = VOTE then
          (case asset_field as_votes tx of None \<Rightarrow> False
           | Some vs \<Rightarrow> tx_asset tx = Some (d\<lparr>as_votes := Some vs\<rparr>) \<and> list_all (vote_field E) vs
               \<and> length vs \<le> 255)
        else if ty = MULTI_SIGNATURE then
          (case asset_field as_multi_signature tx of None \<Rightarrow> False
           | Some ms \<Rightarrow> tx_asset tx = Some (d\<lparr>as_multi_signature := Some ms\<rparr>)
               \<and> list_all (hex_field E 33) (ms_public_keys ms) \<and> length (ms_public_keys ms) \<le> 255)
        else if ty = IPFS then
          (case asset_field as_ipfs tx of None \<Rightarrow> False
           | Some h \<Rightarrow> tx_asset tx = Some (d\<lparr>as_ipfs := Some h\<rparr>)
               \<and> (case bs58_decode E h of None \<Rightarrow> False
                  | Some b \<Rightarrow> multihash b \<and> bs58_encode E b = h))
        else if ty = MULTI_PAYMENT then
          (case asset_field as_payments tx of None \<Rightarrow> False
           | Some ps \<Rightarrow> tx_asset tx = Some (d\<lparr>as_payments := Some ps\<rparr>)
               \<and> list_all (\<lambda>p. addr_field E (pay_recipient p)) ps \<and> length ps \<le> 65535)
        else if ty = DELEGATE_RESIGNATION then tx_asset tx = None
        else if ty = HTLC_CLAIM then
          (case asset_field as_claim tx of None \<Rightarrow> False
           | Some c \<Rightarrow> tx_asset tx = Some (d\<lparr>as_claim := Some c\<rparr>)
               \<and> hex_field E 32 (hc_lock_transaction_id c) \<and> hex_field E 32 (hc_unlock_secret c))
        else if ty = HTLC_REFUND then
          (case asset_field as_refund tx of None \<Rightarrow> False
           | Some i \<Rightarrow> tx_asset tx = Some (d\<lparr>as_refund := Some i\<rparr>) \<and> hex_field E 32 i)
        else False))"

text \<open>The counted lists of the core payloads: votes, multi-signature keys, payments.\<close>

lemma counted_read:
  assumes "list_all P xs" and "\<And>x pre rest. P x \<Longrightarrow> f (at pre (enc x @ rest)) = Inr (x, at (pre @ enc x) rest)"
  shows "r_times (length xs) f (at pre (concat (map enc xs) @ rest)) = Inr (xs, at (pre @ concat (map enc xs)) rest)"
  using r_times_at [of xs f enc "\<lambda>x. x"] assms by (simp add: list_all_iff)

lemma counted_write:
  "list_all P xs \<Longrightarrow> (\<And>x. P x \<Longrightarrow> f x = Inr (enc x)) \<Longrightarrow> w_seq (map f xs) = Inr (concat (map enc xs))"
  by (intro w_seq_map_Inr) (auto simp: list_all_iff)

lemma multihash_read:
  assumes "multihash b"
  shows "\<exists>h n d. b = h # n # d \<and> unat n = length d"
  using assms by (cases b; cases "tl b") (auto simp: multihash_def)

lemma core_round_trip_lists:
  assumes "canonical_core E tx" and "serialize_core E tx = Inr b"
    and "tx_type tx = VOTE \<or> tx_type tx = MULTI_SIGNATURE \<or> tx_type tx = MULTI_PAYMENT"
  shows "deserialize_core E (hdr tx) (at pre (b @ rest)) = Inr (tx, at (pre @ b) rest)"
  using assms(3)
proof (elim disjE)
  assume ty: "tx_type tx = VOTE"
  then obtain vs where vs: "tx_asset tx = Some (asset_default\<lparr>as_votes := Some vs\<rparr>)"
    "list_all (vote_field E) vs" "length vs \<le> 255" "plain_body tx"
    using assms(1) by (auto simp: canonical_core_def Let_def split: option.splits)
  have "asset_mut (\<lambda>a. a\<lparr>as_votes := Some vs\<rparr>) (hdr tx) = tx"
    using vs by (intro asset_mut_hdr) auto
  moreover have "b = len8 vs # concat (map (vote_bytes E) vs)"
    using assms(2) ty vs counted_write [OF vs(2) vote_codec(1)]
    by (simp add: serialize_core_def asset_def)
  ultimately show ?thesis
    using ty by (simp add: deserialize_core_def r_u8_at unat_len8 vs
        counted_read [OF vs(2) vote_codec(2)])
next
  assume ty: "tx_type tx = MULTI_SIGNATURE"
  then obtain ms where ms: "tx_asset tx = Some (asset_default\<lparr>as_multi_signature := Some ms\<rparr>)"
    "list_all (hex_field E 33) (ms_public_keys ms)" "length (ms_public_keys ms) \<le> 255" "plain_body tx"
    using assms(1) by (auto simp: canonical_core_def Let_def split: option.splits)
  have "asset_mut (\<lambda>a. a\<lparr>as_multi_signature :=
      Some \<lparr>ms_min = ms_min ms, ms_public_keys = ms_public_keys ms\<rparr>\<rparr>) (hdr tx) = tx"
    using ms by (intro asset_mut_hdr) auto
  moreover have "b = ms_min ms # len8 (ms_public_keys ms) # concat (map (unhex E) (ms_public_keys ms))"
    using assms(2) ty ms counted_write [OF ms(2) w_hex_field]
    by (simp add: serialize_core_def asset_def)
  ultimately show ?thesis
    using ty by (simp add: deserialize_core_def r_u8_at unat_len8 ms
        counted_read [OF ms(2) r_hex_field])
next
  assume ty: "tx_type tx = MULTI_PAYMENT"
  then obtain ps where ps: "tx_asset tx = Some (asset_default\<lparr>as_payments := Some ps\<rparr>)"
    "list_all (\<lambda>p. addr_field E (pay_recipient p)) ps" "length ps \<le> 65535" "plain_body tx"
    using assms(1) by (auto simp: canonical_core_def Let_def split: option.splits)
  have "asset_mut (\<lambda>a. a\<lparr>as_payments := Some ps\<rparr>) (hdr tx\<lparr>tx_amount := 0\<rparr>) = tx"
    using asset_mut_hdr [of tx "\<lambda>a. a\<lparr>as_payments := Some ps\<rparr>"] ps by (cases tx) (simp add: hdr_def)
  moreover have "b = u16_le (len16 ps) @ concat (map (payment_bytes E) ps)"
    using assms(2) ty ps counted_write [OF ps(2) payment_codec(1)]
    by (simp add: serialize_core_def asset_def)
  ultimately show ?thesis
    using ty by (simp add: deserialize_core_def r_int_at unat_len16 ps
        counted_read [OF ps(2) payment_codec(2)])
qed

lemma core_round_trip:
  assumes "canonical_core E tx" and "serialize_core E tx = Inr b"
  shows "deserialize_core E (hdr tx) (at pre (b @ rest)) = Inr (tx, at (pre @ b) rest)"
proof -
  consider (lists) "tx_type tx = VOTE \<or> tx_type tx = MULTI_SIGNATURE \<or> tx_type tx = MULTI_PAYMENT"
    | (transfer) "tx_type tx = TRANSFER" | (lock) "tx_type tx = HTLC_LOCK" | (ipfs) "tx_type tx = IPFS"
    | (second) "tx_type tx = SECOND_SIGNATURE" | (name) "tx_type tx = DELEGATE_REGISTRATION"
    | (resign) "tx_type tx = DELEGATE_RESIGNATION" | (claim) "tx_type tx = HTLC_CLAIM"
    | (refund) "tx_type tx = HTLC_REFUND"
    using assms(1) by (auto simp: canonical_core_def Let_def split: if_splits)
  then show ?thesis
  proof cases
    case lists
    with assms core_round_trip_lists show ?thesis by blast
  next
    case transfer
    with assms show ?thesis
      by (cases tx) (auto simp: canonical_core_def serialize_core_def deserialize_core_def hdr_def
          write_recipient_def codec write_addr_field read_addr_field)
  next
    case lock
    then obtain l a where l: "tx_asset tx = Some (asset_default\<lparr>as_lock := Some l\<rparr>)"
      "hex_field E 32 (hl_secret_hash l)" "tx_recipient tx = Some a" "addr_field E a"
      "tx_expiration tx = None"
      using assms(1) by (auto simp: canonical_core_def Let_def split: option.splits)
    have b: "b = u64_le (tx_amount tx) @ (unhex E (hl_secret_hash l) @ [he_type (hl_expiration l)]
        @ u32_le (he_value (hl_expiration l))) @ unaddr E a"
      using assms(2) lock l
      by (simp add: serialize_core_def asset_field_def w_hex_field write_recipient_def write_addr_field)
    have "asset_mut (\<lambda>x. x\<lparr>as_lock := Some \<lparr>hl_secret_hash = hl_secret_hash l, hl_expiration =
        \<lparr>he_type = he_type (hl_expiration l), he_value = he_value (hl_expiration l)\<rparr>\<rparr>\<rparr>)
        (hdr tx\<lparr>tx_amount := tx_amount tx, tx_recipient := Some a\<rparr>) = tx"
      using l by (cases tx; cases l; cases "hl_expiration l") (simp add: asset_mut_def hdr_def)
    then show ?thesis
      using lock by (simp add: b deserialize_core_def codec r_hex_field [OF l(2)] read_addr_field [OF l(4)])
  next
    case ipfs
    then obtain h b' where h: "tx_asset tx = Some (asset_default\<lparr>as_ipfs := Some h\<rparr>)" "plain_body tx"
      "bs58_decode E h = Some b'" "multihash b'" "bs58_encode E b' = h"
      using assms(1) by (auto simp: canonical_core_def Let_def split: option.splits)
    then have b: "b = b'" using assms(2) ipfs by (simp add: serialize_core_def asset_def)
    obtain f n d where d: "b' = f # n # d" "unat n = length d"
      using multihash_read [OF h(4)] by blast
    have tx: "asset_mut (\<lambda>x. x\<lparr>as_ipfs := Some h\<rparr>) (hdr tx) = tx"
      using h by (intro asset_mut_hdr) auto
    have "r_slice (length pre) (length pre + length b') (at (pre @ b') rest) = b'"
      by (rule r_slice_at)
    then show ?thesis
      using ipfs tx h(5) d by (simp add: b deserialize_core_def codec Let_def)
  next
    case second
    then obtain s where s: "tx_asset tx = Some (asset_default\<lparr>as_signature := Some s\<rparr>)" "plain_body tx"
      "if is_pq tx then ss_algorithm s \<noteq> None \<and> length (unhex E (ss_public_key s)) \<le> 65535
                    \<and> hex_field E (length (unhex E (ss_public_key s))) (ss_public_key s)
       else ss_algorithm s = None \<and> hex_field E 33 (ss_public_key s)"
      using assms(1) by (auto simp: canonical_core_def Let_def split: option.splits)
    have tx: "asset_mut (\<lambda>x. x\<lparr>as_signature := Some s\<rparr>) (hdr tx) = tx"
      using s by (intro asset_mut_hdr) auto
    show ?thesis
    proof (cases "is_pq tx")
      case True
      then obtain alg where alg: "ss_algorithm s = Some alg"
        "hex_field E (length (unhex E (ss_public_key s))) (ss_public_key s)"
        "unat (len16 (unhex E (ss_public_key s))) = length (unhex E (ss_public_key s))"
        using s(3) unat_len16 by auto
      have "b = alg # w_var16 (unhex E (ss_public_key s))"
        using assms(2) second True s alg(1)
        by (simp add: serialize_core_def asset_def hex_fieldD(1) [OF alg(2)])
      moreover have "\<lparr>ss_public_key = ss_public_key s, ss_algorithm = Some alg\<rparr> = s"
        using alg by (cases s) simp
      ultimately show ?thesis
        using second True tx by (simp add: deserialize_core_def codec w_var16_def alg(3) hex_fieldD(3) [OF alg(2)])
    next
      case False
      then have "b = unhex E (ss_public_key s)" "hex_field E 33 (ss_public_key s)"
        using assms(2) second s by (auto simp: serialize_core_def asset_def w_hex_field)
      moreover have "\<lparr>ss_public_key = ss_public_key s, ss_algorithm = None\<rparr> = s"
        using s False by (cases s) simp
      ultimately show ?thesis
        using second False tx by (simp add: deserialize_core_def r_hex_field)
    qed
  next
    case name
    then obtain n where n: "tx_asset tx = Some (asset_default\<lparr>as_delegate := Some n\<rparr>)" "plain_body tx"
      "rust_string n" "length n \<le> 255"
      using assms(1) by (auto simp: canonical_core_def Let_def split: option.splits)
    moreover have "asset_mut (\<lambda>x. x\<lparr>as_delegate := Some n\<rparr>) (hdr tx) = tx"
      using n by (intro asset_mut_hdr) auto
    moreover have "b = len8 (as_bytes n) # as_bytes n"
      using assms(2) name n(1) by (simp add: serialize_core_def asset_def w_var8_def)
    ultimately show ?thesis
      using name by (simp add: deserialize_core_def r_u8_at unat_len8 r_bytes_at)
  next
    case claim
    then obtain c where c: "tx_asset tx = Some (asset_default\<lparr>as_claim := Some c\<rparr>)" "plain_body tx"
      "hex_field E 32 (hc_lock_transaction_id c)" "hex_field E 32 (hc_unlock_secret c)"
      using assms(1) by (auto simp: canonical_core_def Let_def split: option.splits)
    moreover have "asset_mut (\<lambda>x. x\<lparr>as_claim := Some \<lparr>hc_lock_transaction_id = hc_lock_transaction_id c,
        hc_unlock_secret = hc_unlock_secret c\<rparr>\<rparr>) (hdr tx) = tx"
      using c by (intro asset_mut_hdr) (cases c, auto)
    moreover have "b = unhex E (hc_lock_transaction_id c) @ unhex E (hc_unlock_secret c)"
      using assms(2) claim c by (simp add: serialize_core_def asset_field_def w_hex_field)
    ultimately show ?thesis
      using claim by (simp add: deserialize_core_def r_hex_field)
  next
    case refund
    then obtain i where i: "tx_asset tx = Some (asset_default\<lparr>as_refund := Some i\<rparr>)" "plain_body tx"
      "hex_field E 32 i"
      using assms(1) by (auto simp: canonical_core_def Let_def split: option.splits)
    moreover have "asset_mut (\<lambda>x. x\<lparr>as_refund := Some i\<rparr>) (hdr tx) = tx"
      using i by (intro asset_mut_hdr) auto
    moreover have "b = unhex E i"
      using assms(2) refund i by (simp add: serialize_core_def asset_field_def w_hex_field)
    ultimately show ?thesis
      using refund by (simp add: deserialize_core_def r_hex_field)
  next
    case resign
    then have "hdr tx = tx"
      using assms(1) by (cases tx) (simp add: canonical_core_def plain_body_def hdr_def)
    with resign assms(2) show ?thesis by (simp add: deserialize_core_def serialize_core_def)
  qed
qed

definition canonical_payload :: "crypto \<Rightarrow> transaction \<Rightarrow> bool" where
  "canonical_payload E tx =
     (if is_sobj tx then canonical_sobj E tx
      else if is_token tx then canonical_token E tx
      else tx_type_group tx = TYPE_GROUP_CORE \<and> canonical_core E tx)"

lemma payload_round_trip:
  assumes "canonical_payload E tx" and "serialize_type_payload E tx = Inr b"
  shows "deserialize_type_payload E (hdr tx) (at pre (b @ rest)) = Inr (tx, at (pre @ b) rest)"
  using assms sobj_round_trip token_round_trip core_round_trip
  by (auto simp: canonical_payload_def serialize_type_payload_def deserialize_type_payload_def
      split: if_splits)

section \<open>Signatures\<close>

text \<open>Version 3: the schnorr signature, the post-quantum blocks, then the multi-signature parts.\<close>

definition pq_block_field :: "crypto \<Rightarrow> pq_signature_block \<Rightarrow> bool" where
  "pq_block_field E b =
     (pb_algorithm b \<noteq> 0xff \<and> length (unhex E (pb_signature b)) \<le> 65535
      \<and> hex_field E (length (unhex E (pb_signature b))) (pb_signature b))"

definition pq_block_bytes :: "crypto \<Rightarrow> pq_signature_block \<Rightarrow> bytes" where
  "pq_block_bytes E b = pb_algorithm b # w_var16 (unhex E (pb_signature b))"

lemma write_pq_block_field:
  "pq_block_field E b \<Longrightarrow> write_pq_block E b = Inr (pq_block_bytes E b)"
  by (auto simp: write_pq_block_def pq_block_field_def pq_block_bytes_def hex_fieldD(1))

lemma r_pq_blocks_at:
  assumes "list_all (pq_block_field E) bs" and "length bs \<le> fuel"
    and "rest = [] \<or> hd rest = 0xff"
  shows "r_pq_blocks fuel E (at pre (concat (map (pq_block_bytes E) bs) @ rest))
           = Some (Inr (bs, at (pre @ concat (map (pq_block_bytes E) bs)) rest))"
  using assms
proof (induction bs arbitrary: pre fuel)
  case Nil
  then show ?case by (cases rest) (auto simp: r_pq_blocks.simps codec)
next
  case (Cons b bs)
  then obtain k where k: "fuel = Suc k" "length bs \<le> k" by (cases fuel) auto
  have b: "pb_algorithm b \<noteq> 0xff" "unat (len16 (unhex E (pb_signature b))) = length (unhex E (pb_signature b))"
    "hex_encode E (unhex E (pb_signature b)) = pb_signature b"
    using Cons.prems(1) by (auto simp: pq_block_field_def unat_len16 hex_fieldD(3))
  have IH: "r_pq_blocks k E (at (pre @ pq_block_bytes E b) (concat (map (pq_block_bytes E) bs) @ rest))
      = Some (Inr (bs, at ((pre @ pq_block_bytes E b) @ concat (map (pq_block_bytes E) bs)) rest))"
    using Cons.prems k by (intro Cons.IH) auto
  show ?case
    using b k IH by (subst r_pq_blocks.simps) (simp add: pq_block_bytes_def w_var16_def codec)
qed

lemma r_parts_at:
  assumes "list_all (hex_field E 65) ss" and "length ss \<le> fuel"
  shows "r_parts fuel E (at pre (concat (map (unhex E) ss)))
           = Some (Inr (ss, at (pre @ concat (map (unhex E) ss)) []))"
  using assms
proof (induction ss arbitrary: pre fuel)
  case Nil
  then show ?case by (simp add: r_parts.simps)
next
  case (Cons s ss)
  then obtain k where k: "fuel = Suc k" "length ss \<le> k" by (cases fuel) auto
  have "length (unhex E s) = 65" using Cons.prems by (intro hex_fieldD(2)) simp
  then have "unhex E s \<noteq> []" by auto
  with Cons.prems Cons.IH [of k "pre @ unhex E s"] k show ?case
    by (subst r_parts.simps) (simp add: r_hex_field)
qed

text \<open>Both loops end on every input: the bytes left are fuel enough.\<close>

lemma r_pq_blocks_total:
  "rd_ok r \<Longrightarrow> remaining r \<le> fuel \<Longrightarrow> \<exists>m. r_pq_blocks fuel E r = Some m"
proof (induction fuel arbitrary: r)
  case 0
  then show ?case by (simp add: r_pq_blocks.simps)
next
  case (Suc k)
  have step: "\<exists>m. r_pq_blocks k E r' = Some m"
    if "r_u8 r = Inr (alg, r1)" "r_u16_le r1 = Inr (n, r2)" "r_hex E (unat n) r2 = Inr (sig, r')"
    for alg r1 n r2 sig r'
  proof (rule Suc.IH)
    from that obtain b1 b2 b3 where
      "r_bytes 1 r = Inr (b1, r1)" "r_bytes 2 r1 = Inr (b2, r2)" "r_bytes (unat n) r2 = Inr (b3, r')"
      by (auto simp: r_u8_def r_u16_le_def r_hex_def rbind_eq_Inr)
    then show "rd_ok r'" "remaining r' \<le> k"
      using Suc.prems r_bytes_ok by (metis, fastforce dest: r_bytes_ok)
  qed
  then show ?case
    by (subst r_pq_blocks.simps) (auto simp: rbind_eq_Inr split: sum.split)
qed

lemma r_parts_total:
  "rd_ok r \<Longrightarrow> remaining r \<le> fuel \<Longrightarrow> \<exists>m. r_parts fuel E r = Some m"
proof (induction fuel arbitrary: r)
  case 0
  then show ?case by (simp add: r_parts.simps)
next
  case (Suc k)
  have "\<exists>m. r_parts k E r' = Some m" if "r_hex E 65 r = Inr (s, r')" for s r'
  proof (rule Suc.IH)
    from that obtain b where "r_bytes 65 r = Inr (b, r')"
      by (auto simp: r_hex_def rbind_eq_Inr)
    then show "rd_ok r'" "remaining r' \<le> k"
      using Suc.prems by (auto dest: r_bytes_ok)
  qed
  then show ?case
    by (subst r_parts.simps) (auto split: sum.split)
qed

text \<open>What the three layouts of the signature section represent. In the schnorr layout the number of
  multi-signature parts stays below 64: \<open>65 * 64\<close> bytes would be read as single signatures.\<close>

definition no_sigs :: "transaction \<Rightarrow> transaction" where
  "no_sigs tx = tx\<lparr>tx_signature := None, tx_second_signature := None, tx_signatures := None,
                   tx_second_signatures := None\<rparr>"

definition participant_fields :: "crypto \<Rightarrow> string list \<Rightarrow> bool" where
  "participant_fields E ss =
     (ss \<noteq> [] \<and> length ss < 64 \<and> list_all (hex_field E 65) ss \<and> distinct (map (take 2) ss))"

definition opt_all :: "('a \<Rightarrow> bool) \<Rightarrow> 'a option \<Rightarrow> bool" where
  "opt_all P m = (case m of None \<Rightarrow> True | Some x \<Rightarrow> P x)"

lemma opt_all_simps [simp]: "opt_all P None" "opt_all P (Some x) = P x"
  by (simp_all add: opt_all_def)

definition canonical_v3 :: "crypto \<Rightarrow> transaction \<Rightarrow> bool" where
  "canonical_v3 E tx =
     (tx_second_signature tx = None
      \<and> (case tx_signature tx of
           None \<Rightarrow> tx_second_signatures tx = None \<and> tx_signatures tx = None
         | Some s \<Rightarrow> hex_field E 64 s
             \<and> opt_all (\<lambda>bs. bs \<noteq> [] \<and> list_all (pq_block_field E) bs) (tx_second_signatures tx)
             \<and> opt_all (\<lambda>ss. ss \<noteq> [] \<and> list_all (hex_field E 65) ss) (tx_signatures tx)))"

definition canonical_schnorr :: "crypto \<Rightarrow> transaction \<Rightarrow> bool" where
  "canonical_schnorr E tx =
     (tx_second_signatures tx = None
      \<and> opt_all (hex_field E 64) (tx_signature tx)
      \<and> opt_all (\<lambda>s. hex_field E 64 s \<and> tx_signature tx \<noteq> None) (tx_second_signature tx)
      \<and> opt_all (participant_fields E) (tx_signatures tx))"

definition der_field :: "crypto \<Rightarrow> string \<Rightarrow> bool" where
  "der_field E s =
     (let b = unhex E s in hex_field E (length b) s \<and> 2 \<le> length b \<and> unat (b ! 1) + 2 = length b
        \<and> b ! 0 \<noteq> 0xff)"

definition canonical_ecdsa :: "crypto \<Rightarrow> transaction \<Rightarrow> bool" where
  "canonical_ecdsa E tx =
     (tx_second_signatures tx = None \<and> tx_signatures tx = None
      \<and> (case tx_signature tx of None \<Rightarrow> False
         | Some s \<Rightarrow> der_field E s \<and> opt_all (der_field E) (tx_second_signature tx)
             \<and> \<not> detect_schnorr (length (unhex E s) + length (opt_unhex E (tx_second_signature tx)))))"

definition canonical_sigs :: "crypto \<Rightarrow> transaction \<Rightarrow> bool" where
  "canonical_sigs E tx =
     (tx_sign_signature tx = None
      \<and> (if is_pq tx then canonical_v3 E tx else canonical_schnorr E tx \<or> canonical_ecdsa E tx))"

lemma concat_length_ge: "list_all (\<lambda>x. 1 \<le> length (f x)) xs \<Longrightarrow> length xs \<le> length (concat (map f xs))"
  by (induction xs) auto

lemma concat_length_65: "list_all (hex_field E 65) ss \<Longrightarrow> length (concat (map (unhex E) ss)) = 65 * length ss"
  by (induction ss) (auto simp: hex_fieldD(2))

lemma v3_round_trip:
  assumes "is_pq tx" and c: "canonical_v3 E tx" and "serialize_signatures E tx opts_default = Inr b"
  shows "deserialize_signatures_v3 E (no_sigs tx) (at pre b) = Inr (tx, at (pre @ b) [])"
proof (cases "tx_signature tx")
  case None
  then have "b = []" using assms
    by (auto simp: serialize_signatures_def opts_default_def opt_hex_def canonical_v3_def pq_blocks_def)
  moreover have "no_sigs tx = tx" using c None by (cases tx) (auto simp: canonical_v3_def no_sigs_def)
  ultimately show ?thesis by (simp add: deserialize_signatures_v3_def)
next
  case (Some s)
  define bs ss where "bs = pq_blocks tx" "ss = unwrap_or [] (tx_signatures tx)"
  define tail where "tail = (if ss = [] then [] else 0xff # concat (map (unhex E) ss))"
  have s: "hex_field E 64 s" and bs: "list_all (pq_block_field E) bs" and ss: "list_all (hex_field E 65) ss"
    using c Some by (auto simp: canonical_v3_def bs_ss_def pq_blocks_def opt_all_def split: option.splits)
  have b: "b = unhex E s @ concat (map (pq_block_bytes E) bs) @ tail"
    using assms(1,3) Some s counted_write [OF bs write_pq_block_field] counted_write [OF ss w_hex_field] c
    by (cases "tx_signatures tx")
       (auto simp: serialize_signatures_def opts_default_def opt_hex_def w_hex_field tail_def bs_ss_def
         canonical_v3_def)
  have s_len: "unhex E s \<noteq> []" using hex_fieldD(2) [OF s] by auto
  have blocks: "r_pq_blocks (length (concat (map (pq_block_bytes E) bs)) + n) E
        (at p (concat (map (pq_block_bytes E) bs) @ tail))
      = Some (Inr (bs, at (p @ concat (map (pq_block_bytes E) bs)) tail))" for p n
    using concat_length_ge [of "pq_block_bytes E" bs]
    by (intro r_pq_blocks_at [OF bs]) (auto simp: list_all_iff pq_block_bytes_def tail_def)
  have parts: "r_parts (65 * length ss) E (at p (concat (map (unhex E) ss)))
      = Some (Inr (ss, at (p @ concat (map (unhex E) ss)) []))" for p
    by (intro r_parts_at [OF ss]) auto
  have tx: "tx = (no_sigs tx)\<lparr>tx_signature := Some s,
      tx_second_signatures := (if bs = [] then None else Some bs),
      tx_signatures := (if ss = [] then None else Some ss)\<rparr>"
    using c Some by (cases tx) (auto simp: canonical_v3_def no_sigs_def bs_ss_def pq_blocks_def
        opt_all_def split: option.splits)
  have none: "tx_second_signatures (no_sigs tx) = None" "(no_sigs tx)\<lparr>tx_signatures := None\<rparr> = no_sigs tx"
    by (simp_all add: no_sigs_def)
  have "deserialize_signatures_v3 E (no_sigs tx) (at pre b)
      = Inr ((no_sigs tx)\<lparr>tx_signature := Some s,
      tx_second_signatures := (if bs = [] then None else Some bs),
      tx_signatures := (if ss = [] then None else Some ss)\<rparr>, at (pre @ b) [])"
    using s_len
    by (simp add: deserialize_signatures_v3_def b r_hex_field [OF s] blocks run_loop_def none(1) Let_def)
       (auto simp: tail_def codec no_sigs_def run_loop_def parts concat_length_65 [OF ss])
  with tx show ?thesis by simp
qed

text \<open>Schnorr layout.\<close>

lemma r_participants_at:
  assumes "list_all (hex_field E 65) ss" and "distinct (map (take 2) ss)"
    and "set (map (take 2) ss) \<inter> set seen = {}"
  shows "r_participants (length ss) E seen (at pre (concat (map (unhex E) ss)))
           = Inr (ss, at (pre @ concat (map (unhex E) ss)) [])"
  using assms
proof (induction ss arbitrary: pre seen)
  case (Cons s ss)
  have "r_participants (length ss) E (take 2 s # seen) (at (pre @ unhex E s) (concat (map (unhex E) ss)))
      = Inr (ss, at ((pre @ unhex E s) @ concat (map (unhex E) ss)) [])"
    using Cons.prems by (intro Cons.IH) auto
  with Cons.prems show ?case by (auto simp: r_hex_field)
qed simp

lemma schnorr_lengths:
  "detect_schnorr (65 * n)" "detect_schnorr (64 + 65 * n)" "detect_schnorr (64 + (64 + 65 * n))"
  by (simp_all add: detect_schnorr_def)

lemma can_read_single_at:
  "length b = 64 + 65 * n \<Longrightarrow> can_read_single (at p b)"
  "length b = 64 + (64 + 65 * n) \<Longrightarrow> can_read_single (at p b)"
  "length b = 65 * n \<Longrightarrow> n < 64 \<Longrightarrow> \<not> can_read_single (at p b)"
proof -
  show "length b = 64 + 65 * n \<Longrightarrow> can_read_single (at p b)"
  proof -
    assume l: "length b = 64 + 65 * n"
    have "(64 + 65 * n) mod 65 = 64 mod 65" by (rule mod_mult_self2)
    with l show ?thesis by (simp add: can_read_single_def)
  qed
  show "length b = 64 + (64 + 65 * n) \<Longrightarrow> can_read_single (at p b)"
  proof -
    assume l: "length b = 64 + (64 + 65 * n)"
    have "(128 + 65 * n) mod 65 = 128 mod 65" by (rule mod_mult_self2)
    with l show ?thesis by (simp add: can_read_single_def)
  qed
  show "length b = 65 * n \<Longrightarrow> n < 64 \<Longrightarrow> \<not> can_read_single (at p b)"
  proof -
    assume l: "length b = 65 * n" "n < 64"
    have "(n + 64 * n) mod 64 = n mod 64" by (rule mod_mult_self2)
    then have "65 * n mod 64 = n" using l(2) by simp
    with l show ?thesis by (auto simp: can_read_single_def)
  qed
qed

lemma schnorr_round_trip:
  assumes "\<not> is_pq tx" and c: "canonical_schnorr E tx" and "tx_sign_signature tx = None"
    and "serialize_signatures E tx opts_default = Inr b"
  shows "deserialize_signatures E (no_sigs tx) (at pre b) = Inr (tx, at (pre @ b) [])"
proof -
  define ss where "ss = unwrap_or [] (tx_signatures tx)"
  define tail where "tail = concat (map (unhex E) ss)"
  have ss: "list_all (hex_field E 65) ss" "length ss < 64" "distinct (map (take 2) ss)"
    using c by (auto simp: canonical_schnorr_def ss_def participant_fields_def opt_all_def split: option.splits)
  have tail: "length tail = 65 * length ss"
    using concat_length_65 [OF ss(1)] by (simp add: tail_def)
  have b: "b = opt_unhex E (tx_signature tx) @ opt_unhex E (tx_second_signature tx) @ tail"
    using assms counted_write [OF ss(1) w_hex_field]
    by (auto simp: serialize_signatures_def opts_default_def opt_hex_def w_hex_field opt_unhex_def
        second_signature_any_def canonical_schnorr_def opt_all_def ss_def tail_def split: option.splits)
  have npq: "\<not> is_pq (no_sigs tx)" using assms(1) by (simp add: is_pq_def no_sigs_def)
  have parts: "r_participants (length ss) E [] (at p tail) = Inr (ss, at (p @ tail) [])" for p
    using r_participants_at [OF ss(1,3)] by (simp add: tail_def)
  have tailpart: "schnorr_multi E t (at p tail)
    = Inr (if ss = [] then t else t\<lparr>tx_signatures := Some ss\<rparr>, at (p @ tail) [])" for p t
    using parts tail by (cases "ss = []") (auto simp: schnorr_multi_def tail_def)
  have tx: "tx = (let t = (no_sigs tx)\<lparr>tx_signature := tx_signature tx, tx_second_signature := tx_second_signature tx\<rparr>
      in if ss = [] then t else t\<lparr>tx_signatures := Some ss\<rparr>)"
    using c by (cases tx) (auto simp: canonical_schnorr_def no_sigs_def ss_def participant_fields_def Let_def
        opt_all_def split: option.splits)
  consider (none) "tx_signature tx = None" "tx_second_signature tx = None"
    | (one) s where "tx_signature tx = Some s" "hex_field E 64 s" "tx_second_signature tx = None"
    | (two) s t where "tx_signature tx = Some s" "hex_field E 64 s" "tx_second_signature tx = Some t" "hex_field E 64 t"
    using c by (auto simp: canonical_schnorr_def opt_all_def split: option.splits)
  then have "deserialize_signatures E (no_sigs tx) (at pre b)
      = Inr (let t = (no_sigs tx)\<lparr>tx_signature := tx_signature tx, tx_second_signature := tx_second_signature tx\<rparr>
      in if ss = [] then t else t\<lparr>tx_signatures := Some ss\<rparr>, at (pre @ b) [])"
  proof cases
    case none
    have "(no_sigs tx)\<lparr>tx_signature := None, tx_second_signature := None\<rparr> = no_sigs tx"
      by (simp add: no_sigs_def)
    moreover have "\<not> can_read_single (at p tail)" for p using can_read_single_at(3) tail ss(2) by simp
    moreover have "detect_schnorr (remaining (at pre b))"
      using none tail schnorr_lengths(1) by (simp add: b opt_unhex_def)
    ultimately show ?thesis
      using none npq tailpart
      by (simp add: deserialize_signatures_def b opt_unhex_def Let_def)
  next
    case one
    have "can_read_single (at p (unhex E s @ tail))" "\<not> can_read_single (at p tail)" for p
      using can_read_single_at(1) [of "unhex E s @ tail" "length ss"] can_read_single_at(3) tail ss(2)
        hex_fieldD(2) [OF one(2)] by simp_all
    moreover have "detect_schnorr (remaining (at pre b))"
      using one tail schnorr_lengths(2) hex_fieldD(2) [OF one(2)] by (simp add: b opt_unhex_def)
    ultimately show ?thesis
      using one npq tailpart
      by (simp add: deserialize_signatures_def b opt_unhex_def Let_def r_hex_field no_sigs_def)
  next
    case two
    have "can_read_single (at p (unhex E s @ unhex E t @ tail))" "can_read_single (at p (unhex E t @ tail))"
      "\<not> can_read_single (at p tail)" for p
      using can_read_single_at(2) [of "unhex E s @ unhex E t @ tail" "length ss"]
        can_read_single_at(1) [of "unhex E t @ tail" "length ss"] can_read_single_at(3) tail ss(2)
        hex_fieldD(2) [OF two(2)] hex_fieldD(2) [OF two(4)] by simp_all
    moreover have "detect_schnorr (remaining (at pre b))"
      using two tail schnorr_lengths(3) hex_fieldD(2) [OF two(2)] hex_fieldD(2) [OF two(4)]
      by (simp add: b opt_unhex_def)
    ultimately show ?thesis
      using two npq tailpart
      by (simp add: deserialize_signatures_def b opt_unhex_def Let_def r_hex_field no_sigs_def)
  qed
  with tx show ?thesis by simp
qed

text \<open>DER ECDSA layout.\<close>

lemma der_read:
  assumes "der_field E s"
  shows "der_len (at p (unhex E s @ rest)) = Inr (length (unhex E s))"
    "r_hex E (length (unhex E s)) (at p (unhex E s @ rest)) = Inr (s, at (p @ unhex E s) rest)"
    "unhex E s \<noteq> []" "peek_u8 0 (at p (unhex E s @ rest)) \<noteq> Some 0xff"
proof -
  obtain x y z where xyz: "unhex E s = x # y # z" "unat y + 2 = length (unhex E s)" "x \<noteq> 0xff"
    using assms by (cases "unhex E s"; cases "tl (unhex E s)") (auto simp: der_field_def Let_def)
  show "der_len (at p (unhex E s @ rest)) = Inr (length (unhex E s))"
    using xyz by (simp add: der_len_def codec)
  show "r_hex E (length (unhex E s)) (at p (unhex E s @ rest)) = Inr (s, at (p @ unhex E s) rest)"
    using assms by (intro r_hex_field) (simp add: der_field_def Let_def)
  show "unhex E s \<noteq> []" "peek_u8 0 (at p (unhex E s @ rest)) \<noteq> Some 0xff"
    using xyz by (simp_all add: codec)
qed

lemma ecdsa_round_trip:
  assumes "\<not> is_pq tx" and c: "canonical_ecdsa E tx" and "tx_sign_signature tx = None"
    and "serialize_signatures E tx opts_default = Inr b"
  shows "deserialize_signatures E (no_sigs tx) (at pre b) = Inr (tx, at (pre @ b) [])"
proof -
  obtain s where s: "tx_signature tx = Some s" "der_field E s" "opt_all (der_field E) (tx_second_signature tx)"
    "\<not> detect_schnorr (length (unhex E s) + length (opt_unhex E (tx_second_signature tx)))"
    "tx_signatures tx = None"
    using c by (auto simp: canonical_ecdsa_def split: option.splits)
  have w: "w_hex E t = Inr (unhex E t)" if "der_field E t" for t
    using that by (auto simp: der_field_def Let_def w_hex_field)
  have npq: "\<not> is_pq (no_sigs tx)" using assms(1) by (simp add: is_pq_def no_sigs_def)
  have b: "b = unhex E s @ opt_unhex E (tx_second_signature tx)"
    using assms(1,3,4) s w
    by (cases "tx_second_signature tx")
       (auto simp: serialize_signatures_def opts_default_def opt_hex_def opt_unhex_def second_signature_any_def)
  have tx: "(no_sigs tx)\<lparr>tx_signature := Some s, tx_second_signature := tx_second_signature tx\<rparr> = tx"
    using c s by (cases tx) (simp add: canonical_ecdsa_def no_sigs_def)
  show ?thesis
  proof (cases "tx_second_signature tx")
    case None
    have "deserialize_signatures E (no_sigs tx) (at pre b) = Inr ((no_sigs tx)\<lparr>tx_signature := Some s\<rparr>, at (pre @ b) [])"
      using s None npq der_read(1,2,4) [OF s(2), of _ "[]"] der_read(3) [OF s(2)]
      by (simp add: deserialize_signatures_def b opt_unhex_def)
    moreover have "(no_sigs tx)\<lparr>tx_signature := Some s\<rparr> = tx"
      using tx None by (cases tx) (simp add: no_sigs_def)
    ultimately show ?thesis by simp
  next
    case (Some t)
    then have t: "der_field E t" using s(3) by simp
    have "deserialize_signatures E (no_sigs tx) (at pre b)
        = Inr ((no_sigs tx)\<lparr>tx_signature := Some s, tx_second_signature := Some t\<rparr>, at (pre @ b) [])"
      using s Some npq der_read [OF s(2)] der_read(1,2,4) [OF t, of _ "[]"] der_read(3) [OF t]
      by (simp add: deserialize_signatures_def b opt_unhex_def)
    with tx Some show ?thesis by simp
  qed
qed

lemma signatures_round_trip:
  assumes "canonical_sigs E tx" and "serialize_signatures E tx opts_default = Inr b"
  shows "deserialize_signatures E (no_sigs tx) (at pre b) = Inr (tx, at (pre @ b) [])"
proof (cases "is_pq tx")
  case True
  then have "is_pq (no_sigs tx)" by (simp add: is_pq_def no_sigs_def)
  with True assms v3_round_trip show ?thesis
    by (simp add: deserialize_signatures_def canonical_sigs_def)
next
  case False
  with assms schnorr_round_trip ecdsa_round_trip show ?thesis
    by (auto simp: canonical_sigs_def)
qed

section \<open>Whole transactions\<close>

definition canonical :: "crypto \<Rightarrow> transaction \<Rightarrow> bool" where
  "canonical E tx =
     (tx_version tx \<noteq> 1 \<and> tx_network tx \<noteq> None \<and> tx_nonce tx \<noteq> None
      \<and> hex_field E 33 (tx_sender_public_key tx)
      \<and> (if has_vendor_field tx then text_field 255 (tx_vendor_field tx) else tx_vendor_field tx = None)
      \<and> tx_timestamp tx = None \<and> tx_block_id tx = None \<and> tx_block_height tx = None
      \<and> tx_sequence tx = None \<and> canonical_payload E tx \<and> canonical_sigs E tx)"

lemma payload_no_sigs:
  "serialize_type_payload E (no_sigs tx\<lparr>tx_id := i\<rparr>) = serialize_type_payload E tx"
  "canonical_payload E (no_sigs tx\<lparr>tx_id := i\<rparr>) = canonical_payload E tx"
  unfolding no_sigs_def serialize_type_payload_def canonical_payload_def is_sobj_def is_token_def
    serialize_sobj_def serialize_token_def serialize_core_def sobj_asset_of_def token_asset_of_def
    asset_field_def canonical_sobj_def canonical_token_def canonical_core_def plain_body_def is_pq_def
    asset_def write_recipient_def Let_def
  by (cases tx, simp only: transaction.simps cong: if_cong option.case_cong)+

lemma sigs_id:
  "canonical_sigs E (tx\<lparr>tx_id := i\<rparr>) = canonical_sigs E tx"
  "serialize_signatures E (tx\<lparr>tx_id := i\<rparr>) opts = serialize_signatures E tx opts"
  unfolding canonical_sigs_def canonical_v3_def canonical_schnorr_def canonical_ecdsa_def is_pq_def
    serialize_signatures_def pq_blocks_def second_signature_any_def
  by (simp_all cong: if_cong option.case_cong)

lemma transaction_round_trip:
  assumes c: "canonical E tx" and w: "serialize_transaction E tx opts_default net = Inr b"
  shows "deserialize_transaction E b = Inr (tx\<lparr>tx_id := Some (hex_encode E (sha256 E b))\<rparr>)"
proof -
  note c' = c [unfolded canonical_def]
  obtain nw nonce where nn: "tx_network tx = Some nw" "tx_nonce tx = Some nonce" using c' by auto
  define vf where "vf = tx_vendor_field tx"
  have spk: "hex_field E 33 (tx_sender_public_key tx)" using c' by simp
  have empty: "tx_sign_signature tx = None" "tx_timestamp tx = None" "tx_block_id tx = None"
    "tx_block_height tx = None" "tx_sequence tx = None"
    using c' by (simp_all add: canonical_sigs_def)
  have vft: "text_field 255 vf" "vf \<noteq> None \<Longrightarrow> has_vendor_field tx"
    using c' by (auto simp: vf_def text_field_def split: if_splits)
  have vfw: "serialize_vendor_field tx = Inr (w_var8 (as_bytes (unwrap_or [] vf)))"
    using c' vft text_field_length [OF vft(1)]
    by (auto simp: serialize_vendor_field_def vf_def text_field_def w_var8_def len8_def split: option.splits)
  obtain payload sigs where ps: "serialize_type_payload E tx = Inr payload"
    "serialize_signatures E tx opts_default = Inr sigs"
    "b = 0xff # tx_version tx # nw # u32_le (tx_type_group tx) @ u16_le (tx_type tx) @ u64_le nonce
       @ unhex E (tx_sender_public_key tx) @ u64_le (tx_fee tx) @ len8 (as_bytes (unwrap_or [] vf))
       # as_bytes (unwrap_or [] vf) @ payload @ sigs"
    using w c' by (auto simp: serialize_transaction_def w_hex_field [OF spk] vfw nn rbind_eq_Inr w_var8_def)
  define t where "t = no_sigs tx\<lparr>tx_id := None\<rparr>"
  have pl: "deserialize_type_payload E (hdr t) (at p (payload @ q)) = Inr (t, at (p @ payload) q)" for p q
    using c' ps(1) payload_round_trip [of E t payload] by (simp add: t_def payload_no_sigs)
  have sg: "deserialize_signatures E t (at p sigs) = Inr (tx\<lparr>tx_id := None\<rparr>, at (p @ sigs) [])" for p
  proof -
    have "no_sigs (tx\<lparr>tx_id := None\<rparr>) = t" by (cases tx) (simp add: t_def no_sigs_def)
    with c' ps(2) show ?thesis
      using signatures_round_trip [of E "tx\<lparr>tx_id := None\<rparr>" sigs] by (simp add: sigs_id)
  qed
  define t0 where "t0 = \<lparr>tx_version = tx_version tx, tx_network = Some nw, tx_type_group = tx_type_group tx,
     tx_type = tx_type tx, tx_nonce = Some nonce, tx_sender_public_key = tx_sender_public_key tx,
     tx_fee = tx_fee tx, tx_amount = 0, tx_vendor_field = None, tx_expiration = None,
     tx_recipient = None, tx_asset = None, tx_signature = None,
     tx_second_signature = None, tx_sign_signature = None, tx_signatures = None,
     tx_second_signatures = None, tx_timestamp = None, tx_id = None,
     tx_block_id = None, tx_block_height = None, tx_sequence = None\<rparr>"
  have vfr: "(if unat (len8 (as_bytes (unwrap_or [] vf))) > 0
       then rbind (r_bytes (unat (len8 (as_bytes (unwrap_or [] vf)))) (at p (as_bytes (unwrap_or [] vf) @ q)))
              (\<lambda>(raw, r). Inr (if has_vendor_field t0
                   then t0\<lparr>tx_vendor_field := Some (from_utf8_lossy raw)\<rparr> else t0, r))
       else Inr (t0, at p (as_bytes (unwrap_or [] vf) @ q)))
     = Inr (hdr t, at (p @ as_bytes (unwrap_or [] vf)) q)" for p q
  proof -
    have hv: "has_vendor_field t0 = has_vendor_field tx" by (simp add: t0_def has_vendor_field_def)
    have hdr: "hdr t = t0\<lparr>tx_vendor_field := vf\<rparr>"
      using empty nn by (cases tx) (simp add: t_def hdr_def no_sigs_def t0_def vf_def)
    have none: "t0\<lparr>tx_vendor_field := None\<rparr> = t0" by (simp add: t0_def)
    show ?thesis
    proof (cases vf)
      case None
      then have "unat (len8 (as_bytes (unwrap_or [] vf))) = 0" by (simp add: len8_def)
      with None hdr none show ?thesis by simp
    next
      case (Some v)
      then have "unat (len8 (as_bytes v)) = length v" "0 < length v" "rust_string v"
        using vft(1) unat_len8 [of "as_bytes v"] by (simp_all add: text_field_def)
      with Some hdr vft(2) show ?thesis by (simp add: hv r_bytes_at)
    qed
  qed
  have v1: "(tx_version tx = 1) = False" using c' by simp
  have "rbind (r_u8 (reader_new b)) f = f (0xff, at [0xff] (drop 1 b))" for f :: "_ \<Rightarrow> transaction res"
    by (simp add: ps(3) codec)
  then show ?thesis
    unfolding deserialize_transaction_def
    by (simp only: ps(3) drop_Suc_Cons drop0 One_nat_def r_u8_at r_int_at rbind_simps prod.case
        r_hex_field [OF spk] Let_def t0_def [symmetric] vfr pl sg v1 if_False simp_thms) simp
qed

end
