(* ===== verification/RefCrypto.thy ===== *)
theory RefCrypto
  imports Models
begin

text \<open>
  A concrete instance of the third-party record, for the witnesses: real lower-case hexadecimal,
  text encodings that keep the bytes, and digests that pad or cut their input to the digest length.
  It satisfies every law the development assumes of the crates, so none of the hypotheses is empty.
\<close>

definition hex_digit :: "nat \<Rightarrow> char" where
  "hex_digit n = (if n < 10 then char_of (48 + n) else char_of (87 + n))"

definition hex_value :: "char \<Rightarrow> nat option" where
  "hex_value c =
     (let n = of_char c in
      if 48 \<le> n \<and> n \<le> 57 then Some (n - 48)
      else if 97 \<le> n \<and> n \<le> 102 then Some (n - 87)
      else if 65 \<le> n \<and> n \<le> 70 then Some (n - 55)
      else None)"

fun ref_hex_encode :: "bytes \<Rightarrow> string" where
  "ref_hex_encode [] = []"
| "ref_hex_encode (b # bs) = hex_digit (unat b div 16) # hex_digit (unat b mod 16) # ref_hex_encode bs"

fun ref_hex_decode :: "string \<Rightarrow> bytes option" where
  "ref_hex_decode [] = Some []"
| "ref_hex_decode [_] = None"
| "ref_hex_decode (a # b # cs) =
     (case (hex_value a, hex_value b, ref_hex_decode cs) of
        (Some x, Some y, Some r) \<Rightarrow> Some (word_of_nat (16 * x + y) # r)
      | _ \<Rightarrow> None)"

definition ref_digest :: "nat \<Rightarrow> bytes \<Rightarrow> bytes" where
  "ref_digest n b = take n (b @ replicate n 0)"

definition ref_crypto :: crypto where
  "ref_crypto =
     \<lparr>hex_encode = ref_hex_encode, hex_decode = ref_hex_decode,
      bs58_encode = str_of_bytes, bs58_decode = (\<lambda>s. Some (as_bytes s)),
      bs58check_encode = str_of_bytes, bs58check_decode = (\<lambda>s. Some (as_bytes s)),
      base64_encode = str_of_bytes, base64_decode = (\<lambda>s. Some (as_bytes s)),
      sha256 = ref_digest 32, ripemd160 = ref_digest 20,
      verify_schnorr_legacy = (\<lambda>h s pk. Inr (take 32 s = h)),
      verify_ecdsa = (\<lambda>h s pk. Inr (drop 2 s = h)),
      ml_dsa_verify = (\<lambda>pk m s ctx. Inr (take 32 s = m)),
      multisig_point = (\<lambda>mn pks. case pks of [] \<Rightarrow> Inl PublicKey | pk # _ \<Rightarrow> Inr pk)\<rparr>"

lemma hex_value_digit: "n < 16 \<Longrightarrow> hex_value (hex_digit n) = Some n"
proof -
  assume n: "n < 16"
  then have "n \<in> set [0..<16]" by simp
  then show ?thesis by (auto simp: upt_rec hex_value_def hex_digit_def Let_def)
qed

lemma ref_hex_decode_encode: "ref_hex_decode (ref_hex_encode bs) = Some bs"
proof (induction bs)
  case (Cons b bs)
  have "unat b < 256" using unsigned_less [where 'a = nat and w = b] by simp
  then have "unat b div 16 < 16" "unat b mod 16 < 16" by simp_all
  then have "hex_value (hex_digit (unat b div 16)) = Some (unat b div 16)"
    "hex_value (hex_digit (unat b mod 16)) = Some (unat b mod 16)"
    using hex_value_digit by blast+
  moreover have "16 * (unat b div 16) + unat b mod 16 = unat b" by simp
  ultimately show ?case using Cons by (simp del: mult_div_mod_eq)
qed simp

lemma ref_hex_length: "length (ref_hex_encode bs) = 2 * length bs"
  by (induction bs) auto

lemma ref_crypto_laws:
  "hex_laws ref_crypto" "bs58_laws ref_crypto" "bs58check_laws ref_crypto" "base64_laws ref_crypto"
  by (simp_all add: ref_crypto_def hex_laws_def bs58_laws_def bs58check_laws_def base64_laws_def
      ref_hex_decode_encode ref_hex_length)

end
