(* ===== verification/TxWire.thy ===== *)
theory TxWire
  imports TxRoundTrip RefCrypto
begin

text \<open>
  What the wire format promises its users: every canonical transaction serializes, its bytes read
  back as the same transaction, distinct canonical transactions have distinct bytes, and the hash
  that is signed does not depend on the signatures.
\<close>

section \<open>Canonical transactions serialize\<close>

lemma sobj_writes:
  assumes "canonical_sobj E tx" shows "\<exists>b. serialize_sobj E tx = Inr b"
proof -
  obtain e where e: "sobj_asset_of tx = Some e" "opt_hex_field E 255 (so_registration_id e)"
    "text_field 255 (sd_name (so_data e))"
    using assms by (auto simp: canonical_sobj_def split: option.splits)
  have reg: "(case so_registration_id e of None \<Rightarrow> Inr []
      | Some i \<Rightarrow> ok_or (ser_err ''bad registrationId'') (hex_decode E i)) = Inr (opt_unhex E (so_registration_id e))"
    using e(2) by (auto simp: opt_hex_field_def opt_unhex_def hex_fieldD(1) Let_def split: option.splits)
  show ?thesis
    using e(1) reg opt_hex_field_length [OF e(2)] text_field_length [OF e(3)]
      text_field_length [OF sobj_slot_text [OF assms e(1)]]
    by (simp add: serialize_sobj_def Let_def sobj_slot_def)
qed

lemma token_writes:
  assumes "canonical_token E tx" shows "\<exists>b. serialize_token E tx = Inr b"
proof -
  obtain a where a: "token_asset_of tx = Some a" "hex_field E 32 (ta_id a)" "canonical_token_body E (tx_type tx) a"
    using assms by (auto simp: canonical_token_def split: option.splits)
  have "\<exists>b. serialize_token_body E (tx_type tx) a = Inr b"
  proof -
    consider "tx_type tx = TOKEN_TRANSFER" | "tx_type tx = TOKEN_META"
      | "tx_type tx \<noteq> TOKEN_TRANSFER" "tx_type tx \<noteq> TOKEN_META" by blast
    then show ?thesis
    proof cases
      case 1
      then have "list_all (item_field E) (unwrap_or [] (ta_transfers a))" "text_field 255 (ta_memo a)"
        "length (unwrap_or [] (ta_transfers a)) \<le> 65535"
        using a(3) by (simp_all add: canonical_token_body_def Let_def)
      with 1 text_field_length [OF this(2)] counted_write [OF this(1) item_codec(1)] show ?thesis
        by (simp add: serialize_token_body_def Let_def)
    next
      case 2
      then show ?thesis using a(3) meta_write
        by (auto simp: canonical_token_body_def Let_def split: option.splits)
    next
      case 3
      with a(3) show ?thesis
        by (auto simp: canonical_token_body_def serialize_token_body_def Let_def write_addr_field
            hex_fieldD(1,2) split: if_splits)
    qed
  qed
  with a show ?thesis by (auto simp: serialize_token_def hex_fieldD(1,2))
qed

lemma core_writes:
  assumes "canonical_core E tx" shows "\<exists>b. serialize_core E tx = Inr b"
proof -
  have v: "list_all (vote_field E) vs \<Longrightarrow> w_seq (map (write_vote E) vs) = Inr (concat (map (vote_bytes E) vs))"
    and k: "list_all (hex_field E 33) ks \<Longrightarrow> w_seq (map (w_hex E) ks) = Inr (concat (map (unhex E) ks))"
    and p: "list_all (\<lambda>p. addr_field E (pay_recipient p)) ps \<Longrightarrow>
      w_seq (map (write_payment E) ps) = Inr (concat (map (payment_bytes E) ps))" for vs ks ps
    by (erule counted_write, rule vote_codec(1) w_hex_field payment_codec(1), assumption)+
  have "tx_type tx \<in> {0, 1, 2, 3, 4, 5, 6, 7, 8, 9, 10}"
    using assms by (auto simp: canonical_core_def Let_def split: if_splits)
  then show ?thesis
    using assms unfolding canonical_core_def Let_def
    by (elim insertE emptyE; simp add: serialize_core_def)
       (auto simp: asset_def asset_field_def v k p w_hex_field write_addr_field write_recipient_def
         hex_fieldD(1) split: option.splits if_splits)
qed

lemma payload_writes: "canonical_payload E tx \<Longrightarrow> \<exists>b. serialize_type_payload E tx = Inr b"
  using sobj_writes token_writes core_writes
  by (auto simp: canonical_payload_def serialize_type_payload_def split: if_splits)

lemma sigs_write:
  assumes "canonical_sigs E tx" shows "\<exists>b. serialize_signatures E tx opts_default = Inr b"
proof -
  have opt: "opt_hex E False s = Inr (opt_unhex E s)" if "opt_all (\<lambda>s. \<exists>n. hex_field E n s) s" for s
    using that by (cases s) (auto simp: opt_hex_def opt_unhex_def w_hex_field)
  have parts: "list_all (hex_field E 65) ks \<Longrightarrow> w_seq (map (w_hex E) ks) = Inr (concat (map (unhex E) ks))" for ks
    by (erule counted_write, rule w_hex_field, assumption)
  have blocks: "list_all (pq_block_field E) bs \<Longrightarrow>
      w_seq (map (write_pq_block E) bs) = Inr (concat (map (pq_block_bytes E) bs))" for bs
    by (erule counted_write, rule write_pq_block_field, assumption)
  show ?thesis
  proof (cases "is_pq tx")
    case True
    with assms parts blocks show ?thesis
      by (auto simp: canonical_sigs_def canonical_v3_def serialize_signatures_def opts_default_def
          pq_blocks_def opt_all_def opt_hex_def w_hex_field split: option.splits)
  next
    case False
    have "opt_all (\<lambda>s. \<exists>n. hex_field E n s) (tx_signature tx)"
      "opt_all (\<lambda>s. \<exists>n. hex_field E n s) (second_signature_any tx)"
      "list_all (hex_field E 65) (unwrap_or [] (tx_signatures tx))"
      using assms False
      by (auto simp: canonical_sigs_def canonical_schnorr_def canonical_ecdsa_def second_signature_any_def
          participant_fields_def der_field_def Let_def opt_all_def split: option.splits)
    with False opt parts show ?thesis
      by (auto simp: serialize_signatures_def opts_default_def)
  qed
qed

lemma vendor_writes:
  "if has_vendor_field tx then text_field 255 (tx_vendor_field tx) else tx_vendor_field tx = None
   \<Longrightarrow> \<exists>b. serialize_vendor_field tx = Inr b"
  by (auto simp: serialize_vendor_field_def text_field_def split: option.splits if_splits)

lemma canonical_writes:
  assumes "canonical E tx" shows "\<exists>b. serialize_transaction E tx opts_default net = Inr b"
proof -
  have "\<exists>b. serialize_type_payload E tx = Inr b" "\<exists>b. serialize_signatures E tx opts_default = Inr b"
    "\<exists>b. serialize_vendor_field tx = Inr b" "w_hex E (tx_sender_public_key tx) = Inr (unhex E (tx_sender_public_key tx))"
    "tx_version tx \<noteq> 1"
    using assms payload_writes sigs_write vendor_writes w_hex_field by (auto simp: canonical_def)
  then show ?thesis by (auto simp: serialize_transaction_def)
qed

section \<open>Properties\<close>

text \<open>C8. The wire format loses nothing: a canonical transaction (any type of the three groups, any
  of the schnorr, DER ECDSA and version-3 signature layouts) always serializes, and the deserializer
  gives the same transaction back from the bytes, with the id set to the hex of their sha256.\<close>

theorem transaction_wire_round_trip:
  assumes "canonical E tx"
  shows "\<exists>b. serialize_transaction E tx opts_default net = Inr b
     \<and> deserialize_transaction E b = Inr (tx\<lparr>tx_id := Some (hex_encode E (sha256 E b))\<rparr>)"
  using canonical_writes [OF assms] transaction_round_trip [OF assms] by blast

definition ref_key :: string where "ref_key = ref_hex_encode (replicate 33 2)"
definition ref_address :: string where "ref_address = str_of_bytes (replicate 21 63)"
definition ref_sig :: string where "ref_sig = ref_hex_encode (replicate 64 7)"

definition ref_transfer :: transaction where
  "ref_transfer = \<lparr>tx_version = 2, tx_network = Some 63, tx_type_group = 1, tx_type = 0,
     tx_nonce = Some 5, tx_sender_public_key = ref_key, tx_fee = 10000000, tx_amount = 250000000,
     tx_vendor_field = Some ''hello'', tx_expiration = Some 0, tx_recipient = Some ref_address,
     tx_asset = None, tx_signature = Some ref_sig, tx_second_signature = None,
     tx_sign_signature = None, tx_signatures = None, tx_second_signatures = None,
     tx_timestamp = None, tx_id = None, tx_block_id = None, tx_block_height = None,
     tx_sequence = None\<rparr>"

lemma ref_fields:
  "hex_field ref_crypto 33 ref_key" "hex_field ref_crypto 64 ref_sig"
  "addr_field ref_crypto ref_address" "text_field 255 (Some ''hello'')"
  by code_simp+

lemma ref_transfer_canonical: "canonical ref_crypto ref_transfer"
  by (simp add: canonical_def ref_transfer_def ref_fields has_vendor_field_def canonical_payload_def
      is_sobj_def is_token_def canonical_core_def canonical_sigs_def is_pq_def VERSION_PQ_def
      canonical_schnorr_def)

theorem transaction_wire_round_trip_witness:
  "canonical ref_crypto ref_transfer \<and>
   (\<exists>b. serialize_transaction ref_crypto ref_transfer opts_default 63 = Inr b
     \<and> deserialize_transaction ref_crypto b
         = Inr (ref_transfer\<lparr>tx_id := Some (ref_hex_encode (ref_digest 32 b))\<rparr>))"
  using transaction_wire_round_trip [OF ref_transfer_canonical, of 63] ref_transfer_canonical
  by (simp add: ref_crypto_def)

text \<open>The bytes determine the transaction: two canonical transactions with the same wire bytes
  agree in every field but the cached id, so an id commits to the whole content, signatures
  included.\<close>

theorem serialize_transaction_injective:
  assumes "canonical E tx" and "canonical E tx'"
    and "serialize_transaction E tx opts_default net = Inr b"
    and "serialize_transaction E tx' opts_default net' = Inr b"
  shows "tx\<lparr>tx_id := None\<rparr> = tx'\<lparr>tx_id := None\<rparr>"
proof -
  define i where "i = Some (hex_encode E (sha256 E b))"
  have "tx\<lparr>tx_id := i\<rparr> = tx'\<lparr>tx_id := i\<rparr>"
    using transaction_round_trip [OF assms(1,3)] transaction_round_trip [OF assms(2,4)]
    by (simp add: i_def)
  then have "(tx\<lparr>tx_id := i\<rparr>)\<lparr>tx_id := None\<rparr> = (tx'\<lparr>tx_id := i\<rparr>)\<lparr>tx_id := None\<rparr>"
    by (rule arg_cong)
  then show ?thesis by simp
qed

theorem serialize_transaction_injective_witness:
  "ref_transfer\<lparr>tx_id := None\<rparr> = ref_transfer\<lparr>tx_id := Some ''ab'', tx_id := None\<rparr>"
proof -
  have c: "canonical ref_crypto (ref_transfer\<lparr>tx_id := Some ''ab''\<rparr>)"
    by (simp add: canonical_def ref_transfer_def ref_fields has_vendor_field_def canonical_payload_def
        is_sobj_def is_token_def canonical_core_def canonical_sigs_def is_pq_def VERSION_PQ_def
        canonical_schnorr_def)
  obtain b where b: "serialize_transaction ref_crypto ref_transfer opts_default 63 = Inr b"
    using canonical_writes [OF ref_transfer_canonical] by blast
  moreover have "serialize_transaction ref_crypto (ref_transfer\<lparr>tx_id := Some ''ab''\<rparr>) opts_default 63
      = serialize_transaction ref_crypto ref_transfer opts_default 63"
    by (simp add: serialize_transaction_def serialize_vendor_field_def serialize_type_payload_def
        serialize_core_def serialize_signatures_def ref_transfer_def has_vendor_field_def is_sobj_def
        is_token_def is_pq_def VERSION_PQ_def write_recipient_def second_signature_any_def)
  ultimately show ?thesis
    using serialize_transaction_injective [OF ref_transfer_canonical c b] by simp
qed

definition resigned ::
  "string option \<Rightarrow> string option \<Rightarrow> string option \<Rightarrow> pq_signature_block list option \<Rightarrow>
   transaction \<Rightarrow> transaction" where
  "resigned s s2 s3 bl tx = tx\<lparr>tx_signature := s, tx_second_signature := s2, tx_sign_signature := s3,
     tx_second_signatures := bl\<rparr>"

lemma resigned_parts:
  "serialize_vendor_field (resigned s s2 s3 bl tx) = serialize_vendor_field tx"
  "serialize_type_payload E (resigned s s2 s3 bl tx) = serialize_type_payload E tx"
  unfolding resigned_def serialize_vendor_field_def has_vendor_field_def serialize_type_payload_def
    is_sobj_def is_token_def serialize_sobj_def serialize_token_def serialize_core_def
    sobj_asset_of_def token_asset_of_def asset_field_def is_pq_def asset_def write_recipient_def Let_def
  by (cases tx, simp only: transaction.simps cong: if_cong option.case_cong)+

text \<open>What the sender signs does not depend on the signatures: replacing the first signature, the
  second signature in either of its places, or the post-quantum blocks leaves the hash under the
  primary signature as it is, and, the first signature kept, the message under the post-quantum
  blocks too.\<close>

theorem signing_hash_ignores_signatures:
  "transaction_signing_hash E (resigned s s2 s3 bl tx) = transaction_signing_hash E tx
   \<and> transaction_pq_message E (resigned (tx_signature tx) s2 s3 bl tx) = transaction_pq_message E tx"
proof -
  have a: "serialize_signatures E (resigned s s2 s3 bl tx) for_signing = serialize_signatures E tx for_signing"
    by (simp add: serialize_signatures_def opt_hex_def for_signing_def resigned_def is_pq_def)
  have b: "serialize_signatures E (resigned (tx_signature tx) s2 s3 bl tx) o2 = serialize_signatures E tx o2"
    if "exclude_second_signature o2" "exclude_multi_signature o2" for o2
    using that by (simp add: serialize_signatures_def opt_hex_def resigned_def is_pq_def)
  show ?thesis
    unfolding transaction_signing_hash_def transaction_pq_message_def serialize_transaction_def
      resigned_parts
    by (simp add: a b) (simp add: resigned_def)
qed

end
