(* ===== verification/Rules.thy ===== *)
theory Rules
  imports Wallet TxWire
begin

text \<open>
  The transaction rules of \<open>src/src/rules.rs\<close>: second signatures, smart objects, native tokens and
  the post-quantum (version 3) transactions. An error is the legacy error name the source puts in
  front of its message. The views a rule needs of the chain state (\<open>TokenView\<close>, \<open>PqWalletView\<close>, the
  closures of \<open>check_sobj\<close>) are arguments, as in the source.
\<close>

unbundle bit_operations_syntax

type_synonym 'a rule = "string + 'a"

section \<open>Second signature\<close>

definition check_second_signature :: "crypto \<Rightarrow> transaction \<Rightarrow> string option \<Rightarrow> unit rule" where
  "check_second_signature E tx spk =
     (if is_pq tx then Inr ()
      else case spk of
        Some pk \<Rightarrow>
          if tx_type_group tx = TYPE_GROUP_CORE \<and> tx_type tx = SECOND_SIGNATURE
          then Inl ''SecondSignatureAlreadyRegisteredError''
          else (case verify_transaction_second_signature E tx pk of
                  Inr True \<Rightarrow> Inr ()
                | Inr False \<Rightarrow>
                    if second_signature_any tx = None then Inl ''MissingSecondSignatureError''
                    else Inl ''InvalidSecondSignatureError''
                | Inl _ \<Rightarrow> Inl ''InvalidSecondSignatureError'')
      | None \<Rightarrow>
          if second_signature_any tx \<noteq> None then Inl ''UnexpectedSecondSignatureError'' else Inr ())"

definition registered_second_key :: "crypto \<Rightarrow> transaction \<Rightarrow> string option rule" where
  "registered_second_key E tx =
     (if tx_type_group tx \<noteq> TYPE_GROUP_CORE \<or> tx_type tx \<noteq> SECOND_SIGNATURE \<or> is_pq tx then Inr None
      else case asset_field as_signature tx of
        None \<Rightarrow> Inl ''SecondSignatureRegistration''
      | Some s \<Rightarrow>
          let pk = ss_public_key s in
          if length pk = 66 \<and> (strip_prefix ''02'' pk \<noteq> None \<or> strip_prefix ''03'' pk \<noteq> None)
             \<and> hex_decode E pk \<noteq> None
          then Inr (Some pk)
          else Inl ''SecondSignatureRegistration'')"

section \<open>Smart objects\<close>

definition ticker_ok :: "string \<Rightarrow> bool" where
  "ticker_ok name \<longleftrightarrow> 3 \<le> length name \<and> length name \<le> 10
     \<and> list_all (\<lambda>c. is_ascii_uppercase c \<or> is_ascii_digit c) name"

definition name_ok :: "string \<Rightarrow> bool" where
  "name_ok n \<longleftrightarrow> 1 \<le> length n \<and> length n \<le> 40
     \<and> list_all (\<lambda>c. is_ascii_alphanumeric c \<or> c \<in> set ''_!@$&.-'') n"

definition data_ok :: "crypto \<Rightarrow> milestone \<Rightarrow> string \<Rightarrow> bool" where
  "data_ok E ms s =
     (if ms_sobj_v2 ms then 1 \<le> length s \<and> length s \<le> 255 \<and> \<not> has_control s
      else 1 \<le> length s \<and> length s \<le> 128 \<and> bs58_decode E s \<noteq> None)"

definition is_market :: "u8 \<Rightarrow> bool" where
  "is_market a \<longleftrightarrow> a = ACTION_TRANSFER \<or> a = ACTION_SELL \<or> a = ACTION_BUY"

definition check_sobj_format ::
  "crypto \<Rightarrow> transaction \<Rightarrow> milestone \<Rightarrow> smart_object_asset rule" where
  "check_sobj_format E tx ms =
     rbind (ok_or ''SmartObject: missing or malformed asset'' (sobj_asset_of tx)) (\<lambda>e.
     rbind (ensure (tx_amount tx = 0) ''SmartObject: amount must be 0'') (\<lambda>_.
     rbind (ok_or ''SmartObject: unknown action'' (sobj_static_fee (so_action e))) (\<lambda>base.
     rbind (ensure (tx_fee tx = base + pq_surcharge tx (pq_fee_per_byte (ms_pq ms)))
              ''StaticFeeMismatchError'') (\<lambda>_.
     rbind (ensure (is_market (so_action e) \<longrightarrow> ms_sobj_v2 ms) ''SmartObjectTransferNotActiveError'') (\<lambda>_.
     rbind (ensure ((so_recipient e \<noteq> None) = (so_action e = ACTION_TRANSFER))
              ''SmartObject: recipientId is only valid for transfer (action 3)'') (\<lambda>_.
     rbind (ensure ((so_price e \<noteq> None) = (so_action e = ACTION_SELL))
              ''SmartObject: price is only valid for sell (action 4)'') (\<lambda>_.
     rbind (ensure (case so_recipient e of None \<Rightarrow> True | Some r \<Rightarrow> is_ok (address_to_bytes E r))
              ''SmartObject: invalid recipientId'') (\<lambda>_.
     rbind (ensure (case sd_ntfry_data (so_data e) of None \<Rightarrow> True | Some d \<Rightarrow> data_ok E ms d)
              ''SmartObject: invalid ntfryData'') (\<lambda>_.
     rbind (if so_action e = ACTION_REGISTER then
              rbind (ensure (so_registration_id e = None)
                       ''SmartObject: register must not carry registrationId'') (\<lambda>_.
              rbind (ensure (case sd_name (so_data e) of None \<Rightarrow> False | Some n \<Rightarrow> name_ok n)
                       ''SmartObject: register requires a valid name'') (\<lambda>_.
              ensure (\<not> (ms_sobj_v2 ms \<and> so_type e = TICKER_SOBJ_TYPE
                          \<and> \<not> ticker_ok (unwrap_or [] (sd_name (so_data e)))))
                ''SmartObjectTickerInvalidError''))
            else
              rbind (ensure (case so_registration_id e of None \<Rightarrow> False
                             | Some i \<Rightarrow> length i = 64 \<and> hex_decode E i \<noteq> None)
                       ''SmartObject: update/resign require registrationId'') (\<lambda>_.
              rbind (ensure (sd_name (so_data e) = None) ''SmartObject: name cannot be changed'') (\<lambda>_.
              ensure (\<not> ((so_action e = ACTION_RESIGN \<or> is_market (so_action e))
                          \<and> sd_ntfry_data (so_data e) \<noteq> None))
                ''SmartObject: resign / transfer / sell / buy must not carry data''))) (\<lambda>_.
     Inr e))))))))))"

text \<open>\<open>lookup\<close> gives the owner and the record of a registration, \<open>token_supply\<close> the live supply of the
  token of a registry.\<close>

definition check_sobj_buy ::
  "transaction \<Rightarrow> wallet_state option \<Rightarrow> (string \<Rightarrow> (string \<times> smart_object) option) \<Rightarrow>
   smart_object_asset \<Rightarrow> unit rule" where
  "check_sobj_buy tx wallet lookup e =
     rbind (ok_or ''SmartObjectNotRegisteredError''
              (lookup (unwrap_or [] (so_registration_id e)))) (\<lambda>(owner, rec).
     rbind (ensure (\<not> sm_resigned rec) ''SmartObjectAlreadyResignedError'') (\<lambda>_.
     rbind (ensure (sm_type rec = so_type e \<and> sm_sub_type rec = so_sub_type e)
              ''SmartObjectWrongTypeError'') (\<lambda>_.
     rbind (ok_or ''SmartObjectNotForSaleError''
              (case sm_price rec of None \<Rightarrow> None | Some p \<Rightarrow> if p > 0 then Some p else None)) (\<lambda>price.
     rbind (ensure (case wallet of None \<Rightarrow> True | Some w \<Rightarrow> w_address w \<noteq> owner)
              ''SmartObjectTransferToSelfError'') (\<lambda>_.
     let balance = (case wallet of None \<Rightarrow> 0 | Some w \<Rightarrow> w_balance w) in
     ensure (\<not> (balance < 0 \<or> word_of_int balance < saturating_add price (tx_fee tx)))
       ''SmartObjectInsufficientBalanceError'')))))"

definition check_service_node ::
  "transaction \<Rightarrow> milestone \<Rightarrow> wallet_state option \<Rightarrow> (string, smart_object) btmap \<Rightarrow>
   smart_object_asset \<Rightarrow> unit rule" where
  "check_service_node tx ms wallet pending e =
     rbind (ensure (mn_enabled (ms_masternodes ms)) ''SmartObjectTypeNotActiveError'') (\<lambda>_.
     rbind (ensure (parse_service_node (unwrap_or [] (sd_ntfry_data (so_data e))) \<noteq> None)
              ''ServiceNodeDataInvalidError'') (\<lambda>_.
     let live = (\<lambda>kv. sm_type (snd kv) = TYPE_SERVICE_NODE \<and> \<not> sm_resigned (snd kv)) in
     rbind (ensure (\<not> ((case wallet of None \<Rightarrow> False | Some w \<Rightarrow> list_ex live (w_sobjects w))
                        \<or> list_ex live pending))
              ''ServiceNodeAlreadyRegisteredError'') (\<lambda>_.
     ensure (\<not> ((case wallet of None \<Rightarrow> 0 | Some w \<Rightarrow> w_balance w)
                 < sint (mn_collateral_amount (ms_masternodes ms) + tx_fee tx)))
       ''ServiceNodeCollateralError'')))"

definition check_sobj ::
  "crypto \<Rightarrow> transaction \<Rightarrow> milestone \<Rightarrow> wallet_state option \<Rightarrow> (string, smart_object) btmap \<Rightarrow>
   (string \<Rightarrow> u8 \<Rightarrow> bool) \<Rightarrow> (string \<Rightarrow> (string \<times> smart_object) option) \<Rightarrow>
   (string \<Rightarrow> u64 option) \<Rightarrow> unit rule" where
  "check_sobj E tx ms wallet pending name_taken lookup token_supply =
     rbind (check_sobj_format E tx ms) (\<lambda>e.
     rbind (ok_or ''SmartObject: transaction without id'' (tx_id tx)) (\<lambda>i.
     let record = (\<lambda>reg. case bt_get pending reg of Some r \<Rightarrow> Some r
                    | None \<Rightarrow> (case wallet of None \<Rightarrow> None | Some w \<Rightarrow> bt_get (w_sobjects w) reg)) in
     if so_action e = ACTION_BUY then check_sobj_buy tx wallet lookup e
     else if so_action e = ACTION_REGISTER then
       rbind (ensure (record i = None) ''SmartObjectAlreadyRegisteredError'') (\<lambda>_.
       let name = unwrap_or [] (sd_name (so_data e)) in
       rbind (ensure (\<not> name_taken name (so_type e)) ''SmartObjectNameAlreadyRegisteredError'') (\<lambda>_.
       rbind (if so_type e = TYPE_SERVICE_NODE then check_service_node tx ms wallet pending e
              else Inr ()) (\<lambda>_.
       if so_type e = TYPE_DELEGATE then
         (case (case wallet of None \<Rightarrow> None | Some w \<Rightarrow> w_username w) of
            None \<Rightarrow> Inl ''SmartObjectSenderIsNotDelegateError''
          | Some u \<Rightarrow> ensure (u = name) ''SmartObjectNameDoesNotMatchDelegateError'')
       else Inr ())))
     else
       (let reg = unwrap_or [] (so_registration_id e) in
        rbind (ok_or ''SmartObjectNotRegisteredError'' (record reg)) (\<lambda>rec.
        rbind (ensure (\<not> sm_resigned rec) ''SmartObjectAlreadyResignedError'') (\<lambda>_.
        rbind (ensure (sm_type rec = so_type e) ''SmartObjectWrongTypeError'') (\<lambda>_.
        rbind (ensure (so_action e = ACTION_TRANSFER \<longrightarrow>
                 (case wallet of None \<Rightarrow> True
                  | Some w \<Rightarrow> w_address w \<noteq> unwrap_or [] (so_recipient e)))
                 ''SmartObjectTransferToSelfError'') (\<lambda>_.
        let moves = (so_action e = ACTION_TRANSFER \<or> so_action e = ACTION_SELL) in
        rbind (ensure (\<not> (moves \<and> sm_type rec = TYPE_DELEGATE))
                 ''SmartObjectDelegateNotTransferableError'') (\<lambda>_.
        rbind (if sm_type rec = TYPE_SERVICE_NODE then
                 rbind (ensure (\<not> moves) ''ServiceNodeNotTransferableError'') (\<lambda>_.
                 ensure (\<not> (so_action e = ACTION_UPDATE
                             \<and> parse_service_node (unwrap_or [] (sd_ntfry_data (so_data e))) = None))
                   ''ServiceNodeDataInvalidError'')
               else Inr ()) (\<lambda>_.
        rbind (ensure (sm_sub_type rec = so_sub_type e) ''SmartObjectWrongSubTypeError'') (\<lambda>_.
        ensure (\<not> (so_action e = ACTION_RESIGN \<and> sm_type rec = TICKER_SOBJ_TYPE
                    \<and> (case token_supply reg of None \<Rightarrow> False | Some s \<Rightarrow> s > 0)))
          ''TokenSmartObjectStillActiveError'')))))))))) "

section \<open>Native tokens\<close>

text \<open>\<open>char::is_whitespace\<close> on UTF-8 bytes: the length of the white-space character at the head, 0 when
  there is none.\<close>

definition ws_len :: "string \<Rightarrow> nat" where
  "ws_len s =
     (case map byte_of_char (take 3 s) of
        [] \<Rightarrow> 0
      | b # bs \<Rightarrow>
          if b = 32 \<or> 9 \<le> b \<and> b \<le> 13 then 1
          else (case bs of
                  [] \<Rightarrow> 0
                | c # cs \<Rightarrow>
                    if b = 0xC2 \<and> (c = 0x85 \<or> c = 0xA0) then 2
                    else (case cs of
                            [] \<Rightarrow> 0
                          | d # _ \<Rightarrow>
                              if b = 0xE1 \<and> c = 0x9A \<and> d = 0x80
                                 \<or> b = 0xE2 \<and> c = 0x80 \<and> (0x80 \<le> d \<and> d \<le> 0x8A \<or> d = 0xA8 \<or> d = 0xA9 \<or> d = 0xAF)
                                 \<or> b = 0xE2 \<and> c = 0x81 \<and> d = 0x9F
                                 \<or> b = 0xE3 \<and> c = 0x80 \<and> d = 0x80
                              then 3 else 0)))"

fun has_whitespace :: "string \<Rightarrow> bool" where
  "has_whitespace [] = False"
| "has_whitespace (c # cs) = (ws_len (c # cs) > 0 \<or> has_whitespace cs)"

function trim_start :: "string \<Rightarrow> string" where
  "trim_start s = (if s \<noteq> [] \<and> ws_len s > 0 then trim_start (drop (ws_len s) s) else s)"
  by pat_completeness auto
termination
  by (relation "measure length") auto

declare trim_start.simps [simp del]

fun contains :: "string \<Rightarrow> string \<Rightarrow> bool" where
  "contains p [] = (p = [])"
| "contains p (c # cs) = (strip_prefix p (c # cs) \<noteq> None \<or> contains p cs)"

definition PNG_MAGIC :: bytes where
  "PNG_MAGIC = [0x89, 0x50, 0x4E, 0x47, 0x0d, 0x0a, 0x1a, 0x0a]"

definition meta_text_ok :: "string \<Rightarrow> nat \<Rightarrow> bool" where
  "meta_text_ok s mx \<longleftrightarrow> s \<noteq> [] \<and> length s \<le> mx \<and> \<not> has_control s"

definition svg_ok :: "bytes \<Rightarrow> unit rule" where
  "svg_ok b =
     rbind (ok_or ''TokenLogoInvalidError: SVG must be UTF-8'' (from_utf8 b)) (\<lambda>text.
     let lower = to_ascii_lowercase text; head = trim_start lower in
     rbind (ensure ((strip_prefix ''<svg'' head \<noteq> None \<or> strip_prefix ''<?xml'' head \<noteq> None)
                    \<and> contains ''<svg'' lower) ''TokenLogoInvalidError: not an SVG document'') (\<lambda>_.
     ensure (\<not> (contains ''<script'' lower \<or> contains ''javascript:'' lower
                 \<or> contains ''<foreignobject'' lower)) ''TokenLogoInvalidError: SVG must not contain scripts''))"

definition check_token_meta :: "crypto \<Rightarrow> token_meta \<Rightarrow> unit rule" where
  "check_token_meta E m =
     rbind (ensure (meta_text_ok (tm_name m) META_MAX_NAME) ''TokenMetaInvalidError: name'') (\<lambda>_.
     rbind (ensure (case tm_description m of None \<Rightarrow> True | Some d \<Rightarrow> meta_text_ok d META_MAX_DESCRIPTION)
              ''TokenMetaInvalidError: description'') (\<lambda>_.
     rbind (ensure (case tm_website m of None \<Rightarrow> True
                    | Some w \<Rightarrow> meta_text_ok w META_MAX_WEBSITE \<and> \<not> has_whitespace w)
              ''TokenMetaInvalidError: website'') (\<lambda>_.
     if tm_logo_type m = None \<and> tm_logo m = None then Inr ()
     else if (tm_logo_type m = Some ''svg'' \<or> tm_logo_type m = Some ''png'') \<and> tm_logo m \<noteq> None then
       rbind (ok_or ''TokenMetaInvalidError: logo must be base64'' (logo_bytes E m)) (\<lambda>b.
       rbind (ensure (b \<noteq> [] \<and> length b \<le> META_MAX_LOGO) ''TokenLogoTooLargeError'') (\<lambda>_.
       if tm_logo_type m = Some ''png''
       then ensure (take 8 b = PNG_MAGIC) ''TokenLogoInvalidError: not a PNG file''
       else svg_ok b))
     else Inl ''TokenMetaInvalidError: logoType must be svg|png and come together with logo'')))"

definition is_hex64 :: "string \<Rightarrow> bool" where
  "is_hex64 s \<longleftrightarrow> length s = 64 \<and> list_all is_ascii_hexdigit s"

text \<open>The match on the transaction type in \<open>check_token_format\<close>: the type's own checks and its fee.\<close>

definition token_type_fee :: "crypto \<Rightarrow> transaction \<Rightarrow> milestone \<Rightarrow> token_asset \<Rightarrow> u64 rule" where
  "token_type_fee E tx ms a =
     (let f = ms_token_fees ms; amount = unwrap_or 0 (ta_amount a) in
      if tx_type tx = TOKEN_INIT then
        (let d = unwrap_or 0 (ta_decimals a); fl = unwrap_or 0 (ta_flags a);
             init = unwrap_or 0 (ta_initial_supply a); cap = unwrap_or 0 (ta_supply_cap a) in
         rbind (ensure (d \<le> MAX_DECIMALS) ''TokenDecimalsInvalidError'') (\<lambda>_.
         rbind (ensure (fl AND NOT (FLAG_MINTABLE OR FLAG_BURNABLE OR FLAG_FROZEN_CAP) = 0)
                  ''TokenFlagsInvalidError'') (\<lambda>_.
         rbind (ensure (init \<noteq> 0 \<and> init \<le> cap) ''TokenSupplyInvalidError'') (\<lambda>_.
         rbind (ensure (\<not> (fl AND FLAG_MINTABLE = 0 \<and> init \<noteq> cap)) ''TokenSupplyInvalidError'') (\<lambda>_.
         Inr (tf_init f))))))
      else if tx_type tx = TOKEN_TRANSFER then
        (let items = unwrap_or [] (ta_transfers a) in
         rbind (ensure (items \<noteq> [] \<and> length items \<le> unat (ms_token_transfer_max_recipients ms))
                  ''TokenTransferRecipientsError'') (\<lambda>_.
         rbind (ensure (list_all (\<lambda>i. ti_amount i \<noteq> 0) items) ''TokenAmountInvalidError'') (\<lambda>_.
         rbind (ensure ((\<Sum>i\<leftarrow>items. uint (ti_amount i)) < 2 ^ 64) ''TokenAmountInvalidError'') (\<lambda>_.
         rbind (ensure (case ta_memo a of None \<Rightarrow> True | Some m \<Rightarrow> length m \<le> MAX_MEMO)
                  ''TokenMemoTooLongError'') (\<lambda>_.
         Inr (tf_transfer f + tf_transfer_per_recipient f * (word_of_nat (length items) - 1)))))))
      else if tx_type tx = TOKEN_MINT then
        rbind (ensure (amount \<noteq> 0 \<and> ta_recipient a \<noteq> None) ''TokenAmountInvalidError'') (\<lambda>_.
        Inr (tf_mint f))
      else if tx_type tx = TOKEN_META then
        rbind (ok_or ''TokenMetaInvalidError'' (ta_meta a)) (\<lambda>m.
        rbind (check_token_meta E m) (\<lambda>_. Inr (tf_meta f)))
      else if tx_type tx = TOKEN_SELL \<or> tx_type tx = TOKEN_BUY \<or> tx_type tx = TOKEN_CANCEL then
        rbind (ensure (mk_enabled (ms_token_market ms)) ''TokenTypeNotActiveError'') (\<lambda>_.
        let oid_ok = (case ta_order_id a of None \<Rightarrow> False | Some o1 \<Rightarrow> is_hex64 o1) in
        if tx_type tx = TOKEN_SELL then
          (let price = unwrap_or 0 (ta_price a) in
           rbind (ensure (amount \<noteq> 0 \<and> price \<noteq> 0) ''TokenOrderInvalidError'') (\<lambda>_.
           rbind (ensure (uint amount * uint price < 2 ^ 64) ''TokenOrderOverflowError'') (\<lambda>_.
           Inr (tf_sell f))))
        else if tx_type tx = TOKEN_BUY then
          rbind (ensure oid_ok ''TokenOrderInvalidError'') (\<lambda>_.
          rbind (ensure (amount \<noteq> 0) ''TokenOrderAmountError'') (\<lambda>_. Inr (tf_buy f)))
        else rbind (ensure oid_ok ''TokenOrderInvalidError'') (\<lambda>_. Inr (tf_cancel f)))
      else rbind (ensure (amount \<noteq> 0) ''TokenAmountInvalidError'') (\<lambda>_. Inr (tf_burn f)))"

definition check_token_format :: "crypto \<Rightarrow> transaction \<Rightarrow> milestone \<Rightarrow> token_asset rule" where
  "check_token_format E tx ms =
     rbind (ok_or ''Token: missing or malformed asset.token'' (token_asset_of tx)) (\<lambda>a.
     rbind (ensure (tx_amount tx = 0) ''Token: amount must be 0'') (\<lambda>_.
     rbind (ensure (unwrap_or [] (tx_vendor_field tx) = []) ''Token: vendorField is not allowed (use memo)'') (\<lambda>_.
     rbind (ensure (is_hex64 (ta_id a)) ''Token: id must be a 32-byte hex registration id'') (\<lambda>_.
     rbind (token_type_fee E tx ms a) (\<lambda>fee.
     rbind (ensure (tx_fee tx = fee + pq_surcharge tx (pq_fee_per_byte (ms_pq ms)))
              ''StaticFeeMismatchError'') (\<lambda>_. Inr a))))))"

record token_view =
  tv_token_owner :: "string \<Rightarrow> string option"
  tv_token_state :: "string \<Rightarrow> token_state option"
  tv_token_balance :: "string \<Rightarrow> string \<Rightarrow> u64"
  tv_ticker_sobj :: "string \<Rightarrow> (string \<times> string \<times> bool) option"
  tv_order :: "string \<Rightarrow> token_order option"
  tv_open_orders :: "string \<Rightarrow> string \<Rightarrow> nat"

definition token_buy_total :: "transaction \<Rightarrow> token_view \<Rightarrow> u64" where
  "token_buy_total tx view =
     (if tx_type_group tx \<noteq> TYPE_GROUP_TOKEN \<or> tx_type tx \<noteq> TOKEN_BUY then 0
      else case token_asset_of tx of None \<Rightarrow> 0
        | Some a \<Rightarrow>
            (case (case ta_order_id a of None \<Rightarrow> None | Some i \<Rightarrow> tv_order view i) of None \<Rightarrow> 0
             | Some o1 \<Rightarrow> saturating_mul (unwrap_or 0 (ta_amount a)) (od_price o1)))"

definition MAX_OPEN_ORDERS :: nat where "MAX_OPEN_ORDERS = 64"

definition check_token :: "transaction \<Rightarrow> token_asset \<Rightarrow> string \<Rightarrow> token_view \<Rightarrow> unit rule" where
  "check_token tx a sender view =
     (let amount = unwrap_or 0 (ta_amount a); ty = tx_type tx in
      if ty = TOKEN_SELL then
        rbind (ok_or ''TokenNotFoundError'' (tv_token_state view (ta_id a))) (\<lambda>_.
        rbind (ensure (amount \<le> tv_token_balance view sender (ta_id a)) ''TokenInsufficientBalanceError'') (\<lambda>_.
        ensure (tv_open_orders view sender (ta_id a) < MAX_OPEN_ORDERS) ''TokenTooManyOrdersError''))
      else if ty = TOKEN_BUY \<or> ty = TOKEN_CANCEL then
        rbind (ok_or ''TokenOrderNotFoundError'' (tv_order view (unwrap_or [] (ta_order_id a)))) (\<lambda>order.
        rbind (ensure (order_is_open order) ''TokenOrderClosedError'') (\<lambda>_.
        rbind (ensure (od_token_id order = ta_id a) ''TokenOrderMismatchError'') (\<lambda>_.
        if ty = TOKEN_BUY then
          rbind (ensure (od_seller order \<noteq> sender) ''TokenOrderSelfTradeError'') (\<lambda>_.
          ensure (amount \<noteq> 0 \<and> amount \<le> order_remaining order) ''TokenOrderAmountError'')
        else ensure (od_seller order = sender) ''TokenOrderNotOwnerError'')))
      else if ty = TOKEN_INIT then
        rbind (ok_or ''TokenSmartObjectNotFoundError'' (tv_ticker_sobj view (ta_id a))) (\<lambda>(owner, name, resigned).
        rbind (ensure (\<not> resigned) ''TokenSmartObjectResignedError'') (\<lambda>_.
        rbind (ensure (owner = sender) ''TokenNotSmartObjectOwnerError'') (\<lambda>_.
        rbind (ensure (ticker_ok name) ''TokenSymbolInvalidError'') (\<lambda>_.
        ensure (tv_token_state view (ta_id a) = None) ''TokenAlreadyInitializedError''))))
      else if ty = TOKEN_META then
        rbind (ok_or ''TokenNotFoundError'' (tv_token_state view (ta_id a))) (\<lambda>_.
        ensure (tv_token_owner view (ta_id a) = Some sender) ''TokenNotOwnerError'')
      else if ty = TOKEN_TRANSFER then
        rbind (ok_or ''TokenNotFoundError'' (tv_token_state view (ta_id a))) (\<lambda>_.
        ensure ((\<Sum>i\<leftarrow>unwrap_or [] (ta_transfers a). ti_amount i) \<le> tv_token_balance view sender (ta_id a))
          ''TokenInsufficientBalanceError'')
      else if ty = TOKEN_MINT then
        rbind (ok_or ''TokenNotFoundError'' (tv_token_state view (ta_id a))) (\<lambda>st.
        rbind (ensure (tv_token_owner view (ta_id a) = Some sender) ''TokenNotOwnerError'') (\<lambda>_.
        rbind (ensure (ts_flags st AND FLAG_MINTABLE \<noteq> 0) ''TokenNotMintableError'') (\<lambda>_.
        ensure (saturating_add (ts_supply st) amount \<le> ts_supply_cap st) ''TokenSupplyCapExceededError'')))
      else
        rbind (ok_or ''TokenNotFoundError'' (tv_token_state view (ta_id a))) (\<lambda>st.
        rbind (ensure (ts_flags st AND FLAG_BURNABLE \<noteq> 0) ''TokenNotBurnableError'') (\<lambda>_.
        ensure (amount \<le> tv_token_balance view sender (ta_id a)) ''TokenInsufficientBalanceError'')))"

section \<open>Post-quantum transactions\<close>

definition CTX :: bytes where "CTX = as_bytes ''sth-pq-v1''"
definition BLOCK_CTX :: bytes where "BLOCK_CTX = as_bytes ''sth-pq-block-v1''"
definition COMMITMENT_PREFIX :: string where "COMMITMENT_PREFIX = ''sthpq1:''"

definition verify_with_ctx :: "crypto \<Rightarrow> bytes \<Rightarrow> bytes \<Rightarrow> bytes \<Rightarrow> bytes \<Rightarrow> bool res" where
  "verify_with_ctx E pk msg sig ctx =
     (if length pk \<noteq> PK_LEN \<or> length sig \<noteq> SIG_LEN then Inr False else ml_dsa_verify E pk msg sig ctx)"

definition pq_verify :: "crypto \<Rightarrow> bytes \<Rightarrow> bytes \<Rightarrow> bytes \<Rightarrow> bool res" where
  "pq_verify E pk msg sig = verify_with_ctx E pk msg sig CTX"

definition commitment_hash :: "crypto \<Rightarrow> bytes \<Rightarrow> bytes" where
  "commitment_hash E pk = sha256 E pk"

definition commitment_for_public_key :: "crypto \<Rightarrow> bytes \<Rightarrow> string" where
  "commitment_for_public_key E pk =
     COMMITMENT_PREFIX @ ''01:'' @ hex_encode E (commitment_hash E pk)"

text \<open>\<open>u8::from_str_radix(_, 16)\<close> of two characters, compared with the only known algorithm: \<open>01\<close>, or
  the sign form \<open>+1\<close> that Rust's parser also accepts.\<close>

definition parse_commitment :: "string \<Rightarrow> (u8 \<times> string) option" where
  "parse_commitment vf =
     (case strip_prefix COMMITMENT_PREFIX vf of None \<Rightarrow> None
      | Some rest \<Rightarrow>
          (case split_once (CHR '':'') rest of None \<Rightarrow> None
           | Some (alg, hash) \<Rightarrow>
               if length alg \<noteq> 2 \<or> length hash \<noteq> 64
                  \<or> \<not> list_all (\<lambda>c. is_ascii_hexdigit c \<and> \<not> is_ascii_uppercase c) hash then None
               else if alg = ''01'' \<or> alg = ''+1'' then Some (ALG_ML_DSA_44, hash) else None))"

fun check_pq_blocks :: "crypto \<Rightarrow> u8 option \<Rightarrow> pq_signature_block list \<Rightarrow> unit rule" where
  "check_pq_blocks E prev [] = Inr ()"
| "check_pq_blocks E prev (b # bs) =
     rbind (if pb_algorithm b = 0 then Inr 64
            else if pb_algorithm b = ALG_ML_DSA_44 then Inr SIG_LEN
            else Inl ''ERR_PQ_ALGORITHM'') (\<lambda>want.
     rbind (ensure (length (pb_signature b) = want * 2 \<and> hex_decode E (pb_signature b) \<noteq> None)
              ''ERR_PQ_LENGTH'') (\<lambda>_.
     rbind (ensure (case prev of None \<Rightarrow> True | Some p \<Rightarrow> p \<le> pb_algorithm b) ''ERR_PQ_ORDER'') (\<lambda>_.
     check_pq_blocks E (Some (pb_algorithm b)) bs)))"

definition is_second_sig_tx :: "transaction \<Rightarrow> bool" where
  "is_second_sig_tx tx \<longleftrightarrow> tx_type_group tx = TYPE_GROUP_CORE \<and> tx_type tx = SECOND_SIGNATURE"

definition check_pq_format :: "crypto \<Rightarrow> transaction \<Rightarrow> milestone \<Rightarrow> unit rule" where
  "check_pq_format E tx ms =
     (if \<not> is_pq tx then Inr ()
      else
        rbind (ensure (pq_active (ms_pq ms)) ''ERR_PQ_NOT_ACTIVE'') (\<lambda>_.
        rbind (ensure (length (pq_blocks tx) \<le> 2) ''ERR_PQ_LENGTH'') (\<lambda>_.
        rbind (check_pq_blocks E None (pq_blocks tx)) (\<lambda>_.
        rbind (ensure (second_signature_any tx = None) ''ERR_PQ_LENGTH'') (\<lambda>_.
        rbind (if is_second_sig_tx tx then
                 rbind (ok_or ''ERR_PQ_ALGORITHM'' (asset_field as_signature tx)) (\<lambda>a.
                 rbind (ensure (ss_algorithm a = Some ALG_ML_DSA_44) ''ERR_PQ_ALGORITHM'') (\<lambda>_.
                 ensure (length (ss_public_key a) = PK_LEN * 2 \<and> hex_decode E (ss_public_key a) \<noteq> None)
                   ''ERR_PQ_LENGTH''))
               else Inr ()) (\<lambda>_.
        if tx_type_group tx = TYPE_GROUP_CORE
        then ensure (static_fee_for_type ms (tx_type tx) + pq_surcharge tx (pq_fee_per_byte (ms_pq ms))
                     \<le> tx_fee tx) ''ERR_PQ_FEE''
        else Inr ()))))))"

record pq_wallet_view =
  pv_second_public_key :: "string option"
  pv_pq_key :: "pq_key option"
  pv_commitment :: "pq_commitment option"

text \<open>The closure \<open>ok\<close> of \<open>check_pq\<close>.\<close>

definition pq_block_ok :: "crypto \<Rightarrow> bytes \<Rightarrow> pq_signature_block \<Rightarrow> u8 \<Rightarrow> string \<Rightarrow> bool" where
  "pq_block_ok E m2 b alg key =
     (pb_algorithm b = alg \<and>
      (if alg = 0 then verify_signature E m2 (pb_signature b) key = Inr True
       else (case (hex_decode E key, hex_decode E (pb_signature b)) of
               (Some pk, Some sig) \<Rightarrow> pq_verify E pk m2 sig = Inr True
             | _ \<Rightarrow> False)))"

definition check_pq ::
  "crypto \<Rightarrow> transaction \<Rightarrow> milestone \<Rightarrow> u64 \<Rightarrow> u64 option \<Rightarrow> pq_wallet_view \<Rightarrow> pq_key option rule" where
  "check_pq E tx ms height activation w =
     (if \<not> is_pq tx then
        (if pv_pq_key w \<noteq> None then Inl ''ERR_PQ_SECOND_SIGNATURE_REQUIRED'' else Inr None)
      else
        rbind (check_pq_format E tx ms) (\<lambda>_.
        rbind (case transaction_pq_message E tx of
                 Inl _ \<Rightarrow> Inl ''ERR_PQ_SECOND_SIGNATURE_INVALID'' | Inr m \<Rightarrow> Inr m) (\<lambda>m2.
        let blocks = pq_blocks tx in
        if is_second_sig_tx tx then
          rbind (ok_or ''ERR_PQ_ALGORITHM'' (asset_field as_signature tx)) (\<lambda>a.
          rbind (ok_or ''ERR_PQ_LENGTH'' (hex_decode E (ss_public_key a))) (\<lambda>new_pk.
          rbind (ensure (case (pv_commitment w, activation) of
                           (Some c, Some act) \<Rightarrow>
                             \<not> (height < saturating_add act (pq_commitment_grace (ms_pq ms))
                                \<and> pc_commitment c \<noteq> hex_encode E (commitment_hash E new_pk))
                         | _ \<Rightarrow> True) ''ERR_PQ_COMMITMENT_MISMATCH'') (\<lambda>_.
          let proof = (case (pv_pq_key w, pv_second_public_key w) of
                         (Some k, _) \<Rightarrow> Some (pk_algorithm k, pk_public_key k)
                       | (None, Some legacy) \<Rightarrow> Some (0, legacy)
                       | (None, None) \<Rightarrow> None);
              expected = (if proof = None then 1 else 2)
          in
          rbind (ensure (length blocks = expected)
                   (if proof = None then ''ERR_PQ_SECOND_SIGNATURE_REQUIRED''
                    else ''ERR_PQ_LEGACY_PROOF_REQUIRED'')) (\<lambda>_.
          rbind (ensure (case proof of None \<Rightarrow> True | Some (alg, key) \<Rightarrow> pq_block_ok E m2 (blocks ! 0) alg key)
                   ''ERR_PQ_LEGACY_PROOF_REQUIRED'') (\<lambda>_.
          rbind (ensure (pq_block_ok E m2 (blocks ! (expected - 1)) ALG_ML_DSA_44 (ss_public_key a))
                   ''ERR_PQ_SECOND_SIGNATURE_INVALID'') (\<lambda>_.
          Inr (Some \<lparr>pk_algorithm = ALG_ML_DSA_44, pk_public_key = ss_public_key a, pk_since = height\<rparr>)))))))
        else
          (case (pv_pq_key w, pv_second_public_key w) of
             (Some k, _) \<Rightarrow>
               rbind (ensure (length blocks = 1 \<and> pb_algorithm (blocks ! 0) = pk_algorithm k)
                        ''ERR_PQ_SECOND_SIGNATURE_REQUIRED'') (\<lambda>_.
               rbind (ensure (pq_block_ok E m2 (blocks ! 0) (pk_algorithm k) (pk_public_key k))
                        ''ERR_PQ_SECOND_SIGNATURE_INVALID'') (\<lambda>_. Inr None))
           | (None, Some legacy) \<Rightarrow>
               rbind (ensure (length blocks = 1 \<and> pq_block_ok E m2 (blocks ! 0) 0 legacy)
                        ''ERR_PQ_SECOND_SIGNATURE_INVALID'') (\<lambda>_. Inr None)
           | (None, None) \<Rightarrow>
               rbind (ensure (blocks = []) ''UnexpectedSecondSignatureError'') (\<lambda>_. Inr None)))))"

section \<open>The second factor\<close>

text \<open>A transaction carries the second factor of a wallet: the post-quantum key when one is registered,
  else the legacy second key, else nothing.\<close>

definition second_factor_ok :: "crypto \<Rightarrow> transaction \<Rightarrow> pq_wallet_view \<Rightarrow> bool" where
  "second_factor_ok E tx w =
     (case (pv_pq_key w, pv_second_public_key w) of
        (Some k, _) \<Rightarrow>
          is_pq tx \<and> pq_blocks tx \<noteq> [] \<and>
          (\<exists>m2. transaction_pq_message E tx = Inr m2
             \<and> pq_block_ok E m2 (hd (pq_blocks tx)) (pk_algorithm k) (pk_public_key k))
      | (None, Some pk) \<Rightarrow>
          if is_pq tx then
            pq_blocks tx \<noteq> [] \<and>
            (\<exists>m2. transaction_pq_message E tx = Inr m2 \<and> pq_block_ok E m2 (hd (pq_blocks tx)) 0 pk)
          else verify_transaction_second_signature E tx pk = Inr True
      | (None, None) \<Rightarrow>
          second_signature_any tx = None \<and> (is_pq tx \<longrightarrow> is_second_sig_tx tx \<or> pq_blocks tx = []))"

lemma check_pq_format_no_legacy:
  "is_pq tx \<Longrightarrow> check_pq_format E tx ms = Inr u \<Longrightarrow> second_signature_any tx = None"
  by (auto simp: check_pq_format_def rbind_eq_Inr)

lemma check_pq_factor:
  assumes "is_pq tx" and "check_pq E tx ms height act w = Inr r"
  shows "second_factor_ok E tx w"
proof -
  obtain m2 where m2: "transaction_pq_message E tx = Inr m2"
    using assms by (auto simp: check_pq_def rbind_eq_Inr split: sum.splits)
  have fmt: "second_signature_any tx = None"
    using assms check_pq_format_no_legacy by (fastforce simp: check_pq_def rbind_eq_Inr)
  note r = assms(2) [unfolded check_pq_def] m2 assms(1)
  show ?thesis
  proof (cases "pv_pq_key w")
    case (Some k)
    with r show ?thesis
      by (cases "pq_blocks tx")
         (auto simp: second_factor_ok_def rbind_eq_Inr Let_def split: if_splits prod.splits option.splits)
  next
    case None
    with r fmt show ?thesis
      by (cases "pq_blocks tx"; cases "pv_second_public_key w")
         (auto simp: second_factor_ok_def rbind_eq_Inr Let_def split: if_splits)
  qed
qed

lemma second_factor_enforced_aux:
  assumes "check_second_signature E tx (pv_second_public_key w) = Inr u"
    and "check_pq E tx ms height act w = Inr r"
  shows "second_factor_ok E tx w"
proof (cases "is_pq tx")
  case True
  with assms(2) check_pq_factor show ?thesis by blast
next
  case False
  with assms(2) have "pv_pq_key w = None"
    by (auto simp: check_pq_def split: if_splits)
  with False assms(1) show ?thesis
    by (auto simp: second_factor_ok_def check_second_signature_def
        split: option.splits if_splits sum.splits bool.splits)
qed

section \<open>What the token rules guarantee\<close>

text \<open>The \<open>u64\<close> total that \<open>check_token\<close> compares with the balance is the exact sum of the items.\<close>

lemma sum_list_uint:
  "(\<Sum>i\<leftarrow>xs. uint (f i :: u64)) < 2 ^ 64 \<Longrightarrow> uint (\<Sum>i\<leftarrow>xs. f i) = (\<Sum>i\<leftarrow>xs. uint (f i))"
proof (induction xs)
  case (Cons x xs)
  have "0 \<le> (\<Sum>i\<leftarrow>xs. uint (f i))" by (induction xs) auto
  moreover have "(\<Sum>i\<leftarrow>xs. uint (f i)) < 2 ^ 64"
    using Cons.prems unsigned_greater_eq [where w = "f x" and 'a = int]
    by (simp only: list.map sum_list.Cons)
  ultimately show ?case using Cons by (simp add: uint_add_small)
qed simp

text \<open>What an accepted token transaction moves is covered: by the sender's balance for a sale, a
  transfer and a burn, by the cap for a mint, by the rest of the order for a purchase.\<close>

definition token_covered :: "transaction \<Rightarrow> token_asset \<Rightarrow> string \<Rightarrow> token_view \<Rightarrow> bool" where
  "token_covered tx a sender view =
     (let amount = uint (unwrap_or 0 (ta_amount a)); ty = tx_type tx;
          balance = uint (tv_token_balance view sender (ta_id a)) in
      if ty = TOKEN_SELL then 0 < amount \<and> amount \<le> balance
           \<and> amount * uint (unwrap_or 0 (ta_price a)) < 2 ^ 64
      else if ty = TOKEN_BUY then
        (case tv_order view (unwrap_or [] (ta_order_id a)) of None \<Rightarrow> False
         | Some o1 \<Rightarrow> order_is_open o1 \<and> od_token_id o1 = ta_id a \<and> od_seller o1 \<noteq> sender
             \<and> 0 < amount \<and> amount \<le> uint (order_remaining o1))
      else if ty = TOKEN_CANCEL then
        (case tv_order view (unwrap_or [] (ta_order_id a)) of None \<Rightarrow> False
         | Some o1 \<Rightarrow> order_is_open o1 \<and> od_seller o1 = sender)
      else if ty = TOKEN_INIT then
        tv_token_state view (ta_id a) = None
        \<and> 0 < uint (unwrap_or 0 (ta_initial_supply a))
        \<and> unwrap_or 0 (ta_initial_supply a) \<le> unwrap_or 0 (ta_supply_cap a)
      else if ty = TOKEN_META then tv_token_owner view (ta_id a) = Some sender
      else if ty = TOKEN_TRANSFER then
        (\<Sum>i\<leftarrow>unwrap_or [] (ta_transfers a). uint (ti_amount i)) \<le> balance
      else if ty = TOKEN_MINT then
        tv_token_owner view (ta_id a) = Some sender \<and> 0 < amount
        \<and> (case tv_token_state view (ta_id a) of None \<Rightarrow> False
           | Some st \<Rightarrow> ts_supply_cap st = u64_max \<or> uint (ts_supply st) + amount \<le> uint (ts_supply_cap st))
      else 0 < amount \<and> amount \<le> balance)"

lemma uint_pos_iff: "0 < uint (w :: 'a::len word) \<longleftrightarrow> w \<noteq> 0"
  by (metis uint_0_eq uint_ge_0 less_le uint_0_iff)

lemma saturating_add_le:
  "saturating_add a b \<le> (c :: u64) \<Longrightarrow> c = u64_max \<or> uint a + uint b \<le> uint c"
proof -
  assume "saturating_add a b \<le> c"
  then have "min (uint a + uint b) (2 ^ 64 - 1) \<le> uint c"
    by (simp add: word_le_def uint_saturating_add)
  moreover have "c = u64_max \<or> uint c < 2 ^ 64 - 1"
    using unsigned_less [where 'a = int and w = c] uint_minus_one [where 'a = 64]
    by (auto simp: u64_max_def word_uint_eq_iff)
  ultimately show ?thesis by (auto simp: min_def split: if_splits)
qed

lemma check_token_covered:
  assumes "check_token_format E tx ms = Inr a" and "check_token tx a sender view = Inr u"
  shows "token_covered tx a sender view"
proof -
  obtain fee where fee: "token_type_fee E tx ms a = Inr fee"
    using assms(1) by (auto simp: check_token_format_def rbind_eq_Inr)
  consider (transfer) "tx_type tx = TOKEN_TRANSFER" | (mint) "tx_type tx = TOKEN_MINT"
    | (market) "tx_type tx = TOKEN_SELL \<or> tx_type tx = TOKEN_BUY \<or> tx_type tx = TOKEN_CANCEL"
    | (rest) "tx_type tx \<noteq> TOKEN_TRANSFER" "tx_type tx \<noteq> TOKEN_MINT" "tx_type tx \<noteq> TOKEN_SELL"
        "tx_type tx \<noteq> TOKEN_BUY" "tx_type tx \<noteq> TOKEN_CANCEL" by blast
  then show ?thesis
  proof cases
    case transfer
    then have "(\<Sum>i\<leftarrow>unwrap_or [] (ta_transfers a). uint (ti_amount i)) < 2 ^ 64"
      using fee by (simp add: token_type_fee_def rbind_eq_Inr Let_def)
    from sum_list_uint [OF this] transfer assms(2) show ?thesis
      by (auto simp: check_token_def token_covered_def rbind_eq_Inr Let_def word_le_def)
  next
    case mint
    with fee assms(2) show ?thesis
      by (auto simp: token_type_fee_def check_token_def token_covered_def rbind_eq_Inr Let_def
          uint_pos_iff dest: saturating_add_le)
  next
    case market
    with fee assms(2) show ?thesis
      by (auto simp: token_type_fee_def check_token_def token_covered_def rbind_eq_Inr Let_def
          uint_pos_iff word_le_def split: if_splits option.splits)
  next
    case rest
    with fee assms(2) show ?thesis
      by (auto simp: token_type_fee_def check_token_def token_covered_def rbind_eq_Inr Let_def
          uint_pos_iff word_le_def split: if_splits option.splits)
  qed
qed

section \<open>Properties\<close>

text \<open>C14. The second factor is enforced: when both rules accept a transaction, a wallet with a registered
  post-quantum key only ever sends version-3 transactions whose first block is a valid signature of
  that key; a wallet with a legacy second key has a valid signature of it (as second signature, or
  as the algorithm-0 block of a version-3 transaction); and a wallet with neither carries no second
  signature at all.\<close>

theorem second_factor_enforced:
  assumes "check_second_signature E tx (pv_second_public_key w) = Inr ()"
    and "check_pq E tx ms height act w = Inr r"
  shows "second_factor_ok E tx w"
  using assms by (rule second_factor_enforced_aux)

definition lax_crypto :: crypto where
  "lax_crypto = ref_crypto\<lparr>verify_schnorr_legacy := (\<lambda>h s pk. Inr (pk = ref_key))\<rparr>"

definition ref_locked_view :: pq_wallet_view where
  "ref_locked_view = \<lparr>pv_second_public_key = Some ref_key, pv_pq_key = None, pv_commitment = None\<rparr>"

lemma ref_second_verifies:
  "verify_transaction_second_signature lax_crypto (ref_transfer\<lparr>tx_second_signature := Some ref_sig\<rparr>) ref_key
     = Inr True"
proof -
  have h: "hex_decode lax_crypto ref_key = Some (unhex ref_crypto ref_key)"
    "hex_decode lax_crypto ref_sig = Some (unhex ref_crypto ref_sig)"
    "length (unhex ref_crypto ref_sig) = 64"
    using ref_fields(1,2) hex_fieldD by (simp_all add: lax_crypto_def)
  have a: "bs58check_decode lax_crypto ref_address = Some (unaddr ref_crypto ref_address)"
    "length (unaddr ref_crypto ref_address) = 21"
    using ref_fields(3) addr_fieldD by (simp_all add: lax_crypto_def)
  show ?thesis
    using h a
    by (simp add: verify_transaction_second_signature_def second_signature_any_def
        serialize_transaction_def serialize_vendor_field_def serialize_type_payload_def
        serialize_core_def serialize_signatures_def ref_transfer_def has_vendor_field_def is_sobj_def
        is_token_def is_pq_def VERSION_PQ_def write_recipient_def write_address_def
        address_to_bytes_def opt_hex_def w_hex_def verify_signature_def)
       (simp add: lax_crypto_def)
qed

theorem second_factor_enforced_witness:
  "second_factor_ok lax_crypto (ref_transfer\<lparr>tx_second_signature := Some ref_sig\<rparr>) ref_locked_view"
proof (rule second_factor_enforced)
  show "check_second_signature lax_crypto (ref_transfer\<lparr>tx_second_signature := Some ref_sig\<rparr>)
      (pv_second_public_key ref_locked_view) = Inr ()"
    using ref_second_verifies
    by (simp add: check_second_signature_def ref_locked_view_def is_pq_def ref_transfer_def VERSION_PQ_def)
  show "check_pq lax_crypto (ref_transfer\<lparr>tx_second_signature := Some ref_sig\<rparr>) milestone_default 1 None
      ref_locked_view = Inr None"
    by (simp add: check_pq_def ref_locked_view_def is_pq_def ref_transfer_def VERSION_PQ_def)
qed

text \<open>An accepted token transaction is covered: a sale, a transfer and a burn by the sender's balance
  (with the exact sum of all transfer items, no wrap-around), a purchase by the rest of an open
  order of another seller for the same token, a cancellation by ownership, an initialisation by
  \<open>0 < initial \<le> cap\<close> of a token that does not exist yet, and a mint by the supply cap unless the cap
  is the largest \<open>u64\<close>.\<close>

theorem token_rules_cover:
  assumes "check_token_format E tx ms = Inr a" and "check_token tx a sender view = Inr ()"
  shows "token_covered tx a sender view"
  using assms by (rule check_token_covered)

definition ref_token_id :: string where "ref_token_id = replicate 64 (CHR ''a'')"

definition ref_token_state :: token_state where
  "ref_token_state = \<lparr>ts_symbol = ''TKN'', ts_decimals = 0, ts_flags = 3, ts_supply = u64_max - 1,
     ts_supply_cap = u64_max, ts_owner = ''alice'', ts_init_height = 5, ts_meta = None\<rparr>"

definition ref_view :: token_view where
  "ref_view = \<lparr>tv_token_owner = (\<lambda>_. Some ''alice''), tv_token_state = (\<lambda>_. Some ref_token_state),
     tv_token_balance = (\<lambda>_ _. 100), tv_ticker_sobj = (\<lambda>_. None), tv_order = (\<lambda>_. None),
     tv_open_orders = (\<lambda>_ _. 0)\<rparr>"

definition ref_token_tx :: "u16 \<Rightarrow> u64 \<Rightarrow> token_asset \<Rightarrow> transaction" where
  "ref_token_tx ty fee a = ref_transfer\<lparr>tx_type_group := 3, tx_type := ty, tx_fee := fee, tx_amount := 0,
     tx_vendor_field := None, tx_asset := Some (asset_default\<lparr>as_token := Some a\<rparr>)\<rparr>"

definition ref_burn :: token_asset where
  "ref_burn = token_asset_default\<lparr>ta_id := ref_token_id, ta_amount := Some 40\<rparr>"

definition ref_mint :: token_asset where
  "ref_mint = token_asset_default\<lparr>ta_id := ref_token_id, ta_amount := Some 5, ta_recipient := Some ''bob''\<rparr>"

lemma ref_token_id_hex: "is_hex64 ref_token_id"
  by (simp add: is_hex64_def ref_token_id_def list_all_iff is_ascii_hexdigit_def)

lemmas ref_token_defs = check_token_format_def token_asset_of_def is_token_def asset_field_def
  ref_token_tx_def token_type_fee_def pq_surcharge_def is_pq_def VERSION_PQ_def ref_transfer_def
  asset_default_def token_asset_default_def milestone_default_def token_fees_default_def

theorem token_rules_cover_witness:
  "token_covered (ref_token_tx TOKEN_BURN 10000000 ref_burn) ref_burn ''alice'' ref_view"
proof (rule token_rules_cover)
  show "check_token_format ref_crypto (ref_token_tx TOKEN_BURN 10000000 ref_burn) milestone_default = Inr ref_burn"
    using ref_token_id_hex by (simp add: ref_token_defs ref_burn_def)
  show "check_token (ref_token_tx TOKEN_BURN 10000000 ref_burn) ref_burn ''alice'' ref_view = Inr ()"
    by (simp add: check_token_def ref_token_tx_def ref_view_def ref_token_state_def ref_burn_def
        token_asset_default_def Let_def)
qed

text \<open>A gap of the mint rule: the cap is compared with a saturating sum, so a token whose cap is the
  largest \<open>u64\<close> accepts a mint that takes the supply past 64 bits; both rules accept it, and the
  application of the block then fails with \<open>supply out of range\<close>.\<close>

theorem mint_past_u64_accepted:
  "\<exists>tx a st view. check_token_format ref_crypto tx milestone_default = Inr a
     \<and> check_token tx a ''alice'' view = Inr () \<and> tx_type tx = TOKEN_MINT
     \<and> tv_token_state view (ta_id a) = Some st
     \<and> apply_supply (ta_id a, uint (unwrap_or 0 (ta_amount a))) [(ta_id a, st)]
         = Inl (Sync ''token supply out of range'')"
proof (intro exI conjI)
  let ?tx = "ref_token_tx TOKEN_MINT 100000000 ref_mint"
  show "check_token_format ref_crypto ?tx milestone_default = Inr ref_mint"
    using ref_token_id_hex by (simp add: ref_token_defs ref_mint_def)
  show "check_token ?tx ref_mint ''alice'' ref_view = Inr ()"
    by (simp add: check_token_def ref_token_tx_def ref_view_def ref_token_state_def ref_mint_def
        token_asset_default_def Let_def saturating_add_def u64_max_def)
  show "tx_type ?tx = TOKEN_MINT" by (simp add: ref_token_tx_def)
  show "tv_token_state ref_view (ta_id ref_mint) = Some ref_token_state" by (simp add: ref_view_def)
  have "uint (u64_max - 1) = 2 ^ 64 - 2" by (simp add: u64_max_def)
  then show "apply_supply (ta_id ref_mint, uint (unwrap_or 0 (ta_amount ref_mint)))
      [(ta_id ref_mint, ref_token_state)] = Inl (Sync ''token supply out of range'')"
    by (simp add: apply_supply_def ref_token_state_def ref_mint_def token_asset_default_def u64_range_def Let_def)
qed

end
