(* ===== verification/BlockCodec.thy ===== *)
theory BlockCodec
  imports Rules
begin

text \<open>
  Block headers and full blocks: \<open>src/src/crypto/block_serializer.rs\<close>, \<open>block_deserializer.rs\<close> and the
  on-disk framing of \<open>src/src/storage.rs\<close> (\<open>encode_block\<close>, \<open>next_frame\<close>, \<open>decode_block\<close>), with the block
  verification of the consensus rules. The clock reading is the argument \<open>now\<close>.
\<close>

section \<open>Header serialization\<close>

definition serialize_block_parts :: "crypto \<Rightarrow> block \<Rightarrow> bool \<Rightarrow> bool \<Rightarrow> bytes res" where
  "serialize_block_parts E b include_signature include_pq =
     (if length (b_previous_block b) \<noteq> 64
      then Inl (ser_err ''previousBlock must be a 64-char sha256 hex'')
      else
        rbind (w_hex E (b_previous_block b)) (\<lambda>prev.
        rbind (w_hex E (b_payload_hash b)) (\<lambda>ph.
        rbind (w_hex E (b_generator_public_key b)) (\<lambda>gpk.
        rbind (opt_hex E (\<not> include_signature) (b_block_signature b)) (\<lambda>sig.
        rbind (if include_pq \<and> b_version b \<ge> BLOCK_VERSION_PQ then
                 (case b_pq_signature b of None \<Rightarrow> Inr []
                  | Some pq \<Rightarrow> rbind (w_hex E (pb_signature pq)) (\<lambda>s. Inr (pb_algorithm pq # w_var16 s)))
               else Inr []) (\<lambda>pqs.
        Inr (u32_le (b_version b) @ u32_le (b_timestamp b) @ u32_le (ucast (b_height b)) @ prev
             @ u32_le (b_number_of_transactions b) @ u64_le (b_total_amount b) @ u64_le (b_total_fee b)
             @ u64_le (b_reward b) @ u32_le (b_payload_length b) @ ph @ gpk @ sig @ pqs)))))))"

definition serialize_block :: "crypto \<Rightarrow> block \<Rightarrow> bool \<Rightarrow> bytes res" where
  "serialize_block E b include_signature = serialize_block_parts E b include_signature include_signature"

definition block_pq_message :: "crypto \<Rightarrow> block \<Rightarrow> bytes res" where
  "block_pq_message E b = rbind (serialize_block_parts E b True False) (\<lambda>x. Inr (sha256 E x))"

definition verify_block_pq_signature :: "crypto \<Rightarrow> block \<Rightarrow> string \<Rightarrow> bool res" where
  "verify_block_pq_signature E b pk =
     (case b_pq_signature b of None \<Rightarrow> Inr False
      | Some pq \<Rightarrow>
          if pb_algorithm pq \<noteq> ALG_ML_DSA_44 then Inr False
          else
            rbind (ok_or Hex (hex_decode E pk)) (\<lambda>k.
            rbind (block_pq_message E b) (\<lambda>m.
            rbind (ok_or Hex (hex_decode E (pb_signature pq))) (\<lambda>s.
            verify_with_ctx E k m s BLOCK_CTX))))"

definition u32_len :: "'a list \<Rightarrow> u32" where "u32_len xs = word_of_nat (length xs)"

definition serialize_block_with_transactions :: "crypto \<Rightarrow> block \<Rightarrow> network \<Rightarrow> bytes res" where
  "serialize_block_with_transactions E b n =
     rbind (serialize_block E b True) (\<lambda>out.
     rbind (rfold (\<lambda>tx acc. rbind (serialize_transaction E tx opts_default (nw_pubkey_hash n))
                              (\<lambda>x. Inr (acc @ [x]))) (b_transactions b) []) (\<lambda>bodies.
     Inr (out @ concat (map (\<lambda>x. u32_le (u32_len x)) bodies) @ concat bodies)))"

definition block_id :: "crypto \<Rightarrow> block \<Rightarrow> string res" where
  "block_id E b = rbind (serialize_block E b True) (\<lambda>x. Inr (hex_encode E (sha256 E x)))"

definition block_signing_hash :: "crypto \<Rightarrow> block \<Rightarrow> bytes res" where
  "block_signing_hash E b = rbind (serialize_block E b False) (\<lambda>x. Inr (sha256 E x))"

definition verify_block_signature :: "crypto \<Rightarrow> block \<Rightarrow> bool res" where
  "verify_block_signature E b =
     rbind (ok_or Signature (b_block_signature b)) (\<lambda>sig.
     rbind (block_signing_hash E b) (\<lambda>h.
     rbind (ok_or Hex (hex_decode E sig)) (\<lambda>s.
     verify_ecdsa E h s (b_generator_public_key b))))"

definition block_payload_hash :: "crypto \<Rightarrow> block \<Rightarrow> string res" where
  "block_payload_hash E b =
     (let txs = (if list_all (\<lambda>tx. tx_sequence tx \<noteq> None) (b_transactions b)
                 then sort_key (\<lambda>tx. unwrap_or 0 (tx_sequence tx)) (b_transactions b)
                 else b_transactions b)
      in rbind (rfold (\<lambda>tx acc.
                  rbind (case tx_id tx of Some i \<Rightarrow> Inr i | None \<Rightarrow> transaction_id E tx) (\<lambda>i.
                  rbind (ok_or Hex (hex_decode E i)) (\<lambda>raw. Inr (acc @ raw)))) txs []) (\<lambda>ids.
         Inr (hex_encode E (sha256 E ids))))"

section \<open>Header parsing\<close>

definition parse_header :: "crypto \<Rightarrow> bytes \<Rightarrow> network \<Rightarrow> bool \<Rightarrow> (block \<times> nat) res" where
  "parse_header E bs n strict =
     rbind (r_u32_le (reader_new bs)) (\<lambda>(version, r). rbind (r_u32_le r) (\<lambda>(timestamp, r).
     rbind (r_u32_le r) (\<lambda>(h32, r). rbind (r_hex E 32 r) (\<lambda>(prev, r).
     rbind (r_u32_le r) (\<lambda>(ntx, r). rbind (r_u64_le r) (\<lambda>(amount, r).
     rbind (r_u64_le r) (\<lambda>(fee, r). rbind (r_u64_le r) (\<lambda>(reward, r).
     rbind (r_u32_le r) (\<lambda>(plen, r). rbind (r_hex E 32 r) (\<lambda>(ph, r).
     rbind (r_hex E 33 r) (\<lambda>(gpk, r).
     rbind (if remaining r \<ge> 2
            then rbind (ok_or (ser_err ''truncated block signature'')
                          (map_option (\<lambda>l. unat l + 2) (peek_u8 1 r))) (\<lambda>len.
                 rbind (r_hex E len r) (\<lambda>(s, r). Inr (Some s, r)))
            else Inr (None, r)) (\<lambda>(sig, r).
     rbind (if version \<ge> BLOCK_VERSION_PQ \<and> remaining r \<ge> 3
            then rbind (r_u8 r) (\<lambda>(alg, r). rbind (r_u16_le r) (\<lambda>(len, r).
                 rbind (r_hex E (unat len) r) (\<lambda>(s, r).
                 Inr (Some \<lparr>pb_algorithm = alg, pb_signature = s\<rparr>, r))))
            else Inr (None, r)) (\<lambda>(pq, r).
     if strict \<and> remaining r > 0 then Inl (ser_err ''unexpected trailing bytes after header'')
     else
       (let b = \<lparr>b_id = None, b_version = version, b_timestamp = timestamp, b_previous_block = prev,
                 b_height = ucast h32, b_number_of_transactions = ntx, b_total_amount = amount,
                 b_total_fee = fee, b_reward = reward, b_payload_length = plen, b_payload_hash = ph,
                 b_generator_public_key = gpk, b_block_signature = sig, b_pq_signature = pq,
                 b_transactions = []\<rparr>
        in rbind (if b_height b = 1 then Inr (nw_genesis_block_id n) else block_id E b) (\<lambda>i.
           Inr (b\<lparr>b_id := Some i\<rparr>, length bs - remaining r))))))))))))))))"

definition deserialize_block_header :: "crypto \<Rightarrow> bytes \<Rightarrow> network \<Rightarrow> block res" where
  "deserialize_block_header E bs n = rbind (parse_header E bs n True) (\<lambda>(b, _). Inr b)"

definition deserialize_block_header_prefix :: "crypto \<Rightarrow> bytes \<Rightarrow> network \<Rightarrow> (block \<times> nat) res" where
  "deserialize_block_header_prefix E bs n = parse_header E bs n False"

section \<open>Block records on disk\<close>

definition store_err :: "string \<Rightarrow> error" where "store_err m = StorageErr m"

definition frame :: "bytes \<Rightarrow> bytes" where
  "frame x = u32_le (u32_len x) @ x"

definition encode_block :: "crypto \<Rightarrow> block \<Rightarrow> network \<Rightarrow> bytes res" where
  "encode_block E b n =
     rbind (serialize_block E b True) (\<lambda>header.
     rfold (\<lambda>tx out. rbind (serialize_transaction E tx opts_default (nw_pubkey_hash n)) (\<lambda>x.
              Inr (out @ frame x))) (b_transactions b) (frame header))"

definition next_frame :: "bytes \<Rightarrow> nat \<Rightarrow> (bytes \<times> nat) option res" where
  "next_frame bs pos =
     (if pos = length bs then Inr None
      else if length bs < pos + 4 then Inl (store_err ''corrupt block record'')
      else (let len = of_le (take 4 (drop pos bs))
            in if length bs < pos + 4 + len then Inl (store_err ''truncated block record'')
               else Inr (Some (take len (drop (pos + 4) bs), pos + 4 + len))))"

lemma next_frame_bounds:
  "next_frame bs pos = Inr (Some (chunk, pos')) \<Longrightarrow> pos < pos' \<and> pos' \<le> length bs"
  by (auto simp: next_frame_def Let_def split: if_splits)

text \<open>The \<open>while let Some(raw) = next_frame(..)?\<close> loop, with the sequence number counted along.\<close>

function decode_txs ::
  "crypto \<Rightarrow> bytes \<Rightarrow> nat \<Rightarrow> u32 \<Rightarrow> block \<Rightarrow> block res" where
  "decode_txs E bs pos seq b =
     (case next_frame bs pos of
        Inl e \<Rightarrow> Inl e
      | Inr None \<Rightarrow> Inr b
      | Inr (Some (raw, pos')) \<Rightarrow>
          (case deserialize_transaction E raw of
             Inl e \<Rightarrow> Inl e
           | Inr tx \<Rightarrow>
               decode_txs E bs pos' (seq + 1)
                 (b\<lparr>b_transactions := b_transactions b @
                     [tx\<lparr>tx_block_id := b_id b, tx_block_height := Some (b_height b),
                         tx_sequence := Some seq\<rparr>]\<rparr>)))"
  by pat_completeness auto
termination
  by (relation "measure (\<lambda>(E, bs, pos, seq, b). length bs - pos)") (auto dest: next_frame_bounds)

declare decode_txs.simps [simp del]

definition decode_block :: "crypto \<Rightarrow> bytes \<Rightarrow> network \<Rightarrow> block res" where
  "decode_block E bs n =
     rbind (next_frame bs 0) (\<lambda>f.
     rbind (ok_or (store_err ''empty block record'') f) (\<lambda>(header, pos).
     rbind (deserialize_block_header E header n) (\<lambda>b. decode_txs E bs pos 0 b)))"

section \<open>Block verification\<close>

definition check_transaction :: "crypto \<Rightarrow> transaction \<Rightarrow> string option" where
  "check_transaction E tx =
     (case tx_id tx of None \<Rightarrow> None
      | Some i \<Rightarrow>
          (case transaction_id E tx of
             Inl _ \<Rightarrow> Some ''Cannot serialise transaction''
           | Inr computed \<Rightarrow>
               if computed \<noteq> i then Some ''Invalid transaction id''
               else (case verify_transaction_signature E tx of
                       Inr True \<Rightarrow> None
                     | Inr False \<Rightarrow> Some ''Invalid transaction signature''
                     | Inl _ \<Rightarrow> Some ''Cannot verify transaction'')))"

text \<open>The first transaction loop: ids, duplicates, expirations and the \<open>u128\<close> totals.\<close>

fun tx_scan :: "u64 \<Rightarrow> transaction list \<Rightarrow> string list \<Rightarrow> string list \<times> int \<times> int" where
  "tx_scan height [] seen = ([], 0, 0)"
| "tx_scan height (tx # txs) seen =
     (case tx_id tx of
        None \<Rightarrow> (let (es, a, f) = tx_scan height txs seen in (''Transaction without id'' # es, a, f))
      | Some i \<Rightarrow>
          (let (es, a, f) = tx_scan height txs (i # seen) in
           ((if i \<in> set seen then [''Encountered duplicate transaction''] else [])
            @ (case tx_expiration tx of None \<Rightarrow> []
               | Some e \<Rightarrow> if e > 0 \<and> ucast e \<le> height then [''Encountered expired transaction''] else [])
            @ es, uint (tx_amount tx) + a, uint (tx_fee tx) + f)))"

definition rule_errors :: "'a rule \<Rightarrow> string list" where
  "rule_errors m = (case m of Inl e \<Rightarrow> [e] | Inr _ \<Rightarrow> [])"

definition tx_format_errors :: "crypto \<Rightarrow> milestone \<Rightarrow> transaction \<Rightarrow> string list" where
  "tx_format_errors E ms tx =
     rule_errors (check_pq_format E tx ms)
     @ (if tx_type_group tx = TYPE_GROUP_CORE then []
        else if is_token tx then
          (if \<not> ms_tokens ms then [''Token transaction before tokens activation'']
           else rule_errors (check_token_format E tx ms))
        else if \<not> is_sobj tx then [''Unsupported transaction typeGroup'']
        else if \<not> ms_sobj_active ms then [''SmartObject transaction before sobj activation'']
        else rule_errors (check_sobj_format E tx ms))"

definition block_pq_errors :: "block \<Rightarrow> string list" where
  "block_pq_errors b =
     (if b_version b = BLOCK_VERSION_PQ then
        (case b_pq_signature b of
           None \<Rightarrow> [''BlockPqSignatureMissingError'']
         | Some pq \<Rightarrow>
             if pb_algorithm pq \<noteq> ALG_ML_DSA_44 then [''Unknown pqSignature algorithm'']
             else if length (pb_signature pq) \<noteq> SIG_LEN * 2 then [''Invalid pqSignature length'']
             else [])
      else if b_pq_signature b \<noteq> None then [''pqSignature is only valid on version 1 blocks''] else [])"

definition version_ok :: "network \<Rightarrow> block \<Rightarrow> bool" where
  "version_ok n b =
     (let (v1_ok, v0_ok) = block_versions_allowed n (b_height b) in
      if b_version b = BLOCK_VERSION_PQ then v1_ok
      else v0_ok \<and> b_version b = block_version (milestone_at n (b_height b)))"

definition version_errors :: "network \<Rightarrow> block \<Rightarrow> string list" where
  "version_errors n b =
     (if version_ok n b then []
      else if b_version b = 0 \<and> fst (block_versions_allowed n (b_height b))
      then [''BlockPqRequiredError''] else [''Invalid block version''])"

definition err_if :: "bool \<Rightarrow> string \<Rightarrow> string list" where
  "err_if c e = (if c then [e] else [])"

definition verify_block :: "crypto \<Rightarrow> block \<Rightarrow> network \<Rightarrow> u32 \<Rightarrow> string list" where
  "verify_block E b n now =
     (let ms = milestone_at n (b_height b);
          count = u32_len (b_transactions b);
          (scan, amount, fee) = tx_scan (b_height b) (b_transactions b) []
      in err_if (b_height b \<noteq> 1 \<and> b_previous_block b = []) ''Invalid previous block''
       @ err_if (b_reward b \<noteq> ms_reward ms) ''Invalid block reward''
       @ err_if (verify_block_signature E b \<noteq> Inr True) ''Failed to verify block signature''
       @ version_errors n b
       @ block_pq_errors b
       @ err_if (b_timestamp b > now + ms_blocktime ms) ''Invalid block timestamp''
       @ err_if (count \<noteq> b_number_of_transactions b) ''Invalid number of transactions''
       @ err_if (b_height b > 1 \<and> count > max_transactions ms) ''Transactions length is too high''
       @ (case b_id b of None \<Rightarrow> []
          | Some i \<Rightarrow>
              (case block_id E b of
                 Inr computed \<Rightarrow> err_if (b_height b \<noteq> 1 \<and> computed \<noteq> i) ''Invalid block id''
               | Inl _ \<Rightarrow> [''Cannot compute block id'']))
       @ scan
       @ List.map_filter (check_transaction E) (b_transactions b)
       @ concat (map (tx_format_errors E ms) (b_transactions b))
       @ err_if (amount \<noteq> uint (b_total_amount b)) ''Invalid total amount''
       @ err_if (fee \<noteq> uint (b_total_fee b)) ''Invalid total fee''
       @ (if b_height b = 1
          then err_if (b_payload_hash b \<noteq> nw_nethash n) ''Genesis payload hash''
          else (case block_payload_hash E b of
                  Inr h \<Rightarrow> err_if (h \<noteq> b_payload_hash b) ''Invalid payload hash''
                | Inl _ \<Rightarrow> [''Cannot compute payload hash''])))"

definition verified :: "crypto \<Rightarrow> block \<Rightarrow> network \<Rightarrow> u32 \<Rightarrow> bool" where
  "verified E b n now = (verify_block E b n now = [])"

section \<open>Header round trip\<close>

definition canonical_header :: "crypto \<Rightarrow> block \<Rightarrow> bool" where
  "canonical_header E b =
     (length (b_previous_block b) = 64 \<and> hex_field E 32 (b_previous_block b)
      \<and> hex_field E 32 (b_payload_hash b) \<and> hex_field E 33 (b_generator_public_key b)
      \<and> unat (b_height b) < 2 ^ 32 \<and> opt_all (der_field E) (b_block_signature b)
      \<and> opt_all (\<lambda>pq. b_version b \<ge> BLOCK_VERSION_PQ \<and> b_block_signature b \<noteq> None
            \<and> hex_field E (length (unhex E (pb_signature pq))) (pb_signature pq)
            \<and> length (unhex E (pb_signature pq)) \<le> 65535) (b_pq_signature b))"

definition pq_part :: "crypto \<Rightarrow> pq_signature_block option \<Rightarrow> bytes" where
  "pq_part E m = (case m of None \<Rightarrow> [] | Some pq \<Rightarrow> pb_algorithm pq # w_var16 (unhex E (pb_signature pq)))"

definition header_bytes :: "crypto \<Rightarrow> block \<Rightarrow> bytes" where
  "header_bytes E b =
     u32_le (b_version b) @ u32_le (b_timestamp b) @ u32_le (ucast (b_height b))
     @ unhex E (b_previous_block b) @ u32_le (b_number_of_transactions b) @ u64_le (b_total_amount b)
     @ u64_le (b_total_fee b) @ u64_le (b_reward b) @ u32_le (b_payload_length b)
     @ unhex E (b_payload_hash b) @ unhex E (b_generator_public_key b)
     @ opt_unhex E (b_block_signature b) @ pq_part E (b_pq_signature b)"

lemma serialize_canonical_header:
  assumes "canonical_header E b"
  shows "serialize_block E b True = Inr (header_bytes E b)"
proof -
  have sig: "opt_hex E False (b_block_signature b) = Inr (opt_unhex E (b_block_signature b))"
    using assms by (cases "b_block_signature b")
      (auto simp: canonical_header_def opt_hex_def opt_unhex_def der_field_def Let_def w_hex_field)
  have h: "w_hex E (b_previous_block b) = Inr (unhex E (b_previous_block b))"
    "w_hex E (b_payload_hash b) = Inr (unhex E (b_payload_hash b))"
    "w_hex E (b_generator_public_key b) = Inr (unhex E (b_generator_public_key b))"
    "length (b_previous_block b) = 64"
    using assms by (auto simp: canonical_header_def w_hex_field)
  show ?thesis
  proof (cases "b_pq_signature b")
    case None
    then show ?thesis
      using h sig by (simp add: serialize_block_def serialize_block_parts_def header_bytes_def pq_part_def)
  next
    case (Some pq)
    then have "b_version b \<ge> BLOCK_VERSION_PQ"
      and "hex_field E (length (unhex E (pb_signature pq))) (pb_signature pq)"
      using assms by (auto simp: canonical_header_def)
    then show ?thesis
      using Some h sig w_hex_field [of E _ "pb_signature pq"]
      by (simp add: serialize_block_def serialize_block_parts_def header_bytes_def pq_part_def)
  qed
qed

lemma ucast_u32_u64: "unat (h :: u64) < 2 ^ 32 \<Longrightarrow> ucast (ucast h :: u32) = h"
  by (simp add: word_unat_eq_iff unsigned_ucast_eq unsigned_take_bit_eq take_bit_nat_eq_self)

text \<open>The signature section of a header.\<close>

lemma header_sig_read:
  assumes "canonical_header E b"
  shows "(if remaining (at p (opt_unhex E (b_block_signature b) @ pq_part E (b_pq_signature b))) \<ge> 2
      then rbind (ok_or e (map_option (\<lambda>l. unat l + 2)
             (peek_u8 1 (at p (opt_unhex E (b_block_signature b) @ pq_part E (b_pq_signature b)))))) (\<lambda>len.
           rbind (r_hex E len (at p (opt_unhex E (b_block_signature b) @ pq_part E (b_pq_signature b))))
             (\<lambda>(s, r). Inr (Some s, r)))
      else Inr (None, at p (opt_unhex E (b_block_signature b) @ pq_part E (b_pq_signature b))))
    = Inr (b_block_signature b, at (p @ opt_unhex E (b_block_signature b)) (pq_part E (b_pq_signature b)))"
proof (cases "b_block_signature b")
  case None
  then have "b_pq_signature b = None" using assms by (cases "b_pq_signature b") (auto simp: canonical_header_def)
  with None show ?thesis by (simp add: opt_unhex_def pq_part_def)
next
  case (Some s)
  then have s: "der_field E s" using assms by (simp add: canonical_header_def)
  define rest where "rest = pq_part E (b_pq_signature b)"
  have "map_option (\<lambda>l. unat l + 2) (peek_u8 1 (at p (unhex E s @ rest))) = Some (length (unhex E s))"
    using der_read(1) [OF s, of p rest] by (simp add: der_len_def)
  then obtain l where l: "peek_u8 1 (at p (unhex E s @ rest)) = Some l" "unat l + 2 = length (unhex E s)"
    by auto
  have "2 \<le> length (unhex E s)" using s by (simp add: der_field_def Let_def)
  then show ?thesis
    using Some l der_read(2) [OF s] by (simp add: opt_unhex_def rest_def [symmetric])
qed

lemma header_pq_read:
  assumes "canonical_header E b"
  shows "(if b_version b \<ge> BLOCK_VERSION_PQ \<and> remaining (at p (pq_part E (b_pq_signature b))) \<ge> 3
      then rbind (r_u8 (at p (pq_part E (b_pq_signature b)))) (\<lambda>(alg, r). rbind (r_u16_le r) (\<lambda>(len, r).
           rbind (r_hex E (unat len) r) (\<lambda>(s, r).
           Inr (Some \<lparr>pb_algorithm = alg, pb_signature = s\<rparr>, r))))
      else Inr (None, at p (pq_part E (b_pq_signature b))))
    = Inr (b_pq_signature b, at (p @ pq_part E (b_pq_signature b)) [])"
proof (cases "b_pq_signature b")
  case None
  then show ?thesis by (simp add: pq_part_def)
next
  case (Some pq)
  then have v: "b_version b \<ge> BLOCK_VERSION_PQ"
    and f: "hex_field E (length (unhex E (pb_signature pq))) (pb_signature pq)"
    and l: "length (unhex E (pb_signature pq)) \<le> 65535"
    using assms by (auto simp: canonical_header_def)
  have "r_hex E (length (unhex E (pb_signature pq))) (at q (unhex E (pb_signature pq)))
      = Inr (pb_signature pq, at (q @ unhex E (pb_signature pq)) [])" for q
    using r_hex_field [OF f, of q "[]"] by simp
  with Some v l show ?thesis
    by (simp add: pq_part_def w_var16_def r_u8_at r_int_at unat_len16)
qed

lemma parse_canonical_header:
  assumes c: "canonical_header E b"
    and i: "(if b_height b = 1 then Inr (nw_genesis_block_id n) else block_id E b) = Inr i"
  shows "deserialize_block_header E (header_bytes E b) n
           = Inr (b\<lparr>b_id := Some i, b_transactions := []\<rparr>)"
proof -
  define b0 where "b0 = b\<lparr>b_id := None, b_transactions := []\<rparr>"
  have f: "hex_field E 32 (b_previous_block b)" "hex_field E 32 (b_payload_hash b)"
    "hex_field E 33 (b_generator_public_key b)" "ucast (ucast (b_height b) :: u32) = b_height b"
    using c ucast_u32_u64 by (auto simp: canonical_header_def)
  have rebuild: "\<lparr>b_id = None, b_version = b_version b, b_timestamp = b_timestamp b,
      b_previous_block = b_previous_block b, b_height = b_height b,
      b_number_of_transactions = b_number_of_transactions b, b_total_amount = b_total_amount b,
      b_total_fee = b_total_fee b, b_reward = b_reward b, b_payload_length = b_payload_length b,
      b_payload_hash = b_payload_hash b, b_generator_public_key = b_generator_public_key b,
      b_block_signature = b_block_signature b, b_pq_signature = b_pq_signature b,
      b_transactions = []\<rparr> = b0"
    by (cases b) (simp add: b0_def)
  have "block_id E b0 = block_id E b"
    unfolding block_id_def serialize_block_def serialize_block_parts_def b0_def
    by (cases b) (simp only: block.simps cong: if_cong option.case_cong)
  then have i0: "(if b_height b0 = 1 then Inr (nw_genesis_block_id n) else block_id E b0) = Inr i"
    using i by (simp add: b0_def split: if_splits)
  show ?thesis
    unfolding deserialize_block_header_def parse_header_def header_bytes_def reader_new_at
    by (simp only: r_int_at rbind_simps prod.case r_hex_field [OF f(1)] r_hex_field [OF f(2)]
        r_hex_field [OF f(3)] header_sig_read [OF c] header_pq_read [OF c] f(4) rebuild Let_def i0)
       (simp add: b0_def)
qed

end
