(* ===== verification/BlockWire.thy ===== *)
theory BlockWire
  imports BlockCodec
begin

text \<open>
  Round trip of the stored block record and soundness of the block verification: what an accepted
  block is guaranteed to satisfy.
\<close>

section \<open>Stored records\<close>

lemma length_frame [simp]: "length (frame x) = 4 + length x"
  by (simp add: frame_def)

lemma of_le_u32_len: "length x < 2 ^ 32 \<Longrightarrow> of_le (u32_le (u32_len x)) = length x"
  by (simp add: u32_le_def of_le_le_bytes u32_len_def unat_of_nat)

lemma next_frame_at:
  assumes "length x < 2 ^ 32"
  shows "next_frame (pre @ frame x @ rest) (length pre) = Inr (Some (x, length pre + length (frame x)))"
  using of_le_u32_len [OF assms] by (simp add: next_frame_def frame_def Let_def)

lemma next_frame_end: "next_frame bs (length bs) = Inr None"
  by (simp add: next_frame_def)

fun annotate :: "block \<Rightarrow> u32 \<Rightarrow> transaction list \<Rightarrow> transaction list" where
  "annotate b seq [] = []"
| "annotate b seq (tx # txs) =
     tx\<lparr>tx_block_id := b_id b, tx_block_height := Some (b_height b), tx_sequence := Some seq\<rparr>
     # annotate b (seq + 1) txs"

lemma annotate_header [simp]:
  "annotate (b\<lparr>b_transactions := ts\<rparr>) seq txs = annotate b seq txs"
  by (induction txs arbitrary: seq) auto

lemma decode_txs_frames:
  assumes "list_all2 (\<lambda>raw tx. length raw < 2 ^ 32 \<and> deserialize_transaction E raw = Inr tx) raws txs"
  shows "decode_txs E (pre @ concat (map frame raws)) (length pre) seq b
           = Inr (b\<lparr>b_transactions := b_transactions b @ annotate b seq txs\<rparr>)"
  using assms
proof (induction raws arbitrary: pre seq b txs)
  case Nil
  then show ?case by (simp add: decode_txs.simps next_frame_end)
next
  case (Cons raw raws)
  then obtain tx txs' where txs: "txs = tx # txs'" "length raw < 2 ^ 32"
    "deserialize_transaction E raw = Inr tx"
    "list_all2 (\<lambda>raw tx. length raw < 2 ^ 32 \<and> deserialize_transaction E raw = Inr tx) raws txs'"
    by (auto simp: list_all2_Cons1)
  let ?b = "b\<lparr>b_transactions := b_transactions b @ [tx\<lparr>tx_block_id := b_id b,
      tx_block_height := Some (b_height b), tx_sequence := Some seq\<rparr>]\<rparr>"
  have "decode_txs E ((pre @ frame raw) @ concat (map frame raws)) (length (pre @ frame raw)) (seq + 1) ?b
      = Inr (?b\<lparr>b_transactions := b_transactions ?b @ annotate ?b (seq + 1) txs'\<rparr>)"
    using txs(4) by (rule Cons.IH)
  then show ?case
    using next_frame_at [OF txs(2), of pre "concat (map frame raws)"] txs(1,3)
    by (subst decode_txs.simps) simp
qed

lemma rfold_frames:
  assumes "list_all2 (\<lambda>tx raw. f tx = Inr raw) txs raws"
  shows "rfold (\<lambda>tx out. rbind (f tx) (\<lambda>x. Inr (out @ frame x))) txs acc
           = Inr (acc @ concat (map frame raws))"
  using assms by (induction txs arbitrary: acc raws) (auto simp: list_all2_Cons1)

definition canonical_block :: "crypto \<Rightarrow> network \<Rightarrow> block \<Rightarrow> bool" where
  "canonical_block E n b =
     (canonical_header E b \<and> length (header_bytes E b) < 2 ^ 32
      \<and> list_all (\<lambda>tx. canonical E tx \<and>
            (case serialize_transaction E tx opts_default (nw_pubkey_hash n) of
               Inl _ \<Rightarrow> False | Inr raw \<Rightarrow> length raw < 2 ^ 32)) (b_transactions b))"

text \<open>The transaction with its id, as the deserializer returns it.\<close>

definition with_id :: "crypto \<Rightarrow> network \<Rightarrow> transaction \<Rightarrow> transaction" where
  "with_id E n tx =
     (case serialize_transaction E tx opts_default (nw_pubkey_hash n) of
        Inl _ \<Rightarrow> tx | Inr raw \<Rightarrow> tx\<lparr>tx_id := Some (hex_encode E (sha256 E raw))\<rparr>)"

lemma block_record_round_trip:
  assumes c: "canonical_block E n b"
    and i: "(if b_height b = 1 then Inr (nw_genesis_block_id n) else block_id E b) = Inr i"
  shows "\<exists>rec. encode_block E b n = Inr rec \<and> decode_block E rec n
     = Inr (b\<lparr>b_id := Some i, b_transactions := annotate (b\<lparr>b_id := Some i\<rparr>) 0
              (map (with_id E n) (b_transactions b))\<rparr>)"
proof -
  define ser where "ser = (\<lambda>tx. serialize_transaction E tx opts_default (nw_pubkey_hash n))"
  define raws where "raws = map (\<lambda>tx. case ser tx of Inl _ \<Rightarrow> [] | Inr raw \<Rightarrow> raw) (b_transactions b)"
  have hc: "canonical_header E b" and hl: "length (header_bytes E b) < 2 ^ 32"
    using c by (auto simp: canonical_block_def)
  have ok: "\<exists>raw. ser tx = Inr raw \<and> length raw < 2 ^ 32 \<and> canonical E tx" if "tx \<in> set (b_transactions b)" for tx
    using c that by (cases "ser tx") (auto simp: canonical_block_def list_all_iff ser_def)
  have w: "list_all2 (\<lambda>tx raw. ser tx = Inr raw) (b_transactions b) raws"
    unfolding raws_def list_all2_map2 using ok by (force simp: list_all2_same)
  have enc: "encode_block E b n = Inr (frame (header_bytes E b) @ concat (map frame raws))"
    using serialize_canonical_header [OF hc] rfold_frames [OF w]
    by (simp add: encode_block_def ser_def)
  have r: "list_all2 (\<lambda>raw tx. length raw < 2 ^ 32 \<and> deserialize_transaction E raw = Inr tx) raws
      (map (with_id E n) (b_transactions b))"
    unfolding raws_def list_all2_map1 list_all2_map2 list_all2_same
  proof
    fix tx assume "tx \<in> set (b_transactions b)"
    then obtain raw where raw: "ser tx = Inr raw" "length raw < 2 ^ 32" "canonical E tx" using ok by blast
    then have "deserialize_transaction E raw = Inr (tx\<lparr>tx_id := Some (hex_encode E (sha256 E raw))\<rparr>)"
      unfolding ser_def by (intro transaction_round_trip)
    with raw show "length (case ser tx of Inl _ \<Rightarrow> [] | Inr raw \<Rightarrow> raw) < 2 ^ 32 \<and>
        deserialize_transaction E (case ser tx of Inl _ \<Rightarrow> [] | Inr raw \<Rightarrow> raw) = Inr (with_id E n tx)"
      by (simp add: with_id_def ser_def)
  qed
  let ?h = "b\<lparr>b_id := Some i, b_transactions := []\<rparr>"
  have "decode_txs E (frame (header_bytes E b) @ concat (map frame raws)) (length (frame (header_bytes E b))) 0 ?h
      = Inr (?h\<lparr>b_transactions := b_transactions ?h @ annotate ?h 0 (map (with_id E n) (b_transactions b))\<rparr>)"
    using r by (rule decode_txs_frames)
  moreover have "annotate ?h 0 ts = annotate (b\<lparr>b_id := Some i\<rparr>) 0 ts" for ts
    using annotate_header [where b = "b\<lparr>b_id := Some i\<rparr>" and ts = "[]"] by simp
  ultimately have "decode_block E (frame (header_bytes E b) @ concat (map frame raws)) n
      = Inr (b\<lparr>b_id := Some i, b_transactions := annotate (b\<lparr>b_id := Some i\<rparr>) 0
              (map (with_id E n) (b_transactions b))\<rparr>)"
    using next_frame_at [OF hl, of "[]" "concat (map frame raws)"] parse_canonical_header [OF hc i]
    by (simp add: decode_block_def)
  with enc show ?thesis by blast
qed

section \<open>What a verified block satisfies\<close>

lemma err_if_Nil [simp]: "err_if c e = [] \<longleftrightarrow> \<not> c"
  by (simp add: err_if_def)

lemma tx_scan_ok:
  assumes "tx_scan height txs seen = ([], a, f)"
  shows "(\<forall>tx \<in> set txs. tx_id tx \<noteq> None) \<and> distinct (map tx_id txs)
    \<and> (\<forall>tx \<in> set txs. \<forall>i. tx_id tx = Some i \<longrightarrow> i \<notin> set seen)
    \<and> (\<forall>tx \<in> set txs. \<forall>e. tx_expiration tx = Some e \<longrightarrow> 0 < e \<longrightarrow> height < ucast e)
    \<and> a = (\<Sum>tx\<leftarrow>txs. uint (tx_amount tx)) \<and> f = (\<Sum>tx\<leftarrow>txs. uint (tx_fee tx))"
  using assms
proof (induction txs arbitrary: seen a f)
  case (Cons tx txs)
  obtain i where i: "tx_id tx = Some i"
    using Cons.prems by (cases "tx_id tx") (auto split: prod.splits)
  obtain a' f' where rest: "tx_scan height txs (i # seen) = ([], a', f')"
    "a = uint (tx_amount tx) + a'" "f = uint (tx_fee tx) + f'" "i \<notin> set seen"
    and e: "\<And>e. tx_expiration tx = Some e \<Longrightarrow> 0 < e \<Longrightarrow> height < ucast e"
    using Cons.prems i by (auto simp: not_le split: prod.splits if_splits option.splits)
  note IH = Cons.IH [OF rest(1)]
  have "tx_id tx \<notin> tx_id ` set txs" using IH i by force
  with IH rest i e show ?case by auto
qed auto

lemma map_filter_Nil: "List.map_filter f xs = [] \<longleftrightarrow> (\<forall>x \<in> set xs. f x = None)"
  by (induction xs) (auto simp: List.map_filter_simps split: option.splits)

lemma check_transaction_None:
  "check_transaction E tx = None \<Longrightarrow> tx_id tx = Some i \<Longrightarrow>
     transaction_id E tx = Inr i \<and> verify_transaction_signature E tx = Inr True"
  by (auto simp: check_transaction_def split: sum.splits if_splits bool.splits)

definition sound_block :: "crypto \<Rightarrow> block \<Rightarrow> network \<Rightarrow> bool" where
  "sound_block E b n =
     (let ms = milestone_at n (b_height b) in
      b_reward b = ms_reward ms \<and> verify_block_signature E b = Inr True \<and> version_ok n b
      \<and> (b_version b = BLOCK_VERSION_PQ \<longleftrightarrow> b_pq_signature b \<noteq> None)
      \<and> distinct (map tx_id (b_transactions b))
      \<and> list_all (\<lambda>tx. (case tx_id tx of None \<Rightarrow> False | Some i \<Rightarrow> transaction_id E tx = Inr i)
            \<and> verify_transaction_signature E tx = Inr True
            \<and> (case tx_expiration tx of None \<Rightarrow> True | Some e \<Rightarrow> e = 0 \<or> b_height b < ucast e)
            \<and> (is_pq tx \<longrightarrow> pq_active (ms_pq ms))
            \<and> (tx_type_group tx \<noteq> TYPE_GROUP_CORE \<longrightarrow>
                 is_token tx \<and> ms_tokens ms \<and> is_ok (check_token_format E tx ms)
                 \<or> is_sobj tx \<and> ms_sobj_active ms \<and> is_ok (check_sobj_format E tx ms)))
           (b_transactions b)
      \<and> uint (b_total_amount b) = (\<Sum>tx\<leftarrow>b_transactions b. uint (tx_amount tx))
      \<and> uint (b_total_fee b) = (\<Sum>tx\<leftarrow>b_transactions b. uint (tx_fee tx))
      \<and> (b_height b > 1 \<longrightarrow> u32_len (b_transactions b) \<le> max_transactions ms
           \<and> block_payload_hash E b = Inr (b_payload_hash b)
           \<and> (case b_id b of None \<Rightarrow> True | Some i \<Rightarrow> block_id E b = Inr i)))"

lemma rule_errors_Nil [simp]: "rule_errors m = [] \<longleftrightarrow> is_ok m"
  by (simp add: rule_errors_def is_ok_def split: sum.split)

lemma tx_format_ok:
  assumes "tx_format_errors E ms tx = []"
  shows "(is_pq tx \<longrightarrow> pq_active (ms_pq ms)) \<and> (tx_type_group tx \<noteq> TYPE_GROUP_CORE \<longrightarrow>
     is_token tx \<and> ms_tokens ms \<and> is_ok (check_token_format E tx ms)
     \<or> is_sobj tx \<and> ms_sobj_active ms \<and> is_ok (check_sobj_format E tx ms))"
proof -
  have "is_ok (check_pq_format E tx ms)" using assms by (simp add: tx_format_errors_def)
  then have "is_pq tx \<longrightarrow> pq_active (ms_pq ms)"
    by (cases "pq_active (ms_pq ms)") (auto simp: check_pq_format_def)
  with assms show ?thesis by (auto simp: tx_format_errors_def split: if_splits)
qed

lemma verified_sound:
  assumes v: "verify_block E b n now = []"
  shows "sound_block E b n"
proof -
  define ms where "ms = milestone_at n (b_height b)"
  obtain scan a f where sc: "tx_scan (b_height b) (b_transactions b) [] = (scan, a, f)"
    by (metis prod_cases3)
  note v' = v [unfolded verify_block_def Let_def sc prod.case append_is_Nil_conv err_if_Nil ms_def [symmetric]]
  have "scan = []" using v' by blast
  note scan = tx_scan_ok [OF sc [unfolded this]]
  have mf: "\<forall>tx \<in> set (b_transactions b). check_transaction E tx = None"
    using v' by (simp add: map_filter_Nil)
  have fmt: "\<forall>tx \<in> set (b_transactions b). tx_format_errors E ms tx = []"
    using v' by auto
  have txs: "list_all (\<lambda>tx. (case tx_id tx of None \<Rightarrow> False | Some i \<Rightarrow> transaction_id E tx = Inr i)
            \<and> verify_transaction_signature E tx = Inr True
            \<and> (case tx_expiration tx of None \<Rightarrow> True | Some e \<Rightarrow> e = 0 \<or> b_height b < ucast e)
            \<and> (is_pq tx \<longrightarrow> pq_active (ms_pq ms))
            \<and> (tx_type_group tx \<noteq> TYPE_GROUP_CORE \<longrightarrow>
                 is_token tx \<and> ms_tokens ms \<and> is_ok (check_token_format E tx ms)
                 \<or> is_sobj tx \<and> ms_sobj_active ms \<and> is_ok (check_sobj_format E tx ms)))
           (b_transactions b)"
    unfolding list_all_iff
  proof
    fix tx assume tx: "tx \<in> set (b_transactions b)"
    then obtain i where i: "tx_id tx = Some i" using scan by auto
    have "case tx_expiration tx of None \<Rightarrow> True | Some e \<Rightarrow> e = 0 \<or> b_height b < ucast e"
      using scan tx by (auto simp: word_gt_0 split: option.splits)
    then show "(case tx_id tx of None \<Rightarrow> False | Some i \<Rightarrow> transaction_id E tx = Inr i)
            \<and> verify_transaction_signature E tx = Inr True
            \<and> (case tx_expiration tx of None \<Rightarrow> True | Some e \<Rightarrow> e = 0 \<or> b_height b < ucast e)
            \<and> (is_pq tx \<longrightarrow> pq_active (ms_pq ms))
            \<and> (tx_type_group tx \<noteq> TYPE_GROUP_CORE \<longrightarrow>
                 is_token tx \<and> ms_tokens ms \<and> is_ok (check_token_format E tx ms)
                 \<or> is_sobj tx \<and> ms_sobj_active ms \<and> is_ok (check_sobj_format E tx ms))"
      using check_transaction_None [of E tx i] mf fmt tx i tx_format_ok [of E ms tx] by simp
  qed
  have pq: "b_version b = BLOCK_VERSION_PQ \<longleftrightarrow> b_pq_signature b \<noteq> None"
    using v' by (auto simp: block_pq_errors_def split: if_splits option.splits)
  have big: "b_height b > 1 \<Longrightarrow> block_payload_hash E b = Inr (b_payload_hash b)
      \<and> (case b_id b of None \<Rightarrow> True | Some i \<Rightarrow> block_id E b = Inr i)"
  proof -
    assume "b_height b > 1"
    then have "b_height b \<noteq> 1" by auto
    with v' show ?thesis by (auto split: sum.splits option.splits)
  qed
  have ver: "version_ok n b" using v' by (simp add: version_errors_def split: if_splits)
  show ?thesis
    unfolding sound_block_def Let_def ms_def [symmetric]
    using v' scan txs pq big ver by (auto simp: not_less)
qed

section \<open>Properties\<close>

text \<open>C9. A stored block reads back as the same block: the record of a canonical block decodes to the
  block with its id filled in (the configured one for the genesis block) and every transaction
  carrying its id, the block id, the height and its position.\<close>

theorem stored_block_round_trip:
  assumes "canonical_block E n b"
    and "(if b_height b = 1 then Inr (nw_genesis_block_id n) else block_id E b) = Inr i"
  shows "\<exists>rec. encode_block E b n = Inr rec \<and> decode_block E rec n
     = Inr (b\<lparr>b_id := Some i, b_transactions := annotate (b\<lparr>b_id := Some i\<rparr>) 0
              (map (with_id E n) (b_transactions b))\<rparr>)"
  using assms by (rule block_record_round_trip)

definition ref_hash :: string where "ref_hash = ref_hex_encode (replicate 32 9)"

definition ref_der :: string where "ref_der = ref_hex_encode [0x30, 3, 1, 2, 3]"

definition ref_block :: block where
  "ref_block = \<lparr>b_id = None, b_version = 0, b_timestamp = 80, b_previous_block = ref_hash,
     b_height = 2, b_number_of_transactions = 1, b_total_amount = 250000000, b_total_fee = 10000000,
     b_reward = 0, b_payload_length = 32, b_payload_hash = ref_hash, b_generator_public_key = ref_key,
     b_block_signature = Some ref_der, b_pq_signature = None, b_transactions = [ref_transfer]\<rparr>"

lemma ref_block_fields:
  "hex_field ref_crypto 32 ref_hash" "length ref_hash = 64" "der_field ref_crypto ref_der"
  by code_simp+

lemma ref_header_canonical: "canonical_header ref_crypto ref_block"
  by (simp add: canonical_header_def ref_block_def ref_block_fields ref_fields)

lemma ref_transfer_short:
  "\<exists>raw. serialize_transaction ref_crypto ref_transfer opts_default 63 = Inr raw \<and> length raw < 2 ^ 32"
proof -
  have l: "length (unhex ref_crypto ref_key) = 33" "length (unhex ref_crypto ref_sig) = 64"
    "length (unaddr ref_crypto ref_address) = 21"
    using ref_fields hex_fieldD(2) addr_fieldD(2) by blast+
  show ?thesis
    using ref_fields l
    by (simp add: serialize_transaction_def serialize_vendor_field_def serialize_type_payload_def
        serialize_core_def serialize_signatures_def ref_transfer_def has_vendor_field_def is_sobj_def
        is_token_def is_pq_def VERSION_PQ_def write_recipient_def second_signature_any_def opt_hex_def
        opts_default_def w_hex_field write_addr_field w_var8_def)
qed

lemma ref_block_canonical: "canonical_block ref_crypto ref_network ref_block"
proof -
  have l: "length (unhex ref_crypto ref_key) = 33" "length (unhex ref_crypto ref_hash) = 32"
    "length (unhex ref_crypto ref_der) = 5"
    using ref_fields(1) ref_block_fields(1) hex_fieldD(2) by (blast, blast, code_simp)
  have "length (header_bytes ref_crypto ref_block) < 2 ^ 32"
    by (simp add: header_bytes_def ref_block_def l opt_unhex_def pq_part_def)
  moreover obtain raw where "serialize_transaction ref_crypto ref_transfer opts_default 63 = Inr raw"
    "length raw < 2 ^ 32" using ref_transfer_short by blast
  ultimately show ?thesis
    using ref_header_canonical ref_transfer_canonical
    by (simp add: canonical_block_def ref_block_def ref_network_def)
qed

theorem stored_block_round_trip_witness:
  "\<exists>i rec. encode_block ref_crypto ref_block ref_network = Inr rec
     \<and> decode_block ref_crypto rec ref_network
       = Inr (ref_block\<lparr>b_id := Some i, b_transactions := annotate (ref_block\<lparr>b_id := Some i\<rparr>) 0
              (map (with_id ref_crypto ref_network) (b_transactions ref_block))\<rparr>)"
proof -
  have "(if b_height ref_block = 1 then Inr (nw_genesis_block_id ref_network) else block_id ref_crypto ref_block)
      = Inr (hex_encode ref_crypto (sha256 ref_crypto (header_bytes ref_crypto ref_block)))"
    using serialize_canonical_header [OF ref_header_canonical]
    by (simp add: block_id_def) (simp add: ref_block_def)
  from stored_block_round_trip [OF ref_block_canonical this] show ?thesis by blast
qed

text \<open>C2. A block that passes verification is sound: the reward is the milestone's, the forger's signature
  verifies, the version is one the height accepts, a post-quantum signature is present exactly on
  version-1 blocks, every transaction has a distinct id equal to the hash of its bytes, a valid
  sender signature and no passed expiration, version-3, token and smart-object transactions appear
  only under an active milestone and in their format, the totals are the exact sums (no
  wrap-around), and above the genesis block the count, the payload hash and the block id match.\<close>

theorem verify_block_sound:
  assumes "verify_block E b n now = []"
  shows "sound_block E b n"
  using assms by (rule verified_sound)

definition accept_crypto :: crypto where
  "accept_crypto = ref_crypto\<lparr>verify_ecdsa := (\<lambda>h s pk. Inr (pk = ref_key)),
     verify_schnorr_legacy := (\<lambda>h s pk. Inr (pk = ref_key))\<rparr>"

text \<open>A block with one transaction, its payload hash computed.\<close>

definition one_tx_block :: "transaction \<Rightarrow> block" where
  "one_tx_block tx =
     (let b = ref_block\<lparr>b_transactions := [tx], b_total_amount := tx_amount tx, b_total_fee := tx_fee tx\<rparr>
      in b\<lparr>b_payload_hash := (case block_payload_hash accept_crypto b of Inr h \<Rightarrow> h | Inl _ \<Rightarrow> [])\<rparr>)"

definition accepted_tx :: "transaction \<Rightarrow> bool" where
  "accepted_tx tx \<longleftrightarrow>
     (\<exists>i d. tx_id tx = Some i \<and> transaction_id accept_crypto tx = Inr i \<and> hex_decode accept_crypto i = Some d)
     \<and> verify_transaction_signature accept_crypto tx = Inr True \<and> tx_type_group tx = 1
     \<and> unwrap_or 0 (tx_expiration tx) = 0 \<and> tx_version tx = 2 \<and> tx_sequence tx = None"

lemma accept_fields:
  "hex_decode accept_crypto ref_key = Some (unhex ref_crypto ref_key)"
  "hex_decode accept_crypto ref_sig = Some (unhex ref_crypto ref_sig)"
  "length (unhex ref_crypto ref_sig) = 64"
  "bs58check_decode accept_crypto ref_address = Some (unaddr ref_crypto ref_address)"
  "length (unaddr ref_crypto ref_address) = 21"
  "hex_decode accept_crypto ref_hash = Some (unhex ref_crypto ref_hash)"
  "hex_decode accept_crypto ref_der = Some (unhex ref_crypto ref_der)"
  "\<exists>d. hex_decode accept_crypto (hex_encode accept_crypto x) = Some d"
proof -
  have d: "hex_field ref_crypto 5 ref_der" by code_simp
  show "hex_decode accept_crypto ref_key = Some (unhex ref_crypto ref_key)"
    "hex_decode accept_crypto ref_sig = Some (unhex ref_crypto ref_sig)"
    "length (unhex ref_crypto ref_sig) = 64"
    "bs58check_decode accept_crypto ref_address = Some (unaddr ref_crypto ref_address)"
    "length (unaddr ref_crypto ref_address) = 21"
    "hex_decode accept_crypto ref_hash = Some (unhex ref_crypto ref_hash)"
    "hex_decode accept_crypto ref_der = Some (unhex ref_crypto ref_der)"
    using hex_fieldD [OF ref_fields(1)] hex_fieldD [OF ref_fields(2)] addr_fieldD [OF ref_fields(3)]
      hex_fieldD [OF ref_block_fields(1)] hex_fieldD [OF d]
    by (simp_all add: accept_crypto_def)
  show "\<exists>d. hex_decode accept_crypto (hex_encode accept_crypto x) = Some d"
    using ref_crypto_laws(1) by (simp add: accept_crypto_def)
qed

lemma serialize_tx_id: "serialize_transaction E (tx\<lparr>tx_id := i\<rparr>) opts net = serialize_transaction E tx opts net"
proof -
  have "serialize_vendor_field (tx\<lparr>tx_id := i\<rparr>) = serialize_vendor_field tx"
    "serialize_type_payload E (tx\<lparr>tx_id := i\<rparr>) = serialize_type_payload E tx"
    unfolding serialize_vendor_field_def has_vendor_field_def serialize_type_payload_def
      is_sobj_def is_token_def serialize_sobj_def serialize_token_def serialize_core_def
      sobj_asset_of_def token_asset_of_def asset_field_def is_pq_def asset_def write_recipient_def Let_def
    by (cases tx, simp only: transaction.simps cong: if_cong option.case_cong)+
  then show ?thesis by (simp add: serialize_transaction_def sigs_id(2))
qed

lemma with_id_accepted:
  assumes "serialize_transaction accept_crypto tx opts_default 63 = Inr raw"
    and "serialize_transaction accept_crypto tx for_signing 63 = Inr body"
    and "tx_signature tx = Some ref_sig" "tx_sender_public_key tx = ref_key" "tx_type_group tx = 1"
    and "unwrap_or 0 (tx_expiration tx) = 0" "tx_version tx = 2" "tx_sequence tx = None"
  shows "accepted_tx (with_id accept_crypto ref_network tx)"
proof -
  have w: "with_id accept_crypto ref_network tx
      = tx\<lparr>tx_id := Some (hex_encode accept_crypto (sha256 accept_crypto raw))\<rparr>"
    using assms(1) by (simp add: with_id_def ref_network_def)
  have "verify_transaction_signature accept_crypto (tx\<lparr>tx_id := i\<rparr>) = Inr True" for i
    using assms(2-4) accept_fields(2,3)
    by (simp add: verify_transaction_signature_def transaction_signing_hash_def serialize_tx_id
        MAINNET_PUBKEY_HASH_def verify_signature_def) (simp add: accept_crypto_def)
  with assms w accept_fields(8) show ?thesis
    by (simp add: accepted_tx_def transaction_id_def serialize_tx_id MAINNET_PUBKEY_HASH_def)
qed

lemma one_tx_block_verifies:
  assumes "accepted_tx tx"
  shows "verify_block accept_crypto (one_tx_block tx) ref_network 80 = []"
proof -
  obtain i d where i: "tx_id tx = Some i" "transaction_id accept_crypto tx = Inr i"
    "hex_decode accept_crypto i = Some d"
    and t: "verify_transaction_signature accept_crypto tx = Inr True" "tx_type_group tx = 1"
      "unwrap_or 0 (tx_expiration tx) = 0" "tx_version tx = 2" "tx_sequence tx = None"
    using assms by (auto simp: accepted_tx_def)
  define h where "h = hex_encode accept_crypto (sha256 accept_crypto d)"
  have b: "one_tx_block tx = ref_block\<lparr>b_transactions := [tx], b_total_amount := tx_amount tx,
      b_total_fee := tx_fee tx, b_payload_hash := h\<rparr>"
    using i t(5) by (simp add: one_tx_block_def block_payload_hash_def h_def Let_def)
  have ph: "block_payload_hash accept_crypto (one_tx_block tx) = Inr h"
    using i t(5) by (simp add: b block_payload_hash_def h_def)
  have m: "milestone_at ref_network 2 = milestone_default"
    by (simp add: milestone_at_def ref_network_def milestone_default_def)
  obtain hb where hb: "hex_decode accept_crypto h = Some hb" using accept_fields(8) h_def by blast
  have sig: "verify_block_signature accept_crypto (one_tx_block tx) = Inr True"
    using accept_fields(1-7) hb
    by (auto simp: verify_block_signature_def block_signing_hash_def serialize_block_def b
        serialize_block_parts_def ref_block_def ref_block_fields w_hex_def opt_hex_def)
       (simp add: accept_crypto_def)
  have scan: "tx_scan 2 [tx] [] = ([], uint (tx_amount tx), uint (tx_fee tx))"
    using i t by (auto split: option.splits)
  have ex: "(case tx_expiration tx of None \<Rightarrow> [] | Some e \<Rightarrow> if 0 < e \<and> P e then x else []) = []"
    for P and x :: "string list"
    using t(3) by (cases "tx_expiration tx") auto
  have "ref_hash \<noteq> []" using ref_block_fields(2) by auto
  then show ?thesis
    using sig ph scan i t m
    by (simp add: verify_block_def b Let_def ex)
       (simp add: ref_block_def err_if_def m milestone_default_def version_errors_def version_ok_def
         block_versions_allowed_def pq_params_default_def block_pq_errors_def BLOCK_VERSION_PQ_def
         block_version_def block_params_default_def u32_len_def max_transactions_def
         List.map_filter_simps check_transaction_def tx_format_errors_def check_pq_format_def is_pq_def
         VERSION_PQ_def)
qed

lemmas serialize_ref = serialize_transaction_def serialize_vendor_field_def serialize_type_payload_def
  serialize_core_def serialize_signatures_def ref_transfer_def has_vendor_field_def is_sobj_def
  is_token_def is_pq_def VERSION_PQ_def write_recipient_def second_signature_any_def opt_hex_def
  w_hex_def write_address_def address_to_bytes_def

definition ref_signed_transfer :: transaction where
  "ref_signed_transfer = with_id accept_crypto ref_network ref_transfer"

lemma ref_signed_transfer_accepted: "accepted_tx ref_signed_transfer"
proof -
  obtain raw body where "serialize_transaction accept_crypto ref_transfer opts_default 63 = Inr raw"
    "serialize_transaction accept_crypto ref_transfer for_signing 63 = Inr body"
    using accept_fields by (simp add: serialize_ref opts_default_def for_signing_def)
  then show ?thesis
    unfolding ref_signed_transfer_def by (rule with_id_accepted) (simp_all add: ref_transfer_def)
qed

theorem verify_block_sound_witness:
  "sound_block accept_crypto (one_tx_block ref_signed_transfer) ref_network"
  by (rule verify_block_sound) (rule one_tx_block_verifies [OF ref_signed_transfer_accepted])

end
