(* ===== verification/Ledger.thy ===== *)
theory Ledger
  imports BlockWire
begin

text \<open>
  The effect of a block on the wallets: \<open>accumulate_deltas\<close> of \<open>src/src/storage.rs\<close>, one definition
  per branch of the transaction loop. What the loop reads from the database is the record
  \<open>ledger_view\<close> (the chain store provides it); the deltas are one ordered map from addresses.
  The lemmas establish the balance law of the whole loop.
\<close>

section \<open>Deltas\<close>

type_synonym deltas = "(string, wallet_delta) btmap"

record ledger_view =
  lv_wallet :: "string \<Rightarrow> wallet_state option"
  lv_sobject :: "string \<Rightarrow> (string \<times> smart_object) option res"
  lv_token_state :: "string \<Rightarrow> token_state option"
  lv_token_owner :: "string \<Rightarrow> string option"
  lv_order :: "string \<Rightarrow> token_order option"
  lv_transaction :: "string \<Rightarrow> transaction option res"

text \<open>\<open>r.ok().flatten()\<close>.\<close>

definition ok_flatten :: "'a option res \<Rightarrow> 'a option" where
  "ok_flatten r = (case r of Inl _ \<Rightarrow> None | Inr x \<Rightarrow> x)"

text \<open>\<open>deltas.entry(a).or_default()\<close> changed in place, and the three changes used most.\<close>

definition upd :: "string \<Rightarrow> (wallet_delta \<Rightarrow> wallet_delta) \<Rightarrow> deltas \<Rightarrow> deltas" where
  "upd a f ds = bt_entry a delta_default f ds"

definition add_balance :: "int \<Rightarrow> wallet_delta \<Rightarrow> wallet_delta" where
  "add_balance c d = d\<lparr>wd_balance := wd_balance d + c\<rparr>"

definition add_token :: "string \<Rightarrow> int \<Rightarrow> wallet_delta \<Rightarrow> wallet_delta" where
  "add_token i c d = d\<lparr>wd_tokens := bt_entry i 0 (\<lambda>v. v + c) (wd_tokens d)\<rparr>"

definition add_supply :: "string \<Rightarrow> int \<Rightarrow> wallet_delta \<Rightarrow> wallet_delta" where
  "add_supply i c d = d\<lparr>wd_token_supply := bt_entry i 0 (\<lambda>v. v + c) (wd_token_supply d)\<rparr>"

text \<open>\<open>xs.iter().rev().find(|(k, _)| *k == key)\<close>.\<close>

definition last_with :: "'k \<Rightarrow> ('k \<times> 'v) list \<Rightarrow> 'v option" where
  "last_with k xs = map_of (rev xs) k"

definition or_else :: "'a option \<Rightarrow> 'a option \<Rightarrow> 'a option" where
  "or_else a b = (case a of None \<Rightarrow> b | Some x \<Rightarrow> Some x)"

section \<open>The forger\<close>

definition init_count :: "block \<Rightarrow> u64" where
  "init_count b = word_of_nat (length (filter
     (\<lambda>t. tx_type_group t = TYPE_GROUP_TOKEN \<and> tx_type t = TOKEN_INIT) (b_transactions b)))"

definition burned_amount :: "network \<Rightarrow> block \<Rightarrow> u64" where
  "burned_amount n b =
     (if init_count b > 0 \<and> nw_burn_address n \<noteq> []
      then init_count b * init_burn (ms_token_fees (milestone_at n (b_height b))) else 0)"

definition forger_delta :: "network \<Rightarrow> block \<Rightarrow> string \<Rightarrow> deltas \<Rightarrow> deltas" where
  "forger_delta n b generator ds =
     (let burned = burned_amount n b;
          ds = (if burned > 0 then upd (nw_burn_address n) (add_balance (uint burned)) ds else ds)
      in upd generator (\<lambda>d.
           (add_balance (uint (b_reward b) + uint (b_total_fee b) - uint burned) d)
           \<lparr>wd_public_key := Some (b_generator_public_key b),
            wd_produced_blocks := wd_produced_blocks d + 1,
            wd_forged_fees := wd_forged_fees d + b_total_fee b,
            wd_forged_rewards := wd_forged_rewards d + b_reward b,
            wd_last_block := Some \<lparr>lb_id = unwrap_or [] (b_id b), lb_height = b_height b,
                                   lb_timestamp = b_timestamp b\<rparr>\<rparr>) ds)"

definition sender_delta :: "transaction \<Rightarrow> string \<Rightarrow> deltas \<Rightarrow> deltas" where
  "sender_delta tx sender ds =
     upd sender (\<lambda>d. (add_balance (- (uint (tx_amount tx) + uint (tx_fee tx))) d)
       \<lparr>wd_nonce := wd_nonce d + 1, wd_public_key := Some (tx_sender_public_key tx)\<rparr>) ds"

section \<open>Smart objects\<close>

definition pending_owner :: "string \<Rightarrow> deltas \<Rightarrow> string option" where
  "pending_owner reg ds =
     map_option fst (find (\<lambda>(a, d). list_ex (\<lambda>(k, _). k = reg) (wd_sobjects d)) ds)"

definition delta_of :: "string \<Rightarrow> deltas \<Rightarrow> wallet_delta" where
  "delta_of a ds = unwrap_or delta_default (bt_get ds a)"

text \<open>The record moves from \<open>from\<close> to \<open>to\<close>, with the token registry of the same id when there is one.\<close>

definition hand_over ::
  "string \<Rightarrow> string \<Rightarrow> string \<Rightarrow> smart_object \<Rightarrow> token_state option \<Rightarrow> deltas \<Rightarrow> deltas" where
  "hand_over reg from to rec token ds =
     (let ds = upd from (\<lambda>d. d\<lparr>
            wd_sobjects := filter (\<lambda>(k, _). k \<noteq> reg) (wd_sobjects d),
            wd_tokens_issued := filter (\<lambda>(k, _). k \<noteq> reg) (wd_tokens_issued d),
            wd_sobj_owner := filter (\<lambda>(k, _). k \<noteq> reg) (wd_sobj_owner d),
            wd_sobjects_removed := wd_sobjects_removed d @ [reg],
            wd_tokens_removed := wd_tokens_removed d @ (if token \<noteq> None then [reg] else [])\<rparr>) ds
      in upd to (\<lambda>d. d\<lparr>
            wd_sobjects := wd_sobjects d @ [(reg, rec)],
            wd_sobj_owner := wd_sobj_owner d @ [(reg, to)],
            wd_tokens_issued := wd_tokens_issued d @
              (case token of None \<Rightarrow> [] | Some st \<Rightarrow> [(reg, st\<lparr>ts_owner := to\<rparr>)])\<rparr>) ds)"

text \<open>Transfer and purchase of a smart object. \<open>None\<close> stands for the \<open>continue\<close>s of the source.\<close>

definition sobj_parties ::
  "ledger_view \<Rightarrow> string \<Rightarrow> smart_object_asset \<Rightarrow> deltas \<Rightarrow> (string \<times> string \<times> string) option" where
  "sobj_parties V sender e ds =
     (case so_registration_id e of None \<Rightarrow> None
      | Some reg \<Rightarrow>
          if so_action e = ACTION_BUY then
            (case or_else (pending_owner reg ds) (map_option fst (ok_flatten (lv_sobject V reg))) of
               None \<Rightarrow> None | Some owner \<Rightarrow> Some (reg, owner, sender))
          else (case so_recipient e of None \<Rightarrow> None | Some to \<Rightarrow> Some (reg, sender, to)))"

definition wallet_sobject :: "ledger_view \<Rightarrow> string \<Rightarrow> string \<Rightarrow> smart_object option" where
  "wallet_sobject V a reg =
     (case lv_wallet V a of None \<Rightarrow> None | Some w \<Rightarrow> bt_get (w_sobjects w) reg)"

definition sobj_move_delta ::
  "ledger_view \<Rightarrow> string \<Rightarrow> smart_object_asset \<Rightarrow> deltas \<Rightarrow> deltas" where
  "sobj_move_delta V sender e ds =
     (case sobj_parties V sender e ds of None \<Rightarrow> ds
      | Some (reg, from, to) \<Rightarrow>
          (case or_else (last_with reg (wd_sobjects (delta_of from ds))) (wallet_sobject V from reg) of
             None \<Rightarrow> ds
           | Some rec \<Rightarrow>
               (let price = uint (unwrap_or 0 (sm_price rec));
                    ds = (if so_action e = ACTION_BUY
                          then upd from (add_balance price) (upd sender (add_balance (- price)) ds) else ds);
                    token = or_else (last_with reg (wd_tokens_issued (delta_of from ds)))
                              (lv_token_state V reg)
                in hand_over reg from to (rec\<lparr>sm_price := None\<rparr>) token ds)))"

definition sobj_record_delta ::
  "ledger_view \<Rightarrow> string \<Rightarrow> string \<Rightarrow> smart_object_asset \<Rightarrow> deltas \<Rightarrow> deltas" where
  "sobj_record_delta V i sender e ds =
     (if so_action e = ACTION_REGISTER then
        upd sender (\<lambda>d. d\<lparr>wd_sobjects := wd_sobjects d @
          [(i, \<lparr>sm_type = so_type e, sm_sub_type = so_sub_type e, sm_data = so_data e,
               sm_resigned = False, sm_price = None\<rparr>)]\<rparr>) ds
      else case so_registration_id e of None \<Rightarrow> ds
        | Some reg \<Rightarrow>
            (case or_else (last_with reg (wd_sobjects (delta_of sender ds))) (wallet_sobject V sender reg) of
               None \<Rightarrow> ds
             | Some rec \<Rightarrow>
                 (let rec = (if so_action e = ACTION_UPDATE
                             then rec\<lparr>sm_data := (sm_data rec)\<lparr>sd_ntfry_data := sd_ntfry_data (so_data e)\<rparr>\<rparr>
                             else if so_action e = ACTION_SELL
                             then rec\<lparr>sm_price := (case so_price e of None \<Rightarrow> None
                                        | Some p \<Rightarrow> if p > 0 then Some p else None)\<rparr>
                             else rec\<lparr>sm_resigned := True\<rparr>)
                  in upd sender (\<lambda>d. d\<lparr>wd_sobjects := wd_sobjects d @ [(reg, rec)]\<rparr>) ds)))"

definition sobj_delta ::
  "ledger_view \<Rightarrow> transaction \<Rightarrow> string \<Rightarrow> smart_object_asset \<Rightarrow> deltas \<Rightarrow> deltas" where
  "sobj_delta V tx sender e ds =
     (case tx_id tx of None \<Rightarrow> ds
      | Some i \<Rightarrow>
          if so_action e = ACTION_TRANSFER \<or> so_action e = ACTION_BUY
          then sobj_move_delta V sender e ds
          else sobj_record_delta V i sender e ds)"

section \<open>Tokens\<close>

definition pending_order :: "string \<Rightarrow> deltas \<Rightarrow> token_order option" where
  "pending_order oid ds =
     (case find (\<lambda>(a, d). bt_get (wd_orders d) oid \<noteq> None) ds of
        None \<Rightarrow> None | Some (a, d) \<Rightarrow> bt_get (wd_orders d) oid)"

definition put_order :: "token_order \<Rightarrow> string \<Rightarrow> wallet_delta \<Rightarrow> wallet_delta" where
  "put_order o1 oid d = d\<lparr>wd_orders := bt_put oid o1 (wd_orders d)\<rparr>"

definition fill_order :: "block \<Rightarrow> transaction \<Rightarrow> u64 \<Rightarrow> token_order \<Rightarrow> token_order" where
  "fill_order b tx amount order =
     (let filled = od_filled order + amount in
      order\<lparr>od_filled := filled, od_fills := od_fills order @ [unwrap_or [] (tx_id tx)],
            od_closed := (if filled \<ge> od_amount order then Some (b_height b) else od_closed order)\<rparr>)"

definition market_delta ::
  "ledger_view \<Rightarrow> block \<Rightarrow> nat \<Rightarrow> transaction \<Rightarrow> string \<Rightarrow> token_asset \<Rightarrow> deltas \<Rightarrow> deltas res" where
  "market_delta V b idx tx sender a ds =
     (let oid = unwrap_or [] (ta_order_id a) in
      rbind (ok_or (Sync ''TokenOrderNotFoundError'') (or_else (pending_order oid ds) (lv_order V oid))) (\<lambda>order.
      if tx_type tx = TOKEN_BUY then
        (let amount = unwrap_or 0 (ta_amount a);
             cost = saturating_mul amount (od_price order);
             order = fill_order b tx amount order;
             trade = \<lparr>tr_tx_id = unwrap_or [] (tx_id tx), tr_order_id = oid, tr_token_id = ta_id a,
                      tr_buyer = sender, tr_seller = od_seller order, tr_amount = amount,
                      tr_price = od_price order, tr_total = cost, tr_height = b_height b,
                      tr_seq = unwrap_or (word_of_nat idx) (tx_sequence tx), tr_timestamp = b_timestamp b\<rparr>;
             ds = upd sender (\<lambda>d. (add_token (ta_id a) (uint amount) (add_balance (- uint cost) d))
                    \<lparr>wd_trades := wd_trades d @ [trade]\<rparr>) ds;
             ds = upd (od_seller order) (add_balance (uint cost)) ds
         in Inr (upd (od_seller order) (put_order order oid) ds))
      else
        (let back = uint (order_remaining order);
             order = order\<lparr>od_closed := Some (b_height b)\<rparr>;
             ds = upd (od_seller order) (add_token (ta_id a) back) ds
         in Inr (upd (od_seller order) (put_order order oid) ds))))"

definition issuer_of :: "string \<Rightarrow> deltas \<Rightarrow> string option" where
  "issuer_of i ds =
     map_option fst (find (\<lambda>(a, d). list_ex (\<lambda>(k, _). k = i) (wd_tokens_issued d)) ds)"

definition token_delta ::
  "ledger_view \<Rightarrow> block \<Rightarrow> nat \<Rightarrow> transaction \<Rightarrow> string \<Rightarrow> token_asset \<Rightarrow> deltas \<Rightarrow> deltas res" where
  "token_delta V b idx tx sender a ds =
     (let i = ta_id a; amount = unwrap_or 0 (ta_amount a); ty = tx_type tx in
      if ty = TOKEN_INIT then
        rbind (lv_sobject V i) (\<lambda>registry.
         let init = unwrap_or 0 (ta_initial_supply a);
             symbol = unwrap_or [] (case registry of None \<Rightarrow> None | Some (_, rec) \<Rightarrow> sd_name (sm_data rec));
             st = \<lparr>ts_symbol = symbol, ts_decimals = unwrap_or 0 (ta_decimals a),
                   ts_flags = unwrap_or 0 (ta_flags a), ts_supply = init,
                   ts_supply_cap = unwrap_or 0 (ta_supply_cap a), ts_owner = sender,
                   ts_init_height = b_height b, ts_meta = None\<rparr>
         in Inr (upd sender (\<lambda>d. add_token i (uint init)
                   (d\<lparr>wd_tokens_issued := wd_tokens_issued d @ [(i, st)]\<rparr>)) ds))
      else if ty = TOKEN_TRANSFER then
        Inr (fold (\<lambda>it ds. upd (ti_recipient it) (add_token i (uint (ti_amount it)))
                             (upd sender (add_token i (- uint (ti_amount it))) ds))
               (unwrap_or [] (ta_transfers a)) ds)
      else if ty = TOKEN_MINT then
        Inr (upd sender (add_supply i (uint amount))
               (upd (unwrap_or [] (ta_recipient a)) (add_token i (uint amount)) ds))
      else if ty = TOKEN_META then
        (case ta_meta a of None \<Rightarrow> Inr ds
         | Some m \<Rightarrow> Inr (upd sender (\<lambda>d. d\<lparr>wd_token_meta := wd_token_meta d @ [(i, m)]\<rparr>) ds))
      else if ty = TOKEN_SELL then
        (let oid = unwrap_or [] (tx_id tx);
             order = \<lparr>od_id = oid, od_token_id = i, od_seller = sender, od_amount = amount, od_filled = 0,
                      od_price = unwrap_or 0 (ta_price a), od_height = b_height b, od_closed = None,
                      od_fills = []\<rparr>
         in Inr (upd sender (\<lambda>d. put_order order oid (add_token i (- uint amount) d)) ds))
      else if ty = TOKEN_BUY \<or> ty = TOKEN_CANCEL then market_delta V b idx tx sender a ds
      else
        (let ds = upd sender (add_token i (- uint amount)) ds;
             owner = unwrap_or sender (or_else (lv_token_owner V i) (issuer_of i ds))
         in Inr (upd owner (add_supply i (- uint amount)) ds)))"

section \<open>Core transactions\<close>

text \<open>\<open>find_lock\<close>: a transaction of the batch, else of the database, with this id.\<close>

definition find_lock :: "ledger_view \<Rightarrow> block list \<Rightarrow> string \<Rightarrow> transaction option res" where
  "find_lock V batch i =
     (case find (\<lambda>t. tx_id t = Some i) (concat (map b_transactions batch)) of
        Some t \<Rightarrow> Inr (Some t) | None \<Rightarrow> lv_transaction V i)"

definition transfer_delta :: "block \<Rightarrow> transaction \<Rightarrow> string \<Rightarrow> deltas \<Rightarrow> deltas" where
  "transfer_delta b tx sender ds =
     (case tx_recipient tx of None \<Rightarrow> ds
      | Some r \<Rightarrow>
          (let ds = upd r (add_balance (uint (tx_amount tx))) ds in
           if r = sender \<and> tx_amount tx \<ge> 1 then
             (case (case tx_vendor_field tx of None \<Rightarrow> None | Some v \<Rightarrow> parse_commitment v) of
                None \<Rightarrow> ds
              | Some (alg, c) \<Rightarrow>
                  upd sender (\<lambda>d. d\<lparr>wd_pq_commitment :=
                    Some \<lparr>pc_algorithm = alg, pc_commitment = c, pc_height = b_height b\<rparr>\<rparr>) ds)
           else ds))"

definition payments_delta :: "transaction \<Rightarrow> string \<Rightarrow> deltas \<Rightarrow> deltas" where
  "payments_delta tx sender ds =
     fold (\<lambda>p ds. upd sender (add_balance (- uint (pay_amount p)))
                    (upd (pay_recipient p) (add_balance (uint (pay_amount p))) ds))
       (unwrap_or [] (asset_field as_payments tx)) ds"

definition lock_delta :: "block \<Rightarrow> transaction \<Rightarrow> string \<Rightarrow> deltas \<Rightarrow> deltas" where
  "lock_delta b tx sender ds =
     (case (asset_field as_lock tx, tx_id tx, tx_recipient tx) of
        (Some lock, Some i, Some r) \<Rightarrow>
          upd sender (\<lambda>d. d\<lparr>wd_locks_added := wd_locks_added d @
            [\<lparr>lk_lock_id = i, lk_sender_public_key = tx_sender_public_key tx, lk_recipient = r,
              lk_amount = tx_amount tx, lk_secret_hash = hl_secret_hash lock,
              lk_expiration = hl_expiration lock, lk_timestamp = b_timestamp b,
              lk_vendor_field = tx_vendor_field tx\<rparr>]\<rparr>) ds
      | _ \<Rightarrow> ds)"

definition claim_delta ::
  "crypto \<Rightarrow> network \<Rightarrow> ledger_view \<Rightarrow> block list \<Rightarrow> transaction \<Rightarrow> deltas \<Rightarrow> deltas res" where
  "claim_delta E n V batch tx ds =
     (case asset_field as_claim tx of None \<Rightarrow> Inr ds
      | Some c \<Rightarrow>
          rbind (find_lock V batch (hc_lock_transaction_id c)) (\<lambda>found. case found of None \<Rightarrow> Inr ds
           | Some lock \<Rightarrow>
               (let ds = (case tx_recipient lock of None \<Rightarrow> ds
                          | Some r \<Rightarrow> upd r (add_balance (uint (tx_amount lock))) ds)
                in rbind (address_from_public_key E (tx_sender_public_key lock) (nw_pubkey_hash n)) (\<lambda>s.
                   Inr (upd s (\<lambda>d. d\<lparr>wd_locks_removed := wd_locks_removed d @ [hc_lock_transaction_id c]\<rparr>) ds)))))"

definition refund_delta ::
  "crypto \<Rightarrow> network \<Rightarrow> ledger_view \<Rightarrow> block list \<Rightarrow> transaction \<Rightarrow> deltas \<Rightarrow> deltas res" where
  "refund_delta E n V batch tx ds =
     (case asset_field as_refund tx of None \<Rightarrow> Inr ds
      | Some i \<Rightarrow>
          rbind (find_lock V batch i) (\<lambda>found. case found of None \<Rightarrow> Inr ds
           | Some lock \<Rightarrow>
               rbind (address_from_public_key E (tx_sender_public_key lock) (nw_pubkey_hash n)) (\<lambda>s.
               Inr (upd s (\<lambda>d. (add_balance (uint (tx_amount lock)) d)
                              \<lparr>wd_locks_removed := wd_locks_removed d @ [i]\<rparr>) ds))))"

definition core_delta ::
  "crypto \<Rightarrow> network \<Rightarrow> ledger_view \<Rightarrow> block list \<Rightarrow> block \<Rightarrow> transaction \<Rightarrow> string \<Rightarrow> deltas \<Rightarrow> deltas res" where
  "core_delta E n V batch b tx sender ds =
     (if tx_type tx = TRANSFER then Inr (transfer_delta b tx sender ds)
      else if tx_type tx = MULTI_PAYMENT then Inr (payments_delta tx sender ds)
      else if tx_type tx = VOTE then
        Inr (fold (\<lambda>v. upd sender (\<lambda>d. d\<lparr>wd_vote := Some (strip_prefix ''+'' v)\<rparr>))
               (unwrap_or [] (asset_field as_votes tx)) ds)
      else if tx_type tx = DELEGATE_REGISTRATION then
        (case asset_field as_delegate tx of None \<Rightarrow> Inr ds
         | Some u \<Rightarrow> Inr (upd sender (\<lambda>d. d\<lparr>wd_username := Some u\<rparr>) ds))
      else if tx_type tx = SECOND_SIGNATURE then
        (case asset_field as_signature tx of None \<Rightarrow> Inr ds
         | Some s \<Rightarrow>
             if is_pq tx then
               Inr (upd sender (\<lambda>d. d\<lparr>wd_pq_key := Some
                      \<lparr>pk_algorithm = unwrap_or ALG_ML_DSA_44 (ss_algorithm s),
                       pk_public_key = ss_public_key s, pk_since = b_height b\<rparr>\<rparr>) ds)
             else Inr (upd sender (\<lambda>d. d\<lparr>wd_second_public_key := Some (ss_public_key s)\<rparr>) ds))
      else if tx_type tx = DELEGATE_RESIGNATION then
        Inr (upd sender (\<lambda>d. d\<lparr>wd_resigned := True\<rparr>) ds)
      else if tx_type tx = MULTI_SIGNATURE then
        (case asset_field as_multi_signature tx of None \<Rightarrow> Inr ds
         | Some ms \<Rightarrow>
             rbind (address_from_multi_signature E ms (nw_pubkey_hash n)) (\<lambda>a.
             Inr (upd a (\<lambda>d. d\<lparr>wd_multi_signature := Some ms\<rparr>) ds)))
      else if tx_type tx = HTLC_LOCK then Inr (lock_delta b tx sender ds)
      else if tx_type tx = HTLC_CLAIM then claim_delta E n V batch tx ds
      else if tx_type tx = HTLC_REFUND then refund_delta E n V batch tx ds
      else Inr ds)"

section \<open>The whole block\<close>

definition tx_delta ::
  "crypto \<Rightarrow> network \<Rightarrow> ledger_view \<Rightarrow> block list \<Rightarrow> block \<Rightarrow> nat \<times> transaction \<Rightarrow> deltas \<Rightarrow> deltas res" where
  "tx_delta E n V batch b itx ds =
     (let tx = snd itx in
      rbind (address_from_public_key E (tx_sender_public_key tx) (nw_pubkey_hash n)) (\<lambda>sender.
      let ds = sender_delta tx sender ds in
      case sobj_asset_of tx of
        Some e \<Rightarrow> Inr (sobj_delta V tx sender e ds)
      | None \<Rightarrow>
          (case token_asset_of tx of
             Some a \<Rightarrow> token_delta V b (fst itx) tx sender a ds
           | None \<Rightarrow>
               if tx_type_group tx \<noteq> TYPE_GROUP_CORE then Inr ds
               else core_delta E n V batch b tx sender ds)))"

definition accumulate_deltas ::
  "crypto \<Rightarrow> network \<Rightarrow> ledger_view \<Rightarrow> block list \<Rightarrow> block \<Rightarrow> deltas \<Rightarrow> deltas res" where
  "accumulate_deltas E n V batch b ds =
     rbind (address_from_public_key E (b_generator_public_key b) (nw_pubkey_hash n)) (\<lambda>generator.
     rfold (tx_delta E n V batch b) (enumerate 0 (b_transactions b)) (forger_delta n b generator ds))"

section \<open>The balance law\<close>

text \<open>The sum of all balance changes, and what an in-place change does to it.\<close>

definition total_balance :: "deltas \<Rightarrow> int" where
  "total_balance ds = bt_sum wd_balance ds"

lemma upd_wf [simp]: "bt_wf ds \<Longrightarrow> bt_wf (upd a f ds)"
  by (simp add: upd_def)

lemma bt_get_upd [simp]:
  "bt_get (upd a f ds) a' = (if a' = a then Some (f (delta_of a ds)) else bt_get ds a')"
  by (simp add: upd_def delta_of_def)

lemma delta_of_upd: "delta_of a' (upd a f ds) = (if a' = a then f (delta_of a ds) else delta_of a' ds)"
  by (simp add: delta_of_def)

lemma upd_balance:
  "bt_wf ds \<Longrightarrow> (\<And>d. wd_balance (f d) = wd_balance d + c) \<Longrightarrow>
     total_balance (upd a f ds) = total_balance ds + c"
  unfolding total_balance_def upd_def
  by (rule bt_sum_entry) (simp_all add: delta_default_def)

lemma upd_neutral [ledger]:
  "bt_wf ds \<Longrightarrow> (\<And>d. wd_balance (f d) = wd_balance d) \<Longrightarrow> total_balance (upd a f ds) = total_balance ds"
  using upd_balance [of ds f 0] by simp

lemma upd_add_balance [ledger]:
  "bt_wf ds \<Longrightarrow> total_balance (upd a (add_balance c) ds) = total_balance ds + c"
  by (rule upd_balance) (simp_all add: add_balance_def)

lemma wd_balance_simps [ledger]:
  "wd_balance (add_balance c d) = wd_balance d + c"
  "wd_balance (add_token i k d) = wd_balance d"
  "wd_balance (add_supply i k d) = wd_balance d"
  "wd_balance (put_order o1 oid d) = wd_balance d"
  by (simp_all add: add_balance_def add_token_def add_supply_def put_order_def)

lemma forger_delta_balance:
  assumes "bt_wf ds"
  shows "bt_wf (forger_delta n b g ds)"
    "total_balance (forger_delta n b g ds) = total_balance ds + uint (b_reward b) + uint (b_total_fee b)"
proof -
  define ds1 where "ds1 = (if burned_amount n b > 0
    then upd (nw_burn_address n) (add_balance (uint (burned_amount n b))) ds else ds)"
  have ds1: "bt_wf ds1" "total_balance ds1 = total_balance ds + uint (burned_amount n b)"
    using assms by (auto simp: ds1_def ledger word_gt_0)
  show "bt_wf (forger_delta n b g ds)"
    using ds1 by (simp add: forger_delta_def Let_def ds1_def [symmetric])
  show "total_balance (forger_delta n b g ds) = total_balance ds + uint (b_reward b) + uint (b_total_fee b)"
    unfolding forger_delta_def Let_def ds1_def [symmetric]
    by (subst upd_balance [OF ds1(1), where c = "uint (b_reward b) + uint (b_total_fee b) - uint (burned_amount n b)"])
       (simp_all add: ledger ds1(2))
qed

lemma sender_delta_balance:
  assumes "bt_wf ds"
  shows "bt_wf (sender_delta tx s ds)"
    "total_balance (sender_delta tx s ds) = total_balance ds - uint (tx_amount tx) - uint (tx_fee tx)"
  using assms upd_balance [OF assms, where c = "- (uint (tx_amount tx) + uint (tx_fee tx))"]
  by (simp_all add: sender_delta_def ledger)

lemma hand_over_balance:
  "bt_wf ds \<Longrightarrow> bt_wf (hand_over reg from to rec token ds)
     \<and> total_balance (hand_over reg from to rec token ds) = total_balance ds"
  by (simp add: hand_over_def Let_def ledger)

lemma sobj_delta_balance:
  assumes "bt_wf ds"
  shows "bt_wf (sobj_delta V tx s e ds) \<and> total_balance (sobj_delta V tx s e ds) = total_balance ds"
proof -
  have "bt_wf (sobj_move_delta V s e ds) \<and> total_balance (sobj_move_delta V s e ds) = total_balance ds"
    using assms
    by (auto simp: sobj_move_delta_def Let_def hand_over_balance ledger split: option.splits)
  moreover have "bt_wf (sobj_record_delta V i s e ds) \<and> total_balance (sobj_record_delta V i s e ds) = total_balance ds" for i
    using assms by (auto simp: sobj_record_delta_def Let_def ledger split: option.splits)
  ultimately show ?thesis
    using assms by (auto simp: sobj_delta_def split: option.splits)
qed

lemma fold_balance:
  assumes "bt_wf ds" and "\<And>x ds. bt_wf ds \<Longrightarrow> bt_wf (f x ds) \<and> total_balance (f x ds) = total_balance ds"
  shows "bt_wf (fold f xs ds) \<and> total_balance (fold f xs ds) = total_balance ds"
  using assms(1) by (induction xs arbitrary: ds) (auto simp: assms(2))

lemma market_delta_balance:
  assumes "bt_wf ds" and "market_delta V b idx tx s a ds = Inr ds'"
  shows "bt_wf ds' \<and> total_balance ds' = total_balance ds"
proof -
  obtain order where order: "or_else (pending_order (unwrap_or [] (ta_order_id a)) ds)
      (lv_order V (unwrap_or [] (ta_order_id a))) = Some order"
    using assms(2) by (auto simp: market_delta_def Let_def rbind_eq_Inr)
  show ?thesis
  proof (cases "tx_type tx = TOKEN_BUY")
    case True
    define cost where "cost = saturating_mul (unwrap_or 0 (ta_amount a)) (od_price order)"
    have step: "total_balance (upd s (\<lambda>d. (add_token i k (add_balance (- uint cost) d))\<lparr>wd_trades := wd_trades d @ ts\<rparr>) ds)
        = total_balance ds - uint cost" for i k ts
      using assms(1) by (subst upd_balance [where c = "- uint cost"]) (simp_all add: ledger)
    have "od_price (fill_order b tx m order) = od_price order" for m
      by (simp add: fill_order_def Let_def)
    then show ?thesis
      using assms order True step
      by (auto simp: market_delta_def Let_def cost_def [symmetric] ledger)
  next
    case False
    then show ?thesis
      using assms order by (auto simp: market_delta_def Let_def ledger)
  qed
qed

lemma token_delta_balance:
  assumes "bt_wf ds" and "token_delta V b idx tx s a ds = Inr ds'"
  shows "bt_wf ds' \<and> total_balance ds' = total_balance ds"
proof -
  have tr: "bt_wf (fold (\<lambda>it ds. upd (ti_recipient it) (add_token (ta_id a) (uint (ti_amount it)))
        (upd s (add_token (ta_id a) (- uint (ti_amount it))) ds)) its ds)
      \<and> total_balance (fold (\<lambda>it ds. upd (ti_recipient it) (add_token (ta_id a) (uint (ti_amount it)))
        (upd s (add_token (ta_id a) (- uint (ti_amount it))) ds)) its ds) = total_balance ds" for its
    by (rule fold_balance [OF assms(1)]) (simp add: ledger)
  show ?thesis
    using assms tr market_delta_balance [OF assms(1)]
    by (auto simp: token_delta_def Let_def rbind_eq_Inr ledger split: if_splits option.splits)
qed

text \<open>What a transaction puts back into circulation besides the sender's debit: the amount of a transfer,
  and the amount of the transaction a claim or a refund names.\<close>

definition tx_credit :: "ledger_view \<Rightarrow> block list \<Rightarrow> transaction \<Rightarrow> int" where
  "tx_credit V batch tx =
     (if sobj_asset_of tx \<noteq> None \<or> token_asset_of tx \<noteq> None \<or> tx_type_group tx \<noteq> TYPE_GROUP_CORE then 0
      else if tx_type tx = TRANSFER then
        (case tx_recipient tx of None \<Rightarrow> 0 | Some _ \<Rightarrow> uint (tx_amount tx))
      else if tx_type tx = HTLC_CLAIM then
        (case asset_field as_claim tx of None \<Rightarrow> 0
         | Some c \<Rightarrow> (case ok_flatten (find_lock V batch (hc_lock_transaction_id c)) of None \<Rightarrow> 0
             | Some lock \<Rightarrow> (case tx_recipient lock of None \<Rightarrow> 0 | Some _ \<Rightarrow> uint (tx_amount lock))))
      else if tx_type tx = HTLC_REFUND then
        (case asset_field as_refund tx of None \<Rightarrow> 0
         | Some i \<Rightarrow> (case ok_flatten (find_lock V batch i) of None \<Rightarrow> 0 | Some lock \<Rightarrow> uint (tx_amount lock)))
      else 0)"

lemma transfer_delta_balance:
  assumes "bt_wf ds"
  shows "bt_wf (transfer_delta b tx s ds) \<and> total_balance (transfer_delta b tx s ds)
     = total_balance ds + (case tx_recipient tx of None \<Rightarrow> 0 | Some _ \<Rightarrow> uint (tx_amount tx))"
  using assms by (auto simp: transfer_delta_def Let_def ledger split: option.splits prod.splits)

lemma payments_delta_balance:
  assumes "bt_wf ds"
  shows "bt_wf (payments_delta tx s ds) \<and> total_balance (payments_delta tx s ds) = total_balance ds"
  unfolding payments_delta_def by (rule fold_balance [OF assms]) (simp add: ledger)

lemma refund_upd_balance:
  "bt_wf ds \<Longrightarrow> total_balance (upd a (\<lambda>d. (add_balance c d)\<lparr>wd_locks_removed := wd_locks_removed d @ l\<rparr>) ds)
     = total_balance ds + c"
  by (rule upd_balance) (simp_all add: ledger)

lemma release_delta_balance:
  assumes "bt_wf ds"
  shows "claim_delta E n V batch tx ds = Inr ds' \<Longrightarrow> bt_wf ds' \<and> total_balance ds' = total_balance ds +
      (case asset_field as_claim tx of None \<Rightarrow> 0
       | Some c \<Rightarrow> (case ok_flatten (find_lock V batch (hc_lock_transaction_id c)) of None \<Rightarrow> 0
           | Some lock \<Rightarrow> (case tx_recipient lock of None \<Rightarrow> 0 | Some _ \<Rightarrow> uint (tx_amount lock))))"
    "refund_delta E n V batch tx ds = Inr ds' \<Longrightarrow> bt_wf ds' \<and> total_balance ds' = total_balance ds +
      (case asset_field as_refund tx of None \<Rightarrow> 0
       | Some i \<Rightarrow> (case ok_flatten (find_lock V batch i) of None \<Rightarrow> 0 | Some lock \<Rightarrow> uint (tx_amount lock)))"
  using assms by (auto simp: claim_delta_def refund_delta_def ok_flatten_def rbind_def Let_def refund_upd_balance ledger
      split: option.splits sum.splits)

lemma core_delta_balance:
  assumes "bt_wf ds" and "core_delta E n V batch b tx s ds = Inr ds'"
    and "sobj_asset_of tx = None" and "token_asset_of tx = None" and "tx_type_group tx = TYPE_GROUP_CORE"
  shows "bt_wf ds' \<and> total_balance ds' = total_balance ds + tx_credit V batch tx"
proof -
  have vote: "bt_wf (fold (\<lambda>v. upd s (\<lambda>d. d\<lparr>wd_vote := g v\<rparr>)) vs ds)
      \<and> total_balance (fold (\<lambda>v. upd s (\<lambda>d. d\<lparr>wd_vote := g v\<rparr>)) vs ds) = total_balance ds" for g and vs :: "string list"
    by (rule fold_balance [OF assms(1)]) (simp add: ledger)
  consider (transfer) "tx_type tx = TRANSFER" | (claim) "tx_type tx = HTLC_CLAIM" | (refund) "tx_type tx = HTLC_REFUND"
    | (rest) "tx_type tx \<noteq> TRANSFER" "tx_type tx \<noteq> HTLC_CLAIM" "tx_type tx \<noteq> HTLC_REFUND" by blast
  then show ?thesis
  proof cases
    case transfer
    with assms transfer_delta_balance [OF assms(1)] show ?thesis
      by (auto simp: core_delta_def tx_credit_def)
  next
    case claim
    with assms release_delta_balance(1) [OF assms(1)] show ?thesis
      by (auto simp: core_delta_def tx_credit_def)
  next
    case refund
    with assms release_delta_balance(2) [OF assms(1)] show ?thesis
      by (auto simp: core_delta_def tx_credit_def)
  next
    case rest
    then have "tx_credit V batch tx = 0" by (simp add: tx_credit_def)
    with rest assms(1,2) vote payments_delta_balance [OF assms(1)] show ?thesis
      by (auto simp: core_delta_def lock_delta_def rbind_eq_Inr ledger split: if_splits option.splits)
  qed
qed

lemma tx_delta_balance:
  assumes "bt_wf ds" and "tx_delta E n V batch b itx ds = Inr ds'"
  shows "bt_wf ds' \<and> total_balance ds' = total_balance ds - uint (tx_amount (snd itx))
     - uint (tx_fee (snd itx)) + tx_credit V batch (snd itx)"
proof -
  define tx where "tx = snd itx"
  obtain s where s: "address_from_public_key E (tx_sender_public_key tx) (nw_pubkey_hash n) = Inr s"
    using assms(2) by (auto simp: tx_delta_def Let_def rbind_eq_Inr tx_def)
  define ds1 where "ds1 = sender_delta tx s ds"
  have ds1: "bt_wf ds1" "total_balance ds1 = total_balance ds - uint (tx_amount tx) - uint (tx_fee tx)"
    using sender_delta_balance [OF assms(1)] by (simp_all add: ds1_def)
  have step: "(case sobj_asset_of tx of Some e \<Rightarrow> Inr (sobj_delta V tx s e ds1)
      | None \<Rightarrow> (case token_asset_of tx of Some a \<Rightarrow> token_delta V b (fst itx) tx s a ds1
           | None \<Rightarrow> if tx_type_group tx \<noteq> TYPE_GROUP_CORE then Inr ds1
               else core_delta E n V batch b tx s ds1)) = Inr ds'"
    using assms(2) s unfolding tx_delta_def Let_def tx_def [symmetric] ds1_def by simp
  have "bt_wf ds' \<and> total_balance ds' = total_balance ds1 + tx_credit V batch tx"
  proof (cases "sobj_asset_of tx")
    case (Some e)
    with step sobj_delta_balance [OF ds1(1)] show ?thesis by (auto simp: tx_credit_def)
  next
    case no_sobj: None
    show ?thesis
    proof (cases "token_asset_of tx")
      case (Some a)
      with no_sobj step token_delta_balance [OF ds1(1)] show ?thesis by (auto simp: tx_credit_def)
    next
      case None
      with no_sobj step ds1(1) core_delta_balance [OF ds1(1)] show ?thesis
        by (auto simp: tx_credit_def split: if_splits)
    qed
  qed
  with ds1(2) show ?thesis by (simp add: tx_def)
qed

lemma rfold_tx_balance:
  assumes "bt_wf ds" and "rfold (tx_delta E n V batch b) itxs ds = Inr ds'"
  shows "bt_wf ds' \<and> total_balance ds' = total_balance ds
     + (\<Sum>itx\<leftarrow>itxs. tx_credit V batch (snd itx) - uint (tx_amount (snd itx)) - uint (tx_fee (snd itx)))"
  using assms
proof (induction itxs arbitrary: ds)
  case (Cons itx itxs)
  then obtain ds1 where "tx_delta E n V batch b itx ds = Inr ds1" "rfold (tx_delta E n V batch b) itxs ds1 = Inr ds'"
    by (auto simp: rbind_eq_Inr)
  with Cons tx_delta_balance [OF Cons.prems(1)] show ?case by fastforce
qed simp

lemma sum_list_enumerate: "(\<Sum>itx\<leftarrow>enumerate k xs. f (snd itx)) = (\<Sum>x\<leftarrow>xs. f x :: int)"
  by (induction xs arbitrary: k) auto

lemma accumulate_balance:
  assumes "bt_wf ds" and "accumulate_deltas E n V batch b ds = Inr ds'"
  shows "bt_wf ds' \<and> total_balance ds' = total_balance ds + uint (b_reward b) + uint (b_total_fee b)
     + (\<Sum>tx\<leftarrow>b_transactions b. tx_credit V batch tx - uint (tx_amount tx) - uint (tx_fee tx))"
proof -
  obtain g where "rfold (tx_delta E n V batch b) (enumerate 0 (b_transactions b)) (forger_delta n b g ds) = Inr ds'"
    using assms(2) by (auto simp: accumulate_deltas_def rbind_eq_Inr)
  from rfold_tx_balance [OF forger_delta_balance(1) [OF assms(1)] this] forger_delta_balance(2) [OF assms(1)]
  show ?thesis
    using sum_list_enumerate [of "\<lambda>tx. tx_credit V batch tx - uint (tx_amount tx) - uint (tx_fee tx)" 0]
    by simp
qed

section \<open>Releases\<close>

definition releases_lock :: "transaction \<Rightarrow> bool" where
  "releases_lock tx \<longleftrightarrow> tx_type_group tx = TYPE_GROUP_CORE \<and> (tx_type tx = HTLC_CLAIM \<or> tx_type tx = HTLC_REFUND)"

text \<open>A view that knows nothing.\<close>

definition empty_view :: ledger_view where
  "empty_view = \<lparr>lv_wallet = (\<lambda>_. None), lv_sobject = (\<lambda>_. Inr None), lv_token_state = (\<lambda>_. None),
     lv_token_owner = (\<lambda>_. None), lv_order = (\<lambda>_. None), lv_transaction = (\<lambda>_. Inr None)\<rparr>"

end
