(* ===== verification/LedgerTokens.thy ===== *)
theory LedgerTokens
  imports Ledger
begin

text \<open>
  Token units under the block effects of \<open>Ledger\<close>: units are only created by an initialisation or a
  mint and destroyed by a burn, always together with the registered supply; selling escrows them in
  the order and buying or cancelling takes them out of it. Two consequences of the order in which
  \<open>WalletState::apply\<close> works through a delta close the theory.
\<close>

section \<open>Token units\<close>

text \<open>What a wallet delta adds to the held units of a token, less what it adds to the registered supply: by a
  supply change, or by a new registry entry with its initial supply.\<close>

definition issued_supply :: "string \<Rightarrow> (string \<times> token_state) list \<Rightarrow> int" where
  "issued_supply i xs = (\<Sum>(k, st)\<leftarrow>xs. if k = i then uint (ts_supply st) else 0)"

definition token_change :: "string \<Rightarrow> wallet_delta \<Rightarrow> int" where
  "token_change i d = unwrap_or 0 (bt_get (wd_tokens d) i) - unwrap_or 0 (bt_get (wd_token_supply d) i)
     - issued_supply i (wd_tokens_issued d)"

definition token_excess :: "string \<Rightarrow> deltas \<Rightarrow> int" where
  "token_excess i ds = bt_sum (token_change i) ds"

named_theorems units \<open>effect of the delta changes on the units of a token\<close>

lemma token_excess_upd:
  "bt_wf ds \<Longrightarrow> (\<And>d. token_change i (f d) = token_change i d + c) \<Longrightarrow>
     token_excess i (upd a f ds) = token_excess i ds + c"
  unfolding token_excess_def upd_def
  by (rule bt_sum_entry) (simp_all add: token_change_def delta_default_def issued_supply_def)

lemma token_change_simps [units]:
  "token_change i (add_token j c d) = token_change i d + (if i = j then c else 0)"
  "token_change i (add_supply j c d) = token_change i d - (if i = j then c else 0)"
  "token_change i (add_balance k d) = token_change i d"
  "token_change i (put_order o1 oid d) = token_change i d"
  by (simp_all add: token_change_def add_token_def add_supply_def add_balance_def put_order_def)

lemma token_excess_add [units]:
  "bt_wf ds \<Longrightarrow> token_excess i (upd a (add_token j c) ds) = token_excess i ds + (if i = j then c else 0)"
  "bt_wf ds \<Longrightarrow> token_excess i (upd a (add_supply j c) ds) = token_excess i ds - (if i = j then c else 0)"
  by (rule token_excess_upd, simp, simp add: units)
     (subst token_excess_upd [where c = "- (if i = j then c else 0)"], auto simp: units)


section \<open>Orders of a batch\<close>












section \<open>Conservation\<close>





















section \<open>The order of application\<close>

lemma fold_put_locks:
  "l \<in> set ls \<Longrightarrow> distinct (map lk_lock_id ls) \<Longrightarrow>
     bt_get (fold (\<lambda>l. bt_put (lk_lock_id l) l) ls m) (lk_lock_id l) = Some l"
proof (induction ls arbitrary: m)
  case (Cons x ls)
  have keep: "k \<notin> lk_lock_id ` set ls \<Longrightarrow>
      bt_get (fold (\<lambda>l. bt_put (lk_lock_id l) l) ls m) k = bt_get m k" for k m
    by (induction ls arbitrary: m) auto
  show ?case
  proof (cases "l = x")
    case True
    with Cons.prems keep show ?thesis by simp
  next
    case False
    with Cons show ?thesis by simp
  qed
qed simp

text \<open>A lock that is created and claimed (or refunded) within one application batch stays open: the
  removals of a delta are applied before its additions, so the lock survives in the wallet although
  it has been paid out.\<close>

theorem lock_claimed_in_batch_stays_open:
  assumes "wallet_apply d w = Inr w'" and "l \<in> set (wd_locks_added d)"
    and "distinct (map lk_lock_id (wd_locks_added d))" and "lk_lock_id l \<in> set (wd_locks_removed d)"
  shows "bt_get (w_locks w') (lk_lock_id l) = Some l"
  using assms fold_put_locks [OF assms(2,3)] by (auto simp: wallet_apply_def rbind_eq_Inr Let_def)

definition ref_lock :: lock_record where
  "ref_lock = \<lparr>lk_lock_id = ''L'', lk_sender_public_key = ''pk'', lk_recipient = ''bob'', lk_amount = 5,
     lk_secret_hash = ''h'', lk_expiration = \<lparr>he_type = 1, he_value = 10\<rparr>, lk_timestamp = 0,
     lk_vendor_field = None\<rparr>"

theorem lock_claimed_in_batch_stays_open_witness:
  "\<exists>w'. wallet_apply (delta_default\<lparr>wd_locks_added := [ref_lock], wd_locks_removed := [''L'']\<rparr>) (wallet_new ''alice'')
      = Inr w' \<and> bt_get (w_locks w') ''L'' = Some ref_lock"
proof -
  let ?d = "delta_default\<lparr>wd_locks_added := [ref_lock], wd_locks_removed := [''L'']\<rparr>"
  obtain w' where w': "wallet_apply ?d (wallet_new ''alice'') = Inr w'"
    by (simp add: wallet_apply_def delta_default_def wallet_new_def i64_try_from_def i64_min_def
        i64_max_def checked_add_def Let_def)
  have "bt_get (w_locks w') (lk_lock_id ref_lock) = Some ref_lock"
    by (rule lock_claimed_in_batch_stays_open [OF w'])
       (simp_all add: delta_default_def ref_lock_def)
  with w' show ?thesis by (simp add: ref_lock_def)
qed

lemma fold_del_get: "k \<in> set ks \<Longrightarrow> bt_get (fold bt_del ks m) k = None"
proof (induction ks arbitrary: m)
  case (Cons x ks)
  have none: "bt_get m k = None \<Longrightarrow> bt_get (fold bt_del ks m) k = None" for m
    by (induction ks arbitrary: m) auto
  show ?case
  proof (cases "k = x")
    case True
    then show ?thesis using none [of "bt_del x m"] by simp
  next
    case False
    with Cons show ?thesis by simp
  qed
qed simp

lemma fold_put_last:
  "bt_get (fold (\<lambda>(i, r). bt_put i r) (xs @ [(k, v)]) m) k = Some v"
  by simp

text \<open>A token registry that goes from one wallet to another and back within one application batch is
  lost: the registry entry of the delta is inserted first and removed afterwards, while the smart
  object itself, handled in the other order, arrives.\<close>

theorem registry_round_trip_is_lost:
  assumes "a \<noteq> c" and "wallet_apply (delta_of a (hand_over reg c a rec token2 (hand_over reg a c rec (Some st) ds))) w = Inr w'"
  shows "bt_get (w_sobjects w') reg = Some rec \<and> bt_get (w_tokens_issued w') reg = None"
proof -
  let ?d = "delta_of a (hand_over reg c a rec token2 (hand_over reg a c rec (Some st) ds))"
  have d: "reg \<in> set (wd_tokens_removed ?d)" "\<exists>xs. wd_sobjects ?d = xs @ [(reg, rec)]"
    using assms(1) by (auto simp: hand_over_def Let_def delta_of_upd)
  then obtain xs where xs: "wd_sobjects ?d = xs @ [(reg, rec)]" by blast
  show ?thesis
    using assms(2) fold_del_get [OF d(1)] fold_put_last
    by (auto simp: wallet_apply_def rbind_eq_Inr Let_def xs)
qed

definition ref_object :: smart_object where
  "ref_object = \<lparr>sm_type = 5, sm_sub_type = 0, sm_data = \<lparr>sd_name = Some ''TKN'', sd_ntfry_data = None\<rparr>,
     sm_resigned = False, sm_price = None\<rparr>"

theorem registry_round_trip_is_lost_witness:
  "\<exists>w'. wallet_apply (delta_of ''alice'' (hand_over ''R'' ''bob'' ''alice'' ref_object (Some ref_token_state)
       (hand_over ''R'' ''alice'' ''bob'' ref_object (Some ref_token_state) []))) (wallet_new ''alice'') = Inr w'
     \<and> bt_get (w_sobjects w') ''R'' = Some ref_object \<and> bt_get (w_tokens_issued w') ''R'' = None"
proof -
  obtain w' where w': "wallet_apply (delta_of ''alice'' (hand_over ''R'' ''bob'' ''alice'' ref_object (Some ref_token_state)
       (hand_over ''R'' ''alice'' ''bob'' ref_object (Some ref_token_state) []))) (wallet_new ''alice'') = Inr w'"
    by (simp add: hand_over_def Let_def delta_of_upd)
       (simp add: delta_of_def wallet_apply_def delta_default_def wallet_new_def i64_try_from_def
         i64_min_def i64_max_def checked_add_def Let_def)
  have "''alice'' \<noteq> ''bob''" by simp
  from registry_round_trip_is_lost [OF this w'] w' show ?thesis by blast
qed

end
