(* ===== verification/Round.thy ===== *)
theory Round
  imports Wallet RefCrypto
begin

text \<open>
  Round and slot arithmetic and the deterministic shuffle of a round: \<open>src/src/delegate/round.rs\<close>, with
  the ranking entries of \<open>src/src/storage.rs\<close>. The divisions of the source panic on a zero divisor, so
  \<open>round_info\<close> and \<open>slot_number\<close> return the error value \<open>Panic\<close> there.
\<close>

section \<open>Rounds and slots\<close>

record delegate_rank =
  dr_public_key :: string
  dr_votes :: u64

record RoundInfo =
  ri_round :: u64
  ri_round_height :: u64
  ri_next_round :: u64
  ri_max_delegates :: u64

definition round_of :: "u64 \<Rightarrow> u64 \<Rightarrow> RoundInfo" where
  "round_of height max_delegates =
     (let h = max height 1;
          r = (h - 1) div max_delegates + 1
      in \<lparr>ri_round = r, ri_round_height = (r - 1) * max_delegates + 1,
          ri_next_round = (if h mod max_delegates = 0 then r + 1 else r),
          ri_max_delegates = max_delegates\<rparr>)"

definition round_info :: "u64 \<Rightarrow> u64 \<Rightarrow> RoundInfo res" where
  "round_info height max_delegates =
     (if max_delegates = 0 then Inl (Panic ''division by zero'') else Inr (round_of height max_delegates))"

definition slot_number :: "u32 \<Rightarrow> u32 \<Rightarrow> u64 res" where
  "slot_number timestamp blocktime =
     (if blocktime = 0 then Inl (Panic ''division by zero'') else Inr (ucast timestamp div ucast blocktime))"

definition slot_start :: "u64 \<Rightarrow> u32 \<Rightarrow> u32" where
  "slot_start slot blocktime = ucast (slot * ucast blocktime)"

section \<open>The shuffle\<close>

text \<open>\<open>slice::swap\<close>, and the byte \<open>seed[x]\<close> of a 32-byte hash (the source only asks for \<open>x < 4\<close>).\<close>

definition swap :: "nat \<Rightarrow> nat \<Rightarrow> 'a list \<Rightarrow> 'a list" where
  "swap i j xs = xs[i := xs ! j, j := xs ! i]"

definition seed_byte :: "bytes \<Rightarrow> nat \<Rightarrow> nat" where
  "seed_byte seed x = (if x < length seed then unat (seed ! x) else 0)"

text \<open>The inner loop: at most four swaps with one seed. It returns the list and the next index.\<close>

function shuffle_batch :: "bytes \<Rightarrow> nat \<Rightarrow> nat \<Rightarrow> 'a list \<Rightarrow> 'a list \<times> nat" where
  "shuffle_batch seed x i ds =
     (if x < 4 \<and> i < length ds
      then shuffle_batch seed (x + 1) (i + 1) (swap (seed_byte seed x mod length ds) i ds)
      else (ds, i))"
  by pat_completeness auto
termination
  by (relation "measure (\<lambda>(seed, x, i, ds). 4 - x)") auto

declare shuffle_batch.simps [simp del]

lemma length_swap [simp]: "length (swap i j xs) = length xs"
  by (simp add: swap_def)

lemma shuffle_batch_spec:
  "length (fst (shuffle_batch seed x i ds)) = length ds \<and> i \<le> snd (shuffle_batch seed x i ds)"
  by (induction seed x i ds rule: shuffle_batch.induct)
     (subst shuffle_batch.simps, subst (2) shuffle_batch.simps, auto)

text \<open>The outer loop. Note the extra \<open>i += 1\<close> after every batch.\<close>

function shuffle_loop :: "(bytes \<Rightarrow> bytes) \<Rightarrow> bytes \<Rightarrow> nat \<Rightarrow> 'a list \<Rightarrow> 'a list" where
  "shuffle_loop H seed i ds =
     (if i < length ds
      then let b = shuffle_batch seed 0 i ds in shuffle_loop H (H seed) (snd b + 1) (fst b)
      else ds)"
  by pat_completeness auto
termination
proof (relation "measure (\<lambda>(H, seed, i, ds). length ds - i)")
  fix H :: "bytes \<Rightarrow> bytes" and seed :: bytes and i :: nat and ds b
  assume "i < length ds" and "b = shuffle_batch seed 0 i ds"
  with shuffle_batch_spec [of seed 0 i ds]
  show "((H, H seed, snd b + 1, fst b), H, seed, i, ds) \<in> measure (\<lambda>(H, seed, i, ds). length ds - i)"
    by auto
qed simp

declare shuffle_loop.simps [simp del]

definition shuffle :: "crypto \<Rightarrow> u64 \<Rightarrow> 'a list \<Rightarrow> 'a list" where
  "shuffle E round ds =
     (if ds = [] then ds
      else shuffle_loop (sha256 E) (sha256 E (as_bytes (show_nat (unat round)))) 0 ds)"

section \<open>Lemmas\<close>

lemma swap_mset: "i < length xs \<Longrightarrow> j < length xs \<Longrightarrow> mset (swap i j xs) = mset xs"
  unfolding swap_def by (rule mset_swap)

lemma shuffle_batch_mset: "mset (fst (shuffle_batch seed x i ds)) = mset ds"
proof (induction seed x i ds rule: shuffle_batch.induct)
  case (1 seed x i ds)
  show ?case
  proof (cases "x < 4 \<and> i < length ds")
    case True
    then have "seed_byte seed x mod length ds < length ds" by (cases ds) auto
    with 1 True show ?thesis by (subst shuffle_batch.simps) (simp add: swap_mset)
  next
    case False
    then show ?thesis by (subst shuffle_batch.simps) auto
  qed
qed

lemma shuffle_loop_mset: "mset (shuffle_loop H seed i ds) = mset ds"
  by (induction H seed i ds rule: shuffle_loop.induct)
     (subst shuffle_loop.simps, auto simp: Let_def shuffle_batch_mset)

lemma shuffle_mset: "mset (shuffle E r ds) = mset ds"
  by (simp add: shuffle_def shuffle_loop_mset)

lemma length_shuffle [simp]: "length (shuffle E r ds) = length ds"
  using shuffle_mset by (rule mset_eq_length)

lemma set_shuffle [simp]: "set (shuffle E r ds) = set ds"
  using shuffle_mset by (rule mset_eq_setD)

lemma distinct_shuffle [simp]: "distinct (shuffle E r ds) = distinct ds"
  using shuffle_mset by (metis mset_eq_imp_distinct_iff)

text \<open>Every residue class meets a window of \<open>n\<close> consecutive numbers in exactly one point.\<close>

lemma residue_in_window:
  fixes n k start :: nat
  assumes "k < n"
  shows "\<exists>!s. start \<le> s \<and> s < start + n \<and> s mod n = k"
proof (rule ex_ex1I)
  define q where "q = start div n"
  have start: "start = n * q + start mod n" "start mod n < n" using assms by (simp_all add: q_def)
  have "(n * q + k) mod n = k" "(n * q + n + k) mod n = k"
    using assms mod_mult_self4 [of n "q + 1" k] by (simp_all add: algebra_simps)
  moreover have "start \<le> n * q + k \<and> n * q + k < start + n" if "start mod n \<le> k"
    using start assms that by linarith
  moreover have "start \<le> n * q + n + k \<and> n * q + n + k < start + n" if "\<not> start mod n \<le> k"
    using start assms that by linarith
  ultimately show "\<exists>s. start \<le> s \<and> s < start + n \<and> s mod n = k" by blast
next
  fix s t assume st: "start \<le> s \<and> s < start + n \<and> s mod n = k" "start \<le> t \<and> t < start + n \<and> t mod n = k"
  have "s = t" if "s \<le> t" "s mod n = t mod n" "t < s + n" for s t :: nat
  proof -
    have "n dvd t - s" using that by (metis mod_eq_dvd_iff_nat)
    moreover have "t - s < n" using that by simp
    ultimately show ?thesis using that(1) by (metis dvd_imp_le diff_is_0_eq' diffs0_imp_equal neq0_conv not_less)
  qed
  from this [of s t] this [of t s] st show "s = t" by (cases "s \<le> t") auto
qed

section \<open>Properties\<close>

text \<open>C25. The forging order is fair: the shuffle of a round snapshot of \<open>n\<close> distinct delegates is a
  permutation of it, so among any \<open>n\<close> consecutive slots every delegate of the snapshot owns exactly
  one.\<close>

theorem round_slots_fair:
  assumes "distinct ds" and "d \<in> set ds" and "n = length ds"
  shows "mset (shuffle E round ds) = mset ds
     \<and> (\<exists>!slot. start \<le> slot \<and> slot < start + n \<and> shuffle E round ds ! (slot mod n) = d)"
proof -
  let ?o = "shuffle E round ds"
  obtain k where k: "k < n" "?o ! k = d"
    using assms by (metis in_set_conv_nth length_shuffle set_shuffle)
  have "?o ! (s mod n) = d \<longleftrightarrow> s mod n = k" for s
    using k assms(1,3) nth_eq_iff_index_eq [of ?o "s mod n" k] mod_less_divisor [of n s]
    by (metis distinct_shuffle gr_zeroI length_shuffle not_less_zero)
  with residue_in_window [OF k(1), of start] shuffle_mset show ?thesis by simp
qed

theorem round_slots_fair_witness:
  "\<exists>!slot. 100 \<le> slot \<and> slot < 100 + 3 \<and> shuffle ref_crypto 7 [''a'', ''b'', ''c''] ! (slot mod 3) = ''b''"
  using round_slots_fair [of "[''a'', ''b'', ''c'']" "''b''" 3 ref_crypto 7 100] by simp

lemma max_one: "0 < (h :: u64) \<Longrightarrow> max h 1 = h"
  by (metis max.absorb1 not_less word_gt_0 word_less_1)

lemma unat_round:
  assumes "0 < h" and "0 < n"
  shows "unat (ri_round (round_of h n)) = (unat h - 1) div unat n + 1"
    "unat (ri_round_height (round_of h n)) = (unat h - 1) div unat n * unat n + 1"
proof -
  have h: "max h 1 = h" "unat (h - 1) = unat h - 1" "0 < unat h" "unat h < 2 ^ 64"
    using assms(1) unsigned_less [where 'a = nat and w = h]
    by (auto simp: max_one unat_minus_one word_gt_0 unat_gt_0)
  have "(unat h - 1) div unat n \<le> unat h - 1" by (rule div_le_dividend)
  moreover have "unat h - 1 < 18446744073709551615" using h(3,4) by simp
  ultimately have q: "(unat h - 1) div unat n < 18446744073709551615" by (rule le_less_trans)
  then have r: "unat ((h - 1) div n + 1) = (unat h - 1) div unat n + 1"
    using h q by (subst unat_add_lem [THEN iffD1]) (auto simp: unat_div)
  then show "unat (ri_round (round_of h n)) = (unat h - 1) div unat n + 1"
    by (simp add: round_of_def Let_def h)
  have "(unat h - 1) div unat n * unat n \<le> unat h - 1" by simp
  moreover have "unat h - 1 < 18446744073709551615" using h(3,4) by simp
  ultimately have m: "(unat h - 1) div unat n * unat n < 18446744073709551615" by (rule le_less_trans)
  have u: "unat ((h - 1) div n * n) = (unat h - 1) div unat n * unat n"
    using m h by (subst unat_mult_lem [THEN iffD1]) (auto simp: unat_div)
  then have "unat ((h - 1) div n * n + 1) = (unat h - 1) div unat n * unat n + 1"
    using m h by (subst unat_add_lem [THEN iffD1]) auto
  then show "unat (ri_round_height (round_of h n)) = (unat h - 1) div unat n * unat n + 1"
    by (simp add: round_of_def Let_def h)
qed

text \<open>Rounds partition the heights: the height lies among the \<open>n\<close> heights that start at the round's
  first height, and the next round differs from the round exactly at the last of them. With zero
  delegates the source panics.\<close>

theorem rounds_partition_heights:
  assumes "0 < h" and "0 < n" and "unat h < 2 ^ 64 - 1"
  shows "\<exists>ri. round_info h n = Inr ri
     \<and> unat (ri_round_height ri) \<le> unat h \<and> unat h < unat (ri_round_height ri) + unat n
     \<and> unat (ri_round_height ri) = (unat (ri_round ri) - 1) * unat n + 1
     \<and> unat (ri_next_round ri) = unat (ri_round ri)
         + (if unat h + 1 = unat (ri_round_height ri) + unat n then 1 else 0)"
proof -
  let ?h = "unat h" and ?n = "unat n" and ?r = "round_of h n"
  have pos: "0 < ?h" "0 < ?n" using assms(1,2) by (simp_all add: word_less_nat_alt)
  have dm: "?h - 1 = (?h - 1) div ?n * ?n + (?h - 1) mod ?n" by simp
  have lt: "(?h - 1) mod ?n < ?n" using pos by simp
  have last: "?h mod ?n = 0 \<longleftrightarrow> (?h - 1) mod ?n = ?n - 1"
    using pos mod_Suc [of "?h - 1" ?n] by (auto split: if_splits)
  have nxt: "ri_next_round ?r = (if ?h mod ?n = 0 then ri_round ?r + 1 else ri_round ?r)"
  proof -
    have "h mod n = 0 \<longleftrightarrow> ?h mod ?n = 0" by (simp only: word_unat_eq_iff unat_mod unsigned_0)
    then show ?thesis by (simp only: round_of_def Let_def max_one [OF assms(1)] RoundInfo.simps)
  qed
  have "(?h - 1) div ?n + 1 \<le> ?h" using pos div_le_dividend [of "?h - 1" ?n] by linarith
  then have "unat (ri_round ?r + 1) = unat (ri_round ?r) + 1"
    using assms unat_round(1) [OF assms(1,2)] by (subst unat_add_lem [THEN iffD1]) auto
  then have "unat (ri_next_round ?r) = unat (ri_round ?r) + (if (?h - 1) mod ?n = ?n - 1 then 1 else 0)"
    using nxt last by simp
  moreover have "(?h - 1) mod ?n = ?n - 1 \<longleftrightarrow> ?h + 1 = (?h - 1) div ?n * ?n + 1 + ?n"
    using dm lt pos by linarith
  moreover have "(?h - 1) div ?n * ?n + 1 \<le> ?h \<and> ?h < (?h - 1) div ?n * ?n + 1 + ?n"
    using dm lt pos by linarith
  ultimately show ?thesis
    using assms(2) unat_round [OF assms(1,2)] by (intro exI [of _ ?r]) (simp add: round_info_def)
qed

theorem rounds_partition_heights_witness:
  "\<exists>ri. round_info 42 21 = Inr ri \<and> unat (ri_round_height ri) = (unat (ri_round ri) - 1) * 21 + 1"
  using rounds_partition_heights [of 42 21] by (auto simp: round_info_def)

text \<open>The slot of a timestamp starts at or before it, and a slot start lies in its own slot.\<close>

lemma slot_start_number:
  assumes "0 < bt" and "unat s * unat bt < 2 ^ 32"
  shows "slot_number (slot_start s bt) bt = Inr s"
proof -
  have c: "unat (ucast (b :: u32) :: u64) = unat b" for b
    using unsigned_less [where 'a = nat and w = b] by (simp add: unsigned_ucast_eq take_bit_nat_eq_self)
  have p: "unat (s * ucast bt) = unat s * unat bt"
    using assms(2) c by (subst unat_mult_lem [THEN iffD1]) auto
  then have "unat (slot_start s bt) = unat s * unat bt"
    using assms(2) by (simp add: slot_start_def unsigned_ucast_eq take_bit_nat_eq_self)
  moreover have "0 < unat bt" using assms(1) by (simp add: word_less_nat_alt)
  ultimately have "unat (ucast (slot_start s bt) div ucast bt :: u64) = unat s"
    by (simp add: unat_div c)
  then show ?thesis
    using assms(1) by (simp add: slot_number_def word_unat_eq_iff word_less_nat_alt)
qed

end
