(* ===== verification/Store.thy ===== *)
theory Store
  imports Ledger Round "HOL-Library.Product_Lexorder"
begin

text \<open>
  The chain state store of \<open>src/src/storage.rs\<close>: the sled tree as one ordered map per key family
  (the key prefixes of the source keep the families apart), with the values the JSON layer stores. Reads of wallets, orders, rounds and
  counters always succeed here; a stored block is kept as its record bytes, so reading it may fail.
\<close>

section \<open>State\<close>

record missed_slot =
  mi_height :: u64
  mi_slot :: u64
  mi_timestamp :: u32
  mi_public_key :: string
  mi_username :: "string option"

record equivocation_proof =
  ep_height :: u64
  ep_public_key :: string
  ep_block_ids :: "string \<times> string"
  ep_signatures :: "string \<times> string"
  ep_detected_height :: u64
  ep_banned_until_round :: u64

record finality_cert =
  fc_height :: u64
  fc_block_id :: string
  fc_votes :: "(string, string) btmap"

type_synonym undo_record = "(string \<times> wallet_state option) list"

record store =
  st_blocks :: "(u64, bytes) btmap"
  st_block_ids :: "(string, u64) btmap"
  st_txs :: "(string, u64) btmap"
  st_wallets :: "(string, wallet_state) btmap"
  st_wallet_pk :: "(string, string) btmap"
  st_wallet_username :: "(string, string) btmap"
  st_tx_list :: "(u64 \<times> u32, string) btmap"
  st_wallet_tx :: "(string \<times> u64 \<times> u32, string) btmap"
  st_locks :: "(string, lock_record) btmap"
  st_rounds :: "(u64, delegate_rank list) btmap"
  st_missed_total :: "(string, u64) btmap"
  st_missed_at :: "(u64, missed_slot list) btmap"
  st_undo :: "(u64, undo_record) btmap"
  st_votes :: "(string, u64) btmap"
  st_sobj_name :: "(string, string) btmap"
  st_sobj_owner :: "(string, string) btmap"
  st_market :: "(string, string) btmap"
  st_token_owner :: "(string, string) btmap"
  st_token_symbol :: "(string, string) btmap"
  st_token_order :: "(string, token_order) btmap"
  st_token_book :: "(string \<times> u64 \<times> string, string) btmap"
  st_token_seller :: "(string \<times> string, string) btmap"
  st_token_trade :: "(string \<times> u64 \<times> u32, token_trade) btmap"
  st_pq_commit :: "(string, u8) btmap"
  st_pq_key :: "(string, u8) btmap"
  st_finality :: "(u64, finality_cert) btmap"
  st_equivocation :: "(string \<times> u64, equivocation_proof) btmap"
  st_vote_index :: bool
  st_last_height :: "u64 option"
  st_tx_count :: "u64 option"
  st_undo_enabled :: bool
  st_generation :: u64

definition store_empty :: store where
  "store_empty = \<lparr>st_blocks = [], st_block_ids = [], st_txs = [], st_wallets = [], st_wallet_pk = [],
     st_wallet_username = [], st_tx_list = [], st_wallet_tx = [], st_locks = [], st_rounds = [],
     st_missed_total = [], st_missed_at = [], st_undo = [], st_votes = [], st_sobj_name = [],
     st_sobj_owner = [], st_market = [], st_token_owner = [], st_token_symbol = [], st_token_order = [],
     st_token_book = [], st_token_seller = [], st_token_trade = [], st_pq_commit = [], st_pq_key = [],
     st_finality = [], st_equivocation = [], st_vote_index = False, st_last_height = None,
     st_tx_count = None, st_undo_enabled = False, st_generation = 0\<rparr>"

section \<open>Blocks and transactions\<close>

text \<open>\<open>Ok(match opt { Some(v) => Some(f(v)?), None => None })\<close>, and \<open>collect()\<close> into a \<open>Result\<close>.\<close>

definition transpose_opt :: "'a res option \<Rightarrow> 'a option res" where
  "transpose_opt m = (case m of None \<Rightarrow> Inr None | Some r \<Rightarrow> rbind r (\<lambda>x. Inr (Some x)))"

fun collect :: "'a res list \<Rightarrow> 'a list res" where
  "collect [] = Inr []"
| "collect (r # rs) = rbind r (\<lambda>x. rbind (collect rs) (\<lambda>xs. Inr (x # xs)))"

definition get_block_by_height :: "crypto \<Rightarrow> network \<Rightarrow> store \<Rightarrow> u64 \<Rightarrow> block option res" where
  "get_block_by_height E n s h = transpose_opt (map_option (\<lambda>v. decode_block E v n) (bt_get (st_blocks s) h))"

definition get_block_by_id :: "crypto \<Rightarrow> network \<Rightarrow> store \<Rightarrow> string \<Rightarrow> block option res" where
  "get_block_by_id E n s i =
     (case bt_get (st_block_ids s) i of None \<Rightarrow> Inr None | Some h \<Rightarrow> get_block_by_height E n s h)"

definition get_last_height :: "store \<Rightarrow> u64" where
  "get_last_height s = unwrap_or 0 (st_last_height s)"

definition get_last_block :: "crypto \<Rightarrow> network \<Rightarrow> store \<Rightarrow> block option res" where
  "get_last_block E n s =
     (let h = get_last_height s in if h = 0 then Inr None else get_block_by_height E n s h)"

definition get_blocks :: "crypto \<Rightarrow> network \<Rightarrow> store \<Rightarrow> nat \<Rightarrow> nat \<Rightarrow> block list res" where
  "get_blocks E n s offset limit =
     collect (map (\<lambda>kv. decode_block E (snd kv) n) (take limit (drop offset (rev (st_blocks s)))))"

definition get_blocks_from :: "crypto \<Rightarrow> network \<Rightarrow> store \<Rightarrow> u64 \<Rightarrow> u64 \<Rightarrow> block list res" where
  "get_blocks_from E n s from limit =
     collect (map (\<lambda>kv. decode_block E (snd kv) n)
       (filter (\<lambda>kv. from \<le> fst kv \<and> fst kv < saturating_add from limit) (st_blocks s)))"

definition get_transaction :: "crypto \<Rightarrow> network \<Rightarrow> store \<Rightarrow> string \<Rightarrow> transaction option res" where
  "get_transaction E n s i =
     (case bt_get (st_txs s) i of None \<Rightarrow> Inr None
      | Some h \<Rightarrow>
          rbind (get_block_by_height E n s h) (\<lambda>mb.
          case mb of None \<Rightarrow> Inr None
          | Some b \<Rightarrow> Inr (find (\<lambda>tx. tx_id tx = Some i) (b_transactions b))))"

definition get_transaction_with_timestamp ::
  "crypto \<Rightarrow> network \<Rightarrow> store \<Rightarrow> string \<Rightarrow> (transaction \<times> u32) option res" where
  "get_transaction_with_timestamp E n s i =
     (case bt_get (st_txs s) i of None \<Rightarrow> Inr None
      | Some h \<Rightarrow>
          rbind (get_block_by_height E n s h) (\<lambda>mb.
          case mb of None \<Rightarrow> Inr None
          | Some b \<Rightarrow> Inr (map_option (\<lambda>tx. (tx, b_timestamp b))
              (find (\<lambda>tx. tx_id tx = Some i) (b_transactions b)))))"

definition transaction_count :: "store \<Rightarrow> u64" where
  "transaction_count s = unwrap_or 0 (st_tx_count s)"

text \<open>The height-ordered index of one wallet (or of the chain), restricted to a range of heights.\<close>

record tx_index_entry =
  ie_height :: u64
  ie_seq :: u32
  ie_id :: string

definition transaction_index :: "store \<Rightarrow> string option \<Rightarrow> u64 \<times> u64 \<Rightarrow> bool \<Rightarrow> tx_index_entry list" where
  "transaction_index s address heights ascending =
     (let entries = (case address of
            None \<Rightarrow> map (\<lambda>((h, q), i). \<lparr>ie_height = h, ie_seq = q, ie_id = i\<rparr>) (st_tx_list s)
          | Some a \<Rightarrow> map (\<lambda>((_, h, q), i). \<lparr>ie_height = h, ie_seq = q, ie_id = i\<rparr>)
              (filter (\<lambda>((a', _, _), _). a' = a) (st_wallet_tx s)));
          entries = filter (\<lambda>e. fst heights \<le> ie_height e \<and> ie_height e \<le> snd heights) entries
      in if ascending then entries else rev entries)"

definition transaction_ids :: "store \<Rightarrow> string option \<Rightarrow> string list" where
  "transaction_ids s address = map ie_id (transaction_index s address (0, u64_max) False)"

definition transaction_index_count :: "store \<Rightarrow> string option \<Rightarrow> u64 \<times> u64 \<Rightarrow> u64" where
  "transaction_index_count s address heights =
     (if address = None \<and> heights = (0, u64_max) then transaction_count s
      else word_of_nat (length (transaction_index s address heights True)))"

text \<open>\<open>height_at_or_after\<close>: the binary search over the stored heights. An unreadable block makes the
  search fail, a missing one moves the upper end down.\<close>

definition first_height :: "store \<Rightarrow> u64" where
  "first_height s = (case st_blocks s of [] \<Rightarrow> 0 | kv # _ \<Rightarrow> fst kv)"

lemma mid_bounds:
  assumes "lo < (hi :: u64)"
  shows "lo \<le> lo + (hi - lo) div 2" "lo + (hi - lo) div 2 < hi"
    "unat (lo + (hi - lo) div 2) = unat lo + (unat hi - unat lo) div 2"
    "unat (lo + (hi - lo) div 2 + 1) = unat (lo + (hi - lo) div 2) + 1"
proof -
  have lh: "unat lo < unat hi" "unat hi < 2 ^ 64"
    using assms unsigned_less [where 'a = nat and w = hi] by (simp_all add: word_less_nat_alt)
  have d: "unat ((hi - lo) div 2) = (unat hi - unat lo) div 2"
    using assms by (simp add: unat_div unat_sub less_imp_le)
  have b: "unat lo + (unat hi - unat lo) div 2 < unat hi" using lh by linarith
  show m: "unat (lo + (hi - lo) div 2) = unat lo + (unat hi - unat lo) div 2"
    using b lh d by (subst unat_add_lem [THEN iffD1]) auto
  show "lo \<le> lo + (hi - lo) div 2" "lo + (hi - lo) div 2 < hi"
    using b m by (simp_all add: word_le_nat_alt word_less_nat_alt)
  show "unat (lo + (hi - lo) div 2 + 1) = unat (lo + (hi - lo) div 2) + 1"
    using b lh m by (subst unat_add_lem [THEN iffD1]) auto
qed

lemma mid_measure:
  assumes "lo < (hi :: u64)"
  shows "unat hi - unat (lo + (hi - lo) div 2 + 1) < unat hi - unat lo"
    "unat (lo + (hi - lo) div 2) - unat lo < unat hi - unat lo"
  using mid_bounds [OF assms] assms unfolding word_less_nat_alt word_le_nat_alt by linarith+

function search_height :: "(u64 \<Rightarrow> block option res) \<Rightarrow> u32 \<Rightarrow> u64 \<Rightarrow> u64 \<Rightarrow> u64 res" where
  "search_height get ts lo hi =
     (if lo < hi then
        (let mid = lo + (hi - lo) div 2 in
         case get mid of
           Inl e \<Rightarrow> Inl e
         | Inr (Some b) \<Rightarrow>
             if b_timestamp b < ts then search_height get ts (mid + 1) hi else search_height get ts lo mid
         | Inr None \<Rightarrow> search_height get ts lo mid)
      else Inr lo)"
  by pat_completeness auto
termination
  by (relation "measure (\<lambda>(get, ts, lo, hi). unat hi - unat lo)") (simp_all add: mid_measure)

declare search_height.simps [simp del]

definition height_at_or_after :: "crypto \<Rightarrow> network \<Rightarrow> store \<Rightarrow> u32 \<Rightarrow> u64 res" where
  "height_at_or_after E n s ts =
     search_height (get_block_by_height E n s) ts (max (first_height s) 1) (get_last_height s + 1)"

definition heights_for_timestamps ::
  "crypto \<Rightarrow> network \<Rightarrow> store \<Rightarrow> u32 option \<Rightarrow> u32 option \<Rightarrow> (u64 \<times> u64) option res" where
  "heights_for_timestamps E n s from to =
     (let tip = get_last_height s in
      if tip = 0 then Inr None
      else
        rbind (case from of Some f \<Rightarrow> height_at_or_after E n s f | None \<Rightarrow> Inr 1) (\<lambda>lo.
        rbind (case to of
                 Some t \<Rightarrow> rbind (height_at_or_after E n s (saturating_add t 1)) (\<lambda>h. Inr (saturating_sub h 1))
               | None \<Rightarrow> Inr tip) (\<lambda>hi.
        Inr (if lo \<le> hi \<and> lo \<le> tip then Some (lo, min hi tip) else None))))"

section \<open>Wallets, tokens and smart objects\<close>

definition get_wallet :: "store \<Rightarrow> string \<Rightarrow> wallet_state option" where
  "get_wallet s a = bt_get (st_wallets s) a"

definition find_wallet :: "store \<Rightarrow> string \<Rightarrow> wallet_state option" where
  "find_wallet s i =
     (case get_wallet s i of
        Some w \<Rightarrow> Some w
      | None \<Rightarrow>
          (case bt_get (st_wallet_pk s) i of
             Some a \<Rightarrow> get_wallet s a
           | None \<Rightarrow> (case bt_get (st_wallet_username s) i of
               Some a \<Rightarrow> get_wallet s a | None \<Rightarrow> None)))"

definition all_wallets :: "store \<Rightarrow> wallet_state list" where
  "all_wallets s = map snd (st_wallets s)"

definition token_owner_of :: "store \<Rightarrow> string \<Rightarrow> string option" where
  "token_owner_of s i = bt_get (st_token_owner s) i"

definition token_id_by_symbol :: "store \<Rightarrow> string \<Rightarrow> string option" where
  "token_id_by_symbol s symbol = bt_get (st_token_symbol s) symbol"

definition token_order_of :: "store \<Rightarrow> string \<Rightarrow> token_order option" where
  "token_order_of s i = bt_get (st_token_order s) i"

text \<open>Open asks of a token, cheapest first, then older first; the executed fills, newest first; the
  open orders of a seller.\<close>

definition token_orders :: "store \<Rightarrow> string \<Rightarrow> token_order list" where
  "token_orders s token_id =
     sort_key (\<lambda>o1. (od_price o1, od_height o1))
       (List.map_filter (\<lambda>((t, _, _), v). if t = token_id then token_order_of s v else None) (st_token_book s))"

definition token_trades :: "store \<Rightarrow> string \<Rightarrow> token_trade list" where
  "token_trades s token_id = rev (List.map_filter (\<lambda>((t, _, _), v). if t = token_id then Some v else None) (st_token_trade s))"

definition wallet_orders :: "store \<Rightarrow> string \<Rightarrow> token_order list" where
  "wallet_orders s seller =
     sort_key od_height
       (List.map_filter (\<lambda>((a, _), v). if a = seller then token_order_of s v else None) (st_token_seller s))"

definition token_state_of :: "store \<Rightarrow> string \<Rightarrow> token_state option" where
  "token_state_of s i =
     (case token_owner_of s i of None \<Rightarrow> None
      | Some a \<Rightarrow> (case get_wallet s a of None \<Rightarrow> None | Some w \<Rightarrow> bt_get (w_tokens_issued w) i))"

definition all_tokens :: "store \<Rightarrow> (string \<times> token_state) list" where
  "all_tokens s = List.map_filter (\<lambda>(i, _). map_option (Pair i) (token_state_of s i)) (st_token_owner s)"

text \<open>Holders sorted by balance descending, then address: the keys are compared as (complement, address).\<close>

definition token_holders :: "store \<Rightarrow> string \<Rightarrow> (string \<times> u64) list" where
  "token_holders s i =
     sort_key (\<lambda>(a, b). (u64_max - b, a))
       (List.map_filter (\<lambda>(_, w). map_option (Pair (w_address w)) (bt_get (w_tokens w) i)) (st_wallets s))"

definition sobj_by_name :: "store \<Rightarrow> string \<Rightarrow> u8 \<Rightarrow> string option" where
  "sobj_by_name s name ty = bt_get (st_sobj_name s) (sobj_name_key name ty)"

definition get_sobject :: "crypto \<Rightarrow> network \<Rightarrow> store \<Rightarrow> string \<Rightarrow> (string \<times> smart_object) option res" where
  "get_sobject E n s reg =
     (let found = (\<lambda>owner. case get_wallet s owner of None \<Rightarrow> None
            | Some w \<Rightarrow> map_option (Pair owner) (bt_get (w_sobjects w) reg))
      in case bt_get (st_sobj_owner s) reg of
           Some owner \<Rightarrow> Inr (found owner)
         | None \<Rightarrow>
             rbind (get_transaction E n s reg) (\<lambda>mt.
             case mt of None \<Rightarrow> Inr None
             | Some tx \<Rightarrow>
                 rbind (address_from_public_key E (tx_sender_public_key tx) (nw_pubkey_hash n)) (\<lambda>owner.
                 Inr (found owner))))"

definition all_sobjects :: "crypto \<Rightarrow> network \<Rightarrow> store \<Rightarrow> (string \<times> string \<times> smart_object) list res" where
  "all_sobjects E n s =
     rbind (collect (map (\<lambda>(_, i). rbind (get_sobject E n s i) (\<lambda>m. Inr (i, m))) (st_sobj_name s))) (\<lambda>ms.
     Inr (List.map_filter (\<lambda>(i, m). map_option (Pair i) m) ms))"

definition market_orders ::
  "store \<Rightarrow> nat \<Rightarrow> nat \<Rightarrow> (string \<times> string \<times> smart_object) list \<times> nat" where
  "market_orders s offset limit =
     (let step = (\<lambda>(i, owner) (out, seen).
            if seen + 1 \<le> offset \<or> length out \<ge> limit then (out, seen + 1)
            else (case get_wallet s owner of None \<Rightarrow> (out, seen + 1)
                  | Some w \<Rightarrow> (case bt_get (w_sobjects w) i of None \<Rightarrow> (out, seen + 1)
                      | Some rec \<Rightarrow> (out @ [(i, owner, rec)], seen + 1))))
      in fold step (st_market s) ([], 0))"

definition open_locks :: "store \<Rightarrow> lock_record list" where
  "open_locks s = map snd (st_locks s)"

definition get_lock :: "store \<Rightarrow> string \<Rightarrow> lock_record option" where
  "get_lock s i = bt_get (st_locks s) i"

text \<open>What the block effects of \<open>Ledger\<close> read.\<close>

definition store_view :: "crypto \<Rightarrow> network \<Rightarrow> store \<Rightarrow> ledger_view" where
  "store_view E n s = \<lparr>lv_wallet = get_wallet s, lv_sobject = get_sobject E n s,
     lv_token_state = token_state_of s, lv_token_owner = token_owner_of s, lv_order = token_order_of s,
     lv_transaction = get_transaction E n s\<rparr>"

section \<open>Votes and ranking\<close>

text \<open>\<open>adjust_votes\<close>: one entry moves by a signed 128-bit difference, clamped at zero.\<close>

definition move_votes :: "string \<Rightarrow> int \<Rightarrow> (string, u64) btmap \<Rightarrow> (string, u64) btmap" where
  "move_votes pk delta m =
     bt_put pk (word_of_int (max (uint (unwrap_or 0 (bt_get m pk)) + delta) 0)) m"

definition adjust_votes ::
  "(string \<times> u64) option \<Rightarrow> (string \<times> u64) option \<Rightarrow> (string, u64) btmap \<Rightarrow> (string, u64) btmap" where
  "adjust_votes before after m =
     (if before = after then m
      else case (before, after) of
        (Some (a, wa), Some (b, wb)) \<Rightarrow>
          if a = b then move_votes a (uint wb - uint wa) m
          else move_votes b (uint wb) (move_votes a (- uint wa) m)
      | (Some (a, wa), None) \<Rightarrow> move_votes a (- uint wa) m
      | (None, Some (b, wb)) \<Rightarrow> move_votes b (uint wb) m
      | (None, None) \<Rightarrow> m)"

definition delegate_votes :: "store \<Rightarrow> string \<Rightarrow> u64" where
  "delegate_votes s pk = unwrap_or 0 (bt_get (st_votes s) pk)"

definition rebuild_vote_index :: "store \<Rightarrow> store" where
  "rebuild_vote_index s =
     (let votes = fold (\<lambda>w m. case vote_weight (Some w) of None \<Rightarrow> m
              | Some (pk, weight) \<Rightarrow> bt_entry pk 0 (\<lambda>v. v + weight) m) (all_wallets s) []
      in s\<lparr>st_votes := votes, st_vote_index := True, st_generation := st_generation s + 1\<rparr>)"

definition ensure_vote_index :: "store \<Rightarrow> store" where
  "ensure_vote_index s =
     (if \<not> st_vote_index s \<and> get_last_height s > 0 then rebuild_vote_index s
      else if \<not> st_vote_index s then s\<lparr>st_vote_index := True\<rparr> else s)"

text \<open>The comparison of \<open>delegate_ranking\<close>: not resigned first, more votes first, then the public key
  (\<open>None\<close> before \<open>Some\<close>).\<close>

definition opt_key :: "string option \<Rightarrow> bool \<times> string" where
  "opt_key m = (case m of None \<Rightarrow> (False, []) | Some x \<Rightarrow> (True, x))"

definition rank_key :: "wallet_state \<times> u64 \<Rightarrow> bool \<times> u64 \<times> bool \<times> string" where
  "rank_key wv = (w_resigned (fst wv), u64_max - snd wv, opt_key (w_public_key (fst wv)))"

definition delegate_ranking :: "store \<Rightarrow> (wallet_state \<times> u64) list" where
  "delegate_ranking s =
     sort_key rank_key (List.map_filter (\<lambda>(_, a). map_option (\<lambda>w.
       (w, case w_public_key w of Some pk \<Rightarrow> delegate_votes s pk | None \<Rightarrow> 0)) (get_wallet s a))
       (st_wallet_username s))"

definition equivocations :: "store \<Rightarrow> equivocation_proof list" where
  "equivocations s = map snd (st_equivocation s)"

definition equivocation :: "store \<Rightarrow> string \<Rightarrow> equivocation_proof option" where
  "equivocation s pk =
     (case rev (filter (\<lambda>((k, _), _). k = pk) (st_equivocation s)) of [] \<Rightarrow> None | kv # _ \<Rightarrow> Some (snd kv))"

definition put_equivocation :: "equivocation_proof \<Rightarrow> store \<Rightarrow> store" where
  "put_equivocation p s = s\<lparr>st_equivocation := bt_put (ep_public_key p, ep_height p) p (st_equivocation s)\<rparr>"

definition banned_delegates :: "network \<Rightarrow> store \<Rightarrow> u64 \<Rightarrow> u64 \<Rightarrow> string list" where
  "banned_delegates n s r height =
     (if \<not> fp_slashing (ms_finality (milestone_at n (max height 1))) then []
      else dedup (map ep_public_key (filter (\<lambda>p. ep_banned_until_round p > r) (equivocations s))))"

definition active_delegates_excluding :: "store \<Rightarrow> nat \<Rightarrow> string list \<Rightarrow> delegate_rank list" where
  "active_delegates_excluding s number banned =
     map (\<lambda>(w, votes). \<lparr>dr_public_key = unwrap_or [] (w_public_key w), dr_votes = votes\<rparr>)
       (take number (filter (\<lambda>(w, _). \<not> w_resigned w \<and>
          \<not> (case w_public_key w of None \<Rightarrow> False | Some pk \<Rightarrow> pk \<in> set banned)) (delegate_ranking s)))"

definition active_delegates :: "network \<Rightarrow> store \<Rightarrow> nat \<Rightarrow> delegate_rank list res" where
  "active_delegates n s number =
     (let next = get_last_height s + 1 in
      rbind (round_info next (ucast (ms_active_delegates (milestone_at n next)))) (\<lambda>ri.
      Inr (active_delegates_excluding s number (banned_delegates n s (ri_round ri) next))))"

definition active_delegates_ranked :: "store \<Rightarrow> nat \<Rightarrow> delegate_rank list" where
  "active_delegates_ranked s number = active_delegates_excluding s number []"

definition put_finality_cert :: "finality_cert \<Rightarrow> store \<Rightarrow> store" where
  "put_finality_cert c s = s\<lparr>st_finality := bt_put (fc_height c) c (st_finality s)\<rparr>"

definition finality_cert_at :: "store \<Rightarrow> u64 \<Rightarrow> finality_cert option" where
  "finality_cert_at s h = bt_get (st_finality s) h"

definition latest_finality_cert :: "store \<Rightarrow> finality_cert option" where
  "latest_finality_cert s = (case rev (st_finality s) of [] \<Rightarrow> None | kv # _ \<Rightarrow> Some (snd kv))"

definition save_round :: "u64 \<Rightarrow> delegate_rank list \<Rightarrow> store \<Rightarrow> store" where
  "save_round round ds s = s\<lparr>st_rounds := bt_put round ds (st_rounds s)\<rparr>"

definition get_round :: "store \<Rightarrow> u64 \<Rightarrow> delegate_rank list option" where
  "get_round s round = bt_get (st_rounds s) round"

definition forging_order :: "crypto \<Rightarrow> store \<Rightarrow> u64 \<Rightarrow> delegate_rank list option" where
  "forging_order E s round = map_option (shuffle E round) (get_round s round)"

definition forging_order_or_live :: "crypto \<Rightarrow> network \<Rightarrow> store \<Rightarrow> u64 \<Rightarrow> nat \<Rightarrow> delegate_rank list res" where
  "forging_order_or_live E n s round max_delegates =
     rbind (case get_round s round of Some l \<Rightarrow> Inr l | None \<Rightarrow> active_delegates n s max_delegates) (\<lambda>l.
     Inr (shuffle E round l))"

section \<open>Missed slots\<close>

text \<open>\<open>(cur as i64 + delta).max(0) as u64\<close>: the signed 64-bit sum (it wraps), clamped at zero.\<close>

definition bump_count :: "u64 \<Rightarrow> int \<Rightarrow> u64" where
  "bump_count cur delta = (let v = cur + word_of_int delta in if sint v < 0 then 0 else v)"

definition bump_missed_total :: "string \<Rightarrow> int \<Rightarrow> store \<Rightarrow> store" where
  "bump_missed_total pk delta s =
     (let v = bump_count (unwrap_or 0 (bt_get (st_missed_total s) pk)) delta in
      s\<lparr>st_missed_total := (if v > 0 then bt_put pk v (st_missed_total s) else bt_del pk (st_missed_total s))\<rparr>)"

fun missed_loop ::
  "crypto \<Rightarrow> network \<Rightarrow> block \<Rightarrow> u32 \<Rightarrow> delegate_rank list \<Rightarrow> u64 \<Rightarrow> u64 list \<Rightarrow> missed_slot list \<Rightarrow>
   store \<Rightarrow> store \<times> missed_slot list res" where
  "missed_loop E n b bt order d [] acc s = (s, Inr acc)"
| "missed_loop E n b bt order d (slot # slots) acc s =
     (let i = unat (slot mod d) in
      if length order \<le> i then (s, Inl (Panic ''index out of bounds''))
      else
        (let pk = dr_public_key (order ! i);
             username = (case address_from_public_key E pk (nw_pubkey_hash n) of Inl _ \<Rightarrow> None
               | Inr a \<Rightarrow> (case get_wallet s a of None \<Rightarrow> None | Some w \<Rightarrow> w_username w))
         in missed_loop E n b bt order d slots
              (acc @ [\<lparr>mi_height = b_height b, mi_slot = slot, mi_timestamp = slot_start slot bt,
                       mi_public_key = pk, mi_username = username\<rparr>])
              (bump_missed_total pk 1 s)))"

definition record_missed_slots ::
  "crypto \<Rightarrow> network \<Rightarrow> u32 \<Rightarrow> block \<Rightarrow> store \<Rightarrow> store \<times> unit res" where
  "record_missed_slots E n prev_timestamp b s =
     (let ms = milestone_at n (b_height b);
          bt = ms_blocktime ms;
          d = max (ucast (ms_active_delegates ms)) 1
      in case (slot_number prev_timestamp bt, slot_number (b_timestamp b) bt) of
           (Inr prev_slot, Inr cur_slot) \<Rightarrow>
             if cur_slot \<le> prev_slot + 1 \<or> cur_slot - prev_slot - 1 > d then (s, Inr ())
             else (case forging_order E s (ri_round (round_of (b_height b) d)) of
                     None \<Rightarrow> (s, Inr ())
                   | Some order \<Rightarrow>
                       (case missed_loop E n b bt order d
                               (map word_of_nat [Suc (unat prev_slot)..<unat cur_slot]) [] s of
                          (s, Inl e) \<Rightarrow> (s, Inl e)
                        | (s, Inr ms) \<Rightarrow> (s\<lparr>st_missed_at := bt_put (b_height b) ms (st_missed_at s)\<rparr>, Inr ())))
         | (Inl e, _) \<Rightarrow> (s, Inl e)
         | (_, Inl e) \<Rightarrow> (s, Inl e))"

definition drop_missed_at :: "u64 \<Rightarrow> store \<Rightarrow> store" where
  "drop_missed_at h s =
     (case bt_get (st_missed_at s) h of None \<Rightarrow> s
      | Some ms \<Rightarrow> fold (\<lambda>m. bump_missed_total (mi_public_key m) (- 1)) ms
                    (s\<lparr>st_missed_at := bt_del h (st_missed_at s)\<rparr>))"

definition missed_count :: "store \<Rightarrow> string \<Rightarrow> u64" where
  "missed_count s pk = unwrap_or 0 (bt_get (st_missed_total s) pk)"

text \<open>Newest first, whole records until the limit is reached, then cut.\<close>

fun missed_scan :: "nat \<Rightarrow> missed_slot list \<Rightarrow> missed_slot list list \<Rightarrow> missed_slot list" where
  "missed_scan limit out [] = out"
| "missed_scan limit out (l # ls) =
     (let out = out @ rev l in if length out \<ge> limit then take limit out else missed_scan limit out ls)"

definition missed_recent :: "store \<Rightarrow> nat \<Rightarrow> missed_slot list" where
  "missed_recent s limit = missed_scan limit [] (map snd (rev (st_missed_at s)))"

definition missed_since :: "store \<Rightarrow> u64 option" where
  "missed_since s = (case st_missed_at s of [] \<Rightarrow> None | kv # _ \<Rightarrow> Some (fst kv))"

definition oldest_undo_height :: "store \<Rightarrow> u64 option" where
  "oldest_undo_height s = (case st_undo s of [] \<Rightarrow> None | kv # _ \<Rightarrow> Some (fst kv))"

end
