(* ===== verification/Chain.thy ===== *)
theory Chain
  imports Store
begin

text \<open>
  Applying and rolling back blocks: the write half of \<open>src/src/storage.rs\<close>. A sled transaction that
  aborts leaves the store untouched, so its body is a function to \<open>store res\<close>; the operations around
  it return the store next to the result, because some of their effects are committed before a later
  failure or panic.
\<close>

section \<open>Writing wallets\<close>

definition write_order :: "token_order \<Rightarrow> store \<Rightarrow> store" where
  "write_order o1 s =
     (let s = s\<lparr>st_token_order := bt_put (od_id o1) o1 (st_token_order s)\<rparr>;
          book = (od_token_id o1, od_price o1, od_id o1);
          seller = (od_seller o1, od_id o1)
      in if order_is_open o1
         then s\<lparr>st_token_book := bt_put book (od_id o1) (st_token_book s),
                st_token_seller := bt_put seller (od_id o1) (st_token_seller s)\<rparr>
         else s\<lparr>st_token_book := bt_del book (st_token_book s),
                st_token_seller := bt_del seller (st_token_seller s)\<rparr>)"

text \<open>The indexes that follow a written wallet: its public key, user name, commitment and PQ key.\<close>

definition index_wallet :: "string \<Rightarrow> wallet_state \<Rightarrow> store \<Rightarrow> store" where
  "index_wallet a w s =
     s\<lparr>st_wallet_pk := (case w_public_key w of None \<Rightarrow> st_wallet_pk s
         | Some pk \<Rightarrow> bt_put pk a (st_wallet_pk s)),
       st_wallet_username := (case w_username w of None \<Rightarrow> st_wallet_username s
         | Some u \<Rightarrow> bt_put u a (st_wallet_username s)),
       st_pq_commit := (case w_pq_commitment w of None \<Rightarrow> st_pq_commit s
         | Some c \<Rightarrow> bt_put a (pc_algorithm c) (st_pq_commit s)),
       st_pq_key := (case w_pq_key w of None \<Rightarrow> st_pq_key s
         | Some k \<Rightarrow> bt_put a (pk_algorithm k) (st_pq_key s))\<rparr>"

definition index_sobject :: "string \<Rightarrow> string \<times> smart_object \<Rightarrow> store \<Rightarrow> store" where
  "index_sobject a ir s =
     (let i = fst ir; rec = snd ir in
      s\<lparr>st_sobj_name := (case sd_name (sm_data rec) of None \<Rightarrow> st_sobj_name s
          | Some name \<Rightarrow> bt_put (sobj_name_key name (sm_type rec)) i (st_sobj_name s)),
        st_market := (if sm_price rec \<noteq> None \<and> \<not> sm_resigned rec then bt_put i a (st_market s)
          else bt_del i (st_market s))\<rparr>)"

definition index_token :: "string \<Rightarrow> string \<times> token_state \<Rightarrow> store \<Rightarrow> store" where
  "index_token a it s =
     s\<lparr>st_token_owner := bt_put (fst it) a (st_token_owner s),
       st_token_symbol := bt_put (ts_symbol (snd it)) (fst it) (st_token_symbol s)\<rparr>"

definition index_delta :: "string \<Rightarrow> wallet_delta \<Rightarrow> store \<Rightarrow> store" where
  "index_delta a d s =
     (let s = s\<lparr>st_locks := fold bt_del (wd_locks_removed d) (st_locks s)\<rparr>;
          s = s\<lparr>st_locks := fold (\<lambda>l. bt_put (lk_lock_id l) l) (wd_locks_added d) (st_locks s)\<rparr>;
          s = fold (index_sobject a) (wd_sobjects d) s;
          s = fold (index_token a) (wd_tokens_issued d) s;
          s = s\<lparr>st_sobj_owner := fold (\<lambda>(i, ow). bt_put i ow) (wd_sobj_owner d) (st_sobj_owner s)\<rparr>;
          s = fold write_order (map snd (wd_orders d)) s
      in s\<lparr>st_token_trade := fold (\<lambda>t. bt_put (tr_token_id t, tr_height t, tr_seq t) t) (wd_trades d)
             (st_token_trade s)\<rparr>)"

text \<open>One iteration of \<open>write_wallets_undo\<close>: the new store, the undo entry and the new state.\<close>

definition write_wallet ::
  "string \<times> wallet_delta \<Rightarrow> store \<Rightarrow> (store \<times> (string \<times> wallet_state option) \<times> wallet_state) res" where
  "write_wallet ad s =
     (let a = fst ad; d = snd ad; previous = get_wallet s a in
      rbind (wallet_apply d (unwrap_or (wallet_new a) previous)) (\<lambda>w.
      let s = s\<lparr>st_votes := adjust_votes (vote_weight previous) (vote_weight (Some w)) (st_votes s)\<rparr>;
          s = s\<lparr>st_wallets := bt_put a w (st_wallets s)\<rparr>;
          s = index_wallet a w s
      in Inr (index_delta a d s, (a, previous), w)))"

definition write_wallets_undo ::
  "deltas \<Rightarrow> store \<Rightarrow> (store \<times> undo_record \<times> wallet_state list) res" where
  "write_wallets_undo ds s =
     rfold (\<lambda>ad (s, undo, out). rbind (write_wallet ad s) (\<lambda>(s, u, w). Inr (s, undo @ [u], out @ [w])))
       ds (s, [], [])"

definition update_wallet_state :: "string \<Rightarrow> int \<Rightarrow> u64 \<Rightarrow> store \<Rightarrow> (store \<times> wallet_state) res" where
  "update_wallet_state a balance nonce s =
     rbind (write_wallets_undo [(a, delta_default\<lparr>wd_balance := balance, wd_nonce := nonce\<rparr>)] s) (\<lambda>(s, _, out).
     case out of [] \<Rightarrow> Inl NotFound | w # _ \<Rightarrow> Inr (s\<lparr>st_generation := st_generation s + 1\<rparr>, w))"

section \<open>Writing blocks\<close>

definition fill_tx_id :: "crypto \<Rightarrow> transaction \<Rightarrow> transaction res" where
  "fill_tx_id E tx =
     (if tx_id tx = None then rbind (transaction_id E tx) (\<lambda>i. Inr (tx\<lparr>tx_id := Some i\<rparr>)) else Inr tx)"

definition prepare_block :: "crypto \<Rightarrow> network \<Rightarrow> block \<Rightarrow> (block \<times> bytes) res" where
  "prepare_block E n b =
     rbind (if b_id b = None then rbind (block_id E b) (\<lambda>i. Inr (b\<lparr>b_id := Some i\<rparr>)) else Inr b) (\<lambda>b.
     rbind (collect (map (fill_tx_id E) (b_transactions b))) (\<lambda>txs.
     let b = b\<lparr>b_transactions := txs\<rparr> in
     rbind (encode_block E b n) (\<lambda>encoded. Inr (b, encoded))))"

definition bump_tx_count :: "int \<Rightarrow> store \<Rightarrow> store" where
  "bump_tx_count delta s =
     (if delta = 0 then s else s\<lparr>st_tx_count := Some (bump_count (unwrap_or 0 (st_tx_count s)) delta)\<rparr>)"

definition tx_seq :: "nat \<times> transaction \<Rightarrow> u32" where
  "tx_seq itx = unwrap_or (word_of_nat (fst itx)) (tx_sequence (snd itx))"

definition index_tx :: "crypto \<Rightarrow> u8 \<Rightarrow> u64 \<Rightarrow> nat \<times> transaction \<Rightarrow> store \<Rightarrow> store res" where
  "index_tx E net h itx s =
     (case tx_id (snd itx) of None \<Rightarrow> Inr s
      | Some i \<Rightarrow>
          rbind (tx_addresses E (snd itx) net) (\<lambda>as.
          Inr (s\<lparr>st_txs := bt_put i h (st_txs s),
                 st_tx_list := bt_put (h, tx_seq itx) i (st_tx_list s),
                 st_wallet_tx := fold (\<lambda>a. bt_put (a, h, tx_seq itx) i) as (st_wallet_tx s)\<rparr>)))"

definition indexed_count :: "block \<Rightarrow> int" where
  "indexed_count b = int (length (filter (\<lambda>tx. tx_id tx \<noteq> None) (b_transactions b)))"

definition write_block :: "crypto \<Rightarrow> u8 \<Rightarrow> block \<times> bytes \<Rightarrow> store \<Rightarrow> store res" where
  "write_block E net be s =
     (let b = fst be; h = b_height b;
          s = s\<lparr>st_blocks := bt_put h (snd be) (st_blocks s),
                st_block_ids := (case b_id b of None \<Rightarrow> st_block_ids s
                  | Some i \<Rightarrow> bt_put i h (st_block_ids s))\<rparr>
      in rbind (rfold (index_tx E net h) (enumerate 0 (b_transactions b)) s) (\<lambda>s.
         let s = bump_tx_count (indexed_count b) s
         in Inr (if h > get_last_height s then s\<lparr>st_last_height := Some h\<rparr> else s)))"

definition save_block :: "crypto \<Rightarrow> network \<Rightarrow> block \<Rightarrow> store \<Rightarrow> store res" where
  "save_block E n b s =
     rbind (prepare_block E n b) (\<lambda>be.
     rbind (write_block E (nw_pubkey_hash n) be s) (\<lambda>s.
     Inr (s\<lparr>st_generation := st_generation s + 1\<rparr>)))"

section \<open>Applying\<close>

definition UNDO_DEPTH :: u64 where "UNDO_DEPTH = 1000"

definition check_tip :: "block \<Rightarrow> store \<Rightarrow> unit res" where
  "check_tip first s =
     (let last = get_last_height s in
      if last = 0 then Inr ()
      else if b_height first \<noteq> last + 1 then Inl StaleTip
      else case bt_get (st_block_ids s) (b_previous_block first) of
             None \<Rightarrow> Inr ()
           | Some prev_height \<Rightarrow> if prev_height \<noteq> last then Inl StaleTip else Inr ())"

definition snapshot_round_if_boundary :: "network \<Rightarrow> u64 \<Rightarrow> store \<Rightarrow> store res" where
  "snapshot_round_if_boundary n h s =
     (let d = max (ucast (ms_active_delegates (milestone_at n h))) 1 in
      rbind (if h = 1 \<and> get_round s 1 = None
             then rbind (active_delegates n s (unat d)) (\<lambda>l. Inr (save_round 1 l s)) else Inr s) (\<lambda>s.
      if h mod d \<noteq> 0 then Inr s
      else rbind (active_delegates n s (unat d)) (\<lambda>l. Inr (save_round (ri_next_round (round_of h d)) l s))))"

text \<open>The body of the sled transaction of \<open>apply_locked\<close>.\<close>

definition commit_batch ::
  "crypto \<Rightarrow> network \<Rightarrow> bool \<Rightarrow> (block \<times> bytes) list \<Rightarrow> deltas \<Rightarrow> store \<Rightarrow> store res" where
  "commit_batch E n undo_on prepared ds s =
     (case prepared of [] \<Rightarrow> Inl (Panic ''index out of bounds'')
      | first # _ \<Rightarrow>
          rbind (check_tip (fst first) s) (\<lambda>_.
          rbind (write_wallets_undo ds s) (\<lambda>(s, undo, _).
          rbind (rfold (write_block E (nw_pubkey_hash n)) prepared s) (\<lambda>s.
          let h = b_height (fst first) in
          Inr (if undo_on
               then s\<lparr>st_undo := (let u = bt_put h undo (st_undo s)
                        in if h > UNDO_DEPTH then bt_del (h - UNDO_DEPTH) u else u)\<rparr>
               else s)))))"

text \<open>The missed-slot statistics of a batch. An \<open>Err\<close> is logged and skipped, a panic is not.\<close>

fun missed_batch :: "crypto \<Rightarrow> network \<Rightarrow> u32 option \<Rightarrow> block list \<Rightarrow> store \<Rightarrow> store \<times> unit res" where
  "missed_batch E n prev [] s = (s, Inr ())"
| "missed_batch E n prev (b # bs) s =
     (case prev of
        None \<Rightarrow> missed_batch E n (Some (b_timestamp b)) bs s
      | Some p \<Rightarrow>
          (case record_missed_slots E n p b s of
             (s, Inl (Panic m)) \<Rightarrow> (s, Inl (Panic m))
           | (s, _) \<Rightarrow> missed_batch E n (Some (b_timestamp b)) bs s))"

definition apply_locked :: "crypto \<Rightarrow> network \<Rightarrow> block list \<Rightarrow> bool \<Rightarrow> store \<Rightarrow> store \<times> unit res" where
  "apply_locked E n blocks force_undo s =
     (let undo_on = force_undo \<or> st_undo_enabled s;
          committed =
            rbind (collect (map (prepare_block E n) blocks)) (\<lambda>prepared.
            let batch = map fst prepared in
            rbind (rfold (accumulate_deltas E n (store_view E n s) batch) batch []) (\<lambda>ds.
            rbind (commit_batch E n undo_on prepared ds s) (\<lambda>s. Inr (s, batch))))
      in case committed of
           Inl e \<Rightarrow> (s, Inl e)
         | Inr (s, batch) \<Rightarrow>
             (let s = s\<lparr>st_generation := st_generation s + 1\<rparr> in
              case snapshot_round_if_boundary n (b_height (last batch)) s of
                Inl e \<Rightarrow> (s, Inl e)
              | Inr s \<Rightarrow>
                  (let h = b_height (hd batch);
                       prev_ts = (if h > 1 then map_option b_timestamp (ok_flatten (get_block_by_height E n s (h - 1)))
                                  else None)
                   in missed_batch E n prev_ts batch s)))"

text \<open>\<open>apply_blocks\<close>: single blocks with an undo record; several blocks one by one in undo mode, else in
  batches that end at round boundaries. A failure stops the loop and keeps what is applied.\<close>

fun apply_each :: "crypto \<Rightarrow> network \<Rightarrow> bool \<Rightarrow> block list list \<Rightarrow> store \<Rightarrow> store \<times> unit res" where
  "apply_each E n undo [] s = (s, Inr ())"
| "apply_each E n undo (bs # bss) s =
     (case apply_locked E n bs undo s of
        (s, Inl e) \<Rightarrow> (s, Inl e)
      | (s, Inr _) \<Rightarrow> apply_each E n undo bss s)"

fun round_chunks :: "network \<Rightarrow> block list \<Rightarrow> block list \<Rightarrow> block list list" where
  "round_chunks n acc [] = []"
| "round_chunks n acc (b # bs) =
     (let d = max (ucast (ms_active_delegates (milestone_at n (b_height b)))) 1 in
      if b_height b mod d = 0 \<or> bs = [] then (acc @ [b]) # round_chunks n [] bs
      else round_chunks n (acc @ [b]) bs)"

definition apply_blocks :: "crypto \<Rightarrow> network \<Rightarrow> block list \<Rightarrow> store \<Rightarrow> store \<times> unit res" where
  "apply_blocks E n blocks s =
     (if blocks = [] then (s, Inr ())
      else if (st_undo_enabled s \<or> length blocks = 1) \<and> length blocks > 1
      then apply_each E n True (map (\<lambda>b. [b]) blocks) s
      else if length blocks = 1 then apply_locked E n blocks True s
      else apply_each E n False (round_chunks n [] blocks) s)"

definition apply_block :: "crypto \<Rightarrow> network \<Rightarrow> block \<Rightarrow> store \<Rightarrow> store \<times> unit res" where
  "apply_block E n b s = apply_blocks E n [b] s"

section \<open>Rolling back\<close>

text \<open>The steps of the rollback transaction, in the order of the source.\<close>

definition drop_market :: "string \<times> wallet_state option \<Rightarrow> store \<Rightarrow> store" where
  "drop_market ap s =
     (case get_wallet s (fst ap) of None \<Rightarrow> s
      | Some cur \<Rightarrow> s\<lparr>st_market := fold bt_del (map fst (w_sobjects cur)) (st_market s)\<rparr>)"

definition undo_wallet :: "string \<times> wallet_state option \<Rightarrow> store \<Rightarrow> store" where
  "undo_wallet ap s =
     (let a = fst ap; previous = snd ap; current = get_wallet s a;
          s = s\<lparr>st_votes := adjust_votes (vote_weight current) (vote_weight previous) (st_votes s)\<rparr>;
          s = s\<lparr>st_market := fold (\<lambda>(i, rec) m. if sm_price rec \<noteq> None \<and> \<not> sm_resigned rec then bt_put i a m else m)
                 (case previous of None \<Rightarrow> [] | Some w \<Rightarrow> w_sobjects w) (st_market s)\<rparr>;
          s = s\<lparr>st_locks := fold bt_del (case current of None \<Rightarrow> [] | Some w \<Rightarrow> map fst (w_locks w)) (st_locks s)\<rparr>;
          had = (\<lambda>f m. case m of None \<Rightarrow> False | Some w \<Rightarrow> f w);
          s = (if had (\<lambda>w. w_pq_commitment w \<noteq> None) current \<and> \<not> had (\<lambda>w. w_pq_commitment w \<noteq> None) previous
               then s\<lparr>st_pq_commit := bt_del a (st_pq_commit s)\<rparr> else s);
          s = (if had (\<lambda>w. w_pq_key w \<noteq> None) current \<and> \<not> had (\<lambda>w. w_pq_key w \<noteq> None) previous
               then s\<lparr>st_pq_key := bt_del a (st_pq_key s)\<rparr> else s)
      in case previous of
           Some w \<Rightarrow> s\<lparr>st_wallets := bt_put a w (st_wallets s),
                       st_locks := fold (\<lambda>l. bt_put (lk_lock_id l) l) (map snd (w_locks w)) (st_locks s)\<rparr>
         | None \<Rightarrow>
             s\<lparr>st_wallets := bt_del a (st_wallets s),
               st_wallet_pk := (case current of None \<Rightarrow> st_wallet_pk s | Some c \<Rightarrow>
                 (case w_public_key c of None \<Rightarrow> st_wallet_pk s | Some pk \<Rightarrow> bt_del pk (st_wallet_pk s))),
               st_wallet_username := (case current of None \<Rightarrow> st_wallet_username s | Some c \<Rightarrow>
                 (case w_username c of None \<Rightarrow> st_wallet_username s | Some u \<Rightarrow> bt_del u (st_wallet_username s)))\<rparr>)"

definition previous_owners :: "undo_record \<Rightarrow> (string, string) btmap" where
  "previous_owners undo =
     fold (\<lambda>(a, previous) m. fold (\<lambda>i. bt_put i a)
       (case previous of None \<Rightarrow> [] | Some w \<Rightarrow> map fst (w_sobjects w)) m) undo []"

definition remove_order :: "string \<Rightarrow> token_order \<Rightarrow> store \<Rightarrow> store" where
  "remove_order oid o1 s =
     s\<lparr>st_token_book := bt_del (od_token_id o1, od_price o1, od_id o1) (st_token_book s),
       st_token_seller := bt_del (od_seller o1, od_id o1) (st_token_seller s),
       st_token_order := bt_del oid (st_token_order s)\<rparr>"

definition undo_order :: "u64 \<Rightarrow> nat \<times> transaction \<Rightarrow> store \<Rightarrow> store" where
  "undo_order h itx s =
     (let tx = snd itx in
      case token_asset_of tx of None \<Rightarrow> s
      | Some a \<Rightarrow>
          (let s = (if tx_type tx = TOKEN_BUY
                    then s\<lparr>st_token_trade := bt_del (ta_id a, h, tx_seq itx) (st_token_trade s)\<rparr> else s)
           in if tx_type tx = TOKEN_SELL then
                (let oid = unwrap_or [] (tx_id tx) in
                 case token_order_of s oid of None \<Rightarrow> s | Some o1 \<Rightarrow> remove_order oid o1 s)
              else if tx_type tx = TOKEN_BUY \<or> tx_type tx = TOKEN_CANCEL then
                (case token_order_of s (unwrap_or [] (ta_order_id a)) of None \<Rightarrow> s
                 | Some o1 \<Rightarrow>
                     (let o1 = (if tx_type tx = TOKEN_BUY
                           then o1\<lparr>od_filled := saturating_sub (od_filled o1) (unwrap_or 0 (ta_amount a)),
                                   od_fills := filter (\<lambda>f. Some f \<noteq> tx_id tx) (od_fills o1)\<rparr> else o1)
                      in write_order (o1\<lparr>od_closed := None\<rparr>) s))
              else s))"

text \<open>The parts of the loop over the block's transactions: the name of a registration, the owner before
  a transfer or purchase, the registry of a token init, and the transaction indexes.\<close>

definition undo_name :: "transaction \<Rightarrow> store \<Rightarrow> store" where
  "undo_name tx s =
     (case sobj_asset_of tx of None \<Rightarrow> s
      | Some e \<Rightarrow>
          if so_action e = ACTION_REGISTER then
            (case sd_name (so_data e) of None \<Rightarrow> s
             | Some name \<Rightarrow> s\<lparr>st_sobj_name := bt_del (sobj_name_key name (so_type e)) (st_sobj_name s)\<rparr>)
          else s)"

definition restore_owner :: "string \<Rightarrow> string \<Rightarrow> store \<Rightarrow> store" where
  "restore_owner reg owner s =
     s\<lparr>st_sobj_owner := bt_put reg owner (st_sobj_owner s),
       st_token_owner := (if bt_get (st_token_owner s) reg \<noteq> None
         then bt_put reg owner (st_token_owner s) else st_token_owner s)\<rparr>"

definition undo_owner :: "crypto \<Rightarrow> u8 \<Rightarrow> (string, string) btmap \<Rightarrow> transaction \<Rightarrow> store \<Rightarrow> store res" where
  "undo_owner E net owners tx s =
     (case sobj_asset_of tx of None \<Rightarrow> Inr s
      | Some e \<Rightarrow>
          if so_action e = ACTION_TRANSFER \<or> so_action e = ACTION_BUY then
            (case so_registration_id e of None \<Rightarrow> Inr s
             | Some reg \<Rightarrow>
                 rbind (case bt_get owners reg of Some ow \<Rightarrow> Inr ow
                        | None \<Rightarrow> address_from_public_key E (tx_sender_public_key tx) net) (\<lambda>owner.
                 Inr (restore_owner reg owner s)))
          else Inr s)"

definition undo_init :: "(string, string) btmap \<Rightarrow> transaction \<Rightarrow> store \<Rightarrow> store" where
  "undo_init symbols tx s =
     (if tx_type_group tx = TYPE_GROUP_TOKEN \<and> tx_type tx = TOKEN_INIT then
        (case token_asset_of tx of None \<Rightarrow> s
         | Some a \<Rightarrow> s\<lparr>st_token_owner := bt_del (ta_id a) (st_token_owner s),
             st_token_symbol := fold bt_del (map fst (filter (\<lambda>(_, t). t = ta_id a) symbols)) (st_token_symbol s)\<rparr>)
      else s)"

definition unindex_tx :: "crypto \<Rightarrow> u8 \<Rightarrow> u64 \<Rightarrow> string \<Rightarrow> nat \<times> transaction \<Rightarrow> store \<Rightarrow> store res" where
  "unindex_tx E net h i itx s =
     rbind (tx_addresses E (snd itx) net) (\<lambda>as.
     Inr (s\<lparr>st_txs := bt_del i (st_txs s),
            st_tx_list := bt_del (h, tx_seq itx) (st_tx_list s),
            st_wallet_tx := fold (\<lambda>a. bt_del (a, h, tx_seq itx)) as (st_wallet_tx s)\<rparr>))"

definition undo_tx ::
  "crypto \<Rightarrow> u8 \<Rightarrow> u64 \<Rightarrow> (string, string) btmap \<Rightarrow> (string, string) btmap \<Rightarrow> nat \<times> transaction \<Rightarrow>
   store \<Rightarrow> store res" where
  "undo_tx E net h owners symbols itx s =
     (case tx_id (snd itx) of None \<Rightarrow> Inr s
      | Some i \<Rightarrow>
          rbind (undo_owner E net owners (snd itx) (undo_name (snd itx) s)) (\<lambda>s.
          unindex_tx E net h i itx (undo_init symbols (snd itx) s)))"

text \<open>The rollback transaction as a whole.\<close>

definition rollback_commit :: "crypto \<Rightarrow> network \<Rightarrow> u64 \<Rightarrow> block \<Rightarrow> undo_record \<Rightarrow> store \<Rightarrow> store res" where
  "rollback_commit E n h b undo s =
     (let symbols = (if list_ex (\<lambda>t. tx_type_group t = TYPE_GROUP_TOKEN) (b_transactions b)
                     then st_token_symbol s else []);
          s = fold drop_market undo s;
          s = fold undo_wallet undo s;
          s = fold (undo_order h) (filter (\<lambda>itx. tx_type_group (snd itx) = TYPE_GROUP_TOKEN)
                (rev (enumerate 0 (b_transactions b)))) s
      in rbind (rfold (undo_tx E (nw_pubkey_hash n) h (previous_owners undo) symbols)
                 (enumerate 0 (b_transactions b)) s) (\<lambda>s.
         let s = bump_tx_count (- indexed_count b) s in
         Inr (s\<lparr>st_block_ids := (case b_id b of None \<Rightarrow> st_block_ids s | Some i \<Rightarrow> bt_del i (st_block_ids s)),
                st_blocks := bt_del h (st_blocks s), st_undo := bt_del h (st_undo s),
                st_last_height := Some (h - 1)\<rparr>)))"

definition rollback_last_block :: "crypto \<Rightarrow> network \<Rightarrow> store \<Rightarrow> store \<times> u64 res" where
  "rollback_last_block E n s =
     (let h = get_last_height s in
      if h \<le> 1 then (s, Inl (Sync ''cannot roll back the genesis block''))
      else
        (let final = (case latest_finality_cert s of None \<Rightarrow> None
               | Some c \<Rightarrow> if fc_height c \<ge> h then Some c else None)
         in if final \<noteq> None \<and> fp_active (ms_finality (milestone_at n h))
            then (s, Inl (Sync ''FinalityViolation''))
            else
              (let s = (case final of None \<Rightarrow> s
                    | Some c \<Rightarrow> s\<lparr>st_finality := bt_del (fc_height c) (st_finality s)\<rparr>)
               in case rbind (get_block_by_height E n s h) (\<lambda>mb.
                       rbind (ok_or NotFound mb) (\<lambda>b.
                       rbind (ok_or (Sync ''no undo record'') (bt_get (st_undo s) h)) (\<lambda>undo.
                       rollback_commit E n h b undo s))) of
                    Inl e \<Rightarrow> (s, Inl e)
                  | Inr s \<Rightarrow>
                      (let s = s\<lparr>st_generation := st_generation s + 1\<rparr>;
                           s = drop_missed_at h s;
                           d = max (ucast (ms_active_delegates (milestone_at n h))) 1;
                           s = (if h mod d = 0
                                then s\<lparr>st_rounds := bt_del (ri_next_round (round_of h d)) (st_rounds s)\<rparr> else s)
                       in (s, Inr (h - 1))))))"

text \<open>\<open>rollback_to\<close>: every successful step lowers the tip by one, so the tip itself bounds the loop
  (\<open>rollback_to_reaches\<close>).\<close>

fun rollback_loop :: "nat \<Rightarrow> crypto \<Rightarrow> network \<Rightarrow> u64 \<Rightarrow> u64 \<Rightarrow> store \<Rightarrow> store \<times> u64 res" where
  "rollback_loop 0 E n height tip s = (s, Inr tip)"
| "rollback_loop (Suc k) E n height tip s =
     (if tip > height then
        (case rollback_last_block E n s of
           (s, Inl e) \<Rightarrow> (s, Inl e)
         | (s, Inr tip) \<Rightarrow> rollback_loop k E n height tip s)
      else (s, Inr tip))"

definition rollback_to :: "crypto \<Rightarrow> network \<Rightarrow> u64 \<Rightarrow> store \<Rightarrow> store \<times> u64 res" where
  "rollback_to E n height s = rollback_loop (unat (get_last_height s)) E n height (get_last_height s) s"

end
