(* ===== verification/ChainFacts.thy ===== *)
theory ChainFacts
  imports Chain
begin

text \<open>
  Which parts of the store each operation of \<open>Chain\<close> touches, the undo record that \<open>write_wallets_undo\<close>
  leaves behind, and the vote index. The properties of \<open>ChainProps\<close> rest on these lemmas.
\<close>

section \<open>Frame lemmas\<close>

named_theorems frame \<open>parts of the store an operation leaves alone\<close>

lemma fold_frame:
  assumes "\<And>x s. p (f x s) = p s"
  shows "p (fold f xs s) = p s"
  by (induction xs arbitrary: s) (simp_all add: assms)

lemma rfold_frame:
  assumes "\<And>x s s'. f x s = Inr s' \<Longrightarrow> p s' = p s" and "rfold f xs s = Inr s'"
  shows "p s' = p s"
  using assms(2) by (induction xs arbitrary: s) (auto simp: rbind_eq_Inr assms(1))

lemma write_order_frame [frame]:
  "st_wallets (write_order o1 s) = st_wallets s"
  "st_votes (write_order o1 s) = st_votes s"
  "st_blocks (write_order o1 s) = st_blocks s"
  "st_block_ids (write_order o1 s) = st_block_ids s"
  "st_txs (write_order o1 s) = st_txs s"
  "st_tx_list (write_order o1 s) = st_tx_list s"
  "st_wallet_tx (write_order o1 s) = st_wallet_tx s"
  "st_undo (write_order o1 s) = st_undo s"
  "st_last_height (write_order o1 s) = st_last_height s"
  "st_tx_count (write_order o1 s) = st_tx_count s"
  "st_finality (write_order o1 s) = st_finality s"
  "st_wallet_username (write_order o1 s) = st_wallet_username s"
  "st_rounds (write_order o1 s) = st_rounds s"
  "st_missed_at (write_order o1 s) = st_missed_at s"
  by (simp_all add: write_order_def Let_def)

lemma index_wallet_frame [frame]:
  "st_wallets (index_wallet a w s) = st_wallets s"
  "st_votes (index_wallet a w s) = st_votes s"
  "st_blocks (index_wallet a w s) = st_blocks s"
  "st_block_ids (index_wallet a w s) = st_block_ids s"
  "st_txs (index_wallet a w s) = st_txs s"
  "st_tx_list (index_wallet a w s) = st_tx_list s"
  "st_wallet_tx (index_wallet a w s) = st_wallet_tx s"
  "st_undo (index_wallet a w s) = st_undo s"
  "st_last_height (index_wallet a w s) = st_last_height s"
  "st_tx_count (index_wallet a w s) = st_tx_count s"
  "st_finality (index_wallet a w s) = st_finality s"
  "st_rounds (index_wallet a w s) = st_rounds s"
  "st_missed_at (index_wallet a w s) = st_missed_at s"
  by (simp_all add: index_wallet_def)

lemma index_item_frame [frame]:
  "st_wallets (index_sobject a ir s) = st_wallets s" "st_wallets (index_token a it s) = st_wallets s"
  "st_votes (index_sobject a ir s) = st_votes s" "st_votes (index_token a it s) = st_votes s"
  "st_blocks (index_sobject a ir s) = st_blocks s" "st_blocks (index_token a it s) = st_blocks s"
  "st_block_ids (index_sobject a ir s) = st_block_ids s" "st_block_ids (index_token a it s) = st_block_ids s"
  "st_txs (index_sobject a ir s) = st_txs s" "st_txs (index_token a it s) = st_txs s"
  "st_tx_list (index_sobject a ir s) = st_tx_list s" "st_tx_list (index_token a it s) = st_tx_list s"
  "st_wallet_tx (index_sobject a ir s) = st_wallet_tx s" "st_wallet_tx (index_token a it s) = st_wallet_tx s"
  "st_undo (index_sobject a ir s) = st_undo s" "st_undo (index_token a it s) = st_undo s"
  "st_last_height (index_sobject a ir s) = st_last_height s" "st_last_height (index_token a it s) = st_last_height s"
  "st_tx_count (index_sobject a ir s) = st_tx_count s" "st_tx_count (index_token a it s) = st_tx_count s"
  "st_finality (index_sobject a ir s) = st_finality s" "st_finality (index_token a it s) = st_finality s"
  "st_rounds (index_sobject a ir s) = st_rounds s" "st_rounds (index_token a it s) = st_rounds s"
  "st_missed_at (index_sobject a ir s) = st_missed_at s" "st_missed_at (index_token a it s) = st_missed_at s"
  "st_wallet_username (index_sobject a ir s) = st_wallet_username s"
  "st_wallet_username (index_token a it s) = st_wallet_username s"
  by (simp_all add: index_sobject_def index_token_def Let_def)

lemma index_delta_frame [frame]:
  "st_wallets (index_delta a d s) = st_wallets s"
  "st_votes (index_delta a d s) = st_votes s"
  "st_blocks (index_delta a d s) = st_blocks s"
  "st_block_ids (index_delta a d s) = st_block_ids s"
  "st_txs (index_delta a d s) = st_txs s"
  "st_tx_list (index_delta a d s) = st_tx_list s"
  "st_wallet_tx (index_delta a d s) = st_wallet_tx s"
  "st_undo (index_delta a d s) = st_undo s"
  "st_last_height (index_delta a d s) = st_last_height s"
  "st_tx_count (index_delta a d s) = st_tx_count s"
  "st_finality (index_delta a d s) = st_finality s"
  "st_rounds (index_delta a d s) = st_rounds s"
  "st_missed_at (index_delta a d s) = st_missed_at s"
  "st_wallet_username (index_delta a d s) = st_wallet_username s"
  by (simp_all add: index_delta_def Let_def frame fold_frame [where p = st_wallets] fold_frame [where p = st_votes]
      fold_frame [where p = st_blocks] fold_frame [where p = st_block_ids] fold_frame [where p = st_txs]
      fold_frame [where p = st_tx_list] fold_frame [where p = st_wallet_tx] fold_frame [where p = st_undo]
      fold_frame [where p = st_last_height] fold_frame [where p = st_tx_count] fold_frame [where p = st_finality]
      fold_frame [where p = st_rounds] fold_frame [where p = st_missed_at] fold_frame [where p = st_wallet_username])

text \<open>The store outside the wallet families, as one value: writing wallets does not touch it.\<close>

definition chain_part :: "store \<Rightarrow> (u64, bytes) btmap \<times> (string, u64) btmap \<times> (string, u64) btmap \<times>
   (u64 \<times> u32, string) btmap \<times> (string \<times> u64 \<times> u32, string) btmap \<times> (u64, undo_record) btmap \<times> u64 option \<times>
   u64 option \<times> (u64, finality_cert) btmap \<times> (u64, delegate_rank list) btmap \<times> (u64, missed_slot list) btmap" where
  "chain_part s = (st_blocks s, st_block_ids s, st_txs s, st_tx_list s, st_wallet_tx s, st_undo s,
     st_last_height s, st_tx_count s, st_finality s, st_rounds s, st_missed_at s)"

section \<open>Writing wallets\<close>

lemma write_wallet_ok:
  assumes "write_wallet (a, d) s = Inr (s', u, w)"
  shows "wallet_apply d (unwrap_or (wallet_new a) (get_wallet s a)) = Inr w"
    and "u = (a, get_wallet s a)"
    and "st_wallets s' = bt_put a w (st_wallets s)"
    and "st_votes s' = adjust_votes (vote_weight (get_wallet s a)) (vote_weight (Some w)) (st_votes s)"
    and "chain_part s' = chain_part s"
  using assms by (auto simp: write_wallet_def Let_def rbind_eq_Inr frame chain_part_def)

text \<open>The loop with its accumulators, for induction.\<close>

definition write_step ::
  "string \<times> wallet_delta \<Rightarrow> store \<times> undo_record \<times> wallet_state list \<Rightarrow>
   (store \<times> undo_record \<times> wallet_state list) res" where
  "write_step ad acc = (case acc of (s, undo, out) \<Rightarrow>
     rbind (write_wallet ad s) (\<lambda>(s, u, w). Inr (s, undo @ [u], out @ [w])))"

lemma write_wallets_undo_step: "write_wallets_undo ds s = rfold write_step ds (s, [], [])"
  unfolding write_wallets_undo_def write_step_def by (simp add: case_prod_unfold)

lemma write_step_ok:
  "write_step (a, d) (s, undo, out) = Inr acc \<longleftrightarrow>
     (\<exists>s' w. write_wallet (a, d) s = Inr (s', (a, get_wallet s a), w) \<and> acc = (s', undo @ [(a, get_wallet s a)], out @ [w]))"
  unfolding write_step_def using write_wallet_ok(2) by (fastforce simp: rbind_eq_Inr)

lemma write_wallets_record:
  assumes "rfold write_step ds (s, undo, out) = Inr (s', undo', out')" and "distinct (map fst ds)"
  shows "undo' = undo @ map (\<lambda>ad. (fst ad, get_wallet s (fst ad))) ds"
    and "\<And>k. k \<notin> fst ` set ds \<Longrightarrow> get_wallet s' k = get_wallet s k"
    and "bt_wf (st_wallets s) \<Longrightarrow> bt_wf (st_wallets s')"
    and "chain_part s' = chain_part s"
  using assms
proof (induction ds arbitrary: s undo out)
  case (Cons ad ds)
  obtain a d where ad: "ad = (a, d)" by (cases ad)
  {
    case 1
    obtain s1 w where s1: "write_wallet (a, d) s = Inr (s1, (a, get_wallet s a), w)"
      "rfold write_step ds (s1, undo @ [(a, get_wallet s a)], out @ [w]) = Inr (s', undo', out')"
      using 1 unfolding ad by (auto simp: rbind_eq_Inr write_step_ok)
    have same: "get_wallet s1 k = get_wallet s k" if "k \<noteq> a" for k
      using write_wallet_ok(3) [OF s1(1)] that by (simp add: get_wallet_def)
    have "undo' = (undo @ [(a, get_wallet s a)]) @ map (\<lambda>ad. (fst ad, get_wallet s1 (fst ad))) ds"
      using Cons.IH(1) [OF s1(2)] 1(2) by simp
    also have "map (\<lambda>ad. (fst ad, get_wallet s1 (fst ad))) ds = map (\<lambda>ad. (fst ad, get_wallet s (fst ad))) ds"
    proof (rule map_cong [OF refl])
      fix x assume "x \<in> set ds"
      then have "fst x \<noteq> a" using 1(2) ad by auto
      then show "(fst x, get_wallet s1 (fst x)) = (fst x, get_wallet s (fst x))" by (simp add: same)
    qed
    finally show ?case by (simp add: ad)
  next
    case (2 k)
    then obtain s1 w undo1 out1 where s1: "write_wallet (a, d) s = Inr (s1, (a, get_wallet s a), w)"
      "rfold write_step ds (s1, undo1, out1) = Inr (s', undo', out')"
      unfolding ad by (auto simp: rbind_eq_Inr write_step_ok)
    then show ?case
      using Cons.IH(2) [OF _ s1(2)] 2 write_wallet_ok(3) [OF s1(1)] by (simp add: ad get_wallet_def)
  next
    case 3
    then obtain s1 w undo1 out1 where s1: "write_wallet (a, d) s = Inr (s1, (a, get_wallet s a), w)"
      "rfold write_step ds (s1, undo1, out1) = Inr (s', undo', out')"
      unfolding ad by (auto simp: rbind_eq_Inr write_step_ok)
    then show ?case
      using Cons.IH(3) [OF _ s1(2)] 3 write_wallet_ok(3) [OF s1(1)] by simp
  next
    case 4
    then obtain s1 w undo1 out1 where s1: "write_wallet (a, d) s = Inr (s1, (a, get_wallet s a), w)"
      "rfold write_step ds (s1, undo1, out1) = Inr (s', undo', out')"
      unfolding ad by (auto simp: rbind_eq_Inr write_step_ok)
    then show ?case
      using Cons.IH(4) [OF s1(2)] 4 write_wallet_ok(5) [OF s1(1)] by simp
  }
qed auto

section \<open>Undoing wallets\<close>

lemma undo_wallet_frame [frame]:
  "st_wallets (undo_wallet ap s) = bt.write_back ap (st_wallets s)"
  "st_votes (undo_wallet ap s) = adjust_votes (vote_weight (get_wallet s (fst ap))) (vote_weight (snd ap)) (st_votes s)"
  "chain_part (undo_wallet ap s) = chain_part s"
  by (cases "snd ap"; simp add: undo_wallet_def Let_def bt.write_back_def chain_part_def)+

lemma drop_market_frame [frame]:
  "st_wallets (drop_market ap s) = st_wallets s" "st_votes (drop_market ap s) = st_votes s"
  "chain_part (drop_market ap s) = chain_part s"
  by (cases "get_wallet s (fst ap)"; simp add: drop_market_def chain_part_def)+

lemma remove_order_frame [frame]:
  "st_wallets (remove_order oid o1 s) = st_wallets s" "st_votes (remove_order oid o1 s) = st_votes s"
  "chain_part (remove_order oid o1 s) = chain_part s"
  by (simp_all add: remove_order_def chain_part_def)

lemma undo_order_frame [frame]:
  "st_wallets (undo_order h itx s) = st_wallets s" "st_votes (undo_order h itx s) = st_votes s"
  "chain_part (undo_order h itx s) = chain_part s"
proof -
  have w: "chain_part (write_order o1 s) = chain_part s" for o1 s
    by (simp add: chain_part_def frame)
  have t: "chain_part (s\<lparr>st_token_trade := m\<rparr>) = chain_part s" for m
    by (simp add: chain_part_def)
  show "st_wallets (undo_order h itx s) = st_wallets s" "st_votes (undo_order h itx s) = st_votes s"
    "chain_part (undo_order h itx s) = chain_part s"
    by (auto simp: undo_order_def Let_def frame w t split: option.splits)
qed

lemma fold_undo_wallets:
  "st_wallets (fold undo_wallet us s) = fold bt.write_back us (st_wallets s)"
  by (induction us arbitrary: s) (simp_all add: frame)

text \<open>Writing the deltas and undoing them with the record gives the wallets back.\<close>

lemma wallets_restored:
  assumes "write_wallets_undo ds s = Inr (s1, undo, out)" and "distinct (map fst ds)" and "bt_wf (st_wallets s)"
    and "st_wallets s2 = st_wallets s1"
  shows "st_wallets (fold undo_wallet undo s2) = st_wallets s"
proof -
  have rec: "rfold write_step ds (s, [], []) = Inr (s1, undo, out)"
    using assms(1) by (simp add: write_wallets_undo_step)
  note facts = write_wallets_record [OF rec assms(2)]
  have wf1: "bt_wf (st_wallets s1)" using facts(3) assms(3) by simp
  have "fold bt.write_back undo (st_wallets s1) = st_wallets s"
  proof (rule bt.restore_all [OF assms(3) wf1])
    fix k v assume "(k, v) \<in> set undo"
    then show "v = bt_get (st_wallets s) k" using facts(1) by (auto simp: get_wallet_def)
  next
    fix k assume "k \<notin> fst ` set undo"
    then have "k \<notin> fst ` set ds" using facts(1) by force
    then show "bt_get (st_wallets s1) k = bt_get (st_wallets s) k"
      using facts(2) by (simp add: get_wallet_def)
  qed
  then show ?thesis by (simp add: fold_undo_wallets assms(4))
qed

section \<open>The vote index\<close>

text \<open>The weight a wallet gives to a delegate, the sum over all wallets, and the index invariant: the
  incrementally maintained entry of every delegate is that sum.\<close>

definition weight_for :: "string \<Rightarrow> wallet_state option \<Rightarrow> int" where
  "weight_for pk w = (case vote_weight w of None \<Rightarrow> 0 | Some (k, v) \<Rightarrow> if k = pk then uint v else 0)"

definition votes_for :: "string \<Rightarrow> (string, wallet_state) btmap \<Rightarrow> int" where
  "votes_for pk m = bt_sum (\<lambda>w. weight_for pk (Some w)) m"

definition vote_index_ok :: "store \<Rightarrow> bool" where
  "vote_index_ok s \<longleftrightarrow> (\<forall>pk. uint (delegate_votes s pk) = votes_for pk (st_wallets s))"

lemma weight_for_nonneg [simp]: "0 \<le> weight_for pk w"
  by (simp add: weight_for_def split: option.split prod.split)

lemma weight_for_None [simp]: "weight_for pk None = 0"
  by (simp add: weight_for_def vote_weight_def)

lemma votes_for_nonneg [simp]: "0 \<le> votes_for pk m"
  by (induction m) (simp_all add: votes_for_def)

lemma votes_for_put:
  "bt_wf m \<Longrightarrow> votes_for pk (bt_put k w m) = votes_for pk m + weight_for pk (Some w) - weight_for pk (bt_get m k)"
  by (simp add: votes_for_def bt_sum_put split: option.split)

lemma votes_for_del: "bt_wf m \<Longrightarrow> votes_for pk (bt_del k m) = votes_for pk m - weight_for pk (bt_get m k)"
  by (simp add: votes_for_def bt_sum_del split: option.split)

lemma weight_le_votes: "bt_wf m \<Longrightarrow> weight_for pk (bt_get m k) \<le> votes_for pk m"
  using votes_for_del [of m pk k] votes_for_nonneg [of pk "bt_del k m"] by simp

lemma get_move_votes:
  "uint (unwrap_or 0 (bt_get (move_votes a c m) pk)) =
     (if pk = a then max (uint (unwrap_or 0 (bt_get m a)) + c) 0 mod 2 ^ 64
      else uint (unwrap_or 0 (bt_get m pk)))"
  by (simp add: move_votes_def uint_word_of_int)

text \<open>One adjustment moves every entry by the difference of the two weights, as long as nothing is
  clamped and nothing wraps.\<close>

lemma adjust_votes_exact:
  assumes "\<And>pk. weight_for pk before \<le> uint (unwrap_or 0 (bt_get m pk))"
    and "\<And>pk. uint (unwrap_or 0 (bt_get m pk)) - weight_for pk before + weight_for pk after < 2 ^ 64"
  shows "uint (unwrap_or 0 (bt_get (adjust_votes (vote_weight before) (vote_weight after) m) pk))
     = uint (unwrap_or 0 (bt_get m pk)) - weight_for pk before + weight_for pk after"
proof -
  have small: "x mod 2 ^ 64 = x" if "0 \<le> x" "x < 2 ^ 64" for x :: int
    using that by simp
  have w: "weight_for k x = (case vote_weight x of None \<Rightarrow> 0 | Some (k', v) \<Rightarrow> if k' = k then uint v else 0)" for k x
    by (rule weight_for_def)
  show ?thesis
  proof (cases "vote_weight before")
    case None
    note b = None
    show ?thesis
    proof (cases "vote_weight after")
      case None
      with b show ?thesis by (simp add: adjust_votes_def w)
    next
      case (Some bw)
      with b assms [of pk] show ?thesis
        by (cases bw) (auto simp: adjust_votes_def w get_move_votes)
    qed
  next
    case (Some aw)
    then obtain a wa where b: "vote_weight before = Some (a, wa)" by (cases aw) auto
    show ?thesis
    proof (cases "vote_weight after")
      case None
      with b assms [of pk] show ?thesis
        by (auto simp: adjust_votes_def w get_move_votes)
    next
      case (Some bw)
      then obtain c wc where c: "vote_weight after = Some (c, wc)" by (cases bw) auto
      let ?cur = "uint (unwrap_or 0 (bt_get m pk))"
      have "0 \<le> uint wc" "0 \<le> ?cur" by simp_all
      moreover have "pk = a \<Longrightarrow> uint wa \<le> ?cur" using assms(1) [of pk] b by (simp add: w)
      ultimately have "max (?cur + uint wc) 0 = ?cur + uint wc"
        "pk = a \<Longrightarrow> max (?cur + (uint wc - uint wa)) 0 = ?cur + (uint wc - uint wa)"
        by linarith+
      then show ?thesis
        using b c assms [of pk] by (auto simp: adjust_votes_def w get_move_votes)
    qed
  qed
qed

lemma vote_index_put:
  assumes "bt_wf (st_wallets s)" and "vote_index_ok s"
    and votes: "st_votes s' = adjust_votes (vote_weight (get_wallet s a)) (vote_weight w) (st_votes s)"
    and wallets: "st_wallets s' = bt.write_back (a, w) (st_wallets s)"
    and small: "\<And>pk. votes_for pk (st_wallets s) + weight_for pk w < 2 ^ 64"
  shows "vote_index_ok s'"
  unfolding vote_index_ok_def
proof
  fix pk
  have idx: "uint (unwrap_or 0 (bt_get (st_votes s) k)) = votes_for k (st_wallets s)" for k
    using assms(2) by (simp add: vote_index_ok_def delegate_votes_def)
  have "uint (delegate_votes s' pk) = votes_for pk (st_wallets s) - weight_for pk (get_wallet s a) + weight_for pk w"
    unfolding delegate_votes_def votes
  proof (subst adjust_votes_exact)
    show "weight_for k (get_wallet s a) \<le> uint (unwrap_or 0 (bt_get (st_votes s) k))" for k
      using weight_le_votes [OF assms(1)] by (simp add: idx get_wallet_def)
    show "uint (unwrap_or 0 (bt_get (st_votes s) k)) - weight_for k (get_wallet s a) + weight_for k w < 2 ^ 64" for k
      using small [of k] weight_for_nonneg [of k "get_wallet s a"] unfolding idx by linarith
  qed (simp add: idx)
  also have "\<dots> = votes_for pk (st_wallets s')"
    using assms(1) wallets
    by (cases w) (simp_all add: bt.write_back_def votes_for_put votes_for_del get_wallet_def)
  finally show "uint (delegate_votes s' pk) = votes_for pk (st_wallets s')" .
qed

end
