(* ===== verification/VoteIndex.thy ===== *)
theory VoteIndex
  imports ChainFacts
begin

text \<open>
  The vote index of \<open>src/src/storage.rs\<close>: the entries maintained wallet by wallet are the vote sums a
  full rebuild computes, and the delegate ranking built on them is ordered and complete.
\<close>

section \<open>The incremental index\<close>

definition weight_sum :: "string \<Rightarrow> wallet_state list \<Rightarrow> int" where
  "weight_sum pk ws = (\<Sum>w\<leftarrow>ws. weight_for pk (Some w))"

lemma weight_sum_nonneg [simp]: "0 \<le> weight_sum pk ws"
  by (induction ws) (simp_all add: weight_sum_def)

lemma write_back_put: "bt.write_back (a, Some w) m = bt_put a w m"
  by (simp add: bt.write_back_def)

lemma write_step_out:
  "rfold write_step ds (s, undo, out) = Inr (s', undo', out') \<Longrightarrow> \<exists>zs. out' = out @ zs"
proof (induction ds arbitrary: s undo out)
  case (Cons ad ds)
  obtain a d where "ad = (a, d)" by (cases ad)
  with Cons obtain s1 u1 w where "rfold write_step ds (s1, u1, out @ [w]) = Inr (s', undo', out')"
    by (auto simp: rbind_eq_Inr write_step_ok)
  from Cons.IH [OF this] show ?case by auto
qed auto

lemma vote_index_writes:
  assumes "rfold write_step ds (s, undo, out) = Inr (s', undo', out')"
    and "bt_wf (st_wallets s)" and "vote_index_ok s"
    and "\<And>pk. votes_for pk (st_wallets s) + weight_sum pk (drop (length out) out') < 2 ^ 64"
  shows "vote_index_ok s'"
  using assms
proof (induction ds arbitrary: s undo out)
  case (Cons ad ds)
  obtain a d where ad: "ad = (a, d)" by (cases ad)
  obtain s1 w where s1: "write_wallet (a, d) s = Inr (s1, (a, get_wallet s a), w)"
    and rest: "rfold write_step ds (s1, undo @ [(a, get_wallet s a)], out @ [w]) = Inr (s', undo', out')"
    using Cons.prems(1) unfolding ad by (auto simp: rbind_eq_Inr write_step_ok)
  obtain zs where "out' = (out @ [w]) @ zs" using write_step_out [OF rest] by blast
  then have out': "drop (length out) out' = w # drop (length (out @ [w])) out'" by simp
  have bound: "votes_for pk (st_wallets s) + (weight_for pk (Some w)
      + weight_sum pk (drop (length (out @ [w])) out')) < 2 ^ 64" for pk
    using Cons.prems(4) [of pk] unfolding out' by (simp add: weight_sum_def)
  have wallets: "st_wallets s1 = bt.write_back (a, Some w) (st_wallets s)"
    using write_wallet_ok(3) [OF s1] by (simp add: write_back_put)
  have ok1: "vote_index_ok s1"
  proof (rule vote_index_put [OF Cons.prems(2,3) write_wallet_ok(4) [OF s1] wallets])
    show "votes_for pk (st_wallets s) + weight_for pk (Some w) < 2 ^ 64" for pk
      using bound [of pk] weight_sum_nonneg [of pk "drop (length (out @ [w])) out'"] by linarith
  qed
  have le: "votes_for pk (st_wallets s1) \<le> votes_for pk (st_wallets s) + weight_for pk (Some w)" for pk
    using Cons.prems(2) weight_for_nonneg [of pk "bt_get (st_wallets s) a"]
    by (simp add: wallets write_back_put votes_for_put)
  show ?case
  proof (rule Cons.IH [OF rest _ ok1])
    show "bt_wf (st_wallets s1)" using Cons.prems(2) by (simp add: wallets write_back_put)
    show "votes_for pk (st_wallets s1) + weight_sum pk (drop (length (out @ [w])) out') < 2 ^ 64" for pk
      using bound [of pk] le [of pk] by linarith
  qed
qed auto

section \<open>The rebuild\<close>

lemma rebuild_fold:
  "unwrap_or 0 (bt_get (fold (\<lambda>w m. case vote_weight (Some w) of None \<Rightarrow> m
        | Some (k, weight) \<Rightarrow> bt_entry k 0 (\<lambda>v. v + weight) m) ws m) pk)
     = unwrap_or 0 (bt_get m pk) + word_of_int (weight_sum pk ws)"
proof (induction ws arbitrary: m)
  case (Cons w ws)
  show ?case
    by (cases "vote_weight (Some w)") (auto simp: Cons weight_sum_def weight_for_def)
qed (simp add: weight_sum_def)

lemma votes_for_all: "votes_for pk (st_wallets s) = weight_sum pk (all_wallets s)"
  by (simp add: votes_for_def bt_sum_def weight_sum_def all_wallets_def comp_def)

lemma rebuild_exact:
  assumes "votes_for pk (st_wallets s) < 2 ^ 64"
  shows "uint (delegate_votes (rebuild_vote_index s) pk) = votes_for pk (st_wallets s)"
  using assms votes_for_nonneg [of pk "st_wallets s"]
  by (simp add: delegate_votes_def rebuild_vote_index_def Let_def rebuild_fold votes_for_all uint_word_of_int)

section \<open>Properties\<close>

text \<open>C15. The incremental vote index is exact: when it agrees with the wallets before the wallets of a
  batch are written, and the vote sums stay below 64 bits, it agrees afterwards, and every entry is
  the one a full rebuild of the index from all wallets computes.\<close>

theorem vote_index_maintained:
  assumes "write_wallets_undo ds s = Inr (s', undo, out)"
    and "bt_wf (st_wallets s)" and "vote_index_ok s" and "distinct (map fst ds)"
    and "\<And>pk. votes_for pk (st_wallets s) + weight_sum pk out < 2 ^ 64"
  shows "vote_index_ok s' \<and> delegate_votes s' pk = delegate_votes (rebuild_vote_index s') pk"
proof -
  have rec: "rfold write_step ds (s, [], []) = Inr (s', undo, out)"
    using assms(1) by (simp add: write_wallets_undo_step)
  have ok: "vote_index_ok s'"
    by (rule vote_index_writes [OF rec assms(2,3)]) (use assms(5) in simp)
  then have "uint (delegate_votes s' pk) = votes_for pk (st_wallets s')"
    by (simp add: vote_index_ok_def)
  moreover from this have "votes_for pk (st_wallets s') < 2 ^ 64"
    using unsigned_less [where 'a = int and w = "delegate_votes s' pk"] by simp
  ultimately show ?thesis
    using rebuild_exact [of pk s'] ok by (simp add: word_uint_eq_iff)
qed

definition voter :: wallet_state where
  "voter = (wallet_new ''alice'')\<lparr>w_balance := 100, w_vote := Some ''D1''\<rparr>"

definition voter_store :: store where
  "voter_store = store_empty\<lparr>st_wallets := [(''alice'', voter)], st_votes := [(''D1'', 100)]\<rparr>"

definition revote :: wallet_delta where
  "revote = delta_default\<lparr>wd_balance := - 10, wd_nonce := 1, wd_vote := Some (Some ''D2'')\<rparr>"

theorem vote_index_maintained_witness:
  "\<exists>s' undo out. write_wallets_undo [(''alice'', revote)] voter_store = Inr (s', undo, out)
     \<and> vote_index_ok s' \<and> delegate_votes s' ''D2'' = delegate_votes (rebuild_vote_index s') ''D2''"
proof -
  define w where "w = voter\<lparr>w_balance := 90, w_nonce := 1, w_vote := Some ''D2''\<rparr>"
  have w: "wallet_apply revote voter = Inr w"
    by (simp add: wallet_apply_def revote_def voter_def w_def delta_default_def wallet_new_def or_keep_def
        i64_try_from_def i64_min_def i64_max_def checked_add_def saturating_add_def Let_def)
  have g: "get_wallet voter_store ''alice'' = Some voter"
    by (simp add: get_wallet_def voter_store_def store_empty_def)
  obtain s' where s': "write_wallets_undo [(''alice'', revote)] voter_store = Inr (s', [(''alice'', Some voter)], [w])"
    by (simp add: write_wallets_undo_def write_wallet_def g w Let_def)
  have f: "weight_for pk (Some voter) = (if pk = ''D1'' then 100 else 0)"
    "weight_for pk (Some w) = (if pk = ''D2'' then 90 else 0)" for pk
    by (auto simp: weight_for_def vote_weight_def voter_def w_def wallet_new_def locked_balance_def)
  have v: "votes_for pk (st_wallets voter_store) = (if pk = ''D1'' then 100 else 0)" for pk
    by (simp add: votes_for_def voter_store_def f)
  have "vote_index_ok voter_store"
    by (simp add: vote_index_ok_def v) (simp add: delegate_votes_def voter_store_def)
  moreover have "bt_wf (st_wallets voter_store)" by (simp add: voter_store_def bt_wf_def)
  moreover have "votes_for pk (st_wallets voter_store) + weight_sum pk [w] < 2 ^ 64" for pk
    by (simp add: v weight_sum_def f)
  ultimately show ?thesis using vote_index_maintained [OF s', of "''D2''"] s' by auto
qed

section \<open>The ranking\<close>

lemma complement_le: "u64_max - a \<le> u64_max - b \<longleftrightarrow> b \<le> a"
proof -
  have c: "uint (u64_max - x) = 2 ^ 64 - 1 - uint x" for x
  proof -
    have "x \<le> u64_max" by (simp add: u64_max_def word_order.extremum)
    then have "uint (u64_max - x) = uint u64_max - uint x" by (simp add: uint_minus_simple_alt)
    then show ?thesis by (simp add: u64_max_def uint_minus_one)
  qed
  show ?thesis unfolding word_le_def c by linarith
qed

lemma complement_less: "u64_max - a < u64_max - b \<longleftrightarrow> b < a"
  using complement_le [of b a] by (simp add: not_le [symmetric])

lemma ranking_sorted: "sorted_wrt (\<lambda>x y. rank_key x \<le> rank_key y) (delegate_ranking s)"
proof -
  have "sorted (map rank_key (delegate_ranking s))" by (simp add: delegate_ranking_def)
  then show ?thesis by (simp add: sorted_wrt_map)
qed

definition eligible :: "string list \<Rightarrow> wallet_state \<times> u64 \<Rightarrow> bool" where
  "eligible banned = (\<lambda>(w, _). \<not> w_resigned w \<and>
     \<not> (case w_public_key w of None \<Rightarrow> False | Some pk \<Rightarrow> pk \<in> set banned))"

definition rank_entry :: "wallet_state \<times> u64 \<Rightarrow> delegate_rank" where
  "rank_entry = (\<lambda>(w, votes). \<lparr>dr_public_key = unwrap_or [] (w_public_key w), dr_votes = votes\<rparr>)"

lemma active_excluding:
  "active_delegates_excluding s k banned = map rank_entry (take k (filter (eligible banned) (delegate_ranking s)))"
  by (simp add: active_delegates_excluding_def rank_entry_def eligible_def)

lemma eligible_votes_sorted:
  "sorted_wrt (\<lambda>x y. snd y \<le> snd x) (filter (eligible banned) (delegate_ranking s))"
proof -
  have le: "rank_key x \<le> rank_key y \<Longrightarrow> snd y \<le> snd x" if "eligible banned x" "eligible banned y" for x y
    using that by (auto simp: rank_key_def eligible_def case_prod_unfold complement_le less_le)
  show ?thesis
  proof (rule sorted_wrt_mono_rel)
    show "sorted_wrt (\<lambda>x y. rank_key x \<le> rank_key y) (filter (eligible banned) (delegate_ranking s))"
      by (rule sorted_wrt_filter [OF ranking_sorted])
    show "snd y \<le> snd x" if "x \<in> set (filter (eligible banned) (delegate_ranking s))"
      "y \<in> set (filter (eligible banned) (delegate_ranking s))" "rank_key x \<le> rank_key y" for x y
      using that by (auto intro: le)
  qed
qed

text \<open>C24. The forging set is the top of the vote: it never holds more than \<open>k\<close> delegates, each of them is registered
  and neither resigned nor excluded, their votes descend, and a delegate that is registered, neither resigned
  nor excluded, and still left out, finds the set full and every member with at least as many votes.\<close>

theorem forging_set_is_top_voted:
  fixes s k banned
  defines "l \<equiv> active_delegates_excluding s k banned"
  shows "length l \<le> k \<and> sorted_wrt (\<lambda>x y. dr_votes y \<le> dr_votes x) l
     \<and> list_all (\<lambda>d. \<exists>w' v'. (w', v') \<in> set (delegate_ranking s) \<and> d = rank_entry (w', v') \<and> \<not> w_resigned w'
         \<and> (\<forall>pk'. w_public_key w' = Some pk' \<longrightarrow> pk' \<notin> set banned)) l
     \<and> (\<forall>w v pk. (w, v) \<in> set (delegate_ranking s) \<longrightarrow> \<not> w_resigned w \<longrightarrow> w_public_key w = Some pk \<longrightarrow> pk \<notin> set banned
         \<longrightarrow> pk \<notin> dr_public_key ` set l \<longrightarrow> length l = k \<and> list_all (\<lambda>d. v \<le> dr_votes d) l)"
proof -
  define es where "es = filter (eligible banned) (delegate_ranking s)"
  have l: "l = map rank_entry (take k es)" by (simp add: l_def active_excluding es_def)
  have vs: "sorted_wrt (\<lambda>x y. snd y \<le> snd x) es" unfolding es_def by (rule eligible_votes_sorted)
  have votes: "dr_votes (rank_entry x) = snd x" for x by (simp add: rank_entry_def case_prod_unfold)
  have "sorted_wrt (\<lambda>x y. snd y \<le> snd x) (take k es @ drop k es)" using vs by simp
  then have cross: "sorted_wrt (\<lambda>x y. snd y \<le> snd x) (take k es)"
    "\<forall>x \<in> set (take k es). \<forall>y \<in> set (drop k es). snd y \<le> snd x"
    unfolding sorted_wrt_append by blast+
  have left_out: "length l = k \<and> list_all (\<lambda>d. v \<le> dr_votes d) l"
    if "(w, v) \<in> set (delegate_ranking s)" "\<not> w_resigned w" "w_public_key w = Some pk" "pk \<notin> set banned"
      "pk \<notin> dr_public_key ` set l" for w v pk
  proof -
    have "(w, v) \<in> set es" using that by (simp add: es_def eligible_def)
    moreover have "(w, v) \<notin> set (take k es)" using that(3,5) by (force simp: l rank_entry_def)
    ultimately have wv: "(w, v) \<in> set (drop k es)" by (metis append_take_drop_id UnE set_append)
    then have "length l = k" by (cases "k \<le> length es") (auto simp: l)
    moreover have "list_all (\<lambda>d. v \<le> dr_votes d) l"
      using bspec [OF bspec [OF cross(2)] wv] by (auto simp: l votes list_all_iff)
    ultimately show ?thesis ..
  qed
  have entry: "list_all (\<lambda>d. \<exists>w' v'. (w', v') \<in> set (delegate_ranking s) \<and> d = rank_entry (w', v') \<and> \<not> w_resigned w'
      \<and> (\<forall>pk'. w_public_key w' = Some pk' \<longrightarrow> pk' \<notin> set banned)) l"
    unfolding l list_all_iff
  proof
    fix d assume "d \<in> set (map rank_entry (take k es))"
    then obtain w' v' where x: "(w', v') \<in> set (take k es)" "d = rank_entry (w', v')" by auto
    from in_set_takeD [OF x(1)] have "(w', v') \<in> set (delegate_ranking s)" "eligible banned (w', v')"
      by (simp_all add: es_def)
    with x(2) show "\<exists>w' v'. (w', v') \<in> set (delegate_ranking s) \<and> d = rank_entry (w', v') \<and> \<not> w_resigned w'
        \<and> (\<forall>pk'. w_public_key w' = Some pk' \<longrightarrow> pk' \<notin> set banned)"
      by (intro exI [of _ w'] exI [of _ v']) (auto simp: eligible_def)
  qed
  have "sorted_wrt (\<lambda>x y. dr_votes y \<le> dr_votes x) l"
    using cross(1) by (simp add: l sorted_wrt_map votes)
  moreover have "length l \<le> k" by (simp add: l)
  ultimately show ?thesis using entry left_out by blast
qed

definition delegate_wallet :: "string \<Rightarrow> wallet_state" where
  "delegate_wallet name = (wallet_new name)\<lparr>w_public_key := Some name, w_username := Some name\<rparr>"

definition two_delegates :: store where
  "two_delegates = store_empty\<lparr>
     st_wallets := [(''a'', delegate_wallet ''a''), (''b'', delegate_wallet ''b'')],
     st_wallet_username := [(''a'', ''a''), (''b'', ''b'')], st_votes := [(''a'', 5), (''b'', 7)]\<rparr>"

lemma two_delegates_ranking:
  "delegate_ranking two_delegates = [(delegate_wallet ''b'', 7), (delegate_wallet ''a'', 5)]"
  by (simp add: delegate_ranking_def two_delegates_def get_wallet_def delegate_wallet_def map_filter_simps
      delegate_votes_def wallet_new_def rank_key_def complement_le complement_less)

theorem forging_set_is_top_voted_witness:
  "list_all (\<lambda>d. 5 \<le> dr_votes d) (active_delegates_excluding two_delegates 1 [])
     \<and> length (active_delegates_excluding two_delegates 1 []) = 1"
proof -
  have l: "active_delegates_excluding two_delegates 1 [] = [\<lparr>dr_public_key = ''b'', dr_votes = 7\<rparr>]"
    by (simp add: active_delegates_excluding_def two_delegates_ranking delegate_wallet_def wallet_new_def)
  have a: "(delegate_wallet ''a'', 5) \<in> set (delegate_ranking two_delegates)"
    "\<not> w_resigned (delegate_wallet ''a'')" "w_public_key (delegate_wallet ''a'') = Some ''a''"
    "''a'' \<notin> set ([] :: string list)" "''a'' \<notin> dr_public_key ` set (active_delegates_excluding two_delegates 1 [])"
    by (simp_all only: l two_delegates_ranking) (simp_all add: delegate_wallet_def wallet_new_def)
  with forging_set_is_top_voted [of two_delegates 1 "[]"] show ?thesis by blast
qed

end
