(* ===== verification/ChainProps.thy ===== *)
theory ChainProps
  imports VoteIndex
begin

text \<open>
  Properties of the chain store: what an apply leaves untouched, the parts of a successful apply, and that
  blocks only extend the tip. The reference block of the witnesses is here.
\<close>

section \<open>Statistics\<close>

text \<open>What \<open>apply_locked\<close> does after its transaction: round snapshots and missed-slot counters only.\<close>

definition statistics :: "store \<Rightarrow> store \<Rightarrow> bool" where
  "statistics s s' \<longleftrightarrow> (\<exists>r m a. s' = s\<lparr>st_rounds := r, st_missed_total := m, st_missed_at := a\<rparr>)"

lemma statistics_refl: "statistics s s"
  unfolding statistics_def by (rule exI [of _ "st_rounds s"], rule exI [of _ "st_missed_total s"],
      rule exI [of _ "st_missed_at s"]) simp

lemma statistics_trans: "statistics s s1 \<Longrightarrow> statistics s1 s2 \<Longrightarrow> statistics s s2"
  unfolding statistics_def by (elim exE, simp, intro exI, rule refl)

lemma statistics_fields:
  assumes "statistics s s'"
  shows "st_wallets s' = st_wallets s" "st_votes s' = st_votes s" "st_blocks s' = st_blocks s"
    "st_block_ids s' = st_block_ids s" "st_txs s' = st_txs s" "st_tx_list s' = st_tx_list s"
    "st_wallet_tx s' = st_wallet_tx s" "st_undo s' = st_undo s" "st_last_height s' = st_last_height s"
    "st_tx_count s' = st_tx_count s" "st_finality s' = st_finality s"
    "st_wallet_username s' = st_wallet_username s"
  using assms by (auto simp: statistics_def)

lemma statistics_bump: "statistics s (bump_missed_total pk c s)"
  unfolding statistics_def bump_missed_total_def Let_def
  by (rule exI [of _ "st_rounds s"], rule exI, rule exI [of _ "st_missed_at s"]) simp

lemma statistics_missed_loop: "statistics s (fst (missed_loop E n b bt order d slots acc s))"
  by (induction slots arbitrary: acc s)
     (auto simp: Let_def statistics_refl intro: statistics_trans [OF statistics_bump])

lemma statistics_put_missed: "statistics s s1 \<Longrightarrow> statistics s (s1\<lparr>st_missed_at := m\<rparr>)"
  unfolding statistics_def by (elim exE, simp, intro exI, rule refl)

lemma statistics_save_round: "statistics s s1 \<Longrightarrow> statistics s (save_round r l s1)"
  unfolding statistics_def save_round_def
proof (elim exE)
  fix r' m a assume "s1 = s\<lparr>st_rounds := r', st_missed_total := m, st_missed_at := a\<rparr>"
  then show "\<exists>r' m a. s1\<lparr>st_rounds := bt_put r l (st_rounds s1)\<rparr> = s\<lparr>st_rounds := r', st_missed_total := m, st_missed_at := a\<rparr>"
    by (intro exI [of _ "bt_put r l (st_rounds s1)"] exI [of _ m] exI [of _ a]) simp
qed

lemma statistics_record: "statistics s (fst (record_missed_slots E n p b s))"
proof -
  have "statistics s s1" if "missed_loop E n b bt order d slots [] s = (s1, r)" for bt order d slots s1 r
    using statistics_missed_loop [of s E n b bt order d slots "[]"] that by simp
  then show ?thesis
    by (auto simp: record_missed_slots_def Let_def statistics_refl intro: statistics_put_missed
        split: sum.splits option.splits prod.splits)
qed

lemma statistics_batch: "statistics s (fst (missed_batch E n prev bs s))"
proof (induction bs arbitrary: prev s)
  case (Cons b bs)
  show ?case
  proof (cases prev)
    case (Some p)
    obtain s1 r where r: "record_missed_slots E n p b s = (s1, r)" by (cases "record_missed_slots E n p b s")
    then have "statistics s s1" using statistics_record [of s E n p b] by simp
    with Some r Cons.IH [of s1 "Some (b_timestamp b)"] show ?thesis
      by (auto split: sum.splits error.splits intro: statistics_trans)
  qed (simp add: Cons.IH)
qed (simp add: statistics_refl)

lemma statistics_snapshot:
  assumes "snapshot_round_if_boundary n h s = Inr s'"
  shows "statistics s s'"
  using assms statistics_refl [of s]
  by (auto simp: snapshot_round_if_boundary_def Let_def rbind_eq_Inr intro: statistics_save_round split: if_splits)

section \<open>The commit\<close>

lemma index_tx_frame:
  assumes "index_tx E net h itx s = Inr s'"
  shows "st_wallets s' = st_wallets s" "st_votes s' = st_votes s" "st_blocks s' = st_blocks s"
    "st_block_ids s' = st_block_ids s" "st_undo s' = st_undo s" "st_last_height s' = st_last_height s"
    "st_tx_count s' = st_tx_count s" "st_finality s' = st_finality s"
    "st_wallet_username s' = st_wallet_username s"
  using assms by (auto simp: index_tx_def rbind_eq_Inr split: option.splits)

lemma bump_tx_count_fields [simp]:
  "st_wallets (bump_tx_count k s) = st_wallets s" "st_votes (bump_tx_count k s) = st_votes s"
  "st_blocks (bump_tx_count k s) = st_blocks s" "st_block_ids (bump_tx_count k s) = st_block_ids s"
  "st_undo (bump_tx_count k s) = st_undo s" "st_last_height (bump_tx_count k s) = st_last_height s"
  "st_txs (bump_tx_count k s) = st_txs s" "st_tx_list (bump_tx_count k s) = st_tx_list s"
  "st_wallet_tx (bump_tx_count k s) = st_wallet_tx s" "st_finality (bump_tx_count k s) = st_finality s"
  "st_wallet_username (bump_tx_count k s) = st_wallet_username s"
  by (simp_all add: bump_tx_count_def)

lemma write_block_frame:
  assumes "write_block E net (b, enc) s = Inr s'"
  shows "st_wallets s' = st_wallets s" "st_votes s' = st_votes s" "st_undo s' = st_undo s"
    "st_finality s' = st_finality s" "st_wallet_username s' = st_wallet_username s"
    "st_blocks s' = bt_put (b_height b) enc (st_blocks s)"
    "st_block_ids s' = (case b_id b of None \<Rightarrow> st_block_ids s | Some i \<Rightarrow> bt_put i (b_height b) (st_block_ids s))"
    "get_last_height s' = max (get_last_height s) (b_height b)"
proof -
  define s0 where "s0 = s\<lparr>st_blocks := bt_put (b_height b) enc (st_blocks s), st_block_ids :=
    (case b_id b of None \<Rightarrow> st_block_ids s | Some i \<Rightarrow> bt_put i (b_height b) (st_block_ids s))\<rparr>"
  obtain s1 where s1: "rfold (index_tx E net (b_height b)) (enumerate 0 (b_transactions b)) s0 = Inr s1"
    and s': "s' = (let s = bump_tx_count (indexed_count b) s1
      in if b_height b > get_last_height s then s\<lparr>st_last_height := Some (b_height b)\<rparr> else s)"
    using assms by (auto simp: write_block_def Let_def rbind_eq_Inr s0_def)
  note fr = rfold_frame [OF _ s1]
  have "st_wallets s1 = st_wallets s" "st_votes s1 = st_votes s" "st_undo s1 = st_undo s"
    "st_finality s1 = st_finality s" "st_wallet_username s1 = st_wallet_username s"
    "st_blocks s1 = st_blocks s0" "st_block_ids s1 = st_block_ids s0" "st_last_height s1 = st_last_height s"
    using fr [where p = st_wallets] fr [where p = st_votes] fr [where p = st_undo] fr [where p = st_finality]
      fr [where p = st_wallet_username] fr [where p = st_blocks] fr [where p = st_block_ids] fr [where p = st_last_height]
    by (simp_all add: index_tx_frame s0_def)
  then show "st_wallets s' = st_wallets s" "st_votes s' = st_votes s" "st_undo s' = st_undo s"
    "st_finality s' = st_finality s" "st_wallet_username s' = st_wallet_username s"
    "st_blocks s' = bt_put (b_height b) enc (st_blocks s)"
    "st_block_ids s' = (case b_id b of None \<Rightarrow> st_block_ids s | Some i \<Rightarrow> bt_put i (b_height b) (st_block_ids s))"
    "get_last_height s' = max (get_last_height s) (b_height b)"
    by (auto simp: s' Let_def s0_def get_last_height_def max_def not_le)
qed

text \<open>A successful \<open>apply_block\<close>, taken apart.\<close>

lemma apply_block_cases:
  assumes "apply_block E n b s = (s', Inr ())"
  obtains pb enc ds sw undo out sb where
    "prepare_block E n b = Inr (pb, enc)"
    "accumulate_deltas E n (store_view E n s) [pb] pb [] = Inr ds"
    "check_tip pb s = Inr ()"
    "write_wallets_undo ds s = Inr (sw, undo, out)"
    "write_block E (nw_pubkey_hash n) (pb, enc) sw = Inr sb"
    "statistics (sb\<lparr>st_undo := (let u = bt_put (b_height pb) undo (st_undo sb)
        in if b_height pb > UNDO_DEPTH then bt_del (b_height pb - UNDO_DEPTH) u else u),
        st_generation := st_generation sb + 1\<rparr>) s'"
proof -
  have a: "apply_locked E n [b] True s = (s', Inr ())"
    using assms by (simp add: apply_block_def apply_blocks_def)
  obtain pb enc where pb: "prepare_block E n b = Inr (pb, enc)"
    using a by (cases "prepare_block E n b") (auto simp: apply_locked_def)
  obtain ds where ds: "accumulate_deltas E n (store_view E n s) [pb] pb [] = Inr ds"
    using a pb by (cases "accumulate_deltas E n (store_view E n s) [pb] pb []") (auto simp: apply_locked_def)
  obtain sc where sc: "commit_batch E n True [(pb, enc)] ds s = Inr sc"
    using a pb ds by (cases "commit_batch E n True [(pb, enc)] ds s") (auto simp: apply_locked_def)
  obtain sw undo out sb where c: "check_tip pb s = Inr ()" "write_wallets_undo ds s = Inr (sw, undo, out)"
    "write_block E (nw_pubkey_hash n) (pb, enc) sw = Inr sb"
    "sc = sb\<lparr>st_undo := (let u = bt_put (b_height pb) undo (st_undo sb)
        in if b_height pb > UNDO_DEPTH then bt_del (b_height pb - UNDO_DEPTH) u else u)\<rparr>"
    using sc by (auto simp: commit_batch_def rbind_eq_Inr Let_def)
  define s1 where "s1 = sc\<lparr>st_generation := st_generation sc + 1\<rparr>"
  obtain s2 where s2: "snapshot_round_if_boundary n (b_height pb) s1 = Inr s2"
    using a pb ds sc by (cases "snapshot_round_if_boundary n (b_height pb) s1") (auto simp: apply_locked_def s1_def)
  then obtain prev where "missed_batch E n prev [pb] s2 = (s', Inr ())"
    using a pb ds sc by (auto simp: apply_locked_def s1_def Let_def)
  then have "statistics s1 s'"
    using statistics_trans [OF statistics_snapshot [OF s2]] statistics_batch [of s2 E n prev "[pb]"] by simp
  then show ?thesis
    using that [OF pb ds c(1-3)] by (simp add: s1_def c(4))
qed

lemma prepare_block_height: "prepare_block E n b = Inr (pb, enc) \<Longrightarrow> b_height pb = b_height b \<and> b_previous_block pb = b_previous_block b"
  by (auto simp: prepare_block_def rbind_eq_Inr Let_def split: if_splits)

lemma chain_part_height: "chain_part s = chain_part s' \<Longrightarrow> get_last_height s = get_last_height s'"
  by (simp add: chain_part_def get_last_height_def)

lemma unat_inc: "x + 1 \<noteq> 0 \<Longrightarrow> unat (x + 1) = unat (x :: u64) + 1"
  using unatSuc [of x] by (simp add: add.commute)

lemma write_last_height:
  "rfold write_step ds (s, undo, out) = Inr (s', undo', out') \<Longrightarrow> st_last_height s' = st_last_height s"
proof (induction ds arbitrary: s undo out)
  case (Cons ad ds)
  obtain a d where ad: "ad = (a, d)" by (cases ad)
  obtain s1 w u1 where s1: "write_wallet (a, d) s = Inr (s1, (a, get_wallet s a), w)"
    "rfold write_step ds (s1, u1, out @ [w]) = Inr (s', undo', out')"
    using Cons.prems unfolding ad by (auto simp: rbind_eq_Inr write_step_ok)
  with Cons.IH [OF s1(2)] write_wallet_ok(5) [OF s1(1)] show ?case by (simp add: chain_part_def)
qed auto

section \<open>A reference block\<close>

text \<open>An empty block of height 2 over a store whose tip is 1: the concrete input of the witnesses.\<close>

definition chain_header :: block where
  "chain_header = ref_block\<lparr>b_number_of_transactions := 0, b_total_amount := 0, b_total_fee := 0,
     b_payload_length := 0, b_transactions := []\<rparr>"

definition chain_block :: block where
  "chain_block = chain_header\<lparr>b_id := Some (hex_encode ref_crypto (sha256 ref_crypto (header_bytes ref_crypto chain_header)))\<rparr>"

definition tip_store :: store where
  "tip_store = store_empty\<lparr>st_last_height := Some 1\<rparr>"

lemma chain_block_fields [simp]:
  "b_height chain_block = 2" "b_transactions chain_block = []" "b_total_fee chain_block = 0"
  "b_reward chain_block = 0" "b_generator_public_key chain_block = ref_key"
  "b_previous_block chain_block = ref_hash" "b_id chain_block \<noteq> None"
  "chain_block\<lparr>b_transactions := []\<rparr> = chain_block"
  by (simp_all add: chain_block_def chain_header_def ref_block_def)

lemma chain_block_canonical: "canonical_block ref_crypto ref_network chain_block"
  and chain_block_id: "\<exists>i. b_id chain_block = Some i \<and> block_id ref_crypto chain_block = Inr i"
proof -
  have eq: "header_bytes ref_crypto chain_block = header_bytes ref_crypto chain_header"
    by (simp add: header_bytes_def chain_block_def pq_part_def)
  have c: "canonical_header ref_crypto chain_block"
    using ref_header_canonical by (simp add: canonical_header_def chain_block_def chain_header_def ref_block_def)
  have l: "length (unhex ref_crypto ref_key) = 33" "length (unhex ref_crypto ref_hash) = 32"
    "length (unhex ref_crypto ref_der) = 5"
    using ref_fields(1) ref_block_fields(1) hex_fieldD(2) by (blast, blast, code_simp)
  have "length (header_bytes ref_crypto chain_block) < 2 ^ 32"
    by (simp add: header_bytes_def chain_block_def chain_header_def ref_block_def l opt_unhex_def pq_part_def)
  with c show "canonical_block ref_crypto ref_network chain_block"
    by (simp add: canonical_block_def)
  show "\<exists>i. b_id chain_block = Some i \<and> block_id ref_crypto chain_block = Inr i"
    using serialize_canonical_header [OF c]
    by (simp add: block_id_def eq) (simp add: chain_block_def)
qed

lemma ref_address_ok: "\<exists>a. address_from_public_key ref_crypto ref_key net = Inr a"
  using hex_fieldD [OF ref_fields(1)] by (simp add: address_from_public_key_def)

text \<open>A block whose wallet changes and records can be written, away from a round boundary and with no trouble in the
  missed-slot statistics, is applied.\<close>

lemma block_applies:
  assumes prep: "prepare_block E n b = Inr (pb, enc)"
    and ds: "accumulate_deltas E n (store_view E n s) [pb] pb [] = Inr ds"
    and sw: "write_wallets_undo ds s = Inr (sw, undo, out)"
    and sb: "write_block E (nw_pubkey_hash n) (pb, enc) sw = Inr sb"
    and ct: "check_tip pb s = Inr ()" and h: "1 < b_height pb"
    and inner: "b_height pb mod max (ucast (ms_active_delegates (milestone_at n (b_height pb)))) 1 \<noteq> 0"
    and slots: "\<And>s1. st_blocks s1 = bt_put (b_height pb) enc (st_blocks s) \<Longrightarrow>
      snd (missed_batch E n (map_option b_timestamp (ok_flatten (get_block_by_height E n s1 (b_height pb - 1)))) [pb] s1) = Inr ()"
  shows "\<exists>s'. apply_block E n b s = (s', Inr ())"
proof -
  let ?h = "b_height pb"
  have "distinct (map fst ds)" using accumulate_balance [OF bt_wf_Nil ds] bt_wf_distinct by blast
  then have "chain_part sw = chain_part s"
    using write_wallets_record(4) [of ds s "[]" "[]"] sw by (simp add: write_wallets_undo_step)
  then have blocks: "st_blocks sb = bt_put ?h enc (st_blocks s)"
    using write_block_frame(6) [OF sb] by (simp add: chain_part_def)
  define u where "u = (let u = bt_put ?h undo (st_undo sb) in if ?h > UNDO_DEPTH then bt_del (?h - UNDO_DEPTH) u else u)"
  define s1 where "s1 = sb\<lparr>st_undo := u, st_generation := st_generation sb + 1\<rparr>"
  have commit: "commit_batch E n True [(pb, enc)] ds s = Inr (sb\<lparr>st_undo := u\<rparr>)"
    using sw sb ct by (simp add: commit_batch_def u_def Let_def)
  have snap: "snapshot_round_if_boundary n ?h s1 = Inr s1"
    using h inner by (auto simp: snapshot_round_if_boundary_def Let_def)
  have "snd (missed_batch E n (map_option b_timestamp (ok_flatten (get_block_by_height E n s1 (?h - 1)))) [pb] s1) = Inr ()"
    by (rule slots) (simp add: s1_def blocks)
  then have "snd (apply_locked E n [b] True s) = Inr ()"
    using h snap by (simp add: apply_locked_def prep ds commit s1_def Let_def)
  then show ?thesis by (cases "apply_locked E n [b] True s") (simp add: apply_block_def apply_blocks_def)
qed

text \<open>At height 2 with nothing stored below, and with the block below one slot earlier.\<close>

lemma height_two_applies:
  assumes "prepare_block E n b = Inr (pb, enc)" and "accumulate_deltas E n (store_view E n s) [pb] pb [] = Inr ds"
    and "write_wallets_undo ds s = Inr (sw, undo, out)" and "write_block E (nw_pubkey_hash n) (pb, enc) sw = Inr sb"
    and h: "b_height pb = 2" and tip: "get_last_height s = 1" "st_block_ids s = []" "st_blocks s = []"
    and ms: "ms_active_delegates (milestone_at n 2) = 21"
  shows "\<exists>s'. apply_block E n b s = (s', Inr ())"
  by (rule block_applies [OF assms(1-4)])
     (simp_all add: h ms check_tip_def tip get_block_by_height_def transpose_opt_def ok_flatten_def)

lemma first_block_applies:
  assumes "prepare_block E n b = Inr (pb, enc)" and "accumulate_deltas E n (store_view E n s) [pb] pb [] = Inr ds"
    and "write_wallets_undo ds s = Inr (sw, undo, out)" and "write_block E (nw_pubkey_hash n) (pb, enc) sw = Inr sb"
    and h: "b_height pb = 2" and tip: "get_last_height s = 0" "st_blocks s = []"
    and ms: "ms_active_delegates (milestone_at n 2) = 21"
  shows "\<exists>s'. apply_block E n b s = (s', Inr ())"
  by (rule block_applies [OF assms(1-4)])
     (simp_all add: h ms check_tip_def tip get_block_by_height_def transpose_opt_def ok_flatten_def)

lemma next_slot_applies:
  assumes "prepare_block E n b = Inr (pb, enc)" and "accumulate_deltas E n (store_view E n s) [pb] pb [] = Inr ds"
    and "write_wallets_undo ds s = Inr (sw, undo, out)" and "write_block E (nw_pubkey_hash n) (pb, enc) sw = Inr sb"
    and "check_tip pb s = Inr ()" and "1 < b_height pb"
    and "b_height pb mod max (ucast (ms_active_delegates (milestone_at n (b_height pb)))) 1 \<noteq> 0"
    and prev: "get_block_by_height E n s (b_height pb - 1) = Inr (Some b0)"
    and k: "slot_number (b_timestamp b0) (ms_blocktime (milestone_at n (b_height pb))) = Inr k"
      "slot_number (b_timestamp pb) (ms_blocktime (milestone_at n (b_height pb))) = Inr k'" "k' \<le> k + 1"
  shows "\<exists>s'. apply_block E n b s = (s', Inr ())"
proof (rule block_applies [OF assms(1-7)])
  fix s1 :: store
  assume "st_blocks s1 = bt_put (b_height pb) enc (st_blocks s)"
  then have "get_block_by_height E n s1 (b_height pb - 1) = Inr (Some b0)"
    using prev by (simp add: get_block_by_height_def)
  then show "snd (missed_batch E n (map_option b_timestamp (ok_flatten (get_block_by_height E n s1 (b_height pb - 1)))) [pb] s1) = Inr ()"
    using k by (simp add: ok_flatten_def record_missed_slots_def Let_def)
qed

lemma empty_block_applies:
  assumes prep: "prepare_block E n b = Inr (b, enc)"
    and a: "address_from_public_key E (b_generator_public_key b) (nw_pubkey_hash n) = Inr a"
    and f: "b_transactions b = []" "b_height b = 2" "b_reward b = 0" "b_total_fee b = 0"
    and ms: "ms_active_delegates (milestone_at n 2) = 21"
  shows "\<exists>s'. apply_block E n b tip_store = (s', Inr ())"
proof -
  obtain d where d: "accumulate_deltas E n (store_view E n tip_store) [b] b [] = Inr [(a, d)]"
    "wd_balance d = 0" "wd_nonce d = 0"
    "d = delta_default\<lparr>wd_public_key := wd_public_key d, wd_produced_blocks := wd_produced_blocks d,
       wd_last_block := wd_last_block d\<rparr>"
    by (simp add: accumulate_deltas_def a forger_delta_def burned_amount_def init_count_def Let_def upd_def
        bt_entry_def add_balance_def delta_default_def f)
  have "\<exists>w. wallet_apply d (wallet_new a) = Inr w"
    using d(2,3) by (subst d(4)) (simp add: wallet_apply_def wallet_new_def delta_default_def i64_try_from_def
        i64_min_def i64_max_def checked_add_def Let_def)
  then obtain w where w: "wallet_apply d (wallet_new a) = Inr w" by blast
  have tip: "get_wallet tip_store a = None" "get_last_height tip_store = 1" "st_block_ids tip_store = []"
    "st_blocks tip_store = []"
    by (simp_all add: get_wallet_def tip_store_def store_empty_def get_last_height_def)
  obtain sw where sw: "write_wallets_undo [(a, d)] tip_store = Inr (sw, [(a, None)], [w])"
    by (simp add: write_wallets_undo_def write_wallet_def tip w Let_def)
  obtain sb where "write_block E (nw_pubkey_hash n) (b, enc) sw = Inr sb" by (simp add: write_block_def Let_def f)
  from height_two_applies [OF prep d(1) sw this f(2) tip(2-4) ms] show ?thesis .
qed

lemma chain_block_applies: "\<exists>s'. apply_block ref_crypto ref_network chain_block tip_store = (s', Inr ())"
proof -
  obtain i where i: "b_id chain_block = Some i" "block_id ref_crypto chain_block = Inr i"
    using chain_block_id by blast
  obtain enc where enc: "encode_block ref_crypto chain_block ref_network = Inr enc"
    using block_record_round_trip [OF chain_block_canonical] i by auto
  have "prepare_block ref_crypto ref_network chain_block = Inr (chain_block, enc)"
    using i enc by (simp add: prepare_block_def Let_def)
  moreover have "ms_active_delegates (milestone_at ref_network 2) = 21"
    by (simp add: milestone_at_def ref_network_def milestone_default_def)
  ultimately show ?thesis
    using ref_address_ok [of "nw_pubkey_hash ref_network"] empty_block_applies by fastforce
qed

section \<open>Extending the tip\<close>

text \<open>Blocks only extend the tip, and never twice: after a successful \<open>apply_block\<close> the block stood
  right above the old tip (unless the store was empty), it is the new tip, and applying the same
  block again fails and changes nothing, whichever intake path repeats it.\<close>

theorem apply_block_extends_tip:
  assumes "apply_block E n b s = (s', Inr ())" and "0 < b_height b"
  shows "(get_last_height s \<noteq> 0 \<longrightarrow> b_height b = get_last_height s + 1)
     \<and> get_last_height s' = b_height b \<and> (\<exists>e. apply_block E n b s' = (s', Inl e))"
proof -
  obtain pb enc ds sw undo out sb where pb: "prepare_block E n b = Inr (pb, enc)"
    and tip: "check_tip pb s = Inr ()"
    and sw: "write_wallets_undo ds s = Inr (sw, undo, out)"
    and sb: "write_block E (nw_pubkey_hash n) (pb, enc) sw = Inr sb"
    and st: "statistics (sb\<lparr>st_undo := (let u = bt_put (b_height pb) undo (st_undo sb)
        in if b_height pb > UNDO_DEPTH then bt_del (b_height pb - UNDO_DEPTH) u else u),
        st_generation := st_generation sb + 1\<rparr>) s'"
    using apply_block_cases [OF assms(1)] by metis
  have h: "b_height pb = b_height b" using prepare_block_height [OF pb] by simp
  have ext: "get_last_height s \<noteq> 0 \<Longrightarrow> b_height b = get_last_height s + 1"
    using tip by (auto simp: check_tip_def Let_def h split: if_splits)
  then have le: "get_last_height s \<le> b_height b"
    using assms(2) by (cases "get_last_height s = 0") (auto simp: word_le_nat_alt unat_inc word_gt_0)
  have "st_last_height sw = st_last_height s"
    using sw unfolding write_wallets_undo_step
    by (rule write_last_height)
  then have "get_last_height sw = get_last_height s" by (simp add: get_last_height_def)
  then have "get_last_height sb = b_height b"
    using write_block_frame(8) [OF sb] le by (simp add: h max_def)
  then have last: "get_last_height s' = b_height b"
    using statistics_fields(9) [OF st] by (simp add: get_last_height_def)
  have again: "\<exists>e. commit_batch E n u ((pb, enc) # ps) ds' s' = Inl e" for u ps ds'
    using last assms(2) by (auto simp: commit_batch_def check_tip_def Let_def h)
  have "\<exists>e. apply_locked E n [b] True s' = (s', Inl e)"
  proof (cases "accumulate_deltas E n (store_view E n s') [pb] pb []")
    case (Inl e)
    then show ?thesis by (simp add: apply_locked_def pb)
  next
    case (Inr ds')
    obtain e where "commit_batch E n True [(pb, enc)] ds' s' = Inl e" using again by blast
    with Inr show ?thesis by (simp add: apply_locked_def pb)
  qed
  with ext last show ?thesis by (auto simp: apply_block_def apply_blocks_def)
qed

theorem apply_block_extends_tip_witness:
  "\<exists>s' e. apply_block ref_crypto ref_network chain_block tip_store = (s', Inr ())
     \<and> get_last_height s' = 2 \<and> apply_block ref_crypto ref_network chain_block s' = (s', Inl e)"
proof -
  obtain s' where s': "apply_block ref_crypto ref_network chain_block tip_store = (s', Inr ())"
    using chain_block_applies by blast
  have "0 < b_height chain_block" by simp
  from apply_block_extends_tip [OF s' this] s' show ?thesis by auto
qed

end
