(* ===== verification/Rollback.thy ===== *)
theory Rollback
  imports ChainProps
begin

text \<open>
  Rolling back a block (\<open>src/src/storage.rs\<close>, \<open>rollback_last_block\<close>, \<open>rollback_to\<close>): a rollback inverts the
  apply it undoes, certified blocks stay, and the loop reaches its target.
\<close>

section \<open>Index keys of a transaction\<close>

text \<open>The keys a transaction gets in the id index, the chain list and the wallet lists.\<close>

definition id_keys :: "nat \<times> transaction \<Rightarrow> string set" where
  "id_keys itx = set_option (tx_id (snd itx))"

definition list_keys :: "u64 \<Rightarrow> nat \<times> transaction \<Rightarrow> (u64 \<times> u32) set" where
  "list_keys h itx = (if tx_id (snd itx) = None then {} else {(h, tx_seq itx)})"

definition wallet_keys :: "crypto \<Rightarrow> u8 \<Rightarrow> u64 \<Rightarrow> nat \<times> transaction \<Rightarrow> (string \<times> u64 \<times> u32) set" where
  "wallet_keys E net h itx =
     (if tx_id (snd itx) = None then {}
      else case tx_addresses E (snd itx) net of Inl _ \<Rightarrow> {} | Inr as \<Rightarrow> (\<lambda>a. (a, h, tx_seq itx)) ` set as)"

lemma get_fold_put_const:
  "bt_get (fold (\<lambda>a. bt_put (g a) v) as m) k = (if k \<in> g ` set as then Some v else bt_get m k)"
  by (induction as arbitrary: m) auto

lemma get_fold_del: "bt_get (fold (\<lambda>a. bt_del (g a)) as m) k = (if k \<in> g ` set as then None else bt_get m k)"
  by (induction as arbitrary: m) auto

lemma wf_fold_put_const: "bt_wf m \<Longrightarrow> bt_wf (fold (\<lambda>a. bt_put (g a) v) as m)"
  by (induction as arbitrary: m) auto

lemma wf_fold_del: "bt_wf m \<Longrightarrow> bt_wf (fold (\<lambda>a. bt_del (g a)) as m)"
  by (induction as arbitrary: m) auto

text \<open>The three transaction indexes are well-formed; what indexing adds and what undoing removes.\<close>

definition index_wf :: "store \<Rightarrow> bool" where
  "index_wf s \<longleftrightarrow> bt_wf (st_txs s) \<and> bt_wf (st_tx_list s) \<and> bt_wf (st_wallet_tx s)"

lemma index_tx_get:
  assumes "index_tx E net h itx s = Inr s'"
  shows "k1 \<notin> id_keys itx \<Longrightarrow> bt_get (st_txs s') k1 = bt_get (st_txs s) k1"
    and "k2 \<notin> list_keys h itx \<Longrightarrow> bt_get (st_tx_list s') k2 = bt_get (st_tx_list s) k2"
    and "k3 \<notin> wallet_keys E net h itx \<Longrightarrow> bt_get (st_wallet_tx s') k3 = bt_get (st_wallet_tx s) k3"
    and "index_wf s \<Longrightarrow> index_wf s'"
    and "tx_id (snd itx) \<noteq> None \<Longrightarrow> is_ok (tx_addresses E (snd itx) net)"
  using assms
  by (auto simp: index_tx_def rbind_eq_Inr id_keys_def list_keys_def wallet_keys_def index_wf_def
      get_fold_put_const [where g = "\<lambda>a. (a, h, tx_seq itx)"] wf_fold_put_const split: option.splits)

lemma index_txs_get:
  assumes "rfold (index_tx E net h) itxs s = Inr s'"
  shows "(\<forall>itx \<in> set itxs. k1 \<notin> id_keys itx) \<Longrightarrow> bt_get (st_txs s') k1 = bt_get (st_txs s) k1"
    and "(\<forall>itx \<in> set itxs. k2 \<notin> list_keys h itx) \<Longrightarrow> bt_get (st_tx_list s') k2 = bt_get (st_tx_list s) k2"
    and "(\<forall>itx \<in> set itxs. k3 \<notin> wallet_keys E net h itx) \<Longrightarrow> bt_get (st_wallet_tx s') k3 = bt_get (st_wallet_tx s) k3"
    and "itx \<in> set itxs \<Longrightarrow> tx_id (snd itx) \<noteq> None \<Longrightarrow> is_ok (tx_addresses E (snd itx) net)"
  using assms
  by (induction itxs arbitrary: s)
     (auto simp: rbind_eq_Inr index_tx_get(1-3) dest: index_tx_get(5))

lemma index_txs_wf: "rfold (index_tx E net h) itxs s = Inr s' \<Longrightarrow> index_wf s \<Longrightarrow> index_wf s'"
  using rfold_invariant [of itxs index_wf "index_tx E net h" s s'] index_tx_get(4) by blast

text \<open>What the parts of \<open>undo_tx\<close> leave alone: everything but the smart-object and token registries and
  the transaction indexes.\<close>

definition core_part :: "store \<Rightarrow> (string, wallet_state) btmap \<times> (string, u64) btmap \<times> (u64, bytes) btmap \<times>
   (string, u64) btmap \<times> (u64, undo_record) btmap \<times> u64 option \<times> u64 option \<times> (u64, finality_cert) btmap" where
  "core_part s = (st_wallets s, st_votes s, st_blocks s, st_block_ids s, st_undo s, st_last_height s,
     st_tx_count s, st_finality s)"

definition index_part :: "store \<Rightarrow> (string, u64) btmap \<times> (u64 \<times> u32, string) btmap \<times>
   (string \<times> u64 \<times> u32, string) btmap" where
  "index_part s = (st_txs s, st_tx_list s, st_wallet_tx s)"

lemma undo_name_frame: "core_part (undo_name tx s) = core_part s" "index_part (undo_name tx s) = index_part s"
  by (simp_all add: undo_name_def core_part_def index_part_def split: option.splits)

lemma undo_init_frame: "core_part (undo_init sy tx s) = core_part s" "index_part (undo_init sy tx s) = index_part s"
  by (simp_all add: undo_init_def core_part_def index_part_def split: option.splits)

lemma restore_owner_frame:
  "core_part (restore_owner reg ow s) = core_part s" "index_part (restore_owner reg ow s) = index_part s"
  by (simp_all add: restore_owner_def core_part_def index_part_def)

lemma undo_owner_frame:
  assumes "undo_owner E net owners tx s = Inr s'"
  shows "core_part s' = core_part s \<and> index_part s' = index_part s"
proof -
  have "s' = s \<or> (\<exists>reg ow. s' = restore_owner reg ow s)"
    using assms unfolding undo_owner_def
    by (cases "sobj_asset_of tx") (auto simp: rbind_eq_Inr split: if_splits option.splits)
  then show ?thesis using restore_owner_frame by auto
qed

lemma unindex_tx_get:
  assumes "unindex_tx E net h i itx s = Inr s'" and "tx_id (snd itx) = Some i"
  shows "core_part s' = core_part s"
    and "bt_get (st_txs s') k1 = (if k1 \<in> id_keys itx then None else bt_get (st_txs s) k1)"
    and "bt_get (st_tx_list s') k2 = (if k2 \<in> list_keys h itx then None else bt_get (st_tx_list s) k2)"
    and "bt_get (st_wallet_tx s') k3 = (if k3 \<in> wallet_keys E net h itx then None else bt_get (st_wallet_tx s) k3)"
    and "index_wf s \<Longrightarrow> index_wf s'"
  using assms
  by (auto simp: unindex_tx_def rbind_eq_Inr core_part_def id_keys_def list_keys_def wallet_keys_def index_wf_def
      get_fold_del [where g = "\<lambda>a. (a, h, tx_seq itx)"] wf_fold_del)

lemma undo_tx_get:
  assumes "undo_tx E net h owners symbols itx s = Inr s'"
  shows "core_part s' = core_part s"
    and "bt_get (st_txs s') k1 = (if k1 \<in> id_keys itx then None else bt_get (st_txs s) k1)"
    and "bt_get (st_tx_list s') k2 = (if k2 \<in> list_keys h itx then None else bt_get (st_tx_list s) k2)"
    and "bt_get (st_wallet_tx s') k3 = (if k3 \<in> wallet_keys E net h itx then None else bt_get (st_wallet_tx s) k3)"
    and "index_wf s \<Longrightarrow> index_wf s'"
proof -
  have all: "core_part s' = core_part s
      \<and> bt_get (st_txs s') k1 = (if k1 \<in> id_keys itx then None else bt_get (st_txs s) k1)
      \<and> bt_get (st_tx_list s') k2 = (if k2 \<in> list_keys h itx then None else bt_get (st_tx_list s) k2)
      \<and> bt_get (st_wallet_tx s') k3 = (if k3 \<in> wallet_keys E net h itx then None else bt_get (st_wallet_tx s) k3)
      \<and> (index_wf s \<longrightarrow> index_wf s')"
  proof (cases "tx_id (snd itx)")
    case None
    with assms show ?thesis by (simp add: undo_tx_def id_keys_def list_keys_def wallet_keys_def)
  next
    case (Some i)
    obtain s1 where s1: "undo_owner E net owners (snd itx) (undo_name (snd itx) s) = Inr s1"
      and s': "unindex_tx E net h i itx (undo_init symbols (snd itx) s1) = Inr s'"
      using assms Some by (auto simp: undo_tx_def rbind_eq_Inr)
    let ?s2 = "undo_init symbols (snd itx) s1"
    have f: "core_part ?s2 = core_part s" "index_part ?s2 = index_part s"
      using undo_owner_frame [OF s1] undo_name_frame undo_init_frame by simp_all
    from f(2) have "st_txs ?s2 = st_txs s" "st_tx_list ?s2 = st_tx_list s" "st_wallet_tx ?s2 = st_wallet_tx s"
      "index_wf ?s2 = index_wf s"
      by (simp_all add: index_part_def index_wf_def)
    with f(1) unindex_tx_get [OF s' Some] show ?thesis by simp
  qed
  from all show "core_part s' = core_part s"
    and "bt_get (st_txs s') k1 = (if k1 \<in> id_keys itx then None else bt_get (st_txs s) k1)"
    and "bt_get (st_tx_list s') k2 = (if k2 \<in> list_keys h itx then None else bt_get (st_tx_list s) k2)"
    and "bt_get (st_wallet_tx s') k3 = (if k3 \<in> wallet_keys E net h itx then None else bt_get (st_wallet_tx s) k3)"
    and "index_wf s \<Longrightarrow> index_wf s'"
    by blast+
qed

lemma undo_txs_get:
  assumes "rfold (undo_tx E net h owners symbols) itxs s = Inr s'"
  shows "core_part s' = core_part s"
    and "bt_get (st_txs s') k1 = (if \<exists>itx \<in> set itxs. k1 \<in> id_keys itx then None else bt_get (st_txs s) k1)"
    and "bt_get (st_tx_list s') k2 = (if \<exists>itx \<in> set itxs. k2 \<in> list_keys h itx then None else bt_get (st_tx_list s) k2)"
    and "bt_get (st_wallet_tx s') k3 = (if \<exists>itx \<in> set itxs. k3 \<in> wallet_keys E net h itx then None else bt_get (st_wallet_tx s) k3)"
  using assms
  by (induction itxs arbitrary: s) (auto simp: rbind_eq_Inr undo_tx_get(1-4))

lemma undo_txs_wf: "rfold (undo_tx E net h owners symbols) itxs s = Inr s' \<Longrightarrow> index_wf s \<Longrightarrow> index_wf s'"
  using rfold_invariant [of itxs index_wf "undo_tx E net h owners symbols" s s'] undo_tx_get(5) by blast

text \<open>Undoing succeeds whenever the addresses of the transactions can be computed.\<close>

lemma undo_tx_total:
  assumes "tx_id (snd itx) \<noteq> None \<Longrightarrow> is_ok (tx_addresses E (snd itx) net)"
  shows "\<exists>s'. undo_tx E net h owners symbols itx s = Inr s'"
proof (cases "tx_id (snd itx)")
  case (Some i)
  then obtain as where as: "tx_addresses E (snd itx) net = Inr as"
    using assms by (cases "tx_addresses E (snd itx) net") auto
  then obtain a where "address_from_public_key E (tx_sender_public_key (snd itx)) net = Inr a"
    unfolding tx_addresses_def rbind_eq_Inr by blast
  then have "\<exists>s1. undo_owner E net owners (snd itx) s0 = Inr s1" for s0
    by (auto simp: undo_owner_def split: option.splits)
  with Some as show ?thesis by (auto simp: undo_tx_def unindex_tx_def rbind_eq_Inr)
qed (simp add: undo_tx_def)

lemma rfold_total: "(\<And>x s. x \<in> set xs \<Longrightarrow> \<exists>s'. f x s = Inr s') \<Longrightarrow> \<exists>s'. rfold f xs s = Inr s'"
  by (induction xs arbitrary: s) (auto simp: rbind_eq_Inr, metis)

section \<open>The stored block has the same keys\<close>

lemma tx_addresses_cached [simp]:
  "tx_addresses E (tx\<lparr>tx_id := i\<rparr>) net = tx_addresses E tx net"
  "tx_addresses E (tx\<lparr>tx_block_id := bi, tx_block_height := bh, tx_sequence := sq\<rparr>) net = tx_addresses E tx net"
  by (simp_all add: tx_addresses_def asset_field_def token_asset_of_def sobj_asset_of_def is_token_def is_sobj_def)

lemma with_id_cases: "with_id E n tx = tx \<or> (\<exists>i. with_id E n tx = tx\<lparr>tx_id := Some i\<rparr>)"
  by (auto simp: with_id_def split: sum.splits)

text \<open>Ids as the deserializer computes them and sequence numbers equal to the positions, as the block
  builder and the peers' blocks have them.\<close>

definition numbered :: "crypto \<Rightarrow> network \<Rightarrow> nat \<times> transaction \<Rightarrow> bool" where
  "numbered E n itx \<longleftrightarrow> tx_id (snd itx) \<noteq> None \<and> tx_id (with_id E n (snd itx)) = tx_id (snd itx)
     \<and> tx_seq itx = word_of_nat (fst itx)"

definition keys_of :: "crypto \<Rightarrow> u8 \<Rightarrow> u64 \<Rightarrow> nat \<times> transaction \<Rightarrow>
   string set \<times> (u64 \<times> u32) set \<times> (string \<times> u64 \<times> u32) set \<times> bool \<times> bool" where
  "keys_of E net h itx = (id_keys itx, list_keys h itx, wallet_keys E net h itx, tx_id (snd itx) \<noteq> None,
     is_ok (tx_addresses E (snd itx) net))"

lemma keys_of_stored:
  assumes "numbered E n (k, tx)"
  shows "keys_of E net h (k, (with_id E n tx)\<lparr>tx_block_id := bi, tx_block_height := bh, tx_sequence := Some (word_of_nat k)\<rparr>)
     = keys_of E net h (k, tx)"
proof -
  let ?t = "(with_id E n tx)\<lparr>tx_block_id := bi, tx_block_height := bh, tx_sequence := Some (word_of_nat k)\<rparr>"
  have "tx_id ?t = tx_id tx" "tx_seq (k, ?t) = tx_seq (k, tx)"
    using assms by (simp_all add: numbered_def tx_seq_def)
  moreover have "tx_addresses E ?t net = tx_addresses E tx net"
    using with_id_cases [of E n tx] by auto
  ultimately show ?thesis
    by (cases "tx_addresses E tx net") (simp_all add: keys_of_def id_keys_def list_keys_def wallet_keys_def)
qed

lemma keys_of_annotate:
  assumes "list_all (numbered E n) (enumerate k txs)"
  shows "map (keys_of E net h) (enumerate k (annotate B (word_of_nat k) (map (with_id E n) txs)))
     = map (keys_of E net h) (enumerate k txs)"
  using assms
proof (induction txs arbitrary: k)
  case (Cons tx txs)
  then show ?case
    using Cons.IH [of "Suc k"] by (simp add: keys_of_stored add.commute [of 1])
qed simp

lemma keys_union:
  assumes "map (keys_of E net h) xs = map (keys_of E net h) ys"
  shows "(\<exists>x \<in> set xs. k1 \<in> id_keys x) = (\<exists>y \<in> set ys. k1 \<in> id_keys y)"
    and "(\<exists>x \<in> set xs. k2 \<in> list_keys h x) = (\<exists>y \<in> set ys. k2 \<in> list_keys h y)"
    and "(\<exists>x \<in> set xs. k3 \<in> wallet_keys E net h x) = (\<exists>y \<in> set ys. k3 \<in> wallet_keys E net h y)"
    and "length (filter (\<lambda>x. tx_id (snd x) \<noteq> None) xs) = length (filter (\<lambda>y. tx_id (snd y) \<noteq> None) ys)"
    and "(\<forall>x \<in> set xs. tx_id (snd x) \<noteq> None \<longrightarrow> is_ok (tx_addresses E (snd x) net))
      = (\<forall>y \<in> set ys. tx_id (snd y) \<noteq> None \<longrightarrow> is_ok (tx_addresses E (snd y) net))"
proof -
  have "list_all2 (\<lambda>x y. keys_of E net h x = keys_of E net h y) xs ys"
    using assms by (simp add: list_all2_map1 list_all2_map2 list.rel_map list.rel_eq [symmetric])
  then show "(\<exists>x \<in> set xs. k1 \<in> id_keys x) = (\<exists>y \<in> set ys. k1 \<in> id_keys y)"
    and "(\<exists>x \<in> set xs. k2 \<in> list_keys h x) = (\<exists>y \<in> set ys. k2 \<in> list_keys h y)"
    and "(\<exists>x \<in> set xs. k3 \<in> wallet_keys E net h x) = (\<exists>y \<in> set ys. k3 \<in> wallet_keys E net h y)"
    and "length (filter (\<lambda>x. tx_id (snd x) \<noteq> None) xs) = length (filter (\<lambda>y. tx_id (snd y) \<noteq> None) ys)"
    and "(\<forall>x \<in> set xs. tx_id (snd x) \<noteq> None \<longrightarrow> is_ok (tx_addresses E (snd x) net))
      = (\<forall>y \<in> set ys. tx_id (snd y) \<noteq> None \<longrightarrow> is_ok (tx_addresses E (snd y) net))"
    by (induction rule: list_all2_induct) (auto simp: keys_of_def)
qed

lemma filter_enumerate: "length (filter (\<lambda>x. P (snd x)) (enumerate k xs)) = length (filter P xs)"
  by (induction xs arbitrary: k) auto

section \<open>A rollback step\<close>

lemma core_index_missed:
  "core_part (drop_missed_at h s) = core_part s" "index_part (drop_missed_at h s) = index_part s"
proof -
  have b: "core_part (bump_missed_total pk c s) = core_part s" "index_part (bump_missed_total pk c s) = index_part s" for pk c s
    by (simp_all add: bump_missed_total_def Let_def core_part_def index_part_def)
  have f: "core_part (fold (\<lambda>m. bump_missed_total (mi_public_key m) (- 1)) ms s) = core_part s"
    "index_part (fold (\<lambda>m. bump_missed_total (mi_public_key m) (- 1)) ms s) = index_part s" for ms s
    by (rule fold_frame, rule b)+
  have m: "core_part (s\<lparr>st_missed_at := m\<rparr>) = core_part s" "index_part (s\<lparr>st_missed_at := m\<rparr>) = index_part s" for m
    by (simp_all add: core_part_def index_part_def)
  show "core_part (drop_missed_at h s) = core_part s" "index_part (drop_missed_at h s) = index_part s"
    unfolding drop_missed_at_def by (simp_all only: f m option.case_eq_if if_distrib [of core_part] if_distrib [of index_part] if_cancel)
qed

text \<open>\<open>no_final s h\<close>: no certificate at or above the height.\<close>

definition no_final :: "store \<Rightarrow> u64 \<Rightarrow> bool" where
  "no_final s h \<longleftrightarrow> (case latest_finality_cert s of None \<Rightarrow> True | Some c \<Rightarrow> fc_height c < h)"

lemma rollback_step:
  assumes "h = get_last_height s" and "1 < h" and "no_final s h"
    and "get_block_by_height E n s h = Inr (Some b)" and "bt_get (st_undo s) h = Some undo"
    and "rollback_commit E n h b undo s = Inr s'"
  shows "\<exists>s''. rollback_last_block E n s = (s'', Inr (h - 1)) \<and> core_part s'' = core_part s'
     \<and> index_part s'' = index_part s'"
proof -
  let ?s1 = "drop_missed_at h (s'\<lparr>st_generation := st_generation s' + 1\<rparr>)"
  have none: "(case latest_finality_cert s of None \<Rightarrow> None
      | Some c \<Rightarrow> if fc_height c \<ge> h then Some c else None) = None"
    using assms(3) by (auto simp: no_final_def not_le split: option.splits)
  have "\<exists>s''. rollback_last_block E n s = (s'', Inr (h - 1)) \<and> (s'' = ?s1 \<or> (\<exists>r. s'' = ?s1\<lparr>st_rounds := r\<rparr>))"
    using assms(2,4-6) unfolding rollback_last_block_def Let_def assms(1) [symmetric] none
    by (simp add: not_le [symmetric]) blast
  moreover have "core_part (x\<lparr>st_rounds := r\<rparr>) = core_part x" "index_part (x\<lparr>st_rounds := r\<rparr>) = index_part x"
    "core_part (x\<lparr>st_generation := g\<rparr>) = core_part x" "index_part (x\<lparr>st_generation := g\<rparr>) = index_part x" for x r g
    by (simp_all add: core_part_def index_part_def)
  ultimately show ?thesis using core_index_missed by metis
qed

lemma sint_small: "uint (w :: u64) < 2 ^ 63 \<Longrightarrow> sint w = uint w"
proof -
  assume "uint w < 2 ^ 63"
  moreover have "- (2 ^ 63) \<le> uint w" by (rule order_trans [of _ 0]) simp_all
  ultimately have "signed_take_bit 63 (uint w) = uint w" by (intro signed_take_bit_int_eq_self)
  then show ?thesis by (simp add: sint_uint)
qed

lemma bump_inverse:
  assumes "uint c + k < 2 ^ 63" and "0 \<le> k"
  shows "bump_count (bump_count c k) (- k) = c"
proof -
  have u: "uint (c + word_of_int k) = uint c + k"
    using assms by (simp add: uint_word_ariths uint_word_of_int mod_add_right_eq)
  then have "sint (c + word_of_int k) = uint c + k"
    using assms sint_small [of "c + word_of_int k"] by simp
  moreover have "sint c = uint c" using assms sint_small [of c] by simp
  moreover have "(uint c + k < 0) = False" "(uint c < 0) = False"
    using add_nonneg_nonneg [OF unsigned_greater_eq assms(2), of c] by (simp_all add: not_less)
  ultimately show ?thesis by (simp add: bump_count_def Let_def)
qed

section \<open>A rollback inverts an apply\<close>

definition same_chain :: "store \<Rightarrow> store \<Rightarrow> bool" where
  "same_chain s s' \<longleftrightarrow> st_wallets s' = st_wallets s \<and> st_blocks s' = st_blocks s \<and> st_block_ids s' = st_block_ids s
     \<and> st_txs s' = st_txs s \<and> st_tx_list s' = st_tx_list s \<and> st_wallet_tx s' = st_wallet_tx s
     \<and> get_last_height s' = get_last_height s \<and> transaction_count s' = transaction_count s"

text \<open>A store whose maps are ordered, and a block none of whose keys it holds yet.\<close>

definition store_wf :: "store \<Rightarrow> bool" where
  "store_wf s \<longleftrightarrow> bt_wf (st_wallets s) \<and> bt_wf (st_blocks s) \<and> bt_wf (st_block_ids s) \<and> index_wf s"

definition fresh_block :: "crypto \<Rightarrow> network \<Rightarrow> block \<Rightarrow> store \<Rightarrow> bool" where
  "fresh_block E n b s \<longleftrightarrow> bt_get (st_blocks s) (b_height b) = None
     \<and> (\<forall>i. b_id b = Some i \<longrightarrow> bt_get (st_block_ids s) i = None)
     \<and> (\<forall>itx \<in> set (enumerate 0 (b_transactions b)).
          (\<forall>k \<in> id_keys itx. bt_get (st_txs s) k = None)
        \<and> (\<forall>k \<in> list_keys (b_height b) itx. bt_get (st_tx_list s) k = None)
        \<and> (\<forall>k \<in> wallet_keys E (nw_pubkey_hash n) (b_height b) itx. bt_get (st_wallet_tx s) k = None))"

lemma chain_part_index: "chain_part s = chain_part s' \<Longrightarrow> index_part s = index_part s' \<and> index_wf s = index_wf s'"
  by (simp add: chain_part_def index_part_def index_wf_def)

text \<open>What the block write leaves in the store it started from.\<close>

lemma write_block_index:
  assumes "write_block E net (b, enc) s = Inr s'"
  obtains s1 where "rfold (index_tx E net (b_height b)) (enumerate 0 (b_transactions b))
      (s\<lparr>st_blocks := bt_put (b_height b) enc (st_blocks s), st_block_ids :=
        (case b_id b of None \<Rightarrow> st_block_ids s | Some i \<Rightarrow> bt_put i (b_height b) (st_block_ids s))\<rparr>) = Inr s1"
    and "index_part s' = index_part s1"
    and "transaction_count s' = (if indexed_count b = 0 then transaction_count s
          else bump_count (transaction_count s) (indexed_count b))"
proof -
  obtain s1 where s1: "rfold (index_tx E net (b_height b)) (enumerate 0 (b_transactions b))
      (s\<lparr>st_blocks := bt_put (b_height b) enc (st_blocks s), st_block_ids :=
        (case b_id b of None \<Rightarrow> st_block_ids s | Some i \<Rightarrow> bt_put i (b_height b) (st_block_ids s))\<rparr>) = Inr s1"
    and s': "s' = (let s = bump_tx_count (indexed_count b) s1
      in if b_height b > get_last_height s then s\<lparr>st_last_height := Some (b_height b)\<rparr> else s)"
    using assms by (auto simp: write_block_def Let_def rbind_eq_Inr)
  have "st_tx_count s1 = st_tx_count s"
    using rfold_frame [where p = st_tx_count, OF _ s1] by (simp add: index_tx_frame(7))
  then have "transaction_count s' = (if indexed_count b = 0 then transaction_count s
          else bump_count (transaction_count s) (indexed_count b))"
    by (simp add: s' Let_def transaction_count_def bump_tx_count_def)
  moreover have "index_part s' = index_part s1" by (simp add: s' Let_def index_part_def)
  ultimately show ?thesis using that s1 by blast
qed

lemma fold_core:
  "chain_part (fold drop_market us s) = chain_part s" "st_wallets (fold drop_market us s) = st_wallets s"
  "chain_part (fold undo_wallet us s) = chain_part s"
  "chain_part (fold (undo_order h) os s) = chain_part s" "st_wallets (fold (undo_order h) os s) = st_wallets s"
  by (rule fold_frame, simp add: frame)+

text \<open>The rollback transaction of a stored block whose keys are those of the applied block.\<close>

lemma rollback_commit_restores:
  assumes keys: "map (keys_of E (nw_pubkey_hash n) h) (enumerate 0 (b_transactions db))
      = map (keys_of E (nw_pubkey_hash n) h) itxs"
    and ok: "\<And>itx. itx \<in> set (enumerate 0 (b_transactions db)) \<Longrightarrow> tx_id (snd itx) \<noteq> None \<Longrightarrow>
      is_ok (tx_addresses E (snd itx) (nw_pubkey_hash n))"
    and wallets: "st_wallets (fold undo_wallet undo (fold drop_market undo s)) = W"
  shows "\<exists>s'. rollback_commit E n h db undo s = Inr s' \<and> st_wallets s' = W
     \<and> st_blocks s' = bt_del h (st_blocks s)
     \<and> st_block_ids s' = (case b_id db of None \<Rightarrow> st_block_ids s | Some i \<Rightarrow> bt_del i (st_block_ids s))
     \<and> st_last_height s' = Some (h - 1)
     \<and> transaction_count s' = (if indexed_count db = 0 then transaction_count s
          else bump_count (transaction_count s) (- indexed_count db))
     \<and> (\<forall>k. bt_get (st_txs s') k = (if \<exists>itx \<in> set itxs. k \<in> id_keys itx then None else bt_get (st_txs s) k))
     \<and> (\<forall>k. bt_get (st_tx_list s') k = (if \<exists>itx \<in> set itxs. k \<in> list_keys h itx then None else bt_get (st_tx_list s) k))
     \<and> (\<forall>k. bt_get (st_wallet_tx s') k = (if \<exists>itx \<in> set itxs. k \<in> wallet_keys E (nw_pubkey_hash n) h itx
          then None else bt_get (st_wallet_tx s) k))
     \<and> (index_wf s \<longrightarrow> index_wf s')"
proof -
  define symbols where "symbols = (if list_ex (\<lambda>t. tx_type_group t = TYPE_GROUP_TOKEN) (b_transactions db)
     then st_token_symbol s else [])"
  define sC where "sC = fold (undo_order h) (filter (\<lambda>itx. tx_type_group (snd itx) = TYPE_GROUP_TOKEN)
     (rev (enumerate 0 (b_transactions db)))) (fold undo_wallet undo (fold drop_market undo s))"
  have C: "chain_part sC = chain_part s" "st_wallets sC = W"
    using wallets by (simp_all add: sC_def fold_core)
  obtain sD where sD: "rfold (undo_tx E (nw_pubkey_hash n) h (previous_owners undo) symbols)
      (enumerate 0 (b_transactions db)) sC = Inr sD"
    using rfold_total undo_tx_total ok by metis
  have D: "core_part sD = core_part sC" by (rule undo_txs_get(1) [OF sD])
  define s' where "s' = (bump_tx_count (- indexed_count db) sD)\<lparr>st_block_ids := (case b_id db of
       None \<Rightarrow> st_block_ids sD | Some i \<Rightarrow> bt_del i (st_block_ids sD)),
     st_blocks := bt_del h (st_blocks sD), st_undo := bt_del h (st_undo sD), st_last_height := Some (h - 1)\<rparr>"
  have r: "rollback_commit E n h db undo s = Inr s'"
    unfolding rollback_commit_def Let_def symbols_def [symmetric] sC_def [symmetric] sD
    by (simp add: s'_def split: option.split)
  have f: "st_wallets sD = W" "st_blocks sD = st_blocks s" "st_block_ids sD = st_block_ids s"
    "st_tx_count sD = st_tx_count s"
    using C D by (simp_all add: core_part_def chain_part_def)
  have i: "st_txs sC = st_txs s" "st_tx_list sC = st_tx_list s" "st_wallet_tx sC = st_wallet_tx s" "index_wf sC = index_wf s"
    using C(1) by (simp_all add: chain_part_def index_wf_def)
  have i': "st_txs s' = st_txs sD" "st_tx_list s' = st_tx_list sD" "st_wallet_tx s' = st_wallet_tx sD" "index_wf s' = index_wf sD"
    by (simp_all add: s'_def index_wf_def)
  have t: "transaction_count s' = (if indexed_count db = 0 then transaction_count s
          else bump_count (transaction_count s) (- indexed_count db))"
    using f(4) by (simp add: s'_def transaction_count_def bump_tx_count_def)
  have "st_wallets s' = W" "st_blocks s' = bt_del h (st_blocks s)" "st_last_height s' = Some (h - 1)"
    "st_block_ids s' = (case b_id db of None \<Rightarrow> st_block_ids s | Some i \<Rightarrow> bt_del i (st_block_ids s))"
    using f by (simp_all add: s'_def split: option.split)
  with r t undo_txs_get(2-4) [OF sD] undo_txs_wf [OF sD] keys_union [OF keys] show ?thesis
    unfolding i i' by (intro exI [of _ s']) (simp add: i i')
qed

lemma fresh_get:
  assumes "a = (if \<exists>x \<in> X. k \<in> K x then None else b)" and "\<And>x. x \<in> X \<Longrightarrow> k \<in> K x \<Longrightarrow> c = None"
    and "\<forall>x \<in> X. k \<notin> K x \<Longrightarrow> b = c"
  shows "a = c"
  using assms by (cases "\<exists>x \<in> X. k \<in> K x") auto

text \<open>Preparing a numbered block with its id changes nothing.\<close>

lemma prepare_numbered:
  assumes "b_id b \<noteq> None" and "list_all (numbered E n) (enumerate k (b_transactions b))"
  shows "prepare_block E n b = rbind (encode_block E b n) (\<lambda>enc. Inr (b, enc))"
proof -
  have "collect (map (fill_tx_id E) txs) = Inr txs" if "list_all (numbered E n) (enumerate k txs)" for txs k
    using that by (induction txs arbitrary: k) (auto simp: numbered_def fill_tx_id_def)
  from this [OF assms(2)] have "collect (map (fill_tx_id E) (b_transactions b)) = Inr (b_transactions b)" .
  then show ?thesis using assms(1) by (auto simp: prepare_block_def Let_def)
qed

lemma undo_kept: "bt_get (let u = bt_put h undo m in if h > UNDO_DEPTH then bt_del (h - UNDO_DEPTH) u else u) h = Some undo"
  by (auto simp: Let_def UNDO_DEPTH_def)

lemma indexes_restored:
  assumes sx: "rfold (index_tx E (nw_pubkey_hash n) (b_height b)) (enumerate 0 (b_transactions b)) s0 = Inr sx"
    and parts: "index_part s0 = index_part s" "index_part s1 = index_part sx" and fresh: "fresh_block E n b s"
    and r1: "\<forall>k. bt_get (st_txs s') k = (if \<exists>itx \<in> set (enumerate 0 (b_transactions b)). k \<in> id_keys itx
        then None else bt_get (st_txs s1) k)"
    and r2: "\<forall>k. bt_get (st_tx_list s') k = (if \<exists>itx \<in> set (enumerate 0 (b_transactions b)). k \<in> list_keys (b_height b) itx
        then None else bt_get (st_tx_list s1) k)"
    and r3: "\<forall>k. bt_get (st_wallet_tx s') k = (if \<exists>itx \<in> set (enumerate 0 (b_transactions b)).
        k \<in> wallet_keys E (nw_pubkey_hash n) (b_height b) itx then None else bt_get (st_wallet_tx s1) k)"
  shows "bt_get (st_txs s') k = bt_get (st_txs s) k" "bt_get (st_tx_list s') k2 = bt_get (st_tx_list s) k2"
    "bt_get (st_wallet_tx s') k3 = bt_get (st_wallet_tx s) k3"
proof -
  note free = fresh [unfolded fresh_block_def, THEN conjunct2, THEN conjunct2]
  have f: "st_txs s1 = st_txs sx" "st_tx_list s1 = st_tx_list sx" "st_wallet_tx s1 = st_wallet_tx sx"
    "st_txs s0 = st_txs s" "st_tx_list s0 = st_tx_list s" "st_wallet_tx s0 = st_wallet_tx s"
    using parts by (simp_all add: index_part_def)
  show "bt_get (st_txs s') k = bt_get (st_txs s) k"
    by (rule fresh_get [OF spec [OF r1]]) (use free index_txs_get(1) [OF sx] f in auto)
  show "bt_get (st_tx_list s') k2 = bt_get (st_tx_list s) k2"
    by (rule fresh_get [OF spec [OF r2]]) (use free index_txs_get(2) [OF sx] f in auto)
  show "bt_get (st_wallet_tx s') k3 = bt_get (st_wallet_tx s) k3"
    by (rule fresh_get [OF spec [OF r3]]) (use free index_txs_get(3) [OF sx] f in auto)
qed

text \<open>What an applied canonical block leaves: its record, its undo record, its keys, and the way back for
  the wallets.\<close>

lemma applied_block_left:
  assumes applied: "apply_block E n b s = (s1, Inr ())"
    and stored: "canonical_block E n b" "b_id b = Some i" "block_id E b = Inr i"
      "list_all (numbered E n) (enumerate 0 (b_transactions b))"
    and tip: "0 < get_last_height s" "0 < b_height b" and store: "store_wf s" "no_final s (b_height b)"
  obtains undo db enc s0 sx where "b_height b = get_last_height s + 1" "1 < b_height b" "get_last_height s1 = b_height b"
    and "get_block_by_height E n s1 (b_height b) = Inr (Some db)" "b_id db = Some i" "b_height db = b_height b"
    and "map (keys_of E (nw_pubkey_hash n) (b_height b)) (enumerate 0 (b_transactions db))
      = map (keys_of E (nw_pubkey_hash n) (b_height b)) (enumerate 0 (b_transactions b))"
    and "bt_get (st_undo s1) (b_height b) = Some undo" "no_final s1 (b_height b)"
    and "st_wallets (fold undo_wallet undo (fold drop_market undo s1)) = st_wallets s"
    and "rfold (index_tx E (nw_pubkey_hash n) (b_height b)) (enumerate 0 (b_transactions b)) s0 = Inr sx"
    and "index_part s0 = index_part s" "index_part s1 = index_part sx"
    and "st_blocks s1 = bt_put (b_height b) enc (st_blocks s)" "st_block_ids s1 = bt_put i (b_height b) (st_block_ids s)"
    and "transaction_count s1 = (if indexed_count b = 0 then transaction_count s
          else bump_count (transaction_count s) (indexed_count b))"
proof -
  let ?net = "nw_pubkey_hash n" and ?h = "b_height b"
  obtain pb enc ds sw undo out sb where pb: "prepare_block E n b = Inr (pb, enc)"
    and ds: "accumulate_deltas E n (store_view E n s) [pb] pb [] = Inr ds" and ct: "check_tip pb s = Inr ()"
    and sw: "write_wallets_undo ds s = Inr (sw, undo, out)" and sb: "write_block E ?net (pb, enc) sw = Inr sb"
    and st: "statistics (sb\<lparr>st_undo := (let u = bt_put (b_height pb) undo (st_undo sb)
        in if b_height pb > UNDO_DEPTH then bt_del (b_height pb - UNDO_DEPTH) u else u),
        st_generation := st_generation sb + 1\<rparr>) s1"
    using apply_block_cases [OF applied] by metis
  have enc: "pb = b" "encode_block E b n = Inr enc"
    using pb prepare_numbered [OF _ stored(4)] stored(2) by (auto simp: rbind_eq_Inr)
  have h: "?h = get_last_height s + 1" using ct tip(1) by (auto simp: check_tip_def Let_def enc split: if_splits)
  have "get_last_height s + 1 \<noteq> 0" using tip(2) h by (metis word_gt_0)
  from unat_inc [OF this] have uh: "unat ?h = unat (get_last_height s) + 1" by (simp add: h)
  then have h1: "1 < ?h" using tip(1) by (simp add: word_less_nat_alt)
  have id: "(if ?h = 1 then Inr (nw_genesis_block_id n) else block_id E b) = Inr i" using h1 stored(3) by auto
  define db where "db = b\<lparr>b_id := Some i, b_transactions := annotate (b\<lparr>b_id := Some i\<rparr>) 0
      (map (with_id E n) (b_transactions b))\<rparr>"
  have dec: "decode_block E enc n = Inr db"
    using block_record_round_trip [OF stored(1) id] enc(2) by (auto simp: db_def)
  have dist: "distinct (map fst ds)" using accumulate_balance [OF bt_wf_Nil ds] bt_wf_distinct by blast
  have "chain_part sw = chain_part s" using write_wallets_record(4) [OF _ dist] sw by (simp add: write_wallets_undo_step)
  then have sw_fields: "index_part sw = index_part s" "st_blocks sw = st_blocks s" "st_block_ids sw = st_block_ids s"
    "st_finality sw = st_finality s" "transaction_count sw = transaction_count s" "get_last_height sw = get_last_height s"
    by (simp_all add: chain_part_def index_part_def transaction_count_def get_last_height_def)
  note wb = write_block_frame [OF sb, unfolded enc(1)]
  note sf = statistics_fields [OF st, unfolded enc(1)]
  have W: "st_wallets (fold undo_wallet undo (fold drop_market undo s1)) = st_wallets s"
    using store(1) by (intro wallets_restored [OF sw dist]) (simp_all add: store_wf_def fold_core sf wb)
  have keys: "map (keys_of E ?net ?h) (enumerate 0 (b_transactions db))
      = map (keys_of E ?net ?h) (enumerate 0 (b_transactions b))"
    using keys_of_annotate [OF stored(4), of ?net ?h "b\<lparr>b_id := Some i\<rparr>"] by (simp add: db_def)
  define s0 where "s0 = sw\<lparr>st_blocks := bt_put ?h enc (st_blocks sw), st_block_ids :=
        (case b_id b of None \<Rightarrow> st_block_ids sw | Some i \<Rightarrow> bt_put i ?h (st_block_ids sw))\<rparr>"
  obtain sx where sx: "rfold (index_tx E ?net ?h) (enumerate 0 (b_transactions b)) s0 = Inr sx"
    and sxi: "index_part sb = index_part sx"
    and cnt: "transaction_count sb = (if indexed_count b = 0 then transaction_count sw
          else bump_count (transaction_count sw) (indexed_count b))"
    using write_block_index [OF sb] enc(1) unfolding s0_def by blast
  have "index_part s0 = index_part s" "index_part s1 = index_part sx"
    using sf sxi sw_fields(1) by (simp_all add: index_part_def s0_def)
  moreover have "get_last_height s1 = ?h"
    using wb(8) sf(9) sw_fields(6) uh by (simp add: get_last_height_def max_def word_le_nat_alt)
  moreover have "get_block_by_height E n s1 ?h = Inr (Some db)"
    using sf(3) wb(6) dec by (simp add: get_block_by_height_def transpose_opt_def)
  moreover have "bt_get (st_undo s1) ?h = Some undo" using sf(8) undo_kept [of ?h undo "st_undo sb"] by simp
  moreover have "no_final s1 ?h"
    using store(2) sf(11) wb(4) sw_fields(4) by (simp add: no_final_def latest_finality_cert_def)
  moreover have "st_blocks s1 = bt_put ?h enc (st_blocks s)" "st_block_ids s1 = bt_put i ?h (st_block_ids s)"
    "transaction_count s1 = transaction_count sb"
    using sf(3,4,10) wb(6,7) sw_fields(2,3) stored(2) by (simp_all add: transaction_count_def)
  ultimately show ?thesis using that [OF h h1 _ _ _ _ keys _ _ W sx] cnt sw_fields(5) by (simp add: db_def)
qed

lemma rollback_after_apply:
  assumes applied: "apply_block E n b s = (s1, Inr ())"
    and stored: "canonical_block E n b" "b_id b = Some i" "block_id E b = Inr i"
      "list_all (numbered E n) (enumerate 0 (b_transactions b))"
    and tip: "0 < get_last_height s" "0 < b_height b"
    and store: "store_wf s" "fresh_block E n b s" "no_final s (b_height b)"
      "uint (transaction_count s) + indexed_count b < 2 ^ 63"
  shows "\<exists>s2. rollback_last_block E n s1 = (s2, Inr (get_last_height s)) \<and> same_chain s s2"
proof -
  let ?net = "nw_pubkey_hash n" and ?h = "b_height b" and ?itxs = "enumerate 0 (b_transactions b)"
  obtain undo db enc s0 sx where h: "?h = get_last_height s + 1" "1 < ?h" "get_last_height s1 = ?h"
    and blk: "get_block_by_height E n s1 ?h = Inr (Some db)" "b_id db = Some i"
    and keys: "map (keys_of E ?net ?h) (enumerate 0 (b_transactions db)) = map (keys_of E ?net ?h) ?itxs"
    and und: "bt_get (st_undo s1) ?h = Some undo" "no_final s1 ?h"
    and W: "st_wallets (fold undo_wallet undo (fold drop_market undo s1)) = st_wallets s"
    and sx: "rfold (index_tx E ?net ?h) ?itxs s0 = Inr sx" "index_part s0 = index_part s" "index_part s1 = index_part sx"
    and left: "st_blocks s1 = bt_put ?h enc (st_blocks s)" "st_block_ids s1 = bt_put i ?h (st_block_ids s)"
    and cnt: "transaction_count s1 = (if indexed_count b = 0 then transaction_count s
          else bump_count (transaction_count s) (indexed_count b))"
    by (rule applied_block_left [OF applied stored tip store(1,3)]) (rule that; assumption)
  have wf: "bt_wf (st_blocks s)" "bt_wf (st_block_ids s)" "index_wf s" using store(1) by (simp_all add: store_wf_def)
  have wf1: "index_wf s1" using index_txs_wf [OF sx(1)] wf(3) sx(2,3) by (simp add: index_wf_def index_part_def)
  have addr: "is_ok (tx_addresses E (snd itx) ?net)"
    if "itx \<in> set (enumerate 0 (b_transactions db))" "tx_id (snd itx) \<noteq> None" for itx
    using keys_union(5) [OF keys] index_txs_get(4) [OF sx(1)] that by blast
  obtain s' where s': "rollback_commit E n ?h db undo s1 = Inr s'" "st_wallets s' = st_wallets s"
    "st_blocks s' = bt_del ?h (st_blocks s1)"
    "st_block_ids s' = (case b_id db of None \<Rightarrow> st_block_ids s1 | Some i \<Rightarrow> bt_del i (st_block_ids s1))"
    "st_last_height s' = Some (?h - 1)"
    "transaction_count s' = (if indexed_count db = 0 then transaction_count s1
        else bump_count (transaction_count s1) (- indexed_count db))"
    "\<forall>k. bt_get (st_txs s') k = (if \<exists>itx \<in> set ?itxs. k \<in> id_keys itx then None else bt_get (st_txs s1) k)"
    "\<forall>k. bt_get (st_tx_list s') k = (if \<exists>itx \<in> set ?itxs. k \<in> list_keys ?h itx then None else bt_get (st_tx_list s1) k)"
    "\<forall>k. bt_get (st_wallet_tx s') k = (if \<exists>itx \<in> set ?itxs. k \<in> wallet_keys E ?net ?h itx
        then None else bt_get (st_wallet_tx s1) k)"
    "index_wf s1 \<longrightarrow> index_wf s'"
    using rollback_commit_restores [OF keys addr W] by blast
  obtain s2 where s2: "rollback_last_block E n s1 = (s2, Inr (?h - 1))" "core_part s2 = core_part s'"
    "index_part s2 = index_part s'"
    using rollback_step [OF h(3) [symmetric] h(2) und(2) blk(1) und(1) s'(1)] by blast
  have "st_blocks s' = st_blocks s" "st_block_ids s' = st_block_ids s"
    using s'(3,4) left bt.del_put [OF wf(1)] bt.del_put [OF wf(2)] store(2) stored(2)
    by (simp_all add: fresh_block_def blk(2))
  moreover have "st_txs s' = st_txs s" "st_tx_list s' = st_tx_list s" "st_wallet_tx s' = st_wallet_tx s"
    using indexes_restored [OF sx store(2) s'(7-9)] s'(10) wf1 wf(3) by (auto simp: index_wf_def intro: bt_ext)
  moreover have "indexed_count x = int (length (filter (\<lambda>y. tx_id (snd y) \<noteq> None) (enumerate 0 (b_transactions x))))" for x
    by (simp only: indexed_count_def filter_enumerate [of "\<lambda>t. tx_id t \<noteq> None"])
  then have "indexed_count db = indexed_count b" by (simp only: keys_union(4) [OF keys])
  then have "transaction_count s' = transaction_count s"
    using s'(6) cnt bump_inverse [OF store(4)] by (simp add: indexed_count_def)
  ultimately show ?thesis
    using s2 s'(2,5) h by (auto simp: same_chain_def core_part_def index_part_def get_last_height_def transaction_count_def)
qed

section \<open>Properties\<close>

text \<open>C4. A rollback inverts an apply: after a canonical block with its id and numbered transactions has
  been applied to a store that holds none of its keys, rolling back the last block succeeds and gives
  back every wallet, block, block id, transaction index, the tip and the transaction count, unless
  a certificate forbids it.\<close>

theorem rollback_inverts_apply:
  assumes "apply_block E n b s = (s1, Inr ())"
    and "canonical_block E n b" and "b_id b = Some i" and "block_id E b = Inr i"
    and "list_all (numbered E n) (enumerate 0 (b_transactions b))"
    and "0 < get_last_height s" and "0 < b_height b"
    and "store_wf s" and "fresh_block E n b s" and "no_final s (b_height b)"
    and "uint (transaction_count s) + indexed_count b < 2 ^ 63"
  shows "\<exists>s2. rollback_last_block E n s1 = (s2, Inr (get_last_height s)) \<and> same_chain s s2"
  using assms by (rule rollback_after_apply)

theorem rollback_inverts_apply_witness:
  "\<exists>s1 s2. apply_block ref_crypto ref_network chain_block tip_store = (s1, Inr ())
     \<and> rollback_last_block ref_crypto ref_network s1 = (s2, Inr 1) \<and> same_chain tip_store s2"
proof -
  obtain s1 where s1: "apply_block ref_crypto ref_network chain_block tip_store = (s1, Inr ())"
    using chain_block_applies by blast
  obtain i where i: "b_id chain_block = Some i" "block_id ref_crypto chain_block = Inr i"
    using chain_block_id by blast
  have t: "get_last_height tip_store = 1" "store_wf tip_store" "no_final tip_store 2" "transaction_count tip_store = 0"
    "st_blocks tip_store = []" "st_block_ids tip_store = []"
    by (simp_all add: tip_store_def store_empty_def get_last_height_def store_wf_def index_wf_def no_final_def
        latest_finality_cert_def transaction_count_def)
  have "\<exists>s2. rollback_last_block ref_crypto ref_network s1 = (s2, Inr (get_last_height tip_store)) \<and> same_chain tip_store s2"
    by (rule rollback_inverts_apply [OF s1 chain_block_canonical i])
       (simp_all add: t fresh_block_def indexed_count_def)
  with s1 show ?thesis by (auto simp: t)
qed

section \<open>Outcomes of a rollback\<close>

lemma rollback_commit_fields:
  assumes "rollback_commit E n h b undo s = Inr s'"
  shows "st_finality s' = st_finality s" "st_last_height s' = Some (h - 1)" "st_blocks s' = bt_del h (st_blocks s)"
proof -
  define sC where "sC = fold (undo_order h) (filter (\<lambda>itx. tx_type_group (snd itx) = TYPE_GROUP_TOKEN)
     (rev (enumerate 0 (b_transactions b)))) (fold undo_wallet undo (fold drop_market undo s))"
  obtain sy sD where sD: "rfold (undo_tx E (nw_pubkey_hash n) h (previous_owners undo) sy)
      (enumerate 0 (b_transactions b)) sC = Inr sD"
    and s': "s' = (let s = bump_tx_count (- indexed_count b) sD in
       s\<lparr>st_block_ids := (case b_id b of None \<Rightarrow> st_block_ids s | Some i \<Rightarrow> bt_del i (st_block_ids s)),
         st_blocks := bt_del h (st_blocks s), st_undo := bt_del h (st_undo s), st_last_height := Some (h - 1)\<rparr>)"
    using assms unfolding rollback_commit_def Let_def rbind_eq_Inr sC_def [symmetric] by blast
  have "chain_part sC = chain_part s" by (simp add: sC_def fold_core)
  with undo_txs_get(1) [OF sD] have "st_finality sD = st_finality s" "st_blocks sD = st_blocks s"
    by (simp_all add: core_part_def chain_part_def)
  then show "st_finality s' = st_finality s" "st_last_height s' = Some (h - 1)" "st_blocks s' = bt_del h (st_blocks s)"
    by (simp_all add: s' Let_def)
qed

lemma rollback_outcome:
  assumes "rollback_last_block E n s = (s', r)"
  shows "case r of Inl e \<Rightarrow> get_last_height s' = get_last_height s
     | Inr t \<Rightarrow> 1 < get_last_height s \<and> t = get_last_height s - 1 \<and> get_last_height s' = t"
    and "no_final s (get_last_height s) \<Longrightarrow> st_finality s' = st_finality s"
    and "latest_finality_cert s = Some c \<Longrightarrow> get_last_height s \<le> fc_height c \<Longrightarrow>
      fp_active (ms_finality (milestone_at n (get_last_height s))) \<Longrightarrow> s' = s"
    and "st_finality s' = st_finality s \<or> (\<exists>k. st_finality s' = bt_del k (st_finality s))"
    and "st_blocks s' = (case r of Inl e \<Rightarrow> st_blocks s | Inr t \<Rightarrow> bt_del (get_last_height s) (st_blocks s))"
proof -
  define h where "h = get_last_height s"
  define final where "final = (case latest_finality_cert s of None \<Rightarrow> None
     | Some c \<Rightarrow> if fc_height c \<ge> h then Some c else None)"
  define s0 where "s0 = (case final of None \<Rightarrow> s | Some c \<Rightarrow> s\<lparr>st_finality := bt_del (fc_height c) (st_finality s)\<rparr>)"
  define body where "body = rbind (get_block_by_height E n s0 h) (\<lambda>mb. rbind (ok_or NotFound mb) (\<lambda>b.
     rbind (ok_or (Sync ''no undo record'') (bt_get (st_undo s0) h)) (\<lambda>undo. rollback_commit E n h b undo s0)))"
  have s0: "get_last_height s0 = h" "st_blocks s0 = st_blocks s"
    by (simp_all add: s0_def h_def get_last_height_def split: option.split)
  have unchanged: "s' = s \<and> \<not> is_ok r" if "h \<le> 1 \<or> final \<noteq> None \<and> fp_active (ms_finality (milestone_at n h))"
    using assms that unfolding rollback_last_block_def Let_def h_def [symmetric] final_def [symmetric]
    by (auto split: if_splits)
  have failed: "s' = s0 \<and> r = Inl e" if "\<not> h \<le> 1" "\<not> (final \<noteq> None \<and> fp_active (ms_finality (milestone_at n h)))"
    "body = Inl e" for e
    using assms that unfolding rollback_last_block_def Let_def h_def [symmetric] final_def [symmetric]
      s0_def [symmetric] body_def [symmetric] by (auto split: if_splits)
  have finish: "r = Inr (h - 1) \<and> core_part s' = core_part s1" if "\<not> h \<le> 1"
    "\<not> (final \<noteq> None \<and> fp_active (ms_finality (milestone_at n h)))" "body = Inr s1" for s1
  proof -
    have "r = Inr (h - 1) \<and> (s' = drop_missed_at h (s1\<lparr>st_generation := st_generation s1 + 1\<rparr>)
        \<or> (\<exists>x. s' = (drop_missed_at h (s1\<lparr>st_generation := st_generation s1 + 1\<rparr>))\<lparr>st_rounds := x\<rparr>))"
      using assms that unfolding rollback_last_block_def Let_def h_def [symmetric] final_def [symmetric]
        s0_def [symmetric] body_def [symmetric] by (simp split: if_splits) blast+
    moreover have "core_part (x\<lparr>st_rounds := y\<rparr>) = core_part x" "core_part (x\<lparr>st_generation := g\<rparr>) = core_part x" for x y g
      by (simp_all add: core_part_def)
    ultimately show ?thesis using core_index_missed(1) by auto
  qed
  have commit: "st_finality s1 = st_finality s0 \<and> st_last_height s1 = Some (h - 1) \<and> st_blocks s1 = bt_del h (st_blocks s)" if "body = Inr s1" for s1
    using that rollback_commit_fields s0(2) unfolding body_def by (auto simp: rbind_eq_Inr)
  have outcome: "s' \<in> {s, s0} \<and> \<not> is_ok r
      \<or> 1 < h \<and> r = Inr (h - 1) \<and> st_finality s' = st_finality s0 \<and> get_last_height s' = h - 1
        \<and> st_blocks s' = bt_del h (st_blocks s)"
  proof (cases "h \<le> 1 \<or> final \<noteq> None \<and> fp_active (ms_finality (milestone_at n h))")
    case True
    then show ?thesis using unchanged by simp
  next
    case open_tip: False
    show ?thesis
    proof (cases body)
      case (Inl e)
      then show ?thesis using failed open_tip by simp
    next
      case (Inr s1)
      with open_tip finish have "r = Inr (h - 1)" "core_part s' = core_part s1" by simp_all
      with commit [OF Inr] open_tip show ?thesis by (simp add: core_part_def get_last_height_def not_le)
    qed
  qed
  show "case r of Inl e \<Rightarrow> get_last_height s' = get_last_height s
     | Inr t \<Rightarrow> 1 < get_last_height s \<and> t = get_last_height s - 1 \<and> get_last_height s' = t"
    using outcome s0 by (cases r) (auto simp: h_def)
  show "st_blocks s' = (case r of Inl e \<Rightarrow> st_blocks s | Inr t \<Rightarrow> bt_del (get_last_height s) (st_blocks s))"
    using outcome s0 by (cases r) (auto simp: h_def)
  show "st_finality s' = st_finality s" if "no_final s (get_last_height s)"
  proof -
    have "final = None" using that by (auto simp: final_def no_final_def h_def not_le split: option.splits)
    then have "s0 = s" by (simp add: s0_def)
    with outcome show ?thesis by auto
  qed
  show "s' = s" if "latest_finality_cert s = Some c" "get_last_height s \<le> fc_height c"
      "fp_active (ms_finality (milestone_at n (get_last_height s)))"
    using unchanged that by (auto simp: final_def h_def)
  show "st_finality s' = st_finality s \<or> (\<exists>k. st_finality s' = bt_del k (st_finality s))"
    using outcome by (auto simp: s0_def split: option.splits)
qed

lemma dec_bounds: "1 < (h :: u64) \<Longrightarrow> unat (h - 1) = unat h - 1"
  by (rule unat_minus_one) auto

lemma dec_neq: "(x :: u64) - 1 \<noteq> x"
  by simp

text \<open>\<open>rollback_to\<close> keeps every certificate: the invariant of its loop.\<close>

lemma rollback_loop_keeps:
  assumes "rollback_loop k E n height tip s = (s', r)" and "latest_finality_cert s = Some c"
    and "fp_active (ms_finality (milestone_at n (fc_height c)))" and "fc_height c \<le> get_last_height s"
  shows "fc_height c \<le> get_last_height s'"
  using assms
proof (induction k arbitrary: s tip)
  case (Suc k)
  show ?case
  proof (cases "tip > height")
    case True
    obtain s1 r1 where s1: "rollback_last_block E n s = (s1, r1)" by (cases "rollback_last_block E n s")
    note out = rollback_outcome [OF s1]
    show ?thesis
    proof (cases "fc_height c = get_last_height s")
      case final: True
      then have "s1 = s" using out(3) Suc.prems(2,3) by simp
      have "\<exists>e. r1 = Inl e"
      proof (cases r1)
        case (Inr t)
        have "get_last_height s1 = get_last_height s - 1" using out(1) Inr by simp
        then show ?thesis using dec_neq [of "get_last_height s"] \<open>s1 = s\<close> by metis
      qed simp
      then obtain e where "r1 = Inl e" by blast
      with s1 True \<open>s1 = s\<close> have "rollback_loop (Suc k) E n height tip s = (s, Inl e)" by simp
      with Suc.prems(1,4) show ?thesis by simp
    next
      case False
      then have lt: "fc_height c < get_last_height s" using Suc.prems(4) by simp
      then have "st_finality s1 = st_finality s"
        using out(2) Suc.prems(2) by (simp add: no_final_def)
      then have cert: "latest_finality_cert s1 = Some c" using Suc.prems(2) by (simp add: latest_finality_cert_def)
      show ?thesis
      proof (cases r1)
        case (Inl e)
        then have "get_last_height s1 = get_last_height s" using out(1) by simp
        then show ?thesis using Suc.prems(1,4) True s1 Inl by simp
      next
        case (Inr t)
        then have "get_last_height s1 = get_last_height s - 1" "1 < get_last_height s" using out(1) by auto
        then have "fc_height c \<le> get_last_height s1" using lt by (simp add: word_le_nat_alt word_less_nat_alt dec_bounds)
        then show ?thesis using Suc.IH [OF _ cert Suc.prems(3)] Suc.prems(1) True s1 Inr by simp
      qed
    qed
  next
    case False
    with Suc.prems show ?thesis by simp
  qed
qed simp

text \<open>C16. A certified block survives every rollback: in hard finality mode (\<open>finality.active\<close> at the
  height of the latest certificate) no call of \<open>rollback_to\<close>, whatever its target and however it
  ends, moves the tip below that certificate.\<close>

theorem certified_block_survives:
  assumes "rollback_to E n height s = (s', r)" and "latest_finality_cert s = Some c"
    and "fp_active (ms_finality (milestone_at n (fc_height c)))" and "fc_height c \<le> get_last_height s"
  shows "fc_height c \<le> get_last_height s'"
  using assms unfolding rollback_to_def by (rule rollback_loop_keeps)

definition final_network :: network where
  "final_network = ref_network\<lparr>nw_milestones := [milestone_default\<lparr>ms_finality := finality_params_default\<lparr>fp_active := True\<rparr>\<rparr>]\<rparr>"

definition final_store :: store where
  "final_store = store_empty\<lparr>st_last_height := Some 5,
     st_finality := [(5, \<lparr>fc_height = 5, fc_block_id = ''x'', fc_votes = []\<rparr>)]\<rparr>"

theorem certified_block_survives_witness:
  "\<exists>s' r. rollback_to ref_crypto final_network 2 final_store = (s', r) \<and> 5 \<le> get_last_height s'"
proof -
  obtain s' r where r: "rollback_to ref_crypto final_network 2 final_store = (s', r)"
    by (cases "rollback_to ref_crypto final_network 2 final_store")
  have f: "latest_finality_cert final_store = Some \<lparr>fc_height = 5, fc_block_id = ''x'', fc_votes = []\<rparr>"
    "get_last_height final_store = 5"
    by (simp_all add: final_store_def latest_finality_cert_def get_last_height_def)
  have m: "fp_active (ms_finality (milestone_at final_network 5))"
    by (simp add: milestone_at_def final_network_def milestone_default_def)
  from certified_block_survives [OF r f(1)] m f(2) r show ?thesis by auto
qed

lemma rollback_loop_reaches:
  assumes "rollback_loop k E n height tip s = (s', r)" and "tip = get_last_height s" and "unat tip \<le> k"
  shows "case r of Inr t \<Rightarrow> get_last_height s' = t \<and> t = min height tip
    | Inl e \<Rightarrow> height < get_last_height s' \<and> get_last_height s' \<le> tip
        \<and> (\<exists>s0. get_last_height s0 = get_last_height s' \<and> rollback_last_block E n s0 = (s', Inl e))"
  using assms
proof (induction k arbitrary: s tip)
  case 0
  then show ?case by (auto simp: word_le_nat_alt word_unat_eq_iff min_def)
next
  case (Suc k)
  show ?case
  proof (cases "tip > height")
    case True
    obtain s1 r1 where s1: "rollback_last_block E n s = (s1, r1)" by (cases "rollback_last_block E n s")
    show ?thesis
    proof (cases r1)
      case (Inl e)
      then have "s' = s1" "r = Inl e" using Suc.prems(1) True s1 by simp_all
      moreover have "get_last_height s1 = tip" using rollback_outcome(1) [OF s1] Inl Suc.prems(2) by simp
      ultimately show ?thesis using s1 Inl True Suc.prems(2) by auto
    next
      case (Inr t1)
      have step: "1 < tip" "t1 = tip - 1" "get_last_height s1 = t1"
        using rollback_outcome(1) [OF s1] Inr Suc.prems(2) by simp_all
      then have u: "unat t1 = unat tip - 1" by (simp add: dec_bounds)
      then have le: "height \<le> t1" "t1 \<le> tip" using True by (simp_all add: word_le_nat_alt word_less_nat_alt)
      have "case r of Inr t \<Rightarrow> get_last_height s' = t \<and> t = min height t1
        | Inl e \<Rightarrow> height < get_last_height s' \<and> get_last_height s' \<le> t1
            \<and> (\<exists>s0. get_last_height s0 = get_last_height s' \<and> rollback_last_block E n s0 = (s', Inl e))"
        by (rule Suc.IH [OF _ step(3) [symmetric]]) (use Suc.prems True s1 Inr u in auto)
      then show ?thesis using le True by (auto simp: min_def split: sum.splits)
    qed
  next
    case False
    with Suc.prems show ?thesis by (auto simp: min_def)
  qed
qed

text \<open>C28. \<open>rollback_to\<close> never runs out of steps and never stops early without a reason: it either answers the target
  height (or the tip when that already lies at or below the target) and leaves it as the tip of the store, or
  it answers an error, and then it stands above the target at a block that \<open>rollback_last_block\<close> refuses with
  that very error.\<close>

theorem rollback_to_reaches:
  "case rollback_to E n height s of
     (s', Inr t) \<Rightarrow> t = min height (get_last_height s) \<and> get_last_height s' = t
   | (s', Inl e) \<Rightarrow> height < get_last_height s' \<and> get_last_height s' \<le> get_last_height s
       \<and> (\<exists>s0. get_last_height s0 = get_last_height s' \<and> rollback_last_block E n s0 = (s', Inl e))"
proof -
  obtain s' r where r: "rollback_to E n height s = (s', r)" by (cases "rollback_to E n height s")
  from rollback_loop_reaches [OF this [unfolded rollback_to_def] refl order_refl] show ?thesis
    by (cases r) (auto simp: r)
qed

text \<open>A block is applied on top of height 1 and the store is rolled back to height 1.\<close>

theorem rollback_to_reaches_witness:
  "\<exists>s1 s2. apply_block ref_crypto ref_network chain_block tip_store = (s1, Inr ()) \<and> get_last_height s1 = 2
     \<and> rollback_to ref_crypto ref_network 1 s1 = (s2, Inr 1) \<and> get_last_height s2 = 1"
proof -
  obtain s1 where s1: "apply_block ref_crypto ref_network chain_block tip_store = (s1, Inr ())"
    using chain_block_applies by blast
  obtain i where i: "b_id chain_block = Some i" "block_id ref_crypto chain_block = Inr i"
    using chain_block_id by blast
  have t: "get_last_height tip_store = 1" "store_wf tip_store" "no_final tip_store 2" "transaction_count tip_store = 0"
    "st_blocks tip_store = []" "st_block_ids tip_store = []"
    by (simp_all add: tip_store_def store_empty_def get_last_height_def store_wf_def index_wf_def no_final_def
        latest_finality_cert_def transaction_count_def)
  have "\<exists>s2. rollback_last_block ref_crypto ref_network s1 = (s2, Inr (get_last_height tip_store)) \<and> same_chain tip_store s2"
    by (rule rollback_after_apply [OF s1 chain_block_canonical i])
       (simp_all add: t fresh_block_def indexed_count_def)
  then obtain s2 where s2: "rollback_last_block ref_crypto ref_network s1 = (s2, Inr 1)" by (auto simp: t)
  have last: "get_last_height s1 = 2"
    using rollback_outcome(1) [OF s2] by (simp add: eq_diff_eq [symmetric])
  have "rollback_loop (Suc (Suc 0)) ref_crypto ref_network 1 2 s1 = (s2, Inr 1)" using s2 by simp
  then have "rollback_loop 2 ref_crypto ref_network 1 2 s1 = (s2, Inr 1)" by (simp only: numeral_2_eq_2)
  then have "rollback_to ref_crypto ref_network 1 s1 = (s2, Inr 1)" by (simp add: rollback_to_def last)
  with rollback_to_reaches [where E = ref_crypto and n = ref_network and height = 1 and s = s1] s1 last show ?thesis by auto
qed

end
