(* ===== verification/StoreQueries.thy ===== *)
theory StoreQueries
  imports Rollback
begin

text \<open>
  Queries over the chain store and the secondary indexes: the binary search for a timestamp, the order
  book, and two index defects around rolled-back registrations and short round snapshots.
\<close>

section \<open>Searching a height by timestamp\<close>

text \<open>Every height of the range is stored, and timestamps do not decrease.\<close>

definition stored_range :: "(u64 \<Rightarrow> block option res) \<Rightarrow> (u64 \<Rightarrow> u32) \<Rightarrow> u64 \<Rightarrow> u64 \<Rightarrow> bool" where
  "stored_range get time lo hi \<longleftrightarrow>
     (\<forall>h. lo \<le> h \<and> h < hi \<longrightarrow> (\<exists>b. get h = Inr (Some b) \<and> b_timestamp b = time h))
     \<and> (\<forall>h h'. lo \<le> h \<and> h \<le> h' \<and> h' < hi \<longrightarrow> time h \<le> time h')"

lemma stored_range_sub:
  "stored_range get time lo hi \<Longrightarrow> lo \<le> lo' \<Longrightarrow> hi' \<le> hi \<Longrightarrow> stored_range get time lo' hi'"
  unfolding stored_range_def by (meson order_trans less_le_trans)

lemma search_height_spec:
  assumes "stored_range get time lo hi" and "lo \<le> hi"
  shows "\<exists>r. search_height get ts lo hi = Inr r \<and> lo \<le> r \<and> r \<le> hi
     \<and> (\<forall>h. lo \<le> h \<and> h < r \<longrightarrow> time h < ts) \<and> (\<forall>h. r \<le> h \<and> h < hi \<longrightarrow> ts \<le> time h)"
  using assms
proof (induction get ts lo hi rule: search_height.induct)
  case (1 get ts lo hi)
  show ?case
  proof (cases "lo < hi")
    case True
    define mid where "mid = lo + (hi - lo) div 2"
    have m: "lo \<le> mid" "mid < hi" "mid < mid + 1" "mid + 1 \<le> hi"
      using mid_bounds [OF True] unfolding mid_def [symmetric] word_le_nat_alt word_less_nat_alt by auto
    obtain b where b: "get mid = Inr (Some b)" "b_timestamp b = time mid"
      using 1(4) m unfolding stored_range_def by blast
    have mono: "time h \<le> time h'" if "lo \<le> h" "h \<le> h'" "h' < hi" for h h'
      using 1(4) that unfolding stored_range_def by blast
    show ?thesis
    proof (cases "time mid < ts")
      case less: True
      have sub: "stored_range get time (mid + 1) hi"
        using m(1,3) by (intro stored_range_sub [OF 1(4)]) auto
      obtain r where r: "search_height get ts (mid + 1) hi = Inr r" "mid + 1 \<le> r" "r \<le> hi"
        "\<forall>h. mid + 1 \<le> h \<and> h < r \<longrightarrow> time h < ts" "\<forall>h. r \<le> h \<and> h < hi \<longrightarrow> ts \<le> time h"
        using 1(2) [OF True mid_def b(1) refl _ sub m(4)] less b(2) by auto
      have "time h < ts" if "lo \<le> h" "h < r" for h
      proof (cases "mid + 1 \<le> h")
        case False
        then have "h \<le> mid" using m(3) by (meson inc_le leI)
        with mono [OF that(1) this m(2)] less show ?thesis by simp
      qed (use r(4) that in blast)
      moreover have "search_height get ts lo hi = Inr r"
        using True less b r(1) by (subst search_height.simps) (simp add: mid_def [symmetric] Let_def)
      moreover have "lo \<le> r" using m(1,3) r(2) by simp
      ultimately show ?thesis using r(3,5) by blast
    next
      case geq: False
      have sub: "stored_range get time lo mid"
        using m(2) by (intro stored_range_sub [OF 1(4)]) auto
      obtain r where r: "search_height get ts lo mid = Inr r" "lo \<le> r" "r \<le> mid"
        "\<forall>h. lo \<le> h \<and> h < r \<longrightarrow> time h < ts" "\<forall>h. r \<le> h \<and> h < mid \<longrightarrow> ts \<le> time h"
        using 1(3) [OF True mid_def b(1) refl _ sub m(1)] geq b(2) by auto
      have "ts \<le> time h" if "r \<le> h" "h < hi" for h
      proof (cases "h < mid")
        case False
        then have "time mid \<le> time h" using mono [OF m(1) _ that(2)] by simp
        with geq show ?thesis by simp
      qed (use r(5) that in blast)
      moreover have "search_height get ts lo hi = Inr r"
        using True geq b r(1) by (subst search_height.simps) (simp add: mid_def [symmetric] Let_def)
      moreover have "r \<le> hi" using r(3) m(2) by simp
      ultimately show ?thesis using r(2,4) by blast
    qed
  next
    case False
    with 1(5) have "lo = hi" by simp
    then show ?thesis by (subst search_height.simps) auto
  qed
qed

text \<open>The timestamp search is exact: over a range of stored heights with non-decreasing timestamps,
  \<open>height_at_or_after\<close> returns, and what it returns is the lowest height whose block is not older
  than the timestamp (one past the tip when there is none).\<close>

theorem height_at_or_after_least:
  assumes "stored_range (get_block_by_height E n s) time (max (first_height s) 1) (get_last_height s + 1)"
    and "max (first_height s) 1 \<le> get_last_height s + 1"
  shows "\<exists>r. height_at_or_after E n s ts = Inr r \<and> max (first_height s) 1 \<le> r \<and> r \<le> get_last_height s + 1
     \<and> (\<forall>h. max (first_height s) 1 \<le> h \<and> h < r \<longrightarrow> time h < ts)
     \<and> (\<forall>h. r \<le> h \<and> h < get_last_height s + 1 \<longrightarrow> ts \<le> time h)"
  unfolding height_at_or_after_def using assms by (rule search_height_spec)

lemma chain_block_stored:
  "\<exists>s1 db. get_block_by_height ref_crypto ref_network s1 2 = Inr (Some db) \<and> b_timestamp db = 80
     \<and> first_height s1 = 2 \<and> get_last_height s1 = 2"
proof -
  obtain i where i: "b_id chain_block = Some i" "block_id ref_crypto chain_block = Inr i"
    using chain_block_id by blast
  obtain enc db where "decode_block ref_crypto enc ref_network = Inr db" "b_timestamp db = 80"
    using block_record_round_trip [OF chain_block_canonical] i
    by (fastforce simp: chain_block_def chain_header_def ref_block_def)
  then show ?thesis
    by (intro exI [of _ "store_empty\<lparr>st_blocks := [(2, enc)], st_last_height := Some 2\<rparr>"] exI [of _ db])
       (simp add: get_block_by_height_def transpose_opt_def first_height_def get_last_height_def)
qed

theorem height_at_or_after_least_witness:
  "\<exists>s r. height_at_or_after ref_crypto ref_network s 80 = Inr r \<and> r \<le> 3 \<and> \<not> (2 < r)"
proof -
  obtain s db where s: "get_block_by_height ref_crypto ref_network s 2 = Inr (Some db)" "b_timestamp db = 80"
    "first_height s = 2" "get_last_height s = 2"
    using chain_block_stored by blast
  have one: "h = 2" if "2 \<le> h" "h < 3" for h :: u64
    using that by (simp add: word_le_nat_alt word_less_nat_alt word_unat_eq_iff)
  have "stored_range (get_block_by_height ref_crypto ref_network s) (\<lambda>_. 80) (max (first_height s) 1) (get_last_height s + 1)"
    using s one by (auto simp: stored_range_def)
  moreover have "max (first_height s) 1 \<le> get_last_height s + 1" by (simp add: s)
  ultimately obtain r where "height_at_or_after ref_crypto ref_network s 80 = Inr r" "r \<le> 3"
    "\<forall>h. 2 \<le> h \<and> h < r \<longrightarrow> (80 :: u32) < 80"
    using height_at_or_after_least [of ref_crypto ref_network s "\<lambda>_. 80" 80] by (auto simp: s)
  then show ?thesis by (intro exI [of _ s] exI [of _ r]) auto
qed

section \<open>The order book\<close>

text \<open>The price-ordered book and the seller index hold exactly the open orders.\<close>

definition book_ok :: "store \<Rightarrow> bool" where
  "book_ok s \<longleftrightarrow>
     (\<forall>i o1. token_order_of s i = Some o1 \<longrightarrow> od_id o1 = i)
     \<and> (\<forall>t p i v. bt_get (st_token_book s) (t, p, i) = Some v \<longleftrightarrow> v = i \<and>
          (\<exists>o1. token_order_of s i = Some o1 \<and> order_is_open o1 \<and> od_token_id o1 = t \<and> od_price o1 = p))
     \<and> (\<forall>a i v. bt_get (st_token_seller s) (a, i) = Some v \<longleftrightarrow> v = i \<and>
          (\<exists>o1. token_order_of s i = Some o1 \<and> order_is_open o1 \<and> od_seller o1 = a))"

text \<open>An order keeps its token, price and seller: \<open>fill_order\<close> and a cancellation change nothing else.\<close>

definition same_terms :: "store \<Rightarrow> token_order \<Rightarrow> bool" where
  "same_terms s o1 \<longleftrightarrow> (\<forall>old. token_order_of s (od_id o1) = Some old \<longrightarrow>
     od_token_id old = od_token_id o1 \<and> od_price old = od_price o1 \<and> od_seller old = od_seller o1)"

lemma write_order_get:
  "token_order_of (write_order o1 s) i = (if i = od_id o1 then Some o1 else token_order_of s i)"
  "bt_get (st_token_book (write_order o1 s)) k =
     (if k = (od_token_id o1, od_price o1, od_id o1) then (if order_is_open o1 then Some (od_id o1) else None)
      else bt_get (st_token_book s) k)"
  "bt_get (st_token_seller (write_order o1 s)) k' =
     (if k' = (od_seller o1, od_id o1) then (if order_is_open o1 then Some (od_id o1) else None)
      else bt_get (st_token_seller s) k')"
  by (simp_all add: write_order_def Let_def token_order_of_def)

lemma write_order_book_ok:
  assumes "book_ok s" and "same_terms s o1"
  shows "book_ok (write_order o1 s)"
proof -
  have ids: "\<And>i x. token_order_of s i = Some x \<Longrightarrow> od_id x = i"
    and book: "\<And>t p i v. bt_get (st_token_book s) (t, p, i) = Some v \<longleftrightarrow> v = i \<and>
          (\<exists>x. token_order_of s i = Some x \<and> order_is_open x \<and> od_token_id x = t \<and> od_price x = p)"
    and sell: "\<And>a i v. bt_get (st_token_seller s) (a, i) = Some v \<longleftrightarrow> v = i \<and>
          (\<exists>x. token_order_of s i = Some x \<and> order_is_open x \<and> od_seller x = a)"
    using assms(1) by (auto simp: book_ok_def)
  have terms: "od_token_id x = od_token_id o1" "od_price x = od_price o1" "od_seller x = od_seller o1"
    if "token_order_of s (od_id o1) = Some x" for x
    using assms(2) that by (simp_all add: same_terms_def)
  have "bt_get (st_token_book (write_order o1 s)) (t, p, i) = Some v \<longleftrightarrow> v = i \<and>
      (\<exists>x. token_order_of (write_order o1 s) i = Some x \<and> order_is_open x \<and> od_token_id x = t \<and> od_price x = p)" for t p i v
    by (cases "i = od_id o1"; cases "t = od_token_id o1 \<and> p = od_price o1")
       (auto simp: write_order_get book dest: terms)
  moreover have "bt_get (st_token_seller (write_order o1 s)) (a, i) = Some v \<longleftrightarrow> v = i \<and>
      (\<exists>x. token_order_of (write_order o1 s) i = Some x \<and> order_is_open x \<and> od_seller x = a)" for a i v
    by (cases "i = od_id o1"; cases "a = od_seller o1") (auto simp: write_order_get sell dest: terms)
  moreover have "od_id x = i" if "token_order_of (write_order o1 s) i = Some x" for i x
    using that ids by (simp add: write_order_get split: if_splits)
  ultimately show ?thesis by (simp add: book_ok_def)
qed

lemma token_orders_open:
  assumes "book_ok s" and "bt_wf (st_token_book s)"
  shows "o1 \<in> set (token_orders s t) \<longleftrightarrow>
    (\<exists>i. token_order_of s i = Some o1) \<and> order_is_open o1 \<and> od_token_id o1 = t"
proof -
  have "o1 \<in> set (token_orders s t) \<longleftrightarrow> (\<exists>p i v. ((t, p, i), v) \<in> set (st_token_book s) \<and> token_order_of s v = Some o1)"
    by (force simp: token_orders_def List.map_filter_def split: if_splits)
  also have "\<dots> \<longleftrightarrow> (\<exists>p i v. bt_get (st_token_book s) (t, p, i) = Some v \<and> token_order_of s v = Some o1)"
    using bt_get_SomeI [OF assms(2)] bt_get_SomeD [of "st_token_book s"] by (intro ex_cong1) blast
  finally show ?thesis
    using assms(1) unfolding book_ok_def by auto
qed

text \<open>C23. The order book is exact: writing an order that keeps its terms keeps the book and the seller
  index equal to the set of open orders, and the book query then lists exactly the open orders of a
  token, cheapest first and older first at the same price.\<close>

theorem order_book_exact:
  assumes "book_ok s" and "same_terms s o1" and "bt_wf (st_token_book s)"
  shows "book_ok (write_order o1 s)
     \<and> (\<forall>x t. x \<in> set (token_orders (write_order o1 s) t) \<longleftrightarrow>
          (\<exists>i. token_order_of (write_order o1 s) i = Some x) \<and> order_is_open x \<and> od_token_id x = t)
     \<and> (\<forall>t. sorted (map (\<lambda>x. (od_price x, od_height x)) (token_orders (write_order o1 s) t)))"
proof -
  have ok: "book_ok (write_order o1 s)" using assms(1,2) by (rule write_order_book_ok)
  moreover have "bt_wf (st_token_book (write_order o1 s))"
    using assms(3) by (simp add: write_order_def Let_def)
  ultimately show ?thesis using token_orders_open by (auto simp: token_orders_def)
qed

definition ref_order :: token_order where
  "ref_order = \<lparr>od_id = ''O'', od_token_id = ''T'', od_seller = ''alice'', od_amount = 10, od_filled = 0,
     od_price = 3, od_height = 7, od_closed = None, od_fills = []\<rparr>"

theorem order_book_exact_witness:
  "book_ok (write_order ref_order store_empty) \<and> ref_order \<in> set (token_orders (write_order ref_order store_empty) ''T'')"
proof -
  have e: "book_ok store_empty" "same_terms store_empty ref_order" "bt_wf (st_token_book store_empty)"
    by (simp_all add: book_ok_def same_terms_def token_order_of_def store_empty_def)
  have "token_order_of (write_order ref_order store_empty) ''O'' = Some ref_order"
    by (simp add: write_order_get) (simp add: ref_order_def)
  with order_book_exact [OF e] show ?thesis
    by (auto simp: ref_order_def order_is_open_def)
qed

section \<open>Index defects\<close>

text \<open>A rolled-back delegate registration stays in the ranking: when the wallet existed before the
  block, undoing it restores the wallet without its user name but keeps the user-name index entry, so
  the ranking, and with it the next forging set, still holds a wallet that is no delegate.\<close>

theorem rolled_back_delegate_still_ranked:
  assumes "get_wallet s a = Some c" and "w_username c = Some u" and "bt_get (st_wallet_username s) u = Some a"
    and "w_username w = None"
  shows "\<exists>v. (w, v) \<in> set (delegate_ranking (undo_wallet (a, Some w) s)) \<and> \<not> is_delegate w"
proof -
  let ?s = "undo_wallet (a, Some w) s"
  have "st_wallet_username ?s = st_wallet_username s" by (simp add: undo_wallet_def Let_def)
  then have "(u, a) \<in> set (st_wallet_username ?s)" using assms(3) bt_get_SomeD by metis
  moreover have "get_wallet ?s a = Some w" by (simp add: get_wallet_def undo_wallet_frame bt.write_back_def)
  ultimately have "(w, case w_public_key w of Some pk \<Rightarrow> delegate_votes ?s pk | None \<Rightarrow> 0) \<in> set (delegate_ranking ?s)"
    by (force simp: delegate_ranking_def List.map_filter_def)
  then show ?thesis using assms(4) by (auto simp: is_delegate_def)
qed

definition registered_store :: store where
  "registered_store = store_empty\<lparr>st_wallets := [(''a'', delegate_wallet ''a'')], st_wallet_username := [(''a'', ''a'')]\<rparr>"

theorem rolled_back_delegate_still_ranked_witness:
  "\<exists>v. (wallet_new ''a'', v) \<in> set (delegate_ranking (undo_wallet (''a'', Some (wallet_new ''a'')) registered_store))
     \<and> \<not> is_delegate (wallet_new ''a'')"
  by (rule rolled_back_delegate_still_ranked [where c = "delegate_wallet ''a''" and u = "''a''"])
     (simp_all add: registered_store_def get_wallet_def delegate_wallet_def wallet_new_def)

text \<open>A round snapshot with fewer entries than active delegates makes the missed-slot statistics panic:
  a skipped slot whose position lies beyond the snapshot is looked up by an unchecked index, after
  the block has been committed.\<close>

theorem short_snapshot_panics:
  assumes "ms = milestone_at n (b_height b)" and "0 < ms_blocktime ms"
    and "d = max (ucast (ms_active_delegates ms)) 1"
    and "slot_number prev (ms_blocktime ms) = Inr p" and "slot_number (b_timestamp b) (ms_blocktime ms) = Inr q"
    and "p + 1 < q" and "q - p - 1 \<le> d" and "unat p + 1 < unat q"
    and "forging_order E s (ri_round (round_of (b_height b) d)) = Some order"
    and "length order \<le> unat (word_of_nat (unat p + 1) mod d)"
  shows "record_missed_slots E n prev b s = (s, Inl (Panic ''index out of bounds''))"
proof -
  have "map word_of_nat [Suc (unat p)..<unat q] = (word_of_nat :: nat \<Rightarrow> u64) (Suc (unat p)) # map word_of_nat [Suc (Suc (unat p))..<unat q]"
    using assms(8) by (simp add: upt_conv_Cons)
  moreover have "\<not> (q \<le> p + 1 \<or> q - p - 1 > d)" using assms(6,7) by (auto simp: not_le not_less)
  ultimately show ?thesis
    using assms(4,5,9,10) unfolding record_missed_slots_def Let_def assms(1,3) [symmetric] by simp
qed

definition short_store :: store where
  "short_store = store_empty\<lparr>st_rounds := [(1, [\<lparr>dr_public_key = ''a'', dr_votes = 1\<rparr>])]\<rparr>"

theorem short_snapshot_panics_witness:
  "record_missed_slots ref_crypto ref_network 40 (chain_block) short_store
     = (short_store, Inl (Panic ''index out of bounds''))"
proof -
  have ms: "milestone_at ref_network (b_height chain_block) = milestone_default"
    by (simp add: milestone_at_def ref_network_def milestone_default_def)
  have f: "ms_blocktime milestone_default = 8" "ms_active_delegates milestone_default = 21"
    "b_timestamp chain_block = 80"
    by (simp_all add: milestone_default_def chain_block_def chain_header_def ref_block_def)
  have r: "ri_round (round_of 2 21) = 1" by (simp add: round_of_def Let_def)
  show ?thesis
    by (rule short_snapshot_panics [OF ms [symmetric], where d = 21 and p = 5 and q = 10
          and order = "shuffle ref_crypto 1 [\<lparr>dr_public_key = ''a'', dr_votes = 1\<rparr>]"])
       (simp_all add: f slot_number_def forging_order_def get_round_def short_store_def r)
qed

end
