(* ===== verification/Finality.thy ===== *)
theory Finality
  imports Rollback
begin

text \<open>
  The finality gadget of \<open>src/src/p2p_iroh/finality.rs\<close> with the vote message of
  \<open>src/src/p2p_iroh/proto.rs\<close>: delegate votes for a block id at a height, the certificates a quorum of
  votes forms, the equivocation proofs two votes of one key give, and the operations of the
  \<open>FinalityTracker\<close> on its in-memory votes and the store. A panic (a milestone without active
  delegates) is the error \<open>Panic\<close>; the \<open>String\<close> errors of the source are the inner sum.
\<close>

section \<open>Votes\<close>

definition KEEP_BEHIND :: u64 where "KEEP_BEHIND = 120"
definition AHEAD :: u64 where "AHEAD = 21"

record finality_vote =
  fv_height :: u64
  fv_block_id :: string
  fv_public_key :: string
  fv_signature :: string

definition vote_hash :: "crypto \<Rightarrow> u64 \<Rightarrow> string \<Rightarrow> bytes" where
  "vote_hash E height bid =
     sha256 E (as_bytes ''sth-finality-v1'' @ u64_le height @
       unwrap_or (as_bytes bid) (hex_decode E bid))"

definition verify_vote :: "crypto \<Rightarrow> finality_vote \<Rightarrow> bool" where
  "verify_vote E v \<longleftrightarrow>
     length (fv_block_id v) = 64 \<and>
     (case hex_decode E (fv_signature v) of
        None \<Rightarrow> False
      | Some sig \<Rightarrow> verify_schnorr_legacy E (vote_hash E (fv_height v) (fv_block_id v)) sig (fv_public_key v) = Inr True)"

text \<open>A delegate key of this node: its public key and the signing operation of \<open>schnorr.rs\<close> on a hash.\<close>

record key_pair =
  kp_public_key_hex :: string
  kp_sign_schnorr :: "bytes \<Rightarrow> string res"

definition sign_vote :: "crypto \<Rightarrow> key_pair \<Rightarrow> u64 \<Rightarrow> string \<Rightarrow> finality_vote option" where
  "sign_vote E k height bid =
     (case kp_sign_schnorr k (vote_hash E height bid) of
        Inl _ \<Rightarrow> None
      | Inr sig \<Rightarrow> Some \<lparr>fv_height = height, fv_block_id = bid,
          fv_public_key = kp_public_key_hex k, fv_signature = sig\<rparr>)"

section \<open>The tracker\<close>

text \<open>\<open>Inner\<close>: the votes by height, block id and delegate key. The map of a height is a \<open>HashMap\<close> in the
  source; its iteration order, which decides which of several conflicting ids a proof names, is taken
  to be the order of the ids.\<close>

type_synonym signatures = "(string, string) btmap"

record finality_inner =
  fi_votes :: "(u64, (string, signatures) btmap) btmap"
  fi_own :: "(u64, string) btmap"
  fi_received :: u64
  fi_rejected :: u64
  fi_last_own_vote_unix :: u64
  fi_last_own_votes :: nat
  fi_broadcast_failed :: u64
  fi_last_error :: string
  fi_warned_unix :: u64

definition inner_default :: finality_inner where
  "inner_default = \<lparr>fi_votes = [], fi_own = [], fi_received = 0, fi_rejected = 0, fi_last_own_vote_unix = 0,
     fi_last_own_votes = 0, fi_broadcast_failed = 0, fi_last_error = [], fi_warned_unix = 0\<rparr>"

record tracker =
  tk_store :: store
  tk_inner :: finality_inner

definition tracker_new :: "store \<Rightarrow> tracker" where
  "tracker_new s = \<lparr>tk_store = s, tk_inner = inner_default\<rparr>"

text \<open>\<open>result.unwrap_or(d)\<close>, which hides every error value but not a panic.\<close>

fun result_or :: "'a \<Rightarrow> 'a res \<Rightarrow> 'a res" where
  "result_or d (Inl (Panic p)) = Inl (Panic p)"
| "result_or d (Inl _) = Inr d"
| "result_or d (Inr x) = Inr x"

definition active_set :: "crypto \<Rightarrow> network \<Rightarrow> store \<Rightarrow> u64 \<Rightarrow> string list res" where
  "active_set E n s height =
     (let k = ms_active_delegates (milestone_at n (max height 1)) in
      rbind (round_info height (ucast k)) (\<lambda>ri.
      result_or [] (rbind (forging_order_or_live E n s (ri_round ri) (unat k)) (\<lambda>l. Inr (map dr_public_key l)))))"

definition ranked_set :: "network \<Rightarrow> store \<Rightarrow> u64 \<Rightarrow> string list res" where
  "ranked_set n s height =
     (let k = ms_active_delegates (milestone_at n (max height 1)) in
      rbind (round_info height (ucast k)) (\<lambda>ri.
      Inr (map dr_public_key (case get_round s (ri_round ri) of
             Some l \<Rightarrow> l
           | None \<Rightarrow> active_delegates_ranked s (unat k)))))"

definition finalized :: "store \<Rightarrow> (u64 \<times> string) option" where
  "finalized s = map_option (\<lambda>c. (fc_height c, fc_block_id c)) (latest_finality_cert s)"

definition is_final :: "store \<Rightarrow> u64 \<Rightarrow> bool" where
  "is_final s height = (case finalized s of None \<Rightarrow> False | Some (h, _) \<Rightarrow> height \<le> h)"

definition recorded_votes :: "finality_inner \<Rightarrow> u64 \<Rightarrow> string \<Rightarrow> signatures option" where
  "recorded_votes i height bid =
     (case bt_get (fi_votes i) height of None \<Rightarrow> None | Some m \<Rightarrow> bt_get m bid)"

text \<open>The id our chain holds at a height (\<open>get_block_by_height(..).ok().flatten().and_then(|b| b.id)\<close>).\<close>

definition our_id :: "crypto \<Rightarrow> network \<Rightarrow> store \<Rightarrow> u64 \<Rightarrow> string option" where
  "our_id E n s height =
     (case get_block_by_height E n s height of Inr (Some b) \<Rightarrow> b_id b | _ \<Rightarrow> None)"

definition try_certify :: "crypto \<Rightarrow> network \<Rightarrow> u64 \<Rightarrow> string \<Rightarrow> tracker \<Rightarrow> tracker" where
  "try_certify E n height bid tk =
     (let quorum = unat (finality_quorum (milestone_at n (max height 1))) in
      if is_final (tk_store tk) height then tk
      else case recorded_votes (tk_inner tk) height bid of
        None \<Rightarrow> tk
      | Some sigs \<Rightarrow>
          if length sigs < quorum then tk
          else if our_id E n (tk_store tk) height \<noteq> Some bid then tk
          else tk\<lparr>tk_store := put_finality_cert
                 \<lparr>fc_height = height, fc_block_id = bid, fc_votes = sigs\<rparr> (tk_store tk)\<rparr>)"

section \<open>Equivocation proofs\<close>

definition ban_round :: "network \<Rightarrow> u64 \<Rightarrow> u64 res" where
  "ban_round n tip =
     (let ms = milestone_at n (max tip 1) in
      rbind (round_info (tip + 1) (ucast (ms_active_delegates ms))) (\<lambda>ri.
      Inr (ri_round ri + slashing_rounds (ms_finality ms))))"

definition make_proof ::
  "network \<Rightarrow> finality_vote \<Rightarrow> string \<Rightarrow> string \<Rightarrow> u64 \<Rightarrow> equivocation_proof res" where
  "make_proof n v other_id other_sig tip =
     rbind (ban_round n tip) (\<lambda>until.
     Inr \<lparr>ep_height = fv_height v, ep_public_key = fv_public_key v,
       ep_block_ids = (other_id, fv_block_id v), ep_signatures = (other_sig, fv_signature v),
       ep_detected_height = tip, ep_banned_until_round = until\<rparr>)"

definition proof_vote :: "equivocation_proof \<Rightarrow> string \<Rightarrow> string \<Rightarrow> finality_vote" where
  "proof_vote p bid sig = \<lparr>fv_height = ep_height p, fv_block_id = bid,
     fv_public_key = ep_public_key p, fv_signature = sig\<rparr>"

definition verify_proof :: "crypto \<Rightarrow> network \<Rightarrow> store \<Rightarrow> equivocation_proof \<Rightarrow> (string + unit) res" where
  "verify_proof E n s p =
     (if fst (ep_block_ids p) = snd (ep_block_ids p) then Inr (Inl ''same block id twice'')
      else rbind (ranked_set n s (ep_height p)) (\<lambda>members.
        if ep_public_key p \<notin> set members then Inr (Inl ''not an active delegate of that round'')
        else if \<not> verify_vote E (proof_vote p (fst (ep_block_ids p)) (fst (ep_signatures p)))
        then Inr (Inl ''vote 0 does not verify'')
        else if \<not> verify_vote E (proof_vote p (snd (ep_block_ids p)) (snd (ep_signatures p)))
        then Inr (Inl ''vote 1 does not verify'')
        else Inr (Inr ())))"

definition adopt_proof ::
  "crypto \<Rightarrow> network \<Rightarrow> equivocation_proof \<Rightarrow> store \<Rightarrow> (string + store \<times> bool) res" where
  "adopt_proof E n p s =
     rbind (verify_proof E n s p) (\<lambda>r. case r of
       Inl e \<Rightarrow> Inr (Inl e)
     | Inr _ \<Rightarrow>
         rbind (ban_round n (get_last_height s)) (\<lambda>until.
         (let p = p\<lparr>ep_banned_until_round := min (ep_banned_until_round p) until\<rparr> in
          case equivocation s (ep_public_key p) of
            Some known \<Rightarrow> if ep_height p \<le> ep_height known then Inr (Inr (s, False))
                          else Inr (Inr (put_equivocation p s, True))
          | None \<Rightarrow> Inr (Inr (put_equivocation p s, True)))))"

section \<open>Votes from the network\<close>

record record_state =
  rs_tracker :: tracker
  rs_ok :: nat
  rs_proofs :: "equivocation_proof list"
  rs_cache :: "(u64, string list) btmap"

definition in_vote_range :: "u64 \<Rightarrow> finality_vote \<Rightarrow> bool" where
  "in_vote_range tip v \<longleftrightarrow> tip \<le> fv_height v + KEEP_BEHIND \<and> fv_height v \<le> tip + AHEAD"

text \<open>The active set of the vote's round, computed once per call and round (\<open>set_cache\<close>).\<close>

definition cached_set ::
  "crypto \<Rightarrow> network \<Rightarrow> store \<Rightarrow> u64 \<Rightarrow> (u64, string list) btmap \<Rightarrow> (string list \<times> (u64, string list) btmap) res" where
  "cached_set E n s height cache =
     rbind (round_info height (ucast (ms_active_delegates (milestone_at n (max height 1))))) (\<lambda>ri.
       case bt_get cache (ri_round ri) of
         Some l \<Rightarrow> Inr (l, cache)
       | None \<Rightarrow> rbind (active_set E n s height) (\<lambda>l. Inr (l, bt_put (ri_round ri) l cache)))"

definition find_conflict :: "(string, signatures) btmap \<Rightarrow> finality_vote \<Rightarrow> (string \<times> string) option" where
  "find_conflict m v =
     (case filter (\<lambda>(i, sigs). i \<noteq> fv_block_id v \<and> bt_get sigs (fv_public_key v) \<noteq> None) m of
        [] \<Rightarrow> None
      | (i, sigs) # _ \<Rightarrow> Some (i, unwrap_or [] (bt_get sigs (fv_public_key v))))"

definition add_vote :: "u64 \<Rightarrow> string \<Rightarrow> string \<Rightarrow> string \<Rightarrow> finality_inner \<Rightarrow> finality_inner" where
  "add_vote height bid pk sig i =
     i\<lparr>fi_votes := bt_entry height [] (bt_entry bid [] (bt_put pk sig)) (fi_votes i)\<rparr>"

text \<open>The conflict a new vote reveals: the proof is stored and reported when it is new information.\<close>

definition report_conflict ::
  "crypto \<Rightarrow> network \<Rightarrow> u64 \<Rightarrow> finality_vote \<Rightarrow> (string \<times> string) option \<Rightarrow> store \<Rightarrow>
     (store \<times> equivocation_proof list) res" where
  "report_conflict E n tip v conflict s =
     (case conflict of
        None \<Rightarrow> Inr (s, [])
      | Some (other_id, other_sig) \<Rightarrow>
          rbind (make_proof n v other_id other_sig tip) (\<lambda>p.
          rbind (adopt_proof E n p s) (\<lambda>r.
            case r of
              Inr (s', True) \<Rightarrow> Inr (s', [p])
            | _ \<Rightarrow> Inr (s, []))))"

definition record_vote ::
  "crypto \<Rightarrow> network \<Rightarrow> u64 \<Rightarrow> finality_vote \<Rightarrow> record_state \<Rightarrow> record_state res" where
  "record_vote E n tip v rs =
     (let tk = rs_tracker rs; i = tk_inner tk; s = tk_store tk in
      rbind (if in_vote_range tip v
             then rbind (cached_set E n s (fv_height v) (rs_cache rs)) (\<lambda>(l, cache).
                    Inr (fv_public_key v \<in> set l, cache))
             else Inr (False, rs_cache rs)) (\<lambda>(active, cache).
      if \<not> active \<or> \<not> verify_vote E v
      then Inr (rs\<lparr>rs_tracker := tk\<lparr>tk_inner := i\<lparr>fi_rejected := fi_rejected i + 1\<rparr>\<rparr>, rs_cache := cache\<rparr>)
      else
        (let conflict = find_conflict (unwrap_or [] (bt_get (fi_votes i) (fv_height v))) v;
             i = add_vote (fv_height v) (fv_block_id v) (fv_public_key v) (fv_signature v)
                   (i\<lparr>fi_received := fi_received i + 1\<rparr>)
         in rbind (report_conflict E n tip v conflict s) (\<lambda>(s, new).
            Inr \<lparr>rs_tracker = try_certify E n (fv_height v) (fv_block_id v) \<lparr>tk_store = s, tk_inner = i\<rparr>,
                 rs_ok = rs_ok rs + 1, rs_proofs = rs_proofs rs @ new, rs_cache = cache\<rparr>))))"

definition prune_votes :: "u64 \<Rightarrow> finality_inner \<Rightarrow> finality_inner" where
  "prune_votes tip i =
     (let cut = saturating_sub tip KEEP_BEHIND in
      i\<lparr>fi_votes := filter (\<lambda>kv. cut \<le> fst kv) (fi_votes i),
        fi_own := filter (\<lambda>kv. cut \<le> fst kv) (fi_own i)\<rparr>)"

definition record_votes ::
  "crypto \<Rightarrow> network \<Rightarrow> finality_vote list \<Rightarrow> tracker \<Rightarrow> (tracker \<times> nat \<times> equivocation_proof list) res" where
  "record_votes E n votes tk =
     (let tip = get_last_height (tk_store tk) in
      rbind (rfold (record_vote E n tip) (take 64 votes)
               \<lparr>rs_tracker = tk, rs_ok = 0, rs_proofs = [], rs_cache = []\<rparr>) (\<lambda>rs.
      Inr (rs_tracker rs\<lparr>tk_inner := prune_votes tip (tk_inner (rs_tracker rs))\<rparr>, rs_ok rs, rs_proofs rs)))"

section \<open>Own votes and certificates from peers\<close>

definition note_own :: "u64 \<Rightarrow> string \<Rightarrow> u64 \<Rightarrow> finality_vote list \<Rightarrow> finality_inner \<Rightarrow> finality_inner" where
  "note_own height bid now out i =
     (if out \<noteq> [] then i\<lparr>fi_own := bt_put height bid (fi_own i),
         fi_last_own_vote_unix := now, fi_last_own_votes := length out\<rparr>
      else if saturating_sub now (fi_warned_unix i) \<ge> 60 then i\<lparr>fi_warned_unix := now\<rparr>
      else i)"

definition own_votes ::
  "crypto \<Rightarrow> network \<Rightarrow> key_pair list \<Rightarrow> u64 \<Rightarrow> string \<Rightarrow> u64 \<Rightarrow> tracker \<Rightarrow> (tracker \<times> finality_vote list) res" where
  "own_votes E n keys height bid now tk =
     (if keys = [] then Inr (tk, [])
      else rbind (active_set E n (tk_store tk) height) (\<lambda>members.
        (let i = tk_inner tk in
         if (case bt_get (fi_own i) height of None \<Rightarrow> False | Some i' \<Rightarrow> i' \<noteq> bid) then Inr (tk, [])
         else
           (let out = List.map_filter (\<lambda>k. sign_vote E k height bid)
                  (filter (\<lambda>k. kp_public_key_hex k \<in> set members) keys);
                i = fold (\<lambda>v. add_vote height bid (fv_public_key v) (fv_signature v)) out i
            in Inr (try_certify E n height bid (tk\<lparr>tk_inner := note_own height bid now out i\<rparr>), out)))))"

fun check_cert_votes :: "crypto \<Rightarrow> string list \<Rightarrow> finality_cert \<Rightarrow> (string \<times> string) list \<Rightarrow> string + unit" where
  "check_cert_votes E members c [] = Inr ()"
| "check_cert_votes E members c ((pk, sig) # vs) =
     (if pk \<notin> set members then Inl ''not an active delegate of that round''
      else if \<not> verify_vote E \<lparr>fv_height = fc_height c, fv_block_id = fc_block_id c,
                  fv_public_key = pk, fv_signature = sig\<rparr>
      then Inl ''invalid vote signature''
      else check_cert_votes E members c vs)"

definition adopt_certificate ::
  "crypto \<Rightarrow> network \<Rightarrow> finality_cert \<Rightarrow> store \<Rightarrow> (string + store \<times> bool) res" where
  "adopt_certificate E n c s =
     (let quorum = unat (finality_quorum (milestone_at n (max (fc_height c) 1))) in
      if length (fc_votes c) < quorum then Inr (Inl ''below quorum'')
      else rbind (active_set E n s (fc_height c)) (\<lambda>members.
        case check_cert_votes E members c (fc_votes c) of
          Inl e \<Rightarrow> Inr (Inl e)
        | Inr _ \<Rightarrow>
            (case get_block_by_height E n s (fc_height c) of
               Inl e \<Rightarrow> Inr (Inl ''storage'')
             | Inr ob \<Rightarrow>
                 if Option.bind ob b_id \<noteq> Some (fc_block_id c) then Inr (Inl ''not in our chain'')
                 else if is_final s (fc_height c) then Inr (Inr (s, False))
                 else Inr (Inr (put_finality_cert c s, True)))))"

definition note_broadcast_failed :: "string \<Rightarrow> finality_inner \<Rightarrow> finality_inner" where
  "note_broadcast_failed err i = i\<lparr>fi_broadcast_failed := fi_broadcast_failed i + 1, fi_last_error := err\<rparr>"

definition votes_in_memory :: "finality_inner \<Rightarrow> nat" where
  "votes_in_memory i = (\<Sum>(_, m)\<leftarrow>fi_votes i. \<Sum>(_, v)\<leftarrow>m. length v)"

section \<open>The metrics snapshot\<close>

record height_votes =
  hv_height :: u64
  hv_block_id :: string
  hv_votes :: nat
  hv_certified :: bool

record finality_snapshot =
  fs_finalized_height :: u64
  fs_finalized_id :: "string option"
  fs_lag :: u64
  fs_quorum :: u32
  fs_active_delegates :: u32
  fs_hard :: bool
  fs_tip_votes :: nat
  fs_received :: u64
  fs_rejected :: u64
  fs_own_votes :: nat
  fs_own_votes_at_tip :: nat
  fs_last_own_vote_age :: "u64 option"
  fs_last_own_votes :: nat
  fs_broadcast_failed :: u64
  fs_last_error :: string
  fs_heights :: "height_votes list"

definition snapshot :: "crypto \<Rightarrow> network \<Rightarrow> u64 \<Rightarrow> tracker \<Rightarrow> finality_snapshot" where
  "snapshot E n now tk =
     (let s = tk_store tk; i = tk_inner tk; tip = get_last_height s; ms = milestone_at n (max tip 1);
          tip_id = (case get_last_block E n s of Inr (Some b) \<Rightarrow> b_id b | _ \<Rightarrow> None);
          fh = (case finalized s of None \<Rightarrow> 0 | Some (h, _) \<Rightarrow> h)
      in \<lparr>fs_finalized_height = fh, fs_finalized_id = map_option snd (finalized s),
          fs_lag = saturating_sub tip fh, fs_quorum = finality_quorum ms,
          fs_active_delegates = ms_active_delegates ms, fs_hard = fp_active (ms_finality ms),
          fs_tip_votes = (case tip_id of None \<Rightarrow> 0
             | Some j \<Rightarrow> (case recorded_votes i tip j of None \<Rightarrow> 0 | Some v \<Rightarrow> length v)),
          fs_received = fi_received i, fs_rejected = fi_rejected i, fs_own_votes = length (fi_own i),
          fs_own_votes_at_tip = (if bt_get (fi_own i) tip = tip_id \<and> tip_id \<noteq> None then fi_last_own_votes i else 0),
          fs_last_own_vote_age = (if fi_last_own_vote_unix i > 0
             then Some (saturating_sub now (fi_last_own_vote_unix i)) else None),
          fs_last_own_votes = fi_last_own_votes i, fs_broadcast_failed = fi_broadcast_failed i,
          fs_last_error = fi_last_error i,
          fs_heights = concat (map (\<lambda>(h, m). map (\<lambda>(j, v). \<lparr>hv_height = h, hv_block_id = j,
             hv_votes = length v, hv_certified = (h \<le> fh \<and> fh > 0)\<rparr>) m) (take 8 (rev (fi_votes i))))\<rparr>)"

end
