(* ===== verification/FinalityProps.thy ===== *)
theory FinalityProps
  imports Finality
begin

text \<open>
  What the finality gadget guarantees: every certificate a node stores is backed by a quorum of
  verified votes, two certificates for different blocks at one height expose more than a third of the
  delegates, and a quorum of votes that reaches a node makes its block final. The quorum arithmetic
  is a locale, interpreted on the milestone's own quorum.
\<close>

section \<open>Quorums\<close>

locale quorum_system =
  fixes size :: "'m \<Rightarrow> nat" and quorum :: "'m \<Rightarrow> nat" and wf :: "'m \<Rightarrow> bool"
  assumes two_thirds: "wf m \<Longrightarrow> 2 * size m < 3 * quorum m"
begin

text \<open>Two quorums share more than a third of the members.\<close>

lemma quorums_overlap:
  assumes "wf m" and "finite U" and "card U \<le> size m" and "X \<subseteq> U" and "Y \<subseteq> U"
    and "quorum m \<le> card X" and "quorum m \<le> card Y"
  shows "size m < 3 * card (X \<inter> Y)"
proof -
  have fin: "finite X" "finite Y" using assms(2,4,5) finite_subset by auto
  have "card X + card Y = card (X \<union> Y) + card (X \<inter> Y)"
    using fin by (rule card_Un_Int)
  moreover have "card (X \<union> Y) \<le> card U" using assms(2,4,5) by (intro card_mono) auto
  ultimately show ?thesis using assms(3,6,7) two_thirds [OF assms(1)] by linarith
qed

end

definition default_quorum :: "milestone \<Rightarrow> bool" where
  "default_quorum m \<longleftrightarrow> fp_quorum (ms_finality m) = 0 \<and> 0 < ms_active_delegates m \<and>
     uint (ms_active_delegates m) < 2 ^ 31"

interpretation fq: quorum_system "\<lambda>m. unat (ms_active_delegates m)" "\<lambda>m. unat (finality_quorum m)" default_quorum
proof
  fix m assume m: "default_quorum m"
  then have "2 * uint (ms_active_delegates m) < 3 * uint (finality_quorum m)"
    using default_quorum_bounds [of m] by (simp add: default_quorum_def)
  then have "int (2 * unat (ms_active_delegates m)) < int (3 * unat (finality_quorum m))" by simp
  then show "2 * unat (ms_active_delegates m) < 3 * unat (finality_quorum m)" by linarith
qed

section \<open>Backed certificates\<close>

text \<open>\<open>A h\<close> bounds the delegates that can be active at height \<open>h\<close>: whatever equivocations are known,
  the active set computed for a height of the same round lies inside.\<close>

definition vote_round :: "network \<Rightarrow> u64 \<Rightarrow> u64 option" where
  "vote_round n h = (case round_info h (ucast (ms_active_delegates (milestone_at n (max h 1)))) of
     Inl _ \<Rightarrow> None | Inr ri \<Rightarrow> Some (ri_round ri))"

definition members_bound :: "(u64 \<Rightarrow> string set) \<Rightarrow> crypto \<Rightarrow> network \<Rightarrow> store \<Rightarrow> bool" where
  "members_bound A E n s \<longleftrightarrow> (\<forall>q h h' l. vote_round n h = vote_round n h' \<longrightarrow>
     active_set E n (s\<lparr>st_equivocation := q\<rparr>) h' = Inr l \<longrightarrow> set l \<subseteq> A h)"

definition vote_of :: "u64 \<Rightarrow> string \<Rightarrow> string \<Rightarrow> string \<Rightarrow> finality_vote" where
  "vote_of h i pk sig = \<lparr>fv_height = h, fv_block_id = i, fv_public_key = pk, fv_signature = sig\<rparr>"

lemma vote_of_self: "vote_of (fv_height v) (fv_block_id v) (fv_public_key v) (fv_signature v) = v"
  by (cases v) (simp add: vote_of_def)

definition backed :: "crypto \<Rightarrow> network \<Rightarrow> (u64 \<Rightarrow> string set) \<Rightarrow> finality_cert \<Rightarrow> bool" where
  "backed E n A c \<longleftrightarrow> bt_wf (fc_votes c)
     \<and> unat (finality_quorum (milestone_at n (max (fc_height c) 1))) \<le> length (fc_votes c)
     \<and> (\<forall>(pk, sig) \<in> set (fc_votes c). pk \<in> A (fc_height c)
          \<and> verify_vote E (vote_of (fc_height c) (fc_block_id c) pk sig))"

definition votes_ok :: "crypto \<Rightarrow> (u64 \<Rightarrow> string set) \<Rightarrow> finality_inner \<Rightarrow> bool" where
  "votes_ok E A i \<longleftrightarrow> (\<forall>h j sigs. recorded_votes i h j = Some sigs \<longrightarrow>
     bt_wf sigs \<and> (\<forall>(pk, sig) \<in> set sigs. pk \<in> A h \<and> verify_vote E (vote_of h j pk sig)))"

definition certs_ok :: "crypto \<Rightarrow> network \<Rightarrow> (u64 \<Rightarrow> string set) \<Rightarrow> (u64, finality_cert) btmap \<Rightarrow> bool" where
  "certs_ok E n A m \<longleftrightarrow> bt_wf m \<and> (\<forall>h c. bt_get m h = Some c \<longrightarrow> fc_height c = h \<and> backed E n A c)"

definition tracker_ok :: "crypto \<Rightarrow> network \<Rightarrow> (u64 \<Rightarrow> string set) \<Rightarrow> tracker \<Rightarrow> bool" where
  "tracker_ok E n A tk \<longleftrightarrow> votes_ok E A (tk_inner tk) \<and> certs_ok E n A (st_finality (tk_store tk))"

lemma recorded_add_vote:
  "recorded_votes (add_vote h j pk sig i) h' j'
     = (if h' = h \<and> j' = j then Some (bt_put pk sig (unwrap_or [] (recorded_votes i h j))) else recorded_votes i h' j')"
  by (auto simp: recorded_votes_def add_vote_def split: option.splits)

lemma bt_put_subset: "set (bt_put k v m) \<subseteq> insert (k, v) (set m)"
  by (induction k v m rule: bt_put.induct) auto

lemma votes_ok_add:
  assumes "votes_ok E A i" and "pk \<in> A h" and "verify_vote E (vote_of h j pk sig)"
  shows "votes_ok E A (add_vote h j pk sig i)"
proof -
  let ?old = "unwrap_or [] (recorded_votes i h j)"
  have old: "bt_wf ?old" "\<forall>(p, g) \<in> set ?old. p \<in> A h \<and> verify_vote E (vote_of h j p g)"
    using assms(1) unfolding votes_ok_def by (cases "recorded_votes i h j"; simp)+
  have "set (bt_put pk sig ?old) \<subseteq> insert (pk, sig) (set ?old)" by (rule bt_put_subset)
  then have new: "bt_wf (bt_put pk sig ?old)"
    "\<forall>(p, g) \<in> set (bt_put pk sig ?old). p \<in> A h \<and> verify_vote E (vote_of h j p g)"
    using old assms(2,3) by auto
  show ?thesis
    unfolding votes_ok_def
  proof (intro allI impI)
    fix h' j' sigs
    assume r: "recorded_votes (add_vote h j pk sig i) h' j' = Some sigs"
    show "bt_wf sigs \<and> (\<forall>(p, g) \<in> set sigs. p \<in> A h' \<and> verify_vote E (vote_of h' j' p g))"
    proof (cases "h' = h \<and> j' = j")
      case True
      with r have "sigs = bt_put pk sig ?old" by (simp add: recorded_add_vote)
      with True new show ?thesis by simp
    next
      case False
      with r have "recorded_votes i h' j' = Some sigs" by (simp add: recorded_add_vote)
      with assms(1) show ?thesis by (simp add: votes_ok_def)
    qed
  qed
qed

lemma votes_ok_counters [simp]:
  "votes_ok E A (i\<lparr>fi_received := r\<rparr>) = votes_ok E A i"
  "votes_ok E A (i\<lparr>fi_rejected := r\<rparr>) = votes_ok E A i"
  "votes_ok E A (i\<lparr>fi_warned_unix := r\<rparr>) = votes_ok E A i"
  "votes_ok E A (i\<lparr>fi_own := w, fi_last_own_vote_unix := u, fi_last_own_votes := k\<rparr>) = votes_ok E A i"
  by (simp_all add: votes_ok_def recorded_votes_def)

lemma votes_ok_default [simp]: "votes_ok E A inner_default"
  by (simp add: votes_ok_def recorded_votes_def inner_default_def)

lemma bt_get_filter_key: "bt_get (filter (\<lambda>kv. P (fst kv)) m) k = (if P k then bt_get m k else None)"
  by (induction m) auto

lemma votes_ok_prune: "votes_ok E A i \<Longrightarrow> votes_ok E A (prune_votes tip i)"
  by (auto simp: votes_ok_def recorded_votes_def prune_votes_def Let_def bt_get_filter_key split: option.splits if_splits)

lemma certs_ok_put:
  "certs_ok E n A m \<Longrightarrow> backed E n A c \<Longrightarrow> certs_ok E n A (bt_put (fc_height c) c m)"
  by (auto simp: certs_ok_def)

lemma certs_ok_del: "certs_ok E n A m \<Longrightarrow> certs_ok E n A (bt_del k m)"
  by (auto simp: certs_ok_def)

lemma tracker_ok_certify:
  assumes "tracker_ok E n A tk"
  shows "tracker_ok E n A (try_certify E n h j tk)"
proof (cases "try_certify E n h j tk = tk")
  case False
  then obtain sigs where sigs: "recorded_votes (tk_inner tk) h j = Some sigs"
    "unat (finality_quorum (milestone_at n (max h 1))) \<le> length sigs"
    and eq: "try_certify E n h j tk
      = tk\<lparr>tk_store := put_finality_cert \<lparr>fc_height = h, fc_block_id = j, fc_votes = sigs\<rparr> (tk_store tk)\<rparr>"
    by (auto simp: try_certify_def Let_def split: option.splits if_splits)
  have "backed E n A \<lparr>fc_height = h, fc_block_id = j, fc_votes = sigs\<rparr>"
    using assms sigs by (auto simp: tracker_ok_def votes_ok_def backed_def)
  with assms certs_ok_put show ?thesis
    unfolding eq by (fastforce simp: tracker_ok_def put_finality_cert_def)
qed (use assms in simp)

lemma try_certify_store:
  "\<exists>f. tk_store (try_certify E n h j tk) = (tk_store tk)\<lparr>st_finality := f\<rparr>"
  "tk_inner (try_certify E n h j tk) = tk_inner tk"
proof -
  have "\<exists>f. tk_store tk = (tk_store tk)\<lparr>st_finality := f\<rparr>"
    by (rule exI [of _ "st_finality (tk_store tk)"]) simp
  then show "\<exists>f. tk_store (try_certify E n h j tk) = (tk_store tk)\<lparr>st_finality := f\<rparr>"
    by (auto simp: try_certify_def Let_def put_finality_cert_def split: option.split)
qed (simp add: try_certify_def Let_def split: option.split)

lemma adopt_proof_store:
  assumes "adopt_proof E n p s = Inr (Inr (s', new))"
  shows "\<exists>q. s' = s\<lparr>st_equivocation := q\<rparr>"
proof -
  have "s' = s \<or> (\<exists>p'. s' = put_equivocation p' s)"
  proof (cases "verify_proof E n s p")
    case (Inr r)
    then show ?thesis
      using assms by (cases r) (auto simp: adopt_proof_def rbind_eq_Inr Let_def split: option.splits if_splits)
  qed (use assms in \<open>simp add: adopt_proof_def\<close>)
  then show ?thesis
    by (auto simp: put_equivocation_def) (metis store.surjective store.update_convs(27))
qed

section \<open>Every stored certificate is backed\<close>

lemma active_set_finality [simp]: "active_set E n (s\<lparr>st_finality := f\<rparr>) h = active_set E n s h"
proof -
  have "delegate_votes (s\<lparr>st_finality := f\<rparr>) = delegate_votes s" by (simp add: fun_eq_iff delegate_votes_def)
  then have "delegate_ranking (s\<lparr>st_finality := f\<rparr>) = delegate_ranking s"
    by (simp add: delegate_ranking_def get_wallet_def cong: option.case_cong)
  moreover have "banned_delegates n (s\<lparr>st_finality := f\<rparr>) = banned_delegates n s"
    by (simp add: fun_eq_iff banned_delegates_def equivocations_def)
  ultimately have "active_delegates n (s\<lparr>st_finality := f\<rparr>) k = active_delegates n s k" for k
    by (simp add: active_delegates_def active_delegates_excluding_def get_last_height_def)
  then show ?thesis by (simp add: active_set_def forging_order_or_live_def get_round_def cong: option.case_cong)
qed

text \<open>The state of the vote loop: invariant, and every cached set lies inside the bound.\<close>

definition loop_ok :: "crypto \<Rightarrow> network \<Rightarrow> (u64 \<Rightarrow> string set) \<Rightarrow> store \<Rightarrow> record_state \<Rightarrow> bool" where
  "loop_ok E n A s0 rs \<longleftrightarrow> tracker_ok E n A (rs_tracker rs)
     \<and> (\<exists>q f. tk_store (rs_tracker rs) = s0\<lparr>st_equivocation := q, st_finality := f\<rparr>)
     \<and> (\<forall>h r l. vote_round n h = Some r \<longrightarrow> bt_get (rs_cache rs) r = Some l \<longrightarrow> set l \<subseteq> A h)"

lemma cached_set_bound:
  assumes "members_bound A E n s0" and s: "s = s0\<lparr>st_equivocation := q, st_finality := f\<rparr>"
    and cache: "\<forall>h r l. vote_round n h = Some r \<longrightarrow> bt_get cache r = Some l \<longrightarrow> set l \<subseteq> A h"
    and res: "cached_set E n s h cache = Inr (l, cache')"
  shows "set l \<subseteq> A h" "\<forall>h r l. vote_round n h = Some r \<longrightarrow> bt_get cache' r = Some l \<longrightarrow> set l \<subseteq> A h"
proof -
  obtain ri where ri: "round_info h (ucast (ms_active_delegates (milestone_at n (max h 1)))) = Inr ri"
    using res by (auto simp: cached_set_def rbind_eq_Inr)
  then have r: "vote_round n h = Some (ri_round ri)" by (simp add: vote_round_def)
  have "set l \<subseteq> A h \<and> (\<forall>h r l. vote_round n h = Some r \<longrightarrow> bt_get cache' r = Some l \<longrightarrow> set l \<subseteq> A h)"
  proof (cases "bt_get cache (ri_round ri)")
    case None
    with res ri have l: "active_set E n s h = Inr l" "cache' = bt_put (ri_round ri) l cache"
      by (auto simp: cached_set_def rbind_eq_Inr)
    have "set l \<subseteq> A h'" if "vote_round n h' = Some (ri_round ri)" for h'
      using assms(1) l(1) r that unfolding members_bound_def s active_set_finality by metis
    with r l(2) cache show ?thesis by auto
  next
    case (Some l')
    with res ri have "l = l'" "cache' = cache" by (auto simp: cached_set_def)
    with Some r cache show ?thesis by blast
  qed
  then show "set l \<subseteq> A h" "\<forall>h r l. vote_round n h = Some r \<longrightarrow> bt_get cache' r = Some l \<longrightarrow> set l \<subseteq> A h"
    by simp_all
qed

lemma report_conflict_store:
  assumes "report_conflict E n tip v conflict s = Inr (s', new)"
  shows "\<exists>q. s' = s\<lparr>st_equivocation := q\<rparr>"
proof -
  have same: "\<exists>q. s = s\<lparr>st_equivocation := q\<rparr>"
    by (rule exI [of _ "st_equivocation s"]) simp
  show ?thesis
  proof (cases conflict)
    case (Some c)
    then obtain p r where "adopt_proof E n p s = Inr r"
      "(case r of Inr (s', True) \<Rightarrow> Inr (s', [p]) | _ \<Rightarrow> Inr (s, [])) = (Inr (s', new) :: _ res)"
      using assms by (cases c) (auto simp: report_conflict_def rbind_eq_Inr)
    with same adopt_proof_store show ?thesis by (auto split: sum.splits prod.splits bool.splits)
  qed (use assms same in \<open>auto simp: report_conflict_def\<close>)
qed

lemma record_vote_ok:
  assumes bound: "members_bound A E n s0" and ok: "loop_ok E n A s0 rs"
    and res: "record_vote E n tip v rs = Inr rs'"
  shows "loop_ok E n A s0 rs'"
proof -
  define tk where "tk = rs_tracker rs"
  obtain q f where s: "tk_store tk = s0\<lparr>st_equivocation := q, st_finality := f\<rparr>"
    and tk: "tracker_ok E n A tk"
    and cache: "\<forall>h r l. vote_round n h = Some r \<longrightarrow> bt_get (rs_cache rs) r = Some l \<longrightarrow> set l \<subseteq> A h"
    using ok by (auto simp: loop_ok_def tk_def)
  obtain active cache' where ac: "(if in_vote_range tip v
       then rbind (cached_set E n (tk_store tk) (fv_height v) (rs_cache rs)) (\<lambda>(l, cache).
              Inr (fv_public_key v \<in> set l, cache))
       else Inr (False, rs_cache rs)) = Inr (active, cache')"
    and rest: "record_vote E n tip v rs = (if \<not> active \<or> \<not> verify_vote E v
      then Inr (rs\<lparr>rs_tracker := tk\<lparr>tk_inner := (tk_inner tk)\<lparr>fi_rejected := fi_rejected (tk_inner tk) + 1\<rparr>\<rparr>, rs_cache := cache'\<rparr>)
      else rbind (report_conflict E n tip v (find_conflict (unwrap_or [] (bt_get (fi_votes (tk_inner tk)) (fv_height v))) v)
             (tk_store tk)) (\<lambda>(s, new).
            Inr \<lparr>rs_tracker = try_certify E n (fv_height v) (fv_block_id v)
                   \<lparr>tk_store = s, tk_inner = add_vote (fv_height v) (fv_block_id v) (fv_public_key v) (fv_signature v)
                      ((tk_inner tk)\<lparr>fi_received := fi_received (tk_inner tk) + 1\<rparr>)\<rparr>,
                 rs_ok = rs_ok rs + 1, rs_proofs = rs_proofs rs @ new, rs_cache = cache'\<rparr>))"
    using res unfolding record_vote_def Let_def tk_def [symmetric] by (auto simp: rbind_eq_Inr)
  have c': "\<forall>h r l. vote_round n h = Some r \<longrightarrow> bt_get cache' r = Some l \<longrightarrow> set l \<subseteq> A h"
    and member: "active \<Longrightarrow> fv_public_key v \<in> A (fv_height v)"
  proof -
    have "(\<forall>h r l. vote_round n h = Some r \<longrightarrow> bt_get cache' r = Some l \<longrightarrow> set l \<subseteq> A h)
        \<and> (active \<longrightarrow> fv_public_key v \<in> A (fv_height v))"
    proof (cases "in_vote_range tip v")
      case True
      then obtain l where l: "cached_set E n (tk_store tk) (fv_height v) (rs_cache rs) = Inr (l, cache')"
        "active \<longleftrightarrow> fv_public_key v \<in> set l"
        using ac by (auto simp: rbind_eq_Inr)
      show ?thesis using cached_set_bound [OF bound s cache l(1)] l(2) by blast
    qed (use ac cache in simp)
    then show "\<forall>h r l. vote_round n h = Some r \<longrightarrow> bt_get cache' r = Some l \<longrightarrow> set l \<subseteq> A h"
      "active \<Longrightarrow> fv_public_key v \<in> A (fv_height v)" by blast+
  qed
  show ?thesis
  proof (cases "\<not> active \<or> \<not> verify_vote E v")
    case True
    with rest res s tk c' show ?thesis by (auto simp: loop_ok_def tracker_ok_def)
  next
    case False
    then obtain s1 new where s1: "report_conflict E n tip v
        (find_conflict (unwrap_or [] (bt_get (fi_votes (tk_inner tk)) (fv_height v))) v) (tk_store tk) = Inr (s1, new)"
      and rs': "rs' = \<lparr>rs_tracker = try_certify E n (fv_height v) (fv_block_id v)
                   \<lparr>tk_store = s1, tk_inner = add_vote (fv_height v) (fv_block_id v) (fv_public_key v) (fv_signature v)
                      ((tk_inner tk)\<lparr>fi_received := fi_received (tk_inner tk) + 1\<rparr>)\<rparr>,
                 rs_ok = rs_ok rs + 1, rs_proofs = rs_proofs rs @ new, rs_cache = cache'\<rparr>"
      using rest [symmetric] unfolding res by (auto simp: rbind_eq_Inr split: prod.splits)
    obtain q1 where q1: "s1 = (tk_store tk)\<lparr>st_equivocation := q1\<rparr>" using report_conflict_store [OF s1] by blast
    have "verify_vote E (vote_of (fv_height v) (fv_block_id v) (fv_public_key v) (fv_signature v))"
      using False by (simp add: vote_of_self)
    with tk member False have "tracker_ok E n A \<lparr>tk_store = s1, tk_inner = add_vote (fv_height v) (fv_block_id v)
        (fv_public_key v) (fv_signature v) ((tk_inner tk)\<lparr>fi_received := fi_received (tk_inner tk) + 1\<rparr>)\<rparr>"
      by (simp add: tracker_ok_def q1 votes_ok_add)
    then have "tracker_ok E n A (rs_tracker rs')" by (simp add: rs' tracker_ok_certify)
    moreover have "\<exists>q f. tk_store (rs_tracker rs') = s0\<lparr>st_equivocation := q, st_finality := f\<rparr>"
    proof -
      obtain f1 where "tk_store (rs_tracker rs') = s1\<lparr>st_finality := f1\<rparr>"
        using try_certify_store(1) [of E n "fv_height v" "fv_block_id v" "\<lparr>tk_store = s1, tk_inner = add_vote
          (fv_height v) (fv_block_id v) (fv_public_key v) (fv_signature v)
          ((tk_inner tk)\<lparr>fi_received := fi_received (tk_inner tk) + 1\<rparr>)\<rparr>"] by (auto simp: rs')
      then have "tk_store (rs_tracker rs') = s0\<lparr>st_equivocation := q1, st_finality := f1\<rparr>" by (simp add: q1 s)
      then show ?thesis by blast
    qed
    ultimately show ?thesis using c' by (simp add: loop_ok_def rs')
  qed
qed

lemma record_votes_ok:
  assumes "members_bound A E n (tk_store tk)" and "tracker_ok E n A tk"
    and "record_votes E n vs tk = Inr (tk', k, ps)"
  shows "tracker_ok E n A tk'"
proof -
  obtain rs where rs: "rfold (record_vote E n (get_last_height (tk_store tk))) (take 64 vs)
      \<lparr>rs_tracker = tk, rs_ok = 0, rs_proofs = [], rs_cache = []\<rparr> = Inr rs"
    and tk': "tk' = rs_tracker rs\<lparr>tk_inner := prune_votes (get_last_height (tk_store tk)) (tk_inner (rs_tracker rs))\<rparr>"
    using assms(3) by (auto simp: record_votes_def Let_def rbind_eq_Inr)
  have "\<exists>q f. tk_store tk = (tk_store tk)\<lparr>st_equivocation := q, st_finality := f\<rparr>"
    by (rule exI [of _ "st_equivocation (tk_store tk)"], rule exI [of _ "st_finality (tk_store tk)"]) simp
  then have "loop_ok E n A (tk_store tk) \<lparr>rs_tracker = tk, rs_ok = 0, rs_proofs = [], rs_cache = []\<rparr>"
    using assms(2) by (simp add: loop_ok_def)
  then have "loop_ok E n A (tk_store tk) rs"
    by (rule rfold_invariant [OF _ _ rs, rotated]) (rule record_vote_ok [OF assms(1)])
  then show ?thesis by (simp add: loop_ok_def tracker_ok_def tk' votes_ok_prune)
qed

lemma votes_ok_fold:
  assumes "\<And>v. v \<in> set vs \<Longrightarrow> fv_public_key v \<in> A h \<and> verify_vote E (vote_of h j (fv_public_key v) (fv_signature v))"
    and "votes_ok E A i"
  shows "votes_ok E A (fold (\<lambda>v. add_vote h j (fv_public_key v) (fv_signature v)) vs i)"
  using assms by (induction vs arbitrary: i) (simp_all add: votes_ok_add)

lemma own_votes_ok:
  assumes bound: "members_bound A E n (tk_store tk)" and ok: "tracker_ok E n A tk"
    and keys: "\<And>k v. k \<in> set keys \<Longrightarrow> sign_vote E k h j = Some v \<Longrightarrow> verify_vote E v"
    and res: "own_votes E n keys h j now tk = Inr (tk', out)"
  shows "tracker_ok E n A tk'"
proof (cases "tk' = tk")
  case False
  obtain l where l: "active_set E n (tk_store tk) h = Inr l"
    using res False by (auto simp: own_votes_def rbind_eq_Inr split: if_splits)
  define vs where "vs = List.map_filter (\<lambda>k. sign_vote E k h j) (filter (\<lambda>k. kp_public_key_hex k \<in> set l) keys)"
  define i where "i = fold (\<lambda>v. add_vote h j (fv_public_key v) (fv_signature v)) vs (tk_inner tk)"
  have tk': "tk' = try_certify E n h j (tk\<lparr>tk_inner := note_own h j now vs i\<rparr>)"
    using res False l by (auto simp: own_votes_def Let_def vs_def i_def split: if_splits)
  have "set l \<subseteq> A h"
    using bound l unfolding members_bound_def by (metis store.surjective store.update_convs(27))
  then have vote: "fv_public_key v \<in> A h \<and> verify_vote E (vote_of h j (fv_public_key v) (fv_signature v))"
    if "v \<in> set vs" for v
    using that keys by (auto simp: vs_def map_filter_def sign_vote_def vote_of_def split: sum.splits)
  have "votes_ok E A i"
    unfolding i_def using vote ok by (intro votes_ok_fold) (auto simp: tracker_ok_def)
  with ok have "tracker_ok E n A (tk\<lparr>tk_inner := note_own h j now vs i\<rparr>)"
    by (auto simp: tracker_ok_def note_own_def)
  then show ?thesis unfolding tk' by (rule tracker_ok_certify)
qed (use ok in simp)

lemma check_cert_votes_ok:
  "check_cert_votes E l c vs = Inr () \<longleftrightarrow>
     (\<forall>(pk, sig) \<in> set vs. pk \<in> set l \<and> verify_vote E (vote_of (fc_height c) (fc_block_id c) pk sig))"
  by (induction vs) (auto simp: vote_of_def split: if_splits)

lemma adopt_certificate_cases:
  assumes "adopt_certificate E n c s = Inr (Inr (s', new))"
  obtains l where "active_set E n s (fc_height c) = Inr l"
    "unat (finality_quorum (milestone_at n (max (fc_height c) 1))) \<le> length (fc_votes c)"
    "\<forall>(pk, sig) \<in> set (fc_votes c). pk \<in> set l \<and> verify_vote E (vote_of (fc_height c) (fc_block_id c) pk sig)"
    "our_id E n s (fc_height c) = Some (fc_block_id c)"
    "s' = (if new then put_finality_cert c s else s)"
proof -
  obtain l where l: "active_set E n s (fc_height c) = Inr l"
    and q: "unat (finality_quorum (milestone_at n (max (fc_height c) 1))) \<le> length (fc_votes c)"
    using assms by (auto simp: adopt_certificate_def Let_def rbind_eq_Inr split: if_splits)
  have v: "check_cert_votes E l c (fc_votes c) = Inr ()"
    using assms l q by (cases "check_cert_votes E l c (fc_votes c)") (auto simp: adopt_certificate_def)
  obtain ob where ob: "get_block_by_height E n s (fc_height c) = Inr ob"
    using assms l q v by (cases "get_block_by_height E n s (fc_height c)") (auto simp: adopt_certificate_def)
  have "Option.bind ob b_id = Some (fc_block_id c)" "s' = (if new then put_finality_cert c s else s)"
    using assms l q v ob by (auto simp: adopt_certificate_def split: if_splits)
  then show ?thesis
    using that [OF l q] v ob by (auto simp: check_cert_votes_ok our_id_def bind_eq_Some_conv)
qed

lemma adopt_certificate_ok:
  assumes "members_bound A E n (tk_store tk)" and "tracker_ok E n A tk" and "bt_wf (fc_votes c)"
    and "adopt_certificate E n c (tk_store tk) = Inr (Inr (s', new))"
  shows "tracker_ok E n A (tk\<lparr>tk_store := s'\<rparr>)"
proof -
  from assms(4) obtain l where l: "active_set E n (tk_store tk) (fc_height c) = Inr l"
    and c: "unat (finality_quorum (milestone_at n (max (fc_height c) 1))) \<le> length (fc_votes c)"
      "\<forall>(pk, sig) \<in> set (fc_votes c). pk \<in> set l \<and> verify_vote E (vote_of (fc_height c) (fc_block_id c) pk sig)"
      "s' = (if new then put_finality_cert c (tk_store tk) else tk_store tk)"
    by (rule adopt_certificate_cases) blast
  have "set l \<subseteq> A (fc_height c)"
    using assms(1) l unfolding members_bound_def by (metis store.surjective store.update_convs(27))
  with assms(3) c have "backed E n A c" by (auto simp: backed_def)
  with assms(2) c(3) certs_ok_put show ?thesis by (auto simp: tracker_ok_def put_finality_cert_def)
qed

section \<open>Chain operations keep the certificates\<close>

lemma write_wallets_finality:
  "write_wallets_undo ds s = Inr (s', undo, out) \<Longrightarrow> st_finality s' = st_finality s"
proof -
  have "rfold write_step ds (s, u, o1) = Inr (s', undo, out) \<Longrightarrow> st_finality s' = st_finality s" for u o1
  proof (induction ds arbitrary: s u o1)
    case (Cons ad ds)
    obtain a d where ad: "ad = (a, d)" by (cases ad)
    obtain s1 w u1 where s1: "write_wallet (a, d) s = Inr (s1, (a, get_wallet s a), w)"
      "rfold write_step ds (s1, u1, o1 @ [w]) = Inr (s', undo, out)"
      using Cons.prems unfolding ad by (auto simp: rbind_eq_Inr write_step_ok)
    with Cons.IH [OF s1(2)] write_wallet_ok(5) [OF s1(1)] show ?case by (simp add: chain_part_def)
  qed auto
  then show "write_wallets_undo ds s = Inr (s', undo, out) \<Longrightarrow> st_finality s' = st_finality s"
    unfolding write_wallets_undo_step by blast
qed

lemma commit_batch_finality:
  assumes "commit_batch E n undo_on prepared ds s = Inr s'"
  shows "st_finality s' = st_finality s"
proof -
  obtain s1 undo out s2 where "write_wallets_undo ds s = Inr (s1, undo, out)"
    and s2: "rfold (write_block E (nw_pubkey_hash n)) prepared s1 = Inr s2" and "st_finality s' = st_finality s2"
    using assms by (auto simp: commit_batch_def rbind_eq_Inr Let_def split: list.splits if_splits)
  moreover have "st_finality s2 = st_finality s1"
    by (rule rfold_frame [OF _ s2]) (metis prod.exhaust write_block_frame(4))
  ultimately show ?thesis using write_wallets_finality by simp
qed

lemma apply_locked_finality:
  assumes "apply_locked E n bs u s = (s', r)"
  shows "st_finality s' = st_finality s"
proof -
  define committed where "committed = rbind (collect (map (prepare_block E n) bs)) (\<lambda>prepared.
     let batch = map fst prepared in
     rbind (rfold (accumulate_deltas E n (store_view E n s) batch) batch []) (\<lambda>ds.
     rbind (commit_batch E n (u \<or> st_undo_enabled s) prepared ds s) (\<lambda>s. Inr (s, batch))))"
  show ?thesis
  proof (cases committed)
    case (Inl e)
    with assms show ?thesis by (simp add: apply_locked_def committed_def)
  next
    case (Inr sb)
    obtain s1 batch where sb: "sb = (s1, batch)" by (cases sb)
    have f1: "st_finality s1 = st_finality s"
      using Inr unfolding sb committed_def by (auto simp: rbind_eq_Inr Let_def commit_batch_finality)
    define s2 where "s2 = s1\<lparr>st_generation := st_generation s1 + 1\<rparr>"
    show ?thesis
    proof (cases "snapshot_round_if_boundary n (b_height (last batch)) s2")
      case (Inl e)
      with assms \<open>committed = Inr sb\<close> f1 show ?thesis
        unfolding apply_locked_def Let_def committed_def [unfolded Let_def, symmetric] sb by (auto simp: s2_def)
    next
      case (Inr s3)
      then obtain prev where "s' = fst (missed_batch E n prev batch s3)"
        using assms \<open>committed = Inr sb\<close>
        unfolding apply_locked_def Let_def committed_def [unfolded Let_def, symmetric] sb
        by (simp add: s2_def) (metis fst_conv)
      then have "statistics s2 s'" using statistics_trans [OF statistics_snapshot [OF Inr] statistics_batch] by simp
      then show ?thesis using f1 by (simp add: statistics_fields s2_def)
    qed
  qed
qed

lemma apply_blocks_finality:
  assumes "apply_blocks E n bs s = (s', r)"
  shows "st_finality s' = st_finality s"
proof -
  have each: "apply_each E n u bss s = (s', r) \<Longrightarrow> st_finality s' = st_finality s" for u bss
  proof (induction bss arbitrary: s)
    case (Cons b bss)
    obtain s1 r1 where s1: "apply_locked E n b u s = (s1, r1)" by (cases "apply_locked E n b u s")
    with Cons apply_locked_finality [OF s1] show ?case by (cases r1) auto
  qed auto
  show ?thesis
    using assms each apply_locked_finality by (auto simp: apply_blocks_def split: if_splits)
qed

section \<open>Runs of a node\<close>

text \<open>Everything that changes a node's votes and certificates, interleaved in any order: votes and
  certificates and proofs from peers, own votes, applied and rolled back blocks, and a restart that
  loses the in-memory votes. \<open>A\<close> bounds the delegates that were active at each height.\<close>

inductive node_run :: "crypto \<Rightarrow> network \<Rightarrow> (u64 \<Rightarrow> string set) \<Rightarrow> tracker \<Rightarrow> bool"
  for E :: crypto and n :: network and A :: "u64 \<Rightarrow> string set" where
  start: "st_finality s = [] \<Longrightarrow> node_run E n A (tracker_new s)"
| votes: "node_run E n A tk \<Longrightarrow> members_bound A E n (tk_store tk) \<Longrightarrow>
    record_votes E n vs tk = Inr (tk', k, ps) \<Longrightarrow> node_run E n A tk'"
| own: "node_run E n A tk \<Longrightarrow> members_bound A E n (tk_store tk) \<Longrightarrow>
    (\<And>k v. k \<in> set keys \<Longrightarrow> sign_vote E k h j = Some v \<Longrightarrow> verify_vote E v) \<Longrightarrow>
    own_votes E n keys h j now tk = Inr (tk', out) \<Longrightarrow> node_run E n A tk'"
| certificate: "node_run E n A tk \<Longrightarrow> members_bound A E n (tk_store tk) \<Longrightarrow> bt_wf (fc_votes c) \<Longrightarrow>
    adopt_certificate E n c (tk_store tk) = Inr (Inr (s', new)) \<Longrightarrow> node_run E n A (tk\<lparr>tk_store := s'\<rparr>)"
| evidence: "node_run E n A tk \<Longrightarrow> adopt_proof E n p (tk_store tk) = Inr (Inr (s', new)) \<Longrightarrow>
    node_run E n A (tk\<lparr>tk_store := s'\<rparr>)"
| blocks: "node_run E n A tk \<Longrightarrow> apply_blocks E n bs (tk_store tk) = (s', r) \<Longrightarrow>
    node_run E n A (tk\<lparr>tk_store := s'\<rparr>)"
| rollback: "node_run E n A tk \<Longrightarrow> rollback_last_block E n (tk_store tk) = (s', r') \<Longrightarrow>
    node_run E n A (tk\<lparr>tk_store := s'\<rparr>)"
| restart: "node_run E n A tk \<Longrightarrow> node_run E n A (tracker_new (tk_store tk))"

lemma node_run_ok: "node_run E n A tk \<Longrightarrow> tracker_ok E n A tk"
proof (induction rule: node_run.induct)
  case (start s)
  then show ?case by (simp add: tracker_ok_def tracker_new_def certs_ok_def)
next
  case (votes tk vs tk' k ps)
  then show ?case using record_votes_ok by blast
next
  case (own tk keys h j now tk' out)
  then show ?case using own_votes_ok [OF own(2,5)] by blast
next
  case (certificate tk c s' new)
  then show ?case using adopt_certificate_ok by blast
next
  case (evidence tk p s' new)
  then show ?case using adopt_proof_store [OF evidence(2)] by (auto simp: tracker_ok_def)
next
  case (blocks tk bs s' r)
  then show ?case using apply_blocks_finality [OF blocks(2)] by (simp add: tracker_ok_def)
next
  case (rollback tk s' r')
  then show ?case using rollback_outcome(4) [OF rollback(2)] certs_ok_del by (auto simp: tracker_ok_def)
next
  case (restart tk)
  then show ?case by (simp add: tracker_ok_def tracker_new_def)
qed

text \<open>The delegates a certificate proves to have voted.\<close>

lemma backed_voters:
  assumes "backed E n A c"
  shows "fst ` set (fc_votes c) \<subseteq> A (fc_height c)"
    "unat (finality_quorum (milestone_at n (max (fc_height c) 1))) \<le> card (fst ` set (fc_votes c))"
    "pk \<in> fst ` set (fc_votes c) \<Longrightarrow> \<exists>sig. verify_vote E (vote_of (fc_height c) (fc_block_id c) pk sig)"
proof -
  have "card (fst ` set (fc_votes c)) = length (fc_votes c)"
    using assms bt_wf_distinct [of "fc_votes c"] distinct_card [of "map fst (fc_votes c)"] by (simp add: backed_def)
  then show "unat (finality_quorum (milestone_at n (max (fc_height c) 1))) \<le> card (fst ` set (fc_votes c))"
    using assms by (simp add: backed_def)
qed (use assms in \<open>fastforce simp: backed_def\<close>)+

text \<open>C6. Agreement of the finality gadget. Two nodes run the protocol in any interleaving of votes, own
  votes, certificates, proofs, blocks, rollbacks and restarts, with the same bound \<open>A\<close> on the active
  delegates of every height. If they hold certificates for different blocks at one height, then more
  than a third of the delegates signed both blocks: a set \<open>D\<close> of delegates for each of which there
  are two verified votes.\<close>

theorem finality_agreement:
  assumes "node_run E n A tk" and "node_run E n A tk'"
    and "finality_cert_at (tk_store tk) h = Some c" and "finality_cert_at (tk_store tk') h = Some c'"
    and "fc_block_id c \<noteq> fc_block_id c'"
    and "default_quorum (milestone_at n (max h 1))" and "finite (A h)"
    and "card (A h) \<le> unat (ms_active_delegates (milestone_at n (max h 1)))"
  shows "\<exists>D \<subseteq> A h. unat (ms_active_delegates (milestone_at n (max h 1))) < 3 * card D
    \<and> (\<forall>pk \<in> D. \<exists>sig sig'. verify_vote E (vote_of h (fc_block_id c) pk sig)
         \<and> verify_vote E (vote_of h (fc_block_id c') pk sig'))"
proof -
  have b: "backed E n A c" "fc_height c = h" "backed E n A c'" "fc_height c' = h"
    using node_run_ok [OF assms(1)] node_run_ok [OF assms(2)] assms(3,4)
    by (auto simp: tracker_ok_def certs_ok_def finality_cert_at_def)
  note v = backed_voters [OF b(1), unfolded b(2)] backed_voters [OF b(3), unfolded b(4)]
  let ?D = "fst ` set (fc_votes c) \<inter> fst ` set (fc_votes c')"
  have "unat (ms_active_delegates (milestone_at n (max h 1))) < 3 * card ?D"
    by (rule fq.quorums_overlap [OF assms(6-8) v(1,4,2,5)])
  moreover have "\<exists>sig sig'. verify_vote E (vote_of h (fc_block_id c) pk sig)
      \<and> verify_vote E (vote_of h (fc_block_id c') pk sig')" if "pk \<in> ?D" for pk
    using that v(3) [of pk] v(6) [of pk] by blast
  ultimately show ?thesis using v(1) by (intro exI [of _ ?D]) blast
qed

section \<open>A quorum of votes makes a block final\<close>

definition keyed :: "(u64, finality_cert) btmap \<Rightarrow> bool" where
  "keyed m \<longleftrightarrow> bt_wf m \<and> (\<forall>k c. bt_get m k = Some c \<longrightarrow> fc_height c = k)"

lemma keyed_put: "keyed m \<Longrightarrow> keyed (bt_put (fc_height c) c m)"
  by (simp add: keyed_def)

lemma latest_cert_ge:
  assumes "keyed (st_finality s)" and "bt_get (st_finality s) h \<noteq> None"
  shows "is_final s h"
proof -
  obtain c where c: "(h, c) \<in> set (st_finality s)" using assms(2) bt_get_SomeD by fastforce
  then obtain m k d where m: "st_finality s = m @ [(k, d)]"
    by (metis empty_iff list.set(1) prod.exhaust rev_exhaust)
  have "\<forall>x \<in> fst ` set m. x < k" using assms(1) by (auto simp: keyed_def bt_wf_def m sorted_wrt_append)
  with c m have "h \<le> k" by force
  moreover have "fc_height d = k"
    using assms(1) bt_get_SomeI [of "st_finality s" k d] by (simp add: keyed_def m)
  moreover have "latest_finality_cert s = Some d" by (simp add: latest_finality_cert_def m)
  ultimately show ?thesis by (simp add: is_final_def finalized_def)
qed

lemma certify_progress:
  assumes k: "keyed (st_finality (tk_store tk))" and our: "our_id E n (tk_store tk) h = Some j"
    and q: "quorum = unat (finality_quorum (milestone_at n (max h 1)))"
  shows "keyed (st_finality (tk_store (try_certify E n h j tk)))"
    "is_final (tk_store (try_certify E n h j tk)) h
     \<or> (\<forall>sigs. recorded_votes (tk_inner tk) h j = Some sigs \<longrightarrow> length sigs < quorum)"
proof -
  let ?tk = "try_certify E n h j tk"
  consider "is_final (tk_store tk) h" "?tk = tk"
    | "\<forall>sigs. recorded_votes (tk_inner tk) h j = Some sigs \<longrightarrow> length sigs < quorum" "?tk = tk"
    | sigs where "tk_store ?tk = put_finality_cert \<lparr>fc_height = h, fc_block_id = j, fc_votes = sigs\<rparr> (tk_store tk)"
  proof (cases "is_final (tk_store tk) h")
    case False
    show ?thesis
    proof (cases "recorded_votes (tk_inner tk) h j")
      case (Some sigs)
      show ?thesis
        using that(2) [OF _ _] that(3) [of sigs] False Some our q
        by (cases "length sigs < quorum") (simp_all add: try_certify_def)
    qed (use that(2) False in \<open>simp add: try_certify_def\<close>)
  qed (use that(1) in \<open>simp add: try_certify_def\<close>)
  then have "keyed (st_finality (tk_store ?tk)) \<and> (is_final (tk_store ?tk) h
     \<or> (\<forall>sigs. recorded_votes (tk_inner tk) h j = Some sigs \<longrightarrow> length sigs < quorum))"
  proof cases
    case (3 sigs)
    then have s: "st_finality (tk_store ?tk)
        = bt_put h \<lparr>fc_height = h, fc_block_id = j, fc_votes = sigs\<rparr> (st_finality (tk_store tk))"
      by (simp add: put_finality_cert_def)
    then have "keyed (st_finality (tk_store ?tk))"
      using keyed_put [OF k, of "\<lparr>fc_height = h, fc_block_id = j, fc_votes = sigs\<rparr>"] by simp
    with s latest_cert_ge [of "tk_store ?tk" h] show ?thesis by simp
  qed (use k in simp_all)
  then show "keyed (st_finality (tk_store ?tk))"
    "is_final (tk_store ?tk) h \<or> (\<forall>sigs. recorded_votes (tk_inner tk) h j = Some sigs \<longrightarrow> length sigs < quorum)"
    by simp_all
qed

lemma our_id_frame [simp]:
  "our_id E n (s\<lparr>st_equivocation := q\<rparr>) h = our_id E n s h"
  "our_id E n (s\<lparr>st_finality := f\<rparr>) h = our_id E n s h"
  by (simp_all add: our_id_def get_block_by_height_def)

text \<open>With active delegates at the height and at the tip, nothing in the vote loop panics.\<close>

lemma round_info_ucast: "d \<noteq> (0 :: u32) \<Longrightarrow> round_info h (ucast d) = Inr (round_of h (ucast d))"
proof -
  assume "d \<noteq> 0"
  moreover have "unat d < 2 ^ 64" using unsigned_less [where 'a = nat and w = d] by simp
  then have "unat (ucast d :: u64) = unat d" by (simp add: unsigned_ucast_eq take_bit_nat_eq_self)
  ultimately have "(ucast d :: u64) \<noteq> 0" by (metis unsigned_0 unsigned_eq_0_iff)
  then show ?thesis by (simp add: round_info_def)
qed

lemma ban_round_ok:
  "ms_active_delegates (milestone_at n (max tip 1)) \<noteq> 0 \<Longrightarrow> \<exists>u. ban_round n tip = Inr u"
  by (simp add: ban_round_def Let_def round_info_ucast)

lemma report_conflict_returns:
  assumes "ms_active_delegates (milestone_at n (max (get_last_height s) 1)) \<noteq> 0"
    and "ms_active_delegates (milestone_at n (max (fv_height v) 1)) \<noteq> 0"
  shows "\<exists>s' new. report_conflict E n (get_last_height s) v conflict s = Inr (s', new)"
proof (cases conflict)
  case (Some c)
  obtain i g where c: "c = (i, g)" by (cases c)
  obtain u where u: "ban_round n (get_last_height s) = Inr u" using ban_round_ok [OF assms(1)] by blast
  define p where "p = \<lparr>ep_height = fv_height v, ep_public_key = fv_public_key v, ep_block_ids = (i, fv_block_id v),
    ep_signatures = (g, fv_signature v), ep_detected_height = get_last_height s, ep_banned_until_round = u\<rparr>"
  have mp: "make_proof n v i g (get_last_height s) = Inr p" by (simp add: make_proof_def u p_def)
  obtain l where l: "ranked_set n s (ep_height p) = Inr l"
    using assms(2) by (simp add: ranked_set_def Let_def round_info_ucast p_def)
  have "\<exists>vr. verify_proof E n s p = Inr vr" by (simp add: verify_proof_def l)
  then obtain vr where vr: "verify_proof E n s p = Inr vr" by blast
  have "\<exists>r. adopt_proof E n p s = Inr r"
    using vr u by (cases vr) (simp_all add: adopt_proof_def Let_def split: option.split)
  then obtain r where r: "adopt_proof E n p s = Inr r" by blast
  have "\<exists>x. (case r of Inr (s', True) \<Rightarrow> Inr (s', [p]) | _ \<Rightarrow> Inr (s, [])) = (Inr x :: _ res)"
    by (auto split: sum.splits bool.splits)
  then show ?thesis unfolding Some c by (simp add: report_conflict_def mp r)
qed (simp add: report_conflict_def)

text \<open>The state of the vote loop while a quorum for \<open>(h, j)\<close> is coming in: \<open>P\<close> are the delegates heard
  so far and \<open>l\<close> is the active set.\<close>

definition gathering ::
  "crypto \<Rightarrow> network \<Rightarrow> store \<Rightarrow> u64 \<Rightarrow> string \<Rightarrow> string list \<Rightarrow> string set \<Rightarrow> record_state \<Rightarrow> bool" where
  "gathering E n s0 h j l P rs \<longleftrightarrow>
     (\<exists>q f. tk_store (rs_tracker rs) = s0\<lparr>st_equivocation := q, st_finality := f\<rparr>)
     \<and> keyed (st_finality (tk_store (rs_tracker rs)))
     \<and> P \<subseteq> fst ` set (unwrap_or [] (recorded_votes (tk_inner (rs_tracker rs)) h j))
     \<and> (P \<noteq> {} \<longrightarrow> is_final (tk_store (rs_tracker rs)) h
          \<or> length (unwrap_or [] (recorded_votes (tk_inner (rs_tracker rs)) h j))
              < unat (finality_quorum (milestone_at n (max h 1))))
     \<and> (\<forall>r. vote_round n h = Some r \<longrightarrow> bt_get (rs_cache rs) r = Some l
          \<or> bt_get (rs_cache rs) r = None \<and> active_set E n (tk_store (rs_tracker rs)) h = Inr l)"

lemma cached_set_member:
  assumes "ms_active_delegates (milestone_at n (max h 1)) \<noteq> 0" and "vote_round n h = Some r"
    and "bt_get cache r = Some l \<or> bt_get cache r = None \<and> active_set E n s h = Inr l"
  shows "\<exists>cache'. cached_set E n s h cache = Inr (l, cache') \<and> bt_get cache' r = Some l"
  using assms by (auto simp: cached_set_def vote_round_def round_info_ucast)

lemma record_vote_gathers:
  assumes g: "gathering E n s0 h j l P rs"
    and v: "fv_height v = h" "fv_block_id v = j" "fv_public_key v \<in> set l" "verify_vote E v"
    and range: "in_vote_range (get_last_height s0) v" and our: "our_id E n s0 h = Some j"
    and ms: "ms_active_delegates (milestone_at n (max (get_last_height s0) 1)) \<noteq> 0"
      "ms_active_delegates (milestone_at n (max h 1)) \<noteq> 0"
  shows "\<exists>rs'. record_vote E n (get_last_height s0) v rs = Inr rs' \<and> rs_ok rs' = rs_ok rs + 1
     \<and> gathering E n s0 h j l (insert (fv_public_key v) P) rs'"
proof -
  let ?tip = "get_last_height s0"
  define tk where "tk = rs_tracker rs"
  obtain q f where s: "tk_store tk = s0\<lparr>st_equivocation := q, st_finality := f\<rparr>"
    using g by (auto simp: gathering_def tk_def)
  have tip: "get_last_height (tk_store tk) = ?tip" by (simp add: s get_last_height_def)
  obtain r where r: "vote_round n h = Some r" using ms(2) by (simp add: vote_round_def round_info_ucast)
  obtain cache where c: "cached_set E n (tk_store tk) h (rs_cache rs) = Inr (l, cache)" "bt_get cache r = Some l"
    using cached_set_member [OF ms(2) r, of "rs_cache rs" l E "tk_store tk"] g r by (auto simp: gathering_def tk_def)
  define conflict where "conflict = find_conflict (unwrap_or [] (bt_get (fi_votes (tk_inner tk)) h)) v"
  obtain s1 new where s1: "report_conflict E n ?tip v conflict (tk_store tk) = Inr (s1, new)"
    using report_conflict_returns [of n "tk_store tk" v E conflict] ms v(1) by (auto simp: tip)
  obtain q1 where q1: "s1 = (tk_store tk)\<lparr>st_equivocation := q1\<rparr>" using report_conflict_store [OF s1] by blast
  define i where "i = add_vote h j (fv_public_key v) (fv_signature v) ((tk_inner tk)\<lparr>fi_received := fi_received (tk_inner tk) + 1\<rparr>)"
  define tk1 where "tk1 = \<lparr>tk_store = s1, tk_inner = i\<rparr>"
  define rs' where "rs' = \<lparr>rs_tracker = try_certify E n h j tk1, rs_ok = rs_ok rs + 1,
    rs_proofs = rs_proofs rs @ new, rs_cache = cache\<rparr>"
  have step: "record_vote E n ?tip v rs = Inr rs'"
    using range v c(1) s1 by (simp add: record_vote_def Let_def tk_def [symmetric] conflict_def rs'_def tk1_def i_def)
  have k1: "keyed (st_finality (tk_store tk1))" using g by (simp add: gathering_def tk1_def q1 tk_def)
  have our1: "our_id E n (tk_store tk1) h = Some j" using our by (simp add: tk1_def q1 s)
  note prog = certify_progress [OF k1 our1 refl]
  have inner: "tk_inner (rs_tracker rs') = i" by (simp add: rs'_def try_certify_store(2) tk1_def)
  obtain f1 where "tk_store (rs_tracker rs') = s1\<lparr>st_finality := f1\<rparr>"
    using try_certify_store(1) [of E n h j tk1] by (auto simp: rs'_def tk1_def)
  then have st: "\<exists>q f. tk_store (rs_tracker rs') = s0\<lparr>st_equivocation := q, st_finality := f\<rparr>"
    by (intro exI [of _ q1] exI [of _ f1]) (simp add: q1 s)
  have votes: "recorded_votes i h j = Some (bt_put (fv_public_key v) (fv_signature v)
      (unwrap_or [] (recorded_votes (tk_inner tk) h j)))"
    unfolding i_def recorded_add_vote by (simp add: recorded_votes_def)
  have tracker: "rs_tracker rs' = try_certify E n h j tk1" by (simp add: rs'_def)
  have "gathering E n s0 h j l (insert (fv_public_key v) P) rs'"
    unfolding gathering_def
  proof (intro conjI impI allI)
    show "\<exists>q f. tk_store (rs_tracker rs') = s0\<lparr>st_equivocation := q, st_finality := f\<rparr>" by (rule st)
    show "keyed (st_finality (tk_store (rs_tracker rs')))" unfolding tracker by (rule prog(1))
    show "insert (fv_public_key v) P \<subseteq> fst ` set (unwrap_or [] (recorded_votes (tk_inner (rs_tracker rs')) h j))"
      using g by (auto simp: inner votes fst_set_bt_put gathering_def tk_def)
    show "is_final (tk_store (rs_tracker rs')) h \<or> length (unwrap_or [] (recorded_votes (tk_inner (rs_tracker rs')) h j))
        < unat (finality_quorum (milestone_at n (max h 1)))"
      using prog(2) unfolding tracker [symmetric] inner by (simp add: votes tk1_def)
    show "bt_get (rs_cache rs') x = Some l \<or> bt_get (rs_cache rs') x = None
        \<and> active_set E n (tk_store (rs_tracker rs')) h = Inr l" if "vote_round n h = Some x" for x
      using that r c(2) by (simp add: rs'_def)
  qed
  with step show ?thesis by (auto simp: rs'_def)
qed

lemma record_votes_gather:
  assumes "gathering E n s0 h j l P rs"
    and "\<And>v. v \<in> set vs \<Longrightarrow> fv_height v = h \<and> fv_block_id v = j \<and> fv_public_key v \<in> set l \<and> verify_vote E v
      \<and> in_vote_range (get_last_height s0) v"
    and "our_id E n s0 h = Some j"
    and "ms_active_delegates (milestone_at n (max (get_last_height s0) 1)) \<noteq> 0"
      "ms_active_delegates (milestone_at n (max h 1)) \<noteq> 0"
  shows "\<exists>rs'. rfold (record_vote E n (get_last_height s0)) vs rs = Inr rs' \<and> rs_ok rs' = rs_ok rs + length vs
     \<and> gathering E n s0 h j l (P \<union> fv_public_key ` set vs) rs'"
  using assms(1,2)
proof (induction vs arbitrary: P rs)
  case (Cons v vs)
  have v: "fv_height v = h" "fv_block_id v = j" "fv_public_key v \<in> set l" "verify_vote E v"
    "in_vote_range (get_last_height s0) v"
    using Cons.prems(2) [of v] by simp_all
  obtain rs1 where rs1: "record_vote E n (get_last_height s0) v rs = Inr rs1" "rs_ok rs1 = rs_ok rs + 1"
    "gathering E n s0 h j l (insert (fv_public_key v) P) rs1"
    using record_vote_gathers [OF Cons.prems(1) v assms(3-5)] by blast
  obtain rs2 where "rfold (record_vote E n (get_last_height s0)) vs rs1 = Inr rs2"
    "rs_ok rs2 = rs_ok rs1 + length vs"
    "gathering E n s0 h j l (insert (fv_public_key v) P \<union> fv_public_key ` set vs) rs2"
    using Cons.IH [OF rs1(3)] Cons.prems(2) by (meson list.set_intros(2))
  with rs1(1,2) show ?case by simp
qed auto

text \<open>C22. A quorum of votes makes a block final. When a node holds block \<open>j\<close> at height \<open>h\<close> and one message
  brings valid votes for it from at least a quorum of distinct active delegates, inside the vote
  window, then recording them returns, accepts every vote and leaves the height final, whatever
  votes, conflicts and certificates the node had before.\<close>

theorem quorum_of_votes_finalizes:
  assumes "active_set E n (tk_store tk) h = Inr l" and "our_id E n (tk_store tk) h = Some j"
    and "keyed (st_finality (tk_store tk))" and "vs \<noteq> []" and "length vs \<le> 64"
    and "distinct (map fv_public_key vs)"
    and "unat (finality_quorum (milestone_at n (max h 1))) \<le> length vs"
    and "\<forall>v \<in> set vs. fv_height v = h \<and> fv_block_id v = j \<and> fv_public_key v \<in> set l \<and> verify_vote E v
      \<and> in_vote_range (get_last_height (tk_store tk)) v"
    and "ms_active_delegates (milestone_at n (max (get_last_height (tk_store tk)) 1)) \<noteq> 0"
  shows "\<exists>tk' ps. record_votes E n vs tk = Inr (tk', length vs, ps) \<and> is_final (tk_store tk') h"
proof -
  let ?rs = "\<lparr>rs_tracker = tk, rs_ok = 0, rs_proofs = [], rs_cache = []\<rparr>"
  have ms: "ms_active_delegates (milestone_at n (max h 1)) \<noteq> 0"
    using assms(1) by (auto simp: active_set_def round_info_def)
  have "\<exists>q f. tk_store tk = (tk_store tk)\<lparr>st_equivocation := q, st_finality := f\<rparr>"
    by (rule exI [of _ "st_equivocation (tk_store tk)"], rule exI [of _ "st_finality (tk_store tk)"]) simp
  then have "gathering E n (tk_store tk) h j l {} ?rs" using assms(1,3) by (simp add: gathering_def)
  then obtain rs where rs: "rfold (record_vote E n (get_last_height (tk_store tk))) vs ?rs = Inr rs"
    "rs_ok rs = length vs" "gathering E n (tk_store tk) h j l (fv_public_key ` set vs) rs"
    using record_votes_gather [OF _ _ assms(2,9) ms, of l "{}" ?rs vs] assms(8) by auto
  let ?sigs = "unwrap_or [] (recorded_votes (tk_inner (rs_tracker rs)) h j)"
  have "length vs = card (fv_public_key ` set vs)"
    using distinct_card [OF assms(6)] by simp
  also have "\<dots> \<le> card (fst ` set ?sigs)"
    using rs(3) by (intro card_mono) (auto simp: gathering_def)
  also have "\<dots> \<le> length ?sigs" using card_length [of "map fst ?sigs"] by simp
  finally have "is_final (tk_store (rs_tracker rs)) h"
    using rs(3) assms(4,7) by (auto simp: gathering_def)
  with rs show ?thesis using assms(5) by (simp add: record_votes_def)
qed

section \<open>One vote in two spellings\<close>

text \<open>The vote hash covers the decoded block id, so votes do not distinguish two spellings of one id.\<close>

lemma verify_vote_spelling:
  assumes "hex_decode E up = hex_decode E j" and "hex_decode E j \<noteq> None" and "length up = 64"
    and "verify_vote E (vote_of h j pk sig)"
  shows "verify_vote E (vote_of h up pk sig)"
proof -
  have "vote_hash E h up = vote_hash E h j" using assms(1,2) by (auto simp: vote_hash_def)
  with assms(3,4) show ?thesis by (cases "hex_decode E sig") (simp_all add: verify_vote_def vote_of_def)
qed

text \<open>C40. An honest delegate can be banned with its own single vote. Hex decoding ignores letter case, the
  vote hash covers the decoded id, and a proof only compares the two ids as strings: from one valid
  vote anybody builds a proof with the same signature twice and the id in two spellings. Every node
  that has no record of the delegate adopts it, and with slashing on the delegate is banned for
  \<open>slashingRounds\<close> rounds.\<close>

theorem single_vote_bans_delegate:
  assumes "verify_vote E (vote_of h j pk sig)"
    and "hex_decode E up = hex_decode E j" and "hex_decode E j \<noteq> None" and "length up = 64" and "up \<noteq> j"
    and "ranked_set n s h = Inr l" and "pk \<in> set l"
    and "equivocation s pk = None" and "ban_round n (get_last_height s) = Inr until"
    and "fp_slashing (ms_finality (milestone_at n (max next 1)))" and "r < until"
  shows "\<exists>s'. adopt_proof E n \<lparr>ep_height = h, ep_public_key = pk, ep_block_ids = (j, up), ep_signatures = (sig, sig),
      ep_detected_height = t, ep_banned_until_round = until\<rparr> s = Inr (Inr (s', True))
     \<and> pk \<in> set (banned_delegates n s' r next)"
proof -
  let ?p = "\<lparr>ep_height = h, ep_public_key = pk, ep_block_ids = (j, up), ep_signatures = (sig, sig),
      ep_detected_height = t, ep_banned_until_round = until\<rparr>"
  have votes: "verify_vote E (proof_vote ?p j sig)" "verify_vote E (proof_vote ?p up sig)"
    using assms(1) verify_vote_spelling [OF assms(2,3,4,1)] by (simp_all add: proof_vote_def vote_of_def)
  have "verify_proof E n s ?p = Inr (Inr ())"
    using assms(5-7) votes by (simp add: verify_proof_def)
  then have adopt: "adopt_proof E n ?p s = Inr (Inr (put_equivocation ?p s, True))"
    using assms(8,9) by (simp add: adopt_proof_def)
  have "?p \<in> set (equivocations (put_equivocation ?p s))"
    using bt_get_SomeD [of "st_equivocation (put_equivocation ?p s)" "(pk, h)" ?p]
    by (force simp: equivocations_def put_equivocation_def)
  then have "pk \<in> set (banned_delegates n (put_equivocation ?p s) r next)"
    using assms(10,11) by (auto simp: banned_delegates_def set_dedup intro!: image_eqI [of _ ep_public_key ?p])
  with adopt show ?thesis by blast
qed

end
