(* ===== verification/FinalityGuard.thy ===== *)
theory FinalityGuard
  imports FinalityProps
begin

text \<open>
  The equivocation guard of a node's own votes (\<open>own_votes\<close> in \<open>src/src/p2p_iroh/finality.rs\<close>) and the
  concrete runs that witness the finality theorems.
\<close>

section \<open>Own votes\<close>

text \<open>The votes a process has signed and not yet pruned: the history grows with \<open>own_votes\<close>, is cut with
  the window when network votes are recorded, and the store changes in any way in between.\<close>

inductive signing_run :: "crypto \<Rightarrow> network \<Rightarrow> tracker \<Rightarrow> finality_vote list \<Rightarrow> bool"
  for E :: crypto and n :: network where
  boot: "signing_run E n (tracker_new s) []"
| own: "signing_run E n tk hist \<Longrightarrow> own_votes E n keys h j now tk = Inr (tk', out) \<Longrightarrow>
    signing_run E n tk' (hist @ out)"
| votes: "signing_run E n tk hist \<Longrightarrow> record_votes E n vs tk = Inr (tk', k, ps) \<Longrightarrow>
    signing_run E n tk' (filter (\<lambda>v. saturating_sub (get_last_height (tk_store tk)) KEEP_BEHIND \<le> fv_height v) hist)"
| chain: "signing_run E n tk hist \<Longrightarrow> signing_run E n (tk\<lparr>tk_store := s\<rparr>) hist"

lemma fi_own_add_vote [simp]: "fi_own (add_vote h j pk sig i) = fi_own i"
  by (simp add: add_vote_def)

lemma fi_own_fold_add [simp]:
  "fi_own (fold (\<lambda>v. add_vote h j (fv_public_key v) (fv_signature v)) vs i) = fi_own i"
  by (induction vs arbitrary: i) simp_all

lemma record_vote_own:
  assumes "record_vote E n tip v rs = Inr rs'"
  shows "fi_own (tk_inner (rs_tracker rs')) = fi_own (tk_inner (rs_tracker rs))"
  using assms by (auto simp: record_vote_def Let_def rbind_eq_Inr try_certify_store(2) split: if_splits prod.splits)

lemma record_votes_own:
  assumes "record_votes E n vs tk = Inr (tk', k, ps)"
  shows "fi_own (tk_inner tk') = filter (\<lambda>kv. saturating_sub (get_last_height (tk_store tk)) KEEP_BEHIND \<le> fst kv)
    (fi_own (tk_inner tk))"
proof -
  obtain rs where rs: "rfold (record_vote E n (get_last_height (tk_store tk))) (take 64 vs)
      \<lparr>rs_tracker = tk, rs_ok = 0, rs_proofs = [], rs_cache = []\<rparr> = Inr rs"
    and tk': "tk' = rs_tracker rs\<lparr>tk_inner := prune_votes (get_last_height (tk_store tk)) (tk_inner (rs_tracker rs))\<rparr>"
    using assms by (auto simp: record_votes_def Let_def rbind_eq_Inr)
  have "fi_own (tk_inner (rs_tracker rs)) = fi_own (tk_inner tk)"
    using rfold_frame [where p = "\<lambda>rs. fi_own (tk_inner (rs_tracker rs))", OF record_vote_own rs] by simp
  then show ?thesis by (simp add: tk' prune_votes_def Let_def)
qed

lemma own_votes_cases:
  assumes res: "own_votes E n keys h j now tk = Inr (tk', out)"
  shows "out = [] \<and> fi_own (tk_inner tk') = fi_own (tk_inner tk)
    \<or> bt_get (fi_own (tk_inner tk)) h \<in> {None, Some j} \<and> fi_own (tk_inner tk') = bt_put h j (fi_own (tk_inner tk))
      \<and> (\<forall>v \<in> set out. fv_height v = h \<and> fv_block_id v = j)"
proof (cases "keys = []")
  case True
  with res show ?thesis by (simp add: own_votes_def)
next
  case keys: False
  obtain l where l: "active_set E n (tk_store tk) h = Inr l"
    using res keys by (auto simp: own_votes_def rbind_eq_Inr)
  show ?thesis
  proof (cases "case bt_get (fi_own (tk_inner tk)) h of None \<Rightarrow> False | Some i \<Rightarrow> i \<noteq> j")
    case True
    with res keys l show ?thesis by (simp add: own_votes_def)
  next
    case False
    define vs where "vs = List.map_filter (\<lambda>k. sign_vote E k h j) (filter (\<lambda>k. kp_public_key_hex k \<in> set l) keys)"
    have "out = vs \<and> tk_inner tk' = note_own h j now vs
        (fold (\<lambda>v. add_vote h j (fv_public_key v) (fv_signature v)) vs (tk_inner tk))"
      using res keys l False by (auto simp: own_votes_def Let_def vs_def try_certify_store(2))
    then have "out = vs" "fi_own (tk_inner tk') = (if vs \<noteq> [] then bt_put h j (fi_own (tk_inner tk)) else fi_own (tk_inner tk))"
      by (simp_all add: note_own_def)
    moreover have "\<forall>v \<in> set vs. fv_height v = h \<and> fv_block_id v = j"
      by (auto simp: vs_def map_filter_def sign_vote_def split: sum.splits)
    ultimately show ?thesis using False by (auto split: option.splits)
  qed
qed

lemma signing_run_own:
  "signing_run E n tk hist \<Longrightarrow> v \<in> set hist \<Longrightarrow> bt_get (fi_own (tk_inner tk)) (fv_height v) = Some (fv_block_id v)"
proof (induction arbitrary: v rule: signing_run.induct)
  case (own tk hist keys h j now tk' out)
  consider "out = []" "fi_own (tk_inner tk') = fi_own (tk_inner tk)"
    | "bt_get (fi_own (tk_inner tk)) h \<in> {None, Some j}" "fi_own (tk_inner tk') = bt_put h j (fi_own (tk_inner tk))"
      "\<forall>v \<in> set out. fv_height v = h \<and> fv_block_id v = j"
    using own_votes_cases [OF own(2)] by blast
  then show ?case
  proof cases
    case 1
    with own.IH own.prems show ?thesis by simp
  next
    case 2
    show ?thesis
    proof (cases "v \<in> set out")
      case False
      then have "bt_get (fi_own (tk_inner tk)) (fv_height v) = Some (fv_block_id v)" using own.IH own.prems by simp
      with 2 show ?thesis by (cases "fv_height v = h") simp_all
    qed (use 2 in simp)
  qed
next
  case (votes tk hist vs tk' k ps)
  then show ?case by (simp add: record_votes_own [OF votes(2)] bt_get_filter_key)
qed simp_all

text \<open>C21. A running node never signs two blocks at one height: however own votes, network votes and chain
  changes interleave, the votes it signed that are still inside the vote window name one block per
  height.\<close>

theorem never_signs_two_blocks:
  assumes "signing_run E n tk hist" and "v \<in> set hist" and "v' \<in> set hist" and "fv_height v = fv_height v'"
  shows "fv_block_id v = fv_block_id v'"
  using signing_run_own [OF assms(1,2)] signing_run_own [OF assms(1,3)] assms(4) by simp

section \<open>Concrete runs\<close>

text \<open>One delegate, so its vote alone is a quorum; and the blocks of height 2 that two nodes may hold.\<close>

definition solo_network :: network where
  "solo_network = ref_network\<lparr>nw_milestones := [milestone_default\<lparr>ms_active_delegates := 1,
     ms_finality := finality_params_default\<lparr>fp_slashing := True\<rparr>\<rparr>]\<rparr>"

definition solo_store :: "(u64, bytes) btmap \<Rightarrow> store" where
  "solo_store bs = store_empty\<lparr>st_blocks := bs, st_last_height := Some 2,
     st_rounds := [(2, [\<lparr>dr_public_key = ''k'', dr_votes = 0\<rparr>])]\<rparr>"

lemma solo_milestone: "milestone_at solo_network h = milestone_default\<lparr>ms_active_delegates := 1,
    ms_finality := finality_params_default\<lparr>fp_slashing := True\<rparr>\<rparr>"
  by (simp add: milestone_at_def solo_network_def)

lemma solo_fields [simp]:
  "ms_active_delegates (milestone_at solo_network h) = 1" "finality_quorum (milestone_at solo_network h) = 1"
  "fp_slashing (ms_finality (milestone_at solo_network h))" "default_quorum (milestone_at solo_network h)"
  by (simp_all add: solo_milestone finality_quorum_def default_quorum_def finality_params_default_def)

lemma solo_active:
  assumes "active_set ref_crypto solo_network ((solo_store bs)\<lparr>st_equivocation := q\<rparr>) h = Inr l"
  shows "set l \<subseteq> {''k''}"
proof -
  have "delegate_ranking ((solo_store bs)\<lparr>st_equivocation := q\<rparr>) = []"
    by (simp add: delegate_ranking_def solo_store_def store_empty_def map_filter_def)
  then show ?thesis
    using assms by (auto simp: active_set_def forging_order_or_live_def get_round_def solo_store_def
        round_info_def active_delegates_def active_delegates_excluding_def rbind_eq_Inr split: if_splits)
qed

lemma solo_bound: "members_bound (\<lambda>_. {''k''}) ref_crypto solo_network (solo_store bs)"
  using solo_active by (auto simp: members_bound_def)

lemma solo_active_2: "active_set ref_crypto solo_network (solo_store bs) 2 = Inr [''k'']"
proof -
  have "round_info 2 1 = Inr (round_of 2 1)" "ri_round (round_of 2 1) = 2" by code_simp+
  moreover have "shuffle ref_crypto 2 [x] = [x]" for x :: delegate_rank
    using shuffle_mset [of ref_crypto 2 "[x]"] by (simp add: mset_single_iff)
  ultimately show ?thesis
    by (simp add: active_set_def forging_order_or_live_def get_round_def solo_store_def)
qed

definition fork_header :: "u32 \<Rightarrow> block" where
  "fork_header ts = chain_header\<lparr>b_timestamp := ts\<rparr>"

definition fork_id :: "u32 \<Rightarrow> string" where
  "fork_id ts = hex_encode ref_crypto (sha256 ref_crypto (header_bytes ref_crypto (fork_header ts)))"

definition fork_block :: "u32 \<Rightarrow> block" where
  "fork_block ts = (fork_header ts)\<lparr>b_id := Some (fork_id ts)\<rparr>"

lemma fork_block_stored:
  "\<exists>enc db. decode_block ref_crypto enc solo_network = Inr db \<and> b_id db = Some (fork_id ts)"
proof -
  have eq: "header_bytes ref_crypto (fork_block ts) = header_bytes ref_crypto (fork_header ts)"
    by (simp add: header_bytes_def fork_block_def pq_part_def)
  have c: "canonical_header ref_crypto (fork_block ts)"
    using ref_header_canonical by (simp add: canonical_header_def fork_block_def fork_header_def chain_header_def ref_block_def)
  have l: "length (unhex ref_crypto ref_key) = 33" "length (unhex ref_crypto ref_hash) = 32"
    "length (unhex ref_crypto ref_der) = 5"
    using ref_fields(1) ref_block_fields(1) hex_fieldD(2) by (blast, blast, code_simp)
  have "length (header_bytes ref_crypto (fork_block ts)) < 2 ^ 32"
    by (simp add: header_bytes_def fork_block_def fork_header_def chain_header_def ref_block_def l opt_unhex_def pq_part_def)
  with c have can: "canonical_block ref_crypto solo_network (fork_block ts)"
    by (simp add: canonical_block_def fork_block_def fork_header_def chain_header_def)
  have "block_id ref_crypto (fork_block ts) = Inr (fork_id ts)"
    using serialize_canonical_header [OF c] by (simp add: block_id_def eq fork_id_def)
  then have i: "(if b_height (fork_block ts) = 1 then Inr (nw_genesis_block_id solo_network)
      else block_id ref_crypto (fork_block ts)) = Inr (fork_id ts)"
    by (simp add: fork_block_def fork_header_def chain_header_def ref_block_def)
  obtain enc where "decode_block ref_crypto enc solo_network = Inr ((fork_block ts)\<lparr>b_id := Some (fork_id ts),
      b_transactions := annotate ((fork_block ts)\<lparr>b_id := Some (fork_id ts)\<rparr>) 0
        (map (with_id ref_crypto solo_network) (b_transactions (fork_block ts)))\<rparr>)"
    using block_record_round_trip [OF can i] by blast
  then show ?thesis by (intro exI conjI, assumption) simp
qed

lemma fork_ids: "length (fork_id ts) = 64" "fork_id 80 \<noteq> fork_id 81"
proof -
  show "length (fork_id ts) = 64"
    by (simp add: fork_id_def ref_crypto_def ref_hex_length ref_digest_def)
  show "fork_id 80 \<noteq> fork_id 81" by code_simp
qed

text \<open>The signature of the reference scheme, and the certificate it gives.\<close>

definition solo_sig :: "u64 \<Rightarrow> string \<Rightarrow> string" where
  "solo_sig h j = hex_encode ref_crypto (vote_hash ref_crypto h j)"

lemma solo_vote: "length j = 64 \<Longrightarrow> verify_vote ref_crypto (vote_of h j pk (solo_sig h j))"
proof -
  assume "length j = 64"
  moreover have "length (vote_hash ref_crypto h j) = 32"
    by (simp add: vote_hash_def ref_crypto_def ref_digest_def)
  moreover have "hex_decode ref_crypto (solo_sig h j) = Some (vote_hash ref_crypto h j)"
    by (simp add: solo_sig_def ref_crypto_laws)
  ultimately show ?thesis by (simp add: verify_vote_def vote_of_def) (simp add: ref_crypto_def)
qed

definition solo_cert :: "u32 \<Rightarrow> finality_cert" where
  "solo_cert ts = \<lparr>fc_height = 2, fc_block_id = fork_id ts, fc_votes = [(''k'', solo_sig 2 (fork_id ts))]\<rparr>"

lemma solo_node:
  "\<exists>tk. node_run ref_crypto solo_network (\<lambda>_. {''k''}) tk \<and> finality_cert_at (tk_store tk) 2 = Some (solo_cert ts)"
proof -
  obtain enc db where b: "decode_block ref_crypto enc solo_network = Inr db" "b_id db = Some (fork_id ts)"
    using fork_block_stored by blast
  let ?s = "solo_store [(2, enc)]" and ?A = "\<lambda>_. {''k''}"
  have block: "get_block_by_height ref_crypto solo_network ?s 2 = Inr (Some db)"
    using b(1) by (simp add: get_block_by_height_def transpose_opt_def solo_store_def)
  have start: "node_run ref_crypto solo_network ?A (tracker_new ?s)"
    by (rule node_run.start) (simp add: solo_store_def store_empty_def)
  have "check_cert_votes ref_crypto [''k''] (solo_cert ts) (fc_votes (solo_cert ts)) = Inr ()"
    using solo_vote [OF fork_ids(1), of 2 ts "''k''"] by (simp add: solo_cert_def vote_of_def)
  moreover have "\<not> is_final ?s 2"
    by (simp add: is_final_def finalized_def latest_finality_cert_def solo_store_def store_empty_def)
  ultimately have "adopt_certificate ref_crypto solo_network (solo_cert ts) ?s
      = Inr (Inr (put_finality_cert (solo_cert ts) ?s, True))"
    using b(2) by (simp add: adopt_certificate_def solo_cert_def solo_active_2 block)
  then have "node_run ref_crypto solo_network ?A ((tracker_new ?s)\<lparr>tk_store := put_finality_cert (solo_cert ts) ?s\<rparr>)"
    by (intro node_run.certificate [OF start, of "solo_cert ts"])
       (simp_all add: tracker_new_def solo_bound solo_cert_def bt_wf_def)
  then show ?thesis
    by (intro exI conjI) (auto simp: finality_cert_at_def put_finality_cert_def solo_cert_def)
qed

theorem finality_agreement_witness:
  "\<exists>(tk :: tracker) (tk' :: tracker) D. finality_cert_at (tk_store tk) 2 = Some (solo_cert 80)
     \<and> finality_cert_at (tk_store tk') 2 = Some (solo_cert 81) \<and> D \<subseteq> {''k''} \<and> 1 < 3 * card D
     \<and> (\<forall>pk \<in> D. \<exists>sig sig'. verify_vote ref_crypto (vote_of 2 (fork_id 80) pk sig)
         \<and> verify_vote ref_crypto (vote_of 2 (fork_id 81) pk sig'))"
proof -
  obtain tk where tk: "node_run ref_crypto solo_network (\<lambda>_. {''k''}) tk"
    "finality_cert_at (tk_store tk) 2 = Some (solo_cert 80)" using solo_node by blast
  obtain tk' where tk': "node_run ref_crypto solo_network (\<lambda>_. {''k''}) tk'"
    "finality_cert_at (tk_store tk') 2 = Some (solo_cert 81)" using solo_node by blast
  have "fc_block_id (solo_cert 80) \<noteq> fc_block_id (solo_cert 81)" using fork_ids(2) by (simp add: solo_cert_def)
  from finality_agreement [OF tk(1) tk'(1) tk(2) tk'(2) this]
  obtain D where "D \<subseteq> {''k''}" "1 < 3 * card D"
    "\<forall>pk \<in> D. \<exists>sig sig'. verify_vote ref_crypto (vote_of 2 (fork_id 80) pk sig)
       \<and> verify_vote ref_crypto (vote_of 2 (fork_id 81) pk sig')"
    by (auto simp: solo_cert_def)
  with tk(2) tk'(2) show ?thesis
    by (intro exI [of _ tk] exI [of _ tk'] exI [of _ D] conjI) assumption+
qed

theorem quorum_of_votes_finalizes_witness:
  "\<exists>tk tk' ps. record_votes ref_crypto solo_network [vote_of 2 (fork_id 80) ''k'' (solo_sig 2 (fork_id 80))] tk
     = Inr (tk', 1, ps) \<and> \<not> is_final (tk_store tk) 2 \<and> is_final (tk_store tk') 2"
proof -
  obtain enc db where b: "decode_block ref_crypto enc solo_network = Inr db" "b_id db = Some (fork_id 80)"
    using fork_block_stored by blast
  let ?tk = "tracker_new (solo_store [(2, enc)])"
  let ?v = "vote_of 2 (fork_id 80) ''k'' (solo_sig 2 (fork_id 80))"
  have our: "our_id ref_crypto solo_network (tk_store ?tk) 2 = Some (fork_id 80)"
    using b by (simp add: our_id_def get_block_by_height_def transpose_opt_def solo_store_def tracker_new_def)
  have act: "active_set ref_crypto solo_network (tk_store ?tk) 2 = Inr [''k'']"
    by (simp add: tracker_new_def solo_active_2)
  have k: "keyed (st_finality (tk_store ?tk))"
    by (simp add: keyed_def tracker_new_def solo_store_def store_empty_def)
  have v: "fv_height ?v = 2 \<and> fv_block_id ?v = fork_id 80 \<and> fv_public_key ?v \<in> set [''k'']
      \<and> verify_vote ref_crypto ?v \<and> in_vote_range (get_last_height (tk_store ?tk)) ?v"
    using solo_vote [OF fork_ids(1), of 2 80 "''k''"]
    by (simp add: vote_of_def in_vote_range_def KEEP_BEHIND_def AHEAD_def get_last_height_def tracker_new_def solo_store_def)
  have "\<exists>tk' ps. record_votes ref_crypto solo_network [?v] ?tk = Inr (tk', length [?v], ps) \<and> is_final (tk_store tk') 2"
    using v by (intro quorum_of_votes_finalizes [OF act our k]) simp_all
  moreover have "\<not> is_final (tk_store ?tk) 2"
    by (simp add: is_final_def finalized_def latest_finality_cert_def tracker_new_def solo_store_def store_empty_def)
  ultimately show ?thesis by auto
qed

text \<open>The same id in lower and in upper case.\<close>

theorem single_vote_bans_delegate_witness:
  "\<exists>s'. adopt_proof ref_crypto solo_network \<lparr>ep_height = 2, ep_public_key = ''k'',
       ep_block_ids = (replicate 64 (CHR ''a''), replicate 64 (CHR ''A'')),
       ep_signatures = (solo_sig 2 (replicate 64 (CHR ''a'')), solo_sig 2 (replicate 64 (CHR ''a''))),
       ep_detected_height = 2, ep_banned_until_round = 33\<rparr> (solo_store []) = Inr (Inr (s', True))
     \<and> ''k'' \<in> set (banned_delegates solo_network s' 3 3)"
proof (rule single_vote_bans_delegate)
  show "verify_vote ref_crypto (vote_of 2 (replicate 64 (CHR ''a'')) ''k'' (solo_sig 2 (replicate 64 (CHR ''a''))))"
    by (rule solo_vote) simp
  show "hex_decode ref_crypto (replicate 64 (CHR ''A'')) = hex_decode ref_crypto (replicate 64 (CHR ''a''))"
    "hex_decode ref_crypto (replicate 64 (CHR ''a'')) \<noteq> None"
    by code_simp+
  show "ranked_set solo_network (solo_store []) 2 = Inr [''k'']" by code_simp
  show "ban_round solo_network (get_last_height (solo_store [])) = Inr 33" by code_simp
  show "equivocation (solo_store []) ''k'' = None"
    by (simp add: equivocation_def solo_store_def store_empty_def)
qed simp_all

text \<open>A node that restarts forgets what it signed.\<close>

definition solo_key :: key_pair where
  "solo_key = \<lparr>kp_public_key_hex = ''k'', kp_sign_schnorr = (\<lambda>h. Inr (hex_encode ref_crypto h))\<rparr>"

lemma solo_own_votes:
  "\<exists>tk. own_votes ref_crypto solo_network [solo_key, solo_key] 2 j now (tracker_new (solo_store []))
       = Inr (tk, replicate 2 (vote_of 2 j ''k'' (solo_sig 2 j))) \<and> tk_store tk = solo_store []"
proof -
  have "\<not> is_final (solo_store []) 2" "our_id ref_crypto solo_network (solo_store []) 2 = None"
    by (simp_all add: is_final_def finalized_def latest_finality_cert_def our_id_def get_block_by_height_def
        transpose_opt_def solo_store_def store_empty_def)
  then have c: "try_certify ref_crypto solo_network 2 j \<lparr>tk_store = solo_store [], tk_inner = i\<rparr>
      = \<lparr>tk_store = solo_store [], tk_inner = i\<rparr>" for i
    by (simp add: try_certify_def Let_def split: option.split)
  show ?thesis
    by (simp add: own_votes_def solo_active_2 tracker_new_def solo_key_def map_filter_def sign_vote_def c
        inner_default_def vote_of_def solo_sig_def numeral_2_eq_2 Let_def)
qed

theorem never_signs_two_blocks_witness:
  "\<exists>tk hist. signing_run ref_crypto solo_network tk hist \<and> length hist = 2
     \<and> fv_block_id (hist ! 0) = fv_block_id (hist ! 1)"
proof -
  let ?v = "vote_of 2 (fork_id 80) ''k'' (solo_sig 2 (fork_id 80))"
  obtain tk where "own_votes ref_crypto solo_network [solo_key, solo_key] 2 (fork_id 80) 0 (tracker_new (solo_store []))
      = Inr (tk, replicate 2 ?v)"
    using solo_own_votes by blast
  then have run: "signing_run ref_crypto solo_network tk (replicate 2 ?v)"
    using signing_run.own [OF signing_run.boot] by fastforce
  have "fv_block_id (replicate 2 ?v ! 0) = fv_block_id (replicate 2 ?v ! 1)"
    by (rule never_signs_two_blocks [OF run]) simp_all
  with run show ?thesis by (intro exI [of _ tk] exI [of _ "replicate 2 ?v"]) simp
qed

text \<open>The guard lives in memory only. A node that voted at a height, restarts and then sees another block
  there signs that one too, and the two votes form a valid equivocation proof against its own key.\<close>

theorem restart_signs_second_block:
  "\<exists>tk v tk' v'. own_votes ref_crypto solo_network [solo_key, solo_key] 2 (fork_id 80) 0 (tracker_new (solo_store []))
       = Inr (tk, replicate 2 v)
     \<and> own_votes ref_crypto solo_network [solo_key, solo_key] 2 (fork_id 81) 9 (tracker_new (tk_store tk))
       = Inr (tk', replicate 2 v')
     \<and> verify_proof ref_crypto solo_network (tk_store tk') \<lparr>ep_height = 2, ep_public_key = fv_public_key v,
          ep_block_ids = (fv_block_id v, fv_block_id v'), ep_signatures = (fv_signature v, fv_signature v'),
          ep_detected_height = 2, ep_banned_until_round = 33\<rparr> = Inr (Inr ())"
proof -
  obtain tk where tk: "own_votes ref_crypto solo_network [solo_key, solo_key] 2 (fork_id 80) 0 (tracker_new (solo_store []))
      = Inr (tk, replicate 2 (vote_of 2 (fork_id 80) ''k'' (solo_sig 2 (fork_id 80))))" "tk_store tk = solo_store []"
    using solo_own_votes by blast
  obtain tk' where tk': "own_votes ref_crypto solo_network [solo_key, solo_key] 2 (fork_id 81) 9 (tracker_new (solo_store []))
      = Inr (tk', replicate 2 (vote_of 2 (fork_id 81) ''k'' (solo_sig 2 (fork_id 81))))" "tk_store tk' = solo_store []"
    using solo_own_votes by blast
  have "ranked_set solo_network (solo_store []) 2 = Inr [''k'']" by code_simp
  then have "verify_proof ref_crypto solo_network (solo_store []) \<lparr>ep_height = 2, ep_public_key = ''k'',
      ep_block_ids = (fork_id 80, fork_id 81), ep_signatures = (solo_sig 2 (fork_id 80), solo_sig 2 (fork_id 81)),
      ep_detected_height = 2, ep_banned_until_round = 33\<rparr> = Inr (Inr ())"
    using solo_vote [OF fork_ids(1), of 2 80 "''k''"] solo_vote [OF fork_ids(1), of 2 81 "''k''"] fork_ids(2)
    by (simp add: verify_proof_def proof_vote_def vote_of_def)
  with tk tk' show ?thesis
    by (intro exI [of _ tk] exI [of _ "vote_of 2 (fork_id 80) ''k'' (solo_sig 2 (fork_id 80))"] exI [of _ tk']
        exI [of _ "vote_of 2 (fork_id 81) ''k'' (solo_sig 2 (fork_id 81))"]) (simp add: vote_of_def)
qed

end
