(* ===== verification/ChainStack.thy ===== *)
theory ChainStack
  imports Rollback
begin

text \<open>
  The store as a log of blocks: what \<open>apply_blocks\<close> and \<open>rollback_to\<close> of \<open>src/src/storage.rs\<close> promise to
  their callers. The abstract state is the list of the blocks of heights 1 to the tip; a batch appends,
  a rollback cuts the end off, and nothing else happens to it.
\<close>

section \<open>A log of records\<close>

datatype 'r log_op = Extend "'r list" | Truncate nat

fun log_step :: "'r log_op \<Rightarrow> 'r list \<Rightarrow> 'r list" where
  "log_step (Extend rs) xs = xs @ rs"
| "log_step (Truncate k) xs = take k xs"

inductive runs :: "('s \<Rightarrow> 'o \<Rightarrow> 's \<Rightarrow> bool) \<Rightarrow> 's \<Rightarrow> 'o list \<Rightarrow> 's \<Rightarrow> bool" for step where
  stop: "runs step s [] s"
| further: "step s op s1 \<Longrightarrow> runs step s1 ops s' \<Longrightarrow> runs step s (op # ops) s'"

text \<open>The contract: every step of the implementation is the step of the log that its label names.\<close>

locale record_log =
  fixes log :: "'s \<Rightarrow> 'r list" and step :: "'s \<Rightarrow> 'r log_op \<Rightarrow> 's \<Rightarrow> bool"
  assumes step_log: "step s op s' \<Longrightarrow> log s' = log_step op (log s)"
begin

lemma runs_log: "runs step s ops s' \<Longrightarrow> log s' = fold log_step ops (log s)"
  by (induction rule: runs.induct) (simp_all add: step_log)

lemma prefix_fold: "j \<le> length xs \<Longrightarrow> \<forall>k. Truncate k \<in> set ops \<longrightarrow> j \<le> k \<Longrightarrow> take j (fold log_step ops xs) = take j xs"
proof (induction ops arbitrary: xs)
  case (Cons op ops)
  have "j \<le> length (log_step op xs)" "take j (log_step op xs) = take j xs" using Cons.prems by (cases op; auto)+
  with Cons show ?case by simp
qed simp

lemma prefix_kept:
  "runs step s ops s' \<Longrightarrow> j \<le> length (log s) \<Longrightarrow> \<forall>k. Truncate k \<in> set ops \<longrightarrow> j \<le> k \<Longrightarrow> take j (log s') = take j (log s)"
  by (simp add: runs_log prefix_fold)

end

section \<open>The stored chain\<close>

definition stored :: "crypto \<Rightarrow> network \<Rightarrow> bytes \<Rightarrow> block option res" where
  "stored E n enc = transpose_opt (Some (decode_block E enc n))"

definition stored_block :: "crypto \<Rightarrow> network \<Rightarrow> block \<Rightarrow> block option res" where
  "stored_block E n b = rbind (prepare_block E n b) (\<lambda>be. stored E n (snd be))"

definition chain_at :: "crypto \<Rightarrow> network \<Rightarrow> (u64, bytes) btmap \<Rightarrow> u64 \<Rightarrow> block option res list" where
  "chain_at E n m tip = map (\<lambda>h. transpose_opt (map_option (\<lambda>v. decode_block E v n) (bt_get m (word_of_nat h)))) [1..<Suc (unat tip)]"

definition chain_of :: "crypto \<Rightarrow> network \<Rightarrow> store \<Rightarrow> block option res list" where
  "chain_of E n s = map (\<lambda>h. get_block_by_height E n s (word_of_nat h)) [1..<Suc (unat (get_last_height s))]"

lemma chain_of_at: "chain_of E n s = chain_at E n (st_blocks s) (get_last_height s)"
  by (simp add: chain_of_def chain_at_def get_block_by_height_def)

lemma length_chain_at [simp]: "length (chain_at E n m tip) = unat tip"
  by (simp add: chain_at_def)

lemma unat_word_of_nat_below: "h \<le> unat (t :: u64) \<Longrightarrow> unat (word_of_nat h :: u64) = h"
  using unsigned_less [where 'a = nat and w = t] by (simp add: unat_of_nat)

lemma chain_at_put:
  assumes "t + 1 \<noteq> 0"
  shows "chain_at E n (bt_put (t + 1) enc m) (t + 1) = chain_at E n m t @ [stored E n enc]"
proof -
  have u: "unat (t + 1) = Suc (unat t)" using unat_inc [OF assms] by simp
  have "(word_of_nat h :: u64) \<noteq> t + 1" if "h \<in> set [1..<Suc (unat t)]" for h
    using that unat_word_of_nat_below [of h t] u by auto
  moreover have "word_of_nat (Suc (unat t)) = t + 1" by (simp flip: u)
  ultimately show ?thesis unfolding chain_at_def u stored_def by (simp add: upt_Suc_append)
qed

lemma chain_at_del:
  assumes "0 < t"
  shows "chain_at E n (bt_del t m) (t - 1) = take (unat (t - 1)) (chain_at E n m t)"
proof -
  have u: "unat t = Suc (unat (t - 1))" using assms unat_minus_one [of t] by (auto simp: word_gt_0 unat_gt_0)
  have "(word_of_nat h :: u64) \<noteq> t" if "h \<in> set [1..<Suc (unat (t - 1))]" for h
    using that unat_word_of_nat_below [of h "t - 1"] u by auto
  then show ?thesis unfolding chain_at_def u by (simp add: upt_Suc_append take_map)
qed

section \<open>Appending a batch\<close>

text \<open>The blocks follow one another right above a height.\<close>

fun linked :: "u64 \<Rightarrow> block list \<Rightarrow> bool" where
  "linked h [] = True"
| "linked h (b # bs) \<longleftrightarrow> b_height b = h + 1 \<and> h + 1 \<noteq> 0 \<and> linked (h + 1) bs"

lemma linked_append: "linked h (bs @ cs) \<longleftrightarrow> linked h bs \<and> linked (h + word_of_nat (length bs)) cs"
  by (induction bs arbitrary: h) (simp_all add: add.assoc)

lemma linked_tip: "linked h bs \<Longrightarrow> unat (h + word_of_nat (length bs)) = unat h + length bs"
proof (induction bs arbitrary: h)
  case (Cons b bs)
  then have "unat (h + 1 + word_of_nat (length bs)) = unat (h + 1) + length bs" by simp
  with Cons.prems show ?case by (simp add: unat_inc add.assoc)
qed simp

lemma write_chain_part:
  "rfold write_step ds (s, undo, out) = Inr (s', undo', out') \<Longrightarrow> chain_part s' = chain_part s"
proof (induction ds arbitrary: s undo out)
  case (Cons ad ds)
  obtain a d where ad: "ad = (a, d)" by (cases ad)
  obtain s1 w u1 where s1: "write_wallet (a, d) s = Inr (s1, (a, get_wallet s a), w)"
    "rfold write_step ds (s1, u1, out @ [w]) = Inr (s', undo', out')"
    using Cons.prems unfolding ad by (auto simp: rbind_eq_Inr write_step_ok)
  with Cons.IH [OF s1(2)] write_wallet_ok(5) [OF s1(1)] show ?case by simp
qed auto

lemma write_blocks_chain:
  assumes "rfold (write_block E net) prepared s = Inr s'" and "linked (get_last_height s) (map fst prepared)"
  shows "chain_of E n s' = chain_of E n s @ map (\<lambda>be. stored E n (snd be)) prepared
     \<and> get_last_height s' = get_last_height s + word_of_nat (length prepared)"
  using assms
proof (induction prepared arbitrary: s)
  case (Cons be prepared)
  obtain b enc where be: "be = (b, enc)" by (cases be)
  obtain s1 where s1: "write_block E net (b, enc) s = Inr s1" "rfold (write_block E net) prepared s1 = Inr s'"
    using Cons.prems(1) by (auto simp: be rbind_eq_Inr)
  let ?t = "get_last_height s"
  have h: "b_height b = ?t + 1" "?t + 1 \<noteq> 0" "linked (?t + 1) (map fst prepared)" using Cons.prems(2) by (simp_all add: be)
  then have t1: "get_last_height s1 = ?t + 1"
    using write_block_frame(8) [OF s1(1)] by (simp add: max_def word_le_nat_alt unat_inc)
  have "chain_of E n s1 = chain_of E n s @ [stored E n enc]"
    using write_block_frame(6) [OF s1(1)] chain_at_put [OF h(2)] by (simp add: chain_of_at t1 h(1))
  with Cons.IH [OF s1(2)] h(3) t1 show ?case by (simp add: be add.assoc)
qed (simp add: chain_of_def)

lemma collect_prepared:
  "collect (map (prepare_block E n) bs) = Inr prepared \<Longrightarrow>
     map (stored_block E n) bs = map (\<lambda>be. stored E n (snd be)) prepared \<and> map (b_height \<circ> fst) prepared = map b_height bs"
proof (induction bs arbitrary: prepared)
  case (Cons b bs)
  then obtain be ps where be: "prepare_block E n b = Inr be" "collect (map (prepare_block E n) bs) = Inr ps" "prepared = be # ps"
    by (auto simp: rbind_eq_Inr)
  with Cons.IH prepare_block_height [of E n b "fst be" "snd be"] show ?case by (simp add: stored_block_def)
qed simp

lemma linked_heights: "map b_height bs = map b_height cs \<Longrightarrow> linked h bs = linked h cs"
proof (induction bs arbitrary: h cs)
  case (Cons b bs)
  then obtain c cs' where cs: "cs = c # cs'" "b_height b = b_height c" "map b_height bs = map b_height cs'" by auto
  from Cons.IH [OF cs(3)] cs(1,2) show ?case by simp
qed simp

text \<open>A batch under one lock: nothing, or all of it, whatever it reports.\<close>

lemma apply_locked_chain:
  assumes "apply_locked E n bs u s = (s', r)" and "linked (get_last_height s) bs"
  shows "s' = s \<and> \<not> is_ok r \<or> chain_of E n s' = chain_of E n s @ map (stored_block E n) bs
     \<and> get_last_height s' = get_last_height s + word_of_nat (length bs)"
proof (cases "rbind (collect (map (prepare_block E n) bs)) (\<lambda>prepared. rbind (rfold (accumulate_deltas E n (store_view E n s) (map fst prepared))
    (map fst prepared) []) (\<lambda>ds. rbind (commit_batch E n (u \<or> st_undo_enabled s) prepared ds s) (\<lambda>s. Inr (s, map fst prepared))))")
  case (Inl e)
  then show ?thesis using assms(1) by (auto simp: apply_locked_def Let_def)
next
  case (Inr sb)
  then obtain prepared ds sc where p: "collect (map (prepare_block E n) bs) = Inr prepared"
    and c: "commit_batch E n (u \<or> st_undo_enabled s) prepared ds s = Inr sc" and sb: "sb = (sc, map fst prepared)"
    by (auto simp: rbind_eq_Inr)
  let ?s1 = "sc\<lparr>st_generation := st_generation sc + 1\<rparr>"
  have "statistics ?s1 s'"
  proof (cases "snapshot_round_if_boundary n (b_height (last (map fst prepared))) ?s1")
    case (Inl e)
    then have "s' = ?s1" using assms(1) unfolding apply_locked_def Let_def Inr sb sum.case prod.case by simp
    then show ?thesis by (simp add: statistics_refl)
  next
    case (Inr s2)
    then obtain prev where "missed_batch E n prev (map fst prepared) s2 = (s', r)"
      using assms(1) unfolding apply_locked_def Let_def \<open>rbind _ _ = Inr sb\<close> sb sum.case prod.case by simp
    with statistics_trans [OF statistics_snapshot [OF Inr] statistics_batch] show ?thesis by (metis fst_conv)
  qed
  then have s': "st_blocks s' = st_blocks sc" "get_last_height s' = get_last_height sc"
    using statistics_fields(3,9) by (fastforce simp: get_last_height_def)+
  obtain sw undo out sd where sw: "write_wallets_undo ds s = Inr (sw, undo, out)"
    and sd: "rfold (write_block E (nw_pubkey_hash n)) prepared sw = Inr sd"
    and sc: "st_blocks sc = st_blocks sd" "get_last_height sc = get_last_height sd"
    using c by (cases prepared) (auto simp: commit_batch_def rbind_eq_Inr Let_def get_last_height_def)
  have "chain_part sw = chain_part s" using sw unfolding write_wallets_undo_step by (rule write_chain_part)
  then have w: "st_blocks sw = st_blocks s" "get_last_height sw = get_last_height s"
    by (simp_all add: chain_part_def get_last_height_def)
  have "linked (get_last_height sw) (map fst prepared)"
    using assms(2) linked_heights [of "map fst prepared" bs] collect_prepared [OF p] by (simp add: w)
  moreover have "length prepared = length bs" using collect_prepared [OF p] by (metis length_map)
  ultimately show ?thesis
    using write_blocks_chain [OF sd, of n] collect_prepared [OF p] by (auto simp: chain_of_at s' sc w)
qed

lemma apply_each_chain:
  assumes "apply_each E n u bss s = (s', r)" and "linked (get_last_height s) (concat bss)"
  shows "\<exists>k \<le> length (concat bss). chain_of E n s' = chain_of E n s @ map (stored_block E n) (take k (concat bss))
     \<and> get_last_height s' = get_last_height s + word_of_nat k \<and> (is_ok r \<longrightarrow> k = length (concat bss))"
  using assms
proof (induction bss arbitrary: s)
  case (Cons bs bss)
  obtain s1 r1 where s1: "apply_locked E n bs u s = (s1, r1)" by (cases "apply_locked E n bs u s")
  have l: "linked (get_last_height s) bs" "linked (get_last_height s + word_of_nat (length bs)) (concat bss)"
    using Cons.prems(2) by (simp_all add: linked_append)
  consider "s1 = s" "\<not> is_ok r1" | "chain_of E n s1 = chain_of E n s @ map (stored_block E n) bs"
      "get_last_height s1 = get_last_height s + word_of_nat (length bs)"
    using apply_locked_chain [OF s1 l(1)] by blast
  then show ?case
  proof cases
    case 1
    then show ?thesis using Cons.prems(1) s1 by (intro exI [of _ 0]) (auto split: sum.splits)
  next
    case 2
    show ?thesis
    proof (cases r1)
      case (Inl e)
      then show ?thesis using Cons.prems(1) s1 2 by (intro exI [of _ "length bs"]) auto
    next
      case (Inr x)
      then have "apply_each E n u bss s1 = (s', r)" using Cons.prems(1) s1 by simp
      from Cons.IH [OF this] l(2) 2 obtain k where "k \<le> length (concat bss)"
        "chain_of E n s' = chain_of E n s @ map (stored_block E n) bs @ map (stored_block E n) (take k (concat bss))"
        "get_last_height s' = get_last_height s + word_of_nat (length bs + k)" "is_ok r \<longrightarrow> k = length (concat bss)"
        by (auto simp: add.assoc)
      then show ?thesis by (intro exI [of _ "length bs + k"]) auto
    qed
  qed
qed (auto simp: chain_of_def)

lemma concat_chunks: "bs \<noteq> [] \<Longrightarrow> concat (round_chunks n acc bs) = acc @ bs"
proof (induction bs arbitrary: acc)
  case (Cons b bs)
  then show ?case by (cases "bs = []") (auto simp: Let_def)
qed simp

lemma apply_blocks_chain:
  assumes "apply_blocks E n bs s = (s', r)" and "linked (get_last_height s) bs"
  shows "\<exists>k \<le> length bs. chain_of E n s' = chain_of E n s @ map (stored_block E n) (take k bs)
     \<and> get_last_height s' = get_last_height s + word_of_nat k \<and> (is_ok r \<longrightarrow> k = length bs)"
proof -
  have "\<exists>u bss. concat bss = bs \<and> apply_each E n u bss s = (s', r)"
  proof (cases "bs = [] \<or> length bs = 1")
    case True
    then have "apply_each E n True (if bs = [] then [] else [bs]) s = (s', r)"
      using assms(1) by (auto simp: apply_blocks_def split: prod.splits sum.splits)
    then show ?thesis by (metis append_Nil2 concat.simps)
  next
    case False
    then show ?thesis
    proof -
      have "concat (map (\<lambda>b. [b]) bs) = bs" "1 < length bs" using False by (cases bs; auto)+
      then show ?thesis
        using assms(1) concat_chunks [of bs n "[]"] False
        by (cases "st_undo_enabled s") (fastforce simp: apply_blocks_def simp del: concat_map_singleton)+
    qed
  qed
  then show ?thesis using apply_each_chain assms(2) by metis
qed

section \<open>Cutting the end off\<close>

lemma rollback_last_chain:
  assumes "rollback_last_block E n s = (s', r)"
  shows "chain_of E n s' = take (unat (get_last_height s')) (chain_of E n s) \<and> unat (get_last_height s') \<le> unat (get_last_height s)"
proof (cases r)
  case (Inl e)
  then show ?thesis using rollback_outcome(1,5) [OF assms] by (simp add: chain_of_at)
next
  case (Inr t)
  then have "1 < get_last_height s" "get_last_height s' = get_last_height s - 1" "st_blocks s' = bt_del (get_last_height s) (st_blocks s)"
    using rollback_outcome(1,5) [OF assms] by simp_all
  then show ?thesis using chain_at_del [of "get_last_height s"] by (simp add: chain_of_at dec_bounds word_less_nat_alt)
qed

lemma rollback_loop_chain:
  assumes "rollback_loop k E n height tip s = (s', r)"
  shows "chain_of E n s' = take (unat (get_last_height s')) (chain_of E n s) \<and> unat (get_last_height s') \<le> unat (get_last_height s)"
  using assms
proof (induction k arbitrary: tip s)
  case (Suc k)
  obtain s1 r1 where s1: "rollback_last_block E n s = (s1, r1)" by (cases "rollback_last_block E n s")
  note one = rollback_last_chain [OF s1]
  show ?case
  proof (cases "tip > height \<and> is_ok r1")
    case True
    then obtain t where "rollback_loop k E n height t s1 = (s', r)" using Suc.prems s1 by (cases r1) auto
    from Suc.IH [OF this] one show ?thesis by (auto simp: min_def)
  next
    case False
    then have "s' = s \<or> s' = s1" using Suc.prems s1 by (cases r1) (auto split: if_splits)
    then show ?thesis using one by (auto simp: chain_of_at)
  qed
qed (simp add: chain_of_at)

section \<open>The refinement\<close>

text \<open>The calls that move the tip, each with the step of the log it stands for. A batch that fails half
  way keeps the blocks it committed, and a failed rollback the ones it already removed.\<close>

inductive store_step :: "crypto \<Rightarrow> network \<Rightarrow> store \<Rightarrow> block option res log_op \<Rightarrow> store \<Rightarrow> bool" for E n where
  applied: "apply_blocks E n bs s = (s', Inr ()) \<Longrightarrow> linked (get_last_height s) bs \<Longrightarrow>
     store_step E n s (Extend (map (stored_block E n) bs)) s'"
| stopped: "apply_blocks E n bs s = (s', Inl e) \<Longrightarrow> linked (get_last_height s) bs \<Longrightarrow>
     store_step E n s (Extend (map (stored_block E n) (take (unat (get_last_height s') - unat (get_last_height s)) bs))) s'"
| rolled: "rollback_to E n height s = (s', r) \<Longrightarrow> store_step E n s (Truncate (unat (get_last_height s'))) s'"

lemma store_step_log:
  assumes "store_step E n s op s'"
  shows "chain_of E n s' = log_step op (chain_of E n s)"
  using assms
proof cases
  case (applied bs)
  then show ?thesis using apply_blocks_chain [OF applied(2,3)] by auto
next
  case (stopped bs e)
  then obtain k where k: "k \<le> length bs" "chain_of E n s' = chain_of E n s @ map (stored_block E n) (take k bs)"
    "get_last_height s' = get_last_height s + word_of_nat k"
    using apply_blocks_chain by meson
  have "linked (get_last_height s) (take k bs)" using stopped(3) linked_append [of _ "take k bs" "drop k bs"] by simp
  then have "unat (get_last_height s') = unat (get_last_height s) + k" using linked_tip k(1,3) by fastforce
  with k(2) stopped(1) show ?thesis by simp
next
  case (rolled height r)
  then show ?thesis using rollback_loop_chain by (fastforce simp: rollback_to_def)
qed

interpretation block_log: record_log "chain_of E n" "store_step E n" for E n
  by unfold_locales (rule store_step_log)

text \<open>C5. The store refines a log of blocks: over any sequence of batches and rollbacks, failed ones
  included, the blocks readable at heights 1 to the tip are the result of the same appends and cuts on
  the list of blocks, and the blocks up to a height that no rollback went below stay the same.\<close>

theorem store_refines_block_log:
  assumes "runs (store_step E n) s ops s'"
  shows "chain_of E n s' = fold log_step ops (chain_of E n s)
     \<and> (\<forall>j \<le> length (chain_of E n s). (\<forall>k. Truncate k \<in> set ops \<longrightarrow> j \<le> k) \<longrightarrow>
          take j (chain_of E n s') = take j (chain_of E n s))"
  using block_log.runs_log [OF assms] block_log.prefix_kept [OF assms] by blast

theorem store_refines_block_log_witness:
  "\<exists>s1 s2 r. runs (store_step ref_crypto ref_network) tip_store
       [Extend [stored_block ref_crypto ref_network chain_block], Truncate (unat (get_last_height s2))] s2
     \<and> apply_block ref_crypto ref_network chain_block tip_store = (s1, Inr ())
     \<and> rollback_to ref_crypto ref_network 1 s1 = (s2, r)
     \<and> take 1 (chain_of ref_crypto ref_network s1) = chain_of ref_crypto ref_network tip_store"
proof -
  obtain s1 where s1: "apply_block ref_crypto ref_network chain_block tip_store = (s1, Inr ())" using chain_block_applies by blast
  obtain s2 r where s2: "rollback_to ref_crypto ref_network 1 s1 = (s2, r)" by fastforce
  have tip: "get_last_height tip_store = 1" by (simp add: tip_store_def get_last_height_def)
  have one: "store_step ref_crypto ref_network tip_store (Extend (map (stored_block ref_crypto ref_network) [chain_block])) s1"
    using s1 by (intro store_step.applied) (simp_all add: apply_block_def tip)
  have "runs (store_step ref_crypto ref_network) tip_store
      [Extend [stored_block ref_crypto ref_network chain_block], Truncate (unat (get_last_height s2))] s2"
    using one store_step.rolled [OF s2] by (auto intro!: runs.intros)
  moreover have "take 1 (chain_of ref_crypto ref_network s1) = chain_of ref_crypto ref_network tip_store"
    using store_refines_block_log [OF runs.further [where step = "store_step ref_crypto ref_network", OF one runs.stop]] by (auto simp: chain_of_def tip)
  ultimately show ?thesis using s1 s2 by blast
qed

end
