(* ===== verification/StatefulRules.thy ===== *)
theory StatefulRules
  imports ChainProps
begin

text \<open>
  The intake of a batch of blocks, \<open>src/src/sync.rs\<close>: the link check on top of the tip, the
  cryptographic verification, and the sequential rules \<open>check_stateful_rules\<close>, which replay the batch
  over an overlay of pending keys, balances, smart objects, tokens and orders. Every map of the
  overlay is a \<open>HashMap\<close> in the source; where the source scans one (\<open>find_map\<close> over the pending smart
  objects) the scan runs in key order here.
\<close>

section \<open>The overlay\<close>

record batch_state =
  bs_keys :: "(string, string option) btmap"
  bs_pq_keys :: "(string, pq_key option) btmap"
  bs_sobjects :: "(string, (string, smart_object) btmap) btmap"
  bs_names :: "string list"
  bs_transferred :: "(string, string) btmap"
  bs_sth_delta :: "(string, int) btmap"
  bs_pending_locks :: "(string, string \<times> string \<times> u64) btmap"
  bs_states :: "(string, token_state) btmap"
  bs_balances :: "(string \<times> string, u64) btmap"
  bs_orders :: "(string, token_order) btmap"

definition batch_new :: batch_state where
  "batch_new = \<lparr>bs_keys = [], bs_pq_keys = [], bs_sobjects = [], bs_names = [], bs_transferred = [],
     bs_sth_delta = [], bs_pending_locks = [], bs_states = [], bs_balances = [], bs_orders = []\<rparr>"

text \<open>\<open>*sth_delta.entry(a).or_default() += c\<close>.\<close>

definition add_delta :: "string \<Rightarrow> int \<Rightarrow> batch_state \<Rightarrow> batch_state" where
  "add_delta a c bs = bs\<lparr>bs_sth_delta := bt_entry a 0 (\<lambda>v. v + c) (bs_sth_delta bs)\<rparr>"

definition delta_at :: "batch_state \<Rightarrow> string \<Rightarrow> int" where
  "delta_at bs a = unwrap_or 0 (bt_get (bs_sth_delta bs) a)"

section \<open>The token view of the batch\<close>

definition stored_token :: "store \<Rightarrow> string \<Rightarrow> string \<Rightarrow> u64" where
  "stored_token s a i =
     (case get_wallet s a of None \<Rightarrow> 0 | Some w \<Rightarrow> unwrap_or 0 (bt_get (w_tokens w) i))"

text \<open>The pending registration of an id, with its owner.\<close>

definition pending_sobject :: "batch_state \<Rightarrow> string \<Rightarrow> (string \<times> smart_object) option" where
  "pending_sobject bs reg =
     (case filter (\<lambda>(ow, recs). bt_get recs reg \<noteq> None) (bs_sobjects bs) of
        [] \<Rightarrow> None
      | (ow, recs) # _ \<Rightarrow> map_option (Pair ow) (bt_get recs reg))"

definition ticker_of :: "string \<times> smart_object \<Rightarrow> (string \<times> string \<times> bool) option" where
  "ticker_of orec =
     (if sm_type (snd orec) = TICKER_SOBJ_TYPE
      then Some (fst orec, unwrap_or [] (sd_name (sm_data (snd orec))), sm_resigned (snd orec)) else None)"

text \<open>The ids of the open orders of a seller for a token: the stored ones, changed by the batch.\<close>

definition open_order_ids :: "store \<Rightarrow> batch_state \<Rightarrow> string \<Rightarrow> string \<Rightarrow> string list" where
  "open_order_ids s bs seller token_id =
     fold (\<lambda>(_, o1) ids.
         if od_seller o1 = seller \<and> od_token_id o1 = token_id
         then (if order_is_open o1 then List.insert (od_id o1) ids else filter (\<lambda>i. i \<noteq> od_id o1) ids)
         else ids)
       (bs_orders bs)
       (remdups (map od_id (filter (\<lambda>o1. od_token_id o1 = token_id) (wallet_orders s seller))))"

definition batch_view :: "crypto \<Rightarrow> network \<Rightarrow> store \<Rightarrow> batch_state \<Rightarrow> token_view" where
  "batch_view E n s bs =
     \<lparr>tv_token_owner = (\<lambda>i. case bt_get (bs_states bs) i of Some st \<Rightarrow> Some (ts_owner st) | None \<Rightarrow> token_owner_of s i),
      tv_token_state = (\<lambda>i. case bt_get (bs_states bs) i of Some st \<Rightarrow> Some st | None \<Rightarrow> token_state_of s i),
      tv_token_balance = (\<lambda>a i. case bt_get (bs_balances bs) (a, i) of Some v \<Rightarrow> v | None \<Rightarrow> stored_token s a i),
      tv_ticker_sobj = (\<lambda>i. case pending_sobject bs i of
          Some orec \<Rightarrow> ticker_of orec
        | None \<Rightarrow> (case ok_flatten (get_sobject E n s i) of None \<Rightarrow> None | Some orec \<Rightarrow> ticker_of orec)),
      tv_order = (\<lambda>i. case bt_get (bs_orders bs) i of Some o1 \<Rightarrow> Some o1 | None \<Rightarrow> token_order_of s i),
      tv_open_orders = (\<lambda>seller t. length (open_order_ids s bs seller t))\<rparr>"

text \<open>\<open>bump\<close>: \<open>(*e as i128 + delta).max(0) as u64\<close>. \<open>state_mut\<close> loads a stored state before it changes it.\<close>

definition bump :: "store \<Rightarrow> string \<Rightarrow> string \<Rightarrow> int \<Rightarrow> batch_state \<Rightarrow> batch_state" where
  "bump s i a delta bs =
     bs\<lparr>bs_balances := bt_entry (a, i) (stored_token s a i)
          (\<lambda>v. word_of_int (max (uint v + delta) 0)) (bs_balances bs)\<rparr>"

definition state_mut :: "store \<Rightarrow> string \<Rightarrow> (token_state \<Rightarrow> token_state) \<Rightarrow> batch_state \<Rightarrow> batch_state" where
  "state_mut s i f bs =
     (case (case bt_get (bs_states bs) i of Some st \<Rightarrow> Some st | None \<Rightarrow> token_state_of s i) of
        None \<Rightarrow> bs
      | Some st \<Rightarrow> bs\<lparr>bs_states := bt_put i (f st) (bs_states bs)\<rparr>)"

definition set_owner :: "store \<Rightarrow> string \<Rightarrow> string \<Rightarrow> batch_state \<Rightarrow> batch_state" where
  "set_owner s i owner bs = state_mut s i (\<lambda>st. st\<lparr>ts_owner := owner\<rparr>) bs"

text \<open>\<open>BatchTokenView::apply\<close>.\<close>

definition batch_market ::
  "crypto \<Rightarrow> network \<Rightarrow> store \<Rightarrow> u16 \<Rightarrow> token_asset \<Rightarrow> string \<Rightarrow> u64 \<Rightarrow> batch_state \<Rightarrow> batch_state" where
  "batch_market E n s ty a sender height bs =
     (case (case ta_order_id a of None \<Rightarrow> None | Some oid \<Rightarrow> tv_order (batch_view E n s bs) oid) of
        None \<Rightarrow> bs
      | Some o1 \<Rightarrow>
          (let oid = unwrap_or [] (ta_order_id a) in
           if ty = TOKEN_BUY then
             (let amount = unwrap_or 0 (ta_amount a);
                  filled = od_filled o1 + amount;
                  o2 = o1\<lparr>od_filled := filled,
                     od_closed := (if filled \<ge> od_amount o1 then Some height else od_closed o1)\<rparr>;
                  bs = bump s (ta_id a) sender (uint amount) bs
              in bs\<lparr>bs_orders := bt_put oid o2 (bs_orders bs)\<rparr>)
           else
             (let bs = bump s (ta_id a) (od_seller o1) (uint (order_remaining o1)) bs
              in bs\<lparr>bs_orders := bt_put oid (o1\<lparr>od_closed := Some height\<rparr>) (bs_orders bs)\<rparr>)))"

definition batch_token_apply ::
  "crypto \<Rightarrow> network \<Rightarrow> store \<Rightarrow> u16 \<Rightarrow> token_asset \<Rightarrow> string \<Rightarrow> u64 \<Rightarrow> string \<Rightarrow> batch_state \<Rightarrow> batch_state" where
  "batch_token_apply E n s ty a sender height txid bs =
     (let i = ta_id a; amount = unwrap_or 0 (ta_amount a) in
      if ty = TOKEN_INIT then
        (let init = unwrap_or 0 (ta_initial_supply a);
             bs = bump s i sender (uint init) bs;
             symbol = (case tv_ticker_sobj (batch_view E n s bs) i of None \<Rightarrow> [] | Some (_, nm, _) \<Rightarrow> nm)
         in bs\<lparr>bs_states := bt_put i \<lparr>ts_symbol = symbol, ts_decimals = unwrap_or 0 (ta_decimals a),
              ts_flags = unwrap_or 0 (ta_flags a), ts_supply = init, ts_supply_cap = unwrap_or 0 (ta_supply_cap a),
              ts_owner = sender, ts_init_height = height, ts_meta = None\<rparr> (bs_states bs)\<rparr>)
      else if ty = TOKEN_TRANSFER then
        fold (\<lambda>it bs. bump s i (ti_recipient it) (uint (ti_amount it)) (bump s i sender (- uint (ti_amount it)) bs))
          (unwrap_or [] (ta_transfers a)) bs
      else if ty = TOKEN_MINT then
        state_mut s i (\<lambda>st. st\<lparr>ts_supply := saturating_add (ts_supply st) amount\<rparr>)
          (bump s i (unwrap_or [] (ta_recipient a)) (uint amount) bs)
      else if ty = TOKEN_META then state_mut s i (\<lambda>st. st\<lparr>ts_meta := ta_meta a\<rparr>) bs
      else if ty = TOKEN_SELL then
        (let bs = bump s i sender (- uint amount) bs
         in bs\<lparr>bs_orders := bt_put txid \<lparr>od_id = txid, od_token_id = i, od_seller = sender, od_amount = amount,
              od_filled = 0, od_price = unwrap_or 0 (ta_price a), od_height = height, od_closed = None,
              od_fills = []\<rparr> (bs_orders bs)\<rparr>)
      else if ty = TOKEN_BUY \<or> ty = TOKEN_CANCEL then batch_market E n s ty a sender height bs
      else
        state_mut s i (\<lambda>st. st\<lparr>ts_supply := saturating_sub (ts_supply st) amount\<rparr>)
          (bump s i sender (- uint amount) bs))"

section \<open>The rules of one transaction\<close>

text \<open>The sender's wallet as of this point of the batch.\<close>

definition clamp_i64 :: "int \<Rightarrow> int" where
  "clamp_i64 v = max i64_min (min i64_max v)"

definition batch_wallet :: "store \<Rightarrow> batch_state \<Rightarrow> string \<Rightarrow> wallet_state option" where
  "batch_wallet s bs sender =
     (let d = delta_at bs sender in
      if d = 0 then get_wallet s sender
      else (let w = unwrap_or (wallet_new sender) (get_wallet s sender)
            in Some (w\<lparr>w_balance := clamp_i64 (w_balance w + d)\<rparr>)))"

definition payments_total :: "transaction \<Rightarrow> int" where
  "payments_total tx = (\<Sum>p\<leftarrow>unwrap_or [] (asset_field as_payments tx). uint (pay_amount p))"

definition batch_spent :: "transaction \<Rightarrow> token_view \<Rightarrow> int" where
  "batch_spent tx view =
     uint (tx_amount tx) + uint (tx_fee tx) + payments_total tx + uint (token_buy_total tx view)"

definition wallet_balance :: "wallet_state option \<Rightarrow> int" where
  "wallet_balance w = (case w of None \<Rightarrow> 0 | Some w \<Rightarrow> w_balance w)"

text \<open>The lock a claim or refund names: one of the batch (which is then used up), else an open one of the
  store.\<close>

definition take_lock ::
  "crypto \<Rightarrow> network \<Rightarrow> store \<Rightarrow> string option \<Rightarrow> batch_state \<Rightarrow> (string \<times> string \<times> u64) option \<times> batch_state" where
  "take_lock E n s lock_id bs =
     (case lock_id of None \<Rightarrow> (None, bs)
      | Some i \<Rightarrow>
          (case bt_get (bs_pending_locks bs) i of
             Some l \<Rightarrow> (Some l, bs\<lparr>bs_pending_locks := bt_del i (bs_pending_locks bs)\<rparr>)
           | None \<Rightarrow>
               (case get_lock s i of None \<Rightarrow> (None, bs)
                | Some l \<Rightarrow>
                    (case address_from_public_key E (lk_sender_public_key l) (nw_pubkey_hash n) of
                       Inl _ \<Rightarrow> (None, bs)
                     | Inr from \<Rightarrow> (Some (from, lk_recipient l, lk_amount l), bs)))))"

definition core_credit :: "crypto \<Rightarrow> network \<Rightarrow> store \<Rightarrow> transaction \<Rightarrow> string \<Rightarrow> batch_state \<Rightarrow> batch_state" where
  "core_credit E n s tx sender bs =
     (if tx_type_group tx \<noteq> TYPE_GROUP_CORE then bs
      else if tx_type tx = TRANSFER then
        (case tx_recipient tx of None \<Rightarrow> bs | Some r \<Rightarrow> add_delta r (uint (tx_amount tx)) bs)
      else if tx_type tx = MULTI_PAYMENT then
        fold (\<lambda>p. add_delta (pay_recipient p) (uint (pay_amount p))) (unwrap_or [] (asset_field as_payments tx)) bs
      else if tx_type tx = HTLC_LOCK then
        (case (tx_id tx, tx_recipient tx) of
           (Some i, Some r) \<Rightarrow> bs\<lparr>bs_pending_locks := bt_put i (sender, r, tx_amount tx) (bs_pending_locks bs)\<rparr>
         | _ \<Rightarrow> bs)
      else if tx_type tx = HTLC_CLAIM \<or> tx_type tx = HTLC_REFUND then
        (case take_lock E n s (or_else (map_option hc_lock_transaction_id (asset_field as_claim tx))
                (asset_field as_refund tx)) bs of
           (None, bs) \<Rightarrow> bs
         | (Some (from, to, amount), bs) \<Rightarrow>
             add_delta (if tx_type tx = HTLC_CLAIM then to else from) (uint amount) bs)
      else bs)"

definition blk_err :: "string \<Rightarrow> error" where "blk_err e = BlockValidation e"

definition rule_err :: "'a rule \<Rightarrow> 'a res" where
  "rule_err r = (case r of Inl e \<Rightarrow> Inl (blk_err e) | Inr x \<Rightarrow> Inr x)"

text \<open>The balance rule. Off the \<open>strictBalance\<close> milestone a failure is only logged.\<close>

definition balance_rule ::
  "crypto \<Rightarrow> network \<Rightarrow> store \<Rightarrow> u64 \<Rightarrow> transaction \<Rightarrow> string \<Rightarrow> wallet_state option \<Rightarrow> batch_state \<Rightarrow> batch_state res" where
  "balance_rule E n s height tx sender wallet bs =
     (let spent = batch_spent tx (batch_view E n s bs) in
      if height > 1 \<and> wallet_balance wallet < spent \<and> ms_strict_balance (milestone_at n height)
      then Inl (blk_err ''InsufficientBalanceError'')
      else Inr (core_credit E n s tx sender (add_delta sender (- spent) bs)))"

text \<open>Second signatures and post-quantum keys, with the keys registered earlier in the batch.\<close>

definition load_keys :: "string \<Rightarrow> wallet_state option \<Rightarrow> batch_state \<Rightarrow> batch_state" where
  "load_keys sender wallet bs =
     (if bt_get (bs_keys bs) sender \<noteq> None then bs
      else bs\<lparr>bs_keys := bt_put sender (Option.bind wallet w_second_public_key) (bs_keys bs),
              bs_pq_keys := bt_put sender (Option.bind wallet w_pq_key) (bs_pq_keys bs)\<rparr>)"

definition key_of :: "batch_state \<Rightarrow> string \<Rightarrow> string option" where
  "key_of bs sender = Option.bind (bt_get (bs_keys bs) sender) (\<lambda>k. k)"

definition pq_key_of :: "batch_state \<Rightarrow> string \<Rightarrow> pq_key option" where
  "pq_key_of bs sender = Option.bind (bt_get (bs_pq_keys bs) sender) (\<lambda>k. k)"

definition signature_rules ::
  "crypto \<Rightarrow> network \<Rightarrow> u64 \<Rightarrow> transaction \<Rightarrow> string \<Rightarrow> wallet_state option \<Rightarrow> batch_state \<Rightarrow> batch_state res" where
  "signature_rules E n height tx sender wallet bs =
     (let bs = load_keys sender wallet bs;
          view = \<lparr>pv_second_public_key = key_of bs sender, pv_pq_key = pq_key_of bs sender,
                  pv_commitment = Option.bind wallet w_pq_commitment\<rparr>
      in rbind (rule_err (check_pq E tx (milestone_at n height) height (pq_activation_height n) view)) (\<lambda>new.
         let bs = (case new of None \<Rightarrow> bs
               | Some k \<Rightarrow> bs\<lparr>bs_pq_keys := bt_put sender (Some k) (bs_pq_keys bs),
                              bs_keys := bt_put sender None (bs_keys bs)\<rparr>) in
         rbind (rule_err (check_second_signature E tx (key_of bs sender))) (\<lambda>_.
         rbind (rule_err (registered_second_key E tx)) (\<lambda>pk.
         Inr (case pk of None \<Rightarrow> bs | Some k \<Rightarrow> bs\<lparr>bs_keys := bt_put sender (Some k) (bs_keys bs)\<rparr>)))))"

definition token_rules ::
  "crypto \<Rightarrow> network \<Rightarrow> store \<Rightarrow> u64 \<Rightarrow> transaction \<Rightarrow> string \<Rightarrow> wallet_state option \<Rightarrow> batch_state \<Rightarrow> batch_state res" where
  "token_rules E n s height tx sender wallet bs =
     (if \<not> ms_tokens (milestone_at n height) then Inl (blk_err ''Token transaction before tokens activation'')
      else
        rbind (rule_err (check_token_format E tx (milestone_at n height))) (\<lambda>a.
        let view = batch_view E n s bs in
        rbind (rule_err (check_token tx a sender view)) (\<lambda>_.
        rbind (if tx_type tx = TOKEN_BUY then
                 (let total = uint (token_buy_total tx view) in
                  if wallet_balance wallet < total + uint (tx_fee tx)
                  then Inl (blk_err ''TokenBuyInsufficientBalanceError'')
                  else
                    (let seller = (case tv_order view (unwrap_or [] (ta_order_id a)) of None \<Rightarrow> [] | Some o1 \<Rightarrow> od_seller o1)
                     in Inr (add_delta seller total (add_delta sender (- total) bs))))
               else Inr bs) (\<lambda>bs.
        Inr (batch_token_apply E n s (tx_type tx) a sender height (unwrap_or [] (tx_id tx)) bs)))))"

text \<open>Smart objects: the hand-over of a transfer or purchase, and the other actions.\<close>

definition sobj_lookup :: "crypto \<Rightarrow> network \<Rightarrow> store \<Rightarrow> batch_state \<Rightarrow> string \<Rightarrow> (string \<times> smart_object) option" where
  "sobj_lookup E n s bs reg =
     (case pending_sobject bs reg of Some orec \<Rightarrow> Some orec | None \<Rightarrow> ok_flatten (get_sobject E n s reg))"

definition not_registered :: error where "not_registered = blk_err ''SmartObjectNotRegisteredError''"

definition stored_sobject :: "store \<Rightarrow> string \<Rightarrow> string \<Rightarrow> smart_object option" where
  "stored_sobject s a reg = (case get_wallet s a of None \<Rightarrow> None | Some w \<Rightarrow> bt_get (w_sobjects w) reg)"

definition sobj_hand_over ::
  "crypto \<Rightarrow> network \<Rightarrow> store \<Rightarrow> smart_object_asset \<Rightarrow> string \<Rightarrow> batch_state \<Rightarrow> batch_state res" where
  "sobj_hand_over E n s e sender bs =
     (let reg = unwrap_or [] (so_registration_id e) in
      rbind (if so_action e = ACTION_BUY then
               rbind (ok_or not_registered (sobj_lookup E n s bs reg)) (\<lambda>(owner, rec).
               let price = uint (unwrap_or 0 (sm_price rec)) in
               Inr (owner, sender, add_delta owner price (add_delta sender (- price) bs)))
             else Inr (sender, unwrap_or [] (so_recipient e), bs)) (\<lambda>(from, to, bs).
      let mine = unwrap_or [] (bt_get (bs_sobjects bs) from) in
      rbind (ok_or not_registered (or_else (bt_get mine reg) (stored_sobject s from reg))) (\<lambda>rec.
      let bs = (if bt_get mine reg \<noteq> None
                then bs\<lparr>bs_sobjects := bt_put from (bt_del reg mine) (bs_sobjects bs)\<rparr> else bs);
          bs = bs\<lparr>bs_sobjects := bt_entry to [] (bt_put reg (rec\<lparr>sm_price := None\<rparr>)) (bs_sobjects bs)\<rparr>;
          bs = set_owner s reg to bs
      in Inr (bs\<lparr>bs_transferred := bt_put reg to (bs_transferred bs)\<rparr>))))"

definition sobj_record ::
  "transaction \<Rightarrow> smart_object_asset \<Rightarrow> string \<Rightarrow> wallet_state option \<Rightarrow> batch_state \<Rightarrow> batch_state res" where
  "sobj_record tx e sender wallet bs =
     (let pending = unwrap_or [] (bt_get (bs_sobjects bs) sender) in
      if so_action e = ACTION_REGISTER then
        Inr (bs\<lparr>bs_names := sobj_name_key (unwrap_or [] (sd_name (so_data e))) (so_type e) # bs_names bs,
                bs_sobjects := bt_put sender (bt_put (unwrap_or [] (tx_id tx))
                  \<lparr>sm_type = so_type e, sm_sub_type = so_sub_type e, sm_data = so_data e, sm_resigned = False,
                   sm_price = None\<rparr> pending) (bs_sobjects bs)\<rparr>)
      else
        (let reg = unwrap_or [] (so_registration_id e) in
         rbind (ok_or not_registered (or_else (bt_get pending reg)
                  (Option.bind wallet (\<lambda>w. bt_get (w_sobjects w) reg)))) (\<lambda>rec.
         let rec = (if so_action e = ACTION_UPDATE
                    then rec\<lparr>sm_data := (sm_data rec)\<lparr>sd_ntfry_data := sd_ntfry_data (so_data e)\<rparr>\<rparr>
                    else if so_action e = ACTION_SELL
                    then rec\<lparr>sm_price := (case so_price e of None \<Rightarrow> None | Some p \<Rightarrow> if p > 0 then Some p else None)\<rparr>
                    else rec\<lparr>sm_resigned := True\<rparr>)
         in Inr (bs\<lparr>bs_sobjects := bt_put sender (bt_put reg rec pending) (bs_sobjects bs)\<rparr>))))"

text \<open>Without an asset the format rule inside \<open>check_sobj\<close> refuses the transaction.\<close>

definition sobj_rules ::
  "crypto \<Rightarrow> network \<Rightarrow> store \<Rightarrow> u64 \<Rightarrow> transaction \<Rightarrow> string \<Rightarrow> wallet_state option \<Rightarrow> batch_state \<Rightarrow> batch_state res" where
  "sobj_rules E n s height tx sender wallet bs =
     (let check = rule_err (check_sobj E tx (milestone_at n height) wallet (unwrap_or [] (bt_get (bs_sobjects bs) sender))
            (\<lambda>name t. sobj_name_key name t \<in> set (bs_names bs) \<or> sobj_by_name s name t \<noteq> None)
            (sobj_lookup E n s bs)
            (\<lambda>i. map_option ts_supply (tv_token_state (batch_view E n s bs) i)))
      in case sobj_asset_of tx of
           None \<Rightarrow> rbind check (\<lambda>_. Inr bs)
         | Some e \<Rightarrow>
             if so_action e \<noteq> ACTION_BUY \<and>
                (case so_registration_id e of None \<Rightarrow> False
                 | Some reg \<Rightarrow> (case bt_get (bs_transferred bs) reg of None \<Rightarrow> False | Some owner \<Rightarrow> owner \<noteq> sender))
             then Inl not_registered
             else rbind check (\<lambda>_.
               if so_action e = ACTION_BUY \<or> so_action e = ACTION_TRANSFER
               then sobj_hand_over E n s e sender bs
               else sobj_record tx e sender wallet bs))"

definition check_tx ::
  "crypto \<Rightarrow> network \<Rightarrow> store \<Rightarrow> u64 \<Rightarrow> transaction \<Rightarrow> batch_state \<Rightarrow> batch_state res" where
  "check_tx E n s height tx bs =
     rbind (address_from_public_key E (tx_sender_public_key tx) (nw_pubkey_hash n)) (\<lambda>sender.
     let wallet = batch_wallet s bs sender in
     rbind (balance_rule E n s height tx sender wallet bs) (\<lambda>bs.
     rbind (signature_rules E n height tx sender wallet bs) (\<lambda>bs.
     if is_token tx then token_rules E n s height tx sender wallet bs
     else if is_sobj tx then sobj_rules E n s height tx sender wallet bs
     else Inr bs)))"

section \<open>The rules of a block and a batch\<close>

definition block_pq_rule :: "crypto \<Rightarrow> network \<Rightarrow> store \<Rightarrow> block \<Rightarrow> batch_state \<Rightarrow> unit res" where
  "block_pq_rule E n s b bs =
     (if b_version b \<noteq> BLOCK_VERSION_PQ then Inr ()
      else
        rbind (address_from_public_key E (b_generator_public_key b) (nw_pubkey_hash n)) (\<lambda>generator.
        rbind (ok_or (blk_err ''BlockPqKeyMissingError'')
                 (case bt_get (bs_pq_keys bs) generator of Some k \<Rightarrow> k
                  | None \<Rightarrow> Option.bind (get_wallet s generator) w_pq_key)) (\<lambda>key.
        rbind (verify_block_pq_signature E b (pk_public_key key)) (\<lambda>ok.
        ensure ok (blk_err ''BlockPqSignatureError'')))))"

definition forger_credit :: "crypto \<Rightarrow> network \<Rightarrow> block \<Rightarrow> batch_state \<Rightarrow> batch_state" where
  "forger_credit E n b bs =
     (case address_from_public_key E (b_generator_public_key b) (nw_pubkey_hash n) of
        Inl _ \<Rightarrow> bs
      | Inr generator \<Rightarrow>
          (let burned = (if nw_burn_address n = [] then 0
                 else init_count b * init_burn (ms_token_fees (milestone_at n (b_height b))))
           in add_delta generator (uint (b_reward b) + uint (b_total_fee b) - uint burned) bs))"

definition check_block :: "crypto \<Rightarrow> network \<Rightarrow> store \<Rightarrow> block \<Rightarrow> batch_state \<Rightarrow> batch_state res" where
  "check_block E n s b bs =
     rbind (block_pq_rule E n s b bs) (\<lambda>_.
     rbind (rfold (check_tx E n s (b_height b)) (b_transactions b) bs) (\<lambda>bs.
     Inr (forger_credit E n b bs)))"

definition check_stateful_rules :: "crypto \<Rightarrow> network \<Rightarrow> store \<Rightarrow> block list \<Rightarrow> unit res" where
  "check_stateful_rules E n s blocks = rbind (rfold (check_block E n s) blocks batch_new) (\<lambda>_. Inr ())"

section \<open>The intake\<close>

definition FUTURE_SLOT_GRACE_MS :: int where "FUTURE_SLOT_GRACE_MS = 1000"

definition future_slot_ms :: "network \<Rightarrow> int \<Rightarrow> block \<Rightarrow> int option res" where
  "future_slot_ms n now_ms b =
     (let blocktime = ms_blocktime (milestone_at n (b_height b)) in
      rbind (slot_number (b_timestamp b) blocktime) (\<lambda>slot.
      let early = epoch_to_unix n (slot_start slot blocktime) * 1000 - now_ms in
      Inr (if early > FUTURE_SLOT_GRACE_MS then Some early else None)))"

record chain_tip =
  ct_height :: u64
  ct_id :: "string option"

text \<open>The checks that do not depend on the state, one result per block.\<close>

definition crypto_check :: "crypto \<Rightarrow> network \<Rightarrow> u32 \<Rightarrow> bool \<Rightarrow> block \<Rightarrow> unit res" where
  "crypto_check E n now verify b =
     rbind (ok_or (Sync ''block has no id'') (b_id b)) (\<lambda>i.
     if verify then ensure (verify_block E b n now = []) (blk_err ''verification failed'')
     else if b_height b > 1 then
       rbind (block_id E b) (\<lambda>computed. ensure (computed = i) (blk_err ''id mismatch''))
     else Inr ())"

definition link_check :: "network \<Rightarrow> int \<Rightarrow> block \<Rightarrow> chain_tip \<Rightarrow> chain_tip res" where
  "link_check n now_ms b tip =
     (if b_height b \<noteq> ct_height tip + 1 then Inl (Sync ''height gap'')
      else
        rbind (future_slot_ms n now_ms b) (\<lambda>early.
        if early \<noteq> None then Inl FutureBlock
        else
          rbind (ok_or (Sync ''block has no id'') (b_id b)) (\<lambda>i.
          if (case ct_id tip of None \<Rightarrow> False | Some prev \<Rightarrow> b_previous_block b \<noteq> prev)
          then Inl (blk_err ''previousBlock does not match local tip'')
          else Inr \<lparr>ct_height = b_height b, ct_id = Some i\<rparr>)))"

definition sync_apply_blocks ::
  "crypto \<Rightarrow> network \<Rightarrow> u32 \<Rightarrow> int \<Rightarrow> block list \<Rightarrow> chain_tip \<Rightarrow> bool \<Rightarrow> store \<Rightarrow> store \<times> chain_tip res" where
  "sync_apply_blocks E n now now_ms blocks tip verify s =
     (case rbind (rfold (link_check n now_ms) blocks tip) (\<lambda>tip.
           rbind (rfold (\<lambda>b _. crypto_check E n now verify b) blocks ()) (\<lambda>_.
           rbind (if verify then check_stateful_rules E n s blocks else Inr ()) (\<lambda>_. Inr tip))) of
        Inl e \<Rightarrow> (s, Inl e)
      | Inr tip \<Rightarrow>
          (case apply_blocks E n blocks s of
             (s, Inl e) \<Rightarrow> (s, Inl e)
           | (s, Inr _) \<Rightarrow> (s, Inr tip)))"

end
