(* ===== verification/Intake.thy ===== *)
theory Intake
  imports StatefulRules
begin

text \<open>
  The block intake beside the rules (\<open>src/src/intake.rs\<close>): where blocks came from and how early they were,
  the watchdogs for a stalled tip and a split network, and the rule for two blocks at the tip
  (\<open>prefer_earlier_slot\<close>). The statics behind a \<open>Mutex\<close> are records that are passed along; the clock is
  an argument (not negative, as the source falls back to zero). Log lines and alerts are left out.
\<close>

section \<open>Bounded queues\<close>

text \<open>\<open>if q.len() == cap { q.pop_front(); } q.push_back(x)\<close>.\<close>

definition push_bounded :: "nat \<Rightarrow> 'a \<Rightarrow> 'a list \<Rightarrow> 'a list" where
  "push_bounded cap x q = (if length q = cap then tl q else q) @ [x]"

lemma push_bounded_length: "length q \<le> cap \<Longrightarrow> 0 < cap \<Longrightarrow> length (push_bounded cap x q) \<le> cap"
  by (auto simp: push_bounded_def)

lemma push_bounded_set: "set (push_bounded cap x q) \<subseteq> insert x (set q)"
  by (cases q) (auto simp: push_bounded_def)

lemma push_bounded_new: "x \<in> set (push_bounded cap x q)"
  by (simp add: push_bounded_def)

lemma push_bounded_distinct:
  assumes "distinct (map f q)" and "f x \<notin> f ` set q"
  shows "distinct (map f (push_bounded cap x q))"
  using assms by (cases q) (auto simp: push_bounded_def)

section \<open>Statistics\<close>

datatype source = PullLegacy | PushLegacy | GossipIroh | Forged

definition label :: "source \<Rightarrow> string" where
  "label s = (case s of PullLegacy \<Rightarrow> ''pull/legacy'' | PushLegacy \<Rightarrow> ''push/legacy''
     | GossipIroh \<Rightarrow> ''gossip/iroh'' | Forged \<Rightarrow> ''forged'')"

record live_block =
  vb_height :: u64
  vb_source :: source
  vb_label :: string
  vb_peer :: string
  vb_delay_ms :: int

record origin =
  og_height :: u64
  og_source :: source
  og_peer :: string
  og_generator :: string

record early_block =
  eb_height :: u64
  eb_generator :: string
  eb_username :: "string option"
  eb_source :: "source option"
  eb_early_ms :: int
  eb_at_unix :: int

record intake =
  in_last :: "live_block option"
  in_delays :: "(source \<times> int) list"
  in_origins :: "origin list"
  in_earliest :: "early_block option"
  in_future_rejected :: u64
  in_last_future :: "early_block option"
  in_last_future_id :: "string option"

definition WINDOW :: nat where "WINDOW = 100"
definition ORIGINS :: nat where "ORIGINS = 210"

definition note_future_block :: "crypto \<Rightarrow> network \<Rightarrow> store \<Rightarrow> int \<Rightarrow> block \<Rightarrow> int \<Rightarrow> intake \<Rightarrow> intake" where
  "note_future_block E n s now_ms b early_ms i =
     (let username = (case address_from_public_key E (b_generator_public_key b) (nw_pubkey_hash n) of
            Inl _ \<Rightarrow> None | Inr a \<Rightarrow> Option.bind (get_wallet s a) w_username);
          early = \<lparr>eb_height = b_height b, eb_generator = b_generator_public_key b, eb_username = username,
                   eb_source = None, eb_early_ms = early_ms, eb_at_unix = now_ms div 1000\<rparr>
      in if in_last_future_id i \<noteq> None \<and> in_last_future_id i = b_id b then i
         else i\<lparr>in_last_future_id := b_id b, in_future_rejected := in_future_rejected i + 1, in_last_future := Some early\<rparr>)"

definition record_block ::
  "network \<Rightarrow> int \<Rightarrow> source \<Rightarrow> string \<Rightarrow> u64 \<Rightarrow> u32 \<Rightarrow> string \<Rightarrow> intake \<Rightarrow> intake" where
  "record_block n now_ms src peer height block_epoch generator i =
     (let delay_ms = now_ms - epoch_to_unix n block_epoch * 1000;
          i = i\<lparr>in_last := Some \<lparr>vb_height = height, vb_source = src, vb_label = label src, vb_peer = peer, vb_delay_ms = delay_ms\<rparr>,
                in_delays := push_bounded WINDOW (src, delay_ms) (in_delays i)\<rparr>;
          i = (if src \<noteq> Forged \<and> delay_ms < 0
                 \<and> (case in_earliest i of None \<Rightarrow> True | Some e \<Rightarrow> - delay_ms > eb_early_ms e)
               then i\<lparr>in_earliest := Some \<lparr>eb_height = height, eb_generator = generator, eb_username = None,
                        eb_source = Some src, eb_early_ms = - delay_ms, eb_at_unix = now_ms div 1000\<rparr>\<rparr>
               else i)
      in i\<lparr>in_origins := push_bounded ORIGINS
             \<lparr>og_height = height, og_source = src, og_peer = peer, og_generator = generator\<rparr> (in_origins i)\<rparr>)"

definition legacy_evidence :: "string list \<Rightarrow> intake \<Rightarrow> (string, u32 \<times> bool) btmap" where
  "legacy_evidence rust_ws i =
     fold (\<lambda>o1. bt_entry (og_generator o1) (0, True)
        (\<lambda>(c, all). (c + 1, all \<and> og_source o1 \<in> {PullLegacy, PushLegacy} \<and> og_peer o1 \<notin> set rust_ws)))
       (in_origins i) []"

definition skew_hint :: "int list \<Rightarrow> int" where
  "skew_hint received = (if received = [] then 0 else max (- Min (set received)) 0)"

section \<open>The watchdogs\<close>

record stall_reason =
  sr_kind :: string
  sr_peer :: string
  sr_detail :: string
  sr_height :: u64
  sr_at_unix :: int

record last_stall =
  ls_height :: u64
  ls_seconds :: u64
  ls_network_height :: u64
  ls_recovered_height :: u64
  ls_ended_at_unix :: int

record stall =
  sl_stalled :: bool
  sl_height :: u64
  sl_seconds :: u64
  sl_network_height :: u64
  sl_peers_ahead :: nat
  sl_alerts :: u64
  sl_last_reason :: "stall_reason option"
  sl_last_stall :: "last_stall option"

definition note_stall_reason :: "string \<Rightarrow> string \<Rightarrow> string \<Rightarrow> u64 \<Rightarrow> int \<Rightarrow> stall \<Rightarrow> stall" where
  "note_stall_reason kind peer detail height now s =
     s\<lparr>sl_last_reason := Some \<lparr>sr_kind = kind, sr_peer = peer, sr_detail = detail, sr_height = height, sr_at_unix = now\<rparr>\<rparr>"

definition note_stall_recovered :: "u64 \<Rightarrow> u64 \<Rightarrow> u64 \<Rightarrow> u64 \<Rightarrow> int \<Rightarrow> stall \<Rightarrow> stall" where
  "note_stall_recovered height seconds network_height recovered now s =
     s\<lparr>sl_last_stall := Some \<lparr>ls_height = height, ls_seconds = seconds, ls_network_height = network_height,
        ls_recovered_height = recovered, ls_ended_at_unix = now\<rparr>\<rparr>"

definition STALL_SLOTS :: u64 where "STALL_SLOTS = 3"
definition SPLIT_BLOCKS :: u64 where "SPLIT_BLOCKS = 42"

definition legacy_split :: "u64 \<Rightarrow> u64 list \<Rightarrow> (nat \<times> u64) option" where
  "legacy_split tip heights =
     (let answering = filter (\<lambda>h. h > 0) heights in
      if length answering < 3 then None
      else
        (let behind = length (filter (\<lambda>h. h + SPLIT_BLOCKS < tip) answering);
             best = fold max answering 0
         in if behind * 5 \<ge> length answering * 4 \<and> best + SPLIT_BLOCKS < tip then Some (behind, best) else None))"

text \<open>The instants are milliseconds of the monotonic clock; \<open>duration_since\<close> is never negative.\<close>

definition stall_check ::
  "u64 \<Rightarrow> nat \<times> u64 \<Rightarrow> u64 \<Rightarrow> nat \<Rightarrow> u64 \<times> nat \<Rightarrow> stall \<Rightarrow> bool \<times> (u64 \<times> nat) \<times> stall" where
  "stall_check tip ahead blocktime now last_move s =
     (let last_move = (if tip \<noteq> fst last_move then (tip, now) else last_move);
          seconds = word_of_nat ((now - snd last_move) div 1000);
          stalled = fst ahead > 0 \<and> seconds \<ge> STALL_SLOTS * max blocktime 1;
          fired = stalled \<and> \<not> sl_stalled s
      in (fired, last_move,
          if stalled \<noteq> sl_stalled s \<or> stalled
          then s\<lparr>sl_stalled := stalled, sl_height := tip, sl_seconds := seconds, sl_network_height := snd ahead,
                 sl_peers_ahead := fst ahead, sl_alerts := sl_alerts s + (if fired then 1 else 0)\<rparr>
          else s\<lparr>sl_seconds := 0\<rparr>))"

section \<open>Two blocks at the tip\<close>

text \<open>The earlier slot wins. A panic of the blocking task ends it before our block is restored; every error
  of the task counts as not swapped.\<close>

definition prefer_earlier_slot :: "crypto \<Rightarrow> network \<Rightarrow> block \<Rightarrow> block \<Rightarrow> store \<Rightarrow> store \<times> bool" where
  "prefer_earlier_slot E n ours theirs s =
     (let tip = get_last_height s in
      if b_height ours \<noteq> tip \<or> b_height theirs \<noteq> tip \<or> b_timestamp theirs \<ge> b_timestamp ours
         \<or> b_previous_block theirs \<noteq> b_previous_block ours then (s, False)
      else if verify_block_signature E theirs \<noteq> Inr True then (s, False)
      else if (case latest_finality_cert s of None \<Rightarrow> False | Some c \<Rightarrow> fc_height c \<ge> tip) then (s, False)
      else
        (case rollback_to E n (tip - 1) s of
           (s, Inl _) \<Rightarrow> (s, False)
         | (s, Inr _) \<Rightarrow>
             (case apply_blocks E n [theirs] s of
                (s, Inr _) \<Rightarrow> (s, True)
              | (s, Inl (Panic _)) \<Rightarrow> (s, False)
              | (s, Inl _) \<Rightarrow> (fst (apply_blocks E n [ours] s), False))))"

end
