(* ===== verification/StatefulProps.thy ===== *)
theory StatefulProps
  imports StatefulRules
begin

text \<open>
  What the stateful rules guarantee about the wallets the store writes afterwards. The rules replay
  the batch over their own balance overlay (\<open>src/src/sync.rs\<close>), the store computes the wallet changes
  again (\<open>accumulate_deltas\<close> in \<open>src/src/storage.rs\<close>): the overlay never exceeds what the store will
  credit, so under \<open>strictBalance\<close> no wallet is overdrawn.
\<close>

section \<open>Quiet transactions\<close>

text \<open>Transactions that neither release a lock nor buy on a market: for the others the two replays use
  different sources (see \<open>token_buy_debited_twice\<close> for a purchase).\<close>

definition quiet :: "transaction \<Rightarrow> bool" where
  "quiet tx \<longleftrightarrow> \<not> releases_lock tx \<and> \<not> (tx_type_group tx = TYPE_GROUP_TOKEN \<and> tx_type tx = TOKEN_BUY)
     \<and> (case sobj_asset_of tx of None \<Rightarrow> True | Some e \<Rightarrow> so_action e \<noteq> ACTION_BUY)"

definition credit :: "transaction \<Rightarrow> string \<Rightarrow> int" where
  "credit tx a =
     (if tx_type_group tx \<noteq> TYPE_GROUP_CORE then 0
      else if tx_type tx = TRANSFER then (if tx_recipient tx = Some a then uint (tx_amount tx) else 0)
      else if tx_type tx = MULTI_PAYMENT then
        (\<Sum>p\<leftarrow>unwrap_or [] (asset_field as_payments tx). if pay_recipient p = a then uint (pay_amount p) else 0)
      else 0)"

lemma credit_nonneg: "0 \<le> credit tx a"
  by (auto simp: credit_def intro!: sum_list_nonneg)

lemma payments_total_nonneg: "0 \<le> payments_total tx"
  by (auto simp: payments_total_def intro!: sum_list_nonneg)

section \<open>The overlay\<close>

lemma delta_at_add: "delta_at (add_delta b c bs) a = delta_at bs a + (if a = b then c else 0)"
  by (simp add: delta_at_def add_delta_def)

lemma delta_at_cong: "bs_sth_delta bs' = bs_sth_delta bs \<Longrightarrow> delta_at bs' a = delta_at bs a"
  by (simp add: delta_at_def)

lemma delta_at_payments:
  "delta_at (fold (\<lambda>p. add_delta (pay_recipient p) (uint (pay_amount p))) ps bs) a
     = delta_at bs a + (\<Sum>p\<leftarrow>ps. if pay_recipient p = a then uint (pay_amount p) else 0)"
  by (induction ps arbitrary: bs) (auto simp: delta_at_add)

lemma core_credit_delta:
  "\<not> releases_lock tx \<Longrightarrow> delta_at (core_credit E n s tx sender bs) a = delta_at bs a + credit tx a"
  by (auto simp: core_credit_def credit_def releases_lock_def delta_at_add delta_at_payments
      delta_at_cong [of "bs\<lparr>bs_pending_locks := x\<rparr>" bs for x] split: option.splits)

lemma bump_sth [simp]: "bs_sth_delta (bump s i a c bs) = bs_sth_delta bs"
  by (simp add: bump_def)

lemma state_mut_sth [simp]: "bs_sth_delta (state_mut s i f bs) = bs_sth_delta bs"
  by (auto simp: state_mut_def split: option.splits)

lemma bump_fold_sth [simp]:
  "bs_sth_delta (fold (\<lambda>it bs. bump s i (ti_recipient it) (uint (ti_amount it))
      (bump s i sender (- uint (ti_amount it)) bs)) its bs) = bs_sth_delta bs"
  by (induction its arbitrary: bs) simp_all

lemma batch_token_apply_sth [simp]: "bs_sth_delta (batch_token_apply E n s ty a sender h txid bs) = bs_sth_delta bs"
  by (simp add: batch_token_apply_def batch_market_def Let_def split: option.split)

lemma signature_rules_sth:
  "signature_rules E n h tx sender w bs = Inr bs' \<Longrightarrow> bs_sth_delta bs' = bs_sth_delta bs"
  by (auto simp: signature_rules_def load_keys_def Let_def rbind_eq_Inr split: option.splits)

lemma token_rules_sth:
  "token_rules E n s h tx sender w bs = Inr bs' \<Longrightarrow> tx_type tx \<noteq> TOKEN_BUY \<Longrightarrow> bs_sth_delta bs' = bs_sth_delta bs"
  by (auto simp: token_rules_def Let_def rbind_eq_Inr split: if_splits)

lemma sobj_record_sth: "sobj_record tx e sender w bs = Inr bs' \<Longrightarrow> bs_sth_delta bs' = bs_sth_delta bs"
  by (auto simp: sobj_record_def Let_def rbind_eq_Inr split: if_splits)

lemma sobj_hand_over_sth:
  "sobj_hand_over E n s e sender bs = Inr bs' \<Longrightarrow> so_action e \<noteq> ACTION_BUY \<Longrightarrow> bs_sth_delta bs' = bs_sth_delta bs"
  by (auto simp: sobj_hand_over_def set_owner_def Let_def rbind_eq_Inr split: if_splits)

lemma sobj_rules_sth:
  assumes "sobj_rules E n s h tx sender w bs = Inr bs'"
    and "case sobj_asset_of tx of None \<Rightarrow> True | Some e \<Rightarrow> so_action e \<noteq> ACTION_BUY"
  shows "bs_sth_delta bs' = bs_sth_delta bs"
  using assms sobj_record_sth sobj_hand_over_sth
  by (auto simp: sobj_rules_def Let_def rbind_eq_Inr split: option.splits if_splits)

lemma quiet_buy_total: "quiet tx \<Longrightarrow> token_buy_total tx view = 0"
  by (auto simp: quiet_def token_buy_total_def)

text \<open>The effect of one checked transaction on the overlay, and what the balance rule found.\<close>

lemma check_tx_delta:
  assumes "check_tx E n s h tx bs = Inr bs'" and q: "quiet tx"
  obtains sender where "address_from_public_key E (tx_sender_public_key tx) (nw_pubkey_hash n) = Inr sender"
    and "\<And>a. delta_at bs' a = delta_at bs a + credit tx a
      - (if a = sender then uint (tx_amount tx) + uint (tx_fee tx) + payments_total tx else 0)"
    and "h > 1 \<Longrightarrow> ms_strict_balance (milestone_at n h) \<Longrightarrow>
      uint (tx_amount tx) + uint (tx_fee tx) + payments_total tx \<le> wallet_balance (batch_wallet s bs sender)"
proof -
  obtain sender bs1 bs2 where s: "address_from_public_key E (tx_sender_public_key tx) (nw_pubkey_hash n) = Inr sender"
    and b: "balance_rule E n s h tx sender (batch_wallet s bs sender) bs = Inr bs1"
    and g: "signature_rules E n h tx sender (batch_wallet s bs sender) bs1 = Inr bs2"
    and r: "(if is_token tx then token_rules E n s h tx sender (batch_wallet s bs sender) bs2
      else if is_sobj tx then sobj_rules E n s h tx sender (batch_wallet s bs sender) bs2 else Inr bs2) = Inr bs'"
    using assms(1) by (auto simp: check_tx_def Let_def rbind_eq_Inr)
  have spent: "batch_spent tx (batch_view E n s bs) = uint (tx_amount tx) + uint (tx_fee tx) + payments_total tx"
    using quiet_buy_total [OF q] by (simp add: batch_spent_def)
  have "bs_sth_delta bs' = bs_sth_delta bs2"
    using r q token_rules_sth sobj_rules_sth by (auto simp: quiet_def is_token_def split: if_splits)
  then have "delta_at bs' a = delta_at bs1 a" for a
    using signature_rules_sth [OF g] by (simp add: delta_at_def)
  moreover have "delta_at bs1 a = delta_at bs a + credit tx a
      - (if a = sender then uint (tx_amount tx) + uint (tx_fee tx) + payments_total tx else 0)" for a
    using b q core_credit_delta by (auto simp: balance_rule_def Let_def spent delta_at_add quiet_def split: if_splits)
  moreover have "h > 1 \<Longrightarrow> ms_strict_balance (milestone_at n h) \<Longrightarrow>
      uint (tx_amount tx) + uint (tx_fee tx) + payments_total tx \<le> wallet_balance (batch_wallet s bs sender)"
    using b by (auto simp: balance_rule_def Let_def spent split: if_splits)
  ultimately show ?thesis using that [OF s] by simp
qed

definition stored_balance :: "store \<Rightarrow> string \<Rightarrow> int" where
  "stored_balance s a = wallet_balance (get_wallet s a)"

lemma batch_wallet_covers:
  assumes "c \<le> wallet_balance (batch_wallet s bs a)" and "0 \<le> c"
  shows "c \<le> stored_balance s a + delta_at bs a"
  using assms
  by (auto simp: batch_wallet_def Let_def wallet_balance_def stored_balance_def clamp_i64_def i64_min_def
      wallet_new_def split: if_splits option.splits)

section \<open>The wallet changes\<close>

definition change_at :: "deltas \<Rightarrow> string \<Rightarrow> int" where
  "change_at ds a = wd_balance (delta_of a ds)"

lemma change_at_upd: "change_at (upd b f ds) a = (if a = b then wd_balance (f (delta_of b ds)) else change_at ds a)"
  by (simp add: change_at_def delta_of_upd)

lemma change_at_neutral: "(\<And>d. wd_balance (f d) = wd_balance d) \<Longrightarrow> change_at (upd b f ds) a = change_at ds a"
  by (simp add: change_at_def delta_of_upd)

lemma change_at_add [simp]: "change_at (upd b (add_balance c) ds) a = change_at ds a + (if a = b then c else 0)"
  by (simp add: change_at_def delta_of_upd add_balance_def)

lemma change_at_fold:
  assumes "\<And>x ds. change_at (f x ds) a = change_at ds a"
  shows "change_at (fold f xs ds) a = change_at ds a"
  by (induction xs arbitrary: ds) (simp_all add: assms)

lemmas change_at_simps = change_at_neutral change_at_add wd_balance_simps

lemma sender_change: "change_at (sender_delta tx s ds) a
    = change_at ds a - (if a = s then uint (tx_amount tx) + uint (tx_fee tx) else 0)"
  by (simp add: sender_delta_def change_at_def delta_of_upd add_balance_def)

lemma hand_over_change: "change_at (hand_over reg from to rec token ds) a = change_at ds a"
  by (simp add: hand_over_def Let_def change_at_neutral)

lemma sobj_change:
  assumes "so_action e \<noteq> ACTION_BUY"
  shows "change_at (sobj_delta V tx s e ds) a = change_at ds a"
  using assms by (auto simp: sobj_delta_def sobj_move_delta_def sobj_record_delta_def Let_def hand_over_change
      change_at_neutral split: option.splits)

lemma token_change:
  assumes "token_delta V b idx tx s t ds = Inr ds'" and "tx_type tx \<noteq> TOKEN_BUY"
  shows "change_at ds' a = change_at ds a"
proof -
  have tr: "change_at (fold (\<lambda>it ds. upd (ti_recipient it) (add_token i (uint (ti_amount it)))
        (upd s (add_token i (- uint (ti_amount it))) ds)) its ds) a = change_at ds a" for i its
    by (rule change_at_fold) (simp add: change_at_neutral wd_balance_simps)
  show ?thesis
    using assms tr
    by (auto simp: token_delta_def market_delta_def Let_def rbind_eq_Inr change_at_neutral wd_balance_simps
        split: if_splits option.splits)
qed

lemma payments_change: "change_at (payments_delta tx s ds) a = change_at ds a
    + (\<Sum>p\<leftarrow>unwrap_or [] (asset_field as_payments tx). if pay_recipient p = a then uint (pay_amount p) else 0)
    - (if a = s then payments_total tx else 0)"
proof -
  have "change_at (fold (\<lambda>p ds. upd s (add_balance (- uint (pay_amount p)))
          (upd (pay_recipient p) (add_balance (uint (pay_amount p))) ds)) ps ds) a
      = change_at ds a + (\<Sum>p\<leftarrow>ps. if pay_recipient p = a then uint (pay_amount p) else 0)
        - (if a = s then (\<Sum>p\<leftarrow>ps. uint (pay_amount p)) else 0)" for ps :: "payment list"
    by (induction ps arbitrary: ds) auto
  then show ?thesis by (simp add: payments_delta_def payments_total_def)
qed

lemma transfer_change: "change_at (transfer_delta b tx s ds) a
    = change_at ds a + (if tx_recipient tx = Some a then uint (tx_amount tx) else 0)"
  by (auto simp: transfer_delta_def Let_def change_at_neutral split: option.splits prod.splits)

lemma core_change:
  assumes "core_delta E n V batch b tx s ds = Inr ds'" and "\<not> releases_lock tx" and "tx_type_group tx = TYPE_GROUP_CORE"
  shows "change_at ds' a \<ge> change_at ds a + credit tx a - (if a = s then payments_total tx else 0)"
proof -
  have vote: "change_at (fold (\<lambda>v. upd s (\<lambda>d. d\<lparr>wd_vote := g v\<rparr>)) vs ds) a = change_at ds a" for g and vs :: "string list"
    by (rule change_at_fold) (simp add: change_at_neutral)
  show ?thesis
  proof (cases "tx_type tx = TRANSFER \<or> tx_type tx = MULTI_PAYMENT")
    case True
    then show ?thesis
      using assms payments_total_nonneg [of tx]
      by (auto simp: core_delta_def credit_def payments_change transfer_change)
  next
    case False
    then have "credit tx a = 0" using assms(3) by (simp add: credit_def)
    moreover have "change_at ds' a = change_at ds a"
      using assms False vote
      by (auto simp: core_delta_def lock_delta_def releases_lock_def rbind_eq_Inr change_at_neutral
          split: if_splits option.splits)
    ultimately show ?thesis using payments_total_nonneg [of tx] by simp
  qed
qed

lemma tx_change:
  assumes "tx_delta E n V batch b itx ds = Inr ds'" and q: "quiet (snd itx)"
    and s: "address_from_public_key E (tx_sender_public_key (snd itx)) (nw_pubkey_hash n) = Inr s"
  shows "change_at ds' a \<ge> change_at ds a + credit (snd itx) a
    - (if a = s then uint (tx_amount (snd itx)) + uint (tx_fee (snd itx)) + payments_total (snd itx) else 0)"
proof -
  define tx where "tx = snd itx"
  define ds1 where "ds1 = sender_delta tx s ds"
  have step: "(case sobj_asset_of tx of Some e \<Rightarrow> Inr (sobj_delta V tx s e ds1)
      | None \<Rightarrow> (case token_asset_of tx of Some t \<Rightarrow> token_delta V b (fst itx) tx s t ds1
           | None \<Rightarrow> if tx_type_group tx \<noteq> TYPE_GROUP_CORE then Inr ds1
               else core_delta E n V batch b tx s ds1)) = Inr ds'"
    using assms(1) s unfolding tx_delta_def Let_def tx_def [symmetric] ds1_def by simp
  have groups: "sobj_asset_of tx \<noteq> None \<or> token_asset_of tx \<noteq> None \<Longrightarrow> tx_type_group tx \<noteq> TYPE_GROUP_CORE"
    "token_asset_of tx \<noteq> None \<Longrightarrow> tx_type_group tx = TYPE_GROUP_TOKEN"
    by (auto simp: sobj_asset_of_def token_asset_of_def is_sobj_def is_token_def split: if_splits)
  have zero: "tx_type_group tx \<noteq> TYPE_GROUP_CORE \<Longrightarrow> credit tx a = 0" by (simp add: credit_def)
  have "change_at ds' a \<ge> change_at ds1 a + credit tx a - (if a = s then payments_total tx else 0)"
  proof (cases "sobj_asset_of tx")
    case (Some e)
    then have "so_action e \<noteq> ACTION_BUY" using q by (simp add: quiet_def tx_def)
    then have "change_at ds' a = change_at ds1 a" using Some step sobj_change by auto
    with Some groups(1) zero payments_total_nonneg [of tx] show ?thesis by simp
  next
    case no_sobj: None
    show ?thesis
    proof (cases "token_asset_of tx")
      case (Some t)
      then have "tx_type tx \<noteq> TOKEN_BUY" using q groups(2) by (simp add: quiet_def tx_def)
      then have "change_at ds' a = change_at ds1 a" using Some no_sobj step token_change by auto
      with Some groups(1) zero payments_total_nonneg [of tx] show ?thesis by simp
    next
      case None
      have "\<not> releases_lock tx" using q by (simp add: quiet_def tx_def)
      with None no_sobj step zero core_change payments_total_nonneg [of tx] show ?thesis
        by (cases "tx_type_group tx = TYPE_GROUP_CORE") auto
    qed
  qed
  then show ?thesis by (auto simp: ds1_def sender_change tx_def)
qed

section \<open>No overdraft\<close>

text \<open>The invariant that ties the two replays together: the overlay plus the part \<open>r\<close> of a forger's reward that
  the store has written and the rules have not stays below the store's change, which overdraws nobody.\<close>

definition covered :: "(string \<Rightarrow> int) \<Rightarrow> store \<Rightarrow> batch_state \<Rightarrow> deltas \<Rightarrow> bool" where
  "covered r s bs ds \<longleftrightarrow> (\<forall>a. 0 \<le> r a \<and> delta_at bs a + r a \<le> change_at ds a \<and> 0 \<le> stored_balance s a + change_at ds a)"

text \<open>The store fills in missing transaction ids before it applies a block; nothing here depends on them.\<close>

definition same_tx :: "transaction \<Rightarrow> transaction \<Rightarrow> bool" where
  "same_tx tx tx' \<longleftrightarrow> (\<exists>i. tx' = tx\<lparr>tx_id := i\<rparr>)"

lemma same_tx_refl: "same_tx tx tx"
  unfolding same_tx_def by (rule exI [of _ "tx_id tx"]) simp

lemma same_tx_fields:
  assumes "same_tx tx tx'"
  shows "tx_sender_public_key tx' = tx_sender_public_key tx" "tx_amount tx' = tx_amount tx" "tx_fee tx' = tx_fee tx"
    "payments_total tx' = payments_total tx" "credit tx' = credit tx" "quiet tx' = quiet tx"
  using assms by (auto simp: same_tx_def payments_total_def credit_def quiet_def asset_field_def releases_lock_def
      sobj_asset_of_def is_sobj_def fun_eq_iff)

lemma covered_tx:
  assumes c: "covered r s bs ds" and q: "quiet tx" and same: "same_tx tx (snd itx)"
    and strict: "h > 1" "ms_strict_balance (milestone_at n h)"
    and chk: "check_tx E n s h tx bs = Inr bs'" and dl: "tx_delta E n V batch b itx ds = Inr ds'"
  shows "covered r s bs' ds'"
proof -
  define spent where "spent = uint (tx_amount tx) + uint (tx_fee tx) + payments_total tx"
  have pos: "0 \<le> spent" using payments_total_nonneg [of tx] by (simp add: spent_def)
  obtain sender where sender: "address_from_public_key E (tx_sender_public_key tx) (nw_pubkey_hash n) = Inr sender"
    and d: "\<And>a. delta_at bs' a = delta_at bs a + credit tx a - (if a = sender then spent else 0)"
    and have_: "spent \<le> wallet_balance (batch_wallet s bs sender)"
    using check_tx_delta [OF chk q] strict unfolding spent_def by metis
  note f = same_tx_fields [OF same]
  have t: "change_at ds' a \<ge> change_at ds a + credit tx a - (if a = sender then spent else 0)" for a
    using tx_change [OF dl, of sender a] q sender unfolding f spent_def by blast
  have enough: "spent \<le> stored_balance s sender + delta_at bs sender"
    using batch_wallet_covers [OF have_ pos] .
  show ?thesis
    unfolding covered_def
  proof (intro allI conjI)
    fix a
    have ca: "delta_at bs a + r a \<le> change_at ds a" "0 \<le> stored_balance s a + change_at ds a" "0 \<le> r a"
      using c by (simp_all add: covered_def)
    then show "0 \<le> r a" by simp
    show "delta_at bs' a + r a \<le> change_at ds' a" using d [of a] t [of a] ca(1) by linarith
    show "0 \<le> stored_balance s a + change_at ds' a"
      using t [of a] ca enough credit_nonneg [of tx a] by (cases "a = sender") auto
  qed
qed

lemma covered_txs:
  assumes "covered r s bs ds" and "list_all2 same_tx txs (map snd itxs)" and "\<forall>tx \<in> set txs. quiet tx"
    and "h > 1" "ms_strict_balance (milestone_at n h)"
    and "rfold (check_tx E n s h) txs bs = Inr bs'" and "rfold (tx_delta E n V batch b) itxs ds = Inr ds'"
  shows "covered r s bs' ds'"
  using assms
proof (induction txs arbitrary: itxs bs ds)
  case (Cons tx txs)
  obtain itx rest where itxs: "itxs = itx # rest" "same_tx tx (snd itx)" "list_all2 same_tx txs (map snd rest)"
    using Cons.prems(2) by (cases itxs) auto
  obtain bs1 ds1 where one: "check_tx E n s h tx bs = Inr bs1" "rfold (check_tx E n s h) txs bs1 = Inr bs'"
    "tx_delta E n V batch b itx ds = Inr ds1" "rfold (tx_delta E n V batch b) rest ds1 = Inr ds'"
    using Cons.prems(6,7) by (auto simp: itxs(1) rbind_eq_Inr)
  have q: "quiet tx" "\<forall>tx \<in> set txs. quiet tx" using Cons.prems(3) by simp_all
  show ?case
    by (rule Cons.IH [OF covered_tx [OF Cons.prems(1) q(1) itxs(2) Cons.prems(4,5) one(1,3)] itxs(3) q(2)
          Cons.prems(4,5) one(2,4)])
qed auto

lemma forger_change:
  "change_at (forger_delta n b g ds) a = change_at ds a
     + (if a = nw_burn_address n then uint (burned_amount n b) else 0)
     + (if a = g then uint (b_reward b) + uint (b_total_fee b) - uint (burned_amount n b) else 0)"
proof -
  define ds1 where "ds1 = (if burned_amount n b > 0
    then upd (nw_burn_address n) (add_balance (uint (burned_amount n b))) ds else ds)"
  have "change_at ds1 a = change_at ds a + (if a = nw_burn_address n then uint (burned_amount n b) else 0)" for a
    by (auto simp: ds1_def word_gt_0)
  then show ?thesis
    unfolding forger_delta_def Let_def ds1_def [symmetric]
    by (auto simp: change_at_upd add_balance_def change_at_def [symmetric] delta_of_def)
       (auto simp: change_at_def delta_of_def)
qed

lemma check_burned:
  "(if nw_burn_address n = [] then 0 else init_count b * init_burn (ms_token_fees (milestone_at n (b_height b))))
     = burned_amount n b"
  by (auto simp: burned_amount_def word_gt_0)

lemma covered_block:
  assumes c: "covered (\<lambda>_. 0) s bs ds" and pb: "list_all2 same_tx (b_transactions b) (b_transactions pb)"
    "b_generator_public_key pb = b_generator_public_key b"
    "b_reward pb = b_reward b" "b_total_fee pb = b_total_fee b" "burned_amount n pb = burned_amount n b"
    and quiet: "\<forall>tx \<in> set (b_transactions b). quiet tx"
    and strict: "b_height b > 1" "ms_strict_balance (milestone_at n (b_height b))"
    and fee: "uint (burned_amount n b) \<le> uint (b_reward b) + uint (b_total_fee b)"
    and chk: "check_block E n s b bs = Inr bs'" and acc: "accumulate_deltas E n V batch pb ds = Inr ds'"
  shows "covered (\<lambda>_. 0) s bs' ds'"
proof -
  obtain g where g: "address_from_public_key E (b_generator_public_key b) (nw_pubkey_hash n) = Inr g"
    and dl: "rfold (tx_delta E n V batch pb) (enumerate 0 (b_transactions pb)) (forger_delta n pb g ds) = Inr ds'"
    using acc by (auto simp: accumulate_deltas_def rbind_eq_Inr pb)
  obtain bs1 where bs1: "rfold (check_tx E n s (b_height b)) (b_transactions b) bs = Inr bs1"
    and bs': "bs' = forger_credit E n b bs1"
    using chk by (auto simp: check_block_def rbind_eq_Inr)
  define r where "r = (\<lambda>a. if a = g then uint (b_reward b) + uint (b_total_fee b) - uint (burned_amount n b) else 0)"
  have c1: "covered r s bs (forger_delta n pb g ds)"
    unfolding covered_def
  proof (intro allI conjI)
    fix a
    have ca: "delta_at bs a \<le> change_at ds a" "0 \<le> stored_balance s a + change_at ds a"
      using c by (simp_all add: covered_def)
    have f: "change_at (forger_delta n pb g ds) a
        = change_at ds a + (if a = nw_burn_address n then uint (burned_amount n b) else 0) + r a"
      by (simp add: forger_change pb r_def)
    have burn: "0 \<le> (if a = nw_burn_address n then uint (burned_amount n b) else 0)" by simp
    show r: "0 \<le> r a" using fee by (simp add: r_def)
    show "delta_at bs a + r a \<le> change_at (forger_delta n pb g ds) a" using ca burn f by linarith
    show "0 \<le> stored_balance s a + change_at (forger_delta n pb g ds) a" using ca burn f r by linarith
  qed
  have "map snd (enumerate 0 (b_transactions pb)) = b_transactions pb" by simp
  then have "covered r s bs1 ds'"
    using covered_txs [OF c1 _ quiet strict bs1 dl] pb(1) by simp
  moreover have "delta_at bs' a = delta_at bs1 a + r a" for a
    using check_burned [of n b] by (simp add: bs' forger_credit_def g Let_def delta_at_add r_def)
  ultimately show ?thesis by (simp add: covered_def)
qed

section \<open>Written wallets\<close>

lemma wallet_apply_balance: "wallet_apply d w = Inr w' \<Longrightarrow> w_balance w' = w_balance w + wd_balance d"
  by (auto simp: wallet_apply_def Let_def rbind_eq_Inr i64_try_from_def split: if_splits)

lemma write_wallets_balance:
  assumes "rfold write_step ds (s, undo, out) = Inr (s', undo', out')" and "distinct (map fst ds)"
  shows "stored_balance s' a = stored_balance s a + change_at ds a"
  using assms
proof (induction ds arbitrary: s undo out)
  case Nil
  then show ?case by (simp add: change_at_def delta_of_def delta_default_def)
next
  case (Cons ad ds)
  obtain k d where ad: "ad = (k, d)" by (cases ad)
  obtain s1 w where s1: "write_wallet (k, d) s = Inr (s1, (k, get_wallet s k), w)"
    "rfold write_step ds (s1, undo @ [(k, get_wallet s k)], out @ [w]) = Inr (s', undo', out')"
    using Cons.prems(1) unfolding ad by (auto simp: rbind_eq_Inr write_step_ok)
  have "stored_balance s1 a = stored_balance s a + (if a = k then wd_balance d else 0)"
    using write_wallet_ok(1,3) [OF s1(1)] wallet_apply_balance
    by (cases "get_wallet s k") (auto simp: stored_balance_def wallet_balance_def get_wallet_def wallet_new_def)
  moreover have "bt_get ds k = None" using Cons.prems(2) ad by (auto simp: bt_get_None_iff)
  ultimately show ?case
    using Cons.IH [OF s1(2)] Cons.prems(2) by (auto simp: ad change_at_def delta_of_def delta_default_def)
qed

lemma prepare_block_same:
  assumes "prepare_block E n b = Inr (pb, enc)"
  shows "list_all2 same_tx (b_transactions b) (b_transactions pb)"
    "b_height pb = b_height b" "b_generator_public_key pb = b_generator_public_key b"
    "b_reward pb = b_reward b" "b_total_fee pb = b_total_fee b"
proof -
  obtain b1 txs where b1: "b1 = b \<or> (\<exists>i. b1 = b\<lparr>b_id := i\<rparr>)"
    and txs: "collect (map (fill_tx_id E) (b_transactions b1)) = Inr txs" and pb: "pb = b1\<lparr>b_transactions := txs\<rparr>"
    using assms by (auto simp: prepare_block_def rbind_eq_Inr Let_def split: if_splits)
  have "list_all2 same_tx ts ts'" if "collect (map (fill_tx_id E) ts) = Inr ts'" for ts ts'
    using that
  proof (induction ts arbitrary: ts')
    case (Cons t ts)
    have "same_tx t x" if "fill_tx_id E t = Inr x" for x
      using that same_tx_refl by (auto simp: fill_tx_id_def rbind_eq_Inr same_tx_def split: if_splits)
    with Cons show ?case by (auto simp: rbind_eq_Inr)
  qed simp
  moreover have "b_transactions b1 = b_transactions b" using b1 by auto
  ultimately show "list_all2 same_tx (b_transactions b) (b_transactions pb)" using txs pb by fastforce
qed (use assms in \<open>auto simp: prepare_block_def rbind_eq_Inr Let_def split: if_splits\<close>)

lemma same_init_count:
  "list_all2 same_tx txs txs' \<Longrightarrow> length (filter (\<lambda>t. tx_type_group t = TYPE_GROUP_TOKEN \<and> tx_type t = TOKEN_INIT) txs')
     = length (filter (\<lambda>t. tx_type_group t = TYPE_GROUP_TOKEN \<and> tx_type t = TOKEN_INIT) txs)"
  by (induction rule: list_all2_induct) (auto simp: same_tx_def)

lemma sync_apply_one:
  assumes "sync_apply_blocks E n now now_ms [b] tip True s = (s', Inr tip')"
  shows "\<exists>bs. check_block E n s b batch_new = Inr bs" "apply_block E n b s = (s', Inr ())"
    "verify_block E b n now = []" "b_height b = ct_height tip + 1"
proof -
  obtain t where t: "rbind (rfold (link_check n now_ms) [b] tip) (\<lambda>tip.
       rbind (rfold (\<lambda>b _. crypto_check E n now True b) [b] ()) (\<lambda>_.
       rbind (check_stateful_rules E n s [b]) (\<lambda>_. Inr tip))) = Inr t"
    using assms by (auto simp: sync_apply_blocks_def split: sum.splits)
  then show "\<exists>bs. check_block E n s b batch_new = Inr bs"
    by (auto simp: check_stateful_rules_def rbind_eq_Inr)
  show "verify_block E b n now = []" "b_height b = ct_height tip + 1"
    using t by (auto simp: rbind_eq_Inr crypto_check_def link_check_def split: if_splits)
  obtain r where r: "apply_blocks E n [b] s = (s', r)"
    using assms t by (auto simp: sync_apply_blocks_def split: prod.splits sum.splits)
  then show "apply_block E n b s = (s', Inr ())"
    using assms t by (cases r) (auto simp: apply_block_def sync_apply_blocks_def)
qed

text \<open>The balances an applied block leaves: the accumulated changes on top of the old ones.\<close>

lemma applied_change:
  assumes "apply_block E n b s = (s', Inr ())"
  obtains pb enc ds where "prepare_block E n b = Inr (pb, enc)"
    and "accumulate_deltas E n (store_view E n s) [pb] pb [] = Inr ds"
    and "\<And>x. stored_balance s' x = stored_balance s x + change_at ds x"
proof -
  obtain pb enc ds sw undo out sb where pb: "prepare_block E n b = Inr (pb, enc)"
    and ds: "accumulate_deltas E n (store_view E n s) [pb] pb [] = Inr ds"
    and sw: "write_wallets_undo ds s = Inr (sw, undo, out)"
    and sb: "write_block E (nw_pubkey_hash n) (pb, enc) sw = Inr sb"
    and st: "statistics (sb\<lparr>st_undo := (let u = bt_put (b_height pb) undo (st_undo sb)
        in if b_height pb > UNDO_DEPTH then bt_del (b_height pb - UNDO_DEPTH) u else u),
        st_generation := st_generation sb + 1\<rparr>) s'"
    using apply_block_cases [OF assms] by metis
  have "distinct (map fst ds)" using accumulate_balance [OF bt_wf_Nil ds] bt_wf_distinct by blast
  then have "stored_balance sw x = stored_balance s x + change_at ds x" for x
    using write_wallets_balance sw unfolding write_wallets_undo_step by blast
  moreover have "get_wallet s' x = get_wallet sw x" for x
    using statistics_fields(1) [OF st] write_block_frame(1) [OF sb] by (simp add: get_wallet_def)
  ultimately show ?thesis using that [OF pb ds] by (simp add: stored_balance_def)
qed

text \<open>C3. Under \<open>strictBalance\<close> no wallet is overdrawn: when a block of quiet transactions (no lock release,
  no market purchase) passes the intake and is applied to a store without negative balances, the
  store it leaves has none either. The rules replay the block over their own overlay, the store
  computes the changes again and credits the forger first, and the transaction ids are filled in
  between: the two replays agree on who pays.\<close>

theorem strict_block_never_overdraws:
  assumes "sync_apply_blocks E n now now_ms [b] tip True s = (s', Inr tip')"
    and "\<forall>tx \<in> set (b_transactions b). quiet tx"
    and "b_height b > 1" and "ms_strict_balance (milestone_at n (b_height b))"
    and "uint (burned_amount n b) \<le> uint (b_reward b) + uint (b_total_fee b)"
    and "\<forall>a w. get_wallet s a = Some w \<longrightarrow> 0 \<le> w_balance w"
  shows "\<forall>a w. get_wallet s' a = Some w \<longrightarrow> 0 \<le> w_balance w"
proof -
  obtain bs where chk: "check_block E n s b batch_new = Inr bs" using sync_apply_one(1) [OF assms(1)] by blast
  obtain pb enc ds where pb: "prepare_block E n b = Inr (pb, enc)"
    and ds: "accumulate_deltas E n (store_view E n s) [pb] pb [] = Inr ds"
    and bal: "\<And>x. stored_balance s' x = stored_balance s x + change_at ds x"
    using applied_change [OF sync_apply_one(2) [OF assms(1)]] by metis
  note same = prepare_block_same [OF pb]
  have burned: "burned_amount n pb = burned_amount n b"
    using same_init_count [OF same(1)] by (simp add: burned_amount_def init_count_def same(2))
  have "covered (\<lambda>_. 0) s batch_new []"
    using assms(6) by (auto simp: covered_def delta_at_def batch_new_def change_at_def delta_of_def delta_default_def
        stored_balance_def wallet_balance_def split: option.splits)
  from covered_block [OF this same(1,3,4,5) burned assms(2-5) chk ds] have "covered (\<lambda>_. 0) s bs ds" .
  with bal have "0 \<le> stored_balance s' x" for x by (simp add: covered_def)
  then show ?thesis by (metis stored_balance_def wallet_balance_def option.simps(5))
qed

text \<open>An empty block of height 2 under \<open>strictBalance\<close>, on the store of height 1.\<close>

definition strict_network :: network where
  "strict_network = ref_network\<lparr>nw_milestones := [milestone_default\<lparr>ms_strict_balance := True\<rparr>]\<rparr>"

definition nine_crypto :: crypto where
  "nine_crypto = accept_crypto\<lparr>sha256 := (\<lambda>_. replicate 32 9)\<rparr>"

definition nine_block :: block where
  "nine_block = chain_header\<lparr>b_id := Some ref_hash\<rparr>"

lemma nine_fields:
  "hex_decode nine_crypto ref_key = Some (unhex ref_crypto ref_key)"
  "hex_decode nine_crypto ref_hash = Some (unhex ref_crypto ref_hash)"
  "hex_decode nine_crypto ref_der = Some (unhex ref_crypto ref_der)"
  "hex_encode nine_crypto (sha256 nine_crypto x) = ref_hash"
  using accept_fields(1,6,7)
  by (simp_all add: nine_crypto_def accept_crypto_def ref_hash_def) (simp add: ref_crypto_def)

lemma nine_block_fields [simp]:
  "b_height nine_block = 2" "b_transactions nine_block = []" "b_total_fee nine_block = 0"
  "b_reward nine_block = 0" "b_generator_public_key nine_block = ref_key" "b_id nine_block = Some ref_hash"
  "b_previous_block nine_block = ref_hash" "b_version nine_block = 0" "b_timestamp nine_block = 80"
  "nine_block\<lparr>b_transactions := []\<rparr> = nine_block"
  by (simp_all add: nine_block_def chain_header_def ref_block_def)

lemma strict_milestone: "milestone_at strict_network 2 = milestone_default\<lparr>ms_strict_balance := True\<rparr>"
  by (simp add: milestone_at_def strict_network_def milestone_default_def)

lemma nine_serialize: "\<exists>raw. serialize_block nine_crypto nine_block sg = Inr raw \<and> length raw < 2 ^ 32"
proof -
  have l: "length (unhex ref_crypto ref_key) = 33" "length (unhex ref_crypto ref_hash) = 32"
    "length (unhex ref_crypto ref_der) = 5"
    using ref_fields(1) ref_block_fields(1) hex_fieldD(2) by (blast, blast, code_simp)
  show ?thesis
    using nine_fields(1-3) l
    by (auto simp: serialize_block_def nine_block_def chain_header_def serialize_block_parts_def ref_block_def
        ref_block_fields w_hex_def opt_hex_def)
qed

lemma nine_block_verifies: "verify_block nine_crypto nine_block strict_network 80 = []"
proof -
  have sig: "verify_block_signature nine_crypto nine_block = Inr True"
    using nine_serialize [of False] nine_fields(1-3)
    by (auto simp: verify_block_signature_def block_signing_hash_def)
       (auto simp: nine_block_def chain_header_def ref_block_def nine_crypto_def accept_crypto_def)
  have ph: "block_payload_hash nine_crypto nine_block = Inr ref_hash"
    by (simp add: block_payload_hash_def nine_fields(4))
  have bid: "block_id nine_crypto nine_block = Inr ref_hash"
    using nine_serialize [of True] by (auto simp: block_id_def nine_fields(4))
  have "ref_hash \<noteq> []" using ref_block_fields(2) by auto
  then show ?thesis
    using sig ph bid
    by (simp add: verify_block_def Let_def strict_milestone)
       (simp add: nine_block_def chain_header_def ref_block_def err_if_def strict_milestone milestone_default_def version_errors_def
         version_ok_def block_versions_allowed_def pq_params_default_def block_pq_errors_def BLOCK_VERSION_PQ_def
         block_version_def block_params_default_def u32_len_def max_transactions_def List.map_filter_simps)
qed

lemma nine_address: "\<exists>a. address_from_public_key nine_crypto ref_key net = Inr a"
  using nine_fields(1) hex_fieldD [OF ref_fields(1)] by (simp add: address_from_public_key_def)

lemma nine_block_links:
  "link_check strict_network (10 ^ 15) nine_block \<lparr>ct_height = 1, ct_id = Some ref_hash\<rparr>
     = Inr \<lparr>ct_height = 2, ct_id = Some ref_hash\<rparr>"
proof -
  have "ms_blocktime (milestone_at strict_network 2) = 8" "nw_epoch_unix strict_network = 1693267200"
    by (simp_all add: strict_milestone milestone_default_def) (simp add: strict_network_def ref_network_def)
  then show ?thesis
    by (simp add: link_check_def future_slot_ms_def slot_number_def slot_start_def epoch_to_unix_def
        FUTURE_SLOT_GRACE_MS_def Let_def)
qed

lemma nine_block_intake:
  "\<exists>s'. sync_apply_blocks nine_crypto strict_network 80 (10 ^ 15) [nine_block] \<lparr>ct_height = 1, ct_id = Some ref_hash\<rparr>
     True tip_store = (s', Inr \<lparr>ct_height = 2, ct_id = Some ref_hash\<rparr>)"
proof -
  obtain raw where raw: "serialize_block nine_crypto nine_block True = Inr raw" using nine_serialize by blast
  then have "prepare_block nine_crypto strict_network nine_block = Inr (nine_block, frame raw)"
    by (simp add: prepare_block_def encode_block_def Let_def)
  then obtain s' where s': "apply_block nine_crypto strict_network nine_block tip_store = (s', Inr ())"
    using nine_address [of "nw_pubkey_hash strict_network"] empty_block_applies
    by (fastforce simp: strict_milestone milestone_default_def)
  have "check_stateful_rules nine_crypto strict_network tip_store [nine_block] = Inr ()"
    by (simp add: check_stateful_rules_def check_block_def block_pq_rule_def BLOCK_VERSION_PQ_def)
  with s' nine_block_links nine_block_verifies show ?thesis
    by (simp add: sync_apply_blocks_def crypto_check_def apply_block_def)
qed

theorem strict_block_never_overdraws_witness:
  "\<exists>s'. sync_apply_blocks nine_crypto strict_network 80 (10 ^ 15) [nine_block]
       \<lparr>ct_height = 1, ct_id = Some ref_hash\<rparr> True tip_store = (s', Inr \<lparr>ct_height = 2, ct_id = Some ref_hash\<rparr>)
     \<and> (\<forall>a w. get_wallet s' a = Some w \<longrightarrow> 0 \<le> w_balance w)"
proof -
  obtain s' where s': "sync_apply_blocks nine_crypto strict_network 80 (10 ^ 15) [nine_block]
      \<lparr>ct_height = 1, ct_id = Some ref_hash\<rparr> True tip_store = (s', Inr \<lparr>ct_height = 2, ct_id = Some ref_hash\<rparr>)"
    using nine_block_intake by blast
  have "\<forall>a w. get_wallet s' a = Some w \<longrightarrow> 0 \<le> w_balance w"
    by (rule strict_block_never_overdraws [OF s'])
       (simp_all add: strict_milestone burned_amount_def init_count_def get_wallet_def tip_store_def store_empty_def)
  with s' show ?thesis by blast
qed

section \<open>Token purchases are debited twice\<close>

text \<open>A token purchase is debited twice by the rules. The amount the balance rule subtracts already
  contains the price of a token purchase, and the token rule subtracts it again: after a checked
  purchase the overlay of the buyer has lost the total twice, while the store will debit it once.
  Later transactions of the buyer in the same batch are refused although the coins are there, so
  whether a valid block is accepted depends on how it was batched.\<close>

theorem token_buy_debited_twice:
  assumes "check_tx E n s h tx bs = Inr bs'" and "is_token tx" and "tx_type tx = TOKEN_BUY"
    and "address_from_public_key E (tx_sender_public_key tx) (nw_pubkey_hash n) = Inr sender"
    and "cost = uint (token_buy_total tx (batch_view E n s bs))"
  shows "delta_at bs' sender = delta_at bs sender
    - (uint (tx_amount tx) + uint (tx_fee tx) + payments_total tx + cost) - cost"
proof -
  let ?w = "batch_wallet s bs sender"
  let ?view = "batch_view E n s"
  obtain bs1 bs2 where b: "balance_rule E n s h tx sender ?w bs = Inr bs1"
    and g: "signature_rules E n h tx sender ?w bs1 = Inr bs2"
    and t: "token_rules E n s h tx sender ?w bs2 = Inr bs'"
    using assms(1,2,4) by (auto simp: check_tx_def Let_def rbind_eq_Inr)
  have group: "tx_type_group tx = TYPE_GROUP_TOKEN" using assms(2) by (simp add: is_token_def)
  have bs1: "bs1 = add_delta sender (- batch_spent tx (?view bs)) bs"
    using b group by (auto simp: balance_rule_def core_credit_def Let_def split: if_splits)
  have "bs_orders bs2 = bs_orders bs1 \<and> bs_sth_delta bs2 = bs_sth_delta bs1"
    using g by (auto simp: signature_rules_def load_keys_def Let_def rbind_eq_Inr split: option.splits)
  then have same: "bs_orders bs2 = bs_orders bs" "bs_sth_delta bs2 = bs_sth_delta bs1"
    by (simp_all add: bs1 add_delta_def)
  have order: "tv_order (?view bs2) i = tv_order (?view bs) i" for i by (simp add: batch_view_def same)
  then have total: "token_buy_total tx (?view bs2) = token_buy_total tx (?view bs)"
    by (simp add: token_buy_total_def cong: option.case_cong)
  obtain a where a: "check_token_format E tx (milestone_at n h) = Inr a"
    and c: "check_token tx a sender (?view bs2) = Inr ()"
    and bs': "bs_sth_delta bs' = bs_sth_delta (add_delta (case tv_order (?view bs2) (unwrap_or [] (ta_order_id a))
        of None \<Rightarrow> [] | Some o1 \<Rightarrow> od_seller o1) cost (add_delta sender (- cost) bs2))"
    using t assms(3,5) total
    by (auto simp: token_rules_def Let_def rbind_eq_Inr rule_err_def split: if_splits sum.splits)
  have "(case tv_order (?view bs2) (unwrap_or [] (ta_order_id a)) of None \<Rightarrow> [] | Some o1 \<Rightarrow> od_seller o1) \<noteq> sender"
    using c assms(3) by (auto simp: check_token_def Let_def rbind_eq_Inr)
  then have "delta_at bs' sender = delta_at bs2 sender - cost"
    using bs' delta_at_cong [OF bs'] by (auto simp: delta_at_add)
  moreover have "delta_at bs2 sender = delta_at bs sender - batch_spent tx (?view bs)"
    using delta_at_cong [OF same(2)] by (simp add: bs1 delta_at_add)
  ultimately show ?thesis using assms(5) by (simp add: batch_spent_def)
qed

text \<open>A buyer with coins and one open order.\<close>

definition buy_order :: "string \<Rightarrow> token_order" where
  "buy_order seller = \<lparr>od_id = ref_token_id, od_token_id = ref_token_id, od_seller = seller, od_amount = 10,
     od_filled = 0, od_price = 7, od_height = 1, od_closed = None, od_fills = []\<rparr>"

definition buy_store :: "string \<Rightarrow> store" where
  "buy_store a = store_empty\<lparr>st_wallets := [(a, (wallet_new a)\<lparr>w_balance := 50000000\<rparr>)],
     st_token_order := [(ref_token_id, buy_order (CHR ''x'' # a))]\<rparr>"

definition buy_asset :: token_asset where
  "buy_asset = token_asset_default\<lparr>ta_id := ref_token_id, ta_order_id := Some ref_token_id, ta_amount := Some 2\<rparr>"

definition buy_network :: network where
  "buy_network = ref_network\<lparr>nw_milestones := [milestone_default\<lparr>ms_tokens := True,
     ms_token_market := (ms_token_market milestone_default)\<lparr>mk_enabled := True\<rparr>\<rparr>]\<rparr>"

theorem token_buy_debited_twice_witness:
  "\<exists>a bs'. check_tx ref_crypto buy_network (buy_store a) 2 (ref_token_tx TOKEN_BUY 10000000 buy_asset) batch_new = Inr bs'
     \<and> delta_at bs' a = - 10000000 - 14 - 14"
proof -
  let ?tx = "ref_token_tx TOKEN_BUY 10000000 buy_asset"
  obtain a where a: "address_from_public_key ref_crypto ref_key (nw_pubkey_hash buy_network) = Inr a"
    using ref_address_ok by blast
  have m: "milestone_at buy_network 2 = milestone_default\<lparr>ms_tokens := True,
     ms_token_market := (ms_token_market milestone_default)\<lparr>mk_enabled := True\<rparr>\<rparr>"
    by (simp add: milestone_at_def buy_network_def milestone_default_def)
  have order: "tv_order (batch_view ref_crypto buy_network (buy_store a) bs) ref_token_id = Some (buy_order (CHR ''x'' # a))"
    if "bs_orders bs = []" for bs
    using that by (simp add: batch_view_def buy_store_def store_empty_def token_order_of_def)
  have asset: "token_asset_of ?tx = Some buy_asset"
    by (simp add: token_asset_of_def is_token_def asset_field_def ref_token_tx_def asset_default_def)
  have total: "token_buy_total ?tx (batch_view ref_crypto buy_network (buy_store a) bs) = 14"
    if "bs_orders bs = []" for bs
    using order [OF that] asset
    by (simp add: token_buy_total_def ref_token_tx_def)
       (simp add: buy_asset_def buy_order_def saturating_mul_def u64_max_def)
  define w where "w = Some ((wallet_new a)\<lparr>w_balance := 50000000\<rparr>)"
  have w: "batch_wallet (buy_store a) batch_new a = w"
    by (simp add: batch_wallet_def delta_at_def batch_new_def get_wallet_def buy_store_def store_empty_def w_def)
  have plain: "\<not> is_pq ?tx" "tx_type ?tx = TOKEN_BUY" "tx_type_group ?tx = TYPE_GROUP_TOKEN" "tx_fee ?tx = 10000000"
    "is_token ?tx" "tx_amount ?tx = 0" "payments_total ?tx = 0" "tx_sender_public_key ?tx = ref_key"
    "second_signature_any ?tx = None"
    by (simp_all add: is_pq_def VERSION_PQ_def ref_token_tx_def ref_transfer_def is_token_def payments_total_def
        asset_field_def asset_default_def second_signature_any_def)
  define bs1 where "bs1 = add_delta a (- 10000014) batch_new"
  have bal: "balance_rule ref_crypto buy_network (buy_store a) 2 ?tx a w batch_new = Inr bs1"
    using plain total [of batch_new]
    by (simp add: balance_rule_def batch_spent_def w_def wallet_balance_def core_credit_def bs1_def
        batch_new_def [THEN arg_cong, of bs_orders] Let_def)
  define bs2 where "bs2 = load_keys a w bs1"
  have keys: "key_of bs2 a = None" "pq_key_of bs2 a = None" "bs_orders bs2 = []"
    by (simp_all add: bs2_def load_keys_def bs1_def add_delta_def batch_new_def key_of_def pq_key_of_def w_def
        wallet_new_def)
  have sig: "signature_rules ref_crypto buy_network 2 ?tx a w bs1 = Inr bs2"
    using plain keys by (simp add: signature_rules_def Let_def bs2_def [symmetric] check_pq_def rule_err_def
        check_second_signature_def registered_second_key_def)
  have fmt: "check_token_format ref_crypto ?tx (milestone_at buy_network 2) = Inr buy_asset"
    using ref_token_id_hex asset plain m
    by (simp add: check_token_format_def token_type_fee_def m)
       (simp add: ref_token_defs buy_asset_def)
  have chk: "check_token ?tx buy_asset a (batch_view ref_crypto buy_network (buy_store a) bs2) = Inr ()"
    using order [OF keys(3)] plain
    by (simp add: check_token_def Let_def buy_asset_def)
       (simp add: buy_order_def order_is_open_def order_remaining_def)
  obtain bs' where ok: "check_tx ref_crypto buy_network (buy_store a) 2 ?tx batch_new = Inr bs'"
    using a w bal sig fmt chk plain total [OF keys(3)] m
    by (simp add: check_tx_def token_rules_def rule_err_def Let_def w_def wallet_balance_def)
  have "14 = uint (token_buy_total ?tx (batch_view ref_crypto buy_network (buy_store a) batch_new))"
    using total [of batch_new] by (simp add: batch_new_def)
  from token_buy_debited_twice [OF ok plain(5,2) _ this] a plain have "delta_at bs' a = - 10000000 - 14 - 14"
    by (simp add: delta_at_def [of "batch_new"]) (simp add: batch_new_def)
  with ok show ?thesis by blast
qed

end
