(* ===== verification/Replay.thy ===== *)
theory Replay
  imports StatefulProps
begin

text \<open>
  What the block intake does with a transaction the chain already holds. The nonce of a transaction is
  checked by the pool (\<open>src/src/mempool.rs\<close>) and by the selection of a forger
  (\<open>src/src/delegate/block_builder.rs\<close>), and by nobody else: neither the block verification nor the
  stateful rules of \<open>src/src/sync.rs\<close> read it, none of them looks the id up in the store, and the store
  counts the sender's nonce up by one whatever the transaction says.
\<close>

section \<open>The intake of a block with one transfer\<close>

definition plain_transfer :: "transaction \<Rightarrow> bool" where
  "plain_transfer tx \<longleftrightarrow> tx_type_group tx = TYPE_GROUP_CORE \<and> tx_type tx = TRANSFER \<and> \<not> is_pq tx
     \<and> second_signature_any tx = None \<and> tx_asset tx = None"

lemma plain_transfer_groups:
  assumes "plain_transfer tx"
  shows "\<not> is_token tx" "\<not> is_sobj tx" "sobj_asset_of tx = None" "token_asset_of tx = None" "payments_total tx = 0"
    "token_buy_total tx view = 0"
  using assms by (simp_all add: plain_transfer_def is_token_def is_sobj_def sobj_asset_of_def token_asset_of_def
      payments_total_def asset_field_def token_buy_total_def)

lemma signature_rules_plain:
  assumes "plain_transfer tx" and "w_second_public_key w = None" and "w_pq_key w = None"
    and "bs_keys bs = []" and "bs_pq_keys bs = []"
  shows "\<exists>bs'. signature_rules E n h tx a (Some w) bs = Inr bs'"
  using assms
  by (simp add: plain_transfer_def signature_rules_def load_keys_def key_of_def pq_key_of_def Let_def check_pq_def
      rule_err_def check_second_signature_def registered_second_key_def)

lemma plain_transfer_checks:
  assumes tx: "plain_transfer tx"
    and a: "address_from_public_key E (tx_sender_public_key tx) (nw_pubkey_hash n) = Inr a"
    and w: "get_wallet s a = Some w" "w_second_public_key w = None" "w_pq_key w = None"
    and funds: "uint (tx_amount tx) + uint (tx_fee tx) \<le> w_balance w"
  shows "\<exists>bs. check_tx E n s h tx batch_new = Inr bs"
proof -
  have bw: "batch_wallet s batch_new a = Some w"
    by (simp add: batch_wallet_def delta_at_def batch_new_def w(1))
  note g = plain_transfer_groups [OF tx]
  define bs1 where "bs1 = core_credit E n s tx a (add_delta a (- (uint (tx_amount tx) + uint (tx_fee tx))) batch_new)"
  have "balance_rule E n s h tx a (Some w) batch_new = Inr bs1"
    using funds by (simp add: balance_rule_def batch_spent_def g wallet_balance_def bs1_def Let_def)
  moreover have "bs_keys bs1 = []" "bs_pq_keys bs1 = []"
    using tx by (simp_all add: bs1_def core_credit_def plain_transfer_def add_delta_def batch_new_def split: option.splits)
  then obtain bs2 where "signature_rules E n h tx a (Some w) bs1 = Inr bs2"
    using signature_rules_plain [OF tx w(2,3)] by blast
  ultimately show ?thesis by (simp add: check_tx_def a bw g Let_def)
qed

lemma transfer_deltas:
  assumes tx: "plain_transfer tx" and b: "b_transactions b = [tx]"
    and a: "address_from_public_key E (tx_sender_public_key tx) (nw_pubkey_hash n) = Inr a"
    and g: "address_from_public_key E (b_generator_public_key b) (nw_pubkey_hash n) = Inr g"
  shows "accumulate_deltas E n V batch b [] = Inr (transfer_delta b tx a (sender_delta tx a (forger_delta n b g [])))"
    and "burned_amount n b = 0"
  using assms plain_transfer_groups [OF tx]
  by (simp_all add: accumulate_deltas_def tx_delta_def core_delta_def plain_transfer_def burned_amount_def init_count_def
      Let_def)

definition paid :: "block \<Rightarrow> transaction \<Rightarrow> string \<Rightarrow> string \<Rightarrow> string \<Rightarrow> int" where
  "paid b tx a g x =
     (if tx_recipient tx = Some x then uint (tx_amount tx) else 0)
     - (if x = a then uint (tx_amount tx) + uint (tx_fee tx) else 0)
     + (if x = g then uint (b_reward b) + uint (b_total_fee b) else 0)"

lemma transfer_deltas_change:
  assumes "burned_amount n b = 0"
  shows "change_at (transfer_delta b tx a (sender_delta tx a (forger_delta n b g []))) x = paid b tx a g x"
  by (simp add: transfer_change sender_change forger_change assms paid_def change_at_def [of "[]"] delta_of_def delta_default_def)

lemma applied_transfer_balances:
  assumes app: "apply_block E n b s = (s', Inr ())" and b: "b_transactions b = [tx]" and tx: "plain_transfer tx"
    and a: "address_from_public_key E (tx_sender_public_key tx) (nw_pubkey_hash n) = Inr a"
    and g: "address_from_public_key E (b_generator_public_key b) (nw_pubkey_hash n) = Inr g"
  shows "stored_balance s' x = stored_balance s x + paid b tx a g x"
proof -
  obtain pb enc ds where pb: "prepare_block E n b = Inr (pb, enc)"
    and ds: "accumulate_deltas E n (store_view E n s) [pb] pb [] = Inr ds"
    and bal: "\<And>x. stored_balance s' x = stored_balance s x + change_at ds x"
    using applied_change [OF app] by metis
  note same = prepare_block_same [OF pb]
  obtain i where tx': "b_transactions pb = [tx\<lparr>tx_id := i\<rparr>]"
    using same(1) b by (auto simp: list_all2_Cons1 same_tx_def)
  let ?tx = "tx\<lparr>tx_id := i\<rparr>"
  have plain: "plain_transfer ?tx" using tx by (simp add: plain_transfer_def is_pq_def second_signature_any_def cong: option.case_cong)
  have a': "address_from_public_key E (tx_sender_public_key ?tx) (nw_pubkey_hash n) = Inr a" using a by simp
  have g': "address_from_public_key E (b_generator_public_key pb) (nw_pubkey_hash n) = Inr g" using g same(3) by simp
  have "ds = transfer_delta pb ?tx a (sender_delta ?tx a (forger_delta n pb g []))"
    using transfer_deltas(1) [OF plain tx' a' g'] ds by simp
  then have "change_at ds x = paid b tx a g x"
    using transfer_deltas_change [OF transfer_deltas(2) [OF plain tx' a' g']] same(4,5) by (simp add: paid_def)
  then show ?thesis by (simp add: bal)
qed

text \<open>C32. A transfer the chain already holds is paid again: the intake accepts a verified, linked block with
  one plain transfer whenever its sender can pay, and the store moves the amount and the fee. Nothing
  is asked about the nonce of the transaction or about the block that already contains it, so a
  delegate can put an old transfer into a block of its own as often as the sender's balance allows.\<close>

theorem replayed_transfer_is_paid_again:
  assumes b: "b_transactions b = [tx]" "b_version b \<noteq> BLOCK_VERSION_PQ" "b_id b = Some i"
    and tx: "plain_transfer tx"
    and a: "address_from_public_key E (tx_sender_public_key tx) (nw_pubkey_hash n) = Inr a"
    and g: "address_from_public_key E (b_generator_public_key b) (nw_pubkey_hash n) = Inr g"
    and w: "get_wallet s a = Some w" "w_second_public_key w = None" "w_pq_key w = None"
    and funds: "uint (tx_amount tx) + uint (tx_fee tx) \<le> w_balance w"
    and ok: "verify_block E b n now = []" "link_check n now_ms b tip = Inr tip'"
    and app: "apply_block E n b s = (s', Inr ())"
  shows "sync_apply_blocks E n now now_ms [b] tip True s = (s', Inr tip')
     \<and> (\<forall>x. stored_balance s' x = stored_balance s x + paid b tx a g x)"
proof -
  obtain bs where "check_tx E n s (b_height b) tx batch_new = Inr bs"
    using plain_transfer_checks [OF tx a w funds] by blast
  then have "check_stateful_rules E n s [b] = Inr ()"
    using b by (simp add: check_stateful_rules_def check_block_def block_pq_rule_def)
  then have "sync_apply_blocks E n now now_ms [b] tip True s = (s', Inr tip')"
    using b(3) ok app by (simp add: sync_apply_blocks_def crypto_check_def apply_block_def)
  with applied_transfer_balances [OF app b(1) tx a g] show ?thesis by blast
qed

section \<open>A replayed transfer\<close>

text \<open>Wallet changes that touch balances, nonces and the forger's counters only are always writable.\<close>

definition light :: "deltas \<Rightarrow> bool" where
  "light ds \<longleftrightarrow> (\<forall>x. wd_tokens (delta_of x ds) = [] \<and> wd_token_meta (delta_of x ds) = [] \<and> wd_token_supply (delta_of x ds) = []
     \<and> wd_nonce (delta_of x ds) \<le> 1)"

lemma light_transfer:
  "light (transfer_delta b tx a (sender_delta tx a (forger_delta n b g [])))"
  by (auto simp: light_def transfer_delta_def sender_delta_def forger_delta_def Let_def delta_of_upd add_balance_def
      delta_of_def [of _ "[]"] delta_default_def split: option.splits prod.splits)

lemma light_apply:
  assumes "light ds" and "i64_try_from (w_balance w + change_at ds a) \<noteq> None" and "uint (w_nonce w) + 1 < 2 ^ 64"
  shows "\<exists>w'. wallet_apply (delta_of a ds) w = Inr w'"
proof -
  have "uint (wd_nonce (delta_of a ds)) \<le> 1" using assms(1) by (simp add: light_def word_le_def)
  then have "uint (w_nonce w) + uint (wd_nonce (delta_of a ds)) < 2 ^ 64" using assms(3) by linarith
  then show ?thesis
    using assms by (auto simp: wallet_apply_def light_def change_at_def checked_add_def Let_def)
qed

lemma write_wallets_succeeds:
  assumes "distinct (map fst ds)"
    and "\<forall>ad \<in> set ds. \<exists>w. wallet_apply (snd ad) (unwrap_or (wallet_new (fst ad)) (get_wallet s (fst ad))) = Inr w"
  shows "\<exists>acc. rfold write_step ds (s, undo, out) = Inr acc"
  using assms
proof (induction ds arbitrary: s undo out)
  case (Cons ad ds)
  obtain a d where ad: "ad = (a, d)" by (cases ad)
  obtain s1 u w where w1: "write_wallet (a, d) s = Inr (s1, u, w)"
    using Cons.prems(2) by (auto simp: ad write_wallet_def Let_def)
  have "get_wallet s1 k = get_wallet s k" if "k \<noteq> a" for k
    using write_wallet_ok(3) [OF w1] that by (simp add: get_wallet_def)
  moreover have "\<forall>kd \<in> set ds. fst kd \<noteq> a" using Cons.prems(1) by (auto simp: ad)
  ultimately have "\<forall>kd \<in> set ds. \<exists>w. wallet_apply (snd kd) (unwrap_or (wallet_new (fst kd)) (get_wallet s1 (fst kd))) = Inr w"
    using Cons.prems(2) by simp
  with Cons.IH Cons.prems(1) w1 show ?case by (simp add: ad write_step_def)
qed simp

lemma light_writes:
  assumes ds: "light ds" "distinct (map fst ds)"
    and room: "\<And>x. i64_try_from (stored_balance s x + change_at ds x) \<noteq> None"
      "\<And>x w. get_wallet s x = Some w \<Longrightarrow> uint (w_nonce w) + 1 < 2 ^ 64"
  obtains sw undo out where "write_wallets_undo ds s = Inr (sw, undo, out)"
proof -
  have "\<exists>w. wallet_apply d (unwrap_or (wallet_new x) (get_wallet s x)) = Inr w" if "(x, d) \<in> set ds" for x d
  proof -
    have "d = delta_of x ds" using that ds(2) by (simp add: delta_of_def bt_get_def)
    moreover have "\<exists>w. wallet_apply (delta_of x ds) (unwrap_or (wallet_new x) (get_wallet s x)) = Inr w"
      using room(1) [of x] room(2) [of x]
      by (intro light_apply [OF ds(1)])
         (auto simp: stored_balance_def wallet_balance_def wallet_new_def split: option.splits)
    ultimately show ?thesis by simp
  qed
  then have "\<forall>ad \<in> set ds. \<exists>w. wallet_apply (snd ad) (unwrap_or (wallet_new (fst ad)) (get_wallet s (fst ad))) = Inr w"
    by (metis prod.collapse)
  then show thesis
    using write_wallets_succeeds [OF ds(2)] that unfolding write_wallets_undo_step by (metis prod_cases3)
qed

definition ref_sender :: string where "ref_sender = str_of_bytes (63 # replicate 20 2)"

lemma ref_sender_address: "address_from_public_key accept_crypto ref_key 63 = Inr ref_sender" "ref_sender \<noteq> ref_address"
  by code_simp+

definition replay_store :: "string \<Rightarrow> store" where
  "replay_store i = tip_store\<lparr>st_wallets := [(ref_sender, (wallet_new ref_sender)\<lparr>w_balance := 10 ^ 9, w_nonce := 5\<rparr>)],
     st_txs := [(i, 1)]\<rparr>"

text \<open>A verified block stays verified when its own id is filled in.\<close>

lemma verify_block_with_id:
  assumes "verify_block E b n now = []" and "b_id b = None" and "block_id E b = Inr i"
  shows "verify_block E (b\<lparr>b_id := Some i\<rparr>) n now = []"
proof -
  have "block_id E (b\<lparr>b_id := Some i\<rparr>) = block_id E b"
    "verify_block_signature E (b\<lparr>b_id := Some i\<rparr>) = verify_block_signature E b"
    "block_payload_hash E (b\<lparr>b_id := Some i\<rparr>) = block_payload_hash E b"
    by (simp_all add: block_id_def verify_block_signature_def block_signing_hash_def block_payload_hash_def
        serialize_block_def serialize_block_parts_def cong: option.case_cong)
  moreover have "version_ok n (b\<lparr>b_id := Some i\<rparr>) = version_ok n b" by (simp add: version_ok_def)
  then have "block_pq_errors (b\<lparr>b_id := Some i\<rparr>) = block_pq_errors b" "version_errors n (b\<lparr>b_id := Some i\<rparr>) = version_errors n b"
    by (simp_all add: block_pq_errors_def version_errors_def cong: option.case_cong)
  ultimately have "verify_block E (b\<lparr>b_id := Some i\<rparr>) n now = verify_block E b n now"
    using assms(2,3) by (simp add: verify_block_def Let_def case_prod_unfold err_if_def [of False] cong: sum.case_cong)
  with assms(1) show ?thesis by simp
qed

text \<open>The id of the genesis block plays no part in what the intake checks of a later block.\<close>

lemma regenesis:
  "milestone_at (n\<lparr>nw_genesis_block_id := i\<rparr>) h = milestone_at n h"
  "block_versions_allowed (n\<lparr>nw_genesis_block_id := i\<rparr>) h = block_versions_allowed n h"
  "version_errors (n\<lparr>nw_genesis_block_id := i\<rparr>) b = version_errors n b"
  "link_check (n\<lparr>nw_genesis_block_id := i\<rparr>) now_ms b tip = link_check n now_ms b tip"
proof -
  show m: "milestone_at (n\<lparr>nw_genesis_block_id := i\<rparr>) h = milestone_at n h" for h
    by (simp add: milestone_at_def cong: option.case_cong)
  show v: "block_versions_allowed (n\<lparr>nw_genesis_block_id := i\<rparr>) h = block_versions_allowed n h" for h
    by (simp add: block_versions_allowed_def pq_blocks_activation_height_def m Let_def)
  show "version_errors (n\<lparr>nw_genesis_block_id := i\<rparr>) b = version_errors n b"
    unfolding version_errors_def version_ok_def v m ..
  show "link_check (n\<lparr>nw_genesis_block_id := i\<rparr>) now_ms b tip = link_check n now_ms b tip"
    by (simp add: link_check_def future_slot_ms_def slot_start_def epoch_to_unix_def m Let_def)
qed

lemma regenesis_verify: "verify_block E b (n\<lparr>nw_genesis_block_id := i\<rparr>) now = verify_block E b n now"
  by (simp add: verify_block_def regenesis)

text \<open>The block over one accepted transaction, with its own id filled in, verifies and serializes.\<close>

lemma one_tx_block_with_id:
  assumes acc: "accepted_tx tx"
  obtains j raw where "verify_block accept_crypto ((one_tx_block tx)\<lparr>b_id := Some j\<rparr>) ref_network 80 = []"
    and "serialize_block accept_crypto ((one_tx_block tx)\<lparr>b_id := Some j\<rparr>) True = Inr raw"
proof -
  let ?b = "one_tx_block tx"
  have v: "verify_block accept_crypto ?b ref_network 80 = []" by (rule one_tx_block_verifies [OF acc])
  obtain i d where i: "tx_id tx = Some i" "hex_decode accept_crypto i = Some d" "tx_sequence tx = None"
    using acc by (auto simp: accepted_tx_def)
  obtain p where p: "b_payload_hash ?b = hex_encode accept_crypto p"
    using i by (auto simp: one_tx_block_def Let_def block_payload_hash_def)
  obtain d' where d': "hex_decode accept_crypto (hex_encode accept_crypto p) = Some d'" using accept_fields(8) by blast
  have f: "b_previous_block ?b = ref_hash" "b_generator_public_key ?b = ref_key" "b_block_signature ?b = Some ref_der"
    "b_pq_signature ?b = None" "b_id ?b = None"
    by (simp_all add: one_tx_block_def Let_def ref_block_def)
  obtain raw where raw: "serialize_block accept_crypto ?b True = Inr raw"
    using accept_fields(1,6,7) d'
    by (auto simp: serialize_block_def serialize_block_parts_def w_hex_def opt_hex_def ref_block_fields f p)
  then obtain j where j: "block_id accept_crypto ?b = Inr j" by (auto simp: block_id_def)
  have "serialize_block accept_crypto (?b\<lparr>b_id := Some j\<rparr>) True = serialize_block accept_crypto ?b True"
    by (simp add: serialize_block_def serialize_block_parts_def cong: option.case_cong)
  with raw verify_block_with_id [OF v f(5) j] that show thesis by simp
qed

text \<open>The transfer of the reference block, its sender with the coins for it, the transfer long stored.\<close>

definition replay_block :: "string \<Rightarrow> block" where
  "replay_block j = (one_tx_block ref_signed_transfer)\<lparr>b_id := Some j\<rparr>"

lemma ref_signed_plain:
  "plain_transfer ref_signed_transfer" "tx_sender_public_key ref_signed_transfer = ref_key"
  "tx_amount ref_signed_transfer = 250000000" "tx_fee ref_signed_transfer = 10000000"
  "tx_recipient ref_signed_transfer = Some ref_address" "tx_nonce ref_signed_transfer = Some 5"
  by (simp_all add: ref_signed_transfer_def with_id_def ref_transfer_def plain_transfer_def is_pq_def VERSION_PQ_def
      second_signature_any_def split: sum.splits)

lemma replay_block_fields [simp]:
  "b_transactions (replay_block j) = [ref_signed_transfer]" "b_version (replay_block j) = 0" "b_id (replay_block j) = Some j"
  "b_generator_public_key (replay_block j) = ref_key" "b_height (replay_block j) = 2" "b_timestamp (replay_block j) = 80"
  "b_previous_block (replay_block j) = ref_hash" "b_reward (replay_block j) = 0" "b_total_fee (replay_block j) = 10000000"
  "(replay_block j)\<lparr>b_transactions := [ref_signed_transfer]\<rparr> = replay_block j"
  by (simp_all add: replay_block_def one_tx_block_def Let_def ref_block_def ref_signed_plain)

lemma replay_block_verifies:
  obtains j raw where "verify_block accept_crypto (replay_block j) ref_network 80 = []"
    and "serialize_block accept_crypto (replay_block j) True = Inr raw"
  by (rule one_tx_block_with_id [OF ref_signed_transfer_accepted, folded replay_block_def]) (rule that)

lemma replay_link:
  "link_check ref_network (10 ^ 15) (replay_block j) \<lparr>ct_height = 1, ct_id = Some ref_hash\<rparr>
     = Inr \<lparr>ct_height = 2, ct_id = Some j\<rparr>"
proof -
  have "ms_blocktime (milestone_at ref_network 2) = 8" "nw_epoch_unix ref_network = 1693267200"
    by (simp_all add: milestone_at_def ref_network_def milestone_default_def)
  then show ?thesis
    by (simp add: link_check_def future_slot_ms_def slot_number_def slot_start_def epoch_to_unix_def
        FUTURE_SLOT_GRACE_MS_def Let_def)
qed

lemma replay_block_applies:
  assumes ser: "serialize_block accept_crypto (replay_block j) True = Inr raw"
  shows "\<exists>s'. apply_block accept_crypto ref_network (replay_block j) (replay_store i) = (s', Inr ())"
proof -
  let ?b = "replay_block j" and ?s = "replay_store i" and ?E = accept_crypto
  have net: "nw_pubkey_hash ref_network = 63" by (simp add: ref_network_def)
  obtain k where k: "tx_id ref_signed_transfer = Some k" "transaction_id ?E ref_signed_transfer = Inr k"
    using ref_signed_transfer_accepted by (auto simp: accepted_tx_def)
  obtain t where t: "serialize_transaction ?E ref_signed_transfer opts_default 63 = Inr t"
    using k(2) by (auto simp: transaction_id_def rbind_eq_Inr MAINNET_PUBKEY_HASH_def)
  obtain enc where prep: "prepare_block ?E ref_network ?b = Inr (?b, enc)"
    using ser t k(1) by (simp add: prepare_block_def fill_tx_id_def encode_block_def Let_def net)
  have addr: "address_from_public_key ?E (tx_sender_public_key ref_signed_transfer) (nw_pubkey_hash ref_network) = Inr ref_sender"
    "address_from_public_key ?E (b_generator_public_key ?b) (nw_pubkey_hash ref_network) = Inr ref_sender"
    by (simp_all add: ref_signed_plain net ref_sender_address)
  define ds where "ds = transfer_delta ?b ref_signed_transfer ref_sender (sender_delta ref_signed_transfer ref_sender
      (forger_delta ref_network ?b ref_sender []))"
  have acc: "accumulate_deltas ?E ref_network V [?b] ?b [] = Inr ds" for V
    unfolding ds_def by (rule transfer_deltas(1) [OF ref_signed_plain(1) _ addr]) simp
  have change: "change_at ds x = paid ?b ref_signed_transfer ref_sender ref_sender x" for x
    unfolding ds_def by (rule transfer_deltas_change [OF transfer_deltas(2) [OF ref_signed_plain(1) _ addr]]) simp
  have light: "light ds" unfolding ds_def by (rule light_transfer)
  have distinct: "distinct (map fst ds)" using accumulate_balance [OF bt_wf_Nil acc] bt_wf_distinct by blast
  have wallet: "get_wallet ?s x = (if x = ref_sender then Some ((wallet_new ref_sender)\<lparr>w_balance := 10 ^ 9, w_nonce := 5\<rparr>) else None)" for x
    by (simp add: get_wallet_def replay_store_def)
  have "i64_try_from (stored_balance ?s x + change_at ds x) \<noteq> None" for x
    by (simp add: stored_balance_def wallet_balance_def wallet change paid_def ref_signed_plain i64_try_from_def
        i64_min_def i64_max_def)
  moreover have "uint (w_nonce w) + 1 < 2 ^ 64" if "get_wallet ?s x = Some w" for x w
    using that by (auto simp: wallet split: if_splits)
  ultimately obtain sw undo out where sw: "write_wallets_undo ds ?s = Inr (sw, undo, out)"
    using light_writes [OF light distinct] by metis
  obtain sb where sb: "write_block ?E 63 (?b, enc) sw = Inr sb"
    using addr k by (simp add: write_block_def index_tx_def tx_addresses_def Let_def net)
  have "get_last_height ?s = 1" "st_block_ids ?s = []" "st_blocks ?s = []"
    "ms_active_delegates (milestone_at ref_network 2) = 21" "b_height ?b = 2"
    by (simp_all add: replay_store_def tip_store_def store_empty_def get_last_height_def milestone_at_def ref_network_def
        milestone_default_def)
  with height_two_applies [OF prep acc sw] sb show ?thesis by (simp add: net)
qed

theorem replayed_transfer_is_paid_again_witness:
  "\<exists>i j s'. tx_id ref_signed_transfer = Some i \<and> tx_nonce ref_signed_transfer = Some 5
     \<and> bt_get (st_txs (replay_store i)) i = Some 1 \<and> map_option w_nonce (get_wallet (replay_store i) ref_sender) = Some 5
     \<and> sync_apply_blocks accept_crypto ref_network 80 (10 ^ 15) [replay_block j] \<lparr>ct_height = 1, ct_id = Some ref_hash\<rparr> True
         (replay_store i) = (s', Inr \<lparr>ct_height = 2, ct_id = Some j\<rparr>)
     \<and> stored_balance s' ref_address = 250000000 \<and> stored_balance s' ref_sender = 10 ^ 9 - 250000000"
proof -
  obtain i where i: "tx_id ref_signed_transfer = Some i" using ref_signed_transfer_accepted by (auto simp: accepted_tx_def)
  obtain j raw where j: "verify_block accept_crypto (replay_block j) ref_network 80 = []"
    "serialize_block accept_crypto (replay_block j) True = Inr raw"
    using replay_block_verifies by metis
  obtain s' where s': "apply_block accept_crypto ref_network (replay_block j) (replay_store i) = (s', Inr ())"
    using replay_block_applies [OF j(2)] by blast
  have w: "get_wallet (replay_store i) ref_sender = Some ((wallet_new ref_sender)\<lparr>w_balance := 10 ^ 9, w_nonce := 5\<rparr>)"
    "get_wallet (replay_store i) ref_address = None"
    using ref_sender_address(2) by (simp_all add: get_wallet_def replay_store_def)
  have paid_again: "sync_apply_blocks accept_crypto ref_network 80 (10 ^ 15) [replay_block j] \<lparr>ct_height = 1, ct_id = Some ref_hash\<rparr> True
         (replay_store i) = (s', Inr \<lparr>ct_height = 2, ct_id = Some j\<rparr>)
     \<and> (\<forall>x. stored_balance s' x = stored_balance (replay_store i) x + paid (replay_block j) ref_signed_transfer ref_sender ref_sender x)"
    by (rule replayed_transfer_is_paid_again [OF _ _ _ ref_signed_plain(1) _ _ w(1) _ _ _ j(1) replay_link s'])
       (simp_all add: BLOCK_VERSION_PQ_def ref_signed_plain ref_sender_address wallet_new_def ref_network_def)
  then have "stored_balance s' ref_address = 250000000" "stored_balance s' ref_sender = 10 ^ 9 - 250000000"
    using ref_sender_address(2) by (simp_all add: stored_balance_def [of "replay_store i"] w wallet_balance_def paid_def ref_signed_plain)
  moreover have "bt_get (st_txs (replay_store i)) i = Some 1" "map_option w_nonce (get_wallet (replay_store i) ref_sender) = Some 5"
    by (simp_all add: w) (simp add: replay_store_def)
  ultimately show ?thesis using paid_again i ref_signed_plain(6) by blast
qed

end
