(* ===== verification/IntakeProps.thy ===== *)
theory IntakeProps
  imports Intake Rollback Replay
begin

text \<open>
  What the two ways a block reaches the store check about it. The path through \<open>sync::apply_blocks\<close> verifies
  the block but never asks whose slot it takes; the swap of two blocks at the tip
  (\<open>prefer_earlier_slot\<close> in \<open>src/src/intake.rs\<close>) goes to the store directly and checks the signature only.
\<close>

section \<open>Empty blocks\<close>

definition forger_paid :: "block \<Rightarrow> string \<Rightarrow> string \<Rightarrow> int" where
  "forger_paid b g x = (if x = g then uint (b_reward b) + uint (b_total_fee b) else 0)"

lemma empty_block_deltas:
  assumes b: "b_transactions b = []"
    and g: "address_from_public_key E (b_generator_public_key b) (nw_pubkey_hash n) = Inr g"
  shows "accumulate_deltas E n V batch b [] = Inr (forger_delta n b g [])"
    and "change_at (forger_delta n b g []) x = forger_paid b g x" and "light (forger_delta n b g [])"
  using assms
  by (simp_all add: accumulate_deltas_def forger_change burned_amount_def init_count_def forger_paid_def change_at_def
      light_def forger_delta_def Let_def delta_of_upd add_balance_def delta_of_def [of _ "[]"] delta_default_def)

lemma applied_empty_balances:
  assumes "apply_block E n b s = (s', Inr ())" and b: "b_transactions b = []"
    and g: "address_from_public_key E (b_generator_public_key b) (nw_pubkey_hash n) = Inr g"
  shows "stored_balance s' x = stored_balance s x + forger_paid b g x"
proof -
  obtain pb enc ds where pb: "prepare_block E n b = Inr (pb, enc)"
    and ds: "accumulate_deltas E n (store_view E n s) [pb] pb [] = Inr ds"
    and bal: "\<And>x. stored_balance s' x = stored_balance s x + change_at ds x"
    using applied_change [OF assms(1)] by metis
  note same = prepare_block_same [OF pb]
  have pb': "b_transactions pb = []" using same(1) b by simp
  have "ds = forger_delta n pb g []" using empty_block_deltas(1) [OF pb'] g ds same(3) by simp
  then show ?thesis
    using empty_block_deltas(2) [OF pb'] g bal same(3-5) by (simp add: forger_paid_def)
qed

section \<open>The swap at the tip\<close>

text \<open>C31. The swap at the tip trusts the signature alone: when a block at our tip's height has our parent, an
  earlier timestamp and a signature of the key it names itself, and no certificate stands in the way,
  our tip is rolled back and the block is written by the store, which pays its generator whatever
  reward the block claims. \<open>verify_block\<close>, the stateful rules and the forging order are never asked, so
  any key can replace the tip and mint coins.\<close>

theorem earlier_slot_swap_pays_any_reward:
  assumes "b_height ours = get_last_height s" and "b_height theirs = get_last_height s"
    and "b_timestamp theirs < b_timestamp ours" and "b_previous_block theirs = b_previous_block ours"
    and "verify_block_signature E theirs = Inr True" and "no_final s (get_last_height s)"
    and "rollback_to E n (get_last_height s - 1) s = (s1, Inr t)"
    and "apply_block E n theirs s1 = (s2, Inr ())" and "b_transactions theirs = []"
    and "address_from_public_key E (b_generator_public_key theirs) (nw_pubkey_hash n) = Inr g"
  shows "prefer_earlier_slot E n ours theirs s = (s2, True)
     \<and> (\<forall>x. stored_balance s2 x = stored_balance s1 x + forger_paid theirs g x)"
proof -
  have "prefer_earlier_slot E n ours theirs s = (s2, True)"
    using assms(1-8) by (auto simp: prefer_earlier_slot_def Let_def no_final_def apply_block_def not_le split: option.splits)
  with applied_empty_balances [OF assms(8-10)] show ?thesis by blast
qed

section \<open>The generator of a block\<close>

text \<open>C37. The intake does not ask whose slot a block takes: a verified and linked empty block is applied
  and its generator is paid, whoever signed it. Neither the forging order of the round nor the
  registration of the generator is read before the block is written.\<close>

theorem unscheduled_generator_is_paid:
  assumes "b_transactions b = []" and "b_version b \<noteq> BLOCK_VERSION_PQ" and "b_id b = Some i"
    and "verify_block E b n now = []" and "link_check n now_ms b tip = Inr tip'"
    and "apply_block E n b s = (s', Inr ())"
    and "address_from_public_key E (b_generator_public_key b) (nw_pubkey_hash n) = Inr g"
  shows "sync_apply_blocks E n now now_ms [b] tip True s = (s', Inr tip')
     \<and> (\<forall>x. stored_balance s' x = stored_balance s x + forger_paid b g x)"
proof -
  have "check_stateful_rules E n s [b] = Inr ()"
    using assms(1,2) by (simp add: check_stateful_rules_def check_block_def block_pq_rule_def)
  then have "sync_apply_blocks E n now now_ms [b] tip True s = (s', Inr tip')"
    using assms(3-6) by (simp add: sync_apply_blocks_def crypto_check_def apply_block_def)
  with applied_empty_balances [OF assms(6,1,7)] show ?thesis by blast
qed

section \<open>A block nobody scheduled\<close>

lemma empty_block_on:
  assumes prep: "prepare_block E n b = Inr (b, enc)"
    and g: "address_from_public_key E (b_generator_public_key b) (nw_pubkey_hash n) = Inr g"
    and b: "b_transactions b = []" "b_height b = 2" "uint (b_reward b) + uint (b_total_fee b) < 2 ^ 63"
    and s: "st_wallets s = []" "get_last_height s = 1" "st_block_ids s = []" "st_blocks s = []"
    and ms: "ms_active_delegates (milestone_at n 2) = 21"
  shows "\<exists>s'. apply_block E n b s = (s', Inr ())"
proof -
  note d = empty_block_deltas [OF b(1) g]
  define c where "c = uint (b_reward b) + uint (b_total_fee b)"
  have "0 \<le> c" "c < 2 ^ 63" using b(3) by (simp_all add: c_def)
  then have "i64_try_from (stored_balance s x + change_at (forger_delta n b g []) x) \<noteq> None" for x
    unfolding d(2) forger_paid_def c_def [symmetric]
    by (auto simp: stored_balance_def wallet_balance_def get_wallet_def s(1) i64_try_from_def i64_min_def i64_max_def)
  moreover have "uint (w_nonce w) + 1 < 2 ^ 64" if "get_wallet s x = Some w" for x w
    using that by (simp add: get_wallet_def s(1))
  moreover have "distinct (map fst (forger_delta n b g []))"
    using accumulate_balance [OF bt_wf_Nil d(1)] bt_wf_distinct by blast
  ultimately obtain sw undo out where sw: "write_wallets_undo (forger_delta n b g []) s = Inr (sw, undo, out)"
    using light_writes [OF d(3)] by metis
  obtain sb where "write_block E (nw_pubkey_hash n) (b, enc) sw = Inr sb" by (simp add: write_block_def Let_def b)
  from height_two_applies [OF prep d(1) sw this b(2) s(2-4) ms] show ?thesis .
qed

text \<open>A store that knows the forging order of the round, which does not name the generator of the block, and no
  wallet at all.\<close>

definition round_store :: store where
  "round_store = tip_store\<lparr>st_rounds := [(1, replicate 21 \<lparr>dr_public_key = ref_hash, dr_votes = 1\<rparr>)]\<rparr>"

theorem unscheduled_generator_is_paid_witness:
  "\<exists>g s' order. forging_order nine_crypto round_store 1 = Some order \<and> ref_key \<notin> dr_public_key ` set order
     \<and> get_wallet round_store g = None \<and> b_generator_public_key nine_block = ref_key
     \<and> sync_apply_blocks nine_crypto strict_network 80 (10 ^ 15) [nine_block] \<lparr>ct_height = 1, ct_id = Some ref_hash\<rparr> True round_store
       = (s', Inr \<lparr>ct_height = 2, ct_id = Some ref_hash\<rparr>)"
proof -
  obtain raw where raw: "serialize_block nine_crypto nine_block True = Inr raw" using nine_serialize by blast
  then have prep: "prepare_block nine_crypto strict_network nine_block = Inr (nine_block, frame raw)"
    by (simp add: prepare_block_def encode_block_def Let_def)
  obtain g where g: "address_from_public_key nine_crypto (b_generator_public_key nine_block) (nw_pubkey_hash strict_network) = Inr g"
    using nine_address by auto
  obtain s' where s': "apply_block nine_crypto strict_network nine_block round_store = (s', Inr ())"
    using empty_block_on [OF prep g, of round_store]
    by (auto simp: strict_milestone milestone_default_def round_store_def tip_store_def store_empty_def get_last_height_def)
  have "set order = {\<lparr>dr_public_key = ref_hash, dr_votes = 1\<rparr>}" if "forging_order nine_crypto round_store 1 = Some order" for order
  proof -
    have "order = shuffle nine_crypto 1 (replicate 21 \<lparr>dr_public_key = ref_hash, dr_votes = 1\<rparr>)"
      using that by (simp add: forging_order_def get_round_def round_store_def)
    then have "mset order = mset (replicate 21 \<lparr>dr_public_key = ref_hash, dr_votes = 1\<rparr>)" by (simp only: shuffle_mset)
    then show ?thesis by (metis set_mset_mset set_replicate_conv_if numeral_eq_Suc nat.distinct(1))
  qed
  moreover obtain order where "forging_order nine_crypto round_store 1 = Some order"
    by (simp add: forging_order_def get_round_def round_store_def)
  moreover have "ref_key \<noteq> ref_hash" by code_simp
  moreover have "sync_apply_blocks nine_crypto strict_network 80 (10 ^ 15) [nine_block] \<lparr>ct_height = 1, ct_id = Some ref_hash\<rparr> True round_store
       = (s', Inr \<lparr>ct_height = 2, ct_id = Some ref_hash\<rparr>)
     \<and> (\<forall>x. stored_balance s' x = stored_balance round_store x + forger_paid nine_block g x)"
    by (rule unscheduled_generator_is_paid [OF _ _ _ nine_block_verifies nine_block_links s' g]) (simp_all add: BLOCK_VERSION_PQ_def)
  moreover have "get_wallet round_store g = None" by (simp add: get_wallet_def round_store_def tip_store_def store_empty_def)
  ultimately show ?thesis by auto
qed

section \<open>A tip that is swapped\<close>

lemma accept_hex:
  "hex_field accept_crypto = hex_field ref_crypto" "unhex accept_crypto = unhex ref_crypto" "der_field accept_crypto = der_field ref_crypto"
  by (simp_all add: fun_eq_iff hex_field_def unhex_def der_field_def Let_def accept_crypto_def cong: option.case_cong)

text \<open>Headers over the reference fields serialize, verify and keep their bytes under the accepting instance.\<close>

definition tip_header :: "u32 \<Rightarrow> u64 \<Rightarrow> string option \<Rightarrow> block" where
  "tip_header ts r i = chain_header\<lparr>b_timestamp := ts, b_reward := r, b_id := i\<rparr>"

lemma tip_header_fields [simp]:
  "b_height (tip_header ts r i) = 2" "b_transactions (tip_header ts r i) = []" "b_timestamp (tip_header ts r i) = ts"
  "b_previous_block (tip_header ts r i) = ref_hash" "b_generator_public_key (tip_header ts r i) = ref_key" "b_id (tip_header ts r i) = i"
  "b_reward (tip_header ts r i) = r" "b_total_fee (tip_header ts r i) = 0" "(tip_header ts r i)\<lparr>b_transactions := []\<rparr> = tip_header ts r i"
  by (simp_all add: tip_header_def chain_header_def ref_block_def)

lemma tip_header_canonical: "canonical_header accept_crypto (tip_header ts r i)"
  using ref_header_canonical unfolding canonical_header_def accept_hex
  by (simp add: tip_header_def chain_header_def ref_block_def)

lemma tip_header_block: "canonical_block accept_crypto ref_network (tip_header ts r i)"
proof -
  have l: "length (unhex ref_crypto ref_key) = 33" "length (unhex ref_crypto ref_hash) = 32" "length (unhex ref_crypto ref_der) = 5"
    using ref_fields(1) ref_block_fields(1) hex_fieldD(2) by (blast, blast, code_simp)
  have "length (header_bytes accept_crypto (tip_header ts r i)) < 2 ^ 32"
    by (simp add: header_bytes_def accept_hex tip_header_def chain_header_def ref_block_def l opt_unhex_def pq_part_def)
  with tip_header_canonical [of ts r i] show ?thesis by (simp add: canonical_block_def)
qed

lemma tip_header_id: "\<exists>j. \<forall>i. block_id accept_crypto (tip_header ts r i) = Inr j"
proof -
  let ?bytes = "\<lambda>i. header_bytes accept_crypto (tip_header ts r i)"
  have bytes: "?bytes i = ?bytes None" for i by (simp add: header_bytes_def tip_header_def)
  have "block_id accept_crypto (tip_header ts r i) = Inr (hex_encode accept_crypto (sha256 accept_crypto (?bytes None)))" for i
    unfolding block_id_def serialize_canonical_header [OF tip_header_canonical] bytes [of i] by simp
  then show ?thesis by blast
qed

lemma tip_header_signed: "verify_block_signature accept_crypto (tip_header ts r i) = Inr True"
proof -
  obtain h where h: "block_signing_hash accept_crypto (tip_header ts r i) = Inr h"
    using accept_fields(1,6,7)
    by (auto simp: block_signing_hash_def serialize_block_def serialize_block_parts_def w_hex_def opt_hex_def
        tip_header_def chain_header_def ref_block_def ref_block_fields)
  have "verify_ecdsa accept_crypto h x ref_key = Inr True" for x by (simp add: accept_crypto_def)
  with h accept_fields(7) show ?thesis
    by (simp add: verify_block_signature_def) (simp add: tip_header_def chain_header_def ref_block_def)
qed

lemma tip_header_prepare:
  assumes "block_id accept_crypto (tip_header ts r (Some j)) = Inr j"
  shows "prepare_block accept_crypto ref_network (tip_header ts r (Some j))
    = Inr (tip_header ts r (Some j), frame (header_bytes accept_crypto (tip_header ts r (Some j))))"
  using serialize_canonical_header [OF tip_header_canonical] assms by (simp add: prepare_block_def encode_block_def Let_def)

lemma tip_header_applies:
  assumes "block_id accept_crypto (tip_header ts r (Some j)) = Inr j" and "uint r < 2 ^ 63"
    and "st_wallets s = []" "get_last_height s = 1" "st_block_ids s = []" "st_blocks s = []"
  shows "\<exists>s'. apply_block accept_crypto ref_network (tip_header ts r (Some j)) s = (s', Inr ())"
  using tip_header_prepare [OF assms(1)]
  by (rule empty_block_on [where g = ref_sender])
    (use assms in \<open>simp_all add: ref_sender_address milestone_at_def ref_network_def milestone_default_def\<close>)

theorem earlier_slot_swap_pays_any_reward_witness:
  "\<exists>i j s s2. get_last_height s = 2 \<and> get_block_by_id accept_crypto ref_network s i \<noteq> Inr None
     \<and> verify_block accept_crypto (tip_header 72 (10 ^ 15) (Some j)) ref_network 80 \<noteq> []
     \<and> prefer_earlier_slot accept_crypto ref_network (tip_header 80 0 (Some i)) (tip_header 72 (10 ^ 15) (Some j)) s = (s2, True)
     \<and> stored_balance s2 ref_sender = 10 ^ 15"
proof -
  let ?E = accept_crypto and ?ours = "\<lambda>i. tip_header 80 0 (Some i)" and ?theirs = "\<lambda>j. tip_header 72 (10 ^ 15) (Some j)"
  obtain i j where ids: "block_id ?E (?ours i) = Inr i" "block_id ?E (?theirs j) = Inr j" using tip_header_id by metis
  have tip: "st_wallets tip_store = []" "get_last_height tip_store = 1" "st_block_ids tip_store = []" "st_blocks tip_store = []"
    by (simp_all add: tip_store_def store_empty_def get_last_height_def)
  obtain s where s: "apply_block ?E ref_network (?ours i) tip_store = (s, Inr ())"
    using tip_header_applies [OF ids(1) _ tip] by auto
  have t: "store_wf tip_store" "no_final tip_store 2" "transaction_count tip_store = 0"
    by (simp_all add: tip_store_def store_empty_def store_wf_def index_wf_def no_final_def latest_finality_cert_def
        transaction_count_def)
  have pre: "list_all (numbered ?E ref_network) (enumerate 0 (b_transactions (?ours i)))" "0 < get_last_height tip_store"
    "0 < b_height (?ours i)" "fresh_block ?E ref_network (?ours i) tip_store" "no_final tip_store (b_height (?ours i))"
    "uint (transaction_count tip_store) + indexed_count (?ours i) < 2 ^ 63"
    using t tip by (simp_all add: fresh_block_def indexed_count_def)
  obtain s1 where s1: "rollback_last_block ?E ref_network s = (s1, Inr 1)" "same_chain tip_store s1"
    using rollback_after_apply [OF s tip_header_block _ ids(1) pre(1-3) t(1) pre(4-6)] tip by auto
  obtain undo db enc s0 sx where left: "get_last_height s = 2" "get_block_by_height ?E ref_network s 2 = Inr (Some db)"
    "no_final s 2" "st_block_ids s = bt_put i 2 (st_block_ids tip_store)"
    by (rule applied_block_left [OF s tip_header_block _ ids(1) pre(1-3) t(1) pre(5)]) auto
  have rolled: "rollback_to ?E ref_network (get_last_height s - 1) s = (s1, Inr 1)"
  proof -
    have "rollback_loop (Suc (Suc 0)) ?E ref_network 1 2 s = (s1, Inr 1)" using s1(1) by simp
    then have "rollback_loop 2 ?E ref_network 1 2 s = (s1, Inr 1)" by (simp only: numeral_2_eq_2)
    then show ?thesis by (simp add: rollback_to_def left(1))
  qed
  obtain s2 where s2: "apply_block ?E ref_network (?theirs j) s1 = (s2, Inr ())"
    using tip_header_applies [OF ids(2), of s1] s1(2) tip by (auto simp: same_chain_def)
  have swap: "prefer_earlier_slot ?E ref_network (?ours i) (?theirs j) s = (s2, True)
      \<and> (\<forall>x. stored_balance s2 x = stored_balance s1 x + forger_paid (?theirs j) ref_sender x)"
    by (rule earlier_slot_swap_pays_any_reward [OF _ _ _ _ tip_header_signed _ rolled s2])
       (use left in \<open>simp_all add: ref_sender_address ref_network_def\<close>)
  moreover have "stored_balance s1 ref_sender = 0"
    using s1(2) tip(1) by (simp add: stored_balance_def wallet_balance_def get_wallet_def same_chain_def)
  then have "stored_balance s2 ref_sender = 10 ^ 15" using swap by (simp add: forger_paid_def)
  moreover have "verify_block ?E (?theirs j) ref_network 80 \<noteq> []"
    by (simp add: verify_block_def Let_def err_if_def milestone_at_def ref_network_def milestone_default_def)
  moreover have "get_block_by_id ?E ref_network s i \<noteq> Inr None"
    using left(2,4) by (simp add: get_block_by_id_def)
  ultimately show ?thesis using left(1) by blast
qed

end
