(* ===== verification/Guard.thy ===== *)
theory Guard
  imports Intake
begin

text \<open>
  The double-forge guard, \<open>src/src/delegate/guard.rs\<close>: blocks signed by one of our keys that another node
  forged, second blocks of one generator at one height, forks at a height, and the slots the forger gives
  up while the key is active elsewhere. The static guard is a record that is passed along, the store is
  the one it looks names up in; \<open>None\<close> stands for a guard that was never installed. Messages are left
  out: \<open>yield_reason\<close> gives the foreign block its text is made from.
\<close>

section \<open>State\<close>

datatype guard_mode = Alert | Yield

record guard_config =
  gc_enabled :: bool
  gc_mode :: guard_mode
  gc_rounds :: u64

record foreign_block =
  fb_height :: u64
  fb_id :: string
  fb_generator :: string
  fb_username :: string
  fb_peer :: string
  fb_source :: source
  fb_at_unix :: int

record competing_block =
  cb_height :: u64
  cb_ours :: string
  cb_theirs :: string
  cb_generator :: string
  cb_username :: string
  cb_peer :: string
  cb_own_key :: bool
  cb_at_unix :: int

record fork_seen =
  fs_height :: u64
  fs_ours :: string
  fs_our_generator :: string
  fs_theirs :: string
  fs_their_generator :: string
  fs_peer :: string
  fs_at_unix :: int

record guard =
  gd_cfg :: guard_config
  gd_own_keys :: "string list"
  gd_foreign :: "foreign_block list"
  gd_competing :: "competing_block list"
  gd_forks :: "fork_seen list"
  gd_own_forged :: "string list"
  gd_yielded_slots :: u64

definition KEEP :: nat where "KEEP = 50"
definition OWN_IDS :: nat where "OWN_IDS = 256"

definition guard_new :: "guard_config \<Rightarrow> string list \<Rightarrow> guard" where
  "guard_new cfg own_keys = \<lparr>gd_cfg = cfg, gd_own_keys = own_keys, gd_foreign = [], gd_competing = [], gd_forks = [],
     gd_own_forged = [], gd_yielded_slots = 0\<rparr>"

section \<open>Operations\<close>

definition short :: "string \<Rightarrow> string" where "short i = take 12 i"

definition guard_name_of :: "store \<Rightarrow> string \<Rightarrow> string" where
  "guard_name_of s pk = unwrap_or (short pk) (Option.bind (find_wallet s pk) w_username)"

definition is_fresh :: "network \<Rightarrow> u32 \<Rightarrow> guard \<Rightarrow> block \<Rightarrow> bool" where
  "is_fresh n now g b =
     (let m = milestone_at n (b_height b);
          window = max (gc_rounds (gd_cfg g)) 1 * ucast (ms_active_delegates m) * ucast (ms_blocktime m)
      in uint now - uint (b_timestamp b) \<le> sint (window :: u64))"

definition own_forged :: "string \<Rightarrow> guard \<Rightarrow> guard" where
  "own_forged i g = g\<lparr>gd_own_forged := push_bounded OWN_IDS i (gd_own_forged g)\<rparr>"

definition on_accepted :: "network \<Rightarrow> store \<Rightarrow> u32 \<Rightarrow> int \<Rightarrow> source \<Rightarrow> string \<Rightarrow> block \<Rightarrow> guard \<Rightarrow> guard" where
  "on_accepted n s now now_unix src peer b g =
     (if src = source.Forged \<or> b_generator_public_key b \<notin> set (gd_own_keys g) \<or> \<not> is_fresh n now g b then g
      else
        (let i = unwrap_or [] (b_id b) in
         if i \<in> set (gd_own_forged g) then g
         else if i \<in> fb_id ` set (gd_foreign g) then g
         else g\<lparr>gd_foreign := push_bounded KEEP
            \<lparr>fb_height = b_height b, fb_id = i, fb_generator = b_generator_public_key b,
             fb_username = guard_name_of s (b_generator_public_key b), fb_peer = peer, fb_source = src,
             fb_at_unix = now_unix\<rparr> (gd_foreign g)\<rparr>))"

definition on_same_height_fork :: "store \<Rightarrow> int \<Rightarrow> string \<Rightarrow> block \<Rightarrow> block \<Rightarrow> string \<Rightarrow> string \<Rightarrow> guard \<Rightarrow> guard" where
  "on_same_height_fork s now_unix peer ours theirs our_id their_id g =
     (if list_ex (\<lambda>f. fs_height f = b_height ours \<and> fs_theirs f = their_id) (gd_forks g) then g
      else g\<lparr>gd_forks := push_bounded KEEP
         \<lparr>fs_height = b_height ours, fs_ours = our_id, fs_our_generator = guard_name_of s (b_generator_public_key ours),
          fs_theirs = their_id, fs_their_generator = guard_name_of s (b_generator_public_key theirs), fs_peer = peer,
          fs_at_unix = now_unix\<rparr> (gd_forks g)\<rparr>)"

definition on_competing :: "crypto \<Rightarrow> store \<Rightarrow> int \<Rightarrow> string \<Rightarrow> block \<Rightarrow> block \<Rightarrow> guard \<Rightarrow> guard" where
  "on_competing E s now_unix peer ours theirs g =
     (let our_id = unwrap_or [] (b_id ours); their_id = unwrap_or [] (b_id theirs) in
      if b_height ours \<noteq> b_height theirs then g
      else if our_id = their_id \<or> their_id = [] then g
      else if verify_block_signature E theirs \<noteq> Inr True then g
      else if b_generator_public_key ours \<noteq> b_generator_public_key theirs
      then on_same_height_fork s now_unix peer ours theirs our_id their_id g
      else if list_ex (\<lambda>c. cb_height c = b_height ours \<and> cb_theirs c = their_id) (gd_competing g) then g
      else g\<lparr>gd_competing := push_bounded KEEP
         \<lparr>cb_height = b_height ours, cb_ours = our_id, cb_theirs = their_id, cb_generator = b_generator_public_key ours,
          cb_username = guard_name_of s (b_generator_public_key ours), cb_peer = peer,
          cb_own_key = (b_generator_public_key ours \<in> set (gd_own_keys g)), cb_at_unix = now_unix\<rparr> (gd_competing g)\<rparr>)"

definition window_start :: "guard \<Rightarrow> u64 \<Rightarrow> u64 \<Rightarrow> u64" where
  "window_start g next_height active = saturating_sub next_height (max (gc_rounds (gd_cfg g)) 1 * max active 1)"

definition foreign_reason :: "guard \<Rightarrow> string \<Rightarrow> u64 \<Rightarrow> u64 \<Rightarrow> foreign_block option" where
  "foreign_reason g pk next_height active =
     (if gc_mode (gd_cfg g) \<noteq> Yield then None
      else List.find (\<lambda>f. fb_generator f = pk \<and> fb_height f \<ge> window_start g next_height active) (rev (gd_foreign g)))"

definition yielding :: "guard \<Rightarrow> u64 \<Rightarrow> u64 \<Rightarrow> string list" where
  "yielding g next_height active =
     (if gc_enabled (gd_cfg g) \<and> gc_mode (gd_cfg g) = Yield
      then rev (remdups (rev (map fb_generator (filter (\<lambda>f. fb_height f \<ge> window_start g next_height active) (rev (gd_foreign g))))))
      else [])"

text \<open>The functions of the module: a guard that is not installed or disabled does nothing (but the ids of our own
  blocks are kept by a disabled one too).\<close>

definition enabled_guard :: "guard option \<Rightarrow> guard option" where
  "enabled_guard g = (case g of None \<Rightarrow> None | Some g \<Rightarrow> if gc_enabled (gd_cfg g) then Some g else None)"

definition with_guard :: "(guard \<Rightarrow> guard) \<Rightarrow> guard option \<Rightarrow> guard option" where
  "with_guard f g = (case enabled_guard g of None \<Rightarrow> g | Some g' \<Rightarrow> Some (f g'))"

definition guard_accepted :: "network \<Rightarrow> store \<Rightarrow> u32 \<Rightarrow> int \<Rightarrow> source \<Rightarrow> string \<Rightarrow> block list \<Rightarrow> guard option \<Rightarrow> guard option" where
  "guard_accepted n s now now_unix src peer bs = with_guard (fold (on_accepted n s now now_unix src peer) bs)"

definition guard_competing :: "crypto \<Rightarrow> store \<Rightarrow> int \<Rightarrow> string \<Rightarrow> block \<Rightarrow> block \<Rightarrow> guard option \<Rightarrow> guard option" where
  "guard_competing E s now_unix peer ours theirs = with_guard (on_competing E s now_unix peer ours theirs)"

definition guard_own_forged :: "string \<Rightarrow> guard option \<Rightarrow> guard option" where
  "guard_own_forged i = map_option (own_forged i)"

definition yield_reason :: "string \<Rightarrow> u64 \<Rightarrow> u64 \<Rightarrow> guard option \<Rightarrow> foreign_block option \<times> guard option" where
  "yield_reason pk next_height active g =
     (case enabled_guard g of None \<Rightarrow> (None, g)
      | Some g' \<Rightarrow>
          (case foreign_reason g' pk next_height active of None \<Rightarrow> (None, g)
           | Some f \<Rightarrow> (Some f, Some (g'\<lparr>gd_yielded_slots := gd_yielded_slots g' + 1\<rparr>))))"

section \<open>Invariant\<close>

text \<open>The queues are bounded, a foreign block is recorded once, its generator is one of our keys and it did not come
  from our own forger.\<close>

definition guard_wf :: "guard \<Rightarrow> bool" where
  "guard_wf g \<longleftrightarrow> length (gd_foreign g) \<le> KEEP \<and> length (gd_competing g) \<le> KEEP \<and> length (gd_forks g) \<le> KEEP
     \<and> length (gd_own_forged g) \<le> OWN_IDS \<and> distinct (map fb_id (gd_foreign g))
     \<and> (\<forall>f \<in> set (gd_foreign g). fb_generator f \<in> set (gd_own_keys g) \<and> fb_source f \<noteq> source.Forged)"

datatype guard_op = OwnForged string | Accepted "network \<times> store \<times> u32 \<times> int \<times> source \<times> string \<times> block"
  | Competing "crypto \<times> store \<times> int \<times> string \<times> block \<times> block"

fun guard_step :: "guard_op \<Rightarrow> guard \<Rightarrow> guard" where
  "guard_step (OwnForged i) = own_forged i"
| "guard_step (Accepted (n, s, now, now_unix, src, peer, b)) = on_accepted n s now now_unix src peer b"
| "guard_step (Competing (E, s, now_unix, peer, ours, theirs)) = on_competing E s now_unix peer ours theirs"

lemmas keep_pos = KEEP_def OWN_IDS_def

lemma on_accepted_wf:
  assumes "guard_wf g"
  shows "guard_wf (on_accepted n s now now_unix src peer b g)"
  using assms
  by (auto simp: guard_wf_def on_accepted_def Let_def keep_pos intro!: push_bounded_length push_bounded_distinct
      dest!: push_bounded_set [THEN subsetD])

lemma on_competing_wf: "guard_wf g \<Longrightarrow> guard_wf (on_competing E s now_unix peer ours theirs g)"
  by (auto simp: guard_wf_def on_competing_def on_same_height_fork_def Let_def keep_pos intro!: push_bounded_length)

lemma own_forged_wf: "guard_wf g \<Longrightarrow> guard_wf (own_forged i g)"
  by (auto simp: guard_wf_def own_forged_def keep_pos intro!: push_bounded_length)

lemma guard_step_wf: "guard_wf g \<Longrightarrow> guard_wf (guard_step st g)"
  by (cases st rule: guard_step.cases) (auto intro: own_forged_wf on_accepted_wf on_competing_wf)

lemma guard_run_wf: "guard_wf g \<Longrightarrow> guard_wf (fold guard_step sts g)"
  by (induction sts arbitrary: g) (auto intro: guard_step_wf)

lemma guard_new_wf: "guard_wf (guard_new cfg keys)"
  by (simp add: guard_wf_def guard_new_def)

section \<open>A foreign block keeps its place\<close>

text \<open>An entry with at most \<open>k\<close> entries behind it.\<close>

definition held :: "nat \<Rightarrow> 'a \<Rightarrow> 'a list \<Rightarrow> bool" where
  "held k x q \<longleftrightarrow> (\<exists>xs ys. q = xs @ x # ys \<and> length ys \<le> k)"

lemma held_new: "held 0 x (push_bounded cap x q)"
  by (auto simp: held_def push_bounded_def)

lemma held_mono:
  assumes "held k x q" and "k \<le> l"
  shows "held l x q"
proof -
  obtain xs ys where "q = xs @ x # ys" "length ys \<le> l" using assms by (auto simp: held_def)
  then show ?thesis unfolding held_def by blast
qed

lemma held_member: "held k x q \<Longrightarrow> x \<in> set q"
  by (auto simp: held_def)

lemma held_push:
  assumes "held k x q" and "k + 1 < cap"
  shows "held (k + 1) x (push_bounded cap y q)"
proof -
  obtain xs ys where q: "q = xs @ x # ys" "length ys \<le> k" using assms(1) by (auto simp: held_def)
  show ?thesis
  proof (cases "length q = cap")
    case True
    with q assms(2) have "xs \<noteq> []" by auto
    then have "push_bounded cap y q = tl xs @ x # (ys @ [y])" by (simp add: push_bounded_def True) (simp add: q)
    with q(2) show ?thesis unfolding held_def by (intro exI [of _ "tl xs"] exI [of _ "ys @ [y]"]) simp
  next
    case False
    then have "push_bounded cap y q = xs @ x # (ys @ [y])" by (simp add: push_bounded_def q(1))
    with q(2) show ?thesis unfolding held_def by (intro exI [of _ xs] exI [of _ "ys @ [y]"]) simp
  qed
qed

lemma guard_step_foreign:
  "gd_foreign (guard_step st g) = gd_foreign g \<or> (\<exists>y. gd_foreign (guard_step st g) = push_bounded KEEP y (gd_foreign g))"
  by (cases st rule: guard_step.cases)
     (auto simp: own_forged_def on_accepted_def on_competing_def on_same_height_fork_def Let_def)

lemma guard_step_cfg: "gd_cfg (guard_step st g) = gd_cfg g"
  by (cases st rule: guard_step.cases)
     (auto simp: own_forged_def on_accepted_def on_competing_def on_same_height_fork_def Let_def)

lemma guard_run_holds:
  assumes "held k x (gd_foreign g)" and "k + length sts < KEEP"
  shows "held (k + length sts) x (gd_foreign (fold guard_step sts g)) \<and> gd_cfg (fold guard_step sts g) = gd_cfg g"
  using assms
proof (induction sts arbitrary: k g)
  case (Cons st sts)
  have "held (k + 1) x (gd_foreign (guard_step st g))"
    using guard_step_foreign [of st g] held_push [OF Cons.prems(1)] held_mono [OF Cons.prems(1), of "k + 1"] Cons.prems(2) by auto
  with Cons.IH [of "k + 1"] Cons.prems(2) show ?case by (simp add: guard_step_cfg)
qed simp

lemma held_yields:
  assumes "held k f (gd_foreign g)" and "gc_enabled (gd_cfg g)" and "gc_mode (gd_cfg g) = Yield"
    and "fb_generator f = pk" and "window_start g h active \<le> fb_height f"
  shows "fst (yield_reason pk h active (Some g)) \<noteq> None"
proof -
  have "\<not> (\<nexists>f. f \<in> set (rev (gd_foreign g)) \<and> fb_generator f = pk \<and> window_start g h active \<le> fb_height f)"
    using held_member [OF assms(1)] assms(4,5) by auto
  then have "foreign_reason g pk h active \<noteq> None"
    using assms(3) unfolding foreign_reason_def find_None_iff [symmetric] by simp
  then show ?thesis using assms(2) by (auto simp: yield_reason_def enabled_guard_def)
qed

end
