(* ===== verification/AntiSpam.thy ===== *)
theory AntiSpam
  imports Models
begin

text \<open>
  The flood policy of the pool, \<open>src/src/antispam.rs\<close>: the per-peer budget and ban, the per-sender caps and
  the counters. \<open>Instant\<close>s are natural numbers (nanoseconds since the process started) passed in as
  \<open>now\<close>; \<open>duration_since\<close> saturates at zero like the subtraction of natural numbers. The log and alert
  messages are not modelled, the flag that an alert was sent is.
\<close>

section \<open>State\<close>

definition secs :: "nat \<Rightarrow> nat" where "secs k = k * 1000000000"

record antispam_config =
  sc_enabled :: bool
  sc_max_per_sender :: nat
  sc_max_bytes_per_sender :: nat
  sc_peer_tx_per_min :: u32
  sc_peer_invalid_per_min :: u32
  sc_ban_secs :: u64
  sc_replace_by_fee :: bool
  sc_deny_peers :: "string list"
  sc_alert_drops_per_min :: u64

definition antispam_config_default :: antispam_config where
  "antispam_config_default = \<lparr>sc_enabled = True, sc_max_per_sender = 64, sc_max_bytes_per_sender = 65536,
     sc_peer_tx_per_min = 600, sc_peer_invalid_per_min = 20, sc_ban_secs = 3600, sc_replace_by_fee = True,
     sc_deny_peers = [], sc_alert_drops_per_min = 500\<rparr>"

datatype tx_origin = Local | LegacyPeer string | IrohPeer string

fun origin_peer :: "tx_origin \<Rightarrow> string option" where
  "origin_peer Local = None"
| "origin_peer (LegacyPeer p) = Some p"
| "origin_peer (IrohPeer p) = Some p"

record peer_window =
  pw_started :: nat
  pw_accepted :: u32
  pw_invalid :: u32
  pw_banned_until :: "nat option"
  pw_dropped :: u64
  pw_bans :: u32

definition peer_window_new :: "nat \<Rightarrow> peer_window" where
  "peer_window_new now = \<lparr>pw_started = now, pw_accepted = 0, pw_invalid = 0, pw_banned_until = None, pw_dropped = 0, pw_bans = 0\<rparr>"

definition window_roll :: "nat \<Rightarrow> peer_window \<Rightarrow> peer_window" where
  "window_roll now w = (if now - pw_started w \<ge> secs 60 then w\<lparr>pw_started := now, pw_accepted := 0, pw_invalid := 0\<rparr> else w)"

record antispam_counters =
  ac_dropped :: u64
  ac_rate_limited :: u64
  ac_sender_limited :: u64
  ac_denied :: u64
  ac_banned_dropped :: u64
  ac_evicted :: u64
  ac_bans :: u64

record antispam =
  as_cfg :: antispam_config
  as_peers :: "(string, peer_window) btmap"
  as_counters :: antispam_counters
  as_wave :: "nat \<times> u64 \<times> bool"

datatype gate = Allow nat | Denied | Banned

section \<open>Operations\<close>

definition antispam_new :: "antispam_config \<Rightarrow> nat \<Rightarrow> antispam" where
  "antispam_new cfg now =
     \<lparr>as_cfg = cfg, as_peers = [],
      as_counters = \<lparr>ac_dropped = 0, ac_rate_limited = 0, ac_sender_limited = 0, ac_denied = 0, ac_banned_dropped = 0,
        ac_evicted = 0, ac_bans = 0\<rparr>,
      as_wave = (now, 0, False)\<rparr>"

definition tally :: "(antispam_counters \<Rightarrow> antispam_counters) \<Rightarrow> antispam \<Rightarrow> antispam" where
  "tally f a = a\<lparr>as_counters := f (as_counters a)\<rparr>"

definition drop_n :: "nat \<Rightarrow> u64 \<Rightarrow> antispam \<Rightarrow> antispam" where
  "drop_n now k a =
     (let a = tally (\<lambda>c. c\<lparr>ac_dropped := ac_dropped c + k\<rparr>) a in
      if sc_alert_drops_per_min (as_cfg a) = 0 then a
      else
        (let (start, drops, fired) = (if now - fst (as_wave a) \<ge> secs 60 then (now, 0, False) else as_wave a);
             drops = drops + k
         in a\<lparr>as_wave := (start, drops, fired \<or> drops > sc_alert_drops_per_min (as_cfg a))\<rparr>))"

definition set_window :: "string \<Rightarrow> peer_window \<Rightarrow> antispam \<Rightarrow> antispam" where
  "set_window peer w a = a\<lparr>as_peers := bt_put peer w (as_peers a)\<rparr>"

definition window_of :: "nat \<Rightarrow> string \<Rightarrow> antispam \<Rightarrow> peer_window" where
  "window_of now peer a = unwrap_or (peer_window_new now) (bt_get (as_peers a) peer)"

definition banned_at :: "nat \<Rightarrow> peer_window \<Rightarrow> bool" where
  "banned_at now w \<longleftrightarrow> (case pw_banned_until w of None \<Rightarrow> False | Some t \<Rightarrow> t > now)"

definition gate :: "nat \<Rightarrow> tx_origin \<Rightarrow> nat \<Rightarrow> antispam \<Rightarrow> antispam \<times> gate" where
  "gate now origin k a =
     (case (if sc_enabled (as_cfg a) then origin_peer origin else None) of
        None \<Rightarrow> (a, Allow k)
      | Some peer \<Rightarrow>
          if peer \<in> set (sc_deny_peers (as_cfg a))
          then (drop_n now (word_of_nat k) (tally (\<lambda>c. c\<lparr>ac_denied := ac_denied c + word_of_nat k\<rparr>) a), Denied)
          else
            (let w = window_of now peer a in
             if banned_at now w
             then (drop_n now (word_of_nat k) (tally (\<lambda>c. c\<lparr>ac_banned_dropped := ac_banned_dropped c + word_of_nat k\<rparr>)
                     (set_window peer (w\<lparr>pw_dropped := pw_dropped w + word_of_nat k\<rparr>) a)), Banned)
             else
               (let w = window_roll now (w\<lparr>pw_banned_until := None\<rparr>);
                    budget = unat (saturating_sub (sc_peer_tx_per_min (as_cfg a)) (pw_accepted w));
                    allowed = min k budget;
                    over = k - allowed;
                    w = w\<lparr>pw_accepted := pw_accepted w + word_of_nat allowed\<rparr>
                in if over > 0
                   then (drop_n now (word_of_nat over) (tally (\<lambda>c. c\<lparr>ac_rate_limited := ac_rate_limited c + word_of_nat over\<rparr>)
                           (set_window peer (w\<lparr>pw_dropped := pw_dropped w + word_of_nat over\<rparr>) a)), Allow allowed)
                   else (set_window peer w a, Allow allowed))))"

definition counts_as_invalid :: "string \<Rightarrow> bool" where
  "counts_as_invalid code \<longleftrightarrow> code = ''ERR_BAD_DATA'' \<or> code = ''ERR_WRONG_NETWORK'' \<or> code = ''ERR_UNKNOWN''"

definition note_invalid :: "nat \<Rightarrow> tx_origin \<Rightarrow> u32 \<Rightarrow> antispam \<Rightarrow> antispam \<times> bool" where
  "note_invalid now origin invalid a =
     (if invalid = 0 then (a, False)
      else (case (if sc_enabled (as_cfg a) then origin_peer origin else None) of
              None \<Rightarrow> (a, False)
            | Some peer \<Rightarrow>
                (let w = window_roll now (window_of now peer a);
                     w = w\<lparr>pw_invalid := pw_invalid w + invalid\<rparr>
                 in if pw_invalid w \<ge> sc_peer_invalid_per_min (as_cfg a) \<and> \<not> banned_at now w
                    then (tally (\<lambda>c. c\<lparr>ac_bans := ac_bans c + 1\<rparr>)
                            (set_window peer (w\<lparr>pw_banned_until := Some (now + secs (unat (sc_ban_secs (as_cfg a)))),
                               pw_bans := pw_bans w + 1\<rparr>) a), True)
                    else (set_window peer w a, False))))"

definition is_banned :: "nat \<Rightarrow> string \<Rightarrow> antispam \<Rightarrow> bool" where
  "is_banned now peer a = (case bt_get (as_peers a) peer of None \<Rightarrow> False | Some w \<Rightarrow> banned_at now w)"

definition check_sender :: "nat \<Rightarrow> nat \<Rightarrow> nat \<Rightarrow> nat \<Rightarrow> antispam \<Rightarrow> antispam \<times> (string + unit)" where
  "check_sender now pending pending_bytes sz a =
     (let limited = drop_n now 1 (tally (\<lambda>c. c\<lparr>ac_sender_limited := ac_sender_limited c + 1\<rparr>) a) in
      if \<not> sc_enabled (as_cfg a) then (a, Inr ())
      else if pending \<ge> sc_max_per_sender (as_cfg a) then (limited, Inl ''ERR_SPAM_SENDER'')
      else if pending_bytes + sz > sc_max_bytes_per_sender (as_cfg a) then (limited, Inl ''ERR_SPAM_SENDER'')
      else (a, Inr ()))"

definition replace_by_fee :: "antispam \<Rightarrow> bool" where
  "replace_by_fee a \<longleftrightarrow> sc_enabled (as_cfg a) \<and> sc_replace_by_fee (as_cfg a)"

definition note_evicted :: "antispam \<Rightarrow> antispam" where
  "note_evicted a = tally (\<lambda>c. c\<lparr>ac_evicted := ac_evicted c + 1\<rparr>) a"

record banned_peer =
  bp_peer :: string
  bp_seconds_left :: nat
  bp_invalid :: u32
  bp_dropped :: u64
  bp_bans :: u32

definition banned :: "nat \<Rightarrow> antispam \<Rightarrow> banned_peer list" where
  "banned now a =
     rev (sort_key bp_seconds_left (rev (List.map_filter (\<lambda>(peer, w).
       case pw_banned_until w of None \<Rightarrow> None
       | Some t \<Rightarrow> if t > now then Some \<lparr>bp_peer = peer, bp_seconds_left = (t - now) div secs 1, bp_invalid = pw_invalid w,
            bp_dropped = pw_dropped w, bp_bans = pw_bans w\<rparr> else None) (as_peers a))))"

definition gc :: "nat \<Rightarrow> antispam \<Rightarrow> antispam" where
  "gc now a = a\<lparr>as_peers := filter (\<lambda>(_, w). banned_at now w \<or> now - pw_started w < secs 600) (as_peers a)\<rparr>"

section \<open>Budgets and bans\<close>

text \<open>The configuration never changes, and a window never takes more than the budget of a minute.\<close>

lemma cfg_simps [simp]:
  "as_cfg (tally f a) = as_cfg a" "as_cfg (drop_n now k a) = as_cfg a" "as_cfg (set_window p w a) = as_cfg a"
  "as_cfg (note_evicted a) = as_cfg a" "as_cfg (gc now a) = as_cfg a"
  by (simp_all add: tally_def drop_n_def set_window_def note_evicted_def gc_def Let_def split: prod.split)

lemma peers_simps [simp]:
  "as_peers (tally f a) = as_peers a" "as_peers (drop_n now k a) = as_peers a"
  "as_peers (note_evicted a) = as_peers a" "as_peers (set_window p w a) = bt_put p w (as_peers a)"
  by (simp_all add: tally_def drop_n_def set_window_def note_evicted_def Let_def split: prod.split)

definition in_budget :: "antispam \<Rightarrow> bool" where
  "in_budget a \<longleftrightarrow> (\<forall>p w. bt_get (as_peers a) p = Some w \<longrightarrow> pw_accepted w \<le> sc_peer_tx_per_min (as_cfg a))"

lemma gate_cfg [simp]: "as_cfg (fst (gate now o1 k a)) = as_cfg a"
  by (simp add: gate_def Let_def split: option.split)

lemma note_invalid_cfg [simp]: "as_cfg (fst (note_invalid now o1 i a)) = as_cfg a"
  by (simp add: note_invalid_def Let_def split: option.split)

lemma check_sender_cfg [simp]: "as_cfg (fst (check_sender now p b z a)) = as_cfg a"
  by (simp add: check_sender_def Let_def)

lemma window_roll_budget: "pw_accepted w \<le> b \<Longrightarrow> pw_accepted (window_roll now w) \<le> b"
  by (simp add: window_roll_def)

lemma budget_add:
  fixes x b :: u32
  assumes "x \<le> b" and "m \<le> unat (saturating_sub b x)"
  shows "x + word_of_nat m \<le> b"
proof -
  have "unat (b - x) = unat b - unat x" using assms(1) by (simp add: unat_sub)
  then have m: "m \<le> unat b - unat x" using assms by (simp add: saturating_sub_def)
  moreover have "unat x \<le> unat b" using assms(1) by (simp add: word_le_nat_alt)
  moreover have "unat b < 2 ^ 32" using unsigned_less [where 'a = nat and w = b] by simp
  ultimately have "unat (x + word_of_nat m) = unat x + m"
    by (subst unat_add_lem [THEN iffD1]) (simp_all add: unat_of_nat)
  with m assms(1) show ?thesis by (simp add: word_le_nat_alt)
qed

lemma gate_in_budget:
  assumes "in_budget a"
  shows "in_budget (fst (gate now o1 k a))"
proof -
  have w: "pw_accepted (window_of now p a) \<le> sc_peer_tx_per_min (as_cfg a)" for p
    using assms by (cases "bt_get (as_peers a) p") (auto simp: in_budget_def window_of_def peer_window_new_def)
  have r: "pw_accepted (window_roll now ((window_of now p a)\<lparr>pw_banned_until := None\<rparr>)) \<le> sc_peer_tx_per_min (as_cfg a)" for p
    using w window_roll_budget by simp
  have full: "x + saturating_sub b x \<le> b" if "x \<le> b" for x b :: u32
    using that by (simp add: saturating_sub_def)
  show ?thesis
    using assms w budget_add [OF r] full [OF r]
    by (auto simp: gate_def in_budget_def Let_def min_def split: option.splits if_splits)
qed

lemma gate_at_most: "gate now o1 k a = (a', Allow m) \<Longrightarrow> m \<le> k"
  by (auto simp: gate_def Let_def split: option.splits if_splits)

text \<open>A banned peer gets nothing into the pool until the ban has run out.\<close>

lemma banned_peer_is_dropped:
  assumes "is_banned now p a" and "origin_peer o1 = Some p" and "sc_enabled (as_cfg a)" and "gate now o1 k a = (a', g)"
  shows "g = Denied \<or> g = Banned" and "is_banned now p a'"
  using assms by (auto simp: gate_def is_banned_def window_of_def banned_at_def Let_def split: option.splits if_splits)

end
