(* ===== verification/Mempool.thy ===== *)
theory Mempool
  imports Store AntiSpam Complex_Main
begin

text \<open>
  The pool of pending transactions, \<open>src/src/mempool.rs\<close>, with its fee policy from
  \<open>src/src/node_config.rs\<close>. A rejection is its error code (the message text is not modelled). The pool is
  read under a read lock while a transaction is validated and changed under a later write lock, so
  \<open>validate\<close> and \<open>commit_admit\<close> are separate operations; \<open>add_one\<close> runs them back to back. Log lines,
  events and the relay to peers are left out; the ids to broadcast are part of the results. The length of
  the JSON text, used only for a transaction that does not serialize, is the parameter \<open>pc_json_len\<close>.
\<close>

section \<open>Fee policy\<close>

record dynamic_fees =
  df_enabled :: bool
  df_min_fee_pool :: u64
  df_min_fee_broadcast :: u64
  df_addon_bytes :: "(string, u64) btmap"

definition addon :: "dynamic_fees \<Rightarrow> string \<Rightarrow> u64" where
  "addon df name =
     unwrap_or 0 (case bt_get (df_addon_bytes df) name of Some v \<Rightarrow> Some v
       | None \<Rightarrow> if name = ''ipfs'' then bt_get (df_addon_bytes df) ''ntfry''
                 else if name = ''ntfry'' then bt_get (df_addon_bytes df) ''ipfs'' else None)"

definition min_fee :: "dynamic_fees \<Rightarrow> string \<Rightarrow> nat \<Rightarrow> u64 \<Rightarrow> u64" where
  "min_fee df name bytes rate = saturating_mul (saturating_add (addon df name) (word_of_nat bytes)) (max rate 1)"

definition dynamic_fees_default :: dynamic_fees where
  "dynamic_fees_default = \<lparr>df_enabled = True, df_min_fee_pool = 3000, df_min_fee_broadcast = 3000,
     df_addon_bytes = fold (\<lambda>(k, v). bt_put k v) [(''transfer'', 100), (''secondSignature'', 250),
       (''delegateRegistration'', 400000), (''vote'', 100), (''multiSignature'', 500), (''ntfry'', 250),
       (''multiPayment'', 500), (''delegateResignation'', 100), (''htlcLock'', 100), (''htlcClaim'', 0),
       (''htlcRefund'', 0)] []\<rparr>"

section \<open>Doubles\<close>

text \<open>The fee per byte is an \<open>f64\<close>: the nearest multiple of a power of two with 53 significant bits, ties to
  even. The values here are zero or far from the ends of the exponent range.\<close>

definition round_half_even :: "rat \<Rightarrow> int" where
  "round_half_even x =
     (let f = \<lfloor>x\<rfloor>; r = x - of_int f in
      if r < 1 / 2 then f else if r > 1 / 2 then f + 1 else if even f then f else f + 1)"

fun ilog2 :: "nat \<Rightarrow> nat" where
  "ilog2 k = (if k < 2 then 0 else Suc (ilog2 (k div 2)))"

declare ilog2.simps [simp del]

definition f64 :: "rat \<Rightarrow> rat" where
  "f64 x =
     (if x = 0 then 0
      else (let (p, q) = quotient_of x;
                e0 = int (ilog2 (nat p)) - int (ilog2 (nat q));
                e = (if x < 2 powi e0 then e0 - 1 else e0);
                scale = 2 powi (52 - e)
            in of_int (round_half_even (x * scale)) / scale))"

definition fee_rate :: "u64 \<Rightarrow> nat \<Rightarrow> rat" where
  "fee_rate fee bytes = f64 (f64 (of_nat (unat fee)) / f64 (of_nat (max bytes 1)))"

section \<open>State\<close>

record pending_meta =
  pm_entered :: u64
  pm_relayed :: u64

record pool_config =
  pc_max_size :: nat
  pc_max_bytes :: nat
  pc_dynamic_fees :: dynamic_fees
  pc_legacy_dynamic_fees :: bool
  pc_max_age_blocks :: u64
  pc_rebroadcast_blocks :: u64
  pc_json_len :: "transaction \<Rightarrow> nat"

record mempool =
  mp_txs :: "(string, transaction) btmap"
  mp_meta :: "(string, pending_meta) btmap"
  mp_bytes :: nat
  mp_low_fee_rejected :: u64
  mp_expired :: u64
  mp_antispam :: antispam

record admit =
  ad_broadcast :: bool
  ad_replaces :: "string option"
  ad_evicts :: "string list"

datatype drop_reason = Forged | StaleNonce | Expired | Aged

definition mempool_new :: "antispam_config \<Rightarrow> nat \<Rightarrow> mempool" where
  "mempool_new cfg now = \<lparr>mp_txs = [], mp_meta = [], mp_bytes = 0, mp_low_fee_rejected = 0, mp_expired = 0,
     mp_antispam = antispam_new cfg now\<rparr>"

definition tx_size :: "crypto \<Rightarrow> network \<Rightarrow> pool_config \<Rightarrow> transaction \<Rightarrow> nat" where
  "tx_size E n pc tx =
     (case serialize_transaction E tx opts_default (nw_pubkey_hash n) of Inr b \<Rightarrow> length b | Inl _ \<Rightarrow> pc_json_len pc tx)"

definition pool_txs_of :: "mempool \<Rightarrow> transaction list" where
  "pool_txs_of m = map snd (mp_txs m)"

definition remove_locked :: "crypto \<Rightarrow> network \<Rightarrow> pool_config \<Rightarrow> string \<Rightarrow> mempool \<Rightarrow> mempool" where
  "remove_locked E n pc i m =
     (case bt_get (mp_txs m) i of None \<Rightarrow> m
      | Some t \<Rightarrow> m\<lparr>mp_txs := bt_del i (mp_txs m), mp_bytes := mp_bytes m - min (tx_size E n pc t) (mp_bytes m),
                    mp_meta := bt_del i (mp_meta m)\<rparr>)"

definition purge :: "crypto \<Rightarrow> network \<Rightarrow> pool_config \<Rightarrow> string option \<Rightarrow> mempool \<Rightarrow> mempool \<times> nat" where
  "purge E n pc sender m =
     (let ids = map fst (filter (\<lambda>(_, t). case sender of None \<Rightarrow> True
              | Some a \<Rightarrow> address_from_public_key E (tx_sender_public_key t) (nw_pubkey_hash n) = Inr a) (mp_txs m))
      in (fold (remove_locked E n pc) ids m, length ids))"

section \<open>Fees\<close>

definition fee_name :: "u16 \<Rightarrow> string" where
  "fee_name ty = (case find (\<lambda>e. snd e = ty) FEE_NAMES of None \<Rightarrow> [] | Some e \<Rightarrow> fst e)"

definition check_core_fee :: "pool_config \<Rightarrow> transaction \<Rightarrow> nat \<Rightarrow> milestone \<Rightarrow> bool rule" where
  "check_core_fee pc tx sz ms =
     (if tx_type_group tx \<noteq> TYPE_GROUP_CORE \<or> is_pq tx then Inr True
      else
        (let df = pc_dynamic_fees pc; name = fee_name (tx_type tx) in
         if \<not> df_enabled df
         then (if tx_fee tx \<noteq> static_fee_for_type ms (tx_type tx) then Inl ''ERR_LOW_FEE'' else Inr True)
         else if tx_fee tx < min_fee df name sz (df_min_fee_pool df) then Inl ''ERR_LOW_FEE''
         else Inr (tx_fee tx \<ge> min_fee df name sz (df_min_fee_broadcast df))))"

definition legacy_min_fee :: "crypto \<Rightarrow> network \<Rightarrow> pool_config \<Rightarrow> store \<Rightarrow> transaction \<Rightarrow> u64 option" where
  "legacy_min_fee E n pc s tx =
     (if tx_type_group tx \<noteq> TYPE_GROUP_CORE \<or> is_pq tx then None
      else
        (let ms = milestone_at n (get_last_height s + 1);
             df = dynamic_fees_default;
             least = (if pc_legacy_dynamic_fees pc
                      then min_fee df (fee_name (tx_type tx)) (tx_size E n pc tx) (df_min_fee_pool df)
                      else static_fee_for_type ms (tx_type tx))
         in if least > 0 then Some least else None))"

definition fee_hint :: "crypto \<Rightarrow> network \<Rightarrow> pool_config \<Rightarrow> store \<Rightarrow> transaction \<Rightarrow> u64 option" where
  "fee_hint E n pc s tx =
     (case legacy_min_fee E n pc s tx of None \<Rightarrow> None
      | Some least \<Rightarrow> if (if pc_legacy_dynamic_fees pc then tx_fee tx < least else tx_fee tx \<noteq> least) then Some least else None)"

definition TRANSFER_WIRE_BYTES :: nat where "TRANSFER_WIRE_BYTES = 156"

definition min_transfer_fee :: "network \<Rightarrow> pool_config \<Rightarrow> store \<Rightarrow> u64" where
  "min_transfer_fee n pc s =
     (let df = pc_dynamic_fees pc in
      if df_enabled df then min_fee df ''transfer'' TRANSFER_WIRE_BYTES (df_min_fee_pool df)
      else static_fee (milestone_at n (get_last_height s + 1)) ''transfer'')"

section \<open>Eviction\<close>

definition last_nonces :: "transaction list \<Rightarrow> (string, u64) btmap" where
  "last_nonces txs = fold (\<lambda>p. bt_entry (tx_sender_public_key p) 0 (\<lambda>v. max v (unwrap_or 0 (tx_nonce p)))) txs []"

definition evictable :: "crypto \<Rightarrow> network \<Rightarrow> pool_config \<Rightarrow> (string, transaction) btmap \<Rightarrow> transaction \<Rightarrow> nat \<Rightarrow> (rat \<times> nat \<times> string) list" where
  "evictable E n pc pool tx sz =
     sort_key fst (filter (\<lambda>(r, _, _). r < fee_rate (tx_fee tx) sz)
       (map (\<lambda>(i, p). (fee_rate (tx_fee p) (tx_size E n pc p), tx_size E n pc p, i))
         (filter (\<lambda>(_, p). tx_sender_public_key p \<noteq> tx_sender_public_key tx
              \<and> bt_get (last_nonces (map snd pool)) (tx_sender_public_key p) = Some (unwrap_or 0 (tx_nonce p))) pool)))"

fun take_victims :: "nat \<Rightarrow> nat \<Rightarrow> (rat \<times> nat \<times> string) list \<Rightarrow> nat \<Rightarrow> nat \<Rightarrow> string list \<Rightarrow> nat \<times> nat \<times> string list" where
  "take_victims need_slots need_bytes [] slots bytes out = (slots, bytes, out)"
| "take_victims need_slots need_bytes ((r, b, i) # cs) slots bytes out =
     (if slots \<ge> need_slots \<and> bytes \<ge> need_bytes then (slots, bytes, out)
      else take_victims need_slots need_bytes cs (slots + 1) (bytes + b) (out @ [i]))"

definition eviction_candidates ::
  "crypto \<Rightarrow> network \<Rightarrow> pool_config \<Rightarrow> (string, transaction) btmap \<Rightarrow> transaction \<Rightarrow> nat \<Rightarrow> nat \<Rightarrow> nat \<Rightarrow> string list rule" where
  "eviction_candidates E n pc pool tx sz need_slots need_bytes =
     (case take_victims need_slots need_bytes (evictable E n pc pool tx sz) 0 0 [] of
        (slots, bytes, out) \<Rightarrow> if slots \<ge> need_slots \<and> bytes \<ge> need_bytes then Inr out else Inl ''ERR_POOL_FULL'')"

section \<open>What a pending transaction spends\<close>

definition sobj_price :: "crypto \<Rightarrow> network \<Rightarrow> store \<Rightarrow> transaction \<Rightarrow> u64" where
  "sobj_price E n s tx =
     (case sobj_asset_of tx of None \<Rightarrow> 0
      | Some e \<Rightarrow>
          if so_action e \<noteq> ACTION_BUY then 0
          else (case so_registration_id e of None \<Rightarrow> 0
                | Some reg \<Rightarrow> (case ok_flatten (get_sobject E n s reg) of None \<Rightarrow> 0
                     | Some (_, rec) \<Rightarrow> unwrap_or 0 (sm_price rec))))"

definition token_price :: "store \<Rightarrow> transaction \<Rightarrow> u64" where
  "token_price s tx =
     (case token_asset_of tx of None \<Rightarrow> 0
      | Some a \<Rightarrow>
          if tx_type_group tx \<noteq> TYPE_GROUP_TOKEN \<or> tx_type tx \<noteq> TOKEN_BUY then 0
          else (case (case ta_order_id a of None \<Rightarrow> None | Some i \<Rightarrow> token_order_of s i) of None \<Rightarrow> 0
                | Some o1 \<Rightarrow> saturating_mul (unwrap_or 0 (ta_amount a)) (od_price o1)))"

definition spent :: "crypto \<Rightarrow> network \<Rightarrow> store \<Rightarrow> transaction \<Rightarrow> int" where
  "spent E n s tx =
     uint (tx_amount tx) + uint (tx_fee tx) + (\<Sum>p\<leftarrow>unwrap_or [] (asset_field as_payments tx). uint (pay_amount p))
       + uint (sobj_price E n s tx) + uint (token_price s tx)"

definition recipients :: "transaction \<Rightarrow> string list" where
  "recipients tx = (case tx_recipient tx of None \<Rightarrow> [] | Some r \<Rightarrow> [r])
     @ map pay_recipient (unwrap_or [] (asset_field as_payments tx))"

section \<open>The token view of the pool\<close>

definition pending_tokens :: "transaction list \<Rightarrow> string \<Rightarrow> string \<Rightarrow> u64" where
  "pending_tokens pool sender_pk i =
     (\<Sum>p\<leftarrow>filter (\<lambda>p. tx_sender_public_key p = sender_pk) pool.
        case token_asset_of p of None \<Rightarrow> 0
        | Some a \<Rightarrow>
            if ta_id a \<noteq> i then 0
            else if tx_type p = TOKEN_TRANSFER then (\<Sum>it\<leftarrow>unwrap_or [] (ta_transfers a). ti_amount it)
            else if tx_type p = TOKEN_BURN \<or> tx_type p = TOKEN_SELL then unwrap_or 0 (ta_amount a)
            else 0)"

definition pool_order_base :: "crypto \<Rightarrow> network \<Rightarrow> store \<Rightarrow> (string, transaction) btmap \<Rightarrow> string \<Rightarrow> token_order option" where
  "pool_order_base E n s pool i =
     (case token_order_of s i of Some o1 \<Rightarrow> Some o1
      | None \<Rightarrow>
          (case bt_get pool i of None \<Rightarrow> None
           | Some p \<Rightarrow>
               (case token_asset_of p of None \<Rightarrow> None
                | Some a \<Rightarrow>
                    if tx_type p \<noteq> TOKEN_SELL then None
                    else (case address_from_public_key E (tx_sender_public_key p) (nw_pubkey_hash n) of
                            Inl _ \<Rightarrow> None
                          | Inr seller \<Rightarrow> Some \<lparr>od_id = i, od_token_id = ta_id a, od_seller = seller,
                              od_amount = unwrap_or 0 (ta_amount a), od_filled = 0, od_price = unwrap_or 0 (ta_price a),
                              od_height = 0, od_closed = None, od_fills = []\<rparr>))))"

definition pool_order_step :: "string \<Rightarrow> transaction \<Rightarrow> token_order \<Rightarrow> token_order" where
  "pool_order_step i p o1 =
     (case token_asset_of p of None \<Rightarrow> o1
      | Some a \<Rightarrow>
          if ta_order_id a \<noteq> Some i then o1
          else if tx_type p = TOKEN_BUY then
            (let filled = min (saturating_add (od_filled o1) (unwrap_or 0 (ta_amount a))) (od_amount o1)
             in o1\<lparr>od_filled := filled, od_closed := (if filled \<ge> od_amount o1 then Some u64_max else od_closed o1)\<rparr>)
          else if tx_type p = TOKEN_CANCEL then o1\<lparr>od_closed := Some u64_max\<rparr>
          else o1)"

definition pool_view :: "crypto \<Rightarrow> network \<Rightarrow> store \<Rightarrow> (string, transaction) btmap \<Rightarrow> string \<Rightarrow> token_view" where
  "pool_view E n s pool sender_pk =
     \<lparr>tv_token_owner = token_owner_of s,
      tv_token_state = token_state_of s,
      tv_token_balance = (\<lambda>a i. saturating_sub
          (case get_wallet s a of None \<Rightarrow> 0 | Some w \<Rightarrow> unwrap_or 0 (bt_get (w_tokens w) i))
          (pending_tokens (map snd pool) sender_pk i)),
      tv_ticker_sobj = (\<lambda>i. case ok_flatten (get_sobject E n s i) of None \<Rightarrow> None
        | Some (owner, r) \<Rightarrow> if sm_type r = TICKER_SOBJ_TYPE
            then Some (owner, unwrap_or [] (sd_name (sm_data r)), sm_resigned r) else None),
      tv_order = (\<lambda>i. map_option (fold (pool_order_step i) (map snd pool)) (pool_order_base E n s pool i)),
      tv_open_orders = (\<lambda>seller t. length (filter (\<lambda>o1. od_token_id o1 = t) (wallet_orders s seller))
        + length (filter (\<lambda>p. tx_sender_public_key p = sender_pk \<and> tx_type_group p = TYPE_GROUP_TOKEN
            \<and> tx_type p = TOKEN_SELL \<and> (case token_asset_of p of None \<Rightarrow> False | Some a \<Rightarrow> ta_id a = t)) (map snd pool)))\<rparr>"

section \<open>Validation\<close>

definition err :: "string \<Rightarrow> 'a + 'b \<Rightarrow> 'b rule" where
  "err code r = (case r of Inl _ \<Rightarrow> Inl code | Inr x \<Rightarrow> Inr x)"

definition eviction_plan :: "crypto \<Rightarrow> network \<Rightarrow> pool_config \<Rightarrow> mempool \<Rightarrow> transaction \<Rightarrow> string list rule" where
  "eviction_plan E n pc m tx =
     (let sz = tx_size E n pc tx;
          need_slots = (if length (mp_txs m) \<ge> pc_max_size pc then 1 else 0);
          need_bytes = mp_bytes m + sz - pc_max_bytes pc
      in if need_slots > 0 \<or> need_bytes > 0 then
           (if \<not> replace_by_fee (mp_antispam m) then Inl ''ERR_POOL_FULL''
            else eviction_candidates E n pc (mp_txs m) tx sz need_slots need_bytes)
         else Inr [])"

text \<open>Everything up to the sender's address: size limits, duplicates, version, network, fee, signature and
  recipients.\<close>

definition validate_head ::
  "crypto \<Rightarrow> network \<Rightarrow> pool_config \<Rightarrow> store \<Rightarrow> mempool \<Rightarrow> transaction \<Rightarrow> (string list \<times> bool \<times> string) rule" where
  "validate_head E n pc s m tx =
     (let i = unwrap_or [] (tx_id tx) in
      rbind (ensure (bt_get (mp_txs m) i = None) ''ERR_DUPLICATE'') (\<lambda>_.
      rbind (eviction_plan E n pc m tx) (\<lambda>evicts.
      rbind (err ''ERR_UNKNOWN'' (get_transaction E n s i)) (\<lambda>found.
      rbind (ensure (found = None) ''ERR_FORGED'') (\<lambda>_.
      rbind (ensure ((tx_version tx = 2 \<or> is_pq tx) \<and> (tx_type_group tx = TYPE_GROUP_CORE \<or> is_sobj tx \<or> is_token tx))
               ''ERR_UNKNOWN'') (\<lambda>_.
      rbind (ensure (case tx_network tx of None \<Rightarrow> True | Some k \<Rightarrow> k = nw_pubkey_hash n) ''ERR_WRONG_NETWORK'') (\<lambda>_.
      rbind (check_core_fee pc tx (tx_size E n pc tx) (milestone_at n (get_last_height s + 1))) (\<lambda>broadcast.
      rbind (ensure (verify_transaction_signature E tx = Inr True) ''ERR_BAD_DATA'') (\<lambda>_.
      rbind (err ''ERR_BAD_DATA'' (address_from_public_key E (tx_sender_public_key tx) (nw_pubkey_hash n))) (\<lambda>sender.
      rbind (ensure (list_all (\<lambda>r. validate_address E r (nw_pubkey_hash n)) (recipients tx)) ''ERR_BAD_DATA'') (\<lambda>_.
      Inr (evicts, broadcast, sender))))))))))))"

definition pending_of :: "mempool \<Rightarrow> transaction \<Rightarrow> transaction list" where
  "pending_of m tx = sort_key (\<lambda>p. unwrap_or 0 (tx_nonce p))
     (filter (\<lambda>p. tx_sender_public_key p = tx_sender_public_key tx) (map snd (mp_txs m)))"

text \<open>The nonce rule: a pending nonce is replaced when the fee is not lower, any other must be the next one.\<close>

definition replaced_tx :: "transaction \<Rightarrow> transaction list \<Rightarrow> string option rule" where
  "replaced_tx tx pending =
     (case tx_nonce tx of None \<Rightarrow> Inr None
      | Some k \<Rightarrow>
          (case find (\<lambda>p. tx_nonce p = Some k) pending of
             None \<Rightarrow> Inr None
           | Some old \<Rightarrow> if tx_fee tx < tx_fee old then Inl ''ERR_BAD_NONCE'' else Inr (tx_id old)))"

definition nonce_rule :: "transaction \<Rightarrow> u64 \<Rightarrow> string option \<Rightarrow> transaction list \<Rightarrow> unit rule" where
  "nonce_rule tx nonce replaces pending =
     (case tx_nonce tx of None \<Rightarrow> Inl ''ERR_BAD_NONCE''
      | Some k \<Rightarrow> ensure (replaces \<noteq> None \<or> k = nonce + 1 + word_of_nat (length pending)) ''ERR_BAD_NONCE'')"

definition pq_code :: "string \<Rightarrow> string" where
  "pq_code e = (if strip_prefix ''ERR_PQ_'' e \<noteq> None then takeWhile (\<lambda>c. c \<noteq> CHR '':'') e else ''ERR_BAD_DATA'')"

definition pending_pq_key :: "u64 \<Rightarrow> transaction list \<Rightarrow> pq_key option" where
  "pending_pq_key tip pending =
     (case find (\<lambda>p. is_pq p \<and> tx_type_group p = TYPE_GROUP_CORE \<and> tx_type p = SECOND_SIGNATURE) pending of
        None \<Rightarrow> None
      | Some p \<Rightarrow> map_option (\<lambda>a. \<lparr>pk_algorithm = unwrap_or 1 (ss_algorithm a), pk_public_key = ss_public_key a,
                       pk_since = tip + 1\<rparr>) (asset_field as_signature p))"

definition pending_second_key :: "crypto \<Rightarrow> transaction list \<Rightarrow> string option" where
  "pending_second_key E pending =
     (case List.map_filter (\<lambda>p. case registered_second_key E p of Inl _ \<Rightarrow> None | Inr k \<Rightarrow> k) pending of
        [] \<Rightarrow> None | k # _ \<Rightarrow> Some k)"

definition key_rules ::
  "crypto \<Rightarrow> network \<Rightarrow> store \<Rightarrow> transaction \<Rightarrow> wallet_state option \<Rightarrow> transaction list \<Rightarrow> unit rule" where
  "key_rules E n s tx wallet pending =
     (let tip = get_last_height s;
          second_pk = or_else (Option.bind wallet w_second_public_key) (pending_second_key E pending);
          pending_pq = pending_pq_key tip pending;
          view = \<lparr>pv_second_public_key = (if pending_pq \<noteq> None then None else second_pk),
                  pv_pq_key = or_else pending_pq (Option.bind wallet w_pq_key),
                  pv_commitment = Option.bind wallet w_pq_commitment\<rparr>
      in rbind (case check_pq E tx (milestone_at n (tip + 1)) (tip + 1) (pq_activation_height n) view of
                  Inl e \<Rightarrow> Inl (pq_code e) | Inr _ \<Rightarrow> Inr ()) (\<lambda>_.
         rbind (err ''ERR_BAD_DATA'' (check_second_signature E tx second_pk)) (\<lambda>_.
         rbind (err ''ERR_BAD_DATA'' (registered_second_key E tx)) (\<lambda>_. Inr ()))))"

definition pool_token_rules :: "crypto \<Rightarrow> network \<Rightarrow> store \<Rightarrow> mempool \<Rightarrow> transaction \<Rightarrow> string \<Rightarrow> unit rule" where
  "pool_token_rules E n s m tx sender =
     (let ms = milestone_at n (get_last_height s + 1) in
      rbind (ensure (ms_tokens ms) ''ERR_UNKNOWN'') (\<lambda>_.
      rbind (err ''ERR_BAD_DATA'' (check_token_format E tx ms)) (\<lambda>a.
      rbind (ensure (\<not> (tx_type tx = TOKEN_INIT \<and> (\<exists>p \<in> set (map snd (mp_txs m)). tx_type p = TOKEN_INIT
               \<and> (case token_asset_of p of None \<Rightarrow> False | Some q \<Rightarrow> ta_id q = ta_id a)))) ''ERR_PENDING'') (\<lambda>_.
      err ''ERR_APPLY'' (check_token tx a sender (pool_view E n s (mp_txs m) (tx_sender_public_key tx)))))))"

text \<open>The names compared here passed \<open>name_ok\<close>, so \<open>to_lowercase\<close> only maps ASCII letters.\<close>

definition pool_sobj_rules ::
  "crypto \<Rightarrow> network \<Rightarrow> store \<Rightarrow> mempool \<Rightarrow> transaction \<Rightarrow> string \<Rightarrow> transaction list \<Rightarrow> unit rule" where
  "pool_sobj_rules E n s m tx sender pending =
     (let ms = milestone_at n (get_last_height s + 1);
          wallet = map_option (\<lambda>w. w\<lparr>w_balance := max (w_balance w - (\<Sum>p\<leftarrow>pending. spent E n s p)) i64_min\<rparr>)
            (get_wallet s sender)
      in rbind (ensure (is_sobj tx) ''ERR_UNKNOWN'') (\<lambda>_.
         rbind (ensure (ms_sobj_active ms) ''ERR_UNKNOWN'') (\<lambda>_.
         rbind (err ''ERR_APPLY'' (check_sobj E tx ms wallet [] (\<lambda>name t. sobj_by_name s name t \<noteq> None)
                  (\<lambda>reg. ok_flatten (get_sobject E n s reg)) (\<lambda>i. map_option ts_supply (token_state_of s i)))) (\<lambda>_.
         case sobj_asset_of tx of None \<Rightarrow> Inr ()
         | Some e \<Rightarrow>
             ensure (so_action e \<noteq> ACTION_REGISTER \<or> \<not> (\<exists>p \<in> set (map snd (mp_txs m)).
                 case sobj_asset_of p of None \<Rightarrow> False
                 | Some q \<Rightarrow> so_action q = ACTION_REGISTER \<and> so_type q = so_type e
                     \<and> map_option to_ascii_lowercase (sd_name (so_data q)) = Some (to_ascii_lowercase (unwrap_or [] (sd_name (so_data e))))))
               ''ERR_PENDING''))))"

definition spend_rule :: "crypto \<Rightarrow> network \<Rightarrow> store \<Rightarrow> int \<Rightarrow> transaction list \<Rightarrow> transaction \<Rightarrow> unit rule" where
  "spend_rule E n s balance pending tx =
     ensure (spent E n s tx \<le> balance - (\<Sum>p\<leftarrow>pending. spent E n s p)) ''ERR_LOW_BALANCE''"

text \<open>The rules that depend on the sender's wallet and pending transactions.\<close>

definition validate_tail ::
  "crypto \<Rightarrow> network \<Rightarrow> store \<Rightarrow> mempool \<Rightarrow> transaction \<Rightarrow> string \<Rightarrow> transaction list \<Rightarrow> string option rule" where
  "validate_tail E n s m tx sender pending =
     (let wallet = get_wallet s sender;
          balance = (case wallet of None \<Rightarrow> 0 | Some w \<Rightarrow> w_balance w);
          nonce = (case wallet of None \<Rightarrow> 0 | Some w \<Rightarrow> w_nonce w)
      in rbind (replaced_tx tx pending) (\<lambda>replaces.
         let pending = filter (\<lambda>p. tx_nonce p \<noteq> tx_nonce tx) pending in
         rbind (nonce_rule tx nonce replaces pending) (\<lambda>_.
         rbind (key_rules E n s tx wallet pending) (\<lambda>_.
         rbind (if is_token tx then pool_token_rules E n s m tx sender
                else if tx_type_group tx \<noteq> TYPE_GROUP_CORE then pool_sobj_rules E n s m tx sender pending
                else Inr ()) (\<lambda>_.
         rbind (spend_rule E n s balance pending tx) (\<lambda>_.
         rbind (ensure (\<not> (tx_type_group tx = TYPE_GROUP_CORE \<and> tx_type tx = TRANSFER \<and> tx_recipient tx = None))
                  ''ERR_BAD_DATA'') (\<lambda>_.
         Inr replaces)))))))"

definition validate ::
  "crypto \<Rightarrow> network \<Rightarrow> pool_config \<Rightarrow> store \<Rightarrow> nat \<Rightarrow> mempool \<Rightarrow> transaction \<Rightarrow> antispam \<times> admit rule" where
  "validate E n pc s now m tx =
     (case validate_head E n pc s m tx of
        Inl e \<Rightarrow> (mp_antispam m, Inl e)
      | Inr (evicts, broadcast, sender) \<Rightarrow>
          (let pending = pending_of m tx in
           case (if \<exists>p \<in> set pending. tx_nonce p = tx_nonce tx then (mp_antispam m, Inr ())
                 else check_sender now (length pending) (\<Sum>p\<leftarrow>pending. tx_size E n pc p) (tx_size E n pc tx) (mp_antispam m)) of
             (a, Inl e) \<Rightarrow> (a, Inl e)
           | (a, Inr _) \<Rightarrow>
               (a, rbind (validate_tail E n s m tx sender pending) (\<lambda>replaces.
                  Inr \<lparr>ad_broadcast = broadcast, ad_replaces = replaces, ad_evicts = evicts\<rparr>))))"

section \<open>Admission\<close>

definition evict_one :: "crypto \<Rightarrow> network \<Rightarrow> pool_config \<Rightarrow> string \<Rightarrow> mempool \<Rightarrow> mempool" where
  "evict_one E n pc i m =
     (if bt_get (mp_txs m) i = None then m
      else (remove_locked E n pc i m)\<lparr>mp_antispam := note_evicted (mp_antispam m)\<rparr>)"

text \<open>The part under the write lock: replacement, evictions, then the insertion.\<close>

definition commit_admit ::
  "crypto \<Rightarrow> network \<Rightarrow> pool_config \<Rightarrow> u64 \<Rightarrow> string \<Rightarrow> transaction \<Rightarrow> admit \<Rightarrow> mempool \<Rightarrow> mempool" where
  "commit_admit E n pc tip i tx ad m =
     (let m = (case ad_replaces ad of None \<Rightarrow> m | Some old \<Rightarrow> remove_locked E n pc old m);
          m = fold (evict_one E n pc) (ad_evicts ad) m
      in m\<lparr>mp_bytes := mp_bytes m + tx_size E n pc tx, mp_txs := bt_put i tx (mp_txs m),
           mp_meta := bt_put i \<lparr>pm_entered = tip, pm_relayed = tip\<rparr> (mp_meta m)\<rparr>)"

record pool_response =
  pr_accept :: "string list"
  pr_broadcast :: "string list"
  pr_invalid :: "string list"
  pr_errors :: "(string, string) btmap"

definition reject :: "string \<Rightarrow> string \<Rightarrow> pool_response \<Rightarrow> pool_response" where
  "reject i code r = r\<lparr>pr_errors := bt_put i code (pr_errors r), pr_invalid := pr_invalid r @ [i]\<rparr>"

definition add_known ::
  "crypto \<Rightarrow> network \<Rightarrow> pool_config \<Rightarrow> store \<Rightarrow> nat \<Rightarrow> u64 \<Rightarrow> string \<Rightarrow> transaction \<Rightarrow> mempool \<Rightarrow> pool_response
     \<Rightarrow> mempool \<times> pool_response" where
  "add_known E n pc s now tip i tx m r =
     (if bt_get (mp_txs m) i \<noteq> None then (m, reject i ''ERR_DUPLICATE'' r)
      else (case validate E n pc s now m tx of
              (a, Inl code) \<Rightarrow>
                (m\<lparr>mp_antispam := a,
                   mp_low_fee_rejected := mp_low_fee_rejected m + (if code = ''ERR_LOW_FEE'' then 1 else 0)\<rparr>,
                 reject i code r)
            | (a, Inr ad) \<Rightarrow>
                (commit_admit E n pc tip i tx ad (m\<lparr>mp_antispam := a\<rparr>),
                 r\<lparr>pr_accept := pr_accept r @ [i],
                   pr_broadcast := (if ad_broadcast ad then pr_broadcast r @ [i] else pr_broadcast r)\<rparr>)))"

definition add_one ::
  "crypto \<Rightarrow> network \<Rightarrow> pool_config \<Rightarrow> store \<Rightarrow> nat \<Rightarrow> u64 \<Rightarrow> transaction \<Rightarrow> mempool \<times> pool_response \<Rightarrow> mempool \<times> pool_response" where
  "add_one E n pc s now tip tx mr =
     (case transaction_id E tx of
        Inl _ \<Rightarrow> (fst mr, reject ''unknown'' ''ERR_BAD_DATA'' (snd mr))
      | Inr i \<Rightarrow>
          if (case tx_id tx of None \<Rightarrow> False | Some given \<Rightarrow> given \<noteq> i)
          then (fst mr, reject (unwrap_or [] (tx_id tx)) ''ERR_BAD_DATA'' (snd mr))
          else add_known E n pc s now tip i (tx\<lparr>tx_id := Some i\<rparr>) (fst mr) (snd mr))"

definition empty_response :: pool_response where
  "empty_response = \<lparr>pr_accept = [], pr_broadcast = [], pr_invalid = [], pr_errors = []\<rparr>"

definition add_many_from ::
  "crypto \<Rightarrow> network \<Rightarrow> pool_config \<Rightarrow> store \<Rightarrow> nat \<Rightarrow> tx_origin \<Rightarrow> transaction list \<Rightarrow> mempool \<Rightarrow> mempool \<times> pool_response" where
  "add_many_from E n pc s now origin incoming m =
     (case gate now origin (length incoming) (mp_antispam m) of
        (a, Allow k) \<Rightarrow>
          (case fold (add_one E n pc s now (get_last_height s)) (take k incoming) (m\<lparr>mp_antispam := a\<rparr>, empty_response) of
             (m, r) \<Rightarrow>
               (let invalid = word_of_nat (length (filter (\<lambda>(_, code). counts_as_invalid code) (pr_errors r)))
                in (m\<lparr>mp_antispam := fst (note_invalid now origin invalid (mp_antispam m))\<rparr>, r)))
      | (a, _) \<Rightarrow> (m\<lparr>mp_antispam := a\<rparr>, empty_response))"

definition add_many ::
  "crypto \<Rightarrow> network \<Rightarrow> pool_config \<Rightarrow> store \<Rightarrow> nat \<Rightarrow> transaction list \<Rightarrow> mempool \<Rightarrow> mempool \<times> pool_response" where
  "add_many E n pc s now incoming m = add_many_from E n pc s now Local incoming m"

section \<open>Housekeeping\<close>

definition drop_reason_of ::
  "crypto \<Rightarrow> network \<Rightarrow> pool_config \<Rightarrow> store \<Rightarrow> (string, pending_meta) btmap \<Rightarrow> string \<Rightarrow> transaction \<Rightarrow> drop_reason option" where
  "drop_reason_of E n pc s metas i tx =
     (let tip = get_last_height s;
          forged = (ok_flatten (get_transaction E n s i) \<noteq> None);
          stale_nonce = (case address_from_public_key E (tx_sender_public_key tx) (nw_pubkey_hash n) of
              Inl _ \<Rightarrow> False
            | Inr a \<Rightarrow> (case get_wallet s a of None \<Rightarrow> False | Some w \<Rightarrow> unwrap_or 0 (tx_nonce tx) \<le> w_nonce w));
          entered = (case bt_get metas i of None \<Rightarrow> tip | Some me \<Rightarrow> pm_entered me);
          expired = (case tx_expiration tx of None \<Rightarrow> False | Some e \<Rightarrow> e > 0 \<and> ucast e \<le> tip);
          aged = (pc_max_age_blocks pc > 0 \<and> saturating_sub tip entered \<ge> pc_max_age_blocks pc)
      in if forged then Some Forged else if stale_nonce then Some StaleNonce
         else if expired then Some Expired else if aged then Some Aged else None)"

definition due_for_rebroadcast :: "pool_config \<Rightarrow> store \<Rightarrow> (string, pending_meta) btmap \<Rightarrow> string \<Rightarrow> bool" where
  "due_for_rebroadcast pc s metas i \<longleftrightarrow> pc_rebroadcast_blocks pc > 0 \<and>
     saturating_sub (get_last_height s) (case bt_get metas i of None \<Rightarrow> get_last_height s | Some me \<Rightarrow> pm_relayed me)
       \<ge> pc_rebroadcast_blocks pc"

definition drop_stale :: "crypto \<Rightarrow> network \<Rightarrow> pool_config \<Rightarrow> string \<times> drop_reason \<Rightarrow> mempool \<Rightarrow> mempool" where
  "drop_stale E n pc ir m =
     (if bt_get (mp_txs m) (fst ir) = None then m
      else (remove_locked E n pc (fst ir) m)\<lparr>mp_expired := mp_expired m
             + (if snd ir = Expired \<or> snd ir = Aged then 1 else 0)\<rparr>)"

text \<open>Returns the ids that are relayed again.\<close>

definition prune_confirmed :: "crypto \<Rightarrow> network \<Rightarrow> pool_config \<Rightarrow> store \<Rightarrow> nat \<Rightarrow> mempool \<Rightarrow> mempool \<times> string list" where
  "prune_confirmed E n pc s now m =
     (let m = m\<lparr>mp_antispam := gc now (mp_antispam m)\<rparr>;
          metas = mp_meta m;
          stale = List.map_filter (\<lambda>(i, tx). map_option (Pair i) (drop_reason_of E n pc s metas i tx)) (mp_txs m);
          again = map fst (filter (\<lambda>(i, tx). drop_reason_of E n pc s metas i tx = None \<and> due_for_rebroadcast pc s metas i) (mp_txs m));
          m = fold (drop_stale E n pc) stale m
      in (m\<lparr>mp_meta := fold (\<lambda>i ms. case bt_get ms i of None \<Rightarrow> ms
              | Some me \<Rightarrow> bt_put i (me\<lparr>pm_relayed := get_last_height s\<rparr>) ms) again (mp_meta m)\<rparr>, again))"

end
