(* ===== verification/BlockBuilder.thy ===== *)
theory BlockBuilder
  imports ChainProps
begin

text \<open>
  Block assembly, \<open>src/src/delegate/block_builder.rs\<close>: the choice of the pending transactions of the next
  block and the signed block around them. The delegate's private keys are not part of the model:
  \<open>forger_keys\<close> holds the public key and the two signing functions as parameters. Sizes are \<open>usize\<close> in
  the source and natural numbers here.
\<close>

section \<open>Selection\<close>

definition nonce_key :: "u64 option \<Rightarrow> bool \<times> u64" where
  "nonce_key m = (case m of None \<Rightarrow> (False, 0) | Some x \<Rightarrow> (True, x))"

definition select_key :: "transaction \<Rightarrow> u64 \<times> bool \<times> u64" where
  "select_key tx = (u64_max - tx_fee tx, nonce_key (tx_nonce tx))"

record selection =
  sl_chosen :: "transaction list"
  sl_payload :: nat
  sl_next_nonce :: "(string, u64) btmap"
  sl_deferred :: "transaction list"
  sl_progress :: bool

text \<open>The nonce the sender's next transaction must have.\<close>

definition expected_nonce :: "crypto \<Rightarrow> network \<Rightarrow> store \<Rightarrow> (string, u64) btmap \<Rightarrow> string \<Rightarrow> u64 res" where
  "expected_nonce E n s next pk =
     (case bt_get next pk of Some k \<Rightarrow> Inr k
      | None \<Rightarrow>
          rbind (address_from_public_key E pk (nw_pubkey_hash n)) (\<lambda>a.
          Inr ((case get_wallet s a of None \<Rightarrow> 0 | Some w \<Rightarrow> w_nonce w) + 1)))"

text \<open>One candidate, then one pass over the candidates; a full block drops the rest of them.\<close>

definition select_step :: "crypto \<Rightarrow> network \<Rightarrow> store \<Rightarrow> nat \<Rightarrow> transaction \<Rightarrow> selection \<Rightarrow> selection res" where
  "select_step E n s limit tx sl =
     rbind (expected_nonce E n s (sl_next_nonce sl) (tx_sender_public_key tx)) (\<lambda>expected.
     let nonce = unwrap_or 0 (tx_nonce tx) in
     if nonce \<noteq> expected
     then Inr (if nonce > expected then sl\<lparr>sl_deferred := sl_deferred sl @ [tx]\<rparr> else sl)
     else
       rbind (serialize_transaction E tx opts_default (nw_pubkey_hash n)) (\<lambda>raw.
       if sl_payload sl + length raw > limit then Inr sl
       else Inr (sl\<lparr>sl_payload := sl_payload sl + length raw,
                    sl_next_nonce := bt_put (tx_sender_public_key tx) (nonce + 1) (sl_next_nonce sl),
                    sl_chosen := sl_chosen sl @ [tx], sl_progress := True\<rparr>)))"

fun select_pass :: "crypto \<Rightarrow> network \<Rightarrow> store \<Rightarrow> nat \<Rightarrow> nat \<Rightarrow> transaction list \<Rightarrow> selection \<Rightarrow> selection res" where
  "select_pass E n s max_txs limit [] sl = Inr sl"
| "select_pass E n s max_txs limit (tx # txs) sl =
     (if length (sl_chosen sl) \<ge> max_txs then Inr sl
      else (case select_step E n s limit tx sl of
              Inl e \<Rightarrow> Inl e
            | Inr sl' \<Rightarrow> select_pass E n s max_txs limit txs sl'))"

text \<open>A pass that makes progress leaves fewer candidates, the loop ends.\<close>

lemma select_step_sizes:
  assumes "select_step E n s mp tx sl = Inr sl'"
  shows "length (sl_deferred sl') \<le> Suc (length (sl_deferred sl))
     \<and> (sl_progress sl' \<and> \<not> sl_progress sl \<longrightarrow> length (sl_deferred sl') \<le> length (sl_deferred sl))
     \<and> (sl_progress sl \<longrightarrow> sl_progress sl')"
  using assms by (auto simp: select_step_def rbind_eq_Inr Let_def split: if_splits)

lemma select_pass_sizes:
  assumes "select_pass E n s mt mp txs sl = Inr sl'"
  shows "length (sl_deferred sl') \<le> length (sl_deferred sl) + length txs
     \<and> (sl_progress sl' \<and> \<not> sl_progress sl \<longrightarrow> length (sl_deferred sl') < length (sl_deferred sl) + length txs)
     \<and> (sl_progress sl \<longrightarrow> sl_progress sl')"
  using assms
proof (induction txs arbitrary: sl)
  case (Cons tx txs)
  show ?case
  proof (cases "length (sl_chosen sl) \<ge> mt")
    case True
    then show ?thesis using Cons.prems by auto
  next
    case False
    then obtain sl1 where "select_step E n s mp tx sl = Inr sl1" "select_pass E n s mt mp txs sl1 = Inr sl'"
      using Cons.prems by (auto split: sum.splits)
    then show ?thesis using Cons.IH [of sl1] select_step_sizes by fastforce
  qed
qed simp

function select_loop ::
  "crypto \<Rightarrow> network \<Rightarrow> store \<Rightarrow> nat \<Rightarrow> nat \<Rightarrow> transaction list \<Rightarrow> selection \<Rightarrow> transaction list res" where
  "select_loop E n s max_txs limit candidates sl =
     (if sl_progress sl \<and> length (sl_chosen sl) < max_txs then
        (case select_pass E n s max_txs limit candidates (sl\<lparr>sl_progress := False, sl_deferred := []\<rparr>) of
           Inl e \<Rightarrow> Inl e
         | Inr sl' \<Rightarrow>
             if sl_deferred sl' = [] then Inr (sl_chosen sl')
             else select_loop E n s max_txs limit (sl_deferred sl') sl')
      else Inr (sl_chosen sl))"
  by pat_completeness auto

termination
  by (relation "measure (\<lambda>(E, n, s, mt, mp, cs, sl). length cs + (if sl_progress sl then 1 else 0))")
     (auto dest!: select_pass_sizes)

declare select_loop.simps [simp del]

definition selection_start :: selection where
  "selection_start = \<lparr>sl_chosen = [], sl_payload = 0, sl_next_nonce = [], sl_deferred = [], sl_progress = True\<rparr>"

definition select_transactions ::
  "crypto \<Rightarrow> network \<Rightarrow> store \<Rightarrow> transaction list \<Rightarrow> u64 \<Rightarrow> transaction list res" where
  "select_transactions E n s pool height =
     (let m = milestone_at n height in
      select_loop E n s (unat (max_transactions m)) (unat (max_payload m)) (sort_key select_key pool) selection_start)"

section \<open>The block\<close>

record forger_keys =
  fk_public_key_hex :: string
  fk_sign_ecdsa :: "bytes \<Rightarrow> string res"
  fk_pq_sign :: "(bytes \<Rightarrow> bytes \<Rightarrow> bytes res) option"

definition u32_of_len :: "nat \<Rightarrow> u32" where "u32_of_len k = word_of_nat k"

text \<open>The totals of the header: plain \<open>+=\<close>, which wraps.\<close>

definition add_totals :: "crypto \<Rightarrow> network \<Rightarrow> transaction \<Rightarrow> u32 \<times> u64 \<times> u64 \<Rightarrow> (u32 \<times> u64 \<times> u64) res" where
  "add_totals E n tx acc =
     rbind (serialize_transaction E tx opts_default (nw_pubkey_hash n)) (\<lambda>raw.
     case acc of (len, amount, fee) \<Rightarrow>
       Inr (len + u32_of_len (length raw), amount + tx_amount tx, fee + tx_fee tx))"

fun number_txs :: "u64 \<Rightarrow> nat \<Rightarrow> transaction list \<Rightarrow> transaction list" where
  "number_txs height i [] = []"
| "number_txs height i (tx # txs) =
     tx\<lparr>tx_block_height := Some height, tx_sequence := Some (u32_of_len i)\<rparr> # number_txs height (Suc i) txs"

definition hybrid :: "network \<Rightarrow> forger_keys \<Rightarrow> u64 \<Rightarrow> bool" where
  "hybrid n keys height \<longleftrightarrow> pq_blocks_on (ms_pq (milestone_at n height)) \<and> fk_pq_sign keys \<noteq> None"

definition unsigned_block ::
  "network \<Rightarrow> forger_keys \<Rightarrow> block \<Rightarrow> u32 \<Rightarrow> transaction list \<Rightarrow> u32 \<times> u64 \<times> u64 \<Rightarrow> block" where
  "unsigned_block n keys previous timestamp txs totals =
     (let height = b_height previous + 1; m = milestone_at n height in
      case totals of (len, amount, fee) \<Rightarrow>
        \<lparr>b_id = None, b_version = (if hybrid n keys height then BLOCK_VERSION_PQ else block_version m),
         b_timestamp = timestamp, b_previous_block = unwrap_or [] (b_id previous), b_height = height,
         b_number_of_transactions = u32_len txs, b_total_amount = amount, b_total_fee = fee,
         b_reward = ms_reward m, b_payload_length = len, b_payload_hash = [],
         b_generator_public_key = fk_public_key_hex keys, b_block_signature = None, b_pq_signature = None,
         b_transactions = number_txs height 0 txs\<rparr>)"

definition sign_pq :: "crypto \<Rightarrow> network \<Rightarrow> forger_keys \<Rightarrow> block \<Rightarrow> block res" where
  "sign_pq E n keys b =
     (case (if hybrid n keys (b_height b) then fk_pq_sign keys else None) of
        None \<Rightarrow> Inr b
      | Some sign \<Rightarrow>
          rbind (block_pq_message E b) (\<lambda>m.
          rbind (sign m BLOCK_CTX) (\<lambda>sig.
          Inr (b\<lparr>b_pq_signature := Some \<lparr>pb_algorithm = ALG_ML_DSA_44, pb_signature = hex_encode E sig\<rparr>\<rparr>))))"

definition forge_block_with ::
  "crypto \<Rightarrow> network \<Rightarrow> forger_keys \<Rightarrow> block \<Rightarrow> u32 \<Rightarrow> transaction list \<Rightarrow> block res" where
  "forge_block_with E n keys previous timestamp txs =
     rbind (rfold (add_totals E n) txs (0, 0, 0)) (\<lambda>totals.
     let b = unsigned_block n keys previous timestamp txs totals in
     rbind (block_payload_hash E b) (\<lambda>ph.
     let b = b\<lparr>b_payload_hash := ph\<rparr> in
     rbind (block_signing_hash E b) (\<lambda>hash.
     rbind (fk_sign_ecdsa keys hash) (\<lambda>sig.
     rbind (sign_pq E n keys (b\<lparr>b_block_signature := Some sig\<rparr>)) (\<lambda>b.
     rbind (block_id E b) (\<lambda>i.
     Inr (b\<lparr>b_id := Some i,
            b_transactions := map (\<lambda>tx. tx\<lparr>tx_block_id := Some i\<rparr>) (b_transactions b)\<rparr>)))))))"

definition forge_block :: "crypto \<Rightarrow> network \<Rightarrow> forger_keys \<Rightarrow> block \<Rightarrow> u32 \<Rightarrow> transaction list \<Rightarrow> block res" where
  "forge_block E n keys previous timestamp txs = forge_block_with E n (keys\<lparr>fk_pq_sign := None\<rparr>) previous timestamp txs"

end
