(* ===== verification/BuilderProps.thy ===== *)
theory BuilderProps
  imports BlockBuilder
begin

text \<open>
  What the block builder guarantees: the selection respects the limits and the nonce order, it takes a
  pool that fits as a whole, and the block it builds passes the verification of every other node.
\<close>

section \<open>Annotations do not change a transaction\<close>

definition placed :: "u64 option \<Rightarrow> u32 option \<Rightarrow> string option \<Rightarrow> transaction \<Rightarrow> transaction" where
  "placed h q i tx = tx\<lparr>tx_block_height := h, tx_sequence := q, tx_block_id := i\<rparr>"

lemma placed_fields [simp]:
  "tx_id (placed h q i tx) = tx_id tx" "tx_amount (placed h q i tx) = tx_amount tx"
  "tx_fee (placed h q i tx) = tx_fee tx" "tx_expiration (placed h q i tx) = tx_expiration tx"
  "tx_sequence (placed h q i tx) = q" "tx_type_group (placed h q i tx) = tx_type_group tx"
  "tx_type (placed h q i tx) = tx_type tx" "tx_signature (placed h q i tx) = tx_signature tx"
  "tx_sender_public_key (placed h q i tx) = tx_sender_public_key tx"
  "is_pq (placed h q i tx) = is_pq tx" "is_token (placed h q i tx) = is_token tx"
  "is_sobj (placed h q i tx) = is_sobj tx" "pq_blocks (placed h q i tx) = pq_blocks tx"
  "asset_field f (placed h q i tx) = asset_field f tx"
  "second_signature_any (placed h q i tx) = second_signature_any tx"
  "tx_vendor_field (placed h q i tx) = tx_vendor_field tx"
  by (simp_all add: placed_def is_pq_def is_token_def is_sobj_def pq_blocks_def asset_field_def
      second_signature_any_def cong: option.case_cong)

lemma placed_assets [simp]:
  "token_asset_of (placed h q i tx) = token_asset_of tx" "sobj_asset_of (placed h q i tx) = sobj_asset_of tx"
  "pq_surcharge (placed h q i tx) f = pq_surcharge tx f"
  by (simp_all add: token_asset_of_def sobj_asset_of_def pq_surcharge_def)

lemma placed_serialize [simp]:
  "serialize_transaction E (placed h q i tx) opts net = serialize_transaction E tx opts net"
proof -
  have "serialize_vendor_field (placed h q i tx) = serialize_vendor_field tx"
    "serialize_type_payload E (placed h q i tx) = serialize_type_payload E tx"
    "serialize_signatures E (placed h q i tx) opts = serialize_signatures E tx opts"
    unfolding serialize_vendor_field_def has_vendor_field_def serialize_type_payload_def
      is_sobj_def is_token_def serialize_sobj_def serialize_token_def serialize_core_def serialize_signatures_def
      sobj_asset_of_def token_asset_of_def asset_field_def is_pq_def asset_def write_recipient_def Let_def placed_def
      pq_blocks_def second_signature_any_def
    by (cases tx, simp only: transaction.simps cong: if_cong option.case_cong)+
  then show ?thesis by (simp add: serialize_transaction_def) (simp add: placed_def)
qed

lemma placed_checks [simp]:
  "transaction_id E (placed h q i tx) = transaction_id E tx"
  "verify_transaction_signature E (placed h q i tx) = verify_transaction_signature E tx"
  "tx_format_errors E ms (placed h q i tx) = tx_format_errors E ms tx"
  "check_transaction E (placed h q i tx) = check_transaction E tx"
proof -
  have t: "token_type_fee E (placed h q i tx) ms a = token_type_fee E tx ms a" for a
    by (simp add: token_type_fee_def Let_def cong: if_cong)
  have "check_pq_format E (placed h q i tx) ms = check_pq_format E tx ms"
    "check_token_format E (placed h q i tx) ms = check_token_format E tx ms"
    "check_sobj_format E (placed h q i tx) ms = check_sobj_format E tx ms"
    by (simp_all add: check_pq_format_def is_second_sig_tx_def check_token_format_def t check_sobj_format_def
        cong: if_cong)
  then show "tx_format_errors E ms (placed h q i tx) = tx_format_errors E ms tx"
    by (simp add: tx_format_errors_def)
  show id: "transaction_id E (placed h q i tx) = transaction_id E tx"
    and sig: "verify_transaction_signature E (placed h q i tx) = verify_transaction_signature E tx"
    by (simp_all add: transaction_id_def verify_transaction_signature_def transaction_signing_hash_def
        cong: option.case_cong)
  show "check_transaction E (placed h q i tx) = check_transaction E tx"
    by (simp add: check_transaction_def id sig cong: option.case_cong sum.case_cong if_cong)
qed

section \<open>The forged block\<close>

text \<open>Documented behaviour of the signing functions: the signatures they return verify.\<close>

definition ecdsa_law :: "crypto \<Rightarrow> forger_keys \<Rightarrow> bool" where
  "ecdsa_law E keys \<longleftrightarrow> (\<forall>h sig. fk_sign_ecdsa keys h = Inr sig \<longrightarrow>
     (\<exists>s. hex_decode E sig = Some s \<and> verify_ecdsa E h s (fk_public_key_hex keys) = Inr True))"

definition pq_law :: "crypto \<Rightarrow> forger_keys \<Rightarrow> string \<Rightarrow> bool" where
  "pq_law E keys pk \<longleftrightarrow> (\<forall>sign m sig. fk_pq_sign keys = Some sign \<longrightarrow> sign m BLOCK_CTX = Inr sig \<longrightarrow>
     length sig = SIG_LEN \<and> (\<exists>k. hex_decode E pk = Some k \<and> verify_with_ctx E k m sig BLOCK_CTX = Inr True))"

text \<open>A transaction a block of height \<open>h\<close> may carry.\<close>

definition live_tx :: "u64 \<Rightarrow> transaction \<Rightarrow> bool" where
  "live_tx h tx \<longleftrightarrow> (case tx_expiration tx of None \<Rightarrow> True | Some e \<Rightarrow> e = 0 \<or> h < ucast e)"

definition block_tx_ok :: "crypto \<Rightarrow> network \<Rightarrow> u64 \<Rightarrow> transaction \<Rightarrow> bool" where
  "block_tx_ok E n h tx \<longleftrightarrow> tx_id tx \<noteq> None \<and> live_tx h tx \<and> check_transaction E tx = None
     \<and> tx_format_errors E (milestone_at n h) tx = []"

lemma tx_scan_clean:
  assumes "\<forall>tx \<in> set txs. tx_id tx \<noteq> None \<and> live_tx h tx" and "distinct (map tx_id txs)"
    and "\<forall>i \<in> set seen. Some i \<notin> set (map tx_id txs)"
  shows "tx_scan h txs seen = ([], \<Sum>tx\<leftarrow>txs. uint (tx_amount tx), \<Sum>tx\<leftarrow>txs. uint (tx_fee tx))"
  using assms
proof (induction txs arbitrary: seen)
  case (Cons tx txs)
  obtain i where i: "tx_id tx = Some i" using Cons.prems(1) by auto
  have live: "(case tx_expiration tx of None \<Rightarrow> [] | Some e \<Rightarrow> if e > 0 \<and> ucast e \<le> h then x else []) = []"
    for x :: "string list"
    using Cons.prems(1) by (auto simp: live_tx_def word_gt_0 split: option.splits)
  have "tx_scan h txs (i # seen) = ([], \<Sum>tx\<leftarrow>txs. uint (tx_amount tx), \<Sum>tx\<leftarrow>txs. uint (tx_fee tx))"
    using Cons.prems i by (intro Cons.IH) auto
  then show ?case using i Cons.prems(3) live by (auto simp: Let_def)
qed simp

lemma tx_scan_expired:
  assumes "tx \<in> set txs" "\<not> live_tx h tx" "tx_id tx \<noteq> None"
  shows "fst (tx_scan h txs seen) \<noteq> []"
  using assms
proof (induction txs arbitrary: seen)
  case (Cons t txs)
  show ?case
  proof (cases "tx = t")
    case True
    then show ?thesis using Cons.prems(2,3)
      by (auto simp: live_tx_def Let_def word_gt_0 not_less split: option.splits prod.splits)
  next
    case False
    then have "fst (tx_scan h txs sn) \<noteq> []" for sn using Cons by simp
    then show ?thesis by (auto simp: Let_def split: option.splits prod.splits) (metis fst_conv)+
  qed
qed simp

lemma add_totals_sum:
  assumes "rfold (add_totals E n) txs (l, a, f) = Inr (l', a', f')"
  shows "a' = a + (\<Sum>tx\<leftarrow>txs. tx_amount tx) \<and> f' = f + (\<Sum>tx\<leftarrow>txs. tx_fee tx)"
  using assms
proof (induction txs arbitrary: l a f)
  case (Cons tx txs)
  obtain acc where acc: "add_totals E n tx (l, a, f) = Inr acc" "rfold (add_totals E n) txs acc = Inr (l', a', f')"
    using Cons.prems by (auto simp: rbind_eq_Inr)
  then obtain l1 where "acc = (l1, a + tx_amount tx, f + tx_fee tx)" by (auto simp: add_totals_def rbind_eq_Inr)
  with acc(2) have "rfold (add_totals E n) txs (l1, a + tx_amount tx, f + tx_fee tx) = Inr (l', a', f')" by simp
  from Cons.IH [OF this] show ?case by (simp add: add.assoc)
qed simp

lemma uint_sum_list:
  fixes f :: "'a \<Rightarrow> u64"
  assumes "(\<Sum>x\<leftarrow>xs. uint (f x)) < 2 ^ 64"
  shows "uint (\<Sum>x\<leftarrow>xs. f x) = (\<Sum>x\<leftarrow>xs. uint (f x))"
  using assms
proof (induction xs)
  case (Cons x xs)
  have "uint (f x) + (\<Sum>x\<leftarrow>xs. uint (f x)) < 2 ^ 64" using Cons.prems by simp
  moreover have "0 \<le> uint (f x)" by simp
  ultimately have "(\<Sum>x\<leftarrow>xs. uint (f x)) < 2 ^ 64" by linarith
  then have "uint (\<Sum>x\<leftarrow>xs. f x) = (\<Sum>x\<leftarrow>xs. uint (f x))" by (rule Cons.IH)
  then show ?case using Cons.prems by (simp add: uint_plus_if' word_size)
qed simp

lemma number_placed:
  "number_txs h k txs = map (\<lambda>(j, tx). placed (Some h) (Some (u32_of_len j)) (tx_block_id tx) tx) (enumerate k txs)"
  by (induction txs arbitrary: k) (simp_all add: placed_def)

lemma number_block_id:
  "map (\<lambda>tx. tx\<lparr>tx_block_id := Some i\<rparr>) (number_txs h k txs)
     = map (\<lambda>(j, tx). placed (Some h) (Some (u32_of_len j)) (Some i) tx) (enumerate k txs)"
  by (induction txs arbitrary: k) (simp_all add: placed_def)

lemma enumerate_sequences_sorted:
  "k + length txs \<le> 2 ^ 32 \<Longrightarrow> sorted (map (\<lambda>(j, tx). u32_of_len j) (enumerate k txs))"
proof (induction txs arbitrary: k)
  case (Cons tx txs)
  have "u32_of_len k \<le> u32_of_len j" if "k < j" "j < k + Suc (length txs)" for j
    using that Cons.prems by (simp add: u32_of_len_def word_le_nat_alt unat_of_nat)
  then show ?case using Cons by (auto simp: in_set_enumerate_eq)
qed simp

text \<open>The payload hash only sees the ids, in the order of the sequence numbers, which is the list order.\<close>

definition ids_hash :: "crypto \<Rightarrow> transaction list \<Rightarrow> string res" where
  "ids_hash E txs =
     rbind (rfold (\<lambda>tx acc.
        rbind (case tx_id tx of Some i \<Rightarrow> Inr i | None \<Rightarrow> transaction_id E tx) (\<lambda>i.
        rbind (ok_or Hex (hex_decode E i)) (\<lambda>raw. Inr (acc @ raw)))) txs []) (\<lambda>ids.
     Inr (hex_encode E (sha256 E ids)))"

lemma rfold_map: "rfold f (map g xs) s = rfold (\<lambda>x. f (g x)) xs s"
  by (induction xs arbitrary: s) (auto intro: rbind_cong)

lemma payload_placed:
  assumes "length txs \<le> 2 ^ 32"
    and b: "b_transactions b = map (\<lambda>(j, tx). placed (Some h) (Some (u32_of_len j)) (g tx) tx) (enumerate 0 txs)"
  shows "block_payload_hash E b = ids_hash E txs"
proof -
  have "map (\<lambda>tx. unwrap_or 0 (tx_sequence tx)) (b_transactions b) = map (\<lambda>(j, tx). u32_of_len j) (enumerate 0 txs)"
    by (auto simp: b)
  then have "sorted (map (\<lambda>tx. unwrap_or 0 (tx_sequence tx)) (b_transactions b))"
    using enumerate_sequences_sorted [of 0 txs] assms(1) by simp
  then have "sort_key (\<lambda>tx. unwrap_or 0 (tx_sequence tx)) (b_transactions b) = b_transactions b"
    by (rule sort_key_id_if_sorted)
  moreover define F where "F = (\<lambda>tx (acc :: bytes). rbind (case tx_id tx of Some i \<Rightarrow> Inr i | None \<Rightarrow> transaction_id E tx)
      (\<lambda>i. rbind (ok_or Hex (hex_decode E i)) (\<lambda>raw. Inr (acc @ raw))))"
  moreover have "F (placed h q i tx) = F tx" for h q i tx by (simp add: F_def fun_eq_iff cong: option.case_cong)
  then have "rfold (\<lambda>x. F (case x of (j, tx) \<Rightarrow> placed (Some h) (Some (u32_of_len j)) (g tx) tx)) (enumerate k txs) s
      = rfold F txs s" for k s
    by (induction txs arbitrary: k s) (auto intro: rbind_cong)
  moreover have "list_all (\<lambda>tx. tx_sequence tx \<noteq> None) (b_transactions b)" by (auto simp: b list_all_iff)
  ultimately show ?thesis
    unfolding block_payload_hash_def ids_hash_def Let_def F_def [symmetric] by (simp only: if_True) (simp add: b rfold_map)
qed

text \<open>The header bytes depend on the header only.\<close>

lemma signing_hash_header:
  "block_signing_hash E (b\<lparr>b_block_signature := sg\<rparr>) = block_signing_hash E b"
  "block_signing_hash E (b\<lparr>b_pq_signature := pq\<rparr>) = block_signing_hash E b"
  "block_signing_hash E (b\<lparr>b_id := i, b_transactions := ts\<rparr>) = block_signing_hash E b"
  by (simp_all add: block_signing_hash_def serialize_block_def serialize_block_parts_def opt_hex_def cong: option.case_cong)

lemma block_id_header: "block_id E (b\<lparr>b_id := i, b_transactions := ts\<rparr>) = block_id E b"
  and pq_message_header: "block_pq_message E (b\<lparr>b_id := i, b_transactions := ts\<rparr>) = block_pq_message E b"
    "block_pq_message E (b\<lparr>b_pq_signature := pq\<rparr>) = block_pq_message E b"
  by (simp_all add: block_id_def block_pq_message_def serialize_block_def serialize_block_parts_def cong: option.case_cong)

lemma signed_header_length: "block_signing_hash E b = Inr h \<Longrightarrow> length (b_previous_block b) = 64"
  by (auto simp: block_signing_hash_def serialize_block_def serialize_block_parts_def rbind_eq_Inr split: if_splits)

text \<open>The block of a successful call, field by field.\<close>

lemma forge_block_cases:
  assumes "forge_block_with E n keys previous ts txs = Inr b"
  obtains len amount fee ph hash sig pq i where
    "rfold (add_totals E n) txs (0, 0, 0) = Inr (len, amount, fee)"
    and "block_payload_hash E (unsigned_block n keys previous ts txs (len, amount, fee)) = Inr ph"
    and "block_signing_hash E b = Inr hash" and "fk_sign_ecdsa keys hash = Inr sig" and "block_id E b = Inr i"
    and "b = (unsigned_block n keys previous ts txs (len, amount, fee))\<lparr>b_id := Some i, b_payload_hash := ph,
        b_block_signature := Some sig, b_pq_signature := pq,
        b_transactions := map (\<lambda>(j, tx). placed (Some (b_height previous + 1)) (Some (u32_of_len j)) (Some i) tx)
          (enumerate 0 txs)\<rparr>"
    and "case (if hybrid n keys (b_height previous + 1) then fk_pq_sign keys else None) of None \<Rightarrow> pq = None
      | Some sign \<Rightarrow> (\<exists>m s. block_pq_message E b = Inr m \<and> sign m BLOCK_CTX = Inr s
          \<and> pq = Some \<lparr>pb_algorithm = ALG_ML_DSA_44, pb_signature = hex_encode E s\<rparr>)"
proof -
  obtain len amount fee where tot: "rfold (add_totals E n) txs (0, 0, 0) = Inr (len, amount, fee)"
    using assms by (auto simp: forge_block_with_def rbind_eq_Inr)
  define b0 where "b0 = unsigned_block n keys previous ts txs (len, amount, fee)"
  obtain ph hash sig b3 i where ph: "block_payload_hash E b0 = Inr ph"
    and hash: "block_signing_hash E (b0\<lparr>b_payload_hash := ph\<rparr>) = Inr hash" and sig: "fk_sign_ecdsa keys hash = Inr sig"
    and b3: "sign_pq E n keys (b0\<lparr>b_payload_hash := ph, b_block_signature := Some sig\<rparr>) = Inr b3"
    and i: "block_id E b3 = Inr i"
    and b: "b = b3\<lparr>b_id := Some i, b_transactions := map (\<lambda>tx. tx\<lparr>tx_block_id := Some i\<rparr>) (b_transactions b3)\<rparr>"
    using assms tot by (auto simp: forge_block_with_def rbind_eq_Inr Let_def b0_def [symmetric])
  let ?b2 = "b0\<lparr>b_payload_hash := ph, b_block_signature := Some sig\<rparr>"
  define pq where "pq = b_pq_signature b3"
  have h: "b_height b0 = b_height previous + 1" by (simp add: b0_def unsigned_block_def Let_def)
  have none: "b_pq_signature b0 = None" by (simp add: b0_def unsigned_block_def Let_def)
  have eq: "b3 = ?b2\<lparr>b_pq_signature := pq\<rparr>"
    using b3 none by (auto simp: sign_pq_def pq_def rbind_eq_Inr split: option.splits)
  have txs: "b_transactions b3 = number_txs (b_height previous + 1) 0 txs"
    by (simp add: eq b0_def unsigned_block_def Let_def)
  have "case (if hybrid n keys (b_height previous + 1) then fk_pq_sign keys else None) of None \<Rightarrow> pq = None
      | Some sign \<Rightarrow> (\<exists>m s. block_pq_message E b = Inr m \<and> sign m BLOCK_CTX = Inr s
          \<and> pq = Some \<lparr>pb_algorithm = ALG_ML_DSA_44, pb_signature = hex_encode E s\<rparr>)"
    using b3 none h by (auto simp: sign_pq_def pq_def rbind_eq_Inr b pq_message_header split: option.splits if_splits)
  moreover have "block_signing_hash E b = Inr hash"
    using hash by (simp add: b eq signing_hash_header)
  moreover have "block_id E b = Inr i" using i by (simp add: b block_id_header)
  ultimately show ?thesis
    using that [of len amount fee ph hash sig i pq] tot ph sig
    by (simp add: b txs number_block_id b0_def [symmetric]) (simp add: eq)
qed

lemma forged_member:
  assumes "b_transactions b = map (\<lambda>(j, tx). placed (Some h) (Some (u32_of_len j)) (Some i) tx) (enumerate k txs)"
    and "tx \<in> set (b_transactions b)"
  obtains t q where "t \<in> set txs" "tx = placed (Some h) q (Some i) t"
proof -
  obtain j t where jt: "(j, t) \<in> set (enumerate k txs)" "tx = placed (Some h) (Some (u32_of_len j)) (Some i) t"
    using assms by auto
  then have "t \<in> set txs" by (metis enumerate_eq_zip set_zip_rightD)
  with jt(2) that show thesis by blast
qed

lemma forged_transactions:
  assumes "b_transactions b = map (\<lambda>(j, tx). placed (Some h) (Some (u32_of_len j)) (Some i) tx) (enumerate k txs)"
    and "\<And>h q i tx. f (placed h q i tx) = f tx"
  shows "map f (b_transactions b) = map f txs"
  unfolding assms(1) by (induction txs arbitrary: k) (simp_all add: assms(2))

lemma block_tx_ok_placed: "block_tx_ok E n h (placed hh q i tx) = block_tx_ok E n h tx"
  by (simp add: block_tx_ok_def live_tx_def)

lemma forged_version:
  assumes "hybrid n keys h \<or> snd (block_versions_allowed n h) \<and> block_version (milestone_at n h) \<noteq> BLOCK_VERSION_PQ"
    and "b_height b = h" "b_version b = (if hybrid n keys h then BLOCK_VERSION_PQ else block_version (milestone_at n h))"
  shows "version_errors n b = []"
  using assms by (auto simp: version_errors_def version_ok_def hybrid_def block_versions_allowed_def Let_def split: if_splits)

lemma forged_pq:
  assumes "case (if hybrid n keys h then fk_pq_sign keys else None) of None \<Rightarrow> pq = None
      | Some sign \<Rightarrow> (\<exists>m s. block_pq_message E b = Inr m \<and> sign m BLOCK_CTX = Inr s
          \<and> pq = Some \<lparr>pb_algorithm = ALG_ML_DSA_44, pb_signature = hex_encode E s\<rparr>)"
    and laws: "hex_laws E" "pq_law E keys pk"
    and "hybrid n keys h \<or> snd (block_versions_allowed n h) \<and> block_version (milestone_at n h) \<noteq> BLOCK_VERSION_PQ"
    and b: "b_version b = (if hybrid n keys h then BLOCK_VERSION_PQ else block_version (milestone_at n h))"
      "b_pq_signature b = pq"
  shows "block_pq_errors b = [] \<and> (hybrid n keys h \<longrightarrow> verify_block_pq_signature E b pk = Inr True)"
proof (cases "hybrid n keys h")
  case True
  then obtain sign m s where s: "fk_pq_sign keys = Some sign" "block_pq_message E b = Inr m" "sign m BLOCK_CTX = Inr s"
    "pq = Some \<lparr>pb_algorithm = ALG_ML_DSA_44, pb_signature = hex_encode E s\<rparr>"
    using assms(1) by (auto simp: hybrid_def)
  then obtain k where "length s = SIG_LEN" "hex_decode E pk = Some k" "verify_with_ctx E k m s BLOCK_CTX = Inr True"
    using laws(2) by (auto simp: pq_law_def)
  with True s laws(1) show ?thesis by (simp add: block_pq_errors_def b verify_block_pq_signature_def)
next
  case False
  with assms show ?thesis by (simp add: block_pq_errors_def)
qed

text \<open>C12. A forged block verifies: the block the builder makes out of live, individually valid
  transactions with distinct ids passes \<open>verify_block\<close>, totals, payload hash, signature, id and version
  included, and its hybrid signature passes the check against the delegate's post-quantum key. The
  totals must fit 64 bits, the count the milestone's limit, the version be one the height accepts.\<close>

theorem forged_block_verifies:
  assumes forge: "forge_block_with E n keys previous ts txs = Inr b" and h: "h = b_height previous + 1"
    and laws: "hex_laws E" "ecdsa_law E keys" "pq_law E keys pk"
    and txs: "\<forall>tx \<in> set txs. block_tx_ok E n h tx" "distinct (map tx_id txs)"
    and limits: "length txs \<le> unat (max_transactions (milestone_at n h))"
      "(\<Sum>tx\<leftarrow>txs. uint (tx_amount tx)) < 2 ^ 64" "(\<Sum>tx\<leftarrow>txs. uint (tx_fee tx)) < 2 ^ 64"
    and version: "hybrid n keys h \<or> snd (block_versions_allowed n h) \<and> block_version (milestone_at n h) \<noteq> BLOCK_VERSION_PQ"
    and time: "ts \<le> now + ms_blocktime (milestone_at n h)" and above: "b_height previous \<noteq> 0"
  shows "verify_block E b n now = [] \<and> (hybrid n keys h \<longrightarrow> verify_block_pq_signature E b pk = Inr True)"
proof -
  obtain len amount fee ph hash sig pq i where tot: "rfold (add_totals E n) txs (0, 0, 0) = Inr (len, amount, fee)"
    and ph: "block_payload_hash E (unsigned_block n keys previous ts txs (len, amount, fee)) = Inr ph"
    and sg: "block_signing_hash E b = Inr hash" "fk_sign_ecdsa keys hash = Inr sig" and i: "block_id E b = Inr i"
    and b: "b = (unsigned_block n keys previous ts txs (len, amount, fee))\<lparr>b_id := Some i, b_payload_hash := ph,
        b_block_signature := Some sig, b_pq_signature := pq,
        b_transactions := map (\<lambda>(j, tx). placed (Some h) (Some (u32_of_len j)) (Some i) tx) (enumerate 0 txs)\<rparr>"
    and pq: "case (if hybrid n keys h then fk_pq_sign keys else None) of None \<Rightarrow> pq = None
      | Some sign \<Rightarrow> (\<exists>m s. block_pq_message E b = Inr m \<and> sign m BLOCK_CTX = Inr s
          \<and> pq = Some \<lparr>pb_algorithm = ALG_ML_DSA_44, pb_signature = hex_encode E s\<rparr>)"
    by (rule forge_block_cases [OF forge, folded h]) (rule that; assumption)
  have hdr: "b_height b = h" "b_reward b = ms_reward (milestone_at n h)" "b_timestamp b = ts"
    "b_generator_public_key b = fk_public_key_hex keys" "b_number_of_transactions b = u32_len txs"
    "b_version b = (if hybrid n keys h then BLOCK_VERSION_PQ else block_version (milestone_at n h))"
    "b_id b = Some i" "b_block_signature b = Some sig" "b_pq_signature b = pq"
    by (simp_all add: b unsigned_block_def Let_def h)
  have bt: "b_transactions b = map (\<lambda>(j, tx). placed (Some h) (Some (u32_of_len j)) (Some i) tx) (enumerate 0 txs)"
    by (simp add: b)
  note same = forged_transactions [OF bt]
  have len32: "length txs \<le> 2 ^ 32" using limits(1) unsigned_less [where ?'a = nat and ?'b = 32, of "max_transactions (milestone_at n h)"] by simp
  have totals: "uint (b_total_amount b) = (\<Sum>tx\<leftarrow>txs. uint (tx_amount tx))"
    "uint (b_total_fee b) = (\<Sum>tx\<leftarrow>txs. uint (tx_fee tx))"
    using add_totals_sum [OF tot] limits(2,3) by (simp_all add: b unsigned_block_def Let_def uint_sum_list)
  have payload: "block_payload_hash E b = Inr (b_payload_hash b)"
    using ph payload_placed [OF len32, of "unsigned_block n keys previous ts txs (len, amount, fee)" h tx_block_id E]
      payload_placed [OF len32 bt] by (simp add: b unsigned_block_def Let_def number_placed h)
  have ok: "block_tx_ok E n h tx" if "tx \<in> set (b_transactions b)" for tx
    using forged_member [OF bt that] txs(1) by (metis block_tx_ok_placed)
  have "map tx_id (b_transactions b) = map tx_id txs" by (rule same) simp
  then have "\<forall>tx \<in> set (b_transactions b). tx_id tx \<noteq> None \<and> live_tx h tx" "distinct (map tx_id (b_transactions b))"
    using txs(2) ok by (simp_all add: block_tx_ok_def)
  then have "tx_scan h (b_transactions b) []
      = ([], \<Sum>tx\<leftarrow>b_transactions b. uint (tx_amount tx), \<Sum>tx\<leftarrow>b_transactions b. uint (tx_fee tx))"
    by (intro tx_scan_clean) simp_all
  moreover have "map (\<lambda>tx. uint (tx_amount tx)) (b_transactions b) = map (\<lambda>tx. uint (tx_amount tx)) txs"
    "map (\<lambda>tx. uint (tx_fee tx)) (b_transactions b) = map (\<lambda>tx. uint (tx_fee tx)) txs"
    by (rule same, simp)+
  ultimately have scan: "tx_scan h (b_transactions b) [] = ([], uint (b_total_amount b), uint (b_total_fee b))"
    by (simp add: totals)
  have clean: "List.map_filter (check_transaction E) (b_transactions b) = []"
    "concat (map (tx_format_errors E (milestone_at n h)) (b_transactions b)) = []"
    using ok by (simp_all add: block_tx_ok_def map_filter_def filter_empty_conv)
  obtain s where s: "hex_decode E sig = Some s" "verify_ecdsa E hash s (fk_public_key_hex keys) = Inr True"
    using laws(2) sg(2) by (auto simp: ecdsa_law_def)
  then have signature: "verify_block_signature E b = Inr True"
    using sg(1) by (simp add: verify_block_signature_def hdr)
  have prev: "b_previous_block b \<noteq> []" using signed_header_length [OF sg(1)] by auto
  have pq_ok: "block_pq_errors b = []" "hybrid n keys h \<longrightarrow> verify_block_pq_signature E b pk = Inr True"
    using forged_pq [OF pq laws(1,3) version hdr(6,9)] by simp_all
  have "b_height b \<noteq> 1" using above by (simp add: hdr h)
  moreover have "\<not> max_transactions (milestone_at n h) < u32_len txs"
    using limits(1) len32 by (simp add: u32_len_def word_less_nat_alt unat_of_nat)
  moreover have "u32_len (b_transactions b) = u32_len txs" by (simp add: u32_len_def bt)
  ultimately show ?thesis
    using prev signature pq_ok forged_version [OF version hdr(1,6)] time scan clean payload i
    by (simp add: verify_block_def hdr err_if_def Let_def not_less)
qed

section \<open>The selection respects its limits\<close>

definition tx_bytes :: "crypto \<Rightarrow> network \<Rightarrow> transaction \<Rightarrow> nat" where
  "tx_bytes E n tx = (case serialize_transaction E tx opts_default (nw_pubkey_hash n) of Inl _ \<Rightarrow> 0 | Inr raw \<Rightarrow> length raw)"

definition nonce_of :: "transaction \<Rightarrow> u64" where
  "nonce_of tx = unwrap_or 0 (tx_nonce tx)"

definition sent_by :: "string \<Rightarrow> transaction \<Rightarrow> bool" where
  "sent_by pk tx \<longleftrightarrow> tx_sender_public_key tx = pk"

text \<open>The nonces run from \<open>k\<close> on without a gap.\<close>

definition nonce_run :: "u64 \<Rightarrow> transaction list \<Rightarrow> bool" where
  "nonce_run k txs \<longleftrightarrow> map nonce_of txs = map (\<lambda>i. k + word_of_nat i) [0..<length txs]"

lemma nonce_run_snoc: "nonce_run k (txs @ [tx]) \<longleftrightarrow> nonce_run k txs \<and> nonce_of tx = k + word_of_nat (length txs)"
  by (auto simp: nonce_run_def)

definition sender_run :: "crypto \<Rightarrow> network \<Rightarrow> store \<Rightarrow> (string, u64) btmap \<Rightarrow> transaction list \<Rightarrow> string \<Rightarrow> bool" where
  "sender_run E n s next chosen pk \<longleftrightarrow> (let ts = filter (sent_by pk) chosen in
     if ts = [] then bt_get next pk = None
     else \<exists>k. expected_nonce E n s [] pk = Inr k \<and> nonce_run k ts
       \<and> bt_get next pk = Some (k + word_of_nat (length ts)))"

definition selected_from :: "crypto \<Rightarrow> network \<Rightarrow> store \<Rightarrow> nat \<Rightarrow> transaction multiset \<Rightarrow> selection \<Rightarrow> bool" where
  "selected_from E n s limit M sl \<longleftrightarrow> (\<forall>pk. sender_run E n s (sl_next_nonce sl) (sl_chosen sl) pk)
     \<and> sl_payload sl = (\<Sum>tx\<leftarrow>sl_chosen sl. tx_bytes E n tx)
     \<and> sl_payload sl \<le> limit \<and> mset (sl_chosen sl) + mset (sl_deferred sl) \<subseteq># M"

lemma select_step_cases:
  assumes "select_step E n s limit tx sl = Inr sl'"
  obtains (kept) "sl' = sl"
  | (deferred) "sl' = sl\<lparr>sl_deferred := sl_deferred sl @ [tx]\<rparr>"
  | (chosen) "expected_nonce E n s (sl_next_nonce sl) (tx_sender_public_key tx) = Inr (nonce_of tx)"
      "sl_payload sl + tx_bytes E n tx \<le> limit"
      "sl' = sl\<lparr>sl_payload := sl_payload sl + tx_bytes E n tx,
          sl_next_nonce := bt_put (tx_sender_public_key tx) (nonce_of tx + 1) (sl_next_nonce sl),
          sl_chosen := sl_chosen sl @ [tx], sl_progress := True\<rparr>"
  using assms that
  by (auto simp: select_step_def rbind_eq_Inr Let_def nonce_of_def tx_bytes_def not_less split: if_splits)

lemma sender_run_step:
  assumes "sender_run E n s next chosen pk" and "expected_nonce E n s next (tx_sender_public_key tx) = Inr (nonce_of tx)"
  shows "sender_run E n s (bt_put (tx_sender_public_key tx) (nonce_of tx + 1) next) (chosen @ [tx]) pk"
  using assms by (cases "pk = tx_sender_public_key tx")
    (auto simp: sender_run_def Let_def sent_by_def nonce_run_snoc expected_nonce_def add.assoc nonce_run_def split: if_splits)

lemma selected_from_step:
  assumes "select_step E n s limit tx sl = Inr sl'" and "selected_from E n s limit M sl"
  shows "selected_from E n s limit (add_mset tx M) sl'"
  using assms(1)
proof (cases rule: select_step_cases)
  case chosen
  then show ?thesis using assms(2) sender_run_step by (auto simp: selected_from_def)
qed (use assms(2) in \<open>auto simp: selected_from_def subset_mset.add_increasing2 intro: subset_mset.order_trans\<close>)

lemma selected_from_pass:
  assumes "select_pass E n s mt limit txs sl = Inr sl'" and "selected_from E n s limit M sl" and "length (sl_chosen sl) \<le> mt"
  shows "selected_from E n s limit (M + mset txs) sl' \<and> length (sl_chosen sl') \<le> mt"
  using assms
proof (induction txs arbitrary: sl M)
  case (Cons tx txs)
  show ?case
  proof (cases "length (sl_chosen sl) \<ge> mt")
    case True
    then show ?thesis
      using Cons.prems by (auto simp: selected_from_def intro: subset_mset.order_trans)
  next
    case False
    then obtain sl1 where sl1: "select_step E n s limit tx sl = Inr sl1" "select_pass E n s mt limit txs sl1 = Inr sl'"
      using Cons.prems(1) by (auto split: sum.splits)
    have "length (sl_chosen sl1) \<le> mt"
      using sl1(1) False by (cases rule: select_step_cases) (use Cons.prems(3) in auto)
    with Cons.IH [OF sl1(2) selected_from_step [OF sl1(1) Cons.prems(2)]] show ?thesis by simp
  qed
qed simp

text \<open>What the limits and the nonce order mean for the chosen transactions.\<close>

definition good_selection ::
  "crypto \<Rightarrow> network \<Rightarrow> store \<Rightarrow> nat \<Rightarrow> nat \<Rightarrow> transaction list \<Rightarrow> transaction list \<Rightarrow> bool" where
  "good_selection E n s max_txs limit pool txs \<longleftrightarrow> length txs \<le> max_txs
     \<and> (\<Sum>tx\<leftarrow>txs. tx_bytes E n tx) \<le> limit \<and> mset txs \<subseteq># mset pool
     \<and> (\<forall>tx \<in> set txs. \<exists>k. expected_nonce E n s [] (tx_sender_public_key tx) = Inr k
          \<and> nonce_run k (filter (sent_by (tx_sender_public_key tx)) txs))"

lemma mset_add_leD: "A + B \<subseteq># C \<Longrightarrow> A \<subseteq># C"
  using mset_subset_eq_add_left subset_mset.order_trans by blast

lemma selected_good:
  assumes "selected_from E n s limit (mset pool) sl" and "length (sl_chosen sl) \<le> mt"
  shows "good_selection E n s mt limit pool (sl_chosen sl)"
  unfolding good_selection_def
proof (intro conjI ballI)
  fix tx assume tx: "tx \<in> set (sl_chosen sl)"
  then have "filter (sent_by (tx_sender_public_key tx)) (sl_chosen sl) \<noteq> []" by (auto simp: filter_empty_conv sent_by_def)
  then show "\<exists>k. expected_nonce E n s [] (tx_sender_public_key tx) = Inr k
      \<and> nonce_run k (filter (sent_by (tx_sender_public_key tx)) (sl_chosen sl))"
    using assms(1) unfolding selected_from_def sender_run_def Let_def by metis
next
  show "mset (sl_chosen sl) \<subseteq># mset pool"
    using assms(1) by (auto simp: selected_from_def dest: mset_add_leD)
qed (use assms in \<open>simp_all add: selected_from_def\<close>)

lemma selected_from_loop:
  assumes "select_loop E n s mt limit cs sl = Inr txs"
    and "selected_from E n s limit (mset (sl_chosen sl)) (sl\<lparr>sl_deferred := []\<rparr>)"
    and "mset (sl_chosen sl) + mset cs \<subseteq># mset pool" and "length (sl_chosen sl) \<le> mt"
  shows "good_selection E n s mt limit pool txs"
  using assms
proof (induction E n s mt limit cs sl rule: select_loop.induct)
  case (1 E n s mt limit cs sl)
  let ?start = "sl\<lparr>sl_progress := False, sl_deferred := []\<rparr>"
  have start: "selected_from E n s limit (mset (sl_chosen sl)) ?start" using "1.prems"(2) by (simp add: selected_from_def)
  show ?case
  proof (cases "sl_progress sl \<and> length (sl_chosen sl) < mt")
    case False
    then have "txs = sl_chosen sl" using "1.prems"(1) by (subst (asm) select_loop.simps) (simp split: if_splits)
    moreover have "selected_from E n s limit (mset pool) ?start"
      using start "1.prems"(3) by (auto simp: selected_from_def dest: mset_add_leD)
    ultimately show ?thesis using selected_good [of E n s limit pool ?start mt] "1.prems"(4) by simp
  next
    case True
    then obtain sl' where sl': "select_pass E n s mt limit cs ?start = Inr sl'"
      "(if sl_deferred sl' = [] then Inr (sl_chosen sl') else select_loop E n s mt limit (sl_deferred sl') sl') = Inr txs"
      using "1.prems"(1) by (subst (asm) select_loop.simps) (auto split: sum.splits)
    have pass: "selected_from E n s limit (mset (sl_chosen sl) + mset cs) sl'" "length (sl_chosen sl') \<le> mt"
      using selected_from_pass [OF sl'(1) start] "1.prems"(4) by simp_all
    have sub: "mset (sl_chosen sl') + mset (sl_deferred sl') \<subseteq># mset pool"
      using pass(1) "1.prems"(3) unfolding selected_from_def by (blast intro: subset_mset.order_trans)
    have again: "selected_from E n s limit (mset (sl_chosen sl')) (sl'\<lparr>sl_deferred := []\<rparr>)"
      using pass(1) by (simp add: selected_from_def)
    show ?thesis
    proof (cases "sl_deferred sl' = []")
      case True
      then show ?thesis
        using sl'(2) pass "1.prems"(3) selected_good [of E n s limit pool sl' mt] sub
        by (auto simp: selected_from_def)
    next
      case False
      then show ?thesis using "1.IH" [OF \<open>sl_progress sl \<and> length (sl_chosen sl) < mt\<close> sl'(1) False] sl'(2) again sub pass(2) by simp
    qed
  qed
qed

text \<open>The selection respects the limits of the block and the order of the nonces: the chosen
  transactions are among the pending ones, each at most once, they fit the count and the payload of the
  milestone, and every sender's ones run from the nonce after the wallet's without a gap.\<close>

theorem selection_respects_limits:
  assumes "select_transactions E n s pool height = Inr txs"
  shows "good_selection E n s (unat (max_transactions (milestone_at n height))) (unat (max_payload (milestone_at n height))) pool txs"
proof (rule selected_from_loop)
  show "select_loop E n s (unat (max_transactions (milestone_at n height))) (unat (max_payload (milestone_at n height)))
      (sort_key select_key pool) selection_start = Inr txs"
    using assms by (simp add: select_transactions_def Let_def)
qed (simp_all add: selected_from_def selection_start_def sender_run_def)

section \<open>A pool that fits is taken whole\<close>

text \<open>The pending transactions \<open>M\<close> of every sender carry the nonces after the next one, each once.\<close>

definition gap_free :: "crypto \<Rightarrow> network \<Rightarrow> store \<Rightarrow> (string, u64) btmap \<Rightarrow> transaction multiset \<Rightarrow> bool" where
  "gap_free E n s next M \<longleftrightarrow> (\<forall>pk. let ts = filter_mset (sent_by pk) M in ts \<noteq> {#} \<longrightarrow>
     (\<exists>k. expected_nonce E n s next pk = Inr k \<and> unat k + size ts < 2 ^ 64
        \<and> image_mset (\<lambda>tx. unat (nonce_of tx)) ts = mset_set {unat k..<unat k + size ts}))"

lemma gap_freeD:
  assumes "gap_free E n s next M" and "tx \<in># M"
  obtains k c where "expected_nonce E n s next (tx_sender_public_key tx) = Inr k" "unat k + c < 2 ^ 64"
    "c = size (filter_mset (sent_by (tx_sender_public_key tx)) M)"
    "image_mset (\<lambda>tx. unat (nonce_of tx)) (filter_mset (sent_by (tx_sender_public_key tx)) M) = mset_set {unat k..<unat k + c}"
proof -
  have "tx \<in># filter_mset (sent_by (tx_sender_public_key tx)) M" using assms(2) by (simp add: sent_by_def)
  then have "filter_mset (sent_by (tx_sender_public_key tx)) M \<noteq> {#}" by force
  then show thesis using assms(1) that unfolding gap_free_def Let_def by metis
qed

lemma gap_free_head:
  assumes "gap_free E n s next M" and "tx \<in># M"
  shows "\<exists>k. expected_nonce E n s next (tx_sender_public_key tx) = Inr k \<and> k \<le> nonce_of tx"
proof -
  obtain k c where k: "expected_nonce E n s next (tx_sender_public_key tx) = Inr k"
    "image_mset (\<lambda>tx. unat (nonce_of tx)) (filter_mset (sent_by (tx_sender_public_key tx)) M) = mset_set {unat k..<unat k + c}"
    using gap_freeD [OF assms] by metis
  have "unat (nonce_of tx) \<in># image_mset (\<lambda>tx. unat (nonce_of tx)) (filter_mset (sent_by (tx_sender_public_key tx)) M)"
    using assms(2) by (auto simp: sent_by_def)
  then have "unat k \<le> unat (nonce_of tx)" unfolding k(2) by simp
  with k(1) show ?thesis by (auto simp: word_le_nat_alt)
qed

lemma gap_free_least:
  assumes "gap_free E n s next M" and "M \<noteq> {#}"
  shows "\<exists>tx \<in># M. expected_nonce E n s next (tx_sender_public_key tx) = Inr (nonce_of tx)"
proof -
  obtain t where t: "t \<in># M" using assms(2) by blast
  obtain k c where k: "expected_nonce E n s next (tx_sender_public_key t) = Inr k"
    and c: "c = size (filter_mset (sent_by (tx_sender_public_key t)) M)"
    and im: "image_mset (\<lambda>tx. unat (nonce_of tx)) (filter_mset (sent_by (tx_sender_public_key t)) M) = mset_set {unat k..<unat k + c}"
    using gap_freeD [OF assms(1) t] by metis
  have "t \<in># filter_mset (sent_by (tx_sender_public_key t)) M" using t by (simp add: sent_by_def)
  then have "filter_mset (sent_by (tx_sender_public_key t)) M \<noteq> {#}" by force
  then have "c \<noteq> 0" unfolding c by simp
  then have "unat k \<in># image_mset (\<lambda>tx. unat (nonce_of tx)) (filter_mset (sent_by (tx_sender_public_key t)) M)"
    unfolding im by simp
  then obtain tx where "tx \<in># M" "tx_sender_public_key tx = tx_sender_public_key t" "unat k = unat (nonce_of tx)"
    by (auto simp: sent_by_def)
  with k show ?thesis by (metis word_unat_eq_iff)
qed

lemma atLeastLessThan_insert: "mset_set {k..<k + Suc c} = add_mset k (mset_set {Suc k..<Suc k + c})" for k :: nat
proof -
  have "{k..<k + Suc c} = insert k {Suc k..<Suc k + c}" by auto
  then show ?thesis by simp
qed

lemma gap_free_choose:
  assumes g: "gap_free E n s next (add_mset tx M)"
    and e: "expected_nonce E n s next (tx_sender_public_key tx) = Inr (nonce_of tx)"
  shows "gap_free E n s (bt_put (tx_sender_public_key tx) (nonce_of tx + 1) next) M"
  unfolding gap_free_def Let_def
proof (intro allI impI)
  fix pk assume ne: "filter_mset (sent_by pk) M \<noteq> {#}"
  let ?next = "bt_put (tx_sender_public_key tx) (nonce_of tx + 1) next"
  let ?ts = "filter_mset (sent_by pk) M"
  show "\<exists>k. expected_nonce E n s ?next pk = Inr k \<and> unat k + size ?ts < 2 ^ 64
      \<and> image_mset (\<lambda>tx. unat (nonce_of tx)) ?ts = mset_set {unat k..<unat k + size ?ts}"
  proof (cases "pk = tx_sender_public_key tx")
    case True
    let ?k = "unat (nonce_of tx)"
    have "?k + Suc (size ?ts) < 2 ^ 64"
      and im: "add_mset ?k (image_mset (\<lambda>tx. unat (nonce_of tx)) ?ts) = mset_set {?k..<?k + Suc (size ?ts)}"
      using gap_freeD [OF g, of tx] e True by (auto simp: sent_by_def)
    moreover have "mset_set {?k..<?k + Suc (size ?ts)} = add_mset ?k (mset_set {Suc ?k..<Suc ?k + size ?ts})"
      using atLeastLessThan_insert [of ?k "size ?ts"] by simp
    moreover have "unat (nonce_of tx + 1) = Suc ?k" using calculation(1) by (simp add: unat_word_ariths)
    ultimately show ?thesis using True by (auto simp: expected_nonce_def)
  next
    case False
    then have "expected_nonce E n s ?next pk = expected_nonce E n s next pk"
      "filter_mset (sent_by pk) (add_mset tx M) = ?ts"
      by (simp_all add: expected_nonce_def sent_by_def)
    then show ?thesis using g ne unfolding gap_free_def Let_def by metis
  qed
qed

definition serializable :: "crypto \<Rightarrow> network \<Rightarrow> transaction multiset \<Rightarrow> bool" where
  "serializable E n M \<longleftrightarrow> (\<forall>tx \<in># M. is_ok (serialize_transaction E tx opts_default (nw_pubkey_hash n)))"

definition total_bytes :: "crypto \<Rightarrow> network \<Rightarrow> transaction multiset \<Rightarrow> nat" where
  "total_bytes E n M = sum_mset (image_mset (tx_bytes E n) M)"

text \<open>One candidate out of a gap-free rest that still fits: it is taken when its turn has come, else put
  off, and never lost.\<close>

lemma select_step_complete:
  assumes g: "gap_free E n s (sl_next_nonce sl) (add_mset tx M)" and ok: "serializable E n (add_mset tx M)"
    and fit: "sl_payload sl + total_bytes E n (add_mset tx M) \<le> limit"
  shows "\<exists>sl'. select_step E n s limit tx sl = Inr sl' \<and>
     (if expected_nonce E n s (sl_next_nonce sl) (tx_sender_public_key tx) = Inr (nonce_of tx)
      then sl_chosen sl' = sl_chosen sl @ [tx] \<and> sl_deferred sl' = sl_deferred sl \<and> sl_progress sl'
        \<and> gap_free E n s (sl_next_nonce sl') M \<and> sl_payload sl' = sl_payload sl + tx_bytes E n tx
      else sl' = sl\<lparr>sl_deferred := sl_deferred sl @ [tx]\<rparr>)"
proof -
  obtain k where k: "expected_nonce E n s (sl_next_nonce sl) (tx_sender_public_key tx) = Inr k" "k \<le> nonce_of tx"
    using gap_free_head [OF g] by auto
  obtain raw where raw: "serialize_transaction E tx opts_default (nw_pubkey_hash n) = Inr raw"
    using ok by (auto simp: serializable_def is_ok_def split: sum.splits)
  show ?thesis
  proof (cases "k = nonce_of tx")
    case True
    have "sl_payload sl + length raw \<le> limit" using fit raw by (simp add: total_bytes_def tx_bytes_def)
    then show ?thesis
      using k True raw gap_free_choose [OF g]
      by (simp add: select_step_def nonce_of_def Let_def tx_bytes_def)
  next
    case False
    then show ?thesis using k by (auto simp: select_step_def nonce_of_def Let_def)
  qed
qed

lemma select_pass_complete:
  assumes "gap_free E n s (sl_next_nonce sl) (mset (sl_deferred sl) + mset txs)"
    and "serializable E n (mset (sl_deferred sl) + mset txs)"
    and "sl_payload sl + total_bytes E n (mset (sl_deferred sl) + mset txs) \<le> limit"
    and "length (sl_chosen sl) + length txs \<le> mt"
  shows "\<exists>sl'. select_pass E n s mt limit txs sl = Inr sl'
     \<and> mset (sl_chosen sl') + mset (sl_deferred sl') = mset (sl_chosen sl) + mset (sl_deferred sl) + mset txs
     \<and> gap_free E n s (sl_next_nonce sl') (mset (sl_deferred sl'))
     \<and> sl_payload sl' + total_bytes E n (mset (sl_deferred sl')) \<le> limit
     \<and> (sl_progress sl \<or> (\<exists>tx \<in> set txs. expected_nonce E n s (sl_next_nonce sl) (tx_sender_public_key tx) = Inr (nonce_of tx))
          \<longrightarrow> sl_progress sl')"
  using assms
proof (induction txs arbitrary: sl)
  case (Cons tx txs)
  let ?M = "mset (sl_deferred sl) + mset txs"
  let ?turn = "expected_nonce E n s (sl_next_nonce sl) (tx_sender_public_key tx) = Inr (nonce_of tx)"
  obtain sl1 where step: "select_step E n s limit tx sl = Inr sl1"
    and sl1: "if ?turn then sl_chosen sl1 = sl_chosen sl @ [tx] \<and> sl_deferred sl1 = sl_deferred sl \<and> sl_progress sl1
        \<and> gap_free E n s (sl_next_nonce sl1) ?M \<and> sl_payload sl1 = sl_payload sl + tx_bytes E n tx
      else sl1 = sl\<lparr>sl_deferred := sl_deferred sl @ [tx]\<rparr>"
    using select_step_complete [of E n s sl tx ?M limit] Cons.prems by auto
  have "\<exists>sl'. select_pass E n s mt limit txs sl1 = Inr sl'
     \<and> mset (sl_chosen sl') + mset (sl_deferred sl') = mset (sl_chosen sl1) + mset (sl_deferred sl1) + mset txs
     \<and> gap_free E n s (sl_next_nonce sl') (mset (sl_deferred sl'))
     \<and> sl_payload sl' + total_bytes E n (mset (sl_deferred sl')) \<le> limit
     \<and> (sl_progress sl1 \<or> (\<exists>tx \<in> set txs. expected_nonce E n s (sl_next_nonce sl1) (tx_sender_public_key tx) = Inr (nonce_of tx))
          \<longrightarrow> sl_progress sl')"
    using sl1 Cons.prems by (intro Cons.IH) (auto simp: serializable_def total_bytes_def split: if_splits)
  then show ?case using step sl1 Cons.prems(4) by (auto split: if_splits)
qed simp

lemma select_pass_deferred:
  assumes "select_pass E n s mt limit txs sl = Inr sl'"
  shows "set (sl_deferred sl') \<subseteq> set (sl_deferred sl) \<union> set txs"
  using assms
proof (induction txs arbitrary: sl)
  case (Cons tx txs)
  show ?case
  proof (cases "length (sl_chosen sl) \<ge> mt")
    case False
    then obtain sl1 where sl1: "select_step E n s limit tx sl = Inr sl1" "select_pass E n s mt limit txs sl1 = Inr sl'"
      using Cons.prems by (auto split: sum.splits)
    have "set (sl_deferred sl1) \<subseteq> insert tx (set (sl_deferred sl))"
      using sl1(1) by (cases rule: select_step_cases) auto
    with Cons.IH [OF sl1(2)] show ?thesis by auto
  qed (use Cons.prems in auto)
qed simp

lemma select_loop_complete:
  assumes "gap_free E n s (sl_next_nonce sl) (mset cs)" and "serializable E n (mset cs)"
    and "sl_payload sl + total_bytes E n (mset cs) \<le> limit" and "length (sl_chosen sl) + length cs \<le> mt"
    and "sl_progress sl" and "cs \<noteq> []"
  shows "\<exists>txs. select_loop E n s mt limit cs sl = Inr txs \<and> mset txs = mset (sl_chosen sl) + mset cs"
  using assms
proof (induction "length cs" arbitrary: cs sl rule: less_induct)
  case less
  let ?start = "sl\<lparr>sl_progress := False, sl_deferred := []\<rparr>"
  obtain sl' where pass: "select_pass E n s mt limit cs ?start = Inr sl'"
    and all: "mset (sl_chosen sl') + mset (sl_deferred sl') = mset (sl_chosen sl) + mset cs"
    and g: "gap_free E n s (sl_next_nonce sl') (mset (sl_deferred sl'))"
    and fit: "sl_payload sl' + total_bytes E n (mset (sl_deferred sl')) \<le> limit"
    and progress: "(\<exists>tx \<in> set cs. expected_nonce E n s (sl_next_nonce sl) (tx_sender_public_key tx) = Inr (nonce_of tx))
      \<longrightarrow> sl_progress sl'"
    using select_pass_complete [of E n s ?start cs limit mt] less.prems by auto
  have go: "sl_progress sl'" using progress gap_free_least [OF less.prems(1)] less.prems(6) by auto
  have room: "length (sl_chosen sl) < mt" using less.prems(4,6) by (cases cs) auto
  have loop: "select_loop E n s mt limit cs sl
      = (if sl_deferred sl' = [] then Inr (sl_chosen sl') else select_loop E n s mt limit (sl_deferred sl') sl')"
    using pass room less.prems(5) by (subst select_loop.simps) simp
  show ?case
  proof (cases "sl_deferred sl' = []")
    case True
    with loop all show ?thesis by simp
  next
    case False
    have "length (sl_deferred sl') < length cs" using select_pass_sizes [OF pass] go by auto
    moreover have "serializable E n (mset (sl_deferred sl'))"
      using less.prems(2) all select_pass_deferred [OF pass] by (auto simp: serializable_def)
    moreover have "length (sl_chosen sl') + length (sl_deferred sl') \<le> mt"
      using arg_cong [OF all, of size] less.prems(4) by simp
    ultimately have "\<exists>txs. select_loop E n s mt limit (sl_deferred sl') sl' = Inr txs
        \<and> mset txs = mset (sl_chosen sl') + mset (sl_deferred sl')"
      using less.hyps g fit go False by blast
    with loop False all show ?thesis by auto
  qed
qed

lemma select_fitting:
  assumes "gap_free E n s [] (mset pool)" and "serializable E n (mset pool)"
    and "total_bytes E n (mset pool) \<le> unat (max_payload (milestone_at n height))"
    and "length pool \<le> unat (max_transactions (milestone_at n height))"
  shows "\<exists>txs. select_transactions E n s pool height = Inr txs \<and> mset txs = mset pool"
proof (cases "pool = []")
  case True
  then show ?thesis
    by (simp add: select_transactions_def Let_def select_loop.simps [of _ _ _ _ _ _ selection_start])
       (simp add: selection_start_def)
next
  case False
  then have "sort_key select_key pool \<noteq> []" by (metis mset_sort mset_zero_iff)
  then show ?thesis
    using select_loop_complete [of E n s selection_start "sort_key select_key pool"] assms
    by (simp add: select_transactions_def selection_start_def Let_def)
qed

section \<open>Concrete blocks\<close>

text \<open>Two transfers of one sender, the later one with the higher fee, and a store where their turn has come.\<close>

definition pool_txs :: "transaction list" where
  "pool_txs = [ref_transfer\<lparr>tx_nonce := Some 6, tx_fee := 20000000\<rparr>, ref_transfer]"

definition pool_store :: "string \<Rightarrow> store" where
  "pool_store a = tip_store\<lparr>st_wallets := [(a, (wallet_new a)\<lparr>w_nonce := 4\<rparr>)]\<rparr>"

lemma ref_milestone: "milestone_at ref_network 2 = milestone_default"
  by (simp add: milestone_at_def ref_network_def milestone_default_def)

lemma ref_transfer_bytes:
  "\<exists>raw. serialize_transaction ref_crypto (ref_transfer\<lparr>tx_nonce := Some k, tx_fee := f\<rparr>) opts_default 63 = Inr raw \<and> length raw \<le> 200"
proof -
  have l: "length (unhex ref_crypto ref_key) = 33" "length (unhex ref_crypto ref_sig) = 64"
    "length (unaddr ref_crypto ref_address) = 21"
    using ref_fields hex_fieldD(2) addr_fieldD(2) by blast+
  show ?thesis
    using ref_fields l
    by (simp add: serialize_transaction_def serialize_vendor_field_def serialize_type_payload_def
        serialize_core_def serialize_signatures_def ref_transfer_def has_vendor_field_def is_sobj_def
        is_token_def is_pq_def VERSION_PQ_def write_recipient_def second_signature_any_def opt_hex_def
        opts_default_def w_hex_field write_addr_field w_var8_def)
qed

lemma pool_txs_fit:
  "\<exists>a. gap_free ref_crypto ref_network (pool_store a) [] (mset pool_txs)"
  "serializable ref_crypto ref_network (mset pool_txs)"
  "total_bytes ref_crypto ref_network (mset pool_txs) \<le> unat (max_payload (milestone_at ref_network 2))"
  "length pool_txs \<le> unat (max_transactions (milestone_at ref_network 2))"
proof -
  obtain a where a: "address_from_public_key ref_crypto ref_key 63 = Inr a" using ref_address_ok by blast
  have pk: "tx_sender_public_key ref_transfer = ref_key" "tx_nonce ref_transfer = Some 5" by (simp_all add: ref_transfer_def)
  have self: "ref_transfer = ref_transfer\<lparr>tx_nonce := Some 5, tx_fee := 10000000\<rparr>" by (simp add: ref_transfer_def)
  obtain r1 r2 where r: "serialize_transaction ref_crypto (ref_transfer\<lparr>tx_nonce := Some 6, tx_fee := 20000000\<rparr>) opts_default 63 = Inr r1"
      "length r1 \<le> 200" "serialize_transaction ref_crypto ref_transfer opts_default 63 = Inr r2" "length r2 \<le> 200"
    using ref_transfer_bytes [of 20000000 6] ref_transfer_bytes [of 10000000 5] self by metis
  have net: "nw_pubkey_hash ref_network = 63" by (simp add: ref_network_def)
  have "gap_free ref_crypto ref_network (pool_store a) [] (mset pool_txs)"
  proof -
    have "{5..<7} = {5, 6 :: nat}" by auto
    then show ?thesis
      using a by (auto simp: gap_free_def pool_txs_def sent_by_def pk expected_nonce_def net pool_store_def get_wallet_def
          Let_def nonce_of_def)
  qed
  then show "\<exists>a. gap_free ref_crypto ref_network (pool_store a) [] (mset pool_txs)" by blast
  show "serializable ref_crypto ref_network (mset pool_txs)"
    using r by (simp add: serializable_def pool_txs_def net)
  show "total_bytes ref_crypto ref_network (mset pool_txs) \<le> unat (max_payload (milestone_at ref_network 2))"
    using r by (simp add: total_bytes_def pool_txs_def net tx_bytes_def ref_milestone milestone_default_def
        max_payload_def block_params_default_def)
  show "length pool_txs \<le> unat (max_transactions (milestone_at ref_network 2))"
    by (simp add: pool_txs_def ref_milestone milestone_default_def max_transactions_def block_params_default_def)
qed

theorem selection_respects_limits_witness:
  "\<exists>a txs. select_transactions ref_crypto ref_network (pool_store a) pool_txs 2 = Inr txs \<and> mset txs = mset pool_txs
     \<and> good_selection ref_crypto ref_network (pool_store a) 500 84000000 pool_txs txs"
proof -
  obtain a txs where txs: "select_transactions ref_crypto ref_network (pool_store a) pool_txs 2 = Inr txs" "mset txs = mset pool_txs"
    using select_fitting pool_txs_fit by blast
  from selection_respects_limits [OF txs(1)] txs show ?thesis
    by (auto simp: ref_milestone milestone_default_def max_transactions_def max_payload_def block_params_default_def)
qed

definition forger_ref :: forger_keys where
  "forger_ref = \<lparr>fk_public_key_hex = ref_key, fk_sign_ecdsa = (\<lambda>_. Inr ref_der), fk_pq_sign = None\<rparr>"

definition parent_block :: block where
  "parent_block = ref_block\<lparr>b_id := Some ref_hash, b_height := 1\<rparr>"

lemma accept_serialize_block:
  assumes "b_previous_block b = ref_hash" "b_payload_hash b = hex_encode accept_crypto x" "b_generator_public_key b = ref_key"
    "b_block_signature b = None \<or> b_block_signature b = Some ref_der" "b_pq_signature b = None"
  shows "\<exists>raw. serialize_block accept_crypto b sg = Inr raw"
proof -
  obtain d where "hex_decode accept_crypto (hex_encode accept_crypto x) = Some d" using accept_fields(8) by blast
  with assms accept_fields(1,6,7) show ?thesis
    by (auto simp: serialize_block_def serialize_block_parts_def w_hex_def opt_hex_def ref_block_fields)
qed

lemma accept_laws: "hex_laws accept_crypto" "ecdsa_law accept_crypto forger_ref" "pq_law accept_crypto forger_ref pk"
proof -
  show "hex_laws accept_crypto"
    using ref_crypto_laws(1) unfolding hex_laws_def
    by (simp add: accept_crypto_def del: hex_decode_encode length_hex_encode)
  have "verify_ecdsa accept_crypto h s ref_key = Inr True" for h s by (simp add: accept_crypto_def)
  then show "ecdsa_law accept_crypto forger_ref" using accept_fields(7) by (simp add: ecdsa_law_def forger_ref_def)
  show "pq_law accept_crypto forger_ref pk" by (simp add: pq_law_def forger_ref_def)
qed

lemma parent_forges:
  assumes tx: "serialize_transaction accept_crypto tx opts_default 63 = Inr raw" "tx_id tx = Some i" "hex_decode accept_crypto i = Some d"
  shows "\<exists>b. forge_block_with accept_crypto ref_network forger_ref parent_block 80 [tx] = Inr b"
proof -
  have net: "nw_pubkey_hash ref_network = 63" by (simp add: ref_network_def)
  obtain t where t: "rfold (add_totals accept_crypto ref_network) [tx] (0, 0, 0) = Inr t"
    using tx(1) by (simp add: add_totals_def net)
  define b0 where "b0 = unsigned_block ref_network forger_ref parent_block 80 [tx] t"
  have hyb: "\<not> hybrid ref_network forger_ref h" for h by (simp add: hybrid_def forger_ref_def)
  have b0: "b_previous_block b0 = ref_hash" "b_generator_public_key b0 = ref_key" "b_block_signature b0 = None"
    "b_pq_signature b0 = None" "b_height b0 = 2"
    by (simp_all add: b0_def unsigned_block_def Let_def parent_block_def forger_ref_def split: prod.splits)
  have ph: "block_payload_hash accept_crypto b0 = Inr (hex_encode accept_crypto (sha256 accept_crypto d))"
    using tx(2,3) by (simp add: b0_def unsigned_block_def Let_def block_payload_hash_def split: prod.splits)
  define ids where "ids = sha256 accept_crypto d"
  have "\<exists>r. serialize_block accept_crypto (b0\<lparr>b_payload_hash := hex_encode accept_crypto ids\<rparr>) False = Inr r"
    by (rule accept_serialize_block) (simp_all add: b0)
  then obtain h where "block_signing_hash accept_crypto (b0\<lparr>b_payload_hash := hex_encode accept_crypto ids\<rparr>) = Inr h"
    by (auto simp: block_signing_hash_def)
  moreover have "\<exists>r. serialize_block accept_crypto (b0\<lparr>b_payload_hash := hex_encode accept_crypto ids,
      b_block_signature := Some ref_der\<rparr>) True = Inr r"
    by (rule accept_serialize_block) (simp_all add: b0)
  then obtain j where "block_id accept_crypto (b0\<lparr>b_payload_hash := hex_encode accept_crypto ids,
      b_block_signature := Some ref_der\<rparr>) = Inr j"
    by (auto simp: block_id_def)
  moreover have "fk_sign_ecdsa forger_ref h = Inr ref_der" by (simp add: forger_ref_def)
  ultimately show ?thesis
    unfolding forge_block_with_def t using ph hyb by (simp add: b0_def [symmetric] sign_pq_def Let_def ids_def)
qed

theorem forged_block_verifies_witness:
  "\<exists>b. forge_block_with accept_crypto ref_network forger_ref parent_block 80 [ref_signed_transfer] = Inr b
     \<and> verify_block accept_crypto b ref_network 80 = []"
proof -
  obtain i d where i: "tx_id ref_signed_transfer = Some i" "transaction_id accept_crypto ref_signed_transfer = Inr i"
      "hex_decode accept_crypto i = Some d"
    and t: "verify_transaction_signature accept_crypto ref_signed_transfer = Inr True" "tx_type_group ref_signed_transfer = 1"
      "unwrap_or 0 (tx_expiration ref_signed_transfer) = 0" "tx_version ref_signed_transfer = 2"
    using ref_signed_transfer_accepted by (auto simp: accepted_tx_def)
  obtain raw where "serialize_transaction accept_crypto ref_signed_transfer opts_default 63 = Inr raw"
    using i(2) by (auto simp: transaction_id_def rbind_eq_Inr MAINNET_PUBKEY_HASH_def)
  then obtain b where b: "forge_block_with accept_crypto ref_network forger_ref parent_block 80 [ref_signed_transfer] = Inr b"
    using parent_forges i by blast
  have h: "2 = b_height parent_block + 1" by (simp add: parent_block_def)
  have "live_tx 2 ref_signed_transfer" using t(3) by (cases "tx_expiration ref_signed_transfer") (simp_all add: live_tx_def)
  then have ok: "block_tx_ok accept_crypto ref_network 2 ref_signed_transfer"
    using i t by (simp add: block_tx_ok_def check_transaction_def tx_format_errors_def check_pq_format_def is_pq_def VERSION_PQ_def)
  have amounts: "tx_amount ref_signed_transfer = 250000000" "tx_fee ref_signed_transfer = 10000000"
    by (simp_all add: ref_signed_transfer_def with_id_def ref_transfer_def split: sum.splits)
  have version: "hybrid ref_network forger_ref 2 \<or> snd (block_versions_allowed ref_network 2)
      \<and> block_version (milestone_at ref_network 2) \<noteq> BLOCK_VERSION_PQ"
    by (simp add: block_versions_allowed_def ref_milestone milestone_default_def pq_params_default_def block_version_def
        block_params_default_def BLOCK_VERSION_PQ_def Let_def)
  have "verify_block accept_crypto b ref_network 80 = []
      \<and> (hybrid ref_network forger_ref 2 \<longrightarrow> verify_block_pq_signature accept_crypto b ref_key = Inr True)"
    by (rule forged_block_verifies [OF b h accept_laws _ _ _ _ _ version])
       (simp_all add: ok amounts ref_milestone milestone_default_def max_transactions_def block_params_default_def parent_block_def)
  with b show ?thesis by blast
qed

end
