(* ===== verification/MempoolProps.thy ===== *)
theory MempoolProps
  imports Mempool BuilderProps
begin

text \<open>
  The pool as a multiset of transactions, and the shape it keeps under every operation: its limits, its
  byte count, its ids and one transaction per sender and nonce.
\<close>

section \<open>The pool as a multiset\<close>

definition pending :: "mempool \<Rightarrow> transaction multiset" where
  "pending m = mset (map snd (mp_txs m))"

lemma values_put:
  "bt_wf m \<Longrightarrow> bt_get m k = None \<Longrightarrow> mset (map snd (bt_put k v m)) = add_mset v (mset (map snd m))"
  by (induction k v m rule: bt_put.induct) (auto simp: bt_wf_Cons split: if_splits)

lemma values_del:
  "bt_wf m \<Longrightarrow> bt_get m k = Some v \<Longrightarrow> mset (map snd m) = add_mset v (mset (map snd (bt_del k m)))"
proof (induction m)
  case (Cons kv m)
  have "bt_get m (fst kv) = None" using Cons.prems(1) by (auto simp: bt_wf_Cons bt_get_None_iff)
  then have "bt_del (fst kv) m = m" unfolding bt_del_def by (intro filter_True) (auto simp: bt_get_None_iff rev_image_eqI)
  moreover have "bt_del k (kv # m) = (if fst kv = k then bt_del k m else kv # bt_del k m)" by (simp add: bt_del_def)
  ultimately show ?case using Cons by (cases kv) (auto simp: bt_wf_Cons split: if_splits)
qed simp

definition pool_bytes :: "crypto \<Rightarrow> network \<Rightarrow> pool_config \<Rightarrow> transaction multiset \<Rightarrow> nat" where
  "pool_bytes E n pc M = sum_mset (image_mset (tx_size E n pc) M)"

lemma pool_bytes_simps [simp]:
  "pool_bytes E n pc {#} = 0" "pool_bytes E n pc (add_mset t M) = tx_size E n pc t + pool_bytes E n pc M"
  "pool_bytes E n pc (M + N) = pool_bytes E n pc M + pool_bytes E n pc N"
  by (simp_all add: pool_bytes_def)

text \<open>The bookkeeping: ids are the keys, every entry has its heights, the byte counter is exact.\<close>

definition pool_ok :: "crypto \<Rightarrow> network \<Rightarrow> pool_config \<Rightarrow> mempool \<Rightarrow> bool" where
  "pool_ok E n pc m \<longleftrightarrow> bt_wf (mp_txs m) \<and> bt_wf (mp_meta m)
     \<and> (\<forall>i. bt_get (mp_meta m) i = None \<longleftrightarrow> bt_get (mp_txs m) i = None)
     \<and> (\<forall>i tx. bt_get (mp_txs m) i = Some tx \<longrightarrow> tx_id tx = Some i \<and> tx_nonce tx \<noteq> None)
     \<and> mp_bytes m = pool_bytes E n pc (pending m)"

lemma pool_ok_antispam [simp]: "pool_ok E n pc (m\<lparr>mp_antispam := a\<rparr>) = pool_ok E n pc m"
  "pool_ok E n pc (m\<lparr>mp_low_fee_rejected := x\<rparr>) = pool_ok E n pc m"
  "pool_ok E n pc (m\<lparr>mp_expired := x\<rparr>) = pool_ok E n pc m"
  by (simp_all add: pool_ok_def pending_def)

lemma pending_antispam [simp]: "pending (m\<lparr>mp_antispam := a\<rparr>) = pending m"
  "pending (m\<lparr>mp_low_fee_rejected := x\<rparr>) = pending m" "pending (m\<lparr>mp_expired := x\<rparr>) = pending m"
  "pending (m\<lparr>mp_meta := y\<rparr>) = pending m" "pending (m\<lparr>mp_bytes := b\<rparr>) = pending m"
  by (simp_all add: pending_def)

lemma remove_ok:
  assumes ok: "pool_ok E n pc m" and t: "bt_get (mp_txs m) i = Some t"
  shows "pool_ok E n pc (remove_locked E n pc i m)" "pending m = add_mset t (pending (remove_locked E n pc i m))"
    "bt_get (mp_txs (remove_locked E n pc i m)) j = (if j = i then None else bt_get (mp_txs m) j)"
    "mp_antispam (remove_locked E n pc i m) = mp_antispam m"
proof -
  have wf: "bt_wf (mp_txs m)" using ok by (simp add: pool_ok_def)
  show p: "pending m = add_mset t (pending (remove_locked E n pc i m))"
    using values_del [OF wf t] t by (simp add: pending_def remove_locked_def)
  have "mp_bytes m = tx_size E n pc t + pool_bytes E n pc (pending (remove_locked E n pc i m))"
    using ok p by (simp add: pool_ok_def)
  then show "pool_ok E n pc (remove_locked E n pc i m)"
    using ok t by (auto simp: pool_ok_def remove_locked_def)
qed (simp_all add: remove_locked_def t)

lemma remove_absent: "bt_get (mp_txs m) i = None \<Longrightarrow> remove_locked E n pc i m = m"
  by (simp add: remove_locked_def)

text \<open>What only removes keeps the bookkeeping and shrinks the pool.\<close>

definition shrinks :: "crypto \<Rightarrow> network \<Rightarrow> pool_config \<Rightarrow> mempool \<Rightarrow> mempool \<Rightarrow> bool" where
  "shrinks E n pc m m' \<longleftrightarrow> (pool_ok E n pc m \<longrightarrow> pool_ok E n pc m') \<and> pending m' \<subseteq># pending m"

lemma shrinks_refl [simp]: "shrinks E n pc m m"
  by (simp add: shrinks_def)

lemma shrinks_trans: "shrinks E n pc a b \<Longrightarrow> shrinks E n pc b c \<Longrightarrow> shrinks E n pc a c"
  by (auto simp: shrinks_def)

lemma shrinks_remove: "shrinks E n pc m (remove_locked E n pc i m)" if "pool_ok E n pc m"
  using that remove_ok [OF that] remove_absent [of m i]
  by (cases "bt_get (mp_txs m) i") (auto simp: shrinks_def)

lemma shrinks_fold:
  assumes "\<And>x m. pool_ok E n pc m \<Longrightarrow> shrinks E n pc m (f x m)" and "pool_ok E n pc m"
  shows "shrinks E n pc m (fold f xs m)"
  using assms(2)
proof (induction xs arbitrary: m)
  case (Cons x xs)
  have s: "shrinks E n pc m (f x m)" using assms(1) Cons.prems by blast
  then have "shrinks E n pc (f x m) (fold f xs (f x m))" using Cons by (simp add: shrinks_def)
  with s show ?case using shrinks_trans by fastforce
qed simp

lemma shrinks_purge: "pool_ok E n pc m \<Longrightarrow> shrinks E n pc m (fst (purge E n pc sender m))"
  by (simp add: purge_def Let_def shrinks_fold shrinks_remove)

lemma shrinks_drop: "pool_ok E n pc m \<Longrightarrow> shrinks E n pc m (drop_stale E n pc ir m)"
  using shrinks_remove [of E n pc m "fst ir"] by (simp add: drop_stale_def shrinks_def)

lemma refresh_meta:
  "bt_wf ms \<Longrightarrow> bt_wf (fold (\<lambda>i ms. case bt_get ms i of None \<Rightarrow> ms | Some me \<Rightarrow> bt_put i (f me) ms) is ms)"
  "bt_get (fold (\<lambda>i ms. case bt_get ms i of None \<Rightarrow> ms | Some me \<Rightarrow> bt_put i (f me) ms) is ms) j = None
     \<longleftrightarrow> bt_get ms j = None"
  by (induction "is" arbitrary: ms) (auto split: option.split)

lemma shrinks_prune:
  assumes "pool_ok E n pc m"
  shows "shrinks E n pc m (fst (prune_confirmed E n pc s now m))"
proof -
  define m0 where "m0 = m\<lparr>mp_antispam := gc now (mp_antispam m)\<rparr>"
  define stale where "stale = List.map_filter (\<lambda>(i, tx). map_option (Pair i) (drop_reason_of E n pc s (mp_meta m0) i tx)) (mp_txs m0)"
  have s: "shrinks E n pc m0 (fold (drop_stale E n pc) stale m0)"
    using assms by (intro shrinks_fold shrinks_drop) (simp_all add: m0_def)
  define m1 where "m1 = fold (drop_stale E n pc) stale m0"
  define ms where "ms = (\<lambda>again. fold (\<lambda>i ms. case bt_get ms i of None \<Rightarrow> ms
      | Some me \<Rightarrow> bt_put i (me\<lparr>pm_relayed := get_last_height s\<rparr>) ms) again (mp_meta m1))"
  have "\<exists>again. prune_confirmed E n pc s now m = (m1\<lparr>mp_meta := ms again\<rparr>, again)"
    by (simp add: prune_confirmed_def Let_def m0_def [symmetric] stale_def [symmetric] m1_def [symmetric] ms_def)
  then obtain again where p: "prune_confirmed E n pc s now m = (m1\<lparr>mp_meta := ms again\<rparr>, again)" by blast
  have "pool_ok E n pc m1 \<Longrightarrow> pool_ok E n pc (m1\<lparr>mp_meta := ms again\<rparr>)"
    using refresh_meta [where ms = "mp_meta m1"] by (simp add: pool_ok_def ms_def)
  with s show ?thesis by (simp add: p shrinks_def m1_def [symmetric]) (simp add: m0_def)
qed

section \<open>Victims\<close>

text \<open>The victims are other senders' last transactions; they free what the newcomer needs.\<close>

lemma take_victims_sums:
  assumes "take_victims ns nb cs sl bs out = (sl', bs', out')"
  shows "\<exists>k. out' = out @ map (\<lambda>v. snd (snd v)) (take k cs) \<and> sl' = sl + length (take k cs)
     \<and> bs' = bs + (\<Sum>v\<leftarrow>take k cs. fst (snd v))"
  using assms
proof (induction ns nb cs sl bs out rule: take_victims.induct)
  case (2 ns nb r b i cs sl bs out)
  show ?case
  proof (cases "ns \<le> sl \<and> nb \<le> bs")
    case True
    then show ?thesis using 2(2) by (intro exI [of _ 0]) auto
  next
    case False
    then obtain k where "out' = (out @ [i]) @ map (\<lambda>v. snd (snd v)) (take k cs)" "sl' = sl + 1 + length (take k cs)"
      "bs' = bs + b + (\<Sum>v\<leftarrow>take k cs. fst (snd v))"
      using 2 by auto
    then show ?thesis by (intro exI [of _ "Suc k"]) auto
  qed
qed auto

lemma evictable_member:
  assumes "(r, b, i) \<in> set (evictable E n pc pool tx sz)"
  obtains p where "(i, p) \<in> set pool" "b = tx_size E n pc p" "tx_sender_public_key p \<noteq> tx_sender_public_key tx"
    "bt_get (last_nonces (map snd pool)) (tx_sender_public_key p) = Some (unwrap_or 0 (tx_nonce p))"
  using assms that by (auto simp: evictable_def)

lemma evictable_distinct: "bt_wf pool \<Longrightarrow> distinct (map (\<lambda>v. snd (snd v)) (evictable E n pc pool tx sz))"
proof -
  assume "bt_wf pool"
  then have "distinct (map fst (filter Q pool))" for Q using bt_wf_distinct distinct_map_filter by blast
  then have "distinct (map (\<lambda>v. snd (snd v)) (map (\<lambda>(i, p). (R p, S p, i)) (filter Q pool)))" for Q R S
    by (simp add: comp_def case_prod_unfold)
  then have all: "distinct (map (\<lambda>v. snd (snd v)) (filter P (map (\<lambda>(i, p). (R p, S p, i)) (filter Q pool))))" for P Q R S
    using distinct_map_filter by blast
  have sorted: "distinct (map g (sort_key f xs)) \<longleftrightarrow> distinct (map g xs)" for g :: "rat \<times> nat \<times> string \<Rightarrow> string" and f :: "rat \<times> nat \<times> string \<Rightarrow> rat" and xs
    by (rule mset_eq_imp_distinct_iff) simp
  show ?thesis unfolding evictable_def sorted by (rule all)
qed

definition is_victim :: "mempool \<Rightarrow> transaction \<Rightarrow> string \<Rightarrow> bool" where
  "is_victim m tx i \<longleftrightarrow> (\<exists>p. bt_get (mp_txs m) i = Some p \<and> tx_sender_public_key p \<noteq> tx_sender_public_key tx
     \<and> bt_get (last_nonces (map snd (mp_txs m))) (tx_sender_public_key p) = Some (unwrap_or 0 (tx_nonce p)))"

definition victims :: "mempool \<Rightarrow> string list \<Rightarrow> transaction multiset" where
  "victims m is = mset (map (\<lambda>i. the (bt_get (mp_txs m) i)) is)"

lemma eviction_plan_frees:
  assumes "eviction_plan E n pc m tx = Inr vs" and wf: "bt_wf (mp_txs m)"
  shows "distinct vs" "\<forall>i \<in> set vs. is_victim m tx i"
    "length (mp_txs m) \<ge> pc_max_size pc \<Longrightarrow> vs \<noteq> []"
    "mp_bytes m + tx_size E n pc tx \<le> pc_max_bytes pc + pool_bytes E n pc (victims m vs)"
proof -
  define sz where "sz = tx_size E n pc tx"
  define ns where "ns = (if length (mp_txs m) \<ge> pc_max_size pc then 1 else 0 :: nat)"
  define nb where "nb = mp_bytes m + sz - pc_max_bytes pc"
  define cs where "cs = evictable E n pc (mp_txs m) tx sz"
  have "\<exists>k. vs = map (\<lambda>v. snd (snd v)) (take k cs) \<and> ns \<le> length (take k cs) \<and> nb \<le> (\<Sum>v\<leftarrow>take k cs. fst (snd v))"
  proof (cases "ns > 0 \<or> nb > 0")
    case True
    then have "eviction_candidates E n pc (mp_txs m) tx sz ns nb = Inr vs"
      using assms(1) unfolding eviction_plan_def Let_def sz_def [symmetric] ns_def [symmetric] nb_def [symmetric]
      by (simp split: if_splits)
    then obtain sl bs where "take_victims ns nb cs 0 0 [] = (sl, bs, vs)" "ns \<le> sl" "nb \<le> bs"
      by (auto simp: eviction_candidates_def cs_def [symmetric] split: prod.splits if_splits)
    then show ?thesis using take_victims_sums by fastforce
  next
    case False
    then have "vs = []" using assms(1)
      unfolding eviction_plan_def Let_def sz_def [symmetric] ns_def [symmetric] nb_def [symmetric] by simp
    with False show ?thesis by (intro exI [of _ 0]) simp
  qed
  then obtain k where vs: "vs = map (\<lambda>v. snd (snd v)) (take k cs)" and ns: "ns \<le> length (take k cs)"
    and nb: "nb \<le> (\<Sum>v\<leftarrow>take k cs. fst (snd v))" by blast
  have mem: "(\<exists>p. bt_get (mp_txs m) i = Some p \<and> b = tx_size E n pc p \<and> is_victim m tx i)" if "(r, b, i) \<in> set cs" for r b i
    using that evictable_member [of r b i E n pc "mp_txs m" tx sz] bt_get_SomeI [OF wf]
    unfolding cs_def is_victim_def by metis
  show "distinct vs" using evictable_distinct [OF wf] by (simp add: vs cs_def take_map [symmetric])
  show "\<forall>i \<in> set vs. is_victim m tx i" using mem by (fastforce simp: vs dest!: in_set_takeD)
  show "vs \<noteq> []" if "length (mp_txs m) \<ge> pc_max_size pc" using ns that by (auto simp: vs ns_def)
  have "(\<Sum>v\<leftarrow>take k cs. fst (snd v)) = (\<Sum>v\<leftarrow>take k cs. tx_size E n pc (the (bt_get (mp_txs m) (snd (snd v)))))"
    by (rule arg_cong [where f = sum_list], rule map_cong) (use mem in \<open>fastforce dest!: in_set_takeD\<close>)+
  also have "\<dots> = pool_bytes E n pc (victims m vs)"
    by (simp add: victims_def vs pool_bytes_def sum_mset_sum_list [symmetric] multiset.map_comp comp_def)
  finally show "mp_bytes m + tx_size E n pc tx \<le> pc_max_bytes pc + pool_bytes E n pc (victims m vs)"
    using nb by (simp add: nb_def sz_def)
qed

lemma evict_fold:
  assumes "pool_ok E n pc m" and "distinct vs" and "\<forall>i \<in> set vs. bt_get (mp_txs m) i \<noteq> None"
  shows "pool_ok E n pc (fold (evict_one E n pc) vs m)
     \<and> pending m = pending (fold (evict_one E n pc) vs m) + victims m vs
     \<and> (\<forall>j. j \<notin> set vs \<longrightarrow> bt_get (mp_txs (fold (evict_one E n pc) vs m)) j = bt_get (mp_txs m) j)"
  using assms
proof (induction vs arbitrary: m)
  case (Cons i vs)
  obtain t where t: "bt_get (mp_txs m) i = Some t" using Cons.prems(3) by auto
  define m1 where "m1 = evict_one E n pc i m"
  have m1: "m1 = (remove_locked E n pc i m)\<lparr>mp_antispam := note_evicted (mp_antispam m)\<rparr>"
    using t by (simp add: m1_def evict_one_def)
  note r = remove_ok [OF Cons.prems(1) t]
  have ok1: "pool_ok E n pc m1" and p1: "pending m = add_mset t (pending m1)" using r(1,2) by (simp_all add: m1)
  have g1: "bt_get (mp_txs m1) j = (if j = i then None else bt_get (mp_txs m) j)" for j using r(3) by (simp add: m1)
  have same: "victims m1 vs = victims m vs"
    unfolding victims_def using Cons.prems(2) by (intro arg_cong [where f = mset] map_cong) (auto simp: g1)
  have prems: "distinct vs" "\<forall>j \<in> set vs. bt_get (mp_txs m1) j \<noteq> None" using Cons.prems(2,3) by (auto simp: g1)
  show ?case using Cons.IH [OF ok1 prems] p1 same t g1 by (simp add: m1_def [symmetric]) (simp add: victims_def)
qed (simp_all add: victims_def)

section \<open>Admission\<close>

lemma pool_member: "pool_ok E n pc m \<Longrightarrow> p \<in># pending m \<Longrightarrow> \<exists>i. bt_get (mp_txs m) i = Some p \<and> tx_id p = Some i"
  by (auto simp: pending_def pool_ok_def dest!: bt_get_SomeI)

lemma set_pending_of: "set (pending_of m tx) = {p. p \<in># pending m \<and> tx_sender_public_key p = tx_sender_public_key tx}"
  by (auto simp: pending_of_def pending_def)

lemma validate_head_facts:
  assumes "validate_head E n pc s m tx = Inr (vs, bc, sender)"
  shows "bt_get (mp_txs m) (unwrap_or [] (tx_id tx)) = None" "eviction_plan E n pc m tx = Inr vs"
    "address_from_public_key E (tx_sender_public_key tx) (nw_pubkey_hash n) = Inr sender"
  using assms by (simp_all add: validate_head_def Let_def rbind_eq_Inr err_def) (auto split: sum.splits)

lemma validate_tail_facts:
  assumes "validate_tail E n s m tx sender ps = Inr r"
  shows "replaced_tx tx ps = Inr r"
    "nonce_rule tx (case get_wallet s sender of None \<Rightarrow> 0 | Some w \<Rightarrow> w_nonce w) r (filter (\<lambda>p. tx_nonce p \<noteq> tx_nonce tx) ps) = Inr ()"
  using assms by (simp_all add: validate_tail_def Let_def rbind_eq_Inr)

lemma validate_accepts:
  assumes "validate E n pc s now m tx = (a, Inr ad)"
  obtains sender where "bt_get (mp_txs m) (unwrap_or [] (tx_id tx)) = None" "eviction_plan E n pc m tx = Inr (ad_evicts ad)"
    "address_from_public_key E (tx_sender_public_key tx) (nw_pubkey_hash n) = Inr sender"
    "replaced_tx tx (pending_of m tx) = Inr (ad_replaces ad)"
    "nonce_rule tx (case get_wallet s sender of None \<Rightarrow> 0 | Some w \<Rightarrow> w_nonce w) (ad_replaces ad)
       (filter (\<lambda>p. tx_nonce p \<noteq> tx_nonce tx) (pending_of m tx)) = Inr ()"
proof -
  obtain vs bc sender where h: "validate_head E n pc s m tx = Inr (vs, bc, sender)"
    using assms by (auto simp: validate_def split: sum.splits)
  have t: "rbind (validate_tail E n s m tx sender (pending_of m tx)) (\<lambda>replaces.
      Inr \<lparr>ad_broadcast = bc, ad_replaces = replaces, ad_evicts = vs\<rparr>) = Inr ad"
    using assms unfolding validate_def h by (simp add: Let_def split: prod.splits sum.splits if_splits)
  then obtain r where "validate_tail E n s m tx sender (pending_of m tx) = Inr r"
    and ad: "ad = \<lparr>ad_broadcast = bc, ad_replaces = r, ad_evicts = vs\<rparr>"
    by (auto simp: rbind_eq_Inr)
  from validate_tail_facts [OF this(1)] validate_head_facts [OF h] that show thesis by (simp add: ad)
qed

text \<open>The replaced transaction is the pending one with the sender's nonce, if there is one.\<close>

lemma replaced_is_same_nonce:
  assumes "pool_ok E n pc m" and "replaced_tx tx (pending_of m tx) = Inr r" and "tx_nonce tx \<noteq> None"
  shows "(r = None \<and> (\<forall>p \<in># pending m. tx_sender_public_key p = tx_sender_public_key tx \<longrightarrow> tx_nonce p \<noteq> tx_nonce tx))
     \<or> (\<exists>i old. r = Some i \<and> bt_get (mp_txs m) i = Some old
          \<and> tx_sender_public_key old = tx_sender_public_key tx \<and> tx_nonce old = tx_nonce tx)"
proof -
  obtain k where k: "tx_nonce tx = Some k" using assms(3) by auto
  show ?thesis
  proof (cases "find (\<lambda>p. tx_nonce p = Some k) (pending_of m tx)")
    case None
    then have "\<forall>p \<in> set (pending_of m tx). tx_nonce p \<noteq> Some k" by (simp add: find_None_iff)
    with None assms(2) k show ?thesis by (auto simp: replaced_tx_def set_pending_of)
  next
    case (Some old)
    then have old: "old \<in> set (pending_of m tx)" "tx_nonce old = Some k" by (auto simp: find_Some_iff in_set_conv_nth)
    obtain i where i: "bt_get (mp_txs m) i = Some old" "tx_id old = Some i"
      using pool_member [OF assms(1)] old(1) by (auto simp: set_pending_of)
    moreover have "r = Some i" using Some assms(2) k i(2) by (simp add: replaced_tx_def split: if_splits)
    ultimately show ?thesis using old k by (intro disjI2 exI [of _ i] exI [of _ old]) (simp add: set_pending_of)
  qed
qed

definition replacement :: "mempool \<Rightarrow> transaction \<Rightarrow> string option \<Rightarrow> transaction multiset \<Rightarrow> bool" where
  "replacement m tx r R \<longleftrightarrow>
     (R = {#} \<and> r = None \<and> (\<forall>p \<in># pending m. tx_sender_public_key p = tx_sender_public_key tx \<longrightarrow> tx_nonce p \<noteq> tx_nonce tx))
     \<or> (\<exists>old. R = {#old#} \<and> r \<noteq> None \<and> tx_sender_public_key old = tx_sender_public_key tx \<and> tx_nonce old = tx_nonce tx)"

text \<open>What an admission does to the pending transactions: \<open>R\<close> is what it replaces.\<close>

lemma commit_effect:
  assumes ok: "pool_ok E n pc m" and v: "validate E n pc s now m tx = (a, Inr ad)" and i: "tx_id tx = Some i"
  obtains rest R where "pool_ok E n pc (commit_admit E n pc tip i tx ad (m\<lparr>mp_antispam := a\<rparr>))"
    "pending (commit_admit E n pc tip i tx ad (m\<lparr>mp_antispam := a\<rparr>)) = add_mset tx rest"
    "pending m = rest + R + victims m (ad_evicts ad)"
    "replacement m tx (ad_replaces ad) R"
proof -
  obtain sender where fresh: "bt_get (mp_txs m) i = None" and plan: "eviction_plan E n pc m tx = Inr (ad_evicts ad)"
    and rep: "replaced_tx tx (pending_of m tx) = Inr (ad_replaces ad)"
    and nr: "nonce_rule tx (case get_wallet s sender of None \<Rightarrow> 0 | Some w \<Rightarrow> w_nonce w) (ad_replaces ad)
       (filter (\<lambda>p. tx_nonce p \<noteq> tx_nonce tx) (pending_of m tx)) = Inr ()"
    using validate_accepts [OF v] i by (metis unwrap_or_simps(2))
  have nonce: "tx_nonce tx \<noteq> None" using nr by (auto simp: nonce_rule_def split: option.splits)
  have wf: "bt_wf (mp_txs m)" using ok by (simp add: pool_ok_def)
  note plan = eviction_plan_frees [OF plan wf]
  define m0 where "m0 = m\<lparr>mp_antispam := a\<rparr>"
  define m1 where "m1 = (case ad_replaces ad of None \<Rightarrow> m0 | Some old \<Rightarrow> remove_locked E n pc old m0)"
  define R where "R = (case ad_replaces ad of None \<Rightarrow> {#} | Some j \<Rightarrow> {#the (bt_get (mp_txs m) j)#})"
  have ok0: "pool_ok E n pc m0" using ok by (simp add: m0_def)
  note cases = replaced_is_same_nonce [OF ok rep nonce]
  have R: "replacement m tx (ad_replaces ad) R"
    using cases by (auto simp: R_def replacement_def)
  have m1: "pool_ok E n pc m1 \<and> pending m = pending m1 + R \<and> bt_get (mp_txs m1) i = None
      \<and> (\<forall>j \<in> set (ad_evicts ad). bt_get (mp_txs m1) j = bt_get (mp_txs m) j)"
  proof (cases "ad_replaces ad")
    case None
    then show ?thesis using ok0 fresh by (simp add: m1_def R_def m0_def)
  next
    case (Some j)
    then obtain old where old: "bt_get (mp_txs m) j = Some old" "tx_sender_public_key old = tx_sender_public_key tx"
      using cases by auto
    have "j \<notin> set (ad_evicts ad)" using plan(2) old by (auto simp: is_victim_def)
    moreover have "bt_get (mp_txs m0) j = Some old" using old(1) by (simp add: m0_def)
    note remove_ok [OF ok0 this]
    ultimately show ?thesis using Some old fresh by (auto simp: m1_def R_def m0_def)
  qed
  have "\<forall>j \<in> set (ad_evicts ad). bt_get (mp_txs m1) j \<noteq> None" using m1 plan(2) by (auto simp: is_victim_def)
  note ev = evict_fold [OF _ plan(1) this, of E n pc]
  define m2 where "m2 = fold (evict_one E n pc) (ad_evicts ad) m1"
  have same: "victims m1 (ad_evicts ad) = victims m (ad_evicts ad)"
    unfolding victims_def using m1 by (intro arg_cong [where f = mset] map_cong) auto
  have m2: "pool_ok E n pc m2" "pending m1 = pending m2 + victims m (ad_evicts ad)" "bt_get (mp_txs m2) i = None"
  proof -
    have "i \<notin> set (ad_evicts ad)" using plan(2) fresh by (auto simp: is_victim_def)
    then show "pool_ok E n pc m2" "pending m1 = pending m2 + victims m (ad_evicts ad)" "bt_get (mp_txs m2) i = None"
      using ev m1 same by (simp_all add: m2_def)
  qed
  have c: "commit_admit E n pc tip i tx ad m0 = m2\<lparr>mp_bytes := mp_bytes m2 + tx_size E n pc tx, mp_txs := bt_put i tx (mp_txs m2),
      mp_meta := bt_put i \<lparr>pm_entered = tip, pm_relayed = tip\<rparr> (mp_meta m2)\<rparr>"
    by (simp add: commit_admit_def Let_def m1_def [symmetric] m2_def [symmetric])
  have p: "pending (commit_admit E n pc tip i tx ad m0) = add_mset tx (pending m2)"
    using values_put [OF _ m2(3)] m2(1) by (simp add: c pending_def pool_ok_def)
  have "pool_ok E n pc (commit_admit E n pc tip i tx ad m0)"
    using p m2(1) nonce i by (auto simp: pool_ok_def c)
  with p m1 m2(2) R show thesis by (intro that [of "pending m2" R]) (simp_all add: m0_def ac_simps)
qed

section \<open>Well-formed pools\<close>

definition one_per_nonce :: "transaction multiset \<Rightarrow> bool" where
  "one_per_nonce M \<longleftrightarrow> (\<forall>pk k. size (filter_mset (\<lambda>t. tx_sender_public_key t = pk \<and> tx_nonce t = k) M) \<le> 1)"

definition pool_wf :: "crypto \<Rightarrow> network \<Rightarrow> pool_config \<Rightarrow> mempool \<Rightarrow> bool" where
  "pool_wf E n pc m \<longleftrightarrow> pool_ok E n pc m \<and> size (pending m) \<le> pc_max_size pc
     \<and> pool_bytes E n pc (pending m) \<le> pc_max_bytes pc \<and> one_per_nonce (pending m)"

lemma one_per_nonce_subset:
  assumes "one_per_nonce M" and "N \<subseteq># M"
  shows "one_per_nonce N"
  unfolding one_per_nonce_def
proof (intro allI)
  fix pk k
  have "size (filter_mset (\<lambda>t. tx_sender_public_key t = pk \<and> tx_nonce t = k) N)
      \<le> size (filter_mset (\<lambda>t. tx_sender_public_key t = pk \<and> tx_nonce t = k) M)"
    using assms(2) by (intro size_mset_mono multiset_filter_mono)
  also have "\<dots> \<le> 1" using assms(1) by (simp add: one_per_nonce_def)
  finally show "size (filter_mset (\<lambda>t. tx_sender_public_key t = pk \<and> tx_nonce t = k) N) \<le> 1" .
qed

lemma pool_bytes_mono: "M \<subseteq># N \<Longrightarrow> pool_bytes E n pc M \<le> pool_bytes E n pc N"
  by (metis le_add1 pool_bytes_simps(3) subset_mset.add_diff_inverse)

lemma shrinks_wf: "shrinks E n pc m m' \<Longrightarrow> pool_wf E n pc m \<Longrightarrow> pool_wf E n pc m'"
  using pool_bytes_mono [of "pending m'" "pending m" E n pc] one_per_nonce_subset size_mset_mono
  by (fastforce simp: pool_wf_def shrinks_def)

lemma commit_wf:
  assumes wf: "pool_wf E n pc m" and v: "validate E n pc s now m tx = (a, Inr ad)" and i: "tx_id tx = Some i"
  shows "pool_wf E n pc (commit_admit E n pc tip i tx ad (m\<lparr>mp_antispam := a\<rparr>))"
proof -
  have ok: "pool_ok E n pc m" using wf by (simp add: pool_wf_def)
  obtain rest R where c: "pool_ok E n pc (commit_admit E n pc tip i tx ad (m\<lparr>mp_antispam := a\<rparr>))"
    "pending (commit_admit E n pc tip i tx ad (m\<lparr>mp_antispam := a\<rparr>)) = add_mset tx rest"
    and m: "pending m = rest + R + victims m (ad_evicts ad)"
    and R: "replacement m tx (ad_replaces ad) R"
    by (rule commit_effect [OF ok v i]) (rule that; assumption)
  obtain sender where plan: "eviction_plan E n pc m tx = Inr (ad_evicts ad)" using validate_accepts [OF v] by metis
  have bt: "bt_wf (mp_txs m)" and bytes: "mp_bytes m = pool_bytes E n pc (pending m)" using ok by (simp_all add: pool_ok_def)
  note free = eviction_plan_frees [OF plan bt]
  have "size (victims m (ad_evicts ad)) = length (ad_evicts ad)" by (simp add: victims_def)
  moreover have "length (mp_txs m) = size (pending m)" by (simp add: pending_def)
  moreover have le: "size (pending m) \<le> pc_max_size pc" using wf by (simp add: pool_wf_def)
  ultimately have "size (pending m) < pc_max_size pc + size (victims m (ad_evicts ad))"
    using free(3) by (cases "pc_max_size pc \<le> size (pending m)") auto
  then have count: "size rest < pc_max_size pc" by (simp add: m)
  have "tx_size E n pc tx + pool_bytes E n pc rest \<le> pc_max_bytes pc"
    using free(4) bytes m by simp
  moreover have "one_per_nonce (add_mset tx rest)"
  proof -
    have one: "one_per_nonce (rest + R)" using wf m one_per_nonce_subset by (auto simp: pool_wf_def)
    have "filter_mset (\<lambda>t. tx_sender_public_key t = tx_sender_public_key tx \<and> tx_nonce t = tx_nonce tx) rest = {#}"
    proof (cases "R = {#}")
      case True
      then show ?thesis using R m by (auto simp: filter_mset_eq_conv replacement_def)
    next
      case False
      then obtain old where "R = {#old#}" "tx_sender_public_key old = tx_sender_public_key tx" "tx_nonce old = tx_nonce tx"
        using R by (auto simp: replacement_def)
      with one show ?thesis
        unfolding one_per_nonce_def
        by (auto dest!: spec [of _ "tx_sender_public_key tx"] spec [of _ "tx_nonce tx"])
    qed
    moreover have "one_per_nonce rest" using one one_per_nonce_subset by auto
    ultimately show ?thesis by (auto simp: one_per_nonce_def)
  qed
  ultimately show ?thesis using c count by (simp add: pool_wf_def)
qed

text \<open>The pools of a running node: batches of transactions, purges by the operator and the housekeeping
  after a block, each with the chain state and clock of its moment.\<close>

inductive pool_reach :: "crypto \<Rightarrow> network \<Rightarrow> pool_config \<Rightarrow> mempool \<Rightarrow> bool" for E n pc where
  start: "pool_reach E n pc (mempool_new cfg now)"
| add: "pool_reach E n pc m \<Longrightarrow> pool_reach E n pc (fst (add_many_from E n pc s now origin txs m))"
| purge: "pool_reach E n pc m \<Longrightarrow> pool_reach E n pc (fst (purge E n pc sender m))"
| prune: "pool_reach E n pc m \<Longrightarrow> pool_reach E n pc (fst (prune_confirmed E n pc s now m))"

lemma pool_wf_antispam [simp]: "pool_wf E n pc (m\<lparr>mp_antispam := a\<rparr>) = pool_wf E n pc m"
  "pool_wf E n pc (m\<lparr>mp_low_fee_rejected := x\<rparr>) = pool_wf E n pc m"
  by (simp_all add: pool_wf_def)

text \<open>A property of the pool that a rejection does not touch and every admission keeps holds after a batch.\<close>

lemma add_many_invariant:
  assumes "\<And>m a x. P m \<Longrightarrow> P (m\<lparr>mp_antispam := a, mp_low_fee_rejected := x\<rparr>)"
    and "\<And>m a. P (m\<lparr>mp_antispam := a\<rparr>) = P m"
    and adm: "\<And>m tx i a ad. P m \<Longrightarrow> transaction_id E tx = Inr i \<Longrightarrow> tx_id tx = Some i \<Longrightarrow>
      validate E n pc s now m tx = (a, Inr ad) \<Longrightarrow> P (commit_admit E n pc (get_last_height s) i tx ad (m\<lparr>mp_antispam := a\<rparr>))"
    and "P m"
  shows "P (fst (add_many_from E n pc s now origin txs m))"
proof -
  have known: "P (fst (add_known E n pc s now (get_last_height s) i tx m r))"
    if "P m" "transaction_id E tx = Inr i" "tx_id tx = Some i" for i tx m r
    using that assms(1) adm [OF that] by (auto simp: add_known_def split: prod.splits sum.splits)
  have tid: "transaction_id E (tx\<lparr>tx_id := j\<rparr>) = transaction_id E tx" for tx j
    by (simp add: transaction_id_def serialize_tx_id)
  have one: "P (fst (add_one E n pc s now (get_last_height s) tx mr))" if "P (fst mr)" for tx mr
    using that known by (auto simp: add_one_def tid split: sum.splits)
  have many: "P (fst (fold (add_one E n pc s now (get_last_height s)) txs mr))" if "P (fst mr)" for txs mr
    using that by (induction txs arbitrary: mr) (simp_all add: one)
  show ?thesis
    using assms(2,4) many [of "(m\<lparr>mp_antispam := a\<rparr>, empty_response)" for a]
    by (auto simp: add_many_from_def Let_def split: prod.splits gate.splits) (metis fst_conv)
qed

lemma add_many_wf: "pool_wf E n pc m \<Longrightarrow> pool_wf E n pc (fst (add_many_from E n pc s now origin txs m))"
  by (rule add_many_invariant) (simp_all add: commit_wf)

lemma pool_wf_ok: "pool_wf E n pc m \<Longrightarrow> pool_ok E n pc m"
  by (simp add: pool_wf_def)

lemma new_wf: "pool_wf E n pc (mempool_new cfg now)"
  by (simp add: pool_wf_def pool_ok_def mempool_new_def pending_def one_per_nonce_def)

lemma reach_wf: "pool_reach E n pc m \<Longrightarrow> pool_wf E n pc m"
proof (induction rule: pool_reach.induct)
  case (purge m sender)
  then show ?case by (intro shrinks_wf [OF shrinks_purge] pool_wf_ok)
next
  case (prune m s now)
  then show ?case by (intro shrinks_wf [OF shrinks_prune] pool_wf_ok)
next
  case (start cfg now)
  show ?case by (simp add: new_wf)
qed (rule add_many_wf)

text \<open>C7. The pool stays well formed: after any run of batches, purges and housekeeping, with the chain
  moving underneath, every transaction is filed under its own id and carries a nonce, the heights are
  kept for exactly the pending ids, the byte counter is the sum of the wire sizes, the pool is within
  its count and byte limits even when it evicted to make room, and no sender has two pending
  transactions with one nonce.\<close>

theorem pool_stays_well_formed:
  assumes "pool_reach E n pc m"
  shows "pool_wf E n pc m"
  using assms by (rule reach_wf)

end
