(* ===== verification/MempoolLive.thy ===== *)
theory MempoolLive
  imports MempoolProps
begin

text \<open>
  The pool and the block builder together: what the pool admits at one chain state has no nonce gap, so a
  pool that fits into a block is forged whole. Two admissions that validate against the same pool before
  either commits overfill it.
\<close>

section \<open>Admitted without a gap\<close>

lemma last_nonces_max:
  assumes "bt_get (last_nonces txs) pk = Some v" and "t \<in> set txs" and "tx_sender_public_key t = pk"
  shows "nonce_of t \<le> v"
proof -
  define f where "f = (\<lambda>p :: transaction. bt_entry (tx_sender_public_key p) 0 (\<lambda>v. max v (unwrap_or 0 (tx_nonce p))))"
  have mono: "\<exists>v'. bt_get (fold f xs m) pk = Some v' \<and> v \<le> v'" if "bt_get m pk = Some v" for xs m v
    using that
  proof (induction xs arbitrary: m v)
    case (Cons x xs)
    have "\<exists>v'. bt_get (f x m) pk = Some v' \<and> v \<le> v'" using Cons.prems by (auto simp: f_def)
    then show ?case using Cons.IH by (metis fold_simps(2) order_trans)
  qed simp
  obtain xs ys where txs: "txs = xs @ t # ys" using assms(2) by (meson split_list)
  have "\<exists>v'. bt_get (f t (fold f xs [])) pk = Some v' \<and> nonce_of t \<le> v'"
    using assms(3) by (auto simp: f_def nonce_of_def)
  then obtain v' where v': "bt_get (f t (fold f xs [])) pk = Some v'" "nonce_of t \<le> v'" by blast
  have "last_nonces txs = fold f ys (f t (fold f xs []))" by (simp add: last_nonces_def f_def [symmetric] txs)
  with mono [OF v'(1), of ys] assms(1) v'(2) show ?thesis by auto
qed

lemma victim_is_last:
  assumes "v \<in># victims m vs" and "\<forall>i \<in> set vs. is_victim m tx i" and "t \<in># pending m"
    and "tx_sender_public_key t = tx_sender_public_key v"
  shows "nonce_of t \<le> nonce_of v" and "tx_sender_public_key v \<noteq> tx_sender_public_key tx"
proof -
  obtain i where i: "i \<in> set vs" "v = the (bt_get (mp_txs m) i)" using assms(1) by (auto simp: victims_def)
  then have "is_victim m tx i" using assms(2) by blast
  then have last: "bt_get (last_nonces (map snd (mp_txs m))) (tx_sender_public_key v) = Some (nonce_of v)"
    and "tx_sender_public_key v \<noteq> tx_sender_public_key tx"
    using i(2) by (auto simp: is_victim_def nonce_of_def)
  then show "tx_sender_public_key v \<noteq> tx_sender_public_key tx" by simp
  show "nonce_of t \<le> nonce_of v"
    using last_nonces_max [OF last, of t] assms(3,4) by (simp add: pending_def)
qed

text \<open>Removing last ones from a run leaves a run.\<close>

lemma run_without_last:
  assumes run: "image_mset f (A + B) = mset_set {k..<k + size (A + B)}" and last: "\<forall>b \<in># B. \<forall>t \<in># A + B. f t \<le> f b"
  shows "image_mset f A = mset_set {k..<k + size A}"
proof (cases "size B")
  case 0
  then show ?thesis using run by simp
next
  case (Suc j)
  then obtain b B' where B: "B = add_mset b B'" by (metis size_eq_Suc_imp_eq_union)
  have "B' = {#}"
  proof (rule ccontr)
    assume "B' \<noteq> {#}"
    then obtain c C where C: "B' = add_mset c C" by (meson multiset_cases)
    have "f b = f c" using last B C by (auto intro: order_antisym)
    then have "count (image_mset f (A + B)) (f b) \<ge> 2" by (simp add: B C)
    then show False unfolding run by (simp add: count_mset_set' split: if_splits)
  qed
  have "f b \<in># image_mset f (A + B)" by (simp add: B)
  then have fb: "k \<le> f b" "f b < k + size (A + B)" unfolding run by simp_all
  have "k + size A \<in># image_mset f (A + B)" unfolding run by (simp add: B)
  then have "k + size A \<le> f b" using last B by (auto simp del: union_iff)
  then have "f b = k + size A" using fb by (simp add: B \<open>B' = {#}\<close>)
  moreover have "{k..<k + Suc (size A)} = insert (k + size A) {k..<k + size A}" by auto
  ultimately show ?thesis using run by (simp add: B \<open>B' = {#}\<close>)
qed

text \<open>Room for the nonces of a full pool.\<close>

definition nonce_room :: "pool_config \<Rightarrow> store \<Rightarrow> bool" where
  "nonce_room pc s \<longleftrightarrow> pc_max_size pc + 2 < 2 ^ 64
     \<and> (\<forall>a w. get_wallet s a = Some w \<longrightarrow> unat (w_nonce w) + pc_max_size pc + 2 < 2 ^ 64)"

definition chain_nonce :: "store \<Rightarrow> string \<Rightarrow> u64" where
  "chain_nonce s a = (case get_wallet s a of None \<Rightarrow> 0 | Some w \<Rightarrow> w_nonce w)"

lemma expected_start:
  "address_from_public_key E pk (nw_pubkey_hash n) = Inr a \<Longrightarrow> expected_nonce E n s [] pk = Inr (chain_nonce s a + 1)"
  by (simp add: expected_nonce_def chain_nonce_def)

lemma chain_nonce_room: "nonce_room pc s \<Longrightarrow> unat (chain_nonce s a + 1) + pc_max_size pc + 1 < 2 ^ 64"
proof -
  assume r: "nonce_room pc s"
  have "unat (chain_nonce s a) + pc_max_size pc + 2 < 2 ^ 64"
    using r by (auto simp: nonce_room_def chain_nonce_def split: option.split)
  moreover from this have "unat (chain_nonce s a + 1) = unat (chain_nonce s a) + 1" by (simp add: unat_word_ariths)
  ultimately show ?thesis by simp
qed

text \<open>One sender's nonces as a run from \<open>k\<close>.\<close>

definition is_run :: "nat \<Rightarrow> transaction multiset \<Rightarrow> bool" where
  "is_run k ts \<longleftrightarrow> image_mset (\<lambda>t. unat (nonce_of t)) ts = mset_set {k..<k + size ts}"

lemma gap_free_runs:
  "gap_free E n s [] M \<longleftrightarrow> (\<forall>pk. filter_mset (sent_by pk) M \<noteq> {#} \<longrightarrow> (\<exists>k. expected_nonce E n s [] pk = Inr k
     \<and> unat k + size (filter_mset (sent_by pk) M) < 2 ^ 64 \<and> is_run (unat k) (filter_mset (sent_by pk) M)))"
  by (simp add: gap_free_def is_run_def Let_def)

lemma run_add:
  assumes "is_run k ts" and "unat (nonce_of t) = k + size ts"
  shows "is_run k (add_mset t ts)"
proof -
  have "{k..<k + Suc (size ts)} = insert (k + size ts) {k..<k + size ts}" by auto
  with assms show ?thesis by (simp add: is_run_def)
qed

text \<open>The own run grows by the new transaction, or swaps one for another with its nonce.\<close>

lemma own_run:
  assumes run: "is_run (unat k) (A + R)" and R: "replacement m tx r R"
    and A: "A + R = filter_mset (sent_by (tx_sender_public_key tx)) (pending m)"
    and nr: "nonce_rule tx c r (filter (\<lambda>p. tx_nonce p \<noteq> tx_nonce tx) (pending_of m tx)) = Inr ()"
    and k: "k = c + 1" "unat k + Suc (size A) < 2 ^ 64"
  shows "is_run (unat k) (add_mset tx A)"
proof (cases "r = None")
  case False
  then obtain old where "R = {#old#}" "tx_nonce old = tx_nonce tx" using R by (auto simp: replacement_def)
  with run show ?thesis by (simp add: is_run_def nonce_of_def)
next
  case True
  then have empty: "R = {#}" and other: "\<forall>p \<in> set (pending_of m tx). tx_nonce p \<noteq> tx_nonce tx"
    using R by (auto simp: replacement_def set_pending_of)
  have "A = mset (pending_of m tx)"
    using A empty unfolding pending_of_def pending_def sent_by_def [abs_def] mset_sort mset_filter by simp
  then have "size A = length (pending_of m tx)" by simp
  then have "nonce_of tx = k + word_of_nat (size A)"
    using nr True other k(1) by (auto simp: nonce_rule_def nonce_of_def split: option.splits)
  then have "unat (nonce_of tx) = unat k + size A"
    using k(2) by (simp add: unat_word_ariths unat_of_nat)
  with run empty show ?thesis by (simp add: run_add)
qed

lemma other_run:
  assumes "is_run k (filter_mset (sent_by pk) (pending m))" and "\<forall>i \<in> set vs. is_victim m tx i"
    and M: "filter_mset (sent_by pk) (pending m) = A + filter_mset (sent_by pk) (victims m vs)"
  shows "is_run k A"
proof -
  have "\<forall>b \<in># filter_mset (sent_by pk) (victims m vs). \<forall>t \<in># filter_mset (sent_by pk) (pending m).
      unat (nonce_of t) \<le> unat (nonce_of b)"
    using victim_is_last(1) [OF _ assms(2)] by (auto simp: sent_by_def word_le_nat_alt)
  then show ?thesis
    using run_without_last [of "\<lambda>t. unat (nonce_of t)"] assms(1) unfolding M is_run_def by blast
qed

lemma admission_gap_free:
  assumes gap: "gap_free E n s [] (pending m)" and wf: "pool_wf E n pc m" and room: "nonce_room pc s"
    and v: "validate E n pc s now m tx = (a, Inr ad)" and i: "tx_id tx = Some i"
  shows "gap_free E n s [] (pending (commit_admit E n pc tip i tx ad (m\<lparr>mp_antispam := a\<rparr>)))"
  unfolding gap_free_runs
proof (intro allI impI)
  let ?m' = "commit_admit E n pc tip i tx ad (m\<lparr>mp_antispam := a\<rparr>)"
  let ?V = "victims m (ad_evicts ad)"
  have ok: "pool_ok E n pc m" and bt: "bt_wf (mp_txs m)" using wf by (simp_all add: pool_wf_def pool_ok_def)
  obtain rest R where p': "pending ?m' = add_mset tx rest"
    and m: "pending m = rest + R + ?V" and R: "replacement m tx (ad_replaces ad) R"
    by (rule commit_effect [OF ok v i]) (rule that; assumption)
  obtain sender where plan: "eviction_plan E n pc m tx = Inr (ad_evicts ad)"
    and addr: "address_from_public_key E (tx_sender_public_key tx) (nw_pubkey_hash n) = Inr sender"
    and nr: "nonce_rule tx (chain_nonce s sender) (ad_replaces ad)
       (filter (\<lambda>p. tx_nonce p \<noteq> tx_nonce tx) (pending_of m tx)) = Inr ()"
    using validate_accepts [OF v] unfolding chain_nonce_def by metis
  note vic = eviction_plan_frees(2) [OF plan bt]
  have size: "Suc (size rest) \<le> pc_max_size pc" using commit_wf [OF wf v i, of tip] by (simp add: pool_wf_def p')
  fix pk assume ne: "filter_mset (sent_by pk) (pending ?m') \<noteq> {#}"
  show "\<exists>k. expected_nonce E n s [] pk = Inr k \<and> unat k + size (filter_mset (sent_by pk) (pending ?m')) < 2 ^ 64
      \<and> is_run (unat k) (filter_mset (sent_by pk) (pending ?m'))"
  proof (cases "pk = tx_sender_public_key tx")
    case False
    then have same: "filter_mset (sent_by pk) (pending ?m') = filter_mset (sent_by pk) rest"
      and M: "filter_mset (sent_by pk) (pending m) = filter_mset (sent_by pk) rest + filter_mset (sent_by pk) ?V"
      using R by (auto simp: p' m sent_by_def replacement_def)
    then obtain k where "expected_nonce E n s [] pk = Inr k" "unat k + size (filter_mset (sent_by pk) (pending m)) < 2 ^ 64"
      "is_run (unat k) (filter_mset (sent_by pk) (pending m))"
      using gap ne unfolding gap_free_runs by (metis empty_neutral(1) union_eq_empty)
    with same M other_run [OF _ vic M] show ?thesis by auto
  next
    case True
    let ?k = "chain_nonce s sender + 1"
    have "filter_mset (sent_by pk) ?V = {#}"
      using victim_is_last(2) [OF _ vic] m by (auto simp: sent_by_def True filter_mset_eq_conv)
    moreover have "filter_mset (sent_by pk) R = R" using R True by (auto simp: replacement_def sent_by_def)
    ultimately have A: "filter_mset (sent_by pk) rest + R = filter_mset (sent_by pk) (pending m)" by (simp add: m)
    have run: "is_run (unat ?k) (filter_mset (sent_by pk) rest + R)"
      using gap expected_start [OF addr] True unfolding gap_free_runs A
      by (cases "filter_mset (sent_by pk) (pending m) = {#}") (auto simp: is_run_def)
    have "unat ?k + Suc (size (filter_mset (sent_by pk) rest)) < 2 ^ 64"
      using chain_nonce_room [OF room, of sender] size size_filter_mset_lesseq [of "sent_by pk" rest] by linarith
    with own_run [OF run [unfolded True] R A [unfolded True] nr refl] True expected_start [OF addr] show ?thesis
      by (simp add: p' sent_by_def)
  qed
qed

section \<open>A pool filled at one chain state\<close>

text \<open>Batches and purges while the chain stands still.\<close>

inductive filled :: "crypto \<Rightarrow> network \<Rightarrow> pool_config \<Rightarrow> store \<Rightarrow> mempool \<Rightarrow> bool" for E n pc s where
  start: "filled E n pc s (mempool_new cfg now)"
| add: "filled E n pc s m \<Longrightarrow> filled E n pc s (fst (add_many_from E n pc s now origin txs m))"
| purge: "filled E n pc s m \<Longrightarrow> filled E n pc s (fst (purge E n pc sender m))"

definition forgeable :: "crypto \<Rightarrow> network \<Rightarrow> pool_config \<Rightarrow> store \<Rightarrow> mempool \<Rightarrow> bool" where
  "forgeable E n pc s m \<longleftrightarrow> pool_wf E n pc m \<and> gap_free E n s [] (pending m) \<and> serializable E n (pending m)"

lemma serializable_subset: "N \<subseteq># M \<Longrightarrow> serializable E n M \<Longrightarrow> serializable E n N"
  by (auto simp: serializable_def dest: mset_subset_eqD)

lemma commit_forgeable:
  assumes f: "forgeable E n pc s m" and net: "nw_pubkey_hash n = MAINNET_PUBKEY_HASH" and room: "nonce_room pc s"
    and tid: "transaction_id E tx = Inr i" and i: "tx_id tx = Some i" and v: "validate E n pc s now m tx = (a, Inr ad)"
  shows "forgeable E n pc s (commit_admit E n pc tip i tx ad (m\<lparr>mp_antispam := a\<rparr>))"
proof -
  have wf: "pool_wf E n pc m" and gap: "gap_free E n s [] (pending m)" and ser: "serializable E n (pending m)"
    using f by (simp_all add: forgeable_def)
  obtain rest R where p: "pending (commit_admit E n pc tip i tx ad (m\<lparr>mp_antispam := a\<rparr>)) = add_mset tx rest"
    and m: "pending m = rest + R + victims m (ad_evicts ad)"
    by (rule commit_effect [OF pool_wf_ok [OF wf] v i]) (rule that; assumption)
  have "serializable E n rest" using ser m serializable_subset by (metis mset_subset_eq_add_left subset_mset.order_trans)
  moreover have "is_ok (serialize_transaction E tx opts_default (nw_pubkey_hash n))"
    using tid by (auto simp: transaction_id_def rbind_eq_Inr net)
  ultimately have "serializable E n (add_mset tx rest)" by (simp add: serializable_def)
  with commit_wf [OF wf v i, of tip] admission_gap_free [OF gap wf room v i, of tip] show ?thesis by (simp add: forgeable_def p)
qed

lemma purged_pending:
  assumes "bt_wf (mp_txs m)"
  shows "pending (fst (purge E n pc sender m)) = filter_mset (\<lambda>t. \<not> (case sender of None \<Rightarrow> True
     | Some a \<Rightarrow> address_from_public_key E (tx_sender_public_key t) (nw_pubkey_hash n) = Inr a)) (pending m)"
proof -
  define Q where "Q = (\<lambda>it :: string \<times> transaction. case sender of None \<Rightarrow> True
     | Some a \<Rightarrow> address_from_public_key E (tx_sender_public_key (snd it)) (nw_pubkey_hash n) = Inr a)"
  have del: "mp_txs (fold (remove_locked E n pc) is m) = filter (\<lambda>it. fst it \<notin> set is) (mp_txs m)" for "is"
  proof (induction "is" arbitrary: m)
    case (Cons i "is")
    have "mp_txs (remove_locked E n pc i m) = filter (\<lambda>it. fst it \<noteq> i) (mp_txs m)"
    proof (cases "bt_get (mp_txs m) i")
      case None
      then have "i \<notin> fst ` set (mp_txs m)" by (simp add: bt_get_None_iff)
      then show ?thesis using remove_absent [OF None] by (auto intro!: filter_True [symmetric])
    qed (simp add: remove_locked_def bt_del_def)
    with Cons show ?case by (simp add: conj_commute)
  qed simp
  have "filter (\<lambda>it. fst it \<notin> set (map fst (filter Q (mp_txs m)))) (mp_txs m) = filter (\<lambda>it. \<not> Q it) (mp_txs m)"
    using bt_wf_distinct [OF assms] by (intro filter_cong refl) (force simp: distinct_map inj_on_def)
  moreover have "fst (purge E n pc sender m) = fold (remove_locked E n pc) (map fst (filter Q (mp_txs m))) m"
    by (simp add: purge_def Let_def Q_def case_prod_unfold)
  ultimately have "mp_txs (fst (purge E n pc sender m)) = filter (\<lambda>it. \<not> Q it) (mp_txs m)" by (simp add: del)
  then show ?thesis by (simp add: pending_def Q_def filter_mset_image_mset flip: mset_filter)
qed

lemma gap_free_senders: "gap_free E n s [] M \<Longrightarrow> gap_free E n s [] (filter_mset (\<lambda>t. P (tx_sender_public_key t)) M)"
proof -
  have "filter_mset (sent_by pk) (filter_mset (\<lambda>t. P (tx_sender_public_key t)) M) = (if P pk then filter_mset (sent_by pk) M else {#})" for pk
    by (auto simp: filter_filter_mset sent_by_def intro!: filter_mset_cong filter_mset_eq_conv)
  then show "gap_free E n s [] M \<Longrightarrow> ?thesis" by (simp add: gap_free_runs)
qed

lemma purge_forgeable:
  assumes "forgeable E n pc s m"
  shows "forgeable E n pc s (fst (purge E n pc sender m))"
proof -
  have wf: "pool_wf E n pc m" using assms by (simp add: forgeable_def)
  have p: "pending (fst (purge E n pc sender m)) = filter_mset (\<lambda>t. \<not> (case sender of None \<Rightarrow> True
     | Some a \<Rightarrow> address_from_public_key E (tx_sender_public_key t) (nw_pubkey_hash n) = Inr a)) (pending m)"
    using wf by (intro purged_pending) (simp add: pool_wf_def pool_ok_def)
  have "gap_free E n s [] (pending (fst (purge E n pc sender m)))"
    unfolding p using assms by (intro gap_free_senders) (simp add: forgeable_def)
  moreover have "serializable E n (pending (fst (purge E n pc sender m)))"
    using assms unfolding p by (simp add: forgeable_def serializable_def)
  ultimately show ?thesis using shrinks_wf [OF shrinks_purge wf] pool_wf_ok [OF wf] by (simp add: forgeable_def)
qed

lemma filled_forgeable:
  assumes "filled E n pc s m" and "nw_pubkey_hash n = MAINNET_PUBKEY_HASH" and "nonce_room pc s"
  shows "forgeable E n pc s m"
  using assms(1)
proof induction
  case (start cfg now)
  then show ?case
    using new_wf [of E n pc cfg now] by (simp add: forgeable_def mempool_new_def pending_def gap_free_def serializable_def)
next
  case (add m now origin txs)
  show ?case using add.IH
    by (rule add_many_invariant [rotated 3]) (simp add: forgeable_def, simp add: forgeable_def, rule commit_forgeable [OF _ assms(2,3)])
qed (rule purge_forgeable)

text \<open>C11. Admitted transactions get forged: at a chain state where a full pool does not run a nonce past
  64 bits, a pool filled by any batches and purges, with replacements and evictions, and small enough for
  one block is selected whole: every pending transaction of every sender goes into the next block.\<close>

theorem admitted_pool_is_forged:
  assumes "filled E n pc s m" and "nw_pubkey_hash n = MAINNET_PUBKEY_HASH" and "nonce_room pc s"
    and "total_bytes E n (pending m) \<le> unat (max_payload (milestone_at n height))"
    and "size (pending m) \<le> unat (max_transactions (milestone_at n height))"
  shows "\<exists>txs. select_transactions E n s (pool_txs_of m) height = Inr txs \<and> mset txs = pending m"
proof -
  have m: "pending m = mset (pool_txs_of m)" by (simp add: pending_def pool_txs_of_def)
  have "forgeable E n pc s m" using filled_forgeable assms(1-3) by blast
  with select_fitting [of E n s "pool_txs_of m" height] assms(4,5) show ?thesis by (simp add: forgeable_def m)
qed

section \<open>Two batches at once\<close>

text \<open>\<open>validate\<close> reads the pool under the read lock and gives it up; the insertion takes the write lock
  later. Here both transactions are validated before either is inserted.\<close>

definition interleaved_admissions ::
  "crypto \<Rightarrow> network \<Rightarrow> pool_config \<Rightarrow> store \<Rightarrow> nat \<Rightarrow> string \<times> transaction \<Rightarrow> string \<times> transaction \<Rightarrow> mempool \<Rightarrow> mempool" where
  "interleaved_admissions E n pc s now it1 it2 m =
     (let tip = get_last_height s;
          (a1, v1) = validate E n pc s now m (snd it1);
          (a2, v2) = validate E n pc s now (m\<lparr>mp_antispam := a1\<rparr>) (snd it2);
          m = m\<lparr>mp_antispam := a2\<rparr>;
          m = (case v1 of Inl _ \<Rightarrow> m | Inr ad \<Rightarrow> commit_admit E n pc tip (fst it1) (snd it1) ad m)
      in case v2 of Inl _ \<Rightarrow> m | Inr ad \<Rightarrow> commit_admit E n pc tip (fst it2) (snd it2) ad m)"

lemma length_put: "bt_wf m \<Longrightarrow> bt_get m k = None \<Longrightarrow> length (bt_put k v m) = Suc (length m)"
  using arg_cong [OF values_put, of m k size v] by simp

text \<open>Two admissions overfill the pool: when one place is left and two transactions, each acceptable
  on its own without replacing or evicting anything, are validated before either is inserted, both go in
  and the pool holds one transaction more than its limit.\<close>

theorem concurrent_admissions_overfill_pool:
  assumes "pool_wf E n pc m" and "length (mp_txs m) + 1 = pc_max_size pc"
    and "validate E n pc s now m t1 = (a1, Inr ad1)" and "validate E n pc s now (m\<lparr>mp_antispam := a1\<rparr>) t2 = (a2, Inr ad2)"
    and "tx_id t1 = Some i1" and "tx_id t2 = Some i2" and "i1 \<noteq> i2"
    and "ad_replaces ad1 = None" and "ad_evicts ad1 = []" and "ad_replaces ad2 = None" and "ad_evicts ad2 = []"
  shows "length (mp_txs (interleaved_admissions E n pc s now (i1, t1) (i2, t2) m)) = pc_max_size pc + 1"
proof -
  have "bt_wf (mp_txs m)" using assms(1) by (simp add: pool_wf_def pool_ok_def)
  moreover have "bt_get (mp_txs m) i1 = None" using assms(5) by (auto intro: validate_accepts [OF assms(3)])
  moreover have "bt_get (mp_txs m) i2 = None" using assms(6) by (auto intro: validate_accepts [OF assms(4)])
  ultimately show ?thesis
    using assms(2-4,7-11) by (simp add: interleaved_admissions_def commit_admit_def Let_def length_put)
qed

end
