(* ===== verification/PoolCases.thy ===== *)
theory PoolCases
  imports MempoolLive
begin

text \<open>
  Concrete pools for the theorems on the pool: transfers of two funded senders, told apart by the byte
  their keys are made of, with the reference crypto of \<open>RefCrypto\<close> accepting every signature.
\<close>

section \<open>Transfers of funded senders\<close>

definition open_crypto :: crypto where
  "open_crypto = accept_crypto\<lparr>verify_schnorr_legacy := (\<lambda>h s pk. Inr True)\<rparr>"

definition sender_key :: "u8 \<Rightarrow> string" where "sender_key b = ref_hex_encode (replicate 33 b)"

definition addr_of :: "u8 \<Rightarrow> string" where "addr_of b = str_of_bytes (63 # replicate 20 b)"

definition transfer_of :: "u8 \<Rightarrow> u32 \<Rightarrow> transaction" where
  "transfer_of b e = ref_transfer\<lparr>tx_sender_public_key := sender_key b, tx_expiration := Some e\<rparr>"

definition transfer_bytes :: "u8 \<Rightarrow> u32 \<Rightarrow> bytes" where
  "transfer_bytes b e = 255 # 2 # 63 # u32_le 1 @ u16_le 0 @ u64_le 5 @ replicate 33 b @ u64_le 10000000
     @ len8 (as_bytes ''hello'') # as_bytes ''hello'' @ u64_le 250000000 @ u32_le e @ replicate 21 63 @ replicate 64 7"

definition id_of :: "u8 \<Rightarrow> u32 \<Rightarrow> string" where
  "id_of b e = ref_hex_encode (ref_digest 32 (transfer_bytes b e))"

definition case_config :: "nat \<Rightarrow> pool_config" where
  "case_config k = \<lparr>pc_max_size = k, pc_max_bytes = 1000,
     pc_dynamic_fees = \<lparr>df_enabled = True, df_min_fee_pool = 3000, df_min_fee_broadcast = 3000, df_addon_bytes = [(''transfer'', 100)]\<rparr>,
     pc_legacy_dynamic_fees = False, pc_max_age_blocks = 0, pc_rebroadcast_blocks = 0, pc_json_len = (\<lambda>_. 0)\<rparr>"

definition funded :: "u8 \<Rightarrow> string \<times> wallet_state" where
  "funded b = (addr_of b, (wallet_new (addr_of b))\<lparr>w_nonce := 4, w_balance := 1000000000\<rparr>)"

definition case_store :: store where
  "case_store = tip_store\<lparr>st_wallets := [funded 2, funded 3]\<rparr>"

lemma open_decodes [simp]:
  "hex_decode open_crypto (sender_key b) = Some (replicate 33 b)"
  "hex_decode open_crypto ref_sig = Some (replicate 64 7)"
  "bs58check_decode open_crypto ref_address = Some (replicate 21 63)"
  "hex_encode open_crypto x = ref_hex_encode x" "sha256 open_crypto = ref_digest 32" "ripemd160 open_crypto = ref_digest 20"
  "bs58check_encode open_crypto = str_of_bytes" "verify_schnorr_legacy open_crypto h s pk = Inr True"
  by (simp_all add: open_crypto_def accept_crypto_def ref_crypto_def sender_key_def ref_sig_def ref_hex_decode_encode ref_address_def)

lemma transfer_fields [simp]:
  "tx_sender_public_key (transfer_of b e) = sender_key b" "tx_version (transfer_of b e) = 2" "tx_type_group (transfer_of b e) = 1"
  "tx_type (transfer_of b e) = 0" "tx_network (transfer_of b e) = Some 63" "tx_nonce (transfer_of b e) = Some 5"
  "tx_fee (transfer_of b e) = 10000000" "tx_amount (transfer_of b e) = 250000000" "tx_recipient (transfer_of b e) = Some ref_address"
  "tx_asset (transfer_of b e) = None" "tx_expiration (transfer_of b e) = Some e" "tx_second_signature (transfer_of b e) = None"
  "tx_sign_signature (transfer_of b e) = None" "tx_signature (transfer_of b e) = Some ref_sig"
  "tx_signatures (transfer_of b e) = None" "tx_id (transfer_of b e) = None" "tx_vendor_field (transfer_of b e) = Some ''hello''"
  by (simp_all add: transfer_of_def ref_transfer_def)

lemma transfer_serialized:
  "serialize_transaction open_crypto (transfer_of b e) opts_default 63 = Inr (transfer_bytes b e)"
  by (simp add: serialize_transaction_def serialize_vendor_field_def serialize_type_payload_def
        serialize_core_def serialize_signatures_def has_vendor_field_def is_sobj_def
        is_token_def is_pq_def VERSION_PQ_def write_recipient_def second_signature_any_def opt_hex_def
        opts_default_def w_var8_def w_hex_def write_address_def address_to_bytes_def transfer_bytes_def)

lemma transfer_id: "transaction_id open_crypto (transfer_of b e) = Inr (id_of b e)"
  by (simp add: transaction_id_def MAINNET_PUBKEY_HASH_def transfer_serialized id_of_def)

lemma id_of_neq: "b \<noteq> c \<Longrightarrow> id_of b e \<noteq> id_of c f"
proof
  assume bc: "b \<noteq> c" and "id_of b e = id_of c f"
  then have "ref_digest 32 (transfer_bytes b e) = ref_digest 32 (transfer_bytes c f)"
    unfolding id_of_def by (metis option.inject ref_hex_decode_encode)
  then have "ref_digest 32 (transfer_bytes b e) ! 17 = ref_digest 32 (transfer_bytes c f) ! 17" by simp
  with bc show False by (simp add: ref_digest_def transfer_bytes_def nth_append)
qed

lemma transfer_length: "length (transfer_bytes b e) = 161"
  by (simp add: transfer_bytes_def)

lemma transfer_size: "tx_size open_crypto ref_network pc ((transfer_of b e)\<lparr>tx_id := j\<rparr>) = 161"
  by (simp add: tx_size_def serialize_tx_id ref_network_def transfer_serialized transfer_length)

lemma transfer_verifies: "verify_transaction_signature open_crypto ((transfer_of b e)\<lparr>tx_id := j\<rparr>) = Inr True"
proof -
  have "\<exists>h. transaction_signing_hash open_crypto ((transfer_of b e)\<lparr>tx_id := j\<rparr>) = Inr h"
    by (simp add: transaction_signing_hash_def serialize_tx_id) (simp add: for_signing_def serialize_transaction_def serialize_vendor_field_def serialize_type_payload_def
        serialize_core_def serialize_signatures_def has_vendor_field_def is_sobj_def
        is_token_def is_pq_def VERSION_PQ_def write_recipient_def second_signature_any_def opt_hex_def
        w_var8_def w_hex_def write_address_def address_to_bytes_def)
  then show ?thesis by (auto simp: verify_transaction_signature_def verify_signature_def)
qed

lemma transfer_admitted:
  assumes "b \<in> {2, 3}" and "bt_get (mp_txs m) (id_of b e) = None" and "\<forall>p \<in># pending m. tx_sender_public_key p \<noteq> sender_key b"
    and "length (mp_txs m) < k" and "mp_bytes m + 161 \<le> 1000" and "as_cfg (mp_antispam m) = antispam_config_default"
  shows "validate open_crypto ref_network (case_config k) case_store now m ((transfer_of b e)\<lparr>tx_id := Some (id_of b e)\<rparr>)
     = (mp_antispam m, Inr \<lparr>ad_broadcast = True, ad_replaces = None, ad_evicts = []\<rparr>)"
proof -
  let ?tx = "(transfer_of b e)\<lparr>tx_id := Some (id_of b e)\<rparr>"
  have addr: "address_from_public_key open_crypto (sender_key b) 63 = Inr (addr_of b)"
    by (simp add: address_from_public_key_def addr_of_def ref_digest_def take_replicate)
  have "as_bytes (addr_of 2) \<noteq> as_bytes (addr_of 3)" by (simp add: addr_of_def)
  then have "addr_of 2 \<noteq> addr_of 3" by metis
  then have w: "get_wallet case_store (addr_of b) = Some ((wallet_new (addr_of b))\<lparr>w_nonce := 4, w_balance := 1000000000\<rparr>)"
    using assms(1) by (auto simp: get_wallet_def case_store_def funded_def)
  have h: "get_last_height case_store = 1" by (simp add: case_store_def tip_store_def get_last_height_def)
  have none: "pending_of m ?tx = []"
    using assms(3) by (auto simp: pending_of_def pending_def filter_empty_conv)
  have net: "nw_pubkey_hash ref_network = 63" by (simp add: ref_network_def)
  have ms: "milestone_at ref_network 2 = milestone_default" by (rule ref_milestone)
  have plan: "eviction_plan open_crypto ref_network (case_config k) m ?tx = Inr []"
    using assms(4,5) by (simp add: eviction_plan_def Let_def transfer_size case_config_def)
  have fee: "check_core_fee (case_config k) ?tx 161 (milestone_at ref_network 2) = Inr True"
    by (simp add: check_core_fee_def case_config_def is_pq_def VERSION_PQ_def min_fee_def addon_def fee_name_def FEE_NAMES_def
        saturating_mul_def saturating_add_def)
  have "get_transaction open_crypto ref_network case_store (id_of b e) = Inr None"
    by (simp add: get_transaction_def case_store_def tip_store_def store_empty_def)
  then have "validate_head open_crypto ref_network (case_config k) case_store m ?tx = Inr ([], True, addr_of b)"
    using assms(2) plan fee addr h
    by (simp add: validate_head_def Let_def err_def transfer_size transfer_verifies net recipients_def asset_field_def
        validate_address_def address_to_bytes_def)
  moreover have "validate_tail open_crypto ref_network case_store m ?tx (addr_of b) [] = Inr None"
    using w h
    by (simp add: validate_tail_def Let_def replaced_tx_def nonce_rule_def key_rules_def pending_second_key_def pending_pq_key_def
        check_pq_def is_pq_def VERSION_PQ_def check_second_signature_def registered_second_key_def second_signature_any_def
        is_token_def is_sobj_def sobj_asset_of_def token_asset_of_def err_def spend_rule_def spent_def sobj_price_def token_price_def asset_field_def wallet_new_def or_else_def)
  ultimately show ?thesis
    using assms(6) by (simp add: validate_def none check_sender_def antispam_config_default_def transfer_size)
qed

section \<open>Pools with pending transfers\<close>

definition pending_transfer :: "u8 \<Rightarrow> u32 \<Rightarrow> transaction" where
  "pending_transfer b e = (transfer_of b e)\<lparr>tx_id := Some (id_of b e)\<rparr>"

abbreviation add_transfers :: "nat \<Rightarrow> transaction list \<Rightarrow> mempool \<Rightarrow> mempool" where
  "add_transfers k txs m \<equiv> fst (add_many_from open_crypto ref_network (case_config k) case_store 0 Local txs m)"

definition empty_pool :: mempool where
  "empty_pool = mempool_new antispam_config_default 0"

lemma empty_pool [simp]:
  "mp_txs empty_pool = []" "mp_bytes empty_pool = 0" "as_cfg (mp_antispam empty_pool) = antispam_config_default"
  "pending empty_pool = {#}"
  by (simp_all add: empty_pool_def mempool_new_def antispam_new_def pending_def)

lemma one_pending:
  assumes "b \<in> {2, 3}" and "0 < k"
  shows "mp_txs (add_transfers k [transfer_of b e] empty_pool) = [(id_of b e, pending_transfer b e)]"
proof -
  have v: "validate open_crypto ref_network (case_config k) case_store 0 empty_pool (pending_transfer b e)
      = (mp_antispam empty_pool, Inr \<lparr>ad_broadcast = True, ad_replaces = None, ad_evicts = []\<rparr>)"
    unfolding pending_transfer_def using assms by (intro transfer_admitted) simp_all
  have "gate 0 Local 1 (mp_antispam empty_pool) = (mp_antispam empty_pool, Allow 1)" by (simp add: gate_def)
  moreover have "empty_pool\<lparr>mp_antispam := mp_antispam empty_pool\<rparr> = empty_pool" by simp
  ultimately show ?thesis
    using v by (simp add: add_many_from_def add_one_def add_known_def transfer_id commit_admit_def Let_def
        pending_transfer_def [symmetric])
qed

theorem pool_stays_well_formed_witness:
  "pending (add_transfers 2 [transfer_of 2 0] empty_pool) = {#pending_transfer 2 0#}
     \<and> pool_wf open_crypto ref_network (case_config 2) (add_transfers 2 [transfer_of 2 0] empty_pool)"
proof -
  have "pool_reach open_crypto ref_network (case_config 2) (add_transfers 2 [transfer_of 2 0] empty_pool)"
    unfolding empty_pool_def by (intro pool_reach.intros)
  then have "pool_wf open_crypto ref_network (case_config 2) (add_transfers 2 [transfer_of 2 0] empty_pool)"
    by (rule pool_stays_well_formed)
  then show ?thesis using one_pending [of 2 2 0] by (simp add: pending_def)
qed

lemma one_pending_fits:
  assumes "b \<in> {2, 3}"
    and m_def: "m = add_transfers 2 [transfer_of b e] empty_pool"
  shows "filled open_crypto ref_network (case_config 2) case_store m" "nonce_room (case_config 2) case_store"
    "nw_pubkey_hash ref_network = MAINNET_PUBKEY_HASH" "pending m = {#pending_transfer b e#}"
    "total_bytes open_crypto ref_network (pending m) \<le> unat (max_payload (milestone_at ref_network 2))"
    "size (pending m) \<le> unat (max_transactions (milestone_at ref_network 2))"
proof -
  have net: "nw_pubkey_hash ref_network = 63" by (simp add: ref_network_def)
  show "filled open_crypto ref_network (case_config 2) case_store m"
    unfolding m_def empty_pool_def by (intro filled.intros)
  show "nonce_room (case_config 2) case_store"
    by (auto simp: nonce_room_def case_config_def get_wallet_def case_store_def funded_def split: if_splits)
  show "nw_pubkey_hash ref_network = MAINNET_PUBKEY_HASH" by (simp add: ref_network_def MAINNET_PUBKEY_HASH_def)
  show p: "pending m = {#pending_transfer b e#}" using one_pending [of b 2 e] assms(1) by (simp add: m_def pending_def)
  show "total_bytes open_crypto ref_network (pending m) \<le> unat (max_payload (milestone_at ref_network 2))"
    "size (pending m) \<le> unat (max_transactions (milestone_at ref_network 2))"
    by (simp_all add: p total_bytes_def tx_bytes_def pending_transfer_def serialize_tx_id net transfer_serialized
        transfer_length ref_milestone milestone_default_def max_payload_def max_transactions_def block_params_default_def)
qed

theorem admitted_pool_is_forged_witness:
  "\<exists>txs. select_transactions open_crypto ref_network case_store
       (pool_txs_of (add_transfers 2 [transfer_of 2 0] empty_pool)) 2 = Inr txs \<and> mset txs = {#pending_transfer 2 0#}"
proof -
  note fit = one_pending_fits [of 2 _ 0, OF _ refl, simplified]
  show ?thesis using admitted_pool_is_forged [OF fit(1,3,2,5,6)] fit(4) by simp
qed

theorem concurrent_admissions_overfill_pool_witness:
  "length (mp_txs (interleaved_admissions open_crypto ref_network (case_config 1) case_store 0
     (id_of 2 0, pending_transfer 2 0) (id_of 3 0, pending_transfer 3 0) empty_pool)) = 2"
proof -
  have v: "validate open_crypto ref_network (case_config 1) case_store 0 empty_pool (pending_transfer b 0)
      = (mp_antispam empty_pool, Inr \<lparr>ad_broadcast = True, ad_replaces = None, ad_evicts = []\<rparr>)" if "b \<in> {2, 3}" for b
    unfolding pending_transfer_def using that by (intro transfer_admitted) simp_all
  have v3: "validate open_crypto ref_network (case_config 1) case_store 0 (empty_pool\<lparr>mp_antispam := mp_antispam empty_pool\<rparr>)
      (pending_transfer 3 0) = (mp_antispam empty_pool, Inr \<lparr>ad_broadcast = True, ad_replaces = None, ad_evicts = []\<rparr>)"
    using v [of 3] by simp
  have wf: "pool_wf open_crypto ref_network (case_config 1) empty_pool" unfolding empty_pool_def by (rule new_wf)
  have ids: "id_of 2 0 \<noteq> id_of 3 0" by (rule id_of_neq) simp
  have "length (mp_txs (interleaved_admissions open_crypto ref_network (case_config 1) case_store 0
      (id_of 2 0, pending_transfer 2 0) (id_of 3 0, pending_transfer 3 0) empty_pool)) = pc_max_size (case_config 1) + 1"
    by (rule concurrent_admissions_overfill_pool [OF wf _ v [of 2] v3 _ _ ids])
      (simp_all add: case_config_def pending_transfer_def)
  then show ?thesis by (simp add: case_config_def)
qed

end
