(* ===== verification/Forging.thy ===== *)
theory Forging
  imports PoolCases StatefulRules
begin

text \<open>
  One slot of the forger, \<open>src/src/delegate/forger.rs\<close>: the pool is put into a block on top of the tip and
  the block goes through the same intake as a block from the network before it is broadcast. What comes
  before, the tick and the wait for the peers, is in \<open>Forger\<close>.
\<close>

definition forge_slot ::
  "crypto \<Rightarrow> network \<Rightarrow> forger_keys \<Rightarrow> u32 \<Rightarrow> int \<Rightarrow> u64 \<Rightarrow> u32 \<Rightarrow> u64 \<Rightarrow> block \<Rightarrow> mempool \<Rightarrow> store \<Rightarrow> store \<times> block res" where
  "forge_slot E n keys now now_ms slot blocktime next_height tip m s =
     (case rbind (select_transactions E n s (pool_txs_of m) next_height) (\<lambda>txs.
             forge_block_with E n keys tip (slot_start slot blocktime) txs) of
        Inl e \<Rightarrow> (s, Inl e)
      | Inr b \<Rightarrow>
          (case sync_apply_blocks E n now now_ms [b] \<lparr>ct_height = b_height tip, ct_id = b_id tip\<rparr> True s of
             (s, Inl e) \<Rightarrow> (s, Inl e)
           | (s, Inr _) \<Rightarrow> (s, Inr b)))"

lemma forged_height_txs:
  assumes "forge_block_with E n keys previous ts txs = Inr b"
  shows "b_height b = b_height previous + 1"
    "\<exists>i. b_transactions b = map (\<lambda>(j, tx). placed (Some (b_height previous + 1)) (Some (u32_of_len j)) (Some i) tx) (enumerate 0 txs)"
  by (rule forge_block_cases [OF assms]; force simp: unsigned_block_def Let_def)+

lemma expired_block_rejected:
  assumes forge: "forge_block_with E n keys previous ts txs = Inr b"
    and tx: "tx \<in> set txs" "tx_id tx \<noteq> None" "\<not> live_tx (b_height previous + 1) tx"
  shows "verify_block E b n now \<noteq> []"
proof -
  obtain i where bt: "b_transactions b
      = map (\<lambda>(j, tx). placed (Some (b_height previous + 1)) (Some (u32_of_len j)) (Some i) tx) (enumerate 0 txs)"
    using forged_height_txs(2) [OF forge] by blast
  obtain j where j: "j < length txs" "txs ! j = tx" using tx(1) by (auto simp: in_set_conv_nth)
  then have "(j, tx) \<in> set (enumerate 0 txs)" by (simp add: in_set_enumerate_eq)
  then have "placed (Some (b_height previous + 1)) (Some (u32_of_len j)) (Some i) tx \<in> set (b_transactions b)"
    unfolding bt by (force simp del: enumerate_simps)
  then have "fst (tx_scan (b_height b) (b_transactions b) []) \<noteq> []"
    using tx(2,3) forged_height_txs(1) [OF forge] by (elim tx_scan_expired) (simp_all add: live_tx_def)
  then show ?thesis by (auto simp: verify_block_def Let_def split: prod.splits)
qed

text \<open>C38. One expired transaction stops every forger: neither the admission into the pool nor the block
  builder looks at the expiration height, but the block verification does. While a pool that fits into a
  block holds a transaction with an id that is expired at the next height, every slot of every delegate
  ends with an error and the chain does not grow.\<close>

theorem expired_transaction_stops_forging:
  assumes pool: "filled E n pc s m" "nw_pubkey_hash n = MAINNET_PUBKEY_HASH" "nonce_room pc s"
    and fits: "total_bytes E n (pending m) \<le> unat (max_payload (milestone_at n (b_height tip + 1)))"
      "size (pending m) \<le> unat (max_transactions (milestone_at n (b_height tip + 1)))"
    and tx: "tx \<in># pending m" "\<not> live_tx (b_height tip + 1) tx"
  shows "\<exists>e. forge_slot E n keys now now_ms slot blocktime (b_height tip + 1) tip m s = (s, Inl e)"
proof -
  have f: "forgeable E n pc s m" using filled_forgeable pool by blast
  then have "pool_ok E n pc m" by (simp add: forgeable_def pool_wf_def)
  then have id: "tx_id tx \<noteq> None" using pool_member [OF _ tx(1)] by fastforce
  have m: "pending m = mset (pool_txs_of m)" by (simp add: pending_def pool_txs_of_def)
  then obtain txs where txs: "select_transactions E n s (pool_txs_of m) (b_height tip + 1) = Inr txs" "mset txs = pending m"
    using select_fitting [of E n s "pool_txs_of m" "b_height tip + 1"] f fits by (auto simp: forgeable_def)
  then have "tx \<in> set txs" using tx(1) by (metis set_mset_mset)
  then have "verify_block E b n now \<noteq> []" if "forge_block_with E n keys tip (slot_start slot blocktime) txs = Inr b" for b
    using expired_block_rejected [OF that] id tx(2) by blast
  then have "\<exists>e. sync_apply_blocks E n now now_ms [b] \<lparr>ct_height = b_height tip, ct_id = b_id tip\<rparr> True s = (s, Inl e)"
    if "forge_block_with E n keys tip (slot_start slot blocktime) txs = Inr b" for b
    using that by (auto simp: sync_apply_blocks_def crypto_check_def ensure_def rbind_def split: sum.splits option.splits)
  then show ?thesis
    by (cases "forge_block_with E n keys tip (slot_start slot blocktime) txs") (fastforce simp: forge_slot_def txs(1))+
qed

text \<open>The pool takes a transfer that is already expired at the tip, and no block follows.\<close>

theorem expired_transaction_stops_forging_witness:
  "pending (add_transfers 2 [transfer_of 2 1] empty_pool) = {#pending_transfer 2 1#}
     \<and> (\<exists>e. forge_slot open_crypto ref_network forger_ref 80 0 10 8 2 parent_block
          (add_transfers 2 [transfer_of 2 1] empty_pool) case_store = (case_store, Inl e))"
proof -
  have h: "b_height parent_block + 1 = 2" by (simp add: parent_block_def)
  note fit = one_pending_fits [of 2 _ 1, OF _ refl, simplified]
  have "\<not> live_tx 2 (pending_transfer 2 1)" by (simp add: live_tx_def pending_transfer_def)
  then have "\<exists>e. forge_slot open_crypto ref_network forger_ref 80 0 10 8 2 parent_block
          (add_transfers 2 [transfer_of 2 1] empty_pool) case_store = (case_store, Inl e)"
    using fit expired_transaction_stops_forging [OF fit(1,3,2), of parent_block "pending_transfer 2 1"] by (simp add: h)
  with fit(4) show ?thesis by simp
qed

end
