(* ===== verification/Forger.thy ===== *)
theory Forger
  imports Guard Forging
begin

text \<open>
  The forging loop, \<open>src/src/delegate/forger.rs\<close>: the decision of one tick and the wait for the peers before
  a slot is used. What the peers answer, the state of the clock and the blocks that arrive meanwhile are
  observations, one per turn of the waiting loop; the pulls from a peer are functions on the store. Log
  lines, the broadcast of the block and the notes about the health of the peers are left out.
\<close>

section \<open>The wait for the peers\<close>

record peer_view =
  vw_ip :: string
  vw_height :: u64
  vw_id :: string
  vw_iroh :: bool

record forger_options =
  fo_quorum_share :: rat
  fo_min_quorum_peers :: nat
  fo_forge_over_minority :: bool
  fo_iroh :: bool

definition minority_rule :: "nat \<Rightarrow> nat \<Rightarrow> nat \<Rightarrow> nat \<Rightarrow> bool" where
  "minority_rule ahead same responders needed \<longleftrightarrow> ahead > 0 \<and> ahead * 3 < responders \<and> same \<ge> needed"

definition peers_needed :: "forger_options \<Rightarrow> nat \<Rightarrow> nat" where
  "peers_needed o1 responders =
     max (nat \<lceil>of_nat responders * min (max (fo_quorum_share o1) 0) 1\<rceil>) (max (fo_min_quorum_peers o1) 1)"

definition same_tip :: "block \<Rightarrow> peer_view list \<Rightarrow> nat" where
  "same_tip tip views = length (filter (\<lambda>v. vw_height v = b_height tip \<and> Some (vw_id v) = b_id tip) views)"

definition peers_ahead :: "block \<Rightarrow> peer_view list \<Rightarrow> nat" where
  "peers_ahead tip views = length (filter (\<lambda>v. vw_height v > b_height tip) views)"

text \<open>The early exit of \<open>network_view\<close>: enough of the peers that were asked confirm the tip and nobody is ahead.\<close>

definition enough :: "forger_options \<Rightarrow> block \<Rightarrow> peer_view list \<Rightarrow> nat \<Rightarrow> bool" where
  "enough o1 tip views asked \<longleftrightarrow>
     length (filter (\<lambda>v. vw_height v = b_height tip \<and> vw_id v = unwrap_or [] (b_id tip)) views) \<ge> peers_needed o1 asked
     \<and> list_all (\<lambda>v. vw_height v \<le> b_height tip) views"

fun network_view :: "(peer_view list \<Rightarrow> bool) \<Rightarrow> peer_view option list \<Rightarrow> peer_view list \<Rightarrow> peer_view list" where
  "network_view stop [] views = views"
| "network_view stop (None # answers) views = network_view stop answers views"
| "network_view stop (Some v # answers) views =
     (if stop (views @ [v]) then views @ [v] else network_view stop answers (views @ [v]))"

text \<open>The blocks ahead of us, from at most three of the peers that have them, the iroh peers first.\<close>

fun pull_each :: "(peer_view \<Rightarrow> store \<Rightarrow> store \<times> u64 res) \<Rightarrow> bool \<Rightarrow> u64 \<Rightarrow> peer_view list \<Rightarrow> store \<Rightarrow> store \<times> bool" where
  "pull_each pull iroh tip_height [] s = (s, False)"
| "pull_each pull iroh tip_height (v # vs) s =
     (if vw_iroh v \<and> \<not> iroh then pull_each pull iroh tip_height vs s
      else (case pull v s of
              (s, Inr h) \<Rightarrow> if h > tip_height then (s, True) else pull_each pull iroh tip_height vs s
            | (s, Inl _) \<Rightarrow> pull_each pull iroh tip_height vs s))"

definition pull_ahead ::
  "(peer_view \<Rightarrow> store \<Rightarrow> store \<times> u64 res) \<Rightarrow> bool \<Rightarrow> peer_view list \<Rightarrow> u64 \<Rightarrow> store \<Rightarrow> store \<times> bool" where
  "pull_ahead pull iroh views tip_height s =
     (let ahead = filter (\<lambda>v. vw_height v > tip_height) views
      in pull_each pull iroh tip_height (take 3 (filter vw_iroh ahead @ filter (\<lambda>v. \<not> vw_iroh v) ahead)) s)"

text \<open>One turn of the loop: what happened to the store since the last turn, the answers, the pulls, and where the
  clock stands at its three readings.\<close>

record turn =
  tn_between :: "store \<Rightarrow> store"
  tn_answers :: "peer_view option list"
  tn_pull :: "peer_view \<Rightarrow> store \<Rightarrow> store \<times> u64 res"
  tn_in_time :: bool
  tn_mid_slot :: bool
  tn_late :: bool

definition turn_views :: "forger_options \<Rightarrow> block \<Rightarrow> turn \<Rightarrow> peer_view list" where
  "turn_views o1 tip t = network_view (\<lambda>vs. enough o1 tip vs (length (tn_answers t))) (tn_answers t) []"

text \<open>\<open>None\<close> is a loop that is still waiting.\<close>

fun wait_for_quorum ::
  "crypto \<Rightarrow> network \<Rightarrow> forger_options \<Rightarrow> turn list \<Rightarrow> u64 \<Rightarrow> u64 \<Rightarrow> store \<Rightarrow> store \<times> (string + block) option" where
  "wait_for_quorum E n o1 [] pulled failed s = (s, None)"
| "wait_for_quorum E n o1 (t # ts) pulled failed s0 =
     (let s = tn_between t s0 in
      case ok_flatten (get_last_block E n s) of
        None \<Rightarrow> (s, Some (Inl ''empty database''))
      | Some tip \<Rightarrow>
          (let views = turn_views o1 tip t;
               max_h = fold max (map vw_height views) 0;
               same = same_tip tip views;
               needed = peers_needed o1 (length views)
           in if views = [] then
                (s, Some (if fo_quorum_share o1 \<le> 0 then Inr tip else Inl ''no legacy peer answered getStatus''))
              else if max_h \<le> b_height tip \<and> same \<ge> needed then (s, Some (Inr tip))
              else
                (let ask = max_h > b_height tip \<and> max_h - b_height tip \<le> 3 \<and> pulled \<noteq> max_h \<and> tn_in_time t;
                     (s, moved) = (if ask then pull_ahead (tn_pull t) (fo_iroh o1) views (b_height tip) s else (s, False));
                     pulled = (if ask then max_h else pulled);
                     failed = (if ask \<and> \<not> moved then max_h else failed)
                 in if moved then wait_for_quorum E n o1 ts pulled failed s
                    else if fo_forge_over_minority o1 \<and> max_h > b_height tip \<and> failed = max_h \<and> tn_mid_slot t
                      \<and> minority_rule (peers_ahead tip views) same (length views) needed
                    then (s, Some (Inr tip))
                    else if tn_late t then (s, Some (Inl ''no quorum''))
                    else wait_for_quorum E n o1 ts pulled failed s)))"

definition quorum_wait :: "crypto \<Rightarrow> network \<Rightarrow> forger_options \<Rightarrow> turn list \<Rightarrow> store \<Rightarrow> store \<times> (string + block)" where
  "quorum_wait E n o1 ts s =
     (case wait_for_quorum E n o1 ts 0 0 s of (s, Some r) \<Rightarrow> (s, r) | (s, None) \<Rightarrow> (s, Inl ''still waiting''))"

section \<open>One tick\<close>

record slot_info =
  si_slot :: u64
  si_delegate :: string
  si_starts_at_unix :: int

record forged_info =
  fi_height :: u64
  fi_id :: string
  fi_transactions :: nat
  fi_at_unix :: int
  fi_accepted_by :: nat

record skipped_slot =
  ss_slot :: u64
  ss_delegate :: string
  ss_reason :: string
  ss_at_unix :: int

record forging_status =
  st_next_slot :: "slot_info option"
  st_last_forged :: "forged_info option"
  st_skipped :: "skipped_slot list"
  st_forged_count :: u64

text \<open>The post-quantum keys of the configuration, each with its public key and its signing function.\<close>

type_synonym pq_signer = "string \<times> (bytes \<Rightarrow> bytes \<Rightarrow> bytes res)"

record forger =
  fr_keys :: "forger_keys list"
  fr_pq_keys :: "pq_signer list"
  fr_opts :: forger_options
  fr_pool_config :: pool_config
  fr_last_slot :: u64
  fr_announced_slot :: u64
  fr_status :: forging_status
  fr_guard :: "guard option"
  fr_intake :: intake
  fr_pool :: mempool
  fr_store :: store

definition delegate_name :: "store \<Rightarrow> string \<Rightarrow> string" where
  "delegate_name s pk = unwrap_or ''<unregistered>'' (Option.bind (find_wallet s pk) w_username)"

definition pq_key_for :: "forger \<Rightarrow> store \<Rightarrow> string \<Rightarrow> (bytes \<Rightarrow> bytes \<Rightarrow> bytes res) option" where
  "pq_key_for f s pk =
     (case Option.bind (find_wallet s pk) w_pq_key of None \<Rightarrow> None
      | Some k \<Rightarrow> map_option snd (List.find (\<lambda>kp. fst kp = pk_public_key k) (fr_pq_keys f)))"

definition record_skip :: "u64 \<Rightarrow> string \<Rightarrow> string \<Rightarrow> int \<Rightarrow> forger \<Rightarrow> forger" where
  "record_skip slot delegate reason now_unix f =
     f\<lparr>fr_status := (fr_status f)\<lparr>st_skipped :=
        (if length (st_skipped (fr_status f)) \<ge> 20 then tl (st_skipped (fr_status f)) else st_skipped (fr_status f))
        @ [\<lparr>ss_slot = slot, ss_delegate = delegate, ss_reason = reason, ss_at_unix = now_unix\<rparr>]\<rparr>\<rparr>"

definition index_order :: "delegate_rank list \<Rightarrow> u64 \<Rightarrow> u64 \<Rightarrow> string res" where
  "index_order order slot d =
     (if d = 0 then Inl (Panic ''division by zero'')
      else if unat (slot mod d) < length order then Inr (dr_public_key (order ! unat (slot mod d)))
      else Inl (Panic ''index out of bounds''))"

definition own_key :: "forger \<Rightarrow> string \<Rightarrow> forger_keys option" where
  "own_key f pk = List.find (\<lambda>k. fk_public_key_hex k = pk) (fr_keys f)"

definition announce :: "network \<Rightarrow> u64 \<Rightarrow> u32 \<Rightarrow> string \<Rightarrow> forger \<Rightarrow> forger" where
  "announce n slot blocktime next_pk f =
     (if fr_announced_slot f \<noteq> slot + 1 \<and> own_key f next_pk \<noteq> None
      then f\<lparr>fr_status := (fr_status f)\<lparr>st_next_slot := Some \<lparr>si_slot = slot + 1, si_delegate = delegate_name (fr_store f) next_pk,
               si_starts_at_unix = epoch_to_unix n (slot_start (slot + 1) blocktime)\<rparr>\<rparr>,
             fr_announced_slot := slot + 1\<rparr>
      else f)"

text \<open>A block was forged and applied: the statistics, the guard, the pool (on its own clock) and the status.\<close>

definition after_forging :: "crypto \<Rightarrow> network \<Rightarrow> int \<Rightarrow> nat \<Rightarrow> string \<Rightarrow> block \<Rightarrow> forger \<Rightarrow> forger" where
  "after_forging E n now_ms clk name b f =
     f\<lparr>fr_intake := record_block n now_ms source.Forged name (b_height b) (b_timestamp b) (b_generator_public_key b) (fr_intake f),
       fr_guard := guard_own_forged (unwrap_or [] (b_id b)) (fr_guard f),
       fr_pool := fst (prune_confirmed E n (fr_pool_config f) (fr_store f) clk (fr_pool f)),
       fr_status := (fr_status f)\<lparr>st_forged_count := st_forged_count (fr_status f) + 1,
          st_last_forged := Some \<lparr>fi_height = b_height b, fi_id = unwrap_or [] (b_id b),
            fi_transactions = length (b_transactions b), fi_at_unix = now_ms div 1000, fi_accepted_by = 0\<rparr>\<rparr>\<rparr>"

text \<open>The slot of one of our delegates: the guard, the peers, the version of the block, the block. The height
  the tick started with decides the versions and the transactions, the tip the wait returned the parent.\<close>

definition use_slot ::
  "crypto \<Rightarrow> network \<Rightarrow> turn list \<Rightarrow> u32 \<Rightarrow> int \<Rightarrow> nat \<Rightarrow> u64 \<Rightarrow> u32 \<Rightarrow> u64 \<Rightarrow> u64 \<Rightarrow> forger_keys \<Rightarrow> forger \<Rightarrow> forger \<times> unit res" where
  "use_slot E n ts now now_ms clk slot blocktime next_height d keys f =
     (let expected = fk_public_key_hex keys; name = delegate_name (fr_store f) expected; skip = (\<lambda>r. record_skip slot name r (now_ms div 1000)) in
      case yield_reason expected next_height d (fr_guard f) of
        (Some _, g) \<Rightarrow> (skip ''double-forge-guard'' (f\<lparr>fr_guard := g\<rparr>), Inr ())
      | (None, g) \<Rightarrow>
          (let f = f\<lparr>fr_guard := g\<rparr> in
           case quorum_wait E n (fr_opts f) ts (fr_store f) of
             (s, Inl reason) \<Rightarrow> (skip reason (f\<lparr>fr_store := s\<rparr>), Inr ())
           | (s, Inr tip) \<Rightarrow>
               (let f = f\<lparr>fr_store := s\<rparr> in
                case slot_number (b_timestamp tip) blocktime of
                  Inl e \<Rightarrow> (f, Inl e)
                | Inr tip_slot \<Rightarrow>
                    if tip_slot \<ge> slot then (skip ''a block for this slot already exists'' f, Inr ())
                    else
                      (let (v1_ok, v0_ok) = block_versions_allowed n next_height;
                           pq = (if v1_ok then pq_key_for f s expected else None)
                       in if v1_ok \<and> pq = None \<and> \<not> v0_ok then (skip ''BlockPqKeyMissingError'' f, Inr ())
                          else
                            (case forge_slot E n (keys\<lparr>fk_pq_sign := pq\<rparr>) now now_ms slot blocktime next_height tip (fr_pool f) s of
                               (s, Inl e) \<Rightarrow> (f\<lparr>fr_store := s\<rparr>, Inl e)
                             | (s, Inr b) \<Rightarrow>
                                 (after_forging E n now_ms clk name b (f\<lparr>fr_store := s\<rparr>),
                                  rbind (serialize_block_with_transactions E b n) (\<lambda>_. Inr ())))))))"

definition tick :: "crypto \<Rightarrow> network \<Rightarrow> turn list \<Rightarrow> u32 \<Rightarrow> int \<Rightarrow> nat \<Rightarrow> forger \<Rightarrow> forger \<times> unit res" where
  "tick E n ts now now_ms clk f =
     (case get_last_block E n (fr_store f) of
        Inl e \<Rightarrow> (f, Inl e)
      | Inr None \<Rightarrow> (f, Inr ())
      | Inr (Some tip) \<Rightarrow>
          (let m = milestone_at n (b_height tip + 1);
               blocktime = ms_blocktime m;
               d = ucast (ms_active_delegates m);
               next_height = b_height tip + 1
           in case rbind (slot_number now blocktime) (\<lambda>slot. rbind (round_info next_height d) (\<lambda>info. Inr (slot, info))) of
                Inl e \<Rightarrow> (f, Inl e)
              | Inr (slot, info) \<Rightarrow>
                  (case forging_order E (fr_store f) (ri_round info) of
                     None \<Rightarrow> (f\<lparr>fr_last_slot := slot\<rparr>, Inr ())
                   | Some [] \<Rightarrow> (f, Inr ())
                   | Some (o1 # os) \<Rightarrow>
                       (case index_order (o1 # os) (slot + 1) d of
                          Inl e \<Rightarrow> (f, Inl e)
                        | Inr next_pk \<Rightarrow>
                            (let f = announce n slot blocktime next_pk f in
                             case slot_number (b_timestamp tip) blocktime of
                               Inl e \<Rightarrow> (f, Inl e)
                             | Inr tip_slot \<Rightarrow>
                                 if slot = fr_last_slot f \<or> tip_slot \<ge> slot then (f, Inr ())
                                 else
                                   (case index_order (o1 # os) slot d of
                                      Inl e \<Rightarrow> (f, Inl e)
                                    | Inr expected \<Rightarrow>
                                        (case own_key f expected of
                                           None \<Rightarrow> (f, Inr ())
                                         | Some keys \<Rightarrow>
                                             use_slot E n ts now now_ms clk slot blocktime next_height d keys
                                               (f\<lparr>fr_last_slot := slot\<rparr>))))))))"

end
