(* ===== verification/ForgerProps.thy ===== *)
theory ForgerProps
  imports Forger Rollback
begin

text \<open>
  When the forger uses a slot: only on a tip a quorum of the answering peers confirms and fewer than a third
  of them have passed, and never while the guard holds a fresh block another node signed with the key.
\<close>

section \<open>The quorum\<close>

definition confirmed :: "forger_options \<Rightarrow> block \<Rightarrow> turn \<Rightarrow> bool" where
  "confirmed o1 tip t \<longleftrightarrow>
     (let views = turn_views o1 tip t in
      if views = [] then fo_quorum_share o1 \<le> 0
      else peers_needed o1 (length views) \<le> same_tip tip views \<and> peers_ahead tip views * 3 < length views)"

lemma fold_max_le: "fold max xs (a :: 'a :: linorder) \<le> b \<longleftrightarrow> a \<le> b \<and> (\<forall>x \<in> set xs. x \<le> b)"
  by (induction xs arbitrary: a) (auto simp: max_def)

lemma nobody_ahead:
  assumes "fold max (map vw_height views) 0 \<le> b_height tip"
  shows "peers_ahead tip views = 0"
  using assms by (auto simp: fold_max_le peers_ahead_def not_less filter_empty_conv)

text \<open>One turn that gives the tip, and one that goes on.\<close>

lemma turn_cases:
  assumes "wait_for_quorum E n o1 (t # ts) pulled failed s = (s', Some (Inr tip))"
  obtains (here) "ok_flatten (get_last_block E n (tn_between t s)) = Some tip" "confirmed o1 tip t"
  | (on) pulled' failed' s1 where "wait_for_quorum E n o1 ts pulled' failed' s1 = (s', Some (Inr tip))"
proof (cases "ok_flatten (get_last_block E n (tn_between t s))")
  case None
  then show ?thesis using assms by simp
next
  case (Some tip1)
  have "tip1 = tip \<and> confirmed o1 tip t \<or> (\<exists>p f s1. wait_for_quorum E n o1 ts p f s1 = (s', Some (Inr tip)))"
    using assms Some nobody_ahead [of "turn_views o1 tip1 t" tip1]
    by (auto simp: Let_def confirmed_def minority_rule_def split: if_splits prod.splits)
  then show ?thesis using Some here on by blast
qed

lemma waited_tip_confirmed:
  assumes "wait_for_quorum E n o1 ts pulled failed s = (s', Some (Inr tip))"
  shows "\<exists>t \<in> set ts. confirmed o1 tip t"
  using assms
proof (induction ts arbitrary: pulled failed s)
  case (Cons t ts)
  from Cons.prems show ?case by (cases rule: turn_cases) (use Cons.IH in auto)
qed simp

text \<open>C29. A slot is used only with a quorum: whatever the peers answer, whichever blocks arrive meanwhile and
  however the pulls end, the wait gives a tip to build on only if in one of its turns the peers that
  answered confirm exactly that tip in the configured share (and at least the configured number), and
  fewer than a third of them report a higher one; without any answer only on a network that asks for
  no quorum.\<close>

theorem forges_only_with_quorum:
  assumes "quorum_wait E n o1 ts s = (s', Inr tip)"
  shows "\<exists>t \<in> set ts. confirmed o1 tip t"
  using assms waited_tip_confirmed [of E n o1 ts 0 0 s s' tip]
  by (auto simp: quorum_wait_def split: prod.splits option.splits)

text \<open>Three peers on the tip of a store with one block.\<close>

definition half_quorum :: forger_options where
  "half_quorum = \<lparr>fo_quorum_share = 1 / 2, fo_min_quorum_peers = 3, fo_forge_over_minority = True, fo_iroh = False\<rparr>"

definition agreeing :: "string \<Rightarrow> turn" where
  "agreeing i = \<lparr>tn_between = (\<lambda>s. s), tn_answers = replicate 3 (Some \<lparr>vw_ip = ''10.0.0.1'', vw_height = 2, vw_id = i, vw_iroh = False\<rparr>),
     tn_pull = (\<lambda>_ s. (s, Inr 0)), tn_in_time = True, tn_mid_slot = False, tn_late = False\<rparr>"

lemma half_needs: "peers_needed half_quorum 3 = 3"
proof -
  have "\<lceil>of_nat 3 * min (max (1 / 2) 0) 1 :: rat\<rceil> = 2" by code_simp
  then show ?thesis by (simp add: peers_needed_def half_quorum_def)
qed

lemma agreeing_views:
  assumes "b_height tip = 2" "b_id tip = Some i"
  shows "length (turn_views half_quorum tip (agreeing i)) = 3" "same_tip tip (turn_views half_quorum tip (agreeing i)) = 3"
    "fold max (map vw_height (turn_views half_quorum tip (agreeing i))) 0 = 2"
  using assms half_needs by (simp_all add: turn_views_def agreeing_def enough_def same_tip_def numeral_3_eq_3)

theorem forges_only_with_quorum_witness:
  "\<exists>s tip i. quorum_wait ref_crypto ref_network half_quorum [agreeing i] s = (s, Inr tip)
     \<and> b_height tip = 2 \<and> (\<exists>t \<in> set [agreeing i]. confirmed half_quorum tip t)"
proof -
  obtain s where s: "apply_block ref_crypto ref_network chain_block tip_store = (s, Inr ())" using chain_block_applies by blast
  obtain i where i: "b_id chain_block = Some i" "block_id ref_crypto chain_block = Inr i" using chain_block_id by blast
  have t: "0 < get_last_height tip_store" "store_wf tip_store" "no_final tip_store (b_height chain_block)"
    by (simp_all add: tip_store_def store_empty_def get_last_height_def store_wf_def index_wf_def no_final_def
        latest_finality_cert_def)
  obtain tip where tip: "get_last_block ref_crypto ref_network s = Inr (Some tip)" "b_id tip = Some i" "b_height tip = 2"
    by (rule applied_block_left [OF s chain_block_canonical i _ t(1) _ t(2,3)])
       (auto simp: get_last_block_def Let_def)
  note v = agreeing_views [OF tip(3,2)]
  then have "turn_views half_quorum tip (agreeing i) \<noteq> []" by auto
  then have "quorum_wait ref_crypto ref_network half_quorum [agreeing i] s = (s, Inr tip)"
    using v half_needs tip by (simp add: quorum_wait_def ok_flatten_def Let_def) (simp add: agreeing_def)
  with forges_only_with_quorum [OF this] tip(3) show ?thesis by blast
qed

section \<open>The guard\<close>

text \<open>C30. A key that is active elsewhere does not forge here: once a fresh block signed by one of our keys has come
  from the network, and the guard neither forged it nor knew it, every slot of that key is given up as
  long as the next height is inside the window, through any further 49 events of the guard: the tick
  ends without a block, and neither the store nor the count of forged blocks changes.\<close>

theorem foreign_block_silences_key:
  assumes mode: "gc_enabled (gd_cfg g)" "gc_mode (gd_cfg g) = Yield"
    and b: "src \<noteq> source.Forged" "b_generator_public_key b \<in> set (gd_own_keys g)" "is_fresh n0 now0 g b"
      "unwrap_or [] (b_id b) \<notin> set (gd_own_forged g)" "unwrap_or [] (b_id b) \<notin> fb_id ` set (gd_foreign g)"
    and later: "length sts < KEEP"
      "fr_guard f = Some (fold guard_step sts (on_accepted n0 s0 now0 unix0 src peer b g))"
    and slot: "fk_public_key_hex keys = b_generator_public_key b" "window_start g next_height d \<le> b_height b"
  shows "\<exists>f'. use_slot E n ts now now_ms clk slot blocktime next_height d keys f = (f', Inr ()) \<and> fr_store f' = fr_store f
     \<and> st_forged_count (fr_status f') = st_forged_count (fr_status f)"
proof -
  define fb where "fb = \<lparr>fb_height = b_height b, fb_id = unwrap_or [] (b_id b), fb_generator = b_generator_public_key b,
    fb_username = guard_name_of s0 (b_generator_public_key b), fb_peer = peer, fb_source = src, fb_at_unix = unix0\<rparr>"
  define g1 where "g1 = on_accepted n0 s0 now0 unix0 src peer b g"
  have g1: "gd_foreign g1 = push_bounded KEEP fb (gd_foreign g)" "gd_cfg g1 = gd_cfg g"
    using b by (simp_all add: g1_def on_accepted_def Let_def fb_def)
  have "held 0 fb (gd_foreign g1)" unfolding g1(1) by (rule held_new)
  then have run: "held (length sts) fb (gd_foreign (fold guard_step sts g1))" "gd_cfg (fold guard_step sts g1) = gd_cfg g"
    using guard_run_holds [of 0 fb g1 sts] later(1) g1(2) by simp_all
  have "fst (yield_reason (fk_public_key_hex keys) next_height d (Some (fold guard_step sts g1))) \<noteq> None"
    by (rule held_yields [OF run(1)]) (use mode run(2) slot in \<open>simp_all add: fb_def window_start_def\<close>)
  then obtain fb' g' where "yield_reason (fk_public_key_hex keys) next_height d (fr_guard f) = (Some fb', g')"
    unfolding later(2) g1_def [symmetric] by (metis option.exhaust prod.collapse)
  then show ?thesis by (simp add: use_slot_def record_skip_def Let_def)
qed

text \<open>The block of a delegate's own key arrives by gossip at height 2, and its slot at height 3 is given up.\<close>

definition guard_ref :: guard where
  "guard_ref = guard_new \<lparr>gc_enabled = True, gc_mode = Yield, gc_rounds = 2\<rparr> [ref_key]"

definition forger_case :: "guard \<Rightarrow> forger" where
  "forger_case g = \<lparr>fr_keys = [forger_ref], fr_pq_keys = [], fr_opts = half_quorum, fr_pool_config = case_config 5,
     fr_last_slot = 0, fr_announced_slot = 0,
     fr_status = \<lparr>st_next_slot = None, st_last_forged = None, st_skipped = [], st_forged_count = 0\<rparr>,
     fr_guard = Some g,
     fr_intake = \<lparr>in_last = None, in_delays = [], in_origins = [], in_earliest = None, in_future_rejected = 0,
       in_last_future = None, in_last_future_id = None\<rparr>,
     fr_pool = empty_pool, fr_store = tip_store\<rparr>"

theorem foreign_block_silences_key_witness:
  "\<exists>f'. use_slot accept_crypto ref_network [] 88 0 0 11 8 3 21 forger_ref
       (forger_case (on_accepted ref_network tip_store 80 0 GossipIroh ''peer'' chain_block guard_ref)) = (f', Inr ())
     \<and> fr_store f' = tip_store \<and> st_forged_count (fr_status f') = 0"
proof -
  let ?g = "on_accepted ref_network tip_store 80 0 GossipIroh ''peer'' chain_block guard_ref"
  have fresh: "is_fresh ref_network 80 guard_ref chain_block"
    by (simp add: is_fresh_def ref_milestone Let_def guard_ref_def guard_new_def milestone_default_def chain_block_def
        chain_header_def ref_block_def)
  have "\<exists>f'. use_slot accept_crypto ref_network [] 88 0 0 11 8 3 21 forger_ref (forger_case ?g) = (f', Inr ())
      \<and> fr_store f' = fr_store (forger_case ?g) \<and> st_forged_count (fr_status f') = st_forged_count (fr_status (forger_case ?g))"
    by (rule foreign_block_silences_key [where sts = "[]", OF _ _ _ _ fresh])
       (simp_all add: guard_ref_def guard_new_def KEEP_def forger_case_def forger_ref_def window_start_def saturating_sub_def)
  then show ?thesis by (simp add: forger_case_def)
qed

end
