(* ===== verification/NodePool.thy ===== *)
theory NodePool
  imports Text
begin

text \<open>
  The pool of REST nodes blocks are downloaded from, \<open>src/src/node_pool.rs\<close>: every node has a request budget,
  a minimal spacing and a sliding window, and is parked after refusals and failures. Instants and durations
  are natural numbers of nanoseconds; \<open>acquire\<close> is one turn of the source's loop, which gives a lease or
  the time to sleep before the next turn.
\<close>

section \<open>State\<close>

record rate_limit_config =
  rl_per_node_rps :: u32
  rl_window_limit :: nat
  rl_window :: nat
  rl_ban_on_429 :: nat
  rl_max_failures :: u32
  rl_ban_on_failures :: nat

definition rate_limit_default :: rate_limit_config where
  "rate_limit_default = \<lparr>rl_per_node_rps = 4, rl_window_limit = 250, rl_window = 60 * 10 ^ 9, rl_ban_on_429 = 60 * 10 ^ 9,
     rl_max_failures = 5, rl_ban_on_failures = 30 * 10 ^ 9\<rparr>"

record node_state =
  nd_url :: string
  nd_host :: string
  nd_window :: "nat list"
  nd_next_slot :: nat
  nd_parked_until :: "nat option"
  nd_failures :: u32

record node_pool =
  np_cfg :: rate_limit_config
  np_nodes :: "node_state list"
  np_last_used :: nat

record lease =
  le_index :: nat
  le_url :: string
  le_host :: string
  le_slot :: nat

record pool_status =
  po_host :: string
  po_requests_in_window :: nat
  po_parked_nodes :: nat

section \<open>Operations\<close>

function trim_start_matches :: "string \<Rightarrow> string \<Rightarrow> string" where
  "trim_start_matches p s = (if p \<noteq> [] \<and> take (length p) s = p then trim_start_matches p (drop (length p) s) else s)"
  by auto

termination
proof (relation "measure (\<lambda>(p, s). length s)")
  fix p s :: string
  assume "p \<noteq> [] \<and> take (length p) s = p"
  then have "s \<noteq> []" "0 < length p" by auto
  then show "((p, drop (length p) s), p, s) \<in> measure (\<lambda>(p, s). length s)" by simp
qed simp

definition trim_slashes :: "string \<Rightarrow> string" where
  "trim_slashes s = rev (dropWhile (\<lambda>c. c = CHR ''/'') (rev s))"

definition host_of :: "string \<Rightarrow> string" where
  "host_of url = takeWhile (\<lambda>c. c \<noteq> CHR ''/'')
     (trim_slashes (trim_start_matches ''http://'' (trim_start_matches ''https://'' url)))"

definition node_new :: "nat \<Rightarrow> string \<Rightarrow> node_state" where
  "node_new now u = \<lparr>nd_url = trim_slashes u, nd_host = host_of u, nd_window = [], nd_next_slot = now,
     nd_parked_until = None, nd_failures = 0\<rparr>"

definition pool_new :: "nat \<Rightarrow> string list \<Rightarrow> rate_limit_config \<Rightarrow> node_pool" where
  "pool_new now urls cfg = \<lparr>np_cfg = cfg, np_nodes = map (node_new now) urls, np_last_used = 0\<rparr>"

definition prune :: "nat \<Rightarrow> nat \<Rightarrow> node_state \<Rightarrow> node_state" where
  "prune now window nd = nd\<lparr>nd_window := dropWhile (\<lambda>t. now - t \<ge> window) (nd_window nd)\<rparr>"

definition parked :: "nat \<Rightarrow> node_state \<Rightarrow> bool" where
  "parked now nd = (case nd_parked_until nd of None \<Rightarrow> False | Some t \<Rightarrow> t > now)"

definition spacing :: "rate_limit_config \<Rightarrow> nat" where
  "spacing cfg = (1000 div max (unat (rl_per_node_rps cfg)) 1) * 10 ^ 6"

definition eligible :: "rate_limit_config \<Rightarrow> nat \<Rightarrow> node_state \<Rightarrow> bool" where
  "eligible cfg now nd \<longleftrightarrow> \<not> parked now nd \<and> length (nd_window nd) < rl_window_limit cfg"

definition best_node :: "rate_limit_config \<Rightarrow> nat \<Rightarrow> node_state list \<Rightarrow> (nat \<times> nat) option" where
  "best_node cfg now nodes =
     fold (\<lambda>(i, nd) best.
         if \<not> eligible cfg now nd then best
         else (let slot = max (nd_next_slot nd) now in
               case best of None \<Rightarrow> Some (i, slot) | Some (_, s) \<Rightarrow> if slot < s then Some (i, slot) else best))
       (enumerate 0 nodes) None"

definition release_times :: "rate_limit_config \<Rightarrow> node_state \<Rightarrow> nat list" where
  "release_times cfg nd =
     (case nd_parked_until nd of None \<Rightarrow> [] | Some p \<Rightarrow> [p])
     @ (if length (nd_window nd) \<ge> rl_window_limit cfg
        then (case nd_window nd of [] \<Rightarrow> [] | f # _ \<Rightarrow> [f + rl_window cfg]) else [])"

definition sleep_time :: "rate_limit_config \<Rightarrow> nat \<Rightarrow> node_state list \<Rightarrow> nat" where
  "sleep_time cfg now nodes =
     (let times = concat (map (release_times cfg) nodes)
      in max (if times = [] then 10 ^ 9 else Min (set times) - now) (50 * 10 ^ 6))"

definition acquire :: "nat \<Rightarrow> node_pool \<Rightarrow> node_pool \<times> (nat + lease)" where
  "acquire now p =
     (let cfg = np_cfg p;
          nodes = map (prune now (rl_window cfg)) (np_nodes p)
      in case best_node cfg now nodes of
           Some (i, slot) \<Rightarrow>
             (let nd = nodes ! i in
              (p\<lparr>np_nodes := nodes[i := nd\<lparr>nd_next_slot := slot + spacing cfg, nd_window := nd_window nd @ [slot]\<rparr>], np_last_used := i\<rparr>,
               Inr \<lparr>le_index = i, le_url = nd_url nd, le_host = nd_host nd, le_slot = slot\<rparr>))
         | None \<Rightarrow> (p\<lparr>np_nodes := nodes\<rparr>, Inl (sleep_time cfg now nodes)))"

definition change_node :: "nat \<Rightarrow> (node_state \<Rightarrow> node_state) \<Rightarrow> node_pool \<Rightarrow> node_pool" where
  "change_node i f p = (if i < length (np_nodes p) then p\<lparr>np_nodes := (np_nodes p)[i := f (np_nodes p ! i)]\<rparr> else p)"

definition report_success :: "lease \<Rightarrow> node_pool \<Rightarrow> node_pool" where
  "report_success l = change_node (le_index l) (\<lambda>nd. nd\<lparr>nd_failures := 0\<rparr>)"

definition next_free_host :: "nat \<Rightarrow> nat \<Rightarrow> node_pool \<Rightarrow> string option" where
  "next_free_host now after p =
     (let nodes = np_nodes p
      in map_option nd_host (List.find (\<lambda>nd. \<not> parked now nd)
           (map (\<lambda>k. nodes ! ((after + k) mod length nodes)) [1..<length nodes + 1])))"

definition report_rate_limited :: "nat \<Rightarrow> lease \<Rightarrow> node_pool \<Rightarrow> node_pool \<times> string option" where
  "report_rate_limited now l p =
     (let p = change_node (le_index l) (\<lambda>nd. nd\<lparr>nd_parked_until := Some (now + rl_ban_on_429 (np_cfg p)), nd_failures := 0\<rparr>) p
      in (p, next_free_host now (le_index l) p))"

definition report_failure :: "nat \<Rightarrow> lease \<Rightarrow> node_pool \<Rightarrow> node_pool \<times> u32 \<times> string option" where
  "report_failure now l p =
     (let i = le_index l; cfg = np_cfg p in
      if \<not> i < length (np_nodes p) then (p, 0, None)
      else
        (let failures = nd_failures (np_nodes p ! i) + 1 in
         if failures \<ge> rl_max_failures cfg
         then (let p = change_node i (\<lambda>nd. nd\<lparr>nd_parked_until := Some (now + rl_ban_on_failures cfg), nd_failures := 0\<rparr>) p
               in (p, rl_max_failures cfg, next_free_host now i p))
         else (change_node i (\<lambda>nd. nd\<lparr>nd_failures := failures\<rparr>) p, failures, None)))"

definition pool_status_of :: "nat \<Rightarrow> node_pool \<Rightarrow> node_pool \<times> pool_status" where
  "pool_status_of now p =
     (let nodes = map (prune now (rl_window (np_cfg p))) (np_nodes p); held = length (filter (parked now) nodes)
      in (p\<lparr>np_nodes := nodes\<rparr>,
          if np_last_used p < length nodes
          then \<lparr>po_host = nd_host (nodes ! np_last_used p), po_requests_in_window = length (nd_window (nodes ! np_last_used p)),
                po_parked_nodes = held\<rparr>
          else \<lparr>po_host = ''-'', po_requests_in_window = 0, po_parked_nodes = held\<rparr>))"

section \<open>The budget of a node\<close>

text \<open>A run of the pool: its operations with the instants they happen at, and the leases it gives.\<close>

datatype pool_op = Acquire | Succeeded lease | RateLimited lease | Failed lease | Asked

fun pool_step :: "nat \<Rightarrow> pool_op \<Rightarrow> node_pool \<Rightarrow> node_pool \<times> lease list" where
  "pool_step now Acquire p = (case acquire now p of (p, Inl _) \<Rightarrow> (p, []) | (p, Inr l) \<Rightarrow> (p, [l]))"
| "pool_step now (Succeeded l) p = (report_success l p, [])"
| "pool_step now (RateLimited l) p = (fst (report_rate_limited now l p), [])"
| "pool_step now (Failed l) p = (fst (report_failure now l p), [])"
| "pool_step now Asked p = (fst (pool_status_of now p), [])"

fun pool_run :: "(nat \<times> pool_op) list \<Rightarrow> node_pool \<Rightarrow> lease list \<Rightarrow> node_pool \<times> lease list" where
  "pool_run [] p ls = (p, ls)"
| "pool_run ((now, st) # sts) p ls = (case pool_step now st p of (p, new) \<Rightarrow> pool_run sts p (ls @ new))"

definition granted :: "nat \<Rightarrow> lease list \<Rightarrow> nat list" where
  "granted i ls = map le_slot (filter (\<lambda>l. le_index l = i) ls)"

definition in_window :: "nat \<Rightarrow> nat \<Rightarrow> nat list \<Rightarrow> nat" where
  "in_window w t slots = length (filter (\<lambda>s. t < s \<and> s \<le> t + w) slots)"

definition within_budget :: "rate_limit_config \<Rightarrow> nat list \<Rightarrow> bool" where
  "within_budget cfg slots \<longleftrightarrow> sorted_wrt (\<lambda>a b. a + spacing cfg \<le> b) slots
     \<and> (\<forall>t. in_window (rl_window cfg) t slots \<le> rl_window_limit cfg)"

text \<open>What a node knows of the slots it was given: the old ones left its window, the rest are in it.\<close>

definition node_inv :: "rate_limit_config \<Rightarrow> nat \<Rightarrow> nat list \<Rightarrow> node_state \<Rightarrow> bool" where
  "node_inv cfg now slots nd \<longleftrightarrow> within_budget cfg slots \<and> (\<forall>t \<in> set slots. t + spacing cfg \<le> nd_next_slot nd)
     \<and> (\<exists>old. slots = old @ nd_window nd \<and> (rl_window cfg = 0 \<or> (\<forall>t \<in> set old. t + rl_window cfg \<le> now)))"

lemma node_inv_cong:
  assumes "nd_window nd' = nd_window nd" "nd_next_slot nd' = nd_next_slot nd"
  shows "node_inv cfg now slots nd' = node_inv cfg now slots nd"
  by (simp add: node_inv_def assms)

lemma node_inv_prune:
  assumes "node_inv cfg now slots nd" and "now \<le> now'"
  shows "node_inv cfg now' slots (prune now' (rl_window cfg) nd)"
proof -
  let ?P = "\<lambda>t. now' - t \<ge> rl_window cfg"
  obtain old where old: "slots = old @ nd_window nd" "rl_window cfg = 0 \<or> (\<forall>t \<in> set old. t + rl_window cfg \<le> now)"
    using assms(1) by (auto simp: node_inv_def)
  have gone: "t + rl_window cfg \<le> now'" if "0 < rl_window cfg" "t \<in> set (takeWhile ?P (nd_window nd))" for t
    using set_takeWhileD [OF that(2)] that(1) by linarith
  have "slots = (old @ takeWhile ?P (nd_window nd)) @ nd_window (prune now' (rl_window cfg) nd)"
    by (simp add: old(1) prune_def)
  moreover have "rl_window cfg = 0 \<or> (\<forall>t \<in> set (old @ takeWhile ?P (nd_window nd)). t + rl_window cfg \<le> now')"
    using old(2) gone assms(2) by force
  moreover have "nd_next_slot (prune now' (rl_window cfg) nd) = nd_next_slot nd" by (simp add: prune_def)
  ultimately show ?thesis using assms(1) unfolding node_inv_def by auto
qed

lemma in_window_append: "in_window w t (xs @ ys) = in_window w t xs + in_window w t ys"
  by (simp add: in_window_def)

lemma node_inv_grant:
  assumes inv: "node_inv cfg now slots nd" and room: "length (nd_window nd) < rl_window_limit cfg"
    and s: "s = max (nd_next_slot nd) now"
  shows "node_inv cfg now (slots @ [s]) (nd\<lparr>nd_next_slot := s + spacing cfg, nd_window := nd_window nd @ [s]\<rparr>)"
proof -
  obtain old where old: "slots = old @ nd_window nd" "rl_window cfg = 0 \<or> (\<forall>t \<in> set old. t + rl_window cfg \<le> now)"
    using inv by (auto simp: node_inv_def)
  have budget: "within_budget cfg slots" and spaced: "\<forall>t \<in> set slots. t + spacing cfg \<le> s"
    using inv s by (auto simp: node_inv_def)
  have "in_window (rl_window cfg) t (slots @ [s]) \<le> rl_window_limit cfg" for t
  proof (cases "t < s \<and> s \<le> t + rl_window cfg")
    case True
    then have "\<forall>x \<in> set old. \<not> (t < x \<and> x \<le> t + rl_window cfg)" using old(2) s by (cases "rl_window cfg = 0") fastforce+
    then have "in_window (rl_window cfg) t old = 0" by (simp add: in_window_def filter_empty_conv)
    moreover have "in_window (rl_window cfg) t (nd_window nd) \<le> length (nd_window nd)" by (simp add: in_window_def)
    moreover have "in_window (rl_window cfg) t [s] \<le> 1" by (simp add: in_window_def)
    ultimately show ?thesis using room by (simp add: old(1) in_window_append)
  next
    case False
    then have "in_window (rl_window cfg) t [s] = 0" by (simp add: in_window_def)
    then show ?thesis using budget by (simp add: in_window_append within_budget_def)
  qed
  then have "within_budget cfg (slots @ [s])" using budget spaced by (auto simp: within_budget_def sorted_wrt_append)
  moreover have "\<forall>t \<in> set (slots @ [s]). t + spacing cfg \<le> s + spacing cfg" using spaced by fastforce
  moreover have "slots @ [s] = old @ (nd_window nd @ [s])" by (simp add: old(1))
  ultimately show ?thesis using old(2) unfolding node_inv_def by auto
qed

lemma best_node_spec:
  assumes "best_node cfg now nodes = Some (i, s)"
  shows "i < length nodes \<and> eligible cfg now (nodes ! i) \<and> s = max (nd_next_slot (nodes ! i)) now"
proof -
  let ?ok = "\<lambda>b. case b of None \<Rightarrow> True
    | Some (i, s) \<Rightarrow> i < length nodes \<and> eligible cfg now (nodes ! i) \<and> s = max (nd_next_slot (nodes ! i)) now"
  let ?f = "\<lambda>(i, nd) best. if \<not> eligible cfg now nd then best
    else (let slot = max (nd_next_slot nd) now in
          case best of None \<Rightarrow> Some (i, slot) | Some (_, s) \<Rightarrow> if slot < s then Some (i, slot) else best)"
  have "?ok (fold ?f xs b)" if "?ok b" "\<forall>(i, nd) \<in> set xs. i < length nodes \<and> nd = nodes ! i" for xs b
    using that
  proof (induction xs arbitrary: b)
    case (Cons x xs)
    obtain j nd where x: "x = (j, nd)" by (cases x)
    have "?ok (?f (j, nd) b)" using Cons.prems by (auto simp: x Let_def split: option.splits if_splits)
    with Cons show ?case by (simp add: x)
  qed simp
  from this [of None "enumerate 0 nodes"] assms show ?thesis
    by (simp add: best_node_def in_set_enumerate_eq case_prod_unfold)
qed

definition pool_inv :: "rate_limit_config \<Rightarrow> nat \<Rightarrow> lease list \<Rightarrow> node_pool \<Rightarrow> bool" where
  "pool_inv cfg now ls p \<longleftrightarrow> np_cfg p = cfg \<and> (\<forall>l \<in> set ls. le_index l < length (np_nodes p))
     \<and> (\<forall>i < length (np_nodes p). node_inv cfg now (granted i ls) (np_nodes p ! i))"

lemma node_inv_later:
  assumes "node_inv cfg now slots nd" and "now \<le> now'"
  shows "node_inv cfg now' slots nd"
proof -
  obtain old where "slots = old @ nd_window nd" "rl_window cfg = 0 \<or> (\<forall>t \<in> set old. t + rl_window cfg \<le> now')"
    using assms by (fastforce simp: node_inv_def)
  with assms(1) show ?thesis unfolding node_inv_def by blast
qed

lemma pool_inv_pruned:
  assumes "pool_inv cfg now ls p" and "now \<le> now'"
  shows "pool_inv cfg now' ls (p\<lparr>np_nodes := map (prune now' (rl_window cfg)) (np_nodes p)\<rparr>)"
  using assms by (auto simp: pool_inv_def intro: node_inv_prune)

lemma pool_inv_change:
  assumes "pool_inv cfg now ls p" and "now \<le> now'"
    and "\<And>nd. nd_window (f nd) = nd_window nd" "\<And>nd. nd_next_slot (f nd) = nd_next_slot nd"
  shows "pool_inv cfg now' ls (change_node i f p)"
  using assms node_inv_later node_inv_cong [OF assms(3,4)]
  by (auto simp: pool_inv_def change_node_def nth_list_update)

lemma acquire_inv:
  assumes inv: "pool_inv cfg now ls p" and "now \<le> now'" and a: "acquire now' p = (p', r)"
  shows "pool_inv cfg now' (ls @ (case r of Inl _ \<Rightarrow> [] | Inr l \<Rightarrow> [l])) p'"
proof -
  define q where "q = p\<lparr>np_nodes := map (prune now' (rl_window cfg)) (np_nodes p)\<rparr>"
  have q: "pool_inv cfg now' ls q" unfolding q_def by (rule pool_inv_pruned [OF assms(1,2)])
  have cfg: "np_cfg p = cfg" using inv by (simp add: pool_inv_def)
  show ?thesis
  proof (cases "best_node cfg now' (np_nodes q)")
    case None
    then show ?thesis using a q by (auto simp: acquire_def Let_def cfg q_def)
  next
    case (Some best)
    obtain i s where pair: "best = (i, s)" by (cases best)
    let ?nd = "np_nodes q ! i"
    note spec = best_node_spec [OF Some [unfolded pair]]
    have p': "p' = q\<lparr>np_nodes := (np_nodes q)[i := ?nd\<lparr>nd_next_slot := s + spacing cfg, nd_window := nd_window ?nd @ [s]\<rparr>], np_last_used := i\<rparr>"
      "r = Inr \<lparr>le_index = i, le_url = nd_url ?nd, le_host = nd_host ?nd, le_slot = s\<rparr>"
      using a Some by (simp_all add: acquire_def Let_def cfg pair q_def)
    have "node_inv cfg now' (granted i ls @ [s]) (?nd\<lparr>nd_next_slot := s + spacing cfg, nd_window := nd_window ?nd @ [s]\<rparr>)"
      using spec q by (intro node_inv_grant) (simp_all add: pool_inv_def eligible_def)
    with q spec show ?thesis by (simp add: p' pool_inv_def granted_def nth_list_update)
  qed
qed

lemma pool_step_inv:
  assumes "pool_inv cfg now ls p" and "now \<le> now'" and "pool_step now' st p = (p', new)"
  shows "pool_inv cfg now' (ls @ new) p'"
proof (cases st)
  case Acquire
  obtain q r where a: "acquire now' p = (q, r)" by (cases "acquire now' p")
  then show ?thesis using acquire_inv [OF assms(1,2) a] assms(3) Acquire by (cases r) auto
next
  case Asked
  have "np_cfg p = cfg" using assms(1) by (simp add: pool_inv_def)
  with Asked pool_inv_pruned [OF assms(1,2)] assms(3) show ?thesis by (auto simp: pool_status_of_def Let_def)
next
  case (Failed l)
  have "pool_inv cfg now' ls p" using assms(1,2) node_inv_later by (auto simp: pool_inv_def)
  with Failed pool_inv_change [OF assms(1,2)] assms(3) show ?thesis
    by (auto simp: report_failure_def Let_def split: if_splits)
qed (use pool_inv_change [OF assms(1,2)] assms(3) in \<open>auto simp: report_success_def report_rate_limited_def Let_def\<close>)

lemma pool_run_inv:
  assumes "pool_inv cfg now ls p" and "sorted (map fst sts)" and "\<forall>st \<in> set sts. now \<le> fst st"
    and "pool_run sts p ls = (p', ls')"
  shows "\<exists>now'. pool_inv cfg now' ls' p'"
  using assms
proof (induction sts arbitrary: now ls p)
  case (Cons st sts)
  obtain t st1 where st: "st = (t, st1)" by (cases st)
  obtain q new where q: "pool_step t st1 p = (q, new)" by (cases "pool_step t st1 p")
  have "pool_inv cfg t (ls @ new) q" using pool_step_inv [OF Cons.prems(1) _ q] Cons.prems(3) by (simp add: st)
  then show ?case by (rule Cons.IH) (use Cons.prems(2,4) q in \<open>auto simp: st\<close>)
qed auto

text \<open>C26. The download pool keeps every node's budget: over any run of requests and reports on a clock that
  does not go back, the slots given to one node are at least the spacing apart, and no stretch of the
  window's length contains more of them than the limit, so the limit of the remote node is not exceeded
  however the requests of the workers interleave.\<close>

theorem node_budget_respected:
  assumes "sorted (map fst sts)" and "\<forall>st \<in> set sts. start \<le> fst st"
    and "pool_run sts (pool_new start urls cfg) [] = (p, ls)"
  shows "within_budget cfg (granted i ls)"
proof -
  have "pool_inv cfg start [] (pool_new start urls cfg)"
    by (auto simp: pool_inv_def pool_new_def granted_def node_inv_def within_budget_def in_window_def node_new_def)
  then obtain now where inv: "pool_inv cfg now ls p" using pool_run_inv assms by blast
  show ?thesis
  proof (cases "i < length (np_nodes p)")
    case True
    with inv show ?thesis by (simp add: pool_inv_def node_inv_def)
  next
    case False
    with inv have "granted i ls = []" by (force simp: pool_inv_def granted_def filter_empty_conv)
    then show ?thesis by (simp add: within_budget_def in_window_def)
  qed
qed

text \<open>Two requests at one instant on a pool with one node: the second waits for the spacing.\<close>

theorem node_budget_respected_witness:
  "granted 0 (snd (pool_run [(5, Acquire), (5, Acquire)] (pool_new 0 [''https://node/''] rate_limit_default) [])) = [5, 250000005]
     \<and> within_budget rate_limit_default [5, 250000005]"
proof -
  obtain p ls where run: "pool_run [(5, Acquire), (5, Acquire)] (pool_new 0 [''https://node/''] rate_limit_default) [] = (p, ls)"
    by (meson surj_pair)
  have g: "granted 0 (snd (pool_run [(5, Acquire), (5, Acquire)] (pool_new 0 [''https://node/''] rate_limit_default) [])) = [5, 250000005]"
    by (simp add: pool_new_def node_new_def acquire_def prune_def best_node_def eligible_def parked_def Let_def spacing_def
        rate_limit_default_def granted_def)
  have "within_budget rate_limit_default (granted 0 ls)"
    by (rule node_budget_respected [OF _ _ run]) simp_all
  with g run show ?thesis by simp
qed

end
