(* ===== verification/PeerTable.thy ===== *)
theory PeerTable
  imports AntiSpam "HOL-Library.Product_Lexorder"
begin

text \<open>
  The two peer tables: \<open>src/src/p2p_legacy/health.rs\<close> (latency, height, failures, bans and block-source parking of
  every legacy peer, and the choice of the best ones) and \<open>src/src/p2p_iroh/peers.rs\<close> (the peers of the iroh
  layer). A \<open>HashMap\<close> is the ordered map of its entries, so the arbitrary order of its iteration is the order
  of the keys. Instants are nanoseconds, latencies the milliseconds \<open>as_millis\<close> gives; the identifier of an
  iroh endpoint is its printed key. A probe, which is network traffic, is an argument of \<open>refresh\<close>.
\<close>

section \<open>Trimming\<close>

text \<open>\<open>str::trim\<close>: the UTF-8 encodings of the characters with the property \<open>White_Space\<close>.\<close>

definition white_space :: "string list" where
  "white_space = map (map (\<lambda>k. char_of (k::nat)))
     ([[9], [10], [11], [12], [13], [32], [194, 133], [194, 160], [225, 154, 128]]
      @ map (\<lambda>k. [226, 128, k]) [128..<139] @ [[226, 128, 168], [226, 128, 169], [226, 128, 175], [226, 129, 159], [227, 128, 128]])"

definition strip_one :: "string list \<Rightarrow> string \<Rightarrow> string option" where
  "strip_one ws s = map_option (\<lambda>w. drop (length w) s) (List.find (\<lambda>w. w \<noteq> [] \<and> take (length w) s = w) ws)"

lemma strip_one_shorter: "strip_one ws s = Some r \<Longrightarrow> length r < length s"
  by (auto simp: strip_one_def find_Some_iff) (metis diff_less length_greater_0_conv take_Nil)

function strip_all :: "string list \<Rightarrow> string \<Rightarrow> string" where
  "strip_all ws s = (case strip_one ws s of None \<Rightarrow> s | Some r \<Rightarrow> strip_all ws r)"
  by auto
termination by (relation "measure (\<lambda>(ws, s). length s)") (auto dest: strip_one_shorter)

definition trim :: "string \<Rightarrow> string" where
  "trim s = rev (strip_all (map rev white_space) (rev (strip_all white_space s)))"

section \<open>Legacy peers\<close>

definition UNKNOWN_LATENCY_MS :: u64 where "UNKNOWN_LATENCY_MS = 2000"
definition BAN_AFTER_FAILURES :: u32 where "BAN_AFTER_FAILURES = 3"
definition BAN_STEP :: nat where "BAN_STEP = secs 30"
definition MAX_BAN :: nat where "MAX_BAN = secs 600"
definition HISTORY_LEN :: nat where "HISTORY_LEN = 20"
definition UNKNOWN_BLOCKS_MS :: u64 where "UNKNOWN_BLOCKS_MS = 1500"
definition BLOCKS_PARK_STEP :: nat where "BLOCKS_PARK_STEP = secs 30"
definition BLOCKS_BUDGET_MS :: u64 where "BLOCKS_BUDGET_MS = 12000"
definition BLOCKS_PROBE_LIMIT :: u32 where "BLOCKS_PROBE_LIMIT = 100"
definition BLOCKS_MIN_LIMIT :: u32 where "BLOCKS_MIN_LIMIT = 50"
definition MAX_BLOCKS_PER_REQUEST :: u32 where "MAX_BLOCKS_PER_REQUEST = 400"

lemmas peer_limits = UNKNOWN_LATENCY_MS_def BAN_AFTER_FAILURES_def BAN_STEP_def MAX_BAN_def HISTORY_LEN_def
  UNKNOWN_BLOCKS_MS_def BLOCKS_PARK_STEP_def BLOCKS_BUDGET_MS_def BLOCKS_PROBE_LIMIT_def BLOCKS_MIN_LIMIT_def
  MAX_BLOCKS_PER_REQUEST_def secs_def

record peer_stats =
  ps_ip :: string
  ps_height :: u64
  ps_latency_ms :: u64
  ps_failures :: u32
  ps_successes :: u64
  ps_total_failures :: u64
  ps_version :: string
  ps_pq :: bool
  ps_accepted_peers :: "string list"
  ps_last_ok :: "nat option"
  ps_banned_until :: "nat option"
  ps_latency_history :: "u64 list"
  ps_blocks_latency_ms :: "u64 option"
  ps_blocks_failures :: u32
  ps_blocks_parked_until :: "nat option"

definition peer_stats_new :: "string \<Rightarrow> peer_stats" where
  "peer_stats_new ip = \<lparr>ps_ip = ip, ps_height = 0, ps_latency_ms = UNKNOWN_LATENCY_MS, ps_failures = 0, ps_successes = 0,
     ps_total_failures = 0, ps_version = [], ps_pq = False, ps_accepted_peers = [], ps_last_ok = None, ps_banned_until = None,
     ps_latency_history = [], ps_blocks_latency_ms = None, ps_blocks_failures = 0, ps_blocks_parked_until = None\<rparr>"

definition peer_is_banned :: "nat \<Rightarrow> peer_stats \<Rightarrow> bool" where
  "peer_is_banned now p = (case ps_banned_until p of None \<Rightarrow> False | Some t \<Rightarrow> t > now)"

definition is_blocks_parked :: "nat \<Rightarrow> peer_stats \<Rightarrow> bool" where
  "is_blocks_parked now p = (case ps_blocks_parked_until p of None \<Rightarrow> False | Some t \<Rightarrow> t > now)"

definition score :: "u64 \<Rightarrow> peer_stats \<Rightarrow> u64" where
  "score best p = ps_latency_ms p + min (saturating_sub best (ps_height p)) 10000 * 50 + ucast (ps_failures p) * 1000"

definition blocks_score :: "u64 \<Rightarrow> peer_stats \<Rightarrow> u64" where
  "blocks_score best p = unwrap_or (ps_latency_ms p + UNKNOWN_BLOCKS_MS) (ps_blocks_latency_ms p)
     + min (saturating_sub best (ps_height p)) 10000 * 50 + ucast (ps_blocks_failures p) * 1000"

definition peer_blocks_limit :: "peer_stats \<Rightarrow> u32" where
  "peer_blocks_limit p = (case ps_blocks_latency_ms p of None \<Rightarrow> BLOCKS_PROBE_LIMIT
     | Some ms \<Rightarrow> max BLOCKS_MIN_LIMIT (min MAX_BLOCKS_PER_REQUEST
         (ucast (ucast MAX_BLOCKS_PER_REQUEST * BLOCKS_BUDGET_MS div max ms 1 :: u64))))"

record peer_table =
  pt_port :: u16
  pt_peers :: "(string, peer_stats) btmap"

definition add_peer :: "string \<Rightarrow> peer_table \<Rightarrow> peer_table \<times> bool" where
  "add_peer ip t =
     (let ip = trim ip in
      if ip = [] then (t, False)
      else if bt_get (pt_peers t) ip \<noteq> None then (t, False)
      else (t\<lparr>pt_peers := bt_put ip (peer_stats_new ip) (pt_peers t)\<rparr>, True))"

fun add_peers :: "string list \<Rightarrow> peer_table \<Rightarrow> peer_table \<times> nat" where
  "add_peers [] t = (t, 0)"
| "add_peers (ip # ips) t =
     (case add_peer ip t of (t, new) \<Rightarrow> (case add_peers ips t of (t, k) \<Rightarrow> (t, (if new then 1 else 0) + k)))"

definition peer_table_new :: "u16 \<Rightarrow> string list \<Rightarrow> peer_table" where
  "peer_table_new port seeds = fst (add_peers seeds \<lparr>pt_port = port, pt_peers = []\<rparr>)"

text \<open>\<open>get_mut\<close> changes a known peer, \<open>entry\<close> makes it known first.\<close>

definition get_peer_mut :: "string \<Rightarrow> (peer_stats \<Rightarrow> peer_stats) \<Rightarrow> peer_table \<Rightarrow> peer_table" where
  "get_peer_mut ip f t = (case bt_get (pt_peers t) ip of None \<Rightarrow> t | Some p \<Rightarrow> t\<lparr>pt_peers := bt_put ip (f p) (pt_peers t)\<rparr>)"

definition peer_entry :: "string \<Rightarrow> (peer_stats \<Rightarrow> peer_stats) \<Rightarrow> peer_table \<Rightarrow> peer_table" where
  "peer_entry ip f t = t\<lparr>pt_peers := bt_entry ip (peer_stats_new ip) f (pt_peers t)\<rparr>"

definition record_success :: "nat \<Rightarrow> string \<Rightarrow> nat \<Rightarrow> u64 option \<Rightarrow> peer_table \<Rightarrow> peer_table" where
  "record_success now ip latency height = peer_entry ip (\<lambda>p.
     let ms = word_of_nat latency; hist = ps_latency_history p in
     p\<lparr>ps_latency_ms := (if ps_successes p = 0 then ms else (ps_latency_ms p * 3 + ms) div 4),
       ps_latency_history := (if length hist = HISTORY_LEN then drop 1 hist else hist) @ [ms],
       ps_height := (case height of None \<Rightarrow> ps_height p | Some h \<Rightarrow> max (ps_height p) h),
       ps_failures := 0, ps_successes := ps_successes p + 1, ps_last_ok := Some now, ps_banned_until := None\<rparr>)"

definition record_failure :: "nat \<Rightarrow> string \<Rightarrow> peer_table \<Rightarrow> peer_table" where
  "record_failure now ip = peer_entry ip (\<lambda>p.
     let p = p\<lparr>ps_failures := ps_failures p + 1, ps_total_failures := ps_total_failures p + 1\<rparr> in
     if ps_failures p \<ge> BAN_AFTER_FAILURES
     then (let steps = ps_failures p - BAN_AFTER_FAILURES + 1; ban = min (BAN_STEP * unat steps) MAX_BAN
           in p\<lparr>ps_banned_until := Some (now + ban)\<rparr>)
     else p)"

definition set_version :: "string \<Rightarrow> string \<Rightarrow> bool \<Rightarrow> peer_table \<Rightarrow> peer_table" where
  "set_version ip version pq = get_peer_mut ip (\<lambda>p. p\<lparr>ps_version := version, ps_pq := pq\<rparr>)"

definition alive_by_kind :: "nat \<Rightarrow> peer_table \<Rightarrow> nat \<times> nat" where
  "alive_by_kind now t =
     fold (\<lambda>p (l, q). if ps_pq p then (l, q + 1) else (l + 1, q))
       (filter (\<lambda>p. ps_successes p > 0 \<and> \<not> peer_is_banned now p) (map snd (pt_peers t))) (0, 0)"

definition peer_is_pq :: "string \<Rightarrow> peer_table \<Rightarrow> bool" where
  "peer_is_pq ip t = (case bt_get (pt_peers t) ip of None \<Rightarrow> False | Some p \<Rightarrow> ps_pq p)"

definition record_blocks_success :: "nat \<Rightarrow> string \<Rightarrow> nat \<Rightarrow> nat \<Rightarrow> u64 option \<Rightarrow> peer_table \<Rightarrow> peer_table" where
  "record_blocks_success now ip latency got reached t =
     get_peer_mut ip (\<lambda>p.
       let per_range = word_of_nat latency * ucast MAX_BLOCKS_PER_REQUEST div word_of_nat (max got 1) in
       p\<lparr>ps_blocks_latency_ms := Some (case ps_blocks_latency_ms p of Some prev \<Rightarrow> (prev * 3 + per_range) div 4 | None \<Rightarrow> per_range),
         ps_blocks_failures := 0, ps_blocks_parked_until := None\<rparr>)
       (record_success now ip latency reached t)"

definition record_blocks_failure :: "nat \<Rightarrow> string \<Rightarrow> peer_table \<Rightarrow> peer_table" where
  "record_blocks_failure now ip t =
     (let t = record_failure now ip t; few = length (pt_peers t) \<le> 2 in
      get_peer_mut ip (\<lambda>p.
        let p = p\<lparr>ps_blocks_failures := ps_blocks_failures p + 1\<rparr>;
            park = min (BLOCKS_PARK_STEP * unat (push_bit (unat (min (ps_blocks_failures p - 1) 5)) 1 :: u32)) MAX_BAN;
            park = (if few then min park (secs 5) else park)
        in p\<lparr>ps_blocks_parked_until := Some (now + park)\<rparr>) t)"

definition blocks_limit :: "string \<Rightarrow> peer_table \<Rightarrow> u32" where
  "blocks_limit ip t = (case bt_get (pt_peers t) ip of None \<Rightarrow> BLOCKS_PROBE_LIMIT | Some p \<Rightarrow> peer_blocks_limit p)"

definition best_height :: "nat \<Rightarrow> peer_table \<Rightarrow> u64" where
  "best_height now t = fold max (map ps_height (filter (\<lambda>p. \<not> peer_is_banned now p) (map snd (pt_peers t)))) 0"

definition best_for_blocks :: "nat \<Rightarrow> nat \<Rightarrow> peer_table \<Rightarrow> string list" where
  "best_for_blocks now k t =
     (let best = best_height now t;
          v = filter (\<lambda>p. \<not> peer_is_banned now p \<and> \<not> is_blocks_parked now p) (map snd (pt_peers t))
      in map ps_ip (take k (sort_key (\<lambda>p. (blocks_score best p, ps_ip p)) v)))"

definition park_blocks_for :: "nat \<Rightarrow> string \<Rightarrow> nat \<Rightarrow> peer_table \<Rightarrow> peer_table" where
  "park_blocks_for now ip d = get_peer_mut ip (\<lambda>p. p\<lparr>ps_blocks_parked_until := Some (now + d)\<rparr>)"

definition unpark_blocks :: "nat \<Rightarrow> peer_table \<Rightarrow> peer_table \<times> nat" where
  "unpark_blocks now t =
     (let hit = \<lambda>p. \<not> peer_is_banned now p \<and> is_blocks_parked now p in
      (t\<lparr>pt_peers := map (\<lambda>(ip, p). (ip, if hit p then p\<lparr>ps_blocks_parked_until := None, ps_blocks_failures := 0\<rparr> else p)) (pt_peers t)\<rparr>,
       length (filter hit (map snd (pt_peers t)))))"

definition peer_snapshot :: "nat \<Rightarrow> peer_table \<Rightarrow> peer_stats list" where
  "peer_snapshot now t = sort_key (\<lambda>p. (peer_is_banned now p, score (best_height now t) p, ps_ip p)) (map snd (pt_peers t))"

definition best_peers :: "nat \<Rightarrow> nat \<Rightarrow> peer_table \<Rightarrow> string list" where
  "best_peers now k t = map ps_ip (take k (filter (\<lambda>p. \<not> peer_is_banned now p) (peer_snapshot now t)))"

definition alive :: "nat \<Rightarrow> peer_table \<Rightarrow> nat" where
  "alive now t = length (filter (\<lambda>p. \<not> peer_is_banned now p \<and> ps_successes p > 0) (map snd (pt_peers t)))"

text \<open>What a probe of a peer answers, and the walk of \<open>refresh\<close> over the answers.\<close>

record probe =
  pr_latency :: nat
  pr_height :: u64
  pr_version :: string
  pr_pq :: bool
  pr_peers :: "string list"
  pr_accepted :: "string list"

definition refresh_one :: "nat \<Rightarrow> string \<times> probe option \<Rightarrow> peer_table \<times> nat \<Rightarrow> peer_table \<times> nat" where
  "refresh_one now r tk =
     (case (r, tk) of
        ((ip, Some p), (t, live)) \<Rightarrow>
          (let t = record_success now ip (pr_latency p) (Some (pr_height p)) t;
               t = set_version ip (pr_version p) (pr_pq p) t;
               t = get_peer_mut ip (\<lambda>st. st\<lparr>ps_accepted_peers := pr_accepted p\<rparr>) t
           in (fst (add_peers (pr_peers p) t), live + 1))
      | ((ip, None), (t, live)) \<Rightarrow> (record_failure now ip t, live))"

definition refresh :: "nat \<Rightarrow> (string \<times> probe option) list \<Rightarrow> peer_table \<Rightarrow> peer_table \<times> nat" where
  "refresh now results t = fold (refresh_one now) results (t, 0)"

text \<open>Which live peers list this node among the peers they accept.\<close>

record acceptance_report =
  ar_asked :: nat
  ar_listed :: nat
  ar_peers :: "(string \<times> u64 \<times> string \<times> bool) list"

definition acceptance_check :: "nat \<Rightarrow> string \<Rightarrow> peer_table \<Rightarrow> acceptance_report" where
  "acceptance_check now me t =
     (let ps = filter (\<lambda>p. ps_successes p > 0 \<and> ps_last_ok p \<noteq> None) (peer_snapshot now t);
          lists = (\<lambda>p. me \<in> set (ps_accepted_peers p))
      in \<lparr>ar_asked = length ps, ar_listed = length (filter lists ps),
          ar_peers = sort_key (\<lambda>(ip, _, _, l). (\<not> l, ip)) (map (\<lambda>p. (ps_ip p, ps_height p, ps_version p, lists p)) ps)\<rparr>)"

section \<open>Iroh peers\<close>

type_synonym endpoint_id = string

record iroh_peer =
  ip_id :: endpoint_id
  ip_height :: u64
  ip_latency_ms :: "u64 option"
  ip_last_seen :: nat
  ip_messages :: u64
  ip_failures :: u64
  ip_neighbor :: bool
  ip_neighbor_topics :: "bool list"
  ip_gateway :: "string option"
  ip_path :: "string option"

type_synonym iroh_peers = "(endpoint_id, iroh_peer) btmap"

definition iroh_entry :: "nat \<Rightarrow> endpoint_id \<Rightarrow> (iroh_peer \<Rightarrow> iroh_peer) \<Rightarrow> iroh_peers \<Rightarrow> iroh_peers" where
  "iroh_entry now i = bt_entry i \<lparr>ip_id = i, ip_height = 0, ip_latency_ms = None, ip_last_seen = now, ip_messages = 0,
     ip_failures = 0, ip_neighbor = False, ip_neighbor_topics = replicate 3 False, ip_gateway = None, ip_path = None\<rparr>"

definition raise_height :: "u64 option \<Rightarrow> iroh_peer \<Rightarrow> iroh_peer" where
  "raise_height height p = (case height of None \<Rightarrow> p | Some h \<Rightarrow> p\<lparr>ip_height := max (ip_height p) h\<rparr>)"

definition seen :: "nat \<Rightarrow> endpoint_id \<Rightarrow> u64 option \<Rightarrow> iroh_peers \<Rightarrow> iroh_peers" where
  "seen now i height = iroh_entry now i (\<lambda>p. raise_height height (p\<lparr>ip_last_seen := now, ip_messages := ip_messages p + 1\<rparr>))"

text \<open>A topic outside the array panics in the source; the callers pass the constants 0, 1 and 2.\<close>

definition set_neighbor :: "nat \<Rightarrow> endpoint_id \<Rightarrow> nat \<Rightarrow> bool \<Rightarrow> iroh_peers \<Rightarrow> iroh_peers res" where
  "set_neighbor now i topic up m =
     (if topic \<ge> 3 then Inl (Panic ''index out of bounds'')
      else Inr (iroh_entry now i (\<lambda>p.
        let topics = (ip_neighbor_topics p)[topic := up] in p\<lparr>ip_neighbor_topics := topics, ip_neighbor := (True \<in> set topics)\<rparr>) m))"

definition neighbors_on :: "nat \<Rightarrow> iroh_peers \<Rightarrow> nat" where
  "neighbors_on topic m = length (filter (\<lambda>p. ip_neighbor_topics p ! topic) (map snd m))"

definition record_rpc :: "nat \<Rightarrow> endpoint_id \<Rightarrow> u64 option \<Rightarrow> u64 option \<Rightarrow> iroh_peers \<Rightarrow> iroh_peers" where
  "record_rpc now i latency_ms height = iroh_entry now i (\<lambda>p.
     let p = p\<lparr>ip_last_seen := now\<rparr>;
         p = (case latency_ms of
                Some ms \<Rightarrow> p\<lparr>ip_latency_ms := Some (case ip_latency_ms p of None \<Rightarrow> ms | Some old \<Rightarrow> (old * 3 + ms) div 4)\<rparr>
              | None \<Rightarrow> p\<lparr>ip_failures := ip_failures p + 1\<rparr>)
     in raise_height height p)"

definition set_path :: "nat \<Rightarrow> endpoint_id \<Rightarrow> string \<Rightarrow> iroh_peers \<Rightarrow> iroh_peers" where
  "set_path now i kind = iroh_entry now i (\<lambda>p. p\<lparr>ip_path := Some kind\<rparr>)"

definition set_gateway :: "nat \<Rightarrow> endpoint_id \<Rightarrow> string option \<Rightarrow> iroh_peers \<Rightarrow> iroh_peers" where
  "set_gateway now i addr = iroh_entry now i (\<lambda>p. p\<lparr>ip_gateway := addr\<rparr>)"

definition gateways :: "iroh_peers \<Rightarrow> string list" where
  "gateways m = remdups_adj (sort (List.map_filter ip_gateway (map snd m)))"

definition iroh_snapshot :: "iroh_peers \<Rightarrow> iroh_peer list" where
  "iroh_snapshot m = sort_key (\<lambda>p. (\<not> ip_neighbor p, - uint (ip_height p))) (map snd m)"

definition iroh_best_height :: "iroh_peers \<Rightarrow> u64" where
  "iroh_best_height m = fold max (map ip_height (map snd m)) 0"

section \<open>The choice of block sources\<close>

text \<open>A table keeps its peers under their own addresses and at most twenty latencies of each.\<close>

definition peer_ok :: "string \<Rightarrow> peer_stats \<Rightarrow> bool" where
  "peer_ok ip p \<longleftrightarrow> ps_ip p = ip \<and> length (ps_latency_history p) \<le> HISTORY_LEN"

definition table_ok :: "peer_table \<Rightarrow> bool" where
  "table_ok t \<longleftrightarrow> bt_wf (pt_peers t) \<and> (\<forall>ip p. bt_get (pt_peers t) ip = Some p \<longrightarrow> peer_ok ip p)"

lemma peer_ok_new [simp]: "peer_ok ip (peer_stats_new ip)"
  by (simp add: peer_ok_def peer_stats_new_def)

lemma table_ok_get_peer_mut: "table_ok t \<Longrightarrow> (\<And>p. peer_ok ip p \<Longrightarrow> peer_ok ip (f p)) \<Longrightarrow> table_ok (get_peer_mut ip f t)"
  by (auto simp: get_peer_mut_def table_ok_def split: option.split)

lemma table_ok_peer_entry: "table_ok t \<Longrightarrow> (\<And>p. peer_ok ip p \<Longrightarrow> peer_ok ip (f p)) \<Longrightarrow> table_ok (peer_entry ip f t)"
  by (cases "bt_get (pt_peers t) ip") (auto simp: peer_entry_def table_ok_def)

lemma table_ok_add_peer: "table_ok t \<Longrightarrow> table_ok (fst (add_peer ip t))"
  by (auto simp: add_peer_def Let_def table_ok_def)

lemma table_ok_add_peers: "table_ok t \<Longrightarrow> table_ok (fst (add_peers ips t))"
proof (induction ips arbitrary: t)
  case (Cons ip ips)
  then show ?case using table_ok_add_peer [of t ip] by (simp add: case_prod_unfold)
qed simp

lemma table_ok_new: "table_ok (peer_table_new port seeds)"
  unfolding peer_table_new_def by (rule table_ok_add_peers) (simp add: table_ok_def)

lemma table_ok_success: "table_ok t \<Longrightarrow> table_ok (record_success now ip latency height t)"
  unfolding record_success_def by (rule table_ok_peer_entry) (auto simp: peer_ok_def HISTORY_LEN_def Let_def)

lemma table_ok_failure: "table_ok t \<Longrightarrow> table_ok (record_failure now ip t)"
  unfolding record_failure_def by (rule table_ok_peer_entry) (auto simp: peer_ok_def Let_def)

lemma table_ok_version: "table_ok t \<Longrightarrow> table_ok (set_version ip v pq t)"
  unfolding set_version_def by (rule table_ok_get_peer_mut) (auto simp: peer_ok_def)

lemma table_ok_blocks_success: "table_ok t \<Longrightarrow> table_ok (record_blocks_success now ip latency got reached t)"
  unfolding record_blocks_success_def by (rule table_ok_get_peer_mut) (auto simp: peer_ok_def Let_def table_ok_success)

lemma table_ok_blocks_failure: "table_ok t \<Longrightarrow> table_ok (record_blocks_failure now ip t)"
  unfolding record_blocks_failure_def Let_def by (rule table_ok_get_peer_mut) (auto simp: peer_ok_def table_ok_failure)

lemma table_ok_park: "table_ok t \<Longrightarrow> table_ok (park_blocks_for now ip d t)"
  unfolding park_blocks_for_def by (rule table_ok_get_peer_mut) (auto simp: peer_ok_def)

lemma bt_get_map_values: "bt_get (map (\<lambda>(k, v). (k, f v)) m) k = map_option f (bt_get m k)"
  by (induction m) auto

lemma bt_wf_map_values: "bt_wf m \<Longrightarrow> bt_wf (map (\<lambda>(k, v). (k, f v)) m)"
  by (simp add: bt_wf_def case_prod_unfold comp_def)

lemma table_ok_map_values:
  assumes "table_ok t" and "\<And>ip p. peer_ok ip p \<Longrightarrow> peer_ok ip (f p)"
  shows "table_ok (t\<lparr>pt_peers := map (\<lambda>(ip, p). (ip, f p)) (pt_peers t)\<rparr>)"
  using assms by (auto simp: table_ok_def bt_get_map_values bt_wf_map_values)

lemma table_ok_unpark: "table_ok t \<Longrightarrow> table_ok (fst (unpark_blocks now t))"
  unfolding unpark_blocks_def Let_def fst_conv by (rule table_ok_map_values) (auto simp: peer_ok_def)

lemma table_ok_accepted: "table_ok t \<Longrightarrow> table_ok (get_peer_mut ip (\<lambda>st. st\<lparr>ps_accepted_peers := a\<rparr>) t)"
  by (rule table_ok_get_peer_mut) (simp_all add: peer_ok_def)

lemma table_ok_refresh_one: "table_ok t \<Longrightarrow> table_ok (fst (refresh_one now (ip, pr) (t, k)))"
  by (cases pr) (simp_all add: refresh_one_def Let_def table_ok_add_peers table_ok_accepted table_ok_version
      table_ok_success table_ok_failure)

lemma table_ok_refresh:
  assumes "table_ok t"
  shows "table_ok (fst (refresh now results t))"
proof -
  have "table_ok (fst (fold (refresh_one now) results (t, k)))" for k
    using assms
  proof (induction results arbitrary: t k)
    case (Cons r rs)
    obtain ip pr where r: "r = (ip, pr)" by (cases r)
    obtain t' k' where "refresh_one now r (t, k) = (t', k')" by (cases "refresh_one now r (t, k)")
    with Cons.IH [of t' k'] table_ok_refresh_one [OF Cons.prems, of now ip pr k] show ?case by (simp add: r)
  qed simp
  then show ?thesis by (simp add: refresh_def)
qed

datatype table_op = AddPeers "string list" | Succeeded nat string nat "u64 option" | Failed nat string | Versioned string string bool
  | BlocksArrived nat string nat nat "u64 option" | BlocksFailed nat string | ParkedFor nat string nat | Unparked nat
  | Refreshed nat "(string \<times> probe option) list"

fun table_step :: "table_op \<Rightarrow> peer_table \<Rightarrow> peer_table" where
  "table_step (AddPeers ips) t = fst (add_peers ips t)"
| "table_step (Succeeded now ip l h) t = record_success now ip l h t"
| "table_step (Failed now ip) t = record_failure now ip t"
| "table_step (Versioned ip v pq) t = set_version ip v pq t"
| "table_step (BlocksArrived now ip l k h) t = record_blocks_success now ip l k h t"
| "table_step (BlocksFailed now ip) t = record_blocks_failure now ip t"
| "table_step (ParkedFor now ip d) t = park_blocks_for now ip d t"
| "table_step (Unparked now) t = fst (unpark_blocks now t)"
| "table_step (Refreshed now rs) t = fst (refresh now rs t)"

lemma table_ok_step: "table_ok t \<Longrightarrow> table_ok (table_step st t)"
  by (cases st) (simp_all add: table_ok_add_peers table_ok_success table_ok_failure table_ok_version
      table_ok_blocks_success table_ok_blocks_failure table_ok_park table_ok_unpark table_ok_refresh)

lemma table_ok_run: "table_ok (fold table_step sts (peer_table_new port seeds))"
  by (rule fold_invariant [where Q = "\<lambda>_. True"]) (simp_all add: table_ok_new table_ok_step)

text \<open>The peers a block may be asked of, and the order they are preferred in.\<close>

definition usable :: "nat \<Rightarrow> peer_table \<Rightarrow> string set" where
  "usable now t = fst ` set (filter (\<lambda>(ip, p). \<not> peer_is_banned now p \<and> \<not> is_blocks_parked now p) (pt_peers t))"

definition preference :: "nat \<Rightarrow> peer_table \<Rightarrow> string \<Rightarrow> u64 \<times> string" where
  "preference now t ip = (case bt_get (pt_peers t) ip of None \<Rightarrow> (0, ip) | Some p \<Rightarrow> (blocks_score (best_height now t) p, ip))"

definition chosen_best :: "('a \<Rightarrow> 'b::linorder) \<Rightarrow> nat \<Rightarrow> 'a set \<Rightarrow> 'a list \<Rightarrow> bool" where
  "chosen_best key k A r \<longleftrightarrow> set r \<subseteq> A \<and> distinct r \<and> length r = min k (card A) \<and> sorted (map key r)
     \<and> (\<forall>x \<in> set r. \<forall>y \<in> A - set r. key x \<le> key y)"

lemma chosen_best_take:
  assumes "distinct xs" and "sorted (map key xs)"
  shows "chosen_best key k (set xs) (take k xs)"
proof -
  have "key x \<le> key y" if "x \<in> set (take k xs)" "y \<in> set (drop k xs)" for x y
  proof -
    have "sorted (map key (take k xs) @ map key (drop k xs))" using assms(2) by (simp flip: map_append)
    with that show ?thesis by (auto simp: sorted_append)
  qed
  moreover have "set xs - set (take k xs) \<subseteq> set (drop k xs)"
    by (metis Diff_subset_conv append_take_drop_id order_refl set_append)
  moreover have "sorted (map key (take k xs))" using assms(2) by (simp add: sorted_wrt_take flip: take_map)
  ultimately show ?thesis using assms set_take_subset [of k xs]
    by (auto simp: chosen_best_def distinct_card min.commute)
qed

text \<open>C27. Choosing block sources: whatever happened to the table, \<open>best_for_blocks\<close> gives as many peers as asked
  for when there are that many usable ones (neither banned nor parked), no peer twice and no unusable one,
  in the order of their scores, and no usable peer that is left out has a better score than one given.\<close>

theorem block_sources_are_best:
  assumes "t = fold table_step sts (peer_table_new port seeds)"
  shows "chosen_best (preference now t) k (usable now t) (best_for_blocks now k t)"
proof -
  let ?ok = "\<lambda>p. \<not> peer_is_banned now p \<and> \<not> is_blocks_parked now p"
  let ?key = "\<lambda>p. (blocks_score (best_height now t) p, ps_ip p)"
  define ps where "ps = filter ?ok (map snd (pt_peers t))"
  define xs where "xs = map ps_ip (sort_key ?key ps)"
  have wf: "bt_wf (pt_peers t)" and ok: "\<And>ip p. (ip, p) \<in> set (pt_peers t) \<Longrightarrow> ps_ip p = ip"
    using table_ok_run [of sts port seeds] assms by (auto simp: table_ok_def peer_ok_def dest: bt_get_SomeI)
  have "map ps_ip (map snd (pt_peers t)) = map fst (pt_peers t)" using ok by (auto simp: image_iff)
  with bt_wf_distinct [OF wf] have "distinct (map ps_ip (map snd (pt_peers t)))" by metis
  then have "distinct (map ps_ip ps)" unfolding ps_def by (rule distinct_map_filter)
  moreover have "mset xs = mset (map ps_ip ps)" by (simp add: xs_def)
  ultimately have "distinct xs" by (metis mset_eq_imp_distinct_iff)
  moreover have "preference now t (ps_ip p) = ?key p" if "p \<in> set ps" for p
    using that ok bt_get_SomeI [OF wf] by (fastforce simp: ps_def preference_def)
  then have "map (preference now t) xs = map ?key (sort_key ?key ps)" by (simp add: xs_def)
  then have "sorted (map (preference now t) xs)" by simp
  moreover have "set xs = usable now t" using ok by (force simp: xs_def ps_def usable_def)
  moreover have "best_for_blocks now k t = take k xs" by (simp add: best_for_blocks_def Let_def xs_def ps_def take_map)
  ultimately show ?thesis using chosen_best_take by metis
qed

text \<open>Two peers that answered, one of which then failed to deliver blocks.\<close>

definition two_peers :: peer_table where
  "two_peers = fold table_step [Succeeded 5 ''a'' 40 (Some 9), Succeeded 5 ''b'' 40 (Some 9), BlocksFailed 6 ''b''] (peer_table_new 4001 [])"

lemmas two_peers_simps = two_peers_def peer_table_new_def record_success_def record_blocks_failure_def record_failure_def
  peer_entry_def bt_entry_def get_peer_mut_def peer_stats_new_def Let_def peer_limits

lemma two_peers_best:
  "best_for_blocks 7 8 two_peers = [''a'']" "best_height 7 two_peers = 9" "blocks_limit ''a'' two_peers = 100"
  by (simp_all add: two_peers_simps best_for_blocks_def best_height_def blocks_limit_def peer_blocks_limit_def
      peer_is_banned_def is_blocks_parked_def)

theorem block_sources_are_best_witness:
  "chosen_best (preference 7 two_peers) 8 (usable 7 two_peers) (best_for_blocks 7 8 two_peers)
     \<and> best_for_blocks 7 8 two_peers = [''a'']"
  using block_sources_are_best [OF two_peers_def] two_peers_best(1) by metis

end
