(* ===== verification/CatchUp.thy ===== *)
theory CatchUp
  imports PeerTable Guard
begin

text \<open>
  The parallel download of \<open>src/src/p2p_legacy/follow.rs\<close>: the range scheduler the workers share, a worker's turn,
  and the coordinator that applies the replies in height order. The tasks run concurrently and meet in
  the mutex around the scheduler and in the channel of replies; a world holds them all, and each of its
  steps is what one task does between two waits. What a peer answers, and when, is an argument.
\<close>

section \<open>Sources and ranges\<close>

datatype peer_source = Legacy string | Iroh endpoint_id

record scheduler =
  sc_next_from :: u64
  sc_target :: u64
  sc_window_end :: u64
  sc_retry :: "(u64 \<times> u64, unit) btmap"
  sc_busy :: "peer_source set"
  sc_last_request :: "peer_source \<rightharpoonup> nat"

record fetched =
  fe_from :: u64
  fe_to :: u64
  fe_source :: peer_source
  fe_blocks :: "block list option"
  fe_error :: "string option"

record job =
  jb_from :: u64
  jb_to :: u64
  jb_limit :: u32
  jb_source :: peer_source

definition MIN_ROUND :: nat where "MIN_ROUND = 1500 * 10 ^ 6"

definition tip_of :: "crypto \<Rightarrow> network \<Rightarrow> store \<Rightarrow> chain_tip res" where
  "tip_of E n s = rbind (get_last_block E n s) (\<lambda>b. Inr (case b of
       Some b \<Rightarrow> \<lparr>ct_height = b_height b, ct_id = b_id b\<rparr>
     | None \<Rightarrow> \<lparr>ct_height = 0, ct_id = None\<rparr>))"

definition iroh_candidates :: "iroh_peers \<Rightarrow> u64 \<Rightarrow> endpoint_id list" where
  "iroh_candidates m need =
     map ip_id (sort_key (\<lambda>p. unwrap_or u64_max (ip_latency_ms p))
       (filter (\<lambda>p. ip_height p \<ge> need \<and> ip_failures p < 3) (iroh_snapshot m)))"

definition candidates :: "nat \<Rightarrow> peer_table \<Rightarrow> iroh_peers option \<Rightarrow> u64 \<Rightarrow> peer_source list" where
  "candidates now t iroh need =
     (case iroh of None \<Rightarrow> [] | Some m \<Rightarrow> map Iroh (iroh_candidates m need)) @ map Legacy (best_for_blocks now 8 t)"

definition next_range :: "scheduler \<Rightarrow> (u64 \<times> u64) option \<times> scheduler" where
  "next_range s =
     (case sc_retry s of
        (r, _) # rest \<Rightarrow> (Some r, s\<lparr>sc_retry := rest\<rparr>)
      | [] \<Rightarrow>
          if sc_next_from s < sc_target s \<and> sc_next_from s < sc_window_end s
          then (let f = sc_next_from s; to = min (f + ucast MAX_BLOCKS_PER_REQUEST) (sc_target s)
                in (Some (f, to), s\<lparr>sc_next_from := to\<rparr>))
          else (None, s))"

definition idle_source :: "nat \<Rightarrow> scheduler \<Rightarrow> peer_source \<Rightarrow> bool" where
  "idle_source now s src \<longleftrightarrow> src \<notin> sc_busy s
     \<and> (case src of Iroh _ \<Rightarrow> True
        | Legacy _ \<Rightarrow> (case sc_last_request s src of None \<Rightarrow> True | Some t \<Rightarrow> now - t \<ge> MIN_ROUND))"

definition take_job :: "nat \<Rightarrow> peer_table \<Rightarrow> iroh_peers option \<Rightarrow> scheduler \<Rightarrow> job option \<times> scheduler" where
  "take_job now t iroh s =
     (case next_range s of
        (None, s) \<Rightarrow> (None, s)
      | (Some (from, to), s) \<Rightarrow>
          (case List.find (idle_source now s) (candidates now t iroh to) of
             Some src \<Rightarrow>
               (let cap = (case src of Legacy ip \<Rightarrow> blocks_limit ip t | Iroh _ \<Rightarrow> MAX_BLOCKS_PER_REQUEST);
                    limit = ucast (min (to - from) (ucast cap))
                in (Some \<lparr>jb_from = from, jb_to = to, jb_limit = limit, jb_source = src\<rparr>,
                    s\<lparr>sc_busy := insert src (sc_busy s), sc_last_request := (sc_last_request s)(src \<mapsto> now)\<rparr>))
           | None \<Rightarrow> (None, s\<lparr>sc_retry := bt_put (from, to) () (sc_retry s)\<rparr>)))"

section \<open>Asking a peer\<close>

datatype reply = Blocks nat "block list" | Refused string | Unexpected | TimedOut

definition fetch_range :: "nat \<Rightarrow> string \<Rightarrow> reply \<Rightarrow> peer_table \<Rightarrow> peer_table \<times> (string + block list)" where
  "fetch_range now ip r t =
     (case r of
        Blocks latency blocks \<Rightarrow>
          if blocks \<noteq> []
          then (record_blocks_success now ip latency (length blocks) (Some (b_height (last blocks))) t, Inr blocks)
          else (record_blocks_failure now ip t, Inl ''empty reply'')
      | Refused e \<Rightarrow> (record_blocks_failure now ip t, Inl e)
      | Unexpected \<Rightarrow> (record_blocks_failure now ip t, Inl [])
      | TimedOut \<Rightarrow> (record_blocks_failure now ip t, Inl []))"

definition fetch_range_iroh :: "nat \<Rightarrow> endpoint_id \<Rightarrow> reply \<Rightarrow> iroh_peers \<Rightarrow> iroh_peers \<times> block list option" where
  "fetch_range_iroh now i r m =
     (case r of
        Blocks latency blocks \<Rightarrow>
          (record_rpc now i (Some (word_of_nat latency)) (if blocks = [] then None else Some (b_height (last blocks))) m, Some blocks)
      | Refused _ \<Rightarrow> (record_rpc now i None None m, None)
      | Unexpected \<Rightarrow> (m, None)
      | TimedOut \<Rightarrow> (record_rpc now i None None m, None))"

section \<open>The world of a download\<close>

record catch_up =
  cu_tip :: chain_tip
  cu_pending :: "(u64, peer_source \<times> block list) btmap"
  cu_fork_depth :: u64
  cu_failures_in_row :: u32
  cu_supplier :: "(u64, peer_source) btmap"
  cu_last_fork_height :: u64
  cu_applied :: u64
  cu_waiting :: bool
  cu_result :: "unit res option"

record world =
  wo_store :: store
  wo_table :: peer_table
  wo_iroh :: "iroh_peers option"
  wo_sched :: scheduler
  wo_jobs :: "job list"
  wo_replies :: "fetched list"
  wo_coord :: catch_up

record p2p_options =
  po_verify :: bool
  po_parallel :: nat

definition parallel :: "p2p_options \<Rightarrow> nat" where "parallel o1 = max (po_parallel o1) 1"

definition window :: "p2p_options \<Rightarrow> u64" where
  "window o1 = word_of_nat (parallel o1) * 3 * ucast MAX_BLOCKS_PER_REQUEST"

definition best_known :: "nat \<Rightarrow> world \<Rightarrow> u64" where
  "best_known now w = max (best_height now (wo_table w)) (case wo_iroh w of None \<Rightarrow> 0 | Some m \<Rightarrow> iroh_best_height m)"

text \<open>The start of \<open>catch_up\<close>, after \<open>ensure_genesis\<close>: nothing to do gives no world.\<close>

definition catch_up_start ::
  "crypto \<Rightarrow> network \<Rightarrow> nat \<Rightarrow> p2p_options \<Rightarrow> peer_table \<Rightarrow> iroh_peers option \<Rightarrow> store \<Rightarrow> world option res" where
  "catch_up_start E n now o1 t iroh s =
     rbind (tip_of E n s) (\<lambda>tip.
     let target = max (best_height now t) (case iroh of None \<Rightarrow> 0 | Some m \<Rightarrow> iroh_best_height m) in
     Inr (if target \<le> ct_height tip then None
          else Some \<lparr>wo_store = s\<lparr>st_undo_enabled := target - ct_height tip \<le> 2 * UNDO_DEPTH\<rparr>, wo_table = t, wo_iroh = iroh,
            wo_sched = \<lparr>sc_next_from = ct_height tip, sc_target = target, sc_window_end = ct_height tip + window o1,
                        sc_retry = [], sc_busy = {}, sc_last_request = Map.empty\<rparr>,
            wo_jobs = [], wo_replies = [],
            wo_coord = \<lparr>cu_tip = tip, cu_pending = [], cu_fork_depth = 1, cu_failures_in_row = 0, cu_supplier = [],
                        cu_last_fork_height = 0, cu_applied = 0, cu_waiting = False, cu_result = None\<rparr>\<rparr>))"

section \<open>The coordinator\<close>

definition punish :: "nat \<Rightarrow> peer_source \<Rightarrow> world \<Rightarrow> world" where
  "punish now src w =
     (case src of
        Legacy ip \<Rightarrow> w\<lparr>wo_table := record_blocks_failure now ip (wo_table w)\<rparr>
      | Iroh i \<Rightarrow> w\<lparr>wo_iroh := map_option (record_rpc now i None None) (wo_iroh w)\<rparr>)"

definition end_with :: "unit res \<Rightarrow> world \<Rightarrow> world" where
  "end_with r w = w\<lparr>wo_coord := (wo_coord w)\<lparr>cu_result := Some r\<rparr>\<rparr>"

text \<open>Forget every reply and queued range and start over at a height.\<close>

definition restart_at :: "u64 \<Rightarrow> world \<Rightarrow> world" where
  "restart_at h w = w\<lparr>wo_coord := (wo_coord w)\<lparr>cu_pending := []\<rparr>, wo_sched := (wo_sched w)\<lparr>sc_retry := [], sc_next_from := h\<rparr>\<rparr>"

definition leave_branch :: "crypto \<Rightarrow> network \<Rightarrow> nat \<Rightarrow> peer_source \<Rightarrow> world \<Rightarrow> world" where
  "leave_branch E n now source w =
     (let cu = wo_coord w; tip = cu_tip cu;
          target = max (saturating_sub (ct_height tip) (cu_fork_depth cu)) 1;
          w = (case bt_get (cu_supplier cu) (ct_height tip) of
                 None \<Rightarrow> w
               | Some bad \<Rightarrow> if bad \<noteq> source then punish now bad w else w);
          cu = cu\<lparr>cu_last_fork_height := ct_height tip\<rparr>
      in case rollback_to E n target (wo_store w) of
           (s, Inl (Panic m)) \<Rightarrow> end_with (Inl (Sync m)) (w\<lparr>wo_store := s, wo_coord := cu\<rparr>)
         | (s, _) \<Rightarrow>
             (let cu = cu\<lparr>cu_fork_depth := min (cu_fork_depth cu * 3) UNDO_DEPTH\<rparr> in
              case tip_of E n s of
                Inl e \<Rightarrow> end_with (Inl e) (w\<lparr>wo_store := s, wo_coord := cu\<rparr>)
              | Inr tip \<Rightarrow> restart_at (ct_height tip) (w\<lparr>wo_store := s, wo_coord := cu\<lparr>cu_tip := tip\<rparr>\<rparr>)))"

definition forked :: "chain_tip \<Rightarrow> block \<Rightarrow> bool" where
  "forked tip b \<longleftrightarrow> b_height b = ct_height tip + 1 \<and> (case ct_id tip of None \<Rightarrow> False | Some i \<Rightarrow> b_previous_block b \<noteq> i)"

definition note_supplier :: "peer_source \<Rightarrow> u64 \<Rightarrow> u64 \<Rightarrow> (u64, peer_source) btmap \<Rightarrow> (u64, peer_source) btmap" where
  "note_supplier source old new m =
     filter (\<lambda>(h, _). h + 2 * UNDO_DEPTH > new)
       (fold (\<lambda>k. bt_put (word_of_nat k) source) [Suc (unat old)..<Suc (unat new)] m)"

text \<open>One turn of the inner loop: the reply that starts at the tip. An empty reply never gets here; the
  source would panic on it.\<close>

definition apply_next :: "crypto \<Rightarrow> network \<Rightarrow> u32 \<Rightarrow> int \<Rightarrow> nat \<Rightarrow> p2p_options \<Rightarrow> world \<Rightarrow> world" where
  "apply_next E n now_epoch now_ms now o1 w =
     (let cu = wo_coord w; tip = cu_tip cu; from = ct_height tip in
      case bt_get (cu_pending cu) from of
        None \<Rightarrow> w
      | Some (source, []) \<Rightarrow> end_with (Inl (Panic ''index out of bounds'')) w
      | Some (source, b # bs) \<Rightarrow>
          (let w = w\<lparr>wo_coord := cu\<lparr>cu_pending := bt_del from (cu_pending cu)\<rparr>\<rparr>; cu = wo_coord w in
           if forked tip b then leave_branch E n now source w
           else
             (case sync_apply_blocks E n now_epoch now_ms (b # bs) tip (po_verify o1) (wo_store w) of
                (s, Inr new_tip) \<Rightarrow>
                  w\<lparr>wo_store := s,
                    wo_coord := cu\<lparr>cu_supplier := note_supplier source from (ct_height new_tip) (cu_supplier cu),
                      cu_applied := cu_applied cu + (ct_height new_tip - from), cu_tip := new_tip, cu_failures_in_row := 0,
                      cu_fork_depth := (if ct_height new_tip > cu_last_fork_height cu + 10 then 1 else cu_fork_depth cu)\<rparr>\<rparr>
              | (s, Inl StaleTip) \<Rightarrow>
                  (case tip_of E n s of
                     Inl e \<Rightarrow> end_with (Inl e) (w\<lparr>wo_store := s\<rparr>)
                   | Inr tip \<Rightarrow>
                       w\<lparr>wo_store := s,
                         wo_coord := cu\<lparr>cu_tip := tip, cu_pending := filter (\<lambda>(h, _). h \<ge> ct_height tip) (cu_pending cu)\<rparr>\<rparr>)
              | (s, Inl _) \<Rightarrow> restart_at from (punish now source (w\<lparr>wo_store := s\<rparr>)))))"

text \<open>Before it waits for a reply the coordinator raises the target and moves the window.\<close>

definition check_target :: "nat \<Rightarrow> p2p_options \<Rightarrow> world \<Rightarrow> world" where
  "check_target now o1 w =
     (let cu = wo_coord w; h = ct_height (cu_tip cu);
          sc = (wo_sched w)\<lparr>sc_target := max (sc_target (wo_sched w)) (best_known now w), sc_window_end := h + window o1\<rparr>;
          w = w\<lparr>wo_sched := sc\<rparr>
      in if h \<ge> sc_target sc then end_with (Inr ()) w else w\<lparr>wo_coord := cu\<lparr>cu_waiting := True\<rparr>\<rparr>)"

definition queue_range :: "u64 \<Rightarrow> u64 \<Rightarrow> world \<Rightarrow> world" where
  "queue_range from to w = w\<lparr>wo_sched := (wo_sched w)\<lparr>sc_retry := bt_put (from, to) () (sc_retry (wo_sched w))\<rparr>\<rparr>"

definition starts_at :: "u64 \<Rightarrow> block list option \<Rightarrow> bool" where
  "starts_at from bs = (case bs of Some (b # _) \<Rightarrow> b_height b = from + 1 | _ \<Rightarrow> False)"

definition receive_blocks :: "fetched \<Rightarrow> block list \<Rightarrow> world \<Rightarrow> world" where
  "receive_blocks f bs w =
     (let cu = (wo_coord w)\<lparr>cu_failures_in_row := 0\<rparr>; h = ct_height (cu_tip cu); reached = b_height (last bs);
          cu = (if fe_from f \<ge> h then cu\<lparr>cu_pending := bt_put (fe_from f) (fe_source f, bs) (cu_pending cu)\<rparr> else cu);
          w = w\<lparr>wo_coord := cu\<rparr>
      in if reached < fe_to f \<and> reached \<ge> h then queue_range reached (fe_to f) w else w)"

definition receive_failure :: "nat \<Rightarrow> p2p_options \<Rightarrow> (string \<times> probe option) list \<Rightarrow> fetched \<Rightarrow> world \<Rightarrow> world" where
  "receive_failure now o1 probes f w =
     (let cu = wo_coord w; fails = cu_failures_in_row cu + 1;
          w = (if fe_from f \<ge> ct_height (cu_tip cu) then queue_range (fe_from f) (fe_to f) w else w)
      in if fails \<ge> word_of_nat (parallel o1) * 3
         then w\<lparr>wo_table := fst (refresh now probes (wo_table w)), wo_coord := cu\<lparr>cu_failures_in_row := 0\<rparr>\<rparr>
         else w\<lparr>wo_coord := cu\<lparr>cu_failures_in_row := fails\<rparr>\<rparr>)"

definition receive :: "nat \<Rightarrow> p2p_options \<Rightarrow> (string \<times> probe option) list \<Rightarrow> fetched \<Rightarrow> world \<Rightarrow> world" where
  "receive now o1 probes f w =
     (let w = w\<lparr>wo_coord := (wo_coord w)\<lparr>cu_waiting := False\<rparr>\<rparr> in
      case fe_blocks f of
        Some bs \<Rightarrow> if starts_at (fe_from f) (Some bs) then receive_blocks f bs w else receive_failure now o1 probes f w
      | None \<Rightarrow> receive_failure now o1 probes f w)"

section \<open>The workers\<close>

definition worker_take :: "nat \<Rightarrow> world \<Rightarrow> world" where
  "worker_take now w =
     (case take_job now (wo_table w) (wo_iroh w) (wo_sched w) of
        (None, sc) \<Rightarrow> w\<lparr>wo_sched := sc\<rparr>
      | (Some j, sc) \<Rightarrow> w\<lparr>wo_sched := sc, wo_jobs := wo_jobs w @ [j]\<rparr>)"

definition worker_fetch :: "nat \<Rightarrow> job \<Rightarrow> reply \<Rightarrow> world \<Rightarrow> world \<times> block list option \<times> string option" where
  "worker_fetch now j r w =
     (case jb_source j of
        Legacy ip \<Rightarrow>
          (case fetch_range now ip r (wo_table w) of
             (t, Inr bs) \<Rightarrow> (w\<lparr>wo_table := t\<rparr>, Some bs, None)
           | (t, Inl e) \<Rightarrow> (w\<lparr>wo_table := t\<rparr>, None, Some e))
      | Iroh i \<Rightarrow>
          (case wo_iroh w of
             None \<Rightarrow> (w, None, None)
           | Some m \<Rightarrow> (case fetch_range_iroh now i r m of (m, bs) \<Rightarrow> (w\<lparr>wo_iroh := Some m\<rparr>, bs, None))))"

definition worker_deliver :: "nat \<Rightarrow> job \<Rightarrow> reply \<Rightarrow> world \<Rightarrow> world" where
  "worker_deliver now j r w =
     (case worker_fetch now j r w of
        (w, bs, err) \<Rightarrow>
          w\<lparr>wo_sched := (wo_sched w)\<lparr>sc_busy := sc_busy (wo_sched w) - {jb_source j},
                sc_last_request := (sc_last_request (wo_sched w))(jb_source j \<mapsto> now)\<rparr>,
            wo_jobs := remove1 j (wo_jobs w),
            wo_replies := wo_replies w @ [\<lparr>fe_from = jb_from j, fe_to = jb_to j, fe_source = jb_source j, fe_blocks = bs, fe_error = err\<rparr>]\<rparr>)"

text \<open>A worker that has a reply waits while the channel holds twice as many replies as there are workers.\<close>

definition idle_worker :: "p2p_options \<Rightarrow> world \<Rightarrow> bool" where
  "idle_worker o1 w \<longleftrightarrow> length (wo_jobs w) + (length (wo_replies w) - 2 * parallel o1) < parallel o1"

section \<open>Steps\<close>

datatype step = TakeJob nat | Deliver nat job reply | ApplyNext u32 int nat | CheckTarget nat
  | Receive nat "(string \<times> probe option) list" | Elsewhere store | Peers peer_table "iroh_peers option"

definition at_rest :: "world \<Rightarrow> bool" where
  "at_rest w \<longleftrightarrow> bt_get (cu_pending (wo_coord w)) (ct_height (cu_tip (wo_coord w))) = None"

inductive world_step :: "crypto \<Rightarrow> network \<Rightarrow> p2p_options \<Rightarrow> step \<Rightarrow> world \<Rightarrow> world \<Rightarrow> bool"
  for E :: crypto and n :: network and o1 :: p2p_options
where
  take: "cu_result (wo_coord w) = None \<Longrightarrow> idle_worker o1 w \<Longrightarrow> world_step E n o1 (TakeJob now) w (worker_take now w)"
| deliver: "cu_result (wo_coord w) = None \<Longrightarrow> j \<in> set (wo_jobs w)
    \<Longrightarrow> world_step E n o1 (Deliver now j r) w (worker_deliver now j r w)"
| apply_reply: "cu_result (wo_coord w) = None \<Longrightarrow> \<not> cu_waiting (wo_coord w) \<Longrightarrow> \<not> at_rest w
    \<Longrightarrow> world_step E n o1 (ApplyNext e ms now) w (apply_next E n e ms now o1 w)"
| check: "cu_result (wo_coord w) = None \<Longrightarrow> \<not> cu_waiting (wo_coord w) \<Longrightarrow> at_rest w
    \<Longrightarrow> world_step E n o1 (CheckTarget now) w (check_target now o1 w)"
| receive: "cu_result (wo_coord w) = None \<Longrightarrow> cu_waiting (wo_coord w) \<Longrightarrow> wo_replies w = f # fs
    \<Longrightarrow> world_step E n o1 (Receive now probes) w (receive now o1 probes f (w\<lparr>wo_replies := fs\<rparr>))"
| elsewhere: "world_step E n o1 (Elsewhere s) w (w\<lparr>wo_store := s\<rparr>)"
| peers: "world_step E n o1 (Peers t iroh) w (w\<lparr>wo_table := t, wo_iroh := iroh\<rparr>)"

text \<open>The steps a run may take are those a condition allows.\<close>

inductive world_run :: "crypto \<Rightarrow> network \<Rightarrow> p2p_options \<Rightarrow> (step \<Rightarrow> world \<Rightarrow> bool) \<Rightarrow> world \<Rightarrow> world \<Rightarrow> bool"
  for E :: crypto and n :: network and o1 :: p2p_options and allowed :: "step \<Rightarrow> world \<Rightarrow> bool" and w0 :: world
where
  start: "world_run E n o1 allowed w0 w0"
| more: "world_run E n o1 allowed w0 w \<Longrightarrow> allowed st w \<Longrightarrow> world_step E n o1 st w w' \<Longrightarrow> world_run E n o1 allowed w0 w'"

section \<open>A lagging peer, and the gap before a pushed block\<close>

definition LAG_BLOCKS :: u64 where "LAG_BLOCKS = 2"
definition LAG_PARK :: nat where "LAG_PARK = secs 60"

definition lagging_peer :: "u64 \<Rightarrow> u64 \<Rightarrow> u64 \<Rightarrow> u64 \<Rightarrow> nat \<Rightarrow> nat option \<Rightarrow> bool \<times> nat option" where
  "lagging_peer peer_height tip best blocktime now lag_since =
     (if peer_height > tip \<or> best < tip + LAG_BLOCKS then (False, None)
      else (let since = unwrap_or now lag_since
            in (word_of_nat ((now - since) div secs 1) \<ge> max blocktime 1, Some since)))"

definition pull_gap_from ::
  "crypto \<Rightarrow> network \<Rightarrow> u32 \<Rightarrow> int \<Rightarrow> nat \<Rightarrow> string \<Rightarrow> u64 \<Rightarrow> (u64 \<Rightarrow> u32 \<Rightarrow> reply) \<Rightarrow> bool \<Rightarrow> peer_table \<times> store
     \<Rightarrow> (peer_table \<times> store) \<times> chain_tip res" where
  "pull_gap_from E n now_epoch now_ms now ip target ask verify ts =
     (case ts of (t, s) \<Rightarrow>
      case tip_of E n s of
        Inl e \<Rightarrow> ((t, s), Inl e)
      | Inr tip \<Rightarrow>
          if target \<le> ct_height tip then ((t, s), Inr tip)
          else
            (let want = ucast (min (target - ct_height tip) (ucast MAX_BLOCKS_PER_REQUEST)) in
             case fetch_range now ip (ask (ct_height tip) want) t of
               (t, Inl e) \<Rightarrow> ((t, s), Inl (Sync e))
             | (t, Inr bs) \<Rightarrow> (case sync_apply_blocks E n now_epoch now_ms bs tip verify s of (s, r) \<Rightarrow> ((t, s), r))))"

end
