(* ===== verification/CatchUpProps.thy ===== *)
theory CatchUpProps
  imports CatchUp ChainProps
begin

text \<open>
  Properties of the parallel download: as long as the peers send what they are asked for and no other
  task moves the chain, every height up to the target is downloaded, queued or asked for, so the download
  never stops before it is done; and what happens otherwise.
\<close>

section \<open>The ranges in work\<close>

abbreviation tip_height :: "world \<Rightarrow> u64" where "tip_height w \<equiv> ct_height (cu_tip (wo_coord w))"
abbreviation reply_at :: "world \<Rightarrow> u64 \<Rightarrow> (peer_source \<times> block list) option" where "reply_at w \<equiv> bt_get (cu_pending (wo_coord w))"

definition max_height :: u64 where "max_height = 2 ^ 63"

definition ranges :: "world \<Rightarrow> (u64 \<times> u64) set" where
  "ranges w = fst ` set (sc_retry (wo_sched w)) \<union> (\<lambda>j. (jb_from j, jb_to j)) ` set (wo_jobs w)
     \<union> (\<lambda>f. (fe_from f, fe_to f)) ` set (wo_replies w)"

definition starts :: "world \<Rightarrow> u64 set" where
  "starts w = {f. reply_at w f \<noteq> None} \<union> fst ` ranges w \<union> {sc_next_from (wo_sched w)}"

definition consecutive :: "u64 \<Rightarrow> block list \<Rightarrow> bool" where
  "consecutive from bs \<longleftrightarrow> (\<forall>i < length bs. b_height (bs ! i) = from + 1 + word_of_nat i)"

text \<open>The requests under way: every range is below the target and every reply fits its range.\<close>

definition traffic_ok :: "world \<Rightarrow> bool" where
  "traffic_ok w \<longleftrightarrow> (\<forall>(f, t) \<in> ranges w. f < t \<and> t \<le> sc_target (wo_sched w))
     \<and> (\<forall>j \<in> set (wo_jobs w). unat (jb_limit j) \<le> unat (jb_to j) - unat (jb_from j))
     \<and> (\<forall>f \<in> set (wo_replies w). \<forall>bs. fe_blocks f = Some bs \<longrightarrow>
          consecutive (fe_from f) bs \<and> length bs \<le> unat (fe_to f) - unat (fe_from f))
     \<and> sc_next_from (wo_sched w) \<le> sc_target (wo_sched w) \<and> sc_target (wo_sched w) \<le> max_height"

text \<open>From the tip on, where one range or waiting reply ends another one starts.\<close>

definition ranges_ok :: "world \<Rightarrow> bool" where
  "ranges_ok w \<longleftrightarrow> (\<forall>(f, t) \<in> ranges w. tip_height w \<le> t \<longrightarrow> t \<in> starts w)"

definition pending_ok :: "world \<Rightarrow> bool" where
  "pending_ok w \<longleftrightarrow> (\<forall>f src bs. reply_at w f = Some (src, bs) \<longrightarrow> tip_height w \<le> f \<longrightarrow>
     bs \<noteq> [] \<and> unat f + length bs \<le> unat (sc_target (wo_sched w)) \<and> f + word_of_nat (length bs) \<in> starts w)"

definition covered :: "world \<Rightarrow> bool" where
  "covered w \<longleftrightarrow> tip_height w \<in> starts w \<and> ranges_ok w \<and> pending_ok w \<and> traffic_ok w"

lemma consecutive_last:
  assumes "consecutive from bs" and "bs \<noteq> []"
  shows "b_height (last bs) = from + word_of_nat (length bs)"
proof -
  have "length bs - 1 < length bs" using assms(2) by simp
  then have "b_height (last bs) = from + 1 + word_of_nat (length bs - 1)"
    using assms by (simp add: consecutive_def last_conv_nth)
  also have "\<dots> = from + word_of_nat (Suc (length bs - 1))" by simp
  finally show ?thesis using assms(2) by simp
qed

lemma link_check_height:
  assumes "rfold (link_check n ms) bs tip = Inr tip'"
  shows "ct_height tip' = ct_height tip + word_of_nat (length bs)"
  using assms
proof (induction bs arbitrary: tip)
  case (Cons b bs)
  then obtain t where t: "link_check n ms b tip = Inr t" "rfold (link_check n ms) bs t = Inr tip'"
    by (auto simp: rbind_eq_Inr)
  have "ct_height t = ct_height tip + 1"
    using t(1) by (auto simp: link_check_def rbind_eq_Inr split: if_splits)
  with Cons.IH [OF t(2)] show ?case by simp
qed simp

lemma applied_height:
  assumes "sync_apply_blocks E n e ms bs tip v s = (s', Inr tip')"
  shows "ct_height tip' = ct_height tip + word_of_nat (length bs)"
  using assms link_check_height
  by (fastforce simp: sync_apply_blocks_def rbind_eq_Inr rbind_eq_Inl split: sum.splits prod.splits)

lemma unat_plus_nat:
  fixes f t :: u64
  assumes "unat f + k \<le> unat t"
  shows "unat (f + word_of_nat k) = unat f + k"
proof -
  have "unat t < 2 ^ 64" using unsigned_less [where 'a = nat and w = t] by simp
  with assms have "unat f + k < 2 ^ 64" by linarith
  then show ?thesis by (simp add: unat_word_ariths unat_of_nat)
qed

lemma after_end:
  fixes f t :: u64
  assumes "unat f + k \<le> unat t" and "0 < k"
  shows "f < f + word_of_nat k" and "f + word_of_nat k \<le> t"
  using assms by (simp_all add: word_less_nat_alt word_le_nat_alt unat_plus_nat)

section \<open>The traffic\<close>

lemma ranges_queue: "ranges (queue_range f t w) = insert (f, t) (ranges w)"
  by (auto simp: ranges_def queue_range_def fst_set_bt_put)

lemma queue_range_fields [simp]:
  "wo_coord (queue_range f t w) = wo_coord w" "wo_jobs (queue_range f t w) = wo_jobs w"
  "wo_replies (queue_range f t w) = wo_replies w" "sc_next_from (wo_sched (queue_range f t w)) = sc_next_from (wo_sched w)"
  "sc_target (wo_sched (queue_range f t w)) = sc_target (wo_sched w)"
  by (simp_all add: queue_range_def)

lemma next_range_new:
  assumes "traffic_ok w" and "sc_retry (wo_sched w) = []" and "next_range (wo_sched w) = (Some (f, t), sc)"
  shows "f = sc_next_from (wo_sched w)" and "f < t" and "t \<le> sc_target (wo_sched w)"
    and "sc = (wo_sched w)\<lparr>sc_next_from := t\<rparr>"
proof -
  let ?n = "sc_next_from (wo_sched w)" and ?t = "sc_target (wo_sched w)"
  have less: "?n < ?t" and eqs: "f = ?n" "t = min (?n + 400) ?t" and sc: "sc = (wo_sched w)\<lparr>sc_next_from := t\<rparr>"
    using assms(2,3) by (auto simp: next_range_def Let_def MAX_BLOCKS_PER_REQUEST_def split: if_splits)
  have "unat ?n \<le> 2 ^ 63" using assms(1) less by (simp add: traffic_ok_def max_height_def word_le_nat_alt word_less_nat_alt)
  then have "?n < ?n + 400" by (simp add: word_less_nat_alt unat_word_ariths)
  with less eqs sc show "f = ?n" "f < t" "t \<le> ?t" "sc = (wo_sched w)\<lparr>sc_next_from := t\<rparr>" by auto
qed

text \<open>A worker's turn moves the next range into work.\<close>

lemma take_job_ranges:
  assumes "take_job now t iroh sc = (j, sc')" and "next_range sc = (r, sc1)"
  shows "sc_next_from sc' = sc_next_from sc1" "sc_target sc' = sc_target sc1"
    and "fst ` set (sc_retry sc') \<union> (\<lambda>j. (jb_from j, jb_to j)) ` set_option j = fst ` set (sc_retry sc1) \<union> set_option r"
    and "\<And>k. j = Some k \<Longrightarrow> unat (jb_limit k) \<le> unat (jb_to k - jb_from k)"
proof -
  have cut: "unat (ucast (min (a :: u64) b) :: u32) \<le> unat a" for a b
  proof -
    have "unat (ucast (min a b) :: u32) = unat (min a b) mod 2 ^ 32" by (simp add: unsigned_ucast_eq take_bit_eq_mod)
    also have "\<dots> \<le> unat (min a b)" by simp
    also have "\<dots> \<le> unat a" by (simp add: min_def word_le_nat_alt)
    finally show ?thesis .
  qed
  have "sc_next_from sc' = sc_next_from sc1 \<and> sc_target sc' = sc_target sc1
    \<and> fst ` set (sc_retry sc') \<union> (\<lambda>j. (jb_from j, jb_to j)) ` set_option j = fst ` set (sc_retry sc1) \<union> set_option r"
  proof (cases r)
    case None
    with assms show ?thesis by (simp add: take_job_def)
  next
    case (Some ft)
    obtain a b where ft: "ft = (a, b)" by (cases ft)
    show ?thesis
    proof (cases "List.find (idle_source now sc1) (candidates now t iroh b)")
      case None
      then have sc': "j = None" "sc' = sc1\<lparr>sc_retry := bt_put (a, b) () (sc_retry sc1)\<rparr>"
        using assms Some ft by (simp_all add: take_job_def)
      show ?thesis by (simp add: sc' Some ft fst_set_bt_put)
    next
      case (Some src)
      with assms \<open>r = Some ft\<close> ft show ?thesis by (auto simp: take_job_def Let_def)
    qed
  qed
  then show "sc_next_from sc' = sc_next_from sc1" "sc_target sc' = sc_target sc1"
    "fst ` set (sc_retry sc') \<union> (\<lambda>j. (jb_from j, jb_to j)) ` set_option j = fst ` set (sc_retry sc1) \<union> set_option r"
    by blast+
  show "unat (jb_limit k) \<le> unat (jb_to k - jb_from k)" if "j = Some k" for k
    using assms that by (auto simp: take_job_def Let_def cut split: option.splits prod.splits)
qed

lemma worker_take_traffic:
  assumes "traffic_ok w"
  shows "traffic_ok (worker_take now w)" (is "traffic_ok ?w") and "wo_coord (worker_take now w) = wo_coord w"
    and "ranges (worker_take now w) = ranges w \<and> sc_next_from (wo_sched (worker_take now w)) = sc_next_from (wo_sched w)
      \<or> (\<exists>t > sc_next_from (wo_sched w). ranges (worker_take now w) = insert (sc_next_from (wo_sched w), t) (ranges w)
           \<and> sc_next_from (wo_sched (worker_take now w)) = t)"
    and "sc_target (wo_sched (worker_take now w)) = sc_target (wo_sched w)"
proof -
  obtain j sc' where j: "take_job now (wo_table w) (wo_iroh w) (wo_sched w) = (j, sc')" by fastforce
  obtain r sc1 where r: "next_range (wo_sched w) = (r, sc1)" by fastforce
  note took = take_job_ranges [OF j r]
  have w: "wo_sched ?w = sc'" "wo_coord ?w = wo_coord w" "wo_replies ?w = wo_replies w" "wo_jobs ?w = wo_jobs w @ (case j of None \<Rightarrow> [] | Some k \<Rightarrow> [k])"
    using j by (auto simp: worker_take_def split: option.splits)
  have rs: "ranges ?w = fst ` set (sc_retry sc1) \<union> set_option r \<union> (\<lambda>j. (jb_from j, jb_to j)) ` set (wo_jobs w)
     \<union> (\<lambda>f. (fe_from f, fe_to f)) ` set (wo_replies w)"
    using took(3) by (cases j) (auto simp: ranges_def w)
  have step: "ranges ?w = ranges w \<and> sc_next_from sc1 = sc_next_from (wo_sched w) \<and> sc_target sc1 = sc_target (wo_sched w)
    \<or> (\<exists>t. ranges ?w = insert (sc_next_from (wo_sched w), t) (ranges w) \<and> sc_next_from (wo_sched w) < t
         \<and> t \<le> sc_target (wo_sched w) \<and> sc_next_from sc1 = t \<and> sc_target sc1 = sc_target (wo_sched w))"
  proof (cases "sc_retry (wo_sched w)")
    case (Cons a rest)
    then have "r = Some (fst a)" "sc1 = (wo_sched w)\<lparr>sc_retry := rest\<rparr>" using r by (auto simp: next_range_def split: prod.splits)
    then show ?thesis by (simp add: rs ranges_def [of w] Cons)
  next
    case Nil
    show ?thesis
    proof (cases r)
      case None
      then show ?thesis using r Nil by (simp add: next_range_def Let_def rs ranges_def [of w] split: if_splits)
    next
      case (Some ft)
      obtain f t where ft: "ft = (f, t)" by (cases ft)
      note new = next_range_new [OF assms Nil r [unfolded Some ft]]
      show ?thesis using new(2,3) by (simp add: rs ranges_def [of w] Nil Some ft new(1,4))
    qed
  qed
  have ok: "f < t" if "(f, t) \<in> ranges ?w" for f t
    using step that assms by (auto simp: traffic_ok_def)
  have "unat (jb_limit k) \<le> unat (jb_to k) - unat (jb_from k)" if "j = Some k" for k
  proof -
    have "(jb_from k, jb_to k) \<in> ranges ?w" using that by (simp add: ranges_def w)
    then have "jb_from k < jb_to k" by (rule ok)
    then show ?thesis using took(4) [OF that] by (simp add: unat_sub word_le_nat_alt word_less_nat_alt)
  qed
  then show "traffic_ok ?w" using assms step by (auto simp: traffic_ok_def w took(1,2) split: option.splits)
  show "wo_coord ?w = wo_coord w" "sc_target (wo_sched ?w) = sc_target (wo_sched w)" using step w took(2) by auto
  show "ranges ?w = ranges w \<and> sc_next_from (wo_sched ?w) = sc_next_from (wo_sched w)
      \<or> (\<exists>t > sc_next_from (wo_sched w). ranges ?w = insert (sc_next_from (wo_sched w), t) (ranges w) \<and> sc_next_from (wo_sched ?w) = t)"
    using step by (auto simp: w took(1))
qed

text \<open>A peer that keeps to the protocol sends at most what it was asked for, in order.\<close>

definition honest_reply :: "job \<Rightarrow> reply \<Rightarrow> bool" where
  "honest_reply j r = (case r of Blocks _ bs \<Rightarrow> consecutive (jb_from j) bs \<and> length bs \<le> unat (jb_limit j) | _ \<Rightarrow> True)"

lemma worker_fetch_fields:
  assumes "worker_fetch now j r w = (w', bs, err)"
  shows "wo_coord w' = wo_coord w" "wo_sched w' = wo_sched w" "wo_jobs w' = wo_jobs w" "wo_replies w' = wo_replies w"
    and "bs = Some xs \<Longrightarrow> \<exists>l. r = Blocks l xs"
  using assms by (auto simp: worker_fetch_def fetch_range_def fetch_range_iroh_def
      split: peer_source.splits option.splits prod.splits sum.splits reply.splits if_splits)

lemma worker_deliver_traffic:
  assumes "traffic_ok w" and "j \<in> set (wo_jobs w)" and "honest_reply j r"
  shows "traffic_ok (worker_deliver now j r w)" (is "traffic_ok ?w") and "ranges (worker_deliver now j r w) = ranges w"
    and "wo_coord (worker_deliver now j r w) = wo_coord w"
    and "sc_next_from (wo_sched (worker_deliver now j r w)) = sc_next_from (wo_sched w)"
      "sc_target (wo_sched (worker_deliver now j r w)) = sc_target (wo_sched w)"
      "sc_window_end (wo_sched (worker_deliver now j r w)) = sc_window_end (wo_sched w)"
proof -
  obtain w1 bs err where f: "worker_fetch now j r w = (w1, bs, err)" by (cases "worker_fetch now j r w")
  note fields = worker_fetch_fields [OF f]
  have "x \<in> insert j (set (remove1 j (wo_jobs w))) \<longleftrightarrow> x \<in> set (wo_jobs w)" for x
    using assms(2) by (cases "x = j") simp_all
  then have jobs: "set (remove1 j (wo_jobs w)) \<subseteq> set (wo_jobs w)" "insert j (set (remove1 j (wo_jobs w))) = set (wo_jobs w)"
    by blast+
  have w: "sc_retry (wo_sched ?w) = sc_retry (wo_sched w)" "wo_jobs ?w = remove1 j (wo_jobs w)" "wo_coord ?w = wo_coord w"
    "sc_target (wo_sched ?w) = sc_target (wo_sched w)" "sc_next_from (wo_sched ?w) = sc_next_from (wo_sched w)"
    "sc_window_end (wo_sched ?w) = sc_window_end (wo_sched w)"
    "wo_replies ?w = wo_replies w @ [\<lparr>fe_from = jb_from j, fe_to = jb_to j, fe_source = jb_source j, fe_blocks = bs, fe_error = err\<rparr>]"
    by (simp_all add: worker_deliver_def f fields(1-4))
  have eq: "(\<lambda>j. (jb_from j, jb_to j)) ` set (wo_jobs w) = insert (jb_from j, jb_to j) ((\<lambda>j. (jb_from j, jb_to j)) ` set (remove1 j (wo_jobs w)))"
    by (simp only: jobs(2) [symmetric] image_insert)
  show rs: "ranges ?w = ranges w" unfolding ranges_def w eq by simp
  have "consecutive (jb_from j) xs \<and> length xs \<le> unat (jb_to j) - unat (jb_from j)" if "bs = Some xs" for xs
    using fields(5) [OF that] assms by (fastforce simp: honest_reply_def traffic_ok_def)
  then show "traffic_ok ?w" using assms(1) jobs(1) unfolding traffic_ok_def rs by (auto simp: w)
  show "wo_coord ?w = wo_coord w" "sc_next_from (wo_sched ?w) = sc_next_from (wo_sched w)"
    "sc_target (wo_sched ?w) = sc_target (wo_sched w)" "sc_window_end (wo_sched ?w) = sc_window_end (wo_sched w)" by (simp_all add: w)
qed

lemma check_target_fields:
  "ranges (check_target now o1 w) = ranges w" "sc_next_from (wo_sched (check_target now o1 w)) = sc_next_from (wo_sched w)"
  "cu_tip (wo_coord (check_target now o1 w)) = cu_tip (wo_coord w)" "cu_pending (wo_coord (check_target now o1 w)) = cu_pending (wo_coord w)"
  "sc_target (wo_sched (check_target now o1 w)) = max (sc_target (wo_sched w)) (best_known now w)"
  "wo_jobs (check_target now o1 w) = wo_jobs w" "wo_replies (check_target now o1 w) = wo_replies w"
  by (simp_all add: check_target_def Let_def end_with_def ranges_def)

lemma check_target_traffic: "traffic_ok w \<Longrightarrow> best_known now w \<le> max_height \<Longrightarrow> traffic_ok (check_target now o1 w)"
  by (auto simp: traffic_ok_def check_target_fields le_max_iff_disj)

text \<open>A reply leaves the channel: its blocks wait for their turn and its rest is queued again.\<close>

lemma reply_bounds:
  assumes "traffic_ok w" and "wo_replies w = f # fs" and "fe_blocks f = Some bs" and "bs \<noteq> []"
  shows "fe_from f < fe_from f + word_of_nat (length bs)" and "fe_from f + word_of_nat (length bs) \<le> fe_to f"
    and "unat (fe_from f) + length bs \<le> unat (fe_to f)" and "fe_to f \<le> sc_target (wo_sched w)"
    and "b_height (last bs) = fe_from f + word_of_nat (length bs)"
proof -
  have ft: "fe_from f < fe_to f" "fe_to f \<le> sc_target (wo_sched w)" using assms(1) by (auto simp: traffic_ok_def ranges_def assms(2))
  have len: "length bs \<le> unat (fe_to f) - unat (fe_from f)" and last: "b_height (last bs) = fe_from f + word_of_nat (length bs)"
    using assms consecutive_last by (auto simp: traffic_ok_def)
  have fit: "unat (fe_from f) + length bs \<le> unat (fe_to f)" using len ft(1) by (simp add: word_less_nat_alt)
  with after_end [OF fit] assms(4) ft(2) last
  show "fe_from f < fe_from f + word_of_nat (length bs)" "fe_from f + word_of_nat (length bs) \<le> fe_to f"
    "unat (fe_from f) + length bs \<le> unat (fe_to f)" "fe_to f \<le> sc_target (wo_sched w)"
    "b_height (last bs) = fe_from f + word_of_nat (length bs)" by auto
qed

lemma ranges_reply: "wo_replies w = f # fs \<Longrightarrow> ranges w = insert (fe_from f, fe_to f) (ranges (w\<lparr>wo_replies := fs\<rparr>))"
  by (auto simp: ranges_def)

lemma receive_blocks_fields:
  fixes w f fs bs
  defines "w' \<equiv> receive_blocks f bs (w\<lparr>wo_replies := fs\<rparr>)"
  shows "tip_height w' = tip_height w" "sc_target (wo_sched w') = sc_target (wo_sched w)"
    "sc_next_from (wo_sched w') = sc_next_from (wo_sched w)" "wo_jobs w' = wo_jobs w" "wo_replies w' = fs"
    "cu_waiting (wo_coord w') = cu_waiting (wo_coord w)" "cu_result (wo_coord w') = cu_result (wo_coord w)"
    "cu_pending (wo_coord w') = (if tip_height w \<le> fe_from f then bt_put (fe_from f) (fe_source f, bs) (cu_pending (wo_coord w)) else cu_pending (wo_coord w))"
    "ranges w' = ranges (w\<lparr>wo_replies := fs\<rparr>)
       \<union> (if b_height (last bs) < fe_to f \<and> tip_height w \<le> b_height (last bs) then {(b_height (last bs), fe_to f)} else {})"
  unfolding w'_def by (simp_all add: receive_blocks_def Let_def ranges_queue) (simp_all add: ranges_def)

lemma receive_failure_fields:
  fixes w f fs now o1 probes
  defines "w' \<equiv> receive_failure now o1 probes f (w\<lparr>wo_replies := fs\<rparr>)"
  shows "tip_height w' = tip_height w" "sc_target (wo_sched w') = sc_target (wo_sched w)"
    "sc_next_from (wo_sched w') = sc_next_from (wo_sched w)" "wo_jobs w' = wo_jobs w" "wo_replies w' = fs"
    "cu_waiting (wo_coord w') = cu_waiting (wo_coord w)" "cu_result (wo_coord w') = cu_result (wo_coord w)"
    "cu_pending (wo_coord w') = cu_pending (wo_coord w)"
    "ranges w' = ranges (w\<lparr>wo_replies := fs\<rparr>) \<union> (if tip_height w \<le> fe_from f then {(fe_from f, fe_to f)} else {})"
  using ranges_queue [of "fe_from f" "fe_to f" "w\<lparr>wo_replies := fs\<rparr>"]
  unfolding w'_def by (simp_all add: receive_failure_def Let_def) (simp_all add: ranges_def)

lemma receive_cases:
  assumes "wo_replies w = f # fs"
  obtains (blocks) bs where "fe_blocks f = Some bs" "bs \<noteq> []"
      "receive now o1 probes f (w\<lparr>wo_replies := fs\<rparr>) = receive_blocks f bs (w\<lparr>wo_coord := (wo_coord w)\<lparr>cu_waiting := False\<rparr>, wo_replies := fs\<rparr>)"
    | (failure) "receive now o1 probes f (w\<lparr>wo_replies := fs\<rparr>)
        = receive_failure now o1 probes f (w\<lparr>wo_coord := (wo_coord w)\<lparr>cu_waiting := False\<rparr>, wo_replies := fs\<rparr>)"
proof -
  have swap: "w\<lparr>wo_replies := fs, wo_coord := (wo_coord w)\<lparr>cu_waiting := False\<rparr>\<rparr>
      = w\<lparr>wo_coord := (wo_coord w)\<lparr>cu_waiting := False\<rparr>, wo_replies := fs\<rparr>" by (cases w) simp
  show ?thesis
  proof (cases "\<exists>b bs. fe_blocks f = Some (b # bs) \<and> starts_at (fe_from f) (Some (b # bs))")
    case True
    then show ?thesis by (auto simp: receive_def Let_def swap intro!: blocks)
  next
    case False
    then show ?thesis by (intro failure) (auto simp: receive_def Let_def starts_at_def swap split: option.splits list.splits)
  qed
qed

lemma traffic_rejoin:
  assumes "traffic_ok w" and "wo_replies w = f # fs" and "wo_jobs w' = wo_jobs w" "wo_replies w' = fs"
    and "sc_target (wo_sched w') = sc_target (wo_sched w)" "sc_next_from (wo_sched w') = sc_next_from (wo_sched w)"
    and "ranges w' \<subseteq> ranges w \<union> N" and "\<forall>(a, b) \<in> N. a < b \<and> b \<le> sc_target (wo_sched w)"
  shows "traffic_ok w'"
  using assms unfolding traffic_ok_def by auto

lemma receive_blocks_traffic:
  assumes "traffic_ok w" and "wo_replies w = f # fs" and "fe_blocks f = Some bs" and "bs \<noteq> []"
  shows "traffic_ok (receive_blocks f bs (w\<lparr>wo_replies := fs\<rparr>))"
proof (rule traffic_rejoin [OF assms(1,2)])
  let ?N = "if b_height (last bs) < fe_to f then {(b_height (last bs), fe_to f)} else {}"
  show "ranges (receive_blocks f bs (w\<lparr>wo_replies := fs\<rparr>)) \<subseteq> ranges w \<union> ?N"
    by (auto simp: receive_blocks_fields(9) ranges_reply [OF assms(2)])
  show "\<forall>(a, b) \<in> ?N. a < b \<and> b \<le> sc_target (wo_sched w)" using reply_bounds(4) [OF assms] by simp
qed (simp_all add: receive_blocks_fields)

lemma receive_failure_traffic:
  assumes "traffic_ok w" and "wo_replies w = f # fs"
  shows "traffic_ok (receive_failure now o1 probes f (w\<lparr>wo_replies := fs\<rparr>))"
proof (rule traffic_rejoin [OF assms, where N = "{}"])
  show "ranges (receive_failure now o1 probes f (w\<lparr>wo_replies := fs\<rparr>)) \<subseteq> ranges w \<union> {}"
    by (auto simp: receive_failure_fields(9) ranges_reply [OF assms(2)])
qed (simp_all add: receive_failure_fields)

lemma traffic_waiting: "traffic_ok (w\<lparr>wo_coord := c\<rparr>) = traffic_ok w"
  by (simp add: traffic_ok_def ranges_def)

section \<open>Every step keeps the heights covered\<close>

lemma covered_step:
  assumes cov: "covered w" and traffic: "traffic_ok w'" and tip: "tip_height w' = tip_height w"
    and target: "sc_target (wo_sched w) \<le> sc_target (wo_sched w')"
    and keep: "\<And>x. x \<in> starts w \<Longrightarrow> tip_height w \<le> x \<Longrightarrow> x \<in> starts w'"
    and rs: "\<And>f t. (f, t) \<in> ranges w' \<Longrightarrow> (f, t) \<in> ranges w \<or> t \<in> starts w'"
    and pend: "\<And>f src bs. reply_at w' f = Some (src, bs) \<Longrightarrow> reply_at w f = Some (src, bs)
      \<or> bs \<noteq> [] \<and> unat f + length bs \<le> unat (sc_target (wo_sched w')) \<and> f + word_of_nat (length bs) \<in> starts w'"
  shows "covered w'"
proof -
  have "ranges_ok w'" using rs cov keep unfolding covered_def ranges_ok_def tip by fastforce
  moreover have "bs \<noteq> [] \<and> unat f + length bs \<le> unat (sc_target (wo_sched w')) \<and> f + word_of_nat (length bs) \<in> starts w'"
    if at: "reply_at w' f = Some (src, bs)" and f: "tip_height w \<le> f" for f src bs
    using pend [OF at]
  proof
    assume "reply_at w f = Some (src, bs)"
    then have old: "bs \<noteq> []" "unat f + length bs \<le> unat (sc_target (wo_sched w))" "f + word_of_nat (length bs) \<in> starts w"
      using cov f unfolding covered_def pending_ok_def by blast+
    then have "f < f + word_of_nat (length bs)" using after_end(1) by blast
    then have "f + word_of_nat (length bs) \<in> starts w'" using old(3) f by (intro keep) auto
    then show ?thesis using old target by (auto simp: word_le_nat_alt)
  qed
  then have "pending_ok w'" by (simp add: pending_ok_def tip)
  ultimately show ?thesis using cov keep traffic by (simp add: covered_def tip)
qed

lemma covered_same:
  assumes "covered w" and "traffic_ok w'" and "cu_tip (wo_coord w') = cu_tip (wo_coord w)" "cu_pending (wo_coord w') = cu_pending (wo_coord w)"
    and "ranges w' = ranges w" "sc_next_from (wo_sched w') = sc_next_from (wo_sched w)"
    and "sc_target (wo_sched w) \<le> sc_target (wo_sched w')"
  shows "covered w'"
proof -
  have "starts w' = starts w" using assms by (simp add: starts_def)
  then show ?thesis using assms by (intro covered_step [of w w']) auto
qed

lemma covered_take:
  assumes "covered w"
  shows "covered (worker_take now w)"
proof -
  have t: "traffic_ok w" using assms by (simp add: covered_def)
  note w = worker_take_traffic [OF t, of now]
  from w(3) show ?thesis
  proof (elim disjE exE conjE)
    assume "ranges (worker_take now w) = ranges w" "sc_next_from (wo_sched (worker_take now w)) = sc_next_from (wo_sched w)"
    then show ?thesis by (intro covered_same [OF assms w(1)]) (simp_all add: w(2,4))
  next
    fix t
    assume t: "ranges (worker_take now w) = insert (sc_next_from (wo_sched w), t) (ranges w)" "sc_next_from (wo_sched (worker_take now w)) = t"
    have "starts (worker_take now w) = insert t (starts w)" by (auto simp: starts_def t w(2))
    then show ?thesis by (intro covered_step [OF assms w(1)]) (auto simp: w(2,4) t)
  qed
qed

lemma covered_deliver:
  assumes "covered w" and "j \<in> set (wo_jobs w)" and "honest_reply j r"
  shows "covered (worker_deliver now j r w)"
proof -
  have "traffic_ok w" using assms(1) by (simp add: covered_def)
  note w = worker_deliver_traffic [OF this assms(2,3), of now]
  show ?thesis by (rule covered_same [OF assms(1) w(1)]) (simp_all add: w(2-5))
qed

lemma covered_check: "covered w \<Longrightarrow> best_known now w \<le> max_height \<Longrightarrow> covered (check_target now o1 w)"
  by (rule covered_same [of w]) (simp_all add: check_target_fields check_target_traffic covered_def)

text \<open>A reply that is accepted moves the tip to its end.\<close>

definition accepted :: "crypto \<Rightarrow> network \<Rightarrow> u32 \<Rightarrow> int \<Rightarrow> p2p_options \<Rightarrow> world \<Rightarrow> bool" where
  "accepted E n e ms o1 w = (case reply_at w (tip_height w) of
       Some (src, b # bs) \<Rightarrow> \<not> forked (cu_tip (wo_coord w)) b
         \<and> is_ok (snd (sync_apply_blocks E n e ms (b # bs) (cu_tip (wo_coord w)) (po_verify o1) (wo_store w)))
     | _ \<Rightarrow> False)"

lemma apply_next_accepted:
  assumes "accepted E n e ms o1 w"
  obtains src bs where "reply_at w (tip_height w) = Some (src, bs)"
    and "tip_height (apply_next E n e ms now o1 w) = tip_height w + word_of_nat (length bs)"
    and "cu_pending (wo_coord (apply_next E n e ms now o1 w)) = bt_del (tip_height w) (cu_pending (wo_coord w))"
    and "wo_sched (apply_next E n e ms now o1 w) = wo_sched w" "wo_jobs (apply_next E n e ms now o1 w) = wo_jobs w"
    and "wo_replies (apply_next E n e ms now o1 w) = wo_replies w"
    and "cu_result (wo_coord (apply_next E n e ms now o1 w)) = cu_result (wo_coord w)"
    and "cu_waiting (wo_coord (apply_next E n e ms now o1 w)) = cu_waiting (wo_coord w)"
proof -
  obtain src b bs where at: "reply_at w (tip_height w) = Some (src, b # bs)" and nf: "\<not> forked (cu_tip (wo_coord w)) b"
    and ok: "is_ok (snd (sync_apply_blocks E n e ms (b # bs) (cu_tip (wo_coord w)) (po_verify o1) (wo_store w)))"
    using assms by (auto simp: accepted_def split: option.splits prod.splits list.splits)
  obtain s t where ap: "sync_apply_blocks E n e ms (b # bs) (cu_tip (wo_coord w)) (po_verify o1) (wo_store w) = (s, Inr t)"
    using ok by (cases "sync_apply_blocks E n e ms (b # bs) (cu_tip (wo_coord w)) (po_verify o1) (wo_store w)")
      (auto simp: is_ok_def split: sum.splits)
  show ?thesis
    by (rule that [OF at]) (simp_all add: apply_next_def Let_def at nf ap applied_height [OF ap])
qed

lemma covered_apply:
  assumes "covered w" and "accepted E n e ms o1 w"
  shows "covered (apply_next E n e ms now o1 w)"
proof -
  let ?w = "apply_next E n e ms now o1 w"
  obtain src bs where at: "reply_at w (tip_height w) = Some (src, bs)"
    and tip: "tip_height ?w = tip_height w + word_of_nat (length bs)"
    and pend: "cu_pending (wo_coord ?w) = bt_del (tip_height w) (cu_pending (wo_coord w))"
    and same: "wo_sched ?w = wo_sched w" "wo_jobs ?w = wo_jobs w" "wo_replies ?w = wo_replies w"
    by (rule apply_next_accepted [OF assms(2)])
  have reply: "bs \<noteq> []" "unat (tip_height w) + length bs \<le> unat (sc_target (wo_sched w))" "tip_height ?w \<in> starts w"
    using assms(1) at unfolding covered_def pending_ok_def tip by blast+
  have less: "tip_height w < tip_height ?w" using after_end(1) [OF reply(2)] reply(1) by (simp add: tip)
  have rs: "ranges ?w = ranges w" by (simp add: ranges_def same)
  have keep: "x \<in> starts ?w" if "x \<in> starts w" "tip_height w < x" for x
    using that by (auto simp: starts_def rs same pend)
  have "ranges_ok ?w" using assms(1) less keep unfolding covered_def ranges_ok_def rs same
    by (auto dest: order.strict_trans2)
  moreover have "pending_ok ?w" unfolding pending_ok_def same
  proof (intro allI impI)
    fix f src' bs'
    assume f: "reply_at ?w f = Some (src', bs')" "tip_height ?w \<le> f"
    then have "reply_at w f = Some (src', bs')" "tip_height w \<le> f" using less by (auto simp: pend split: if_splits)
    then have old: "bs' \<noteq> []" "unat f + length bs' \<le> unat (sc_target (wo_sched w))" "f + word_of_nat (length bs') \<in> starts w"
      using assms(1) unfolding covered_def pending_ok_def by blast+
    have "f < f + word_of_nat (length bs')" using after_end(1) [OF old(2)] old(1) by simp
    with old f(2) less keep show "bs' \<noteq> [] \<and> unat f + length bs' \<le> unat (sc_target (wo_sched w)) \<and> f + word_of_nat (length bs') \<in> starts ?w"
      by (meson order.strict_trans1 order.strict_trans2 less_imp_le)
  qed
  ultimately show ?thesis using assms(1) keep [OF reply(3) less]
    by (simp add: covered_def traffic_ok_def same rs)
qed

lemma covered_receive_blocks:
  assumes cov: "covered w" and rep: "wo_replies w = f # fs" and bs: "fe_blocks f = Some bs" "bs \<noteq> []"
  shows "covered (receive_blocks f bs (w\<lparr>wo_replies := fs\<rparr>))"
proof -
  let ?w = "receive_blocks f bs (w\<lparr>wo_replies := fs\<rparr>)" and ?stop = "fe_from f + word_of_nat (length bs)"
  have tr: "traffic_ok w" and to: "tip_height w \<le> fe_to f \<Longrightarrow> fe_to f \<in> starts w"
    using cov by (auto simp: covered_def ranges_ok_def ranges_reply [OF rep])
  note e = reply_bounds [OF tr rep bs]
  note fields = receive_blocks_fields [where f = f and bs = bs and w = w and fs = fs]
  have rs: "ranges ?w = ranges (w\<lparr>wo_replies := fs\<rparr>) \<union> (if ?stop < fe_to f \<and> tip_height w \<le> ?stop then {(?stop, fe_to f)} else {})"
    by (simp only: fields(9) e(5))
  have keep: "x \<in> starts ?w" if "x \<in> starts w" "tip_height w \<le> x" for x
    using that by (auto simp: starts_def rs ranges_reply [OF rep] fields(3,8))
  have at_end: "?stop \<in> starts ?w" if "tip_height w \<le> fe_from f"
  proof (cases "?stop < fe_to f")
    case True
    then show ?thesis using that e(1) by (auto simp: starts_def rs)
  next
    case False
    then have "?stop = fe_to f" using e(2) by simp
    then show ?thesis using keep [of ?stop] to that e(1) by auto
  qed
  show ?thesis
  proof (rule covered_step [OF cov receive_blocks_traffic [OF tr rep bs] fields(1)])
    show "(a, b) \<in> ranges w \<or> b \<in> starts ?w" if "(a, b) \<in> ranges ?w" for a b
      using that keep [of "fe_to f"] to order.trans [OF _ e(2), of "tip_height w"] by (auto simp: rs ranges_reply [OF rep] split: if_splits)
    show "reply_at w a = Some (src, xs) \<or> xs \<noteq> [] \<and> unat a + length xs \<le> unat (sc_target (wo_sched ?w)) \<and> a + word_of_nat (length xs) \<in> starts ?w"
      if "reply_at ?w a = Some (src, xs)" for a src xs
      using that at_end bs(2) e(3,4) by (auto simp: fields(2,8) word_le_nat_alt split: if_splits)
  qed (use keep in \<open>auto simp: fields(2)\<close>)
qed

lemma covered_receive_failure:
  assumes cov: "covered w" and rep: "wo_replies w = f # fs"
  shows "covered (receive_failure now o1 probes f (w\<lparr>wo_replies := fs\<rparr>))"
proof -
  let ?w = "receive_failure now o1 probes f (w\<lparr>wo_replies := fs\<rparr>)"
  note fields = receive_failure_fields [where f = f and w = w and fs = fs]
  have "traffic_ok w" using cov by (simp add: covered_def)
  note tr = receive_failure_traffic [OF this rep, of now o1 probes]
  have keep: "x \<in> starts ?w" if "x \<in> starts w" "tip_height w \<le> x" for x
    using that by (auto simp: starts_def ranges_reply [OF rep] fields(3,8,9))
  show ?thesis
    by (rule covered_step [OF cov tr fields(1)])
      (use keep in \<open>auto simp: fields(2,8,9) ranges_reply [OF rep] split: if_splits\<close>)
qed

lemma covered_receive:
  assumes cov: "covered w" and rep: "wo_replies w = f # fs"
  shows "covered (receive now o1 probes f (w\<lparr>wo_replies := fs\<rparr>))"
proof -
  let ?w = "w\<lparr>wo_coord := (wo_coord w)\<lparr>cu_waiting := False\<rparr>\<rparr>"
  have c: "covered ?w" using cov by (intro covered_same [of w ?w]) (auto simp: covered_def traffic_waiting ranges_def)
  have r: "wo_replies ?w = f # fs" using rep by simp
  show ?thesis
    by (rule receive_cases [OF rep, of now o1 probes]) (use covered_receive_blocks [OF c r] covered_receive_failure [OF c r] in auto)
qed

section \<open>The download does not stop early\<close>

definition honest_traffic :: "step \<Rightarrow> world \<Rightarrow> bool" where
  "honest_traffic st w = (case st of
       Deliver now j r \<Rightarrow> honest_reply j r
     | CheckTarget now \<Rightarrow> best_known now w \<le> max_height
     | _ \<Rightarrow> True)"

definition honest_step :: "crypto \<Rightarrow> network \<Rightarrow> p2p_options \<Rightarrow> step \<Rightarrow> world \<Rightarrow> bool" where
  "honest_step E n o1 st w \<longleftrightarrow> honest_traffic st w
     \<and> (case st of ApplyNext e ms now \<Rightarrow> accepted E n e ms o1 w | _ \<Rightarrow> True)"

definition in_work :: "world \<Rightarrow> u64 \<Rightarrow> bool" where
  "in_work w h \<longleftrightarrow> (\<exists>f t. (f, t) \<in> ranges w \<and> f \<le> h \<and> h < t)
     \<or> (\<exists>f src bs. reply_at w f = Some (src, bs) \<and> f \<le> h \<and> unat h < unat f + length bs)"

definition can_move :: "world \<Rightarrow> bool" where
  "can_move w = (case cu_result (wo_coord w) of
       Some r \<Rightarrow> r = Inr () \<and> sc_target (wo_sched w) \<le> tip_height w
     | None \<Rightarrow> \<not> at_rest w \<or> \<not> cu_waiting (wo_coord w) \<or> wo_replies w \<noteq> [] \<or> wo_jobs w \<noteq> [] \<or> fst (next_range (wo_sched w)) \<noteq> None)"

definition going :: "p2p_options \<Rightarrow> world \<Rightarrow> bool" where
  "going o1 w \<longleftrightarrow> covered w
     \<and> (cu_waiting (wo_coord w) \<longrightarrow> sc_window_end (wo_sched w) = tip_height w + window o1 \<and> tip_height w < sc_target (wo_sched w))
     \<and> (\<forall>r. cu_result (wo_coord w) = Some r \<longrightarrow> r = Inr () \<and> sc_target (wo_sched w) \<le> tip_height w)"

lemma take_job_window: "take_job now t iroh sc = (j, sc') \<Longrightarrow> sc_window_end sc' = sc_window_end sc \<and> sc_target sc' = sc_target sc"
  by (auto simp: take_job_def next_range_def Let_def split: option.splits prod.splits list.splits if_splits)

lemma going_take: "going o1 w \<Longrightarrow> going o1 (worker_take now w)"
  using covered_take [of w now] take_job_window
  by (auto simp: going_def worker_take_def split: prod.splits option.splits)

lemma going_deliver:
  assumes "going o1 w" "j \<in> set (wo_jobs w)" "honest_reply j r"
  shows "going o1 (worker_deliver now j r w)"
proof -
  obtain w1 bs err where f: "worker_fetch now j r w = (w1, bs, err)" by (cases "worker_fetch now j r w")
  show ?thesis using assms covered_deliver worker_fetch_fields [OF f]
    by (simp add: going_def) (simp add: worker_deliver_def f)
qed

lemma going_check:
  assumes "going o1 w" and "best_known now w \<le> max_height" and "cu_result (wo_coord w) = None"
  shows "going o1 (check_target now o1 w)"
  using assms covered_check [of w now o1]
  by (cases "max (sc_target (wo_sched w)) (best_known now w) \<le> tip_height w")
    (simp_all add: going_def check_target_def Let_def end_with_def less_max_iff_disj not_le)

lemma going_apply:
  assumes "going o1 w" and "accepted E n e ms o1 w" and "\<not> cu_waiting (wo_coord w)" and "cu_result (wo_coord w) = None"
  shows "going o1 (apply_next E n e ms now o1 w)"
  by (rule apply_next_accepted [OF assms(2), of now]) (use assms covered_apply [of w E n e ms o1 now] in \<open>auto simp: going_def\<close>)

lemma going_receive:
  assumes "going o1 w" and "wo_replies w = f # fs" and "cu_result (wo_coord w) = None"
  shows "going o1 (receive now o1 probes f (w\<lparr>wo_replies := fs\<rparr>))"
proof -
  have "\<not> cu_waiting (wo_coord (receive now o1 probes f (w\<lparr>wo_replies := fs\<rparr>)))"
    "cu_result (wo_coord (receive now o1 probes f (w\<lparr>wo_replies := fs\<rparr>))) = None"
    using assms(3) by (auto simp: receive_def receive_blocks_def receive_failure_def Let_def queue_range_def split: option.splits)
  then show ?thesis using assms covered_receive by (auto simp: going_def)
qed

lemma going_elsewhere: "going o1 w \<Longrightarrow> going o1 (w\<lparr>wo_store := s\<rparr>)" "going o1 w \<Longrightarrow> going o1 (w\<lparr>wo_table := t, wo_iroh := i\<rparr>)"
  by (auto simp: going_def covered_def ranges_ok_def ranges_def pending_ok_def starts_def traffic_ok_def)

lemma going_run:
  assumes "world_run E n o1 (honest_step E n o1) w0 w" and "going o1 w0"
  shows "going o1 w"
  using assms
proof (induction rule: world_run.induct)
  case (more w st w')
  from more.hyps(3) show ?case
    by (cases rule: world_step.cases)
      (use more in \<open>auto simp: honest_step_def honest_traffic_def intro: going_take going_deliver going_check going_apply going_receive going_elsewhere\<close>)
qed simp

lemma covered_in_work:
  assumes cov: "covered w" and "x \<in> starts w" and "tip_height w \<le> x" and "x \<le> h" and "h < sc_next_from (wo_sched w)"
  shows "in_work w h"
  using assms(2-4)
proof (induction "unat h - unat x" arbitrary: x rule: less_induct)
  case less
  have again: "in_work w h" if "x < y" "y \<in> starts w" "y \<le> h" for y
    using that less.prems by (intro less.hyps [of y]) (auto simp: word_less_nat_alt word_le_nat_alt)
  from less.prems(1) consider (pend) src bs where "reply_at w x = Some (src, bs)" | (range) t where "(x, t) \<in> ranges w"
    | (fresh) "x = sc_next_from (wo_sched w)"
    by (auto simp: starts_def)
  then show ?case
  proof cases
    case (pend src bs)
    then have bs: "bs \<noteq> []" "unat x + length bs \<le> unat (sc_target (wo_sched w))" "x + word_of_nat (length bs) \<in> starts w"
      using cov less.prems(2) unfolding covered_def pending_ok_def by blast+
    show ?thesis
    proof (cases "unat h < unat x + length bs")
      case True
      then show ?thesis using pend less.prems(3) by (auto simp: in_work_def)
    next
      case False
      then have "x + word_of_nat (length bs) \<le> h" by (simp add: word_le_nat_alt unat_plus_nat [OF bs(2)])
      then show ?thesis using again after_end(1) [OF bs(2)] bs by simp
    qed
  next
    case (range t)
    then have "x < t" "tip_height w \<le> t \<longrightarrow> t \<in> starts w" using cov by (auto simp: covered_def ranges_ok_def traffic_ok_def)
    then show ?thesis using range less.prems again [of t] by (cases "h < t") (auto simp: in_work_def)
  next
    case fresh
    then show ?thesis using less.prems(3) assms(5) by simp
  qed
qed

lemma going_can_move:
  assumes "going o1 w" and "parallel o1 < 2 ^ 32"
  shows "can_move w"
proof (cases "cu_result (wo_coord w) = None \<and> at_rest w \<and> cu_waiting (wo_coord w) \<and> wo_replies w = [] \<and> wo_jobs w = [] \<and> sc_retry (wo_sched w) = []")
  case True
  have cov: "covered w" and win: "sc_window_end (wo_sched w) = tip_height w + window o1" "tip_height w < sc_target (wo_sched w)"
    using assms(1) True by (auto simp: going_def)
  have "tip_height w \<in> starts w" using cov by (simp add: covered_def)
  then have nf: "sc_next_from (wo_sched w) = tip_height w" using True by (auto simp: starts_def at_rest_def ranges_def)
  have "unat (window o1) = parallel o1 * 1200"
    using assms(2) by (simp add: window_def MAX_BLOCKS_PER_REQUEST_def unat_word_ariths unat_of_nat)
  moreover have "0 < parallel o1" by (simp add: parallel_def)
  moreover have "unat (tip_height w) \<le> 2 ^ 63" using win(2) cov by (auto simp: covered_def traffic_ok_def max_height_def word_less_nat_alt word_le_nat_alt)
  ultimately have "tip_height w < tip_height w + window o1" using assms(2) by (simp add: word_less_nat_alt unat_word_ariths)
  then show ?thesis using True nf win by (simp add: can_move_def next_range_def Let_def)
next
  case False
  then show ?thesis using assms(1)
    by (auto simp: can_move_def going_def next_range_def Let_def split: option.splits list.splits)
qed

lemma catch_up_start_cases:
  assumes "catch_up_start E n now o1 t iroh s = Inr (Some w)"
  obtains tip where "tip_of E n s = Inr tip" "cu_tip (wo_coord w) = tip" "cu_pending (wo_coord w) = []" "cu_waiting (wo_coord w) = False"
    and "cu_result (wo_coord w) = None" "sc_next_from (wo_sched w) = ct_height tip" "ct_height tip < sc_target (wo_sched w)"
    and "sc_retry (wo_sched w) = []" "wo_jobs w = []" "wo_replies w = []"
  using assms by (auto simp: catch_up_start_def rbind_eq_Inr Let_def not_le less_max_iff_disj split: if_splits)

lemma going_start:
  assumes "catch_up_start E n now o1 t iroh s = Inr (Some w)" and "sc_target (wo_sched w) \<le> max_height"
  shows "going o1 w"
  by (rule catch_up_start_cases [OF assms(1)])
    (use assms(2) in \<open>auto simp: going_def covered_def ranges_ok_def ranges_def pending_ok_def starts_def traffic_ok_def\<close>)

text \<open>C17. The download does not stop early: from its start, through any interleaving of the workers, the
  coordinator, the peer tables and other writers of the store in which the peers send at most what they
  are asked for (late, partly, or not at all) and the replies applied are accepted, every height between
  the tip and the target is in a reply that waits, in a range that is queued or asked for, or not yet
  given out; and the download has reached the target or one of its tasks has something to do.\<close>

theorem download_never_stuck:
  assumes "catch_up_start E n now o1 t iroh s = Inr (Some w0)"
    and "sc_target (wo_sched w0) \<le> max_height" and "parallel o1 < 2 ^ 32"
    and "world_run E n o1 (honest_step E n o1) w0 w"
  shows "can_move w \<and> (tip_height w \<le> h \<and> h < sc_target (wo_sched w) \<longrightarrow> in_work w h \<or> sc_next_from (wo_sched w) \<le> h)"
proof -
  have g: "going o1 w" using going_run [OF assms(4) going_start [OF assms(1,2)]] .
  then have "covered w" "tip_height w \<in> starts w" by (auto simp: going_def covered_def)
  then have "in_work w h" if "tip_height w \<le> h" "h < sc_next_from (wo_sched w)"
    using covered_in_work [of w "tip_height w" h] that by simp
  with going_can_move [OF g assms(3)] show ?thesis by fastforce
qed

text \<open>An empty store and two peers at height 9: the first worker asks one of them for all nine blocks.\<close>

theorem download_never_stuck_witness:
  "\<exists>w0. catch_up_start ref_crypto ref_network 7 \<lparr>po_verify = True, po_parallel = 4\<rparr> two_peers None store_empty = Inr (Some w0)
     \<and> map jb_to (wo_jobs (worker_take 7 w0)) = [9]
     \<and> can_move (worker_take 7 w0) \<and> in_work (worker_take 7 w0) 5"
proof -
  let ?o = "\<lparr>po_verify = True, po_parallel = 4\<rparr>"
  have tip: "tip_of ref_crypto ref_network store_empty = Inr \<lparr>ct_height = 0, ct_id = None\<rparr>"
    by (simp add: tip_of_def get_last_block_def get_last_height_def store_empty_def)
  obtain w0 where w0: "catch_up_start ref_crypto ref_network 7 ?o two_peers None store_empty = Inr (Some w0)"
    by (simp add: catch_up_start_def tip two_peers_best Let_def)
  then have f: "sc_target (wo_sched w0) = 9" "sc_next_from (wo_sched w0) = 0" "sc_window_end (wo_sched w0) = 4800" "sc_retry (wo_sched w0) = []"
    "sc_busy (wo_sched w0) = {}" "sc_last_request (wo_sched w0) = Map.empty" "wo_jobs w0 = []" "wo_replies w0 = []" "wo_table w0 = two_peers" "wo_iroh w0 = None"
    "cu_result (wo_coord w0) = None" "tip_height w0 = 0"
    by (auto simp: catch_up_start_def tip two_peers_best Let_def window_def parallel_def MAX_BLOCKS_PER_REQUEST_def)
  have step: "world_step ref_crypto ref_network ?o (TakeJob 7) w0 (worker_take 7 w0)"
    by (rule world_step.take) (simp_all add: f idle_worker_def parallel_def)
  have run: "world_run ref_crypto ref_network ?o (honest_step ref_crypto ref_network ?o) w0 (worker_take 7 w0)"
    by (rule world_run.more [OF world_run.start _ step]) (simp add: honest_step_def honest_traffic_def)
  have job: "map jb_to (wo_jobs (worker_take 7 w0)) = [9]" "sc_next_from (wo_sched (worker_take 7 w0)) = 9"
    "sc_target (wo_sched (worker_take 7 w0)) = 9" "tip_height (worker_take 7 w0) = 0"
    by (simp_all add: worker_take_def take_job_def next_range_def f Let_def candidates_def two_peers_best idle_source_def MAX_BLOCKS_PER_REQUEST_def)
  have "can_move (worker_take 7 w0) \<and> (tip_height (worker_take 7 w0) \<le> 5 \<and> 5 < sc_target (wo_sched (worker_take 7 w0))
      \<longrightarrow> in_work (worker_take 7 w0) 5 \<or> sc_next_from (wo_sched (worker_take 7 w0)) \<le> 5)"
    by (rule download_never_stuck [OF w0 _ _ run]) (simp_all add: f max_height_def parallel_def)
  then show ?thesis using w0 job by (auto simp: job)
qed

end
