(* ===== verification/CatchUpStall.thy ===== *)
theory CatchUpStall
  imports CatchUpProps IntakeProps
begin

text \<open>
  The download when another task moves the chain: the range in which the new tip lies is dropped, nothing
  is asked for from the new tip on, and the download waits for ever.
\<close>

section \<open>Nothing starts at the tip\<close>

definition stalled :: "world \<Rightarrow> bool" where
  "stalled w \<longleftrightarrow> traffic_ok w \<and> cu_result (wo_coord w) = None \<and> (\<forall>x \<in> starts w. tip_height w < x)"

lemma stalledI:
  assumes "stalled w" and "traffic_ok w'" and "tip_height w' = tip_height w" and "cu_result (wo_coord w') = None"
    and "\<And>x. x \<in> starts w' \<Longrightarrow> x \<in> starts w \<or> tip_height w < x"
  shows "stalled w' \<and> tip_height w' = tip_height w"
  using assms by (auto simp: stalled_def)

lemma stalled_take:
  assumes "stalled w"
  shows "stalled (worker_take now w) \<and> tip_height (worker_take now w) = tip_height w"
proof -
  have "traffic_ok w" using assms by (simp add: stalled_def)
  note w = worker_take_traffic [OF this, of now]
  show ?thesis
  proof (rule stalledI [OF assms w(1)])
    fix x
    assume "x \<in> starts (worker_take now w)"
    then have "x \<in> starts w \<or> sc_next_from (wo_sched w) < x" using w(3) by (auto simp: starts_def w(2))
    moreover have "tip_height w < sc_next_from (wo_sched w)" using assms by (simp add: stalled_def starts_def)
    ultimately show "x \<in> starts w \<or> tip_height w < x" by auto
  qed (use assms in \<open>simp_all add: w(2) stalled_def\<close>)
qed

lemma stalled_deliver:
  assumes "stalled w" and "j \<in> set (wo_jobs w)" and "honest_reply j r"
  shows "stalled (worker_deliver now j r w) \<and> tip_height (worker_deliver now j r w) = tip_height w"
proof -
  have "traffic_ok w" using assms(1) by (simp add: stalled_def)
  note w = worker_deliver_traffic [OF this assms(2,3), of now]
  show ?thesis by (rule stalledI [OF assms(1) w(1)]) (use assms(1) in \<open>simp_all add: w(2-5) starts_def stalled_def\<close>)
qed

lemma stalled_check:
  assumes "stalled w" and "best_known now w \<le> max_height"
  shows "stalled (check_target now o1 w) \<and> tip_height (check_target now o1 w) = tip_height w"
proof -
  have "tip_height w < sc_next_from (wo_sched w)" "sc_next_from (wo_sched w) \<le> sc_target (wo_sched w)" "cu_result (wo_coord w) = None"
    using assms(1) by (auto simp: stalled_def starts_def traffic_ok_def)
  then have "cu_result (wo_coord (check_target now o1 w)) = None" by (auto simp: check_target_def Let_def)
  moreover have "traffic_ok (check_target now o1 w)" using assms check_target_traffic by (simp add: stalled_def)
  ultimately show ?thesis by (intro stalledI [OF assms(1)]) (simp_all add: check_target_fields starts_def)
qed

lemma stalled_receive_blocks:
  assumes st: "stalled w" and rep: "wo_replies w = f # fs" and bs: "fe_blocks f = Some bs" "bs \<noteq> []"
  shows "stalled (receive_blocks f bs (w\<lparr>wo_replies := fs\<rparr>)) \<and> tip_height (receive_blocks f bs (w\<lparr>wo_replies := fs\<rparr>)) = tip_height w"
proof -
  have tr: "traffic_ok w" using st by (simp add: stalled_def)
  note e = reply_bounds [OF tr rep bs]
  have "fe_from f \<in> starts w" by (simp add: starts_def ranges_reply [OF rep])
  then have "tip_height w < fe_from f" using st by (simp add: stalled_def)
  then show ?thesis using st e(1)
    by (intro stalledI [OF st receive_blocks_traffic [OF tr rep bs]])
      (auto simp: receive_blocks_fields starts_def ranges_reply [OF rep] stalled_def e(5) split: if_splits)
qed

lemma stalled_receive_failure:
  assumes st: "stalled w" and rep: "wo_replies w = f # fs"
  shows "stalled (receive_failure now o1 probes f (w\<lparr>wo_replies := fs\<rparr>))
    \<and> tip_height (receive_failure now o1 probes f (w\<lparr>wo_replies := fs\<rparr>)) = tip_height w"
proof -
  have "traffic_ok w" using st by (simp add: stalled_def)
  then show ?thesis using st
    by (intro stalledI [OF st receive_failure_traffic [OF _ rep]])
      (auto simp: receive_failure_fields starts_def ranges_reply [OF rep] stalled_def split: if_splits)
qed

lemma stalled_receive:
  assumes st: "stalled w" and rep: "wo_replies w = f # fs"
  shows "stalled (receive now o1 probes f (w\<lparr>wo_replies := fs\<rparr>)) \<and> tip_height (receive now o1 probes f (w\<lparr>wo_replies := fs\<rparr>)) = tip_height w"
proof -
  let ?w = "w\<lparr>wo_coord := (wo_coord w)\<lparr>cu_waiting := False\<rparr>\<rparr>"
  have s: "stalled ?w" "wo_replies ?w = f # fs" "tip_height ?w = tip_height w"
    using st rep by (auto simp: stalled_def traffic_waiting starts_def ranges_def)
  show ?thesis
    by (rule receive_cases [OF rep, of now o1 probes])
      (use stalled_receive_blocks [OF s(1,2)] stalled_receive_failure [OF s(1,2)] s(3) in auto)
qed

lemma stalled_step:
  assumes "world_step E n o1 st w w'" and "honest_traffic st w" and "stalled w"
  shows "stalled w' \<and> tip_height w' = tip_height w"
  using assms(1)
proof (cases rule: world_step.cases)
  case (apply_reply e ms now)
  then show ?thesis using assms(3) by (auto simp: stalled_def starts_def at_rest_def)
next
  case (elsewhere s)
  then show ?thesis using assms(3) by (auto simp: stalled_def traffic_ok_def ranges_def starts_def)
next
  case (peers t i)
  then show ?thesis using assms(3) by (auto simp: stalled_def traffic_ok_def ranges_def starts_def)
qed (use assms(2,3) stalled_take stalled_deliver stalled_check stalled_receive in \<open>auto simp: honest_traffic_def\<close>)

lemma stalled_run:
  assumes "world_run E n o1 honest_traffic w0 w" and "stalled w0"
  shows "stalled w \<and> tip_height w = tip_height w0"
  using assms by (induction rule: world_run.induct) (auto dest!: stalled_step)

section \<open>A range whose start is already on the chain\<close>

text \<open>Where a range or a reply starts, other than the reply at the tip.\<close>

definition other_starts :: "world \<Rightarrow> u64 set" where
  "other_starts w = {f. f \<noteq> tip_height w \<and> reply_at w f \<noteq> None} \<union> fst ` ranges w \<union> {sc_next_from (wo_sched w)}"

text \<open>C33. The download stalls when another task (gossip, a pushed block) has applied a part of the range it is
  about to apply: \<open>apply_blocks\<close> answers \<open>StaleTip\<close>, the coordinator takes over the new tip and drops the
  range, and nothing asks for the rest of it. From then on, whatever honest replies come and however the
  store and the peers change, the coordinator's tip never moves again and \<open>catch_up\<close> never returns.\<close>

theorem stale_tip_stalls_download:
  assumes "traffic_ok w" and "cu_result (wo_coord w) = None"
    and at: "reply_at w (tip_height w) = Some (src, b # bs)" and "\<not> forked (cu_tip (wo_coord w)) b"
    and "sync_apply_blocks E n e ms (b # bs) (cu_tip (wo_coord w)) (po_verify o1) (wo_store w) = (s, Inl StaleTip)"
    and "tip_of E n s = Inr tip'"
    and inside: "ct_height tip' < tip_height w + word_of_nat (length (b # bs))"
    and others: "\<forall>x \<in> other_starts w. tip_height w + word_of_nat (length (b # bs)) \<le> x"
    and run: "world_run E n o1 honest_traffic (apply_next E n e ms now o1 w) w'"
  shows "tip_height w' = ct_height tip' \<and> cu_result (wo_coord w') = None"
proof -
  let ?w = "apply_next E n e ms now o1 w"
  let ?left = "filter (\<lambda>(h, _). ct_height tip' \<le> h) (bt_del (tip_height w) (cu_pending (wo_coord w)))"
  have w: "wo_sched ?w = wo_sched w" "wo_jobs ?w = wo_jobs w" "wo_replies ?w = wo_replies w"
    "tip_height ?w = ct_height tip'" "cu_result (wo_coord ?w) = None" "cu_pending (wo_coord ?w) = ?left"
    using assms(2,4-6) by (simp_all add: apply_next_def Let_def at)
  have "reply_at ?w x \<noteq> None \<Longrightarrow> x \<noteq> tip_height w \<and> reply_at w x \<noteq> None" for x
    by (auto simp: w(6) bt_get_None_iff bt_del_def)
  then have "starts ?w \<subseteq> other_starts w" by (auto simp: starts_def other_starts_def ranges_def w)
  then have "stalled ?w" using others inside assms(1)
    by (auto simp: stalled_def w traffic_ok_def ranges_def dest!: subsetD intro: order.strict_trans2)
  with stalled_run [OF run] show ?thesis by (auto simp: stalled_def w)
qed

section \<open>An instance\<close>

text \<open>The coordinator is at height 1 and holds a reply with the blocks 2 and 3; a pushed block 2 was applied.\<close>

definition second_header :: "string \<Rightarrow> string option \<Rightarrow> block" where
  "second_header i j = (tip_header 88 0 j)\<lparr>b_height := 3, b_previous_block := i\<rparr>"

lemma second_header_fields [simp]:
  "b_height (second_header i j) = 3" "b_previous_block (second_header i j) = i" "b_id (second_header i j) = j" "b_timestamp (second_header i j) = 88"
  by (simp_all add: second_header_def)

lemma second_header_id:
  assumes "length i = 64" and "hex_field ref_crypto 32 i"
  shows "\<exists>j. block_id accept_crypto (second_header i (Some j)) = Inr j"
proof -
  have canonical: "canonical_header accept_crypto (second_header i j)" for j
    using tip_header_canonical [of 88 0 j] assms by (simp add: canonical_header_def second_header_def accept_hex)
  let ?bytes = "\<lambda>j. header_bytes accept_crypto (second_header i j)"
  have bytes: "?bytes j = ?bytes None" for j by (simp add: header_bytes_def second_header_def tip_header_def)
  have "block_id accept_crypto (second_header i j) = Inr (hex_encode accept_crypto (sha256 accept_crypto (?bytes None)))" for j
    unfolding block_id_def serialize_canonical_header [OF canonical] bytes [of j] by simp
  then show ?thesis by blast
qed

lemma block_id_hex: "block_id accept_crypto b = Inr i \<Longrightarrow> length i = 64 \<and> hex_field ref_crypto 32 i"
  by (auto simp: block_id_def rbind_eq_Inr accept_crypto_def ref_crypto_def ref_hex_length hex_field_def ref_hex_decode_encode
      ref_digest_def)

lemma headers_link:
  "rfold (link_check ref_network (10 ^ 15)) [tip_header 80 0 (Some i), second_header i (Some j)] \<lparr>ct_height = 1, ct_id = Some ref_hash\<rparr>
     = Inr \<lparr>ct_height = 3, ct_id = Some j\<rparr>"
  by (simp add: link_check_def future_slot_ms_def slot_number_def slot_start_def epoch_to_unix_def FUTURE_SLOT_GRACE_MS_def Let_def
      milestone_at_def ref_network_def milestone_default_def)

lemma headers_stale:
  assumes ids: "block_id accept_crypto (tip_header 80 0 (Some i)) = Inr i" "block_id accept_crypto (second_header i (Some j)) = Inr j"
    and s: "get_last_height s = 2" "st_undo_enabled s"
  shows "sync_apply_blocks accept_crypto ref_network 0 (10 ^ 15) [tip_header 80 0 (Some i), second_header i (Some j)]
    \<lparr>ct_height = 1, ct_id = Some ref_hash\<rparr> False s = (s, Inl StaleTip)"
proof -
  let ?b = "tip_header 80 0 (Some i)"
  have "accumulate_deltas accept_crypto ref_network V [?b] ?b [] = Inr (forger_delta ref_network ?b ref_sender [])" for V
    by (rule empty_block_deltas(1)) (simp_all add: ref_sender_address ref_network_def)
  then have "apply_locked accept_crypto ref_network [?b] True s = (s, Inl StaleTip)"
    by (simp add: apply_locked_def tip_header_prepare [OF ids(1)] commit_batch_def check_tip_def s(1) Let_def)
  then have "apply_blocks accept_crypto ref_network [?b, second_header i (Some j)] s = (s, Inl StaleTip)"
    by (simp add: apply_blocks_def s(2))
  then show ?thesis using ids
    by (simp only: sync_apply_blocks_def headers_link) (simp add: crypto_check_def)
qed

definition stale_world :: "string \<Rightarrow> string \<Rightarrow> store \<Rightarrow> world" where
  "stale_world i j s = \<lparr>wo_store = s, wo_table = two_peers, wo_iroh = None,
     wo_sched = \<lparr>sc_next_from = 3, sc_target = 3, sc_window_end = 4801, sc_retry = [], sc_busy = {}, sc_last_request = Map.empty\<rparr>,
     wo_jobs = [], wo_replies = [],
     wo_coord = \<lparr>cu_tip = \<lparr>ct_height = 1, ct_id = Some ref_hash\<rparr>,
       cu_pending = [(1, (Legacy ''a'', [tip_header 80 0 (Some i), second_header i (Some j)]))], cu_fork_depth = 1,
       cu_failures_in_row = 0, cu_supplier = [], cu_last_fork_height = 0, cu_applied = 0, cu_waiting = False, cu_result = None\<rparr>\<rparr>"

lemma pushed_block_store:
  obtains i s where "block_id accept_crypto (tip_header 80 0 (Some i)) = Inr i" "get_last_height s = 2" "st_undo_enabled s"
    and "tip_of accept_crypto ref_network s = Inr \<lparr>ct_height = 2, ct_id = Some i\<rparr>"
proof -
  obtain i where i: "block_id accept_crypto (tip_header 80 0 (Some i)) = Inr i" using tip_header_id by metis
  have tip: "st_wallets tip_store = []" "get_last_height tip_store = 1" "st_block_ids tip_store = []" "st_blocks tip_store = []"
    by (simp_all add: tip_store_def store_empty_def get_last_height_def)
  obtain s where s: "apply_block accept_crypto ref_network (tip_header 80 0 (Some i)) tip_store = (s, Inr ())"
    using tip_header_applies [OF i _ tip] by auto
  have t: "store_wf tip_store" "no_final tip_store 2"
    by (simp_all add: tip_store_def store_empty_def store_wf_def index_wf_def no_final_def latest_finality_cert_def)
  obtain db where db: "get_last_height s = 2" "get_block_by_height accept_crypto ref_network s 2 = Inr (Some db)" "b_id db = Some i" "b_height db = 2"
    by (rule applied_block_left [OF s tip_header_block _ i _ _ _ t(1)]) (use t(2) tip in \<open>auto simp: \<close>)
  have "get_last_height (s\<lparr>st_undo_enabled := True\<rparr>) = 2"
    "get_block_by_height accept_crypto ref_network (s\<lparr>st_undo_enabled := True\<rparr>) 2 = Inr (Some db)"
    using db(1,2) by (simp_all add: get_last_height_def get_block_by_height_def)
  with db(3,4) show ?thesis by (intro that [OF i, of "s\<lparr>st_undo_enabled := True\<rparr>"]) (simp_all add: tip_of_def get_last_block_def)
qed

theorem stale_tip_stalls_download_witness:
  "\<exists>i j s w'. tip_of accept_crypto ref_network s = Inr \<lparr>ct_height = 2, ct_id = Some i\<rparr>
     \<and> world_run accept_crypto ref_network \<lparr>po_verify = False, po_parallel = 4\<rparr> honest_traffic
         (apply_next accept_crypto ref_network 0 (10 ^ 15) 7 \<lparr>po_verify = False, po_parallel = 4\<rparr> (stale_world i j s)) w'
     \<and> cu_waiting (wo_coord w') \<and> sc_target (wo_sched w') = 9 \<and> tip_height w' = 2 \<and> cu_result (wo_coord w') = None"
proof -
  let ?o = "\<lparr>po_verify = False, po_parallel = 4\<rparr>"
  obtain i s where i: "block_id accept_crypto (tip_header 80 0 (Some i)) = Inr i" and s: "get_last_height s = 2" "st_undo_enabled s"
    and tip: "tip_of accept_crypto ref_network s = Inr \<lparr>ct_height = 2, ct_id = Some i\<rparr>"
    by (rule pushed_block_store)
  obtain j where j: "block_id accept_crypto (second_header i (Some j)) = Inr j"
    using second_header_id block_id_hex [OF i] by blast
  note stale = headers_stale [OF i j s]
  let ?w = "stale_world i j s"
  define w1 where "w1 = apply_next accept_crypto ref_network 0 (10 ^ 15) 7 ?o ?w"
  have nf: "\<not> forked \<lparr>ct_height = 1, ct_id = Some ref_hash\<rparr> (tip_header 80 0 (Some i))" by (simp add: forked_def)
  have w1: "w1 = ?w\<lparr>wo_coord := (wo_coord ?w)\<lparr>cu_tip := \<lparr>ct_height = 2, ct_id = Some i\<rparr>, cu_pending := []\<rparr>\<rparr>"
    using stale tip nf by (simp add: w1_def apply_next_def stale_world_def Let_def bt_del_def)
  have best: "best_known 7 w1 = 9" by (simp add: w1 stale_world_def best_known_def two_peers_best)
  define w2 where "w2 = check_target 7 ?o w1"
  have "world_step accept_crypto ref_network ?o (CheckTarget 7) w1 w2"
    unfolding w2_def by (rule world_step.check) (simp_all add: w1 stale_world_def at_rest_def)
  then have run: "world_run accept_crypto ref_network ?o honest_traffic w1 w2"
    by (rule world_run.more [OF world_run.start, rotated]) (simp add: honest_traffic_def best max_height_def)
  have "tip_height w2 = ct_height \<lparr>ct_height = 2, ct_id = Some i\<rparr> \<and> cu_result (wo_coord w2) = None"
    by (rule stale_tip_stalls_download [of ?w "Legacy ''a''" "tip_header 80 0 (Some i)" "[second_header i (Some j)]", OF _ _ _ _ _ tip _ _ run [unfolded w1_def]])
      (use stale nf in \<open>simp_all add: stale_world_def traffic_ok_def ranges_def other_starts_def max_height_def\<close>)
  moreover have "cu_waiting (wo_coord w2) \<and> sc_target (wo_sched w2) = 9"
    by (simp add: w2_def check_target_def Let_def best) (simp add: w1 stale_world_def)
  ultimately show ?thesis using run tip unfolding w1_def by auto
qed

end
