(* ===== verification/SocketAddr.thy ===== *)
theory SocketAddr
  imports Models
begin

text \<open>
  What the address book uses of the standard library's network addresses: \<open>SocketAddr::from_str\<close> with the
  address parsers it is made of, and the address ranges behind \<open>is_public\<close> of \<open>src/src/p2p_iroh/addrbook.rs\<close>.
  A parser takes the text that is left and gives a value with the rest of it; one that fails consumes nothing.
\<close>

section \<open>Addresses\<close>

datatype ip_addr = V4 u8 u8 u8 u8 | V6 "u16 list"

record socket_addr =
  sa_ip :: ip_addr
  sa_port :: u16
  sa_scope_id :: u32

section \<open>Parsing\<close>

definition to_digit :: "int \<Rightarrow> char \<Rightarrow> int option" where
  "to_digit radix c =
     (let k = of_char c :: int;
          d = (if 48 \<le> k \<and> k \<le> 57 then k - 48
               else if 97 \<le> k \<and> k \<le> 122 then k - 87
               else if 65 \<le> k \<and> k \<le> 90 then k - 55 else radix)
      in if d < radix then Some d else None)"

fun digits :: "int \<Rightarrow> string \<Rightarrow> int list \<times> string" where
  "digits radix [] = ([], [])"
| "digits radix (c # cs) =
     (case to_digit radix c of
        None \<Rightarrow> ([], c # cs)
      | Some d \<Rightarrow> (case digits radix cs of (ds, rest) \<Rightarrow> (d # ds, rest)))"

definition read_number :: "nat \<Rightarrow> int \<Rightarrow> nat option \<Rightarrow> bool \<Rightarrow> string \<Rightarrow> (int \<times> string) option" where
  "read_number width radix max_digits allow_zero_prefix s =
     (case digits radix s of (ds, rest) \<Rightarrow>
        let v = fold (\<lambda>d a. a * radix + d) ds 0 in
        if ds = [] \<or> (case max_digits of None \<Rightarrow> False | Some m \<Rightarrow> length ds > m)
           \<or> (\<not> allow_zero_prefix \<and> hd ds = 0 \<and> length ds > 1) \<or> v \<ge> 2 ^ width
        then None else Some (v, rest))"

fun read_given_char :: "char \<Rightarrow> string \<Rightarrow> string option" where
  "read_given_char c [] = None"
| "read_given_char c (d # s) = (if d = c then Some s else None)"

definition read_separator :: "char \<Rightarrow> bool \<Rightarrow> (string \<Rightarrow> ('a \<times> string) option) \<Rightarrow> string \<Rightarrow> ('a \<times> string) option" where
  "read_separator sep first p s = (if first then p s else Option.bind (read_given_char sep s) p)"

definition read_octet :: "bool \<Rightarrow> string \<Rightarrow> (int \<times> string) option" where
  "read_octet first = read_separator (CHR ''.'') first (read_number 8 10 (Some 3) False)"

definition read_ipv4_addr :: "string \<Rightarrow> ((u8 \<times> u8 \<times> u8 \<times> u8) \<times> string) option" where
  "read_ipv4_addr s =
     Option.bind (read_octet True s) (\<lambda>(a, s). Option.bind (read_octet False s) (\<lambda>(b, s).
     Option.bind (read_octet False s) (\<lambda>(c, s). Option.bind (read_octet False s) (\<lambda>(d, s).
     Some ((word_of_int a, word_of_int b, word_of_int c, word_of_int d), s)))))"

text \<open>Up to \<open>k\<close> groups of an IPv6 address; the last two may be written as an IPv4 address.\<close>

fun read_groups :: "nat \<Rightarrow> bool \<Rightarrow> string \<Rightarrow> u16 list \<times> bool \<times> string" where
  "read_groups 0 first s = ([], False, s)"
| "read_groups (Suc k) first s =
     (case (if k > 0 then read_separator (CHR '':'') first read_ipv4_addr s else None) of
        Some ((a, b, c, d), rest) \<Rightarrow> ([ucast a * 256 + ucast b, ucast c * 256 + ucast d], True, rest)
      | None \<Rightarrow>
          (case read_separator (CHR '':'') first (read_number 16 16 (Some 4) True) s of
             None \<Rightarrow> ([], False, s)
           | Some (g, rest) \<Rightarrow>
               (case read_groups k False rest of (gs, v4, rest) \<Rightarrow> (word_of_int g # gs, v4, rest))))"

definition read_ipv6_addr :: "string \<Rightarrow> (u16 list \<times> string) option" where
  "read_ipv6_addr s =
     (case read_groups 8 True s of (hd_groups, v4, s) \<Rightarrow>
        if length hd_groups = 8 then Some (hd_groups, s)
        else if v4 then None
        else Option.bind (read_given_char (CHR '':'') s) (\<lambda>s. Option.bind (read_given_char (CHR '':'') s) (\<lambda>s.
             case read_groups (8 - (length hd_groups + 1)) True s of (tl_groups, _, s) \<Rightarrow>
               Some (hd_groups @ replicate (8 - length hd_groups - length tl_groups) 0 @ tl_groups, s))))"

definition read_port :: "string \<Rightarrow> (int \<times> string) option" where
  "read_port s = Option.bind (read_given_char (CHR '':'') s) (read_number 16 10 None True)"

definition read_scope_id :: "string \<Rightarrow> (int \<times> string) option" where
  "read_scope_id s = Option.bind (read_given_char (CHR ''%'') s) (read_number 32 10 None True)"

definition read_socket_addr_v4 :: "string \<Rightarrow> (socket_addr \<times> string) option" where
  "read_socket_addr_v4 s =
     Option.bind (read_ipv4_addr s) (\<lambda>((a, b, c, d), s). Option.bind (read_port s) (\<lambda>(p, s).
     Some (\<lparr>sa_ip = V4 a b c d, sa_port = word_of_int p, sa_scope_id = 0\<rparr>, s)))"

definition read_socket_addr_v6 :: "string \<Rightarrow> (socket_addr \<times> string) option" where
  "read_socket_addr_v6 s =
     Option.bind (read_given_char (CHR ''['') s) (\<lambda>s. Option.bind (read_ipv6_addr s) (\<lambda>(g, s).
     (case (case read_scope_id s of None \<Rightarrow> (0, s) | Some r \<Rightarrow> r) of (scope, s) \<Rightarrow>
        Option.bind (read_given_char (CHR '']'') s) (\<lambda>s. Option.bind (read_port s) (\<lambda>(p, s).
        Some (\<lparr>sa_ip = V6 g, sa_port = word_of_int p, sa_scope_id = word_of_int scope\<rparr>, s))))))"

definition parse_socket_addr :: "string \<Rightarrow> socket_addr option" where
  "parse_socket_addr s =
     (case (case read_socket_addr_v4 s of None \<Rightarrow> read_socket_addr_v6 s | Some r \<Rightarrow> Some r) of
        Some (a, []) \<Rightarrow> Some a
      | _ \<Rightarrow> None)"

section \<open>Ranges\<close>

definition is_private :: "u8 \<Rightarrow> u8 \<Rightarrow> u8 \<Rightarrow> u8 \<Rightarrow> bool" where
  "is_private a b c d \<longleftrightarrow> a = 10 \<or> (a = 172 \<and> 16 \<le> b \<and> b \<le> 31) \<or> (a = 192 \<and> b = 168)"

definition is_documentation :: "u8 \<Rightarrow> u8 \<Rightarrow> u8 \<Rightarrow> u8 \<Rightarrow> bool" where
  "is_documentation a b c d \<longleftrightarrow> (a = 192 \<and> b = 0 \<and> c = 2) \<or> (a = 198 \<and> b = 51 \<and> c = 100) \<or> (a = 203 \<and> b = 0 \<and> c = 113)"

unbundle bit_operations_syntax

fun is_public :: "ip_addr \<Rightarrow> bool" where
  "is_public (V4 a b c d) \<longleftrightarrow>
     \<not> (is_private a b c d \<or> a = 127 \<or> (a = 169 \<and> b = 254) \<or> (a = 0 \<and> b = 0 \<and> c = 0 \<and> d = 0)
        \<or> (a = 255 \<and> b = 255 \<and> c = 255 \<and> d = 255) \<or> is_documentation a b c d \<or> (a = 100 \<and> 64 \<le> b \<and> b < 128))"
| "is_public (V6 g) \<longleftrightarrow>
     \<not> (g = [0, 0, 0, 0, 0, 0, 0, 1] \<or> g = [0, 0, 0, 0, 0, 0, 0, 0]
        \<or> hd g AND 0xfe00 = 0xfc00 \<or> hd g AND 0xffc0 = 0xfe80)"

lemma length_read_groups: "length (fst (read_groups k first s)) \<le> k"
  by (induction k first s rule: read_groups.induct) (auto split: option.splits prod.splits if_splits)

text \<open>An IPv6 address that parses has its eight groups.\<close>

lemma read_ipv6_groups:
  assumes "read_ipv6_addr s = Some (g, rest)"
  shows "length g = 8"
proof -
  obtain h v r where h: "read_groups 8 True s = (h, v, r)" by (rule prod_cases3)
  show ?thesis
  proof (cases "length h = 8")
    case True
    with assms h show ?thesis by (simp add: read_ipv6_addr_def)
  next
    case False
    with assms h obtain q t f p where g: "g = h @ replicate (8 - length h - length t) 0 @ t"
      and t: "read_groups (8 - (length h + 1)) True q = (t, f, p)"
      unfolding read_ipv6_addr_def by (simp add: bind_eq_Some_conv split: if_splits prod.splits) (metis prod_cases3)
    have "length h < 8" using False length_read_groups [of 8 True s] h by simp
    moreover have "length t \<le> 8 - (length h + 1)" using length_read_groups [of "8 - (length h + 1)" True q] t by simp
    ultimately show ?thesis unfolding g by simp
  qed
qed

end
