(* ===== verification/AddrBook.thy ===== *)
theory AddrBook
  imports SocketAddr PeerTable
begin

text \<open>
  The address book of the iroh layer, \<open>src/src/p2p_iroh/addrbook.rs\<close>: the signed address records, the book
  that keeps the newest of every node, what it learns from gossip, from a peer's answer and over the legacy port,
  and the eviction of the dead. The keys and signatures of the iroh crate, its relay addresses and the JSON
  of the stored entries are the parameters \<open>iroh_env\<close>; the clock reading is an argument. The book's tree is the
  part of the store under \<open>ab:\<close>, the lookup the list of the addresses handed to the endpoint.
\<close>

section \<open>Signed records\<close>

record signed_addr =
  sr_v :: u8
  sr_id :: string
  sr_addrs :: "string list"
  sr_relay :: "string option"
  sr_seq :: u64
  sr_version :: string
  sr_signature :: string

record addr_entry =
  en_record :: signed_addr
  en_first_seen :: u64
  en_last_seen :: u64
  en_last_success :: u64
  en_last_attempt :: u64
  en_failures :: u32
  en_source :: string

record iroh_env =
  ie_parse_id :: "string \<Rightarrow> endpoint_id option"
  ie_verify :: "endpoint_id \<Rightarrow> bytes \<Rightarrow> bytes \<Rightarrow> bool"
  ie_public :: "bytes \<Rightarrow> endpoint_id"
  ie_sign :: "bytes \<Rightarrow> bytes \<Rightarrow> bytes"
  ie_parse_relay :: "string \<Rightarrow> string option"
  ie_to_json :: "addr_entry \<Rightarrow> bytes option"
  ie_of_json :: "bytes \<Rightarrow> addr_entry option"

text \<open>Documented behaviour of the iroh keys: a printed key parses to itself, a signature has 64 bytes and
  verifies under the key it was made with.\<close>

definition iroh_laws :: "iroh_env \<Rightarrow> bool" where
  "iroh_laws I \<longleftrightarrow> (\<forall>sk m. ie_parse_id I (ie_public I sk) = Some (ie_public I sk)
     \<and> length (ie_sign I sk m) = 64 \<and> ie_verify I (ie_public I sk) m (ie_sign I sk m))"

definition ADDR_DOMAIN :: string where "ADDR_DOMAIN = ''sthpq-addr-v1''"
definition RELAY_RECORDS :: nat where "RELAY_RECORDS = 16"
definition MAX_RECORDS :: nat where "MAX_RECORDS = 100"
definition MAX_ADDRS :: nat where "MAX_ADDRS = 8"
definition FUTURE_SKEW :: u64 where "FUTURE_SKEW = 600"
definition FRESH_SECS :: u64 where "FRESH_SECS = 3 * 86400"

definition join_on :: "string \<Rightarrow> string list \<Rightarrow> string" where
  "join_on sep xs = (case xs of [] \<Rightarrow> [] | x # rest \<Rightarrow> x @ concat (map (\<lambda>y. sep @ y) rest))"

definition addr_message :: "crypto \<Rightarrow> string \<Rightarrow> string \<Rightarrow> u64 \<Rightarrow> string list \<Rightarrow> string option \<Rightarrow> bytes" where
  "addr_message E nethash i seq addrs relay =
     sha256 E (as_bytes ADDR_DOMAIN @ as_bytes nethash @ as_bytes i @ u64_le seq
               @ as_bytes (join_on '','' addrs) @ as_bytes (unwrap_or [] relay))"

definition sign_addr ::
  "crypto \<Rightarrow> iroh_env \<Rightarrow> string \<Rightarrow> bytes \<Rightarrow> string \<Rightarrow> string list \<Rightarrow> string option \<Rightarrow> u64 \<Rightarrow> signed_addr" where
  "sign_addr E I pkg_version secret nethash addrs relay seq =
     (let addrs = take MAX_ADDRS (remdups_adj (sort addrs));
          i = ie_public I secret;
          sig = ie_sign I secret (addr_message E nethash i seq addrs relay)
      in \<lparr>sr_v = 1, sr_id = i, sr_addrs = addrs, sr_relay = relay, sr_seq = seq, sr_version = pkg_version,
          sr_signature = hex_encode E sig\<rparr>)"

definition public_addr :: "string \<Rightarrow> bool" where
  "public_addr a = (case parse_socket_addr a of None \<Rightarrow> False | Some s \<Rightarrow> is_public (sa_ip s))"

definition verify_addr :: "crypto \<Rightarrow> iroh_env \<Rightarrow> string \<Rightarrow> u64 \<Rightarrow> u64 \<Rightarrow> signed_addr \<Rightarrow> endpoint_id res" where
  "verify_addr E I nethash now expire_secs r =
     (if sr_v r \<noteq> 1 \<or> length (sr_addrs r) > MAX_ADDRS then Inl (Sync ''unsupported version or too many addresses'')
      else if sr_seq r > now + FUTURE_SKEW \<or> sr_seq r + expire_secs < now then Inl (Sync ''outside the accepted window'')
      else if list_ex (\<lambda>a. \<not> public_addr a) (sr_addrs r) then Inl (Sync ''non-public or malformed address'')
      else
        rbind (ok_or (Sync ''bad id'') (ie_parse_id I (sr_id r))) (\<lambda>i.
        rbind (ok_or (Sync ''bad signature hex'') (hex_decode E (sr_signature r))) (\<lambda>sig.
        if length sig \<noteq> 64 then Inl (Sync ''signature must be 64 bytes'')
        else if ie_verify I i (addr_message E nethash (sr_id r) (sr_seq r) (sr_addrs r) (sr_relay r)) sig
        then Inr i else Inl (Sync ''invalid signature''))))"

record endpoint_addr =
  ea_id :: endpoint_id
  ea_ips :: "socket_addr list"
  ea_relay :: "string option"

definition endpoint_addr_of :: "iroh_env \<Rightarrow> signed_addr \<Rightarrow> endpoint_id \<Rightarrow> endpoint_addr" where
  "endpoint_addr_of I r i = \<lparr>ea_id = i, ea_ips = List.map_filter parse_socket_addr (sr_addrs r),
     ea_relay = Option.bind (sr_relay r) (ie_parse_relay I)\<rparr>"

definition direct_only_addr :: "iroh_env \<Rightarrow> signed_addr \<Rightarrow> endpoint_addr option" where
  "direct_only_addr I r =
     Option.bind (ie_parse_id I (sr_id r)) (\<lambda>i.
     let ips = filter (\<lambda>a. is_public (sa_ip a)) (List.map_filter parse_socket_addr (sr_addrs r))
     in if ips = [] then None else Some \<lparr>ea_id = i, ea_ips = ips, ea_relay = None\<rparr>)"

section \<open>Entries\<close>

definition is_terrible :: "u64 \<Rightarrow> u64 \<Rightarrow> addr_entry \<Rightarrow> bool" where
  "is_terrible now expire_secs e \<longleftrightarrow>
     (if en_last_success e = 0 then en_failures e \<ge> 3 \<and> saturating_sub now (en_first_seen e) > 86400
      else saturating_sub now (en_last_success e) > expire_secs)"

definition entry_is_fresh :: "u64 \<Rightarrow> addr_entry \<Rightarrow> bool" where
  "entry_is_fresh now e \<longleftrightarrow> en_last_success e > 0 \<and> saturating_sub now (en_last_success e) \<le> FRESH_SECS"

section \<open>The book\<close>

record discovery_config =
  dc_expire_days :: u64
  dc_max_entries :: nat

record addr_book =
  ab_cfg :: discovery_config
  ab_nethash :: string
  ab_me :: endpoint_id
  ab_storage :: "(string, bytes) btmap option"
  ab_lookup :: "endpoint_addr list option"
  ab_entries :: "(endpoint_id, addr_entry) btmap"

definition addr_book_new ::
  "discovery_config \<Rightarrow> string \<Rightarrow> endpoint_id \<Rightarrow> (string, bytes) btmap option \<Rightarrow> endpoint_addr list option \<Rightarrow> addr_book" where
  "addr_book_new cfg nethash me storage look =
     \<lparr>ab_cfg = cfg, ab_nethash = nethash, ab_me = me, ab_storage = storage, ab_lookup = look, ab_entries = []\<rparr>"

definition expire_secs :: "addr_book \<Rightarrow> u64" where
  "expire_secs b = max (dc_expire_days (ab_cfg b)) 1 * 86400"

definition remove_addr_entry :: "string \<Rightarrow> addr_book \<Rightarrow> addr_book" where
  "remove_addr_entry i b = b\<lparr>ab_storage := map_option (bt_del i) (ab_storage b)\<rparr>"

definition persist :: "iroh_env \<Rightarrow> addr_entry \<Rightarrow> addr_book \<Rightarrow> addr_book" where
  "persist I e b =
     (case ie_to_json I e of
        None \<Rightarrow> b
      | Some bytes \<Rightarrow> b\<lparr>ab_storage := map_option (bt_put (sr_id (en_record e)) bytes) (ab_storage b)\<rparr>)"

definition add_endpoint_info :: "iroh_env \<Rightarrow> signed_addr \<Rightarrow> endpoint_id \<Rightarrow> addr_book \<Rightarrow> addr_book" where
  "add_endpoint_info I r i b = b\<lparr>ab_lookup := map_option (\<lambda>l. l @ [endpoint_addr_of I r i]) (ab_lookup b)\<rparr>"

definition load_one :: "crypto \<Rightarrow> iroh_env \<Rightarrow> u64 \<Rightarrow> bytes \<Rightarrow> addr_book \<times> nat \<Rightarrow> addr_book \<times> nat" where
  "load_one E I now raw bk =
     (case bk of (b, k) \<Rightarrow>
      case ie_of_json I raw of
        None \<Rightarrow> (b, k)
      | Some e \<Rightarrow>
          if is_terrible now (expire_secs b) e then (remove_addr_entry (sr_id (en_record e)) b, k)
          else (case verify_addr E I (ab_nethash b) now (u64_max div 2) (en_record e) of
                  Inl _ \<Rightarrow> (b, k)
                | Inr i \<Rightarrow>
                    ((add_endpoint_info I (en_record e) i b)\<lparr>ab_entries := bt_put i e (ab_entries b)\<rparr>, k + 1)))"

definition addr_load :: "crypto \<Rightarrow> iroh_env \<Rightarrow> u64 \<Rightarrow> addr_book \<Rightarrow> addr_book \<times> nat" where
  "addr_load E I now b =
     (case ab_storage b of
        None \<Rightarrow> (b, 0)
      | Some st \<Rightarrow> fold (load_one E I now) (map snd st) (b, 0))"

definition addr_insert :: "crypto \<Rightarrow> iroh_env \<Rightarrow> u64 \<Rightarrow> signed_addr \<Rightarrow> string \<Rightarrow> addr_book \<Rightarrow> addr_book \<times> bool res" where
  "addr_insert E I now r source b =
     (case verify_addr E I (ab_nethash b) now (expire_secs b) r of
        Inl e \<Rightarrow> (b, Inl e)
      | Inr i \<Rightarrow>
          if i = ab_me b then (b, Inr False)
          else if sr_addrs r = [] \<and> sr_relay r = None then (b, Inl (Sync ''no addresses''))
          else
            (let stored = (\<lambda>e. (persist I e (add_endpoint_info I (en_record e) i
                              (b\<lparr>ab_entries := bt_put i e (ab_entries b)\<rparr>)), Inr True))
             in case bt_get (ab_entries b) i of
                  Some e \<Rightarrow>
                    if sr_seq (en_record e) \<ge> sr_seq r
                    then (b\<lparr>ab_entries := bt_put i (e\<lparr>en_last_seen := now\<rparr>) (ab_entries b)\<rparr>, Inr False)
                    else stored (e\<lparr>en_record := r, en_last_seen := now\<rparr>)
                | None \<Rightarrow>
                    if length (ab_entries b) \<ge> max (dc_max_entries (ab_cfg b)) 1
                    then (b, Inl (Sync ''address book full''))
                    else stored \<lparr>en_record = r, en_first_seen = now, en_last_seen = now, en_last_success = 0,
                                 en_last_attempt = 0, en_failures = 0, en_source = source\<rparr>))"

definition addr_mark :: "iroh_env \<Rightarrow> u64 \<Rightarrow> endpoint_id \<Rightarrow> bool \<Rightarrow> addr_book \<Rightarrow> addr_book" where
  "addr_mark I now i success b =
     (case bt_get (ab_entries b) i of
        None \<Rightarrow> b
      | Some e \<Rightarrow>
          (let e = e\<lparr>en_last_attempt := now\<rparr>;
               e = (if success then e\<lparr>en_last_success := now, en_failures := 0\<rparr> else e\<lparr>en_failures := en_failures e + 1\<rparr>)
           in persist I e (b\<lparr>ab_entries := bt_put i e (ab_entries b)\<rparr>)))"

definition addr_evict :: "u64 \<Rightarrow> addr_book \<Rightarrow> addr_book \<times> nat" where
  "addr_evict now b =
     (let gone = filter (\<lambda>(i, e). is_terrible now (expire_secs b) e) (ab_entries b)
      in (fold (\<lambda>(i, e) b. remove_addr_entry (sr_id (en_record e)) (b\<lparr>ab_entries := bt_del i (ab_entries b)\<rparr>)) gone b,
          length gone))"

definition addr_fresh :: "u64 \<Rightarrow> nat \<Rightarrow> addr_book \<Rightarrow> signed_addr list" where
  "addr_fresh now limit b =
     map en_record (take (min limit MAX_RECORDS)
       (sort_key (\<lambda>e. - uint (en_last_success e)) (filter (entry_is_fresh now) (map snd (ab_entries b)))))"

definition addr_stale :: "u64 \<Rightarrow> nat \<Rightarrow> addr_book \<Rightarrow> endpoint_id list" where
  "addr_stale now limit b =
     map snd (take limit (sort (map (\<lambda>(i, e). (en_last_attempt e, i))
       (filter (\<lambda>(i, e). saturating_sub now (en_last_success e) > 3600 \<and> saturating_sub now (en_last_attempt e) > 1800)
         (ab_entries b)))))"

section \<open>What the book learns\<close>

text \<open>The records of one message, and how many of them were new.\<close>

fun insert_all :: "crypto \<Rightarrow> iroh_env \<Rightarrow> u64 \<Rightarrow> string \<Rightarrow> signed_addr list \<Rightarrow> addr_book \<Rightarrow> addr_book \<times> nat" where
  "insert_all E I now source [] b = (b, 0)"
| "insert_all E I now source (r # rs) b =
     (case addr_insert E I now r source b of
        (b, res) \<Rightarrow> (case insert_all E I now source rs b of (b, k) \<Rightarrow> (b, (if res = Inr True then 1 else 0) + k)))"

definition on_addrs :: "crypto \<Rightarrow> iroh_env \<Rightarrow> nat \<Rightarrow> u64 \<Rightarrow> endpoint_id \<Rightarrow> signed_addr list \<Rightarrow> iroh_peers \<times> addr_book \<Rightarrow> iroh_peers \<times> addr_book" where
  "on_addrs E I now now_unix from records pb =
     (seen now from None (fst pb), fst (insert_all E I now_unix ''gossip'' (take (RELAY_RECORDS + 1) records) (snd pb)))"

definition own_record ::
  "crypto \<Rightarrow> iroh_env \<Rightarrow> string \<Rightarrow> (string \<times> ip_addr) list \<Rightarrow> string list \<Rightarrow> bytes \<Rightarrow> string \<Rightarrow> u64 \<Rightarrow> signed_addr option" where
  "own_record E I pkg_version ip_addrs relay_urls secret nethash now =
     (let addrs = map fst (filter (\<lambda>(_, ip). is_public ip) ip_addrs);
          relay = (case relay_urls of [] \<Rightarrow> None | u # _ \<Rightarrow> Some u)
      in if addrs = [] \<and> relay = None then None else Some (sign_addr E I pkg_version secret nethash addrs relay now))"

definition announcement :: "signed_addr option \<Rightarrow> u64 \<Rightarrow> addr_book \<Rightarrow> signed_addr list option" where
  "announcement own now b = map_option (\<lambda>r. r # addr_fresh now RELAY_RECORDS b) own"

text \<open>A peer asked for its records answers with them, refuses with an error, or does not answer in time.\<close>

datatype addrs_reply = Records "signed_addr list" | RpcError bool | NoAnswer

definition crawl_one :: "crypto \<Rightarrow> iroh_env \<Rightarrow> endpoint_id \<times> u64 \<times> addrs_reply \<Rightarrow> addr_book \<Rightarrow> addr_book" where
  "crawl_one E I answer b =
     (case answer of (i, now, reply) \<Rightarrow>
      case reply of
        Records rs \<Rightarrow> fst (insert_all E I now ''rpc'' rs (addr_mark I now i True b))
      | RpcError invalid_request \<Rightarrow> addr_mark I now i invalid_request b
      | NoAnswer \<Rightarrow> addr_mark I now i False b)"

definition crawl_targets :: "u64 \<Rightarrow> endpoint_id \<Rightarrow> iroh_peers \<Rightarrow> addr_book \<Rightarrow> endpoint_id list" where
  "crawl_targets now me m b =
     remdups_adj (sort (take 3 (map ip_id (filter (\<lambda>p. ip_neighbor p \<and> ip_id p \<noteq> me) (iroh_snapshot m))) @ addr_stale now 6 b))"

definition mark_alive :: "iroh_env \<Rightarrow> nat \<Rightarrow> u64 \<Rightarrow> endpoint_id \<Rightarrow> iroh_peers \<Rightarrow> addr_book \<Rightarrow> addr_book" where
  "mark_alive I now now_unix me m =
     fold (\<lambda>p. if now - ip_last_seen p < secs 600 \<and> ip_id p \<noteq> me then addr_mark I now_unix (ip_id p) True else id) (iroh_snapshot m)"

definition legacy_addr_sources :: "nat \<Rightarrow> nat \<Rightarrow> peer_table \<Rightarrow> string list" where
  "legacy_addr_sources now k t = take k (map ps_ip (filter (\<lambda>p. ps_pq p \<and> ps_successes p > 0) (peer_snapshot now t)))"

definition pull_over_legacy ::
  "crypto \<Rightarrow> iroh_env \<Rightarrow> nat \<Rightarrow> u64 \<Rightarrow> nat \<Rightarrow> peer_table \<Rightarrow> (string \<Rightarrow> signed_addr list option) \<Rightarrow> addr_book \<Rightarrow> addr_book \<times> nat" where
  "pull_over_legacy E I now now_unix k t get_pq_addrs b =
     fold (\<lambda>ip (b, total). case get_pq_addrs ip of
             None \<Rightarrow> (b, total)
           | Some rs \<Rightarrow> (case insert_all E I now_unix ''legacy'' rs b of (b, fresh) \<Rightarrow> (b, total + fresh)))
       (legacy_addr_sources now k t) (b, 0)"

text \<open>One turn of the crawler. The answers to its questions come one after another, each at its own time.\<close>

definition crawl_turn ::
  "crypto \<Rightarrow> iroh_env \<Rightarrow> nat \<Rightarrow> u64 \<Rightarrow> endpoint_id \<Rightarrow> iroh_peers \<Rightarrow> peer_table option \<Rightarrow> (endpoint_id \<Rightarrow> u64 \<times> addrs_reply)
     \<Rightarrow> (string \<Rightarrow> signed_addr list option) \<Rightarrow> addr_book \<Rightarrow> addr_book" where
  "crawl_turn E I now now_unix me m legacy ask get_pq_addrs b =
     (let b = mark_alive I now now_unix me m b;
          b = fold (\<lambda>i. crawl_one E I (i, ask i)) (crawl_targets now_unix me m b) b;
          b = fst (addr_evict now_unix b)
      in case legacy of None \<Rightarrow> b | Some t \<Rightarrow> fst (pull_over_legacy E I now now_unix 4 t get_pq_addrs b))"

section \<open>Bootstrap entries\<close>

definition parse_endpoint_id :: "iroh_env \<Rightarrow> string \<Rightarrow> endpoint_id res" where
  "parse_endpoint_id I s = ok_or (Config ''invalid iroh EndpointId'') (ie_parse_id I (trim s))"

definition parse_bootstrap :: "iroh_env \<Rightarrow> string \<Rightarrow> (endpoint_id \<times> socket_addr option) res" where
  "parse_bootstrap I s =
     (case split_once (CHR ''@'') s of
        Some (i, addr) \<Rightarrow>
          rbind (ok_or (Config ''bad ip:port'') (parse_socket_addr (trim addr))) (\<lambda>sock.
          rbind (parse_endpoint_id I (trim i)) (\<lambda>i. Inr (i, Some sock)))
      | None \<Rightarrow> rbind (parse_endpoint_id I (trim s)) (\<lambda>i. Inr (i, None)))"

end
