(* ===== verification/AddrBookProps.thy ===== *)
theory AddrBookProps
  imports AddrBook RefCrypto
begin

text \<open>
  Theorems on the address book: what is in it was signed by the node it is about, two books that got the same
  records agree on them whatever the order, and the signature does not fix where the addresses end and the
  relay begins.
\<close>

section \<open>The entries of a book\<close>

text \<open>A record that \<open>verify\<close> accepted as the record of a node: everything but the time window, which moves.\<close>

definition record_ok :: "crypto \<Rightarrow> iroh_env \<Rightarrow> string \<Rightarrow> endpoint_id \<Rightarrow> signed_addr \<Rightarrow> bool" where
  "record_ok E I nethash i r \<longleftrightarrow>
     sr_v r = 1 \<and> length (sr_addrs r) \<le> MAX_ADDRS \<and> list_all public_addr (sr_addrs r) \<and> ie_parse_id I (sr_id r) = Some i
     \<and> (\<exists>sig. hex_decode E (sr_signature r) = Some sig \<and> length sig = 64
          \<and> ie_verify I i (addr_message E nethash (sr_id r) (sr_seq r) (sr_addrs r) (sr_relay r)) sig)"

definition in_window :: "u64 \<Rightarrow> u64 \<Rightarrow> signed_addr \<Rightarrow> bool" where
  "in_window now expire r \<longleftrightarrow> sr_seq r \<le> now + FUTURE_SKEW \<and> now \<le> sr_seq r + expire"

lemma verify_addr_iff:
  "verify_addr E I nethash now expire r = Inr i \<longleftrightarrow> record_ok E I nethash i r \<and> in_window now expire r"
  by (cases "ie_parse_id I (sr_id r)"; cases "hex_decode E (sr_signature r)")
    (auto simp: verify_addr_def record_ok_def in_window_def list_all_iff list_ex_iff not_less)

definition record_of :: "addr_book \<Rightarrow> endpoint_id \<Rightarrow> signed_addr option" where
  "record_of b i = map_option en_record (bt_get (ab_entries b) i)"

definition book_ok :: "crypto \<Rightarrow> iroh_env \<Rightarrow> addr_book \<Rightarrow> bool" where
  "book_ok E I b \<longleftrightarrow> bt_wf (ab_entries b) \<and> (\<forall>i r. record_of b i = Some r \<longrightarrow> record_ok E I (ab_nethash b) i r)"

lemma book_ok_new [simp]: "book_ok E I (addr_book_new cfg nethash me st l)"
  by (simp add: book_ok_def addr_book_new_def record_of_def)

lemma book_ok_put:
  assumes "book_ok E I b" "record_ok E I (ab_nethash b) i (en_record e)"
    "ab_entries b' = bt_put i e (ab_entries b)" "ab_nethash b' = ab_nethash b"
  shows "book_ok E I b'"
  using assms by (auto simp: book_ok_def record_of_def)

text \<open>The store and the lookup are apart from the entries.\<close>

lemma side_effects [simp]:
  "ab_entries (persist I e b) = ab_entries b" "ab_entries (add_endpoint_info I r i b) = ab_entries b"
  "ab_entries (remove_addr_entry j b) = ab_entries b"
  "ab_nethash (persist I e b) = ab_nethash b" "ab_nethash (add_endpoint_info I r i b) = ab_nethash b"
  "ab_nethash (remove_addr_entry j b) = ab_nethash b"
  "ab_me (persist I e b) = ab_me b" "ab_me (add_endpoint_info I r i b) = ab_me b" "ab_me (remove_addr_entry j b) = ab_me b"
  "ab_cfg (persist I e b) = ab_cfg b" "ab_cfg (add_endpoint_info I r i b) = ab_cfg b" "ab_cfg (remove_addr_entry j b) = ab_cfg b"
  by (auto simp: persist_def add_endpoint_info_def remove_addr_entry_def split: option.splits)

text \<open>The node an insertion is about, when it gets as far as the entries, and what it does to them.\<close>

definition takes :: "crypto \<Rightarrow> iroh_env \<Rightarrow> u64 \<Rightarrow> signed_addr \<Rightarrow> addr_book \<Rightarrow> endpoint_id option" where
  "takes E I now r b =
     (case verify_addr E I (ab_nethash b) now (expire_secs b) r of
        Inl _ \<Rightarrow> None
      | Inr i \<Rightarrow> if i = ab_me b \<or> sr_addrs r = [] \<and> sr_relay r = None then None else Some i)"

definition full :: "addr_book \<Rightarrow> bool" where
  "full b \<longleftrightarrow> length (ab_entries b) \<ge> max (dc_max_entries (ab_cfg b)) 1"

definition newest :: "signed_addr option \<Rightarrow> signed_addr \<Rightarrow> signed_addr" where
  "newest old r = (case old of None \<Rightarrow> r | Some r0 \<Rightarrow> if sr_seq r0 \<ge> sr_seq r then r0 else r)"

lemma takes_record_ok: "takes E I now r b = Some i \<Longrightarrow> record_ok E I (ab_nethash b) i r \<and> i \<noteq> ab_me b"
  by (auto simp: takes_def verify_addr_iff split: sum.splits if_splits)

lemma addr_insert_entries:
  "\<exists>f. ab_entries (fst (addr_insert E I now r src b)) =
     (case takes E I now r b of
        None \<Rightarrow> ab_entries b
      | Some i \<Rightarrow>
          if bt_get (ab_entries b) i = None \<and> full b then ab_entries b
          else bt_put i (f (newest (record_of b i) r)) (ab_entries b)) \<and> (\<forall>x. en_record (f x) = x)"
proof (cases "takes E I now r b")
  case None
  then show ?thesis
    by (intro exI [of _ "\<lambda>x. undefined\<lparr>en_record := x\<rparr>"])
      (auto simp: takes_def addr_insert_def split: sum.splits if_splits)
next
  case (Some i)
  then have v: "verify_addr E I (ab_nethash b) now (expire_secs b) r = Inr i" "i \<noteq> ab_me b" "\<not> (sr_addrs r = [] \<and> sr_relay r = None)"
    by (auto simp: takes_def split: sum.splits if_splits)
  show ?thesis
  proof (cases "bt_get (ab_entries b) i")
    case None
    with v Some show ?thesis
      by (intro exI [of _ "\<lambda>x. \<lparr>en_record = x, en_first_seen = now, en_last_seen = now, en_last_success = 0,
            en_last_attempt = 0, en_failures = 0, en_source = src\<rparr>"])
        (auto simp: addr_insert_def full_def newest_def record_of_def Let_def)
  next
    case (Some e)
    with v \<open>takes E I now r b = Some i\<close> show ?thesis
      by (intro exI [of _ "\<lambda>x. e\<lparr>en_record := x, en_last_seen := now\<rparr>"])
        (auto simp: addr_insert_def newest_def record_of_def Let_def)
  qed
qed

lemma addr_insert_frame [simp]:
  "ab_nethash (fst (addr_insert E I now r src b)) = ab_nethash b" "ab_me (fst (addr_insert E I now r src b)) = ab_me b"
  "ab_cfg (fst (addr_insert E I now r src b)) = ab_cfg b"
  by (auto simp: addr_insert_def Let_def split: sum.splits option.splits)

lemma addr_mark_frame [simp]:
  "ab_nethash (addr_mark I now i ok b) = ab_nethash b" "ab_me (addr_mark I now i ok b) = ab_me b"
  "ab_cfg (addr_mark I now i ok b) = ab_cfg b"
  by (auto simp: addr_mark_def Let_def split: option.splits)

text \<open>Insertion refines the map from nodes to their newest record; a mark leaves it alone.\<close>

lemma record_of_insert:
  "record_of (fst (addr_insert E I now r src b)) j =
     (if takes E I now r b = Some j \<and> \<not> (bt_get (ab_entries b) j = None \<and> full b)
      then Some (newest (record_of b j) r) else record_of b j)"
proof -
  obtain f where f: "\<forall>x. en_record (f x) = x" and
    e: "ab_entries (fst (addr_insert E I now r src b)) =
     (case takes E I now r b of
        None \<Rightarrow> ab_entries b
      | Some i \<Rightarrow>
          if bt_get (ab_entries b) i = None \<and> full b then ab_entries b
          else bt_put i (f (newest (record_of b i) r)) (ab_entries b))"
    using addr_insert_entries [of E I now r src b] by (elim exE conjE)
  show ?thesis
  proof (cases "takes E I now r b")
    case None
    then show ?thesis by (simp add: record_of_def e)
  next
    case (Some i)
    then show ?thesis unfolding record_of_def [of "fst _"] e using f by (simp add: record_of_def)
  qed
qed

lemma bt_get_mark:
  "map_option en_record (bt_get (ab_entries (addr_mark I now i ok b)) j) = map_option en_record (bt_get (ab_entries b) j)"
  by (auto simp: addr_mark_def Let_def split: option.splits)

lemma record_of_mark [simp]: "record_of (addr_mark I now i ok b) = record_of b"
  unfolding record_of_def bt_get_mark ..

section \<open>What every operation keeps\<close>

text \<open>Whatever insertion, marking and eviction keep, the loops around them keep.\<close>

locale book_invariant =
  fixes E :: crypto and I :: iroh_env and P :: "addr_book \<Rightarrow> bool"
  assumes keeps_insert: "P b \<Longrightarrow> P (fst (addr_insert E I now r src b))"
    and keeps_mark: "P b \<Longrightarrow> P (addr_mark I now i ok b)"
    and keeps_evict: "P b \<Longrightarrow> P (fst (addr_evict now b))"
begin

lemma keeps_insert_all: "P b \<Longrightarrow> P (fst (insert_all E I now src rs b))"
proof (induction rs arbitrary: b)
  case (Cons r rs)
  then show ?case
    using keeps_insert [OF Cons.prems, of now r src] by (simp add: case_prod_unfold)
qed simp

lemma keeps_fold: "(\<And>x b. P b \<Longrightarrow> P (f x b)) \<Longrightarrow> P b \<Longrightarrow> P (fold f xs b)"
  by (induction xs arbitrary: b) simp_all

lemma keeps_on_addrs: "P (snd pb) \<Longrightarrow> P (snd (on_addrs E I now now_unix from rs pb))"
  by (simp add: on_addrs_def keeps_insert_all)

lemma keeps_mark_alive: "P b \<Longrightarrow> P (mark_alive I now now_unix me m b)"
  unfolding mark_alive_def by (rule keeps_fold) (simp_all add: keeps_mark)

lemma keeps_crawl_one: "P b \<Longrightarrow> P (crawl_one E I answer b)"
  by (auto simp: crawl_one_def keeps_mark keeps_insert_all split: prod.splits addrs_reply.splits)

lemma keeps_pull_over_legacy: "P b \<Longrightarrow> P (fst (pull_over_legacy E I now now_unix k t get b))"
proof -
  assume "P b"
  have "P (fst (fold (\<lambda>ip (b, total). case get ip of
             None \<Rightarrow> (b, total)
           | Some rs \<Rightarrow> (case insert_all E I now_unix ''legacy'' rs b of (b, fresh) \<Rightarrow> (b, total + fresh))) ips (b, total)))"
    if "P b" for ips b and total :: nat
    using that
  proof (induction ips arbitrary: b total)
    case (Cons ip ips)
    show ?case
    proof (cases "get ip")
      case None
      with Cons show ?thesis by simp
    next
      case (Some rs)
      with Cons.IH [OF keeps_insert_all [OF Cons.prems]] show ?thesis by (simp add: case_prod_unfold)
    qed
  qed simp
  then show ?thesis using \<open>P b\<close> by (simp add: pull_over_legacy_def)
qed

lemma keeps_crawl_turn: "P b \<Longrightarrow> P (crawl_turn E I now now_unix me m legacy ask get b)"
proof -
  assume "P b"
  define b1 where "b1 = mark_alive I now now_unix me m b"
  define b2 where "b2 = fold (\<lambda>i. crawl_one E I (i, ask i)) (crawl_targets now_unix me m b1) b1"
  have "P b1" unfolding b1_def using \<open>P b\<close> by (rule keeps_mark_alive)
  then have "P b2" unfolding b2_def by (intro keeps_fold keeps_crawl_one)
  then have "P (fst (addr_evict now_unix b2))" by (rule keeps_evict)
  then show ?thesis
    by (auto simp: crawl_turn_def b2_def b1_def Let_def keeps_pull_over_legacy split: option.split)
qed

end

lemma addr_evict_entries:
  assumes "bt_wf (ab_entries b)"
  shows "ab_entries (fst (addr_evict now b)) = filter (\<lambda>(i, e). \<not> is_terrible now (expire_secs b) e) (ab_entries b)"
    "ab_nethash (fst (addr_evict now b)) = ab_nethash b" "ab_cfg (fst (addr_evict now b)) = ab_cfg b"
    "ab_me (fst (addr_evict now b)) = ab_me b"
proof -
  let ?del = "\<lambda>(i, e) b. remove_addr_entry (sr_id (en_record e)) (b\<lparr>ab_entries := bt_del i (ab_entries b)\<rparr>)"
  have f: "ab_entries (fold ?del gone b) = filter (\<lambda>(i, e). i \<notin> fst ` set gone) (ab_entries b)
      \<and> ab_nethash (fold ?del gone b) = ab_nethash b \<and> ab_cfg (fold ?del gone b) = ab_cfg b \<and> ab_me (fold ?del gone b) = ab_me b"
    for gone b
    by (induction gone arbitrary: b) (auto simp: bt_del_def case_prod_unfold intro: filter_cong)
  let ?gone = "filter (\<lambda>(i, e). is_terrible now (expire_secs b) e) (ab_entries b)"
  have "e' = e" if "(i, e) \<in> set (ab_entries b)" "(i, e') \<in> set (ab_entries b)" for i e e'
    using that [THEN bt_get_SomeI [OF assms]] by simp
  then have "i \<in> fst ` set ?gone \<longleftrightarrow> is_terrible now (expire_secs b) e" if "(i, e) \<in> set (ab_entries b)" for i e
    using that by (auto simp: image_iff)
  then have "filter (\<lambda>(i, e). i \<notin> fst ` set ?gone) (ab_entries b)
      = filter (\<lambda>(i, e). \<not> is_terrible now (expire_secs b) e) (ab_entries b)"
    by (intro filter_cong) auto
  then show "ab_entries (fst (addr_evict now b)) = filter (\<lambda>(i, e). \<not> is_terrible now (expire_secs b) e) (ab_entries b)"
    using f [of ?gone b] by (simp add: addr_evict_def Let_def)
  show "ab_nethash (fst (addr_evict now b)) = ab_nethash b" "ab_cfg (fst (addr_evict now b)) = ab_cfg b"
    "ab_me (fst (addr_evict now b)) = ab_me b"
    using f [of ?gone b] by (simp_all add: addr_evict_def Let_def)
qed

section \<open>Sound books\<close>

definition good_book :: "crypto \<Rightarrow> iroh_env \<Rightarrow> string \<Rightarrow> nat \<Rightarrow> addr_book \<Rightarrow> bool" where
  "good_book E I nethash cap b \<longleftrightarrow> book_ok E I b \<and> ab_nethash b = nethash
     \<and> max (dc_max_entries (ab_cfg b)) 1 \<le> cap \<and> length (ab_entries b) \<le> cap"

lemma length_bt_put: "bt_wf m \<Longrightarrow> length (bt_put k v m) = length m + (if bt_get m k = None then 1 else 0)"
  by (induction k v m rule: bt_put.induct) (auto simp: bt_wf_Cons bt_get_None_iff dest: order.asym)

lemma good_book_insert:
  assumes "good_book E I nethash cap b"
  shows "good_book E I nethash cap (fst (addr_insert E I now r src b))"
proof -
  let ?b = "fst (addr_insert E I now r src b)"
  have ok: "book_ok E I b" and wf: "bt_wf (ab_entries b)" and cap: "max (dc_max_entries (ab_cfg b)) 1 \<le> cap" "length (ab_entries b) \<le> cap"
    using assms by (auto simp: good_book_def book_ok_def)
  obtain f where
    e: "ab_entries ?b =
     (case takes E I now r b of
        None \<Rightarrow> ab_entries b
      | Some i \<Rightarrow>
          if bt_get (ab_entries b) i = None \<and> full b then ab_entries b
          else bt_put i (f (newest (record_of b i) r)) (ab_entries b))"
    using addr_insert_entries [of E I now r src b] by (elim exE conjE)
  have wf': "bt_wf (ab_entries ?b)" unfolding e using wf by (simp split: option.split)
  have len: "length (ab_entries ?b) \<le> cap"
    unfolding e using wf cap by (auto simp: length_bt_put full_def split: option.split)
  have "record_ok E I (ab_nethash b) j x" if "record_of ?b j = Some x" for j x
  proof (cases "takes E I now r b = Some j")
    case True
    with that ok show ?thesis
      using takes_record_ok [OF True] by (auto simp: record_of_insert book_ok_def newest_def split: if_splits option.splits)
  next
    case False
    with that ok show ?thesis by (auto simp: record_of_insert book_ok_def)
  qed
  with wf' len assms show ?thesis by (auto simp: good_book_def book_ok_def)
qed

lemma good_book_mark:
  assumes "good_book E I nethash cap b"
  shows "good_book E I nethash cap (addr_mark I now i ok b)"
proof -
  have "bt_wf (ab_entries (addr_mark I now i ok b)) \<and> length (ab_entries (addr_mark I now i ok b)) = length (ab_entries b)"
    using assms by (auto simp: good_book_def book_ok_def addr_mark_def Let_def length_bt_put split: option.splits)
  then show ?thesis using assms by (auto simp: good_book_def book_ok_def)
qed

lemma good_book_evict:
  assumes "good_book E I nethash cap b"
  shows "good_book E I nethash cap (fst (addr_evict now b))"
proof -
  have wf: "bt_wf (ab_entries b)" using assms by (simp add: good_book_def book_ok_def)
  have sub: "record_of (fst (addr_evict now b)) i = Some r \<Longrightarrow> record_of b i = Some r" for i r
    using wf by (auto simp: record_of_def addr_evict_entries dest!: bt_get_SomeD [of "filter _ _"]) (auto dest: bt_get_SomeI)
  have "bt_wf (filter (\<lambda>(i, e). \<not> is_terrible now (expire_secs b) e) (ab_entries b))"
    using wf by (simp add: bt_wf_def sorted_wrt_map sorted_wrt_filter)
  moreover have "length (filter (\<lambda>(i, e). \<not> is_terrible now (expire_secs b) e) (ab_entries b)) \<le> cap"
    using assms by (intro order_trans [OF length_filter_le]) (simp add: good_book_def)
  ultimately show ?thesis
    using assms sub by (auto simp: good_book_def book_ok_def addr_evict_entries [OF wf])
qed

interpretation gb: book_invariant E I "good_book E I nethash cap" for E I nethash cap
  by unfold_locales (rule good_book_insert good_book_mark good_book_evict; assumption)+

lemma good_book_load:
  assumes "good_book E I nethash cap b"
  shows "good_book E I nethash (cap + length raws) (fst (fold (load_one E I now) raws (b, k)))"
  using assms
proof (induction raws arbitrary: b cap k)
  case (Cons raw raws)
  have weak: "good_book E I nethash (cap + 1) b"
    using Cons.prems by (auto simp: good_book_def)
  have "good_book E I nethash (cap + 1) (fst (load_one E I now raw (b, k)))"
  proof (cases "\<exists>e i. ie_of_json I raw = Some e \<and> \<not> is_terrible now (expire_secs b) e
      \<and> verify_addr E I (ab_nethash b) now (u64_max div 2) (en_record e) = Inr i")
    case True
    then obtain e i where e: "ie_of_json I raw = Some e" "\<not> is_terrible now (expire_secs b) e"
      "verify_addr E I (ab_nethash b) now (u64_max div 2) (en_record e) = Inr i" by blast
    then have "record_ok E I (ab_nethash b) i (en_record e)" by (simp add: verify_addr_iff)
    with e Cons.prems show ?thesis
      by (auto simp: load_one_def good_book_def length_bt_put book_ok_def record_of_def)
  next
    case False
    then show ?thesis
      using weak by (auto simp: load_one_def good_book_def book_ok_def record_of_def split: option.splits sum.splits)
  qed
  then show ?case
    using Cons.IH [of "cap + 1" "fst (load_one E I now raw (b, k))" "snd (load_one E I now raw (b, k))"] by simp
qed simp

text \<open>A book at work: it is filled from the store, then told records by gossip, by the crawler and over the legacy
  port, marked and cleaned.\<close>

datatype book_event =
    GossipAddrs nat u64 endpoint_id "signed_addr list" iroh_peers
  | CrawlTurn nat u64 iroh_peers "peer_table option" "endpoint_id \<Rightarrow> u64 \<times> addrs_reply" "string \<Rightarrow> signed_addr list option"
  | PullLegacyAddrs nat u64 nat peer_table "string \<Rightarrow> signed_addr list option"
  | MarkPeer u64 endpoint_id bool
  | EvictDead u64

fun book_turn :: "crypto \<Rightarrow> iroh_env \<Rightarrow> book_event \<Rightarrow> addr_book \<Rightarrow> addr_book" where
  "book_turn E I (GossipAddrs now now_unix from rs m) b = snd (on_addrs E I now now_unix from rs (m, b))"
| "book_turn E I (CrawlTurn now now_unix m legacy ask get) b = crawl_turn E I now now_unix (ab_me b) m legacy ask get b"
| "book_turn E I (PullLegacyAddrs now now_unix k t get) b = fst (pull_over_legacy E I now now_unix k t get b)"
| "book_turn E I (MarkPeer now i ok) b = addr_mark I now i ok b"
| "book_turn E I (EvictDead now) b = fst (addr_evict now b)"

lemma good_book_event: "good_book E I nethash cap b \<Longrightarrow> good_book E I nethash cap (book_turn E I ev b)"
  by (cases ev) (simp_all add: gb.keeps_on_addrs gb.keeps_crawl_turn gb.keeps_pull_over_legacy gb.keeps_mark gb.keeps_evict)

lemma good_book_start:
  "good_book E I nethash (max (dc_max_entries cfg) 1 + length (case st of None \<Rightarrow> [] | Some s \<Rightarrow> s))
     (fst (addr_load E I now (addr_book_new cfg nethash me st l)))"
proof -
  have "good_book E I nethash (max (dc_max_entries cfg) 1) (addr_book_new cfg nethash me st l)"
    unfolding good_book_def by simp (simp add: addr_book_new_def)
  from good_book_load [OF this, of "map snd (case st of None \<Rightarrow> [] | Some s \<Rightarrow> s)" now 0] show ?thesis
    using \<open>good_book E I nethash (max (dc_max_entries cfg) 1) (addr_book_new cfg nethash me st l)\<close>
    by (cases st) (simp_all add: addr_load_def addr_book_new_def)
qed

lemma addr_fresh_records: "r \<in> set (addr_fresh now limit b) \<Longrightarrow> bt_wf (ab_entries b) \<Longrightarrow> \<exists>i. record_of b i = Some r"
  by (auto simp: addr_fresh_def record_of_def dest!: in_set_takeD intro: bt_get_SomeI) (metis bt_get_SomeI)

text \<open>C19. Whatever is in the store at the start and whatever other nodes send, every record of the address book was
  signed for this network by the node it is filed under and names at most eight addresses, all of them public;
  the book never holds more than its limit beyond what the store held, and what it passes on are at most
  \<open>min limit 100\<close> such records.\<close>

theorem address_book_sound:
  fixes E I cfg nethash me st l now0 evs
  defines "b \<equiv> fold (book_turn E I) evs (fst (addr_load E I now0 (addr_book_new cfg nethash me st l)))"
  shows "(\<forall>i r. record_of b i = Some r \<longrightarrow> record_ok E I nethash i r)
    \<and> length (ab_entries b) \<le> max (dc_max_entries cfg) 1 + length (case st of None \<Rightarrow> [] | Some s \<Rightarrow> s)
    \<and> length (addr_fresh now limit b) \<le> min limit 100
    \<and> (\<forall>r \<in> set (addr_fresh now limit b). \<exists>i. record_ok E I nethash i r)"
proof -
  have "good_book E I nethash (max (dc_max_entries cfg) 1 + length (case st of None \<Rightarrow> [] | Some s \<Rightarrow> s)) b"
    unfolding b_def by (rule gb.keeps_fold) (rule good_book_event good_book_start; assumption?)+
  then have g: "book_ok E I b" "ab_nethash b = nethash"
    "length (ab_entries b) \<le> max (dc_max_entries cfg) 1 + length (case st of None \<Rightarrow> [] | Some s \<Rightarrow> s)"
    by (simp_all add: good_book_def)
  have "length (addr_fresh now limit b) \<le> min limit 100"
    by (simp add: addr_fresh_def MAX_RECORDS_def min.coboundedI2)
  with g show ?thesis
    using addr_fresh_records [of _ now limit b] unfolding book_ok_def by blast
qed

section \<open>Convergence\<close>

text \<open>What is delivered to a book: records and marks, in any order and at any times.\<close>

datatype delivery = Told u64 signed_addr string | Marked u64 endpoint_id bool

fun tell :: "crypto \<Rightarrow> iroh_env \<Rightarrow> delivery \<Rightarrow> addr_book \<Rightarrow> addr_book" where
  "tell E I (Told now r src) b = fst (addr_insert E I now r src b)"
| "tell E I (Marked now i ok) b = addr_mark I now i ok b"

fun told :: "crypto \<Rightarrow> iroh_env \<Rightarrow> addr_book \<Rightarrow> delivery \<Rightarrow> (endpoint_id \<times> signed_addr) option" where
  "told E I b (Told now r src) = map_option (\<lambda>i. (i, r)) (takes E I now r b)"
| "told E I b (Marked now i ok) = None"

definition records_for :: "crypto \<Rightarrow> iroh_env \<Rightarrow> addr_book \<Rightarrow> delivery list \<Rightarrow> endpoint_id \<Rightarrow> signed_addr list" where
  "records_for E I b ds i = map snd (filter (\<lambda>(j, r). j = i) (List.map_filter (told E I b) ds))"

text \<open>A book has room for the deliveries when all the nodes they are about fit in.\<close>

definition room_for :: "crypto \<Rightarrow> iroh_env \<Rightarrow> addr_book \<Rightarrow> delivery list \<Rightarrow> bool" where
  "room_for E I b ds \<longleftrightarrow>
     card (dom (record_of b) \<union> fst ` set (List.map_filter (told E I b) ds)) \<le> max (dc_max_entries (ab_cfg b)) 1"


lemma dom_record_of: "dom (record_of b) = fst ` set (ab_entries b)"
  by (auto simp: record_of_def dom_def) (metis bt_get_None_iff fst_conv image_eqI not_Some_eq bt_get_SomeD option.distinct(1))+

lemma length_entries: "bt_wf (ab_entries b) \<Longrightarrow> length (ab_entries b) = card (dom (record_of b))"
  using bt_wf_distinct [of "ab_entries b"] unfolding dom_record_of
  by (metis distinct_card length_map list.set_map)

lemma tell_frame [simp]:
  "ab_nethash (tell E I d b) = ab_nethash b" "ab_me (tell E I d b) = ab_me b" "ab_cfg (tell E I d b) = ab_cfg b"
  by (cases d; simp)+

lemma takes_frame:
  "ab_nethash b' = ab_nethash b \<Longrightarrow> ab_me b' = ab_me b \<Longrightarrow> ab_cfg b' = ab_cfg b \<Longrightarrow> takes E I now r b' = takes E I now r b"
  by (simp add: takes_def expire_secs_def cong: sum.case_cong)

lemma told_tell [simp]: "told E I (tell E I d b) = told E I b"
proof
  fix x
  show "told E I (tell E I d b) x = told E I b x"
    by (cases x) (simp_all add: takes_frame [of "tell E I d b" b])
qed

lemma wf_tell: "bt_wf (ab_entries b) \<Longrightarrow> bt_wf (ab_entries (tell E I d b))"
  by (cases d) (auto simp: addr_insert_def addr_mark_def Let_def split: sum.splits option.splits)

lemma record_of_tell:
  assumes "bt_wf (ab_entries b)" "room_for E I b (d # ds)"
  shows "record_of (tell E I d b) i =
    (case told E I b d of None \<Rightarrow> record_of b i
     | Some (j, r) \<Rightarrow> if j = i then Some (newest (record_of b i) r) else record_of b i)"
proof (cases d)
  case (Told now r src)
  have "\<not> (bt_get (ab_entries b) j = None \<and> full b)" if "takes E I now r b = Some j" for j
  proof
    assume a: "bt_get (ab_entries b) j = None \<and> full b"
    then have "j \<notin> dom (record_of b)" by (auto simp: record_of_def)
    moreover have fin: "finite (dom (record_of b))" by (simp add: dom_record_of)
    ultimately have "Suc (card (dom (record_of b))) = card (insert j (dom (record_of b)))" by simp
    also have "\<dots> \<le> card (dom (record_of b) \<union> fst ` set (List.map_filter (told E I b) (d # ds)))"
      using that Told fin by (intro card_mono) (auto simp: List.map_filter_def)
    also have "\<dots> \<le> max (dc_max_entries (ab_cfg b)) 1" using assms(2) by (simp add: room_for_def)
    finally show False using a length_entries [OF assms(1)] by (auto simp: full_def max_def split: if_splits)
  qed
  then show ?thesis using Told by (auto simp: record_of_insert split: option.split)
qed simp

lemma room_for_tell:
  assumes "bt_wf (ab_entries b)" "room_for E I b (d # ds)"
  shows "room_for E I (tell E I d b) ds"
proof -
  let ?A = "dom (record_of b) \<union> fst ` set (List.map_filter (told E I b) (d # ds))"
  have "dom (record_of (tell E I d b)) \<union> fst ` set (List.map_filter (told E I b) ds) \<subseteq> ?A"
    using record_of_tell [OF assms] by (cases "told E I b d") (auto simp: List.map_filter_simps split: if_splits)
  then have "card (dom (record_of (tell E I d b)) \<union> fst ` set (List.map_filter (told E I b) ds)) \<le> card ?A"
    by (rule card_mono [rotated]) (simp add: dom_record_of)
  then show ?thesis using assms(2) by (simp add: room_for_def)
qed

lemma record_of_tell_all:
  assumes "bt_wf (ab_entries b)" "room_for E I b ds"
  shows "record_of (fold (tell E I) ds b) i = fold (\<lambda>r old. Some (newest old r)) (records_for E I b ds i) (record_of b i)"
  using assms
proof (induction ds arbitrary: b)
  case (Cons d ds)
  have "record_of (fold (tell E I) ds (tell E I d b)) i
      = fold (\<lambda>r old. Some (newest old r)) (records_for E I (tell E I d b) ds i) (record_of (tell E I d b) i)"
    using Cons.prems by (intro Cons.IH wf_tell room_for_tell)
  then show ?case
    using record_of_tell [OF Cons.prems, of i]
    by (simp add: records_for_def List.map_filter_simps split: option.split)
qed (simp add: records_for_def List.map_filter_simps)

lemma fold_newest:
  "\<exists>r0. fold (\<lambda>r old. Some (newest old r)) (r # rs) old = Some r0 \<and> (r0 \<in> set (r # rs) \<or> old = Some r0)
     \<and> (\<forall>x \<in> set (r # rs) \<union> set_option old. sr_seq x \<le> sr_seq r0)"
proof (induction rs arbitrary: r old)
  case Nil
  show ?case by (cases old) (auto simp: newest_def)
next
  case (Cons r' rs)
  obtain r0 where r0: "fold (\<lambda>r old. Some (newest old r)) (r' # rs) (Some (newest old r)) = Some r0"
    "r0 \<in> set (r' # rs) \<or> newest old r = r0" "\<forall>x \<in> set (r' # rs) \<union> {newest old r}. sr_seq x \<le> sr_seq r0"
    using Cons.IH [of r' "Some (newest old r)"] by auto
  have "sr_seq x \<le> sr_seq (newest old r)" if "x = r \<or> old = Some x" for x
    using that by (cases old) (auto simp: newest_def)
  moreover have "newest old r = r \<or> old = Some (newest old r)" by (cases old) (auto simp: newest_def)
  ultimately show ?case using r0 by (intro exI [of _ r0]) (auto intro: order_trans)
qed

text \<open>C20. Two address books that start empty and have room, and were told the same records of a node, in whatever order,
  however often and mixed with whatever else, end up with records of it of the same time, the newest they were
  told; and with the very same record when no two different accepted records of the node share their time. (A node
  signs one record per second, so an honest node's records do not; a record hollowed by whoever relays it does,
  and then the books may keep different ones of the two.)\<close>

theorem address_books_converge:
  assumes "room_for E I b1 ds1" "room_for E I b2 ds2" "ab_entries b1 = []" "ab_entries b2 = []"
    and same: "set (records_for E I b1 ds1 i) = set (records_for E I b2 ds2 i)"
  shows "map_option sr_seq (record_of (fold (tell E I) ds1 b1) i) = map_option sr_seq (record_of (fold (tell E I) ds2 b2) i)
    \<and> (inj_on sr_seq (set (records_for E I b1 ds1 i)) \<longrightarrow>
        record_of (fold (tell E I) ds1 b1) i = record_of (fold (tell E I) ds2 b2) i)
    \<and> (\<forall>r \<in> set (records_for E I b1 ds1 i). \<exists>r0. record_of (fold (tell E I) ds1 b1) i = Some r0 \<and> sr_seq r \<le> sr_seq r0)"
proof -
  let ?f = "\<lambda>r old. Some (newest old r)"
  have e: "record_of (fold (tell E I) ds1 b1) i = fold ?f (records_for E I b1 ds1 i) None"
    "record_of (fold (tell E I) ds2 b2) i = fold ?f (records_for E I b2 ds2 i) None"
    using assms by (simp_all add: record_of_tell_all) (simp_all add: record_of_def)
  show ?thesis
  proof (cases "records_for E I b1 ds1 i")
    case Nil
    with same have "records_for E I b2 ds2 i = []" by simp
    with Nil e show ?thesis by simp
  next
    case (Cons r rs)
    with same obtain r' rs' where c2: "records_for E I b2 ds2 i = r' # rs'" by (cases "records_for E I b2 ds2 i") auto
    obtain x where x: "fold ?f (r # rs) None = Some x" "x \<in> set (r # rs)" "\<forall>y \<in> set (r # rs). sr_seq y \<le> sr_seq x"
      using fold_newest [of r rs None] by auto
    obtain y where y: "fold ?f (r' # rs') None = Some y" "y \<in> set (r' # rs')" "\<forall>z \<in> set (r' # rs'). sr_seq z \<le> sr_seq y"
      using fold_newest [of r' rs' None] by auto
    have s: "set (r # rs) = set (r' # rs')" using same Cons c2 by simp
    have seq: "sr_seq x = sr_seq y" using x y unfolding s by (intro antisym) blast+
    then have "x = y" if "inj_on sr_seq (set (records_for E I b1 ds1 i))"
      using x(2) y(2) that unfolding Cons s by (blast dest: inj_onD)
    then show ?thesis using e x y(1) Cons c2 seq by simp
  qed
qed

text \<open>Two books that hear of one node's two records in different orders, one of them twice and with a mark between.\<close>

definition any_crypto :: crypto where
  "any_crypto = ref_crypto\<lparr>hex_decode := (\<lambda>_. Some (replicate 64 0))\<rparr>"

definition any_iroh :: iroh_env where
  "any_iroh = \<lparr>ie_parse_id = Some, ie_verify = (\<lambda>_ _ _. True), ie_public = str_of_bytes, ie_sign = (\<lambda>_ _. replicate 64 0),
     ie_parse_relay = (\<lambda>_. None), ie_to_json = (\<lambda>_. None), ie_of_json = (\<lambda>_. None)\<rparr>"

definition node_record :: "u64 \<Rightarrow> signed_addr" where
  "node_record seq = \<lparr>sr_v = 1, sr_id = ''n'', sr_addrs = [''185.199.110.5:4004''], sr_relay = None, sr_seq = seq,
     sr_version = [], sr_signature = []\<rparr>"

definition book_of :: "endpoint_id \<Rightarrow> addr_book" where
  "book_of me = addr_book_new \<lparr>dc_expire_days = 30, dc_max_entries = 2000\<rparr> [] me None None"

lemma node_addr_public: "public_addr ''185.199.110.5:4004''"
  by code_simp

lemma node_record_ok: "record_ok any_crypto any_iroh nethash i (node_record seq) \<longleftrightarrow> i = ''n''"
  by (auto simp: record_ok_def node_record_def any_crypto_def any_iroh_def node_addr_public MAX_ADDRS_def)

lemma takes_node_record:
  assumes "in_window now (30 * 86400) (node_record seq)" "me \<noteq> ''n''"
  shows "takes any_crypto any_iroh now (node_record seq) (book_of me) = Some ''n''"
proof -
  have "verify_addr any_crypto any_iroh (ab_nethash (book_of me)) now (expire_secs (book_of me)) (node_record seq) = Inr ''n''"
    using assms(1) by (simp add: verify_addr_iff node_record_ok expire_secs_def book_of_def addr_book_new_def)
  then show ?thesis
    using assms(2) by (simp add: takes_def book_of_def addr_book_new_def) (simp add: node_record_def)
qed

theorem address_books_converge_witness:
  "record_of (fold (tell any_crypto any_iroh) [Told 1000 (node_record 900) [], Told 1001 (node_record 1000) []] (book_of ''a'')) ''n''
   = record_of (fold (tell any_crypto any_iroh)
       [Told 1005 (node_record 1000) [], Marked 1006 ''n'' True, Told 1007 (node_record 900) [], Told 1008 (node_record 1000) []]
       (book_of ''b'')) ''n''
   \<and> record_of (fold (tell any_crypto any_iroh) [Told 1000 (node_record 900) [], Told 1001 (node_record 1000) []] (book_of ''a'')) ''n''
     = Some (node_record 1000)"
proof -
  have w: "in_window now (30 * 86400) (node_record seq)" if "now \<in> {1000, 1001, 1005, 1007, 1008}" "seq \<in> {900, 1000}" for now seq
    using that by (auto simp: in_window_def node_record_def FUTURE_SKEW_def)
  note t = takes_node_record [OF w]
  let ?E = any_crypto and ?I = any_iroh
  let ?ds1 = "[Told 1000 (node_record 900) [], Told 1001 (node_record 1000) []]"
  let ?ds2 = "[Told 1005 (node_record 1000) [], Marked 1006 ''n'' True, Told 1007 (node_record 900) [], Told 1008 (node_record 1000) []]"
  have r: "records_for ?E ?I (book_of ''a'') ?ds1 ''n'' = [node_record 900, node_record 1000]"
    "records_for ?E ?I (book_of ''b'') ?ds2 ''n'' = [node_record 1000, node_record 900, node_record 1000]"
    by (simp_all add: records_for_def List.map_filter_simps t)
  have room: "room_for ?E ?I (book_of ''a'') ?ds1" "room_for ?E ?I (book_of ''b'') ?ds2"
    by (simp_all add: room_for_def List.map_filter_simps t dom_record_of) (simp_all add: book_of_def addr_book_new_def)
  have "inj_on sr_seq (set [node_record 900, node_record 1000])" by (simp add: node_record_def)
  then have "record_of (fold (tell ?E ?I) ?ds1 (book_of ''a'')) ''n'' = record_of (fold (tell ?E ?I) ?ds2 (book_of ''b'')) ''n''"
    by (intro address_books_converge [THEN conjunct2, THEN conjunct1, THEN mp] room)
      (simp_all add: r insert_commute, simp_all add: book_of_def addr_book_new_def)
  moreover have "record_of (fold (tell ?E ?I) ?ds1 (book_of ''a'')) ''n'' = Some (node_record 1000)"
    by (subst record_of_tell_all [OF _ room(1)], simp add: book_of_def addr_book_new_def)
      (simp add: r newest_def, simp add: record_of_def book_of_def addr_book_new_def node_record_def)
  ultimately show ?thesis by blast
qed

theorem address_book_sound_witness:
  "record_of (fold (book_turn any_crypto any_iroh) [GossipAddrs 0 1000 ''m'' [node_record 900] []]
     (fst (addr_load any_crypto any_iroh 0 (book_of ''a'')))) ''n'' = Some (node_record 900)
   \<and> record_ok any_crypto any_iroh [] ''n'' (node_record 900)"
proof -
  let ?b = "fold (book_turn any_crypto any_iroh) [GossipAddrs 0 1000 ''m'' [node_record 900] []]
     (fst (addr_load any_crypto any_iroh 0 (book_of ''a'')))"
  have "in_window 1000 (30 * 86400) (node_record 900)" by (simp add: in_window_def node_record_def FUTURE_SKEW_def)
  then have t: "takes any_crypto any_iroh 1000 (node_record 900) (book_of ''a'') = Some ''n''" by (rule takes_node_record) simp
  have l: "addr_load any_crypto any_iroh 0 (book_of ''a'') = (book_of ''a'', 0)"
    by (simp add: addr_load_def book_of_def addr_book_new_def)
  have r: "record_of ?b ''n'' = Some (node_record 900)"
    using t by (simp add: l on_addrs_def RELAY_RECORDS_def case_prod_unfold record_of_insert)
      (simp add: book_of_def addr_book_new_def full_def record_of_def newest_def)
  then show ?thesis
    using address_book_sound [of any_crypto any_iroh "[GossipAddrs 0 1000 ''m'' [node_record 900] []]" 0
        "\<lparr>dc_expire_days = 30, dc_max_entries = 2000\<rparr>" "[]" "''a''" None None 0 0]
    unfolding book_of_def by blast
qed

section \<open>What the signature covers\<close>

text \<open>A record signed by the node itself passes the check, as long as its addresses are public and the clocks agree.\<close>

lemma sorted_addrs_public: "list_all public_addr addrs \<Longrightarrow> list_all public_addr (take k (remdups_adj (sort addrs)))"
  by (auto simp: list_all_iff dest!: in_set_takeD)

lemma signed_record_verifies:
  assumes "iroh_laws I" "hex_laws E" "list_all public_addr addrs" "seq \<le> now + FUTURE_SKEW" "now \<le> seq + expire"
  shows "verify_addr E I nethash now expire (sign_addr E I pkg secret nethash addrs relay seq) = Inr (ie_public I secret)"
proof -
  have keys: "ie_parse_id I (ie_public I secret) = Some (ie_public I secret)" "length (ie_sign I secret m) = 64"
    "ie_verify I (ie_public I secret) m (ie_sign I secret m)" "hex_decode E (hex_encode E bs) = Some bs" for m bs
    using assms(1,2) unfolding iroh_laws_def hex_laws_def by blast+
  show ?thesis
    using assms(4,5) sorted_addrs_public [OF assms(3)]
    by (simp add: verify_addr_iff record_ok_def in_window_def sign_addr_def Let_def keys)
qed

text \<open>The addresses and the relay are signed as one text, so the text can be cut elsewhere.\<close>

definition hollow :: "signed_addr \<Rightarrow> signed_addr" where
  "hollow r = r\<lparr>sr_addrs := [], sr_relay := Some (join_on '','' (sr_addrs r))\<rparr>"

lemma takes_hollow:
  assumes "takes E I now r b = Some i" "sr_relay r = None"
  shows "takes E I now (hollow r) b = Some i"
proof -
  have v: "verify_addr E I (ab_nethash b) now (expire_secs b) r = Inr i" "i \<noteq> ab_me b"
    using assms(1) by (auto simp: takes_def split: sum.splits if_splits)
  then have "verify_addr E I (ab_nethash b) now (expire_secs b) (hollow r) = Inr i"
    using assms(2) by (simp add: verify_addr_iff record_ok_def in_window_def hollow_def addr_message_def join_on_def [of _ "[]"] as_bytes_def [of "[]"])
  with v(2) show ?thesis by (simp add: takes_def hollow_def)
qed

lemma insert_result:
  assumes "takes E I now r b = Some i"
  shows "snd (addr_insert E I now r src b) =
    (case record_of b i of
       Some r0 \<Rightarrow> Inr (\<not> sr_seq r0 \<ge> sr_seq r)
     | None \<Rightarrow> if full b then Inl (Sync ''address book full'') else Inr True)"
  using assms by (auto simp: takes_def addr_insert_def record_of_def full_def Let_def split: sum.splits option.splits if_splits)

text \<open>C36. Any node that passes on the record of another can strip it of its addresses: the record with no address
  and the joined addresses in place of the relay carries the same signature and is accepted, and a book that
  got it first refuses the genuine record as not newer.\<close>

theorem relayed_record_can_be_hollowed:
  fixes E I now later r b i src src'
  assumes "takes E I now r b = Some i" "takes E I later r b = Some i" "sr_relay r = None" "record_of b i = None" "\<not> full b"
  defines "b' \<equiv> fst (addr_insert E I now (hollow r) src b)"
  shows "snd (addr_insert E I now (hollow r) src b) = Inr True
    \<and> snd (addr_insert E I later r src' b') = Inr False
    \<and> record_of (fst (addr_insert E I later r src' b')) i = Some (hollow r)
    \<and> ea_ips (endpoint_addr_of I (hollow r) i) = []"
proof -
  note h = takes_hollow [OF assms(1) assms(3)]
  have first: "snd (addr_insert E I now (hollow r) src b) = Inr True"
    using insert_result [OF h, of src] assms by simp
  have rec: "record_of b' i = Some (hollow r)"
    unfolding b'_def using h assms(4,5) by (simp add: record_of_insert newest_def)
  have later: "takes E I later r b' = Some i"
    using assms(2) takes_frame [of b' b E I later r] by (simp add: b'_def)
  have "snd (addr_insert E I later r src' b') = Inr False"
    using insert_result [OF later, of src'] rec by (simp add: hollow_def)
  moreover have "record_of (fst (addr_insert E I later r src' b')) i = Some (hollow r)"
    using rec by (simp add: record_of_insert newest_def) (simp add: hollow_def)
  ultimately show ?thesis using first by (simp add: endpoint_addr_of_def hollow_def List.map_filter_simps)
qed

theorem relayed_record_can_be_hollowed_witness:
  "snd (addr_insert any_crypto any_iroh 1001 (node_record 1000) []
     (fst (addr_insert any_crypto any_iroh 1000 (hollow (node_record 1000)) [] (book_of ''a'')))) = Inr False"
proof -
  have w: "in_window now (30 * 86400) (node_record 1000)" if "now \<in> {1000, 1001}" for now
    using that by (auto simp: in_window_def node_record_def FUTURE_SKEW_def)
  have "record_of (book_of ''a'') ''n'' = None" "\<not> full (book_of ''a'')" "sr_relay (node_record 1000) = None"
    by (simp_all add: record_of_def full_def book_of_def addr_book_new_def node_record_def)
  then show ?thesis
    using relayed_record_can_be_hollowed [where E = any_crypto and I = any_iroh and now = 1000 and later = 1001
        and r = "node_record 1000" and b = "book_of ''a''" and i = "''n''" and src = "[]" and src' = "[]"]
      takes_node_record [OF w] by simp
qed

end
