(* ===== verification/LegacyWire.thy ===== *)
theory LegacyWire
  imports BuilderProps StatefulRules
begin

text \<open>
  The legacy port's formats: the nes frames and the block replies of \<open>src/src/p2p_legacy/client.rs\<close>, the replies and
  the pushed blocks of \<open>src/src/p2p_legacy/server.rs\<close>, and the block header message of \<open>src/src/p2p_legacy/proto.rs\<close>.
  The protobuf encoding of that message is the prost crate's, a parameter here.
\<close>

section \<open>Nes frames\<close>

record nes_message =
  nm_type :: u8
  nm_id :: u32
  nm_status_code :: u16
  nm_path :: string
  nm_payload :: bytes

definition NES_VERSION :: u8 where "NES_VERSION = 2"
definition HEADER_LEN :: nat where "HEADER_LEN = 14"

definition encode_frame :: "u8 \<Rightarrow> u32 \<Rightarrow> string \<Rightarrow> bytes \<Rightarrow> bytes" where
  "encode_frame ty i path payload =
     [NES_VERSION, ty] @ be_bytes 4 (unat i) @ be_bytes 2 200 @ [word_of_nat (length path), 0] @ be_bytes 2 0 @ be_bytes 2 0
       @ as_bytes path @ payload"

definition decode_frame :: "bytes \<Rightarrow> nes_message res" where
  "decode_frame buf =
     (if length buf < HEADER_LEN then Inl (Sync ''nes frame too short'')
      else
        (let path_end = HEADER_LEN + unat (buf ! 8); payload_start = path_end + unat (buf ! 9) in
         if length buf < payload_start then Inl (Sync ''nes frame truncated'')
         else Inr \<lparr>nm_type = buf ! 1, nm_id = word_of_nat (of_be (take 4 (drop 2 buf))),
                   nm_status_code = word_of_nat (of_be (take 2 (drop 6 buf))),
                   nm_path = from_utf8_lossy (take (path_end - HEADER_LEN) (drop HEADER_LEN buf)),
                   nm_payload = drop payload_start buf\<rparr>))"

text \<open>A frame reads back as it was written, as long as the path length fits its byte.\<close>

lemma nes_frame_round_trip:
  assumes "length path < 256" "rust_string path"
  shows "decode_frame (encode_frame ty i path payload)
    = Inr \<lparr>nm_type = ty, nm_id = i, nm_status_code = 200, nm_path = path, nm_payload = payload\<rparr>"
proof -
  have n: "(4::nat) = Suc (Suc (Suc (Suc 0)))" "(2::nat) = Suc (Suc 0)" by simp_all
  have four: "be_bytes 4 v = [word_of_nat (v div 256 div 256 div 256 mod 256), word_of_nat (v div 256 div 256 mod 256),
      word_of_nat (v div 256 mod 256), word_of_nat (v mod 256)]" for v
    unfolding be_bytes_def n by simp
  have two: "be_bytes 2 v = [word_of_nat (v div 256 mod 256), word_of_nat (v mod 256)]" for v
    unfolding be_bytes_def n by simp
  have i: "word_of_nat (of_be (be_bytes 4 (unat i))) = i"
  proof -
    have "unat i < 4294967296" using unsigned_less [of i, where ?'a = nat] by simp
    then show ?thesis by (simp add: of_be_be_bytes)
  qed
  have l: "unat (word_of_nat (length path) :: u8) = length path" using assms(1) by (simp add: unat_of_nat)
  have len: "length (encode_frame ty i path payload) = 14 + length path + length payload"
    by (simp add: encode_frame_def as_bytes_def)
  have parts: "encode_frame ty i path payload ! 1 = ty" "encode_frame ty i path payload ! 8 = word_of_nat (length path)"
    "encode_frame ty i path payload ! 9 = 0" "take 4 (drop 2 (encode_frame ty i path payload)) = be_bytes 4 (unat i)"
    "take 2 (drop 6 (encode_frame ty i path payload)) = be_bytes 2 200"
    "drop 14 (encode_frame ty i path payload) = as_bytes path @ payload"
    unfolding encode_frame_def four two by simp_all
  have "drop (14 + length path) (encode_frame ty i path payload) = payload"
    using parts(6) by (metis (no_types) add.commute append_eq_conv_conj as_bytes_def drop_drop length_map)
  then show ?thesis
    unfolding decode_frame_def Let_def HEADER_LEN_def parts len l i
    using assms(2) parts(6) by (simp add: of_be_be_bytes as_bytes_def [symmetric])
qed

section \<open>Length-prefixed frames\<close>

definition be_frame :: "bytes \<Rightarrow> bytes" where
  "be_frame x = be_bytes 4 (unat (u32_len x)) @ x"

function be_frames :: "bytes \<Rightarrow> bytes list res" where
  "be_frames buf =
     (if length buf < 4 then Inr []
      else (let len = of_be (take 4 buf) in
            if length buf < 4 + len then Inl (Sync ''truncated length-prefixed frame'')
            else rbind (be_frames (drop (4 + len) buf)) (\<lambda>fs. Inr (take len (drop 4 buf) # fs))))"
  by auto
termination by (relation "measure length") auto

declare be_frames.simps [simp del]

lemma be_frames_concat:
  assumes "list_all (\<lambda>x. length x < 2 ^ 32) xs"
  shows "be_frames (concat (map be_frame xs)) = Inr xs"
  using assms
proof (induction xs)
  case Nil
  show ?case by (simp add: be_frames.simps)
next
  case (Cons x xs)
  have "of_be (be_bytes 4 (unat (u32_len x))) = length x"
    using Cons.prems by (simp add: of_be_be_bytes u32_len_def unat_of_nat)
  with Cons show ?case
    by (subst be_frames.simps) (simp add: be_frame_def [of x])
qed

section \<open>Blocks on request\<close>

record block_header_proto =
  bh_id :: string
  bh_version :: u32
  bh_timestamp :: u32
  bh_previous_block :: string
  bh_height :: u32
  bh_number_of_transactions :: u32
  bh_total_amount :: string
  bh_total_fee :: string
  bh_reward :: string
  bh_payload_length :: u32
  bh_payload_hash :: string
  bh_generator_public_key :: string
  bh_block_signature :: string
  bh_transactions :: bytes

record proto_env =
  pe_encode :: "block_header_proto \<Rightarrow> bytes"
  pe_decode :: "bytes \<Rightarrow> block_header_proto option"

text \<open>Documented behaviour of the message codec: decoding gives the encoded message back.\<close>

definition proto_laws :: "proto_env \<Rightarrow> bool" where
  "proto_laws PR \<longleftrightarrow> (\<forall>h. pe_decode PR (pe_encode PR h) = Some h)"

definition served_txs :: "crypto \<Rightarrow> network \<Rightarrow> transaction list \<Rightarrow> bytes res" where
  "served_txs E n txs =
     rfold (\<lambda>tx out. rbind (serialize_transaction E tx opts_default (nw_pubkey_hash n)) (\<lambda>x. Inr (out @ be_frame x))) txs []"

definition served_header :: "crypto \<Rightarrow> network \<Rightarrow> bool \<Rightarrow> block \<Rightarrow> block_header_proto res" where
  "served_header E n headers_only b =
     rbind (if headers_only then Inr [] else served_txs E n (b_transactions b)) (\<lambda>txs.
     Inr \<lparr>bh_id = unwrap_or [] (b_id b), bh_version = b_version b, bh_timestamp = b_timestamp b,
          bh_previous_block = b_previous_block b, bh_height = ucast (b_height b),
          bh_number_of_transactions = b_number_of_transactions b, bh_total_amount = show_nat (unat (b_total_amount b)),
          bh_total_fee = show_nat (unat (b_total_fee b)), bh_reward = show_nat (unat (b_reward b)),
          bh_payload_length = b_payload_length b, bh_payload_hash = b_payload_hash b,
          bh_generator_public_key = b_generator_public_key b, bh_block_signature = unwrap_or [] (b_block_signature b),
          bh_transactions = txs\<rparr>)"

record get_blocks_request =
  gb_last_block_height :: u32
  gb_block_limit :: u32
  gb_headers_only :: bool

definition serve_blocks :: "crypto \<Rightarrow> network \<Rightarrow> proto_env \<Rightarrow> get_blocks_request \<Rightarrow> store \<Rightarrow> bytes res" where
  "serve_blocks E n PR req s =
     rbind (get_blocks_from E n s (ucast (gb_last_block_height req) + 1) (ucast (max 1 (min 400 (gb_block_limit req))))) (\<lambda>bs.
     rfold (\<lambda>b out. rbind (served_header E n (gb_headers_only req) b) (\<lambda>h. Inr (out @ be_frame (pe_encode PR h)))) bs [])"

definition parse_amount :: "string \<Rightarrow> u64 res" where
  "parse_amount t = ok_or (Sync ''bad amount in peer block'') (map_option word_of_nat (parse_uint 64 t))"

fun pulled_txs :: "crypto \<Rightarrow> string \<Rightarrow> u64 \<Rightarrow> u32 \<Rightarrow> bytes list \<Rightarrow> transaction list res" where
  "pulled_txs E i h seq [] = Inr []"
| "pulled_txs E i h seq (raw # raws) =
     rbind (deserialize_transaction E raw) (\<lambda>tx. rbind (pulled_txs E i h (seq + 1) raws) (\<lambda>txs.
     Inr (tx\<lparr>tx_block_id := Some i, tx_block_height := Some h, tx_sequence := Some seq\<rparr> # txs)))"

definition pulled_block :: "crypto \<Rightarrow> block_header_proto \<Rightarrow> block res" where
  "pulled_block E h =
     rbind (be_frames (bh_transactions h)) (\<lambda>raws.
     rbind (pulled_txs E (bh_id h) (ucast (bh_height h)) 0 raws) (\<lambda>txs.
     rbind (parse_amount (bh_total_amount h)) (\<lambda>amount.
     rbind (parse_amount (bh_total_fee h)) (\<lambda>fee.
     rbind (parse_amount (bh_reward h)) (\<lambda>reward.
     Inr \<lparr>b_id = Some (bh_id h), b_version = bh_version h, b_timestamp = bh_timestamp h,
          b_previous_block = bh_previous_block h, b_height = ucast (bh_height h),
          b_number_of_transactions = bh_number_of_transactions h, b_total_amount = amount, b_total_fee = fee,
          b_reward = reward, b_payload_length = bh_payload_length h, b_payload_hash = bh_payload_hash h,
          b_generator_public_key = bh_generator_public_key h,
          b_block_signature = (if bh_block_signature h = [] then None else Some (bh_block_signature h)),
          b_pq_signature = None, b_transactions = txs\<rparr>)))))"

definition decode_blocks :: "crypto \<Rightarrow> proto_env \<Rightarrow> bytes \<Rightarrow> block list res" where
  "decode_blocks E PR payload =
     rbind (be_frames payload) (\<lambda>raws.
     rbind (rfold (\<lambda>raw bs. rbind (ok_or (Sync ''block header decode'') (pe_decode PR raw)) (\<lambda>h.
              rbind (pulled_block E h) (\<lambda>b. Inr (bs @ [b])))) raws []) (\<lambda>bs.
     Inr (sort_key b_height bs)))"

section \<open>Pushed blocks\<close>

fun pushed_lens :: "nat \<Rightarrow> bytes \<Rightarrow> nat \<Rightarrow> (nat list \<times> nat) res" where
  "pushed_lens 0 bs off = Inr ([], off)"
| "pushed_lens (Suc k) bs off =
     (if length bs < off + 4 then Inl (Sync ''postBlock: truncated lengths'')
      else rbind (pushed_lens k bs (off + 4)) (\<lambda>(lens, off'). Inr (of_le (take 4 (drop off bs)) # lens, off')))"

fun pushed_txs :: "crypto \<Rightarrow> block \<Rightarrow> bytes \<Rightarrow> nat \<Rightarrow> u32 \<Rightarrow> nat list \<Rightarrow> transaction list res" where
  "pushed_txs E b bs off seq [] = Inr []"
| "pushed_txs E b bs off seq (len # lens) =
     (if length bs < off + len then Inl (Sync ''postBlock: truncated transaction'')
      else rbind (deserialize_transaction E (take len (drop off bs))) (\<lambda>tx.
           rbind (pushed_txs E b bs (off + len) (seq + 1) lens) (\<lambda>txs.
           Inr (tx\<lparr>tx_block_id := b_id b, tx_block_height := Some (b_height b), tx_sequence := Some seq\<rparr> # txs))))"

definition decode_full_block :: "crypto \<Rightarrow> network \<Rightarrow> bytes \<Rightarrow> block res" where
  "decode_full_block E n bs =
     rbind (deserialize_block_header_prefix E bs n) (\<lambda>(b, header_len).
     let k = unat (b_number_of_transactions b); max_tx = unat (max_transactions (milestone_at n (b_height b))) in
     if k > max_tx \<or> k > (length bs - header_len) div 4 then Inl (Sync ''postBlock: implausible transaction count'')
     else
       rbind (pushed_lens k bs header_len) (\<lambda>(lens, off).
       rbind (pushed_txs E b bs off 0 lens) (\<lambda>txs. Inr (b\<lparr>b_transactions := txs\<rparr>))))"

end
