(* ===== verification/PeerIntake.thy ===== *)
theory PeerIntake
  imports CatchUp LegacyWire AddrBook Mempool "HOL-Library.Sublist"
begin

text \<open>
  What arrives from other nodes: the requests of the legacy port (\<open>src/src/p2p_legacy/server.rs\<close>), the gossip of
  blocks, transactions and peers with its publishers (\<open>src/src/p2p_iroh/gossip.rs\<close>), the iroh requests
  (\<open>src/src/p2p_iroh/rpc.rs\<close>) and the loop that follows the chain once it is caught up (\<open>follow_live\<close> of
  \<open>src/src/p2p_legacy/follow.rs\<close>). A node is a record of the stores these handlers share; a handler is a
  function on it. The decoding of protobuf and JSON, the sockets and the clock are arguments.
\<close>

section \<open>The node\<close>

record clock =
  ck_epoch :: u32
  ck_ms :: int
  ck_now :: nat

definition ck_unix :: "clock \<Rightarrow> int" where "ck_unix ck = ck_ms ck div 1000"

record seen_ids =
  sn_heights :: "u64 set"
  sn_tx_ids :: "string set"

record node =
  nd_store :: store
  nd_table :: peer_table
  nd_iroh :: iroh_peers
  nd_intake :: intake
  nd_guard :: "guard option"
  nd_mempool :: mempool
  nd_seen :: seen_ids
  nd_stall :: stall

definition trim_seen :: "seen_ids \<Rightarrow> seen_ids" where
  "trim_seen s =
     (let s = (if card (sn_heights s) > 4096 then s\<lparr>sn_heights := {}\<rparr> else s)
      in if card (sn_tx_ids s) > 16384 then s\<lparr>sn_tx_ids := {}\<rparr> else s)"

definition apply_task :: "crypto \<Rightarrow> network \<Rightarrow> clock \<Rightarrow> block list \<Rightarrow> chain_tip \<Rightarrow> bool \<Rightarrow> store \<Rightarrow> store \<times> chain_tip res" where
  "apply_task E n ck bs tip verify s =
     (case sync_apply_blocks E n (ck_epoch ck) (ck_ms ck) bs tip verify s of
        (s, Inl (Panic m)) \<Rightarrow> (s, Inl (Sync m))
      | r \<Rightarrow> r)"

text \<open>A block of ours and one of theirs at the tip: the guard looks at both, the earlier slot is preferred.\<close>

definition competing :: "crypto \<Rightarrow> network \<Rightarrow> clock \<Rightarrow> string \<Rightarrow> block \<Rightarrow> block \<Rightarrow> node \<Rightarrow> node \<times> bool" where
  "competing E n ck peer ours theirs nd =
     (let nd = nd\<lparr>nd_guard := guard_competing E (nd_store nd) (ck_unix ck) peer ours theirs (nd_guard nd)\<rparr>
      in case prefer_earlier_slot E n ours theirs (nd_store nd) of (s, swapped) \<Rightarrow> (nd\<lparr>nd_store := s\<rparr>, swapped))"

definition note_accepted :: "network \<Rightarrow> clock \<Rightarrow> source \<Rightarrow> string \<Rightarrow> block list \<Rightarrow> block \<Rightarrow> node \<Rightarrow> node" where
  "note_accepted n ck src peer bs newest nd =
     nd\<lparr>nd_intake := record_block n (ck_ms ck) src peer (b_height newest) (b_timestamp newest) (b_generator_public_key newest) (nd_intake nd),
        nd_guard := guard_accepted n (nd_store nd) (ck_epoch ck) (ck_unix ck) src peer (map block_header bs) (nd_guard nd)\<rparr>"

section \<open>The legacy port\<close>

definition MAX_POST_TRANSACTIONS :: nat where "MAX_POST_TRANSACTIONS = 40"

definition knows :: "block option \<Rightarrow> block \<Rightarrow> bool" where
  "knows ours b \<longleftrightarrow> Option.bind ours b_id = b_id b"

text \<open>The pushed block on top of the tip; the answer is the status and the height.\<close>

definition post_apply :: "crypto \<Rightarrow> network \<Rightarrow> pool_config \<Rightarrow> clock \<Rightarrow> bool \<Rightarrow> string \<Rightarrow> block \<Rightarrow> chain_tip \<Rightarrow> node \<Rightarrow> node \<times> (bool \<times> u32) res" where
  "post_apply E n pc ck verify ip b tip nd =
     (case apply_task E n ck [b] tip verify (nd_store nd) of
        (s, Inl StaleTip) \<Rightarrow>
          (nd\<lparr>nd_store := s\<rparr>, rbind (get_block_by_height E n s (b_height b)) (\<lambda>ours. Inr (knows ours b, ucast (get_last_height s))))
      | (s, Inl e) \<Rightarrow> (nd\<lparr>nd_store := s\<rparr>, Inl e)
      | (s, Inr _) \<Rightarrow>
          (let nd = note_accepted n ck PushLegacy ip [b] b (nd\<lparr>nd_store := s\<rparr>)
           in (nd\<lparr>nd_mempool := fst (prune_confirmed E n pc s (ck_now ck) (nd_mempool nd))\<rparr>, Inr (True, ucast (b_height b)))))"

definition post_above :: "crypto \<Rightarrow> network \<Rightarrow> pool_config \<Rightarrow> clock \<Rightarrow> bool \<Rightarrow> string \<Rightarrow> block \<Rightarrow> node \<Rightarrow> node \<times> (bool \<times> u32) res" where
  "post_above E n pc ck verify ip b nd =
     (case tip_of E n (nd_store nd) of
        Inl e \<Rightarrow> (nd, Inl e)
      | Inr tip \<Rightarrow>
          if b_height b \<le> ct_height tip
          then (nd, rbind (get_block_by_height E n (nd_store nd) (b_height b)) (\<lambda>ours. Inr (knows ours b, ucast (ct_height tip))))
          else if b_height b \<noteq> ct_height tip + 1 \<or> (case ct_id tip of None \<Rightarrow> False | Some i \<Rightarrow> b_previous_block b \<noteq> i)
          then (nd, Inl (Sync ''block is not chained to our tip''))
          else post_apply E n pc ck verify ip b tip nd)"

definition post_block ::
  "crypto \<Rightarrow> network \<Rightarrow> pool_config \<Rightarrow> clock \<Rightarrow> bool \<Rightarrow> string \<Rightarrow> (u64 \<Rightarrow> u32 \<Rightarrow> reply) \<Rightarrow> bytes \<Rightarrow> node \<Rightarrow> node \<times> (bool \<times> u32) res" where
  "post_block E n pc ck verify ip ask payload nd =
     (case decode_full_block E n payload of
        Inl e \<Rightarrow> (nd, Inl e)
      | Inr b \<Rightarrow>
          (case tip_of E n (nd_store nd) of
             Inl e \<Rightarrow> (nd, Inl e)
           | Inr tip \<Rightarrow>
               let height = b_height b in
               if height \<le> ct_height tip then
                 (case get_block_by_height E n (nd_store nd) height of
                    Inl e \<Rightarrow> (nd, Inl e)
                  | Inr None \<Rightarrow> (nd, Inr (knows None b, ucast (ct_height tip)))
                  | Inr (Some ours) \<Rightarrow>
                      if knows (Some ours) b then (nd, Inr (True, ucast (ct_height tip)))
                      else if height + 1 \<ge> ct_height tip then
                        (case competing E n ck ip ours b nd of
                           (nd, swapped) \<Rightarrow> (nd, Inr (if swapped then (True, ucast height) else (False, ucast (ct_height tip)))))
                      else (nd, Inr (False, ucast (ct_height tip))))
               else
                 (let nd = (if height > ct_height tip + 1 \<and> height - ct_height tip \<le> 8
                      then (case pull_gap_from E n (ck_epoch ck) (ck_ms ck) (ck_now ck) ip (height - 1) ask verify (nd_table nd, nd_store nd) of
                              ((t, s), _) \<Rightarrow> nd\<lparr>nd_table := t, nd_store := s\<rparr>)
                      else nd)
                  in post_above E n pc ck verify ip b nd)))"

definition post_transactions ::
  "crypto \<Rightarrow> network \<Rightarrow> pool_config \<Rightarrow> clock \<Rightarrow> string \<Rightarrow> bytes list \<Rightarrow> node \<Rightarrow> node \<times> string list res" where
  "post_transactions E n pc ck ip raws nd =
     (if length raws > MAX_POST_TRANSACTIONS then (nd, Inl (Sync ''postTransactions: too many in one request''))
      else
        (case rfold (\<lambda>raw txs. rbind (deserialize_transaction E raw) (\<lambda>tx. Inr (txs @ [tx]))) raws [] of
           Inl e \<Rightarrow> (nd, Inl e)
         | Inr txs \<Rightarrow>
             (case add_many_from E n pc (nd_store nd) (ck_now ck) (LegacyPeer ip) txs (nd_mempool nd) of
                (m, r) \<Rightarrow> (nd\<lparr>nd_mempool := m\<rparr>, Inr (pr_accept r)))))"

definition common_block :: "crypto \<Rightarrow> network \<Rightarrow> store \<Rightarrow> string list \<Rightarrow> (u32 \<times> string) option res" where
  "common_block E n s ids =
     rfold (\<lambda>i best. rbind (get_block_by_id E n s i) (\<lambda>b. Inr
        (case b of
           None \<Rightarrow> best
         | Some b \<Rightarrow> if (case best of None \<Rightarrow> True | Some (h, _) \<Rightarrow> ucast (b_height b) > h) then Some (ucast (b_height b), i) else best)))
       (take 100 ids) None"

definition peers_reply :: "nat \<Rightarrow> peer_table \<Rightarrow> (string \<times> u32) list" where
  "peers_reply now t = map (\<lambda>p. (ps_ip p, ucast (pt_port t))) (filter (\<lambda>p. ps_successes p > 0) (peer_snapshot now t))"

text \<open>The state part of the status: the height, the slot the node thinks it is and the header of its tip.\<close>

definition hex16 :: "nat \<Rightarrow> string" where
  "hex16 v = map (\<lambda>k. (''0123456789abcdef'') ! (v div 16 ^ k mod 16)) (rev [0..<16])"

definition id_hex :: "string \<Rightarrow> string" where
  "id_hex i = (if length i = 64 then i else (case parse_uint 64 i of None \<Rightarrow> [] | Some v \<Rightarrow> hex16 v))"

record status_state =
  ss_height :: u32
  ss_current_slot :: u32
  ss_header :: "(string \<times> string \<times> block) option"

definition status_header :: "block \<Rightarrow> string \<times> string \<times> block" where
  "status_header b = (id_hex (unwrap_or [] (b_id b)), id_hex (b_previous_block b), block_header b)"

definition get_status :: "crypto \<Rightarrow> network \<Rightarrow> clock \<Rightarrow> store \<Rightarrow> status_state res" where
  "get_status E n ck s =
     rbind (get_last_block E n s) (\<lambda>last_block.
     let height = (case last_block of None \<Rightarrow> 0 | Some b \<Rightarrow> b_height b); blocktime = ms_blocktime (milestone_at n (max height 1)) in
     if blocktime = 0 then Inl (Panic ''attempt to divide by zero'')
     else Inr \<lparr>ss_height = ucast height, ss_current_slot = ck_epoch ck div blocktime, ss_header = map_option status_header last_block\<rparr>)"

datatype legacy_request =
    GetStatus | GetPeers | GetCommonBlocks "string list option" | GetBlocks "get_blocks_request option"
  | PostBlock "bytes option" | PostTransactions "bytes list option" | PqGetAddrs | OtherRoute string

datatype legacy_answer =
    Status status_state | PeerList "(string \<times> u32) list" | Common "(u32 \<times> string) option" | BlockFrames bytes
  | BlockStatus "bool \<times> u32" | Accepted "string list" | AddrRecords "signed_addr list"

definition BLOCK_ROUTES :: string where "BLOCK_ROUTES = ''p2p.blocks.''"

definition introduces :: "legacy_request \<Rightarrow> bool" where
  "introduces r = (case r of GetBlocks _ \<Rightarrow> True | PostBlock _ \<Rightarrow> True | OtherRoute path \<Rightarrow> prefix BLOCK_ROUTES path | _ \<Rightarrow> False)"

definition decoded :: "string \<Rightarrow> 'a option \<Rightarrow> 'a res" where
  "decoded what m = ok_or (Sync (what @ '' request'')) m"

definition dispatch ::
  "crypto \<Rightarrow> network \<Rightarrow> proto_env \<Rightarrow> pool_config \<Rightarrow> clock \<Rightarrow> u64 \<Rightarrow> bool \<Rightarrow> addr_book option \<Rightarrow> string \<Rightarrow> (u64 \<Rightarrow> u32 \<Rightarrow> reply)
     \<Rightarrow> legacy_request \<Rightarrow> node \<Rightarrow> node \<times> legacy_answer res" where
  "dispatch E n PR pc ck now_unix verify book ip ask req nd =
     (let nd = (if introduces req then nd\<lparr>nd_table := fst (add_peer ip (nd_table nd))\<rparr> else nd) in
      case req of
        GetStatus \<Rightarrow> (nd, rbind (get_status E n ck (nd_store nd)) (\<lambda>st. Inr (Status st)))
      | GetPeers \<Rightarrow> (nd, Inr (PeerList (peers_reply (ck_now ck) (nd_table nd))))
      | GetCommonBlocks ids \<Rightarrow>
          (nd, rbind (decoded ''getCommonBlocks'' ids) (\<lambda>ids. rbind (common_block E n (nd_store nd) ids) (\<lambda>c. Inr (Common c))))
      | GetBlocks r \<Rightarrow> (nd, rbind (decoded ''getBlocks'' r) (\<lambda>r. rbind (serve_blocks E n PR r (nd_store nd)) (\<lambda>x. Inr (BlockFrames x))))
      | PostBlock None \<Rightarrow> (nd, Inl (Sync ''postBlock request''))
      | PostBlock (Some x) \<Rightarrow> (case post_block E n pc ck verify ip ask x nd of (nd, r) \<Rightarrow> (nd, rbind r (\<lambda>st. Inr (BlockStatus st))))
      | PostTransactions None \<Rightarrow> (nd, Inl (Sync ''postTransactions request''))
      | PostTransactions (Some xs) \<Rightarrow> (case post_transactions E n pc ck ip xs nd of (nd, r) \<Rightarrow> (nd, rbind r (\<lambda>a. Inr (Accepted a))))
      | PqGetAddrs \<Rightarrow>
          (nd, case book of None \<Rightarrow> Inl (Sync ''address book disabled'') | Some b \<Rightarrow> Inr (AddrRecords (addr_fresh now_unix MAX_RECORDS b)))
      | OtherRoute path \<Rightarrow> (nd, Inl (Sync ''unknown route'')))"

end
