(* ===== verification/Gossip.thy ===== *)
theory Gossip
  imports PeerIntake
begin

text \<open>
  The gossip of \<open>src/src/p2p_iroh/gossip.rs\<close>, message by message: the intake of a block, of transactions and of peer
  hints, one turn of each publisher, and the answers to the requests of \<open>src/src/p2p_iroh/rpc.rs\<close>; with the
  delegates that announce themselves, \<open>src/src/p2p_iroh/delegates.rs\<close>. A message is what its JSON decodes to.
\<close>

section \<open>Requests over iroh\<close>

definition MAX_BLOCKS :: u32 where "MAX_BLOCKS = 400"

datatype rpc_request = RpcStatus | RpcGetBlocks u64 u32 | RpcFinality | RpcAddrs u32

datatype rpc_response =
    StatusReply string u64 "string option" | BlocksReply "block list" | FinalityReply "finality_cert option"
  | AddrsReply "signed_addr list" | ErrorReply

definition or_error :: "'a res \<Rightarrow> ('a \<Rightarrow> rpc_response) \<Rightarrow> rpc_response" where
  "or_error r f = (case r of Inl _ \<Rightarrow> ErrorReply | Inr x \<Rightarrow> f x)"

definition rpc_handle :: "crypto \<Rightarrow> network \<Rightarrow> u64 \<Rightarrow> addr_book option \<Rightarrow> rpc_request \<Rightarrow> store \<Rightarrow> rpc_response" where
  "rpc_handle E n now book req s =
     (case req of
        RpcStatus \<Rightarrow>
          or_error (get_last_block E n s) (\<lambda>b. StatusReply (nw_nethash n)
            (case b of None \<Rightarrow> 0 | Some b \<Rightarrow> b_height b) (Option.bind b b_id))
      | RpcGetBlocks last_height limit \<Rightarrow>
          or_error (get_blocks_from E n s (last_height + 1) (ucast (max 1 (min MAX_BLOCKS limit)))) BlocksReply
      | RpcFinality \<Rightarrow> FinalityReply (latest_finality_cert s)
      | RpcAddrs limit \<Rightarrow> (case book of None \<Rightarrow> ErrorReply | Some b \<Rightarrow> AddrsReply (addr_fresh now (unat limit) b)))"

text \<open>What a call to a peer gives: the response with the milliseconds it took, or an error of the transport or the peer.\<close>

type_synonym call_result = "string + rpc_response \<times> u64"

definition fetch_status :: "nat \<Rightarrow> endpoint_id \<Rightarrow> call_result \<Rightarrow> string option \<Rightarrow> iroh_peers \<Rightarrow> iroh_peers \<times> (u64 \<times> string option) res" where
  "fetch_status now i r path m =
     (case r of
        Inr (StatusReply nethash height bid, ms) \<Rightarrow>
          (let m = record_rpc now i (Some ms) (Some height) m
           in (case path of None \<Rightarrow> m | Some kind \<Rightarrow> set_path now i kind m, Inr (height, bid)))
      | Inr (ErrorReply, ms) \<Rightarrow> (record_rpc now i None None m, Inl (Sync ''iroh peer error''))
      | Inr _ \<Rightarrow> (m, Inl (Sync ''unexpected iroh response''))
      | Inl e \<Rightarrow> (record_rpc now i None None m, Inl (Sync e)))"

definition fetch_blocks :: "nat \<Rightarrow> endpoint_id \<Rightarrow> call_result \<Rightarrow> iroh_peers \<Rightarrow> iroh_peers \<times> block list res" where
  "fetch_blocks now i r m =
     (case r of
        Inr (BlocksReply blocks, ms) \<Rightarrow>
          (record_rpc now i (Some ms) (if blocks = [] then None else Some (b_height (last blocks))) m, Inr blocks)
      | Inr (ErrorReply, ms) \<Rightarrow> (record_rpc now i None None m, Inl (Sync ''iroh peer error''))
      | Inr _ \<Rightarrow> (m, Inl (Sync ''unexpected iroh response''))
      | Inl e \<Rightarrow> (record_rpc now i None None m, Inl (Sync e)))"

definition fetch_finality :: "nat \<Rightarrow> endpoint_id \<Rightarrow> call_result \<Rightarrow> iroh_peers \<Rightarrow> iroh_peers \<times> finality_cert option res" where
  "fetch_finality now i r m =
     (case r of
        Inr (FinalityReply certificate, ms) \<Rightarrow> (record_rpc now i (Some ms) None m, Inr certificate)
      | Inr (ErrorReply, ms) \<Rightarrow> (record_rpc now i None None m, Inl (Sync ''iroh peer error''))
      | Inr _ \<Rightarrow> (m, Inl (Sync ''unexpected iroh response''))
      | Inl e \<Rightarrow> (record_rpc now i None None m, Inl (Sync e)))"

section \<open>Blocks\<close>

text \<open>The rounds of \<open>fill_gap_from\<close>, at most eight; each asks above the tip reached so far.\<close>

definition GAP_ROUNDS :: nat where "GAP_ROUNDS = 8"

fun fill_rounds ::
  "nat \<Rightarrow> crypto \<Rightarrow> network \<Rightarrow> clock \<Rightarrow> endpoint_id \<Rightarrow> u64 \<Rightarrow> (u64 \<Rightarrow> call_result) \<Rightarrow> bool \<Rightarrow> chain_tip \<Rightarrow> node \<Rightarrow> node \<times> chain_tip res" where
  "fill_rounds 0 E n ck from target ask verify tip nd = (nd, Inr tip)"
| "fill_rounds (Suc k) E n ck from target ask verify tip nd =
     (if ct_height tip \<ge> target then (nd, Inr tip)
      else
        (case fetch_blocks (ck_now ck) from (ask (ct_height tip)) (nd_iroh nd) of
           (m, Inl e) \<Rightarrow> (nd\<lparr>nd_iroh := m\<rparr>, Inl e)
         | (m, Inr []) \<Rightarrow> (nd\<lparr>nd_iroh := m\<rparr>, Inr tip)
         | (m, Inr (b # bs)) \<Rightarrow>
             (case apply_task E n ck (b # bs) tip verify (nd_store nd) of
                (s, Inl e) \<Rightarrow> (nd\<lparr>nd_iroh := m, nd_store := s\<rparr>, Inl e)
              | (s, Inr tip) \<Rightarrow> fill_rounds k E n ck from target ask verify tip (nd\<lparr>nd_iroh := m, nd_store := s\<rparr>))))"

definition fill_gap_from ::
  "crypto \<Rightarrow> network \<Rightarrow> clock \<Rightarrow> endpoint_id \<Rightarrow> u64 \<Rightarrow> (u64 \<Rightarrow> call_result) \<Rightarrow> bool \<Rightarrow> node \<Rightarrow> node \<times> chain_tip res" where
  "fill_gap_from E n ck from target ask verify nd =
     (case tip_of E n (nd_store nd) of
        Inl e \<Rightarrow> (nd, Inl e)
      | Inr tip \<Rightarrow> fill_rounds GAP_ROUNDS E n ck from target ask verify tip nd)"

definition see_heights :: "u64 set \<Rightarrow> node \<Rightarrow> node" where
  "see_heights hs nd = nd\<lparr>nd_seen := trim_seen ((nd_seen nd)\<lparr>sn_heights := sn_heights (nd_seen nd) \<union> hs\<rparr>)\<rparr>"

definition on_block ::
  "crypto \<Rightarrow> network \<Rightarrow> clock \<Rightarrow> endpoint_id \<Rightarrow> string \<Rightarrow> block \<Rightarrow> (u64 \<Rightarrow> call_result) \<Rightarrow> bool \<Rightarrow> node \<Rightarrow> node \<times> unit res" where
  "on_block E n ck from name b ask verify nd =
     (case tip_of E n (nd_store nd) of
        Inl e \<Rightarrow> (nd, Inl e)
      | Inr tip \<Rightarrow>
          if b_height b \<le> ct_height tip then
            (if b_height b + 1 \<ge> ct_height tip then
               (case get_block_by_height E n (nd_store nd) (b_height b) of
                  Inl e \<Rightarrow> (nd, Inl e)
                | Inr None \<Rightarrow> (nd, Inr ())
                | Inr (Some ours) \<Rightarrow>
                    if b_id ours \<noteq> b_id b then (fst (competing E n ck name ours b nd), Inr ()) else (nd, Inr ()))
             else (nd, Inr ()))
          else if b_height b = ct_height tip + 1 then
            (case apply_task E n ck [b] tip verify (nd_store nd) of
               (s, Inl e) \<Rightarrow> (nd\<lparr>nd_store := s\<rparr>, Inl e)
             | (s, Inr tip) \<Rightarrow>
                 (see_heights {b_height b} (note_accepted n ck GossipIroh name [b] b (nd\<lparr>nd_store := s\<rparr>)), Inr ()))
          else
            (case fill_gap_from E n ck from (b_height b) ask verify nd of
               (nd, Inl e) \<Rightarrow> (nd, Inl e)
             | (nd, Inr tip) \<Rightarrow> (see_heights {saturating_sub (ct_height tip) 64 .. ct_height tip} nd, Inr ())))"

text \<open>A block message counts the sender's claim before the block is looked at.\<close>

definition on_block_message ::
  "crypto \<Rightarrow> network \<Rightarrow> clock \<Rightarrow> endpoint_id \<Rightarrow> string \<Rightarrow> block \<Rightarrow> (u64 \<Rightarrow> call_result) \<Rightarrow> bool \<Rightarrow> node \<Rightarrow> node" where
  "on_block_message E n ck from name b ask verify nd =
     fst (on_block E n ck from name b ask verify (nd\<lparr>nd_iroh := seen (ck_now ck) from (Some (b_height b)) (nd_iroh nd)\<rparr>))"

text \<open>One turn of \<open>publish_blocks\<close>, with the height published last: the blocks that leave and the new height.\<close>

datatype chain_event = Applied | RolledBack u64 | Tick

definition publish_blocks :: "crypto \<Rightarrow> network \<Rightarrow> chain_event \<Rightarrow> bool \<Rightarrow> u64 \<Rightarrow> node \<Rightarrow> block list \<times> u64" where
  "publish_blocks E n ev no_peers last_height nd =
     (case ev of
        RolledBack h \<Rightarrow> ([], min last_height h)
      | _ \<Rightarrow>
          (let tip = get_last_height (nd_store nd) in
           if tip \<le> last_height then ([], last_height)
           else if tip - last_height > 10 \<or> no_peers then ([], tip)
           else (List.map_filter (\<lambda>h. if word_of_nat h \<in> sn_heights (nd_seen nd) then None
                    else ok_flatten (get_block_by_height E n (nd_store nd) (word_of_nat h)))
                   [Suc (unat last_height)..<Suc (unat tip)], tip)))"

section \<open>Transactions\<close>

definition on_transactions :: "crypto \<Rightarrow> network \<Rightarrow> pool_config \<Rightarrow> clock \<Rightarrow> endpoint_id \<Rightarrow> transaction list \<Rightarrow> node \<Rightarrow> node" where
  "on_transactions E n pc ck from txs nd =
     (let nd = nd\<lparr>nd_iroh := seen (ck_now ck) from None (nd_iroh nd),
                  nd_seen := trim_seen ((nd_seen nd)\<lparr>sn_tx_ids := sn_tx_ids (nd_seen nd) \<union> set (List.map_filter tx_id txs)\<rparr>)\<rparr>
      in nd\<lparr>nd_mempool := fst (add_many_from E n pc (nd_store nd) (ck_now ck) (IrohPeer from) txs (nd_mempool nd))\<rparr>)"

definition publish_transactions :: "seen_ids option \<Rightarrow> transaction list \<Rightarrow> transaction list" where
  "publish_transactions s batch =
     (case s of None \<Rightarrow> batch
      | Some s \<Rightarrow> filter (\<lambda>tx. case tx_id tx of None \<Rightarrow> True | Some i \<Rightarrow> i \<notin> sn_tx_ids s) batch)"

section \<open>Peers\<close>

record peer_hint =
  ph_ip :: string
  ph_port :: u16
  ph_height :: u64
  ph_latency_ms :: u64
  ph_version :: string

definition rsplit_once :: "char \<Rightarrow> string \<Rightarrow> (string \<times> string) option" where
  "rsplit_once d s = map_option (\<lambda>(a, b). (rev b, rev a)) (split_once d (rev s))"

definition add_gateway :: "string option \<Rightarrow> peer_table \<Rightarrow> peer_table" where
  "add_gateway gateway t =
     (case Option.bind gateway (rsplit_once (CHR '':'')) of
        None \<Rightarrow> t
      | Some (ip, port) \<Rightarrow> if parse_uint 16 port = Some (unat (pt_port t)) then fst (add_peer ip t) else t)"

definition add_hint :: "nat \<Rightarrow> peer_hint \<Rightarrow> peer_table \<Rightarrow> peer_table" where
  "add_hint now h t =
     (case add_peer (ph_ip h) t of
        (t, False) \<Rightarrow> t
      | (t, True) \<Rightarrow>
          set_version (ph_ip h) (ph_version h) False
            (record_success now (ph_ip h) (unat (max (ph_latency_ms h) 1)) (Some (ph_height h)) t))"

definition on_peers :: "nat \<Rightarrow> endpoint_id \<Rightarrow> peer_hint list \<Rightarrow> string option \<Rightarrow> bool \<Rightarrow> node \<Rightarrow> node" where
  "on_peers now from hints gateway legacy nd =
     (let nd = nd\<lparr>nd_iroh := set_gateway now from gateway (seen now from None (nd_iroh nd))\<rparr> in
      if legacy
      then (let t = add_gateway gateway (nd_table nd)
            in nd\<lparr>nd_table := fold (add_hint now) (take 64 (filter (\<lambda>h. ph_port h = pt_port (nd_table nd)) hints)) t\<rparr>)
      else nd)"

definition publish_peers :: "nat \<Rightarrow> string option \<Rightarrow> peer_table \<Rightarrow> (peer_hint list \<times> string option) option" where
  "publish_peers now gateway t =
     (let peers = map (\<lambda>p. \<lparr>ph_ip = ps_ip p, ph_port = pt_port t, ph_height = ps_height p, ph_latency_ms = ps_latency_ms p,
                            ph_version = ps_version p\<rparr>)
                    (take 32 (filter (\<lambda>p. ps_successes p > 0 \<and> ps_failures p = 0) (peer_snapshot now t)))
      in if peers = [] \<and> gateway = None then None else Some (peers, gateway))"

text \<open>The peers a topic that lost its neighbours is joined with again.\<close>

definition rejoin_targets :: "endpoint_id list \<Rightarrow> iroh_peers \<Rightarrow> endpoint_id list" where
  "rejoin_targets bootstrap m = remdups_adj (sort (bootstrap @ map ip_id (filter (\<lambda>p. ip_failures p < 3) (iroh_snapshot m))))"

definition finality_sources :: "u64 \<Rightarrow> u64 \<Rightarrow> endpoint_id \<Rightarrow> iroh_peers \<Rightarrow> endpoint_id list" where
  "finality_sources tip ours me m =
     (if tip \<le> ours + 2 then []
      else take 3 (map ip_id (filter (\<lambda>p. ip_failures p < 3 \<and> ip_id p \<noteq> me) (iroh_snapshot m))))"

section \<open>Delegates\<close>

record delegate_announce =
  da_public_key :: string
  da_version :: string
  da_timestamp :: u64
  da_signature :: string

record rust_delegate_info =
  ri_version :: string
  ri_node :: endpoint_id
  ri_last_seen :: nat

type_synonym rust_delegates = "(string, rust_delegate_info) btmap"

definition MAX_SKEW :: u64 where "MAX_SKEW = 600"
definition STALE_AFTER :: nat where "STALE_AFTER = secs (15 * 60)"

definition announce_hash :: "crypto \<Rightarrow> bytes \<Rightarrow> u64 \<Rightarrow> bytes" where
  "announce_hash E node_key timestamp = sha256 E (as_bytes ''sth-delegate-announce'' @ node_key @ u64_le timestamp)"

definition sign_announces ::
  "crypto \<Rightarrow> string \<Rightarrow> u64 \<Rightarrow> bytes \<Rightarrow> (string \<times> (bytes \<Rightarrow> string option)) list \<Rightarrow> delegate_announce list" where
  "sign_announces E pkg_version now node_key keys =
     List.map_filter (\<lambda>(public_key, sign). map_option (\<lambda>sig. \<lparr>da_public_key = public_key, da_version = pkg_version,
        da_timestamp = now, da_signature = sig\<rparr>) (sign (announce_hash E node_key now))) keys"

definition verify_announce :: "crypto \<Rightarrow> u64 \<Rightarrow> bytes \<Rightarrow> delegate_announce \<Rightarrow> bool" where
  "verify_announce E now node_key a \<longleftrightarrow>
     (if da_timestamp a > now then da_timestamp a - now else now - da_timestamp a) \<le> MAX_SKEW
     \<and> (case verify_signature E (announce_hash E node_key (da_timestamp a)) (da_signature a) (da_public_key a) of
          Inl _ \<Rightarrow> False | Inr ok \<Rightarrow> ok)"

definition record_announces ::
  "crypto \<Rightarrow> nat \<Rightarrow> u64 \<Rightarrow> endpoint_id \<Rightarrow> bytes \<Rightarrow> delegate_announce list \<Rightarrow> rust_delegates \<Rightarrow> rust_delegates \<times> nat" where
  "record_announces E now now_unix from node_key announces m =
     fold (\<lambda>a (m, ok). if verify_announce E now_unix node_key a
             then (bt_put (da_public_key a) \<lparr>ri_version = da_version a, ri_node = from, ri_last_seen = now\<rparr> m, ok + 1)
             else (m, ok)) (take 64 announces) (m, 0)"

definition delegates_snapshot :: "nat \<Rightarrow> rust_delegates \<Rightarrow> rust_delegates" where
  "delegates_snapshot now m = filter (\<lambda>(k, i). now - ri_last_seen i < STALE_AFTER) m"

definition on_delegates ::
  "crypto \<Rightarrow> nat \<Rightarrow> u64 \<Rightarrow> endpoint_id \<Rightarrow> bytes \<Rightarrow> delegate_announce list \<Rightarrow> iroh_peers \<times> rust_delegates \<Rightarrow> iroh_peers \<times> rust_delegates" where
  "on_delegates E now now_unix from node_key announces mr =
     (case record_announces E now now_unix from node_key announces (snd mr) of
        (r, ok) \<Rightarrow> (if ok > 0 then seen now from None (fst mr) else fst mr, r))"

end
