(* ===== verification/Follow.thy ===== *)
theory Follow
  imports PeerIntake
begin

text \<open>
  The steady state of \<open>src/src/p2p_legacy/follow.rs\<close>: \<open>follow_live\<close> polls the best legacy peer, applies what is new,
  leaves a branch the network left, and switches peers. A turn of the inner loop is two functions, because the
  tip may move while the blocks are on their way: one on the answer to the status request, one on the answer
  to the request for blocks, each on the node as it then is.
\<close>

record follower =
  fl_ip :: string
  fl_started :: nat
  fl_fork_depth :: u64
  fl_just_fetched :: bool
  fl_lag_since :: "nat option"

datatype follow_next =
    PollAgain | Reconnect | BackToCatchUp | AskBlocks chain_tip u64 | FollowError error

section \<open>Choosing a peer\<close>

datatype pick = Peer string | Retry | ProbeAgain

definition pick_peer :: "nat \<Rightarrow> peer_table \<Rightarrow> peer_table \<times> pick" where
  "pick_peer now t =
     (case best_for_blocks now 1 t of
        ip # _ \<Rightarrow> (t, Peer ip)
      | [] \<Rightarrow> (case unpark_blocks now t of (t, unparked) \<Rightarrow> (t, if unparked > 0 then Retry else ProbeAgain)))"

definition follow_connect :: "nat \<Rightarrow> string \<Rightarrow> bool \<Rightarrow> u64 \<Rightarrow> peer_table \<Rightarrow> peer_table \<times> follower option" where
  "follow_connect now ip ok fork_depth t =
     (if ok then (t, Some \<lparr>fl_ip = ip, fl_started = now, fl_fork_depth = fork_depth, fl_just_fetched = False, fl_lag_since = None\<rparr>)
      else (record_failure now ip t, None))"

section \<open>The status of the peer\<close>

text \<open>The status request gave the height of the peer or an error with its text.\<close>

definition reset_by_peer :: "string \<Rightarrow> bool" where
  "reset_by_peer e \<longleftrightarrow> sublist ''Connection reset'' e"

definition follow_status ::
  "crypto \<Rightarrow> network \<Rightarrow> clock \<Rightarrow> string \<Rightarrow> string + u64 \<Rightarrow> follower \<times> node \<Rightarrow> (follower \<times> node) \<times> follow_next" where
  "follow_status E n ck lag_detail status fn =
     (case fn of (fl, nd) \<Rightarrow>
      case tip_of E n (nd_store nd) of
        Inl e \<Rightarrow> ((fl, nd), FollowError e)
      | Inr tip \<Rightarrow>
          (case status of
             Inl e \<Rightarrow>
               if fl_just_fetched fl \<or> reset_by_peer e then ((fl, nd), Reconnect)
               else ((fl, nd\<lparr>nd_table := record_failure (ck_now ck) (fl_ip fl) (nd_table nd)\<rparr>), Reconnect)
           | Inr peer_height \<Rightarrow>
               (let t = record_success (ck_now ck) (fl_ip fl) ((ck_now ck - fl_started fl) div 10 ^ 6) (Some peer_height) (nd_table nd);
                    best = best_height (ck_now ck) t;
                    blocktime = ucast (ms_blocktime (milestone_at n (max (ct_height tip) 1)));
                    (lagging, since) = lagging_peer peer_height (ct_height tip) best blocktime (ck_now ck) (fl_lag_since fl);
                    fl = fl\<lparr>fl_just_fetched := False, fl_lag_since := since\<rparr>;
                    nd = nd\<lparr>nd_table := t\<rparr>
                in if lagging
                   then ((fl, nd\<lparr>nd_stall := note_stall_reason ''lagging-peer'' (fl_ip fl) lag_detail (ct_height tip) (ck_unix ck) (nd_stall nd),
                                 nd_table := park_blocks_for (ck_now ck) (fl_ip fl) LAG_PARK t\<rparr>), Reconnect)
                   else if peer_height \<le> ct_height tip then ((fl, nd), PollAgain)
                   else if peer_height - ct_height tip > 2 * ucast MAX_BLOCKS_PER_REQUEST then ((fl, nd), BackToCatchUp)
                   else ((fl, nd), AskBlocks tip peer_height))))"

section \<open>The blocks of the peer\<close>

definition leave_fork :: "crypto \<Rightarrow> network \<Rightarrow> clock \<Rightarrow> string \<Rightarrow> chain_tip \<Rightarrow> follower \<times> node \<Rightarrow> (follower \<times> node) \<times> follow_next" where
  "leave_fork E n ck fork_detail tip fn =
     (case fn of (fl, nd) \<Rightarrow>
      let target = max (saturating_sub (ct_height tip) (fl_fork_depth fl)) 1;
          deeper = fl\<lparr>fl_fork_depth := min (fl_fork_depth fl * 3) UNDO_DEPTH\<rparr>
      in case rollback_to E n target (nd_store nd) of
           (s, Inl (Panic m)) \<Rightarrow> ((fl, nd\<lparr>nd_store := s\<rparr>), FollowError (Sync m))
         | (s, Inl _) \<Rightarrow> ((deeper, nd\<lparr>nd_store := s\<rparr>), Reconnect)
         | (s, Inr _) \<Rightarrow>
             ((deeper, nd\<lparr>nd_store := s, nd_stall := note_stall_reason ''fork'' (fl_ip fl) fork_detail (ct_height tip) (ck_unix ck) (nd_stall nd)\<rparr>),
              Reconnect))"

definition follow_apply :: "crypto \<Rightarrow> network \<Rightarrow> clock \<Rightarrow> bool \<Rightarrow> chain_tip \<Rightarrow> block list \<Rightarrow> follower \<times> node \<Rightarrow> (follower \<times> node) \<times> follow_next" where
  "follow_apply E n ck verify tip blocks fn =
     (case fn of (fl, nd) \<Rightarrow>
      case apply_task E n ck blocks tip verify (nd_store nd) of
        (s, Inr _) \<Rightarrow>
          ((fl\<lparr>fl_fork_depth := 1\<rparr>, note_accepted n ck PullLegacy (fl_ip fl) blocks (last blocks) (nd\<lparr>nd_store := s\<rparr>)), PollAgain)
      | (s, Inl StaleTip) \<Rightarrow> ((fl\<lparr>fl_just_fetched := True\<rparr>, nd\<lparr>nd_store := s\<rparr>), PollAgain)
      | (s, Inl FutureBlock) \<Rightarrow> ((fl\<lparr>fl_just_fetched := True\<rparr>, nd\<lparr>nd_store := s\<rparr>), PollAgain)
      | (s, Inl _) \<Rightarrow>
          ((fl, nd\<lparr>nd_store := s, nd_table := record_blocks_failure (ck_now ck) (fl_ip fl) (nd_table nd)\<rparr>), Reconnect))"

definition follow_blocks ::
  "crypto \<Rightarrow> network \<Rightarrow> clock \<Rightarrow> string \<Rightarrow> bool \<Rightarrow> chain_tip \<Rightarrow> string + block list \<Rightarrow> follower \<times> node \<Rightarrow> (follower \<times> node) \<times> follow_next" where
  "follow_blocks E n ck fork_detail verify tip r fn =
     (case r of
        Inl _ \<Rightarrow> (fn, Reconnect)
      | Inr [] \<Rightarrow> (fn, PollAgain)
      | Inr (b # bs) \<Rightarrow>
          (case tip_of E n (nd_store (snd fn)) of
             Inl e \<Rightarrow> (fn, FollowError e)
           | Inr current \<Rightarrow>
               if ct_height current \<noteq> ct_height tip then (((fst fn)\<lparr>fl_just_fetched := True\<rparr>, snd fn), PollAgain)
               else if forked tip b then leave_fork E n ck fork_detail tip fn
               else follow_apply E n ck verify tip (b # bs) fn))"

text \<open>The start of \<open>follow_live\<close>: every block gets an undo record.\<close>

definition follow_start :: "node \<Rightarrow> node" where
  "follow_start nd = nd\<lparr>nd_store := (nd_store nd)\<lparr>st_undo_enabled := True\<rparr>\<rparr>"

end
