(* ===== verification/LegacyProps.thy ===== *)
theory LegacyProps
  imports LegacyWire
begin

text \<open>
  What the legacy port keeps of a block. A block another node pushes decodes to the block that was serialized, a
  block it serves on request to the block that is stored, unless it has a post-quantum signature: the reply
  has no place for one.
\<close>

section \<open>The bytes of the transactions\<close>

definition wire_bytes :: "crypto \<Rightarrow> network \<Rightarrow> transaction \<Rightarrow> bytes" where
  "wire_bytes E n tx = (case serialize_transaction E tx opts_default (nw_pubkey_hash n) of Inl _ \<Rightarrow> [] | Inr raw \<Rightarrow> raw)"

definition clean_txs :: "crypto \<Rightarrow> network \<Rightarrow> transaction list \<Rightarrow> bool" where
  "clean_txs E n txs = list_all (\<lambda>tx. canonical E tx \<and>
     (case serialize_transaction E tx opts_default (nw_pubkey_hash n) of Inl _ \<Rightarrow> False | Inr raw \<Rightarrow> length raw < 2 ^ 32)) txs"

lemma clean_txsD:
  assumes "clean_txs E n txs" "tx \<in> set txs"
  shows "serialize_transaction E tx opts_default (nw_pubkey_hash n) = Inr (wire_bytes E n tx)"
    "length (wire_bytes E n tx) < 2 ^ 32" "deserialize_transaction E (wire_bytes E n tx) = Inr (with_id E n tx)"
proof -
  from assms obtain raw where raw: "serialize_transaction E tx opts_default (nw_pubkey_hash n) = Inr raw"
    "length raw < 2 ^ 32" "canonical E tx"
    by (cases "serialize_transaction E tx opts_default (nw_pubkey_hash n)") (auto simp: clean_txs_def list_all_iff)
  then show "serialize_transaction E tx opts_default (nw_pubkey_hash n) = Inr (wire_bytes E n tx)"
    "length (wire_bytes E n tx) < 2 ^ 32" "deserialize_transaction E (wire_bytes E n tx) = Inr (with_id E n tx)"
    using transaction_round_trip [OF raw(3) raw(1)] by (simp_all add: wire_bytes_def with_id_def)
qed

lemma clean_txs_Cons: "clean_txs E n (tx # txs) \<Longrightarrow> clean_txs E n txs"
  by (simp add: clean_txs_def)

lemma canonical_clean: "canonical_block E n b \<Longrightarrow> canonical_header E b \<and> clean_txs E n (b_transactions b)"
  by (simp add: canonical_block_def clean_txs_def)

lemma rfold_bodies:
  assumes "clean_txs E n txs"
  shows "rfold (\<lambda>tx acc. rbind (serialize_transaction E tx opts_default (nw_pubkey_hash n)) (\<lambda>x. Inr (acc @ [x]))) txs acc
    = Inr (acc @ map (wire_bytes E n) txs)"
  using assms
proof (induction txs arbitrary: acc)
  case (Cons tx txs)
  then show ?case using clean_txsD(1) [OF Cons.prems, of tx] clean_txs_Cons [OF Cons.prems] by simp
qed simp

text \<open>A block as the store hands it out.\<close>

definition stored_form :: "crypto \<Rightarrow> network \<Rightarrow> string \<Rightarrow> block \<Rightarrow> block" where
  "stored_form E n i b = b\<lparr>b_id := Some i, b_transactions := annotate (b\<lparr>b_id := Some i\<rparr>) 0
      (map (with_id E n) (b_transactions b))\<rparr>"

lemma annotate_cong: "b_id b = b_id b' \<Longrightarrow> b_height b = b_height b' \<Longrightarrow> annotate b seq txs = annotate b' seq txs"
  by (induction txs arbitrary: seq) auto

section \<open>Pushed blocks\<close>

text \<open>The prefix parser on a signed header with anything behind it.\<close>

definition ends_cleanly :: "block \<Rightarrow> bool" where
  "ends_cleanly b \<longleftrightarrow> b_block_signature b \<noteq> None \<and> (b_version b \<ge> BLOCK_VERSION_PQ \<longrightarrow> b_pq_signature b \<noteq> None)"

lemma signed_header_sig_read:
  assumes c: "canonical_header E b" and s: "ends_cleanly b"
  shows "(if remaining (at p (opt_unhex E (b_block_signature b) @ rest)) \<ge> 2
      then rbind (ok_or e (map_option (\<lambda>l. unat l + 2)
             (peek_u8 1 (at p (opt_unhex E (b_block_signature b) @ rest))))) (\<lambda>len.
           rbind (r_hex E len (at p (opt_unhex E (b_block_signature b) @ rest)))
             (\<lambda>(s, r). Inr (Some s, r)))
      else Inr (None, at p (opt_unhex E (b_block_signature b) @ rest)))
    = Inr (b_block_signature b, at (p @ opt_unhex E (b_block_signature b)) rest)"
proof -
  obtain sg where sg: "b_block_signature b = Some sg" using s by (auto simp: ends_cleanly_def)
  then have d: "der_field E sg" using c by (simp add: canonical_header_def)
  have "map_option (\<lambda>l. unat l + 2) (peek_u8 1 (at p (unhex E sg @ rest))) = Some (length (unhex E sg))"
    using der_read(1) [OF d, of p rest] by (simp add: der_len_def)
  then obtain l where l: "peek_u8 1 (at p (unhex E sg @ rest)) = Some l" "unat l + 2 = length (unhex E sg)"
    by auto
  have "2 \<le> length (unhex E sg)" using d by (simp add: der_field_def Let_def)
  then show ?thesis using sg l der_read(2) [OF d] by (simp add: opt_unhex_def)
qed

lemma signed_header_pq_read:
  assumes c: "canonical_header E b" and s: "ends_cleanly b"
  shows "(if b_version b \<ge> BLOCK_VERSION_PQ \<and> remaining (at p (pq_part E (b_pq_signature b) @ rest)) \<ge> 3
      then rbind (r_u8 (at p (pq_part E (b_pq_signature b) @ rest))) (\<lambda>(alg, r). rbind (r_u16_le r) (\<lambda>(len, r).
           rbind (r_hex E (unat len) r) (\<lambda>(s, r).
           Inr (Some \<lparr>pb_algorithm = alg, pb_signature = s\<rparr>, r))))
      else Inr (None, at p (pq_part E (b_pq_signature b) @ rest)))
    = Inr (b_pq_signature b, at (p @ pq_part E (b_pq_signature b)) rest)"
proof (cases "b_pq_signature b")
  case None
  then have "\<not> b_version b \<ge> BLOCK_VERSION_PQ" using s by (auto simp: ends_cleanly_def)
  with None show ?thesis by (simp add: pq_part_def)
next
  case (Some pq)
  then have v: "b_version b \<ge> BLOCK_VERSION_PQ"
    and f: "hex_field E (length (unhex E (pb_signature pq))) (pb_signature pq)"
    and l: "length (unhex E (pb_signature pq)) \<le> 65535"
    using c by (auto simp: canonical_header_def)
  with Some show ?thesis
    using r_hex_field [OF f] by (simp add: pq_part_def w_var16_def r_u8_at r_int_at unat_len16)
qed

lemma header_prefix_read:
  assumes c: "canonical_header E b" and s: "ends_cleanly b"
    and i: "(if b_height b = 1 then Inr (nw_genesis_block_id n) else block_id E b) = Inr i"
  shows "deserialize_block_header_prefix E (header_bytes E b @ rest) n
           = Inr (b\<lparr>b_id := Some i, b_transactions := []\<rparr>, length (header_bytes E b))"
proof -
  define b0 where "b0 = b\<lparr>b_id := None, b_transactions := []\<rparr>"
  have f: "hex_field E 32 (b_previous_block b)" "hex_field E 32 (b_payload_hash b)"
    "hex_field E 33 (b_generator_public_key b)" "ucast (ucast (b_height b) :: u32) = b_height b"
    using c ucast_u32_u64 by (auto simp: canonical_header_def)
  have rebuild: "\<lparr>b_id = None, b_version = b_version b, b_timestamp = b_timestamp b,
      b_previous_block = b_previous_block b, b_height = b_height b,
      b_number_of_transactions = b_number_of_transactions b, b_total_amount = b_total_amount b,
      b_total_fee = b_total_fee b, b_reward = b_reward b, b_payload_length = b_payload_length b,
      b_payload_hash = b_payload_hash b, b_generator_public_key = b_generator_public_key b,
      b_block_signature = b_block_signature b, b_pq_signature = b_pq_signature b,
      b_transactions = []\<rparr> = b0"
    by (cases b) (simp add: b0_def)
  have "block_id E b0 = block_id E b"
    unfolding block_id_def serialize_block_def serialize_block_parts_def b0_def
    by (cases b) (simp only: block.simps cong: if_cong option.case_cong)
  then have i0: "(if b_height b0 = 1 then Inr (nw_genesis_block_id n) else block_id E b0) = Inr i"
    using i by (simp add: b0_def split: if_splits)
  show ?thesis
    unfolding deserialize_block_header_prefix_def parse_header_def header_bytes_def reader_new_at append_assoc
    by (simp only: r_int_at rbind_simps prod.case r_hex_field [OF f(1)] r_hex_field [OF f(2)]
        r_hex_field [OF f(3)] signed_header_sig_read [OF c s] signed_header_pq_read [OF c s] f(4) rebuild Let_def i0)
       (simp add: b0_def)
qed

lemma pushed_lens_read:
  assumes "list_all (\<lambda>x. length x < 2 ^ 32) raws"
  shows "pushed_lens (length raws) (p @ concat (map (\<lambda>x. u32_le (u32_len x)) raws) @ rest) (length p)
    = Inr (map length raws, length p + 4 * length raws)"
  using assms
proof (induction raws arbitrary: p)
  case (Cons x raws)
  let ?q = "p @ u32_le (u32_len x)"
  have "pushed_lens (length raws) (?q @ concat (map (\<lambda>x. u32_le (u32_len x)) raws) @ rest) (length ?q)
      = Inr (map length raws, length ?q + 4 * length raws)"
    by (rule Cons.IH) (use Cons.prems in simp)
  moreover have "of_le (u32_le (u32_len x)) = length x" using Cons.prems by (simp add: of_le_u32_len)
  ultimately show ?case by (simp add: u32_le_def)
qed simp

lemma pushed_txs_read:
  assumes "clean_txs E n txs"
  shows "pushed_txs E b (p @ concat (map (wire_bytes E n) txs)) (length p) seq (map length (map (wire_bytes E n) txs))
    = Inr (annotate b seq (map (with_id E n) txs))"
  using assms
proof (induction txs arbitrary: p seq)
  case (Cons tx txs)
  have "pushed_txs E b ((p @ wire_bytes E n tx) @ concat (map (wire_bytes E n) txs)) (length (p @ wire_bytes E n tx)) (seq + 1)
      (map length (map (wire_bytes E n) txs)) = Inr (annotate b (seq + 1) (map (with_id E n) txs))"
    using clean_txs_Cons [OF Cons.prems] by (rule Cons.IH)
  then show ?case using clean_txsD(3) [OF Cons.prems, of tx] by simp
qed simp

text \<open>What a forger broadcasts is what its peers decode: the bytes of a signed block within the transaction limit
  decode, on the port that receives pushed blocks, to the block with its id and every transaction with its
  id and place, post-quantum signature included.\<close>

lemma pushed_block_decodes:
  assumes "canonical_block E n b" and "ends_cleanly b"
    and "(if b_height b = 1 then Inr (nw_genesis_block_id n) else block_id E b) = Inr i"
    and "unat (b_number_of_transactions b) = length (b_transactions b)"
    and "length (b_transactions b) \<le> unat (max_transactions (milestone_at n (b_height b)))"
  shows "\<exists>bytes. serialize_block_with_transactions E b n = Inr bytes \<and> decode_full_block E n bytes = Inr (stored_form E n i b)"
proof -
  have c: "canonical_header E b" and t: "clean_txs E n (b_transactions b)"
    using canonical_clean [OF assms(1)] by auto
  let ?raws = "map (wire_bytes E n) (b_transactions b)"
  let ?lens = "concat (map (\<lambda>x. u32_le (u32_len x)) ?raws)"
  let ?bytes = "header_bytes E b @ ?lens @ concat ?raws"
  let ?h = "b\<lparr>b_id := Some i, b_transactions := []\<rparr>"
  have ser: "serialize_block_with_transactions E b n = Inr ?bytes"
    using serialize_canonical_header [OF c] rfold_bodies [OF t, of "[]"]
    by (simp add: serialize_block_with_transactions_def)
  have len4: "length ?lens = 4 * length (b_transactions b)"
    by (simp add: length_concat comp_def u32_le_def sum_list_triv)
  have short: "list_all (\<lambda>x. length x < 2 ^ 32) ?raws"
    using clean_txsD(2) [OF t] by (simp add: list_all_iff)
  have lens: "pushed_lens (length (b_transactions b)) ?bytes (length (header_bytes E b))
      = Inr (map length ?raws, length (header_bytes E b @ ?lens))"
    using pushed_lens_read [OF short, of "header_bytes E b" "concat ?raws"] len4 by simp
  have txs: "pushed_txs E ?h ?bytes (length (header_bytes E b @ ?lens)) 0 (map length ?raws)
      = Inr (annotate ?h 0 (map (with_id E n) (b_transactions b)))"
    using pushed_txs_read [OF t, of ?h "header_bytes E b @ ?lens" 0] by simp
  have "annotate ?h 0 ts = annotate (b\<lparr>b_id := Some i\<rparr>) 0 ts" for ts by (rule annotate_cong) simp_all
  then have "decode_full_block E n ?bytes = Inr (stored_form E n i b)"
    unfolding decode_full_block_def header_prefix_read [OF c assms(2,3)]
    using assms(4,5) lens txs len4 by (simp add: Let_def stored_form_def)
  with ser show ?thesis by blast
qed

section \<open>Blocks on request\<close>

lemma pulled_block_no_pq: "pulled_block E h = Inr b \<Longrightarrow> b_pq_signature b = None"
  by (auto simp: pulled_block_def rbind_eq_Inr)

lemma decode_blocks_no_pq:
  assumes "decode_blocks E PR payload = Inr bs" "b \<in> set bs"
  shows "b_pq_signature b = None"
proof -
  let ?f = "\<lambda>raw bs. rbind (ok_or (Sync ''block header decode'') (pe_decode PR raw)) (\<lambda>h.
              rbind (pulled_block E h) (\<lambda>b. Inr (bs @ [b])))"
  have "\<forall>b \<in> set bs'. b_pq_signature b = None" if "rfold ?f raws acc = Inr bs'" "\<forall>b \<in> set acc. b_pq_signature b = None" for raws acc bs'
    using that
  proof (induction raws arbitrary: acc)
    case (Cons raw raws)
    then obtain h x where x: "pulled_block E h = Inr x" "rfold ?f raws (acc @ [x]) = Inr bs'"
      by (simp add: rbind_eq_Inr) blast
    with Cons.prems(2) show ?case by (intro Cons.IH [OF x(2)]) (simp add: pulled_block_no_pq [OF x(1)])
  qed simp
  moreover obtain raws bs' where "rfold ?f raws [] = Inr bs'" "bs = sort_key b_height bs'"
    using assms(1) by (auto simp: decode_blocks_def rbind_eq_Inr)
  ultimately show ?thesis using assms(2) by (metis empty_iff empty_set set_sort)
qed

lemma missing_pq_signature:
  "b_version b = BLOCK_VERSION_PQ \<Longrightarrow> b_pq_signature b = None \<Longrightarrow> verify_block E b n now \<noteq> []"
  by (simp add: verify_block_def block_pq_errors_def Let_def split: prod.split)

lemma rfold_fails:
  assumes "x \<in> set xs" "\<And>a. \<exists>e. f x a = Inl e"
  shows "\<exists>e. rfold f xs a = Inl e"
  using assms(1)
proof (induction xs arbitrary: a)
  case (Cons y ys)
  show ?case
  proof (cases "x = y")
    case True
    with assms(2) show ?thesis by (metis rbind_simps(1) rfold.simps(2))
  next
    case False
    with Cons show ?thesis by (cases "f y a") auto
  qed
qed simp

text \<open>C35. Whatever a peer sends, a version-1 block decoded from a getBlocks reply has no post-quantum signature, so a batch
  with such a block is refused by the verification and the store stays as it was: once post-quantum blocks
  are active, no node can get past one over the legacy port.\<close>

theorem pq_block_never_pulled:
  assumes "decode_blocks E PR payload = Inr bs" "b \<in> set bs" "b_version b = BLOCK_VERSION_PQ"
  shows "\<exists>e. sync_apply_blocks E n now now_ms bs tip True s = (s, Inl e)"
proof -
  have "verify_block E b n now \<noteq> []"
    using decode_blocks_no_pq [OF assms(1,2)] assms(3) by (rule missing_pq_signature [rotated])
  then have "\<exists>e. crypto_check E n now True b = Inl e"
    by (cases "b_id b") (simp_all add: crypto_check_def ensure_def)
  then have "\<exists>e. rfold (\<lambda>b _. crypto_check E n now True b) bs () = Inl e"
    using assms(2) by (intro rfold_fails) auto
  then show ?thesis
    by (cases "rfold (link_check n now_ms) bs tip") (auto simp: sync_apply_blocks_def)
qed

lemma served_txs_bytes:
  assumes "clean_txs E n txs"
  shows "served_txs E n (annotate B seq (map (with_id E n) txs)) = Inr (concat (map be_frame (map (wire_bytes E n) txs)))"
proof -
  have a: "serialize_transaction E (tx\<lparr>tx_block_id := bi, tx_block_height := bh, tx_sequence := sq\<rparr>) o1 net
      = serialize_transaction E tx o1 net" for tx bi bh sq o1 net
    using placed_serialize [of E bh sq bi tx o1 net] by (cases tx) (simp add: placed_def)
  have w: "serialize_transaction E (with_id E n tx) o1 net = serialize_transaction E tx o1 net" for tx o1 net
    by (simp add: with_id_def serialize_tx_id split: sum.split)
  have "rfold (\<lambda>tx out. rbind (serialize_transaction E tx opts_default (nw_pubkey_hash n)) (\<lambda>x. Inr (out @ be_frame x)))
      (annotate B seq (map (with_id E n) txs)) acc = Inr (acc @ concat (map be_frame (map (wire_bytes E n) txs)))" for acc
    using assms
  proof (induction txs arbitrary: seq acc)
    case (Cons tx txs)
    then show ?case using clean_txsD(1) [OF Cons.prems, of tx] clean_txs_Cons [OF Cons.prems] by (simp add: a w)
  qed simp
  from this [of "[]"] show ?thesis by (simp add: served_txs_def)
qed

lemma pulled_txs_read:
  assumes "clean_txs E n txs" "b_id B = Some i" "b_height B = h"
  shows "pulled_txs E i h seq (map (wire_bytes E n) txs) = Inr (annotate B seq (map (with_id E n) txs))"
  using assms(1)
proof (induction txs arbitrary: seq)
  case (Cons tx txs)
  then show ?case
    using clean_txsD(3) [OF Cons.prems, of tx] clean_txs_Cons [OF Cons.prems] assms(2,3) by simp
qed simp

lemma parse_amount_show: "parse_amount (show_nat (unat (a :: u64))) = Inr a"
proof -
  have "unat a < 2 ^ 64" using unsigned_less [of a, where ?'a = nat] by simp
  then show ?thesis by (simp add: parse_amount_def parse_show_nat)
qed

text \<open>A block without a post-quantum signature makes the trip through the reply.\<close>

definition servable :: "crypto \<Rightarrow> network \<Rightarrow> proto_env \<Rightarrow> string \<times> block \<Rightarrow> bool" where
  "servable E n PR ib \<longleftrightarrow> canonical_block E n (snd ib) \<and> b_pq_signature (snd ib) = None \<and> b_block_signature (snd ib) \<noteq> Some []
     \<and> (case served_header E n False (stored_form E n (fst ib) (snd ib)) of Inl _ \<Rightarrow> False | Inr h \<Rightarrow> length (pe_encode PR h) < 2 ^ 32)"

lemma served_block_read:
  assumes "servable E n PR (i, b)"
  shows "\<exists>h. served_header E n False (stored_form E n i b) = Inr h \<and> length (pe_encode PR h) < 2 ^ 32
    \<and> pulled_block E h = Inr (stored_form E n i b)"
proof -
  have c: "canonical_header E b" and t: "clean_txs E n (b_transactions b)"
    using canonical_clean [of E n b] assms by (auto simp: servable_def)
  obtain h where h: "served_header E n False (stored_form E n i b) = Inr h" "length (pe_encode PR h) < 2 ^ 32"
    using assms by (cases "served_header E n False (stored_form E n i b)") (auto simp: servable_def)
  have ht: "ucast (ucast (b_height b) :: u32) = b_height b" using c ucast_u32_u64 by (auto simp: canonical_header_def)
  let ?raws = "map (wire_bytes E n) (b_transactions b)"
  have short: "list_all (\<lambda>x. length x < 2 ^ 32) ?raws" using clean_txsD(2) [OF t] by (simp add: list_all_iff)
  have bh: "bh_transactions h = concat (map be_frame ?raws)" "bh_id h = i" "ucast (bh_height h) = b_height b"
    "bh_total_amount h = show_nat (unat (b_total_amount b))" "bh_total_fee h = show_nat (unat (b_total_fee b))"
    "bh_reward h = show_nat (unat (b_reward b))" "bh_version h = b_version b" "bh_timestamp h = b_timestamp b"
    "bh_previous_block h = b_previous_block b" "bh_number_of_transactions h = b_number_of_transactions b"
    "bh_payload_length h = b_payload_length b" "bh_payload_hash h = b_payload_hash b"
    "bh_generator_public_key h = b_generator_public_key b" "bh_block_signature h = unwrap_or [] (b_block_signature b)"
    using h(1) ht by (auto simp: served_header_def stored_form_def served_txs_bytes [OF t])
  have txs: "pulled_txs E i (b_height b) 0 ?raws = Inr (b_transactions (stored_form E n i b))"
    using pulled_txs_read [OF t, of "b\<lparr>b_id := Some i\<rparr>"] by (simp add: stored_form_def)
  have sig: "(if unwrap_or [] (b_block_signature b) = [] then None else Some (unwrap_or [] (b_block_signature b))) = b_block_signature b"
    and pq: "b_pq_signature b = None"
    using assms by (cases "b_block_signature b"; simp add: servable_def)+
  have "pulled_block E h = Inr (stored_form E n i b)"
    unfolding pulled_block_def bh be_frames_concat [OF short] sig
    using txs pq by (simp add: parse_amount_show) (cases b, simp add: stored_form_def)
  with h show ?thesis by blast
qed

lemma decode_served:
  assumes "proto_laws PR" "list_all (servable E n PR) xs"
  shows "\<exists>hs. rfold (\<lambda>b out. rbind (served_header E n False b) (\<lambda>h. Inr (out @ be_frame (pe_encode PR h))))
        (map (\<lambda>(i, b). stored_form E n i b) xs) acc = Inr (acc @ concat (map be_frame (map (pe_encode PR) hs)))
    \<and> list_all (\<lambda>x. length x < 2 ^ 32) (map (pe_encode PR) hs)
    \<and> (\<forall>acc. rfold (\<lambda>raw bs. rbind (ok_or (Sync ''block header decode'') (pe_decode PR raw)) (\<lambda>h.
              rbind (pulled_block E h) (\<lambda>b. Inr (bs @ [b])))) (map (pe_encode PR) hs) acc
          = Inr (acc @ map (\<lambda>(i, b). stored_form E n i b) xs))"
  using assms(2)
proof (induction xs arbitrary: acc)
  case Nil
  show ?case by (intro exI [of _ "[]"]) simp
next
  case (Cons x xs)
  obtain i b where x: "x = (i, b)" by (cases x)
  obtain h where h: "served_header E n False (stored_form E n i b) = Inr h" "length (pe_encode PR h) < 2 ^ 32"
    "pulled_block E h = Inr (stored_form E n i b)"
    using served_block_read [of E n PR i b] Cons.prems x by auto
  have d: "pe_decode PR (pe_encode PR h) = Some h" using assms(1) by (simp add: proto_laws_def)
  have "list_all (servable E n PR) xs" using Cons.prems by simp
  from Cons.IH [OF this, of "acc @ be_frame (pe_encode PR h)"] obtain hs where "rfold (\<lambda>b out. rbind (served_header E n False b) (\<lambda>h. Inr (out @ be_frame (pe_encode PR h))))
        (map (\<lambda>(i, b). stored_form E n i b) xs) (acc @ be_frame (pe_encode PR h))
          = Inr ((acc @ be_frame (pe_encode PR h)) @ concat (map be_frame (map (pe_encode PR) hs)))"
    "list_all (\<lambda>x. length x < 2 ^ 32) (map (pe_encode PR) hs)"
    "\<forall>acc. rfold (\<lambda>raw bs. rbind (ok_or (Sync ''block header decode'') (pe_decode PR raw)) (\<lambda>h.
              rbind (pulled_block E h) (\<lambda>b. Inr (bs @ [b])))) (map (pe_encode PR) hs) acc
          = Inr (acc @ map (\<lambda>(i, b). stored_form E n i b) xs)"
    by (elim exE conjE)
  then show ?case by (intro exI [of _ "h # hs"]) (use h(2) in \<open>simp add: h(1,3) d x\<close>)
qed

text \<open>C10. Blocks without post-quantum signatures arrive as they are stored: the reply a node gives to getBlocks decodes,
  at the node that asked, to the very blocks the store holds above the height, with their ids, their
  transactions and their places, in the order of their heights.\<close>

theorem pulled_blocks_round_trip:
  assumes "proto_laws PR" "list_all (servable E n PR) xs" "sorted (map (\<lambda>(i, b). b_height b) xs)"
    and "get_blocks_from E n s (ucast last_height + 1) (ucast (max 1 (min 400 limit))) = Inr (map (\<lambda>(i, b). stored_form E n i b) xs)"
  shows "\<exists>payload. serve_blocks E n PR \<lparr>gb_last_block_height = last_height, gb_block_limit = limit, gb_headers_only = False\<rparr> s = Inr payload
    \<and> decode_blocks E PR payload = Inr (map (\<lambda>(i, b). stored_form E n i b) xs)"
proof -
  obtain hs where hs: "rfold (\<lambda>b out. rbind (served_header E n False b) (\<lambda>h. Inr (out @ be_frame (pe_encode PR h))))
        (map (\<lambda>(i, b). stored_form E n i b) xs) [] = Inr (concat (map be_frame (map (pe_encode PR) hs)))"
    "list_all (\<lambda>x. length x < 2 ^ 32) (map (pe_encode PR) hs)"
    "rfold (\<lambda>raw bs. rbind (ok_or (Sync ''block header decode'') (pe_decode PR raw)) (\<lambda>h.
              rbind (pulled_block E h) (\<lambda>b. Inr (bs @ [b])))) (map (pe_encode PR) hs) []
          = Inr (map (\<lambda>(i, b). stored_form E n i b) xs)"
    using decode_served [OF assms(1,2), of "[]"] by auto
  have "map b_height (map (\<lambda>(i, b). stored_form E n i b) xs) = map (\<lambda>(i, b). b_height b) xs"
    by (simp add: stored_form_def case_prod_unfold)
  then have "sort_key b_height (map (\<lambda>(i, b). stored_form E n i b) xs) = map (\<lambda>(i, b). stored_form E n i b) xs"
    using assms(3) by (intro sort_key_id_if_sorted) (simp only:)
  with hs(3) be_frames_concat [OF hs(2)]
  have "decode_blocks E PR (concat (map be_frame (map (pe_encode PR) hs))) = Inr (map (\<lambda>(i, b). stored_form E n i b) xs)"
    by (simp only: decode_blocks_def rbind_simps)
  with hs(1) assms(4) show ?thesis by (simp add: serve_blocks_def)
qed

section \<open>Cases\<close>

text \<open>A message codec to try the port with: text after its length in ones, integers little-endian.\<close>

fun ones :: "bytes \<Rightarrow> nat \<times> bytes" where
  "ones [] = (0, [])"
| "ones (b # bs) = (if b = 0 then (0, bs) else (case ones bs of (k, rest) \<Rightarrow> (Suc k, rest)))"

definition put_text :: "string \<Rightarrow> bytes" where "put_text s = replicate (length s) 1 @ [0] @ as_bytes s"

definition get_text :: "bytes \<Rightarrow> string \<times> bytes" where
  "get_text bs = (case ones bs of (k, rest) \<Rightarrow> (str_of_bytes (take k rest), drop k rest))"

definition get_u32 :: "bytes \<Rightarrow> u32 \<times> bytes" where
  "get_u32 bs = (word_of_nat (of_le (take 4 bs)), drop 4 bs)"

lemma ones_replicate: "ones (replicate k 1 @ 0 # rest) = (k, rest)"
  by (induction k) auto

lemma get_put_text: "get_text (put_text s @ rest) = (s, rest)"
  by (simp add: get_text_def put_text_def ones_replicate)

lemma get_put_u32: "get_u32 (u32_le v @ rest) = (v, rest)"
  by (simp add: get_u32_def u32_le_def word_of_le_bytes)

definition test_encode :: "block_header_proto \<Rightarrow> bytes" where
  "test_encode h = put_text (bh_id h) @ u32_le (bh_version h) @ u32_le (bh_timestamp h) @ put_text (bh_previous_block h)
     @ u32_le (bh_height h) @ u32_le (bh_number_of_transactions h) @ put_text (bh_total_amount h) @ put_text (bh_total_fee h)
     @ put_text (bh_reward h) @ u32_le (bh_payload_length h) @ put_text (bh_payload_hash h)
     @ put_text (bh_generator_public_key h) @ put_text (bh_block_signature h) @ bh_transactions h"

definition test_decode :: "bytes \<Rightarrow> block_header_proto option" where
  "test_decode r =
     (case get_text r of (i, r) \<Rightarrow> case get_u32 r of (version, r) \<Rightarrow> case get_u32 r of (timestamp, r) \<Rightarrow>
      case get_text r of (prev, r) \<Rightarrow> case get_u32 r of (height, r) \<Rightarrow> case get_u32 r of (ntx, r) \<Rightarrow>
      case get_text r of (amount, r) \<Rightarrow> case get_text r of (fee, r) \<Rightarrow> case get_text r of (reward, r) \<Rightarrow>
      case get_u32 r of (plen, r) \<Rightarrow> case get_text r of (ph, r) \<Rightarrow> case get_text r of (gpk, r) \<Rightarrow>
      case get_text r of (sig, r) \<Rightarrow>
      Some \<lparr>bh_id = i, bh_version = version, bh_timestamp = timestamp, bh_previous_block = prev, bh_height = height,
        bh_number_of_transactions = ntx, bh_total_amount = amount, bh_total_fee = fee, bh_reward = reward,
        bh_payload_length = plen, bh_payload_hash = ph, bh_generator_public_key = gpk, bh_block_signature = sig,
        bh_transactions = r\<rparr>)"

definition test_proto :: proto_env where "test_proto = \<lparr>pe_encode = test_encode, pe_decode = test_decode\<rparr>"

lemma test_proto_laws: "proto_laws test_proto"
  by (simp add: proto_laws_def test_proto_def test_decode_def test_encode_def get_put_text get_put_u32)

lemma length_test_encode:
  "length (test_encode h) = 28 + 2 * (length (bh_id h) + length (bh_previous_block h) + length (bh_total_amount h)
     + length (bh_total_fee h) + length (bh_reward h) + length (bh_payload_hash h) + length (bh_generator_public_key h)
     + length (bh_block_signature h)) + length (bh_transactions h)"
  by (simp add: test_encode_def put_text_def u32_le_def as_bytes_def)

definition v1_header :: block_header_proto where
  "v1_header = \<lparr>bh_id = [], bh_version = 1, bh_timestamp = 88, bh_previous_block = [], bh_height = 3,
     bh_number_of_transactions = 0, bh_total_amount = ''0'', bh_total_fee = ''0'', bh_reward = ''0'', bh_payload_length = 0,
     bh_payload_hash = [], bh_generator_public_key = [], bh_block_signature = [], bh_transactions = []\<rparr>"

theorem pq_block_never_pulled_witness:
  "\<exists>b e. decode_blocks ref_crypto test_proto (be_frame (test_encode v1_header)) = Inr [b] \<and> b_version b = BLOCK_VERSION_PQ
    \<and> sync_apply_blocks ref_crypto ref_network 100 100000 [b] \<lparr>ct_height = 2, ct_id = None\<rparr> True store_empty = (store_empty, Inl e)"
proof -
  have "show_nat 0 = ''0''" by code_simp
  with parse_amount_show [of 0] have z: "parse_amount ''0'' = Inr 0" by simp
  have f: "be_frames [] = Inr []" by (simp add: be_frames.simps)
  obtain b where b: "pulled_block ref_crypto v1_header = Inr b" "b_version b = BLOCK_VERSION_PQ"
    by (simp add: pulled_block_def v1_header_def z f BLOCK_VERSION_PQ_def)
  have "length (test_encode v1_header) < 2 ^ 32" by (simp add: length_test_encode v1_header_def)
  then have "be_frames (be_frame (test_encode v1_header)) = Inr [test_encode v1_header]"
    using be_frames_concat [of "[test_encode v1_header]"] by simp
  moreover have "pe_decode test_proto (test_encode v1_header) = Some v1_header"
    using test_proto_laws by (simp add: proto_laws_def test_proto_def)
  ultimately have d: "decode_blocks ref_crypto test_proto (be_frame (test_encode v1_header)) = Inr [b]"
    using b by (simp add: decode_blocks_def)
  from pq_block_never_pulled [OF d, of b] b(2) show ?thesis using d by auto
qed

lemma ref_block_id:
  "(if b_height ref_block = 1 then Inr (nw_genesis_block_id ref_network) else block_id ref_crypto ref_block)
     = Inr (hex_encode ref_crypto (sha256 ref_crypto (header_bytes ref_crypto ref_block)))"
  using serialize_canonical_header [OF ref_header_canonical]
  by (simp add: block_id_def) (simp add: ref_block_def)

lemma ref_transfer_length: "length (wire_bytes ref_crypto ref_network ref_transfer) < 1000"
proof -
  have l: "length (unhex ref_crypto ref_key) = 33" "length (unhex ref_crypto ref_sig) = 64"
    "length (unaddr ref_crypto ref_address) = 21"
    using ref_fields hex_fieldD(2) addr_fieldD(2) by blast+
  show ?thesis
    using ref_fields l
    by (simp add: wire_bytes_def ref_network_def serialize_transaction_def serialize_vendor_field_def serialize_type_payload_def
        serialize_core_def serialize_signatures_def ref_transfer_def has_vendor_field_def is_sobj_def
        is_token_def is_pq_def VERSION_PQ_def write_recipient_def second_signature_any_def opt_hex_def
        opts_default_def w_hex_field write_addr_field w_var8_def)
qed

theorem pulled_blocks_round_trip_witness:
  "\<exists>i rec payload. serve_blocks ref_crypto ref_network test_proto
       \<lparr>gb_last_block_height = 1, gb_block_limit = 400, gb_headers_only = False\<rparr> (store_empty\<lparr>st_blocks := [(2, rec)]\<rparr>) = Inr payload
     \<and> decode_blocks ref_crypto test_proto payload = Inr [stored_form ref_crypto ref_network i ref_block]"
proof -
  define i where "i = hex_encode ref_crypto (sha256 ref_crypto (header_bytes ref_crypto ref_block))"
  let ?E = ref_crypto and ?n = ref_network
  obtain rec where rec: "decode_block ?E rec ?n = Inr (stored_form ?E ?n i ref_block)"
    using block_record_round_trip [OF ref_block_canonical ref_block_id] unfolding stored_form_def i_def by blast
  have t: "clean_txs ?E ?n (b_transactions ref_block)" using canonical_clean [OF ref_block_canonical] by simp
  have li: "length i = 64" unfolding i_def by (subst ref_crypto_def, subst ref_crypto_def) (simp add: ref_hex_length ref_digest_def)
  have ser: "servable ?E ?n test_proto (i, ref_block)"
  proof -
    have "length ref_hash = 64" "length ref_der < 100" "length ref_key < 100" "ref_der \<noteq> []"
      by code_simp+
    moreover have "length (show_nat 250000000) \<le> 10" "length (show_nat 10000000) \<le> 10" "length (show_nat 0) \<le> 10"
      by (simp_all add: length_show_nat)
    ultimately show ?thesis
      using ref_transfer_length li ref_block_canonical served_txs_bytes [OF t]
      by (simp add: servable_def served_header_def stored_form_def length_test_encode test_proto_def)
        (simp add: ref_block_def be_frame_def)
  qed
  let ?s = "store_empty\<lparr>st_blocks := [(2, rec)]\<rparr>"
  have g: "get_blocks_from ?E ?n ?s (ucast (1::u32) + 1) (ucast (max 1 (min 400 (400::u32))))
      = Inr (map (\<lambda>(i, b). stored_form ?E ?n i b) [(i, ref_block)])"
    by (simp add: get_blocks_from_def saturating_add_def rec)
  have "list_all (servable ?E ?n test_proto) [(i, ref_block)]" "sorted (map (\<lambda>(i, b). b_height b) [(i, ref_block)])"
    using ser by simp_all
  from pulled_blocks_round_trip [OF test_proto_laws this g]
  obtain payload where "serve_blocks ?E ?n test_proto \<lparr>gb_last_block_height = 1, gb_block_limit = 400, gb_headers_only = False\<rparr> ?s = Inr payload"
    "decode_blocks ?E test_proto payload = Inr [stored_form ?E ?n i ref_block]" by auto
  then show ?thesis by blast
qed

end
