(* ===== verification/NetProps.thy ===== *)
theory NetProps
  imports Gossip Follow LegacyProps CatchUpStall PoolCases
begin

text \<open>
  What the handlers make of messages: a pushed block goes through the wire format into the very batch the intake
  applies, and a peer hint nobody checked becomes the target of the next download.
\<close>

section \<open>From the forger to the peer's store\<close>

lemma applied_task_height:
  assumes "apply_task E n ck [b] tip verify s = (s', Inr t)" and "0 < b_height b"
  shows "get_last_height s' = b_height b \<and> t = \<lparr>ct_height = b_height b, ct_id = b_id b\<rparr>"
proof -
  obtain r where r: "sync_apply_blocks E n (ck_epoch ck) (ck_ms ck) [b] tip verify s = (s', r)" "r = Inr t"
    using assms(1) by (cases "sync_apply_blocks E n (ck_epoch ck) (ck_ms ck) [b] tip verify s")
      (auto simp: apply_task_def split: sum.splits error.splits)
  then have "apply_block E n b s = (s', Inr ())" "link_check n (ck_ms ck) b tip = Inr t"
    by (auto simp: sync_apply_blocks_def apply_block_def rbind_eq_Inr split: sum.splits prod.splits if_splits)
  then show ?thesis
    using apply_block_extends_tip [OF _ assms(2)] by (auto simp: link_check_def rbind_eq_Inr split: if_splits)
qed

text \<open>C18. The bytes a forger broadcasts for the block right above the receiver's tip that names that tip as its
  previous block (or meets a tip without an id) are applied as that block, when it is canonical and signed and its
  transactions are counted and fit the height's limit: the handler leaves the store that applying it to the tip
  gives, answers success with its height exactly when it was accepted, and then the block is the new tip of the
  store; it passes the error on when the block was refused.\<close>

theorem pushed_block_is_applied:
  fixes E n b i nd tip ck verify pc ip ask
  assumes "canonical_block E n b" and "ends_cleanly b" and "block_id E b = Inr i" and "b_height b > 1"
    and "unat (b_number_of_transactions b) = length (b_transactions b)"
    and "length (b_transactions b) \<le> unat (max_transactions (milestone_at n (b_height b)))"
    and tip: "tip_of E n (nd_store nd) = Inr tip" "ct_height tip < b_height b" "b_height b = ct_height tip + 1"
    and "ct_id tip \<in> {None, Some (b_previous_block b)}"
  defines "applied \<equiv> apply_task E n ck [stored_form E n i b] tip verify (nd_store nd)"
  shows "\<exists>bytes nd' r. serialize_block_with_transactions E b n = Inr bytes
    \<and> post_block E n pc ck verify ip ask bytes nd = (nd', r) \<and> nd_store nd' = fst applied
    \<and> (is_ok (snd applied) \<longrightarrow> r = Inr (True, ucast (b_height b)) \<and> get_last_height (nd_store nd') = b_height b)
    \<and> (\<forall>e. snd applied = Inl e \<longrightarrow> e \<noteq> StaleTip \<longrightarrow> r = Inl e)"
proof -
  have "(if b_height b = 1 then Inr (nw_genesis_block_id n) else block_id E b) = Inr i" using assms(3,4) by auto
  then obtain bytes where bytes: "serialize_block_with_transactions E b n = Inr bytes"
    "decode_full_block E n bytes = Inr (stored_form E n i b)"
    using pushed_block_decodes [OF assms(1,2) _ assms(5,6)] by blast
  have f: "b_height (stored_form E n i b) = b_height b" "b_previous_block (stored_form E n i b) = b_previous_block b"
    by (simp_all add: stored_form_def)
  have "\<not> b_height b \<le> ct_height tip" "\<not> b_height b > ct_height tip + 1" using tip(2,3) by auto
  moreover have "(case ct_id tip of None \<Rightarrow> False | Some j \<Rightarrow> b_previous_block (stored_form E n i b) \<noteq> j) = False"
    using assms(10) f(2) by (auto split: option.splits)
  ultimately have post: "post_block E n pc ck verify ip ask bytes nd = post_apply E n pc ck verify ip (stored_form E n i b) tip nd"
    using tip(1,3) by (simp add: post_block_def post_above_def bytes(2) f Let_def)
  obtain s r where a: "applied = (s, r)" by (cases applied)
  have "get_last_height s = b_height b" if "r = Inr t" for t
    using applied_task_height [of E n ck "stored_form E n i b" tip verify "nd_store nd" s t] a that assms(4) f(1)
    by (cases "b_height b = 0") (auto simp: applied_def word_gt_0)
  then show ?thesis
    using bytes(1) post a f(1)
    by (cases r) (auto simp: post_apply_def note_accepted_def Let_def applied_def is_ok_def split: error.splits)
qed

section \<open>A hint that pins the download\<close>

lemma fold_max_ge: "a \<le> fold max xs (a :: 'a::linorder) \<and> (x \<in> set xs \<longrightarrow> x \<le> fold max xs a)"
proof (induction xs arbitrary: a)
  case (Cons y ys)
  from Cons [of "max y a"] show ?case by auto
qed simp

lemma best_height_ge:
  assumes "bt_get (pt_peers t) ip = Some p" "\<not> peer_is_banned now p"
  shows "ps_height p \<le> best_height now t"
proof -
  have "ps_height p \<in> set (map ps_height (filter (\<lambda>p. \<not> peer_is_banned now p) (map snd (pt_peers t))))"
    using bt_get_SomeD [OF assms(1)] assms(2) by force
  then show ?thesis unfolding best_height_def using fold_max_ge by blast
qed

text \<open>The download ends well only at its target, and the target never falls.\<close>

definition aims_at :: "u64 \<Rightarrow> world \<Rightarrow> bool" where
  "aims_at h w \<longleftrightarrow> h \<le> sc_target (wo_sched w) \<and> (cu_result (wo_coord w) = Some (Inr ()) \<longrightarrow> h \<le> ct_height (cu_tip (wo_coord w)))"

lemma punish_aims [simp]:
  "wo_sched (punish now src w) = wo_sched w" "wo_coord (punish now src w) = wo_coord w"
  by (simp_all add: punish_def split: peer_source.splits)

lemma leave_branch_aims:
  "sc_target (wo_sched (leave_branch E n now src w)) = sc_target (wo_sched w)"
  "cu_result (wo_coord w) = None \<Longrightarrow> cu_result (wo_coord (leave_branch E n now src w)) \<noteq> Some (Inr ())"
  by (auto simp: leave_branch_def end_with_def restart_at_def Let_def split: prod.splits sum.splits error.splits option.splits)

lemma apply_next_aims:
  "sc_target (wo_sched (apply_next E n e ms now o1 w)) = sc_target (wo_sched w)"
  "cu_result (wo_coord w) = None \<Longrightarrow> cu_result (wo_coord (apply_next E n e ms now o1 w)) \<noteq> Some (Inr ())"
  by (auto simp: apply_next_def leave_branch_aims end_with_def restart_at_def Let_def
      split: prod.splits sum.splits error.splits option.splits list.splits)

lemma aims_run:
  assumes "world_run E n o1 allowed w0 w" "aims_at h w0"
  shows "aims_at h w"
  using assms
proof (induction rule: world_run.induct)
  case (more w st w')
  from more.IH [OF more.prems] have w: "aims_at h w" .
  from more.hyps(3) show ?case
  proof cases
    case (take now)
    with w show ?thesis
      using take_job_window by (auto simp: aims_at_def worker_take_def split: prod.splits option.splits)
  next
    case (deliver j now r)
    obtain w1 bs err where f: "worker_fetch now j r w = (w1, bs, err)" by (cases "worker_fetch now j r w")
    from deliver w show ?thesis
      using worker_fetch_fields [OF f] by (simp add: aims_at_def worker_deliver_def f)
  next
    case (apply_reply e ms now)
    with w show ?thesis by (simp add: aims_at_def apply_next_aims)
  next
    case (check now)
    with w show ?thesis by (auto simp: aims_at_def check_target_def Let_def end_with_def le_max_iff_disj)
  next
    case (receive f fs now probes)
    show ?thesis
      by (rule receive_cases [OF receive(5), of now o1 probes])
        (use w receive in \<open>simp_all add: aims_at_def receive_blocks_fields receive_failure_fields\<close>)
  next
    case (elsewhere s)
    with w show ?thesis by (simp add: aims_at_def)
  next
    case (peers t iroh)
    with w show ?thesis by (simp add: aims_at_def)
  qed
qed

lemma hinted_height:
  assumes "trim (ph_ip h) = ph_ip h" "ph_ip h \<noteq> []" "bt_get (pt_peers t) (ph_ip h) = None"
  shows "ph_height h \<le> best_height now (add_hint now h t)"
proof -
  have "\<exists>p. bt_get (pt_peers (add_hint now h t)) (ph_ip h) = Some p \<and> \<not> peer_is_banned now p \<and> ph_height h \<le> ps_height p"
    using assms by (simp add: add_hint_def add_peer_def Let_def record_success_def peer_entry_def set_version_def get_peer_mut_def
        peer_is_banned_def)
  then show ?thesis using best_height_ge order_trans by blast
qed

lemma started_at:
  assumes "catch_up_start E n now o1 t iroh s = Inr (Some w0)" "h \<le> best_height now t"
  shows "aims_at h w0 \<and> (\<forall>tip. tip_of E n s = Inr tip \<longrightarrow> ct_height tip < h \<longrightarrow> h - ct_height tip > 2 * UNDO_DEPTH
    \<longrightarrow> \<not> st_undo_enabled (wo_store w0))"
proof -
  define target where "target = max (best_height now t) (case iroh of None \<Rightarrow> 0 | Some m \<Rightarrow> iroh_best_height m)"
  obtain tip where tip: "tip_of E n s = Inr tip" using assms(1) by (auto simp: catch_up_start_def rbind_eq_Inr)
  have ht: "h \<le> target" using assms(2) by (simp add: target_def le_max_iff_disj)
  have w0: "sc_target (wo_sched w0) = target" "cu_result (wo_coord w0) = None"
    "st_undo_enabled (wo_store w0) \<longleftrightarrow> target - ct_height tip \<le> 2 * UNDO_DEPTH"
    using assms(1) tip unfolding catch_up_start_def target_def [symmetric] by (auto simp: Let_def split: if_splits)
  have "h - ct_height tip \<le> target - ct_height tip" if "ct_height tip < h"
    using that ht by (simp add: word_le_nat_alt word_less_nat_alt unat_sub)
  with w0 ht tip show ?thesis by (auto simp: aims_at_def dest: order.strict_trans2)
qed

text \<open>C34. One gossip message with an unknown address and any height sets the target of the next download: the height is
  believed before the address answered anything. The download does not end well below that height, in no
  interleaving and whatever the peers do, and if the height is far enough away it keeps no undo records, so
  that a fork met on the way cannot be left.\<close>

theorem hint_pins_download:
  assumes "trim (ph_ip h) = ph_ip h" "ph_ip h \<noteq> []" "bt_get (pt_peers (nd_table nd)) (ph_ip h) = None"
    and "ph_port h = pt_port (nd_table nd)"
    and start: "catch_up_start E n now o1 (nd_table (on_peers now from [h] None True nd)) iroh s = Inr (Some w0)"
    and run: "world_run E n o1 allowed w0 w"
  shows "(ct_height (cu_tip (wo_coord w)) < ph_height h \<longrightarrow> cu_result (wo_coord w) \<noteq> Some (Inr ()))
    \<and> (\<forall>tip. tip_of E n s = Inr tip \<longrightarrow> ct_height tip < ph_height h \<longrightarrow> ph_height h - ct_height tip > 2 * UNDO_DEPTH
        \<longrightarrow> \<not> st_undo_enabled (wo_store w0))"
proof -
  have "nd_table (on_peers now from [h] None True nd) = add_hint now h (nd_table nd)"
    using assms(4) by (simp add: on_peers_def Let_def add_gateway_def)
  with start hinted_height [OF assms(1-3)] have "aims_at (ph_height h) w0 \<and> (\<forall>tip. tip_of E n s = Inr tip \<longrightarrow> ct_height tip < ph_height h
      \<longrightarrow> ph_height h - ct_height tip > 2 * UNDO_DEPTH \<longrightarrow> \<not> st_undo_enabled (wo_store w0))"
    by (intro started_at) auto
  moreover from this have "aims_at (ph_height h) w" using aims_run [OF run] by blast
  ultimately show ?thesis by (auto simp: aims_at_def)
qed

section \<open>Instances\<close>

definition idle_node :: "peer_table \<Rightarrow> store \<Rightarrow> node" where
  "idle_node t s = \<lparr>nd_store = s, nd_table = t, nd_iroh = [],
     nd_intake = \<lparr>in_last = None, in_delays = [], in_origins = [], in_earliest = None, in_future_rejected = 0,
       in_last_future = None, in_last_future_id = None\<rparr>,
     nd_guard = None, nd_mempool = mempool_new antispam_config_default 0,
     nd_seen = \<lparr>sn_heights = {}, sn_tx_ids = {}\<rparr>,
     nd_stall = \<lparr>sl_stalled = False, sl_height = 0, sl_seconds = 0, sl_network_height = 0, sl_peers_ahead = 0, sl_alerts = 0,
       sl_last_reason = None, sl_last_stall = None\<rparr>\<rparr>"

definition far_hint :: peer_hint where
  "far_hint = \<lparr>ph_ip = ''203.0.113.9'', ph_port = 4001, ph_height = u64_max, ph_latency_ms = 1, ph_version = []\<rparr>"

theorem hint_pins_download_witness:
  "\<exists>w0 w. catch_up_start ref_crypto ref_network 7 \<lparr>po_verify = True, po_parallel = 4\<rparr>
       (nd_table (on_peers 7 ''z'' [far_hint] None True (idle_node two_peers store_empty))) None store_empty = Inr (Some w0)
     \<and> world_run ref_crypto ref_network \<lparr>po_verify = True, po_parallel = 4\<rparr> (\<lambda>_ _. True) w0 w
     \<and> cu_waiting (wo_coord w) \<and> cu_result (wo_coord w) \<noteq> Some (Inr ()) \<and> \<not> st_undo_enabled (wo_store w0)"
proof -
  let ?o = "\<lparr>po_verify = True, po_parallel = 4\<rparr>" and ?nd = "idle_node two_peers store_empty"
  let ?t = "nd_table (on_peers 7 ''z'' [far_hint] None True ?nd)"
  have ip: "trim (ph_ip far_hint) = ph_ip far_hint" unfolding far_hint_def by code_simp
  have new: "bt_get (pt_peers (nd_table ?nd)) (ph_ip far_hint) = None" "ph_port far_hint = pt_port (nd_table ?nd)" "ph_ip far_hint \<noteq> []"
    by (simp_all add: idle_node_def far_hint_def two_peers_simps)
  have tip: "tip_of ref_crypto ref_network store_empty = Inr \<lparr>ct_height = 0, ct_id = None\<rparr>"
    by (simp add: tip_of_def get_last_block_def get_last_height_def store_empty_def)
  have "nd_table (on_peers 7 ''z'' [far_hint] None True ?nd) = add_hint 7 far_hint (nd_table ?nd)"
    using new by (simp add: on_peers_def Let_def add_gateway_def)
  with hinted_height [OF ip new(3,1), of 7] have "u64_max \<le> best_height 7 ?t" by (simp add: far_hint_def)
  then have best: "best_height 7 ?t = u64_max" by (simp add: u64_max_def word_order.extremum_unique)
  obtain w0 where w0: "catch_up_start ref_crypto ref_network 7 ?o ?t None store_empty = Inr (Some w0)"
    using tip best by (simp add: catch_up_start_def Let_def u64_max_def)
  have c: "cu_tip (wo_coord w0) = \<lparr>ct_height = 0, ct_id = None\<rparr>" "cu_result (wo_coord w0) = None" "cu_waiting (wo_coord w0) = False"
    "cu_pending (wo_coord w0) = []" "sc_target (wo_sched w0) = u64_max"
    using w0 tip best by (auto simp: catch_up_start_def Let_def u64_max_def)
  let ?w = "check_target 7 ?o w0"
  have step: "world_step ref_crypto ref_network ?o (CheckTarget 7) w0 ?w"
    by (rule world_step.check) (use c in \<open>simp_all add: at_rest_def\<close>)
  have run: "world_run ref_crypto ref_network ?o (\<lambda>_ _. True) w0 ?w"
    by (rule world_run.more [OF world_run.start _ step]) simp
  have waiting: "cu_waiting (wo_coord ?w)" "ct_height (cu_tip (wo_coord ?w)) = 0"
    using c by (simp_all add: check_target_def Let_def u64_max_def end_with_def)
  have "cu_result (wo_coord ?w) \<noteq> Some (Inr ()) \<and> \<not> st_undo_enabled (wo_store w0)"
  proof -
    have h: "ph_height far_hint = u64_max" by (simp add: far_hint_def)
    have big: "(0::u64) < u64_max" "u64_max - 0 > 2 * UNDO_DEPTH" by code_simp+
    show ?thesis
      using hint_pins_download [OF ip new(3,1,2) w0 run] tip waiting(2) big unfolding h by auto
  qed
  then show ?thesis using w0 run waiting(1) by blast
qed

text \<open>The empty block of height 2, pushed to a node whose tip is the block of height 1, which its network calls genesis.\<close>

definition pushed_network :: network where
  "pushed_network = strict_network\<lparr>nw_genesis_block_id := ref_hash\<rparr>"

definition pushed_block :: block where
  "pushed_block = nine_block\<lparr>b_id := None\<rparr>"

definition genesis_block :: block where
  "genesis_block = nine_block\<lparr>b_height := 1, b_timestamp := 72\<rparr>"

lemma pushed_network_fields:
  "milestone_at pushed_network h = milestone_at strict_network h" "nw_genesis_block_id pushed_network = ref_hash"
  by (simp_all add: pushed_network_def regenesis)

lemma pushed_verifies: "verify_block nine_crypto nine_block pushed_network 80 = []"
  using nine_block_verifies unfolding pushed_network_def regenesis_verify .

lemma pushed_links:
  "link_check pushed_network (10 ^ 15) nine_block \<lparr>ct_height = 1, ct_id = Some ref_hash\<rparr> = Inr \<lparr>ct_height = 2, ct_id = Some ref_hash\<rparr>"
  using nine_block_links unfolding pushed_network_def regenesis .

lemma nine_canonical:
  assumes "b = nine_block\<lparr>b_height := h, b_timestamp := t, b_id := j\<rparr>" and "unat h < 2 ^ 32"
  shows "canonical_block nine_crypto n b"
proof -
  have f: "b_previous_block b = ref_hash" "b_payload_hash b = ref_hash" "b_generator_public_key b = ref_key" "b_height b = h"
    "b_block_signature b = Some ref_der" "b_pq_signature b = None" "b_transactions b = []" "b_version b = 0"
    by (simp_all add: assms(1) nine_block_def chain_header_def ref_block_def)
  have e: "hex_encode nine_crypto = hex_encode accept_crypto" "hex_decode nine_crypto = hex_decode accept_crypto"
    by (simp_all add: nine_crypto_def)
  have u: "unhex nine_crypto = unhex accept_crypto" "hex_field nine_crypto = hex_field accept_crypto"
    "der_field nine_crypto = der_field accept_crypto"
    unfolding fun_eq_iff unhex_def hex_field_def der_field_def e by simp_all
  have "hex_field ref_crypto 32 ref_hash" "hex_field ref_crypto 33 ref_key" "der_field ref_crypto ref_der" "length ref_hash = 64"
    using ref_fields ref_block_fields by auto
  moreover have l: "length (unhex ref_crypto ref_key) = 33" "length (unhex ref_crypto ref_hash) = 32"
    "length (unhex ref_crypto ref_der) = 5"
    using ref_fields(1) ref_block_fields(1) hex_fieldD(2) by (blast, blast, code_simp)
  ultimately show ?thesis
    using assms(2)
    by (simp add: canonical_block_def canonical_header_def f u accept_hex header_bytes_def opt_unhex_def pq_part_def)
qed

theorem pushed_block_is_applied_witness:
  "\<exists>s bytes nd'. tip_of nine_crypto pushed_network s = Inr \<lparr>ct_height = 1, ct_id = Some ref_hash\<rparr> \<and> get_last_height s = 1
     \<and> serialize_block_with_transactions nine_crypto pushed_block pushed_network = Inr bytes
     \<and> post_block nine_crypto pushed_network (case_config 9) \<lparr>ck_epoch = 80, ck_ms = 10 ^ 15, ck_now = 7\<rparr> True ''a'' (\<lambda>_ _. TimedOut)
         bytes (idle_node two_peers s) = (nd', Inr (True, 2))
     \<and> get_last_height (nd_store nd') = 2"
proof -
  let ?E = nine_crypto and ?n = pushed_network and ?ck = "\<lparr>ck_epoch = 80, ck_ms = 10 ^ 15, ck_now = 7\<rparr> :: clock"
  let ?tip = "\<lparr>ct_height = 1, ct_id = Some ref_hash\<rparr> :: chain_tip"
  obtain rec where dec: "decode_block ?E rec ?n = Inr genesis_block"
    using block_record_round_trip [OF nine_canonical [where n = pushed_network and b = genesis_block and h = 1 and t = 72 and j = "b_id nine_block"], of ref_hash]
    by (auto simp: genesis_block_def pushed_network_fields nine_block_def chain_header_def ref_block_def)
  define s where "s = tip_store\<lparr>st_blocks := [(1, rec)]\<rparr>"
  have s: "get_last_height s = 1" "get_block_by_height ?E ?n s 1 = Inr (Some genesis_block)" "st_block_ids s = []" "st_wallets s = []"
    using dec by (simp_all add: s_def tip_store_def store_empty_def get_last_height_def get_block_by_height_def transpose_opt_def)
  have g: "b_height genesis_block = 1" "b_id genesis_block = Some ref_hash" "b_timestamp genesis_block = 72"
    by (simp_all add: genesis_block_def)
  have tip: "tip_of ?E ?n s = Inr ?tip" using s g by (simp add: tip_of_def get_last_block_def)
  have id: "block_id ?E pushed_block = Inr ref_hash"
  proof -
    have "serialize_block ?E pushed_block True = serialize_block ?E nine_block True"
      by (simp add: pushed_block_def serialize_block_def serialize_block_parts_def cong: option.case_cong)
    then show ?thesis using nine_serialize [of True] nine_fields(4) by (auto simp: block_id_def)
  qed
  have form: "stored_form ?E ?n ref_hash pushed_block = nine_block"
    by (simp add: stored_form_def pushed_block_def nine_block_def chain_header_def ref_block_def)
  obtain raw where raw: "serialize_block ?E nine_block True = Inr raw" using nine_serialize by blast
  then have prep: "prepare_block ?E ?n nine_block = Inr (nine_block, frame raw)"
    by (simp add: prepare_block_def encode_block_def Let_def)
  obtain a where a: "address_from_public_key ?E (b_generator_public_key nine_block) (nw_pubkey_hash ?n) = Inr a"
    using nine_address by auto
  note d = empty_block_deltas [OF nine_block_fields(2) a]
  have "i64_try_from (stored_balance s x + change_at (forger_delta ?n nine_block a []) x) \<noteq> None" for x
    unfolding d(2) by (simp add: forger_paid_def stored_balance_def wallet_balance_def get_wallet_def s(4) i64_try_from_def
        i64_min_def i64_max_def)
  moreover have "uint (w_nonce w) + 1 < 2 ^ 64" if "get_wallet s x = Some w" for x w
    using that by (simp add: get_wallet_def s(4))
  moreover have "distinct (map fst (forger_delta ?n nine_block a []))"
    using accumulate_balance [OF bt_wf_Nil d(1)] bt_wf_distinct by blast
  ultimately obtain sw undo out where sw: "write_wallets_undo (forger_delta ?n nine_block a []) s = Inr (sw, undo, out)"
    using light_writes [OF d(3)] by metis
  obtain sb where sb: "write_block ?E (nw_pubkey_hash ?n) (nine_block, frame raw) sw = Inr sb" by (simp add: write_block_def Let_def)
  have "ms_blocktime (milestone_at ?n 2) = 8" "ms_active_delegates (milestone_at ?n 2) = 21"
    by (simp_all add: pushed_network_fields strict_milestone milestone_default_def)
  then have slots: "slot_number (b_timestamp genesis_block) (ms_blocktime (milestone_at ?n (b_height nine_block))) = Inr 9"
    "slot_number (b_timestamp nine_block) (ms_blocktime (milestone_at ?n (b_height nine_block))) = Inr 10"
    "b_height nine_block mod max (ucast (ms_active_delegates (milestone_at ?n (b_height nine_block)))) 1 \<noteq> 0"
    by (simp_all add: g slot_number_def)
  have "\<exists>s'. apply_block ?E ?n nine_block s = (s', Inr ())"
    by (rule next_slot_applies [OF prep d(1) sw sb _ _ slots(3) _ slots(1,2)]) (use s in \<open>simp_all add: check_tip_def\<close>)
  moreover have "check_stateful_rules ?E ?n s [nine_block] = Inr ()"
    by (simp add: check_stateful_rules_def check_block_def block_pq_rule_def BLOCK_VERSION_PQ_def)
  ultimately obtain s' where s': "apply_task ?E ?n ?ck [nine_block] ?tip True s = (s', Inr \<lparr>ct_height = 2, ct_id = Some ref_hash\<rparr>)"
    using pushed_links pushed_verifies
    by (auto simp: apply_task_def sync_apply_blocks_def crypto_check_def apply_block_def)
  have clean: "ends_cleanly pushed_block" "b_transactions pushed_block = []" "b_number_of_transactions pushed_block = 0"
    "b_height pushed_block = 2" "b_previous_block pushed_block = ref_hash"
    by (simp_all add: pushed_block_def nine_block_def chain_header_def ref_block_def ends_cleanly_def BLOCK_VERSION_PQ_def)
  have canonical: "canonical_block ?E ?n pushed_block"
    by (rule nine_canonical [where h = 2 and t = 80 and j = None]) (simp_all add: pushed_block_def nine_block_def chain_header_def ref_block_def)
  show ?thesis
    using pushed_block_is_applied [OF canonical clean(1) id, where nd = "idle_node two_peers s" and tip = ?tip and ck = ?ck and verify = True
        and pc = "case_config 9" and ip = "''a''" and ask = "\<lambda>_ _. TimedOut"]
      clean tip s(1) s' by (auto simp: idle_node_def form is_ok_def)
qed

section \<open>After a reply\<close>

text \<open>The flag that forgives a closed socket is set where nothing was applied, and not where something was.\<close>

lemma closed_socket_is_punished:
  assumes "follow_apply E n ck verify tip blocks (fl, nd) = ((fl', nd'), PollAgain)" "\<not> fl_just_fetched fl"
    and "snd (apply_task E n ck blocks tip verify (nd_store nd)) = Inr tip'" "tip_of E n (nd_store nd') = Inr tip'"
    and "\<not> reset_by_peer e"
  shows "follow_status E n ck' d (Inl e) (fl', nd')
    = ((fl', nd'\<lparr>nd_table := record_failure (ck_now ck') (fl_ip fl) (nd_table nd')\<rparr>), Reconnect)"
  using assms by (cases "apply_task E n ck blocks tip verify (nd_store nd)") (auto simp: follow_apply_def follow_status_def)

end
