(* ===== verification/StateAudit.thy ===== *)
theory StateAudit
  imports Chain
begin

text \<open>
  The state audit of \<open>src/src/storage.rs\<close>: the balance and the nonce of every wallet computed again from the stored
  blocks, compared with the stored wallets, and the repair that writes the computed values back. The computation
  is a second account of what a block does, independent of \<open>accumulate_deltas\<close> (\<open>Ledger\<close>). Progress reports
  are left out. The audit of a running node reads the store in four stages while blocks may be applied
  between them, so it takes the store of each stage.
\<close>

section \<open>Reports\<close>

record wallet_audit =
  wa_address :: string
  wa_height :: u64
  wa_stored_nonce :: "u64 option"
  wa_stored_balance :: "int option"
  wa_computed_nonce :: u64
  wa_computed_balance :: int
  wa_sent :: u64
  wa_received :: u64
  wa_skipped :: u64
  wa_forged :: u64
  wa_delegate :: bool
  wa_nonce_ok :: bool
  wa_balance_ok :: bool

record chain_audit =
  ca_height :: u64
  ca_wallets :: u64
  ca_checked :: u64
  ca_skipped :: u64
  ca_drifted :: "wallet_audit list"

definition audit_default :: wallet_audit where
  "audit_default = \<lparr>wa_address = [], wa_height = 0, wa_stored_nonce = None, wa_stored_balance = None,
     wa_computed_nonce = 0, wa_computed_balance = 0, wa_sent = 0, wa_received = 0, wa_skipped = 0, wa_forged = 0,
     wa_delegate = False, wa_nonce_ok = False, wa_balance_ok = False\<rparr>"

type_synonym audit_acc = "(string, wallet_audit) btmap"

text \<open>\<open>acc.entry(a).or_default()\<close> changed in place.\<close>

definition book :: "string \<Rightarrow> (wallet_audit \<Rightarrow> wallet_audit) \<Rightarrow> audit_acc \<Rightarrow> audit_acc" where
  "book a f acc = bt_entry a audit_default f acc"

definition gain :: "int \<Rightarrow> wallet_audit \<Rightarrow> wallet_audit" where
  "gain c a = a\<lparr>wa_computed_balance := wa_computed_balance a + c\<rparr>"

definition receive_amount :: "int \<Rightarrow> wallet_audit \<Rightarrow> wallet_audit" where
  "receive_amount c a = gain c (a\<lparr>wa_received := wa_received a + 1\<rparr>)"

definition skip_one :: "wallet_audit \<Rightarrow> wallet_audit" where
  "skip_one a = a\<lparr>wa_skipped := wa_skipped a + 1\<rparr>"

section \<open>One transaction\<close>

definition wanted :: "string option \<Rightarrow> string \<Rightarrow> bool" where
  "wanted only a \<longleftrightarrow> only = None \<or> only = Some a"

definition is_purchase :: "transaction \<Rightarrow> bool" where
  "is_purchase tx \<longleftrightarrow>
     is_sobj tx \<and> (case sobj_asset_of tx of None \<Rightarrow> False | Some e \<Rightarrow> so_action e = ACTION_BUY)
     \<or> tx_type_group tx = TYPE_GROUP_TOKEN \<and> tx_type tx = TOKEN_BUY"

definition audit_sender :: "transaction \<Rightarrow> wallet_audit \<Rightarrow> wallet_audit" where
  "audit_sender tx a =
     (let a = gain (- uint (tx_fee tx)) (a\<lparr>wa_sent := wa_sent a + 1,
                wa_computed_nonce := max (wa_computed_nonce a) (unwrap_or 0 (tx_nonce tx))\<rparr>)
      in if tx_type_group tx = TYPE_GROUP_CORE then
           (if tx_type tx = MULTI_PAYMENT
            then gain (- (\<Sum>p\<leftarrow>unwrap_or [] (asset_field as_payments tx). uint (pay_amount p))) a
            else if tx_type tx = HTLC_CLAIM \<or> tx_type tx = HTLC_REFUND then a
            else gain (- uint (tx_amount tx)) a)
         else if is_purchase tx then skip_one a else a)"

definition audit_payments :: "string option \<Rightarrow> transaction \<Rightarrow> audit_acc \<Rightarrow> audit_acc" where
  "audit_payments only tx acc =
     (let mine = fold (\<lambda>p. bt_entry (pay_recipient p) 0 (\<lambda>v. v + uint (pay_amount p)))
            (filter (\<lambda>p. wanted only (pay_recipient p)) (unwrap_or [] (asset_field as_payments tx))) []
      in fold (\<lambda>(a, amount). book a (receive_amount amount)) mine acc)"

definition released_id :: "transaction \<Rightarrow> string option" where
  "released_id tx =
     (case asset_field as_claim tx of Some c \<Rightarrow> Some (hc_lock_transaction_id c) | None \<Rightarrow> asset_field as_refund tx)"

definition audit_release ::
  "crypto \<Rightarrow> network \<Rightarrow> store \<Rightarrow> string option \<Rightarrow> transaction \<Rightarrow> string \<Rightarrow> audit_acc \<Rightarrow> audit_acc res" where
  "audit_release E n s only tx sender acc =
     rbind (case released_id tx of None \<Rightarrow> Inr None | Some i \<Rightarrow> get_transaction E n s i) (\<lambda>lock.
     case lock of
       Some lock \<Rightarrow>
         rbind (if tx_type tx = HTLC_CLAIM then Inr (unwrap_or [] (tx_recipient lock))
                else address_from_public_key E (tx_sender_public_key lock) (nw_pubkey_hash n)) (\<lambda>to.
         Inr (if wanted only to then book to (receive_amount (uint (tx_amount lock))) acc else acc))
     | None \<Rightarrow> Inr (if wanted only sender then book sender skip_one acc else acc))"

definition audit_receive :: "string option \<Rightarrow> transaction \<Rightarrow> string \<Rightarrow> audit_acc \<Rightarrow> audit_acc" where
  "audit_receive only tx sender acc =
     (case tx_recipient tx of
        None \<Rightarrow> acc
      | Some r \<Rightarrow>
          if \<not> wanted only r then acc
          else book r (\<lambda>a. if sender \<noteq> r then receive_amount (uint (tx_amount tx)) a
                           else if tx_type tx = TRANSFER then gain (uint (tx_amount tx)) a else a) acc)"

definition audit_tx ::
  "crypto \<Rightarrow> network \<Rightarrow> store \<Rightarrow> string option \<Rightarrow> transaction \<Rightarrow> audit_acc \<Rightarrow> audit_acc res" where
  "audit_tx E n s only tx acc =
     rbind (address_from_public_key E (tx_sender_public_key tx) (nw_pubkey_hash n)) (\<lambda>sender.
     let acc = (if wanted only sender then book sender (audit_sender tx) acc else acc) in
     if tx_type_group tx \<noteq> TYPE_GROUP_CORE then Inr acc
     else if tx_type tx = MULTI_PAYMENT then Inr (audit_payments only tx acc)
     else if tx_type tx = HTLC_CLAIM \<or> tx_type tx = HTLC_REFUND then audit_release E n s only tx sender acc
     else if tx_type tx = HTLC_LOCK then Inr acc
     else Inr (audit_receive only tx sender acc))"

section \<open>The chain\<close>

definition audit_block :: "crypto \<Rightarrow> network \<Rightarrow> store \<Rightarrow> block \<Rightarrow> audit_acc \<Rightarrow> audit_acc res" where
  "audit_block E n s b acc =
     (let burned = burned_amount n b;
          acc = (if burned > 0 then book (nw_burn_address n) (gain (uint burned)) acc else acc)
      in rbind (address_from_public_key E (b_generator_public_key b) (nw_pubkey_hash n)) (\<lambda>generator.
         rfold (audit_tx E n s None) (b_transactions b)
           (book generator (\<lambda>a. (gain (uint (b_reward b) + uint (b_total_fee b) - uint burned) a)\<lparr>wa_forged := wa_forged a + 1\<rparr>) acc)))"

definition audit_scan :: "crypto \<Rightarrow> network \<Rightarrow> store \<Rightarrow> u64 \<Rightarrow> u64 \<Rightarrow> audit_acc \<Rightarrow> audit_acc res" where
  "audit_scan E n s from to acc =
     (if from > to then Inr acc
      else rfold (\<lambda>kv acc. rbind (decode_block E (snd kv) n) (\<lambda>b. audit_block E n s b acc))
             (filter (\<lambda>kv. from \<le> fst kv \<and> fst kv \<le> to) (st_blocks s)) acc)"

definition audit_finish :: "string \<Rightarrow> u64 \<Rightarrow> bool \<Rightarrow> wallet_state option \<Rightarrow> wallet_audit \<Rightarrow> wallet_audit" where
  "audit_finish address tip full_chain stored a =
     (let a = a\<lparr>wa_address := address, wa_height := tip, wa_stored_nonce := map_option w_nonce stored,
                wa_stored_balance := map_option w_balance stored,
                wa_delegate := (case stored of None \<Rightarrow> False | Some w \<Rightarrow> w_username w \<noteq> None \<or> w_produced_blocks w > 0)\<rparr>;
          comparable = ((full_chain \<or> \<not> wa_delegate a) \<and> wa_skipped a = 0)
      in a\<lparr>wa_nonce_ok := (unwrap_or 0 (wa_stored_nonce a) = wa_computed_nonce a),
           wa_balance_ok := (\<not> comparable \<or> unwrap_or 0 (wa_stored_balance a) = wa_computed_balance a)\<rparr>)"

definition has_drifted :: "wallet_audit \<Rightarrow> bool" where
  "has_drifted a \<longleftrightarrow> \<not> wa_nonce_ok a \<or> \<not> wa_balance_ok a"

definition take_entry :: "string \<Rightarrow> audit_acc \<Rightarrow> wallet_audit" where
  "take_entry a acc = unwrap_or audit_default (bt_get acc a)"

definition compare_one :: "u64 \<Rightarrow> wallet_state \<Rightarrow> audit_acc \<times> chain_audit \<Rightarrow> audit_acc \<times> chain_audit" where
  "compare_one tip w ao =
     (case ao of (acc, out) \<Rightarrow>
      let a = audit_finish (w_address w) tip True (Some w) (take_entry (w_address w) acc);
          acc = bt_del (w_address w) acc;
          out = out\<lparr>ca_wallets := ca_wallets out + 1\<rparr>
      in if wa_skipped a > 0 then (acc, out\<lparr>ca_skipped := ca_skipped out + 1\<rparr>)
         else (acc, out\<lparr>ca_checked := ca_checked out + 1,
                        ca_drifted := ca_drifted out @ (if has_drifted a then [a] else [])\<rparr>))"

definition audit_compare :: "store \<Rightarrow> audit_acc \<Rightarrow> u64 \<Rightarrow> chain_audit" where
  "audit_compare s acc tip =
     snd (fold (compare_one tip) (all_wallets s)
       (acc, \<lparr>ca_height = tip, ca_wallets = 0, ca_checked = 0, ca_skipped = 0, ca_drifted = []\<rparr>))"

definition audit_all :: "crypto \<Rightarrow> network \<Rightarrow> store \<Rightarrow> chain_audit res" where
  "audit_all E n s =
     (let tip = get_last_height s in
      rbind (audit_scan E n s 0 tip []) (\<lambda>acc. Inr (audit_compare s acc tip)))"

text \<open>\<open>transaction_at\<close>, whose cache only saves decoding, and the audit of one wallet from its own index.\<close>

definition transaction_at :: "crypto \<Rightarrow> network \<Rightarrow> store \<Rightarrow> tx_index_entry \<Rightarrow> (transaction \<times> u32) option res" where
  "transaction_at E n s e =
     rbind (get_block_by_height E n s (ie_height e)) (\<lambda>mb.
     case mb of
       None \<Rightarrow> Inr None
     | Some b \<Rightarrow>
         (let txs = b_transactions b; k = unat (ie_seq e); named = (\<lambda>t. tx_id t = Some (ie_id e));
              by_seq = (if k < length txs \<and> named (txs ! k) then Some (txs ! k) else None)
          in Inr (map_option (\<lambda>t. (t, b_timestamp b)) (or_else by_seq (find named txs)))))"

definition audit_wallet :: "crypto \<Rightarrow> network \<Rightarrow> store \<Rightarrow> string \<Rightarrow> wallet_audit res" where
  "audit_wallet E n s address =
     (let tip = get_last_height s in
      rbind (rfold (\<lambda>e acc. rbind (transaction_at E n s e) (\<lambda>t. case t of
               None \<Rightarrow> Inr acc | Some (tx, _) \<Rightarrow> audit_tx E n s (Some address) tx acc))
             (transaction_index s (Some address) (1, tip) False) []) (\<lambda>acc.
      Inr (audit_finish address tip False (get_wallet s address) (take_entry address acc))))"

section \<open>Repair\<close>

definition repair_wallet_locked :: "wallet_audit \<Rightarrow> store \<Rightarrow> store res" where
  "repair_wallet_locked a s =
     rbind (ok_or (Sync ''audited balance out of range'') (i64_try_from (wa_computed_balance a))) (\<lambda>balance.
     let previous = get_wallet s (wa_address a);
         w = (unwrap_or (wallet_new (wa_address a)) previous)\<lparr>w_balance := balance, w_nonce := wa_computed_nonce a\<rparr>
     in Inr (s\<lparr>st_votes := adjust_votes (vote_weight previous) (vote_weight (Some w)) (st_votes s),
               st_wallets := bt_put (wa_address a) w (st_wallets s),
               st_generation := st_generation s + 1\<rparr>))"

text \<open>A failing repair leaves the wallets repaired before it.\<close>

fun repair_all :: "wallet_audit list \<Rightarrow> store \<Rightarrow> store \<times> unit res" where
  "repair_all [] s = (s, Inr ())"
| "repair_all (a # as) s =
     (case repair_wallet_locked a s of Inl e \<Rightarrow> (s, Inl e) | Inr s \<Rightarrow> repair_all as s)"

section \<open>The audit of a running node\<close>

definition block_id_at :: "crypto \<Rightarrow> network \<Rightarrow> store \<Rightarrow> u64 \<Rightarrow> string option res" where
  "block_id_at E n s h = rbind (get_block_by_height E n s h) (\<lambda>b. Inr (Option.bind b b_id))"

definition add_tail :: "wallet_audit \<Rightarrow> wallet_audit \<Rightarrow> wallet_audit" where
  "add_tail t a = a\<lparr>wa_computed_nonce := max (wa_computed_nonce a) (wa_computed_nonce t),
     wa_computed_balance := wa_computed_balance a + wa_computed_balance t, wa_sent := wa_sent a + wa_sent t,
     wa_received := wa_received a + wa_received t, wa_forged := wa_forged a + wa_forged t,
     wa_skipped := wa_skipped a + wa_skipped t\<rparr>"

definition recheck :: "store \<Rightarrow> u64 \<Rightarrow> string \<Rightarrow> audit_acc \<times> wallet_audit list \<Rightarrow> audit_acc \<times> wallet_audit list" where
  "recheck s tip address ao =
     (case ao of (acc, drifted) \<Rightarrow>
      case get_wallet s address of
        None \<Rightarrow> (acc, drifted)
      | Some stored \<Rightarrow>
          (let a = audit_finish address tip True (Some stored) (take_entry address acc)
           in (bt_del address acc, drifted @ (if wa_skipped a = 0 \<and> has_drifted a then [a] else []))))"

definition audit_all_live ::
  "crypto \<Rightarrow> network \<Rightarrow> bool \<Rightarrow> store \<Rightarrow> store \<Rightarrow> store \<Rightarrow> store \<Rightarrow> store \<times> (chain_audit \<times> nat) res" where
  "audit_all_live E n fix s_anchor s_scan s_compare s =
     (let anchor = get_last_height s_anchor;
          checked =
            rbind (block_id_at E n s_anchor anchor) (\<lambda>anchor_id.
            rbind (audit_scan E n s_scan 0 anchor []) (\<lambda>acc.
            let unlocked = audit_compare s_compare acc anchor; candidates = map wa_address (ca_drifted unlocked) in
            rbind (block_id_at E n s anchor) (\<lambda>now_id.
            if now_id \<noteq> anchor_id then Inl (Sync ''chain reorganized during the audit'')
            else
              (let tip = get_last_height s in
               rbind (audit_scan E n s (anchor + 1) tip []) (\<lambda>tail.
               let candidates = candidates @ filter (\<lambda>a. a \<notin> set candidates) (map fst tail);
                   acc = fold (\<lambda>(a, t). book a (add_tail t)) tail acc;
                   drifted = snd (fold (recheck s tip) candidates (acc, []))
               in Inr (unlocked\<lparr>ca_height := tip, ca_drifted := drifted\<rparr>))))))
      in case checked of
           Inl e \<Rightarrow> (s, Inl e)
         | Inr out \<Rightarrow>
             if fix \<and> ca_drifted out \<noteq> []
             then (case repair_all (ca_drifted out) s of
                     (s, Inl e) \<Rightarrow> (s, Inl e)
                   | (s, Inr _) \<Rightarrow> (rebuild_vote_index s, Inr (out, length (ca_drifted out))))
             else (s, Inr (out, 0)))"

end
