(* ===== verification/AuditBooks.thy ===== *)
theory AuditBooks
  imports StateAudit StatefulProps Rollback
begin

text \<open>
  The two accounts of a transaction agree: what the audit books for an address is what \<open>accumulate_deltas\<close> writes,
  for every transaction as the wire carries it that is not a purchase and names an existing lock if it releases one.
\<close>

section \<open>The accumulator\<close>

lemma take_entry_book: "take_entry a (book b f acc) = (if a = b then f (take_entry b acc) else take_entry a acc)"
  by (simp add: take_entry_def book_def)

lemma take_entry_Nil: "take_entry a [] = audit_default" by (simp add: take_entry_def)

lemma bt_wf_book [simp]: "bt_wf acc \<Longrightarrow> bt_wf (book a f acc)" by (simp add: book_def)

text \<open>The three numbers an audit compares.\<close>

definition account :: "string \<Rightarrow> audit_acc \<Rightarrow> int \<times> u64 \<times> u64" where
  "account a acc = (let e = take_entry a acc in (wa_computed_balance e, wa_computed_nonce e, wa_skipped e))"

named_theorems audit

lemmas account_simps [audit] = account_def Let_def take_entry_book gain_def receive_amount_def skip_one_def

section \<open>Transactions as the wire carries them\<close>

definition wire_shaped :: "transaction \<Rightarrow> bool" where
  "wire_shaped tx \<longleftrightarrow>
     (tx_type_group tx = TYPE_GROUP_CORE \<and> (tx_type tx = TRANSFER \<or> tx_type tx = HTLC_LOCK)
        \<or> tx_amount tx = 0 \<and> tx_recipient tx = None)
     \<and> (releases_lock tx \<longrightarrow> (if tx_type tx = HTLC_CLAIM then asset_field as_claim tx \<noteq> None
          else asset_field as_claim tx = None \<and> asset_field as_refund tx \<noteq> None))"

lemma canonical_wire_shaped:
  assumes "canonical E tx"
  shows "wire_shaped tx"
proof -
  have p: "canonical_payload E tx" using assms by (simp add: canonical_def)
  show ?thesis
  proof (cases "is_sobj tx \<or> is_token tx")
    case True
    have "canonical_sobj E tx \<Longrightarrow> plain_body tx" "canonical_token E tx \<Longrightarrow> plain_body tx"
      unfolding canonical_sobj_def canonical_token_def by blast+
    then have "plain_body tx" using True p unfolding canonical_payload_def by presburger
    moreover have "tx_type_group tx \<noteq> TYPE_GROUP_CORE" using True by (auto simp: is_sobj_def is_token_def)
    ultimately have "plain_body tx" "tx_type_group tx \<noteq> TYPE_GROUP_CORE" by blast+
    then show ?thesis by (simp add: wire_shaped_def plain_body_def releases_lock_def)
  next
    case False
    then have c: "tx_type_group tx = TYPE_GROUP_CORE" "canonical_core E tx" using p by (simp_all add: canonical_payload_def)
    show ?thesis
    proof (cases "tx_type tx = TRANSFER \<or> tx_type tx = HTLC_LOCK")
      case True
      then show ?thesis using c(1) by (auto simp: wire_shaped_def releases_lock_def)
    next
      case False
      then have plain: "plain_body tx" using c(2) unfolding canonical_core_def Let_def by presburger
      have "tx_type tx = HTLC_CLAIM \<Longrightarrow> asset_field as_claim tx \<noteq> None"
        using c(2) by (cases "asset_field as_claim tx") (simp_all add: canonical_core_def Let_def)
      moreover have "tx_type tx = HTLC_REFUND \<Longrightarrow> asset_field as_claim tx = None \<and> asset_field as_refund tx \<noteq> None"
        using c(2) by (cases "asset_field as_refund tx") (auto simp: canonical_core_def Let_def asset_field_def asset_default_def)
      ultimately show ?thesis using plain by (auto simp: wire_shaped_def plain_body_def releases_lock_def)
    qed
  qed
qed

text \<open>The lock a release names is in the chain, and its amount goes to one address.\<close>

definition payee :: "crypto \<Rightarrow> network \<Rightarrow> transaction \<Rightarrow> transaction \<Rightarrow> string res" where
  "payee E n tx lock = (if tx_type tx = HTLC_CLAIM then Inr (unwrap_or [] (tx_recipient lock))
     else address_from_public_key E (tx_sender_public_key lock) (nw_pubkey_hash n))"

definition resolved :: "crypto \<Rightarrow> network \<Rightarrow> store \<Rightarrow> transaction \<Rightarrow> bool" where
  "resolved E n s tx \<longleftrightarrow> (releases_lock tx \<longrightarrow>
     (case released_id tx of None \<Rightarrow> False
      | Some i \<Rightarrow> (case get_transaction E n s i of
           Inr (Some lock) \<Rightarrow> (tx_type tx = HTLC_CLAIM \<longrightarrow> tx_recipient lock \<noteq> None) \<and> is_ok (payee E n tx lock)
         | _ \<Rightarrow> False)))"

definition released :: "crypto \<Rightarrow> network \<Rightarrow> store \<Rightarrow> transaction \<Rightarrow> string \<Rightarrow> int" where
  "released E n s tx a =
     (if \<not> releases_lock tx then 0
      else case released_id tx of None \<Rightarrow> 0
        | Some i \<Rightarrow> (case get_transaction E n s i of
             Inr (Some lock) \<Rightarrow> if payee E n tx lock = Inr a then uint (tx_amount lock) else 0
           | _ \<Rightarrow> 0))"

text \<open>The change of one balance by one transaction.\<close>

definition booked :: "crypto \<Rightarrow> network \<Rightarrow> store \<Rightarrow> transaction \<Rightarrow> string \<Rightarrow> string \<Rightarrow> int" where
  "booked E n s tx sender a = credit tx a + released E n s tx a
     - (if a = sender then uint (tx_amount tx) + uint (tx_fee tx)
          + (if tx_type_group tx = TYPE_GROUP_CORE \<and> tx_type tx = MULTI_PAYMENT then payments_total tx else 0) else 0)"

section \<open>The audit's account\<close>

lemma payments_booked:
  "account a (audit_payments None tx acc) =
     (case account a acc of (b, k, z) \<Rightarrow>
        (b + (\<Sum>p\<leftarrow>unwrap_or [] (asset_field as_payments tx). if pay_recipient p = a then uint (pay_amount p) else 0), k, z))"
proof -
  let ?add = "\<lambda>p. bt_entry (pay_recipient p) 0 (\<lambda>v. v + uint (pay_amount p))"
  have mine: "bt_wf (fold ?add ps m)
      \<and> unwrap_or 0 (bt_get (fold ?add ps m) a) = unwrap_or 0 (bt_get m a) + (\<Sum>p\<leftarrow>ps. if pay_recipient p = a then uint (pay_amount p) else 0)"
    if "bt_wf m" for ps and m :: "(string, int) btmap"
    using that
  proof (induction ps arbitrary: m)
    case (Cons p ps)
    then show ?case using Cons.IH [of "?add p m"] by auto
  qed simp
  have booked: "account a (fold (\<lambda>(a, amount). book a (receive_amount amount)) m acc) =
      (case account a acc of (b, k, z) \<Rightarrow> (b + unwrap_or 0 (bt_get m a), k, z))" if "bt_wf m" for m
    using that
  proof (induction m arbitrary: acc)
    case (Cons kv m)
    obtain k v where kv: "kv = (k, v)" by (cases kv)
    have none: "bt_get m k = None" using Cons.prems by (auto simp: kv bt_wf_Cons bt_get_None_iff)
    show ?case using Cons by (auto simp: kv bt_wf_Cons audit none)
  qed (simp add: account_def Let_def)
  show ?thesis
    using mine [OF bt_wf_Nil, of "unwrap_or [] (asset_field as_payments tx)"] booked
    by (simp add: audit_payments_def wanted_def Let_def)
qed

lemma audit_tx_books:
  assumes w: "wire_shaped tx" and q: "\<not> is_purchase tx" and r: "resolved E n s tx"
    and a: "address_from_public_key E (tx_sender_public_key tx) (nw_pubkey_hash n) = Inr sender"
  obtains acc' where "audit_tx E n s None tx acc = Inr acc'"
    and "\<And>x. account x acc' = (case account x acc of (b, k, z) \<Rightarrow>
           (b + booked E n s tx sender x, if x = sender then max k (unwrap_or 0 (tx_nonce tx)) else k, z))"
proof -
  let ?acc = "book sender (audit_sender tx) acc"
  have core: "tx_type_group tx \<noteq> TYPE_GROUP_CORE \<Longrightarrow> credit tx x = 0 \<and> \<not> releases_lock tx" for x
    by (simp add: credit_def releases_lock_def)
  consider (other) "tx_type_group tx \<noteq> TYPE_GROUP_CORE"
    | (multi) "tx_type_group tx = TYPE_GROUP_CORE" "tx_type tx = MULTI_PAYMENT"
    | (release) "releases_lock tx"
    | (rest) "tx_type_group tx = TYPE_GROUP_CORE" "tx_type tx \<noteq> MULTI_PAYMENT" "\<not> releases_lock tx"
    by (auto simp: releases_lock_def)
  then show ?thesis
  proof cases
    case other
    show ?thesis
    proof (rule that [of ?acc])
      show "audit_tx E n s None tx acc = Inr ?acc" using other a by (simp add: audit_tx_def wanted_def Let_def)
      show "account x ?acc = (case account x acc of (b, k, z) \<Rightarrow>
           (b + booked E n s tx sender x, if x = sender then max k (unwrap_or 0 (tx_nonce tx)) else k, z))" for x
        using other core [OF other] q w
        by (auto simp: audit audit_sender_def booked_def released_def wire_shaped_def)
    qed
  next
    case multi
    show ?thesis
    proof (rule that [of "audit_payments None tx ?acc"])
      show "audit_tx E n s None tx acc = Inr (audit_payments None tx ?acc)"
        using multi a by (simp add: audit_tx_def wanted_def Let_def)
      show "account x (audit_payments None tx ?acc) = (case account x acc of (b, k, z) \<Rightarrow>
           (b + booked E n s tx sender x, if x = sender then max k (unwrap_or 0 (tx_nonce tx)) else k, z))" for x
        using multi w unfolding payments_booked
        by (auto simp: audit audit_sender_def booked_def released_def wire_shaped_def releases_lock_def
            credit_def payments_total_def)
    qed
  next
    case release
    then obtain i lock to where l: "released_id tx = Some i" "get_transaction E n s i = Inr (Some lock)"
      "payee E n tx lock = Inr to"
      using r by (auto simp: resolved_def is_ok_def split: option.splits sum.splits)
    let ?acc2 = "book to (receive_amount (uint (tx_amount lock))) ?acc"
    show ?thesis
    proof (rule that [of ?acc2])
      show "audit_tx E n s None tx acc = Inr ?acc2"
        using release a l by (auto simp: audit_tx_def wanted_def Let_def releases_lock_def audit_release_def payee_def)
      show "account x ?acc2 = (case account x acc of (b, k, z) \<Rightarrow>
           (b + booked E n s tx sender x, if x = sender then max k (unwrap_or 0 (tx_nonce tx)) else k, z))" for x
        using release w l
        by (auto simp: audit audit_sender_def booked_def released_def wire_shaped_def releases_lock_def credit_def)
    qed
  next
    case rest
    let ?acc2 = "if tx_type tx = HTLC_LOCK then ?acc else audit_receive None tx sender ?acc"
    show ?thesis
    proof (rule that [of ?acc2])
      show "audit_tx E n s None tx acc = Inr ?acc2"
        using rest a by (auto simp: audit_tx_def wanted_def Let_def releases_lock_def)
      show "account x ?acc2 = (case account x acc of (b, k, z) \<Rightarrow>
           (b + booked E n s tx sender x, if x = sender then max k (unwrap_or 0 (tx_nonce tx)) else k, z))" for x
        using rest w
        by (auto simp: audit audit_sender_def booked_def released_def wire_shaped_def releases_lock_def credit_def
            audit_receive_def wanted_def split: option.splits)
    qed
  qed
qed

section \<open>The ledger's account\<close>

text \<open>The nonce a delta adds.\<close>

definition nonce_at :: "deltas \<Rightarrow> string \<Rightarrow> u64" where
  "nonce_at ds a = wd_nonce (delta_of a ds)"

lemma nonce_at_upd: "nonce_at (upd b f ds) a = (if a = b then wd_nonce (f (delta_of b ds)) else nonce_at ds a)"
  by (simp add: nonce_at_def delta_of_upd)

lemma nonce_at_neutral: "(\<And>d. wd_nonce (f d) = wd_nonce d) \<Longrightarrow> nonce_at (upd b f ds) a = nonce_at ds a"
  by (simp add: nonce_at_def delta_of_upd)

lemma nonce_at_fold:
  assumes "\<And>x ds. nonce_at (f x ds) a = nonce_at ds a"
  shows "nonce_at (fold f xs ds) a = nonce_at ds a"
  by (induction xs arbitrary: ds) (simp_all add: assms)

lemma wd_nonce_simps:
  "wd_nonce (add_balance c d) = wd_nonce d" "wd_nonce (add_token i c d) = wd_nonce d"
  "wd_nonce (add_supply i c d) = wd_nonce d" "wd_nonce (put_order o1 oid d) = wd_nonce d"
  by (simp_all add: add_balance_def add_token_def add_supply_def put_order_def)

lemma forger_nonce: "nonce_at (forger_delta n b g ds) a = nonce_at ds a"
  by (simp add: forger_delta_def Let_def nonce_at_neutral wd_nonce_simps)

lemma sobj_nonce: "nonce_at (sobj_delta V tx s e ds) a = nonce_at ds a"
  by (auto simp: sobj_delta_def sobj_move_delta_def sobj_record_delta_def hand_over_def Let_def nonce_at_neutral wd_nonce_simps
      split: option.splits)

lemma token_nonce:
  assumes "token_delta V b idx tx s t ds = Inr ds'"
  shows "nonce_at ds' a = nonce_at ds a"
proof -
  have tr: "nonce_at (fold (\<lambda>it ds. upd (ti_recipient it) (add_token i (uint (ti_amount it)))
        (upd s (add_token i (- uint (ti_amount it))) ds)) its ds) a = nonce_at ds a" for i its
    by (rule nonce_at_fold) (simp add: nonce_at_neutral wd_nonce_simps)
  show ?thesis
    using assms tr
    by (auto simp: token_delta_def market_delta_def Let_def rbind_eq_Inr nonce_at_neutral wd_nonce_simps
        split: if_splits option.splits)
qed

lemma core_nonce:
  assumes "core_delta E n V batch b tx s ds = Inr ds'"
  shows "nonce_at ds' a = nonce_at ds a"
proof -
  have votes: "nonce_at (fold (\<lambda>v. upd s (\<lambda>d. d\<lparr>wd_vote := g v\<rparr>)) vs ds) a = nonce_at ds a" for g and vs :: "string list"
    by (rule nonce_at_fold) (simp add: nonce_at_neutral)
  have pays: "nonce_at (payments_delta tx s ds) a = nonce_at ds a"
    unfolding payments_delta_def by (rule nonce_at_fold) (simp add: nonce_at_neutral wd_nonce_simps)
  have transfer: "nonce_at (transfer_delta b tx s ds) a = nonce_at ds a"
    by (auto simp: transfer_delta_def Let_def nonce_at_neutral wd_nonce_simps split: option.splits prod.splits)
  have claims: "claim_delta E n V batch tx ds = Inr ds' \<Longrightarrow> nonce_at ds' a = nonce_at ds a"
    "refund_delta E n V batch tx ds = Inr ds' \<Longrightarrow> nonce_at ds' a = nonce_at ds a"
    by (auto simp: claim_delta_def refund_delta_def rbind_def Let_def nonce_at_neutral wd_nonce_simps split: option.splits sum.splits)
  show ?thesis
    using assms votes pays transfer claims
    by (auto simp: core_delta_def lock_delta_def rbind_eq_Inr nonce_at_neutral split: if_splits option.splits)
qed

lemma release_change:
  assumes d: "core_delta E n V batch b tx s ds = Inr ds'" and r: "releases_lock tx" and w: "wire_shaped tx"
    and l: "released_id tx = Some i" "find_lock V batch i = Inr (Some lock)" "payee E n tx lock = Inr to"
      "tx_type tx = HTLC_CLAIM \<Longrightarrow> tx_recipient lock \<noteq> None"
  shows "change_at ds' a = change_at ds a + (if a = to then uint (tx_amount lock) else 0)"
proof (cases "tx_type tx = HTLC_CLAIM")
  case True
  then obtain c where c: "asset_field as_claim tx = Some c" "i = hc_lock_transaction_id c"
    using w r l(1) by (auto simp: wire_shaped_def released_id_def split: option.splits if_splits)
  obtain x where "tx_recipient lock = Some x" "x = to" using l(3,4) True by (auto simp: payee_def)
  with True d c l(2) show ?thesis
    by (auto simp: core_delta_def claim_delta_def Let_def rbind_eq_Inr change_at_neutral)
next
  case False
  then have ty: "tx_type tx = HTLC_REFUND" using r by (simp add: releases_lock_def)
  then have c: "asset_field as_refund tx = Some i"
    using w r l(1) False by (auto simp: wire_shaped_def released_id_def split: option.splits if_splits)
  have "address_from_public_key E (tx_sender_public_key lock) (nw_pubkey_hash n) = Inr to" using l(3) False by (simp add: payee_def)
  with ty d c l(2) show ?thesis
    by (auto simp: core_delta_def refund_delta_def Let_def rbind_eq_Inr change_at_upd add_balance_def)
       (simp_all add: change_at_def)
qed

lemma plain_core_change:
  assumes "core_delta E n V batch b tx s ds = Inr ds'" and "\<not> releases_lock tx" and "tx_type_group tx = TYPE_GROUP_CORE"
  shows "change_at ds' a = change_at ds a + credit tx a
    - (if a = s \<and> tx_type tx = MULTI_PAYMENT then payments_total tx else 0)"
proof -
  have vote: "change_at (fold (\<lambda>v. upd s (\<lambda>d. d\<lparr>wd_vote := g v\<rparr>)) vs ds) a = change_at ds a" for g and vs :: "string list"
    by (rule change_at_fold) (simp add: change_at_neutral)
  show ?thesis
  proof (cases "tx_type tx = TRANSFER \<or> tx_type tx = MULTI_PAYMENT")
    case True
    then show ?thesis using assms by (auto simp: core_delta_def credit_def payments_change transfer_change)
  next
    case False
    then have "credit tx a = 0" using assms(3) by (simp add: credit_def)
    moreover have "change_at ds' a = change_at ds a"
      using assms False vote
      by (auto simp: core_delta_def lock_delta_def releases_lock_def rbind_eq_Inr change_at_neutral
          split: if_splits option.splits)
    ultimately show ?thesis using False by simp
  qed
qed

text \<open>What \<open>tx_delta\<close> does after the sender's debit.\<close>

lemma tx_delta_steps:
  assumes "tx_delta E n V batch b (k, tx) ds = Inr ds'"
  obtains sender where "address_from_public_key E (tx_sender_public_key tx) (nw_pubkey_hash n) = Inr sender"
    and "(\<exists>e. sobj_asset_of tx = Some e \<and> tx_type_group tx \<noteq> TYPE_GROUP_CORE \<and> ds' = sobj_delta V tx sender e (sender_delta tx sender ds))
      \<or> (\<exists>t. token_asset_of tx = Some t \<and> tx_type_group tx = TYPE_GROUP_TOKEN
             \<and> token_delta V b k tx sender t (sender_delta tx sender ds) = Inr ds')
      \<or> tx_type_group tx \<noteq> TYPE_GROUP_CORE \<and> ds' = sender_delta tx sender ds
      \<or> tx_type_group tx = TYPE_GROUP_CORE \<and> core_delta E n V batch b tx sender (sender_delta tx sender ds) = Inr ds'"
proof -
  have groups: "sobj_asset_of tx = Some e \<Longrightarrow> tx_type_group tx \<noteq> TYPE_GROUP_CORE"
    "token_asset_of tx = Some t \<Longrightarrow> tx_type_group tx = TYPE_GROUP_TOKEN" for e t
    by (auto simp: sobj_asset_of_def token_asset_of_def is_sobj_def is_token_def split: if_splits)
  from assms obtain sender where s: "address_from_public_key E (tx_sender_public_key tx) (nw_pubkey_hash n) = Inr sender"
    by (auto simp: tx_delta_def Let_def rbind_eq_Inr)
  then show ?thesis
    using that [OF s] assms groups by (auto simp: tx_delta_def Let_def split: option.splits if_splits)
qed

lemma sender_nonce: "nonce_at (sender_delta tx s ds) a = nonce_at ds a + (if a = s then 1 else 0)"
  by (simp add: sender_delta_def nonce_at_def delta_of_upd add_balance_def)

text \<open>The lock a release names is found where the audit finds it.\<close>

definition locks_found :: "store \<Rightarrow> ledger_view \<Rightarrow> block list \<Rightarrow> crypto \<Rightarrow> network \<Rightarrow> transaction \<Rightarrow> bool" where
  "locks_found s V batch E n tx \<longleftrightarrow>
     (releases_lock tx \<longrightarrow> (\<forall>i. released_id tx = Some i \<longrightarrow> find_lock V batch i = get_transaction E n s i))"

lemma tx_delta_books:
  assumes d: "tx_delta E n V batch b (k, tx) ds = Inr ds'"
    and w: "wire_shaped tx" and q: "\<not> is_purchase tx" and r: "resolved E n s tx" and f: "locks_found s V batch E n tx"
  obtains sender where "address_from_public_key E (tx_sender_public_key tx) (nw_pubkey_hash n) = Inr sender"
    and "\<And>a. change_at ds' a = change_at ds a + booked E n s tx sender a"
    and "\<And>a. nonce_at ds' a = nonce_at ds a + (if a = sender then 1 else 0)"
proof -
  obtain sender where a: "address_from_public_key E (tx_sender_public_key tx) (nw_pubkey_hash n) = Inr sender"
    and steps: "(\<exists>e. sobj_asset_of tx = Some e \<and> tx_type_group tx \<noteq> TYPE_GROUP_CORE \<and> ds' = sobj_delta V tx sender e (sender_delta tx sender ds))
      \<or> (\<exists>t. token_asset_of tx = Some t \<and> tx_type_group tx = TYPE_GROUP_TOKEN
             \<and> token_delta V b k tx sender t (sender_delta tx sender ds) = Inr ds')
      \<or> tx_type_group tx \<noteq> TYPE_GROUP_CORE \<and> ds' = sender_delta tx sender ds
      \<or> tx_type_group tx = TYPE_GROUP_CORE \<and> core_delta E n V batch b tx sender (sender_delta tx sender ds) = Inr ds'"
    using tx_delta_steps [OF d] by metis
  have nonce: "nonce_at ds' x = nonce_at ds x + (if x = sender then 1 else 0)" for x
    using steps sobj_nonce token_nonce core_nonce by (fastforce simp: sender_nonce)
  have no_credit: "credit tx x = 0" "released E n s tx x = 0" if "tx_type_group tx \<noteq> TYPE_GROUP_CORE" for x
    using that by (simp_all add: credit_def released_def releases_lock_def)
  have sobj: "so_action e \<noteq> ACTION_BUY" if "sobj_asset_of tx = Some e" for e
    using q that by (auto simp: is_purchase_def sobj_asset_of_def is_sobj_def split: if_splits)
  have token: "tx_type tx \<noteq> TOKEN_BUY" if "tx_type_group tx = TYPE_GROUP_TOKEN" using q that by (simp add: is_purchase_def)
  have change: "change_at ds' x = change_at ds x + booked E n s tx sender x" for x
  proof (cases "tx_type_group tx = TYPE_GROUP_CORE")
    case False
    then have "change_at ds' x = change_at (sender_delta tx sender ds) x"
      using steps sobj token sobj_change token_change by fastforce
    with False no_credit [OF False] show ?thesis by (simp add: sender_change booked_def)
  next
    case core: True
    then have c: "core_delta E n V batch b tx sender (sender_delta tx sender ds) = Inr ds'" using steps by auto
    show ?thesis
    proof (cases "releases_lock tx")
      case True
      then obtain i lock to where l: "released_id tx = Some i" "get_transaction E n s i = Inr (Some lock)"
        "payee E n tx lock = Inr to" "tx_type tx = HTLC_CLAIM \<Longrightarrow> tx_recipient lock \<noteq> None"
        using r by (auto simp: resolved_def is_ok_def split: option.splits sum.splits)
      have "find_lock V batch i = Inr (Some lock)" using f True l(1,2) by (simp add: locks_found_def)
      from release_change [OF c True w l(1) this l(3,4)] True l show ?thesis
        by (auto simp: sender_change booked_def released_def credit_def releases_lock_def)
    next
      case False
      from plain_core_change [OF c False core, of x] False core show ?thesis
        by (simp add: sender_change booked_def released_def)
    qed
  qed
  show ?thesis using that [OF a change nonce] .
qed

end
