(* ===== verification/AuditChain.thy ===== *)
theory AuditChain
  imports AuditBooks
begin

text \<open>
  The audit over a chain: what a block adds to the audited numbers is what applying it adds to the stored wallets, so
  the audit of a chain that was applied block by block finds nothing.
\<close>

section \<open>A block\<close>

text \<open>The stored record of a block carries its transactions with their places.\<close>

definition marked :: "transaction \<Rightarrow> transaction \<Rightarrow> bool" where
  "marked tx tx' \<longleftrightarrow> (\<exists>i h q. tx' = tx\<lparr>tx_block_id := i, tx_block_height := h, tx_sequence := q\<rparr>)"

lemma asset_marked: "asset_field f (tx\<lparr>tx_block_id := i, tx_block_height := h, tx_sequence := q\<rparr>) = asset_field f tx"
  by (simp add: asset_field_def)

lemma marked_fields:
  assumes "marked tx tx'"
  shows "asset_field f tx' = asset_field f tx" "released_id tx' = released_id tx" "releases_lock tx' = releases_lock tx"
    "payee E n tx' = payee E n tx" "is_purchase tx' = is_purchase tx" "tx_sender_public_key tx' = tx_sender_public_key tx"
    "tx_type tx' = tx_type tx" "tx_type_group tx' = tx_type_group tx" "tx_recipient tx' = tx_recipient tx"
    "tx_amount tx' = tx_amount tx" "tx_fee tx' = tx_fee tx" "tx_nonce tx' = tx_nonce tx"
  using assms
  by (auto simp: marked_def asset_marked released_id_def releases_lock_def payee_def fun_eq_iff is_purchase_def
      sobj_asset_of_def is_sobj_def cong: option.case_cong)

lemma marked_audit:
  assumes "marked tx tx'"
  shows "audit_tx E n s only tx' = audit_tx E n s only tx" and "resolved E n s tx' = resolved E n s tx"
proof -
  have "audit_sender tx' = audit_sender tx" "audit_payments only tx' = audit_payments only tx"
    "audit_receive only tx' = audit_receive only tx"
    by (intro ext, simp only: audit_sender_def audit_payments_def audit_receive_def marked_fields [OF assms])+
  moreover have "audit_release E n s only tx' = audit_release E n s only tx"
    by (intro ext) (simp only: audit_release_def marked_fields [OF assms])
  ultimately show "audit_tx E n s only tx' = audit_tx E n s only tx"
    by (intro ext) (simp only: audit_tx_def marked_fields [OF assms])
  show "resolved E n s tx' = resolved E n s tx" by (simp only: resolved_def marked_fields [OF assms])
qed

lemma marked_annotate:
  assumes "list_all (numbered E n) (enumerate k txs)"
  shows "list_all2 marked txs (annotate b q (map (with_id E n) txs))"
  using assms
proof (induction txs arbitrary: k q)
  case (Cons tx txs)
  have "with_id E n tx = tx" using Cons.prems with_id_cases [of E n tx] by (auto simp: numbered_def)
  then show ?case using Cons by (auto simp: marked_def)
qed simp

lemma marked_inits:
  "list_all2 marked txs txs' \<Longrightarrow> length (filter (\<lambda>t. tx_type_group t = TYPE_GROUP_TOKEN \<and> tx_type t = TOKEN_INIT) txs')
     = length (filter (\<lambda>t. tx_type_group t = TYPE_GROUP_TOKEN \<and> tx_type t = TOKEN_INIT) txs)"
  by (induction rule: list_all2_induct) (auto simp: marked_def)

lemma rfold_marked:
  "list_all2 marked txs txs' \<Longrightarrow> rfold (audit_tx E n s only) txs' = rfold (audit_tx E n s only) txs"
proof (induction rule: list_all2_induct)
  case (Cons x xs y ys)
  then have "rfold (audit_tx E n s only) ys = rfold (audit_tx E n s only) xs" by simp
  with Cons(1) show ?case by (intro ext) (simp only: rfold.simps marked_audit)
qed simp

text \<open>Every sender's nonces go on from where they stand.\<close>

fun nonces_follow :: "crypto \<Rightarrow> network \<Rightarrow> (string \<Rightarrow> u64) \<Rightarrow> transaction list \<Rightarrow> bool" where
  "nonces_follow E n f [] = True"
| "nonces_follow E n f (tx # txs) =
     (case address_from_public_key E (tx_sender_public_key tx) (nw_pubkey_hash n) of
        Inl _ \<Rightarrow> False
      | Inr a \<Rightarrow> tx_nonce tx = Some (f a + 1) \<and> f a + 1 \<noteq> 0 \<and> nonces_follow E n (f(a := f a + 1)) txs)"

definition plain_for :: "crypto \<Rightarrow> network \<Rightarrow> store \<Rightarrow> ledger_view \<Rightarrow> block list \<Rightarrow> transaction \<Rightarrow> bool" where
  "plain_for E n s V batch tx \<longleftrightarrow> wire_shaped tx \<and> \<not> is_purchase tx \<and> resolved E n s tx \<and> locks_found s V batch E n tx"

lemma txs_book:
  assumes "rfold (tx_delta E n V batch b) (enumerate k txs) ds = Inr ds'" and "\<forall>tx \<in> set txs. plain_for E n s V batch tx"
    and "nonces_follow E n (\<lambda>a. N a + nonce_at ds a) txs"
    and "\<And>a. account a acc = (B a + change_at ds a, N a + nonce_at ds a, 0)"
  shows "\<exists>acc'. rfold (audit_tx E n s None) txs acc = Inr acc'
    \<and> (\<forall>a. account a acc' = (B a + change_at ds' a, N a + nonce_at ds' a, 0))"
  using assms
proof (induction txs arbitrary: k ds acc)
  case (Cons tx txs)
  obtain ds1 where d: "tx_delta E n V batch b (k, tx) ds = Inr ds1"
    "rfold (tx_delta E n V batch b) (enumerate (Suc k) txs) ds1 = Inr ds'"
    using Cons.prems(1) by (auto simp: rbind_eq_Inr)
  have p: "wire_shaped tx" "\<not> is_purchase tx" "resolved E n s tx" "locks_found s V batch E n tx"
    using Cons.prems(2) by (simp_all add: plain_for_def)
  obtain sender where a: "address_from_public_key E (tx_sender_public_key tx) (nw_pubkey_hash n) = Inr sender"
    and c: "\<And>x. change_at ds1 x = change_at ds x + booked E n s tx sender x"
    and k: "\<And>x. nonce_at ds1 x = nonce_at ds x + (if x = sender then 1 else 0)"
    by (rule tx_delta_books [OF d(1) p]) (rule that)
  obtain acc1 where acc1: "audit_tx E n s None tx acc = Inr acc1"
    and e: "\<And>x. account x acc1 = (case account x acc of (b, k, z) \<Rightarrow>
           (b + booked E n s tx sender x, if x = sender then max k (unwrap_or 0 (tx_nonce tx)) else k, z))"
    by (rule audit_tx_books [OF p(1-3) a, of acc]) (rule that)
  have nf: "tx_nonce tx = Some (N sender + nonce_at ds sender + 1)" "N sender + nonce_at ds sender + 1 \<noteq> 0"
    "nonces_follow E n ((\<lambda>a. N a + nonce_at ds a)(sender := N sender + nonce_at ds sender + 1)) txs"
    using Cons.prems(3) a by simp_all
  have "(\<lambda>a. N a + nonce_at ds a)(sender := N sender + nonce_at ds sender + 1) = (\<lambda>a. N a + nonce_at ds1 a)"
    by (auto simp: k add.assoc)
  then have "nonces_follow E n (\<lambda>a. N a + nonce_at ds1 a) txs" using nf(3) by simp
  moreover have "account x acc1 = (B x + change_at ds1 x, N x + nonce_at ds1 x, 0)" for x
  proof -
    have "max v (v + 1) = v + 1" if "v + 1 \<noteq> 0" for v :: u64
      using unat_inc [OF that] by (simp add: max_def word_le_nat_alt)
    from this [OF nf(2)] show ?thesis using Cons.prems(4) nf(1) by (simp add: e c k add.assoc)
  qed
  ultimately show ?case using Cons.IH [OF d(2)] Cons.prems(2) acc1 by simp
qed simp

lemma zero_deltas: "change_at [] a = 0" "nonce_at [] a = 0"
  by (simp_all add: change_at_def nonce_at_def delta_of_def delta_default_def)

lemma forger_books:
  assumes acc: "\<And>a. account a acc = (B a, N a, 0)"
    and g: "address_from_public_key E (b_generator_public_key b) (nw_pubkey_hash n) = Inr g"
    and db: "list_all2 marked (b_transactions b) (b_transactions db)" "b_height db = b_height b" "b_reward db = b_reward b"
      "b_generator_public_key db = b_generator_public_key b" "b_total_fee db = b_total_fee b"
  obtains acc' where "audit_block E n s db acc = rfold (audit_tx E n s None) (b_transactions b) acc'"
    and "\<And>a. account a acc' = (B a + change_at (forger_delta n b g []) a, N a, 0)"
proof -
  have burned: "burned_amount n db = burned_amount n b"
    using marked_inits [OF db(1)] db(2) by (simp add: burned_amount_def init_count_def)
  define acc1 where "acc1 = (if burned_amount n b > 0 then book (nw_burn_address n) (gain (uint (burned_amount n b))) acc else acc)"
  define acc2 where "acc2 = book g (\<lambda>a. (gain (uint (b_reward b) + uint (b_total_fee b) - uint (burned_amount n b)) a)
    \<lparr>wa_forged := wa_forged a + 1\<rparr>) acc1"
  have "account a acc1 = (B a + (if a = nw_burn_address n then uint (burned_amount n b) else 0), N a, 0)" for a
    using acc [of a] by (auto simp: acc1_def audit word_gt_0)
  then have "account a acc2 = (B a + change_at (forger_delta n b g []) a, N a, 0)" for a
    by (auto simp: acc2_def audit forger_change zero_deltas)
  moreover have "audit_block E n s db acc = rfold (audit_tx E n s None) (b_transactions b) acc2"
    using g by (simp add: audit_block_def burned db Let_def acc1_def acc2_def rfold_marked [OF db(1)])
  ultimately show ?thesis using that by blast
qed

lemma accumulated:
  assumes "accumulate_deltas E n V batch b [] = Inr ds"
  obtains g where "address_from_public_key E (b_generator_public_key b) (nw_pubkey_hash n) = Inr g"
    and "rfold (tx_delta E n V batch b) (enumerate 0 (b_transactions b)) (forger_delta n b g []) = Inr ds"
  using assms that by (auto simp: accumulate_deltas_def rbind_eq_Inr)

lemma block_books:
  assumes d: "accumulate_deltas E n V batch b [] = Inr ds" and p: "\<forall>tx \<in> set (b_transactions b). plain_for E n s V batch tx"
    and f: "nonces_follow E n N (b_transactions b)" and acc: "\<And>a. account a acc = (B a, N a, 0)"
    and db: "list_all2 marked (b_transactions b) (b_transactions db)" "b_height db = b_height b" "b_reward db = b_reward b"
      "b_generator_public_key db = b_generator_public_key b" "b_total_fee db = b_total_fee b"
  shows "\<exists>acc'. audit_block E n s db acc = Inr acc' \<and> (\<forall>a. account a acc' = (B a + change_at ds a, N a + nonce_at ds a, 0))"
proof -
  obtain g where g: "address_from_public_key E (b_generator_public_key b) (nw_pubkey_hash n) = Inr g"
    and r: "rfold (tx_delta E n V batch b) (enumerate 0 (b_transactions b)) (forger_delta n b g []) = Inr ds"
    by (rule accumulated [OF d])
  obtain acc2 where a: "audit_block E n s db acc = rfold (audit_tx E n s None) (b_transactions b) acc2"
    and e: "\<And>a. account a acc2 = (B a + change_at (forger_delta n b g []) a, N a, 0)"
    by (rule forger_books [OF acc g db]) (rule that)
  have e2: "account a acc2 = (B a + change_at (forger_delta n b g []) a, N a + nonce_at (forger_delta n b g []) a, 0)" for a
    by (simp add: e forger_nonce zero_deltas)
  have "nonces_follow E n (\<lambda>a. N a + nonce_at (forger_delta n b g []) a) (b_transactions b)"
    using f by (simp add: forger_nonce zero_deltas)
  from txs_book [OF r p this e2] show ?thesis by (simp add: a)
qed

end
