(* ===== verification/AuditRun.thy ===== *)
theory AuditRun
  imports AuditChain
begin

text \<open>
  The state audit of \<open>src/src/storage.rs\<close> against the write path: every block applied on top of a store whose audit
  agrees keeps the agreement, so the audit of an applied chain reports no drift.
\<close>

section \<open>What an applied block leaves for the audit\<close>

definition stored_nonce :: "store \<Rightarrow> string \<Rightarrow> u64" where
  "stored_nonce s a = (case get_wallet s a of None \<Rightarrow> 0 | Some w \<Rightarrow> w_nonce w)"

definition wallets_keyed :: "store \<Rightarrow> bool" where
  "wallets_keyed s \<longleftrightarrow> bt_wf (st_wallets s) \<and> (\<forall>a w. get_wallet s a = Some w \<longrightarrow> w_address w = a)"

lemma wallet_apply_nonce:
  "wallet_apply d w = Inr w' \<Longrightarrow> w_nonce w' = w_nonce w + wd_nonce d"
  "wallet_apply d w = Inr w' \<Longrightarrow> w_address w' = w_address w"
  by (auto simp: wallet_apply_def Let_def rbind_eq_Inr checked_add_def split: if_splits)

lemma write_wallets_nonce:
  assumes "rfold write_step ds (s, undo, out) = Inr (s', undo', out')" and "distinct (map fst ds)"
  shows "stored_nonce s' a = stored_nonce s a + nonce_at ds a" and "wallets_keyed s \<Longrightarrow> wallets_keyed s'"
  using assms
proof (induction ds arbitrary: s undo out)
  case (Cons ad ds)
  obtain k d where ad: "ad = (k, d)" by (cases ad)
  have step: "\<exists>s1 w. write_wallet (k, d) s = Inr (s1, (k, get_wallet s k), w) \<and>
      (\<exists>u o1. rfold write_step ds (s1, u, o1) = Inr (s', undo', out'))"
    if "rfold write_step (ad # ds) (s, undo, out) = Inr (s', undo', out')" for s undo out
    using that unfolding ad by (fastforce simp: rbind_eq_Inr write_step_ok)
  {
    case 1
    then obtain s1 w u o1 where s1: "write_wallet (k, d) s = Inr (s1, (k, get_wallet s k), w)"
      "rfold write_step ds (s1, u, o1) = Inr (s', undo', out')" using step by blast
    have "stored_nonce s1 a = stored_nonce s a + (if a = k then wd_nonce d else 0)"
      using write_wallet_ok(1,3) [OF s1(1)] wallet_apply_nonce(1)
      by (cases "get_wallet s k") (auto simp: stored_nonce_def get_wallet_def wallet_new_def)
    moreover have "bt_get ds k = None" using 1(2) ad by (auto simp: bt_get_None_iff)
    ultimately show ?case
      using Cons.IH(1) [OF s1(2)] 1(2) by (auto simp: ad nonce_at_def delta_of_def delta_default_def add.assoc)
  next
    case 2
    then obtain s1 w u o1 where s1: "write_wallet (k, d) s = Inr (s1, (k, get_wallet s k), w)"
      "rfold write_step ds (s1, u, o1) = Inr (s', undo', out')" using step by blast
    have "w_address w = k"
      using wallet_apply_nonce(2) [OF write_wallet_ok(1) [OF s1(1)]] 2(1)
      by (cases "get_wallet s k") (auto simp: wallets_keyed_def wallet_new_def)
    then have "wallets_keyed s1" using write_wallet_ok(3) [OF s1(1)] 2(1) by (auto simp: wallets_keyed_def get_wallet_def)
    then show ?case using Cons.IH(2) [OF _ s1(2)] 2(3) by simp
  }
qed (auto simp: nonce_at_def delta_of_def delta_default_def)

text \<open>All coins in wallets.\<close>

definition coins :: "store \<Rightarrow> int" where
  "coins s = bt_sum w_balance (st_wallets s)"

lemma write_wallets_coins:
  assumes "rfold write_step ds (s, undo, out) = Inr (s', undo', out')" and "bt_wf (st_wallets s)"
  shows "coins s' = coins s + total_balance ds"
  using assms
proof (induction ds arbitrary: s undo out)
  case (Cons ad ds)
  obtain k d where ad: "ad = (k, d)" by (cases ad)
  obtain s1 w u o1 where s1: "write_wallet (k, d) s = Inr (s1, (k, get_wallet s k), w)"
    "rfold write_step ds (s1, u, o1) = Inr (s', undo', out')"
    using Cons.prems(1) unfolding ad by (fastforce simp: rbind_eq_Inr write_step_ok)
  have "w_balance w = w_balance (unwrap_or (wallet_new k) (get_wallet s k)) + wd_balance d"
    using write_wallet_ok(1) [OF s1(1)] wallet_apply_balance by blast
  then have "coins s1 = coins s + wd_balance d"
    using write_wallet_ok(3) [OF s1(1)] Cons.prems(2)
    by (cases "get_wallet s k") (auto simp: coins_def bt_sum_put get_wallet_def wallet_new_def)
  moreover have "bt_wf (st_wallets s1)" using write_wallet_ok(3) [OF s1(1)] Cons.prems(2) by simp
  ultimately show ?case using Cons.IH [OF s1(2)] by (simp add: ad total_balance_def)
qed (simp add: total_balance_def)

lemma applied_fields:
  assumes applied: "apply_block E n b s = (s', Inr ())" and b: "b_id b \<noteq> None"
    and num: "list_all (numbered E n) (enumerate 0 (b_transactions b))"
  obtains enc ds where "encode_block E b n = Inr enc" and "accumulate_deltas E n (store_view E n s) [b] b [] = Inr ds"
    and "check_tip b s = Inr ()" and "st_blocks s' = bt_put (b_height b) enc (st_blocks s)"
    and "get_last_height s' = max (get_last_height s) (b_height b)"
    and "\<And>a. stored_balance s' a = stored_balance s a + change_at ds a"
    and "\<And>a. stored_nonce s' a = stored_nonce s a + nonce_at ds a"
    and "wallets_keyed s \<Longrightarrow> wallets_keyed s'"
    and "bt_wf (st_wallets s) \<Longrightarrow> coins s' = coins s + total_balance ds"
    and "\<And>i. \<forall>tx \<in> set (b_transactions b). tx_id tx \<noteq> Some i \<Longrightarrow> bt_get (st_txs s') i = bt_get (st_txs s) i"
proof -
  obtain pb enc ds sw undo out sb where pb: "prepare_block E n b = Inr (pb, enc)"
    and ds: "accumulate_deltas E n (store_view E n s) [pb] pb [] = Inr ds" and ct: "check_tip pb s = Inr ()"
    and sw: "write_wallets_undo ds s = Inr (sw, undo, out)" and sb: "write_block E (nw_pubkey_hash n) (pb, enc) sw = Inr sb"
    and st: "statistics (sb\<lparr>st_undo := (let u = bt_put (b_height pb) undo (st_undo sb)
        in if b_height pb > UNDO_DEPTH then bt_del (b_height pb - UNDO_DEPTH) u else u),
        st_generation := st_generation sb + 1\<rparr>) s'"
    using apply_block_cases [OF applied] by metis
  have enc: "pb = b" "encode_block E b n = Inr enc"
    using pb prepare_numbered [OF b num] by (auto simp: rbind_eq_Inr)
  note ds = ds [unfolded enc] and ct = ct [unfolded enc] and sb = sb [unfolded enc] and st = st [unfolded enc]
  have dist: "distinct (map fst ds)" using accumulate_balance [OF bt_wf_Nil ds] bt_wf_distinct by blast
  note sw = sw [unfolded write_wallets_undo_step]
  have "chain_part sw = chain_part s" using write_wallets_record(4) [OF sw dist] .
  then have swf: "st_blocks sw = st_blocks s" "st_txs sw = st_txs s" "get_last_height sw = get_last_height s"
    by (simp_all add: chain_part_def get_last_height_def)
  note wb = write_block_frame [OF sb] and sf = statistics_fields [OF st]
  have wallets: "get_wallet s' x = get_wallet sw x" "st_wallets s' = st_wallets sw" for x
    using sf(1) wb(1) by (simp_all add: get_wallet_def)
  define s0 where "s0 = sw\<lparr>st_blocks := bt_put (b_height b) enc (st_blocks sw), st_block_ids :=
        (case b_id b of None \<Rightarrow> st_block_ids sw | Some i \<Rightarrow> bt_put i (b_height b) (st_block_ids sw))\<rparr>"
  obtain sx where sx: "rfold (index_tx E (nw_pubkey_hash n) (b_height b)) (enumerate 0 (b_transactions b)) s0 = Inr sx"
    and sxi: "index_part sb = index_part sx"
    using write_block_index [OF sb] unfolding s0_def by blast
  have txs: "bt_get (st_txs s') i = bt_get (st_txs s) i" if "\<forall>tx \<in> set (b_transactions b). tx_id tx \<noteq> Some i" for i
  proof -
    have "\<forall>itx \<in> set (enumerate 0 (b_transactions b)). i \<notin> id_keys itx"
      using that by (auto simp: id_keys_def in_set_enumerate_eq)
    from index_txs_get(1) [OF sx this] sxi sf(5) show ?thesis by (simp add: index_part_def s0_def swf(2))
  qed
  have "stored_balance s' a = stored_balance s a + change_at ds a" for a
    using write_wallets_balance [OF sw dist] wallets by (simp add: stored_balance_def)
  moreover have "stored_nonce s' a = stored_nonce s a + nonce_at ds a" for a
    using write_wallets_nonce(1) [OF sw dist] wallets by (simp add: stored_nonce_def)
  moreover have "wallets_keyed s \<Longrightarrow> wallets_keyed s'"
    using write_wallets_nonce(2) [OF sw dist] wallets by (simp add: wallets_keyed_def)
  moreover have "bt_wf (st_wallets s) \<Longrightarrow> coins s' = coins s + total_balance ds"
    using write_wallets_coins [OF sw] wallets by (simp add: coins_def)
  moreover have "get_last_height s' = max (get_last_height s) (b_height b)"
    using wb(8) sf(9) swf(3) by (simp add: get_last_height_def)
  moreover have "st_blocks s' = bt_put (b_height b) enc (st_blocks s)" using sf(3) wb(6) swf(1) by simp
  ultimately show ?thesis using that [OF enc(2) ds ct] txs by blast
qed

section \<open>Growing the chain\<close>

lemma bt_put_last: "\<forall>k \<in> fst ` set m. k < h \<Longrightarrow> bt_put h v m = m @ [(h, v)]"
  by (induction m) auto

lemma rfold_app: "rfold f (xs @ ys) z = rbind (rfold f xs z) (rfold f ys)"
  by (induction xs arbitrary: z) (auto simp: rbind_def split: sum.split)

lemma rfold_same: "(\<And>x z. x \<in> set xs \<Longrightarrow> f x z = g x z) \<Longrightarrow> rfold f xs z = rfold g xs z"
  by (induction xs arbitrary: z) (auto simp: rbind_def split: sum.split)

text \<open>A release whose lock is in the chain, and a store that still has every transaction another one had.\<close>

definition settled :: "crypto \<Rightarrow> network \<Rightarrow> store \<Rightarrow> transaction \<Rightarrow> bool" where
  "settled E n s tx \<longleftrightarrow> (releases_lock tx \<longrightarrow>
     (case released_id tx of None \<Rightarrow> False
      | Some i \<Rightarrow> (case get_transaction E n s i of Inr (Some _) \<Rightarrow> True | _ \<Rightarrow> False)))"

definition keeps_txs :: "crypto \<Rightarrow> network \<Rightarrow> store \<Rightarrow> store \<Rightarrow> bool" where
  "keeps_txs E n s s' \<longleftrightarrow> (\<forall>i lock. get_transaction E n s i = Inr (Some lock) \<longrightarrow> get_transaction E n s' i = Inr (Some lock))"

lemma settled_obtain:
  assumes "settled E n s tx" and "releases_lock tx"
  obtains i lock where "released_id tx = Some i" and "get_transaction E n s i = Inr (Some lock)"
  using assms by (auto simp: settled_def split: option.splits sum.splits)

lemma resolved_settled: "resolved E n s tx \<Longrightarrow> settled E n s tx"
  by (auto simp: resolved_def settled_def split: option.splits sum.splits)

lemma resolved_kept: "resolved E n s tx \<Longrightarrow> keeps_txs E n s s' \<Longrightarrow> resolved E n s' tx"
  by (fastforce simp: resolved_def keeps_txs_def split: option.splits sum.splits)

lemma settled_kept: "settled E n s tx \<Longrightarrow> keeps_txs E n s s' \<Longrightarrow> settled E n s' tx"
  by (fastforce simp: settled_def keeps_txs_def split: option.splits sum.splits)

lemma marked_settled: "marked tx tx' \<Longrightarrow> settled E n s tx' = settled E n s tx"
  by (simp only: settled_def marked_fields)

lemma audit_tx_kept:
  assumes "settled E n s tx" and "keeps_txs E n s s'"
  shows "audit_tx E n s' only tx acc = audit_tx E n s only tx acc"
proof -
  have "audit_release E n s' only tx sender a = audit_release E n s only tx sender a" if r: "releases_lock tx" for sender a
  proof -
    obtain i lock where i: "released_id tx = Some i" "get_transaction E n s i = Inr (Some lock)"
      by (rule settled_obtain [OF assms(1) r])
    then have "get_transaction E n s' i = Inr (Some lock)" using assms(2) by (simp add: keeps_txs_def)
    with i show ?thesis by (simp add: audit_release_def)
  qed
  then show ?thesis by (auto simp: audit_tx_def Let_def releases_lock_def rbind_def split: sum.split)
qed

lemma audit_block_kept:
  assumes "\<forall>tx \<in> set (b_transactions b). settled E n s tx" and "keeps_txs E n s s'"
  shows "audit_block E n s' b acc = audit_block E n s b acc"
  unfolding audit_block_def Let_def
  by (rule arg_cong [where f = "rbind _"], rule ext, rule rfold_same) (simp add: assms audit_tx_kept)

section \<open>The agreement\<close>

text \<open>The audit of the store up to its tip gives the stored balance and nonce of every address, and skips nothing.\<close>

definition books_match :: "crypto \<Rightarrow> network \<Rightarrow> store \<Rightarrow> bool" where
  "books_match E n s \<longleftrightarrow> wallets_keyed s \<and> bt_wf (st_blocks s) \<and> (\<forall>h \<in> fst ` set (st_blocks s). h \<le> get_last_height s)
     \<and> (\<forall>kv \<in> set (st_blocks s). \<exists>b. decode_block E (snd kv) n = Inr b \<and> (\<forall>tx \<in> set (b_transactions b). settled E n s tx))
     \<and> (\<exists>acc. audit_scan E n s 0 (get_last_height s) [] = Inr acc
          \<and> (\<forall>a. account a acc = (stored_balance s a, stored_nonce s a, 0)))"

text \<open>A block as the node stores it: its own id, numbered transactions of the wire and new transaction ids.\<close>

definition recorded :: "crypto \<Rightarrow> network \<Rightarrow> store \<Rightarrow> block \<Rightarrow> bool" where
  "recorded E n s b \<longleftrightarrow> canonical_block E n b \<and> 0 < b_height b
     \<and> (case b_id b of None \<Rightarrow> False | Some i \<Rightarrow> (if b_height b = 1 then Inr (nw_genesis_block_id n) else block_id E b) = Inr i)
     \<and> list_all (numbered E n) (enumerate 0 (b_transactions b))
     \<and> list_all (\<lambda>tx. bt_get (st_txs s) (unwrap_or [] (tx_id tx)) = None) (b_transactions b)"

text \<open>A block without purchases, with every released lock in an earlier block, and with nonces that go on from the stored
  ones.\<close>

definition auditable :: "crypto \<Rightarrow> network \<Rightarrow> store \<Rightarrow> block \<Rightarrow> bool" where
  "auditable E n s b \<longleftrightarrow> recorded E n s b
     \<and> list_all (\<lambda>tx. \<not> is_purchase tx \<and> resolved E n s tx) (b_transactions b)
     \<and> nonces_follow E n (stored_nonce s) (b_transactions b)"

lemma scan_all:
  assumes "\<forall>h \<in> fst ` set (st_blocks s). h \<le> t"
  shows "audit_scan E n s 0 t acc = rfold (\<lambda>kv acc. rbind (decode_block E (snd kv) n) (\<lambda>b. audit_block E n s b acc)) (st_blocks s) acc"
proof -
  have "filter (\<lambda>kv. 0 \<le> fst kv \<and> fst kv \<le> t) (st_blocks s) = st_blocks s" using assms by (simp add: filter_id_conv)
  then show ?thesis by (simp add: audit_scan_def)
qed

text \<open>The audit of the store after a recorded block is the audit of the store before it, then of the stored block.\<close>

lemma scan_step:
  assumes m: "books_match E n s" and a: "recorded E n s b" and applied: "apply_block E n b s = (s', Inr ())"
  obtains ds db acc enc where "accumulate_deltas E n (store_view E n s) [b] b [] = Inr ds"
    and "\<And>a. account a acc = (stored_balance s a, stored_nonce s a, 0)"
    and "list_all2 marked (b_transactions b) (b_transactions db)" and "b_height db = b_height b" and "b_reward db = b_reward b"
    and "b_generator_public_key db = b_generator_public_key b" and "b_total_fee db = b_total_fee b"
    and "audit_scan E n s' 0 (get_last_height s') [] = audit_block E n s' db acc"
    and "\<And>a. stored_balance s' a = stored_balance s a + change_at ds a"
    and "\<And>a. stored_nonce s' a = stored_nonce s a + nonce_at ds a"
    and "wallets_keyed s'" and "keeps_txs E n s s'" and "decode_block E enc n = Inr db"
    and "st_blocks s' = st_blocks s @ [(b_height b, enc)]" and "bt_wf (st_blocks s')"
    and "\<forall>h \<in> fst ` set (st_blocks s'). h \<le> get_last_height s'"
    and "\<forall>tx \<in> set (b_transactions b). wire_shaped tx \<and> (\<forall>i. tx_id tx = Some i \<longrightarrow> bt_get (st_txs s) i = None)"
proof -
  obtain i where i: "b_id b = Some i" "(if b_height b = 1 then Inr (nw_genesis_block_id n) else block_id E b) = Inr i"
    and c: "canonical_block E n b" and h0: "0 < b_height b" and num: "list_all (numbered E n) (enumerate 0 (b_transactions b))"
    and fresh: "\<forall>tx \<in> set (b_transactions b). bt_get (st_txs s) (unwrap_or [] (tx_id tx)) = None"
    using a by (auto simp: recorded_def list_all_iff split: option.splits)
  obtain enc ds where enc: "encode_block E b n = Inr enc" and ds: "accumulate_deltas E n (store_view E n s) [b] b [] = Inr ds"
    and ct: "check_tip b s = Inr ()" and bl: "st_blocks s' = bt_put (b_height b) enc (st_blocks s)"
    and lh: "get_last_height s' = max (get_last_height s) (b_height b)"
    and bal: "\<And>a. stored_balance s' a = stored_balance s a + change_at ds a"
    and non: "\<And>a. stored_nonce s' a = stored_nonce s a + nonce_at ds a"
    and ky: "wallets_keyed s \<Longrightarrow> wallets_keyed s'"
    and kept: "\<And>i. \<forall>tx \<in> set (b_transactions b). tx_id tx \<noteq> Some i \<Longrightarrow> bt_get (st_txs s') i = bt_get (st_txs s) i"
    by (rule applied_fields [OF applied _ num]) (use i(1) in simp, rule that)
  have lt: "get_last_height s < b_height b"
  proof (cases "get_last_height s = 0")
    case False
    then have "b_height b = get_last_height s + 1" using ct by (auto simp: check_tip_def Let_def split: if_splits)
    moreover have "get_last_height s + 1 \<noteq> 0" using h0 calculation by (metis word_gt_0)
    from unat_inc [OF this] have "unat (get_last_height s + 1) = unat (get_last_height s) + 1" .
    ultimately show ?thesis by (simp add: word_less_nat_alt)
  qed (use h0 in simp)
  have below: "\<forall>k \<in> fst ` set (st_blocks s). k \<le> get_last_height s" using m by (simp add: books_match_def)
  then have new: "\<forall>k \<in> fst ` set (st_blocks s). k < b_height b" using lt by fastforce
  note put = bl
  have bl: "st_blocks s' = st_blocks s @ [(b_height b, enc)]" using bl bt_put_last [OF new] by simp
  have lh: "get_last_height s' = b_height b" using lh lt by simp
  obtain db where db: "decode_block E enc n = Inr db" "db = b\<lparr>b_id := Some i, b_transactions :=
      annotate (b\<lparr>b_id := Some i\<rparr>) 0 (map (with_id E n) (b_transactions b))\<rparr>"
    using block_record_round_trip [OF c i(2)] enc by auto
  have marks: "list_all2 marked (b_transactions b) (b_transactions db)" using marked_annotate [OF num] by (simp add: db(2))
  have getb: "bt_get (st_blocks s') k = bt_get (st_blocks s) k" if "bt_get (st_blocks s) k \<noteq> None" for k
    using that new by (auto simp: put bt_get_None_iff)
  have keeps: "keeps_txs E n s s'"
    unfolding keeps_txs_def
  proof (intro allI impI)
    fix i lock assume l: "get_transaction E n s i = Inr (Some lock)"
    then have g: "bt_get (st_txs s) i \<noteq> None" by (auto simp: get_transaction_def split: option.splits)
    then have "bt_get (st_txs s') i = bt_get (st_txs s) i" using fresh by (intro kept) force
    moreover have "bt_get (st_blocks s) h \<noteq> None" if "bt_get (st_txs s) i = Some h" for h
      using l that by (cases "bt_get (st_blocks s) h")
        (simp_all add: get_transaction_def get_block_by_height_def transpose_opt_def)
    ultimately show "get_transaction E n s' i = Inr (Some lock)"
      using l g getb by (auto simp: get_transaction_def get_block_by_height_def)
  qed
  obtain acc where acc: "audit_scan E n s 0 (get_last_height s) [] = Inr acc"
    "\<And>a. account a acc = (stored_balance s a, stored_nonce s a, 0)"
    using m by (auto simp: books_match_def)
  let ?step = "\<lambda>s kv acc. rbind (decode_block E (snd kv) n) (\<lambda>b. audit_block E n s b acc)"
  have old: "\<exists>b. decode_block E (snd kv) n = Inr b \<and> (\<forall>tx \<in> set (b_transactions b). settled E n s tx)"
    if "kv \<in> set (st_blocks s)" for kv using m that by (simp add: books_match_def)
  have "?step s' kv z = ?step s kv z" if "kv \<in> set (st_blocks s)" for kv z
    using old [OF that] audit_block_kept [OF _ keeps] by auto
  then have "rfold (?step s') (st_blocks s) [] = rfold (?step s) (st_blocks s) []" by (rule rfold_same)
  also have "\<dots> = Inr acc" using acc(1) scan_all [OF below] by simp
  finally have olds: "rfold (?step s') (st_blocks s) [] = Inr acc" .
  have wire: "\<forall>tx \<in> set (b_transactions b). wire_shaped tx \<and> (\<forall>i. tx_id tx = Some i \<longrightarrow> bt_get (st_txs s) i = None)"
    using c canonical_wire_shaped fresh by (force simp: canonical_block_def list_all_iff)
  have heights: "\<forall>h \<in> fst ` set (st_blocks s'). h \<le> get_last_height s'" using new by (auto simp: bl lh)
  have scan: "audit_scan E n s' 0 (get_last_height s') [] = audit_block E n s' db acc"
    using scan_all [OF heights] by (cases "audit_block E n s' db acc") (simp_all add: bl rfold_app olds db(1))
  have wf: "bt_wf (st_blocks s')" using m by (simp add: put books_match_def)
  have fields: "b_height db = b_height b" "b_reward db = b_reward b" "b_generator_public_key db = b_generator_public_key b"
    "b_total_fee db = b_total_fee b"
    by (simp_all add: db(2))
  have "wallets_keyed s'" using ky m by (simp add: books_match_def)
  then show ?thesis by (rule that [OF ds acc(2) marks fields scan bal non _ keeps db(1) bl wf heights wire])
qed

lemma books_match_step:
  assumes m: "books_match E n s" and a: "auditable E n s b" and applied: "apply_block E n b s = (s', Inr ())"
  shows "books_match E n s'"
proof -
  have r: "recorded E n s b" and txs: "\<forall>tx \<in> set (b_transactions b). \<not> is_purchase tx \<and> resolved E n s tx"
    and nf: "nonces_follow E n (stored_nonce s) (b_transactions b)"
    using a by (auto simp: auditable_def list_all_iff)
  obtain ds db acc enc where ds: "accumulate_deltas E n (store_view E n s) [b] b [] = Inr ds"
    and acc: "\<And>a. account a acc = (stored_balance s a, stored_nonce s a, 0)"
    and db: "list_all2 marked (b_transactions b) (b_transactions db)" "b_height db = b_height b" "b_reward db = b_reward b"
      "b_generator_public_key db = b_generator_public_key b" "b_total_fee db = b_total_fee b"
    and scan: "audit_scan E n s' 0 (get_last_height s') [] = audit_block E n s' db acc"
    and bal: "\<And>a. stored_balance s' a = stored_balance s a + change_at ds a"
    and non: "\<And>a. stored_nonce s' a = stored_nonce s a + nonce_at ds a"
    and ks: "wallets_keyed s'" and keeps: "keeps_txs E n s s'" and dec: "decode_block E enc n = Inr db"
    and bl: "st_blocks s' = st_blocks s @ [(b_height b, enc)]" and wf: "bt_wf (st_blocks s')"
    and heights: "\<forall>h \<in> fst ` set (st_blocks s'). h \<le> get_last_height s'"
    and wire: "\<forall>tx \<in> set (b_transactions b). wire_shaped tx \<and> (\<forall>i. tx_id tx = Some i \<longrightarrow> bt_get (st_txs s) i = None)"
    by (rule scan_step [OF m r applied]) (rule that)
  have plain: "plain_for E n s' (store_view E n s) [b] tx" if tx: "tx \<in> set (b_transactions b)" for tx
  proof -
    have w: "wire_shaped tx" using wire tx by blast
    have r: "resolved E n s tx" "\<not> is_purchase tx" using txs tx by auto
    have "find_lock (store_view E n s) [b] i = get_transaction E n s' i"
      if rel: "releases_lock tx" "released_id tx = Some i" for i
    proof -
      obtain lock where l: "get_transaction E n s i = Inr (Some lock)"
        by (rule settled_obtain [OF resolved_settled [OF r(1)] rel(1)]) (use rel(2) that in simp)
      then have "bt_get (st_txs s) i \<noteq> None" by (auto simp: get_transaction_def split: option.splits)
      then have "find (\<lambda>t. tx_id t = Some i) (b_transactions b) = None" using wire by (auto simp: find_None_iff)
      moreover have "get_transaction E n s' i = Inr (Some lock)" using keeps l by (simp add: keeps_txs_def)
      ultimately show ?thesis using l by (simp add: find_lock_def store_view_def)
    qed
    then show ?thesis using w r resolved_kept [OF r(1) keeps] by (simp add: plain_for_def locks_found_def)
  qed
  obtain acc' where acc': "audit_block E n s' db acc = Inr acc'"
    "\<And>a. account a acc' = (stored_balance s a + change_at ds a, stored_nonce s a + nonce_at ds a, 0)"
    using block_books [OF ds _ nf acc db, of s'] plain by blast
  have scan': "audit_scan E n s' 0 (get_last_height s') [] = Inr acc'" using scan acc'(1) by simp
  have recs: "\<exists>b. decode_block E (snd kv) n = Inr b \<and> (\<forall>tx \<in> set (b_transactions b). settled E n s' tx)"
    if kv: "kv \<in> set (st_blocks s')" for kv
  proof (cases "kv \<in> set (st_blocks s)")
    case True
    then show ?thesis using m settled_kept [OF _ keeps] unfolding books_match_def by blast
  next
    case False
    have "settled E n s' t" if "t \<in> set (b_transactions db)" for t
    proof -
      obtain k where k: "k < length (b_transactions db)" "t = b_transactions db ! k"
        using \<open>t \<in> _\<close> by (auto simp: in_set_conv_nth)
      from list_all2_nthD2 [OF db(1) k(1)] list_all2_lengthD [OF db(1)] k
      have "b_transactions b ! k \<in> set (b_transactions b)" "marked (b_transactions b ! k) t" by simp_all
      then show ?thesis using txs settled_kept [OF resolved_settled keeps] marked_settled by blast
    qed
    with False kv dec show ?thesis by (auto simp: bl)
  qed
  have accs: "\<forall>a. account a acc' = (stored_balance s' a, stored_nonce s' a, 0)" by (simp add: acc'(2) bal non)
  show ?thesis unfolding books_match_def
    by (intro conjI exI [of _ acc'] ks wf heights scan' accs) (use recs in blast)
qed

end
