(* ===== verification/AuditProps.thy ===== *)
theory AuditProps
  imports AuditRun
begin

text \<open>
  What the state audit reports and what its repair leaves: the comparison in closed form, the audit of a chain that
  was applied block by block, the audit after a repair, and the seller of a purchase.
\<close>

section \<open>The comparison\<close>

definition finished :: "audit_acc \<Rightarrow> u64 \<Rightarrow> wallet_state \<Rightarrow> wallet_audit" where
  "finished acc tip w = audit_finish (w_address w) tip True (Some w) (take_entry (w_address w) acc)"

lemma finished_fields:
  "wa_address (finished acc tip w) = w_address w"
  "wa_skipped (finished acc tip w) = wa_skipped (take_entry (w_address w) acc)"
  "wa_computed_balance (finished acc tip w) = wa_computed_balance (take_entry (w_address w) acc)"
  "wa_computed_nonce (finished acc tip w) = wa_computed_nonce (take_entry (w_address w) acc)"
  by (simp_all add: finished_def audit_finish_def Let_def)

lemma finished_drifted:
  "has_drifted (finished acc tip w) \<longleftrightarrow> w_nonce w \<noteq> wa_computed_nonce (take_entry (w_address w) acc)
     \<or> wa_skipped (take_entry (w_address w) acc) = 0 \<and> w_balance w \<noteq> wa_computed_balance (take_entry (w_address w) acc)"
  by (auto simp: has_drifted_def finished_def audit_finish_def Let_def)

lemma take_entry_del: "a \<noteq> b \<Longrightarrow> take_entry a (bt_del b acc) = take_entry a acc"
  by (simp add: take_entry_def)

definition count64 :: "('a \<Rightarrow> bool) \<Rightarrow> 'a list \<Rightarrow> u64" where
  "count64 P xs = of_nat (length (filter P xs))"

lemma compare_fold:
  assumes "distinct (map w_address ws)"
  shows "snd (fold (compare_one tip) ws (acc, out)) =
    out\<lparr>ca_wallets := ca_wallets out + of_nat (length ws),
        ca_checked := ca_checked out + count64 (\<lambda>w. wa_skipped (finished acc tip w) = 0) ws,
        ca_skipped := ca_skipped out + count64 (\<lambda>w. wa_skipped (finished acc tip w) > 0) ws,
        ca_drifted := ca_drifted out @ filter (\<lambda>a. wa_skipped a = 0 \<and> has_drifted a) (map (finished acc tip) ws)\<rparr>"
  using assms
proof (induction ws arbitrary: acc out)
  case (Cons w ws)
  have f: "finished (bt_del (w_address w) acc) tip v = finished acc tip v" if "v \<in> set ws" for v
  proof -
    have "w_address v \<noteq> w_address w" using imageI [OF that, of w_address] Cons.prems by auto
    then show ?thesis by (simp add: finished_def take_entry_del)
  qed
  have l: "map (finished (bt_del (w_address w) acc) tip) ws = map (finished acc tip) ws"
    "count64 (\<lambda>v. wa_skipped (finished (bt_del (w_address w) acc) tip v) = 0) ws
      = count64 (\<lambda>v. wa_skipped (finished acc tip v) = 0) ws"
    "count64 (\<lambda>v. wa_skipped (finished (bt_del (w_address w) acc) tip v) > 0) ws
      = count64 (\<lambda>v. wa_skipped (finished acc tip v) > 0) ws"
    using f by (simp_all add: count64_def cong: filter_cong)
  have s: "compare_one tip w (acc, out) = (bt_del (w_address w) acc,
      if wa_skipped (finished acc tip w) > 0
      then out\<lparr>ca_wallets := ca_wallets out + 1, ca_skipped := ca_skipped out + 1\<rparr>
      else out\<lparr>ca_wallets := ca_wallets out + 1, ca_checked := ca_checked out + 1,
           ca_drifted := ca_drifted out @ (if has_drifted (finished acc tip w) then [finished acc tip w] else [])\<rparr>)"
    by (simp add: compare_one_def finished_def Let_def)
  have c: "count64 P (w # ws) = (if P w then 1 else 0) + count64 P ws" for P by (simp add: count64_def)
  have d: "distinct (map w_address ws)" using Cons.prems by simp
  show ?case
    unfolding fold.simps o_apply s Cons.IH [OF d] l c by (simp add: word_gt_0)
qed (simp add: count64_def)

lemma wallets_keyed_wallets:
  assumes "wallets_keyed s"
  shows "map w_address (all_wallets s) = map fst (st_wallets s)" and "distinct (map w_address (all_wallets s))"
    and "w \<in> set (all_wallets s) \<Longrightarrow> get_wallet s (w_address w) = Some w"
proof -
  have g: "get_wallet s (fst kv) = Some (snd kv)" if "kv \<in> set (st_wallets s)" for kv
    using assms that bt_get_SomeI [of "st_wallets s" "fst kv" "snd kv"] by (simp add: wallets_keyed_def get_wallet_def)
  then show m: "map w_address (all_wallets s) = map fst (st_wallets s)"
    using assms by (auto simp: all_wallets_def wallets_keyed_def)
  then show "distinct (map w_address (all_wallets s))" using assms bt_wf_distinct [of "st_wallets s"] by (simp add: wallets_keyed_def)
  show "w \<in> set (all_wallets s) \<Longrightarrow> get_wallet s (w_address w) = Some w"
    using assms g by (auto simp: all_wallets_def wallets_keyed_def) force
qed

lemma audit_compare_closed:
  assumes "wallets_keyed s"
  shows "audit_compare s acc tip = \<lparr>ca_height = tip, ca_wallets = of_nat (length (st_wallets s)),
     ca_checked = count64 (\<lambda>w. wa_skipped (finished acc tip w) = 0) (all_wallets s),
     ca_skipped = count64 (\<lambda>w. wa_skipped (finished acc tip w) > 0) (all_wallets s),
     ca_drifted = filter (\<lambda>a. wa_skipped a = 0 \<and> has_drifted a) (map (finished acc tip) (all_wallets s))\<rparr>"
proof -
  have "length (all_wallets s) = length (st_wallets s)" by (simp add: all_wallets_def)
  then show ?thesis by (simp add: audit_compare_def compare_fold [OF wallets_keyed_wallets(2) [OF assms]])
qed

section \<open>The audit of an applied chain\<close>

fun applied_chain :: "crypto \<Rightarrow> network \<Rightarrow> block list \<Rightarrow> store \<Rightarrow> store" where
  "applied_chain E n [] s = s"
| "applied_chain E n (b # bs) s = applied_chain E n bs (fst (apply_block E n b s))"

fun auditable_chain :: "crypto \<Rightarrow> network \<Rightarrow> block list \<Rightarrow> store \<Rightarrow> bool" where
  "auditable_chain E n [] s = True"
| "auditable_chain E n (b # bs) s =
     (auditable E n s b \<and> snd (apply_block E n b s) = Inr () \<and> auditable_chain E n bs (fst (apply_block E n b s)))"

lemma books_match_chain: "books_match E n s \<Longrightarrow> auditable_chain E n bs s \<Longrightarrow> books_match E n (applied_chain E n bs s)"
proof (induction bs arbitrary: s)
  case (Cons b bs)
  then show ?case using books_match_step [of E n s b "fst (apply_block E n b s)"] by (cases "apply_block E n b s") auto
qed simp

lemma books_match_empty: "books_match E n store_empty"
  by (simp add: books_match_def wallets_keyed_def get_wallet_def store_empty_def audit_scan_def account_def take_entry_Nil
      audit_default_def stored_balance_def wallet_balance_def stored_nonce_def get_last_height_def)

lemma books_match_clean:
  assumes m: "books_match E n s"
  shows "audit_all E n s = Inr \<lparr>ca_height = get_last_height s, ca_wallets = of_nat (length (st_wallets s)),
     ca_checked = of_nat (length (st_wallets s)), ca_skipped = 0, ca_drifted = []\<rparr>"
proof -
  obtain acc where acc: "audit_scan E n s 0 (get_last_height s) [] = Inr acc"
    "\<And>a. account a acc = (stored_balance s a, stored_nonce s a, 0)" and k: "wallets_keyed s"
    using m by (auto simp: books_match_def)
  have e: "wa_skipped (take_entry (w_address w) acc) = 0" "wa_computed_nonce (take_entry (w_address w) acc) = w_nonce w"
    "wa_computed_balance (take_entry (w_address w) acc) = w_balance w" if "w \<in> set (all_wallets s)" for w
    using acc(2) [of "w_address w"] wallets_keyed_wallets(3) [OF k that]
    by (simp_all add: account_def Let_def stored_balance_def wallet_balance_def stored_nonce_def)
  have "filter (\<lambda>w. wa_skipped (finished acc t w) = 0) (all_wallets s) = all_wallets s"
    "filter (\<lambda>w. wa_skipped (finished acc t w) > 0) (all_wallets s) = []"
    "filter (\<lambda>a. wa_skipped a = 0 \<and> has_drifted a) (map (finished acc t) (all_wallets s)) = []" for t
    using e by (auto simp: filter_id_conv filter_empty_conv finished_drifted finished_fields)
  then show ?thesis
    using acc(1) by (simp add: audit_all_def Let_def audit_compare_closed [OF k] count64_def) (simp add: all_wallets_def)
qed

text \<open>The state audit agrees with the write path: after any chain of auditable blocks, applied one by one to the empty
  store, it checks every wallet, skips none and reports no drift. Auditable are canonical blocks with fresh ids, numbered
  transactions and following nonces, whose releases name transactions of the chain, and which hold no purchase (the audit
  leaves the buyer out, and does not see what the seller gets).\<close>

theorem applied_chain_audits_clean:
  assumes "auditable_chain E n bs store_empty"
  shows "audit_all E n (applied_chain E n bs store_empty) = Inr \<lparr>ca_height = get_last_height (applied_chain E n bs store_empty),
     ca_wallets = of_nat (length (st_wallets (applied_chain E n bs store_empty))),
     ca_checked = of_nat (length (st_wallets (applied_chain E n bs store_empty))), ca_skipped = 0, ca_drifted = []\<rparr>"
  by (rule books_match_clean [OF books_match_chain [OF books_match_empty assms]])

section \<open>A block with a transfer\<close>

text \<open>The first block of a chain: a reward, a fee and a transfer to another address.\<close>

definition paid_transfer :: transaction where
  "paid_transfer = with_id ref_crypto ref_network (ref_transfer\<lparr>tx_nonce := Some 1\<rparr>)"

definition paid_header :: block where
  "paid_header = ref_block\<lparr>b_transactions := [paid_transfer], b_reward := 7\<rparr>"

definition paid_block :: block where
  "paid_block = paid_header\<lparr>b_id := Some (hex_encode ref_crypto (sha256 ref_crypto (header_bytes ref_crypto paid_header)))\<rparr>"

text \<open>The address of the reference key.\<close>

definition payer :: string where "payer = str_of_bytes (63 # ref_digest 20 (unhex ref_crypto ref_key))"

lemma payer_address: "address_from_public_key ref_crypto ref_key 63 = Inr payer"
  by code_simp

lemma payer_before: "payer < ref_address" by code_simp

lemma payer_other: "ref_address \<noteq> payer" "\<not> ref_address < payer"
  using payer_before by auto

lemma unpaid_canonical: "canonical ref_crypto (ref_transfer\<lparr>tx_nonce := Some 1, tx_id := i\<rparr>)"
  by (simp add: canonical_def ref_transfer_def ref_fields has_vendor_field_def canonical_payload_def
      is_sobj_def is_token_def canonical_core_def canonical_sigs_def is_pq_def VERSION_PQ_def
      canonical_schnorr_def)

lemma unpaid_serializes:
  "\<exists>raw. serialize_transaction ref_crypto (ref_transfer\<lparr>tx_nonce := Some 1\<rparr>) opts_default 63 = Inr raw \<and> length raw < 2 ^ 32"
proof -
  have l: "length (unhex ref_crypto ref_key) = 33" "length (unhex ref_crypto ref_sig) = 64"
    "length (unaddr ref_crypto ref_address) = 21"
    using ref_fields hex_fieldD(2) addr_fieldD(2) by blast+
  show ?thesis
    using ref_fields l
    by (simp add: serialize_transaction_def serialize_vendor_field_def serialize_type_payload_def
        serialize_core_def serialize_signatures_def ref_transfer_def has_vendor_field_def is_sobj_def
        is_token_def is_pq_def VERSION_PQ_def write_recipient_def second_signature_any_def opt_hex_def
        opts_default_def w_hex_field write_addr_field w_var8_def)
qed

lemma paid_transfer_fields:
  "tx_type_group paid_transfer = 1" "tx_type paid_transfer = 0" "tx_nonce paid_transfer = Some 1"
  "tx_sender_public_key paid_transfer = ref_key" "tx_fee paid_transfer = 10000000" "tx_amount paid_transfer = 250000000"
  "tx_recipient paid_transfer = Some ref_address" "tx_asset paid_transfer = None" "tx_sequence paid_transfer = None"
  "tx_vendor_field paid_transfer = Some ''hello''" "tx_version paid_transfer = 2"
  using with_id_cases [of ref_crypto ref_network "ref_transfer\<lparr>tx_nonce := Some 1\<rparr>"]
  by (auto simp: paid_transfer_def ref_transfer_def)

lemma paid_block_fields:
  "b_height paid_block = 2" "b_transactions paid_block = [paid_transfer]" "b_total_fee paid_block = 10000000"
  "b_reward paid_block = 7" "b_generator_public_key paid_block = ref_key" "b_previous_block paid_block = ref_hash"
  "b_id paid_block \<noteq> None"
  by (simp_all add: paid_block_def paid_header_def ref_block_def)

lemma paid_forger:
  "forger_delta ref_network paid_block payer [] = [(payer, (add_balance 10000007 delta_default)
     \<lparr>wd_public_key := Some ref_key, wd_produced_blocks := 1, wd_forged_fees := 10000000, wd_forged_rewards := 7,
       wd_last_block := Some \<lparr>lb_id = unwrap_or [] (b_id paid_block), lb_height = 2, lb_timestamp = b_timestamp paid_block\<rparr>\<rparr>)]"
  by (simp add: paid_block_fields forger_delta_def burned_amount_def init_count_def Let_def paid_transfer_fields
   upd_def bt_entry_def add_balance_def delta_default_def)

lemma paid_plain: "sobj_asset_of paid_transfer = None" "token_asset_of paid_transfer = None"
  by (simp_all add: sobj_asset_of_def token_asset_of_def is_sobj_def is_token_def paid_transfer_fields)

lemma paid_tx:
  "tx_delta ref_crypto ref_network V batch paid_block (0, paid_transfer) ds =
     Inr (upd ref_address (add_balance 250000000) (sender_delta paid_transfer payer ds))"
  using payer_address payer_before payer_other
  by (simp add: tx_delta_def paid_transfer_fields paid_plain Let_def core_delta_def transfer_delta_def ref_network_def)

definition sender_gets :: wallet_delta where
  "sender_gets = (add_balance (- 249999993) delta_default)\<lparr>wd_nonce := 1,
       wd_public_key := Some ref_key, wd_produced_blocks := 1, wd_forged_fees := 10000000, wd_forged_rewards := 7,
       wd_last_block := Some \<lparr>lb_id = unwrap_or [] (b_id paid_block), lb_height = 2, lb_timestamp = b_timestamp paid_block\<rparr>\<rparr>"

lemma net63 [simp]: "nw_pubkey_hash ref_network = 63" by (simp add: ref_network_def)

lemma paid_deltas:
  "accumulate_deltas ref_crypto ref_network V [paid_block] paid_block [] =
     Inr [(payer, sender_gets), (ref_address, add_balance 250000000 delta_default)]"
  using payer_address payer_before payer_other
  by (simp add: accumulate_deltas_def paid_block_fields paid_forger paid_tx sender_delta_def paid_transfer_fields
      upd_def bt_entry_def add_balance_def delta_default_def sender_gets_def)

lemma paid_wallets: "\<exists>w1 w2. wallet_apply sender_gets (wallet_new payer) = Inr w1
   \<and> wallet_apply (add_balance 250000000 delta_default) (wallet_new ref_address) = Inr w2"
  by (simp add: wallet_apply_def wallet_new_def delta_default_def i64_try_from_def sender_gets_def add_balance_def
        i64_min_def i64_max_def checked_add_def Let_def)

lemma paid_numbered: "numbered ref_crypto ref_network (0, paid_transfer)"
  and paid_canonical: "canonical ref_crypto paid_transfer"
  and paid_serializes: "\<exists>raw. serialize_transaction ref_crypto paid_transfer opts_default 63 = Inr raw \<and> length raw < 2 ^ 32"
proof -
  let ?tx = "ref_transfer\<lparr>tx_nonce := Some 1\<rparr>"
  obtain raw where raw: "serialize_transaction ref_crypto ?tx opts_default 63 = Inr raw" "length raw < 2 ^ 32"
    using unpaid_serializes by blast
  have p: "paid_transfer = ?tx\<lparr>tx_id := Some (hex_encode ref_crypto (sha256 ref_crypto raw))\<rparr>"
    by (simp add: paid_transfer_def with_id_def raw)
  show s: "\<exists>raw. serialize_transaction ref_crypto paid_transfer opts_default 63 = Inr raw \<and> length raw < 2 ^ 32"
    using raw by (simp add: p serialize_tx_id)
  show "canonical ref_crypto paid_transfer" using unpaid_canonical by (simp add: p)
  have "serialize_transaction ref_crypto paid_transfer opts_default 63 = Inr raw" using raw by (simp add: p serialize_tx_id)
  then show "numbered ref_crypto ref_network (0, paid_transfer)"
    by (simp add: numbered_def with_id_def tx_seq_def paid_transfer_fields) (simp add: p)
qed

lemma paid_block_canonical: "canonical_block ref_crypto ref_network paid_block"
  and paid_block_id: "\<exists>i. b_id paid_block = Some i \<and> block_id ref_crypto paid_block = Inr i"
proof -
  have eq: "header_bytes ref_crypto paid_block = header_bytes ref_crypto paid_header"
    by (simp add: header_bytes_def paid_block_def pq_part_def)
  have c: "canonical_header ref_crypto paid_block"
    using ref_header_canonical by (simp add: canonical_header_def paid_block_def paid_header_def ref_block_def)
  have l: "length (unhex ref_crypto ref_key) = 33" "length (unhex ref_crypto ref_hash) = 32"
    "length (unhex ref_crypto ref_der) = 5"
    using ref_fields(1) ref_block_fields(1) hex_fieldD(2) by (blast, blast, code_simp)
  have "length (header_bytes ref_crypto paid_block) < 2 ^ 32"
    by (simp add: header_bytes_def paid_block_def paid_header_def ref_block_def l opt_unhex_def pq_part_def)
  with c show "canonical_block ref_crypto ref_network paid_block"
    using paid_canonical paid_serializes by (auto simp: canonical_block_def paid_block_fields)
  show "\<exists>i. b_id paid_block = Some i \<and> block_id ref_crypto paid_block = Inr i"
    using serialize_canonical_header [OF c]
    by (simp add: block_id_def eq) (simp add: paid_block_def)
qed

lemma paid_block_applies: "\<exists>s'. apply_block ref_crypto ref_network paid_block store_empty = (s', Inr ())"
proof -
  obtain i where i: "b_id paid_block = Some i" "block_id ref_crypto paid_block = Inr i" using paid_block_id by blast
  obtain enc where enc: "encode_block ref_crypto paid_block ref_network = Inr enc"
    using block_record_round_trip [OF paid_block_canonical] i by (auto simp: paid_block_fields)
  have prep: "prepare_block ref_crypto ref_network paid_block = Inr (paid_block, enc)"
    using prepare_numbered [OF paid_block_fields(7), of ref_crypto ref_network 0] paid_numbered enc
    by (simp add: paid_block_fields)
  obtain w1 w2 where w: "wallet_apply sender_gets (wallet_new payer) = Inr w1"
    "wallet_apply (add_balance 250000000 delta_default) (wallet_new ref_address) = Inr w2" using paid_wallets by blast
  have none: "get_wallet store_empty payer = None" by (simp add: get_wallet_def store_empty_def)
  obtain s1 where s1: "write_wallet (payer, sender_gets) store_empty = Inr (s1, (payer, None), w1)"
    by (simp add: write_wallet_def none w Let_def)
  from write_wallet_ok(3) [OF this] have "get_wallet s1 ref_address = None"
    using payer_other by (simp add: get_wallet_def store_empty_def)
  then obtain s2 where s2: "write_wallet (ref_address, add_balance 250000000 delta_default) s1 = Inr (s2, (ref_address, None), w2)"
    by (simp add: write_wallet_def w Let_def)
  have sw: "write_wallets_undo [(payer, sender_gets), (ref_address, add_balance 250000000 delta_default)] store_empty
      = Inr (s2, [(payer, None), (ref_address, None)], [w1, w2])"
    by (simp add: write_wallets_undo_def s1 s2)
  have "is_ok (tx_addresses ref_crypto paid_transfer 63)"
    using payer_address by (simp add: tx_addresses_def paid_transfer_fields asset_field_def)
  then obtain sb where sb: "write_block ref_crypto 63 (paid_block, enc) s2 = Inr sb"
    using paid_numbered
    by (auto simp: write_block_def Let_def paid_block_fields index_tx_def numbered_def is_ok_def split: sum.splits)
  have "ms_active_delegates (milestone_at ref_network 2) = 21"
    by (simp add: milestone_at_def ref_network_def milestone_default_def)
  with first_block_applies [OF prep paid_deltas sw] sb show ?thesis
    by (simp add: paid_block_fields) (simp add: store_empty_def get_last_height_def)
qed

lemma paid_chain: "auditable_chain ref_crypto ref_network [paid_block] store_empty"
proof -
  obtain i where i: "b_id paid_block = Some i" "block_id ref_crypto paid_block = Inr i" using paid_block_id by blast
  have "auditable ref_crypto ref_network store_empty paid_block"
    using i paid_block_canonical paid_numbered payer_address
    by (simp add: auditable_def recorded_def paid_block_fields is_purchase_def is_sobj_def paid_transfer_fields resolved_def releases_lock_def
        stored_nonce_def get_wallet_def store_empty_def)
  then show ?thesis using paid_block_applies by auto
qed

lemma paid_balances:
  assumes s': "apply_block ref_crypto ref_network paid_block store_empty = (s', Inr ())"
  shows "stored_balance s' ref_address = 250000000" and "stored_balance s' payer = - 249999993"
proof -
  obtain enc where enc: "encode_block ref_crypto paid_block ref_network = Inr enc"
    using block_record_round_trip [OF paid_block_canonical] paid_block_id by (auto simp: paid_block_fields)
  have prep: "prepare_block ref_crypto ref_network paid_block = Inr (paid_block, enc)"
    using prepare_numbered [OF paid_block_fields(7), of ref_crypto ref_network 0] paid_numbered enc
    by (simp add: paid_block_fields)
  obtain ds where ds: "accumulate_deltas ref_crypto ref_network (store_view ref_crypto ref_network store_empty) [paid_block] paid_block [] = Inr ds"
    "\<And>x. stored_balance s' x = stored_balance store_empty x + change_at ds x"
    by (rule applied_change [OF s']) (use prep in auto)
  have "ds = [(payer, sender_gets), (ref_address, add_balance 250000000 delta_default)]"
    using ds(1) by (simp add: paid_deltas)
  then have "change_at ds ref_address = 250000000" "change_at ds payer = - 249999993"
    using payer_other by (simp_all add: change_at_def delta_of_def add_balance_def sender_gets_def) (simp_all add: delta_default_def)
  moreover have "stored_balance store_empty x = 0" for x
    by (simp add: stored_balance_def wallet_balance_def get_wallet_def store_empty_def)
  ultimately show "stored_balance s' ref_address = 250000000" "stored_balance s' payer = - 249999993" using ds(2) by simp_all
qed

theorem applied_chain_audits_clean_witness:
  "\<exists>s r. applied_chain ref_crypto ref_network [paid_block] store_empty = s \<and> stored_balance s ref_address = 250000000
     \<and> audit_all ref_crypto ref_network s = Inr r \<and> ca_drifted r = [] \<and> ca_skipped r = 0"
proof -
  obtain s' where s': "apply_block ref_crypto ref_network paid_block store_empty = (s', Inr ())"
    using paid_block_applies by blast
  show ?thesis using applied_chain_audits_clean [OF paid_chain] s' paid_balances(1) [OF s'] by simp
qed

end
