(* ===== verification/Conservation.thy ===== *)
theory Conservation
  imports AuditProps
begin

text \<open>
  The coins of all wallets under an applied block (\<open>src/src/storage.rs\<close>): what the reward adds, what locks take out
  of the wallets, and what claims and refunds pay back.
\<close>

text \<open>The locked amounts of a block's transactions.\<close>

definition locked_total :: "transaction list \<Rightarrow> int" where
  "locked_total txs = (\<Sum>tx\<leftarrow>txs. if tx_type_group tx = TYPE_GROUP_CORE \<and> tx_type tx = HTLC_LOCK then uint (tx_amount tx) else 0)"

text \<open>What a claim or a refund pays: the amount of the transaction it names, if that is found (and, for a claim, has a
  recipient). No other transaction pays anything that its sender does not lose.\<close>

definition payout :: "ledger_view \<Rightarrow> block list \<Rightarrow> transaction \<Rightarrow> int" where
  "payout V batch tx =
     (if \<not> releases_lock tx then 0
      else case released_id tx of None \<Rightarrow> 0
        | Some i \<Rightarrow> (case find_lock V batch i of
             Inr (Some lock) \<Rightarrow> if tx_type tx = HTLC_CLAIM \<and> tx_recipient lock = None then 0 else uint (tx_amount lock)
           | _ \<Rightarrow> 0))"

lemma plain_type: "canonical E tx \<Longrightarrow> sobj_asset_of tx \<noteq> None \<or> token_asset_of tx \<noteq> None \<Longrightarrow> tx_type_group tx \<noteq> TYPE_GROUP_CORE"
  by (auto simp: sobj_asset_of_def token_asset_of_def is_sobj_def is_token_def split: if_splits)

lemma transfer_recipient:
  assumes "canonical E tx" and "tx_type_group tx = TYPE_GROUP_CORE" and "tx_type tx = TRANSFER"
  shows "tx_recipient tx \<noteq> None"
  using assms by (simp add: canonical_def canonical_payload_def canonical_core_def is_sobj_def is_token_def Let_def)

lemma credit_payout:
  assumes c: "canonical E tx"
  shows "tx_credit V batch tx - uint (tx_amount tx) = payout V batch tx
    - (if tx_type_group tx = TYPE_GROUP_CORE \<and> tx_type tx = HTLC_LOCK then uint (tx_amount tx) else 0)"
proof -
  have w: "wire_shaped tx" using canonical_wire_shaped [OF c] .
  consider (other) "tx_type_group tx \<noteq> TYPE_GROUP_CORE" | (transfer) "tx_type_group tx = TYPE_GROUP_CORE" "tx_type tx = TRANSFER"
    | (lock) "tx_type_group tx = TYPE_GROUP_CORE" "tx_type tx = HTLC_LOCK"
    | (release) "releases_lock tx"
    | (rest) "tx_type_group tx = TYPE_GROUP_CORE" "tx_type tx \<noteq> TRANSFER" "tx_type tx \<noteq> HTLC_LOCK" "\<not> releases_lock tx"
    by (auto simp: releases_lock_def)
  then show ?thesis
  proof cases
    case other
    then show ?thesis using w by (simp add: tx_credit_def payout_def releases_lock_def wire_shaped_def)
  next
    case transfer
    then show ?thesis
      using transfer_recipient [OF c transfer] plain_type [OF c] by (auto simp: tx_credit_def payout_def releases_lock_def)
  next
    case lock
    then show ?thesis by (simp add: tx_credit_def payout_def releases_lock_def)
  next
    case release
    then have "tx_amount tx = 0" using w by (auto simp: wire_shaped_def releases_lock_def)
    then show ?thesis
      using release w plain_type [OF c]
      by (auto simp: tx_credit_def payout_def releases_lock_def wire_shaped_def released_id_def ok_flatten_def
          split: option.splits sum.splits)
  next
    case rest
    then show ?thesis using w by (auto simp: tx_credit_def payout_def releases_lock_def wire_shaped_def)
  qed
qed

text \<open>C1. STH is conserved by the store: applying a block changes the sum of all stored balances by the block's reward, less
  the amounts its transactions lock, plus what its claims and refunds pay, and by nothing else: fees, the burned share of
  a token initialisation (it goes to the burn address), multi-payments, smart-object purchases and token trades move coins
  between wallets only. So a block without locks, claims and refunds creates exactly its reward. The block is one the
  wire format carries, with its ids, and its total fee is the sum of the fees, as the block verification demands.\<close>

theorem applied_block_conserves_sth:
  assumes "apply_block E n b s = (s', Inr ())" and "canonical_block E n b" and "b_id b \<noteq> None"
    and "list_all (numbered E n) (enumerate 0 (b_transactions b))"
    and "uint (b_total_fee b) = (\<Sum>tx\<leftarrow>b_transactions b. uint (tx_fee tx))" and "bt_wf (st_wallets s)"
  shows "coins s' = coins s + uint (b_reward b) - locked_total (b_transactions b)
      + (\<Sum>tx\<leftarrow>b_transactions b. payout (store_view E n s) [b] tx)"
proof -
  let ?V = "store_view E n s"
  obtain ds where ds: "accumulate_deltas E n ?V [b] b [] = Inr ds" and coins: "coins s' = coins s + total_balance ds"
    by (rule applied_fields [OF assms(1,3,4)]) (use assms(6) that in blast)
  have "(\<Sum>tx\<leftarrow>txs. tx_credit ?V [b] tx - uint (tx_amount tx) - uint (tx_fee tx))
      = (\<Sum>tx\<leftarrow>txs. payout ?V [b] tx) - locked_total txs - (\<Sum>tx\<leftarrow>txs. uint (tx_fee tx))"
    if "\<forall>tx \<in> set txs. canonical E tx" for txs
    using that
  proof (induction txs)
    case (Cons t ts)
    then have "canonical E t" by simp
    from credit_payout [OF this, of ?V "[b]"] Cons show ?case by (simp add: locked_total_def split: if_splits)
  qed (simp add: locked_total_def)
  moreover have "\<forall>tx \<in> set (b_transactions b). canonical E tx" using assms(2) by (auto simp: canonical_block_def list_all_iff)
  ultimately show ?thesis
    using accumulate_balance [OF bt_wf_Nil ds] coins assms(5) by (simp add: total_balance_def)
qed

text \<open>The first block of a chain, with a reward of 7, a fee and a transfer: afterwards the wallets hold 7.\<close>

theorem applied_block_conserves_sth_witness:
  "\<exists>s'. apply_block ref_crypto ref_network paid_block store_empty = (s', Inr ()) \<and> coins s' = 7
     \<and> stored_balance s' ref_address = 250000000 \<and> stored_balance s' payer = - 249999993"
proof -
  obtain s' where s': "apply_block ref_crypto ref_network paid_block store_empty = (s', Inr ())"
    using paid_block_applies by blast
  have num: "list_all (numbered ref_crypto ref_network) (enumerate 0 (b_transactions paid_block))"
    using paid_numbered by (simp add: paid_block_fields)
  have "locked_total (b_transactions paid_block) = 0" "payout V B paid_transfer = 0" for V B
    by (simp_all add: locked_total_def payout_def releases_lock_def paid_block_fields paid_transfer_fields)
  moreover have "coins store_empty = 0" "bt_wf (st_wallets store_empty)" by (simp_all add: coins_def store_empty_def)
  ultimately have "coins s' = 7"
    using applied_block_conserves_sth [OF s' paid_block_canonical paid_block_fields(7) num]
    by (simp add: paid_block_fields paid_transfer_fields)
  moreover have "stored_balance s' ref_address = 250000000 \<and> stored_balance s' payer = - 249999993"
    using paid_balances [OF s'] by simp
  ultimately show ?thesis using s' by blast
qed

end
