(* ===== verification/ClaimProps.thy ===== *)
theory ClaimProps
  imports Conservation IntakeProps CatchUp
begin

text \<open>
  What the block intake does with a hash-time-lock claim (\<open>claim_delta\<close>, the rules of \<open>src/src/sync.rs\<close>): the claim
  is paid from the transaction it names, found by its id alone. Nobody asks whether that transaction is a lock, whether
  the lock is open, or whether the secret opens it.
\<close>

section \<open>A claim through the rules and the ledger\<close>

text \<open>An ordinary claim of the transaction with id \<open>k\<close>.\<close>

definition plain_claim :: "string \<Rightarrow> transaction \<Rightarrow> bool" where
  "plain_claim k tx \<longleftrightarrow> tx_type_group tx = TYPE_GROUP_CORE \<and> tx_type tx = HTLC_CLAIM \<and> \<not> is_pq tx
     \<and> second_signature_any tx = None \<and> tx_amount tx = 0
     \<and> (\<exists>c. tx_asset tx = Some (asset_default\<lparr>as_claim := Some c\<rparr>) \<and> hc_lock_transaction_id c = k)"

lemma plain_claim_groups:
  assumes "plain_claim k tx"
  shows "\<not> is_token tx" "\<not> is_sobj tx" "sobj_asset_of tx = None" "token_asset_of tx = None" "payments_total tx = 0"
    "token_buy_total tx view = 0" "tx_amount tx = 0" "\<exists>c. asset_field as_claim tx = Some c \<and> hc_lock_transaction_id c = k"
  using assms by (auto simp: plain_claim_def is_token_def is_sobj_def sobj_asset_of_def token_asset_of_def
      payments_total_def asset_field_def token_buy_total_def asset_default_def)

lemma signature_rules_claim:
  assumes "plain_claim k tx" and "w_second_public_key w = None" and "w_pq_key w = None"
    and "bs_keys bs = []" and "bs_pq_keys bs = []"
  shows "\<exists>bs'. signature_rules E n h tx a (Some w) bs = Inr bs'"
  using assms
  by (auto simp: plain_claim_def signature_rules_def load_keys_def key_of_def pq_key_of_def Let_def check_pq_def
      rule_err_def check_second_signature_def registered_second_key_def)

lemma claim_keys [simp]:
  "bs_keys (add_delta a c bs) = bs_keys bs" "bs_pq_keys (add_delta a c bs) = bs_pq_keys bs"
  "take_lock E n s l bs = (found, bs') \<Longrightarrow> bs_keys bs' = bs_keys bs \<and> bs_pq_keys bs' = bs_pq_keys bs"
  by (auto simp: add_delta_def take_lock_def split: option.splits sum.splits)

lemma plain_claim_checks:
  assumes tx: "plain_claim k tx"
    and a: "address_from_public_key E (tx_sender_public_key tx) (nw_pubkey_hash n) = Inr a"
    and w: "get_wallet s a = Some w" "w_second_public_key w = None" "w_pq_key w = None"
    and funds: "ms_strict_balance (milestone_at n h) \<longrightarrow> uint (tx_fee tx) \<le> w_balance w"
  shows "\<exists>bs. check_tx E n s h tx batch_new = Inr bs"
proof -
  have bw: "batch_wallet s batch_new a = Some w" by (simp add: batch_wallet_def delta_at_def batch_new_def w(1))
  note g = plain_claim_groups [OF tx]
  define bs1 where "bs1 = core_credit E n s tx a (add_delta a (- uint (tx_fee tx)) batch_new)"
  have "balance_rule E n s h tx a (Some w) batch_new = Inr bs1"
    using funds by (auto simp: balance_rule_def batch_spent_def g wallet_balance_def bs1_def Let_def)
  moreover have "bs_keys bs1 = []" "bs_pq_keys bs1 = []"
    by (auto simp: bs1_def core_credit_def batch_new_def plain_claim_def [of k tx] split: prod.splits option.splits dest!: claim_keys(3))
       (use tx in \<open>simp_all add: plain_claim_def\<close>)
  then obtain bs2 where "signature_rules E n h tx a (Some w) bs1 = Inr bs2"
    using signature_rules_claim [OF tx w(2,3)] by blast
  ultimately show ?thesis by (simp add: check_tx_def a bw g Let_def)
qed

definition claim_change :: "network \<Rightarrow> block \<Rightarrow> transaction \<Rightarrow> string \<Rightarrow> string \<Rightarrow> transaction \<Rightarrow> string \<Rightarrow> string \<Rightarrow> string \<Rightarrow> deltas" where
  "claim_change n b tx a g t r k z =
     upd z (\<lambda>d. d\<lparr>wd_locks_removed := wd_locks_removed d @ [k]\<rparr>)
       (upd r (add_balance (uint (tx_amount t))) (sender_delta tx a (forger_delta n b g [])))"

lemma claim_deltas:
  assumes tx: "plain_claim k tx" and b: "b_transactions b = [tx]" "tx_id tx \<noteq> Some k"
    and a: "address_from_public_key E (tx_sender_public_key tx) (nw_pubkey_hash n) = Inr a"
    and g: "address_from_public_key E (b_generator_public_key b) (nw_pubkey_hash n) = Inr g"
    and t: "lv_transaction V k = Inr (Some t)" "tx_recipient t = Some r"
  shows "accumulate_deltas E n V [b] b [] = rbind (address_from_public_key E (tx_sender_public_key t) (nw_pubkey_hash n))
      (\<lambda>z. Inr (claim_change n b tx a g t r k z))"
    and "burned_amount n b = 0"
proof -
  obtain c where c: "asset_field as_claim tx = Some c" "hc_lock_transaction_id c = k" using plain_claim_groups(8) [OF tx] by blast
  have f: "find_lock V [b] k = Inr (Some t)" using b t by (simp add: find_lock_def)
  have ty: "tx_type_group tx = TYPE_GROUP_CORE" "tx_type tx = HTLC_CLAIM" using tx by (simp_all add: plain_claim_def)
  show "accumulate_deltas E n V [b] b [] = rbind (address_from_public_key E (tx_sender_public_key t) (nw_pubkey_hash n))
      (\<lambda>z. Inr (claim_change n b tx a g t r k z))"
    using plain_claim_groups(3,4) [OF tx] f c
    by (cases "address_from_public_key E (tx_sender_public_key t) (nw_pubkey_hash n)")
       (simp_all add: accumulate_deltas_def b(1) a g tx_delta_def Let_def ty core_delta_def claim_delta_def t(2) claim_change_def)
  show "burned_amount n b = 0" by (simp add: burned_amount_def init_count_def b(1) ty)
qed

text \<open>What the block pays: the named amount to the recipient of the named transaction, the fee from the claimer to the
  generator, and the reward.\<close>

definition claim_paid :: "block \<Rightarrow> transaction \<Rightarrow> string \<Rightarrow> string \<Rightarrow> transaction \<Rightarrow> string \<Rightarrow> string \<Rightarrow> int" where
  "claim_paid b tx a g t r x =
     (if x = r then uint (tx_amount t) else 0) - (if x = a then uint (tx_fee tx) else 0)
     + (if x = g then uint (b_reward b) + uint (b_total_fee b) else 0)"

lemma claim_change_at:
  assumes "burned_amount n b = 0" and "tx_amount tx = 0"
  shows "change_at (claim_change n b tx a g t r k z) x = claim_paid b tx a g t r x"
  using assms
  by (simp add: claim_change_def change_at_neutral sender_change forger_change claim_paid_def change_at_def [of "[]"]
      delta_of_def delta_default_def)

lemma claim_change_light: "light (claim_change n b tx a g t r k z)"
proof -
  have keep: "light (upd x f ds)" if "light ds" "\<And>d. wd_tokens (f d) = wd_tokens d \<and> wd_token_meta (f d) = wd_token_meta d
      \<and> wd_token_supply (f d) = wd_token_supply d \<and> wd_nonce (f d) = wd_nonce d" for x f ds
    using that by (simp add: light_def delta_of_upd)
  have "light (sender_delta tx a (forger_delta n b g []))"
    by (auto simp: light_def sender_delta_def forger_delta_def Let_def delta_of_upd add_balance_def
        delta_of_def [of _ "[]"] delta_default_def)
  then show ?thesis unfolding claim_change_def by (intro keep) (simp_all add: add_balance_def)
qed

section \<open>A transfer is claimed\<close>

text \<open>C39. A claim may name an ordinary transfer: the intake accepts a verified, linked block whose one transaction is a claim
  naming a transfer the chain already holds, and the store pays the transfer's amount to its recipient once more while
  nobody is debited for it. The sum of all balances grows by that amount beside the reward: coins are created, by anyone
  who can pay the fee of a claim, as often as wanted.\<close>

theorem claim_pays_transfer_again:
  assumes b: "b_transactions b = [tx]" "b_version b \<noteq> BLOCK_VERSION_PQ" "b_id b = Some i" "numbered E n (0, tx)"
    and tx: "plain_claim k tx" "tx_id tx \<noteq> Some k" "b_total_fee b = tx_fee tx"
    and t: "get_transaction E n s k = Inr (Some t)" "tx_type t = TRANSFER" "tx_recipient t = Some r"
    and a: "address_from_public_key E (tx_sender_public_key tx) (nw_pubkey_hash n) = Inr a"
    and g: "address_from_public_key E (b_generator_public_key b) (nw_pubkey_hash n) = Inr g"
    and w: "get_wallet s a = Some w" "w_second_public_key w = None" "w_pq_key w = None"
    and funds: "ms_strict_balance (milestone_at n (b_height b)) \<longrightarrow> uint (tx_fee tx) \<le> w_balance w"
    and ok: "verify_block E b n now = []" "link_check n now_ms b tip = Inr tip'"
    and app: "apply_block E n b s = (s', Inr ())" and wf: "bt_wf (st_wallets s)"
  shows "sync_apply_blocks E n now now_ms [b] tip True s = (s', Inr tip')
     \<and> (\<forall>x. stored_balance s' x = stored_balance s x + claim_paid b tx a g t r x)
     \<and> coins s' = coins s + uint (b_reward b) + uint (tx_amount t)"
proof -
  obtain bs where "check_tx E n s (b_height b) tx batch_new = Inr bs" using plain_claim_checks [OF tx(1) a w funds] by blast
  then have "check_stateful_rules E n s [b] = Inr ()"
    using b by (simp add: check_stateful_rules_def check_block_def block_pq_rule_def)
  then have intake: "sync_apply_blocks E n now now_ms [b] tip True s = (s', Inr tip')"
    using b(3) ok app by (simp add: sync_apply_blocks_def crypto_check_def apply_block_def)
  have num: "list_all (numbered E n) (enumerate 0 (b_transactions b))" using b(1,4) by simp
  obtain ds where ds: "accumulate_deltas E n (store_view E n s) [b] b [] = Inr ds"
    "\<And>x. stored_balance s' x = stored_balance s x + change_at ds x" "coins s' = coins s + total_balance ds"
    by (rule applied_fields [OF app _ num]) (use b(3) wf that in auto)
  have V: "lv_transaction (store_view E n s) k = Inr (Some t)" using t(1) by (simp add: store_view_def)
  note d = claim_deltas [OF tx(1) b(1) tx(2) a g V t(3)]
  obtain z where "ds = claim_change n b tx a g t r k z" using ds(1) d(1) by (auto simp: rbind_eq_Inr)
  then have "change_at ds x = claim_paid b tx a g t r x" for x
    using claim_change_at [OF d(2) plain_claim_groups(7) [OF tx(1)]] by simp
  moreover have "tx_credit (store_view E n s) [b] tx = uint (tx_amount t)"
    using plain_claim_groups(3,4,8) [OF tx(1)] tx(1,2) b(1) V t(3)
    by (auto simp: tx_credit_def plain_claim_def find_lock_def ok_flatten_def)
  then have "total_balance ds = uint (b_reward b) + uint (tx_amount t)"
    using accumulate_balance [OF bt_wf_Nil ds(1)] plain_claim_groups(7) [OF tx(1)] tx(3) by (simp add: b(1) total_balance_def)
  ultimately show ?thesis using intake ds(2,3) by simp
qed

section \<open>A chain of two blocks\<close>

text \<open>The first block of a chain whose round list is there, with one transfer.\<close>

definition genesis_store :: store where
  "genesis_store = store_empty\<lparr>st_rounds := [(1, [])]\<rparr>"

lemma genesis_writes:
  assumes prep: "prepare_block E n b = Inr (b, enc)" and b: "b_height b = 1" "b_transactions b = [tx]" "b_id b = Some i"
    and tx: "plain_transfer tx" "tx_id tx = Some k" "tx_addresses E tx (nw_pubkey_hash n) = Inr as"
    and a: "address_from_public_key E (tx_sender_public_key tx) (nw_pubkey_hash n) = Inr a"
    and g: "address_from_public_key E (b_generator_public_key b) (nw_pubkey_hash n) = Inr g"
    and room: "\<And>x. i64_try_from (paid b tx a g x) \<noteq> None"
    and ms: "ms_active_delegates (milestone_at n 1) = 21"
  obtains s1 sw undo out where "apply_block E n b genesis_store = (s1, Inr ())"
    and "write_wallets_undo (transfer_delta b tx a (sender_delta tx a (forger_delta n b g []))) genesis_store = Inr (sw, undo, out)"
    and "st_wallets s1 = st_wallets sw" "st_blocks s1 = [(1, enc)]" "st_block_ids s1 = [(i, 1)]" "bt_get (st_txs s1) k = Some 1"
    and "get_last_height s1 = 1"
proof -
  let ?ds = "transfer_delta b tx a (sender_delta tx a (forger_delta n b g []))" and ?s = genesis_store
  note d = transfer_deltas [OF tx(1) b(2) a g]
  have distinct: "distinct (map fst ?ds)" using accumulate_balance [OF bt_wf_Nil d(1)] bt_wf_distinct by blast
  have none: "get_wallet ?s x = None" for x by (simp add: get_wallet_def genesis_store_def store_empty_def)
  have "i64_try_from (stored_balance ?s x + change_at ?ds x) \<noteq> None" for x
    using room [of x] by (simp add: stored_balance_def wallet_balance_def none transfer_deltas_change [OF d(2)])
  moreover have "uint (w_nonce w) + 1 < 2 ^ 64" if "get_wallet ?s x = Some w" for x w using that none by simp
  ultimately obtain sw undo out where sw: "write_wallets_undo ?ds ?s = Inr (sw, undo, out)"
    using light_writes [OF light_transfer distinct] by metis
  have "chain_part sw = chain_part ?s" using write_wallets_record(4) [OF _ distinct] sw by (simp add: write_wallets_undo_step)
  then have f: "st_blocks sw = []" "st_block_ids sw = []" "st_txs sw = []" "get_round sw 1 = Some []" "get_last_height sw = 0"
    by (simp_all add: chain_part_def genesis_store_def store_empty_def get_last_height_def get_round_def)
  obtain sb where sb: "write_block E (nw_pubkey_hash n) (b, enc) sw = Inr sb" "st_wallets sb = st_wallets sw" "st_blocks sb = [(1, enc)]"
    "st_block_ids sb = [(i, 1)]" "bt_get (st_txs sb) k = Some 1" "get_round sb 1 = Some []" "get_last_height sb = 1"
    using f by (simp add: write_block_def Let_def b index_tx_def tx bump_tx_count_def get_last_height_def get_round_def)
  define s1 where "s1 = sb\<lparr>st_undo := bt_put 1 undo (st_undo sb), st_generation := st_generation sb + 1\<rparr>"
  have "commit_batch E n True [(b, enc)] ?ds ?s = Inr (sb\<lparr>st_undo := bt_put 1 undo (st_undo sb)\<rparr>)"
    using sw sb(1) by (simp add: commit_batch_def Let_def b check_tip_def UNDO_DEPTH_def)
       (simp add: genesis_store_def store_empty_def get_last_height_def)
  moreover have "snapshot_round_if_boundary n 1 s1 = Inr s1"
    using sb(6) by (simp add: snapshot_round_if_boundary_def Let_def ms get_round_def s1_def)
  ultimately have "apply_locked E n [b] True ?s = (s1, Inr ())"
    by (simp add: apply_locked_def prep d(1) b s1_def Let_def)
  then have "apply_block E n b ?s = (s1, Inr ())" by (simp add: apply_block_def apply_blocks_def)
  then show thesis using that sw sb by (simp add: s1_def get_last_height_def)
qed

text \<open>Wallet changes that register no key leave the wallets without one.\<close>

definition keyless :: "store \<Rightarrow> bool" where
  "keyless s \<longleftrightarrow> (\<forall>x w. get_wallet s x = Some w \<longrightarrow> w_second_public_key w = None \<and> w_pq_key w = None)"

lemma keyless_writes:
  assumes "write_wallets_undo ds s = Inr (s', undo, out)" and "keyless s"
    and "\<forall>ad \<in> set ds. wd_second_public_key (snd ad) = None \<and> wd_pq_key (snd ad) = None"
  shows "keyless s'"
proof -
  have "rfold write_step ds (s, u0, o0) = Inr (s', undo, out) \<Longrightarrow> keyless s \<Longrightarrow> keyless s'" for u0 o0
    using assms(3)
  proof (induction ds arbitrary: s u0 o0)
    case (Cons ad ds)
    obtain k d where ad: "ad = (k, d)" by (cases ad)
    obtain s1 w u o1 where s1: "write_wallet (k, d) s = Inr (s1, (k, get_wallet s k), w)"
      "rfold write_step ds (s1, u, o1) = Inr (s', undo, out)"
      using Cons.prems(1) unfolding ad by (fastforce simp: rbind_eq_Inr write_step_ok)
    have d: "wd_second_public_key d = None" "wd_pq_key d = None" using Cons.prems(3) by (simp_all add: ad)
    have "w_second_public_key w = None \<and> w_pq_key w = None"
      using write_wallet_ok(1) [OF s1(1)] Cons.prems(2) d
      by (cases "get_wallet s k") (auto simp: keyless_def wallet_apply_def Let_def rbind_eq_Inr or_keep_def wallet_new_def)
    then have "keyless s1"
      using write_wallet_ok(3) [OF s1(1)] Cons.prems(2) by (auto simp: keyless_def get_wallet_def)
    then show ?case using Cons.IH [OF s1(2)] Cons.prems(3) by simp
  qed simp
  with assms(1,2) show ?thesis by (simp add: write_wallets_undo_step)
qed

definition claim_network :: network where
  "claim_network = ref_network\<lparr>nw_genesis_block_id := ref_hash\<rparr>"

lemma claim_network_fields [simp]:
  "nw_pubkey_hash claim_network = 63" "nw_genesis_block_id claim_network = ref_hash"
  "milestone_at claim_network h = milestone_at ref_network h"
  by (simp_all add: claim_network_def regenesis)

text \<open>The genesis block with the reference transfer, and a claim of that transfer in the next block.\<close>

definition claimed_block :: block where
  "claimed_block = ref_block\<lparr>b_id := Some ref_hash, b_timestamp := 72, b_height := 1, b_transactions := [ref_signed_transfer]\<rparr>"

definition ref_claim :: "string \<Rightarrow> transaction" where
  "ref_claim k = ref_transfer\<lparr>tx_type := HTLC_CLAIM, tx_amount := 0, tx_vendor_field := None,
     tx_expiration := None, tx_recipient := None, tx_asset := Some (asset_default\<lparr>as_claim :=
       Some \<lparr>hc_lock_transaction_id = k, hc_unlock_secret = ref_hash\<rparr>\<rparr>)\<rparr>"

definition ref_signed_claim :: "string \<Rightarrow> transaction" where
  "ref_signed_claim k = with_id accept_crypto ref_network (ref_claim k)"

definition claim_block :: "string \<Rightarrow> string \<Rightarrow> block" where
  "claim_block k j = (one_tx_block (ref_signed_claim k))\<lparr>b_id := Some j\<rparr>"

lemma claimed_block_fields [simp]:
  "b_height claimed_block = 1" "b_transactions claimed_block = [ref_signed_transfer]" "b_id claimed_block = Some ref_hash"
  "b_generator_public_key claimed_block = ref_key" "b_total_fee claimed_block = 10000000" "b_reward claimed_block = 0"
  "b_timestamp claimed_block = 72"
  by (simp_all add: claimed_block_def ref_block_def)

lemma ref_signed_claim_accepted:
  assumes "hex_decode accept_crypto k = Some d"
  shows "accepted_tx (ref_signed_claim k)"
proof -
  obtain raw body where "serialize_transaction accept_crypto (ref_claim k) opts_default 63 = Inr raw"
    "serialize_transaction accept_crypto (ref_claim k) for_signing 63 = Inr body"
    using accept_fields assms
    by (simp add: serialize_ref opts_default_def for_signing_def ref_claim_def asset_field_def)
  then show ?thesis
    unfolding ref_signed_claim_def by (rule with_id_accepted) (simp_all add: ref_claim_def ref_transfer_def)
qed

lemma ref_signed_claim_plain:
  "plain_claim k (ref_signed_claim k)" "tx_sender_public_key (ref_signed_claim k) = ref_key" "tx_fee (ref_signed_claim k) = 10000000"
  "tx_amount (ref_signed_claim k) = 0" "tx_sequence (ref_signed_claim k) = None"
  using with_id_cases [of accept_crypto ref_network "ref_claim k"]
  by (auto simp: ref_signed_claim_def ref_claim_def ref_transfer_def plain_claim_def is_pq_def VERSION_PQ_def second_signature_any_def)

lemma claim_block_fields [simp]:
  "b_transactions (claim_block k j) = [ref_signed_claim k]" "b_version (claim_block k j) = 0" "b_id (claim_block k j) = Some j"
  "b_generator_public_key (claim_block k j) = ref_key" "b_height (claim_block k j) = 2" "b_timestamp (claim_block k j) = 80"
  "b_previous_block (claim_block k j) = ref_hash" "b_reward (claim_block k j) = 0" "b_total_fee (claim_block k j) = 10000000"
  by (simp_all add: claim_block_def one_tx_block_def Let_def ref_block_def ref_signed_claim_plain)

lemma accepted_numbered:
  assumes "serialize_transaction accept_crypto tx opts_default 63 = Inr raw" and "tx_sequence tx = None" and "nw_pubkey_hash n' = 63"
  shows "numbered accept_crypto n' (0, with_id accept_crypto ref_network tx)"
  using assms by (simp add: numbered_def with_id_def ref_network_def serialize_tx_id tx_seq_def)

lemma claim_numbered:
  assumes "hex_decode accept_crypto k = Some d"
  shows "numbered accept_crypto claim_network (0, ref_signed_claim k)" "numbered accept_crypto claim_network (0, ref_signed_transfer)"
proof -
  obtain raw where "serialize_transaction accept_crypto (ref_claim k) opts_default 63 = Inr raw"
    using accept_fields assms by (simp add: serialize_ref opts_default_def ref_claim_def asset_field_def)
  then show "numbered accept_crypto claim_network (0, ref_signed_claim k)"
    unfolding ref_signed_claim_def by (rule accepted_numbered) (simp_all add: ref_claim_def ref_transfer_def)
  obtain raw where "serialize_transaction accept_crypto ref_transfer opts_default 63 = Inr raw"
    using accept_fields by (simp add: serialize_ref opts_default_def)
  then show "numbered accept_crypto claim_network (0, ref_signed_transfer)"
    unfolding ref_signed_transfer_def by (rule accepted_numbered) (simp_all add: ref_transfer_def)
qed

lemma claimed_canonical: "canonical_block accept_crypto claim_network claimed_block"
proof -
  have c: "canonical_header accept_crypto claimed_block"
    using ref_header_canonical unfolding canonical_header_def accept_hex by (simp add: claimed_block_def ref_block_def)
  have l: "length (unhex ref_crypto ref_key) = 33" "length (unhex ref_crypto ref_hash) = 32" "length (unhex ref_crypto ref_der) = 5"
    using ref_fields(1) ref_block_fields(1) hex_fieldD(2) by (blast, blast, code_simp)
  have short: "length (header_bytes accept_crypto claimed_block) < 2 ^ 32"
    by (simp add: header_bytes_def accept_hex claimed_block_def ref_block_def l opt_unhex_def pq_part_def)
  have addr: "addr_field accept_crypto = addr_field ref_crypto"
    by (simp add: fun_eq_iff addr_field_def accept_crypto_def cong: option.case_cong)
  have tx: "canonical accept_crypto (ref_transfer\<lparr>tx_id := x\<rparr>)" for x
    by (simp add: canonical_def ref_transfer_def ref_fields has_vendor_field_def canonical_payload_def addr accept_hex
        is_sobj_def is_token_def canonical_core_def canonical_sigs_def is_pq_def VERSION_PQ_def canonical_schnorr_def)
  have lens: "length (unhex ref_crypto ref_sig) = 64" "length (unaddr ref_crypto ref_address) = 21"
    using ref_fields hex_fieldD(2) addr_fieldD(2) by blast+
  have "\<exists>raw. serialize_transaction accept_crypto ref_transfer opts_default 63 = Inr raw \<and> length raw < 2 ^ 32"
    using accept_fields l lens by (simp add: serialize_ref opts_default_def w_var8_def)
  then obtain raw where raw: "serialize_transaction accept_crypto ref_transfer opts_default 63 = Inr raw" "length raw < 2 ^ 32" by blast
  then have e: "ref_signed_transfer = ref_transfer\<lparr>tx_id := Some (hex_encode accept_crypto (sha256 accept_crypto raw))\<rparr>"
    by (simp add: ref_signed_transfer_def with_id_def ref_network_def)
  show ?thesis using tx raw c short by (simp add: canonical_block_def e serialize_tx_id)
qed

lemma claim_link:
  "link_check claim_network (10 ^ 15) (claim_block k j) \<lparr>ct_height = 1, ct_id = Some ref_hash\<rparr> = Inr \<lparr>ct_height = 2, ct_id = Some j\<rparr>"
proof -
  have "ms_blocktime (milestone_at ref_network 2) = 8" "nw_epoch_unix ref_network = 1693267200"
    by (simp_all add: milestone_at_def ref_network_def milestone_default_def)
  then show ?thesis
    unfolding claim_network_def regenesis
    by (simp add: link_check_def future_slot_ms_def slot_number_def slot_start_def epoch_to_unix_def FUTURE_SLOT_GRACE_MS_def Let_def)
qed

text \<open>The chain after its first block: the transfer is stored and paid.\<close>

lemma claimed_chain:
  obtains s1 k d t where "apply_block accept_crypto claim_network claimed_block genesis_store = (s1, Inr ())"
    and "tip_of accept_crypto claim_network s1 = Inr \<lparr>ct_height = 1, ct_id = Some ref_hash\<rparr>" "get_last_height s1 = 1"
    and "tx_id ref_signed_transfer = Some k" "hex_decode accept_crypto k = Some d"
    and "get_transaction accept_crypto claim_network s1 k = Inr (Some t)" "tx_type t = TRANSFER" "tx_recipient t = Some ref_address"
      "tx_amount t = 250000000" "tx_sender_public_key t = ref_key"
    and "\<And>x. stored_balance s1 x = (if x = ref_address then 250000000 else if x = ref_sender then - 250000000 else 0)"
    and "keyless s1" "wallets_keyed s1" "coins s1 = 0" "\<And>x w. get_wallet s1 x = Some w \<Longrightarrow> uint (w_nonce w) \<le> 1"
    and "bt_get (st_block_ids s1) ref_hash = Some 1"
    and "\<exists>b0. get_block_by_height accept_crypto claim_network s1 1 = Inr (Some b0) \<and> b_timestamp b0 = 72"
proof -
  let ?E = accept_crypto and ?n = claim_network and ?b = claimed_block and ?s = genesis_store
  obtain k d where k: "tx_id ref_signed_transfer = Some k" "transaction_id ?E ref_signed_transfer = Inr k" "hex_decode ?E k = Some d"
    using ref_signed_transfer_accepted by (auto simp: accepted_tx_def)
  have num: "list_all (numbered ?E ?n) (enumerate 0 (b_transactions ?b))" using claim_numbered(2) [OF k(3)] by simp
  obtain enc db where enc: "encode_block ?E ?b ?n = Inr enc" "decode_block ?E enc ?n = Inr db"
    and db: "db = ?b\<lparr>b_id := Some ref_hash, b_transactions := annotate (?b\<lparr>b_id := Some ref_hash\<rparr>) 0 (map (with_id ?E ?n) (b_transactions ?b))\<rparr>"
    using block_record_round_trip [OF claimed_canonical, of ref_hash] by auto
  have prep: "prepare_block ?E ?n ?b = Inr (?b, enc)" using prepare_numbered [OF _ num] enc(1) by simp
  have addr: "address_from_public_key ?E (tx_sender_public_key ref_signed_transfer) (nw_pubkey_hash ?n) = Inr ref_sender"
    "address_from_public_key ?E (b_generator_public_key ?b) (nw_pubkey_hash ?n) = Inr ref_sender"
    by (simp_all add: ref_signed_plain ref_sender_address)
  have as: "\<exists>as. tx_addresses ?E ref_signed_transfer (nw_pubkey_hash ?n) = Inr as"
    using addr by (simp add: tx_addresses_def Let_def)
  then obtain as where as: "tx_addresses ?E ref_signed_transfer (nw_pubkey_hash ?n) = Inr as" ..
  have paid: "paid ?b ref_signed_transfer ref_sender ref_sender x
      = (if x = ref_address then 250000000 else if x = ref_sender then - 250000000 else 0)" for x
    using ref_sender_address(2) by (auto simp: paid_def ref_signed_plain)
  let ?ds = "transfer_delta ?b ref_signed_transfer ref_sender (sender_delta ref_signed_transfer ref_sender (forger_delta ?n ?b ref_sender []))"
  have delegates: "ms_active_delegates (milestone_at ref_network 1) = 21"
    by (simp add: milestone_at_def ref_network_def milestone_default_def)
  obtain s1 sw undo out where s1: "apply_block ?E ?n ?b ?s = (s1, Inr ())" and sw: "write_wallets_undo ?ds ?s = Inr (sw, undo, out)"
    and f: "st_wallets s1 = st_wallets sw" "st_blocks s1 = [(1, enc)]" "st_block_ids s1 = [(ref_hash, 1)]" "bt_get (st_txs s1) k = Some 1"
      "get_last_height s1 = 1"
    by (rule genesis_writes [OF prep _ _ _ ref_signed_plain(1) k(1) as addr])
       (auto simp: paid i64_try_from_def i64_min_def i64_max_def delegates)
  note d = transfer_deltas [OF ref_signed_plain(1) _ addr]
  have empty: "get_wallet ?s x = None" "st_wallets ?s = []" for x by (simp_all add: get_wallet_def genesis_store_def store_empty_def)
  obtain ds where ds: "accumulate_deltas ?E ?n (store_view ?E ?n ?s) [?b] ?b [] = Inr ds"
    "\<And>x. stored_balance s1 x = stored_balance ?s x + change_at ds x" "\<And>x. stored_nonce s1 x = stored_nonce ?s x + nonce_at ds x"
    "wallets_keyed ?s \<Longrightarrow> wallets_keyed s1" "coins s1 = coins ?s + total_balance ds"
    by (rule applied_fields [OF s1 _ num]) (use that empty in auto)
  have same: "ds = ?ds" using d(1) ds(1) by simp
  have bal: "stored_balance s1 x = (if x = ref_address then 250000000 else if x = ref_sender then - 250000000 else 0)" for x
    using ds(2) [of x] transfer_deltas_change [OF d(2)] by (simp add: same paid stored_balance_def [of ?s] wallet_balance_def empty)
  have nonce: "uint (w_nonce w) \<le> 1" if "get_wallet s1 x = Some w" for x w
  proof -
    have "w_nonce w = nonce_at ds x" using ds(3) [of x] that by (simp add: stored_nonce_def empty)
    then have "w_nonce w \<le> 1" using light_transfer by (simp add: same light_def nonce_at_def)
    then show ?thesis by (simp add: word_le_def)
  qed
  have "distinct (map fst ds)" using accumulate_balance [OF bt_wf_Nil ds(1)] bt_wf_distinct by blast
  then have "snd ad = delta_of (fst ad) ds" if "ad \<in> set ds" for ad
    using that by (cases ad) (simp add: delta_of_def bt_get_def)
  moreover have "wd_second_public_key (delta_of x ds) = None \<and> wd_pq_key (delta_of x ds) = None" for x
    by (auto simp: same transfer_delta_def sender_delta_def forger_delta_def Let_def delta_of_upd add_balance_def
        delta_of_def [of _ "[]"] delta_default_def split: option.splits prod.splits)
  ultimately have "keyless sw"
    by (intro keyless_writes [OF sw]) (simp_all add: same [symmetric] keyless_def empty)
  then have keyless: "keyless s1" by (simp add: keyless_def get_wallet_def f)
  have "total_balance ds = 0"
    using accumulate_balance [OF bt_wf_Nil ds(1)]
    by (simp add: total_balance_def tx_credit_def ref_signed_plain plain_transfer_groups [OF ref_signed_plain(1)])
       (use ref_signed_plain(1) in \<open>simp add: plain_transfer_def\<close>)
  then have coins: "coins s1 = 0" using ds(5) by (simp add: coins_def empty)
  have keyed: "wallets_keyed s1" using ds(4) by (simp add: wallets_keyed_def empty)
  have blk: "get_block_by_height ?E ?n s1 1 = Inr (Some db)" using enc(2) by (simp add: get_block_by_height_def f transpose_opt_def)
  have tip: "tip_of ?E ?n s1 = Inr \<lparr>ct_height = 1, ct_id = Some ref_hash\<rparr>"
    using blk by (simp add: tip_of_def get_last_block_def f db)
  define t where "t = (with_id ?E ?n ref_signed_transfer)\<lparr>tx_block_id := Some ref_hash, tx_block_height := Some 1, tx_sequence := Some 0\<rparr>"
  have t: "get_transaction ?E ?n s1 k = Inr (Some t)" "tx_type t = TRANSFER" "tx_recipient t = Some ref_address"
    "tx_amount t = 250000000" "tx_sender_public_key t = ref_key"
    using claim_numbered(2) [OF k(3)] k(1) with_id_cases [of ?E ?n ref_signed_transfer] ref_signed_plain
    by (auto simp: get_transaction_def f blk db t_def numbered_def plain_transfer_def)
  show thesis
    by (rule that [OF s1 tip f(5) k(1,3) t bal keyless keyed coins nonce])
       (use blk in \<open>simp_all add: f db\<close>)
qed

text \<open>The eighth byte of a transaction is the low byte of its type, and the digest of the reference instance keeps it.\<close>

lemma type_byte:
  assumes "serialize_transaction accept_crypto tx opts net = Inr raw"
  shows "sha256 accept_crypto raw ! 7 = word_of_nat (unat (tx_type tx) mod 256)"
proof -
  define pre where "pre = [0xff, tx_version tx, unwrap_or net (tx_network tx)] @ u32_le (tx_type_group tx)"
  obtain rest where "raw = pre @ u16_le (tx_type tx) @ rest"
    using assms by (auto simp: serialize_transaction_def rbind_eq_Inr pre_def split: if_splits)
  moreover have "u16_le (tx_type tx) = word_of_nat (unat (tx_type tx) mod 256) # le_bytes 1 (unat (tx_type tx) div 256)"
    by (simp add: u16_le_def numeral_2_eq_2)
  moreover have "length pre = 7" by (simp add: pre_def u32_le_def)
  ultimately have "raw ! 7 = word_of_nat (unat (tx_type tx) mod 256)" "7 < length raw" by (auto simp: nth_append)
  then show ?thesis by (simp add: accept_crypto_def ref_crypto_def ref_digest_def nth_append)
qed

lemma claim_has_other_id: "tx_id (ref_signed_claim (unwrap_or [] (tx_id ref_signed_transfer))) \<noteq> tx_id ref_signed_transfer"
proof -
  obtain x where x: "serialize_transaction accept_crypto ref_transfer opts_default 63 = Inr x"
    using accept_fields by (simp add: serialize_ref opts_default_def)
  define k where "k = hex_encode accept_crypto (sha256 accept_crypto x)"
  have k: "tx_id ref_signed_transfer = Some k" by (simp add: ref_signed_transfer_def with_id_def x k_def)
  obtain d where "hex_decode accept_crypto k = Some d" using accept_fields(8) k_def by blast
  then obtain y where y: "serialize_transaction accept_crypto (ref_claim k) opts_default 63 = Inr y"
    using accept_fields by (simp add: serialize_ref opts_default_def ref_claim_def asset_field_def)
  have "sha256 accept_crypto x ! 7 = 0" "sha256 accept_crypto y ! 7 = 9"
    using type_byte [OF x] type_byte [OF y] by (simp_all add: ref_claim_def ref_transfer_def)
  then have "sha256 accept_crypto y \<noteq> sha256 accept_crypto x" by auto
  then have "hex_encode accept_crypto (sha256 accept_crypto y) \<noteq> k"
    unfolding k_def using ref_hex_decode_encode by (simp add: accept_crypto_def ref_crypto_def) (metis option.inject)
  then show ?thesis by (simp add: k) (simp add: ref_signed_claim_def with_id_def y)
qed

text \<open>The block of the claim is written on that chain.\<close>

lemma claim_block_applies:
  assumes s: "get_last_height s = 1" "bt_get (st_block_ids s) ref_hash = Some 1"
    and b0: "get_block_by_height accept_crypto claim_network s 1 = Inr (Some b0)" "b_timestamp b0 = 72"
    and t: "get_transaction accept_crypto claim_network s k = Inr (Some t)" "tx_recipient t = Some ref_address"
      "tx_amount t = 250000000" "tx_sender_public_key t = ref_key"
    and k: "hex_decode accept_crypto k = Some d" "tx_id (ref_signed_claim k) \<noteq> Some k"
    and bal: "\<And>x. stored_balance s x = (if x = ref_address then 250000000 else if x = ref_sender then - 250000000 else 0)"
    and nonce: "\<And>x w. get_wallet s x = Some w \<Longrightarrow> uint (w_nonce w) \<le> 1"
    and ser: "serialize_block accept_crypto (claim_block k j) True = Inr raw"
  shows "\<exists>s'. apply_block accept_crypto claim_network (claim_block k j) s = (s', Inr ())"
proof -
  let ?E = accept_crypto and ?n = claim_network and ?b = "claim_block k j" and ?tx = "ref_signed_claim k"
  have num: "list_all (numbered ?E ?n) (enumerate 0 (b_transactions ?b))" using claim_numbered(1) [OF k(1)] by simp
  obtain i where i: "tx_id ?tx = Some i" "transaction_id ?E ?tx = Inr i"
    using ref_signed_claim_accepted [OF k(1)] by (auto simp: accepted_tx_def)
  obtain raw' where raw': "serialize_transaction ?E ?tx opts_default 63 = Inr raw'"
    using i(2) by (auto simp: transaction_id_def rbind_eq_Inr MAINNET_PUBKEY_HASH_def)
  have hd: "serialize_block ?E (?b\<lparr>b_transactions := ts\<rparr>) True = serialize_block ?E ?b True" for ts
    by (simp add: serialize_block_def serialize_block_parts_def cong: option.case_cong)
  obtain enc where prep: "prepare_block ?E ?n ?b = Inr (?b, enc)"
    using prepare_numbered [OF _ num] ser raw' hd by (auto simp: encode_block_def Let_def)
  have addr: "address_from_public_key ?E (tx_sender_public_key ?tx) (nw_pubkey_hash ?n) = Inr ref_sender"
    "address_from_public_key ?E (b_generator_public_key ?b) (nw_pubkey_hash ?n) = Inr ref_sender"
    by (simp_all add: ref_signed_claim_plain ref_sender_address)
  have V: "lv_transaction (store_view ?E ?n s) k = Inr (Some t)" using t(1) by (simp add: store_view_def)
  note d = claim_deltas [OF ref_signed_claim_plain(1) _ k(2) addr V t(2)]
  let ?ds = "claim_change ?n ?b ?tx ref_sender ref_sender t ref_address k ref_sender"
  have acc: "accumulate_deltas ?E ?n (store_view ?E ?n s) [?b] ?b [] = Inr ?ds"
    using d(1) by (simp add: t(4) ref_sender_address)
  have distinct: "distinct (map fst ?ds)" using accumulate_balance [OF bt_wf_Nil acc] bt_wf_distinct by blast
  have "change_at ?ds x = claim_paid ?b ?tx ref_sender ref_sender t ref_address x" for x
    using claim_change_at [OF d(2) ref_signed_claim_plain(4)] by simp
  then have "i64_try_from (stored_balance s x + change_at ?ds x) \<noteq> None" for x
    by (simp add: claim_paid_def bal t(3) ref_signed_claim_plain i64_try_from_def i64_min_def i64_max_def)
  moreover have "uint (w_nonce w) + 1 < 2 ^ 64" if "get_wallet s x = Some w" for x w using nonce [OF that] by simp
  ultimately obtain sw undo out where sw: "write_wallets_undo ?ds s = Inr (sw, undo, out)"
    using light_writes [OF claim_change_light distinct] by metis
  have "\<exists>as. tx_addresses ?E ?tx 63 = Inr as"
    using ref_signed_claim_plain(1,2) addr by (auto simp: tx_addresses_def Let_def plain_claim_def asset_field_def asset_default_def)
  then obtain sb where sb: "write_block ?E (nw_pubkey_hash ?n) (?b, enc) sw = Inr sb"
    using i(1) by (auto simp: write_block_def index_tx_def Let_def)
  have "ms_blocktime (milestone_at ref_network 2) = 8" "ms_active_delegates (milestone_at ref_network 2) = 21"
    by (simp_all add: milestone_at_def ref_network_def milestone_default_def)
  then have slots: "slot_number (b_timestamp b0) (ms_blocktime (milestone_at ?n (b_height ?b))) = Inr 9"
    "slot_number (b_timestamp ?b) (ms_blocktime (milestone_at ?n (b_height ?b))) = Inr 10"
    "b_height ?b mod max (ucast (ms_active_delegates (milestone_at ?n (b_height ?b)))) 1 \<noteq> 0"
    by (simp_all add: b0(2) slot_number_def)
  show ?thesis
    by (rule next_slot_applies [OF prep acc sw sb _ _ slots(3) _ slots(1,2)]) (use s b0 in \<open>simp_all add: check_tip_def\<close>)
qed

theorem claim_pays_transfer_again_witness:
  "\<exists>s1 s2 k j. apply_block accept_crypto claim_network claimed_block genesis_store = (s1, Inr ())
     \<and> b_transactions claimed_block = [ref_signed_transfer] \<and> tx_id ref_signed_transfer = Some k
     \<and> b_transactions (claim_block k j) = [ref_signed_claim k]
     \<and> tip_of accept_crypto claim_network s1 = Inr \<lparr>ct_height = 1, ct_id = Some ref_hash\<rparr>
     \<and> sync_apply_blocks accept_crypto claim_network 80 (10 ^ 15) [claim_block k j] \<lparr>ct_height = 1, ct_id = Some ref_hash\<rparr> True s1
         = (s2, Inr \<lparr>ct_height = 2, ct_id = Some j\<rparr>)
     \<and> stored_balance s1 ref_address = 250000000 \<and> stored_balance s2 ref_address = 500000000
     \<and> coins s1 = 0 \<and> coins s2 = 250000000"
proof -
  obtain s1 k d t where s1: "apply_block accept_crypto claim_network claimed_block genesis_store = (s1, Inr ())"
    "tip_of accept_crypto claim_network s1 = Inr \<lparr>ct_height = 1, ct_id = Some ref_hash\<rparr>" "get_last_height s1 = 1"
    and k: "tx_id ref_signed_transfer = Some k" "hex_decode accept_crypto k = Some d"
    and t: "get_transaction accept_crypto claim_network s1 k = Inr (Some t)" "tx_type t = TRANSFER" "tx_recipient t = Some ref_address"
      "tx_amount t = 250000000" "tx_sender_public_key t = ref_key"
    and bal: "\<And>x. stored_balance s1 x = (if x = ref_address then 250000000 else if x = ref_sender then - 250000000 else 0)"
    and w: "keyless s1" "wallets_keyed s1" "coins s1 = 0" "\<And>x w. get_wallet s1 x = Some w \<Longrightarrow> uint (w_nonce w) \<le> 1"
    and b0: "bt_get (st_block_ids s1) ref_hash = Some 1"
      "\<exists>b0. get_block_by_height accept_crypto claim_network s1 1 = Inr (Some b0) \<and> b_timestamp b0 = 72"
    by (rule claimed_chain) (rule that)
  have other: "tx_id (ref_signed_claim k) \<noteq> Some k" using claim_has_other_id k(1) by simp
  obtain j raw where j: "verify_block accept_crypto (claim_block k j) ref_network 80 = []"
    "serialize_block accept_crypto (claim_block k j) True = Inr raw"
    using one_tx_block_with_id [OF ref_signed_claim_accepted [OF k(2)]] unfolding claim_block_def by metis
  obtain s2 where s2: "apply_block accept_crypto claim_network (claim_block k j) s1 = (s2, Inr ())"
  proof -
    obtain b0' where b0': "get_block_by_height accept_crypto claim_network s1 1 = Inr (Some b0')" "b_timestamp b0' = 72"
      using b0(2) by blast
    have "\<exists>s2. apply_block accept_crypto claim_network (claim_block k j) s1 = (s2, Inr ())"
      by (rule claim_block_applies [OF s1(3) b0(1) b0' t(1,3,4,5) k(2) other bal _ j(2)]) (rule w(4))
    then show thesis using that by blast
  qed
  obtain wa where wa: "get_wallet s1 ref_sender = Some wa"
    using bal [of ref_sender] ref_sender_address(2) by (cases "get_wallet s1 ref_sender") (auto simp: stored_balance_def wallet_balance_def)
  have lax: "\<not> ms_strict_balance (milestone_at ref_network 2)" by (simp add: milestone_at_def ref_network_def milestone_default_def)
  have "verify_block accept_crypto (claim_block k j) claim_network 80 = []" using j(1) unfolding claim_network_def regenesis_verify .
  then have again: "sync_apply_blocks accept_crypto claim_network 80 (10 ^ 15) [claim_block k j] \<lparr>ct_height = 1, ct_id = Some ref_hash\<rparr> True s1
      = (s2, Inr \<lparr>ct_height = 2, ct_id = Some j\<rparr>)
    \<and> (\<forall>x. stored_balance s2 x = stored_balance s1 x + claim_paid (claim_block k j) (ref_signed_claim k) ref_sender ref_sender t ref_address x)
    \<and> coins s2 = coins s1 + uint (b_reward (claim_block k j)) + uint (tx_amount t)"
    by (intro claim_pays_transfer_again [OF _ _ _ claim_numbered(1) [OF k(2)] ref_signed_claim_plain(1) other _ t(1,2,3) _ _ wa _ _ _ _ claim_link s2])
       (use w wa in \<open>simp_all add: BLOCK_VERSION_PQ_def ref_signed_claim_plain ref_sender_address keyless_def wallets_keyed_def lax\<close>)
  then have "stored_balance s2 ref_address = 500000000" "coins s2 = 250000000"
    using ref_sender_address(2) by (simp_all add: bal claim_paid_def t(4) w(3))
  with again s1 k(1) bal [of ref_address] w(3) show ?thesis
    by (intro exI [of _ s1] exI [of _ s2] exI [of _ k] exI [of _ j]) simp
qed

end
