(* ===== verification/Spec2Isabelle.thy ===== *)
theory Spec2Isabelle
  imports LedgerTokens StoreQueries FinalityGuard ChainStack IntakeProps ForgerProps NodePool CatchUpStall AddrBookProps NetProps ClaimProps
begin

text \<open>
  A verification development for the SmartHoldem post-quantum core node, a delegated proof-of-stake
  node in Rust (\<open>src/src/\<close>): transactions and blocks come in over the network, are checked, written to
  a key-value store as wallet changes with an undo record per block, and delegates forge the next block
  from the pool of pending transactions; votes of the delegates make blocks final.

  \<^bold>\<open>How the code is read.\<close> Machine integers keep their width (\<open>u8\<close> to \<open>u64\<close> are words, the release
  profile has no overflow checks, so \<open>+\<close> wraps; \<open>checked_\<close> and \<open>saturating_\<close> operations are functions of
  \<open>Prelude\<close>), \<open>i128\<close> sums are integers, \<open>usize\<close> is \<open>nat\<close>. A \<open>String\<close> is its UTF-8 bytes as a \<open>char list\<close>
  (\<open>Text\<close>). \<open>BTreeMap\<close>, \<open>HashMap\<close> and the sled tree are ordered association lists (\<open>btmap\<close>, the locale
  \<open>kv_map\<close> states their laws). A \<open>Result\<close> is a sum, the rules return their error codes, and a panic is the
  error \<open>Panic\<close>. Operations that may commit before they fail return the store beside the result. The
  crates for hashes, curves, ML-DSA, hex and base58 are the fields of the record \<open>crypto\<close>, an argument of
  every definition that uses them; what is assumed of them (decoding inverts encoding, digest lengths)
  are the named predicates \<open>hex_laws\<close>, \<open>bs58check_laws\<close> and so on, and \<open>RefCrypto\<close> is an instance that
  satisfies them. The network configuration is the argument \<open>n\<close>.

  \<^bold>\<open>Parts and theories.\<close>

  \<^item> \<open>Prelude\<close>, \<open>Text\<close>: integers, results, maps, strings; shared lemmas and the collection \<open>frame\<close>.
  \<^item> \<open>Models\<close>: \<open>models/block.rs\<close>, \<open>models/transaction.rs\<close>, the \<open>crypto\<close> record.
  \<^item> \<open>Bytes\<close>, \<open>TxCodec\<close>: \<open>crypto/bytes.rs\<close>, \<open>address.rs\<close>, \<open>tx_serializer.rs\<close>, \<open>tx_deserializer.rs\<close>.
    \<open>TxRoundTrip\<close>, \<open>TxWire\<close>: canonical transactions survive the wire, distinct ones have distinct bytes,
    signatures are not part of what is signed.
  \<^item> \<open>Milestones\<close>: \<open>config.rs\<close>, the parameters per height; the supply is the sum of the rewards.
  \<^item> \<open>Wallet\<close>: wallet state and wallet deltas of \<open>storage.rs\<close>.
  \<^item> \<open>Rules\<close>: \<open>rules.rs\<close>; second factors are enforced, token rules cover what they allow.
  \<^item> \<open>BlockCodec\<close>, \<open>BlockWire\<close>: \<open>block_serializer.rs\<close>, \<open>block_deserializer.rs\<close>, the stored record; an
    accepted block is sound, a stored block reads back.
  \<^item> \<open>Ledger\<close>, \<open>LedgerTokens\<close>: \<open>accumulate_deltas\<close> of \<open>storage.rs\<close>, one definition per transaction type; what the wallet
    changes of a block sum to, and how held token units, the registered supply and the escrow of the orders
    move together.
  \<^item> \<open>Round\<close>: \<open>delegate/round.rs\<close>; rounds partition the heights, the shuffle is a permutation.
  \<^item> \<open>Store\<close>, \<open>Chain\<close>: the queries and the writes of \<open>storage.rs\<close>. \<open>ChainFacts\<close>, \<open>VoteIndex\<close>, \<open>ChainProps\<close>,
    \<open>Rollback\<close>, \<open>StoreQueries\<close>: frames, the vote index, extension of the tip, rollback as the inverse of
    apply, certificates, the searches and the order book.
  \<^item> \<open>StateAudit\<close>: the state audit of \<open>storage.rs\<close> and its repair, a second account of what a block does. \<open>AuditBooks\<close>,
    \<open>AuditChain\<close>, \<open>AuditRun\<close>, \<open>AuditProps\<close>: transaction by transaction and block by block it books what the ledger
    writes, so the audit of a chain without purchases finds no drift. \<open>Conservation\<close>: the sum of all stored balances
    under an applied block.
  \<^item> \<open>ChainStack\<close>: the abstract specification of the store, a log of blocks (locale \<open>record_log\<close>), and the
    refinement of \<open>apply_blocks\<close> and \<open>rollback_to\<close> to it.
  \<^item> \<open>StatefulRules\<close>, \<open>StatefulProps\<close>: the intake of a batch in \<open>sync.rs\<close>, with the overlay the rules replay;
    under \<open>strictBalance\<close> no wallet goes below zero.
  \<^item> \<open>Finality\<close>, \<open>FinalityProps\<close>, \<open>FinalityGuard\<close>: \<open>p2p_iroh/finality.rs\<close>; the quorum arithmetic is the locale
    \<open>quorum_system\<close>. Agreement, progress from a quorum of votes, the guard of the own votes.
  \<^item> \<open>BlockBuilder\<close>, \<open>BuilderProps\<close>: \<open>delegate/block_builder.rs\<close>; a forged block verifies, the selection
    keeps the limits and the nonce order.
  \<^item> \<open>AntiSpam\<close>, \<open>Mempool\<close>, \<open>MempoolProps\<close>, \<open>MempoolLive\<close>, \<open>PoolCases\<close>: \<open>antispam.rs\<close>, \<open>mempool.rs\<close> and the fee
    part of \<open>node_config.rs\<close>; the pool keeps its shape and what it admitted at one chain state is forged.
  \<^item> \<open>Intake\<close>: the rest of \<open>intake.rs\<close>, statistics, watchdog step and the swap of two blocks at the tip. \<open>Replay\<close>,
    \<open>IntakeProps\<close>, \<open>ClaimProps\<close>: what the ways into the store do not ask about a block, a transaction or a claim.
  \<^item> \<open>Guard\<close>: the double-forge guard, \<open>delegate/guard.rs\<close>. \<open>Forging\<close>, \<open>Forger\<close>, \<open>ForgerProps\<close>: \<open>delegate/forger.rs\<close>, the
    tick, the wait for the peers and the slot from the pool to the applied block; a slot needs a quorum,
    and a key that is active elsewhere is silent.
  \<^item> \<open>NodePool\<close>: \<open>node_pool.rs\<close>, the request budgets of the nodes blocks are downloaded from.
  \<^item> \<open>PeerTable\<close>: \<open>p2p_legacy/health.rs\<close>, \<open>p2p_iroh/peers.rs\<close>. \<open>CatchUp\<close>, \<open>CatchUpProps\<close>, \<open>CatchUpStall\<close>: the parallel
    download of \<open>p2p_legacy/follow.rs\<close> as steps of its tasks; no height is lost while the peers are honest and
    the chain is not moved elsewhere, and the download waits for ever when it is.
  \<^item> \<open>SocketAddr\<close>, \<open>AddrBook\<close>, \<open>AddrBookProps\<close>: \<open>p2p_iroh/addrbook.rs\<close> with the standard library's address parser it
    rests on; the book holds verified records only (locale \<open>book_invariant\<close>), and two books told the same records agree.
  \<^item> \<open>LegacyWire\<close>, \<open>LegacyProps\<close>: the frames and the two block formats of \<open>p2p_legacy/client.rs\<close> and \<open>server.rs\<close>; what a
    node serves or pushes is what the other node reads.
  \<^item> \<open>PeerIntake\<close>: the record \<open>node\<close>, which holds what the handlers share, and the requests of \<open>p2p_legacy/server.rs\<close>.
    \<open>Gossip\<close>: \<open>p2p_iroh/gossip.rs\<close>, \<open>rpc.rs\<close> and \<open>delegates.rs\<close>, message by message and turn by turn. \<open>Follow\<close>:
    \<open>follow_live\<close> of \<open>p2p_legacy/follow.rs\<close>. \<open>NetProps\<close>: a pushed block ends as the batch the intake applies; what a
    peer hint does to the next download.

  \<^bold>\<open>Loops.\<close> The two reading loops of the version-3 signature section take the number of bytes left as
  fuel (\<open>r_pq_blocks_total\<close>, \<open>r_parts_total\<close>: it is enough), \<open>rollback_to\<close> takes the tip
  (\<open>rollback_to_reaches\<close>), the selection loop and the binary search have termination proofs. The wait for
  the peers runs over a list of observations, one per turn, and gives \<open>None\<close> while it still waits. Times
  (\<open>Instant\<close>, the epoch clock) are arguments; the quorum share, a float in the source, is a rational.

  \<^bold>\<open>Defects.\<close> Some theorems state what the code does where it misses its purpose: the swap at the tip writes
  an unverified block, blocks are accepted from keys that are not scheduled and with transactions the
  chain already holds, a claim pays any transaction it names once more, a token purchase is debited twice by the rules, an expired pending transaction stops the
  forgers, one vote in two spellings bans a delegate, a restart forgets the own votes, two index and two
  batch defects, concurrent admissions and an unchecked mint, post-quantum blocks lost on the legacy
  port, address records emptied by whoever passes them on, a download aimed at a height nobody has. Each has a
  concrete instance.

  \<^bold>\<open>Not modelled.\<close> Sockets, the iroh endpoint and its gossip transport, protobuf and JSON, the REST interface, the
  wallet service, the console, the command line, snapshot files, the mnemonic and key files: they move data between the modelled parts and the outside, or render it. The sleeps and
  timeouts of the network loops are not modelled either: a loop is its turn, and what a peer answers is an
  argument of it. Curve and hash arithmetic is third-party code. The sled tree is taken as an ordered map whose
  transactions are atomic, as its documentation promises; the byte keys of the tree are not modelled, each
  key family is a field of the record \<open>store\<close>.
\<close>

end
